(* ===== verification/Prelude.thy ===== *)
theory Prelude
  imports Complex_Main "HOL-Library.AList" "HOL-Library.Char_ord" "HOL-Library.List_Lexorder"
    "HOL-Library.Product_Lexorder"
begin

text \<open>
  Shared vocabulary of the development: results of fallible code, Python dictionaries as
  insertion-ordered association lists, the string operations and the dynamically typed values
  the sources use, and the generic store interface that every in-memory store of the panel
  implements.

  Conventions used by every theory of the library:
  \<^item> a Python \<open>str\<close> is a HOL \<^typ>\<open>string\<close>; the sources handle ASCII material here (ids,
    tags, tokens, paths), and string operations are modelled for ASCII;
  \<^item> strings, and tuples of ordered values, compare lexicographically, as in Python
    (\<open>Char_ord\<close>, \<open>List_Lexorder\<close>, \<open>Product_Lexorder\<close>);
  \<^item> a Python \<open>int\<close> is an \<^typ>\<open>int\<close>: it does not overflow;
  \<^item> a Python \<open>dict\<close> is an association list with distinct keys: assignment to an existing key
    keeps its position, a new key goes to the end, iteration follows the list;
  \<^item> a raised exception is an \<^term>\<open>Inl\<close> value, a normal return an \<^term>\<open>Inr\<close> value.
\<close>

named_theorems dict_simps \<open>rewriting rules for dictionary operations\<close>

section \<open>Results\<close>

definition rbind :: "'e + 'a \<Rightarrow> ('a \<Rightarrow> 'e + 'b) \<Rightarrow> 'e + 'b" where
  "rbind r f = (case r of Inl e \<Rightarrow> Inl e | Inr x \<Rightarrow> f x)"

lemma rbind_simps [simp]:
  "rbind (Inl e) f = Inl e"
  "rbind (Inr x) f = f x"
  by (simp_all add: rbind_def)

lemma rbind_Inr_iff: "rbind r f = Inr y \<longleftrightarrow> (\<exists>x. r = Inr x \<and> f x = Inr y)"
  by (cases r) auto

lemma rbind_Inl_iff: "rbind r f = Inl e \<longleftrightarrow> r = Inl e \<or> (\<exists>x. r = Inr x \<and> f x = Inl e)"
  by (cases r) auto

lemma rbind_assoc: "rbind (rbind r f) g = rbind r (\<lambda>x. rbind (f x) g)"
  by (cases r) auto

section \<open>Dictionaries\<close>

type_synonym ('k, 'v) dict = "('k \<times> 'v) list"

abbreviation dict_get :: "('k, 'v) dict \<Rightarrow> 'k \<Rightarrow> 'v option" where
  "dict_get \<equiv> map_of"

abbreviation dict_set :: "'k \<Rightarrow> 'v \<Rightarrow> ('k, 'v) dict \<Rightarrow> ('k, 'v) dict" where
  "dict_set \<equiv> AList.update"

abbreviation dict_pop :: "'k \<Rightarrow> ('k, 'v) dict \<Rightarrow> ('k, 'v) dict" where
  "dict_pop \<equiv> AList.delete"

abbreviation dict_keys :: "('k, 'v) dict \<Rightarrow> 'k list" where
  "dict_keys d \<equiv> map fst d"

abbreviation dict_ok :: "('k, 'v) dict \<Rightarrow> bool" where
  "dict_ok d \<equiv> distinct (map fst d)"

definition dict_in :: "'k \<Rightarrow> ('k, 'v) dict \<Rightarrow> bool" where
  "dict_in k d \<longleftrightarrow> dict_get d k \<noteq> None"

lemma dict_in_set: "dict_in k d \<longleftrightarrow> k \<in> set (dict_keys d)"
  by (simp add: dict_in_def map_of_eq_None_iff)

text \<open>\<open>d.update(e)\<close>: assign the pairs of \<open>e\<close> one after the other.\<close>

definition dict_update :: "('k, 'v) dict \<Rightarrow> ('k, 'v) dict \<Rightarrow> ('k, 'v) dict" where
  "dict_update d e = fold (\<lambda>(k, v). dict_set k v) e d"

lemma dict_get_set [dict_simps, simp]:
  "dict_get (dict_set k v d) k' = (if k' = k then Some v else dict_get d k')"
  by (simp add: update_conv')

lemma dict_get_pop [dict_simps, simp]:
  "dict_get (dict_pop k d) k' = (if k' = k then None else dict_get d k')"
  by (simp add: delete_conv')

lemma dict_ok_set [dict_simps, simp]: "dict_ok d \<Longrightarrow> dict_ok (dict_set k v d)"
  by (rule distinct_update)

lemma dict_ok_pop [dict_simps, simp]: "dict_ok d \<Longrightarrow> dict_ok (dict_pop k d)"
  by (rule distinct_delete)

lemma dict_get_update:
  "dict_ok e \<Longrightarrow> dict_get (dict_update d e) k = (case dict_get e k of None \<Rightarrow> dict_get d k | Some v \<Rightarrow> Some v)"
proof (induction e arbitrary: d)
  case Nil
  then show ?case by (simp add: dict_update_def)
next
  case (Cons p e)
  obtain a b where p: "p = (a, b)" by (cases p)
  have "dict_get (dict_update (dict_set a b d) e) k =
      (case dict_get e k of None \<Rightarrow> dict_get (dict_set a b d) k | Some v \<Rightarrow> Some v)"
    using Cons by (simp add: p)
  moreover have "k = a \<Longrightarrow> dict_get e k = None"
    using Cons.prems by (simp add: p map_of_eq_None_iff)
  ultimately show ?case
    by (auto simp: p dict_update_def split: option.splits)
qed

lemma dict_ok_update: "dict_ok d \<Longrightarrow> dict_ok (dict_update d e)"
  by (induction e arbitrary: d) (auto simp: dict_update_def)

lemma dict_get_ext:
  assumes "\<And>k. dict_get d k = dict_get e k"
  shows "set (dict_keys d) = set (dict_keys e)"
proof -
  have "k \<in> set (dict_keys d) \<longleftrightarrow> k \<in> set (dict_keys e)" for k
    using assms [of k] map_of_eq_None_iff [of d k] map_of_eq_None_iff [of e k] by auto
  then show ?thesis by blast
qed

lemma map_of_map_snd: "map_of (map (\<lambda>(k, v). (k, f v)) d) k = map_option f (map_of d k)"
  by (induction d) auto

lemma map_of_filter_key:
  "map_of (filter (\<lambda>(k, v). P k) d) k = (if P k then map_of d k else None)"
  by (induction d) auto

lemma keys_dict_set: "set (dict_keys (dict_set k v d)) = insert k (set (dict_keys d))"
  by (simp add: dom_update)

lemma keys_dict_pop: "set (dict_keys (dict_pop k d)) = set (dict_keys d) - {k}"
  by (induction d) auto

lemma set_dict_set: "set (dict_set k v d) \<subseteq> insert (k, v) (set d)"
  by (induction d) auto

lemma set_dict_pop: "set (dict_pop k d) \<subseteq> set d"
  by (induction d) auto

lemma distinct_map_sort_key [simp]: "distinct (map f (sort_key g xs)) \<longleftrightarrow> distinct (map f xs)"
  by (simp add: distinct_map)

lemma sum_list_insort_key:
  "sum_list (map f (insort_key g x xs)) = f x + (sum_list (map f xs) :: 'a :: comm_monoid_add)"
  by (induction xs) (auto simp: ac_simps)

lemma sum_list_sort_key:
  "sum_list (map f (sort_key g xs)) = (sum_list (map f xs) :: 'a :: comm_monoid_add)"
  by (induction xs) (auto simp: sum_list_insort_key)

lemma map_of_sort_key:
  assumes "dict_ok d"
  shows "map_of (sort_key g d) k = map_of d k"
proof (cases "map_of d k")
  case None
  then have "map_of (sort_key g d) k = None" by (simp add: map_of_eq_None_iff)
  with None show ?thesis by simp
next
  case (Some v)
  then have "(k, v) \<in> set (sort_key g d)" by (simp add: map_of_SomeD)
  with Some assms show ?thesis by simp
qed

section \<open>The keyed store interface\<close>

text \<open>
  Every in-memory store of the panel (\<open>InMemoryQuotaStore\<close>, \<open>InMemoryRefreshTokenStore\<close>, ...)
  is a dictionary of rows behind \<open>get\<close> and \<open>put\<close>. The interface states what its clients rely
  on: a read after a write of the same key returns the written row, other keys are not
  touched, and the rows of the store are those its keys reach.
\<close>

locale keyed_store =
  fixes get :: "'s \<Rightarrow> 'k \<Rightarrow> 'v option"
    and put :: "'k \<Rightarrow> 'v \<Rightarrow> 's \<Rightarrow> 's"
    and invar :: "'s \<Rightarrow> bool"
  assumes get_put: "invar s \<Longrightarrow> get (put k v s) k' = (if k' = k then Some v else get s k')"
    and invar_put: "invar s \<Longrightarrow> invar (put k v s)"
begin

lemma get_put_same: "invar s \<Longrightarrow> get (put k v s) k = Some v"
  by (simp add: get_put)

lemma get_put_other: "invar s \<Longrightarrow> k' \<noteq> k \<Longrightarrow> get (put k v s) k' = get s k'"
  by (simp add: get_put)

lemma get_fold_put_notin:
  "invar s \<Longrightarrow> k \<notin> f ` set xs \<Longrightarrow> get (fold (\<lambda>x. put (f x) (g x)) xs s) k = get s k"
  by (induction xs arbitrary: s) (auto simp: get_put invar_put)

lemma invar_fold_put: "invar s \<Longrightarrow> invar (fold (\<lambda>x. put (f x) (g x)) xs s)"
  by (induction xs arbitrary: s) (auto simp: invar_put)

lemma get_fold_put_in:
  "\<lbrakk>invar s; distinct (map f xs); x \<in> set xs\<rbrakk>
    \<Longrightarrow> get (fold (\<lambda>x. put (f x) (g x)) xs s) (f x) = Some (g x)"
proof (induction xs arbitrary: s)
  case Nil
  then show ?case by simp
next
  case (Cons y xs)
  show ?case
  proof (cases "x = y")
    case True
    with Cons.prems have "f x \<notin> f ` set xs" by auto
    with True Cons.prems show ?thesis
      by (simp add: get_fold_put_notin invar_put get_put)
  next
    case False
    with Cons show ?thesis by (simp add: invar_put)
  qed
qed

end

interpretation dict_store: keyed_store dict_get dict_set dict_ok
  by unfold_locales auto

end
