(* ===== verification/Stats.thy ===== *)
theory Stats
  imports Prelude
begin

text \<open>
  Counter arithmetic shared by every usage-reporting driver (\<open>app/cores/stats.py\<close>):
  \<open>DeltaTracker\<close> turns cumulative counters into deltas, \<open>SessionUsageTracker\<close> does the same per
  session and closes a session with an authoritative final counter.

  Both trackers offer the same contract, stated as the locale \<open>counter_tracker\<close>: an observation
  returns the growth of the counter over the baseline of its key and moves that baseline only. The
  conservation results are proved once in the locale, against a provider that carries traffic,
  may restart at any moment and is polled at any moment.
\<close>

section \<open>DeltaTracker\<close>

type_synonym 'k delta_tracker = "('k, int \<times> int) dict"

definition delta :: "int \<Rightarrow> int \<Rightarrow> int" where
  "delta current previous =
     (let current = max 0 current; previous = max 0 previous
      in if current \<ge> previous then current - previous else current)"

definition baseline_of :: "'k delta_tracker \<Rightarrow> 'k \<Rightarrow> int \<times> int" where
  "baseline_of t k = (case dict_get t k of None \<Rightarrow> (0, 0) | Some b \<Rightarrow> b)"

definition observe :: "'k delta_tracker \<Rightarrow> 'k \<Rightarrow> int \<Rightarrow> int \<Rightarrow> (int \<times> int) \<times> 'k delta_tracker" where
  "observe t key uplink downlink =
     (let (base_up, base_down) = baseline_of t key;
          uplink = max 0 uplink; downlink = max 0 downlink;
          delta_up = delta uplink base_up;
          delta_down = delta downlink base_down
      in ((delta_up, delta_down), dict_set key (uplink, downlink) t))"

definition forget :: "'k delta_tracker \<Rightarrow> 'k \<Rightarrow> 'k delta_tracker" where
  "forget t key = dict_pop key t"

definition baseline_snapshot :: "'k delta_tracker \<Rightarrow> 'k list option \<Rightarrow> ('k, int \<times> int) dict" where
  "baseline_snapshot t keys =
     (case keys of None \<Rightarrow> t | Some ks \<Rightarrow> filter (\<lambda>(k, v). k \<in> set ks) t)"

definition restore :: "'k delta_tracker \<Rightarrow> ('k, int \<times> int) dict \<Rightarrow> 'k delta_tracker" where
  "restore t baseline = dict_update t baseline"

section \<open>SessionUsageTracker\<close>

record session_state =
  ss_uplink :: int
  ss_downlink :: int

type_synonym 'k session_tracker = "('k, session_state) dict"

definition session_base :: "'k session_tracker \<Rightarrow> 'k \<Rightarrow> session_state" where
  "session_base t key =
     (case dict_get t key of None \<Rightarrow> \<lparr>ss_uplink = 0, ss_downlink = 0\<rparr> | Some s \<Rightarrow> s)"

definition poll :: "'k session_tracker \<Rightarrow> 'k \<Rightarrow> int \<Rightarrow> int \<Rightarrow> (int \<times> int) \<times> 'k session_tracker" where
  "poll t key uplink downlink =
     (let last = session_base t key;
          uplink = max 0 uplink; downlink = max 0 downlink;
          d = (delta uplink (ss_uplink last), delta downlink (ss_downlink last))
      in (d, dict_set key \<lparr>ss_uplink = uplink, ss_downlink = downlink\<rparr> t))"

definition session_snapshot :: "'k session_tracker \<Rightarrow> ('k, int \<times> int) dict" where
  "session_snapshot t = map (\<lambda>(k, v). (k, (ss_uplink v, ss_downlink v))) t"

definition restore_sessions :: "'k session_tracker \<Rightarrow> ('k, int \<times> int) dict \<Rightarrow> 'k session_tracker" where
  "restore_sessions t snapshot =
     dict_update t (map (\<lambda>(k, v). (k, \<lparr>ss_uplink = fst v, ss_downlink = snd v\<rparr>)) snapshot)"

definition close_session ::
  "'k session_tracker \<Rightarrow> 'k \<Rightarrow> int \<Rightarrow> int \<Rightarrow> (int \<times> int) \<times> 'k session_tracker" where
  "close_session t key final_uplink final_downlink =
     (let last = session_base t key
      in ((delta final_uplink (ss_uplink last), delta final_downlink (ss_downlink last)),
          dict_pop key t))"

definition active_sessions :: "'k session_tracker \<Rightarrow> 'k list" where
  "active_sessions t = dict_keys t"

section \<open>The tracker contract\<close>

text \<open>
  The environment of a tracker: a provider that counts traffic, may lose its counters (a core
  restart), and is polled by the panel. \<open>carried\<close> is the traffic that really crossed,
  \<open>reported\<close> the sum of the deltas the tracker emitted.
\<close>

datatype provider_event = Traffic nat nat | CounterReset | PollNow

record 't metering =
  tracker :: 't
  counter_up :: int
  counter_down :: int
  reported_up :: int
  reported_down :: int
  carried_up :: int
  carried_down :: int

definition metering_start :: "'t \<Rightarrow> 't metering" where
  "metering_start t = \<lparr>tracker = t, counter_up = 0, counter_down = 0,
     reported_up = 0, reported_down = 0, carried_up = 0, carried_down = 0\<rparr>"

fun meter_step ::
  "('t \<Rightarrow> 'k \<Rightarrow> int \<Rightarrow> int \<Rightarrow> (int \<times> int) \<times> 't) \<Rightarrow> 'k \<Rightarrow> 't metering \<Rightarrow> provider_event \<Rightarrow> 't metering" where
  "meter_step obs key m (Traffic u d) =
     m\<lparr>counter_up := counter_up m + int u, counter_down := counter_down m + int d,
       carried_up := carried_up m + int u, carried_down := carried_down m + int d\<rparr>"
| "meter_step obs key m CounterReset = m\<lparr>counter_up := 0, counter_down := 0\<rparr>"
| "meter_step obs key m PollNow =
     (case obs (tracker m) key (counter_up m) (counter_down m) of
        ((du, dd), t') \<Rightarrow>
          m\<lparr>tracker := t', reported_up := reported_up m + du, reported_down := reported_down m + dd\<rparr>)"

definition meter_run ::
  "('t \<Rightarrow> 'k \<Rightarrow> int \<Rightarrow> int \<Rightarrow> (int \<times> int) \<times> 't) \<Rightarrow> 'k \<Rightarrow> 't metering \<Rightarrow> provider_event list \<Rightarrow> 't metering" where
  "meter_run obs key m es = foldl (meter_step obs key) m es"

lemma delta_nonneg [simp]: "0 \<le> delta c p"
  by (simp add: delta_def Let_def)

lemma delta_le: "delta c p \<le> max 0 c"
  by (simp add: delta_def Let_def)

lemma delta_add_le: "0 \<le> c \<Longrightarrow> 0 \<le> n \<Longrightarrow> delta (c + n) p \<le> delta c p + n"
  by (simp add: delta_def Let_def)

lemma delta_zero [simp]: "delta 0 p = 0"
  by (simp add: delta_def Let_def)

lemma delta_same [simp]: "delta c c = 0"
  by (simp add: delta_def Let_def)

lemma delta_mono_eq: "0 \<le> p \<Longrightarrow> p \<le> c \<Longrightarrow> delta c p = c - p"
  by (simp add: delta_def Let_def)

locale counter_tracker =
  fixes base :: "'t \<Rightarrow> 'k \<Rightarrow> int \<times> int"
    and obs :: "'t \<Rightarrow> 'k \<Rightarrow> int \<Rightarrow> int \<Rightarrow> (int \<times> int) \<times> 't"
  assumes obs_delta: "fst (obs t k u d) = (delta u (fst (base t k)), delta d (snd (base t k)))"
    and obs_base: "base (snd (obs t k u d)) k' = (if k' = k then (max 0 u, max 0 d) else base t k')"
begin

definition pending_up :: "'k \<Rightarrow> 't metering \<Rightarrow> int" where
  "pending_up k m = delta (counter_up m) (fst (base (tracker m) k))"

definition pending_down :: "'k \<Rightarrow> 't metering \<Rightarrow> int" where
  "pending_down k m = delta (counter_down m) (snd (base (tracker m) k))"

definition meter_inv :: "'k \<Rightarrow> 't metering \<Rightarrow> bool" where
  "meter_inv k m \<longleftrightarrow> 0 \<le> counter_up m \<and> 0 \<le> counter_down m \<and>
     reported_up m + pending_up k m \<le> carried_up m \<and>
     reported_down m + pending_down k m \<le> carried_down m"

lemma poll_fields:
  "counter_up m \<ge> 0 \<Longrightarrow> counter_down m \<ge> 0 \<Longrightarrow>
   reported_up (meter_step obs k m PollNow) = reported_up m + pending_up k m \<and>
   reported_down (meter_step obs k m PollNow) = reported_down m + pending_down k m \<and>
   counter_up (meter_step obs k m PollNow) = counter_up m \<and>
   counter_down (meter_step obs k m PollNow) = counter_down m \<and>
   carried_up (meter_step obs k m PollNow) = carried_up m \<and>
   carried_down (meter_step obs k m PollNow) = carried_down m \<and>
   base (tracker (meter_step obs k m PollNow)) k = (counter_up m, counter_down m)"
  using obs_delta [of "tracker m" k "counter_up m" "counter_down m"]
    obs_base [of "tracker m" k "counter_up m" "counter_down m" k]
  by (auto simp: pending_up_def pending_down_def split: prod.splits)

lemma meter_inv_step:
  assumes "meter_inv k m"
  shows "meter_inv k (meter_step obs k m e)"
proof (cases e)
  case (Traffic u d)
  have "pending_up k (meter_step obs k m e) \<le> pending_up k m + int u"
    and "pending_down k (meter_step obs k m e) \<le> pending_down k m + int d"
    using assms Traffic by (simp_all add: meter_inv_def pending_up_def pending_down_def delta_add_le)
  then show ?thesis
    using assms Traffic by (simp add: meter_inv_def)
next
  case CounterReset
  have "0 \<le> pending_up k m" "0 \<le> pending_down k m"
    by (simp_all add: pending_up_def pending_down_def)
  moreover have "pending_up k (meter_step obs k m e) = 0" "pending_down k (meter_step obs k m e) = 0"
    by (simp_all add: CounterReset pending_up_def pending_down_def)
  ultimately show ?thesis
    using assms by (simp add: CounterReset meter_inv_def)
next
  case PollNow
  then show ?thesis
    using assms poll_fields [of m k] by (auto simp: meter_inv_def pending_up_def pending_down_def)
qed

lemma meter_inv_run: "meter_inv k m \<Longrightarrow> meter_inv k (meter_run obs k m es)"
  unfolding meter_run_def by (induction es arbitrary: m) (auto simp: meter_inv_step)

lemma meter_inv_start: "base t k = (0, 0) \<Longrightarrow> meter_inv k (metering_start t)"
  by (simp add: meter_inv_def metering_start_def pending_up_def pending_down_def)

lemma never_overcounts:
  assumes "base t k = (0, 0)"
  shows "reported_up (meter_run obs k (metering_start t) es)
           \<le> carried_up (meter_run obs k (metering_start t) es)"
    and "reported_down (meter_run obs k (metering_start t) es)
           \<le> carried_down (meter_run obs k (metering_start t) es)"
proof -
  let ?m = "meter_run obs k (metering_start t) es"
  have "meter_inv k ?m" using assms by (simp add: meter_inv_run meter_inv_start)
  moreover have "0 \<le> pending_up k ?m" "0 \<le> pending_down k ?m"
    by (simp_all add: pending_up_def pending_down_def)
  ultimately show "reported_up ?m \<le> carried_up ?m" and "reported_down ?m \<le> carried_down ?m"
    by (auto simp: meter_inv_def)
qed

text \<open>Without a counter reset nothing is lost: reported plus not-yet-polled traffic is all of it.\<close>

definition exact_inv :: "'k \<Rightarrow> 't metering \<Rightarrow> bool" where
  "exact_inv k m \<longleftrightarrow>
     0 \<le> fst (base (tracker m) k) \<and> 0 \<le> snd (base (tracker m) k) \<and>
     fst (base (tracker m) k) \<le> counter_up m \<and> snd (base (tracker m) k) \<le> counter_down m \<and>
     reported_up m + (counter_up m - fst (base (tracker m) k)) = carried_up m \<and>
     reported_down m + (counter_down m - snd (base (tracker m) k)) = carried_down m"

lemma exact_inv_step:
  assumes "exact_inv k m" and "e \<noteq> CounterReset"
  shows "exact_inv k (meter_step obs k m e)"
proof (cases e)
  case (Traffic u d)
  then show ?thesis using assms by (auto simp: exact_inv_def)
next
  case CounterReset
  then show ?thesis using assms by simp
next
  case PollNow
  then show ?thesis
    using assms poll_fields [of m k]
    by (auto simp: exact_inv_def pending_up_def pending_down_def delta_mono_eq)
qed

lemma exact_inv_run:
  "exact_inv k m \<Longrightarrow> CounterReset \<notin> set es \<Longrightarrow> exact_inv k (meter_run obs k m es)"
  unfolding meter_run_def
proof (induction es arbitrary: m)
  case Nil
  then show ?case by simp
next
  case (Cons e es)
  then show ?case using exact_inv_step [of k m e] by auto
qed

lemma exact_after_poll:
  assumes "base t k = (0, 0)" and "CounterReset \<notin> set es"
  defines "m \<equiv> meter_run obs k (metering_start t) (es @ [PollNow])"
  shows "reported_up m = carried_up m" and "reported_down m = carried_down m"
proof -
  let ?m = "meter_run obs k (metering_start t) es"
  have inv: "exact_inv k ?m"
    using assms(1,2) exact_inv_run [of k "metering_start t" es]
    by (simp add: exact_inv_def metering_start_def)
  have m: "m = meter_step obs k ?m PollNow" by (simp add: m_def meter_run_def)
  show "reported_up m = carried_up m" and "reported_down m = carried_down m"
    using inv poll_fields [of ?m k]
    by (auto simp: m exact_inv_def pending_up_def pending_down_def delta_mono_eq)
qed

end

lemma observe_delta:
  "fst (observe t k u d) = (delta u (fst (baseline_of t k)), delta d (snd (baseline_of t k)))"
  by (simp add: observe_def Let_def delta_def split: prod.splits)

lemma observe_base:
  "baseline_of (snd (observe t k u d)) k' = (if k' = k then (max 0 u, max 0 d) else baseline_of t k')"
  by (simp add: observe_def Let_def baseline_of_def split: prod.splits)

interpretation dt: counter_tracker baseline_of observe
  by unfold_locales (simp_all add: observe_delta observe_base)

definition session_pair :: "'k session_tracker \<Rightarrow> 'k \<Rightarrow> int \<times> int" where
  "session_pair t k = (ss_uplink (session_base t k), ss_downlink (session_base t k))"

interpretation st: counter_tracker session_pair poll
  by unfold_locales (simp_all add: session_pair_def session_base_def poll_def Let_def delta_def)

section \<open>Properties\<close>

text \<open>
  C15: over any history of traffic, provider restarts and polls, the deltas a
  fresh \<open>DeltaTracker\<close> reports for an account never exceed the traffic that account carried, in
  either direction: no byte is counted twice.
\<close>

theorem delta_tracker_never_overcounts:
  "reported_up (meter_run observe k (metering_start []) es)
     \<le> carried_up (meter_run observe k (metering_start []) es)
   \<and> reported_down (meter_run observe k (metering_start []) es)
     \<le> carried_down (meter_run observe k (metering_start []) es)"
  using dt.never_overcounts [of "[]" k es] by (simp add: baseline_of_def)

text \<open>
  A panel restart: the recorder saves the baselines, a new process starts with an empty tracker
  and restores them. Two trackers with the same baselines answer every later poll alike.
\<close>

definition restart_tracker :: "'k delta_tracker \<Rightarrow> 'k delta_tracker" where
  "restart_tracker t = restore [] (baseline_snapshot t None)"

fun observe_all :: "'k delta_tracker \<Rightarrow> ('k \<times> int \<times> int) list \<Rightarrow> (int \<times> int) list" where
  "observe_all t [] = []"
| "observe_all t ((k, u, d) # ps) = fst (observe t k u d) # observe_all (snd (observe t k u d)) ps"

lemma observe_all_cong:
  "(\<And>k. baseline_of t k = baseline_of t' k) \<Longrightarrow> observe_all t ps = observe_all t' ps"
proof (induction ps arbitrary: t t')
  case Nil
  then show ?case by simp
next
  case (Cons p ps)
  obtain k u d where p: "p = (k, u, d)" by (cases p)
  have "baseline_of (snd (observe t k u d)) k' = baseline_of (snd (observe t' k u d)) k'" for k'
    by (simp add: observe_base Cons.prems)
  then have "observe_all (snd (observe t k u d)) ps = observe_all (snd (observe t' k u d)) ps"
    by (rule Cons.IH)
  moreover have "fst (observe t k u d) = fst (observe t' k u d)"
    by (simp only: observe_delta Cons.prems [of k])
  ultimately show ?case by (simp only: p observe_all.simps)
qed

lemma baseline_of_restart: "dict_ok t \<Longrightarrow> baseline_of (restart_tracker t) k = baseline_of t k"
  by (simp add: restart_tracker_def restore_def baseline_snapshot_def baseline_of_def dict_get_update
      split: option.splits)

text \<open>
  while the provider does not restart, polling is exact: right after a
  poll the reported total equals the carried traffic, whatever the earlier poll schedule was.
\<close>

lemma delta_tracker_exact:
  assumes "CounterReset \<notin> set es"
  shows "reported_up (meter_run observe k (metering_start []) (es @ [PollNow]))
           = carried_up (meter_run observe k (metering_start []) (es @ [PollNow]))
       \<and> reported_down (meter_run observe k (metering_start []) (es @ [PollNow]))
           = carried_down (meter_run observe k (metering_start []) (es @ [PollNow]))"
  using dt.exact_after_poll [of "[]" k es] assms by (simp add: baseline_of_def)

lemma delta_tracker_exact_example:
  "CounterReset \<notin> set [Traffic 7 3, PollNow, Traffic 5 0] \<and>
   reported_up (meter_run observe (0::nat) (metering_start []) ([Traffic 7 3, PollNow, Traffic 5 0] @ [PollNow])) = 12"
proof -
  have h: "CounterReset \<notin> set [Traffic 7 3, PollNow, Traffic 5 0]" by simp
  have "carried_up (meter_run observe (0::nat) (metering_start []) ([Traffic 7 3, PollNow, Traffic 5 0] @ [PollNow])) = 12"
    by code_simp
  then show ?thesis using h delta_tracker_exact [OF h, of "0::nat"] by simp
qed

text \<open>
  a panel restart is invisible to accounting. Saving a tracker with
  \<open>baseline_snapshot\<close> and restoring it into a fresh one yields the same delta for every later
  poll of every account.
\<close>

lemma restart_preserves_deltas:
  assumes "dict_ok t"
  shows "observe_all (restart_tracker t) ps = observe_all t ps"
  using assms by (intro observe_all_cong) (simp add: baseline_of_restart)

lemma restart_preserves_deltas_example:
  "dict_ok [(''a'', (100::int, 50::int))] \<and>
   observe_all (restart_tracker [(''a'', (100, 50))]) [(''a'', 130, 50), (''a'', 20, 70)] = [(30, 0), (20, 20)]"
  using restart_preserves_deltas [of "[(''a'', (100, 50))]" "[(''a'', 130, 50), (''a'', 20, 70)]"]
  by (simp add: observe_def baseline_of_def delta_def Let_def)

text \<open>
  A session: interim polls, then the final counter delivered at disconnect. \<open>session_bytes\<close> adds
  up everything the tracker emits for it.
\<close>

fun poll_all :: "'k session_tracker \<Rightarrow> 'k \<Rightarrow> (int \<times> int) list \<Rightarrow> (int \<times> int) \<times> 'k session_tracker" where
  "poll_all t k [] = ((0, 0), t)"
| "poll_all t k ((u, d) # ps) =
     (case poll t k u d of ((du, dd), t') \<Rightarrow>
        case poll_all t' k ps of ((su, sd), t'') \<Rightarrow> ((du + su, dd + sd), t''))"

definition session_bytes :: "'k session_tracker \<Rightarrow> 'k \<Rightarrow> (int \<times> int) list \<Rightarrow> int \<times> int \<Rightarrow> int \<times> int" where
  "session_bytes t k ps fin =
     (let ((su, sd), t') = poll_all t k ps;
          ((fu, fd), t'') = close_session t' k (fst fin) (snd fin)
      in (su + fu, sd + fd))"

fun nondecreasing :: "int \<Rightarrow> int list \<Rightarrow> bool" where
  "nondecreasing lo [] = True"
| "nondecreasing lo (x # xs) = (lo \<le> x \<and> nondecreasing x xs)"

lemma poll_all_sum:
  assumes "nondecreasing (fst (session_pair t k)) (map fst (ps @ [fin]))"
    and "nondecreasing (snd (session_pair t k)) (map snd (ps @ [fin]))"
    and "0 \<le> fst (session_pair t k)" "0 \<le> snd (session_pair t k)"
  shows "session_bytes t k ps fin = (fst fin - fst (session_pair t k), snd fin - snd (session_pair t k))"
  using assms
proof (induction ps arbitrary: t)
  case Nil
  then show ?case
    by (simp add: session_bytes_def close_session_def session_pair_def delta_mono_eq Let_def)
next
  case (Cons p ps)
  obtain u d where p: "p = (u, d)" by (cases p)
  obtain du dd t' where poll: "poll t k u d = ((du, dd), t')"
    by (metis prod.exhaust)
  have "(du, dd) = (u - fst (session_pair t k), d - snd (session_pair t k))"
    using st.obs_delta [of t k u d] Cons.prems poll by (simp add: p delta_mono_eq)
  moreover have base: "session_pair t' k = (u, d)"
    using st.obs_base [of t k u d k] Cons.prems poll by (simp add: p)
  moreover have "session_bytes t' k ps fin = (fst fin - u, snd fin - d)"
    using Cons.IH [of t'] Cons.prems base by (simp add: p)
  ultimately show ?case
    by (auto simp: session_bytes_def p poll Let_def split: prod.splits)
qed

text \<open>
  interim and final counters are never double counted. For a session that
  starts with no baseline and whose counters only grow, the interim deltas plus the final delta are
  exactly the final counters; and closing forgets the session, so a reconnection is counted from
  zero.
\<close>

lemma session_total_is_final:
  assumes "dict_get t k = None"
    and "nondecreasing 0 (map fst (ps @ [fin]))" and "nondecreasing 0 (map snd (ps @ [fin]))"
  shows "session_bytes t k ps fin = fin
    \<and> session_pair (snd (close_session (snd (poll_all t k ps)) k (fst fin) (snd fin))) k = (0, 0)"
proof
  have "session_pair t k = (0, 0)" using assms(1) by (simp add: session_pair_def session_base_def)
  then show "session_bytes t k ps fin = fin" using poll_all_sum [of t k ps fin] assms by simp
  show "session_pair (snd (close_session (snd (poll_all t k ps)) k (fst fin) (snd fin))) k = (0, 0)"
    by (simp add: close_session_def session_pair_def session_base_def Let_def)
qed

lemma session_total_is_final_example:
  "session_bytes ([] :: string session_tracker) ''s'' [(10, 1), (25, 4)] (40, 9) = (40, 9)"
  using session_total_is_final [of "[] :: string session_tracker" "''s''" "[(10, 1), (25, 4)]" "(40, 9)"]
  by simp

end
