(* ===== verification/Quota.thy ===== *)
theory Quota
  imports Prelude
begin

text \<open>
  The unified quota service (\<open>app/cores/quota.py\<close>): one usage bucket per user across all cores.
  \<open>QuotaStore\<close> is a port of the source, so it is a locale here (\<open>quota_store\<close>); the service is
  parametric in the store's \<open>add\<close>, \<open>get\<close> and \<open>reset\<close>, its laws are proved once against the port
  and reach \<open>InMemoryQuotaStore\<close> through the interpretation \<open>mem\<close>. The store's asyncio lock makes
  \<open>add\<close> and \<open>reset\<close> atomic, so each is one step of the model.
\<close>

section \<open>Data\<close>

record usage_record =
  ur_core_id :: string
  ur_account_id :: string
  ur_node_id :: "int option"
  ur_uplink_bytes :: int
  ur_downlink_bytes :: int

record quota_entry =
  qe_user_id :: int
  qe_uplink_bytes :: int
  qe_downlink_bytes :: int

definition qe_total_bytes :: "quota_entry \<Rightarrow> int" where
  "qe_total_bytes e = qe_uplink_bytes e + qe_downlink_bytes e"

definition new_entry :: "int \<Rightarrow> quota_entry" where
  "new_entry user_id = \<lparr>qe_user_id = user_id, qe_uplink_bytes = 0, qe_downlink_bytes = 0\<rparr>"

record quota_view =
  qv_user_id :: int
  qv_uplink_bytes :: int
  qv_downlink_bytes :: int
  qv_total_bytes :: int
  qv_limit_bytes :: "int option"
  qv_remaining_bytes :: "int option"
  qv_exceeded :: bool

record applied_usage =
  au_user_id :: int
  au_applied_bytes :: int
  au_new_total_bytes :: int
  au_limit_bytes :: "int option"
  au_exceeded :: bool
  au_cores :: "string set"

record dropped_record =
  dr_record :: usage_record
  dr_reason :: string

type_synonym owner_map = "(string \<times> string, int) dict"
type_synonym limit_map = "(int, int) dict"

section \<open>InMemoryQuotaStore\<close>

type_synonym mem_quota = "(int, quota_entry) dict"

definition mem_get :: "mem_quota \<Rightarrow> int \<Rightarrow> quota_entry option" where
  "mem_get s user_id = dict_get s user_id"

definition mem_add :: "int \<Rightarrow> int \<Rightarrow> int \<Rightarrow> mem_quota \<Rightarrow> quota_entry \<times> mem_quota" where
  "mem_add user_id uplink downlink s =
     (let entry = (case dict_get s user_id of None \<Rightarrow> new_entry user_id | Some e \<Rightarrow> e);
          entry = entry\<lparr>qe_uplink_bytes := qe_uplink_bytes entry + uplink,
                        qe_downlink_bytes := qe_downlink_bytes entry + downlink\<rparr>
      in (entry, dict_set user_id entry s))"

definition mem_all :: "mem_quota \<Rightarrow> quota_entry list" where
  "mem_all s = map snd s"

definition mem_reset :: "int \<Rightarrow> mem_quota \<Rightarrow> mem_quota" where
  "mem_reset user_id s = dict_set user_id (new_entry user_id) s"

section \<open>UnifiedQuotaService\<close>

definition set_limit :: "limit_map \<Rightarrow> int \<Rightarrow> int option \<Rightarrow> limit_map" where
  "set_limit limits user_id limit_bytes =
     (case limit_bytes of None \<Rightarrow> dict_pop user_id limits | Some l \<Rightarrow> dict_set user_id l limits)"

type_synonym deltas = "(int, int \<times> int \<times> string set) dict"

definition drop_reason :: "usage_record \<Rightarrow> string" where
  "drop_reason r = ''no panel user owns '' @ ur_core_id r @ '':'' @ ur_account_id r"

text \<open>The first loop of \<open>apply_usage\<close>: attribute every record of the batch.\<close>

fun attribute_records ::
  "owner_map \<Rightarrow> usage_record list \<Rightarrow> deltas \<Rightarrow> dropped_record list \<Rightarrow> deltas \<times> dropped_record list" where
  "attribute_records owners [] ds dropped = (ds, dropped)"
| "attribute_records owners (r # rs) ds dropped =
     (case dict_get owners (ur_core_id r, ur_account_id r) of
        None \<Rightarrow>
          attribute_records owners rs ds (dropped @ [\<lparr>dr_record = r, dr_reason = drop_reason r\<rparr>])
      | Some owner \<Rightarrow>
          (let (up, down, cores) = (case dict_get ds owner of None \<Rightarrow> (0, 0, {}) | Some x \<Rightarrow> x)
           in attribute_records owners rs
                (dict_set owner (up + ur_uplink_bytes r, down + ur_downlink_bytes r,
                   insert (ur_core_id r) cores) ds) dropped))"

text \<open>The second loop: add every non-zero delta to the store, users in ascending order.\<close>

fun apply_deltas ::
  "(int \<Rightarrow> int \<Rightarrow> int \<Rightarrow> 's \<Rightarrow> quota_entry \<times> 's) \<Rightarrow> limit_map \<Rightarrow> (int \<times> int \<times> int \<times> string set) list
     \<Rightarrow> 's \<Rightarrow> applied_usage list \<times> 's" where
  "apply_deltas add limits [] s = ([], s)"
| "apply_deltas add limits ((user_id, up, down, cores) # ds) s =
     (if up = 0 \<and> down = 0 then apply_deltas add limits ds s
      else
        (let (entry, s') = add user_id up down s;
             limit = dict_get limits user_id;
             (rest, s'') = apply_deltas add limits ds s'
         in (\<lparr>au_user_id = user_id, au_applied_bytes = up + down,
               au_new_total_bytes = qe_total_bytes entry, au_limit_bytes = limit,
               au_exceeded = (case limit of None \<Rightarrow> False | Some l \<Rightarrow> qe_total_bytes entry \<ge> l),
               au_cores = cores\<rparr> # rest, s'')))"

definition apply_usage ::
  "(int \<Rightarrow> int \<Rightarrow> int \<Rightarrow> 's \<Rightarrow> quota_entry \<times> 's) \<Rightarrow> limit_map \<Rightarrow> usage_record list \<Rightarrow> owner_map \<Rightarrow> 's
     \<Rightarrow> (applied_usage list \<times> dropped_record list) \<times> 's" where
  "apply_usage add limits records owners s =
     (let (ds, dropped) = attribute_records owners records [] [];
          (applied, s') = apply_deltas add limits (sort_key fst ds) s
      in ((applied, dropped), s'))"

definition get_view ::
  "('s \<Rightarrow> int \<Rightarrow> quota_entry option) \<Rightarrow> limit_map \<Rightarrow> 's \<Rightarrow> int \<Rightarrow> int option \<Rightarrow> quota_view" where
  "get_view get limits s user_id limit_bytes =
     (let entry = (case get s user_id of None \<Rightarrow> new_entry user_id | Some e \<Rightarrow> e);
          limit = (case limit_bytes of Some l \<Rightarrow> Some l | None \<Rightarrow> dict_get limits user_id);
          remaining = map_option (\<lambda>l. max 0 (l - qe_total_bytes entry)) limit
      in \<lparr>qv_user_id = user_id, qv_uplink_bytes = qe_uplink_bytes entry,
          qv_downlink_bytes = qe_downlink_bytes entry, qv_total_bytes = qe_total_bytes entry,
          qv_limit_bytes = limit, qv_remaining_bytes = remaining,
          qv_exceeded = (case limit of None \<Rightarrow> False | Some l \<Rightarrow> qe_total_bytes entry \<ge> l)\<rparr>)"

definition reset_quota ::
  "(int \<Rightarrow> 's \<Rightarrow> 's) \<Rightarrow> ('s \<Rightarrow> int \<Rightarrow> quota_entry option) \<Rightarrow> 's \<Rightarrow> int \<Rightarrow> quota_entry \<times> 's" where
  "reset_quota reset get s user_id =
     (let s' = reset user_id s
      in ((case get s' user_id of None \<Rightarrow> new_entry user_id | Some e \<Rightarrow> e), s'))"

section \<open>Specification vocabulary\<close>

definition owner_of :: "owner_map \<Rightarrow> usage_record \<Rightarrow> int option" where
  "owner_of owners r = dict_get owners (ur_core_id r, ur_account_id r)"

definition owned :: "owner_map \<Rightarrow> int \<Rightarrow> usage_record list \<Rightarrow> usage_record list" where
  "owned owners uid rs = filter (\<lambda>r. owner_of owners r = Some uid) rs"

definition up_bytes :: "usage_record list \<Rightarrow> int" where
  "up_bytes rs = sum_list (map ur_uplink_bytes rs)"

definition down_bytes :: "usage_record list \<Rightarrow> int" where
  "down_bytes rs = sum_list (map ur_downlink_bytes rs)"

lemmas bytes_defs = up_bytes_def down_bytes_def owned_def owner_of_def

definition delta_of :: "deltas \<Rightarrow> int \<Rightarrow> int \<times> int" where
  "delta_of ds uid = (case dict_get ds uid of None \<Rightarrow> (0, 0) | Some (u, d, c) \<Rightarrow> (u, d))"

lemma attribute_records_ok:
  "dict_ok ds \<Longrightarrow> dict_ok (fst (attribute_records owners rs ds dropped))"
  by (induction rs arbitrary: ds dropped) (auto split: option.splits prod.splits)

lemma attribute_records_delta:
  "delta_of (fst (attribute_records owners rs ds dropped)) uid
     = (fst (delta_of ds uid) + up_bytes (owned owners uid rs),
        snd (delta_of ds uid) + down_bytes (owned owners uid rs))"
proof (induction rs arbitrary: ds dropped)
  case Nil
  then show ?case by (simp add: bytes_defs)
next
  case (Cons r rs)
  show ?case
  proof (cases "dict_get owners (ur_core_id r, ur_account_id r)")
    case None
    with Cons show ?thesis by (simp add: bytes_defs)
  next
    case (Some owner)
    obtain up down cores where x:
      "(case dict_get ds owner of None \<Rightarrow> (0, 0, {}) | Some x \<Rightarrow> x) = (up, down, cores)"
      by (metis prod.exhaust)
    then have "delta_of ds owner = (up, down)"
      by (auto simp: delta_of_def split: option.splits)
    with Some Cons x show ?thesis
      by (auto simp: bytes_defs delta_of_def)
  qed
qed

lemma attribute_records_dropped:
  "snd (attribute_records owners rs ds dropped) =
     dropped @ map (\<lambda>r. \<lparr>dr_record = r, dr_reason = drop_reason r\<rparr>)
                 (filter (\<lambda>r. owner_of owners r = None) rs)"
  by (induction rs arbitrary: ds dropped) (auto simp: owner_of_def split: option.splits prod.splits)

section \<open>The QuotaStore port\<close>

definition totals_of :: "quota_entry option \<Rightarrow> int \<times> int" where
  "totals_of e = (case e of None \<Rightarrow> (0, 0) | Some q \<Rightarrow> (qe_uplink_bytes q, qe_downlink_bytes q))"

locale quota_store =
  fixes get :: "'s \<Rightarrow> int \<Rightarrow> quota_entry option"
    and add :: "int \<Rightarrow> int \<Rightarrow> int \<Rightarrow> 's \<Rightarrow> quota_entry \<times> 's"
    and reset :: "int \<Rightarrow> 's \<Rightarrow> 's"
    and invar :: "'s \<Rightarrow> bool"
  assumes add_entry: "invar s \<Longrightarrow> get (snd (add uid u d s)) uid = Some (fst (add uid u d s))"
    and add_other: "invar s \<Longrightarrow> uid' \<noteq> uid \<Longrightarrow> get (snd (add uid u d s)) uid' = get s uid'"
    and add_totals: "invar s \<Longrightarrow> totals_of (Some (fst (add uid u d s)))
          = (fst (totals_of (get s uid)) + u, snd (totals_of (get s uid)) + d)"
    and add_invar: "invar s \<Longrightarrow> invar (snd (add uid u d s))"
    and reset_totals: "invar s \<Longrightarrow> totals_of (get (reset uid s) uid) = (0, 0)"
    and reset_other: "invar s \<Longrightarrow> uid' \<noteq> uid \<Longrightarrow> get (reset uid s) uid' = get s uid'"
    and reset_invar: "invar s \<Longrightarrow> invar (reset uid s)"
begin

lemma add_totals_get:
  "invar s \<Longrightarrow> totals_of (get (snd (add uid u d s)) uid')
     = (if uid' = uid then (fst (totals_of (get s uid)) + u, snd (totals_of (get s uid)) + d)
        else totals_of (get s uid'))"
  by (simp add: add_entry add_other add_totals)

lemma apply_deltas_invar: "invar s \<Longrightarrow> invar (snd (apply_deltas add limits ds s))"
proof (induction ds arbitrary: s)
  case Nil
  then show ?case by simp
next
  case (Cons p ds)
  obtain uid up down cores where p: "p = (uid, up, down, cores)" by (cases p)
  show ?case
    using Cons.IH [of s] Cons.IH [of "snd (add uid up down s)"] Cons.prems add_invar
    by (auto simp: p Let_def split: prod.splits)
qed

lemma apply_deltas_totals:
  "invar s \<Longrightarrow> dict_ok ds \<Longrightarrow>
   totals_of (get (snd (apply_deltas add limits ds s)) uid)
     = (fst (totals_of (get s uid)) + fst (delta_of ds uid),
        snd (totals_of (get s uid)) + snd (delta_of ds uid))"
proof (induction ds arbitrary: s)
  case Nil
  then show ?case by (simp add: delta_of_def)
next
  case (Cons p ds)
  obtain u up down cores where p: "p = (u, up, down, cores)" by (cases p)
  have fresh: "delta_of ds u = (0, 0)"
    using Cons.prems by (simp add: p delta_of_def map_of_eq_None_iff [THEN iffD2])
  have head: "delta_of (p # ds) uid = (if uid = u then (up, down) else delta_of ds uid)"
    by (simp add: p delta_of_def)
  show ?case
  proof (cases "up = 0 \<and> down = 0")
    case True
    then show ?thesis using Cons fresh head by (auto simp: p)
  next
    case False
    let ?s' = "snd (add u up down s)"
    have "snd (apply_deltas add limits (p # ds) s) = snd (apply_deltas add limits ds ?s')"
      using False by (auto simp: p Let_def split: prod.splits)
    moreover have "totals_of (get (snd (apply_deltas add limits ds ?s')) uid)
        = (fst (totals_of (get ?s' uid)) + fst (delta_of ds uid),
           snd (totals_of (get ?s' uid)) + snd (delta_of ds uid))"
      using Cons by (simp add: add_invar)
    ultimately show ?thesis
      using Cons.prems fresh head by (simp add: add_totals_get)
  qed
qed

text \<open>A user that a delta list does not mention keeps its row.\<close>

lemma apply_deltas_other:
  "invar s \<Longrightarrow> uid \<notin> set (dict_keys ds) \<Longrightarrow> get (snd (apply_deltas add limits ds s)) uid = get s uid"
proof (induction ds arbitrary: s)
  case Nil
  then show ?case by simp
next
  case (Cons p ds)
  obtain u up down cores where p: "p = (u, up, down, cores)" by (cases p)
  show ?case
    using Cons.IH [of s] Cons.IH [of "snd (add u up down s)"] Cons.prems
    by (auto simp: p Let_def add_invar add_other split: prod.splits)
qed

lemma apply_deltas_sum:
  "sum_list (map au_applied_bytes (fst (apply_deltas add limits ds s)))
     = sum_list (map (\<lambda>(u, up, down, c). up + down) ds)"
proof (induction ds arbitrary: s)
  case Nil
  then show ?case by simp
next
  case (Cons p ds)
  obtain u up down cores where p: "p = (u, up, down, cores)" by (cases p)
  show ?case
    using Cons.IH [of s] Cons.IH [of "snd (add u up down s)"]
    by (auto simp: p Let_def split: prod.splits)
qed

text \<open>What an entry of the report says holds of the store after the whole batch.\<close>

lemma apply_deltas_report:
  assumes "invar s" "dict_ok ds" "a \<in> set (fst (apply_deltas add limits ds s))"
  shows "\<exists>e. get (snd (apply_deltas add limits ds s)) (au_user_id a) = Some e
     \<and> au_new_total_bytes a = qe_total_bytes e
     \<and> au_limit_bytes a = dict_get limits (au_user_id a)
     \<and> au_exceeded a = (case dict_get limits (au_user_id a) of None \<Rightarrow> False | Some l \<Rightarrow> qe_total_bytes e \<ge> l)"
  using assms
proof (induction ds arbitrary: s)
  case Nil
  then show ?case by simp
next
  case (Cons p ds)
  obtain u up down cores where p: "p = (u, up, down, cores)" by (cases p)
  show ?case
  proof (cases "up = 0 \<and> down = 0")
    case True
    then have "apply_deltas add limits (p # ds) s = apply_deltas add limits ds s" by (simp add: p)
    then show ?thesis using Cons.IH [of s] Cons.prems by (simp only: list.map distinct.simps)
  next
    case False
    let ?e = "fst (add u up down s)" and ?s' = "snd (add u up down s)"
    let ?h = "\<lparr>au_user_id = u, au_applied_bytes = up + down, au_new_total_bytes = qe_total_bytes ?e,
      au_limit_bytes = dict_get limits u,
      au_exceeded = (case dict_get limits u of None \<Rightarrow> False | Some l \<Rightarrow> qe_total_bytes ?e \<ge> l),
      au_cores = cores\<rparr>"
    have step: "apply_deltas add limits (p # ds) s
        = (?h # fst (apply_deltas add limits ds ?s'), snd (apply_deltas add limits ds ?s'))"
      using False by (auto simp: p Let_def split_beta)
    consider "a = ?h" | "a \<in> set (fst (apply_deltas add limits ds ?s'))"
      using Cons.prems(3) unfolding step by auto
    then show ?thesis
    proof cases
      case 1
      moreover have "get (snd (apply_deltas add limits ds ?s')) u = Some ?e"
        using Cons.prems by (simp add: p apply_deltas_other add_invar add_entry)
      ultimately show ?thesis unfolding step by (simp add: p)
    next
      case 2
      moreover have "invar ?s'" "dict_ok ds" using Cons.prems by (simp_all add: add_invar p)
      ultimately show ?thesis unfolding step snd_conv by (intro Cons.IH)
    qed
  qed
qed

lemma apply_usage_totals:
  assumes "invar s"
  shows "totals_of (get (snd (apply_usage add limits rs owners s)) uid)
     = (fst (totals_of (get s uid)) + up_bytes (owned owners uid rs),
        snd (totals_of (get s uid)) + down_bytes (owned owners uid rs))"
proof -
  obtain ds dropped where a: "attribute_records owners rs [] [] = (ds, dropped)" by fastforce
  have ok: "dict_ok ds" using attribute_records_ok [of "[]" owners rs "[]"] a by simp
  have "dict_get (sort_key fst ds) k = dict_get ds k" for k
    using ok by (rule map_of_sort_key)
  then have "delta_of (sort_key fst ds) uid = delta_of ds uid" by (simp add: delta_of_def)
  moreover have "delta_of ds uid = (up_bytes (owned owners uid rs), down_bytes (owned owners uid rs))"
    using attribute_records_delta [of owners rs "[]" "[]" uid] a by (simp add: delta_of_def)
  ultimately show ?thesis
    using apply_deltas_totals [of s "sort_key fst ds" limits uid] assms ok
    by (auto simp: apply_usage_def a split: prod.splits)
qed

lemma apply_usage_invar: "invar s \<Longrightarrow> invar (snd (apply_usage add limits rs owners s))"
  using apply_deltas_invar [of s limits "sort_key fst (fst (attribute_records owners rs [] []))"]
  by (auto simp: apply_usage_def split: prod.splits)

end

section \<open>InMemoryQuotaStore implements the port\<close>

interpretation mem: quota_store mem_get mem_add mem_reset dict_ok
  by unfold_locales
    (auto simp: mem_get_def mem_add_def mem_reset_def new_entry_def totals_of_def Let_def
      split: option.splits)

section \<open>Properties\<close>

text \<open>
  one shared bucket. After a batch, every user's stored uplink and downlink
  totals have grown by exactly the bytes of the records attributed to that user, whatever cores
  the records came from; users without records keep their totals.
\<close>

lemma apply_usage_adds_owned_bytes:
  assumes "dict_ok s"
  shows "totals_of (mem_get (snd (apply_usage mem_add limits rs owners s)) uid)
     = (fst (totals_of (mem_get s uid)) + up_bytes (owned owners uid rs),
        snd (totals_of (mem_get s uid)) + down_bytes (owned owners uid rs))"
  using assms by (rule mem.apply_usage_totals)

definition demo_record :: "string \<Rightarrow> string \<Rightarrow> int \<Rightarrow> int \<Rightarrow> usage_record" where
  "demo_record c a u d = \<lparr>ur_core_id = c, ur_account_id = a, ur_node_id = None,
     ur_uplink_bytes = u, ur_downlink_bytes = d\<rparr>"

lemma apply_usage_adds_owned_bytes_example:
  "totals_of (mem_get (snd (apply_usage mem_add [] [demo_record ''xray'' ''a'' 1 2, demo_record ''wireguard'' ''b'' 30 40,
       demo_record ''xray'' ''z'' 5 5] [((''xray'', ''a''), 7), ((''wireguard'', ''b''), 7)] [])) 7) = (31, 42)"
proof -
  have "dict_ok ([] :: mem_quota)" by simp
  note apply_usage_adds_owned_bytes [OF this, of "[]"
      "[demo_record ''xray'' ''a'' 1 2, demo_record ''wireguard'' ''b'' 30 40, demo_record ''xray'' ''z'' 5 5]"
      "[((''xray'', ''a''), 7), ((''wireguard'', ''b''), 7)]" 7]
  then show ?thesis by (simp add: bytes_defs demo_record_def totals_of_def mem_get_def)
qed

definition record_bytes :: "usage_record list \<Rightarrow> int" where
  "record_bytes rs = up_bytes rs + down_bytes rs"

lemma deltas_sum_owned:
  "dict_ok ds \<Longrightarrow>
   sum_list (map (\<lambda>(u, up, down, c). up + down) (fst (attribute_records owners rs ds dropped)))
     = sum_list (map (\<lambda>(u, up, down, c). up + down) ds)
       + record_bytes (filter (\<lambda>r. owner_of owners r \<noteq> None) rs)"
proof (induction rs arbitrary: ds dropped)
  case Nil
  then show ?case by (simp add: record_bytes_def bytes_defs)
next
  case (Cons r rs)
  show ?case
  proof (cases "dict_get owners (ur_core_id r, ur_account_id r)")
    case None
    with Cons show ?thesis by (simp add: owner_of_def)
  next
    case (Some owner)
    obtain up down cores where x:
      "(case dict_get ds owner of None \<Rightarrow> (0, 0, {}) | Some x \<Rightarrow> x) = (up, down, cores)"
      by (metis prod.exhaust)
    have set: "sum_list (map (\<lambda>(u, up, down, c). up + down) (dict_set owner (up + a, down + b, cs) ds))
        = sum_list (map (\<lambda>(u, up, down, c). up + down) ds) + a + b" for a b cs
      using Cons.prems x
    proof (induction ds)
      case Nil
      then show ?case by simp
    next
      case (Cons p ds)
      then show ?case
        by (cases p) (auto simp: map_of_eq_None_iff [THEN iffD2] split: option.splits if_splits)
    qed
    show ?thesis
      using Cons Some x by (simp add: owner_of_def set record_bytes_def bytes_defs)
  qed
qed

text \<open>
  no byte of a batch disappears. The records reported as dropped are
  exactly the records no panel user owns, in batch order and with their bytes intact, and the
  bytes applied to users plus the bytes of dropped records are the bytes of the batch.
\<close>

lemma apply_usage_conserves_bytes:
  "map dr_record (snd (fst (apply_usage mem_add limits rs owners s)))
     = filter (\<lambda>r. owner_of owners r = None) rs
   \<and> sum_list (map au_applied_bytes (fst (fst (apply_usage mem_add limits rs owners s))))
     + record_bytes (map dr_record (snd (fst (apply_usage mem_add limits rs owners s)))) = record_bytes rs"
proof -
  obtain ds dropped where a: "attribute_records owners rs [] [] = (ds, dropped)" by fastforce
  have drop: "map dr_record dropped = filter (\<lambda>r. owner_of owners r = None) rs"
    using attribute_records_dropped [of owners rs "[]" "[]"] a by (simp add: comp_def)
  have sorted: "sum_list (map f (sort_key fst ds)) = sum_list (map f ds)" for f :: "_ \<Rightarrow> int"
    by (rule sum_list_sort_key)
  have split: "record_bytes (filter (\<lambda>r. owner_of owners r \<noteq> None) rs)
      + record_bytes (filter (\<lambda>r. owner_of owners r = None) rs) = record_bytes rs"
    by (induction rs) (auto simp: record_bytes_def bytes_defs)
  have "sum_list (map au_applied_bytes (fst (fst (apply_usage mem_add limits rs owners s))))
      = record_bytes (filter (\<lambda>r. owner_of owners r \<noteq> None) rs)"
    using mem.apply_deltas_sum [of limits "sort_key fst ds" s] deltas_sum_owned [of "[]" owners rs "[]"] a
    by (simp add: apply_usage_def split_beta sorted)
  moreover have "snd (fst (apply_usage mem_add limits rs owners s)) = dropped"
    by (simp add: apply_usage_def a split_beta)
  ultimately show ?thesis using drop split by simp
qed

text \<open>
  the enforcement verdict of a batch agrees with the quota view. Every
  user reported by \<open>apply_usage\<close> is shown by a later \<open>get_view\<close> with the same total and the same
  exceeded flag, and the view is exceeded exactly when a limit exists and nothing remains.
\<close>

lemma applied_matches_view:
  assumes "dict_ok s"
    and "a \<in> set (fst (fst (apply_usage mem_add limits rs owners s)))"
  defines "v \<equiv> get_view mem_get limits (snd (apply_usage mem_add limits rs owners s)) (au_user_id a) None"
  shows "qv_total_bytes v = au_new_total_bytes a \<and> qv_exceeded v = au_exceeded a
     \<and> (qv_exceeded v \<longleftrightarrow> qv_remaining_bytes v = Some 0)"
proof -
  obtain ds dropped where ad: "attribute_records owners rs [] [] = (ds, dropped)" by fastforce
  have ok: "dict_ok (sort_key fst ds)" using attribute_records_ok [of "[]" owners rs "[]"] ad by simp
  have fsts: "fst (fst (apply_usage mem_add limits rs owners s)) = fst (apply_deltas mem_add limits (sort_key fst ds) s)"
    and snds: "snd (apply_usage mem_add limits rs owners s) = snd (apply_deltas mem_add limits (sort_key fst ds) s)"
    by (simp_all add: apply_usage_def ad split_beta)
  obtain e where e: "mem_get (snd (apply_usage mem_add limits rs owners s)) (au_user_id a) = Some e"
      "au_new_total_bytes a = qe_total_bytes e"
      "au_exceeded a = (case dict_get limits (au_user_id a) of None \<Rightarrow> False | Some l \<Rightarrow> qe_total_bytes e \<ge> l)"
    using mem.apply_deltas_report [OF assms(1) ok, of a limits] assms(2) unfolding fsts snds by auto
  then show ?thesis
    by (auto simp: v_def get_view_def Let_def max_def split: option.splits)
qed

lemma applied_matches_view_example:
  "let r = apply_usage mem_add [(7, 40)] [demo_record ''xray'' ''a'' 10 31] [((''xray'', ''a''), 7)] [];
       a = hd (fst (fst r)); v = get_view mem_get [(7, 40)] (snd r) 7 None
   in au_user_id a = 7 \<and> qv_total_bytes v = 41 \<and> qv_exceeded v \<and> au_exceeded a"
proof -
  let ?rs = "[demo_record ''xray'' ''a'' 10 31]" and ?os = "[((''xray'', ''a''), 7)]"
  let ?r = "apply_usage mem_add [(7, 40)] ?rs ?os []"
  have ok: "dict_ok ([] :: mem_quota)" by simp
  have res: "fst (fst ?r) = [\<lparr>au_user_id = 7, au_applied_bytes = 41, au_new_total_bytes = 41,
      au_limit_bytes = Some 40, au_exceeded = True, au_cores = {''xray''}\<rparr>]"
    by (simp add: apply_usage_def demo_record_def mem_add_def new_entry_def qe_total_bytes_def Let_def)
  then have "hd (fst (fst ?r)) \<in> set (fst (fst ?r))" by simp
  from applied_matches_view [OF ok this] show ?thesis
    unfolding Let_def res by simp
qed

text \<open>splitting a batch does not change anybody's quota. Applying two polling
  batches one after the other leaves every user with the totals of applying them as one batch.
\<close>

lemma apply_usage_batches_compose:
  assumes "dict_ok s"
  shows "totals_of (mem_get (snd (apply_usage mem_add limits rs2 owners
            (snd (apply_usage mem_add limits rs1 owners s)))) uid)
       = totals_of (mem_get (snd (apply_usage mem_add limits (rs1 @ rs2) owners s)) uid)"
  using assms
  by (simp add: mem.apply_usage_totals mem.apply_usage_invar bytes_defs)

lemma apply_usage_batches_compose_example:
  "totals_of (mem_get (snd (apply_usage mem_add [] [demo_record ''ssh'' ''a'' 3 4] [((''ssh'', ''a''), 1)]
     (snd (apply_usage mem_add [] [demo_record ''ssh'' ''a'' 1 1] [((''ssh'', ''a''), 1)] [])))) 1) = (4, 5)"
proof -
  have ok: "dict_ok ([] :: mem_quota)" by simp
  show ?thesis
    unfolding apply_usage_batches_compose [OF ok] mem.apply_usage_totals [OF ok]
    by (simp add: bytes_defs demo_record_def totals_of_def mem_get_def)
qed

end
