(* ===== verification/PyValue.thy ===== *)
theory PyValue
  imports Prelude
begin

text \<open>
  The Python values and standard-library conversions the modelled code uses: dynamically typed
  values (JSON documents and metadata dictionaries), truthiness, equality, \<open>int()\<close> and the ASCII
  string methods. A float is its exact rational value; the sources here compare, truncate and
  test floats, and never do float arithmetic, so no rounding is involved (infinities and NaN are
  not JSON numbers and are outside the model).
\<close>

section \<open>String methods\<close>

definition is_space :: "char \<Rightarrow> bool" where
  "is_space c \<longleftrightarrow> (let n = (of_char c :: nat) in n = 32 \<or> (9 \<le> n \<and> n \<le> 13) \<or> (28 \<le> n \<and> n \<le> 31))"

definition is_digit :: "char \<Rightarrow> bool" where
  "is_digit c \<longleftrightarrow> (let n = (of_char c :: nat) in 48 \<le> n \<and> n \<le> 57)"

definition digit_val :: "char \<Rightarrow> nat" where
  "digit_val c = of_char c - 48"

definition digit_char :: "nat \<Rightarrow> char" where
  "digit_char n = char_of (48 + n)"

definition lower_char :: "char \<Rightarrow> char" where
  "lower_char c = (let n = (of_char c :: nat) in if 65 \<le> n \<and> n \<le> 90 then char_of (n + 32) else c)"

definition upper_char :: "char \<Rightarrow> char" where
  "upper_char c = (let n = (of_char c :: nat) in if 97 \<le> n \<and> n \<le> 122 then char_of (n - 32) else c)"

definition py_lower :: "string \<Rightarrow> string" where
  "py_lower s = map lower_char s"

definition py_upper :: "string \<Rightarrow> string" where
  "py_upper s = map upper_char s"

definition py_strip :: "string \<Rightarrow> string" where
  "py_strip s = rev (dropWhile is_space (rev (dropWhile is_space s)))"

text \<open>\<open>s.split(c)\<close> with a one-character separator, and \<open>c.join(parts)\<close>.\<close>

fun split_on :: "char \<Rightarrow> string \<Rightarrow> string list" where
  "split_on c [] = [[]]"
| "split_on c (x # xs) =
     (if x = c then [] # split_on c xs
      else case split_on c xs of [] \<Rightarrow> [[x]] | p # ps \<Rightarrow> (x # p) # ps)"

fun join_with :: "string \<Rightarrow> string list \<Rightarrow> string" where
  "join_with sep [] = []"
| "join_with sep [p] = p"
| "join_with sep (p # q # ps) = p @ sep @ join_with sep (q # ps)"

lemma split_on_not_Nil [simp]: "split_on c s \<noteq> []"
  by (induction s) (auto split: list.splits)

lemma split_on_free: "p \<in> set (split_on c s) \<Longrightarrow> c \<notin> set p"
  by (induction s arbitrary: p) (fastforce split: list.splits if_splits)+

lemma split_on_append:
  "c \<notin> set p \<Longrightarrow> split_on c (p @ c # s) = p # split_on c s"
  by (induction p) auto

lemma split_on_single: "c \<notin> set p \<Longrightarrow> split_on c p = [p]"
  by (induction p) auto

lemma split_on_join:
  "ps \<noteq> [] \<Longrightarrow> \<forall>p \<in> set ps. c \<notin> set p \<Longrightarrow> split_on c (join_with [c] ps) = ps"
proof (induction ps rule: list_nonempty_induct)
  case (single p)
  then show ?case by (simp add: split_on_single)
next
  case (cons p ps)
  then obtain q qs where "ps = q # qs" by (cases ps) auto
  with cons show ?case by (simp add: split_on_append)
qed

lemma join_split: "join_with [c] (split_on c s) = s"
proof (induction s)
  case Nil
  then show ?case by simp
next
  case (Cons x s)
  obtain p ps where ps: "split_on c s = p # ps"
    by (cases "split_on c s") auto
  with Cons show ?case by (cases ps) auto
qed

section \<open>Decimal numerals\<close>

fun nat_to_str :: "nat \<Rightarrow> string" where
  "nat_to_str n = (if n < 10 then [digit_char n] else nat_to_str (n div 10) @ [digit_char (n mod 10)])"

declare nat_to_str.simps [simp del]

definition int_to_str :: "int \<Rightarrow> string" where
  "int_to_str i = (if i < 0 then CHR ''-'' # nat_to_str (nat (- i)) else nat_to_str (nat i))"

text \<open>
  \<open>int(text)\<close>: surrounding white space is dropped, one sign is allowed, and single underscores
  may separate digits; anything else is a \<open>ValueError\<close> (\<^term>\<open>None\<close>).
\<close>

fun digits_val :: "nat \<Rightarrow> bool \<Rightarrow> string \<Rightarrow> nat option" where
  "digits_val acc prev_digit [] = (if prev_digit then Some acc else None)"
| "digits_val acc prev_digit (c # cs) =
     (if is_digit c then digits_val (10 * acc + digit_val c) True cs
      else if c = CHR ''_'' \<and> prev_digit then digits_val acc False cs
      else None)"

definition int_of_str :: "string \<Rightarrow> int option" where
  "int_of_str s =
     (case py_strip s of
        [] \<Rightarrow> None
      | c # cs \<Rightarrow>
          if c = CHR ''-'' then map_option (\<lambda>n. - int n) (digits_val 0 False cs)
          else if c = CHR ''+'' then map_option int (digits_val 0 False cs)
          else map_option int (digits_val 0 False (c # cs)))"

lemma of_char_digit_char: "n < 10 \<Longrightarrow> (of_char (digit_char n) :: nat) = 48 + n"
  by (simp add: digit_char_def)

lemma digit_char_digit [simp]:
  "n < 10 \<Longrightarrow> is_digit (digit_char n)" "n < 10 \<Longrightarrow> digit_val (digit_char n) = n"
  by (simp_all add: is_digit_def digit_val_def of_char_digit_char)

lemma digits_val_append:
  "digits_val acc b (xs @ ys) =
     (if \<forall>x \<in> set xs. is_digit x then
        digits_val (foldl (\<lambda>a c. 10 * a + digit_val c) acc xs) (b \<or> xs \<noteq> []) ys
      else digits_val acc b (xs @ ys))"
  by (induction xs arbitrary: acc b) auto

lemma nat_to_str_digits: "c \<in> set (nat_to_str n) \<Longrightarrow> is_digit c"
proof (induction n rule: nat_to_str.induct)
  case (1 n)
  then show ?case
    by (cases "n < 10") (auto simp: nat_to_str.simps [of n])
qed

lemma nat_to_str_not_Nil [simp]: "nat_to_str n \<noteq> []"
  by (subst nat_to_str.simps) simp

lemma nat_to_str_foldl: "foldl (\<lambda>a c. 10 * a + digit_val c) 0 (nat_to_str n) = n"
proof (induction n rule: nat_to_str.induct)
  case (1 n)
  then show ?case
    by (cases "n < 10") (auto simp: nat_to_str.simps [of n])
qed

lemma digits_val_nat_to_str: "digits_val 0 False (nat_to_str n) = Some n"
  using digits_val_append [of 0 False "nat_to_str n" "[]"] nat_to_str_digits [of _ n]
  by (simp add: nat_to_str_foldl)

lemma digit_not_space: "is_digit c \<Longrightarrow> \<not> is_space c"
  by (auto simp: is_digit_def is_space_def Let_def)

lemma py_strip_id: "(\<And>c. c \<in> set s \<Longrightarrow> \<not> is_space c) \<Longrightarrow> py_strip s = s"
proof -
  assume h: "\<And>c. c \<in> set s \<Longrightarrow> \<not> is_space c"
  have id: "dropWhile is_space t = t" if "set t \<subseteq> set s" for t
    using h that by (cases t) auto
  show ?thesis using id [of s] id [of "rev s"] by (simp add: py_strip_def)
qed

lemma sign_not_digit [simp]: "\<not> is_digit (CHR ''-'')" "\<not> is_digit (CHR ''+'')"
  by (simp_all add: is_digit_def)

lemma int_of_str_to_str: "int_of_str (int_to_str i) = Some i"
proof -
  have sp: "\<not> is_space (CHR ''-'')" by (simp add: is_space_def)
  have strip: "py_strip (int_to_str i) = int_to_str i"
    by (rule py_strip_id) (auto simp: int_to_str_def sp digit_not_space nat_to_str_digits split: if_splits)
  have hd: "c \<noteq> CHR ''-'' \<and> c \<noteq> CHR ''+''" if "nat_to_str n = c # cs" for n c cs
    using nat_to_str_digits [of c n] that by auto
  show ?thesis
  proof (cases "i < 0")
    case True
    then show ?thesis
      using strip by (simp add: int_of_str_def int_to_str_def digits_val_nat_to_str)
  next
    case False
    obtain c cs where c: "nat_to_str (nat i) = c # cs"
      by (cases "nat_to_str (nat i)") auto
    have "digits_val 0 False (c # cs) = Some (nat i)"
      using digits_val_nat_to_str [of "nat i"] by (simp only: c)
    with False show ?thesis
      using strip hd [OF c] by (simp add: int_of_str_def int_to_str_def c del: digits_val.simps)
  qed
qed

lemma nat_to_str_inj: "nat_to_str m = nat_to_str n \<Longrightarrow> m = n"
  by (metis nat_to_str_foldl)

section \<open>Dynamically typed values\<close>

datatype pyval =
    VNone
  | VBool bool
  | VInt int
  | VFloat rat
  | VStr string
  | VList "pyval list"
  | VDict "(string \<times> pyval) list"

fun truthy :: "pyval \<Rightarrow> bool" where
  "truthy VNone = False"
| "truthy (VBool b) = b"
| "truthy (VInt i) = (i \<noteq> 0)"
| "truthy (VFloat r) = (r \<noteq> 0)"
| "truthy (VStr s) = (s \<noteq> [])"
| "truthy (VList xs) = (xs \<noteq> [])"
| "truthy (VDict d) = (d \<noteq> [])"

text \<open>\<open>a or b\<close> returns its first truthy operand, or the last one.\<close>

definition py_or :: "pyval \<Rightarrow> pyval \<Rightarrow> pyval" where
  "py_or a b = (if truthy a then a else b)"

text \<open>\<open>d.get(k)\<close> on a value that is a dictionary.\<close>

definition vget :: "(string \<times> pyval) list \<Rightarrow> string \<Rightarrow> pyval" where
  "vget d k = (case dict_get d k of None \<Rightarrow> VNone | Some v \<Rightarrow> v)"

text \<open>Python's numeric tower: booleans are the integers 0 and 1, and numbers compare by value.\<close>

fun num_of :: "pyval \<Rightarrow> rat option" where
  "num_of (VBool b) = Some (if b then 1 else 0)"
| "num_of (VInt i) = Some (of_int i)"
| "num_of (VFloat r) = Some r"
| "num_of _ = None"

lemma size_zip_fst [termination_simp]:
  "(a, b) \<in> set (zip xs ys) \<Longrightarrow> size a < Suc (size_list size xs)"
  by (auto dest: set_zip_leftD simp: less_Suc_eq_le size_list_estimation')

lemma size_dict_val [termination_simp]:
  "(k, v) \<in> set d \<Longrightarrow> size v < Suc (size_list (size_prod (\<lambda>_. 0) size) d)"
  by (induction d) auto

text \<open>\<open>a == b\<close>: numbers by value across types, lists element by element, dictionaries by content.\<close>

fun py_eq :: "pyval \<Rightarrow> pyval \<Rightarrow> bool" where
  "py_eq VNone b = (b = VNone)"
| "py_eq (VStr s) b = (b = VStr s)"
| "py_eq (VList xs) b =
     (case b of
        VList ys \<Rightarrow> length xs = length ys \<and> list_all (\<lambda>(x, y). py_eq x y) (zip xs ys)
      | _ \<Rightarrow> False)"
| "py_eq (VDict d) b =
     (case b of
        VDict e \<Rightarrow> length d = length e \<and>
          list_all (\<lambda>(k, v). case dict_get e k of None \<Rightarrow> False | Some w \<Rightarrow> py_eq v w) d
      | _ \<Rightarrow> False)"
| "py_eq a b = (num_of a = num_of b)"

datatype py_error = TypeError | ValueError | KeyError | IndexError | AttributeError | OSError

text \<open>\<open>int(v)\<close>: floats truncate towards zero.\<close>

fun py_int :: "pyval \<Rightarrow> py_error + int" where
  "py_int (VBool b) = Inr (if b then 1 else 0)"
| "py_int (VInt i) = Inr i"
| "py_int (VFloat r) = Inr (if r < 0 then \<lceil>r\<rceil> else \<lfloor>r\<rfloor>)"
| "py_int (VStr s) = (case int_of_str s of None \<Rightarrow> Inl ValueError | Some i \<Rightarrow> Inr i)"
| "py_int _ = Inl TypeError"

text \<open>\<open>str(v)\<close>; the text of a float, a list or a dictionary is the parameter \<open>show\<close>.\<close>

fun py_str :: "(pyval \<Rightarrow> string) \<Rightarrow> pyval \<Rightarrow> string" where
  "py_str show VNone = ''None''"
| "py_str show (VBool b) = (if b then ''True'' else ''False'')"
| "py_str show (VInt i) = int_to_str i"
| "py_str show (VStr s) = s"
| "py_str show v = show v"

text \<open>Well-formed values: every dictionary inside has distinct keys, as a Python dict does.\<close>

fun wf_val :: "pyval \<Rightarrow> bool" where
  "wf_val (VList xs) = list_all wf_val xs"
| "wf_val (VDict d) = (dict_ok d \<and> list_all (\<lambda>(k, v). wf_val v) d)"
| "wf_val _ = True"

lemma wf_val_dict_get: "wf_val (VDict d) \<Longrightarrow> dict_get d k = Some v \<Longrightarrow> wf_val v"
  by (auto simp: list_all_iff dest: map_of_SomeD)

lemma wf_val_dict_set: "wf_val (VDict d) \<Longrightarrow> wf_val v \<Longrightarrow> wf_val (VDict (dict_set k v d))"
  using set_dict_set [of k v d] by (auto simp: list_all_iff)

lemma wf_val_dict_pop: "wf_val (VDict d) \<Longrightarrow> wf_val (VDict (dict_pop k d))"
  using set_dict_pop [of k d] by (auto simp: list_all_iff)

lemma py_eq_refl: "wf_val v \<Longrightarrow> py_eq v v"
proof (induction v)
  case (VList xs)
  then have "py_eq a b" if "(a, b) \<in> set (zip xs xs)" for a b
    using that by (auto simp: list_all_iff zip_same)
  then show ?case by (auto simp: list_all_iff)
next
  case (VDict d)
  have "case dict_get d k of None \<Rightarrow> False | Some w \<Rightarrow> py_eq v w" if kv: "(k, v) \<in> set d" for k v
  proof -
    have "dict_get d k = Some v"
      using VDict.prems kv by simp
    moreover have "py_eq v v"
      using VDict.IH [of "(k, v)" v] VDict.prems kv by (auto simp: list_all_iff)
    ultimately show ?thesis by simp
  qed
  then show ?case by (auto simp: list_all_iff)
qed auto

section \<open>Substrings\<close>

fun py_prefix :: "string \<Rightarrow> string \<Rightarrow> bool" where
  "py_prefix [] ys = True"
| "py_prefix (x # xs) [] = False"
| "py_prefix (x # xs) (y # ys) = (x = y \<and> py_prefix xs ys)"

text \<open>\<open>needle in hay\<close>.\<close>

fun py_in :: "string \<Rightarrow> string \<Rightarrow> bool" where
  "py_in needle [] = (needle = [])"
| "py_in needle (c # cs) = (py_prefix needle (c # cs) \<or> py_in needle cs)"

lemma py_prefix_iff: "py_prefix xs ys \<longleftrightarrow> (\<exists>zs. ys = xs @ zs)"
  by (induction xs ys rule: py_prefix.induct) auto

lemma py_in_iff: "py_in needle hay \<longleftrightarrow> (\<exists>us vs. hay = us @ needle @ vs)"
proof (induction hay)
  case (Cons c cs)
  have "(\<exists>us vs. c # cs = us @ needle @ vs) \<longleftrightarrow> (\<exists>vs. c # cs = needle @ vs) \<or> (\<exists>us vs. cs = us @ needle @ vs)"
    by (metis append_Cons append_Nil list.exhaust list.inject)
  with Cons show ?case by (simp add: py_prefix_iff)
qed simp

end
