(* ===== verification/CoreManager.thy ===== *)
theory CoreManager
  imports PyValue
begin

text \<open>
  The core lifecycle manager (\<open>app/cores/manager.py\<close>) with the SQL table behind its
  \<open>CoreStateStore\<close> port (\<open>SQLCoreStateStore\<close> of \<open>app/persistence/repositories.py\<close>).

  A driver is code the manager only calls, so its class is a parameter: a record of functions on
  an abstract driver state \<open>'d\<close>. Every driver call returns the new driver state and whether it
  raised; nothing is assumed about the outcomes. An operation of the manager returns its result or
  the exception together with the state it leaves behind, because the source mutates its
  dictionaries before it raises. Operations that hold a core's asyncio lock run to completion one
  after the other; the health cycle, which holds no lock, is split at its probe. Inside an
  operation every commit of the store is recorded in \<open>store_log\<close>, a history variable no code
  reads, so that a crash in the middle of an operation can be stated: the rows a later boot finds
  are one of the logged contents. Database failures are outside the model: a \<open>save_state\<close> always
  succeeds.
\<close>

section \<open>Data\<close>

datatype core_state =
  LOADED | INSTALLED | STARTING | RUNNING | STOPPING | STOPPED | ERROR | UNINSTALLED

datatype health_status = UNKNOWN | HEALTHY | DEGRADED | UNHEALTHY

datatype core_error =
    DriverNotFoundError string
  | CoreNotFoundError string
  | CoreStateError string
  | CapabilityNotSupportedError string string
  | DriverFailure string

type_synonym settings = "(string, pyval) dict"

record core_status =
  cs_state :: core_state
  cs_health :: health_status

type_synonym 'd action = "'d \<Rightarrow> 'd \<times> core_error option"

record 'd driver_class =
  dc_provides :: "string list"
  dc_requires :: "string list"
  dc_studio_inbounds_path :: "string option"
  dc_stop_when_no_inbounds :: bool
  dc_new :: "settings \<Rightarrow> 'd"
  dc_settings :: "'d \<Rightarrow> settings"
  dc_install :: "'d action"
  dc_uninstall :: "bool \<Rightarrow> 'd action"
  dc_start :: "'d action"
  dc_stop :: "'d action"
  dc_update :: "string option \<Rightarrow> 'd \<Rightarrow> 'd \<times> (core_error + string)"
  dc_status :: "'d \<Rightarrow> 'd \<times> (core_error + core_status)"
  dc_health_check :: "'d \<Rightarrow> 'd \<times> (core_error + core_status)"
  dc_apply_document :: "(pyval \<Rightarrow> 'd action) option"

record 'd driver =
  dv_class :: "'d driver_class"
  dv_state :: 'd

record core_row =
  row_state :: core_state
  row_enabled :: bool
  row_settings :: settings

datatype core_event = CoreStateChanged string core_state | CoreHealthChanged string health_status

record 'd manager =
  drivers :: "(string, 'd driver) dict"
  states :: "(string, core_state) dict"
  enabled :: "(string, bool) dict"
  core_store :: "(string, core_row) dict"
  store_log :: "(string, core_row) dict list"
  bus :: "core_event list"

text \<open>What the manager is constructed with: the driver registry and the injected collaborators.\<close>

record 'd manager_env =
  registry :: "(string, 'd driver_class) dict"
  builtin_core_ids :: "string list"
  settings_provider :: "(string \<Rightarrow> settings) option"
  settings_transform :: "(string \<Rightarrow> settings \<Rightarrow> settings) option"

type_synonym ('d, 'a) op_result = "(core_error + 'a) \<times> 'd manager"

section \<open>The state store\<close>

definition save_state ::
  "string \<Rightarrow> core_state \<Rightarrow> bool \<Rightarrow> settings option \<Rightarrow> (string, core_row) dict \<Rightarrow> (string, core_row) dict" where
  "save_state core_id st en stg rows =
     (case dict_get rows core_id of
        None \<Rightarrow> dict_set core_id \<lparr>row_state = st, row_enabled = en,
                   row_settings = (case stg of None \<Rightarrow> [] | Some x \<Rightarrow> x)\<rparr> rows
      | Some row \<Rightarrow> dict_set core_id \<lparr>row_state = st, row_enabled = en,
                   row_settings = (case stg of None \<Rightarrow> row_settings row
                                   | Some x \<Rightarrow> dict_update (row_settings row) x)\<rparr> rows)"

definition remove_row :: "string \<Rightarrow> (string, core_row) dict \<Rightarrow> (string, core_row) dict" where
  "remove_row core_id rows = dict_pop core_id rows"

text \<open>One committed transaction of the store: the new rows, and the history of all contents.\<close>

definition commit :: "(string, core_row) dict \<Rightarrow> 'd manager \<Rightarrow> 'd manager" where
  [simp]: "commit rows m = m\<lparr>core_store := rows, store_log := store_log m @ [rows]\<rparr>"

section \<open>Inventory\<close>

definition get_driver_class :: "'d manager_env \<Rightarrow> string \<Rightarrow> core_error + 'd driver_class" where
  "get_driver_class env core_id =
     (case dict_get (registry env) core_id of None \<Rightarrow> Inl (DriverNotFoundError core_id) | Some c \<Rightarrow> Inr c)"

definition get_core :: "'d manager \<Rightarrow> string \<Rightarrow> core_error + 'd driver" where
  "get_core m core_id =
     (case dict_get (drivers m) core_id of None \<Rightarrow> Inl (CoreNotFoundError core_id) | Some d \<Rightarrow> Inr d)"

definition list_cores :: "'d manager \<Rightarrow> string list" where
  "list_cores m = sort (dict_keys (drivers m))"

definition is_enabled :: "'d manager \<Rightarrow> string \<Rightarrow> bool" where
  "is_enabled m core_id = (case dict_get (enabled m) core_id of None \<Rightarrow> False | Some b \<Rightarrow> b)"

definition state_of :: "'d manager \<Rightarrow> string \<Rightarrow> core_state" where
  "state_of m core_id = (case dict_get (states m) core_id of None \<Rightarrow> LOADED | Some s \<Rightarrow> s)"

definition attach :: "string \<Rightarrow> 'd driver \<Rightarrow> bool \<Rightarrow> core_state \<Rightarrow> 'd manager \<Rightarrow> 'd manager" where
  "attach core_id driver en st m =
     m\<lparr>drivers := dict_set core_id driver (drivers m), states := dict_set core_id st (states m),
       enabled := dict_set core_id en (enabled m)\<rparr>"

definition resolve_settings :: "'d manager_env \<Rightarrow> string \<Rightarrow> settings" where
  "resolve_settings env core_id = (case settings_provider env of None \<Rightarrow> [] | Some f \<Rightarrow> f core_id)"

definition transform_settings :: "'d manager_env \<Rightarrow> string \<Rightarrow> settings \<Rightarrow> settings" where
  "transform_settings env core_id s = (case settings_transform env of None \<Rightarrow> s | Some f \<Rightarrow> f core_id s)"

definition new_driver :: "'d driver_class \<Rightarrow> settings \<Rightarrow> 'd driver" where
  "new_driver cls s = \<lparr>dv_class = cls, dv_state = dc_new cls s\<rparr>"

section \<open>Boot\<close>

definition boot_state :: "core_state \<Rightarrow> core_state" where
  "boot_state st = (if st \<in> {RUNNING, STARTING, STOPPING} then STOPPED else st)"

definition boot_row :: "'d manager_env \<Rightarrow> string \<times> core_row \<Rightarrow> 'd manager \<Rightarrow> 'd manager" where
  "boot_row env row m =
     (case get_driver_class env (fst row) of
        Inl e \<Rightarrow> m
      | Inr cls \<Rightarrow>
          attach (fst row) (new_driver cls (transform_settings env (fst row) (row_settings (snd row))))
            (row_enabled (snd row)) (boot_state (row_state (snd row))) m)"

definition boot_builtin :: "'d manager_env \<Rightarrow> string \<Rightarrow> 'd manager \<Rightarrow> 'd manager" where
  "boot_builtin env core_id m =
     (if dict_in core_id (drivers m) then m
      else case get_driver_class env core_id of
        Inl e \<Rightarrow> m
      | Inr cls \<Rightarrow>
          attach core_id (new_driver cls (transform_settings env core_id [])) True INSTALLED m)"

definition fresh_manager :: "(string, core_row) dict \<Rightarrow> 'd manager" where
  "fresh_manager rows = \<lparr>drivers = [], states = [], enabled = [], core_store = rows, store_log = [], bus = []\<rparr>"

definition boot :: "'d manager_env \<Rightarrow> 'd manager \<Rightarrow> 'd manager" where
  "boot env m =
     fold (boot_builtin env) (sort (builtin_core_ids env)) (fold (boot_row env) (core_store m) m)"

section \<open>State changes\<close>

definition set_state :: "string \<Rightarrow> core_state \<Rightarrow> 'd manager \<Rightarrow> 'd manager" where
  "set_state core_id st m =
     (let m1 = commit (save_state core_id st (is_enabled m core_id) None (core_store m))
                 (m\<lparr>states := dict_set core_id st (states m)\<rparr>)
      in m1\<lparr>bus := bus m1 @ [CoreStateChanged core_id st]\<rparr>)"

text \<open>Run a driver call and keep the driver's new state.\<close>

definition run_driver :: "string \<Rightarrow> 'd driver \<Rightarrow> 'd action \<Rightarrow> 'd manager \<Rightarrow> (core_error + unit) \<times> 'd manager" where
  "run_driver core_id drv act m =
     (case act (dv_state drv) of (d', err) \<Rightarrow>
        ((case err of None \<Rightarrow> Inr () | Some e \<Rightarrow> Inl e),
         m\<lparr>drivers := dict_set core_id (drv\<lparr>dv_state := d'\<rparr>) (drivers m)\<rparr>))"

definition cur_driver :: "string \<Rightarrow> 'd driver \<Rightarrow> 'd manager \<Rightarrow> 'd driver" where
  "cur_driver core_id drv m = (case dict_get (drivers m) core_id of None \<Rightarrow> drv | Some d \<Rightarrow> d)"

definition transition ::
  "string \<Rightarrow> 'd driver \<Rightarrow> core_state \<Rightarrow> core_state \<Rightarrow> 'd action \<Rightarrow> 'd manager \<Rightarrow> ('d, unit) op_result" where
  "transition core_id drv intermediate success act m =
     (let m1 = set_state core_id intermediate m
      in case run_driver core_id drv act m1 of
           (Inl e, m2) \<Rightarrow> (Inl e, set_state core_id ERROR m2)
         | (Inr u, m2) \<Rightarrow> (Inr (), set_state core_id success m2))"

text \<open>Persist the driver's live settings with the recorded state.\<close>

definition persist_driver :: "string \<Rightarrow> 'd driver \<Rightarrow> 'd manager \<Rightarrow> 'd manager" where
  "persist_driver core_id drv m =
     commit (save_state core_id (state_of m core_id) (is_enabled m core_id)
         (Some (dc_settings (dv_class drv) (dv_state (cur_driver core_id drv m)))) (core_store m)) m"

definition driver_status :: "string \<Rightarrow> 'd driver \<Rightarrow> 'd manager \<Rightarrow> ('d, core_status) op_result" where
  "driver_status core_id drv m =
     (case dc_status (dv_class drv) (dv_state (cur_driver core_id drv m)) of (d', r) \<Rightarrow>
        (r, m\<lparr>drivers := dict_set core_id (drv\<lparr>dv_state := d'\<rparr>) (drivers m)\<rparr>))"

section \<open>Lifecycle operations\<close>

definition start_core :: "string \<Rightarrow> 'd manager \<Rightarrow> ('d, core_status) op_result" where
  "start_core core_id m =
     (case get_core m core_id of
        Inl e \<Rightarrow> (Inl e, m)
      | Inr drv \<Rightarrow>
          if \<not> is_enabled m core_id then (Inl (CoreStateError ''disabled''), m)
          else if state_of m core_id = RUNNING then (Inl (CoreStateError ''already running''), m)
          else if state_of m core_id \<notin> {INSTALLED, STOPPED, ERROR}
            then (Inl (CoreStateError ''cannot start''), m)
          else case transition core_id drv STARTING RUNNING (dc_start (dv_class drv)) m of
                 (Inl e, m') \<Rightarrow> (Inl e, m')
               | (Inr u, m') \<Rightarrow> driver_status core_id drv (persist_driver core_id drv m'))"

definition stop_core :: "string \<Rightarrow> 'd manager \<Rightarrow> ('d, core_status) op_result" where
  "stop_core core_id m =
     (case get_core m core_id of
        Inl e \<Rightarrow> (Inl e, m)
      | Inr drv \<Rightarrow>
          if state_of m core_id \<notin> {RUNNING, ERROR, STARTING}
            then (Inl (CoreStateError ''cannot stop''), m)
          else case transition core_id drv STOPPING STOPPED (dc_stop (dv_class drv)) m of
                 (Inl e, m') \<Rightarrow> (Inl e, m')
               | (Inr u, m') \<Rightarrow> driver_status core_id drv m')"

definition restart_core :: "string \<Rightarrow> 'd manager \<Rightarrow> ('d, core_status) op_result" where
  "restart_core core_id m =
     (case get_core m core_id of
        Inl e \<Rightarrow> (Inl e, m)
      | Inr drv \<Rightarrow>
          if state_of m core_id \<noteq> RUNNING then (Inl (CoreStateError ''only a running core can be restarted''), m)
          else
            (case run_driver core_id drv (dc_stop (dv_class drv)) (set_state core_id STOPPING m) of
               (Inl e, m1) \<Rightarrow> (Inl e, m1)
             | (Inr u, m1) \<Rightarrow>
                 (case run_driver core_id (cur_driver core_id drv m1) (dc_start (dv_class drv))
                         (set_state core_id STARTING m1) of
                    (Inl e, m2) \<Rightarrow> (Inl e, set_state core_id ERROR m2)
                  | (Inr u, m2) \<Rightarrow>
                      driver_status core_id drv (persist_driver core_id drv (set_state core_id RUNNING m2)))))"

definition install_done ::
  "string \<Rightarrow> 'd driver \<Rightarrow> bool \<Rightarrow> 'd manager \<Rightarrow> ('d, core_state) op_result" where
  "install_done core_id drv en m =
     (let m1 = set_state core_id INSTALLED m;
          m2 = commit (save_state core_id (state_of m1 core_id) en
                 (Some (dc_settings (dv_class drv) (dv_state (cur_driver core_id drv m1)))) (core_store m1)) m1
      in (Inr (state_of m2 core_id), m2))"

definition forget_core :: "string \<Rightarrow> 'd manager \<Rightarrow> 'd manager" where
  "forget_core core_id m =
     m\<lparr>drivers := dict_pop core_id (drivers m), states := dict_pop core_id (states m),
       enabled := dict_pop core_id (enabled m)\<rparr>"

definition install_core ::
  "'d manager_env \<Rightarrow> string \<Rightarrow> settings \<Rightarrow> bool \<Rightarrow> 'd manager \<Rightarrow> ('d, core_state) op_result" where
  "install_core env core_id stg en m =
     (if dict_in core_id (drivers m) then (Inl (CoreStateError ''already installed''), m)
      else case get_driver_class env core_id of
        Inl e \<Rightarrow> (Inl e, m)
      | Inr cls \<Rightarrow>
          (let eff = transform_settings env core_id (if stg \<noteq> [] then stg else resolve_settings env core_id);
               drv = new_driver cls eff;
               m1 = attach core_id drv en LOADED m
           in case run_driver core_id drv (dc_install cls) m1 of
                (Inr u, m2) \<Rightarrow> install_done core_id drv en m2
              | (Inl (CapabilityNotSupportedError c x), m2) \<Rightarrow> install_done core_id drv en m2
              | (Inl e, m2) \<Rightarrow> (Inl e, forget_core core_id m2)))"

definition dependents :: "'d manager \<Rightarrow> string \<Rightarrow> string list" where
  "dependents m core_id =
     (case get_core m core_id of
        Inl e \<Rightarrow> []
      | Inr provider \<Rightarrow>
          sort (map fst (filter (\<lambda>(cid, drv). cid \<noteq> core_id \<and>
             (\<exists>f \<in> set (dc_requires (dv_class drv)). f \<in> set (dc_provides (dv_class provider)))) (drivers m))))"

definition finish_uninstall :: "string \<Rightarrow> 'd manager \<Rightarrow> 'd manager" where
  "finish_uninstall core_id m =
     (let m1 = set_state core_id UNINSTALLED m;
          m2 = forget_core core_id m1
      in commit (remove_row core_id (core_store m2)) m2)"

definition uninstall_driver :: "string \<Rightarrow> 'd driver \<Rightarrow> bool \<Rightarrow> 'd manager \<Rightarrow> ('d, unit) op_result" where
  "uninstall_driver core_id drv purge m =
     (case run_driver core_id (cur_driver core_id drv m) (dc_uninstall (dv_class drv) purge) m of
        (Inr u, m') \<Rightarrow> (Inr (), finish_uninstall core_id m')
      | (Inl (CapabilityNotSupportedError c x), m') \<Rightarrow> (Inr (), finish_uninstall core_id m')
      | (Inl e, m') \<Rightarrow> (Inl e, m'))"

definition uninstall_core ::
  "'d manager_env \<Rightarrow> string \<Rightarrow> bool \<Rightarrow> bool \<Rightarrow> 'd manager \<Rightarrow> ('d, unit) op_result" where
  "uninstall_core env core_id purge force m =
     (if core_id \<in> set (builtin_core_ids env) then (Inl (CoreStateError ''built-in engine''), m)
      else if dependents m core_id \<noteq> [] \<and> \<not> force then (Inl (CoreStateError ''provides required features''), m)
      else case get_core m core_id of
        Inl e \<Rightarrow> (Inl e, m)
      | Inr drv \<Rightarrow>
          if state_of m core_id = RUNNING then
            (case transition core_id drv STOPPING STOPPED (dc_stop (dv_class drv)) m of
               (Inl e, m') \<Rightarrow> (Inl e, m')
             | (Inr u, m') \<Rightarrow> uninstall_driver core_id drv purge m')
          else uninstall_driver core_id drv purge m)"

definition update_core :: "string \<Rightarrow> string option \<Rightarrow> 'd manager \<Rightarrow> ('d, string) op_result" where
  "update_core core_id version m =
     (case get_core m core_id of
        Inl e \<Rightarrow> (Inl e, m)
      | Inr drv \<Rightarrow>
          (case dc_update (dv_class drv) version (dv_state drv) of (d', r) \<Rightarrow>
             (r, m\<lparr>drivers := dict_set core_id (drv\<lparr>dv_state := d'\<rparr>) (drivers m)\<rparr>)))"

definition enable_core :: "string \<Rightarrow> 'd manager \<Rightarrow> ('d, unit) op_result" where
  "enable_core core_id m =
     (case get_core m core_id of
        Inl e \<Rightarrow> (Inl e, m)
      | Inr drv \<Rightarrow>
          (Inr (), commit (save_state core_id (state_of m core_id) True None (core_store m))
             (m\<lparr>enabled := dict_set core_id True (enabled m)\<rparr>)))"

definition disable_core :: "'d manager_env \<Rightarrow> string \<Rightarrow> 'd manager \<Rightarrow> ('d, unit) op_result" where
  "disable_core env core_id m =
     (if core_id \<in> set (builtin_core_ids env) then (Inl (CoreStateError ''built-in engine''), m)
      else
        (let (stopped, m1) = (if dict_get (states m) core_id = Some RUNNING
                              then (case stop_core core_id m of (Inl e, m') \<Rightarrow> (Some e, m') | (Inr s, m') \<Rightarrow> (None, m'))
                              else (None, m))
         in case stopped of
              Some e \<Rightarrow> (Inl e, m1)
            | None \<Rightarrow>
                (case get_core m1 core_id of
                   Inl e \<Rightarrow> (Inl e, m1)
                 | Inr drv \<Rightarrow>
                     (Inr (), commit (save_state core_id (state_of m1 core_id) False None (core_store m1))
                        (m1\<lparr>enabled := dict_set core_id False (enabled m1)\<rparr>)))))"

definition start_enabled_one :: "'d manager_env \<Rightarrow> string \<Rightarrow> 'd manager \<Rightarrow> 'd manager" where
  "start_enabled_one env core_id m =
     (if core_id \<in> set (builtin_core_ids env) then m
      else if \<not> is_enabled m core_id then m
      else if state_of m core_id \<notin> {INSTALLED, STOPPED, ERROR} then m
      else snd (start_core core_id m))"

definition start_enabled :: "'d manager_env \<Rightarrow> 'd manager \<Rightarrow> 'd manager" where
  "start_enabled env m = fold (start_enabled_one env) (list_cores m) m"

definition stop_all_one :: "string \<Rightarrow> 'd manager \<Rightarrow> 'd manager" where
  "stop_all_one core_id m =
     (if dict_get (states m) core_id = Some RUNNING then snd (stop_core core_id m) else m)"

definition stop_all :: "'d manager \<Rightarrow> 'd manager" where
  "stop_all m = fold stop_all_one (list_cores m) m"

section \<open>Studio documents\<close>

text \<open>Walk a JSON pointer's non-empty segments; anything but a dictionary ends the walk.\<close>

definition walk_path :: "string \<Rightarrow> pyval \<Rightarrow> pyval" where
  "walk_path path doc =
     foldl (\<lambda>node seg. case node of VDict d \<Rightarrow> vget d seg | _ \<Rightarrow> VNone) doc
       (filter (\<lambda>s. s \<noteq> []) (split_on (CHR ''/'') path))"

definition empty_stops :: "'d driver_class \<Rightarrow> pyval \<Rightarrow> bool" where
  "empty_stops cls doc =
     (case dc_studio_inbounds_path cls of
        None \<Rightarrow> False
      | Some path \<Rightarrow>
          dc_stop_when_no_inbounds cls \<and> path \<noteq> [] \<and>
          (case walk_path path doc of VList (x # xs) \<Rightarrow> False | _ \<Rightarrow> True))"

definition apply_failed :: "string \<Rightarrow> 'd driver \<Rightarrow> core_state \<Rightarrow> core_error \<Rightarrow> 'd manager \<Rightarrow> ('d, unit) op_result" where
  "apply_failed core_id drv before e m =
     (case driver_status core_id drv m of (r, m1) \<Rightarrow>
        (Inl e,
         if before = RUNNING \<and> (case r of Inl x \<Rightarrow> True | Inr s \<Rightarrow> cs_state s \<noteq> RUNNING)
         then set_state core_id ERROR m1 else m1))"

definition apply_empty :: "string \<Rightarrow> 'd driver \<Rightarrow> core_state \<Rightarrow> 'd manager \<Rightarrow> ('d, unit) op_result" where
  "apply_empty core_id drv before m =
     (case driver_status core_id drv m of
        (Inl e, m1) \<Rightarrow> (Inl e, m1)
      | (Inr s, m1) \<Rightarrow>
          (case (if cs_state s = RUNNING
                 then run_driver core_id (cur_driver core_id drv m1) (dc_stop (dv_class drv)) m1
                 else (Inr (), m1)) of
             (Inl e, m2) \<Rightarrow> (Inl e, m2)
           | (Inr u, m2) \<Rightarrow>
               (Inr (), if before \<in> {RUNNING, ERROR} then set_state core_id STOPPED m2 else m2)))"

definition apply_recover :: "string \<Rightarrow> 'd driver \<Rightarrow> core_state \<Rightarrow> 'd manager \<Rightarrow> ('d, unit) op_result" where
  "apply_recover core_id drv before m =
     (case driver_status core_id drv m of
        (Inl e, m1) \<Rightarrow> (Inl e, m1)
      | (Inr s, m1) \<Rightarrow>
          if cs_state s = RUNNING
          then (Inr (), if before \<noteq> RUNNING then set_state core_id RUNNING m1 else m1)
          else (case run_driver core_id (cur_driver core_id drv m1) (dc_start (dv_class drv))
                       (set_state core_id STARTING m1) of
                  (Inl e, m2) \<Rightarrow> (Inl e, set_state core_id ERROR m2)
                | (Inr u, m2) \<Rightarrow> (Inr (), set_state core_id RUNNING m2)))"

definition apply_studio_document :: "string \<Rightarrow> pyval \<Rightarrow> 'd manager \<Rightarrow> ('d, unit) op_result" where
  "apply_studio_document core_id doc m =
     (case get_core m core_id of
        Inl e \<Rightarrow> (Inl e, m)
      | Inr drv \<Rightarrow>
          (case dc_apply_document (dv_class drv) of
             None \<Rightarrow> (Inl (CapabilityNotSupportedError core_id ''studio_document_apply''), m)
           | Some hook \<Rightarrow>
               (let before = state_of m core_id
                in case run_driver core_id drv (hook doc) m of
                     (Inl e, m1) \<Rightarrow> apply_failed core_id drv before e m1
                   | (Inr u, m1) \<Rightarrow>
                       (case (if empty_stops (dv_class drv) doc then apply_empty core_id drv before m1
                              else if before \<in> {RUNNING, ERROR} then apply_recover core_id drv before m1
                              else (Inr (), m1)) of
                          (Inl e, m2) \<Rightarrow> (Inl e, m2)
                        | (Inr u, m2) \<Rightarrow> (Inr (), persist_driver core_id drv m2)))))"

definition persist_settings :: "string \<Rightarrow> 'd manager \<Rightarrow> ('d, unit) op_result" where
  "persist_settings core_id m =
     (case get_core m core_id of
        Inl e \<Rightarrow> (Inl e, m)
      | Inr drv \<Rightarrow> (Inr (), persist_driver core_id drv m))"

section \<open>Health\<close>

text \<open>
  One core of \<open>_health_cycle\<close>. The cycle holds no lock, so it has two halves: \<open>health_probe\<close> reads
  the recorded state and calls the driver, \<open>health_reconcile\<close> writes back what the probe said.
\<close>

definition health_skips :: "core_state option \<Rightarrow> bool" where
  "health_skips recorded \<longleftrightarrow> recorded \<in> {Some UNINSTALLED, Some LOADED, Some STARTING, Some STOPPING}"

definition health_probe :: "string \<Rightarrow> 'd manager \<Rightarrow> core_status option \<times> 'd manager" where
  "health_probe core_id m =
     (case dict_get (drivers m) core_id of
        None \<Rightarrow> (None, m)
      | Some drv \<Rightarrow>
          (case dc_health_check (dv_class drv) (dv_state drv) of (d', r) \<Rightarrow>
             ((case r of Inl e \<Rightarrow> None | Inr s \<Rightarrow> Some s),
              m\<lparr>drivers := dict_set core_id (drv\<lparr>dv_state := d'\<rparr>) (drivers m)\<rparr>)))"

definition health_reconcile ::
  "string \<Rightarrow> core_state option \<Rightarrow> core_status option \<Rightarrow> (string, health_status) dict \<Rightarrow> 'd manager
     \<Rightarrow> (string, health_status) dict \<times> 'd manager" where
  "health_reconcile core_id recorded status last_health m =
     (let health = (case status of None \<Rightarrow> UNHEALTHY | Some s \<Rightarrow> cs_health s);
          previous = (case dict_get last_health core_id of None \<Rightarrow> UNKNOWN | Some h \<Rightarrow> h);
          m1 = (case status of
                  None \<Rightarrow> m
                | Some s \<Rightarrow>
                    if cs_state s = RUNNING \<and> recorded \<noteq> Some RUNNING then set_state core_id RUNNING m
                    else if cs_state s \<noteq> RUNNING \<and> recorded = Some RUNNING then set_state core_id STOPPED m
                    else m)
      in if health \<noteq> previous
         then (dict_set core_id health last_health, m1\<lparr>bus := bus m1 @ [CoreHealthChanged core_id health]\<rparr>)
         else (last_health, m1))"

definition health_one ::
  "string \<Rightarrow> (string, health_status) dict \<times> 'd manager \<Rightarrow> (string, health_status) dict \<times> 'd manager" where
  "health_one core_id lm =
     (case lm of (last_health, m) \<Rightarrow>
        (let recorded = dict_get (states m) core_id
         in if health_skips recorded then (last_health, m)
            else case health_probe core_id m of (status, m1) \<Rightarrow>
                   health_reconcile core_id recorded status last_health m1))"

definition health_cycle ::
  "(string, health_status) dict \<Rightarrow> 'd manager \<Rightarrow> (string, health_status) dict \<times> 'd manager" where
  "health_cycle last_health m = fold health_one (list_cores m) (last_health, m)"

end
