(* ===== verification/CoreManagerInv.thy ===== *)
theory CoreManagerInv
  imports CoreManager
begin

text \<open>
  Invariants of the core manager. \<open>mgr_inv\<close> says that the three dictionaries of the manager have
  the same keys, that the persisted rows mirror the live records up to the normalisation \<open>boot\<close>
  applies, and that built-in cores stay managed. Every operation keeps it; the reachable states
  are those a boot and any sequence of operations produce.
\<close>

section \<open>The invariant\<close>

definition managed :: "'d manager \<Rightarrow> string \<Rightarrow> bool" where
  "managed m c \<longleftrightarrow> dict_get (drivers m) c \<noteq> None"

definition row_mirrors :: "'d manager_env \<Rightarrow> 'd manager \<Rightarrow> string \<Rightarrow> bool" where
  "row_mirrors env m c \<longleftrightarrow>
     (dict_get (core_store m) c = None \<longrightarrow>
        c \<in> set (builtin_core_ids env) \<and> state_of m c = INSTALLED \<and> is_enabled m c) \<and>
     (\<forall>row. dict_get (core_store m) c = Some row \<longrightarrow>
        boot_state (row_state row) = boot_state (state_of m c) \<and> row_enabled row = is_enabled m c)"

text \<open>
  \<open>G\<close> holds the ghosts: the cores on which the health monitor wrote back a state after they had
  been uninstalled. Only they can leave a state or a row behind without being managed, and the row
  they leave is disabled.
\<close>

definition ghost_row :: "string set \<Rightarrow> string \<Rightarrow> core_row \<Rightarrow> bool" where
  "ghost_row G c row \<longleftrightarrow> c \<in> G \<and> \<not> row_enabled row \<and> row_state row \<in> {RUNNING, STOPPED}"

definition core_inv :: "'d manager_env \<Rightarrow> string set \<Rightarrow> 'd manager \<Rightarrow> string \<Rightarrow> bool" where
  "core_inv env G m c \<longleftrightarrow>
     (if managed m c
      then dict_get (states m) c \<noteq> None \<and> dict_get (enabled m) c \<noteq> None \<and>
        dict_get (registry env) c \<noteq> None \<and> row_mirrors env m c
      else dict_get (enabled m) c = None \<and> (dict_get (states m) c \<noteq> None \<longrightarrow> c \<in> G) \<and>
        (dict_get (registry env) c \<noteq> None \<longrightarrow>
           c \<notin> set (builtin_core_ids env) \<and> (\<forall>row. dict_get (core_store m) c = Some row \<longrightarrow> ghost_row G c row)))"

definition mgr_inv :: "'d manager_env \<Rightarrow> string set \<Rightarrow> 'd manager \<Rightarrow> bool" where
  "mgr_inv env G m \<longleftrightarrow> (\<forall>c. core_inv env G m c)"

text \<open>Which parts of a manager state two states share.\<close>

lemma save_state_get:
  "dict_get (save_state c st en stg rows) c' =
     (if c' = c then Some \<lparr>row_state = st, row_enabled = en,
         row_settings = (case dict_get rows c of
             None \<Rightarrow> (case stg of None \<Rightarrow> [] | Some x \<Rightarrow> x)
           | Some row \<Rightarrow> (case stg of None \<Rightarrow> row_settings row | Some x \<Rightarrow> dict_update (row_settings row) x))\<rparr>
      else dict_get rows c')"
  by (simp add: save_state_def split: option.splits)

lemma managed_frame [simp]:
  "managed (m\<lparr>states := x\<rparr>) = managed m" "managed (m\<lparr>enabled := y\<rparr>) = managed m"
  "managed (m\<lparr>core_store := z\<rparr>) = managed m" "managed (m\<lparr>bus := w\<rparr>) = managed m"
  "managed (m\<lparr>store_log := v\<rparr>) = managed m"
  by (simp_all add: managed_def fun_eq_iff)

lemma managed_put [simp]:
  "managed (m\<lparr>drivers := dict_set c d ds\<rparr>) c' \<longleftrightarrow> c' = c \<or> dict_get ds c' \<noteq> None"
  by (simp add: managed_def)

lemma managed_run_driver [simp]:
  "managed m c \<Longrightarrow> managed (snd (run_driver c drv act m)) c' = managed m c'"
  by (auto simp: run_driver_def managed_def split: prod.splits)

lemma run_driver_frame [simp]:
  "states (snd (run_driver c drv act m)) = states m"
  "enabled (snd (run_driver c drv act m)) = enabled m"
  "core_store (snd (run_driver c drv act m)) = core_store m"
  "bus (snd (run_driver c drv act m)) = bus m"
  by (simp_all add: run_driver_def split: prod.splits)

lemma driver_status_frame [simp]:
  "states (snd (driver_status c drv m)) = states m"
  "enabled (snd (driver_status c drv m)) = enabled m"
  "core_store (snd (driver_status c drv m)) = core_store m"
  by (simp_all add: driver_status_def split: prod.splits)

lemma managed_driver_status [simp]:
  "managed m c \<Longrightarrow> managed (snd (driver_status c drv m)) c' = managed m c'"
  by (auto simp: driver_status_def managed_def split: prod.splits)

lemma set_state_frame [simp]:
  "drivers (set_state c st m) = drivers m"
  "enabled (set_state c st m) = enabled m"
  "states (set_state c st m) = dict_set c st (states m)"
  by (simp_all add: set_state_def)

lemma managed_set_state [simp]: "managed (set_state c st m) c' = managed m c'"
  by (simp add: managed_def)

lemma state_of_set_state [simp]:
  "state_of (set_state c st m) c' = (if c' = c then st else state_of m c')"
  by (simp add: state_of_def)

lemma is_enabled_set_state [simp]: "is_enabled (set_state c st m) c' = is_enabled m c'"
  by (simp add: is_enabled_def)

lemma persist_driver_frame [simp]:
  "drivers (persist_driver c drv m) = drivers m"
  "states (persist_driver c drv m) = states m"
  "enabled (persist_driver c drv m) = enabled m"
  by (simp_all add: persist_driver_def)

lemma managed_persist_driver [simp]: "managed (persist_driver c drv m) c' = managed m c'"
  by (simp add: managed_def)

text \<open>The invariant only looks at the key set of \<open>drivers\<close>, the records and the rows.\<close>

lemma core_inv_cong:
  assumes "managed m' c = managed m c" "dict_get (states m') c = dict_get (states m) c"
    "dict_get (enabled m') c = dict_get (enabled m) c" "dict_get (core_store m') c = dict_get (core_store m) c"
  shows "core_inv env G m' c \<longleftrightarrow> core_inv env G m c"
  using assms by (simp add: core_inv_def row_mirrors_def state_of_def is_enabled_def)

lemma mgr_inv_cong:
  assumes "managed m' = managed m" "states m' = states m" "enabled m' = enabled m"
    "core_store m' = core_store m"
  shows "mgr_inv env G m' \<longleftrightarrow> mgr_inv env G m"
  using assms by (simp add: mgr_inv_def core_inv_cong [of m' _ m])

text \<open>A change of one core's record and row keeps the invariant if it holds for that core.\<close>

lemma inv_local:
  assumes "mgr_inv env G m" "core_inv env G m' c"
    and "\<And>c'. c' \<noteq> c \<Longrightarrow> managed m' c' = managed m c' \<and> dict_get (states m') c' = dict_get (states m) c' \<and>
      dict_get (enabled m') c' = dict_get (enabled m) c' \<and> dict_get (core_store m') c' = dict_get (core_store m) c'"
  shows "mgr_inv env G m'"
  unfolding mgr_inv_def
proof
  fix c'
  show "core_inv env G m' c'"
    using assms core_inv_cong [of m' c' m env G] by (cases "c' = c") (auto simp: mgr_inv_def)
qed

lemma inv_run_driver [simp]:
  "managed m c \<Longrightarrow> mgr_inv env G (snd (run_driver c drv act m)) = mgr_inv env G m"
  by (intro mgr_inv_cong) (simp_all add: fun_eq_iff)

lemma inv_driver_status [simp]:
  "managed m c \<Longrightarrow> mgr_inv env G (snd (driver_status c drv m)) = mgr_inv env G m"
  by (intro mgr_inv_cong) (simp_all add: fun_eq_iff)

lemma inv_put_driver:
  "managed m c \<Longrightarrow> mgr_inv env G (m\<lparr>drivers := dict_set c d (drivers m)\<rparr>) = mgr_inv env G m"
  by (intro mgr_inv_cong) (auto simp: fun_eq_iff managed_def)

lemma inv_bus [simp]: "mgr_inv env G (m\<lparr>bus := b\<rparr>) = mgr_inv env G m"
  by (intro mgr_inv_cong) (simp_all add: fun_eq_iff managed_def)

text \<open>A write of one core's record together with its row keeps the invariant.\<close>

lemma inv_write:
  assumes "mgr_inv env G m" "managed m c"
    and m': "\<And>c'. managed m' c' = managed m c'"
      "\<And>c'. dict_get (states m') c' = (if c' = c then Some st else dict_get (states m) c')"
      "\<And>c'. dict_get (enabled m') c' = (if c' = c then Some en else dict_get (enabled m) c')"
      "\<And>c'. c' \<noteq> c \<Longrightarrow> dict_get (core_store m') c' = dict_get (core_store m) c'"
      "\<exists>x. dict_get (core_store m') c = Some \<lparr>row_state = st, row_enabled = en, row_settings = x\<rparr>"
  shows "mgr_inv env G m'"
  using assms(1)
proof (rule inv_local)
  have "dict_get (registry env) c \<noteq> None"
    using assms(1,2) unfolding mgr_inv_def core_inv_def by metis
  then show "core_inv env G m' c"
    using assms(2) m' by (auto simp: core_inv_def row_mirrors_def state_of_def is_enabled_def)
qed (simp add: m')

lemma inv_core: "mgr_inv env G m \<Longrightarrow> core_inv env G m c"
  by (simp add: mgr_inv_def)

lemma enabled_Some:
  "mgr_inv env G m \<Longrightarrow> managed m c \<Longrightarrow> dict_get (enabled m) c = Some (is_enabled m c)"
  using inv_core [of env G m c] by (auto simp: core_inv_def is_enabled_def)

lemma states_Some:
  "mgr_inv env G m \<Longrightarrow> managed m c \<Longrightarrow> dict_get (states m) c = Some (state_of m c)"
  using inv_core [of env G m c] by (auto simp: core_inv_def state_of_def)

lemma inv_set_state [simp]:
  assumes "mgr_inv env G m" "managed m c"
  shows "mgr_inv env G (set_state c st m)"
  using assms
  by (rule inv_write [where st = st and en = "is_enabled m c"])
    (auto simp: set_state_def save_state_get enabled_Some [OF assms])

lemma inv_persist_driver [simp]:
  assumes "mgr_inv env G m" "managed m c"
  shows "mgr_inv env G (persist_driver c drv m)"
  using assms
  by (rule inv_write [where st = "state_of m c" and en = "is_enabled m c"])
    (auto simp: persist_driver_def save_state_get enabled_Some [OF assms] states_Some [OF assms])

lemma inv_set_enabled:
  assumes "mgr_inv env G m" "managed m c"
  shows "mgr_inv env G (commit (save_state c (state_of m c) b None (core_store m))
      (m\<lparr>enabled := dict_set c b (enabled m)\<rparr>))"
  using assms
  by (rule inv_write [where st = "state_of m c" and en = b])
    (auto simp: save_state_get states_Some [OF assms])

lemma get_core_Inr: "get_core m c = Inr drv \<Longrightarrow> managed m c"
  by (auto simp: get_core_def managed_def split: option.splits)

section \<open>Every operation keeps the invariant\<close>

lemma transition_keeps:
  assumes "mgr_inv env G m" "managed m c"
  shows "mgr_inv env G (snd (transition c drv a b act m)) \<and> managed (snd (transition c drv a b act m)) = managed m"
proof -
  obtain r m2 where r: "run_driver c drv act (set_state c a m) = (r, m2)" by fastforce
  have "mgr_inv env G (snd (run_driver c drv act (set_state c a m)))"
    "managed (snd (run_driver c drv act (set_state c a m))) = managed m"
    using assms by (simp_all add: fun_eq_iff)
  with r assms show ?thesis
    by (auto simp: transition_def Let_def split: sum.splits)
qed


lemma start_core_keeps:
  assumes "mgr_inv env G m"
  shows "mgr_inv env G (snd (start_core c m))"
proof (cases "get_core m c")
  case (Inl e)
  then show ?thesis using assms by (simp add: start_core_def)
next
  case (Inr drv)
  then have c: "managed m c" by (rule get_core_Inr)
  obtain r m' where t: "transition c drv STARTING RUNNING (dc_start (dv_class drv)) m = (r, m')" by fastforce
  have "mgr_inv env G m'" "managed m' c"
    using transition_keeps [OF assms c, of drv STARTING RUNNING "dc_start (dv_class drv)"] c by (simp_all add: t)
  then show ?thesis using assms by (auto simp: start_core_def Inr t split: sum.splits)
qed

lemma stop_core_keeps:
  assumes "mgr_inv env G m"
  shows "mgr_inv env G (snd (stop_core c m)) \<and> managed (snd (stop_core c m)) = managed m"
proof (cases "get_core m c")
  case (Inl e)
  then show ?thesis using assms by (simp add: stop_core_def)
next
  case (Inr drv)
  then have c: "managed m c" by (rule get_core_Inr)
  obtain r m' where t: "transition c drv STOPPING STOPPED (dc_stop (dv_class drv)) m = (r, m')" by fastforce
  have "mgr_inv env G m'" "managed m' = managed m"
    using transition_keeps [OF assms c, of drv STOPPING STOPPED "dc_stop (dv_class drv)"] by (simp_all add: t)
  then show ?thesis using assms c by (auto simp: stop_core_def Inr t fun_eq_iff split: sum.splits)
qed

lemma restart_core_keeps:
  assumes "mgr_inv env G m"
  shows "mgr_inv env G (snd (restart_core c m))"
proof (cases "get_core m c")
  case (Inl e)
  then show ?thesis using assms by (simp add: restart_core_def)
next
  case (Inr drv)
  then have c: "managed m c" by (rule get_core_Inr)
  obtain r1 m1 where r1: "run_driver c drv (dc_stop (dv_class drv)) (set_state c STOPPING m) = (r1, m1)" by fastforce
  have m1: "mgr_inv env G m1" "managed m1 c"
    using assms c inv_run_driver [of "set_state c STOPPING m" c env G drv "dc_stop (dv_class drv)"]
      managed_run_driver [of "set_state c STOPPING m" c drv "dc_stop (dv_class drv)" c] by (simp_all add: r1)
  obtain r2 m2 where r2: "run_driver c (cur_driver c drv m1) (dc_start (dv_class drv)) (set_state c STARTING m1) = (r2, m2)"
    by fastforce
  have m2: "mgr_inv env G m2" "managed m2 c"
    using m1 inv_run_driver [of "set_state c STARTING m1" c env G "cur_driver c drv m1" "dc_start (dv_class drv)"]
      managed_run_driver [of "set_state c STARTING m1" c "cur_driver c drv m1" "dc_start (dv_class drv)" c]
    by (simp_all add: r2)
  show ?thesis using assms m1 m2 by (auto simp: restart_core_def Inr r1 r2 split: sum.splits)
qed

lemma update_core_keeps: "mgr_inv env G m \<Longrightarrow> mgr_inv env G (snd (update_core c v m))"
  by (auto simp: update_core_def inv_put_driver get_core_Inr split: sum.splits prod.splits)

lemma enable_core_keeps: "mgr_inv env G m \<Longrightarrow> mgr_inv env G (snd (enable_core c m))"
  by (auto simp: enable_core_def inv_set_enabled get_core_Inr simp del: commit_def split: sum.splits)

lemma disable_core_keeps: "mgr_inv env G m \<Longrightarrow> mgr_inv env G (snd (disable_core env c m))"
  using stop_core_keeps [of env G m c]
  by (auto simp: disable_core_def Let_def inv_set_enabled dest: get_core_Inr simp del: commit_def split: sum.splits prod.splits)

lemma persist_settings_keeps: "mgr_inv env G m \<Longrightarrow> mgr_inv env G (snd (persist_settings c m))"
  by (auto simp: persist_settings_def get_core_Inr split: sum.splits)

text \<open>Installing: the new core appears in all three dictionaries and in the store, or nowhere.\<close>

lemma inv_add_core:
  assumes "mgr_inv env G m" "dict_get (registry env) c \<noteq> None"
    and m': "\<And>c'. managed m' c' = (c' = c \<or> managed m c')"
      "\<And>c'. dict_get (states m') c' = (if c' = c then Some st else dict_get (states m) c')"
      "\<And>c'. dict_get (enabled m') c' = (if c' = c then Some en else dict_get (enabled m) c')"
      "\<And>c'. c' \<noteq> c \<Longrightarrow> dict_get (core_store m') c' = dict_get (core_store m) c'"
      "\<exists>x. dict_get (core_store m') c = Some \<lparr>row_state = st, row_enabled = en, row_settings = x\<rparr>"
  shows "mgr_inv env G m'"
  using assms(1)
proof (rule inv_local)
  show "core_inv env G m' c"
    using assms(2) m' by (auto simp: core_inv_def row_mirrors_def state_of_def is_enabled_def)
qed (simp add: m')

lemma inv_drop_core:
  assumes "mgr_inv env G m" "c \<notin> set (builtin_core_ids env)"
    and m': "\<And>c'. managed m' c' = (c' \<noteq> c \<and> managed m c')"
      "\<And>c'. dict_get (states m') c' = (if c' = c then None else dict_get (states m) c')"
      "\<And>c'. dict_get (enabled m') c' = (if c' = c then None else dict_get (enabled m) c')"
      "\<And>c'. dict_get (core_store m') c' = (if c' = c then None else dict_get (core_store m) c')"
  shows "mgr_inv env G m'"
  using assms(1) by (rule inv_local [where c = c]) (simp_all add: core_inv_def m' assms(2))

lemma install_done_keeps:
  assumes "mgr_inv env G m" "dict_get (registry env) c \<noteq> None"
    and m2: "\<And>c'. managed m2 c' = (c' = c \<or> managed m c')" "states m2 = dict_set c LOADED (states m)"
      "enabled m2 = dict_set c en (enabled m)" "core_store m2 = core_store m"
  shows "mgr_inv env G (snd (install_done c drv en m2))"
  using assms(1,2)
proof (rule inv_add_core [where st = INSTALLED and en = en])
  have "is_enabled m2 c = en" by (simp add: is_enabled_def m2)
  then show "\<exists>x. dict_get (core_store (snd (install_done c drv en m2))) c
      = Some \<lparr>row_state = INSTALLED, row_enabled = en, row_settings = x\<rparr>"
    by (simp add: install_done_def Let_def save_state_get)
qed (simp_all add: install_done_def Let_def m2 set_state_def save_state_get)

text \<open>A failed installation drops the record again; the row, which can only be a ghost's, stays.\<close>

lemma forget_core_keeps:
  assumes "mgr_inv env G m" "\<not> managed m c"
    and m2: "\<And>c'. managed m2 c' = (c' = c \<or> managed m c')" "states m2 = dict_set c LOADED (states m)"
      "enabled m2 = dict_set c en (enabled m)" "core_store m2 = core_store m"
  shows "mgr_inv env G (forget_core c m2)"
  using assms(1)
proof (rule inv_local [where c = c])
  have man: "\<not> managed (forget_core c m2) c" by (simp add: forget_core_def managed_def)
  then show "core_inv env G (forget_core c m2) c"
    using inv_core [OF assms(1), of c] assms(2) by (simp add: core_inv_def forget_core_def m2)
next
  fix c' assume "c' \<noteq> c"
  moreover have "managed (forget_core c m2) c' = managed m2 c'"
    using \<open>c' \<noteq> c\<close> by (simp add: forget_core_def managed_def)
  ultimately show "managed (forget_core c m2) c' = managed m c' \<and>
      dict_get (states (forget_core c m2)) c' = dict_get (states m) c' \<and>
      dict_get (enabled (forget_core c m2)) c' = dict_get (enabled m) c' \<and>
      dict_get (core_store (forget_core c m2)) c' = dict_get (core_store m) c'"
    by (simp add: forget_core_def m2)
qed

lemma install_core_keeps:
  assumes "mgr_inv env G m"
  shows "mgr_inv env G (snd (install_core env c stg en m))"
proof (cases "managed m c \<or> dict_get (registry env) c = None")
  case True
  then show ?thesis
    using assms by (auto simp: install_core_def managed_def dict_in_def get_driver_class_def split: option.splits)
next
  case False
  then obtain cls where cls: "dict_get (registry env) c = Some cls" by auto
  define eff where "eff = transform_settings env c (if stg \<noteq> [] then stg else resolve_settings env c)"
  define drv where "drv = new_driver cls eff"
  define m1 where "m1 = attach c drv en LOADED m"
  obtain r m2 where r: "run_driver c drv (dc_install cls) m1 = (r, m2)" by fastforce
  have m1: "managed m1 c' = (c' = c \<or> managed m c')" for c'
    by (simp add: m1_def attach_def managed_def)
  have m2: "managed m2 c' = (c' = c \<or> managed m c')" for c'
    using managed_run_driver [of m1 c drv "dc_install cls" c'] m1 r by simp
  have fr: "states m2 = dict_set c LOADED (states m)" "enabled m2 = dict_set c en (enabled m)"
    "core_store m2 = core_store m"
    using run_driver_frame [of c drv "dc_install cls" m1] unfolding r by (simp_all add: m1_def attach_def)
  have "install_core env c stg en m =
      (case r of Inr u \<Rightarrow> install_done c drv en m2
       | Inl e \<Rightarrow> (case e of CapabilityNotSupportedError a x \<Rightarrow> install_done c drv en m2
                    | _ \<Rightarrow> (Inl e, forget_core c m2)))"
    using False cls r
    by (simp add: install_core_def get_driver_class_def dict_in_def managed_def Let_def
        m1_def [symmetric] drv_def [symmetric] eff_def [symmetric] split: sum.splits core_error.splits)
  moreover have "mgr_inv env G (snd (install_done c drv en m2))" "mgr_inv env G (forget_core c m2)"
    using assms False m2 fr by (auto intro: install_done_keeps forget_core_keeps)
  ultimately show ?thesis by (simp split: sum.splits core_error.splits)
qed

lemma finish_uninstall_keeps:
  assumes "mgr_inv env G m" "c \<notin> set (builtin_core_ids env)"
  shows "mgr_inv env G (finish_uninstall c m)"
  using assms
  by (rule inv_drop_core [where c = c])
    (auto simp: finish_uninstall_def forget_core_def Let_def managed_def set_state_def remove_row_def save_state_get)

lemma uninstall_driver_keeps:
  assumes "mgr_inv env G m" "managed m c" "c \<notin> set (builtin_core_ids env)"
  shows "mgr_inv env G (snd (uninstall_driver c drv purge m))"
proof -
  obtain r m' where r: "run_driver c (cur_driver c drv m) (dc_uninstall (dv_class drv) purge) m = (r, m')" by fastforce
  have "mgr_inv env G m'" using assms inv_run_driver [of m c env G "cur_driver c drv m"] r by (metis snd_conv)
  then show ?thesis
    using assms finish_uninstall_keeps [of env G m' c]
    by (auto simp: uninstall_driver_def r split: sum.splits core_error.splits)
qed

lemma uninstall_core_keeps:
  assumes "mgr_inv env G m"
  shows "mgr_inv env G (snd (uninstall_core env c purge force m))"
proof (cases "get_core m c")
  case (Inl e)
  then show ?thesis using assms by (simp add: uninstall_core_def)
next
  case (Inr drv)
  then have c: "managed m c" by (rule get_core_Inr)
  obtain r m' where t: "transition c drv STOPPING STOPPED (dc_stop (dv_class drv)) m = (r, m')" by fastforce
  have "mgr_inv env G m'" "managed m' c"
    using transition_keeps [OF assms c, of drv STOPPING STOPPED "dc_stop (dv_class drv)"] c by (simp_all add: t)
  then show ?thesis
    using assms c by (auto simp: uninstall_core_def Inr t uninstall_driver_keeps split: sum.splits)
qed


text \<open>Studio documents: every path only writes the record of a managed core.\<close>

definition keeps_from :: "'d manager_env \<Rightarrow> string set \<Rightarrow> 'd manager \<Rightarrow> 'd manager \<Rightarrow> bool" where
  "keeps_from env G m m' \<longleftrightarrow> mgr_inv env G m' \<and> managed m' = managed m"

lemma keeps_from_refl [simp]: "keeps_from env G m m = mgr_inv env G m"
  by (simp add: keeps_from_def)

lemma keeps_from_inv: "keeps_from env G m m' \<Longrightarrow> mgr_inv env G m'"
  by (simp add: keeps_from_def)

lemma keeps_from_managed: "keeps_from env G m m' \<Longrightarrow> managed m c \<Longrightarrow> managed m' c"
  by (simp add: keeps_from_def)

lemma keeps_from_trans: "keeps_from env G m m' \<Longrightarrow> keeps_from env G m' m'' \<Longrightarrow> keeps_from env G m m''"
  by (simp add: keeps_from_def)

lemma keeps_set_state:
  "mgr_inv env G m \<Longrightarrow> managed m c \<Longrightarrow> keeps_from env G m (set_state c st m)"
  by (simp add: keeps_from_def fun_eq_iff)

lemma keeps_run_driver:
  "mgr_inv env G m \<Longrightarrow> managed m c \<Longrightarrow> keeps_from env G m (snd (run_driver c drv act m))"
  by (simp add: keeps_from_def fun_eq_iff)

lemma keeps_driver_status:
  "mgr_inv env G m \<Longrightarrow> managed m c \<Longrightarrow> keeps_from env G m (snd (driver_status c drv m))"
  by (simp add: keeps_from_def fun_eq_iff)

lemma keeps_set_state_from:
  "keeps_from env G m m' \<Longrightarrow> managed m c \<Longrightarrow> keeps_from env G m (set_state c st m')"
  using keeps_set_state keeps_from_trans keeps_from_inv keeps_from_managed by metis

lemma keeps_run_driver_from:
  "keeps_from env G m m' \<Longrightarrow> managed m c \<Longrightarrow> keeps_from env G m (snd (run_driver c drv act m'))"
  using keeps_run_driver keeps_from_trans keeps_from_inv keeps_from_managed by metis

lemma keeps_driver_status_from:
  "keeps_from env G m m' \<Longrightarrow> managed m c \<Longrightarrow> keeps_from env G m (snd (driver_status c drv m'))"
  using keeps_driver_status keeps_from_trans keeps_from_inv keeps_from_managed by metis

lemmas keeps_steps = keeps_set_state_from keeps_run_driver_from keeps_driver_status_from

lemma apply_failed_keeps:
  "keeps_from env G m m' \<Longrightarrow> managed m c \<Longrightarrow> keeps_from env G m (snd (apply_failed c drv before e m'))"
  using keeps_driver_status_from [of env G m m' c drv]
  by (auto simp: apply_failed_def keeps_set_state_from split: prod.splits)

lemma apply_empty_keeps:
  assumes "keeps_from env G m m'" "managed m c"
  shows "keeps_from env G m (snd (apply_empty c drv before m'))"
proof -
  obtain r m1 where s: "driver_status c drv m' = (r, m1)" by fastforce
  have m1: "keeps_from env G m m1" using keeps_driver_status_from [OF assms, of drv] by (simp add: s)
  obtain r2 m2 where d: "run_driver c (cur_driver c drv m1) (dc_stop (dv_class drv)) m1 = (r2, m2)" by fastforce
  have m2: "keeps_from env G m m2"
    using keeps_run_driver_from [OF m1 assms(2), of "cur_driver c drv m1" "dc_stop (dv_class drv)"] by (simp add: d)
  show ?thesis using m1 m2 assms(2)
    by (auto simp: apply_empty_def s d keeps_set_state_from split: sum.splits)
qed

lemma apply_recover_keeps:
  assumes "keeps_from env G m m'" "managed m c"
  shows "keeps_from env G m (snd (apply_recover c drv before m'))"
proof -
  obtain r m1 where s: "driver_status c drv m' = (r, m1)" by fastforce
  have m1: "keeps_from env G m m1" using keeps_driver_status_from [OF assms, of drv] by (simp add: s)
  obtain r2 m2 where d: "run_driver c (cur_driver c drv m1) (dc_start (dv_class drv)) (set_state c STARTING m1) = (r2, m2)"
    by fastforce
  have m2: "keeps_from env G m m2"
    using keeps_run_driver_from [OF keeps_set_state_from [OF m1 assms(2)] assms(2),
        of "cur_driver c drv m1" "dc_start (dv_class drv)" STARTING] by (simp add: d)
  show ?thesis using m1 m2 assms(2)
    by (auto simp: apply_recover_def s d keeps_set_state_from split: sum.splits)
qed

lemma apply_studio_document_keeps:
  assumes "mgr_inv env G m"
  shows "mgr_inv env G (snd (apply_studio_document c doc m))"
proof (cases "get_core m c")
  case (Inl e)
  then show ?thesis using assms by (simp add: apply_studio_document_def)
next
  case (Inr drv)
  then have c: "managed m c" by (rule get_core_Inr)
  show ?thesis
  proof (cases "dc_apply_document (dv_class drv)")
    case None
    then show ?thesis using assms by (simp add: apply_studio_document_def Inr)
  next
    case (Some hook)
    obtain r m1 where r: "run_driver c drv (hook doc) m = (r, m1)" by fastforce
    have m1: "keeps_from env G m m1" using keeps_run_driver [OF assms c, of drv "hook doc"] by (simp add: r)
    define body where "body = (if empty_stops (dv_class drv) doc then apply_empty c drv (state_of m c) m1
        else if state_of m c \<in> {RUNNING, ERROR} then apply_recover c drv (state_of m c) m1 else (Inr (), m1))"
    have body: "keeps_from env G m (snd body)"
      using m1 c by (simp add: body_def apply_empty_keeps apply_recover_keeps)
    have "apply_studio_document c doc m = (case r of
        Inl e \<Rightarrow> apply_failed c drv (state_of m c) e m1
      | Inr u \<Rightarrow> (case body of (Inl e, m2) \<Rightarrow> (Inl e, m2) | (Inr u, m2) \<Rightarrow> (Inr (), persist_driver c drv m2)))"
      by (simp add: apply_studio_document_def Inr Some r body_def split: sum.splits)
    moreover have "mgr_inv env G (snd (apply_failed c drv (state_of m c) e m1))" for e
      using apply_failed_keeps [OF m1 c] by (rule keeps_from_inv)
    moreover have "mgr_inv env G (persist_driver c drv (snd body))"
      using keeps_from_inv [OF body] keeps_from_managed [OF body c] by simp
    ultimately show ?thesis using keeps_from_inv [OF body] by (auto split: sum.splits prod.splits)
  qed
qed

text \<open>Health monitoring and the two bulk operations.\<close>

lemma health_probe_keeps:
  "mgr_inv env G m \<Longrightarrow> keeps_from env G m (snd (health_probe c m))"
  by (auto simp: health_probe_def keeps_from_def inv_put_driver managed_def fun_eq_iff
      split: option.splits prod.splits)

lemma health_reconcile_keeps:
  "mgr_inv env G m \<Longrightarrow> managed m c \<Longrightarrow> keeps_from env G m (snd (health_reconcile c rec st lh m))"
  by (auto simp: health_reconcile_def Let_def keeps_from_def fun_eq_iff split: option.splits)

text \<open>
  A write-back that finds its core uninstalled makes it a ghost. \<open>writes_back\<close> says when the
  monitor writes at all.
\<close>

definition writes_back :: "core_state option \<Rightarrow> core_status option \<Rightarrow> bool" where
  "writes_back recorded status \<longleftrightarrow>
     (case status of None \<Rightarrow> False | Some s \<Rightarrow> (cs_state s = RUNNING) \<noteq> (recorded = Some RUNNING))"

definition ghosts :: "'d manager \<Rightarrow> string \<Rightarrow> core_state option \<Rightarrow> core_status option \<Rightarrow> string set \<Rightarrow> string set" where
  "ghosts m c recorded status G = (if \<not> managed m c \<and> writes_back recorded status then insert c G else G)"

lemma inv_mono: "mgr_inv env G m \<Longrightarrow> G \<subseteq> G' \<Longrightarrow> mgr_inv env G' m"
  unfolding mgr_inv_def core_inv_def ghost_row_def by (meson subsetD)

lemma inv_ghost_write:
  assumes "mgr_inv env G m" "\<not> managed m c" "c \<in> G" "st \<in> {RUNNING, STOPPED}"
  shows "mgr_inv env G (set_state c st m)"
  using assms(1)
proof (rule inv_local [where c = c])
  have "\<not> is_enabled m c" "dict_get (registry env) c \<noteq> None \<longrightarrow> c \<notin> set (builtin_core_ids env)"
    "dict_get (enabled m) c = None"
    using inv_core [OF assms(1), of c] assms(2) by (simp_all add: core_inv_def is_enabled_def)
  then show "core_inv env G (set_state c st m) c"
    using assms(2-4) by (simp add: core_inv_def ghost_row_def set_state_def save_state_get)
qed (simp add: set_state_def save_state_get)

lemma health_writeback_keeps:
  assumes "mgr_inv env G m"
  shows "mgr_inv env (ghosts m c rec st G) (snd (health_reconcile c rec st lh m))"
proof (cases "managed m c \<or> \<not> writes_back rec st")
  case True
  then show ?thesis
    using assms health_reconcile_keeps [OF assms, of c rec st lh, THEN keeps_from_inv]
    by (auto simp: ghosts_def writes_back_def health_reconcile_def Let_def split: option.splits if_splits)
next
  case False
  then have "mgr_inv env (insert c G) (set_state c s m)" if "s \<in> {RUNNING, STOPPED}" for s
    using inv_ghost_write [of env "insert c G" m c s] inv_mono [OF assms, of "insert c G"] that by auto
  then show ?thesis
    using False by (auto simp: ghosts_def writes_back_def health_reconcile_def Let_def split: option.splits)
qed

lemma health_one_keeps:
  assumes "mgr_inv env G (snd lm)" "managed (snd lm) c"
  shows "keeps_from env G (snd lm) (snd (health_one c lm))"
proof -
  obtain lh m where lm: "lm = (lh, m)" by fastforce
  obtain s m1 where p: "health_probe c m = (s, m1)" by fastforce
  have m1: "keeps_from env G m m1" using health_probe_keeps [of env G m c] assms by (simp add: lm p)
  then have "keeps_from env G m1 (snd (health_reconcile c (dict_get (states m) c) s lh m1))"
    using assms by (intro health_reconcile_keeps) (auto simp: lm keeps_from_def)
  with m1 have "keeps_from env G m (snd (health_reconcile c (dict_get (states m) c) s lh m1))"
    by (rule keeps_from_trans)
  then show ?thesis using assms by (simp add: health_one_def lm p Let_def)
qed

lemma health_cycle_keeps:
  assumes "mgr_inv env G m"
  shows "keeps_from env G m (snd (health_cycle lh m))"
proof -
  have "keeps_from env G m (snd (fold health_one cs lm))"
    if "keeps_from env G m (snd lm)" "\<forall>c \<in> set cs. managed m c" for cs lm
    using that
  proof (induction cs arbitrary: lm)
    case Nil
    then show ?case by simp
  next
    case (Cons c cs)
    have "keeps_from env G (snd lm) (snd (health_one c lm))"
      using Cons.prems by (intro health_one_keeps) (auto simp: keeps_from_def)
    then have "keeps_from env G m (snd (health_one c lm))"
      by (rule keeps_from_trans [OF Cons.prems(1)])
    then show ?case using Cons.IH [of "health_one c lm"] Cons.prems(2) by simp
  qed
  moreover have "managed m c" if "c \<in> set (list_cores m)" for c
    using that by (auto simp: list_cores_def managed_def weak_map_of_SomeI)
  ultimately show ?thesis using assms by (simp add: health_cycle_def)
qed

lemma fold_keeps:
  assumes "\<And>x m. P m \<Longrightarrow> P (f x m)" "P m"
  shows "P (fold f xs m)"
  using assms(2) by (induction xs arbitrary: m) (auto intro: assms(1))

lemma start_enabled_keeps: "mgr_inv env G m \<Longrightarrow> mgr_inv env G (start_enabled env m)"
  unfolding start_enabled_def by (rule fold_keeps) (auto simp: start_enabled_one_def start_core_keeps)

lemma stop_all_keeps: "mgr_inv env G m \<Longrightarrow> mgr_inv env G (stop_all m)"
  unfolding stop_all_def by (rule fold_keeps) (auto simp: stop_all_one_def stop_core_keeps)


section \<open>Boot\<close>

text \<open>The row loop attaches exactly the cores whose driver class is registered.\<close>

lemma attach_gets:
  "managed (attach c d en st m) c' = (c' = c \<or> managed m c')"
  "dict_get (states (attach c d en st m)) c' = (if c' = c then Some st else dict_get (states m) c')"
  "dict_get (enabled (attach c d en st m)) c' = (if c' = c then Some en else dict_get (enabled m) c')"
  "core_store (attach c d en st m) = core_store m"
  by (auto simp: attach_def managed_def)

lemma boot_row_gets:
  "managed (boot_row env (c, row) m) c' = (c' = c \<and> dict_get (registry env) c \<noteq> None \<or> managed m c')"
  "dict_get (states (boot_row env (c, row) m)) c' =
     (if c' = c \<and> dict_get (registry env) c \<noteq> None then Some (boot_state (row_state row)) else dict_get (states m) c')"
  "dict_get (enabled (boot_row env (c, row) m)) c' =
     (if c' = c \<and> dict_get (registry env) c \<noteq> None then Some (row_enabled row) else dict_get (enabled m) c')"
  "core_store (boot_row env (c, row) m) = core_store m"
  by (auto simp: boot_row_def get_driver_class_def attach_gets split: option.splits)

lemma boot_builtin_gets:
  "managed (boot_builtin env c m) c' = (c' = c \<and> dict_get (registry env) c \<noteq> None \<or> managed m c')"
  "dict_get (states (boot_builtin env c m)) c' =
     (if c' = c \<and> dict_get (registry env) c \<noteq> None \<and> \<not> managed m c then Some INSTALLED else dict_get (states m) c')"
  "dict_get (enabled (boot_builtin env c m)) c' =
     (if c' = c \<and> dict_get (registry env) c \<noteq> None \<and> \<not> managed m c then Some True else dict_get (enabled m) c')"
  "core_store (boot_builtin env c m) = core_store m"
  by (auto simp: boot_builtin_def get_driver_class_def attach_gets dict_in_def managed_def [symmetric]
      split: option.splits) (auto simp: managed_def)

text \<open>The state after the rows: \<open>booted_row\<close> is what the loop leaves for a core.\<close>

lemma fold_boot_row:
  assumes "dict_ok rows"
  shows "managed (fold (boot_row env) rows m) c = (dict_get rows c \<noteq> None \<and> dict_get (registry env) c \<noteq> None \<or> managed m c)"
    and "dict_get (states (fold (boot_row env) rows m)) c =
       (if dict_get (registry env) c = None then dict_get (states m) c
        else case dict_get rows c of None \<Rightarrow> dict_get (states m) c | Some row \<Rightarrow> Some (boot_state (row_state row)))"
    and "dict_get (enabled (fold (boot_row env) rows m)) c =
       (if dict_get (registry env) c = None then dict_get (enabled m) c
        else case dict_get rows c of None \<Rightarrow> dict_get (enabled m) c | Some row \<Rightarrow> Some (row_enabled row))"
    and "core_store (fold (boot_row env) rows m) = core_store m"
  using assms
proof (induction rows arbitrary: m)
  case Nil
  { case 1 then show ?case by simp next case 2 then show ?case by simp next
    case 3 then show ?case by simp next case 4 then show ?case by simp }
next
  case (Cons p rows)
  obtain a row where p: "p = (a, row)" by fastforce
  { case 1 then show ?case using Cons.IH(1) [of "boot_row env p m"] by (auto simp: p boot_row_gets)
  next
    case 2
    then have "a = c \<Longrightarrow> dict_get rows c = None" by (auto simp: p map_of_eq_None_iff)
    then show ?case using 2 Cons.IH(2) [of "boot_row env p m"] by (auto simp: p boot_row_gets split: option.splits)
  next
    case 3
    then have "a = c \<Longrightarrow> dict_get rows c = None" by (auto simp: p map_of_eq_None_iff)
    then show ?case using 3 Cons.IH(3) [of "boot_row env p m"] by (auto simp: p boot_row_gets split: option.splits)
  next
    case 4 then show ?case using Cons.IH(4) [of "boot_row env p m"] by (simp add: p boot_row_gets) }
qed

lemma fold_boot_builtin:
  "managed (fold (boot_builtin env) cs m) c = (c \<in> set cs \<and> dict_get (registry env) c \<noteq> None \<or> managed m c)"
  "dict_get (states (fold (boot_builtin env) cs m)) c =
     (if c \<in> set cs \<and> dict_get (registry env) c \<noteq> None \<and> \<not> managed m c then Some INSTALLED else dict_get (states m) c)"
  "dict_get (enabled (fold (boot_builtin env) cs m)) c =
     (if c \<in> set cs \<and> dict_get (registry env) c \<noteq> None \<and> \<not> managed m c then Some True else dict_get (enabled m) c)"
  "core_store (fold (boot_builtin env) cs m) = core_store m"
proof (induction cs arbitrary: m)
  case Nil
  { case 1 show ?case by simp next case 2 show ?case by simp next
    case 3 show ?case by simp next case 4 show ?case by simp }
next
  case (Cons a cs)
  { case 1 show ?case by (auto simp: Cons.IH(1) boot_builtin_gets)
  next case 2 show ?case by (auto simp: Cons.IH(2) boot_builtin_gets)
  next case 3 show ?case by (auto simp: Cons.IH(3) boot_builtin_gets)
  next case 4 show ?case by (simp add: Cons.IH(4) boot_builtin_gets) }
qed

text \<open>
  What a boot from the rows of a store yields, core by core: \<open>None\<close> for a core that is not
  managed, otherwise its recorded state and enabled flag.
\<close>

definition boot_record :: "'d manager_env \<Rightarrow> (string, core_row) dict \<Rightarrow> string \<Rightarrow> (core_state \<times> bool) option" where
  "boot_record env rows c =
     (if dict_get (registry env) c = None then None
      else case dict_get rows c of
        Some row \<Rightarrow> Some (boot_state (row_state row), row_enabled row)
      | None \<Rightarrow> if c \<in> set (builtin_core_ids env) then Some (INSTALLED, True) else None)"

lemma boot_gets:
  assumes "dict_ok rows"
  shows "managed (boot env (fresh_manager rows)) c = (boot_record env rows c \<noteq> None)"
    and "dict_get (states (boot env (fresh_manager rows))) c = map_option fst (boot_record env rows c)"
    and "dict_get (enabled (boot env (fresh_manager rows))) c = map_option snd (boot_record env rows c)"
    and "core_store (boot env (fresh_manager rows)) = rows"
proof -
  have fresh: "managed (fresh_manager rows :: 'b manager) c' = False" "states (fresh_manager rows :: 'b manager) = []"
    "enabled (fresh_manager rows :: 'b manager) = []" "core_store (fresh_manager rows :: 'b manager) = rows" for c'
    by (simp_all add: fresh_manager_def managed_def)
  show "managed (boot env (fresh_manager rows)) c = (boot_record env rows c \<noteq> None)"
    by (auto simp: boot_def fold_boot_builtin fold_boot_row [OF assms] fresh boot_record_def split: option.splits)
  show "dict_get (states (boot env (fresh_manager rows))) c = map_option fst (boot_record env rows c)"
    by (auto simp: boot_def fold_boot_builtin fold_boot_row [OF assms] fresh boot_record_def split: option.splits)
  show "dict_get (enabled (boot env (fresh_manager rows))) c = map_option snd (boot_record env rows c)"
    by (auto simp: boot_def fold_boot_builtin fold_boot_row [OF assms] fresh boot_record_def split: option.splits)
  show "core_store (boot env (fresh_manager rows)) = rows"
    by (simp add: boot_def fold_boot_builtin fold_boot_row [OF assms] fresh)
qed

lemma boot_state_idem [simp]: "boot_state (boot_state s) = boot_state s"
  by (simp add: boot_state_def)

lemma boot_inv:
  assumes "dict_ok rows"
  shows "mgr_inv env G (boot env (fresh_manager rows))"
proof -
  let ?m = "boot env (fresh_manager rows)"
  note g = boot_gets [OF assms, of env]
  have st: "state_of ?m c = fst r" "is_enabled ?m c = snd r" if "boot_record env rows c = Some r" for c r
    using that by (simp_all add: state_of_def is_enabled_def g)
  have "core_inv env G ?m c" for c
  proof (cases "boot_record env rows c")
    case None
    then show ?thesis by (auto simp: core_inv_def g boot_record_def split: option.splits if_splits)
  next
    case (Some r)
    then show ?thesis
      by (auto simp: core_inv_def row_mirrors_def st [OF Some] g boot_record_def split: option.splits if_splits)
  qed
  then show ?thesis by (simp add: mgr_inv_def)
qed

end
