(* ===== verification/CoreManagerCrash.thy ===== *)
theory CoreManagerCrash
  imports CoreManagerInv
begin

text \<open>
  The commits of one manager operation. \<open>manager_op\<close> names the operations with their arguments and
  \<open>run_op\<close> runs one. \<open>logs\<close> says which store contents an operation commits on its way: every one
  agrees with the store before the operation except for the row of the operation's own core, and
  that row is described core by core. A process that dies in the middle of an operation leaves one
  of these contents for the next boot.
\<close>

section \<open>Operations\<close>

datatype manager_op =
    OpInstall string settings bool
  | OpUninstall string bool bool
  | OpStart string
  | OpStop string
  | OpRestart string
  | OpUpdate string "string option"
  | OpEnable string
  | OpDisable string
  | OpDocument string pyval
  | OpPersist string

fun op_core :: "manager_op \<Rightarrow> string" where
  "op_core (OpInstall c _ _) = c"
| "op_core (OpUninstall c _ _) = c"
| "op_core (OpStart c) = c"
| "op_core (OpStop c) = c"
| "op_core (OpRestart c) = c"
| "op_core (OpUpdate c _) = c"
| "op_core (OpEnable c) = c"
| "op_core (OpDisable c) = c"
| "op_core (OpDocument c _) = c"
| "op_core (OpPersist c) = c"

fun run_op :: "'d manager_env \<Rightarrow> manager_op \<Rightarrow> 'd manager \<Rightarrow> 'd manager" where
  "run_op env (OpInstall c stg en) m = snd (install_core env c stg en m)"
| "run_op env (OpUninstall c purge force) m = snd (uninstall_core env c purge force m)"
| "run_op env (OpStart c) m = snd (start_core c m)"
| "run_op env (OpStop c) m = snd (stop_core c m)"
| "run_op env (OpRestart c) m = snd (restart_core c m)"
| "run_op env (OpUpdate c v) m = snd (update_core c v m)"
| "run_op env (OpEnable c) m = snd (enable_core c m)"
| "run_op env (OpDisable c) m = snd (disable_core env c m)"
| "run_op env (OpDocument c doc) m = snd (apply_studio_document c doc m)"
| "run_op env (OpPersist c) m = snd (persist_settings c m)"

fun is_uninstall :: "manager_op \<Rightarrow> bool" where
  "is_uninstall (OpUninstall _ _ _) = True"
| "is_uninstall _ = False"

lemma run_op_keeps: "mgr_inv env G m \<Longrightarrow> mgr_inv env G (run_op env o' m)"
  by (cases o') (simp_all add: install_core_keeps uninstall_core_keeps start_core_keeps stop_core_keeps
      restart_core_keeps update_core_keeps enable_core_keeps disable_core_keeps apply_studio_document_keeps
      persist_settings_keeps)

section \<open>The commits between two states\<close>

definition logs :: "string \<Rightarrow> (core_row option \<Rightarrow> bool) \<Rightarrow> 'd manager \<Rightarrow> 'd manager \<Rightarrow> bool" where
  "logs c P m m' \<longleftrightarrow>
     (\<exists>l. store_log m' = store_log m @ l \<and> core_store m' = last (core_store m # l) \<and>
        (\<forall>rows \<in> set l. P (dict_get rows c) \<and> (\<forall>c'. c' \<noteq> c \<longrightarrow> dict_get rows c' = dict_get (core_store m) c')))"

text \<open>The row of the operation's core at a commit: its flag in \<open>E\<close>, its state in \<open>S\<close>, or, if \<open>N\<close>, no row.\<close>

definition crash_row :: "bool set \<Rightarrow> core_state set \<Rightarrow> bool \<Rightarrow> core_row option \<Rightarrow> bool" where
  "crash_row E S N r = (case r of None \<Rightarrow> N | Some row \<Rightarrow> row_enabled row \<in> E \<and> row_state row \<in> S)"

lemma logs_refl [simp]: "logs c P m m"
  by (simp add: logs_def)

lemma logs_frame [simp]:
  "logs c P m (m'\<lparr>drivers := d\<rparr>) = logs c P m m'" "logs c P m (m'\<lparr>states := s\<rparr>) = logs c P m m'"
  "logs c P m (m'\<lparr>enabled := e\<rparr>) = logs c P m m'" "logs c P m (m'\<lparr>bus := b\<rparr>) = logs c P m m'"
  by (simp_all add: logs_def)

lemma logs_commit:
  assumes "logs c P m m'" "P (dict_get rows c)" "\<And>c'. c' \<noteq> c \<Longrightarrow> dict_get rows c' = dict_get (core_store m') c'"
  shows "logs c P m (commit rows m')"
proof -
  from assms(1) obtain l where l: "store_log m' = store_log m @ l" "core_store m' = last (core_store m # l)"
    "\<forall>rows \<in> set l. P (dict_get rows c) \<and> (\<forall>c'. c' \<noteq> c \<longrightarrow> dict_get rows c' = dict_get (core_store m) c')"
    by (auto simp: logs_def)
  then have "dict_get (core_store m') c' = dict_get (core_store m) c'" if "c' \<noteq> c" for c'
    using that by (cases "l = []") auto
  then have "dict_get rows c' = dict_get (core_store m) c'" if "c' \<noteq> c" for c'
    using that assms(3) by simp
  then show ?thesis
    unfolding logs_def using l assms(2) by (intro exI [of _ "l @ [rows]"]) auto
qed

lemma logs_save:
  assumes "logs c (crash_row E S N) m m'" "st \<in> S" "en \<in> E"
  shows "logs c (crash_row E S N) m (commit (save_state c st en stg (core_store m')) m')"
  using assms(1) by (rule logs_commit) (simp_all add: save_state_get crash_row_def assms)

lemma logs_set_state [simp]:
  assumes "logs c (crash_row E S N) m m'" "st \<in> S" "is_enabled m' c \<in> E"
  shows "logs c (crash_row E S N) m (set_state c st m')"
  using logs_save [of c E S N m "m'\<lparr>states := dict_set c st (states m')\<rparr>" st "is_enabled m' c" None] assms
  by (simp add: set_state_def)

lemma logs_persist_driver [simp]:
  assumes "logs c (crash_row E S N) m m'" "state_of m' c \<in> S" "is_enabled m' c \<in> E"
  shows "logs c (crash_row E S N) m (persist_driver c drv m')"
  unfolding persist_driver_def using assms by (rule logs_save)

lemma fields_frame [simp]:
  "is_enabled (m\<lparr>drivers := d\<rparr>) = is_enabled m" "state_of (m\<lparr>drivers := d\<rparr>) = state_of m"
  "is_enabled (persist_driver c drv m) = is_enabled m" "state_of (persist_driver c drv m) = state_of m"
  by (simp_all add: is_enabled_def state_of_def fun_eq_iff)

section \<open>What every operation commits\<close>

text \<open>
  The rows an operation from \<open>m\<close> to \<open>m'\<close> may leave for its core on the way: the flag of before or
  after, and the state of before, of after, or one of the states of a start or a stop. Only an
  uninstall goes through \<open>UNINSTALLED\<close>, and only an operation that ends without the core removes
  its row.
\<close>

definition op_row :: "manager_op \<Rightarrow> 'd manager \<Rightarrow> 'd manager \<Rightarrow> core_row option \<Rightarrow> bool" where
  "op_row o' m m' =
     crash_row {is_enabled m (op_core o'), is_enabled m' (op_core o')}
       ({state_of m (op_core o'), state_of m' (op_core o'), STARTING, RUNNING, STOPPING, STOPPED} \<union>
          (if is_uninstall o' then {UNINSTALLED} else {}))
       (\<not> managed m' (op_core o'))"

definition op_logs :: "'d manager_env \<Rightarrow> manager_op \<Rightarrow> 'd manager \<Rightarrow> bool" where
  "op_logs env o' m \<longleftrightarrow> logs (op_core o') (op_row o' m (run_op env o' m)) m (run_op env o' m)"

lemmas log_defs = op_logs_def op_row_def transition_def run_driver_def driver_status_def Let_def

lemma start_logs: "op_logs env (OpStart c) m"
  by (auto simp: log_defs start_core_def split: sum.splits prod.splits option.splits)

lemma stop_logs: "op_logs env (OpStop c) m"
  by (auto simp: log_defs stop_core_def split: sum.splits prod.splits option.splits)

lemma restart_logs: "op_logs env (OpRestart c) m"
  by (auto simp: log_defs restart_core_def split: sum.splits prod.splits option.splits)

lemma update_logs: "op_logs env (OpUpdate c v) m"
  by (auto simp: log_defs update_core_def split: sum.splits prod.splits)

lemma persist_logs: "op_logs env (OpPersist c) m"
  by (auto simp: log_defs persist_settings_def split: sum.splits)

lemma state_of_enabled [simp]: "state_of (m\<lparr>enabled := e\<rparr>) = state_of m"
  by (simp add: state_of_def fun_eq_iff)

lemma logs_flag:
  assumes "logs c (crash_row E S N) m m'" "state_of m' c \<in> S" "b \<in> E"
  shows "logs c (crash_row E S N) m (commit (save_state c (state_of m' c) b None (core_store m'))
    (m'\<lparr>enabled := dict_set c b (enabled m')\<rparr>))"
  using logs_save [of c E S N m "m'\<lparr>enabled := dict_set c b (enabled m')\<rparr>" "state_of m' c" b None] assms by simp

lemma flag_gets [simp]:
  "is_enabled (commit rows (m\<lparr>enabled := dict_set c b (enabled m)\<rparr>)) c = b"
  "state_of (commit rows m) = state_of m"
  by (simp_all add: is_enabled_def state_of_def fun_eq_iff)

lemma enable_logs: "op_logs env (OpEnable c) m"
  by (auto simp: op_logs_def op_row_def enable_core_def simp del: commit_def intro!: logs_flag split: sum.splits)

lemma logs_mono:
  assumes "logs c (crash_row E S N) m m'" "E \<subseteq> E'" "S \<subseteq> S'" "N \<Longrightarrow> N'"
  shows "logs c (crash_row E' S' N') m m'"
proof -
  have "crash_row E' S' N' r" if "crash_row E S N r" for r
    using that assms(2-4) by (auto simp: crash_row_def split: option.splits)
  then show ?thesis using assms(1) unfolding logs_def by blast
qed

lemma stop_core_flag:
  assumes "stop_core c m = (r, m')"
  shows "is_enabled m' c = is_enabled m c" "managed m' = managed m" "r = Inr x \<Longrightarrow> state_of m' c = STOPPED"
  using assms
  by (auto simp: log_defs stop_core_def managed_def fun_eq_iff get_core_def
      split: sum.splits prod.splits option.splits if_splits)

lemma disable_logs: "op_logs env (OpDisable c) m"
proof (cases "c \<in> set (builtin_core_ids env) \<or> dict_get (states m) c \<noteq> Some RUNNING")
  case True
  then show ?thesis
    by (auto simp: op_logs_def op_row_def disable_core_def simp del: commit_def intro!: logs_flag split: sum.splits)
next
  case False
  obtain r m' where st: "stop_core c m = (r, m')" by fastforce
  note fl = stop_core_flag [OF st]
  have l: "logs c (crash_row {is_enabled m c} {state_of m c, state_of m' c, STARTING, RUNNING, STOPPING, STOPPED}
      (\<not> managed m' c)) m m'"
    using stop_logs [of env c m] by (simp add: op_logs_def op_row_def st fl)
  show ?thesis
  proof (cases r)
    case (Inl e)
    then show ?thesis
      using False l by (simp add: op_logs_def op_row_def disable_core_def st fl(1))
  next
    case (Inr x)
    then have s: "state_of m' c = STOPPED" by (rule fl(3))
    show ?thesis
    proof (cases "get_core m' c")
      case (Inl e)
      then show ?thesis
        using False l \<open>r = Inr x\<close> by (simp add: op_logs_def op_row_def disable_core_def st fl(1))
    next
      case (Inr drv)
      then show ?thesis
        using False l \<open>r = Inr x\<close> s get_core_Inr [OF Inr]
        by (auto simp: op_logs_def op_row_def disable_core_def st simp del: commit_def
            intro!: logs_flag [of c _ _ _ m m', unfolded s] elim!: logs_mono)
    qed
  qed
qed

lemma document_logs: "op_logs env (OpDocument c doc) m"
  by (auto simp: log_defs apply_studio_document_def apply_failed_def apply_empty_def apply_recover_def
      split: sum.splits prod.splits option.splits)

lemma logs_attach [simp]: "logs c P m (attach c' d en st m') = logs c P m m'"
  by (simp add: attach_def)

lemma logs_forget [simp]: "logs c P m (forget_core c' m') = logs c P m m'"
  by (simp add: forget_core_def)

lemma is_enabled_commit [simp]: "is_enabled (commit rows m) = is_enabled m"
  by (simp add: is_enabled_def fun_eq_iff)

lemma is_enabled_attach [simp]: "is_enabled (attach c d en st m) c = en"
  by (simp add: attach_def is_enabled_def)

lemma install_done_gets [simp]:
  "state_of (snd (install_done c drv en m')) c = INSTALLED"
  "is_enabled (snd (install_done c drv en m')) c = is_enabled m' c"
  by (simp_all add: install_done_def Let_def del: commit_def)

lemma install_done_logs:
  assumes "logs c (crash_row E S N) m m'" "is_enabled m' c = en" "en \<in> E" "INSTALLED \<in> S"
  shows "logs c (crash_row E S N) m (snd (install_done c drv en m'))"
  using assms by (auto simp: install_done_def Let_def simp del: commit_def intro!: logs_save)

lemma install_logs: "op_logs env (OpInstall c stg en) m"
  by (auto simp: op_logs_def op_row_def install_core_def run_driver_def Let_def install_done_logs
      split: sum.splits prod.splits option.splits core_error.splits)

lemma finish_uninstall_gone [simp]: "\<not> managed (finish_uninstall c m') c"
  by (simp add: finish_uninstall_def forget_core_def managed_def Let_def)

lemma finish_uninstall_logs:
  assumes "logs c (crash_row E S N) m m'" "is_enabled m' c \<in> E" "UNINSTALLED \<in> S" "N"
  shows "logs c (crash_row E S N) m (finish_uninstall c m')"
  unfolding finish_uninstall_def Let_def using assms
  by (intro logs_commit) (auto simp: remove_row_def crash_row_def)

lemma uninstall_driver_logs:
  assumes "\<And>E S N. is_enabled m c \<in> E \<Longrightarrow> {STOPPING, STOPPED} \<subseteq> S \<Longrightarrow> logs c (crash_row E S N) m m'"
    "is_enabled m' c = is_enabled m c"
  shows "logs c (op_row (OpUninstall c purge force) m (snd (uninstall_driver c drv purge m')))
    m (snd (uninstall_driver c drv purge m'))"
  using assms
  by (auto simp: op_row_def uninstall_driver_def run_driver_def finish_uninstall_logs
      split: sum.splits prod.splits option.splits core_error.splits)

lemma uninstall_logs: "op_logs env (OpUninstall c purge force) m"
proof (cases "get_core m c")
  case (Inl e)
  then show ?thesis by (simp add: op_logs_def uninstall_core_def)
next
  case (Inr drv)
  obtain r m' where t: "transition c drv STOPPING STOPPED (dc_stop (dv_class drv)) m = (r, m')" by fastforce
  have m': "is_enabled m' c = is_enabled m c"
    "is_enabled m c \<in> E \<Longrightarrow> {STOPPING, STOPPED} \<subseteq> S \<Longrightarrow> r = Inr () \<Longrightarrow> logs c (crash_row E S N) m m'"
    "r = Inl e \<Longrightarrow> logs c (crash_row {is_enabled m c} {STOPPING, ERROR} False) m m' \<and> state_of m' c = ERROR" for E S N e
    using t by (auto simp: transition_def run_driver_def Let_def split: sum.splits prod.splits option.splits)
  have "logs c (op_row (OpUninstall c purge force) m m') m m'" if "r = Inl e" for e
    using m'(1) m'(3) [OF that] by (auto simp: op_row_def elim!: logs_mono)
  then show ?thesis
    using m' uninstall_driver_logs [of m c m' purge force drv] uninstall_driver_logs [of m c m purge force drv]
    by (auto simp: op_logs_def uninstall_core_def Inr t split: sum.splits)
qed

lemma run_op_logs: "logs (op_core o') (op_row o' m (run_op env o' m)) m (run_op env o' m)"
  by (cases o') (simp_all add: op_logs_def [symmetric] install_logs uninstall_logs start_logs stop_logs restart_logs
      update_logs enable_logs disable_logs document_logs persist_logs del: run_op.simps op_core.simps)

end
