(* ===== verification/CoreManagerProps.thy ===== *)
theory CoreManagerProps
  imports CoreManagerCrash
begin

text \<open>
  Properties of the core manager: the invariant over all reachable states, crash recovery through
  the state store, the lifecycle operations on every branch, health reconciliation, and the two
  places where the lifecycle loses track of a core (a failing stop inside a restart, and an
  uninstall between a health probe and its write-back).
\<close>

section \<open>Reachable states\<close>

text \<open>
  A manager is booted from the rows of its store and then runs operations, each with any arguments
  and any driver behaviour; the operations themselves do not overlap. The health monitor overlaps
  with everything: its probe and its write-back are separate steps with any number of operations in
  between, and a write-back may carry any recorded state and any probe result, however stale. The
  set collects the ghosts, the cores a write-back found uninstalled.
\<close>

inductive reach :: "'d manager_env \<Rightarrow> string set \<Rightarrow> 'd manager \<Rightarrow> bool" for env where
  reach_boot: "dict_ok rows \<Longrightarrow> reach env {} (boot env (fresh_manager rows))"
| reach_op: "reach env G m \<Longrightarrow> reach env G (run_op env o' m)"
| reach_probe: "reach env G m \<Longrightarrow> reach env G (snd (health_probe c m))"
| reach_writeback: "reach env G m \<Longrightarrow>
    reach env (ghosts m c recorded status G) (snd (health_reconcile c recorded status lh m))"

text \<open>The bulk operations are runs of the single ones.\<close>

lemma reach_start: "reach env G m \<Longrightarrow> reach env G (snd (start_core c m))"
  using reach_op [of env G m "OpStart c"] by simp

lemma reach_stop: "reach env G m \<Longrightarrow> reach env G (snd (stop_core c m))"
  using reach_op [of env G m "OpStop c"] by simp

lemma reach_start_enabled: "reach env G m \<Longrightarrow> reach env G (start_enabled env m)"
  unfolding start_enabled_def by (rule fold_keeps) (auto simp: start_enabled_one_def reach_start)

lemma reach_stop_all: "reach env G m \<Longrightarrow> reach env G (stop_all m)"
  unfolding stop_all_def by (rule fold_keeps) (auto simp: stop_all_one_def reach_stop)

lemma reach_inv: "reach env G m \<Longrightarrow> mgr_inv env G m"
  by (induction rule: reach.induct)
    (simp_all add: boot_inv run_op_keeps health_probe_keeps [THEN keeps_from_inv] health_writeback_keeps)

section \<open>A concrete driver for the witnesses\<close>

text \<open>
  A driver whose state is whether its process runs and which fails to stop when \<open>stuck\<close>; the
  registry holds it under three ids.
\<close>

definition toy_class :: "bool \<Rightarrow> string list \<Rightarrow> string list \<Rightarrow> bool driver_class" where
  "toy_class stuck prov req =
     \<lparr>dc_provides = prov, dc_requires = req, dc_studio_inbounds_path = None, dc_stop_when_no_inbounds = False,
      dc_new = (\<lambda>s. False), dc_settings = (\<lambda>d. []),
      dc_install = (\<lambda>d. (d, None)), dc_uninstall = (\<lambda>p d. (False, None)),
      dc_start = (\<lambda>d. (True, None)),
      dc_stop = (\<lambda>d. if stuck then (d, Some (DriverFailure ''stop'')) else (False, None)),
      dc_update = (\<lambda>v d. (d, Inr ''1'')),
      dc_status = (\<lambda>d. (d, Inr \<lparr>cs_state = (if d then RUNNING else STOPPED), cs_health = HEALTHY\<rparr>)),
      dc_health_check = (\<lambda>d. (d, Inr \<lparr>cs_state = (if d then RUNNING else STOPPED), cs_health = HEALTHY\<rparr>)),
      dc_apply_document = None\<rparr>"

definition toy_env :: "bool manager_env" where
  "toy_env = \<lparr>registry = [(''xray'', toy_class False [] []), (''wg'', toy_class False [''tun''] []),
       (''bad'', toy_class True [] [''tun''])],
     builtin_core_ids = [''xray''], settings_provider = None, settings_transform = None\<rparr>"

definition toy_rows :: "(string, core_row) dict" where
  "toy_rows = [(''wg'', \<lparr>row_state = RUNNING, row_enabled = True, row_settings = []\<rparr>),
     (''bad'', \<lparr>row_state = STOPPED, row_enabled = True, row_settings = []\<rparr>)]"

definition toy_boot :: "bool manager" where
  "toy_boot = boot toy_env (fresh_manager toy_rows)"

definition toy_run :: "bool manager" where
  "toy_run = start_enabled toy_env toy_boot"

lemmas toy_defs = toy_boot_def toy_env_def toy_rows_def boot_def fresh_manager_def boot_row_def
  get_driver_class_def attach_def boot_builtin_def dict_in_def new_driver_def transform_settings_def

lemma toy_boot_drivers:
  "drivers toy_boot = [(''wg'', \<lparr>dv_class = toy_class False [''tun''] [], dv_state = False\<rparr>),
     (''bad'', \<lparr>dv_class = toy_class True [] [''tun''], dv_state = False\<rparr>),
     (''xray'', \<lparr>dv_class = toy_class False [] [], dv_state = False\<rparr>)]"
  by (simp add: toy_defs) (simp add: toy_class_def)

lemma toy_boot_rest:
  "states toy_boot = [(''wg'', STOPPED), (''bad'', STOPPED), (''xray'', INSTALLED)]"
  "enabled toy_boot = [(''wg'', True), (''bad'', True), (''xray'', True)]"
  "core_store toy_boot = toy_rows" "bus toy_boot = []"
  by (simp_all add: toy_defs boot_state_def)

lemma toy_list_cores: "list_cores toy_boot = [''bad'', ''wg'', ''xray'']"
  unfolding list_cores_def toy_boot_drivers by code_simp

lemmas toy_run_defs = start_enabled_one_def start_core_def get_core_def is_enabled_def state_of_def transition_def
  set_state_def run_driver_def persist_driver_def driver_status_def cur_driver_def toy_class_def

lemma toy_run_drivers:
  "drivers toy_run = [(''wg'', \<lparr>dv_class = toy_class False [''tun''] [], dv_state = True\<rparr>),
     (''bad'', \<lparr>dv_class = toy_class True [] [''tun''], dv_state = True\<rparr>),
     (''xray'', \<lparr>dv_class = toy_class False [] [], dv_state = False\<rparr>)]"
  "states toy_run = [(''wg'', RUNNING), (''bad'', RUNNING), (''xray'', INSTALLED)]"
  "enabled toy_run = [(''wg'', True), (''bad'', True), (''xray'', True)]"
  unfolding toy_run_def start_enabled_def toy_list_cores
  by (simp_all add: toy_run_defs toy_boot_drivers toy_boot_rest toy_env_def Let_def)

lemma toy_reach: "reach toy_env {} toy_boot" "reach toy_env {} toy_run"
proof -
  show "reach toy_env {} toy_boot"
    unfolding toy_boot_def by (rule reach_boot) (simp add: toy_rows_def)
  then show "reach toy_env {} toy_run" unfolding toy_run_def by (rule reach_start_enabled)
qed

section \<open>Properties\<close>

text \<open>
  C1: In every state the manager can reach by operations that run one after the other while the
  health monitor probes and writes back at any moment in between, every managed core has a recorded
  state, an enabled flag, a registered driver class and a persisted row that carries its flag and
  its state up to the normalisation a boot applies (a core without a row is an untouched built-in);
  every registered built-in core is managed; and an unmanaged core has no enabled flag and, unless
  the monitor wrote its state back after it had been uninstalled, no recorded state and no row that
  a boot would attach. The row such a ghost leaves is disabled. Without ghosts the driver, state and
  enabled dictionaries have the same keys.
\<close>
theorem manager_reachable_consistent:
  assumes "reach env G m"
  shows "(\<forall>c. managed m c \<longrightarrow> dict_get (states m) c \<noteq> None \<and> dict_get (enabled m) c \<noteq> None \<and>
        dict_get (registry env) c \<noteq> None \<and>
        (case dict_get (core_store m) c of
           None \<Rightarrow> c \<in> set (builtin_core_ids env) \<and> state_of m c = INSTALLED \<and> is_enabled m c
         | Some row \<Rightarrow> boot_state (row_state row) = boot_state (state_of m c) \<and> row_enabled row = is_enabled m c)) \<and>
     (\<forall>c. \<not> managed m c \<longrightarrow> dict_get (enabled m) c = None \<and> (dict_get (states m) c \<noteq> None \<longrightarrow> c \<in> G) \<and>
        (\<forall>row. dict_get (core_store m) c = Some row \<longrightarrow> dict_get (registry env) c = None \<or>
           c \<in> G \<and> \<not> row_enabled row \<and> row_state row \<in> {RUNNING, STOPPED})) \<and>
     (\<forall>c \<in> set (builtin_core_ids env). dict_get (registry env) c \<noteq> None \<longrightarrow> managed m c) \<and>
     (G = {} \<longrightarrow> (\<forall>c. (dict_get (states m) c \<noteq> None) = managed m c \<and> (dict_get (enabled m) c \<noteq> None) = managed m c))"
proof -
  have inv: "core_inv env G m c" for c using reach_inv [OF assms] by (rule inv_core)
  have man: "dict_get (states m) c \<noteq> None \<and> dict_get (enabled m) c \<noteq> None \<and> dict_get (registry env) c \<noteq> None \<and>
      (case dict_get (core_store m) c of
         None \<Rightarrow> c \<in> set (builtin_core_ids env) \<and> state_of m c = INSTALLED \<and> is_enabled m c
       | Some row \<Rightarrow> boot_state (row_state row) = boot_state (state_of m c) \<and> row_enabled row = is_enabled m c)"
    if "managed m c" for c
    using inv [of c] that by (auto simp: core_inv_def row_mirrors_def split: option.splits)
  have un: "dict_get (enabled m) c = None" "dict_get (states m) c \<noteq> None \<longrightarrow> c \<in> G"
    "\<forall>row. dict_get (core_store m) c = Some row \<longrightarrow> dict_get (registry env) c = None \<or>
        c \<in> G \<and> \<not> row_enabled row \<and> row_state row \<in> {RUNNING, STOPPED}"
    if "\<not> managed m c" for c
    using inv [of c] that by (auto simp: core_inv_def ghost_row_def)
  have "\<forall>c \<in> set (builtin_core_ids env). dict_get (registry env) c \<noteq> None \<longrightarrow> managed m c"
    using inv by (metis core_inv_def)
  moreover have "(dict_get (states m) c \<noteq> None) = managed m c \<and> (dict_get (enabled m) c \<noteq> None) = managed m c"
    if "G = {}" for c
    using man [of c] un(1,2) [of c] that by (cases "managed m c") simp_all
  ultimately show ?thesis using man un by simp
qed

theorem manager_reachable_consistent_witness:
  "managed toy_run ''xray'' \<and> (dict_get (states toy_run) ''wg'' \<noteq> None) = managed toy_run ''wg''"
  using manager_reachable_consistent [OF toy_reach(2)]
  by (auto simp: toy_env_def)

section \<open>Crash recovery\<close>

text \<open>A boot brings core \<open>c\<close> of \<open>m\<close> back; a ghost comes back stopped and disabled.\<close>

definition recovers :: "string set \<Rightarrow> 'd manager \<Rightarrow> 'd manager \<Rightarrow> string \<Rightarrow> bool" where
  "recovers G m b c \<longleftrightarrow>
     (if managed m c
      then managed b c \<and> is_enabled b c = is_enabled m c \<and> state_of b c = boot_state (state_of m c)
      else managed b c \<longrightarrow> c \<in> G \<and> \<not> is_enabled b c \<and> state_of b c = STOPPED)"

lemma boot_recovers:
  assumes "mgr_inv env G m" "dict_ok rows" "dict_get rows c = dict_get (core_store m) c"
  shows "recovers G m (boot env (fresh_manager rows)) c"
proof -
  note g = boot_gets [OF assms(2), of env]
  show ?thesis
  proof (cases "managed m c")
    case True
    then have "boot_record env rows c = Some (boot_state (state_of m c), is_enabled m c)"
      using inv_core [OF assms(1), of c]
      by (auto simp: boot_record_def assms(3) core_inv_def row_mirrors_def boot_state_def split: option.splits)
    then show ?thesis using True by (simp add: recovers_def g state_of_def is_enabled_def)
  next
    case False
    then show ?thesis
      using inv_core [OF assms(1), of c]
      by (auto simp: recovers_def g state_of_def is_enabled_def boot_record_def assms(3) core_inv_def ghost_row_def
          boot_state_def split: option.splits if_splits)
  qed
qed

lemma op_commits:
  assumes "rows \<in> set (drop (length (store_log m)) (store_log (run_op env o' m)))"
  shows "c \<noteq> op_core o' \<Longrightarrow> dict_get rows c = dict_get (core_store m) c"
    and "op_row o' m (run_op env o' m) (dict_get rows (op_core o'))"
  using run_op_logs [of o' m env] assms by (auto simp: logs_def)

text \<open>
  C2: Crash recovery. The process may die in any reachable state, and also in the middle of any
  operation, after any of the commits the operation makes; a fresh manager then boots from the rows
  committed last, in whatever order the database returns them. Every core other than the one the
  operation works on, and that core too when the operation has not committed anything yet, comes
  back managed with its enabled flag and its recorded state, with running, starting and stopping
  turned into stopped; a core that was not managed comes back only if it is a ghost of C1, stopped
  and disabled. The core of the interrupted operation is not lost if it was managed before and would
  be managed after; when it comes back, its flag is that of before or after the operation (a core
  that is not managed counts as disabled), and its state that of before, that of after, or stopped, or uninstalled if the operation is an uninstall.
\<close>
theorem manager_crash_recovery:
  assumes "reach env G m"
    and "snap = core_store m \<or> snap \<in> set (drop (length (store_log m)) (store_log (run_op env o' m)))"
    and "dict_ok rows" "dict_get rows = dict_get snap"
  defines "m' \<equiv> run_op env o' m" and "b \<equiv> boot env (fresh_manager rows)" and "c \<equiv> op_core o'"
  shows "(\<forall>d. d \<noteq> c \<or> snap = core_store m \<longrightarrow> recovers G m b d) \<and>
     (managed m c \<and> managed m' c \<longrightarrow> managed b c) \<and>
     (managed b c \<longrightarrow>
        is_enabled b c \<in> {is_enabled m c, is_enabled m' c} \<and>
        (state_of b c \<in> {boot_state (state_of m c), boot_state (state_of m' c), STOPPED} \<or>
           is_uninstall o' \<and> state_of b c = UNINSTALLED))"
proof (cases "snap = core_store m")
  case True
  have inv: "mgr_inv env G m" using assms(1) by (rule reach_inv)
  have all: "recovers G m b d" for d
    unfolding b_def by (rule boot_recovers [OF inv assms(3)]) (simp add: assms(4) True)
  have "\<not> managed m c \<Longrightarrow> \<not> is_enabled m c"
    using inv_core [OF inv, of c] by (simp add: core_inv_def is_enabled_def)
  then show ?thesis using all all [of c] by (auto simp: recovers_def split: if_splits)
next
  case False
  have inv: "mgr_inv env G m" "mgr_inv env G m'"
    using reach_inv [OF assms(1)] run_op_keeps [of env G m o'] by (simp_all add: m'_def)
  from False assms(2) have s: "snap \<in> set (drop (length (store_log m)) (store_log (run_op env o' m)))" by simp
  have others: "recovers G m b d" if "d \<noteq> c" for d
    unfolding b_def by (rule boot_recovers [OF inv(1) assms(3)]) (use that op_commits(1) [OF s] in \<open>simp add: assms(4) c_def\<close>)
  note op_row = op_row_def [of o' m m', folded c_def]
  have row: "op_row o' m m' (dict_get rows c)" using op_commits(2) [OF s] by (simp add: assms(4) c_def m'_def)
  note g = boot_gets(1-3) [OF assms(3), of env c, folded b_def]
  have kept: "managed b c" if "managed m c" "managed m' c"
    using that row inv_core [OF inv(1), of c]
    by (auto simp: g boot_record_def op_row crash_row_def core_inv_def split: option.splits)
  show ?thesis
  proof (cases "dict_get rows c")
    case None
    then have "managed b c \<Longrightarrow> managed m' c \<and> \<not> managed m' c"
      using row inv_core [OF inv(2), of c]
      by (auto simp: g boot_record_def op_row crash_row_def core_inv_def split: option.splits if_splits)
    then show ?thesis using others kept False by blast
  next
    case (Some r)
    then have "managed b c \<Longrightarrow> is_enabled b c = row_enabled r \<and> state_of b c = boot_state (row_state r)"
      by (auto simp: g boot_record_def is_enabled_def state_of_def split: if_splits)
    then show ?thesis
      using row others kept False Some by (auto simp: op_row crash_row_def boot_state_def split: if_splits)
  qed
qed

lemma toy_start_log:
  "core_store (set_state ''wg'' STARTING toy_boot) \<in>
     set (drop (length (store_log toy_boot)) (store_log (run_op toy_env (OpStart ''wg'') toy_boot)))"
proof -
  have "store_log toy_boot = []" by (simp add: toy_defs)
  moreover have "core_store (set_state ''wg'' STARTING toy_boot) \<in> set (store_log (snd (start_core ''wg'' toy_boot)))"
    by (simp add: toy_run_defs toy_boot_drivers toy_boot_rest Let_def)
  ultimately show ?thesis by simp
qed

text \<open>The panel dies while it starts the core \<open>wg\<close>, right after the first commit of the start.\<close>

theorem manager_crash_recovery_witness:
  "let b = boot toy_env (fresh_manager (core_store (set_state ''wg'' STARTING toy_boot)))
   in recovers {} toy_boot b ''bad'' \<and> managed b ''wg'' \<and> is_enabled b ''wg''"
proof -
  have ok: "dict_ok (core_store (set_state ''wg'' STARTING toy_boot))"
    by (simp add: set_state_def Let_def toy_boot_rest toy_rows_def save_state_def)
  have m: "managed toy_boot ''wg''" "is_enabled toy_boot ''wg''"
    by (simp_all add: managed_def is_enabled_def toy_boot_drivers toy_boot_rest)
  have m': "managed (snd (start_core ''wg'' toy_boot)) ''wg''" "is_enabled (snd (start_core ''wg'' toy_boot)) ''wg''"
    by (simp_all add: managed_def toy_run_defs toy_boot_drivers toy_boot_rest Let_def)
  show ?thesis
    using manager_crash_recovery [OF toy_reach(1) disjI2 [OF toy_start_log] ok refl] m m' by simp
qed

section \<open>The lifecycle operations branch by branch\<close>

lemma get_core_iff: "get_core m c = Inr drv \<longleftrightarrow> dict_get (drivers m) c = Some drv"
  by (simp add: get_core_def split: option.splits)

lemma state_of_frame [simp]:
  "state_of (persist_driver c drv m) c' = state_of m c'"
  "state_of (snd (driver_status c drv m)) c' = state_of m c'"
  "state_of (snd (run_driver c drv act m)) c' = state_of m c'"
  by (simp_all add: state_of_def)

lemma transition_state:
  "state_of (snd (transition c drv a b act m)) c' =
     (if c' = c then (if snd (act (dv_state drv)) = None then b else ERROR) else state_of m c')"
  "fst (transition c drv a b act m) = (case snd (act (dv_state drv)) of None \<Rightarrow> Inr () | Some e \<Rightarrow> Inl e)"
  by (simp_all add: transition_def run_driver_def Let_def state_of_def set_state_def split_beta
      split: option.splits sum.splits)

definition start_outcome :: "'d driver \<Rightarrow> core_state" where
  "start_outcome drv = (if snd (dc_start (dv_class drv) (dv_state drv)) = None then RUNNING else ERROR)"

lemma start_core_refused:
  assumes "dict_get (drivers m) c = Some drv"
    and "\<not> is_enabled m c \<or> state_of m c \<notin> {INSTALLED, STOPPED, ERROR}"
  shows "\<exists>why. start_core c m = (Inl (CoreStateError why), m)"
  using assms by (auto simp: start_core_def get_core_def)

lemma start_core_runs:
  assumes "dict_get (drivers m) c = Some drv" "is_enabled m c" "state_of m c \<in> {INSTALLED, STOPPED, ERROR}"
  shows "state_of (snd (start_core c m)) c' = (if c' = c then start_outcome drv else state_of m c')"
    and "start_outcome drv = ERROR \<Longrightarrow> \<exists>e. fst (start_core c m) = Inl e"
proof -
  obtain r m' where t: "transition c drv STARTING RUNNING (dc_start (dv_class drv)) m = (r, m')" by fastforce
  have s: "start_core c m = (case r of Inl e \<Rightarrow> (Inl e, m') | Inr u \<Rightarrow> driver_status c drv (persist_driver c drv m'))"
    using assms by (auto simp: start_core_def get_core_def t split: sum.splits)
  have m': "state_of m' c' = (if c' = c then start_outcome drv else state_of m c')"
    for c' using transition_state(1) [of c drv STARTING RUNNING "dc_start (dv_class drv)" m c']
    by (simp add: t start_outcome_def)
  show "state_of (snd (start_core c m)) c' = (if c' = c then start_outcome drv else state_of m c')"
    by (simp add: s m' split: sum.splits)
  show "\<exists>e. fst (start_core c m) = Inl e" if "start_outcome drv = ERROR"
    using that transition_state(2) [of c drv STARTING RUNNING "dc_start (dv_class drv)" m]
    by (auto simp: s t start_outcome_def split: option.splits)
qed

text \<open>
  Starting a managed core. It is refused, without any effect, unless the core is enabled and
  installed, stopped or failed. Otherwise the core is recorded running when the driver started it
  and failed when the driver raised, in which case the exception reaches the caller; no other
  core's state changes.
\<close>
lemma start_core_branches:
  assumes "dict_get (drivers m) c = Some drv"
  shows "if is_enabled m c \<and> state_of m c \<in> {INSTALLED, STOPPED, ERROR}
     then state_of (snd (start_core c m)) c = start_outcome drv \<and>
       (\<forall>c'. c' \<noteq> c \<longrightarrow> state_of (snd (start_core c m)) c' = state_of m c') \<and>
       (start_outcome drv = ERROR \<longrightarrow> (\<exists>e. fst (start_core c m) = Inl e))
     else \<exists>why. start_core c m = (Inl (CoreStateError why), m)"
  using start_core_refused [OF assms] start_core_runs [OF assms] by auto

lemma start_core_branches_example:
  "state_of (snd (start_core ''wg'' toy_boot)) ''wg'' = RUNNING \<and>
   (\<exists>why. start_core ''wg'' toy_run = (Inl (CoreStateError why), toy_run))"
proof -
  have b: "dict_get (drivers toy_boot) ''wg'' = Some \<lparr>dv_class = toy_class False [''tun''] [], dv_state = False\<rparr>"
    "is_enabled toy_boot ''wg''" "state_of toy_boot ''wg'' = STOPPED"
    by (simp_all add: toy_boot_drivers toy_boot_rest is_enabled_def state_of_def)
  have r: "dict_get (drivers toy_run) ''wg'' = Some \<lparr>dv_class = toy_class False [''tun''] [], dv_state = True\<rparr>"
    "state_of toy_run ''wg'' = RUNNING"
    by (simp_all add: toy_run_drivers state_of_def)
  show ?thesis
    using start_core_branches [OF b(1)] b(2,3) start_core_branches [OF r(1)] r(2)
    by (auto simp: start_outcome_def toy_class_def)
qed


text \<open>Uninstalling.\<close>

lemma set_dependents:
  "dict_get (drivers m) c = Some prov \<Longrightarrow> c' \<in> set (dependents m c) \<longleftrightarrow>
     (\<exists>drv. (c', drv) \<in> set (drivers m) \<and> c' \<noteq> c \<and>
        set (dc_requires (dv_class drv)) \<inter> set (dc_provides (dv_class prov)) \<noteq> {})"
  by (force simp: dependents_def get_core_def)

definition gone :: "string \<Rightarrow> 'd manager \<Rightarrow> bool" where
  "gone c m \<longleftrightarrow> dict_get (drivers m) c = None \<and> dict_get (states m) c = None \<and> dict_get (enabled m) c = None \<and>
     dict_get (core_store m) c = None"

definition same_core :: "string \<Rightarrow> 'd manager \<Rightarrow> 'd manager \<Rightarrow> bool" where
  "same_core c m m' \<longleftrightarrow> dict_get (drivers m') c = dict_get (drivers m) c \<and>
     dict_get (states m') c = dict_get (states m) c \<and> dict_get (enabled m') c = dict_get (enabled m) c \<and>
     dict_get (core_store m') c = dict_get (core_store m) c"

lemma same_core_refl [simp]: "same_core c m m"
  by (simp add: same_core_def)

lemma same_core_set_state [simp]: "c' \<noteq> c \<Longrightarrow> same_core c' m (set_state c st m') = same_core c' m m'"
  by (simp add: same_core_def set_state_def save_state_get)

lemma same_core_run_driver [simp]:
  "c' \<noteq> c \<Longrightarrow> same_core c' m (snd (run_driver c drv act m')) = same_core c' m m'"
  by (simp add: same_core_def run_driver_def split: prod.splits)

lemma same_core_transition [simp]:
  "c' \<noteq> c \<Longrightarrow> same_core c' m (snd (transition c drv a b act m')) = same_core c' m m'"
  using same_core_run_driver [of c' c m drv act "set_state c a m'"]
  by (cases "run_driver c drv act (set_state c a m')") (auto simp: transition_def split: sum.splits)

lemma same_core_finish [simp]: "c' \<noteq> c \<Longrightarrow> same_core c' m (finish_uninstall c m') = same_core c' m m'"
  by (simp add: same_core_def finish_uninstall_def forget_core_def Let_def set_state_def save_state_get remove_row_def)

lemma gone_finish [simp]: "gone c (finish_uninstall c m)"
  by (simp add: gone_def finish_uninstall_def forget_core_def Let_def remove_row_def)

lemma uninstall_driver_effect:
  assumes "managed m c"
  shows "(fst (uninstall_driver c drv purge m) = Inr () \<longrightarrow> gone c (snd (uninstall_driver c drv purge m))) \<and>
     ((\<exists>e. fst (uninstall_driver c drv purge m) = Inl e) \<longrightarrow> managed (snd (uninstall_driver c drv purge m)) c) \<and>
     (\<forall>c'. c' \<noteq> c \<longrightarrow> same_core c' m (snd (uninstall_driver c drv purge m)))"
proof -
  obtain r m' where r: "run_driver c (cur_driver c drv m) (dc_uninstall (dv_class drv) purge) m = (r, m')" by fastforce
  have m': "managed m' c" "\<And>c'. c' \<noteq> c \<Longrightarrow> same_core c' m m'"
    using managed_run_driver [OF assms, of "cur_driver c drv m" "dc_uninstall (dv_class drv) purge" c]
      same_core_run_driver [of _ c m "cur_driver c drv m" "dc_uninstall (dv_class drv) purge" m] assms
    by (simp_all add: r)
  then show ?thesis by (simp add: uninstall_driver_def r split: sum.splits core_error.splits)
qed

lemma uninstall_driver_gone: "uninstall_driver c drv purge m = (Inr (), m') \<Longrightarrow> gone c m'"
  by (auto simp: uninstall_driver_def split: prod.splits sum.splits core_error.splits)

lemma uninstall_core_gone: "uninstall_core env c purge force m = (Inr (), m') \<Longrightarrow> gone c m'"
  by (auto simp: uninstall_core_def uninstall_driver_gone split: prod.splits sum.splits if_splits)

text \<open>
  Uninstalling a managed core. A built-in core, and (unless forced) a core that provides a
  feature some other managed core requires, is refused without any effect. A successful uninstall
  removes the core from the driver, state and enabled dictionaries and from the store; a failed one
  leaves it managed. Other cores are never touched.
\<close>
lemma uninstall_core_branches:
  fixes env :: "'d manager_env" and purge force :: bool
  assumes "dict_get (drivers m) c = Some drv"
  defines "res \<equiv> uninstall_core env c purge force m"
  shows "((c \<in> set (builtin_core_ids env) \<or>
       \<not> force \<and> (\<exists>c' drv'. (c', drv') \<in> set (drivers m) \<and> c' \<noteq> c \<and>
          set (dc_requires (dv_class drv')) \<inter> set (dc_provides (dv_class drv)) \<noteq> {}))
       \<longrightarrow> (\<exists>why. res = (Inl (CoreStateError why), m))) \<and>
     (fst res = Inr () \<longrightarrow> gone c (snd res)) \<and>
     ((\<exists>e. fst res = Inl e) \<longrightarrow> managed (snd res) c) \<and>
     (\<forall>c'. c' \<noteq> c \<longrightarrow> same_core c' m (snd res))"
proof (cases "c \<in> set (builtin_core_ids env) \<or> \<not> force \<and> dependents m c \<noteq> []")
  case True
  then have "\<exists>why. res = (Inl (CoreStateError why), m)"
    by (auto simp: res_def uninstall_core_def)
  moreover have "managed m c" using assms(1) by (simp add: managed_def)
  ultimately show ?thesis by fastforce
next
  case False
  have dep: "\<not> (\<exists>c' drv'. (c', drv') \<in> set (drivers m) \<and> c' \<noteq> c \<and>
      set (dc_requires (dv_class drv')) \<inter> set (dc_provides (dv_class drv)) \<noteq> {})" if "\<not> force"
    using False that set_dependents [OF assms(1)] by fastforce
  have c: "managed m c" using assms(1) by (simp add: managed_def)
  obtain r m1 where t: "transition c drv STOPPING STOPPED (dc_stop (dv_class drv)) m = (r, m1)" by fastforce
  have m1: "managed m1 c" "\<And>c'. c' \<noteq> c \<Longrightarrow> same_core c' m m1"
  proof -
    have "dict_get (drivers m1) c \<noteq> None"
      using t by (auto simp: transition_def run_driver_def Let_def split_beta split: sum.splits option.splits)
    then show "managed m1 c" by (simp add: managed_def)
    show "same_core c' m m1" if "c' \<noteq> c" for c'
      using same_core_transition [OF that, of m drv STOPPING STOPPED "dc_stop (dv_class drv)" m] by (simp add: t)
  qed
  have res: "res = (if state_of m c = RUNNING then (case r of Inl e \<Rightarrow> (Inl e, m1) | Inr u \<Rightarrow> uninstall_driver c drv purge m1)
      else uninstall_driver c drv purge m)"
    using False assms(1) by (auto simp: res_def uninstall_core_def get_core_def t split: sum.splits)
  have tr: "same_core c' m m2" if "same_core c' m m1" "same_core c' m1 m2" for c' and m2
    using that by (simp add: same_core_def)
  show ?thesis
    using False dep m1 uninstall_driver_effect [OF c, of drv purge] uninstall_driver_effect [OF m1(1), of drv purge]
    by (auto simp: res intro: tr split: sum.splits)
qed

lemma uninstall_core_branches_example:
  "(\<exists>why. uninstall_core toy_env ''wg'' False False toy_run = (Inl (CoreStateError why), toy_run)) \<and>
   gone ''wg'' (snd (uninstall_core toy_env ''wg'' False True toy_run))"
proof -
  have d: "dict_get (drivers toy_run) ''wg'' = Some \<lparr>dv_class = toy_class False [''tun''] [], dv_state = True\<rparr>"
    by (simp add: toy_run_drivers)
  have "\<exists>c' drv'. (c', drv') \<in> set (drivers toy_run) \<and> c' \<noteq> ''wg'' \<and> set (dc_requires (dv_class drv')) \<inter>
      set (dc_provides (dv_class \<lparr>dv_class = toy_class False [''tun''] [], dv_state = True\<rparr>)) \<noteq> {}"
    unfolding toy_run_drivers
    by (rule exI [of _ "''bad''"], rule exI [of _ "\<lparr>dv_class = toy_class True [] [''tun''], dv_state = True\<rparr>"])
      (simp add: toy_class_def)
  moreover have "fst (uninstall_core toy_env ''wg'' False True toy_run) = Inr ()"
    by (simp add: uninstall_core_def uninstall_driver_def toy_run_defs toy_run_drivers toy_env_def Let_def)
  ultimately show ?thesis
    using uninstall_core_branches [OF d, of toy_env False False, THEN conjunct1]
      uninstall_core_branches [OF d, of toy_env True False, THEN conjunct2, THEN conjunct1] by simp
qed


section \<open>Health\<close>

text \<open>The state a probe result leads to, and the health it reports.\<close>

definition probed_state :: "core_state \<Rightarrow> core_error + core_status \<Rightarrow> core_state" where
  "probed_state st r =
     (case r of
        Inl e \<Rightarrow> st
      | Inr s \<Rightarrow> if cs_state s = RUNNING then RUNNING else if st = RUNNING then STOPPED else st)"

definition probed_health :: "core_error + core_status \<Rightarrow> health_status" where
  "probed_health r = (case r of Inl e \<Rightarrow> UNHEALTHY | Inr s \<Rightarrow> cs_health s)"

definition known_health :: "(string, health_status) dict \<Rightarrow> string \<Rightarrow> health_status" where
  "known_health lh c = (case dict_get lh c of None \<Rightarrow> UNKNOWN | Some h \<Rightarrow> h)"

lemma health_one_other:
  assumes "c' \<noteq> c"
  shows "dict_get (drivers (snd (health_one c lm))) c' = dict_get (drivers (snd lm)) c'"
    and "dict_get (states (snd (health_one c lm))) c' = dict_get (states (snd lm)) c'"
    and "dict_get (fst (health_one c lm)) c' = dict_get (fst lm) c'"
  using assms by (auto simp: health_one_def health_probe_def health_reconcile_def Let_def split: prod.splits option.splits)

lemma health_one_here:
  assumes "dict_get (drivers m) c = Some drv" "dict_get (states m) c = Some st"
    "st \<notin> {UNINSTALLED, LOADED, STARTING, STOPPING}"
  defines "r \<equiv> snd (dc_health_check (dv_class drv) (dv_state drv))"
  shows "state_of (snd (health_one c (lh, m))) c = probed_state st r"
    and "known_health (fst (health_one c (lh, m))) c = probed_health r"
proof -
  obtain d' r' where p: "dc_health_check (dv_class drv) (dv_state drv) = (d', r')" by fastforce
  show "state_of (snd (health_one c (lh, m))) c = probed_state st r"
    using assms by (simp add: health_one_def health_probe_def health_reconcile_def health_skips_def Let_def p
        probed_state_def state_of_def split: sum.splits)
  show "known_health (fst (health_one c (lh, m))) c = probed_health r"
    using assms by (simp add: health_one_def health_probe_def health_reconcile_def health_skips_def Let_def p
        probed_health_def known_health_def split: sum.splits)
qed

lemma health_one_skip:
  "dict_get (states m) c = Some st \<Longrightarrow> st \<in> {UNINSTALLED, LOADED, STARTING, STOPPING}
     \<Longrightarrow> health_one c (lh, m) = (lh, m)"
  by (auto simp: health_one_def health_skips_def)

lemma fold_health_notin:
  assumes "c \<notin> set cs"
  shows "dict_get (drivers (snd (fold health_one cs lm))) c = dict_get (drivers (snd lm)) c"
    and "dict_get (states (snd (fold health_one cs lm))) c = dict_get (states (snd lm)) c"
    and "dict_get (fst (fold health_one cs lm)) c = dict_get (fst lm) c"
  using assms by (induction cs arbitrary: lm) (simp_all add: health_one_other)

lemma fold_health_split:
  assumes "c \<in> set cs" "distinct cs"
  obtains lm' where "dict_get (drivers (snd lm')) c = dict_get (drivers (snd lm)) c"
    "dict_get (states (snd lm')) c = dict_get (states (snd lm)) c"
    "dict_get (states (snd (fold health_one cs lm))) c = dict_get (states (snd (health_one c lm'))) c"
    "dict_get (fst (fold health_one cs lm)) c = dict_get (fst (health_one c lm')) c"
    "dict_get (fst lm') c = dict_get (fst lm) c"
proof -
  from assms obtain as bs where cs: "cs = as @ c # bs" "c \<notin> set as" "c \<notin> set bs"
    by (metis distinct.simps(2) distinct_append not_distinct_conv_prefix split_list_first)
  show ?thesis
    by (rule that [of "fold health_one as lm"]) (simp_all add: cs fold_health_notin)
qed

text \<open>
  One health cycle. For every managed core that is not in a transient state, the recorded state
  afterwards is what the core's own probe warrants: running if the probe says running, stopped if
  the record said running and the probe does not, and otherwise unchanged (a failed core is not
  resurrected, a raising probe changes no state); the published health is the probe's, unhealthy
  when it raised. Cores in a transient state are left alone. The result does not depend on the other
  cores nor on the order in which they are visited.
\<close>
lemma health_cycle_reconciles:
  assumes "dict_ok (drivers m)" "dict_get (drivers m) c = Some drv" "dict_get (states m) c = Some st"
  defines "r \<equiv> snd (dc_health_check (dv_class drv) (dv_state drv))"
  shows "if st \<in> {UNINSTALLED, LOADED, STARTING, STOPPING}
     then state_of (snd (health_cycle lh m)) c = st \<and> dict_get (fst (health_cycle lh m)) c = dict_get lh c
     else state_of (snd (health_cycle lh m)) c = probed_state st r \<and>
       known_health (fst (health_cycle lh m)) c = probed_health r"
proof -
  have "c \<in> set (list_cores m)" "distinct (list_cores m)"
    using assms(1,2) by (force simp: list_cores_def dest!: map_of_SomeD)+
  then obtain lm' where lm': "dict_get (drivers (snd lm')) c = Some drv" "dict_get (states (snd lm')) c = Some st"
    "dict_get (states (snd (health_cycle lh m))) c = dict_get (states (snd (health_one c lm'))) c"
    "dict_get (fst (health_cycle lh m)) c = dict_get (fst (health_one c lm')) c" "dict_get (fst lm') c = dict_get lh c"
    using assms(2,3) by (auto simp: health_cycle_def elim!: fold_health_split [of c _ "(lh, m)"])
  have eq: "state_of (snd (health_cycle lh m)) c = state_of (snd (health_one c lm')) c"
    "known_health (fst (health_cycle lh m)) c = known_health (fst (health_one c lm')) c"
    using lm'(3,4) by (simp_all add: state_of_def known_health_def)
  obtain lh' m' where l: "lm' = (lh', m')" by fastforce
  show ?thesis
  proof (cases "st \<in> {UNINSTALLED, LOADED, STARTING, STOPPING}")
    case True
    then have "health_one c lm' = lm'" using health_one_skip lm'(2) unfolding l by (metis snd_conv)
    then show ?thesis using True lm' by (simp add: eq state_of_def)
  next
    case False
    then show ?thesis
      using lm'(1,2) health_one_here [of m' c drv st lh'] by (simp add: eq l r_def)
  qed
qed

lemma health_cycle_reconciles_example:
  "state_of (snd (health_cycle [] toy_run)) ''wg'' = RUNNING \<and> known_health (fst (health_cycle [] toy_run)) ''wg'' = HEALTHY"
proof -
  have "dict_ok (drivers toy_run)" "dict_get (states toy_run) ''wg'' = Some RUNNING"
    "dict_get (drivers toy_run) ''wg'' = Some \<lparr>dv_class = toy_class False [''tun''] [], dv_state = True\<rparr>"
    by (simp_all add: toy_run_drivers)
  from health_cycle_reconciles [OF this(1,3,2), of "[]"] show ?thesis
    by (simp add: probed_state_def probed_health_def toy_class_def)
qed

section \<open>Two ways to lose track of a core\<close>

text \<open>
  C34: A restart whose driver raises while stopping leaves the core recorded as stopping: the
  exception reaches the caller, but unlike \<open>_transition\<close> the restart records no error. From
  then on start, stop and restart all refuse the core, and health cycles skip it, whatever the
  driver reports.
\<close>
theorem restart_failed_stop_strands_core:
  assumes "dict_get (drivers m) c = Some drv" "state_of m c = RUNNING"
    "snd (dc_stop (dv_class drv) (dv_state drv)) = Some e"
  defines "m' \<equiv> snd (restart_core c m)"
  shows "fst (restart_core c m) = Inl e \<and> state_of m' c = STOPPING \<and>
     (\<exists>why. start_core c m' = (Inl (CoreStateError why), m')) \<and>
     (\<exists>why. stop_core c m' = (Inl (CoreStateError why), m')) \<and>
     (\<exists>why. restart_core c m' = (Inl (CoreStateError why), m')) \<and>
     health_one c (lh, m') = (lh, m')"
proof -
  obtain d' where d: "dc_stop (dv_class drv) (dv_state drv) = (d', Some e)"
    using assms(3) by (metis prod.collapse)
  have r: "fst (restart_core c m) = Inl e" "dict_get (states m') c = Some STOPPING"
    "dict_get (drivers m') c = Some (drv\<lparr>dv_state := d'\<rparr>)"
    using assms(1,2) by (simp_all add: m'_def restart_core_def get_core_def run_driver_def d set_state_def)
  then have s: "state_of m' c = STOPPING" by (simp add: state_of_def)
  show ?thesis
    using r s by (simp add: start_core_def stop_core_def restart_core_def get_core_def health_one_skip)
qed

theorem restart_failed_stop_strands_core_witness:
  "state_of (snd (restart_core ''bad'' toy_run)) ''bad'' = STOPPING"
proof -
  have "dict_get (drivers toy_run) ''bad'' = Some \<lparr>dv_class = toy_class True [] [''tun''], dv_state = True\<rparr>"
    "state_of toy_run ''bad'' = RUNNING"
    by (simp_all add: toy_run_drivers state_of_def)
  from restart_failed_stop_strands_core [OF this, of "DriverFailure ''stop''"] show ?thesis
    by (simp add: toy_class_def)
qed

text \<open>
  The health cycle holds no lock, so an uninstall can run between its probe and its write-back.
  When it succeeds there, and the probe had found the core live although it was not recorded
  running, the write-back brings the uninstalled core back: the manager does not manage it, yet it
  records a running state and a store row, and the next boot attaches the core again (disabled).
\<close>
lemma health_race_resurrects_core:
  assumes "dict_get (states m) c = Some st" "st \<in> {INSTALLED, STOPPED, ERROR}"
    "health_probe c m = (Some s, m1)" "cs_state s = RUNNING"
    "uninstall_core env c purge force m1 = (Inr (), m2)"
    "dict_ok rows" "dict_get rows = dict_get (core_store (snd (health_reconcile c (Some st) (Some s) lh m2)))"
    "dict_get (registry env) c \<noteq> None"
  defines "m3 \<equiv> snd (health_reconcile c (Some st) (Some s) lh m2)"
  shows "\<not> managed m3 c \<and> dict_get (states m3) c = Some RUNNING \<and>
     dict_get (core_store m3) c = Some \<lparr>row_state = RUNNING, row_enabled = False, row_settings = []\<rparr> \<and>
     managed (boot env (fresh_manager rows)) c \<and> \<not> is_enabled (boot env (fresh_manager rows)) c"
proof -
  have g: "gone c m2" using assms(5) by (rule uninstall_core_gone)
  have m3: "dict_get (drivers m3) c = None" "dict_get (states m3) c = Some RUNNING"
    "dict_get (core_store m3) c = Some \<lparr>row_state = RUNNING, row_enabled = False, row_settings = []\<rparr>"
    using g assms(2,4)
    by (auto simp: m3_def health_reconcile_def Let_def gone_def set_state_def save_state_get is_enabled_def)
  then have "boot_record env rows c = Some (STOPPED, False)"
    using assms(7,8) by (simp add: boot_record_def m3_def boot_state_def)
  then show ?thesis
    using m3 boot_gets(1,3) [OF assms(6), of env c] by (simp add: managed_def is_enabled_def)
qed

definition toy_probed :: "bool manager" where
  "toy_probed = toy_boot\<lparr>drivers := dict_set ''wg'' \<lparr>dv_class = toy_class False [''tun''] [], dv_state = True\<rparr> (drivers toy_boot)\<rparr>"

lemma health_race_resurrects_core_example:
  "let m2 = snd (uninstall_core toy_env ''wg'' False True toy_probed);
       m3 = snd (health_reconcile ''wg'' (Some STOPPED) (Some \<lparr>cs_state = RUNNING, cs_health = HEALTHY\<rparr>) [] m2)
   in \<not> managed m3 ''wg'' \<and> dict_get (states m3) ''wg'' = Some RUNNING"
proof -
  define m2 where "m2 = snd (uninstall_core toy_env ''wg'' False True toy_probed)"
  define m3 where "m3 = snd (health_reconcile ''wg'' (Some STOPPED) (Some \<lparr>cs_state = RUNNING, cs_health = HEALTHY\<rparr>) [] m2)"
  have probe: "health_probe ''wg'' toy_probed = (Some \<lparr>cs_state = RUNNING, cs_health = HEALTHY\<rparr>, toy_probed)"
    by (simp add: health_probe_def toy_probed_def toy_boot_drivers toy_class_def)
  have st: "dict_get (states toy_probed) ''wg'' = Some STOPPED"
    by (simp add: toy_probed_def toy_boot_rest)
  have un: "uninstall_core toy_env ''wg'' False True toy_probed = (Inr (), m2)"
    by (simp add: m2_def uninstall_core_def uninstall_driver_def toy_run_defs toy_probed_def toy_boot_drivers
        toy_boot_rest toy_env_def Let_def)
  have "dict_ok (AList.clearjunk (core_store m3))" "dict_get (AList.clearjunk (core_store m3)) = dict_get (core_store m3)"
    by (simp_all add: distinct_clearjunk map_of_clearjunk)
  from health_race_resurrects_core [OF st _ probe _ un this [unfolded m3_def]] show ?thesis
    by (simp add: Let_def m2_def toy_env_def)
qed

end
