(* ===== verification/Base64.thy ===== *)
theory Base64
  imports PyValue "HOL-Library.Word"
begin

text \<open>
  URL-safe base64 as \<open>app/clientapi/tokens.py\<close> and \<open>app/clientapi/service.py\<close> use it: the encoder
  strips the padding, the decoder puts it back. A byte string is a list of 8-bit words. Decoding
  follows \<open>binascii.a2b_base64\<close> in its default, non-strict mode: characters outside the alphabet
  are skipped, decoding stops at a complete padding, and a leftover group is an error.
\<close>

type_synonym bytes = "8 word list"

definition utf8 :: "string \<Rightarrow> bytes" where
  "utf8 s = map of_char s"

definition b64_alphabet :: string where
  "b64_alphabet = ''ABCDEFGHIJKLMNOPQRSTUVWXYZabcdefghijklmnopqrstuvwxyz0123456789-_''"

definition b64_char :: "nat \<Rightarrow> char" where
  "b64_char n = b64_alphabet ! n"

text \<open>\<open>urlsafe_b64decode\<close> translates \<open>-_\<close> to \<open>+/\<close> first; \<open>+\<close> and \<open>/\<close> themselves stay valid.\<close>

definition b64_index :: "char \<Rightarrow> nat option" where
  "b64_index c =
     (let n = of_char c :: nat
      in if 65 \<le> n \<and> n \<le> 90 then Some (n - 65)
         else if 97 \<le> n \<and> n \<le> 122 then Some (n - 71)
         else if 48 \<le> n \<and> n \<le> 57 then Some (n + 4)
         else if c = CHR ''-'' \<or> c = CHR ''+'' then Some 62
         else if c = CHR ''_'' \<or> c = CHR ''/'' then Some 63
         else None)"

definition b2n :: "8 word \<Rightarrow> nat" where "b2n b = unat b"
definition n2b :: "nat \<Rightarrow> 8 word" where "n2b n = word_of_nat n"

fun b64_groups :: "bytes \<Rightarrow> string" where
  "b64_groups (a # b # c # rest) =
     (let x = b2n a; y = b2n b; z = b2n c
      in [b64_char (x div 4), b64_char (x mod 4 * 16 + y div 16), b64_char (y mod 16 * 4 + z div 64), b64_char (z mod 64)])
       @ b64_groups rest"
| "b64_groups [a, b] =
     (let x = b2n a; y = b2n b
      in [b64_char (x div 4), b64_char (x mod 4 * 16 + y div 16), b64_char (y mod 16 * 4), CHR ''=''])"
| "b64_groups [a] = (let x = b2n a in [b64_char (x div 4), b64_char (x mod 4 * 16), CHR ''='', CHR ''=''])"
| "b64_groups [] = []"

definition rstrip_eq :: "string \<Rightarrow> string" where
  "rstrip_eq s = rev (dropWhile (\<lambda>c. c = CHR ''='') (rev s))"

definition b64e :: "bytes \<Rightarrow> string" where
  "b64e data = rstrip_eq (b64_groups data)"

text \<open>The decoder's loop: the position in the group of four, the bits left over and the paddings seen.\<close>

fun a2b :: "nat \<Rightarrow> nat \<Rightarrow> nat \<Rightarrow> string \<Rightarrow> bytes option" where
  "a2b quad left pads [] = (if quad = 0 then Some [] else None)"
| "a2b quad left pads (c # cs) =
     (if c = CHR ''='' then
        (if quad \<ge> 2 \<and> quad + (pads + 1) \<ge> 4 then Some [] else a2b quad left (if quad \<ge> 2 then pads + 1 else pads) cs)
      else case b64_index c of
        None \<Rightarrow> a2b quad left pads cs
      | Some v \<Rightarrow>
          (if quad = 0 then a2b 1 v 0 cs
           else if quad = 1 then map_option (Cons (n2b (left * 4 + v div 16))) (a2b 2 (v mod 16) 0 cs)
           else if quad = 2 then map_option (Cons (n2b (left * 16 + v div 4))) (a2b 3 (v mod 4) 0 cs)
           else map_option (Cons (n2b (left * 64 + v))) (a2b 0 0 0 cs)))"

definition neg_mod4 :: "nat \<Rightarrow> nat" where
  "neg_mod4 n = nat ((- int n) mod 4)"

definition b64d :: "string \<Rightarrow> bytes option" where
  "b64d s = a2b 0 0 0 (s @ replicate (neg_mod4 (length s)) (CHR ''=''))"

lemma unat_of_char: "unat (of_char c :: 8 word) = of_char c"
proof -
  have "(of_char c :: nat) < 256" by simp
  then have "take_bit 8 (of_char c :: nat) = of_char c" by (simp add: take_bit_eq_mod)
  moreover have "(of_char c :: 8 word) = of_nat (of_char c)" by (simp add: of_nat_of_char)
  ultimately show ?thesis by (simp only: unsigned_of_nat) simp
qed

section \<open>Decoding what was encoded\<close>

lemma b2n_less: "b2n b < 256"
  using unsigned_less [of b] by (simp add: b2n_def)

lemma n2b_b2n [simp]: "n2b (b2n b) = b"
  by (simp add: b2n_def n2b_def)

lemma n2b_eq: "b2n b = n \<Longrightarrow> n2b n = b"
  by auto

lemma b64_alphabet_index: "map b64_index b64_alphabet = map Some [0..<64]"
  by (simp add: b64_alphabet_def b64_index_def upt_rec)

lemma b64_alphabet_no_pad: "CHR ''='' \<notin> set b64_alphabet" "length b64_alphabet = 64"
  by (simp_all add: b64_alphabet_def)

lemma b64_char_simps [simp]:
  assumes "n < 64"
  shows "b64_index (b64_char n) = Some n" "b64_char n \<noteq> CHR ''=''" "CHR ''='' \<noteq> b64_char n"
proof -
  have n: "n < length b64_alphabet" using assms by (simp add: b64_alphabet_no_pad)
  have "map b64_index b64_alphabet ! n = map Some [0..<64] ! n" by (simp only: b64_alphabet_index)
  then show "b64_index (b64_char n) = Some n" using n assms by (simp add: b64_char_def)
  have "b64_char n \<in> set b64_alphabet" using n by (simp add: b64_char_def)
  then show "b64_char n \<noteq> CHR ''=''" "CHR ''='' \<noteq> b64_char n" using b64_alphabet_no_pad(1) by auto
qed

lemma b2n_div: "b2n b div 4 < 64" "b2n b div 16 < 16" "b2n b div 64 < 4"
  using b2n_less [of b] by (simp_all add: less_mult_imp_div_less)

lemma b64_group_bounds [simp]:
  "b2n x div 4 < 64" "b2n x mod 4 * 16 + b2n y div 16 < 64" "b2n x mod 16 * 4 + b2n y div 64 < 64"
  "b2n x mod 64 < 64" "b2n x mod 16 * 4 < 64" "b2n x mod 4 * 16 < 64"
proof -
  have "b2n x mod 4 < 4" "b2n x mod 16 < 16" by simp_all
  then show "b2n x mod 4 * 16 + b2n y div 16 < 64" "b2n x mod 16 * 4 + b2n y div 64 < 64"
    "b2n x mod 16 * 4 < 64" "b2n x mod 4 * 16 < 64" using b2n_div [of y] by linarith+
qed (simp_all add: b2n_div)

lemma b64_group_eqs:
  "b2n a div 4 * 4 + (b2n a mod 4 * 16 + b2n b div 16) div 16 = b2n a"
  "(b2n a mod 4 * 16 + b2n b div 16) mod 16 * 16 + (b2n b mod 16 * 4 + b2n c div 64) div 4 = b2n b"
  "(b2n b mod 16 * 4 + b2n c div 64) mod 4 * 64 + b2n c mod 64 = b2n c"
  "b2n a div 4 * 4 + b2n a mod 4 * 16 div 16 = b2n a"
  "(b2n a mod 4 * 16 + b2n b div 16) mod 16 * 16 + b2n b mod 16 * 4 div 4 = b2n b"
  using b2n_div [of b] b2n_div [of c] by simp_all

lemma a2b_group3:
  "a2b 0 0 0 (b64_char (b2n a div 4) # b64_char (b2n a mod 4 * 16 + b2n b div 16) #
     b64_char (b2n b mod 16 * 4 + b2n c div 64) # b64_char (b2n c mod 64) # rest) =
   map_option (\<lambda>r. a # b # c # r) (a2b 0 0 0 rest)"
  by (cases "a2b 0 0 0 rest") (simp_all only: a2b.simps b64_char_simps b64_group_bounds b64_group_eqs n2b_b2n
      if_False if_True option.case option.map simp_thms zero_neq_one one_neq_zero, simp_all add: b64_group_eqs)

lemma a2b_group2:
  "a2b 0 0 0 (b64_char (b2n a div 4) # b64_char (b2n a mod 4 * 16 + b2n b div 16) # b64_char (b2n b mod 16 * 4) # ''='') = Some [a, b]"
  using b64_group_eqs(1) [of a b] b64_group_eqs(5) [of a b]
  by (simp add: n2b_eq [OF sym] del: div_mult_self3 div_mult_self4 mod_mult_self3 mod_mult_self4)

lemma a2b_group1:
  "a2b 0 0 0 (b64_char (b2n a div 4) # b64_char (b2n a mod 4 * 16) # ''=='') = Some [a]"
  by (simp add: b64_group_eqs)


lemma rstrip_eq_append:
  "\<forall>c \<in> set xs. c \<noteq> CHR ''='' \<Longrightarrow> rstrip_eq (xs @ ys) = xs @ rstrip_eq ys"
proof -
  assume h: "\<forall>c \<in> set xs. c \<noteq> CHR ''=''"
  have id: "dropWhile (\<lambda>c. c = CHR ''='') (rev xs) = rev xs"
    using h by (cases "rev xs") (auto simp: rev_swap)
  show ?thesis
    using h id dropWhile_append3 [of "\<lambda>c. c = CHR ''=''"]
    by (cases "\<forall>c \<in> set ys. c = CHR ''=''")
      (simp_all add: rstrip_eq_def dropWhile_append1 dropWhile_append2 dropWhile_append)
qed

lemma b64e_cons3:
  "b64e (a # b # c # rest) =
     [b64_char (b2n a div 4), b64_char (b2n a mod 4 * 16 + b2n b div 16),
      b64_char (b2n b mod 16 * 4 + b2n c div 64), b64_char (b2n c mod 64)] @ b64e rest"
  by (simp add: b64e_def Let_def rstrip_eq_append [where xs = "[w, x, y, z]" for w x y z, simplified])

lemma b64e_short:
  "b64e [a, b] = [b64_char (b2n a div 4), b64_char (b2n a mod 4 * 16 + b2n b div 16), b64_char (b2n b mod 16 * 4)]"
  "b64e [a] = [b64_char (b2n a div 4), b64_char (b2n a mod 4 * 16)]" "b64e [] = []"
  by (simp_all add: b64e_def Let_def rstrip_eq_def)

lemma neg_mod4_step: "neg_mod4 (Suc (Suc (Suc (Suc n)))) = neg_mod4 n"
proof -
  have "(- int (Suc (Suc (Suc (Suc n))))) mod 4 = (- int n) mod 4" by presburger
  then show ?thesis by (simp only: neg_mod4_def)
qed

lemma b64d_b64e: "b64d (b64e data) = Some data"
proof (induction data rule: b64_groups.induct)
  case (1 a b c rest)
  have "b64d (b64e (a # b # c # rest)) = map_option (\<lambda>r. a # b # c # r) (b64d (b64e rest))"
    by (simp add: b64d_def b64e_cons3 a2b_group3 neg_mod4_step del: a2b.simps)
  then show ?case using 1 by (simp add: Let_def)
next
  case (2 a b)
  show ?case using a2b_group2 [of a b] by (simp add: b64d_def b64e_short neg_mod4_def del: a2b.simps)
next
  case (3 a)
  show ?case using a2b_group1 [of a] by (simp add: b64d_def b64e_short neg_mod4_def numeral_2_eq_2 del: a2b.simps)
next
  case 4
  show ?case by (simp add: b64d_def b64e_short neg_mod4_def)
qed

end
