(* ===== verification/PyTime.thy ===== *)
theory PyTime
  imports PyValue
begin

text \<open>
  The part of Python's \<open>datetime\<close> the modelled code uses: the proleptic Gregorian calendar with the
  ordinal formula of the standard library, weekday, ISO formatting, differences and comparisons of
  naive and aware datetimes. A UTC offset is a number of seconds; \<^term>\<open>None\<close> is a naive value.
\<close>

record datetime =
  dt_year :: int
  dt_month :: int
  dt_day :: int
  dt_hour :: int
  dt_minute :: int
  dt_second :: int
  dt_us :: int
  dt_utcoff :: "int option"

definition is_leap :: "int \<Rightarrow> bool" where
  "is_leap y \<longleftrightarrow> y mod 4 = 0 \<and> (y mod 100 \<noteq> 0 \<or> y mod 400 = 0)"

definition days_in_month :: "int \<Rightarrow> int \<Rightarrow> int" where
  "days_in_month y m = (if m = 2 then (if is_leap y then 29 else 28) else if m \<in> {4, 6, 9, 11} then 30 else 31)"

definition days_before_year :: "int \<Rightarrow> int" where
  "days_before_year y = (let p = y - 1 in p * 365 + p div 4 - p div 100 + p div 400)"

definition days_before_month :: "int \<Rightarrow> int \<Rightarrow> int" where
  "days_before_month y m =
     (let d = [0, 31, 59, 90, 120, 151, 181, 212, 243, 273, 304, 334] ! nat (m - 1)
      in d + (if m > 2 \<and> is_leap y then 1 else 0))"

definition ymd_ord :: "int \<Rightarrow> int \<Rightarrow> int \<Rightarrow> int" where
  "ymd_ord y m d = days_before_year y + days_before_month y m + d"

definition valid_dt :: "datetime \<Rightarrow> bool" where
  "valid_dt t \<longleftrightarrow> 1 \<le> dt_year t \<and> dt_year t \<le> 9999 \<and> 1 \<le> dt_month t \<and> dt_month t \<le> 12 \<and>
     1 \<le> dt_day t \<and> dt_day t \<le> days_in_month (dt_year t) (dt_month t) \<and>
     0 \<le> dt_hour t \<and> dt_hour t < 24 \<and> 0 \<le> dt_minute t \<and> dt_minute t < 60 \<and>
     0 \<le> dt_second t \<and> dt_second t < 60 \<and> 0 \<le> dt_us t \<and> dt_us t < 1000000"

definition dt_ord :: "datetime \<Rightarrow> int" where
  "dt_ord t = ymd_ord (dt_year t) (dt_month t) (dt_day t)"

definition weekday :: "datetime \<Rightarrow> int" where
  "weekday t = (dt_ord t + 6) mod 7"

text \<open>Microseconds on the wall clock, and on the UTC time line for an aware value.\<close>

definition local_us :: "datetime \<Rightarrow> int" where
  "local_us t = (((dt_ord t * 24 + dt_hour t) * 60 + dt_minute t) * 60 + dt_second t) * 1000000 + dt_us t"

definition instant :: "datetime \<Rightarrow> int" where
  "instant t = local_us t - (case dt_utcoff t of None \<Rightarrow> 0 | Some s \<Rightarrow> s * 1000000)"

definition is_naive :: "datetime \<Rightarrow> bool" where
  "is_naive t \<longleftrightarrow> dt_utcoff t = None"

text \<open>Ordering and subtraction raise \<open>TypeError\<close> when a naive value meets an aware one.\<close>

definition dt_diff :: "datetime \<Rightarrow> datetime \<Rightarrow> py_error + int" where
  "dt_diff a b = (if is_naive a \<noteq> is_naive b then Inl TypeError else Inr (instant a - instant b))"

definition dt_ge :: "datetime \<Rightarrow> datetime \<Rightarrow> py_error + bool" where
  "dt_ge a b = (if is_naive a \<noteq> is_naive b then Inl TypeError else Inr (instant b \<le> instant a))"

text \<open>\<open>isoformat()\<close>.\<close>

definition pad :: "nat \<Rightarrow> int \<Rightarrow> string" where
  "pad w n = (let s = int_to_str n in replicate (w - length s) (CHR ''0'') @ s)"

definition iso_offset :: "int option \<Rightarrow> string" where
  "iso_offset off =
     (case off of
        None \<Rightarrow> ''''
      | Some s \<Rightarrow>
          (let a = \<bar>s\<bar>
           in (if s < 0 then ''-'' else ''+'') @ pad 2 (a div 3600) @ '':'' @ pad 2 (a div 60 mod 60) @
              (if a mod 60 = 0 then '''' else '':'' @ pad 2 (a mod 60))))"

definition isoformat :: "datetime \<Rightarrow> string" where
  "isoformat t =
     pad 4 (dt_year t) @ ''-'' @ pad 2 (dt_month t) @ ''-'' @ pad 2 (dt_day t) @ ''T'' @
     pad 2 (dt_hour t) @ '':'' @ pad 2 (dt_minute t) @ '':'' @ pad 2 (dt_second t) @
     (if dt_us t = 0 then '''' else ''.'' @ pad 6 (dt_us t)) @ iso_offset (dt_utcoff t)"

definition as_utc :: "datetime \<Rightarrow> datetime" where
  "as_utc t = (if is_naive t then t\<lparr>dt_utcoff := Some 0\<rparr> else t)"

lemma as_utc_aware [simp]: "\<not> is_naive (as_utc t)"
  by (simp add: as_utc_def is_naive_def)

lemma weekday_range: "0 \<le> weekday t" "weekday t < 7"
  by (simp_all add: weekday_def)

end
