(* ===== verification/ClientApi.thy ===== *)
theory ClientApi
  imports Base64 PyTime
begin

text \<open>
  The client API of the mobile application: signed access tokens (\<open>app/clientapi/tokens.py\<close>), the
  in-memory refresh and connect token stores (\<open>app/clientapi/stores.py\<close>) and the use cases of
  \<open>app/clientapi/service.py\<close>.

  Clocks are read in microseconds: \<open>now\<close> is the injected service clock, \<open>wall\<close> the system clock the
  stores and the token service read. Random secrets and ids are arguments. SHA-256, HMAC, scrypt,
  the JSON codec and the sealing function are parameters, as is the data provider behind the
  service (a record of functions on an abstract provider state).
\<close>

section \<open>Signed access tokens\<close>

datatype client_error =
    ClientApiError string
  | AuthFailedError string
  | UserSuspendedError string
  | RateLimitedError
  | ConnectTokenError string
  | TokenError string
  | Raised py_error

record token_service =
  ts_hmac :: "string \<Rightarrow> bytes"
  ts_ttl_seconds :: int
  json_dumps :: "(string \<times> pyval) list \<Rightarrow> bytes"
  json_loads :: "bytes \<Rightarrow> pyval option"

definition sign_token :: "token_service \<Rightarrow> string \<Rightarrow> string" where
  "sign_token ts signing_input = b64e (ts_hmac ts signing_input)"

definition wall_seconds :: "int \<Rightarrow> int" where
  "wall_seconds wall = wall div 1000000"

definition token_payload :: "string \<Rightarrow> int \<Rightarrow> int \<Rightarrow> string \<Rightarrow> string \<Rightarrow> (string \<times> pyval) list" where
  "token_payload subject iat ttl jti typ =
     [(''sub'', VStr subject), (''iat'', VInt iat), (''exp'', VInt (iat + ttl)), (''jti'', VStr jti), (''typ'', VStr typ)]"

definition issue ::
  "token_service \<Rightarrow> int \<Rightarrow> string \<Rightarrow> string \<Rightarrow> int option \<Rightarrow> string \<Rightarrow> string \<times> int" where
  "issue ts wall jti subject ttl_seconds token_type =
     (let ttl = (case ttl_seconds of None \<Rightarrow> ts_ttl_seconds ts | Some t \<Rightarrow> t);
          now = wall_seconds wall;
          body = b64e (json_dumps ts (token_payload subject now ttl jti token_type));
          signing_input = ''zga.'' @ body
      in (signing_input @ ''.'' @ sign_token ts signing_input, now + ttl))"

definition check_claims :: "int \<Rightarrow> string \<Rightarrow> (string \<times> pyval) list \<Rightarrow> client_error + (string \<times> pyval) list" where
  "check_claims wall expected_type payload =
     (if \<not> py_eq (vget payload ''typ'') (VStr expected_type) then Inl (TokenError ''wrong token type'')
      else case py_int (case dict_get payload ''exp'' of None \<Rightarrow> VInt 0 | Some v \<Rightarrow> v) of
        Inl e \<Rightarrow> Inl (Raised e)
      | Inr ex \<Rightarrow>
          if ex < wall_seconds wall then Inl (TokenError ''token expired'')
          else if \<not> truthy (vget payload ''sub'') \<or> \<not> truthy (vget payload ''jti'') then Inl (TokenError ''missing claims'')
          else Inr payload)"

definition verify_token :: "token_service \<Rightarrow> int \<Rightarrow> string \<Rightarrow> string \<Rightarrow> client_error + (string \<times> pyval) list" where
  "verify_token ts wall token expected_type =
     (case split_on (CHR ''.'') token of
        [prefix, body, sig] \<Rightarrow>
          if prefix \<noteq> ''zga'' then Inl (TokenError ''unknown token prefix'')
          else if sign_token ts (prefix @ ''.'' @ body) \<noteq> sig then Inl (TokenError ''bad signature'')
          else (case Option.bind (b64d body) (json_loads ts) of
                  None \<Rightarrow> Inl (TokenError ''bad payload'')
                | Some (VDict payload) \<Rightarrow> check_claims wall expected_type payload
                | Some v \<Rightarrow> Inl (Raised AttributeError))
      | _ \<Rightarrow> Inl (TokenError ''malformed token''))"

definition verify_access :: "token_service \<Rightarrow> int \<Rightarrow> string \<Rightarrow> client_error + int" where
  "verify_access ts wall token =
     (case verify_token ts wall token ''access'' of
        Inl (TokenError why) \<Rightarrow> Inl (AuthFailedError why)
      | Inl e \<Rightarrow> Inl e
      | Inr payload \<Rightarrow> (case py_int (vget payload ''sub'') of Inl e \<Rightarrow> Inl (Raised e) | Inr n \<Rightarrow> Inr n))"

section \<open>Token stores\<close>

record refresh_row =
  rr_user_id :: int
  rr_token_hash :: string
  rr_expires_at :: int
  rr_revoked :: bool
  rr_rotated_to :: "string option"
  rr_revoked_at :: "int option"

definition refresh_save :: "int \<Rightarrow> string \<Rightarrow> int \<Rightarrow> (string, refresh_row) dict \<Rightarrow> (string, refresh_row) dict" where
  "refresh_save user_id h expires rows =
     dict_set h \<lparr>rr_user_id = user_id, rr_token_hash = h, rr_expires_at = expires, rr_revoked = False,
                rr_rotated_to = None, rr_revoked_at = None\<rparr> rows"

definition refresh_get :: "(string, refresh_row) dict \<Rightarrow> string \<Rightarrow> refresh_row option" where
  "refresh_get rows h = dict_get rows h"

definition refresh_revoke ::
  "int \<Rightarrow> string \<Rightarrow> string option \<Rightarrow> (string, refresh_row) dict \<Rightarrow> (string, refresh_row) dict" where
  "refresh_revoke wall h rotated_to rows =
     (case dict_get rows h of
        None \<Rightarrow> rows
      | Some row \<Rightarrow>
          dict_set h (row\<lparr>rr_revoked := True, rr_rotated_to := rotated_to, rr_revoked_at := Some wall\<rparr>) rows)"

definition refresh_revoke_all :: "int \<Rightarrow> (string, refresh_row) dict \<Rightarrow> (string, refresh_row) dict" where
  "refresh_revoke_all user_id rows =
     map (\<lambda>(h, row). (h, if rr_user_id row = user_id then row\<lparr>rr_revoked := True\<rparr> else row)) rows"

record connect_row =
  cr_user_id :: int
  cr_core_id :: string
  cr_token_hash :: string
  cr_expires_at :: int
  cr_consumed_at :: "int option"

definition consumed :: "connect_row \<Rightarrow> bool" where
  "consumed row \<longleftrightarrow> cr_consumed_at row \<noteq> None"

definition connect_save :: "connect_row \<Rightarrow> (string, connect_row) dict \<Rightarrow> (string, connect_row) dict" where
  "connect_save record rows = dict_set (cr_token_hash record) record rows"

definition connect_get :: "(string, connect_row) dict \<Rightarrow> string \<Rightarrow> connect_row option" where
  "connect_get rows h = dict_get rows h"

definition mark_consumed :: "string \<Rightarrow> int \<Rightarrow> (string, connect_row) dict \<Rightarrow> bool \<times> (string, connect_row) dict" where
  "mark_consumed h moment rows =
     (case dict_get rows h of
        None \<Rightarrow> (False, rows)
      | Some row \<Rightarrow>
          if consumed row then (False, rows)
          else (True, dict_set h (row\<lparr>cr_consumed_at := Some moment\<rparr>) rows))"

section \<open>The service\<close>

record client_config =
  cc_core_id :: string
  cc_protocol :: string
  cc_engine :: string
  cc_display_name :: string
  cc_payload :: pyval

record core_account =
  ca_core_id :: string
  ca_core_name :: string
  ca_protocol :: string
  ca_enabled :: bool
  ca_build :: "pyval \<Rightarrow> client_error + client_config"

record 'p provider =
  get_user_record :: "'p \<Rightarrow> int \<Rightarrow> (string \<times> pyval) list option"
  find_user_by_app_username :: "'p \<Rightarrow> string \<Rightarrow> (string \<times> pyval) list option"
  save_app_credentials :: "int \<Rightarrow> string \<Rightarrow> string \<Rightarrow> 'p \<Rightarrow> 'p"
  get_core_accounts :: "'p \<Rightarrow> int \<Rightarrow> core_account list"
  get_usage :: "'p \<Rightarrow> int \<Rightarrow> int \<times> int option"

record ('p, 'e) client_env =
  provider :: "'p provider"
  tokens :: token_service
  hash_token :: "string \<Rightarrow> string"
  hasher_hash :: "string \<Rightarrow> string"
  hasher_verify :: "string \<Rightarrow> string \<Rightarrow> bool"
  dummy_hash :: string
  refresh_ttl :: int
  connect_ttl :: int
  max_fail :: int
  window :: int
  seal_document :: "pyval \<Rightarrow> bytes \<Rightarrow> 'e"

record 'p client_state =
  prov :: 'p
  refresh_rows :: "(string, refresh_row) dict"
  connect_rows :: "(string, connect_row) dict"
  fail_log :: "(string, int list) dict"
  emitted :: "(string \<times> (string \<times> pyval) list) list"

record auth_tokens =
  at_access :: string
  at_access_exp :: int
  at_refresh :: string
  at_refresh_exp :: int

type_synonym ('p, 'a) api_result = "(client_error + 'a) \<times> 'p client_state"

definition seconds :: "int \<Rightarrow> int" where "seconds s = s * 1000000"

definition ROTATION_GRACE_SECONDS :: int where "ROTATION_GRACE_SECONDS = 120"

definition SUSPENDED_STATUSES :: "string list" where
  "SUSPENDED_STATUSES = [''disabled'', ''expired'', ''limited'']"

definition emit :: "string \<Rightarrow> (string \<times> pyval) list \<Rightarrow> 'p client_state \<Rightarrow> 'p client_state" where
  "emit name data st = st\<lparr>emitted := emitted st @ [(name, data)]\<rparr>"

text \<open>Membership of a value in the status set: an unhashable value raises.\<close>

definition suspended_status :: "pyval \<Rightarrow> client_error + bool" where
  "suspended_status v =
     (case v of
        VStr s \<Rightarrow> Inr (s \<in> set SUSPENDED_STATUSES)
      | VList xs \<Rightarrow> Inl (Raised TypeError)
      | VDict d \<Rightarrow> Inl (Raised TypeError)
      | _ \<Rightarrow> Inr False)"

definition issue_app_credentials ::
  "('p, 'e) client_env \<Rightarrow> int \<Rightarrow> string \<Rightarrow> string \<Rightarrow> 'p client_state \<Rightarrow> ('p, string \<times> string) api_result" where
  "issue_app_credentials env user_id rnd_name rnd_password st =
     (case get_user_record (provider env) (prov st) user_id of
        None \<Rightarrow> (Inl (ClientApiError ''user not found''), st)
      | Some user \<Rightarrow>
          (let app_username = ''u'' @ int_to_str user_id @ ''.'' @ py_lower rnd_name
           in (Inr (app_username, rnd_password),
               emit ''credentials.issued'' [(''user_id'', VInt user_id)]
                 (st\<lparr>prov := save_app_credentials (provider env) user_id app_username
                               (hasher_hash env rnd_password) (prov st),
                    refresh_rows := refresh_revoke_all user_id (refresh_rows st)\<rparr>))))"

definition check_rate_limit :: "('p, 'e) client_env \<Rightarrow> int \<Rightarrow> string \<Rightarrow> 'p client_state \<Rightarrow> ('p, unit) api_result" where
  "check_rate_limit env now key st =
     (let win = filter (\<lambda>t. now - t < seconds (window env))
                  (case dict_get (fail_log st) key of None \<Rightarrow> [] | Some ts \<Rightarrow> ts);
          st' = st\<lparr>fail_log := dict_set key win (fail_log st)\<rparr>
      in if int (length win) \<ge> max_fail env then (Inl RateLimitedError, st') else (Inr (), st'))"

definition record_failure :: "int \<Rightarrow> string \<Rightarrow> 'p client_state \<Rightarrow> 'p client_state" where
  "record_failure now key st =
     st\<lparr>fail_log := dict_set key ((case dict_get (fail_log st) key of None \<Rightarrow> [] | Some ts \<Rightarrow> ts) @ [now]) (fail_log st)\<rparr>"

definition issue_tokens ::
  "('p, 'e) client_env \<Rightarrow> int \<Rightarrow> int \<Rightarrow> string \<Rightarrow> string \<Rightarrow> int \<Rightarrow> 'p client_state \<Rightarrow> auth_tokens \<times> 'p client_state" where
  "issue_tokens env now wall jti secret user_id st =
     (let (access, access_exp) =
            issue (tokens env) wall jti (int_to_str user_id) (Some (ts_ttl_seconds (tokens env))) ''access'';
          refresh_exp = now + seconds (refresh_ttl env)
      in (\<lparr>at_access = access, at_access_exp = seconds access_exp, at_refresh = secret, at_refresh_exp = refresh_exp\<rparr>,
          st\<lparr>refresh_rows := refresh_save user_id (hash_token env secret) refresh_exp (refresh_rows st)\<rparr>))"

definition auth_failure :: "int \<Rightarrow> string \<Rightarrow> 'p client_state \<Rightarrow> ('p, 'a) api_result" where
  "auth_failure now app_username st =
     (Inl (AuthFailedError ''invalid username or password''),
      emit ''auth.failure'' [(''app_username'', VStr app_username)] (record_failure now app_username st))"

definition authenticate ::
  "('p, 'e) client_env \<Rightarrow> int \<Rightarrow> int \<Rightarrow> string \<Rightarrow> string \<Rightarrow> string \<Rightarrow> string \<Rightarrow> 'p client_state \<Rightarrow> ('p, auth_tokens) api_result" where
  "authenticate env now wall jti secret app_username password st =
     (case check_rate_limit env now app_username st of
        (Inl e, st1) \<Rightarrow> (Inl e, st1)
      | (Inr u, st1) \<Rightarrow>
          (let user = find_user_by_app_username (provider env) (prov st1) app_username;
               stored = py_or (vget (case user of None \<Rightarrow> [] | Some d \<Rightarrow> d) ''app_password_hash'') (VStr (dummy_hash env))
           in case (stored, user) of
                (VStr h, Some d) \<Rightarrow>
                  if \<not> hasher_verify env password h then auth_failure now app_username st1
                  else
                    (case suspended_status (vget d ''status'') of
                       Inl e \<Rightarrow> (Inl e, st1)
                     | Inr True \<Rightarrow>
                         (case dict_get d ''id'' of
                            None \<Rightarrow> (Inl (Raised KeyError), st1)
                          | Some i \<Rightarrow>
                              (Inl (UserSuspendedError ''subscription''),
                               emit ''auth.rejected'' [(''user_id'', i), (''status'', vget d ''status'')] st1))
                     | Inr False \<Rightarrow>
                         (case dict_get d ''id'' of
                            None \<Rightarrow> (Inl (Raised KeyError), st1)
                          | Some i \<Rightarrow>
                              (case py_int i of
                                 Inl e \<Rightarrow> (Inl (Raised e), emit ''auth.success'' [(''user_id'', i)] st1)
                               | Inr n \<Rightarrow>
                                   (case issue_tokens env now wall jti secret n (emit ''auth.success'' [(''user_id'', i)] st1) of
                                      (t, st2) \<Rightarrow> (Inr t, st2)))))
              | (VStr h, None) \<Rightarrow> auth_failure now app_username st1
              | _ \<Rightarrow> (Inl (Raised AttributeError), st1)))"

text \<open>The two accepting paths of \<open>refresh\<close>: the grace retry and the normal rotation.\<close>

definition refresh_grace ::
  "('p, 'e) client_env \<Rightarrow> int \<Rightarrow> int \<Rightarrow> string \<Rightarrow> string \<Rightarrow> refresh_row \<Rightarrow> 'p client_state \<Rightarrow> ('p, auth_tokens) api_result" where
  "refresh_grace env now wall jti secret row st =
     (case (rr_rotated_to row, rr_revoked_at row) of
        (Some succ_hash, Some when) \<Rightarrow>
          if succ_hash = [] \<or> now > when + seconds ROTATION_GRACE_SECONDS then (Inl (AuthFailedError ''refresh token invalid''), st)
          else (case refresh_get (refresh_rows st) succ_hash of
                  None \<Rightarrow> (Inl (AuthFailedError ''refresh token invalid''), st)
                | Some successor \<Rightarrow>
                    if rr_revoked successor then (Inl (AuthFailedError ''refresh token invalid''), st)
                    else (case issue_tokens env now wall jti secret (rr_user_id row) st of (t, st1) \<Rightarrow>
                            (Inr t, emit ''token.rotated'' [(''user_id'', VInt (rr_user_id row))]
                               (st1\<lparr>refresh_rows :=
                                  refresh_revoke wall (rr_token_hash successor) None (refresh_rows st1)\<rparr>))))
      | _ \<Rightarrow> (Inl (AuthFailedError ''refresh token invalid''), st))"

definition refresh_rotate ::
  "('p, 'e) client_env \<Rightarrow> int \<Rightarrow> int \<Rightarrow> string \<Rightarrow> string \<Rightarrow> refresh_row \<Rightarrow> 'p client_state \<Rightarrow> ('p, auth_tokens) api_result" where
  "refresh_rotate env now wall jti secret row st =
     (case issue_tokens env now wall jti secret (rr_user_id row) st of (t, st1) \<Rightarrow>
        (Inr t, emit ''token.rotated'' [(''user_id'', VInt (rr_user_id row))]
           (st1\<lparr>refresh_rows :=
              refresh_revoke wall (rr_token_hash row) (Some (hash_token env (at_refresh t))) (refresh_rows st1)\<rparr>)))"

definition refresh ::
  "('p, 'e) client_env \<Rightarrow> int \<Rightarrow> int \<Rightarrow> string \<Rightarrow> string \<Rightarrow> string \<Rightarrow> 'p client_state \<Rightarrow> ('p, auth_tokens) api_result" where
  "refresh env now wall jti secret refresh_token st =
     (case refresh_get (refresh_rows st) (hash_token env refresh_token) of
        None \<Rightarrow> (Inl (AuthFailedError ''refresh token invalid''), st)
      | Some row \<Rightarrow>
          if rr_expires_at row < now then (Inl (AuthFailedError ''refresh token invalid''), st)
          else if rr_revoked row then refresh_grace env now wall jti secret row st
          else refresh_rotate env now wall jti secret row st)"

definition logout :: "('p, 'e) client_env \<Rightarrow> int \<Rightarrow> string \<Rightarrow> 'p client_state \<Rightarrow> 'p client_state" where
  "logout env wall refresh_token st =
     emit ''auth.logout'' []
       (st\<lparr>refresh_rows := refresh_revoke wall (hash_token env refresh_token) None (refresh_rows st)\<rparr>)"

definition refresh_owner :: "('p, 'e) client_env \<Rightarrow> int \<Rightarrow> string \<Rightarrow> 'p client_state \<Rightarrow> int option" where
  "refresh_owner env now refresh_token st =
     (case refresh_get (refresh_rows st) (hash_token env refresh_token) of
        None \<Rightarrow> None
      | Some row \<Rightarrow> if rr_revoked row \<or> rr_expires_at row < now then None else Some (rr_user_id row))"

definition connect_owner :: "('p, 'e) client_env \<Rightarrow> int \<Rightarrow> string \<Rightarrow> 'p client_state \<Rightarrow> int option" where
  "connect_owner env now connect_token st =
     (case connect_get (connect_rows st) (hash_token env connect_token) of
        None \<Rightarrow> None
      | Some row \<Rightarrow> if consumed row \<or> cr_expires_at row < now then None else Some (cr_user_id row))"


section \<open>Profile\<close>

record core_view =
  cv_core_id :: string
  cv_protocol :: string
  cv_engine :: string
  cv_display_name :: string
  cv_status :: string

text \<open>The source applies \<open>str()\<close> to the user name and the status; they are kept as the provider's values.\<close>

record client_profile =
  cp_user_id :: int
  cp_username :: pyval
  cp_status :: pyval
  cp_online :: bool
  cp_used_bytes :: int
  cp_data_limit_bytes :: "int option"
  cp_expire_at :: pyval
  cp_cores :: "core_view list"

definition remaining_bytes :: "client_profile \<Rightarrow> int option" where
  "remaining_bytes p = map_option (\<lambda>l. max 0 (l - cp_used_bytes p)) (cp_data_limit_bytes p)"

text \<open>\<open>d.get(k, default)\<close>.\<close>

definition vget_default :: "(string \<times> pyval) list \<Rightarrow> string \<Rightarrow> pyval \<Rightarrow> pyval" where
  "vget_default d k v = (case dict_get d k of None \<Rightarrow> v | Some x \<Rightarrow> x)"

text \<open>The view of one core: it never carries the payload of the built configuration.\<close>

definition core_public_view :: "core_account \<Rightarrow> core_view" where
  "core_public_view a =
     (let display = ca_protocol a @ [CHR 0x20, CHR 0xB7, CHR 0x20] @ ca_core_name a
      in case ca_build a VNone of
           Inl e \<Rightarrow> \<lparr>cv_core_id = ca_core_id a, cv_protocol = ca_protocol a, cv_engine = [],
                    cv_display_name = display, cv_status = ''unavailable''\<rparr>
         | Inr c \<Rightarrow> \<lparr>cv_core_id = ca_core_id a, cv_protocol = ca_protocol a, cv_engine = cc_engine c,
                    cv_display_name = (if cc_display_name c = [] then display else cc_display_name c),
                    cv_status = (if ca_enabled a then ''active'' else ''suspended'')\<rparr>)"

definition get_profile :: "('p, 'e) client_env \<Rightarrow> int \<Rightarrow> 'p client_state \<Rightarrow> client_error + client_profile" where
  "get_profile env user_id st =
     (case get_user_record (provider env) (prov st) user_id of
        None \<Rightarrow> Inl (ClientApiError ''user not found'')
      | Some user \<Rightarrow>
          (case get_usage (provider env) (prov st) user_id of (used, limit) \<Rightarrow>
             Inr \<lparr>cp_user_id = user_id, cp_username = vget_default user ''username'' (VStr []),
                  cp_status = vget_default user ''status'' (VStr ''active''),
                  cp_online = truthy (vget_default user ''online'' (VBool False)),
                  cp_used_bytes = used, cp_data_limit_bytes = limit, cp_expire_at = vget user ''expire_at'',
                  cp_cores = map core_public_view (get_core_accounts (provider env) (prov st) user_id)\<rparr>))"

section \<open>Connecting\<close>

record connect_offer =
  co_token :: string
  co_expires_at :: int
  co_ttl_seconds :: int

text \<open>A dictionary comprehension over the accounts: the last account of a core wins.\<close>

definition accounts_by_core :: "core_account list \<Rightarrow> (string, core_account) dict" where
  "accounts_by_core accounts = fold (\<lambda>a. dict_set (ca_core_id a) a) accounts []"

definition request_connect ::
  "('p, 'e) client_env \<Rightarrow> int \<Rightarrow> string \<Rightarrow> int \<Rightarrow> string \<Rightarrow> 'p client_state \<Rightarrow> ('p, connect_offer) api_result" where
  "request_connect env now token user_id core_id st =
     (case get_user_record (provider env) (prov st) user_id of
        None \<Rightarrow> (Inl (ClientApiError ''user not found''), st)
      | Some user \<Rightarrow>
          (case suspended_status (vget user ''status'') of
             Inl e \<Rightarrow> (Inl e, st)
           | Inr True \<Rightarrow> (Inl (UserSuspendedError ''subscription''), st)
           | Inr False \<Rightarrow>
               (let accounts = accounts_by_core (get_core_accounts (provider env) (prov st) user_id);
                    expires = now + seconds (connect_ttl env)
                in if \<not> dict_in core_id accounts then (Inl (ClientApiError ''core not available''), st)
                   else (Inr \<lparr>co_token = token, co_expires_at = expires, co_ttl_seconds = connect_ttl env\<rparr>,
                         emit ''connect.issued'' [(''user_id'', VInt user_id), (''core_id'', VStr core_id)]
                           (st\<lparr>connect_rows := connect_save
                                \<lparr>cr_user_id = user_id, cr_core_id = core_id, cr_token_hash = hash_token env token,
                                 cr_expires_at = expires, cr_consumed_at = None\<rparr> (connect_rows st)\<rparr>)))))"

definition X25519_KEY_SIZE :: nat where "X25519_KEY_SIZE = 32"

definition config_document :: "pyval \<Rightarrow> client_config \<Rightarrow> pyval" where
  "config_document issued_at c =
     VDict [(''v'', VInt 1), (''issued_at'', issued_at),
       (''config'', VDict [(''core_id'', VStr (cc_core_id c)), (''protocol'', VStr (cc_protocol c)),
          (''engine'', VStr (cc_engine c)), (''display_name'', VStr (cc_display_name c)), (''payload'', cc_payload c)])]"

text \<open>What follows a consumed token: the key is decoded, the configuration built and sealed.\<close>

definition deliver_consumed ::
  "('p, 'e) client_env \<Rightarrow> pyval \<Rightarrow> string \<Rightarrow> pyval \<Rightarrow> connect_row \<Rightarrow> 'p client_state \<Rightarrow> ('p, 'e) api_result" where
  "deliver_consumed env issued_at key_b64 ctx record st =
     (case b64d key_b64 of
        None \<Rightarrow> (Inl (ConnectTokenError ''bad client key''), st)
      | Some key \<Rightarrow>
          if length key \<noteq> X25519_KEY_SIZE then (Inl (ConnectTokenError ''bad client key''), st)
          else (case dict_get (accounts_by_core (get_core_accounts (provider env) (prov st) (cr_user_id record)))
                       (cr_core_id record) of
                  None \<Rightarrow> (Inl (ClientApiError ''core not available''), st)
                | Some account \<Rightarrow>
                    (case ca_build account ctx of
                       Inl e \<Rightarrow> (Inl e, st)
                     | Inr config \<Rightarrow>
                         (Inr (seal_document env (config_document issued_at config) key),
                          emit ''config.delivered''
                            [(''user_id'', VInt (cr_user_id record)), (''core_id'', VStr (cr_core_id record))] st))))"

definition deliver_config ::
  "('p, 'e) client_env \<Rightarrow> int \<Rightarrow> pyval \<Rightarrow> string \<Rightarrow> string \<Rightarrow> pyval \<Rightarrow> 'p client_state \<Rightarrow> ('p, 'e) api_result" where
  "deliver_config env now issued_at connect_token key_b64 ctx st =
     (let token_hash = hash_token env connect_token
      in case connect_get (connect_rows st) token_hash of
           None \<Rightarrow> (Inl (ConnectTokenError ''connect token invalid''), st)
         | Some record \<Rightarrow>
             if cr_expires_at record < now \<or> consumed record
             then (Inl (ConnectTokenError ''connect token invalid''), st)
             else (case mark_consumed token_hash now (connect_rows st) of
                     (False, rows) \<Rightarrow> (Inl (ConnectTokenError ''connect token invalid''), st\<lparr>connect_rows := rows\<rparr>)
                   | (True, rows) \<Rightarrow>
                       deliver_consumed env issued_at key_b64 ctx record (st\<lparr>connect_rows := rows\<rparr>)))"

end
