(* ===== verification/ClientApiProps.thy ===== *)
theory ClientApiProps
  imports ClientApi
begin

text \<open>
  Properties of the client API: refresh-token rotation with its one-shot grace, final logout and
  credential rotation, one-time connect tokens, the login rate limit, and the round trip of signed
  access tokens. Steps of the service run one after the other, with fresh random secrets.
\<close>

section \<open>Steps of the service\<close>

definition fresh_refresh :: "('p, 'e) client_env \<Rightarrow> string \<Rightarrow> 'p client_state \<Rightarrow> bool" where
  "fresh_refresh env secret st \<longleftrightarrow> dict_get (refresh_rows st) (hash_token env secret) = None"

definition fresh_connect :: "('p, 'e) client_env \<Rightarrow> string \<Rightarrow> 'p client_state \<Rightarrow> bool" where
  "fresh_connect env token st \<longleftrightarrow> dict_get (connect_rows st) (hash_token env token) = None"

inductive api_step :: "('p, 'e) client_env \<Rightarrow> 'p client_state \<Rightarrow> 'p client_state \<Rightarrow> bool" for env where
  step_credentials: "api_step env st (snd (issue_app_credentials env user_id a b st))"
| step_login: "fresh_refresh env secret st \<Longrightarrow> api_step env st (snd (authenticate env now wall jti secret user pw st))"
| step_refresh: "fresh_refresh env secret st \<Longrightarrow> api_step env st (snd (refresh env now wall jti secret tok st))"
| step_logout: "api_step env st (logout env wall tok st)"
| step_connect: "fresh_connect env token st \<Longrightarrow> api_step env st (snd (request_connect env now token user_id core_id st))"
| step_deliver: "api_step env st (snd (deliver_config env now issued_at tok key ctx st))"

inductive api_steps :: "('p, 'e) client_env \<Rightarrow> 'p client_state \<Rightarrow> 'p client_state \<Rightarrow> bool" for env where
  steps_refl: "api_steps env st st"
| steps_step: "api_steps env st st' \<Longrightarrow> api_step env st' st'' \<Longrightarrow> api_steps env st st''"

section \<open>Rows of the refresh store\<close>

lemma refresh_save_get:
  "dict_get (refresh_save u h e rows) h' =
     (if h' = h then Some \<lparr>rr_user_id = u, rr_token_hash = h, rr_expires_at = e, rr_revoked = False,
        rr_rotated_to = None, rr_revoked_at = None\<rparr> else dict_get rows h')"
  by (simp add: refresh_save_def)

lemma refresh_revoke_get:
  "dict_get (refresh_revoke wall h to rows) h' =
     (if h' = h then map_option (\<lambda>row. row\<lparr>rr_revoked := True, rr_rotated_to := to, rr_revoked_at := Some wall\<rparr>) (dict_get rows h)
      else dict_get rows h')"
  by (simp add: refresh_revoke_def split: option.splits)

lemma refresh_revoke_all_get:
  "dict_get (refresh_revoke_all u rows) h =
     map_option (\<lambda>row. if rr_user_id row = u then row\<lparr>rr_revoked := True\<rparr> else row) (dict_get rows h)"
  by (simp add: refresh_revoke_all_def map_of_map_snd)

lemmas rows_get = refresh_save_get refresh_revoke_get refresh_revoke_all_get

text \<open>
  What each operation may do to the refresh rows: nothing, one new row, a login's row, a rotation
  (new row, then the presented row revoked with a link), a grace retry (new row, then the successor
  revoked), a logout, or the revocation of all rows of a user.
\<close>

datatype row_change =
    NoChange
  | NewRow int string int
  | Rotation int string string int int
  | Revoke string int
  | Grace int string string int int
  | RevokeAll int

fun apply_change :: "row_change \<Rightarrow> (string, refresh_row) dict \<Rightarrow> (string, refresh_row) dict" where
  "apply_change NoChange rows = rows"
| "apply_change (NewRow u h e) rows = refresh_save u h e rows"
| "apply_change (Rotation u old new e wall) rows = refresh_revoke wall old (Some new) (refresh_save u new e rows)"
| "apply_change (Grace u succ new e wall) rows = refresh_revoke wall succ None (refresh_save u new e rows)"
| "apply_change (Revoke h wall) rows = refresh_revoke wall h None rows"
| "apply_change (RevokeAll u) rows = refresh_revoke_all u rows"

fun change_ok :: "row_change \<Rightarrow> (string, refresh_row) dict \<Rightarrow> bool" where
  "change_ok (NewRow u h e) rows = (dict_get rows h = None)"
| "change_ok (Rotation u old new e wall) rows =
     (dict_get rows new = None \<and> (\<exists>row. dict_get rows old = Some row \<and> \<not> rr_revoked row \<and> rr_user_id row = u))"
| "change_ok (Grace u succ new e wall) rows = (dict_get rows new = None)"
| "change_ok _ rows = True"

definition rows_ok :: "(string, refresh_row) dict \<Rightarrow> bool" where
  "rows_ok rows \<longleftrightarrow>
     (\<forall>h row. dict_get rows h = Some row \<longrightarrow> rr_token_hash row = h) \<and>
     (\<forall>h row h'. dict_get rows h = Some row \<longrightarrow> rr_rotated_to row = Some h' \<longrightarrow>
        (\<exists>row'. dict_get rows h' = Some row' \<and> rr_user_id row' = rr_user_id row))"

lemma rows_okD: "rows_ok rows \<Longrightarrow> dict_get rows h = Some row \<Longrightarrow> rr_token_hash row = h"
  by (simp add: rows_ok_def)

lemma change_keeps_user:
  assumes "dict_get rows h = Some r" "change_ok ch rows"
  shows "\<exists>r'. dict_get (apply_change ch rows) h = Some r' \<and> rr_user_id r' = rr_user_id r"
  using assms by (cases ch) (auto simp: rows_get)

lemma change_links:
  assumes "dict_get (apply_change ch rows) h = Some r" "rr_rotated_to r = Some h'" "change_ok ch rows"
  shows "(\<exists>r0. dict_get rows h = Some r0 \<and> rr_rotated_to r0 = Some h' \<and> rr_user_id r0 = rr_user_id r) \<or>
     (\<exists>r'. dict_get (apply_change ch rows) h' = Some r' \<and> rr_user_id r' = rr_user_id r)"
  using assms
proof (cases ch)
  case (Rotation u old new e wall)
  then obtain row where row: "dict_get rows old = Some row" "rr_user_id row = u" "dict_get rows new = None"
    using assms(3) by auto
  then have "old \<noteq> new" by auto
  then show ?thesis using assms(1,2) row by (cases "h = old"; cases "h = new") (auto simp: Rotation rows_get)
qed (auto simp: rows_get split: if_splits)

lemma rows_ok_change:
  assumes ok: "rows_ok rows" and ch: "change_ok ch rows"
  shows "rows_ok (apply_change ch rows)"
  unfolding rows_ok_def
proof (intro conjI allI impI)
  fix h row
  assume "dict_get (apply_change ch rows) h = Some row"
  then show "rr_token_hash row = h"
    using ok by (cases ch) (auto simp: rows_get rows_ok_def split: if_splits)
next
  fix h row h'
  assume a: "dict_get (apply_change ch rows) h = Some row" "rr_rotated_to row = Some h'"
  from change_links [OF a ch] show "\<exists>row'. dict_get (apply_change ch rows) h' = Some row' \<and> rr_user_id row' = rr_user_id row"
  proof (elim disjE exE conjE)
    fix r0
    assume r0: "dict_get rows h = Some r0" "rr_rotated_to r0 = Some h'" "rr_user_id r0 = rr_user_id row"
    with ok obtain r1 where "dict_get rows h' = Some r1" "rr_user_id r1 = rr_user_id r0"
      unfolding rows_ok_def by blast
    with change_keeps_user [OF _ ch, of h' r1] r0(3) show ?thesis by auto
  qed blast
qed

section \<open>Spent tokens\<close>

text \<open>A token is spent when its row is revoked and leads to no live successor.\<close>

definition spent :: "(string, refresh_row) dict \<Rightarrow> string \<Rightarrow> bool" where
  "spent rows h \<longleftrightarrow> (\<exists>row. dict_get rows h = Some row \<and> rr_revoked row \<and>
     (\<forall>h'. rr_rotated_to row = Some h' \<longrightarrow> (\<exists>row'. dict_get rows h' = Some row' \<and> rr_revoked row')))"

definition revoked_in :: "(string, refresh_row) dict \<Rightarrow> string \<Rightarrow> bool" where
  "revoked_in rows h \<longleftrightarrow> (\<exists>row. dict_get rows h = Some row \<and> rr_revoked row)"

lemma spent_alt:
  "spent rows h \<longleftrightarrow> (\<exists>row. dict_get rows h = Some row \<and> rr_revoked row \<and>
     (\<forall>h'. rr_rotated_to row = Some h' \<longrightarrow> revoked_in rows h'))"
  by (simp add: spent_def revoked_in_def)

text \<open>A change leaves the link of a revoked row alone or clears it.\<close>

lemma revoked_link:
  assumes "dict_get rows h = Some row" "rr_revoked row" "change_ok ch rows"
  shows "\<exists>row'. dict_get (apply_change ch rows) h = Some row' \<and> rr_revoked row' \<and>
     (rr_rotated_to row' = rr_rotated_to row \<or> rr_rotated_to row' = None)"
  using assms by (cases ch) (auto simp: rows_get)

lemma revoked_stays: "revoked_in rows h \<Longrightarrow> change_ok ch rows \<Longrightarrow> revoked_in (apply_change ch rows) h"
  unfolding revoked_in_def using revoked_link by blast

lemma spent_stays:
  assumes "spent rows h" "change_ok ch rows"
  shows "spent (apply_change ch rows) h"
proof -
  obtain row where row: "dict_get rows h = Some row" "rr_revoked row"
    "\<And>h'. rr_rotated_to row = Some h' \<Longrightarrow> revoked_in rows h'"
    using assms(1) by (auto simp: spent_alt)
  from revoked_link [OF row(1,2) assms(2)] obtain row' where
    "dict_get (apply_change ch rows) h = Some row'" "rr_revoked row'"
    "rr_rotated_to row' = rr_rotated_to row \<or> rr_rotated_to row' = None" by auto
  then show ?thesis using row(3) revoked_stays [OF _ assms(2)] by (fastforce simp: spent_alt)
qed

lemma spent_refused:
  assumes "spent (refresh_rows st) (hash_token env tok)"
  shows "refresh env now wall jti secret tok st = (Inl (AuthFailedError ''refresh token invalid''), st)"
proof -
  obtain row where row: "dict_get (refresh_rows st) (hash_token env tok) = Some row" "rr_revoked row"
    "\<And>h'. rr_rotated_to row = Some h' \<Longrightarrow> (\<exists>row'. dict_get (refresh_rows st) h' = Some row' \<and> rr_revoked row')"
    using assms by (auto simp: spent_def)
  show ?thesis
  proof (cases "rr_rotated_to row")
    case None
    then show ?thesis using row(1,2) by (simp add: refresh_def refresh_grace_def refresh_get_def)
  next
    case (Some h')
    with row(3) obtain row' where "dict_get (refresh_rows st) h' = Some row'" "rr_revoked row'" by auto
    then show ?thesis using row(1,2) Some
      by (simp add: refresh_def refresh_grace_def refresh_get_def split: option.splits)
  qed
qed


section \<open>Every step is one change of the rows\<close>

definition is_change :: "(string, refresh_row) dict \<Rightarrow> (string, refresh_row) dict \<Rightarrow> bool" where
  "is_change rows rows' \<longleftrightarrow> (\<exists>ch. change_ok ch rows \<and> rows' = apply_change ch rows)"

lemma is_change_intros:
  "is_change rows rows"
  "dict_get rows h = None \<Longrightarrow> is_change rows (refresh_save u h e rows)"
  "is_change rows (refresh_revoke wall h None rows)"
  "is_change rows (refresh_revoke_all u rows)"
  "dict_get rows new = None \<Longrightarrow> is_change rows (refresh_revoke wall succ None (refresh_save u new e rows))"
  "dict_get rows new = None \<Longrightarrow> dict_get rows old = Some row \<Longrightarrow> \<not> rr_revoked row \<Longrightarrow>
     is_change rows (refresh_revoke wall old (Some new) (refresh_save (rr_user_id row) new e rows))"
  unfolding is_change_def
  by (rule exI [of _ NoChange], simp, rule exI [of _ "NewRow u h e"], simp, rule exI [of _ "Revoke h wall"], simp,
      rule exI [of _ "RevokeAll u"], simp, rule exI [of _ "Grace u succ new e wall"], simp,
      rule exI [of _ "Rotation (rr_user_id row) old new e wall"], simp)

lemma emit_frame [simp]:
  "refresh_rows (emit n d st) = refresh_rows st" "connect_rows (emit n d st) = connect_rows st"
  "fail_log (emit n d st) = fail_log st" "prov (emit n d st) = prov st"
  by (simp_all add: emit_def)

lemma issue_tokens_rows [simp]:
  "refresh_rows (snd (issue_tokens env now wall jti secret u st)) =
     refresh_save u (hash_token env secret) (now + seconds (refresh_ttl env)) (refresh_rows st)"
  "at_refresh (fst (issue_tokens env now wall jti secret u st)) = secret"
  "connect_rows (snd (issue_tokens env now wall jti secret u st)) = connect_rows st"
  by (simp_all add: issue_tokens_def Let_def split: prod.splits)

lemma check_rate_limit_frame [simp]:
  "refresh_rows (snd (check_rate_limit env now key st)) = refresh_rows st"
  "connect_rows (snd (check_rate_limit env now key st)) = connect_rows st"
  by (simp_all add: check_rate_limit_def Let_def)

lemma record_failure_frame [simp]:
  "refresh_rows (record_failure now key st) = refresh_rows st"
  "connect_rows (record_failure now key st) = connect_rows st"
  by (simp_all add: record_failure_def)

text \<open>A login either leaves the rows alone or adds the row of the new refresh token.\<close>

lemma authenticate_rows:
  "refresh_rows (snd (authenticate env now wall jti secret user pw st)) = refresh_rows st \<or>
   (\<exists>u. refresh_rows (snd (authenticate env now wall jti secret user pw st)) =
      refresh_save u (hash_token env secret) (now + seconds (refresh_ttl env)) (refresh_rows st))"
  "connect_rows (snd (authenticate env now wall jti secret user pw st)) = connect_rows st"
proof -
  obtain r st1 where c: "check_rate_limit env now user st = (r, st1)" by fastforce
  have st1: "refresh_rows st1 = refresh_rows st" "connect_rows st1 = connect_rows st"
    using check_rate_limit_frame [of env now user st] by (simp_all add: c)
  show "refresh_rows (snd (authenticate env now wall jti secret user pw st)) = refresh_rows st \<or>
   (\<exists>u. refresh_rows (snd (authenticate env now wall jti secret user pw st)) =
      refresh_save u (hash_token env secret) (now + seconds (refresh_ttl env)) (refresh_rows st))"
    by (auto simp: authenticate_def c Let_def auth_failure_def st1 split_beta
        split: sum.splits option.splits pyval.splits bool.splits)
  show "connect_rows (snd (authenticate env now wall jti secret user pw st)) = connect_rows st"
    by (simp add: authenticate_def c Let_def auth_failure_def st1 split_beta
        split: sum.splits option.splits pyval.splits bool.splits)
qed

lemma authenticate_change:
  "fresh_refresh env secret st \<Longrightarrow>
     is_change (refresh_rows st) (refresh_rows (snd (authenticate env now wall jti secret user pw st)))"
  using authenticate_rows(1) [of env now wall jti secret user pw st]
  by (auto simp: fresh_refresh_def intro: is_change_intros)

lemma refresh_change:
  assumes "fresh_refresh env secret st" "rows_ok (refresh_rows st)"
  shows "is_change (refresh_rows st) (refresh_rows (snd (refresh env now wall jti secret tok st)))"
  using assms
  by (auto simp: fresh_refresh_def refresh_def refresh_get_def refresh_grace_def refresh_rotate_def rows_okD split_beta
      split: option.splits intro: is_change_intros)

lemma connect_frame:
  "refresh_rows (snd (request_connect env now token u c st)) = refresh_rows st"
  "refresh_rows (snd (deliver_config env now ia tok key ctx st)) = refresh_rows st"
  by (simp_all add: request_connect_def deliver_config_def deliver_consumed_def Let_def split_beta
      split: sum.splits option.splits bool.splits)

lemma api_step_change:
  assumes "api_step env st st'" "rows_ok (refresh_rows st)"
  shows "is_change (refresh_rows st) (refresh_rows st')"
  using assms
proof (induction rule: api_step.induct)
  case (step_credentials st user_id a b)
  then show ?case by (auto simp: issue_app_credentials_def Let_def intro: is_change_intros split: option.splits)
next
  case (step_login secret st now wall jti user pw)
  then show ?case by (intro authenticate_change)
next
  case (step_refresh secret st now wall jti tok)
  then show ?case by (intro refresh_change)
qed (auto simp: logout_def connect_frame intro: is_change_intros)

lemma api_steps_rows:
  "api_steps env st st' \<Longrightarrow> rows_ok (refresh_rows st) \<Longrightarrow>
     rows_ok (refresh_rows st') \<and> (\<forall>h. spent (refresh_rows st) h \<longrightarrow> spent (refresh_rows st') h)"
proof (induction rule: api_steps.induct)
  case (steps_refl st)
  then show ?case by simp
next
  case (steps_step st st' st'')
  then have "rows_ok (refresh_rows st')" by simp
  with api_step_change [OF steps_step.hyps(2)] obtain ch where
    "change_ok ch (refresh_rows st')" "refresh_rows st'' = apply_change ch (refresh_rows st')"
    by (auto simp: is_change_def)
  then show ?case using steps_step by (simp add: rows_ok_change spent_stays)
qed


lemma refused_forever:
  assumes "rows_ok (refresh_rows st)" "spent (refresh_rows st) (hash_token env tok)" "api_steps env st st'"
  shows "refresh env now wall jti secret tok st' = (Inl (AuthFailedError ''refresh token invalid''), st')"
  using api_steps_rows [OF assms(3,1)] assms(2) by (intro spent_refused) simp

lemma spent_revoke_all:
  assumes "rows_ok rows" "dict_get rows h = Some row" "rr_user_id row = u"
  shows "spent (refresh_revoke_all u rows) h"
proof -
  have "revoked_in (refresh_revoke_all u rows) h'" if l: "rr_rotated_to row = Some h'" for h'
  proof -
    from assms l obtain row' where "dict_get rows h' = Some row'" "rr_user_id row' = u"
      unfolding rows_ok_def by blast
    then show ?thesis by (simp add: revoked_in_def rows_get)
  qed
  then show ?thesis using assms(2,3) by (simp add: spent_alt rows_get)
qed

section \<open>Refresh tokens\<close>

definition new_service :: "'p \<Rightarrow> 'p client_state" where
  "new_service p = \<lparr>prov = p, refresh_rows = [], connect_rows = [], fail_log = [], emitted = []\<rparr>"

lemma service_rows_ok: "api_steps env (new_service p) st \<Longrightarrow> rows_ok (refresh_rows st)"
  using api_steps_rows [of env "new_service p" st] by (simp add: new_service_def rows_ok_def)

text \<open>A small service for the examples: digests are tagged strings, one known user.\<close>

definition ex_provider :: "unit provider" where
  "ex_provider = \<lparr>get_user_record = (\<lambda>p u. if u = 7 then Some [(''id'', VInt 7), (''status'', VStr ''active'')] else None),
     find_user_by_app_username = (\<lambda>p n. if n = ''u7.a'' then Some [(''id'', VInt 7), (''app_password_hash'', VStr ''pw'')] else None),
     save_app_credentials = (\<lambda>u n h p. p),
     get_core_accounts = (\<lambda>p u. [\<lparr>ca_core_id = ''wg'', ca_core_name = ''WireGuard'', ca_protocol = ''wireguard'', ca_enabled = True,
        ca_build = (\<lambda>c. Inr \<lparr>cc_core_id = ''wg'', cc_protocol = ''wireguard'', cc_engine = ''wg'', cc_display_name = [], cc_payload = VNone\<rparr>)\<rparr>]),
     get_usage = (\<lambda>p u. (0, None))\<rparr>"

definition ex_env :: "(unit, pyval) client_env" where
  "ex_env = \<lparr>provider = ex_provider,
     tokens = \<lparr>ts_hmac = (\<lambda>s. []), ts_ttl_seconds = 900, json_dumps = (\<lambda>d. []), json_loads = (\<lambda>b. None)\<rparr>,
     hash_token = (\<lambda>s. CHR ''#'' # s), hasher_hash = (\<lambda>s. s), hasher_verify = (\<lambda>p h. p = h), dummy_hash = ''!'',
     refresh_ttl = 1000, connect_ttl = 30, max_fail = 2, window = 60, seal_document = (\<lambda>d k. d)\<rparr>"

definition ex_logged_in :: "unit client_state" where
  "ex_logged_in = snd (authenticate ex_env 0 0 ''j0'' ''r0'' ''u7.a'' ''pw'' (new_service ()))"

lemma ex_logged_in_rows:
  "refresh_rows ex_logged_in = [(''#r0'', \<lparr>rr_user_id = 7, rr_token_hash = ''#r0'', rr_expires_at = 1000000000,
     rr_revoked = False, rr_rotated_to = None, rr_revoked_at = None\<rparr>)]"
  by (simp add: ex_logged_in_def authenticate_def check_rate_limit_def new_service_def ex_env_def ex_provider_def vget_def
      py_or_def suspended_status_def issue_tokens_def refresh_save_def emit_def seconds_def Let_def split_beta)

lemma ex_logged_in_steps: "api_steps ex_env (new_service ()) ex_logged_in"
  unfolding ex_logged_in_def
  by (rule steps_step [OF steps_refl step_login]) (simp add: fresh_refresh_def new_service_def)

text \<open>
  A logout is final. Whatever the service does afterwards (logins, rotations, grace retries of
  older tokens of the chain), a logged-out refresh token is never accepted again.
\<close>
lemma logout_is_final:
  assumes "api_steps env (new_service p) st" "dict_get (refresh_rows st) (hash_token env tok) \<noteq> None"
    "api_steps env (logout env wall tok st) st'"
  shows "refresh env now wall' jti secret tok st' = (Inl (AuthFailedError ''refresh token invalid''), st')"
proof -
  have "spent (refresh_rows (logout env wall tok st)) (hash_token env tok)"
    using assms(2) by (auto simp: logout_def spent_def rows_get)
  moreover have "rows_ok (refresh_rows (logout env wall tok st))"
    using service_rows_ok [OF steps_step [OF assms(1) step_logout]] .
  ultimately show ?thesis using assms(3) by (intro refused_forever)
qed

lemma logout_is_final_example:
  "fst (refresh ex_env 1 1 ''j'' ''r1'' ''r0'' (logout ex_env 1 ''r0'' ex_logged_in)) = Inl (AuthFailedError ''refresh token invalid'')"
proof -
  have "dict_get (refresh_rows ex_logged_in) (hash_token ex_env ''r0'') \<noteq> None"
    by (simp add: ex_logged_in_rows ex_env_def)
  from logout_is_final [OF ex_logged_in_steps this steps_refl] show ?thesis by simp
qed

text \<open>
  Issuing or rotating the application credentials of a user ends every session of that user: each
  refresh token the user held, rotated or not, is refused from then on, also within the grace
  period.
\<close>
lemma credentials_end_all_sessions:
  assumes "api_steps env (new_service p) st" "issue_app_credentials env u a b st = (Inr c, st1)"
    "dict_get (refresh_rows st) (hash_token env tok) = Some row" "rr_user_id row = u"
    "api_steps env st1 st'"
  shows "refresh env now wall jti secret tok st' = (Inl (AuthFailedError ''refresh token invalid''), st')"
proof -
  have ok: "rows_ok (refresh_rows st)" by (rule service_rows_ok [OF assms(1)])
  have rows: "refresh_rows st1 = refresh_revoke_all u (refresh_rows st)"
    using assms(2) by (auto simp: issue_app_credentials_def Let_def split: option.splits)
  have "spent (refresh_rows st1) (hash_token env tok)"
    unfolding rows by (rule spent_revoke_all [OF ok assms(3,4)])
  moreover have "rows_ok (refresh_rows st1)"
    using service_rows_ok [OF steps_step [OF assms(1) step_credentials [of env st u a b]]] assms(2) by simp
  ultimately show ?thesis using assms(5) by (intro refused_forever)
qed

lemma credentials_end_all_sessions_example:
  "fst (refresh ex_env 1 1 ''j'' ''r1'' ''r0'' (snd (issue_app_credentials ex_env 7 ''A'' ''B'' ex_logged_in)))
     = Inl (AuthFailedError ''refresh token invalid'')"
proof -
  have c: "issue_app_credentials ex_env 7 ''A'' ''B'' ex_logged_in
      = (Inr (''u'' @ int_to_str 7 @ ''.'' @ py_lower ''A'', ''B''), snd (issue_app_credentials ex_env 7 ''A'' ''B'' ex_logged_in))"
    by (simp add: issue_app_credentials_def ex_env_def ex_provider_def Let_def)
  from credentials_end_all_sessions [OF ex_logged_in_steps c _ _ steps_refl, of "''r0''"] show ?thesis
    by (simp add: ex_logged_in_rows, simp add: ex_env_def)
qed

text \<open>Presenting a live token rotates it; presenting it again in time is the grace retry.\<close>

lemma refresh_live:
  assumes "dict_get (refresh_rows st) (hash_token env tok) = Some row" "\<not> rr_revoked row" "now \<le> rr_expires_at row"
    "rr_token_hash row = hash_token env tok"
  shows "\<exists>t. fst (refresh env now wall jti secret tok st) = Inr t \<and> at_refresh t = secret"
    and "refresh_rows (snd (refresh env now wall jti secret tok st)) =
      refresh_revoke wall (hash_token env tok) (Some (hash_token env secret))
        (refresh_save (rr_user_id row) (hash_token env secret) (now + seconds (refresh_ttl env)) (refresh_rows st))"
  using assms by (simp_all add: refresh_def refresh_get_def refresh_rotate_def split_beta)

lemma refresh_retry:
  assumes "dict_get (refresh_rows st) (hash_token env tok) = Some row" "rr_revoked row" "now \<le> rr_expires_at row"
    "rr_rotated_to row = Some h" "h \<noteq> []" "rr_revoked_at row = Some at'" "now \<le> at' + seconds ROTATION_GRACE_SECONDS"
    "dict_get (refresh_rows st) h = Some succ" "\<not> rr_revoked succ" "rr_token_hash succ = h"
  shows "\<exists>t. fst (refresh env now wall jti secret tok st) = Inr t \<and> at_refresh t = secret"
    and "refresh_rows (snd (refresh env now wall jti secret tok st)) =
      refresh_revoke wall h None
        (refresh_save (rr_user_id row) (hash_token env secret) (now + seconds (refresh_ttl env)) (refresh_rows st))"
  using assms by (simp_all add: refresh_def refresh_get_def refresh_grace_def split_beta)

text \<open>
  C3: The rotation grace is one-shot. A live refresh token is rotated into \<open>s1\<close>; presented again
  within the grace period while \<open>s1\<close> is unused it is answered once more with \<open>s2\<close>; after that the
  token and \<open>s1\<close> are refused for ever, whatever the service does, while \<open>s2\<close>, which the retry
  produced, is itself accepted by the next refresh.
\<close>
theorem rotation_grace_is_one_shot:
  fixes env :: "('p, 'e) client_env" and j1 j2 :: string and wall2 :: int
  assumes reach: "api_steps env (new_service p) st"
    and row: "dict_get (refresh_rows st) (hash_token env tok) = Some row" "\<not> rr_revoked row"
    and time: "now1 \<le> rr_expires_at row" "now2 \<le> rr_expires_at row" "now2 \<le> wall1 + seconds ROTATION_GRACE_SECONDS"
    and fresh: "dict_get (refresh_rows st) (hash_token env s1) = None" "dict_get (refresh_rows st) (hash_token env s2) = None"
      "hash_token env s1 \<noteq> hash_token env s2" "hash_token env s1 \<noteq> []"
  defines "st1 \<equiv> snd (refresh env now1 wall1 j1 s1 tok st)"
  defines "st2 \<equiv> snd (refresh env now2 wall2 j2 s2 tok st1)"
  shows "(\<exists>t. fst (refresh env now1 wall1 j1 s1 tok st) = Inr t \<and> at_refresh t = s1) \<and>
     (\<exists>t. fst (refresh env now2 wall2 j2 s2 tok st1) = Inr t \<and> at_refresh t = s2) \<and>
     (\<forall>st' now wall j s3. api_steps env st2 st' \<longrightarrow>
        refresh env now wall j s3 tok st' = (Inl (AuthFailedError ''refresh token invalid''), st') \<and>
        refresh env now wall j s3 s1 st' = (Inl (AuthFailedError ''refresh token invalid''), st')) \<and>
     (\<forall>now wall j s3. now \<le> now2 + seconds (refresh_ttl env) \<longrightarrow> (\<exists>t. fst (refresh env now wall j s3 s2 st2) = Inr t))"
proof -
  let ?h = "hash_token env tok" and ?h1 = "hash_token env s1" and ?h2 = "hash_token env s2"
  have ok: "rows_ok (refresh_rows st)" by (rule service_rows_ok [OF reach])
  have ne: "?h \<noteq> ?h1" "?h \<noteq> ?h2" using row fresh by auto
  note r1 = refresh_live [OF row time(1) rows_okD [OF ok row(1)], of wall1 j1 s1, folded st1_def]
  have g1: "dict_get (refresh_rows st1) ?h = Some (row\<lparr>rr_revoked := True, rr_rotated_to := Some ?h1, rr_revoked_at := Some wall1\<rparr>)"
    "dict_get (refresh_rows st1) ?h1 = Some \<lparr>rr_user_id = rr_user_id row, rr_token_hash = ?h1,
       rr_expires_at = now1 + seconds (refresh_ttl env), rr_revoked = False, rr_rotated_to = None, rr_revoked_at = None\<rparr>"
    using row ne by (simp_all add: r1(2) rows_get)
  have r2: "\<exists>t. fst (refresh env now2 wall2 j2 s2 tok st1) = Inr t \<and> at_refresh t = s2"
    "refresh_rows st2 = refresh_revoke wall2 ?h1 None
       (refresh_save (rr_user_id row) ?h2 (now2 + seconds (refresh_ttl env)) (refresh_rows st1))"
    using refresh_retry [OF g1(1) _ _ _ _ _ _ g1(2), of now2 wall1 wall2 j2 s2] time fresh(4)
    by (simp_all add: st2_def)
  have g2: "spent (refresh_rows st2) ?h" "spent (refresh_rows st2) ?h1"
    "\<exists>row2. dict_get (refresh_rows st2) ?h2 = Some row2 \<and> \<not> rr_revoked row2 \<and> rr_expires_at row2 = now2 + seconds (refresh_ttl env)"
    using g1 ne fresh(3) by (simp_all add: spent_def r2(2) rows_get)
  have "api_steps env (new_service p) st1"
    unfolding st1_def by (rule steps_step [OF reach step_refresh]) (simp add: fresh_refresh_def fresh)
  moreover have "dict_get (refresh_rows st1) ?h2 = None" using fresh ne by (simp add: r1(2) rows_get)
  ultimately have st2: "api_steps env (new_service p) st2"
    unfolding st2_def by (intro steps_step [OF _ step_refresh]) (simp_all add: fresh_refresh_def)
  have ok2: "rows_ok (refresh_rows st2)" by (rule service_rows_ok [OF st2])
  have "\<exists>t. fst (refresh env now wall j s3 s2 st2) = Inr t" if "now \<le> now2 + seconds (refresh_ttl env)" for now wall j s3
  proof -
    from g2(3) obtain row2 where r: "dict_get (refresh_rows st2) ?h2 = Some row2" "\<not> rr_revoked row2"
      "rr_expires_at row2 = now2 + seconds (refresh_ttl env)" by auto
    show ?thesis using refresh_live(1) [OF r(1,2) _ rows_okD [OF ok2 r(1)], of now wall j s3] that r(3) by auto
  qed
  then show ?thesis
    using r1(1) r2(1) refused_forever [OF ok2 g2(1)] refused_forever [OF ok2 g2(2)] by simp
qed

theorem rotation_grace_is_one_shot_witness:
  "let st1 = snd (refresh ex_env 1 1 ''j1'' ''r1'' ''r0'' ex_logged_in); st2 = snd (refresh ex_env 2 2 ''j2'' ''r2'' ''r0'' st1)
   in (\<exists>t. fst (refresh ex_env 2 2 ''j2'' ''r2'' ''r0'' st1) = Inr t) \<and>
     refresh ex_env 3 3 ''j3'' ''r3'' ''r0'' st2 = (Inl (AuthFailedError ''refresh token invalid''), st2)"
proof -
  define row where "row = \<lparr>rr_user_id = 7, rr_token_hash = ''#r0'', rr_expires_at = 1000000000,
     rr_revoked = False, rr_rotated_to = None, rr_revoked_at = None\<rparr>"
  have d: "dict_get (refresh_rows ex_logged_in) (hash_token ex_env ''r0'') = Some row"
    "dict_get (refresh_rows ex_logged_in) (hash_token ex_env ''r1'') = None"
    "dict_get (refresh_rows ex_logged_in) (hash_token ex_env ''r2'') = None"
    "hash_token ex_env ''r1'' \<noteq> hash_token ex_env ''r2''" "hash_token ex_env ''r1'' \<noteq> []"
    "\<not> rr_revoked row" "1 \<le> rr_expires_at row" "2 \<le> rr_expires_at row" "2 \<le> 1 + seconds ROTATION_GRACE_SECONDS"
    by (simp_all add: ex_logged_in_rows ex_env_def row_def seconds_def ROTATION_GRACE_SECONDS_def)
  note w = rotation_grace_is_one_shot [OF ex_logged_in_steps d(1,6,7,8,9,2,3,4,5), where ?j1.0 = "''j1''" and ?wall2.0 = 2 and ?j2.0 = "''j2''"]
  show ?thesis
    using w [THEN conjunct2, THEN conjunct1] w [THEN conjunct2, THEN conjunct2, THEN conjunct1, rule_format, OF steps_refl, THEN conjunct1]
    unfolding Let_def by blast
qed

text \<open>
  \<open>refresh\<close> reads a row, issues new tokens and only then revokes the row. Two concurrent
  presentations of one live token that both read it before either revokes it are both answered,
  and both new refresh tokens are live: the token answers more than once and its session forks.
\<close>
lemma concurrent_refresh_forks_session:
  fixes env :: "('p, 'e) client_env" and j1 j2 :: string and wall1 wall2 :: int
  assumes "dict_get (refresh_rows st) (hash_token env tok) = Some row" "\<not> rr_revoked row"
    "rr_token_hash row = hash_token env tok"
    "hash_token env s1 \<noteq> hash_token env s2" "hash_token env s1 \<noteq> hash_token env tok" "hash_token env s2 \<noteq> hash_token env tok"
    "now \<le> now1 + seconds (refresh_ttl env)" "now \<le> now2 + seconds (refresh_ttl env)"
  defines "st1 \<equiv> snd (refresh_rotate env now1 wall1 j1 s1 row st)"
  defines "st2 \<equiv> snd (refresh_rotate env now2 wall2 j2 s2 row st1)"
  shows "refresh_owner env now s1 st2 = Some (rr_user_id row) \<and> refresh_owner env now s2 st2 = Some (rr_user_id row)"
  using assms(1-8)
  by (simp add: st2_def st1_def refresh_rotate_def refresh_owner_def refresh_get_def split_beta rows_get)

lemma concurrent_refresh_forks_session_example:
  "let row = \<lparr>rr_user_id = 7, rr_token_hash = ''#r0'', rr_expires_at = 1000000000, rr_revoked = False,
       rr_rotated_to = None, rr_revoked_at = None\<rparr>;
       st2 = snd (refresh_rotate ex_env 2 2 ''j2'' ''r2'' row (snd (refresh_rotate ex_env 1 1 ''j1'' ''r1'' row ex_logged_in)))
   in refresh_owner ex_env 3 ''r1'' st2 = Some 7 \<and> refresh_owner ex_env 3 ''r2'' st2 = Some 7"
proof -
  define row where "row = \<lparr>rr_user_id = 7, rr_token_hash = ''#r0'', rr_expires_at = 1000000000,
     rr_revoked = False, rr_rotated_to = None, rr_revoked_at = None\<rparr>"
  have d: "dict_get (refresh_rows ex_logged_in) (hash_token ex_env ''r0'') = Some row" "\<not> rr_revoked row"
    "rr_token_hash row = hash_token ex_env ''r0''" "hash_token ex_env ''r1'' \<noteq> hash_token ex_env ''r2''"
    "hash_token ex_env ''r1'' \<noteq> hash_token ex_env ''r0''" "hash_token ex_env ''r2'' \<noteq> hash_token ex_env ''r0''"
    "3 \<le> 1 + seconds (refresh_ttl ex_env)" "3 \<le> 2 + seconds (refresh_ttl ex_env)" and u: "rr_user_id row = 7"
    by (simp_all add: ex_logged_in_rows ex_env_def row_def seconds_def)
  show ?thesis
    unfolding Let_def row_def [symmetric] using concurrent_refresh_forks_session [OF d] unfolding u by blast
qed


section \<open>Connect tokens\<close>

definition consumed_in :: "(string, connect_row) dict \<Rightarrow> string \<Rightarrow> bool" where
  "consumed_in rows h \<longleftrightarrow> (\<exists>row. dict_get rows h = Some row \<and> consumed row)"

lemma deliver_connect_rows:
  "connect_rows (snd (deliver_config env now ia tok key ctx st)) = connect_rows st \<or>
   connect_rows (snd (deliver_config env now ia tok key ctx st)) = snd (mark_consumed (hash_token env tok) now (connect_rows st))"
  by (auto simp: deliver_config_def deliver_consumed_def Let_def split_beta
      split: option.splits sum.splits bool.splits)

lemma consumed_in_mark: "consumed_in rows h \<Longrightarrow> consumed_in (snd (mark_consumed h' now rows)) h"
  by (auto simp: consumed_in_def mark_consumed_def split: option.splits)

lemma consumed_step:
  "api_step env st st' \<Longrightarrow> consumed_in (connect_rows st) h \<Longrightarrow> consumed_in (connect_rows st') h"
proof (induction rule: api_step.induct)
  case (step_credentials st user_id a b)
  then show ?case by (auto simp: issue_app_credentials_def Let_def split: option.splits)
next
  case (step_login secret st now wall jti user pw)
  then show ?case by (simp add: authenticate_rows)
next
  case (step_refresh secret st now wall jti tok)
  have "connect_rows (snd (refresh env now wall jti secret tok st)) = connect_rows st"
    by (simp add: refresh_def refresh_grace_def refresh_rotate_def split_beta split: option.splits)
  then show ?case using step_refresh by simp
next
  case (step_logout wall tok st)
  then show ?case by (simp add: logout_def)
next
  case (step_connect token st now user_id core_id)
  then show ?case
    by (auto simp: request_connect_def Let_def connect_save_def consumed_in_def fresh_connect_def
        split: option.splits sum.splits bool.splits)
next
  case (step_deliver st now ia tok key ctx)
  then show ?case using deliver_connect_rows [of env now ia tok key ctx st] consumed_in_mark by metis
qed

lemma consumed_steps:
  "api_steps env st st' \<Longrightarrow> consumed_in (connect_rows st) h \<Longrightarrow> consumed_in (connect_rows st') h"
  by (induction rule: api_steps.induct) (auto intro: consumed_step)

lemma deliver_consumes:
  assumes "fst (deliver_config env now ia tok key ctx st) \<noteq> Inl (ConnectTokenError ''connect token invalid'')"
  shows "consumed_in (connect_rows (snd (deliver_config env now ia tok key ctx st))) (hash_token env tok)"
proof -
  from assms obtain row where row: "dict_get (connect_rows st) (hash_token env tok) = Some row" "\<not> consumed row"
    "\<not> cr_expires_at row < now"
    by (auto simp: deliver_config_def connect_get_def Let_def split: option.splits if_splits)
  then have "connect_rows (snd (deliver_config env now ia tok key ctx st)) =
      dict_set (hash_token env tok) (row\<lparr>cr_consumed_at := Some now\<rparr>) (connect_rows st)"
    by (simp add: deliver_config_def connect_get_def mark_consumed_def deliver_consumed_def Let_def
        split: option.splits sum.splits)
  then show ?thesis by (simp add: consumed_in_def consumed_def)
qed

text \<open>
  C16: A connect token works at most once. As soon as one delivery gets past the token check, even one
  that then fails on a bad client key or a driver error, every later delivery with that token is
  refused as invalid, whatever the service does in between.
\<close>
theorem connect_token_is_one_time:
  assumes "fst (deliver_config env now ia tok key ctx st) \<noteq> Inl (ConnectTokenError ''connect token invalid'')"
    "api_steps env (snd (deliver_config env now ia tok key ctx st)) st'"
  shows "deliver_config env now' ia' tok key' ctx' st' = (Inl (ConnectTokenError ''connect token invalid''), st')"
proof -
  have "consumed_in (connect_rows st') (hash_token env tok)"
    by (rule consumed_steps [OF assms(2) deliver_consumes [OF assms(1)]])
  then show ?thesis by (auto simp: deliver_config_def connect_get_def consumed_in_def Let_def)
qed

definition ex_offered :: "unit client_state" where
  "ex_offered = snd (request_connect ex_env 0 ''c0'' 7 ''wg'' (new_service ()))"

definition ex_key :: string where "ex_key = replicate 43 (CHR ''A'')"

theorem connect_token_is_one_time_witness:
  "fst (deliver_config ex_env 1 VNone ''c0'' ''A'' VNone ex_offered) = Inl (ConnectTokenError ''bad client key'') \<and>
   (let st = snd (deliver_config ex_env 1 VNone ''c0'' ''A'' VNone ex_offered)
    in deliver_config ex_env 2 VNone ''c0'' ex_key VNone st = (Inl (ConnectTokenError ''connect token invalid''), st))"
proof -
  have bad: "b64d ''A'' = None" by code_simp
  have f: "fst (deliver_config ex_env 1 VNone ''c0'' ''A'' VNone ex_offered) = Inl (ConnectTokenError ''bad client key'')"
    by (simp add: ex_offered_def request_connect_def new_service_def ex_env_def ex_provider_def suspended_status_def vget_def
        accounts_by_core_def dict_in_def connect_save_def deliver_config_def connect_get_def seconds_def mark_consumed_def
        consumed_def deliver_consumed_def bad Let_def SUSPENDED_STATUSES_def emit_def)
  show ?thesis
    using connect_token_is_one_time [OF _ steps_refl, of ex_env 1 VNone "''c0''" "''A''" VNone ex_offered] f
    by (simp add: Let_def)
qed

section \<open>The login rate limit\<close>

record attempt =
  a_now :: int
  a_wall :: int
  a_jti :: string
  a_secret :: string
  a_password :: string

fun attempts :: "('p, 'e) client_env \<Rightarrow> string \<Rightarrow> attempt list \<Rightarrow> 'p client_state \<Rightarrow> (client_error + auth_tokens) list" where
  "attempts env user [] st = []"
| "attempts env user (a # as) st =
     (case authenticate env (a_now a) (a_wall a) (a_jti a) (a_secret a) user (a_password a) st of
        (r, st') \<Rightarrow> r # attempts env user as st')"

definition is_failure :: "client_error + 'a \<Rightarrow> bool" where
  "is_failure r \<longleftrightarrow> r = Inl (AuthFailedError ''invalid username or password'')"

definition recent :: "int \<Rightarrow> string \<Rightarrow> 'p client_state \<Rightarrow> nat" where
  "recent t0 key st = length (filter (\<lambda>t. t0 \<le> t) (case dict_get (fail_log st) key of None \<Rightarrow> [] | Some ts \<Rightarrow> ts))"

lemma length_filter_imp: "(\<And>x. P x \<Longrightarrow> Q x) \<Longrightarrow> length (filter P xs) \<le> length (filter Q xs)"
  by (induction xs) (auto intro: le_SucI)

lemma check_rate_limit_recent:
  assumes "now < t0 + seconds (window env)"
  shows "recent t0 key (snd (check_rate_limit env now key st)) = recent t0 key st"
    and "fst (check_rate_limit env now key st) = Inr () \<Longrightarrow> int (recent t0 key st) < max_fail env"
proof -
  define log where "log = (case dict_get (fail_log st) key of None \<Rightarrow> [] | Some ts \<Rightarrow> ts)"
  have "filter (\<lambda>t. t0 \<le> t) (filter (\<lambda>t. now - t < seconds (window env)) log) = filter (\<lambda>t. t0 \<le> t) log"
    unfolding filter_filter by (rule filter_cong) (use assms in auto)
  then show "recent t0 key (snd (check_rate_limit env now key st)) = recent t0 key st"
    by (simp add: recent_def check_rate_limit_def Let_def log_def [symmetric])
  have "length (filter (\<lambda>t. t0 \<le> t) log) \<le> length (filter (\<lambda>t. now - t < seconds (window env)) log)"
    by (rule length_filter_imp) (use assms in auto)
  then show "int (recent t0 key st) < max_fail env" if "fst (check_rate_limit env now key st) = Inr ()"
    using that by (auto simp: recent_def check_rate_limit_def Let_def log_def [symmetric] split: if_splits)
qed

lemma recent_record: "t0 \<le> now \<Longrightarrow> recent t0 key (record_failure now key st) = Suc (recent t0 key st)"
  by (simp add: recent_def record_failure_def)

lemma issue_tokens_fail_log [simp]: "fail_log (snd (issue_tokens env now wall jti s u st)) = fail_log st"
  by (simp add: issue_tokens_def Let_def split: prod.splits)

lemma recent_cong: "fail_log st' = fail_log st \<Longrightarrow> recent t0 key st' = recent t0 key st"
  by (simp add: recent_def)

text \<open>A login that passes the rate check either records one failure or leaves the failure log alone.\<close>

lemma authenticate_cases:
  assumes "check_rate_limit env now user st = (Inr u, st1)"
  shows "authenticate env now wall jti secret user pw st = auth_failure now user st1 \<or>
    fail_log (snd (authenticate env now wall jti secret user pw st)) = fail_log st1 \<and>
    \<not> is_failure (fst (authenticate env now wall jti secret user pw st))"
  by (simp add: authenticate_def assms Let_def is_failure_def split_beta suspended_status_def
      split: option.splits sum.splits pyval.splits bool.splits)

lemma authenticate_recent:
  fixes env :: "('p, 'e) client_env" and wall :: int and jti secret user pw :: string and st :: "'p client_state"
  assumes "t0 \<le> now" "now < t0 + seconds (window env)"
  defines "res \<equiv> authenticate env now wall jti secret user pw st"
  shows "if is_failure (fst res) then recent t0 user (snd res) = Suc (recent t0 user st) \<and> int (recent t0 user st) < max_fail env
     else recent t0 user (snd res) = recent t0 user st"
proof -
  obtain r st1 where c: "check_rate_limit env now user st = (r, st1)" by fastforce
  note rec = check_rate_limit_recent [OF assms(2), of user st, unfolded c, simplified]
  show ?thesis
  proof (cases r)
    case (Inl e)
    moreover from Inl c have "e = RateLimitedError" by (auto simp: check_rate_limit_def Let_def split: if_splits)
    ultimately show ?thesis using rec(1) by (simp add: res_def authenticate_def c is_failure_def)
  next
    case (Inr u)
    with c have c': "check_rate_limit env now user st = (Inr u, st1)" by simp
    from authenticate_cases [OF c', of wall jti secret pw] show ?thesis
    proof
      assume "authenticate env now wall jti secret user pw st = auth_failure now user st1"
      then show ?thesis using rec Inr assms(1)
        by (simp add: res_def auth_failure_def is_failure_def recent_record recent_cong [of "emit n d x" x for n d x])
    next
      assume "fail_log (snd (authenticate env now wall jti secret user pw st)) = fail_log st1 \<and>
        \<not> is_failure (fst (authenticate env now wall jti secret user pw st))"
      then show ?thesis using rec(1) by (simp add: res_def recent_cong [of "snd (authenticate env now wall jti secret user pw st)" st1])
    qed
  qed
qed

lemma attempts_bound:
  "\<forall>a \<in> set as. t0 \<le> a_now a \<and> a_now a < t0 + seconds (window env) \<Longrightarrow>
     length (filter is_failure (attempts env user as st)) + recent t0 user st \<le> max (nat (max_fail env)) (recent t0 user st)"
proof (induction as arbitrary: st)
  case Nil
  then show ?case by simp
next
  case (Cons a as)
  obtain r st' where r: "authenticate env (a_now a) (a_wall a) (a_jti a) (a_secret a) user (a_password a) st = (r, st')" by fastforce
  have "if is_failure r then recent t0 user st' = Suc (recent t0 user st) \<and> int (recent t0 user st) < max_fail env
     else recent t0 user st' = recent t0 user st"
    using authenticate_recent [of t0 "a_now a" env "a_wall a" "a_jti a" "a_secret a" user "a_password a" st] Cons.prems
    unfolding r by (simp split: if_splits)
  then show ?case using Cons.IH [of st'] Cons.prems by (auto simp: r split: if_splits)
qed

text \<open>
  Brute force is bounded. Whatever a client tries and however it interleaves right and wrong
  passwords, within any time window of the configured length at most the configured number of
  attempts for one user name are answered with the invalid-password error; the others are refused by
  the rate limit before the password is looked at, succeed, or fail for another reason.
\<close>
lemma login_guesses_are_bounded:
  assumes "\<forall>a \<in> set as. t0 \<le> a_now a \<and> a_now a < t0 + seconds (window env)" "recent t0 user st = 0"
  shows "length (filter is_failure (attempts env user as st)) \<le> nat (max_fail env)"
  using attempts_bound [OF assms(1), of user st] assms(2) by simp

lemma login_guesses_are_bounded_example:
  "map is_failure (attempts ex_env ''u7.a'' (replicate 3 \<lparr>a_now = 5, a_wall = 5, a_jti = [], a_secret = [], a_password = ''x''\<rparr>)
      (new_service ())) = [True, True, False] \<and>
   length (filter is_failure (attempts ex_env ''u7.a'' (replicate 3 \<lparr>a_now = 5, a_wall = 5, a_jti = [], a_secret = [], a_password = ''x''\<rparr>)
      (new_service ()))) \<le> 2"
proof
  show "length (filter is_failure (attempts ex_env ''u7.a'' (replicate 3 \<lparr>a_now = 5, a_wall = 5, a_jti = [], a_secret = [], a_password = ''x''\<rparr>)
      (new_service ()))) \<le> 2"
    using login_guesses_are_bounded [of "replicate 3 \<lparr>a_now = 5, a_wall = 5, a_jti = [], a_secret = [], a_password = ''x''\<rparr>" 5 ex_env
        "''u7.a''" "new_service ()"]
    by (simp add: ex_env_def seconds_def recent_def new_service_def)
qed (simp add: ex_env_def ex_provider_def authenticate_def check_rate_limit_def new_service_def vget_def py_or_def
    auth_failure_def record_failure_def is_failure_def emit_def seconds_def numeral_3_eq_3 Let_def)

section \<open>Access tokens\<close>

lemma b64_alphabet_no_dot: "CHR ''.'' \<notin> set b64_alphabet"
  by (simp add: b64_alphabet_def)

lemma b64_char_no_dot [simp]: "n < 64 \<Longrightarrow> b64_char n \<noteq> CHR ''.''" "n < 64 \<Longrightarrow> CHR ''.'' \<noteq> b64_char n"
proof -
  assume "n < 64"
  then have "b64_char n \<in> set b64_alphabet" by (simp add: b64_char_def b64_alphabet_no_pad)
  then show "b64_char n \<noteq> CHR ''.''" "CHR ''.'' \<noteq> b64_char n" using b64_alphabet_no_dot by auto
qed

lemma b64e_no_dot: "CHR ''.'' \<notin> set (b64e data)"
proof (induction data rule: b64_groups.induct)
  case (1 a b c rest)
  then show ?case by (simp add: b64e_cons3)
qed (simp_all add: b64e_short)

lemma issued_split:
  "fst (issue ts wall jti sub ttl typ) = (let body = b64e (json_dumps ts (token_payload sub (wall_seconds wall)
       (case ttl of None \<Rightarrow> ts_ttl_seconds ts | Some t \<Rightarrow> t) jti typ)) in ''zga.'' @ body @ ''.'' @ sign_token ts (''zga.'' @ body))"
  by (simp add: issue_def Let_def)

lemma split_token:
  "split_on (CHR ''.'') (''zga.'' @ b64e x @ ''.'' @ b64e y) = [''zga'', b64e x, b64e y]"
  using split_on_append [of "CHR ''.''" "b64e x" "b64e y"] split_on_single [OF b64e_no_dot [of y]] b64e_no_dot [of x]
  by simp

lemma int_to_str_not_Nil [simp]: "int_to_str n \<noteq> []"
  by (simp add: int_to_str_def)

text \<open>
  An access token the service issued for a user authenticates that user: until the whole second of
  its expiry has passed, verification returns the user's id, given that the JSON codec reads back
  the payload it wrote. After that second the token is refused.
\<close>
lemma access_token_roundtrip:
  assumes "json_loads ts (json_dumps ts (token_payload (int_to_str n) (wall_seconds wall) ttl jti ''access''))
      = Some (VDict (token_payload (int_to_str n) (wall_seconds wall) ttl jti ''access''))" "jti \<noteq> []"
  shows "verify_access ts wall' (fst (issue ts wall jti (int_to_str n) (Some ttl) ''access'')) =
     (if wall_seconds wall + ttl < wall_seconds wall' then Inl (AuthFailedError ''token expired'') else Inr n)"
proof -
  define payload where "payload = token_payload (int_to_str n) (wall_seconds wall) ttl jti ''access''"
  define body where "body = b64e (json_dumps ts payload)"
  have s: "split_on (CHR ''.'') (fst (issue ts wall jti (int_to_str n) (Some ttl) ''access'')) =
      [''zga'', body, sign_token ts (''zga.'' @ body)]"
    by (simp only: issued_split Let_def sign_token_def split_token payload_def body_def option.case)
  have b: "Option.bind (b64d body) (json_loads ts) = Some (VDict payload)"
    using assms(1) by (simp add: body_def b64d_b64e payload_def)
  have c: "check_claims wall' ''access'' payload =
      (if wall_seconds wall + ttl < wall_seconds wall' then Inl (TokenError ''token expired'') else Inr payload)"
    using assms(2) by (simp add: check_claims_def payload_def token_payload_def vget_def)
  have "py_int (vget payload ''sub'') = Inr n"
    by (simp add: payload_def token_payload_def vget_def int_of_str_to_str)
  then show ?thesis by (simp add: verify_access_def verify_token_def s b c)
qed

lemma access_token_roundtrip_example:
  "let ts = \<lparr>ts_hmac = (\<lambda>s. [1]), ts_ttl_seconds = 900, json_dumps = (\<lambda>d. [2]),
       json_loads = (\<lambda>b. Some (VDict (token_payload (int_to_str 7) 3 900 ''j'' ''access'')))\<rparr>
   in verify_access ts 5000000 (fst (issue ts 3000000 ''j'' (int_to_str 7) (Some 900) ''access'')) = Inr 7"
  using access_token_roundtrip [of "\<lparr>ts_hmac = (\<lambda>s. [1]), ts_ttl_seconds = 900, json_dumps = (\<lambda>d. [2]),
       json_loads = (\<lambda>b. Some (VDict (token_payload (int_to_str 7) 3 900 ''j'' ''access'')))\<rparr>" 7 3000000 900 "''j''" 5000000]
  by (simp add: Let_def wall_seconds_def)

end
