(* ===== verification/Sessions.thy ===== *)
theory Sessions
  imports PyTime
begin

text \<open>
  The unified session manager (\<open>app/cores/sessions.py\<close>): consecutive polls of live sessions are
  diffed into opened, ongoing and closed sessions, and closed ones are archived in the history
  store. Objects the source shares by reference (a session in the report is the object in the
  active table) are named by their key while a poll runs and read when it ends.
\<close>

section \<open>Data\<close>

record device_session =
  ds_core_id :: string
  ds_account_id :: string
  ds_ip :: "string option"
  ds_connected_at :: "datetime option"
  ds_metadata :: "(string \<times> pyval) list"

record active_session =
  as_key :: string
  as_user_id :: "int option"
  as_core_id :: string
  as_account_id :: string
  as_ip :: "string option"
  as_connected_at :: datetime
  as_first_seen :: datetime
  as_last_activity :: datetime
  as_rx_bytes :: int
  as_tx_bytes :: int
  as_platform :: "string option"
  as_app_version :: "string option"
  as_metadata :: "(string \<times> pyval) list"

record session_record =
  sr_key :: string
  sr_user_id :: "int option"
  sr_core_id :: string
  sr_account_id :: string
  sr_ip :: "string option"
  sr_started_at :: datetime
  sr_ended_at :: datetime
  sr_duration_us :: int
  sr_rx_bytes :: int
  sr_tx_bytes :: int

record session_report =
  rp_opened :: "active_session list"
  rp_ongoing :: "active_session list"
  rp_closed :: "session_record list"

record session_manager =
  sm_store :: "session_record list"
  sm_active :: "(string, active_session) dict"

type_synonym owners = "(string \<times> string, int) dict"

section \<open>The history store\<close>

definition append_record :: "session_record \<Rightarrow> session_record list \<Rightarrow> session_record list" where
  "append_record r rs = rs @ [r]"

text \<open>\<open>rows[-limit:]\<close>: the last \<open>limit\<close> rows; zero keeps all of them, a negative limit drops a prefix.\<close>

definition last_slice :: "int \<Rightarrow> 'a list \<Rightarrow> 'a list" where
  "last_slice limit rows =
     (if limit > 0 then drop (length rows - nat limit) rows else drop (nat (- limit)) rows)"

definition store_history ::
  "int option \<Rightarrow> string option \<Rightarrow> int \<Rightarrow> session_record list \<Rightarrow> session_record list" where
  "store_history user_id account_id limit rs =
     rev (last_slice limit
       (filter (\<lambda>r. (user_id = None \<or> sr_user_id r = user_id) \<and>
                    (account_id = None \<or> account_id = Some (sr_account_id r))) rs))"

section \<open>Refresh\<close>

definition session_key :: "string \<Rightarrow> string \<Rightarrow> string option \<Rightarrow> datetime option \<Rightarrow> string" where
  "session_key core_id account_id ip connected_at =
     core_id @ ''|'' @ account_id @ ''|'' @
     (case ip of None \<Rightarrow> ''-'' | Some s \<Rightarrow> if s = [] then ''-'' else s) @ ''|'' @
     (case connected_at of None \<Rightarrow> '''' | Some t \<Rightarrow> isoformat t)"

definition key_of :: "device_session \<Rightarrow> string" where
  "key_of s = session_key (ds_core_id s) (ds_account_id s) (ds_ip s) (ds_connected_at s)"

text \<open>\<open>int(meta.get(a) or meta.get(b) or 0)\<close>.\<close>

definition meta_counter :: "(string \<times> pyval) list \<Rightarrow> string \<Rightarrow> string \<Rightarrow> py_error + int" where
  "meta_counter meta a b = py_int (py_or (py_or (vget meta a) (vget meta b)) (VInt 0))"

text \<open>A \<open>str | None\<close> field of a pydantic model: any other type is a \<open>ValidationError\<close> (a \<open>ValueError\<close>).\<close>

definition opt_str_field :: "pyval \<Rightarrow> py_error + string option" where
  "opt_str_field v = (case v of VNone \<Rightarrow> Inr None | VStr s \<Rightarrow> Inr (Some s) | _ \<Rightarrow> Inl ValueError)"

definition open_session ::
  "datetime \<Rightarrow> int option \<Rightarrow> int \<Rightarrow> int \<Rightarrow> device_session \<Rightarrow> py_error + active_session" where
  "open_session now user_id rx tx s =
     rbind (opt_str_field (vget (ds_metadata s) ''platform'')) (\<lambda>platform.
     rbind (opt_str_field (vget (ds_metadata s) ''app_version'')) (\<lambda>version.
       Inr \<lparr>as_key = key_of s, as_user_id = user_id, as_core_id = ds_core_id s,
            as_account_id = ds_account_id s, as_ip = ds_ip s,
            as_connected_at = (case ds_connected_at s of None \<Rightarrow> now | Some t \<Rightarrow> t),
            as_first_seen = now, as_last_activity = now, as_rx_bytes = rx, as_tx_bytes = tx,
            as_platform = platform, as_app_version = version, as_metadata = ds_metadata s\<rparr>))"

definition or_user :: "int option \<Rightarrow> int option \<Rightarrow> int option" where
  "or_user a b = (case a of None \<Rightarrow> b | Some n \<Rightarrow> if n = 0 then b else a)"

definition touch_session :: "datetime \<Rightarrow> int option \<Rightarrow> int \<Rightarrow> int \<Rightarrow> active_session \<Rightarrow> active_session" where
  "touch_session now user_id rx tx a =
     a\<lparr>as_last_activity := now, as_user_id := or_user (as_user_id a) user_id,
       as_rx_bytes := max (as_rx_bytes a) rx, as_tx_bytes := max (as_tx_bytes a) tx\<rparr>"

text \<open>The state of the poll loop: the active table and the keys opened and seen again.\<close>

record poll_state =
  ps_active :: "(string, active_session) dict"
  ps_opened :: "string list"
  ps_ongoing :: "string list"

definition poll_one ::
  "datetime \<Rightarrow> owners \<Rightarrow> device_session \<Rightarrow> poll_state \<Rightarrow> (py_error + unit) \<times> poll_state" where
  "poll_one now owners s p =
     (case rbind (meta_counter (ds_metadata s) ''session_rx_bytes'' ''rx_bytes'') (\<lambda>rx.
           rbind (meta_counter (ds_metadata s) ''session_tx_bytes'' ''tx_bytes'') (\<lambda>tx. Inr (rx, tx))) of
        Inl e \<Rightarrow> (Inl e, p)
      | Inr (rx, tx) \<Rightarrow>
          (let key = key_of s; user_id = dict_get owners (ds_core_id s, ds_account_id s)
           in case dict_get (ps_active p) key of
                None \<Rightarrow>
                  (case open_session now user_id rx tx s of
                     Inl e \<Rightarrow> (Inl e, p)
                   | Inr a \<Rightarrow>
                       (Inr (), p\<lparr>ps_active := dict_set key a (ps_active p), ps_opened := ps_opened p @ [key]\<rparr>))
              | Some a \<Rightarrow>
                  (Inr (), p\<lparr>ps_active := dict_set key (touch_session now user_id rx tx a) (ps_active p),
                             ps_ongoing := ps_ongoing p @ [key]\<rparr>)))"

fun poll_all ::
  "datetime \<Rightarrow> owners \<Rightarrow> device_session list \<Rightarrow> poll_state \<Rightarrow> (py_error + unit) \<times> poll_state" where
  "poll_all now owners [] p = (Inr (), p)"
| "poll_all now owners (s # ss) p =
     (case poll_one now owners s p of
        (Inl e, p') \<Rightarrow> (Inl e, p')
      | (Inr u, p') \<Rightarrow> poll_all now owners ss p')"

definition close_record :: "datetime \<Rightarrow> string \<Rightarrow> active_session \<Rightarrow> session_record" where
  "close_record now key dead =
     (let started = as_utc (as_connected_at dead)
      in \<lparr>sr_key = key, sr_user_id = as_user_id dead, sr_core_id = as_core_id dead,
          sr_account_id = as_account_id dead, sr_ip = as_ip dead, sr_started_at = started, sr_ended_at = now,
          sr_duration_us = max 0 (instant now - instant started),
          sr_rx_bytes = as_rx_bytes dead, sr_tx_bytes = as_tx_bytes dead\<rparr>)"

fun close_all :: "datetime \<Rightarrow> string list \<Rightarrow> session_manager \<Rightarrow> session_record list \<times> session_manager" where
  "close_all now [] m = ([], m)"
| "close_all now (key # keys) m =
     (case dict_get (sm_active m) key of
        None \<Rightarrow> close_all now keys m
      | Some dead \<Rightarrow>
          (let r = close_record now key dead;
               (rs, m') = close_all now keys
                  (m\<lparr>sm_active := dict_pop key (sm_active m), sm_store := append_record r (sm_store m)\<rparr>)
           in (r # rs, m')))"

definition unseen :: "device_session list \<Rightarrow> (string, 'a) dict \<Rightarrow> string list" where
  "unseen sessions act = sort (filter (\<lambda>k. k \<notin> set (map key_of sessions)) (dict_keys act))"

definition refresh ::
  "datetime \<Rightarrow> device_session list \<Rightarrow> owners \<Rightarrow> session_manager \<Rightarrow> (py_error + session_report) \<times> session_manager" where
  "refresh now sessions owners m =
     (case poll_all now owners sessions \<lparr>ps_active = sm_active m, ps_opened = [], ps_ongoing = []\<rparr> of
        (Inl e, p) \<Rightarrow> (Inl e, m\<lparr>sm_active := ps_active p\<rparr>)
      | (Inr u, p) \<Rightarrow>
          (let (closed, m') = close_all now (unseen sessions (ps_active p)) (m\<lparr>sm_active := ps_active p\<rparr>);
               deref = (\<lambda>keys. List.map_filter (dict_get (ps_active p)) keys)
           in (Inr \<lparr>rp_opened = deref (ps_opened p), rp_ongoing = deref (ps_ongoing p), rp_closed = closed\<rparr>, m')))"

definition active_list :: "string option \<Rightarrow> int option \<Rightarrow> session_manager \<Rightarrow> active_session list" where
  "active_list core_id user_id m =
     filter (\<lambda>s. (core_id = None \<or> core_id = Some (as_core_id s)) \<and> (user_id = None \<or> as_user_id s = user_id))
       (map snd (sm_active m))"

definition session_history :: "int option \<Rightarrow> string option \<Rightarrow> int \<Rightarrow> session_manager \<Rightarrow> session_record list" where
  "session_history user_id account_id limit m = store_history user_id account_id limit (sm_store m)"


section \<open>The poll loop\<close>

text \<open>What one successful step does to the active table, as a single write.\<close>

lemma poll_one_ok:
  assumes "poll_one now owners s p = (Inr (), p')"
  obtains a where "ps_active p' = dict_set (key_of s) a (ps_active p)" "as_key a = key_of s \<or> dict_get (ps_active p) (key_of s) \<noteq> None"
    "ps_opened p' = (if dict_get (ps_active p) (key_of s) = None then ps_opened p @ [key_of s] else ps_opened p)"
    "ps_ongoing p' = (if dict_get (ps_active p) (key_of s) = None then ps_ongoing p else ps_ongoing p @ [key_of s])"
  using assms
  by (fastforce simp: poll_one_def open_session_def Let_def rbind_Inr_iff split: sum.splits option.splits prod.splits)

lemma poll_one_get:
  assumes "poll_one now owners s p = (Inr (), p')"
  shows "dict_get (ps_active p') k = None \<longleftrightarrow> dict_get (ps_active p) k = None \<and> k \<noteq> key_of s"
    and "dict_ok (ps_active p) \<Longrightarrow> dict_ok (ps_active p')"
proof -
  obtain a where "ps_active p' = dict_set (key_of s) a (ps_active p)" by (rule poll_one_ok [OF assms])
  then show "dict_get (ps_active p') k = None \<longleftrightarrow> dict_get (ps_active p) k = None \<and> k \<noteq> key_of s"
    "dict_ok (ps_active p) \<Longrightarrow> dict_ok (ps_active p')" by simp_all
qed

lemma poll_all_get:
  "poll_all now owners ss p = (Inr (), p') \<Longrightarrow>
     (dict_get (ps_active p') k = None \<longleftrightarrow> dict_get (ps_active p) k = None \<and> k \<notin> key_of ` set ss) \<and>
     (dict_ok (ps_active p) \<longrightarrow> dict_ok (ps_active p'))"
proof (induction ss arbitrary: p)
  case Nil
  then show ?case by simp
next
  case (Cons s ss)
  then obtain q where q: "poll_one now owners s p = (Inr (), q)" "poll_all now owners ss q = (Inr (), p')"
    by (auto split: prod.splits sum.splits)
  show ?case using Cons.IH [OF q(2)] poll_one_get [OF q(1)] by auto
qed

lemma poll_all_opened:
  "poll_all now owners ss p = (Inr (), p') \<Longrightarrow>
     count_list (ps_opened p') k =
       count_list (ps_opened p) k + (if dict_get (ps_active p) k = None \<and> k \<in> key_of ` set ss then 1 else 0)"
proof (induction ss arbitrary: p)
  case Nil
  then show ?case by simp
next
  case (Cons s ss)
  then obtain q where q: "poll_one now owners s p = (Inr (), q)" "poll_all now owners ss q = (Inr (), p')"
    by (auto split: prod.splits sum.splits)
  have "count_list (ps_opened q) k =
      count_list (ps_opened p) k + (if dict_get (ps_active p) k = None \<and> k = key_of s then 1 else 0)"
    by (rule poll_one_ok [OF q(1)]) auto
  then show ?case using Cons.IH [OF q(2)] poll_one_get(1) [OF q(1), of k] by auto
qed

lemma poll_all_opened_in:
  "poll_all now owners ss p = (Inr (), p') \<Longrightarrow> \<forall>k \<in> set (ps_opened p). dict_get (ps_active p) k \<noteq> None \<Longrightarrow>
     \<forall>k \<in> set (ps_opened p'). dict_get (ps_active p') k \<noteq> None"
proof (induction ss arbitrary: p)
  case Nil
  then show ?case by simp
next
  case (Cons s ss)
  then obtain q where q: "poll_one now owners s p = (Inr (), q)" "poll_all now owners ss q = (Inr (), p')"
    by (auto split: prod.splits sum.splits)
  have "set (ps_opened q) \<subseteq> insert (key_of s) (set (ps_opened p))"
    by (rule poll_one_ok [OF q(1)]) auto
  then have "\<forall>k \<in> set (ps_opened q). dict_get (ps_active q) k \<noteq> None"
    using Cons.prems(2) by (auto simp: poll_one_get(1) [OF q(1)])
  then show ?case by (rule Cons.IH [OF q(2)])
qed

text \<open>Entries carry their own key.\<close>

definition keyed :: "(string, active_session) dict \<Rightarrow> bool" where
  "keyed d \<longleftrightarrow> (\<forall>k a. dict_get d k = Some a \<longrightarrow> as_key a = k)"

lemma poll_one_keyed:
  "poll_one now owners s p = (Inr (), p') \<Longrightarrow> keyed (ps_active p) \<Longrightarrow> keyed (ps_active p')"
  by (auto simp: poll_one_def open_session_def touch_session_def keyed_def Let_def rbind_Inr_iff
      split: sum.splits option.splits prod.splits if_splits)

lemma poll_all_keyed:
  "poll_all now owners ss p = (Inr (), p') \<Longrightarrow> keyed (ps_active p) \<Longrightarrow> keyed (ps_active p')"
  by (induction ss arbitrary: p) (auto split: prod.splits sum.splits dest: poll_one_keyed)

section \<open>Closing\<close>

lemma close_all_spec:
  "distinct keys \<Longrightarrow> \<forall>k \<in> set keys. dict_get (sm_active m) k \<noteq> None \<Longrightarrow> close_all now keys m = (rs, m') \<Longrightarrow>
     rs = map (\<lambda>k. close_record now k (the (dict_get (sm_active m) k))) keys \<and>
     sm_store m' = sm_store m @ rs \<and> (\<forall>k. dict_get (sm_active m') k = (if k \<in> set keys then None else dict_get (sm_active m) k)) \<and>
     (dict_ok (sm_active m) \<longrightarrow> dict_ok (sm_active m'))"
proof (induction keys arbitrary: m rs)
  case Nil
  then show ?case by simp
next
  case (Cons k keys)
  then obtain dead where dead: "dict_get (sm_active m) k = Some dead" by auto
  define r where "r = close_record now k dead"
  define m1 where "m1 = m\<lparr>sm_active := dict_pop k (sm_active m), sm_store := append_record r (sm_store m)\<rparr>"
  obtain rs' where rs': "close_all now keys m1 = (rs', m')" "rs = r # rs'"
    using Cons.prems(3) by (auto simp: dead r_def [symmetric] m1_def [symmetric] Let_def split: prod.splits)
  have m1: "dict_get (sm_active m1) x = (if x = k then None else dict_get (sm_active m) x)"
    "sm_store m1 = sm_store m @ [r]" "dict_ok (sm_active m) \<longrightarrow> dict_ok (sm_active m1)" for x
    by (simp_all add: m1_def append_record_def)
  have "\<forall>x \<in> set keys. dict_get (sm_active m1) x \<noteq> None" using Cons.prems(1,2) by (auto simp: m1)
  from Cons.IH [OF _ this rs'(1)] Cons.prems(1)
  have ih: "rs' = map (\<lambda>k. close_record now k (the (dict_get (sm_active m1) k))) keys" "sm_store m' = sm_store m1 @ rs'"
    "\<forall>x. dict_get (sm_active m') x = (if x \<in> set keys then None else dict_get (sm_active m1) x)"
    "dict_ok (sm_active m1) \<longrightarrow> dict_ok (sm_active m')" by auto
  have "rs' = map (\<lambda>k. close_record now k (the (dict_get (sm_active m) k))) keys"
    using Cons.prems(1) by (auto simp: ih(1) m1)
  then show ?case using ih m1 by (auto simp: rs'(2) dead r_def)
qed

lemma unseen_props:
  "dict_ok act \<Longrightarrow> distinct (unseen ss act)"
  "set (unseen ss act) = {k. dict_get act k \<noteq> None \<and> k \<notin> key_of ` set ss}"
  by (auto simp: unseen_def distinct_filter map_of_eq_None_iff)

text \<open>Everything a successful refresh does, in one rule.\<close>

lemma refresh_ok:
  assumes "refresh now ss owners m = (Inr rep, m')" "dict_ok (sm_active m)"
  obtains p where "poll_all now owners ss \<lparr>ps_active = sm_active m, ps_opened = [], ps_ongoing = []\<rparr> = (Inr (), p)"
    "dict_ok (ps_active p)"
    "rp_opened rep = List.map_filter (dict_get (ps_active p)) (ps_opened p)"
    "rp_closed rep = map (\<lambda>k. close_record now k (the (dict_get (ps_active p) k))) (unseen ss (ps_active p))"
    "sm_store m' = sm_store m @ rp_closed rep"
    "\<forall>k. dict_get (sm_active m') k = (if k \<in> key_of ` set ss then dict_get (ps_active p) k else None)"
    "dict_ok (sm_active m')"
proof -
  obtain p where p: "poll_all now owners ss \<lparr>ps_active = sm_active m, ps_opened = [], ps_ongoing = []\<rparr> = (Inr (), p)"
    using assms(1) by (auto simp: refresh_def split: prod.splits sum.splits)
  have ok: "dict_ok (ps_active p)" using poll_all_get [OF p] assms(2) by simp
  obtain rs m2 where c: "close_all now (unseen ss (ps_active p)) (m\<lparr>sm_active := ps_active p\<rparr>) = (rs, m2)" by fastforce
  have r: "rp_opened rep = List.map_filter (dict_get (ps_active p)) (ps_opened p)" "rp_closed rep = rs" "m' = m2"
    using assms(1) by (auto simp: refresh_def p c Let_def)
  have sp: "rs = map (\<lambda>k. close_record now k (the (dict_get (ps_active p) k))) (unseen ss (ps_active p)) \<and>
      sm_store m2 = sm_store m @ rs \<and>
      (\<forall>k. dict_get (sm_active m2) k = (if k \<in> set (unseen ss (ps_active p)) then None else dict_get (ps_active p) k)) \<and>
      (dict_ok (ps_active p) \<longrightarrow> dict_ok (sm_active m2))"
    using close_all_spec [OF unseen_props(1) [OF ok, of ss] _ c] by (simp add: unseen_props(2))
  then have "\<forall>k. dict_get (sm_active m2) k = (if k \<in> key_of ` set ss then dict_get (ps_active p) k else None)"
    by (auto simp: unseen_props(2))
  with sp show ?thesis using that [OF p ok] r ok by simp
qed


lemma map_filter_all:
  "\<forall>k \<in> set ks. dict_get d k \<noteq> None \<Longrightarrow> keyed d \<Longrightarrow> map as_key (List.map_filter (dict_get d) ks) = ks"
  by (induction ks) (auto simp: map_filter_simps keyed_def)

lemma count_distinct: "distinct xs \<Longrightarrow> count_list xs x = (if x \<in> set xs then 1 else 0)"
  by (induction xs) auto

text \<open>One refresh keeps the books: what was active or is opened is closed or stays active.\<close>

lemma refresh_balance:
  assumes "refresh now ss owners m = (Inr rep, m')" "dict_ok (sm_active m)" "keyed (sm_active m)"
  shows "count_list (map as_key (rp_opened rep)) k + (if dict_get (sm_active m) k \<noteq> None then 1 else 0) =
      count_list (map sr_key (rp_closed rep)) k + (if dict_get (sm_active m') k \<noteq> None then 1 else 0) \<and>
    dict_ok (sm_active m') \<and> keyed (sm_active m')"
proof (rule refresh_ok [OF assms(1,2)])
  fix p
  assume p: "poll_all now owners ss \<lparr>ps_active = sm_active m, ps_opened = [], ps_ongoing = []\<rparr> = (Inr (), p)"
    and ok: "dict_ok (ps_active p)"
    and op: "rp_opened rep = List.map_filter (dict_get (ps_active p)) (ps_opened p)"
    and cl: "rp_closed rep = map (\<lambda>k. close_record now k (the (dict_get (ps_active p) k))) (unseen ss (ps_active p))"
    and act: "\<forall>k. dict_get (sm_active m') k = (if k \<in> key_of ` set ss then dict_get (ps_active p) k else None)"
    and ok': "dict_ok (sm_active m')"
  have key: "keyed (ps_active p)" using poll_all_keyed [OF p] assms(3) by simp
  have "map as_key (rp_opened rep) = ps_opened p"
    using poll_all_opened_in [OF p] key by (simp add: op map_filter_all)
  moreover have "map sr_key (rp_closed rep) = unseen ss (ps_active p)"
    by (simp add: cl comp_def close_record_def Let_def)
  ultimately show ?thesis
    using poll_all_opened [OF p, of k] poll_all_get [OF p, of k] act ok' key
    by (auto simp: count_distinct unseen_props ok keyed_def)
qed

fun run_polls ::
  "(datetime \<times> device_session list \<times> owners) list \<Rightarrow> session_manager \<Rightarrow> (session_report list \<times> session_manager) option" where
  "run_polls [] m = Some ([], m)"
| "run_polls ((now, ss, owners) # polls) m =
     (case refresh now ss owners m of
        (Inl e, m') \<Rightarrow> None
      | (Inr rep, m') \<Rightarrow> map_option (\<lambda>(reps, m''). (rep # reps, m'')) (run_polls polls m'))"

definition opened_count :: "string \<Rightarrow> session_report list \<Rightarrow> nat" where
  "opened_count k reps = sum_list (map (\<lambda>r. count_list (map as_key (rp_opened r)) k) reps)"

definition live :: "session_manager \<Rightarrow> string \<Rightarrow> nat" where
  "live m k = (if dict_get (sm_active m) k \<noteq> None then 1 else 0)"

lemma run_polls_balance:
  "run_polls polls m = Some (reps, m') \<Longrightarrow> dict_ok (sm_active m) \<Longrightarrow> keyed (sm_active m) \<Longrightarrow>
     opened_count k reps + count_list (map sr_key (sm_store m)) k + live m k =
     count_list (map sr_key (sm_store m')) k + live m' k"
proof (induction polls arbitrary: m reps)
  case Nil
  then show ?case by (simp add: opened_count_def)
next
  case (Cons poll polls)
  obtain now ss owners where poll: "poll = (now, ss, owners)" by (cases poll) auto
  from Cons.prems(1) obtain rep m1 reps' where r: "refresh now ss owners m = (Inr rep, m1)"
    "run_polls polls m1 = Some (reps', m')" "reps = rep # reps'"
    by (auto simp: poll split: prod.splits sum.splits)
  note b = refresh_balance [OF r(1) Cons.prems(2,3), folded live_def]
  have "sm_store m1 = sm_store m @ rp_closed rep"
    by (rule refresh_ok [OF r(1) Cons.prems(2)])
  moreover have "opened_count k reps = count_list (map as_key (rp_opened rep)) k + opened_count k reps'"
    by (simp add: opened_count_def r(3))
  moreover have "opened_count k reps' + count_list (map sr_key (sm_store m1)) k + live m1 k =
      count_list (map sr_key (sm_store m')) k + live m' k"
    using b by (intro Cons.IH [OF r(2)]) auto
  ultimately show ?case using b [of k] by simp
qed

lemma poll_one_other:
  assumes "poll_one now owners s p = (Inr (), p')" "k \<noteq> key_of s"
  shows "dict_get (ps_active p') k = dict_get (ps_active p) k"
  using assms(2) by (auto intro: poll_one_ok [OF assms(1)])

lemma poll_all_other:
  "poll_all now owners ss p = (Inr (), p') \<Longrightarrow> k \<notin> key_of ` set ss \<Longrightarrow> dict_get (ps_active p') k = dict_get (ps_active p) k"
proof (induction ss arbitrary: p)
  case Nil
  then show ?case by simp
next
  case (Cons s ss)
  then obtain q where q: "poll_one now owners s p = (Inr (), q)" "poll_all now owners ss q = (Inr (), p')"
    by (auto split: prod.splits sum.splits)
  then show ?case using Cons.IH [OF q(2)] Cons.prems(2) poll_one_other [OF q(1), of k] by simp
qed

lemma unseen_cong:
  assumes "dict_ok d" "dict_ok e" "\<And>k. k \<notin> key_of ` set ss \<Longrightarrow> (dict_get d k = None) = (dict_get e k = None)"
  shows "unseen ss d = unseen ss e"
proof -
  have "k \<in> set (unseen ss d) \<longleftrightarrow> k \<in> set (unseen ss e)" for k
    using assms(3) [of k] by (cases "k \<in> key_of ` set ss") (simp_all add: unseen_props(2) del: not_None_eq)
  then have "set (unseen ss d) = set (unseen ss e)" by (rule set_eqI)
  moreover have "sorted (unseen ss d)" "sorted (unseen ss e)" by (simp_all add: unseen_def)
  ultimately show ?thesis using assms(1,2) by (intro sorted_distinct_set_unique unseen_props(1))
qed

section \<open>Properties\<close>

definition empty_sessions :: session_manager where
  "empty_sessions = \<lparr>sm_store = [], sm_active = []\<rparr>"

definition ex_session :: "string \<Rightarrow> int \<Rightarrow> device_session" where
  "ex_session ip rx = \<lparr>ds_core_id = ''wg'', ds_account_id = ''42.al'', ds_ip = Some ip, ds_connected_at = None,
     ds_metadata = [(''rx_bytes'', VInt rx)]\<rparr>"

definition ex_now :: "int \<Rightarrow> datetime" where
  "ex_now h = \<lparr>dt_year = 2025, dt_month = 6, dt_day = 1, dt_hour = h, dt_minute = 0, dt_second = 0, dt_us = 0,
     dt_utcoff = Some 0\<rparr>"

text \<open>
  A successful refresh leaves exactly the sessions of the poll active; every session that was
  active and is missing from the poll is closed, in key order, into one history record with its
  counters and a non-negative duration, and the records are appended to the history; nothing else
  is archived.
\<close>
lemma refresh_diffs_poll:
  assumes "refresh now ss owners m = (Inr rep, m')" "dict_ok (sm_active m)"
  shows "(\<forall>k. (dict_get (sm_active m') k \<noteq> None) = (k \<in> key_of ` set ss)) \<and>
     sm_store m' = sm_store m @ rp_closed rep \<and>
     map sr_key (rp_closed rep) = sort (filter (\<lambda>k. k \<notin> key_of ` set ss) (dict_keys (sm_active m))) \<and>
     (\<forall>r \<in> set (rp_closed rep). 0 \<le> sr_duration_us r \<and>
        (\<exists>a. dict_get (sm_active m) (sr_key r) = Some a \<and> sr_rx_bytes r = as_rx_bytes a \<and>
           sr_tx_bytes r = as_tx_bytes a \<and> sr_user_id r = as_user_id a))"
proof (rule refresh_ok [OF assms])
  fix p
  assume p: "poll_all now owners ss \<lparr>ps_active = sm_active m, ps_opened = [], ps_ongoing = []\<rparr> = (Inr (), p)"
    and ok: "dict_ok (ps_active p)"
    and cl: "rp_closed rep = map (\<lambda>k. close_record now k (the (dict_get (ps_active p) k))) (unseen ss (ps_active p))"
    and st: "sm_store m' = sm_store m @ rp_closed rep"
    and act: "\<forall>k. dict_get (sm_active m') k = (if k \<in> key_of ` set ss then dict_get (ps_active p) k else None)"
  have other: "dict_get (ps_active p) k = dict_get (sm_active m) k" if "k \<notin> key_of ` set ss" for k
    using poll_all_other [OF p that] by simp
  have un: "unseen ss (ps_active p) = unseen ss (sm_active m)"
    by (rule unseen_cong [OF ok assms(2)]) (simp add: other)
  have "map sr_key (rp_closed rep) = unseen ss (sm_active m)"
    by (simp add: cl un comp_def close_record_def Let_def)
  moreover have "0 \<le> sr_duration_us r \<and> (\<exists>a. dict_get (sm_active m) (sr_key r) = Some a \<and> sr_rx_bytes r = as_rx_bytes a \<and>
      sr_tx_bytes r = as_tx_bytes a \<and> sr_user_id r = as_user_id a)" if "r \<in> set (rp_closed rep)" for r
  proof -
    from that obtain k where k: "k \<in> set (unseen ss (sm_active m))"
      "r = close_record now k (the (dict_get (sm_active m) k))"
      by (auto simp: cl un) (auto simp: unseen_props(2) other)
    then show ?thesis by (auto simp: unseen_props(2) close_record_def Let_def)
  qed
  moreover have "\<forall>k. (dict_get (sm_active m') k \<noteq> None) = (k \<in> key_of ` set ss)"
    using act poll_all_get [OF p] by auto
  ultimately show ?thesis using st by (simp add: unseen_def)
qed

lemma refresh_diffs_poll_example:
  "map sr_key (sm_store (snd (refresh (ex_now 9) [ex_session ''10.0.0.7'' 5] []
      (snd (refresh (ex_now 8) [ex_session ''10.0.0.6'' 3] [] empty_sessions))))) = [''wg|42.al|10.0.0.6|'']"
proof -
  let ?m = "snd (refresh (ex_now 8) [ex_session ''10.0.0.6'' 3] [] empty_sessions)"
  let ?r = "refresh (ex_now 9) [ex_session ''10.0.0.7'' 5] [] ?m"
  obtain rep where rep: "fst ?r = Inr rep"
    by (simp add: refresh_def poll_one_def meta_counter_def ex_session_def empty_sessions_def vget_def py_or_def
        open_session_def opt_str_field_def key_of_def session_key_def Let_def unseen_def split_beta)
  have m: "dict_keys (sm_active ?m) = [''wg|42.al|10.0.0.6|'']" "sm_store ?m = []"
    by (simp_all add: refresh_def poll_one_def meta_counter_def ex_session_def empty_sessions_def vget_def py_or_def
        open_session_def opt_str_field_def key_of_def session_key_def Let_def unseen_def split_beta)
  have "?r = (Inr rep, snd ?r)" using rep by (simp add: prod_eq_iff)
  from refresh_diffs_poll [OF this] m show ?thesis
    by (simp add: key_of_def session_key_def ex_session_def)
qed

text \<open>
  Over any sequence of successful polls from an empty manager, the number of times a session key
  was reported opened equals the number of history records with that key, plus one while the
  session is still active: no opened session is lost and none is archived twice.
\<close>
lemma sessions_opened_equals_closed_plus_active:
  assumes "run_polls polls empty_sessions = Some (reps, m)"
  shows "opened_count k reps = count_list (map sr_key (sm_store m)) k + (if dict_get (sm_active m) k \<noteq> None then 1 else 0)"
  using run_polls_balance [OF assms, of k] by (simp add: empty_sessions_def live_def keyed_def)

lemma sessions_opened_equals_closed_plus_active_example:
  "\<exists>reps m. run_polls [(ex_now 8, [ex_session ''10.0.0.6'' 3], []), (ex_now 9, [], []), (ex_now 10, [ex_session ''10.0.0.6'' 1], [])]
     empty_sessions = Some (reps, m) \<and> opened_count ''wg|42.al|10.0.0.6|'' reps = 2"
proof -
  have "run_polls [(ex_now 8, [ex_session ''10.0.0.6'' 3], []), (ex_now 9, [], []), (ex_now 10, [ex_session ''10.0.0.6'' 1], [])]
     empty_sessions \<noteq> None" by code_simp
  then obtain reps m where r: "run_polls [(ex_now 8, [ex_session ''10.0.0.6'' 3], []), (ex_now 9, [], []),
      (ex_now 10, [ex_session ''10.0.0.6'' 1], [])] empty_sessions = Some (reps, m)" by auto
  have "map_option (\<lambda>(reps, m). (map sr_key (sm_store m), dict_keys (sm_active m))) (run_polls [(ex_now 8, [ex_session ''10.0.0.6'' 3], []), (ex_now 9, [], []),
      (ex_now 10, [ex_session ''10.0.0.6'' 1], [])] empty_sessions) = Some ([''wg|42.al|10.0.0.6|''], [''wg|42.al|10.0.0.6|''])"
    by code_simp
  then have m: "map sr_key (sm_store m) = [''wg|42.al|10.0.0.6|'']" "dict_keys (sm_active m) = [''wg|42.al|10.0.0.6|'']"
    unfolding r by simp_all
  then have "dict_in ''wg|42.al|10.0.0.6|'' (sm_active m)" unfolding dict_in_set by simp
  then have "dict_get (sm_active m) ''wg|42.al|10.0.0.6|'' \<noteq> None" by (simp add: dict_in_def)
  then show ?thesis
    using r sessions_opened_equals_closed_plus_active [OF r, of "''wg|42.al|10.0.0.6|''"] m by auto
qed

end
