(* ===== verification/Policy.thy ===== *)
theory Policy
  imports PyTime
begin

text \<open>
  The global access policy (\<open>app/cores/policy/model.py\<close>, \<open>app/cores/policy/engine.py\<close>): hour windows,
  the admission decision, the enforcement map and the conversion of country locks into routing
  rules. A comparison of a naive with an aware datetime raises, as in Python.
\<close>

section \<open>Hour windows\<close>

record hour_window =
  hw_days :: "int list"
  hw_start :: string
  hw_end :: string

text \<open>
  The pattern \<open>^([01]\d|2[0-3]):[0-5]\d$\<close> under \<open>re.match\<close>; the dollar also matches before one
  trailing newline.
\<close>

definition hhmm_core :: "string \<Rightarrow> bool" where
  "hhmm_core s =
     (case s of
        [a, b, c, d, e] \<Rightarrow>
          ((a \<in> {CHR ''0'', CHR ''1''} \<and> is_digit b) \<or> (a = CHR ''2'' \<and> b \<in> {CHR ''0'', CHR ''1'', CHR ''2'', CHR ''3''})) \<and>
          c = CHR '':'' \<and> d \<in> {CHR ''0'', CHR ''1'', CHR ''2'', CHR ''3'', CHR ''4'', CHR ''5''} \<and> is_digit e
      | _ \<Rightarrow> False)"

definition HHMM_match :: "string \<Rightarrow> bool" where
  "HHMM_match s \<longleftrightarrow> hhmm_core s \<or> (s \<noteq> [] \<and> last s = CHR 0x0A \<and> hhmm_core (butlast s))"

definition valid_days :: "int list \<Rightarrow> py_error + int list" where
  "valid_days v = (if v = [] \<or> list_ex (\<lambda>d. d < 0 \<or> d > 6) v then Inl ValueError else Inr (sort (remdups v)))"

definition valid_hhmm :: "string \<Rightarrow> py_error + string" where
  "valid_hhmm v = (if HHMM_match v then Inr v else Inl ValueError)"

definition make_window :: "int list \<Rightarrow> string \<Rightarrow> string \<Rightarrow> py_error + hour_window" where
  "make_window days start en =
     rbind (valid_days days) (\<lambda>d. rbind (valid_hhmm start) (\<lambda>s. rbind (valid_hhmm en) (\<lambda>e.
       Inr \<lparr>hw_days = d, hw_start = s, hw_end = e\<rparr>)))"

definition str_int :: "string \<Rightarrow> int" where
  "str_int s = (case int_of_str s of None \<Rightarrow> 0 | Some i \<Rightarrow> i)"

text \<open>\<open>int(s[:2]) * 60 + int(s[3:])\<close>; on a validated value both conversions succeed.\<close>

definition minute_of :: "string \<Rightarrow> int" where
  "minute_of s = str_int (take 2 s) * 60 + str_int (drop 3 s)"

definition contains :: "hour_window \<Rightarrow> datetime \<Rightarrow> bool" where
  "contains w moment =
     (let start = minute_of (hw_start w); en = minute_of (hw_end w);
          minute = dt_hour moment * 60 + dt_minute moment; day = weekday moment
      in if start \<le> en then day \<in> set (hw_days w) \<and> start \<le> minute \<and> minute \<le> en
         else if minute \<ge> start then day \<in> set (hw_days w)
         else (day - 1) mod 7 \<in> set (hw_days w) \<and> minute \<le> en)"

section \<open>Profiles and admission\<close>

datatype violation =
    EXPIRED | QUOTA_EXCEEDED | DEVICE_LIMIT_REACHED | IP_LIMIT_REACHED | OUTSIDE_ALLOWED_HOURS
  | COUNTRY_NOT_ALLOWED | COUNTRY_BLOCKED | ASN_NOT_ALLOWED | ASN_BLOCKED

record policy_profile =
  data_limit_bytes :: "int option"
  expire_at :: "datetime option"
  device_limit :: "int option"
  speed_limit_kbps :: "int option"
  max_ips :: "int option"
  max_session_seconds :: "int option"
  allowed_hours :: "hour_window list"
  allowed_countries :: "string list option"
  blocked_countries :: "string list"
  allowed_asns :: "int list option"
  blocked_asns :: "int list"

record admission_context =
  ctx_now :: datetime
  ctx_device_uid :: string
  ctx_used_bytes :: int
  ctx_active_device_uids :: "string list"
  ctx_active_ips :: "string list"
  ctx_client_ip :: "string option"
  ctx_country :: "string option"
  ctx_asn :: "int option"

record policy_decision =
  allowed :: bool
  violations :: "violation list"

definition active_constraints :: "policy_profile \<Rightarrow> string list" where
  "active_constraints p =
     (if data_limit_bytes p \<noteq> None then [''data_limit_bytes''] else []) @
     (if expire_at p \<noteq> None then [''expire_at''] else []) @
     (if device_limit p \<noteq> None then [''device_limit''] else []) @
     (if speed_limit_kbps p \<noteq> None then [''speed_limit_kbps''] else []) @
     (if max_ips p \<noteq> None then [''max_ips''] else []) @
     (if max_session_seconds p \<noteq> None then [''max_session_seconds''] else []) @
     (if allowed_hours p \<noteq> [] then [''allowed_hours''] else []) @
     (if allowed_countries p \<noteq> None \<or> blocked_countries p \<noteq> [] then [''country_lock''] else []) @
     (if allowed_asns p \<noteq> None \<or> blocked_asns p \<noteq> [] then [''asn_lock''] else [])"

definition expiry_check :: "policy_profile \<Rightarrow> admission_context \<Rightarrow> py_error + violation list" where
  "expiry_check p ctx =
     (case expire_at p of
        None \<Rightarrow> Inr []
      | Some t \<Rightarrow> rbind (dt_ge (ctx_now ctx) t) (\<lambda>late. Inr (if late then [EXPIRED] else [])))"

definition quota_check :: "policy_profile \<Rightarrow> admission_context \<Rightarrow> violation list" where
  "quota_check p ctx =
     (case data_limit_bytes p of None \<Rightarrow> [] | Some l \<Rightarrow> if ctx_used_bytes ctx \<ge> l then [QUOTA_EXCEEDED] else [])"

definition device_check :: "policy_profile \<Rightarrow> admission_context \<Rightarrow> violation list" where
  "device_check p ctx =
     (case device_limit p of
        None \<Rightarrow> []
      | Some l \<Rightarrow>
          if ctx_device_uid ctx \<notin> set (ctx_active_device_uids ctx) \<and> int (length (ctx_active_device_uids ctx)) \<ge> l
          then [DEVICE_LIMIT_REACHED] else [])"

definition ip_check :: "policy_profile \<Rightarrow> admission_context \<Rightarrow> violation list" where
  "ip_check p ctx =
     (case (max_ips p, ctx_client_ip ctx) of
        (Some l, Some ip) \<Rightarrow>
          if ip \<notin> set (ctx_active_ips ctx) \<and> int (length (remdups (ctx_active_ips ctx))) \<ge> l then [IP_LIMIT_REACHED] else []
      | _ \<Rightarrow> [])"

definition hours_check :: "policy_profile \<Rightarrow> admission_context \<Rightarrow> violation list" where
  "hours_check p ctx =
     (if allowed_hours p \<noteq> [] \<and> \<not> list_ex (\<lambda>w. contains w (ctx_now ctx)) (allowed_hours p)
      then [OUTSIDE_ALLOWED_HOURS] else [])"

definition country_check :: "policy_profile \<Rightarrow> admission_context \<Rightarrow> violation list" where
  "country_check p ctx =
     (case ctx_country ctx of
        None \<Rightarrow> []
      | Some c \<Rightarrow>
          (case allowed_countries p of
             None \<Rightarrow> []
           | Some cs \<Rightarrow> if py_lower c \<notin> set (map py_lower cs) then [COUNTRY_NOT_ALLOWED] else []) @
          (if py_lower c \<in> set (map py_lower (blocked_countries p)) then [COUNTRY_BLOCKED] else []))"

definition asn_check :: "policy_profile \<Rightarrow> admission_context \<Rightarrow> violation list" where
  "asn_check p ctx =
     (case ctx_asn ctx of
        None \<Rightarrow> []
      | Some a \<Rightarrow>
          (case allowed_asns p of None \<Rightarrow> [] | Some as \<Rightarrow> if a \<notin> set as then [ASN_NOT_ALLOWED] else []) @
          (if a \<in> set (blocked_asns p) then [ASN_BLOCKED] else []))"

definition evaluate :: "policy_profile \<Rightarrow> admission_context \<Rightarrow> py_error + policy_decision" where
  "evaluate p ctx =
     rbind (expiry_check p ctx) (\<lambda>ex.
       let vs = ex @ quota_check p ctx @ device_check p ctx @ ip_check p ctx @ hours_check p ctx @
                country_check p ctx @ asn_check p ctx
       in Inr \<lparr>allowed = (vs = []), violations = vs\<rparr>)"

section \<open>Enforcement\<close>

datatype capability = SPEED_LIMIT | GEO_ROUTING | OTHER_CAPABILITY string

definition NATIVE_CAPABILITY :: "(string, capability) dict" where
  "NATIVE_CAPABILITY = [(''speed_limit_kbps'', SPEED_LIMIT), (''country_lock'', GEO_ROUTING)]"

definition enforcement_of :: "capability list \<Rightarrow> string \<Rightarrow> string" where
  "enforcement_of caps constraint =
     (case dict_get NATIVE_CAPABILITY constraint of
        None \<Rightarrow> ''panel''
      | Some required \<Rightarrow> if required \<in> set caps then ''core'' else ''unsupported-on-core (panel fallback)'')"

definition enforcement_map :: "policy_profile \<Rightarrow> capability list \<Rightarrow> (string, string) dict" where
  "enforcement_map p caps =
     fold (\<lambda>c. dict_set c (enforcement_of caps c)) (active_constraints p) []"

record block_rule =
  br_name :: string
  br_geoips :: "string list"
  br_priority :: int

definition to_block_rules :: "policy_profile \<Rightarrow> block_rule list" where
  "to_block_rules p =
     (if blocked_countries p \<noteq> []
      then [\<lparr>br_name = ''policy-country-block'', br_geoips = map py_lower (blocked_countries p), br_priority = 10\<rparr>]
      else [])"

section \<open>Window semantics\<close>

lemma digit_val_le: "is_digit c \<Longrightarrow> digit_val c \<le> 9"
  unfolding is_digit_def digit_val_def Let_def by arith

lemma str_int_two:
  assumes "is_digit a" "is_digit b"
  shows "str_int [a, b] = 10 * int (digit_val a) + int (digit_val b)"
    and "str_int [a, b, CHR 0x0A] = 10 * int (digit_val a) + int (digit_val b)"
proof -
  have sp: "\<not> is_space a" "\<not> is_space b" "is_space (CHR 0x0A)" using assms digit_not_space by auto (simp add: is_space_def)
  have ne: "a \<noteq> CHR ''-''" "a \<noteq> CHR ''+''" using assms(1) sign_not_digit by auto
  have st: "py_strip [a, b] = [a, b]" "py_strip [a, b, CHR 0x0A] = [a, b]" using sp by (simp_all add: py_strip_def)
  show "str_int [a, b] = 10 * int (digit_val a) + int (digit_val b)"
    "str_int [a, b, CHR 0x0A] = 10 * int (digit_val a) + int (digit_val b)"
    using assms ne by (simp_all add: str_int_def int_of_str_def st)
qed

lemma hhmm_core_forms:
  assumes "hhmm_core s"
  obtains a b d e where "s = [a, b, CHR '':'', d, e]" "is_digit a" "is_digit b" "is_digit d" "is_digit e"
    "10 * digit_val a + digit_val b < 24" "10 * digit_val d + digit_val e < 60"
proof -
  obtain a b c d e where s: "s = [a, b, c, d, e]" using assms by (auto simp: hhmm_core_def split: list.splits)
  have dig: "is_digit (CHR ''0'')" "is_digit (CHR ''1'')" "is_digit (CHR ''2'')" "is_digit (CHR ''3'')" "is_digit (CHR ''4'')"
    "is_digit (CHR ''5'')" "digit_val (CHR ''0'') = 0" "digit_val (CHR ''1'') = 1" "digit_val (CHR ''2'') = 2"
    "digit_val (CHR ''3'') = 3" "digit_val (CHR ''4'') = 4" "digit_val (CHR ''5'') = 5"
    by (simp_all add: is_digit_def digit_val_def)
  have "is_digit a" "is_digit b" "is_digit d" "is_digit e" "c = CHR '':''"
    using assms by (auto simp: s hhmm_core_def dig)
  moreover have "10 * digit_val a + digit_val b < 24" "10 * digit_val d + digit_val e < 60"
    using assms digit_val_le [of b] digit_val_le [of e] by (auto simp: s hhmm_core_def dig)
  ultimately show ?thesis using that s by blast
qed

lemma HHMM_minute:
  assumes "HHMM_match s"
  shows "0 \<le> minute_of s" "minute_of s < 1440"
proof -
  obtain t where t: "hhmm_core t" "s = t \<or> s = t @ [CHR 0x0A]"
    using assms unfolding HHMM_match_def by (metis append_butlast_last_id)
  from t(1) obtain a b d e where f: "t = [a, b, CHR '':'', d, e]" "is_digit a" "is_digit b" "is_digit d" "is_digit e"
    "10 * digit_val a + digit_val b < 24" "10 * digit_val d + digit_val e < 60" by (rule hhmm_core_forms)
  have "minute_of s = (10 * int (digit_val a) + int (digit_val b)) * 60 + (10 * int (digit_val d) + int (digit_val e))"
    using t(2) by (auto simp: f(1) minute_of_def str_int_two f(2-5) numeral_3_eq_3)
  moreover have "10 * int (digit_val a) + int (digit_val b) < 24" "10 * int (digit_val d) + int (digit_val e) < 60"
    using f(6,7) by simp_all
  ultimately show "0 \<le> minute_of s" "minute_of s < 1440" by simp_all
qed

lemma make_window_ok:
  assumes "make_window days s e = Inr w"
  shows "HHMM_match (hw_start w)" "HHMM_match (hw_end w)" "\<And>d. d \<in> set (hw_days w) \<Longrightarrow> 0 \<le> d \<and> d < 7"
    "set (hw_days w) = set days"
  using assms
  by (force simp: make_window_def rbind_Inr_iff valid_days_def valid_hhmm_def list_ex_iff split: if_splits)+

text \<open>
  The specification of a window: a set of arcs on the circle of the 10080 minutes of a week. An arc
  starts at the start minute of an allowed day and lasts until the next occurrence of the end
  minute.
\<close>

definition week_minute :: "datetime \<Rightarrow> int" where
  "week_minute t = weekday t * 1440 + dt_hour t * 60 + dt_minute t"

definition window_length :: "hour_window \<Rightarrow> int" where
  "window_length w = (minute_of (hw_end w) - minute_of (hw_start w)) mod 1440"

definition in_arc :: "hour_window \<Rightarrow> int \<Rightarrow> datetime \<Rightarrow> bool" where
  "in_arc w d t \<longleftrightarrow> (week_minute t - (d * 1440 + minute_of (hw_start w))) mod 10080 \<le> window_length w"

lemma mod_wrap: "- n \<le> x \<Longrightarrow> x < 0 \<Longrightarrow> x mod n = x + (n :: int)"
  using mod_pos_pos_trivial [of "x + n" n] by simp

lemma arc_arith:
  fixes day d m s e :: int
  assumes "0 \<le> day" "day < 7" "0 \<le> d" "d < 7" "0 \<le> m" "m < 1440" "0 \<le> s" "s < 1440" "0 \<le> e" "e < 1440"
  shows "(day * 1440 + m - (d * 1440 + s)) mod 10080 \<le> (e - s) mod 1440 \<longleftrightarrow>
    (if s \<le> e then day = d \<and> s \<le> m \<and> m \<le> e else (m \<ge> s \<and> day = d) \<or> (m < s \<and> (day - 1) mod 7 = d \<and> m \<le> e))"
proof -
  define k where "k = (day - d) mod 7"
  have k: "0 \<le> k" "k < 7" unfolding k_def by simp_all
  have kc: "k = (if day \<ge> d then day - d else day - d + 7)"
    using assms(1-4) mod_wrap [of 7 "day - d"] by (simp add: k_def)
  have pc: "(day - 1) mod 7 = (if day = 0 then 6 else day - 1)" using assms(1,2) by (simp add: mod_wrap)
  have k0: "day = d \<longleftrightarrow> k = 0" using assms(1-4) by (simp add: kc)
  have k1: "(day - 1) mod 7 = d \<longleftrightarrow> k = 1" using assms(1-4) unfolding kc pc by simp linarith
  have "(day - d) * 1440 mod 10080 = k * 1440"
    using mult_mod_right [of 1440 "day - d" 7] by (simp add: k_def mult.commute)
  moreover have "day * 1440 + m - (d * 1440 + s) = (day - d) * 1440 + (m - s)" by (simp add: algebra_simps)
  ultimately have "(day * 1440 + m - (d * 1440 + s)) mod 10080 = (k * 1440 + (m - s)) mod 10080"
    using mod_add_left_eq [of "(day - d) * 1440" 10080 "m - s"] by (simp only:)
  also have "\<dots> = (if k = 0 \<and> m < s then 10080 + m - s else k * 1440 + (m - s))"
  proof (cases "k = 0 \<and> m < s")
    case True
    have "(m - s) mod 10080 = (m - s + 10080) mod 10080" by simp
    also have "\<dots> = m - s + 10080" using True assms(5-8) by (intro mod_pos_pos_trivial) auto
    finally show ?thesis using True by simp
  next
    case False
    have "0 \<le> k * 1440 + (m - s)" "k * 1440 + (m - s) < 10080" using False k assms(5-8) by linarith+
    then show ?thesis using False by (simp add: mod_pos_pos_trivial)
  qed
  finally have lhs: "(day * 1440 + m - (d * 1440 + s)) mod 10080 = (if k = 0 \<and> m < s then 10080 + m - s else k * 1440 + (m - s))" .
  have rhs: "(e - s) mod 1440 = (if s \<le> e then e - s else e - s + 1440)"
    using assms(7-10) mod_wrap [of 1440 "e - s"] by simp
  consider "k = 0" | "k = 1" | "2 \<le> k" using k by linarith
  then show ?thesis unfolding lhs rhs k0 k1 using assms(5-10) by cases (simp_all, linarith)
qed

text \<open>
  A validated hour window contains a moment exactly when the moment lies on one of its weekly arcs:
  for an allowed day, at most the window's length after the start minute of that day, the week
  taken as a circle. Same-day and overnight windows are both covered, Sunday night included.
\<close>
lemma window_is_weekly_arcs:
  assumes "make_window days start en = Inr w" "valid_dt t"
  shows "contains w t \<longleftrightarrow> (\<exists>d \<in> set days. in_arc w d t)"
proof -
  note w = make_window_ok [OF assms(1)]
  let ?s = "minute_of (hw_start w)" and ?e = "minute_of (hw_end w)" and ?m = "dt_hour t * 60 + dt_minute t" and ?day = "weekday t"
  have b: "0 \<le> ?s" "?s < 1440" "0 \<le> ?e" "?e < 1440" "0 \<le> ?m" "?m < 1440"
    using HHMM_minute [OF w(1)] HHMM_minute [OF w(2)] assms(2) by (auto simp: valid_dt_def)
  have arc: "in_arc w d t \<longleftrightarrow> (if ?s \<le> ?e then ?day = d \<and> ?s \<le> ?m \<and> ?m \<le> ?e
      else (?m \<ge> ?s \<and> ?day = d) \<or> (?m < ?s \<and> (?day - 1) mod 7 = d \<and> ?m \<le> ?e))" if "d \<in> set days" for d
    using arc_arith [of ?day d ?m ?s ?e] w(3) [of d] that w(4) b weekday_range [of t]
    by (simp add: in_arc_def week_minute_def window_length_def add.assoc)
  show ?thesis
  proof (cases "?s \<le> ?e")
    case True
    then show ?thesis using arc by (auto simp: contains_def w(4) Let_def)
  next
    case False
    then show ?thesis using arc by (auto simp: contains_def w(4) Let_def)
  qed
qed

definition ex_moment :: "int \<Rightarrow> datetime" where
  "ex_moment h = \<lparr>dt_year = 2025, dt_month = 6, dt_day = 2, dt_hour = h, dt_minute = 30, dt_second = 0, dt_us = 0, dt_utcoff = Some 0\<rparr>"

lemma window_is_weekly_arcs_example:
  "\<exists>w. make_window [6] ''22:00'' ''06:00'' = Inr w \<and> contains w (ex_moment 5) \<and> in_arc w 6 (ex_moment 5)"
proof -
  define w where "w = \<lparr>hw_days = [6], hw_start = ''22:00'', hw_end = ''06:00''\<rparr>"
  have w: "make_window [6] ''22:00'' ''06:00'' = Inr w" "hw_start w = ''22:00''" "hw_end w = ''06:00''" "hw_days w = [6]"
    by (simp_all add: w_def make_window_def valid_days_def valid_hhmm_def HHMM_match_def hhmm_core_def is_digit_def)
  have v: "valid_dt (ex_moment 5)" by (simp add: valid_dt_def ex_moment_def days_in_month_def)
  have m: "minute_of ''22:00'' = 1320" "minute_of ''06:00'' = 360" "weekday (ex_moment 5) = 0" by code_simp+
  have c: "contains w (ex_moment 5)" by (simp add: contains_def w m, simp add: ex_moment_def)
  with window_is_weekly_arcs [OF w(1) v] w(1) show ?thesis by auto
qed


section \<open>Admission\<close>

definition admissible :: "policy_profile \<Rightarrow> admission_context \<Rightarrow> bool" where
  "admissible p ctx \<longleftrightarrow>
     (\<forall>t. expire_at p = Some t \<longrightarrow> instant (ctx_now ctx) < instant t) \<and>
     (\<forall>l. data_limit_bytes p = Some l \<longrightarrow> ctx_used_bytes ctx < l) \<and>
     (\<forall>l. device_limit p = Some l \<longrightarrow> int (length (ctx_active_device_uids ctx)) < l \<or>
        ctx_device_uid ctx \<in> set (ctx_active_device_uids ctx)) \<and>
     (\<forall>l ip. max_ips p = Some l \<longrightarrow> ctx_client_ip ctx = Some ip \<longrightarrow>
        ip \<in> set (ctx_active_ips ctx) \<or> int (card (insert ip (set (ctx_active_ips ctx)))) \<le> l) \<and>
     (allowed_hours p = [] \<or> (\<exists>w \<in> set (allowed_hours p). contains w (ctx_now ctx))) \<and>
     (\<forall>c. ctx_country ctx = Some c \<longrightarrow>
        (\<forall>cs. allowed_countries p = Some cs \<longrightarrow> (\<exists>c' \<in> set cs. py_lower c' = py_lower c)) \<and>
        (\<forall>c' \<in> set (blocked_countries p). py_lower c' \<noteq> py_lower c)) \<and>
     (\<forall>a. ctx_asn ctx = Some a \<longrightarrow> (\<forall>as. allowed_asns p = Some as \<longrightarrow> a \<in> set as) \<and> a \<notin> set (blocked_asns p))"

lemma checks_empty:
  "quota_check p ctx = [] \<longleftrightarrow> (\<forall>l. data_limit_bytes p = Some l \<longrightarrow> ctx_used_bytes ctx < l)"
  "device_check p ctx = [] \<longleftrightarrow> (\<forall>l. device_limit p = Some l \<longrightarrow> int (length (ctx_active_device_uids ctx)) < l \<or>
        ctx_device_uid ctx \<in> set (ctx_active_device_uids ctx))"
  "hours_check p ctx = [] \<longleftrightarrow> allowed_hours p = [] \<or> (\<exists>w \<in> set (allowed_hours p). contains w (ctx_now ctx))"
  "country_check p ctx = [] \<longleftrightarrow> (\<forall>c. ctx_country ctx = Some c \<longrightarrow>
        (\<forall>cs. allowed_countries p = Some cs \<longrightarrow> (\<exists>c' \<in> set cs. py_lower c' = py_lower c)) \<and>
        (\<forall>c' \<in> set (blocked_countries p). py_lower c' \<noteq> py_lower c))"
  "asn_check p ctx = [] \<longleftrightarrow>
     (\<forall>a. ctx_asn ctx = Some a \<longrightarrow> (\<forall>as. allowed_asns p = Some as \<longrightarrow> a \<in> set as) \<and> a \<notin> set (blocked_asns p))"
proof -
  show "quota_check p ctx = [] \<longleftrightarrow> (\<forall>l. data_limit_bytes p = Some l \<longrightarrow> ctx_used_bytes ctx < l)"
    by (auto simp: quota_check_def split: option.splits)
  show "device_check p ctx = [] \<longleftrightarrow> (\<forall>l. device_limit p = Some l \<longrightarrow> int (length (ctx_active_device_uids ctx)) < l \<or>
        ctx_device_uid ctx \<in> set (ctx_active_device_uids ctx))"
    by (auto simp: device_check_def split: option.splits)
  show "hours_check p ctx = [] \<longleftrightarrow> allowed_hours p = [] \<or> (\<exists>w \<in> set (allowed_hours p). contains w (ctx_now ctx))"
    by (auto simp: hours_check_def list_ex_iff)
  show "country_check p ctx = [] \<longleftrightarrow> (\<forall>c. ctx_country ctx = Some c \<longrightarrow>
        (\<forall>cs. allowed_countries p = Some cs \<longrightarrow> (\<exists>c' \<in> set cs. py_lower c' = py_lower c)) \<and>
        (\<forall>c' \<in> set (blocked_countries p). py_lower c' \<noteq> py_lower c))"
    by (cases "ctx_country ctx"; cases "allowed_countries p") (auto simp: country_check_def image_iff)
  show "asn_check p ctx = [] \<longleftrightarrow>
     (\<forall>a. ctx_asn ctx = Some a \<longrightarrow> (\<forall>as. allowed_asns p = Some as \<longrightarrow> a \<in> set as) \<and> a \<notin> set (blocked_asns p))"
    by (cases "ctx_asn ctx"; cases "allowed_asns p") (auto simp: asn_check_def)
qed

lemma ip_check_empty:
  "ip_check p ctx = [] \<longleftrightarrow> (\<forall>l ip. max_ips p = Some l \<longrightarrow> ctx_client_ip ctx = Some ip \<longrightarrow>
        ip \<in> set (ctx_active_ips ctx) \<or> int (card (insert ip (set (ctx_active_ips ctx)))) \<le> l)"
  by (cases "max_ips p"; cases "ctx_client_ip ctx") (auto simp: ip_check_def length_remdups_card_conv card_insert_if)

text \<open>
  The engine admits a connection exactly when it is admissible: not expired, under quota, a known
  device or a free device slot, an address that keeps the number of distinct addresses within the
  cap, inside an allowed hour window, and a country and network that the allow and block lists
  (compared without regard to case for countries) permit. It raises exactly when the
  expiry is naive and the clock aware or the other way round.
\<close>
lemma evaluate_admits_iff_admissible:
  "evaluate p ctx =
     (if \<exists>t. expire_at p = Some t \<and> is_naive t \<noteq> is_naive (ctx_now ctx) then Inl TypeError
      else Inr \<lparr>allowed = admissible p ctx,
        violations = (if \<exists>t. expire_at p = Some t \<and> instant t \<le> instant (ctx_now ctx) then [EXPIRED] else []) @
          quota_check p ctx @ device_check p ctx @ ip_check p ctx @ hours_check p ctx @ country_check p ctx @ asn_check p ctx\<rparr>)"
proof -
  have adm: "admissible p ctx \<longleftrightarrow> (\<forall>t. expire_at p = Some t \<longrightarrow> instant (ctx_now ctx) < instant t) \<and> quota_check p ctx = [] \<and>
      device_check p ctx = [] \<and> ip_check p ctx = [] \<and> hours_check p ctx = [] \<and> country_check p ctx = [] \<and> asn_check p ctx = []"
    unfolding admissible_def checks_empty ip_check_empty by blast
  show ?thesis
    by (cases "expire_at p") (auto simp: evaluate_def expiry_check_def dt_ge_def adm Let_def)
qed

lemma enforcement_fold:
  "dict_get (fold (\<lambda>c. dict_set c (enforcement_of caps c)) cs d) k =
     (if k \<in> set cs then Some (enforcement_of caps k) else dict_get d k)"
  by (induction cs arbitrary: d) auto

text \<open>The enforcement map names every active constraint of a profile and no other, and only the speed
  limit and the country lock are ever attributed to a core, and then only to one that advertises
  the matching capability; everything else is the panel's.
\<close>
lemma enforcement_map_exact:
  "dict_get (enforcement_map p caps) c =
     (if c \<notin> set (active_constraints p) then None
      else Some (if c = ''speed_limit_kbps'' then (if SPEED_LIMIT \<in> set caps then ''core'' else ''unsupported-on-core (panel fallback)'')
                 else if c = ''country_lock'' then (if GEO_ROUTING \<in> set caps then ''core'' else ''unsupported-on-core (panel fallback)'')
                 else ''panel''))"
  unfolding enforcement_map_def enforcement_fold by (simp add: enforcement_of_def NATIVE_CAPABILITY_def)

end
