(* ===== verification/JsonPatch.thy ===== *)
theory JsonPatch
  imports PyValue
begin

text \<open>
  JSON Patch (\<open>app/studio/jsonpatch.py\<close>) on dynamically typed documents. The source changes the
  parent container of the target in place inside a private deep copy; a document is a tree without
  sharing, so the model rebuilds the tree along the pointer. An operation's value is inserted by
  reference in the source, which is the same thing as long as the operations of one patch do not
  share values and are applied once.
\<close>

section \<open>Pointers and errors\<close>

record patch_error =
  pe_message :: string
  pe_pointer :: string
  pe_op :: string

definition patch_err :: "string \<Rightarrow> string \<Rightarrow> patch_error" where
  "patch_err msg pointer = \<lparr>pe_message = msg, pe_pointer = pointer, pe_op = []\<rparr>"

text \<open>\<open>s.replace("~x", r)\<close> for a two-character pattern.\<close>

fun replace_tilde :: "char \<Rightarrow> char \<Rightarrow> string \<Rightarrow> string" where
  "replace_tilde x r (a # b # cs) =
     (if a = CHR ''~'' \<and> b = x then r # replace_tilde x r cs else a # replace_tilde x r (b # cs))"
| "replace_tilde x r cs = cs"

definition unescape :: "string \<Rightarrow> string" where
  "unescape seg = replace_tilde (CHR ''0'') (CHR ''~'') (replace_tilde (CHR ''1'') (CHR ''/'') seg)"

definition split_pointer :: "string \<Rightarrow> patch_error + string list" where
  "split_pointer pointer =
     (case pointer of
        [] \<Rightarrow> Inr []
      | c # cs \<Rightarrow>
          if c \<noteq> CHR ''/'' then Inl (patch_err ''JSON pointer must start with /'' pointer)
          else Inr (map unescape (split_on (CHR ''/'') cs)))"

definition joined :: "string list \<Rightarrow> string" where
  "joined segments = CHR ''/'' # join_with ''/'' segments"

text \<open>An array index as the source reads it: \<open>int(seg)\<close>.\<close>

definition seg_index :: "string \<Rightarrow> string \<Rightarrow> patch_error + int" where
  "seg_index pointer seg = (case int_of_str seg of None \<Rightarrow> Inl (patch_err ''bad array index'' pointer) | Some i \<Rightarrow> Inr i)"

section \<open>Walking\<close>

definition child :: "string \<Rightarrow> pyval \<Rightarrow> string \<Rightarrow> patch_error + pyval" where
  "child pointer node seg =
     (case node of
        VDict d \<Rightarrow> (case dict_get d seg of None \<Rightarrow> Inl (patch_err ''missing key'' pointer) | Some v \<Rightarrow> Inr v)
      | VList xs \<Rightarrow>
          if seg = ''-'' then Inl (patch_err ''- only valid as final segment'' pointer)
          else rbind (seg_index pointer seg) (\<lambda>i.
            if 0 \<le> i \<and> i < int (length xs) then Inr (xs ! nat i) else Inl (patch_err ''array index out of range'' pointer))
      | _ \<Rightarrow> Inl (patch_err ''cannot descend into scalar'' pointer))"

fun resolve_from :: "string \<Rightarrow> pyval \<Rightarrow> string list \<Rightarrow> patch_error + pyval" where
  "resolve_from pointer node [] = Inr node"
| "resolve_from pointer node (seg # segs) = rbind (child pointer node seg) (\<lambda>v. resolve_from pointer v segs)"

definition resolve :: "pyval \<Rightarrow> string list \<Rightarrow> patch_error + pyval" where
  "resolve doc segments = resolve_from (joined segments) doc segments"

definition get_at :: "pyval \<Rightarrow> string \<Rightarrow> patch_error + pyval" where
  "get_at doc pointer = rbind (split_pointer pointer) (resolve doc)"

text \<open>Write back a child that \<open>child\<close> found.\<close>

definition set_child :: "pyval \<Rightarrow> string \<Rightarrow> pyval \<Rightarrow> pyval" where
  "set_child node seg v =
     (case node of
        VDict d \<Rightarrow> VDict (dict_set seg v d)
      | VList xs \<Rightarrow> (case int_of_str seg of None \<Rightarrow> node | Some i \<Rightarrow> VList (xs[nat i := v]))
      | _ \<Rightarrow> node)"

text \<open>Find the container at \<open>segs\<close>, change it, and return the changed document.\<close>

fun modify_from :: "string \<Rightarrow> (pyval \<Rightarrow> patch_error + pyval \<times> 'a) \<Rightarrow> pyval \<Rightarrow> string list \<Rightarrow> patch_error + pyval \<times> 'a" where
  "modify_from pointer f node [] = f node"
| "modify_from pointer f node (seg # segs) =
     rbind (child pointer node seg) (\<lambda>v.
     rbind (modify_from pointer f v segs) (\<lambda>(v', r). Inr (set_child node seg v', r)))"

definition modify_parent ::
  "pyval \<Rightarrow> string list \<Rightarrow> (pyval \<Rightarrow> string \<Rightarrow> patch_error + pyval \<times> 'a) \<Rightarrow> patch_error + pyval \<times> 'a" where
  "modify_parent doc segments f =
     modify_from (joined (butlast segments)) (\<lambda>parent. f parent (last segments)) doc (butlast segments)"

section \<open>Operations\<close>

definition add_child :: "string \<Rightarrow> pyval \<Rightarrow> pyval \<Rightarrow> string \<Rightarrow> patch_error + pyval \<times> unit" where
  "add_child pointer value parent key =
     (case parent of
        VDict d \<Rightarrow> Inr (VDict (dict_set key value d), ())
      | VList xs \<Rightarrow>
          if key = ''-'' then Inr (VList (xs @ [value]), ())
          else rbind (seg_index pointer key) (\<lambda>i.
            if 0 \<le> i \<and> i \<le> int (length xs) then Inr (VList (take (nat i) xs @ value # drop (nat i) xs), ())
            else Inl (patch_err ''array index out of range'' pointer))
      | _ \<Rightarrow> Inl (patch_err ''add target parent is not a container'' pointer))"

definition add_op :: "pyval \<Rightarrow> string \<Rightarrow> pyval \<Rightarrow> patch_error + pyval" where
  "add_op doc pointer value =
     rbind (split_pointer pointer) (\<lambda>segments.
       if segments = [] then Inr value
       else rbind (modify_parent doc segments (add_child pointer value)) (\<lambda>(d, u). Inr d))"

definition remove_child :: "string \<Rightarrow> pyval \<Rightarrow> string \<Rightarrow> patch_error + pyval \<times> pyval" where
  "remove_child pointer parent key =
     (case parent of
        VDict d \<Rightarrow>
          (case dict_get d key of
             None \<Rightarrow> Inl (patch_err ''missing key'' pointer)
           | Some v \<Rightarrow> Inr (VDict (dict_pop key d), v))
      | VList xs \<Rightarrow>
          rbind (seg_index pointer key) (\<lambda>i.
            if 0 \<le> i \<and> i < int (length xs) then Inr (VList (take (nat i) xs @ drop (Suc (nat i)) xs), xs ! nat i)
            else Inl (patch_err ''array index out of range'' pointer))
      | _ \<Rightarrow> Inl (patch_err ''remove target parent is not a container'' pointer))"

definition remove_op :: "pyval \<Rightarrow> string \<Rightarrow> patch_error + pyval \<times> pyval" where
  "remove_op doc pointer =
     rbind (split_pointer pointer) (\<lambda>segments.
       if segments = [] then Inl (patch_err ''cannot remove the document root'' pointer)
       else modify_parent doc segments (remove_child pointer))"

definition replace_child :: "string \<Rightarrow> pyval \<Rightarrow> pyval \<Rightarrow> string \<Rightarrow> patch_error + pyval \<times> unit" where
  "replace_child pointer value parent key =
     (case parent of
        VDict d \<Rightarrow>
          (case dict_get d key of
             None \<Rightarrow> Inl (patch_err ''missing key'' pointer)
           | Some v \<Rightarrow> Inr (VDict (dict_set key value d), ()))
      | VList xs \<Rightarrow>
          rbind (seg_index pointer key) (\<lambda>i.
            if 0 \<le> i \<and> i < int (length xs) then Inr (VList (xs[nat i := value]), ())
            else Inl (patch_err ''array index out of range'' pointer))
      | _ \<Rightarrow> Inl (patch_err ''replace target parent is not a container'' pointer))"

definition replace_op :: "pyval \<Rightarrow> string \<Rightarrow> pyval \<Rightarrow> patch_error + pyval" where
  "replace_op doc pointer value =
     rbind (split_pointer pointer) (\<lambda>segments.
       if segments = [] then Inr value
       else rbind (modify_parent doc segments (replace_child pointer value)) (\<lambda>(d, u). Inr d))"

definition deep_equal :: "pyval \<Rightarrow> pyval \<Rightarrow> bool" where
  "deep_equal a b = py_eq a b"

datatype op_kind = OpAdd | OpRemove | OpReplace | OpMove | OpCopy | OpTest

record patch_operation =
  po_op :: op_kind
  po_path :: string
  po_from :: "string option"
  po_value :: pyval

definition op_name :: "op_kind \<Rightarrow> string" where
  "op_name k =
     (case k of OpAdd \<Rightarrow> ''add'' | OpRemove \<Rightarrow> ''remove'' | OpReplace \<Rightarrow> ''replace'' | OpMove \<Rightarrow> ''move''
      | OpCopy \<Rightarrow> ''copy'' | OpTest \<Rightarrow> ''test'')"

text \<open>\<open>if not operation.from_\<close>: missing and empty are the same.\<close>

definition from_pointer :: "patch_operation \<Rightarrow> patch_error + string" where
  "from_pointer o1 =
     (case po_from o1 of
        None \<Rightarrow> Inl \<lparr>pe_message = ''requires from'', pe_pointer = [], pe_op = op_name (po_op o1)\<rparr>
      | Some f \<Rightarrow>
          if f = [] then Inl \<lparr>pe_message = ''requires from'', pe_pointer = [], pe_op = op_name (po_op o1)\<rparr> else Inr f)"

definition run_op :: "pyval \<Rightarrow> patch_operation \<Rightarrow> patch_error + pyval" where
  "run_op doc o1 =
     (case po_op o1 of
        OpAdd \<Rightarrow> add_op doc (po_path o1) (po_value o1)
      | OpRemove \<Rightarrow> rbind (remove_op doc (po_path o1)) (\<lambda>(d, v). Inr d)
      | OpReplace \<Rightarrow> replace_op doc (po_path o1) (po_value o1)
      | OpMove \<Rightarrow> rbind (from_pointer o1) (\<lambda>f. rbind (remove_op doc f) (\<lambda>(d, v). add_op d (po_path o1) v))
      | OpCopy \<Rightarrow> rbind (from_pointer o1) (\<lambda>f. rbind (get_at doc f) (\<lambda>v. add_op doc (po_path o1) v))
      | OpTest \<Rightarrow> rbind (get_at doc (po_path o1)) (\<lambda>v.
          if deep_equal v (po_value o1) then Inr doc else Inl (patch_err ''test failed: value mismatch'' (po_path o1))))"

definition wrap_error :: "nat \<Rightarrow> patch_operation \<Rightarrow> patch_error \<Rightarrow> patch_error" where
  "wrap_error i o1 e =
     \<lparr>pe_message = ''patch #'' @ int_to_str (int i) @ '' ('' @ op_name (po_op o1) @ '') failed: '' @ pe_message e,
      pe_pointer = (if pe_pointer e = [] then po_path o1 else pe_pointer e),
      pe_op = (if pe_op e = [] then op_name (po_op o1) else pe_op e)\<rparr>"

fun apply_from :: "nat \<Rightarrow> pyval \<Rightarrow> patch_operation list \<Rightarrow> patch_error + pyval" where
  "apply_from i doc [] = Inr doc"
| "apply_from i doc (o1 # ops) =
     (case run_op doc o1 of Inl e \<Rightarrow> Inl (wrap_error i o1 e) | Inr d \<Rightarrow> apply_from (Suc i) d ops)"

definition apply_patches :: "pyval \<Rightarrow> patch_operation list \<Rightarrow> patch_error + pyval" where
  "apply_patches document operations = apply_from 0 document operations"

section \<open>Reading back a write\<close>

lemma child_set_child:
  assumes "child p node seg = Inr v"
  shows "child q (set_child node seg v') seg = Inr v'"
  using assms
  by (auto simp: child_def set_child_def seg_index_def rbind_Inr_iff split: pyval.splits option.splits if_splits)

lemma resolve_append: "resolve_from p node (xs @ ys) = rbind (resolve_from p node xs) (\<lambda>v. resolve_from p v ys)"
  by (induction xs arbitrary: node) (auto simp: rbind_assoc)

lemma modify_resolve:
  assumes "modify_from p f node segs = Inr (node', r)"
  shows "\<exists>v v'. resolve_from p node segs = Inr v \<and> f v = Inr (v', r) \<and> resolve_from q node' segs = Inr v'"
  using assms
proof (induction segs arbitrary: node node')
  case Nil
  then show ?case by simp
next
  case (Cons s segs)
  then obtain c c' where c: "child p node s = Inr c" "modify_from p f c segs = Inr (c', r)" "node' = set_child node s c'"
    by (auto simp: rbind_Inr_iff)
  from Cons.IH [OF c(2)] obtain v v' where "resolve_from p c segs = Inr v" "f v = Inr (v', r)" "resolve_from q c' segs = Inr v'"
    by blast
  then show ?case using c(1) child_set_child [OF c(1), of q c'] by (auto simp: c(3))
qed

lemma add_child_get:
  assumes "add_child p value parent key = Inr (parent', u)" "key \<noteq> ''-'' \<or> (\<exists>d. parent = VDict d)"
  shows "child q parent' key = Inr value"
  using assms
  by (auto simp: add_child_def child_def seg_index_def rbind_Inr_iff nth_append split: pyval.splits option.splits if_splits)

lemma replace_child_get:
  assumes "replace_child p value parent key = Inr (parent', u)"
  shows "child q parent' key = Inr value \<or> key = ''-''"
  using assms
  by (auto simp: replace_child_def child_def seg_index_def rbind_Inr_iff split: pyval.splits option.splits if_splits)

lemma minus_no_index: "int_of_str ''-'' = None"
  by (simp add: int_of_str_def py_strip_def is_space_def)

lemma resolve_pointer: "resolve_from p node segs = Inr v \<Longrightarrow> resolve_from q node segs = Inr v"
proof (induction segs arbitrary: node)
  case (Cons s segs)
  then obtain c where c: "child p node s = Inr c" "resolve_from p c segs = Inr v" by (auto simp: rbind_Inr_iff)
  then have "child q node s = Inr c"
    by (auto simp: child_def seg_index_def rbind_Inr_iff split: pyval.splits option.splits if_splits)
  with Cons.IH [OF c(2)] show ?case by simp
qed simp

text \<open>
  Writing and reading agree. After a successful \<open>add\<close> or \<open>replace\<close> at a pointer whose last
  segment is not the append marker, reading that pointer returns the written value, at any depth
  and through objects and arrays alike.
\<close>
lemma patch_write_then_read:
  assumes "add_op doc pointer value = Inr doc' \<or> replace_op doc pointer value = Inr doc'"
    "split_pointer pointer = Inr segs" "segs = [] \<or> last segs \<noteq> ''-''"
  shows "get_at doc' pointer = Inr value"
proof (cases "segs = []")
  case True
  then show ?thesis using assms by (auto simp: add_op_def replace_op_def get_at_def resolve_def)
next
  case False
  define f where "f = (\<lambda>parent. add_child pointer value parent (last segs))"
  define g where "g = (\<lambda>parent. replace_child pointer value parent (last segs))"
  let ?p = "joined (butlast segs)" and ?q = "joined segs"
  have "\<exists>v'. resolve_from ?q doc' (butlast segs) = Inr v' \<and> child ?q v' (last segs) = Inr value"
    using assms(1)
  proof
    assume "add_op doc pointer value = Inr doc'"
    then have "modify_from ?p f doc (butlast segs) = Inr (doc', ())"
      using assms(2) False by (auto simp: add_op_def modify_parent_def rbind_Inr_iff f_def)
    from modify_resolve [OF this, of ?q] obtain v v' where v: "f v = Inr (v', ())" "resolve_from ?q doc' (butlast segs) = Inr v'"
      by blast
    then show ?thesis using add_child_get [of pointer "value" v "last segs" v' "()" ?q] assms(3) False by (auto simp: f_def)
  next
    assume "replace_op doc pointer value = Inr doc'"
    then have "modify_from ?p g doc (butlast segs) = Inr (doc', ())"
      using assms(2) False by (auto simp: replace_op_def modify_parent_def rbind_Inr_iff g_def)
    from modify_resolve [OF this, of ?q] obtain v v' where v: "g v = Inr (v', ())" "resolve_from ?q doc' (butlast segs) = Inr v'"
      by blast
    then show ?thesis using replace_child_get [of pointer "value" v "last segs" v' "()" ?q] assms(3) False by (auto simp: g_def)
  qed
  then show ?thesis
    using assms(2) False resolve_append [of ?q doc' "butlast segs" "[last segs]"]
    by (auto simp: get_at_def resolve_def)
qed

lemma patch_write_then_read_example:
  "get_at (VDict [(''a'', VList [VInt 1, VInt 9, VInt 2])]) ''/a/1'' = Inr (VInt 9)"
proof -
  have i: "int_of_str ''1'' = Some 1" by code_simp
  have s: "split_pointer ''/a/1'' = Inr [''a'', ''1'']" by (simp add: split_pointer_def unescape_def)
  have "add_op (VDict [(''a'', VList [VInt 1, VInt 2])]) ''/a/1'' (VInt 9) = Inr (VDict [(''a'', VList [VInt 1, VInt 9, VInt 2])])"
    by (simp add: add_op_def s modify_parent_def add_child_def child_def set_child_def seg_index_def i)
  from patch_write_then_read [OF disjI1 [OF this] s] show ?thesis by simp
qed


section \<open>Well-formed documents\<close>

lemma list_all_update: "list_all P xs \<Longrightarrow> P v \<Longrightarrow> list_all P (xs[i := v])"
  by (auto simp: list_all_iff dest!: set_update_subset_insert [THEN subsetD])

lemma list_all_nth: "list_all P xs \<Longrightarrow> i < length xs \<Longrightarrow> P (xs ! i)"
  by (simp add: list_all_length)

lemma child_wf: "wf_val node \<Longrightarrow> child p node seg = Inr v \<Longrightarrow> wf_val v"
  by (auto simp del: wf_val.simps(2) simp: child_def rbind_Inr_iff intro: list_all_nth dest: wf_val_dict_get
      split: pyval.splits option.splits if_splits)

lemma resolve_wf: "wf_val node \<Longrightarrow> resolve_from p node segs = Inr v \<Longrightarrow> wf_val v"
  by (induction segs arbitrary: node) (auto simp: rbind_Inr_iff dest: child_wf)

lemma set_child_wf: "wf_val node \<Longrightarrow> wf_val v \<Longrightarrow> wf_val (set_child node seg v)"
  by (cases node)
    (auto simp del: wf_val.simps(2) simp: set_child_def wf_val_dict_set list_all_update split: option.splits)

lemma modify_wf:
  assumes "modify_from p f node segs = Inr (node', r)" "wf_val node"
    "\<And>v v'. wf_val v \<Longrightarrow> f v = Inr (v', r) \<Longrightarrow> wf_val v'"
  shows "wf_val node'"
  using assms(1,2)
proof (induction segs arbitrary: node node')
  case Nil
  then show ?case using assms(3) by simp
next
  case (Cons s segs)
  then obtain c c' where c: "child p node s = Inr c" "modify_from p f c segs = Inr (c', r)" "node' = set_child node s c'"
    by (auto simp: rbind_Inr_iff)
  then show ?case using Cons.IH [OF c(2)] Cons.prems(2) by (simp add: child_wf set_child_wf)
qed

lemma list_all_take_drop: "list_all P xs \<Longrightarrow> list_all P (take n xs) \<and> list_all P (drop n xs)"
  by (metis append_take_drop_id list_all_append)

lemma add_child_wf: "wf_val v \<Longrightarrow> wf_val parent \<Longrightarrow> add_child p v parent key = Inr (parent', u) \<Longrightarrow> wf_val parent'"
  by (auto simp del: wf_val.simps(2) simp: add_child_def rbind_Inr_iff wf_val_dict_set list_all_take_drop
      split: pyval.splits if_splits)

lemma replace_child_wf: "wf_val v \<Longrightarrow> wf_val parent \<Longrightarrow> replace_child p v parent key = Inr (parent', u) \<Longrightarrow> wf_val parent'"
  by (auto simp del: wf_val.simps(2) simp: replace_child_def rbind_Inr_iff wf_val_dict_set list_all_update
      split: pyval.splits if_splits option.splits)

lemma remove_child_wf:
  "wf_val parent \<Longrightarrow> remove_child p parent key = Inr (parent', v) \<Longrightarrow> wf_val parent' \<and> wf_val v"
  by (auto simp del: wf_val.simps(2) simp: remove_child_def rbind_Inr_iff wf_val_dict_pop list_all_take_drop
      intro: list_all_nth dest: wf_val_dict_get split: pyval.splits if_splits option.splits)

lemma add_op_wf: "wf_val doc \<Longrightarrow> wf_val v \<Longrightarrow> add_op doc p v = Inr doc' \<Longrightarrow> wf_val doc'"
  by (auto simp: add_op_def modify_parent_def rbind_Inr_iff intro: modify_wf add_child_wf split: if_splits)

lemma replace_op_wf: "wf_val doc \<Longrightarrow> wf_val v \<Longrightarrow> replace_op doc p v = Inr doc' \<Longrightarrow> wf_val doc'"
  by (auto simp: replace_op_def modify_parent_def rbind_Inr_iff intro: modify_wf replace_child_wf split: if_splits)

lemma remove_op_wf:
  assumes "wf_val doc" "remove_op doc p = Inr (doc', v)"
  shows "wf_val doc' \<and> wf_val v"
proof -
  obtain segs where m: "modify_from (joined (butlast segs)) (\<lambda>parent. remove_child p parent (last segs)) doc (butlast segs) = Inr (doc', v)"
    using assms(2) by (auto simp: remove_op_def modify_parent_def rbind_Inr_iff split: if_splits)
  from modify_resolve [OF m] obtain w w' where w: "resolve_from (joined (butlast segs)) doc (butlast segs) = Inr w"
    "remove_child p w (last segs) = Inr (w', v)" by blast
  have "wf_val w" by (rule resolve_wf [OF assms(1) w(1)])
  then show ?thesis
    using modify_wf [OF m assms(1)] remove_child_wf [OF _ w(2)] remove_child_wf by blast
qed

lemma run_op_wf:
  assumes "wf_val doc" "wf_val (po_value o1)" "run_op doc o1 = Inr doc'"
  shows "wf_val doc'"
proof -
  have g: "wf_val v" if "get_at doc f = Inr v" for f v
    using that assms(1) by (auto simp: get_at_def resolve_def rbind_Inr_iff dest: resolve_wf)
  show ?thesis
    using assms
    by (auto simp: run_op_def rbind_Inr_iff dest: add_op_wf replace_op_wf remove_op_wf g split: op_kind.splits if_splits)
qed

lemma apply_from_wf:
  "apply_from i doc ops = Inr doc' \<Longrightarrow> wf_val doc \<Longrightarrow> \<forall>o1 \<in> set ops. wf_val (po_value o1) \<Longrightarrow> wf_val doc'"
  by (induction ops arbitrary: i doc) (auto split: sum.splits intro: run_op_wf)

text \<open>
  A patch keeps documents well formed: applied to a document whose objects have distinct keys, with
  operation values of that kind, every successful patch yields such a document again, whatever its
  operations.
\<close>
lemma patches_keep_documents_wf:
  assumes "apply_patches doc ops = Inr doc'" "wf_val doc" "\<forall>o1 \<in> set ops. wf_val (po_value o1)"
  shows "wf_val doc'"
  using assms unfolding apply_patches_def by (rule apply_from_wf)

lemma patches_keep_documents_wf_example:
  "wf_val (VDict [(''b'', VInt 1)])"
proof -
  have "apply_patches (VDict [(''a'', VInt 1)]) [\<lparr>po_op = OpMove, po_path = ''/b'', po_from = Some ''/a'', po_value = VNone\<rparr>]
      = Inr (VDict [(''b'', VInt 1)])"
    by (simp add: apply_patches_def run_op_def from_pointer_def remove_op_def add_op_def split_pointer_def unescape_def
        modify_parent_def remove_child_def add_child_def)
  from patches_keep_documents_wf [OF this] show ?thesis by simp
qed

section \<open>Departures from RFC 6902\<close>

text \<open>
  Three departures from the RFC the module claims to implement strictly. A \<open>test\<close> of the boolean
  true against the number one succeeds; array indices with a leading zero, a sign, surrounding
  blanks or digit separators are accepted; and the pointer in a lookup error is rebuilt from
  unescaped segments, so it names another location when a key contains a slash.
\<close>
lemma patch_rfc_departures:
  "apply_patches (VBool True) [\<lparr>po_op = OpTest, po_path = [], po_from = None, po_value = VInt 1\<rparr>] = Inr (VBool True) \<and>
   get_at (VList [VInt 5, VInt 6]) ''/01'' = Inr (VInt 6) \<and> get_at (VList [VInt 5, VInt 6]) ''/+1'' = Inr (VInt 6) \<and>
   get_at (VList [VInt 5, VInt 6]) ''/ 1'' = Inr (VInt 6) \<and> get_at (VList [VInt 5, VInt 6]) ''/0_1'' = Inr (VInt 6) \<and>
   add_op (VDict [(''a'', VDict [(''b'', VDict [])])]) ''/a~1b/x'' VNone = Inl (patch_err ''missing key'' ''/a/b'') \<and>
   get_at (VDict [(''a'', VDict [(''b'', VDict [])])]) ''/a/b'' = Inr (VDict [])"
proof -
  have i: "int_of_str ''01'' = Some 1" "int_of_str ''+1'' = Some 1" "int_of_str '' 1'' = Some 1" "int_of_str ''0_1'' = Some 1"
    by code_simp+
  show ?thesis
    by (simp add: apply_patches_def run_op_def get_at_def split_pointer_def resolve_def deep_equal_def unescape_def child_def
        seg_index_def i add_op_def modify_parent_def joined_def)
qed

end
