(* ===== verification/QrCode.thy ===== *)
theory QrCode
  imports Base64
begin

text \<open>
  The codeword half of the QR generator (\<open>app/cores/qr.py\<close>): the tables of the standard, arithmetic in
  GF(256), Reed-Solomon remainders, version selection, data encoding and block interleaving. Bytes
  are 8-bit words; the log and antilog tables hold integers, as in the source. Versions are the
  numbers 1 to 40; the drawing half is in \<open>QrMatrix\<close>.
\<close>

unbundle bit_operations_syntax

section \<open>Tables\<close>

datatype ecc_level = LOW | MEDIUM

definition ecc_format_bits :: "ecc_level \<Rightarrow> int" where
  "ecc_format_bits lvl = (if lvl = LOW then 1 else 0)"

definition TOTAL_CODEWORDS :: "nat list" where
  "TOTAL_CODEWORDS =
     [26, 44, 70, 100, 134, 172, 196, 242, 292, 346, 404, 466, 532, 581, 655, 733, 815, 901, 991, 
     1085, 1156, 1258, 1364, 1474, 1588, 1706, 1828, 1921, 2051, 2185, 2323, 2465, 2611, 2761, 2876, 
     3034, 3196, 3362, 3462, 3606]"

definition ECC_PER_BLOCK :: "ecc_level \<Rightarrow> nat list" where
  "ECC_PER_BLOCK lvl =
     (case lvl of
        LOW \<Rightarrow>
     [7, 10, 15, 20, 26, 18, 20, 24, 30, 18, 20, 24, 26, 30, 22, 24, 28, 30, 28, 28, 28, 28, 30, 
     30, 26, 28, 30, 30, 30, 30, 30, 30, 30, 30, 30, 30, 30, 30, 30, 30]
      | MEDIUM \<Rightarrow>
     [10, 16, 26, 18, 24, 16, 18, 22, 22, 26, 30, 22, 22, 24, 24, 28, 24, 28, 28, 26, 28, 28, 28, 
     28, 28, 28, 28, 28, 28, 28, 28, 28, 28, 28, 28, 28, 28, 28, 28, 28])"

definition NUM_BLOCKS :: "ecc_level \<Rightarrow> nat list" where
  "NUM_BLOCKS lvl =
     (case lvl of
        LOW \<Rightarrow>
     [1, 1, 1, 1, 1, 2, 2, 2, 2, 4, 4, 4, 4, 4, 6, 6, 6, 6, 7, 8, 8, 9, 9, 10, 12, 12, 12, 13, 14, 
     15, 16, 17, 18, 19, 19, 20, 21, 22, 24, 25]
      | MEDIUM \<Rightarrow>
     [1, 1, 1, 2, 2, 4, 4, 4, 5, 5, 5, 8, 9, 9, 10, 10, 11, 13, 14, 16, 17, 17, 18, 20, 21, 23, 25, 
     26, 28, 29, 31, 33, 35, 37, 38, 40, 43, 45, 47, 49])"

definition ALIGNMENT_POS :: "nat list list" where
  "ALIGNMENT_POS =
     [[], [6, 18], [6, 22], [6, 26], [6, 30], [6, 34], [6, 22, 38], [6, 24, 42], [6, 26, 46], [6, 28, 50], 
     [6, 30, 54], [6, 32, 58], [6, 34, 62], [6, 26, 46, 66], [6, 26, 48, 70], [6, 26, 50, 74], [6, 30, 54, 78], 
     [6, 30, 56, 82], [6, 30, 58, 86], [6, 34, 62, 90], [6, 28, 50, 72, 94], [6, 26, 50, 74, 98], 
     [6, 30, 54, 78, 102], [6, 28, 54, 80, 106], [6, 32, 58, 84, 110], [6, 30, 58, 86, 114], [6, 34, 62, 90, 118], 
     [6, 26, 50, 74, 98, 122], [6, 30, 54, 78, 102, 126], [6, 26, 52, 78, 104, 130], [6, 30, 56, 82, 108, 134], 
     [6, 34, 60, 86, 112, 138], [6, 30, 58, 86, 114, 142], [6, 34, 62, 90, 118, 146], [6, 30, 54, 78, 102, 126, 150], 
     [6, 24, 50, 76, 102, 128, 154], [6, 28, 54, 80, 106, 132, 158], [6, 32, 58, 84, 110, 136, 162], 
     [6, 26, 54, 82, 110, 138, 166], [6, 30, 58, 86, 114, 142, 170]]"

definition MODE_BYTE :: nat where "MODE_BYTE = 4"
definition PAD_BYTES :: bytes where "PAD_BYTES = [0xEC, 0x11]"

section \<open>GF(256)\<close>

text \<open>One turn of the table loop: double, and reduce by the primitive polynomial 0x11D.\<close>

definition gf_next :: "int \<Rightarrow> int" where
  "gf_next v = (let w = push_bit 1 v in if w AND 0x100 \<noteq> 0 then w XOR 0x11D else w)"

fun gf_fill :: "nat \<Rightarrow> nat \<Rightarrow> int \<Rightarrow> int list \<times> int list \<Rightarrow> int list \<times> int list" where
  "gf_fill 0 i v t = t"
| "gf_fill (Suc k) i v t = gf_fill k (Suc i) (gf_next v) ((fst t)[i := v], (snd t)[nat v := int i])"

fun gf_wrap :: "nat \<Rightarrow> nat \<Rightarrow> int list \<Rightarrow> int list" where
  "gf_wrap 0 i e = e"
| "gf_wrap (Suc k) i e = gf_wrap k (Suc i) (e[i := e ! (i - 255)])"

definition build_gf_tables :: "int list \<times> int list" where
  "build_gf_tables =
     (let t = gf_fill 255 0 1 (replicate 512 0, replicate 256 0)
      in (gf_wrap 257 255 (fst t), snd t))"

definition GF_EXP :: "int list" where "GF_EXP = fst build_gf_tables"
definition GF_LOG :: "int list" where "GF_LOG = snd build_gf_tables"

definition gf_mul :: "8 word \<Rightarrow> 8 word \<Rightarrow> 8 word" where
  "gf_mul a b =
     (if a = 0 \<or> b = 0 then 0
      else word_of_int (GF_EXP ! nat (GF_LOG ! unat a + GF_LOG ! unat b)))"

section \<open>Reed-Solomon\<close>

definition gf_root :: "nat \<Rightarrow> 8 word" where
  "gf_root i = word_of_int (GF_EXP ! i)"

text \<open>Multiply a polynomial (highest power first) by \<open>x - alpha\<close>; subtraction is exclusive or.\<close>

definition rs_times :: "8 word \<Rightarrow> bytes \<Rightarrow> bytes" where
  "rs_times alpha gen =
     map2 (XOR) (gen @ [0]) (0 # map (\<lambda>coef. gf_mul coef alpha) gen)"

definition rs_generator :: "nat \<Rightarrow> bytes" where
  "rs_generator degree = fold (\<lambda>i gen. rs_times (gf_root i) gen) [0..<degree] [1]"

definition rs_shift :: "bytes \<Rightarrow> 8 word \<Rightarrow> bytes \<Rightarrow> bytes" where
  "rs_shift generator byte result =
     (let factor = byte XOR hd result; shifted = tl result @ [0]
      in if factor \<noteq> 0 then map2 (XOR) shifted (map (\<lambda>coef. gf_mul coef factor) (tl generator)) else shifted)"

definition rs_remainder :: "bytes \<Rightarrow> bytes \<Rightarrow> bytes" where
  "rs_remainder data generator = fold (rs_shift generator) data (replicate (length generator - 1) 0)"

section \<open>Capacity\<close>

definition data_codewords :: "nat \<Rightarrow> ecc_level \<Rightarrow> nat" where
  "data_codewords version lvl =
     TOTAL_CODEWORDS ! (version - 1) - ECC_PER_BLOCK lvl ! (version - 1) * NUM_BLOCKS lvl ! (version - 1)"

definition count_bits :: "nat \<Rightarrow> nat" where
  "count_bits version = (if version \<le> 9 then 8 else 16)"

definition fits :: "nat \<Rightarrow> ecc_level \<Rightarrow> nat \<Rightarrow> bool" where
  "fits version lvl nbytes \<longleftrightarrow> 4 + count_bits version + 8 * nbytes \<le> data_codewords version lvl * 8"

datatype qr_error = QrTooLarge ecc_level nat | QrEmpty | QrNoFit nat

definition select_version :: "ecc_level \<Rightarrow> nat \<Rightarrow> qr_error + nat" where
  "select_version lvl nbytes =
     (case find (\<lambda>v. fits v lvl nbytes) [1..<41] of None \<Rightarrow> Inl (QrTooLarge lvl nbytes) | Some v \<Rightarrow> Inr v)"

section \<open>Data encoding\<close>

definition put_bits :: "nat \<Rightarrow> nat \<Rightarrow> bool list" where
  "put_bits v width = map (\<lambda>i. bit v i) (rev [0..<width])"

fun bits_byte :: "bool list \<Rightarrow> 8 word" where
  "bits_byte bs = word_of_nat (foldl (\<lambda>acc b. 2 * acc + (if b then 1 else 0)) 0 bs)"

fun to_bytes :: "nat \<Rightarrow> bool list \<Rightarrow> bytes" where
  "to_bytes 0 bs = []"
| "to_bytes (Suc n) bs = bits_byte (take 8 bs) # to_bytes n (drop 8 bs)"

definition neg_mod8 :: "nat \<Rightarrow> nat" where
  "neg_mod8 n = nat ((- int n) mod 8)"

definition pad_bits :: "bool list \<Rightarrow> bool list" where
  "pad_bits bs = bs @ replicate (neg_mod8 (length bs)) False"

definition header_bits :: "bytes \<Rightarrow> nat \<Rightarrow> bool list" where
  "header_bits payload version =
     put_bits MODE_BYTE 4 @ put_bits (length payload) (count_bits version) @ concat (map (\<lambda>b. put_bits (b2n b) 8) payload)"

definition encode_data :: "bytes \<Rightarrow> nat \<Rightarrow> ecc_level \<Rightarrow> bytes" where
  "encode_data payload version lvl =
     (let capacity = data_codewords version lvl;
          bs = header_bits payload version;
          terminated = bs @ put_bits 0 (min 4 (capacity * 8 - length bs));
          padded = pad_bits terminated;
          data = to_bytes (length padded div 8) padded
      in data @ map (\<lambda>i. PAD_BYTES ! (i mod 2)) [0..<capacity - length data])"

section \<open>Blocks\<close>

text \<open>Cut the data into blocks: the first \<open>num_short\<close> of them are one codeword shorter.\<close>

fun cut_blocks :: "nat list \<Rightarrow> bytes \<Rightarrow> bytes list" where
  "cut_blocks [] data = []"
| "cut_blocks (n # ns) data = take n data # cut_blocks ns (drop n data)"

definition block_sizes :: "nat \<Rightarrow> nat \<Rightarrow> nat list" where
  "block_sizes data_len num_blocks =
     (let short_len = data_len div num_blocks; num_short = num_blocks - data_len mod num_blocks
      in map (\<lambda>i. short_len + (if i < num_short then 0 else 1)) [0..<num_blocks])"

definition interleave :: "nat \<Rightarrow> nat \<Rightarrow> bytes list \<Rightarrow> bytes" where
  "interleave short_len num_short blocks =
     concat (map (\<lambda>i. concat (map (\<lambda>(j, block).
        if (i < short_len \<or> j \<ge> num_short) \<and> i < length block then [block ! i] else [])
        (enumerate 0 blocks))) [0..<short_len + 1])"

definition interleave_ecc :: "nat \<Rightarrow> bytes list \<Rightarrow> bytes" where
  "interleave_ecc ecc_len eccs = concat (map (\<lambda>i. map (\<lambda>ecc. ecc ! i) eccs) [0..<ecc_len])"

definition add_ecc_and_interleave :: "bytes \<Rightarrow> nat \<Rightarrow> ecc_level \<Rightarrow> bytes" where
  "add_ecc_and_interleave data version lvl =
     (let num_blocks = NUM_BLOCKS lvl ! (version - 1);
          ecc_len = ECC_PER_BLOCK lvl ! (version - 1);
          data_len = TOTAL_CODEWORDS ! (version - 1) - ecc_len * num_blocks;
          blocks = cut_blocks (block_sizes data_len num_blocks) data;
          eccs = map (\<lambda>b. rs_remainder b (rs_generator ecc_len)) blocks
      in interleave (data_len div num_blocks) (num_blocks - data_len mod num_blocks) blocks @ interleave_ecc ecc_len eccs)"

end
