(* ===== verification/QrField.thy ===== *)
theory QrField
  imports QrCode
begin

text \<open>
  The log and antilog tables of the QR generator implement the field GF(256): the powers of the
  generator run through all non-zero bytes, table multiplication is commutative, associative and
  distributes over exclusive or. On top of it, for any ring of characteristic two, the shift-register
  remainder makes every root of the generator polynomial a root of the code word.
\<close>

section \<open>Doubling\<close>

lemma xor_cancel:
  "(x XOR c) XOR (y XOR c) = x XOR (y :: int)" "(x XOR c) XOR y = (x XOR y) XOR (c :: int)"
  "x XOR (y XOR c) = (x XOR y) XOR (c :: int)" "(x XOR c) XOR c = (x :: int)"
  by (rule bit_eqI, auto simp: bit_simps)+

lemma gf_next_alt: "gf_next v = push_bit 1 v XOR (if bit v 7 then 0x11D else 0)"
proof -
  have b: "bit (push_bit 1 v) 8 = bit v 7" by (subst bit_push_bit_iff) simp
  have "push_bit 1 v AND 0x100 \<noteq> 0 \<longleftrightarrow> bit (push_bit 1 v) 8"
    using and_exp_eq_0_iff_not_bit [of "push_bit 1 v" 8] by simp
  then show ?thesis unfolding b by (simp add: gf_next_def Let_def)
qed

lemma gf_next_xor: "gf_next (a XOR b) = gf_next a XOR gf_next b"
  unfolding gf_next_alt push_bit_xor bit_xor_iff
  by (simp only: xor_cancel if_True if_False xor.right_neutral split: if_split) simp

lemma gf_next_range_check: "list_all (\<lambda>v. 0 \<le> gf_next v \<and> gf_next v < 256) [0..255]"
  by code_simp

lemma gf_next_range: "0 \<le> v \<Longrightarrow> v < 256 \<Longrightarrow> 0 \<le> gf_next v \<and> gf_next v < 256"
  using gf_next_range_check by (simp add: list_all_iff)

definition gpow :: "nat \<Rightarrow> int" where "gpow n = (gf_next ^^ n) 1"

lemma gpow_simps [simp]: "gpow 0 = 1" "gpow (Suc n) = gf_next (gpow n)"
  by (simp_all add: gpow_def)

lemma gpow_range: "0 \<le> gpow n \<and> gpow n < 256"
  by (induction n) (auto simp: gf_next_range)

text \<open>The orbit of the generator, evaluated: it comes back to one after 255 steps and not before.\<close>

fun orbit :: "nat \<Rightarrow> int \<Rightarrow> int list" where
  "orbit 0 v = []"
| "orbit (Suc k) v = v # orbit k (gf_next v)"

lemma nth_orbit: "i < k \<Longrightarrow> orbit k v ! i = (gf_next ^^ i) v"
  by (induction k arbitrary: i v) (auto simp: nth_Cons funpow_swap1 split: nat.splits)

lemma length_orbit [simp]: "length (orbit k v) = k"
  by (induction k arbitrary: v) auto

lemma orbit_check: "last (orbit 256 1) = 1" "list_all (\<lambda>v. v \<noteq> 1) (orbit 254 (gf_next 1))"
  by code_simp+

lemma gpow_255: "gpow 255 = 1"
proof -
  have "last (orbit 256 1) = orbit 256 1 ! 255"
    by (subst last_conv_nth) (metis length_orbit list.size(3) zero_neq_numeral, simp only: length_orbit, simp)
  also have "\<dots> = gpow 255" by (simp only: nth_orbit gpow_def)
  finally show ?thesis using orbit_check(1) by simp
qed

lemma gpow_not_1: "0 < n \<Longrightarrow> n < 255 \<Longrightarrow> gpow n \<noteq> 1"
proof -
  assume n: "0 < n" "n < 255"
  have "n - 1 < length (orbit 254 (gf_next 1))" using n by simp
  with orbit_check(2) have "orbit 254 (gf_next 1) ! (n - 1) \<noteq> 1" unfolding list_all_length by blast
  then show ?thesis using n by (cases n) (simp_all add: nth_orbit gpow_def funpow_swap1)
qed

section \<open>Powers as bytes\<close>

definition xtime :: "8 word \<Rightarrow> 8 word" where "xtime w = word_of_int (gf_next (uint w))"

definition xpow :: "nat \<Rightarrow> 8 word \<Rightarrow> 8 word" where "xpow n = xtime ^^ n"

lemma word_of_int_xor: "word_of_int (a XOR b) = (word_of_int a XOR word_of_int b :: 8 word)"
  by (rule bit_word_eqI) (simp add: bit_simps)

lemma xtime_xor: "xtime (a XOR b) = xtime a XOR xtime b"
  by (simp add: xtime_def uint_xor gf_next_xor word_of_int_xor)

lemma xpow_0 [simp]: "xpow 0 a = a" and xpow_Suc: "xpow (Suc n) a = xtime (xpow n a)"
  by (simp_all add: xpow_def)

lemma xpow_xor: "xpow n (a XOR b) = xpow n a XOR xpow n b"
  by (induction n) (simp_all add: xpow_Suc xtime_xor)

lemma xpow_add: "xpow m (xpow n a) = xpow (m + n) a"
  by (simp add: xpow_def funpow_add)

lemma xpow_zero [simp]: "xpow n 0 = 0"
  by (induction n) (simp_all add: xpow_Suc xtime_def gf_next_def)

lemma xpow_one: "xpow n 1 = word_of_int (gpow n)"
proof (induction n)
  case (Suc n)
  have "uint (word_of_int (gpow n) :: 8 word) = gpow n"
    using gpow_range [of n] by (simp add: uint_word_of_int take_bit_int_eq_self)
  then show ?case by (simp add: xpow_Suc Suc xtime_def)
qed simp

lemma uint_gpow: "uint (word_of_int (gpow n) :: 8 word) = gpow n"
  using gpow_range [of n] by (simp add: uint_word_of_int take_bit_int_eq_self)

lemma xpow_255_one: "xpow 255 1 = 1"
  by (simp only: xpow_one gpow_255) simp

lemma xpow_inj_one:
  assumes "xpow i 1 = xpow j 1" "i < j" "j < 255"
  shows False
proof -
  have "xpow (255 - j + i) 1 = xpow (255 - j + j) 1"
    using arg_cong [OF assms(1), of "xpow (255 - j)"] by (simp only: xpow_add)
  also have "\<dots> = 1" using assms(3) by (simp add: xpow_255_one)
  finally have "word_of_int (gpow (255 - j + i)) = (1 :: 8 word)" by (simp only: xpow_one)
  then have "gpow (255 - j + i) = 1" using uint_gpow [of "255 - j + i"] by simp
  moreover have "gpow (255 - j + i) \<noteq> 1"
  proof (rule gpow_not_1)
    show "0 < 255 - j + i" using assms(3) by linarith
    show "255 - j + i < 255" using assms(2,3) by linarith
  qed
  ultimately show False by (rule notE [rotated])
qed

lemma inj_xpow: "inj_on (\<lambda>i. xpow i 1) {..<255}"
  by (rule linorder_inj_onI') (use xpow_inj_one in auto)

lemma xpow_one_nz: "i < 255 \<Longrightarrow> xpow i 1 \<noteq> 0"
  using xpow_add [of "255 - i" i 1] xpow_255_one by auto

lemma xpow_surj: "(\<lambda>i. xpow i 1) ` {..<255} = UNIV - {0}"
proof (rule card_subset_eq)
  have "card (UNIV :: 8 word set) = 256" using card_word [where ?'a = 8] by simp
  then show "card ((\<lambda>i. xpow i 1) ` {..<255}) = card (UNIV - {0 :: 8 word})"
    by (simp add: card_image [OF inj_xpow])
qed (use xpow_one_nz in auto)

lemma nonzero_power:
  assumes "b \<noteq> (0 :: 8 word)"
  obtains i where "i < 255" "b = xpow i 1"
proof -
  have "b \<in> (\<lambda>i. xpow i 1) ` {..<255}" using assms by (simp add: xpow_surj)
  then show ?thesis using that by auto
qed

section \<open>The tables\<close>

lemma gf_fill_exp:
  "j < length e \<Longrightarrow> fst (gf_fill k i v (e, l)) ! j = (if i \<le> j \<and> j < i + k then (gf_next ^^ (j - i)) v else e ! j)"
proof (induction k arbitrary: i v e l)
  case (Suc k)
  show ?case
  proof (cases "i < j")
    case True
    then obtain d where "j = Suc (i + d)" using less_iff_Suc_add by auto
    then show ?thesis using Suc by (auto simp: funpow_swap1)
  next
    case False
    then show ?thesis using Suc by (auto simp: nth_list_update)
  qed
qed simp

lemma gf_fill_length [simp]: "length (fst (gf_fill k i v t)) = length (fst t)" "length (snd (gf_fill k i v t)) = length (snd t)"
  by (induction k arbitrary: i v t) auto

lemma gf_fill_log_other:
  "0 \<le> x \<Longrightarrow> (\<And>a. a < k \<Longrightarrow> 0 \<le> (gf_next ^^ a) v \<and> (gf_next ^^ a) v \<noteq> x) \<Longrightarrow>
     snd (gf_fill k i v (e, l)) ! nat x = l ! nat x"
proof (induction k arbitrary: i v e l)
  case (Suc k)
  have "nat v \<noteq> nat x" using Suc.prems(1) Suc.prems(2) [of 0] by (simp add: eq_nat_nat_iff)
  moreover have "0 \<le> (gf_next ^^ a) (gf_next v) \<and> (gf_next ^^ a) (gf_next v) \<noteq> x" if "a < k" for a
    using Suc.prems(2) [of "Suc a"] that by (simp add: funpow_swap1)
  ultimately show ?case using Suc.IH [OF Suc.prems(1), of "gf_next v"] by simp
qed simp

lemma gf_fill_log:
  assumes "\<And>a b. a < b \<Longrightarrow> b < k \<Longrightarrow> (gf_next ^^ a) v \<noteq> (gf_next ^^ b) v"
    "\<And>a. a < k \<Longrightarrow> 0 \<le> (gf_next ^^ a) v \<and> (gf_next ^^ a) v < int (length l)" "j < k"
  shows "snd (gf_fill k i v (e, l)) ! nat ((gf_next ^^ j) v) = int (i + j)"
  using assms
proof (induction k arbitrary: i v e l j)
  case (Suc k)
  note IH = Suc.IH and pr = Suc.prems
  have sh: "(gf_next ^^ a) (gf_next v) = (gf_next ^^ Suc a) v" for a by (simp add: funpow_swap1)
  have v: "0 \<le> v" "v < int (length l)" using Suc.prems(2) [of 0] by simp_all
  show ?case
  proof (cases j)
    case 0
    have "0 \<le> (gf_next ^^ a) (gf_next v) \<and> (gf_next ^^ a) (gf_next v) \<noteq> v" if "a < k" for a
      using Suc.prems(1) [of 0 "Suc a"] Suc.prems(2) [of "Suc a"] that unfolding sh by auto
    from gf_fill_log_other [OF v(1) this, of k "Suc i" "e[i := v]" "l[nat v := int i]"] show ?thesis using v 0 by simp
  next
    case (Suc j')
    have "snd (gf_fill k (Suc i) (gf_next v) (e[i := v], l[nat v := int i])) ! nat ((gf_next ^^ j') (gf_next v)) = int (Suc i + j')"
    proof (rule IH)
      show "(gf_next ^^ a) (gf_next v) \<noteq> (gf_next ^^ b) (gf_next v)" if "a < b" "b < k" for a b
        unfolding sh by (rule pr(1)) (use that in simp_all)
      show "0 \<le> (gf_next ^^ a) (gf_next v) \<and> (gf_next ^^ a) (gf_next v) < int (length (l[nat v := int i]))" if "a < k" for a
        unfolding sh length_list_update by (rule pr(2)) (use that in simp)
      show "j' < k" using pr(3) Suc by simp
    qed
    then show ?thesis using Suc by (simp add: sh del: funpow.simps)
  qed
qed simp


lemma gpow_distinct: "a < b \<Longrightarrow> b < 255 \<Longrightarrow> gpow a \<noteq> gpow b"
  using xpow_inj_one [of a b] by (auto simp: xpow_one)

lemma GF_LOG_gpow: "j < 255 \<Longrightarrow> GF_LOG ! nat (gpow j) = int j"
proof -
  assume j: "j < 255"
  have "snd (gf_fill 255 0 1 (replicate 512 0, replicate 256 0)) ! nat ((gf_next ^^ j) 1) = int (0 + j)"
    using gpow_distinct gpow_range j by (intro gf_fill_log) (auto simp: gpow_def)
  then show ?thesis by (simp add: GF_LOG_def build_gf_tables_def Let_def gpow_def)
qed

lemma gf_wrap_nth:
  "255 \<le> i \<Longrightarrow> i + k \<le> length e \<Longrightarrow> j < 510 \<Longrightarrow>
     gf_wrap k i e ! j = (if i \<le> j \<and> j < i + k then e ! (j - 255) else e ! j)"
proof (induction k arbitrary: i e)
  case (Suc k)
  have "j - 255 < i" using Suc.prems by linarith
  then show ?case using Suc.IH [of "Suc i" "e[i := e ! (i - 255)]"] Suc.prems by (auto simp: nth_list_update)
qed simp

lemma GF_EXP_gpow: "j < 510 \<Longrightarrow> GF_EXP ! j = gpow (if j < 255 then j else j - 255)"
proof -
  assume j: "j < 510"
  define e where "e = fst (gf_fill 255 0 1 (replicate 512 0, replicate 256 0))"
  have len: "length e = 512" by (simp only: e_def gf_fill_length fst_conv length_replicate)
  have e: "e ! i = gpow i" if "i < 255" for i
    using gf_fill_exp [of i "replicate 512 0" 255 0 1 "replicate 256 0"] that by (simp add: e_def gpow_def)
  have "GF_EXP ! j = (if 255 \<le> j \<and> j < 255 + 257 then e ! (j - 255) else e ! j)"
    using gf_wrap_nth [of 255 257 e j] len j by (simp add: GF_EXP_def build_gf_tables_def Let_def e_def)
  then show ?thesis using j by (simp add: e not_less)
qed

section \<open>Multiplication\<close>

lemma unat_xpow: "unat (xpow i 1) = nat (gpow i)"
  by (metis nat_uint_eq uint_gpow xpow_one)

lemma xpow_wrap: "xpow (255 + n) 1 = xpow n 1"
  using xpow_add [of n 255 1] by (simp add: xpow_255_one add.commute)

lemma gf_mul_xpow: "i < 255 \<Longrightarrow> j < 255 \<Longrightarrow> gf_mul (xpow i 1) (xpow j 1) = xpow (i + j) 1"
proof -
  assume i: "i < 255" and j: "j < 255"
  have "GF_LOG ! unat (xpow i 1) + GF_LOG ! unat (xpow j 1) = int (i + j)"
    using i j by (simp add: unat_xpow GF_LOG_gpow)
  then have "gf_mul (xpow i 1) (xpow j 1) = word_of_int (GF_EXP ! (i + j))"
    using xpow_one_nz [OF i] xpow_one_nz [OF j] by (simp add: gf_mul_def nat_int_add)
  also have "GF_EXP ! (i + j) = gpow (if i + j < 255 then i + j else i + j - 255)"
    using i j by (simp add: GF_EXP_gpow)
  also have "word_of_int \<dots> = xpow (if i + j < 255 then i + j else i + j - 255) 1" by (simp add: xpow_one)
  also have "\<dots> = xpow (i + j) 1"
    using xpow_wrap [of "i + j - 255"] by (cases "i + j < 255") (simp_all add: not_less)
  finally show ?thesis .
qed

lemma gf_mul_zero [simp]: "gf_mul 0 b = 0" "gf_mul a 0 = 0"
  by (simp_all add: gf_mul_def)

text \<open>Multiplying by the \<open>j\<close>-th power is doubling \<open>j\<close> times.\<close>

lemma gf_mul_power: "j < 255 \<Longrightarrow> gf_mul a (xpow j 1) = xpow j a"
proof (cases "a = 0")
  case False
  assume j: "j < 255"
  obtain i where i: "i < 255" "a = xpow i 1" by (rule nonzero_power [OF False])
  then show ?thesis using j by (simp add: gf_mul_xpow xpow_add add.commute)
qed simp

lemma gf_mul_commute: "gf_mul a b = gf_mul b a"
  by (simp add: gf_mul_def add.commute)

lemma gf_mul_xor: "gf_mul (a XOR c) b = gf_mul a b XOR gf_mul c b"
proof (cases "b = 0")
  case False
  then obtain j where "j < 255" "b = xpow j 1" by (rule nonzero_power)
  then show ?thesis by (simp add: gf_mul_power xpow_xor)
qed simp

lemma gf_mul_assoc: "gf_mul (gf_mul a b) c = gf_mul a (gf_mul b c)"
proof (cases "b = 0 \<or> c = 0")
  case False
  then obtain i j where i: "i < 255" "b = xpow i 1" and j: "j < 255" "c = xpow j 1" by (metis nonzero_power)
  define k where "k = (if i + j < 255 then i + j else i + j - 255)"
  have k: "k < 255" "xpow (i + j) 1 = xpow k 1"
    using i(1) j(1) xpow_wrap [of "i + j - 255"] by (auto simp: k_def)
  have id: "xpow 255 a = a"
  proof (cases "a = 0")
    case False
    then obtain l where "a = xpow l 1" by (metis nonzero_power)
    then show ?thesis using xpow_wrap by (simp add: xpow_add)
  qed simp
  have "xpow (i + j) a = xpow k a"
    using id xpow_add [of "i + j - 255" 255 a] by (auto simp: k_def)
  then show ?thesis using i j k by (simp add: gf_mul_power xpow_add add.commute gf_mul_xpow)
qed auto

lemma gf_mul_one [simp]: "gf_mul a 1 = a"
  using gf_mul_power [of 0 a] by simp

lemma gf_root_power: "i < 255 \<Longrightarrow> gf_root i = xpow i 1"
  by (simp add: gf_root_def GF_EXP_gpow xpow_one)


section \<open>Remainders over a ring of characteristic two\<close>

text \<open>
  The interface the Reed-Solomon routines rely on: an addition that is its own inverse, and a
  multiplication that is commutative, associative and distributes over it.
\<close>

locale char2_ring =
  fixes plus :: "'a \<Rightarrow> 'a \<Rightarrow> 'a" and zero :: 'a and times :: "'a \<Rightarrow> 'a \<Rightarrow> 'a" and one :: 'a
  assumes plus_assoc: "plus (plus a b) c = plus a (plus b c)"
    and plus_comm: "plus a b = plus b a"
    and plus_zero: "plus a zero = a"
    and plus_self: "plus a a = zero"
    and times_assoc: "times (times a b) c = times a (times b c)"
    and times_comm: "times a b = times b a"
    and times_plus: "times (plus a b) c = plus (times a c) (times b c)"
    and times_one: "times a one = a"
begin

lemma zero_plus: "plus zero a = a"
  by (simp add: plus_comm [of zero] plus_zero)

lemma plus_left_comm: "plus a (plus b c) = plus b (plus a c)"
  by (metis plus_assoc plus_comm)

lemmas plus_ac = plus_assoc plus_comm plus_left_comm

lemma zero_times: "times zero a = zero"
  by (metis plus_self plus_zero times_plus)

lemma plus_eq_zero: "plus a b = zero \<Longrightarrow> a = b"
  by (metis plus_assoc plus_self plus_zero zero_plus)

text \<open>The value of a polynomial, highest coefficient first, by Horner's rule.\<close>

definition horner :: "'a \<Rightarrow> 'a list \<Rightarrow> 'a" where
  "horner x cs = foldl (\<lambda>acc c. plus (times acc x) c) zero cs"

definition pow :: "'a \<Rightarrow> nat \<Rightarrow> 'a" where "pow x n = ((\<lambda>a. times a x) ^^ n) one"

lemma pow_simps: "pow x 0 = one" "pow x (Suc n) = times (pow x n) x"
  by (simp_all add: pow_def)

lemma horner_Nil: "horner x [] = zero"
  by (simp add: horner_def)

lemma horner_snoc: "horner x (cs @ [c]) = plus (times (horner x cs) x) c"
  by (simp add: horner_def)

lemma horner_append: "horner x (as @ bs) = plus (times (horner x as) (pow x (length bs))) (horner x bs)"
proof (induction bs rule: rev_induct)
  case Nil
  then show ?case by (simp add: horner_Nil pow_simps times_one plus_zero)
next
  case (snoc b bs)
  have "horner x (as @ bs @ [b]) = plus (times (horner x (as @ bs)) x) b"
    using horner_snoc [of x "as @ bs" b] by simp
  then show ?case
    by (simp add: snoc horner_snoc times_plus times_assoc pow_simps plus_assoc del: append_assoc flip: append_assoc)
qed

lemma horner_Cons: "horner x (c # cs) = plus (times c (pow x (length cs))) (horner x cs)"
  using horner_append [of x "[c]" cs] by (simp add: horner_def zero_times zero_plus)

lemma horner_zeros: "horner x (replicate n zero) = zero"
  by (induction n) (simp_all add: horner_Nil horner_Cons zero_times zero_plus)

lemma horner_map2:
  "length as = length bs \<Longrightarrow> horner x (map2 plus as bs) = plus (horner x as) (horner x bs)"
  by (induction as bs rule: list_induct2) (simp_all add: horner_Nil horner_Cons plus_zero times_plus plus_ac)

lemma horner_scale: "horner x (map (\<lambda>c. times c f) cs) = times (horner x cs) f"
proof (induction cs)
  case (Cons c cs)
  have "times (times c f) (pow x (length cs)) = times (times c (pow x (length cs))) f"
    by (simp add: times_assoc times_comm [of f])
  then show ?case by (simp add: horner_Cons times_plus Cons)
qed (simp add: horner_Nil zero_times)

text \<open>Multiplying by \<open>x + r\<close> adds the root \<open>r\<close> and keeps the others.\<close>

definition times_linear :: "'a \<Rightarrow> 'a list \<Rightarrow> 'a list" where
  "times_linear r cs = map2 plus (cs @ [zero]) (zero # map (\<lambda>c. times c r) cs)"

lemma horner_times_linear: "horner x (times_linear r cs) = times (horner x cs) (plus x r)"
proof -
  have "horner x (zero # map (\<lambda>c. times c r) cs) = times (horner x cs) r"
    by (simp add: horner_Cons zero_times zero_plus horner_scale)
  moreover have "times (horner x cs) (plus x r) = plus (times (horner x cs) x) (times (horner x cs) r)"
    by (metis times_comm times_plus)
  ultimately show ?thesis
    unfolding times_linear_def by (subst horner_map2) (simp_all add: horner_snoc plus_zero)
qed

lemma times_linear_root: "horner r (times_linear r cs) = zero"
  by (simp add: horner_times_linear plus_self times_comm [of _ zero] zero_times)

lemma times_linear_keeps_root: "horner x cs = zero \<Longrightarrow> horner x (times_linear r cs) = zero"
  by (simp add: horner_times_linear zero_times)

text \<open>One turn of the shift register, and the invariant of the division loop.\<close>

definition shift :: "'a list \<Rightarrow> 'a \<Rightarrow> 'a list \<Rightarrow> 'a list" where
  "shift gs byte r = (let f = plus byte (hd r); s = tl r @ [zero] in map2 plus s (map (\<lambda>c. times c f) gs))"

lemma length_shift: "r \<noteq> [] \<Longrightarrow> length r = length gs \<Longrightarrow> length (shift gs byte r) = length gs"
  by (simp add: shift_def Let_def)

lemma shift_value:
  assumes "length r = length gs" "gs \<noteq> []" "horner x (one # gs) = zero"
  shows "horner x (shift gs byte r) = plus (times (horner x r) x) (times byte (pow x (length gs)))"
proof -
  obtain r0 rs where r: "r = r0 # rs" using assms(1,2) by (cases r) auto
  let ?f = "plus byte r0" and ?p = "pow x (length gs)"
  have g: "horner x gs = ?p"
    using assms(3) by (simp add: horner_Cons times_comm [of one] times_one plus_eq_zero [symmetric] plus_comm)
  have len: "length gs = Suc (length rs)" using assms(1) r by simp
  have "horner x (shift gs byte r) = plus (horner x (rs @ [zero])) (times (horner x gs) ?f)"
    unfolding shift_def Let_def r by (subst horner_map2) (simp_all add: len horner_scale)
  also have "\<dots> = plus (times (horner x rs) x) (plus (times byte ?p) (times r0 ?p))"
    by (simp add: horner_snoc plus_zero g times_comm [of ?p] times_plus)
  also have "\<dots> = plus (times (horner x r) x) (times byte ?p)"
    by (simp add: r horner_Cons times_plus times_assoc len pow_simps plus_ac)
  finally show ?thesis .
qed

lemma shifts_length: "r \<noteq> [] \<Longrightarrow> length r = length gs \<Longrightarrow> length (fold (shift gs) data r) = length gs"
proof (induction data arbitrary: r)
  case (Cons b data)
  have "length (shift gs b r) = length gs" "shift gs b r \<noteq> []" using Cons.prems length_shift [of r gs b] by auto
  then show ?case using Cons.IH by simp
qed simp

lemma shifts_value:
  assumes "gs \<noteq> []" "horner x (one # gs) = zero" "length r = length gs"
  shows "horner x (fold (shift gs) data r) = plus (times (horner x r) (pow x (length data))) (times (horner x data) (pow x (length gs)))"
  using assms(3)
proof (induction data arbitrary: r)
  case Nil
  then show ?case by (simp add: pow_simps times_one horner_Nil zero_times plus_zero)
next
  case (Cons b data)
  have r: "r \<noteq> []" using Cons.prems assms(1) by auto
  have pc: "times x (pow x n) = pow x (Suc n)" for n by (simp add: pow_simps times_comm)
  show ?case
    using Cons.IH [of "shift gs b r"] length_shift [OF r Cons.prems] shift_value [OF Cons.prems assms(1,2), of b]
    by (simp add: times_plus times_assoc pc horner_Cons plus_assoc times_comm [of "pow x (length gs)"])
qed

text \<open>Data followed by its remainder has every root of the (monic) generator.\<close>

lemma remainder_root:
  assumes "gs \<noteq> []" "horner x (one # gs) = zero"
  shows "horner x (data @ fold (shift gs) data (replicate (length gs) zero)) = zero"
proof -
  let ?r = "fold (shift gs) data (replicate (length gs) zero)"
  have "length ?r = length gs" using assms(1) by (intro shifts_length) (auto simp: replicate_empty)
  moreover have "horner x ?r = times (horner x data) (pow x (length gs))"
    using shifts_value [OF assms, of "replicate (length gs) zero" data] by (simp add: horner_zeros zero_times zero_plus)
  ultimately show ?thesis by (simp add: horner_append plus_self)
qed

end

interpretation gf: char2_ring "(XOR) :: 8 word \<Rightarrow> 8 word \<Rightarrow> 8 word" 0 gf_mul 1
proof unfold_locales
  show "gf_mul (a XOR b) c = gf_mul a c XOR gf_mul b c" for a b c by (rule gf_mul_xor)
  show "gf_mul (gf_mul a b) c = gf_mul a (gf_mul b c)" for a b c by (rule gf_mul_assoc)
  show "gf_mul a b = gf_mul b a" for a b by (rule gf_mul_commute)
qed (simp_all add: ac_simps)


section \<open>The Reed-Solomon routines of the generator\<close>

lemma rs_times_linear: "rs_times a gen = gf.times_linear a gen"
  by (simp add: rs_times_def gf.times_linear_def)

lemma map2_xor_zero: "length ys \<le> n \<Longrightarrow> map2 (XOR) ys (map (\<lambda>c. gf_mul c 0) gs) = take (length gs) (ys :: 8 word list)"
  by (induction ys arbitrary: gs n) (case_tac gs, auto)+

lemma rs_shift_shift:
  assumes "length r = length (tl generator)" "r \<noteq> []"
  shows "rs_shift generator byte r = gf.shift (tl generator) byte r"
proof (cases "byte XOR hd r = 0")
  case True
  have "length (tl r @ [0]) = length (tl generator)" using assms by (cases r) auto
  then show ?thesis
    using True map2_xor_zero [of "tl r @ [0]" "length (tl generator)" "tl generator"] by (simp add: rs_shift_def gf.shift_def Let_def)
next
  case False
  then show ?thesis by (simp add: rs_shift_def gf.shift_def Let_def)
qed

lemma rs_shifts:
  "length r = length (tl generator) \<Longrightarrow> r \<noteq> [] \<Longrightarrow> fold (rs_shift generator) data r = fold (gf.shift (tl generator)) data r"
proof (induction data arbitrary: r)
  case (Cons b data)
  have "length (gf.shift (tl generator) b r) = length (tl generator)" using Cons.prems by (intro gf.length_shift)
  moreover from this have "gf.shift (tl generator) b r \<noteq> []" using Cons.prems by (metis length_0_conv)
  ultimately show ?case using Cons by (simp add: rs_shift_shift)
qed simp

lemma rs_generator_props:
  "n \<le> 255 \<Longrightarrow> length (rs_generator n) = Suc n \<and> hd (rs_generator n) = 1 \<and> (\<forall>i < n. gf.horner (gf_root i) (rs_generator n) = 0)"
proof (induction n)
  case 0
  then show ?case by (simp add: rs_generator_def)
next
  case (Suc n)
  then have ih: "length (rs_generator n) = Suc n" "hd (rs_generator n) = 1" "\<forall>i < n. gf.horner (gf_root i) (rs_generator n) = 0" by auto
  have g: "rs_generator (Suc n) = gf.times_linear (gf_root n) (rs_generator n)"
    by (simp add: rs_generator_def rs_times_linear)
  obtain c cs where c: "rs_generator n = c # cs" using ih(1) by (cases "rs_generator n") auto
  have "gf.horner (gf_root i) (rs_generator (Suc n)) = 0" if "i < Suc n" for i
    using that ih(3) by (cases "i = n") (simp_all add: g gf.times_linear_root gf.times_linear_keeps_root)
  moreover have "length (rs_generator (Suc n)) = Suc (Suc n)" "hd (rs_generator (Suc n)) = 1"
    using ih(1,2) by (simp_all add: g gf.times_linear_def c)
  ultimately show ?case by simp
qed

definition syndrome :: "nat \<Rightarrow> bytes \<Rightarrow> 8 word" where
  "syndrome i codeword = foldl (\<lambda>acc c. gf_mul acc (gf_root i) XOR c) 0 codeword"

text \<open>
  C14: Error correction is sound: a data block followed by its Reed-Solomon remainder is a code word.
  For every number of correction bytes the tables use, all syndromes of the block (its values at
  the powers of the generator, which are the roots of the generator polynomial) vanish, and the
  remainder has exactly the requested length.
\<close>
theorem rs_codeword_syndromes_vanish:
  assumes "0 < n" "n \<le> 255"
  shows "length (rs_remainder data (rs_generator n)) = n \<and>
     (\<forall>i < n. syndrome i (data @ rs_remainder data (rs_generator n)) = 0)"
proof -
  note g = rs_generator_props [OF assms(2)]
  define gs where "gs = tl (rs_generator n)"
  have gs: "rs_generator n = 1 # gs" "length gs = n" "gs \<noteq> []"
    using g assms(1) by (cases "rs_generator n"; auto simp: gs_def)+
  have r: "rs_remainder data (rs_generator n) = fold (gf.shift gs) data (replicate n 0)"
    using rs_shifts [of "replicate n 0" "rs_generator n" data] gs assms(1) by (simp add: rs_remainder_def)
  have "syndrome i (data @ rs_remainder data (rs_generator n)) = 0" if "i < n" for i
    unfolding r syndrome_def using gf.remainder_root [of gs "gf_root i" data] g that gs by (simp add: gf.horner_def)
  moreover have "length (rs_remainder data (rs_generator n)) = n"
    using gf.shifts_length [of "replicate n 0" gs data] gs assms(1) unfolding r by (simp add: replicate_empty)
  ultimately show ?thesis by blast
qed

theorem rs_codeword_syndromes_vanish_witness:
  "length (rs_remainder [0x40, 0x14, 0x10] (rs_generator 10)) = 10 \<and>
   syndrome 3 ([0x40, 0x14, 0x10] @ rs_remainder [0x40, 0x14, 0x10] (rs_generator 10)) = 0"
  using rs_codeword_syndromes_vanish [of 10 "[0x40, 0x14, 0x10]"] by simp

end
