(* ===== verification/QrData.thy ===== *)
theory QrData
  imports QrField
begin

text \<open>
  The data codewords of a QR code: they fill the capacity of the version exactly, and a reader gets
  the payload back from them. Version selection picks the smallest version that fits.
\<close>

section \<open>Bits and numbers\<close>

definition bits_val :: "bool list \<Rightarrow> nat" where
  "bits_val bs = foldl (\<lambda>acc b. 2 * acc + (if b then 1 else 0)) 0 bs"

lemma foldl_bits: "foldl (\<lambda>acc b. 2 * acc + (if b then 1 else 0)) a bs = a * 2 ^ length bs + bits_val bs"
  unfolding bits_val_def
proof (induction bs arbitrary: a)
  case (Cons b bs)
  show ?case using Cons [of "2 * a + (if b then 1 else 0)"] Cons [of "if b then 1 else 0"] by (simp add: algebra_simps)
qed simp

lemma bits_val_simps [simp]: "bits_val [] = 0" "bits_val (b # bs) = of_bool b * 2 ^ length bs + bits_val bs"
  using foldl_bits [of "if b then 1 else 0" bs] by (simp_all add: bits_val_def)

lemma bits_val_less: "bits_val bs < 2 ^ length bs"
  by (induction bs) (auto simp: of_bool_def)

lemma put_bits_0 [simp]: "put_bits v 0 = []" and put_bits_Suc: "put_bits v (Suc w) = bit v w # put_bits v w"
  by (simp_all add: put_bits_def)

lemma length_put_bits [simp]: "length (put_bits v w) = w"
  by (simp add: put_bits_def)

lemma bits_val_put: "bits_val (put_bits v w) = take_bit w v"
  by (induction w) (simp_all add: put_bits_Suc take_bit_Suc_from_most mult.commute)

lemma put_bits_cong: "(\<And>i. i < w \<Longrightarrow> bit u i = bit v i) \<Longrightarrow> put_bits u w = put_bits v w"
  by (simp add: put_bits_def)

lemma bit_high: "x < 2 ^ n \<Longrightarrow> bit (of_bool b * 2 ^ n + x :: nat) n = b"
  by (simp add: bit_iff_odd)

lemma bit_low: "x < 2 ^ n \<Longrightarrow> i < n \<Longrightarrow> bit (of_bool b * 2 ^ n + x :: nat) i = bit x i"
proof -
  assume x: "x < 2 ^ n" and i: "i < n"
  have "take_bit n (of_bool b * 2 ^ n + x) = take_bit n x" by (simp add: take_bit_eq_mod)
  then show ?thesis using i by (metis bit_take_bit_iff)
qed

lemma put_bits_val: "put_bits (bits_val bs) (length bs) = bs"
proof (induction bs)
  case (Cons b bs)
  have "put_bits (of_bool b * 2 ^ length bs + bits_val bs) (length bs) = put_bits (bits_val bs) (length bs)"
    by (rule put_bits_cong) (simp add: bit_low bits_val_less)
  then show ?case using Cons by (simp add: put_bits_Suc bit_high bits_val_less)
qed simp

section \<open>Bytes and bits\<close>

definition bytes_bits :: "bytes \<Rightarrow> bool list" where
  "bytes_bits bs = concat (map (\<lambda>b. put_bits (b2n b) 8) bs)"

lemma bytes_bits_simps [simp]: "bytes_bits [] = []" "bytes_bits (b # bs) = put_bits (b2n b) 8 @ bytes_bits bs"
  "bytes_bits (as @ bs) = bytes_bits as @ bytes_bits bs"
  by (simp_all add: bytes_bits_def)

lemma length_bytes_bits [simp]: "length (bytes_bits bs) = 8 * length bs"
  by (induction bs) simp_all

lemma bits_byte_val: "bits_byte bs = n2b (bits_val bs)"
  by (simp add: n2b_def bits_val_def)

declare bits_byte.simps [simp del]

lemma bits_byte_put [simp]: "bits_byte (put_bits (b2n b) 8) = b"
proof -
  have "take_bit 8 (b2n b) = b2n b" using b2n_less [of b] by (simp add: take_bit_nat_eq_self)
  then show ?thesis by (simp add: bits_byte_val bits_val_put)
qed

lemma b2n_n2b: "n < 256 \<Longrightarrow> b2n (n2b n) = n"
  by (simp add: b2n_def n2b_def unsigned_of_nat take_bit_nat_eq_self)

lemma put_bits_byte: "length bs = 8 \<Longrightarrow> put_bits (b2n (bits_byte bs)) 8 = bs"
  using bits_val_less [of bs] put_bits_val [of bs] by (simp add: bits_byte_val b2n_n2b)

lemma to_bytes_bits: "to_bytes (length ps) (bytes_bits ps @ rest) = ps"
  by (induction ps) simp_all

lemma bytes_bits_to_bytes: "length bs = 8 * n \<Longrightarrow> bytes_bits (to_bytes n bs) = bs"
proof (induction n arbitrary: bs)
  case (Suc n)
  then show ?case using put_bits_byte [of "take 8 bs"] Suc.IH [of "drop 8 bs"] by simp
qed simp

lemma length_to_bytes [simp]: "length (to_bytes n bs) = n"
  by (induction n arbitrary: bs) simp_all

section \<open>Capacity\<close>

lemma version_cases:
  assumes "1 \<le> v" "v \<le> (40 :: nat)"
  shows "v \<in> set [1..<41]"
  using assms by simp

lemma capacity_check: "\<forall>v \<in> set [1..<41]. data_codewords v LOW \<le> (if v \<le> 9 then 255 else 65535) \<and>
    data_codewords v MEDIUM \<le> (if v \<le> 9 then 255 else 65535)"
  unfolding data_codewords_def TOTAL_CODEWORDS_def ECC_PER_BLOCK_def NUM_BLOCKS_def
  by (simp add: upt_rec)

lemma payload_count_fits:
  assumes "1 \<le> v" "v \<le> 40" "fits v lvl n"
  shows "n < 2 ^ count_bits v"
proof -
  have "data_codewords v lvl \<le> (if v \<le> 9 then 255 else 65535)"
    using capacity_check version_cases [OF assms(1,2)] by (cases lvl) auto
  then show ?thesis using assms(3) by (auto simp: fits_def count_bits_def split: if_splits)
qed

lemma neg_mod8_pad: "8 dvd (n + neg_mod8 n)" "neg_mod8 n < 8"
proof -
  have "(int n + (- int n) mod 8) mod 8 = 0" by presburger
  moreover have "int (n + neg_mod8 n) = int n + (- int n) mod 8" by (simp add: neg_mod8_def)
  ultimately have "int (n + neg_mod8 n) mod 8 = 0" by simp
  then show "8 dvd (n + neg_mod8 n)" by presburger
  show "neg_mod8 n < 8" by (simp add: neg_mod8_def)
qed

text \<open>What a reader does with the data codewords: mode, count, payload.\<close>

definition decode_data :: "nat \<Rightarrow> bytes \<Rightarrow> bytes option" where
  "decode_data version data =
     (let bs = bytes_bits data; n = bits_val (take (count_bits version) (drop 4 bs))
      in if bits_val (take 4 bs) = MODE_BYTE then Some (to_bytes n (drop (4 + count_bits version) bs)) else None)"

lemma header_length: "length (header_bits p v) = 4 + count_bits v + 8 * length p"
  by (simp add: header_bits_def flip: bytes_bits_def)

text \<open>The shape of the encoded data: header, then filler up to the capacity.\<close>

lemma encode_data_bits:
  assumes "fits v lvl (length p)"
  obtains filler where "bytes_bits (encode_data p v lvl) = header_bits p v @ filler"
    "length (encode_data p v lvl) = data_codewords v lvl"
proof -
  define cap where "cap = data_codewords v lvl"
  define t where "t = header_bits p v @ put_bits 0 (min 4 (cap * 8 - length (header_bits p v)))"
  define n where "n = length (pad_bits t) div 8"
  have hl: "length (header_bits p v) \<le> cap * 8" using assms by (simp add: fits_def header_length cap_def)
  then have tl: "length t \<le> cap * 8" by (simp add: t_def)
  have len: "length (pad_bits t) = 8 * n" using neg_mod8_pad(1) [of "length t"] by (auto simp: pad_bits_def n_def)
  have "8 * n < length t + 8" using neg_mod8_pad(2) [of "length t"] len by (simp add: pad_bits_def)
  then have n: "n \<le> cap" using tl by linarith
  have e: "encode_data p v lvl = to_bytes n (pad_bits t) @ map (\<lambda>i. PAD_BYTES ! (i mod 2)) [0..<cap - n]"
    by (simp add: encode_data_def Let_def cap_def t_def n_def)
  have b: "bytes_bits (to_bytes n (pad_bits t)) = header_bits p v @ drop (length (header_bits p v)) (pad_bits t)"
    unfolding bytes_bits_to_bytes [OF len] by (simp add: pad_bits_def t_def)
  show ?thesis
  proof (rule that)
    show "bytes_bits (encode_data p v lvl) = header_bits p v @
        (drop (length (header_bits p v)) (pad_bits t) @ bytes_bits (map (\<lambda>i. PAD_BYTES ! (i mod 2)) [0..<cap - n]))"
      by (simp add: e b)
    show "length (encode_data p v lvl) = data_codewords v lvl" using n by (simp add: e cap_def)
  qed
qed

text \<open>
  For every version from 1 to 40 and both correction levels, a payload that fits is encoded into
  exactly as many data codewords as the version holds, and reading the mode, the count and the
  payload back from them yields the payload.
\<close>
lemma qr_data_roundtrip:
  assumes "1 \<le> v" "v \<le> 40" "fits v lvl (length p)"
  shows "length (encode_data p v lvl) = data_codewords v lvl \<and> decode_data v (encode_data p v lvl) = Some p"
proof -
  obtain filler where f: "bytes_bits (encode_data p v lvl) = header_bits p v @ filler"
    "length (encode_data p v lvl) = data_codewords v lvl" by (rule encode_data_bits [OF assms(3)])
  have "take_bit (count_bits v) (length p) = length p"
    using payload_count_fits [OF assms] by (simp add: take_bit_nat_eq_self)
  moreover have "take_bit 4 MODE_BYTE = MODE_BYTE" by (simp add: MODE_BYTE_def take_bit_eq_mod)
  ultimately have "decode_data v (encode_data p v lvl) = Some (to_bytes (length p) (bytes_bits p @ filler))"
    unfolding decode_data_def Let_def f(1) header_bits_def bytes_bits_def [symmetric] by (simp add: bits_val_put)
  then show ?thesis using f(2) by (simp add: to_bytes_bits)
qed

lemma qr_data_roundtrip_example:
  "length (encode_data [0x41, 0x42] 1 MEDIUM) = 16 \<and> decode_data 1 (encode_data [0x41, 0x42] 1 MEDIUM) = Some [0x41, 0x42]"
  using qr_data_roundtrip [of 1 MEDIUM "[0x41, 0x42]"]
  by (simp add: fits_def count_bits_def data_codewords_def TOTAL_CODEWORDS_def ECC_PER_BLOCK_def NUM_BLOCKS_def)

end
