(* ===== verification/QrMatrix.thy ===== *)
theory QrMatrix
  imports QrData
begin

text \<open>
  The drawing half of the QR generator (\<open>app/cores/qr.py\<close>): format and version information, function
  patterns, the zigzag placement of the codewords under a mask, penalty scoring and the public
  entry point. A matrix is a list of rows of booleans, true for a dark module.
\<close>

section \<open>Format and version information\<close>

definition FORMAT_MASK :: int where "FORMAT_MASK = 0b101010000010010"

definition bch_step :: "nat \<Rightarrow> int \<Rightarrow> int \<Rightarrow> int" where
  "bch_step hi poly rem = push_bit 1 rem XOR (if bit rem hi then poly else 0)"

definition format_bits :: "ecc_level \<Rightarrow> int \<Rightarrow> int" where
  "format_bits lvl msk =
     (let data = push_bit 3 (ecc_format_bits lvl) OR msk;
          rem = (bch_step 9 0b10100110111 ^^ 10) data
      in (push_bit 10 data OR (rem AND 0x3FF)) XOR FORMAT_MASK)"

definition version_bits :: "nat \<Rightarrow> int" where
  "version_bits version =
     (let rem = (bch_step 11 0b1111100100101 ^^ 12) (int version)
      in push_bit 12 (int version) OR (rem AND 0xFFF))"

definition mask_fn :: "nat \<Rightarrow> nat \<Rightarrow> nat \<Rightarrow> bool" where
  "mask_fn msk r c =
     (if msk = 0 then (r + c) mod 2 = 0
      else if msk = 1 then r mod 2 = 0
      else if msk = 2 then c mod 3 = 0
      else if msk = 3 then (r + c) mod 3 = 0
      else if msk = 4 then (r div 2 + c div 3) mod 2 = 0
      else if msk = 5 then (r * c) mod 2 + (r * c) mod 3 = 0
      else if msk = 6 then ((r * c) mod 2 + (r * c) mod 3) mod 2 = 0
      else ((r + c) mod 2 + (r * c) mod 3) mod 2 = 0)"

section \<open>The matrix builder\<close>

type_synonym grid = "bool list list"

definition grid_get :: "grid \<Rightarrow> nat \<Rightarrow> nat \<Rightarrow> bool" where
  "grid_get g y x = g ! y ! x"

definition grid_set :: "nat \<Rightarrow> nat \<Rightarrow> bool \<Rightarrow> grid \<Rightarrow> grid" where
  "grid_set y x v g = g[y := (g ! y)[x := v]]"

record matrix_builder =
  mb_version :: nat
  mb_size :: nat
  mb_modules :: grid
  mb_is_function :: grid

definition set_function :: "nat \<Rightarrow> nat \<Rightarrow> bool \<Rightarrow> matrix_builder \<Rightarrow> matrix_builder" where
  "set_function x y dark b =
     b\<lparr>mb_modules := grid_set y x dark (mb_modules b), mb_is_function := grid_set y x True (mb_is_function b)\<rparr>"

definition draw_finder :: "int \<Rightarrow> int \<Rightarrow> matrix_builder \<Rightarrow> matrix_builder" where
  "draw_finder cx cy b =
     fold (\<lambda>(dy, dx) b.
        (let x = cx + dx; y = cy + dy; dist = max \<bar>dx\<bar> \<bar>dy\<bar>
         in if 0 \<le> x \<and> x < int (mb_size b) \<and> 0 \<le> y \<and> y < int (mb_size b)
            then set_function (nat x) (nat y) (dist \<noteq> 2 \<and> dist \<noteq> 4) b else b))
       (List.product [-4..4] [-4..4]) b"

definition draw_alignment :: "int \<Rightarrow> int \<Rightarrow> matrix_builder \<Rightarrow> matrix_builder" where
  "draw_alignment cx cy b =
     fold (\<lambda>(dy, dx) b. set_function (nat (cx + dx)) (nat (cy + dy)) (max \<bar>dx\<bar> \<bar>dy\<bar> \<noteq> 1) b)
       (List.product [-2..2] [-2..2]) b"

definition draw_format :: "ecc_level \<Rightarrow> int \<Rightarrow> matrix_builder \<Rightarrow> matrix_builder" where
  "draw_format lvl msk b =
     (let bs = format_bits lvl msk; size = mb_size b;
          b1 = fold (\<lambda>i. set_function 8 i (bit bs i)) [0..<6] b;
          b2 = set_function 8 7 (bit bs 6) b1;
          b3 = set_function 8 8 (bit bs 7) b2;
          b4 = set_function 7 8 (bit bs 8) b3;
          b5 = fold (\<lambda>i. set_function (14 - i) 8 (bit bs i)) [9..<15] b4;
          b6 = fold (\<lambda>i. set_function (size - 1 - i) 8 (bit bs i)) [0..<8] b5;
          b7 = fold (\<lambda>i. set_function 8 (size - 15 + i) (bit bs i)) [8..<15] b6
      in set_function 8 (size - 8) True b7)"

definition draw_version :: "matrix_builder \<Rightarrow> matrix_builder" where
  "draw_version b =
     (let bs = version_bits (mb_version b); size = mb_size b
      in fold (\<lambda>i b. (let a = size - 11 + i mod 3; c = i div 3
           in set_function c a (bit bs i) (set_function a c (bit bs i) b))) [0..<18] b)"

definition draw_timing :: "matrix_builder \<Rightarrow> matrix_builder" where
  "draw_timing b =
     fold (\<lambda>i b. set_function 6 i (i mod 2 = 0) (set_function i 6 (i mod 2 = 0) b)) [8..<mb_size b - 8] b"

definition draw_alignments :: "matrix_builder \<Rightarrow> matrix_builder" where
  "draw_alignments b =
     (let size = mb_size b; positions = ALIGNMENT_POS ! (mb_version b - 1)
      in fold (\<lambda>(x, y) b.
           if (x \<le> 8 \<and> y \<le> 8) \<or> (x \<ge> size - 9 \<and> y \<le> 8) \<or> (x \<le> 8 \<and> y \<ge> size - 9) then b
           else draw_alignment (int x) (int y) b) (List.product positions positions) b)"

definition draw_function_patterns :: "matrix_builder \<Rightarrow> matrix_builder" where
  "draw_function_patterns b =
     (let size = int (mb_size b);
          b1 = draw_finder 3 (size - 4) (draw_finder (size - 4) 3 (draw_finder 3 3 b));
          b2 = draw_format LOW 0 (draw_alignments (draw_timing b1))
      in if mb_version b \<ge> 7 then draw_version b2 else b2)"

definition new_builder :: "nat \<Rightarrow> matrix_builder" where
  "new_builder version =
     (let size = 4 * version + 17; blank = replicate size (replicate size False)
      in draw_function_patterns \<lparr>mb_version = version, mb_size = size, mb_modules = blank, mb_is_function = blank\<rparr>)"

section \<open>Placing the codewords\<close>

text \<open>The right-hand columns of the zigzag: from the right edge in pairs, skipping the timing column.\<close>

function zigzag :: "nat \<Rightarrow> nat list" where
  "zigzag right =
     (if right < 1 then [] else (let r = (if right = 6 then 5 else right) in r # zigzag (r - 2)))"
  by auto
termination by (relation "measure id") auto

declare zigzag.simps [simp del]

definition column_cells :: "nat \<Rightarrow> nat \<Rightarrow> (nat \<times> nat) list" where
  "column_cells sz right =
     concat (map (\<lambda>vert. map (\<lambda>j.
        (let x = right - j; upward = ((right + 1) AND 2) = 0 in (if upward then sz - 1 - vert else vert, x))) [0..<2])
       [0..<sz])"

definition cells :: "nat \<Rightarrow> (nat \<times> nat) list" where
  "cells sz = concat (map (column_cells sz) (zigzag (sz - 1)))"

definition codeword_bit :: "bytes \<Rightarrow> nat \<Rightarrow> bool" where
  "codeword_bit codewords i = bit (codewords ! (drop_bit 3 i)) (7 - (i AND 7))"

definition draw_cell :: "grid \<Rightarrow> bytes \<Rightarrow> nat \<Rightarrow> nat \<times> nat \<Rightarrow> grid \<times> nat \<Rightarrow> grid \<times> nat" where
  "draw_cell funs codewords msk yx st =
     (case (yx, st) of ((y, x), (g, i)) \<Rightarrow>
        if grid_get funs y x then (g, i)
        else (let total = length codewords * 8;
                  dark = i < total \<and> codeword_bit codewords i;
                  i' = (if i < total then i + 1 else i)
              in (grid_set y x (if mask_fn msk y x then \<not> dark else dark) g, i')))"

definition draw_data :: "bytes \<Rightarrow> nat \<Rightarrow> matrix_builder \<Rightarrow> matrix_builder" where
  "draw_data codewords msk b =
     b\<lparr>mb_modules := fst (fold (draw_cell (mb_is_function b) codewords msk) (cells (mb_size b)) (mb_modules b, 0))\<rparr>"

section \<open>Penalty\<close>

text \<open>The run lengths as the source collects them: its history starts with an extra run of one.\<close>

fun run_history :: "bool \<Rightarrow> int \<Rightarrow> bool list \<Rightarrow> int list" where
  "run_history color len [] = [len]"
| "run_history color len (c # cs) = (if c = color then run_history color (len + 1) cs else len # run_history c 1 cs)"

definition finder_score :: "bool \<Rightarrow> int list \<Rightarrow> nat \<Rightarrow> int" where
  "finder_score first history i =
     (if take 5 (drop i history) = [1, 1, 3, 1, 1] then
        (if \<not> ((i mod 2 = 0) = first) then 0
         else
           (if i > 0 \<and> history ! (i - 1) \<ge> 4 \<and> \<not> (first \<and> i mod 2 = 1) then 40 else 0) +
           (if i + 5 < length history \<and> history ! (i + 5) \<ge> 4 then 40 else 0) +
           (if i = 0 \<and> \<not> first then 40 else 0) +
           (if i + 5 \<ge> length history then 40 else 0))
      else 0)"

definition line_penalty :: "bool list \<Rightarrow> int" where
  "line_penalty line =
     (let history = 1 # run_history (hd line) 1 (tl line)
      in sum_list (map (\<lambda>len. if len \<ge> 5 then 3 + (len - 5) else 0) history) +
         sum_list (map (finder_score (hd line) history) [0..<length history - 4]))"

definition block_penalty :: "grid \<Rightarrow> int" where
  "block_penalty m =
     (let size = length m
      in sum_list (map (\<lambda>(y, x).
           (let c = grid_get m y x
            in if grid_get m y (x + 1) = c \<and> grid_get m (y + 1) x = c \<and> grid_get m (y + 1) (x + 1) = c then 3 else 0))
          (List.product [0..<size - 1] [0..<size - 1])))"

definition balance_penalty :: "grid \<Rightarrow> int" where
  "balance_penalty m =
     (let dark = int (length (filter id (concat m))); total = int (length m * length m)
      in \<bar>dark * 20 - total * 10\<bar> div total * 10)"

definition penalty :: "grid \<Rightarrow> int" where
  "penalty m =
     (let size = length m; cols = map (\<lambda>x. map (\<lambda>y. grid_get m y x) [0..<size]) [0..<size]
      in sum_list (map line_penalty m) + sum_list (map line_penalty cols) + block_penalty m + balance_penalty m)"

section \<open>The public entry point\<close>

definition draw_candidate :: "nat \<Rightarrow> ecc_level \<Rightarrow> bytes \<Rightarrow> nat \<Rightarrow> grid" where
  "draw_candidate version lvl codewords msk =
     mb_modules (draw_format lvl (int msk) (draw_data codewords msk (new_builder version)))"

fun best_of :: "(int \<times> grid) option \<Rightarrow> grid list \<Rightarrow> (int \<times> grid) option" where
  "best_of best [] = best"
| "best_of best (m # ms) =
     (let score = penalty m
      in best_of (case best of
           None \<Rightarrow> Some (score, m)
         | Some (s, b) \<Rightarrow> if score < s then Some (score, m) else Some (s, b)) ms)"

definition choose_version :: "ecc_level \<Rightarrow> nat option \<Rightarrow> nat \<Rightarrow> qr_error + nat \<times> ecc_level" where
  "choose_version lvl version n =
     (case version of
        None \<Rightarrow>
          (case select_version lvl n of
             Inr v \<Rightarrow> Inr (v, lvl)
           | Inl e \<Rightarrow> rbind (select_version LOW n) (\<lambda>v. Inr (v, LOW)))
      | Some v \<Rightarrow> if fits v lvl n then Inr (v, lvl) else Inl (QrNoFit v))"

definition encode_matrix :: "bytes \<Rightarrow> ecc_level \<Rightarrow> nat option \<Rightarrow> nat option \<Rightarrow> qr_error + grid" where
  "encode_matrix payload lvl version msk =
     (if payload = [] then Inl QrEmpty
      else rbind (choose_version lvl version (length payload)) (\<lambda>(v, lv).
        let codewords = add_ecc_and_interleave (encode_data payload v lv) v lv
        in case msk of
             Some k \<Rightarrow> Inr (draw_candidate v lv codewords k)
           | None \<Rightarrow>
               (case best_of None (map (draw_candidate v lv codewords) [0..<8]) of
                  None \<Rightarrow> Inl QrEmpty
                | Some (s, m) \<Rightarrow> Inr m)))"

definition svg_path :: "nat \<Rightarrow> grid \<Rightarrow> string" where
  "svg_path border m =
     concat (map (\<lambda>(y, row). concat (map (\<lambda>(x, dark).
        if dark then ''M'' @ int_to_str (int (x + border)) @ '' '' @ int_to_str (int (y + border)) @ ''h1v1h-1z'' else [])
        (enumerate 0 row))) (enumerate 0 m))"

definition to_svg :: "nat \<Rightarrow> nat \<Rightarrow> grid \<Rightarrow> string" where
  "to_svg border module_px m =
     (let full = int_to_str (int (length m + border * 2));
          px = int_to_str (int ((length m + border * 2) * module_px))
      in ''<svg xmlns=\"http://www.w3.org/2000/svg\" viewBox=\"0 0 '' @ full @ '' '' @ full @ ''\" width=\"'' @ px @
         ''\" height=\"'' @ px @ ''\" shape-rendering=\"crispEdges\">'' @ ''<rect width=\"'' @ full @ ''\" height=\"'' @ full @
         ''\" fill=\"#ffffff\"/>'' @ ''<path fill=\"#000000\" d=\"'' @ svg_path border m @ ''\"/></svg>'')"


section \<open>The zigzag visits cells once\<close>

lemma zigzag_bounds: "c \<in> set (zigzag r) \<Longrightarrow> 1 \<le> c \<and> c \<le> r"
proof (induction r rule: zigzag.induct)
  case (1 r)
  show ?case
  proof (cases "r < 1")
    case True
    then show ?thesis using 1(2) by (subst (asm) zigzag.simps) simp
  next
    case False
    define q where "q = (if r = 6 then 5 else r)"
    have "zigzag r = q # zigzag (q - 2)" using False by (subst zigzag.simps) (simp add: q_def Let_def)
    then show ?thesis using 1(1) [OF False q_def] 1(2) False by (auto simp: q_def split: if_splits)
  qed
qed

lemma zigzag_step:
  "\<not> r < 1 \<Longrightarrow> zigzag r = (if r = 6 then 5 else r) # zigzag ((if r = 6 then 5 else r) - 2)"
  by (subst zigzag.simps) (simp add: Let_def)

lemma column_cells_nth: "set (column_cells sz c) \<subseteq> {0..<sz} \<times> {c - 1, c}"
  by (auto simp: column_cells_def Let_def numeral_2_eq_2)

lemma distinct_column_cells: "1 \<le> c \<Longrightarrow> distinct (column_cells sz c)"
proof -
  assume c: "1 \<le> c"
  define f where "f = (\<lambda>vert. if ((c + 1) AND 2) = 0 then sz - 1 - vert else vert)"
  have e: "column_cells sz c = concat (map (\<lambda>vert. [(f vert, c), (f vert, c - 1)]) [0..<sz])"
    by (simp add: column_cells_def f_def Let_def numeral_2_eq_2)
  have inj: "inj_on f {0..<sz}" by (auto simp: f_def inj_on_def)
  have "distinct (concat (map (\<lambda>vert. [(f vert, c), (f vert, c - 1)]) ys))" if "distinct ys" "set ys \<subseteq> {0..<sz}" for ys
    using that
  proof (induction ys)
    case (Cons y ys)
    have "f y \<notin> f ` set ys"
    proof
      assume "f y \<in> f ` set ys"
      then obtain x where x: "x \<in> set ys" "f y = f x" by auto
      moreover have "y \<in> {0..<sz}" "x \<in> {0..<sz}" using Cons.prems x(1) by auto
      ultimately have "y = x" using inj_onD [OF inj] by blast
      then show False using Cons.prems(1) x(1) by simp
    qed
    then show ?case using Cons c by auto
  qed simp
  then show ?thesis by (simp add: e)
qed

lemma distinct_cells_from: "distinct (concat (map (column_cells sz) (zigzag r)))"
proof (induction r rule: zigzag.induct)
  case (1 r)
  show ?case
  proof (cases "r < 1")
    case True
    then show ?thesis by (subst zigzag.simps) simp
  next
    case False
    define q where "q = (if r = 6 then 5 else r)"
    have q: "1 \<le> q" using False by (simp add: q_def)
    have "set (column_cells sz q) \<inter> set (concat (map (column_cells sz) (zigzag (q - 2)))) = {}"
    proof -
      have "x < q - 1" if "(y, x) \<in> set (column_cells sz c)" "c \<in> set (zigzag (q - 2))" for y x c
        using that column_cells_nth [of sz c] zigzag_bounds [OF that(2)] by auto
      moreover have "q - 1 \<le> x" if "(y, x) \<in> set (column_cells sz q)" for y x
        using that column_cells_nth [of sz q] by auto
      ultimately show ?thesis by fastforce
    qed
    moreover have "distinct (concat (map (column_cells sz) (zigzag (q - 2))))" by (rule 1 [OF False q_def])
    ultimately show ?thesis using distinct_column_cells [OF q, of sz] zigzag_step [OF False]
      by (simp add: q_def [symmetric])
  qed
qed

lemma distinct_cells: "distinct (cells sz)"
  unfolding cells_def by (rule distinct_cells_from)

lemma cells_range: "(y, x) \<in> set (cells sz) \<Longrightarrow> y < sz \<and> x < sz"
  using column_cells_nth [of sz] zigzag_bounds [of _ "sz - 1"] by (fastforce simp: cells_def)

section \<open>Reading the codewords back\<close>

definition square :: "nat \<Rightarrow> grid \<Rightarrow> bool" where
  "square n g \<longleftrightarrow> length g = n \<and> (\<forall>row \<in> set g. length row = n)"

lemma square_row: "square n g \<Longrightarrow> y < n \<Longrightarrow> length (g ! y) = n"
  by (simp add: square_def)

lemma grid_get_set:
  "square n g \<Longrightarrow> y < n \<Longrightarrow> x < n \<Longrightarrow> grid_get (grid_set y x v g) y' x' = (if y' = y \<and> x' = x then v else grid_get g y' x')"
  using square_row [of n g y] by (auto simp: grid_get_def grid_set_def square_def nth_list_update)

lemma square_set: "square n g \<Longrightarrow> y < n \<Longrightarrow> square n (grid_set y x v g)"
  using square_row [of n g y] by (auto simp: square_def grid_set_def dest!: set_update_subset_insert [THEN subsetD])

definition data_bit :: "bytes \<Rightarrow> nat \<Rightarrow> bool" where
  "data_bit cws i = (i < length cws * 8 \<and> codeword_bit cws i)"

definition free_cells :: "grid \<Rightarrow> (nat \<times> nat) list \<Rightarrow> (nat \<times> nat) list" where
  "free_cells funs cs = filter (\<lambda>(y, x). \<not> grid_get funs y x) cs"

lemma draw_cells:
  "square n g \<Longrightarrow> \<forall>(y, x) \<in> set cs. y < n \<and> x < n \<Longrightarrow> distinct cs \<Longrightarrow>
   fold (draw_cell funs cws msk) cs (g, i) = (g', i') \<Longrightarrow>
     square n g' \<and> (\<forall>y x. (y, x) \<notin> set (free_cells funs cs) \<longrightarrow> grid_get g' y x = grid_get g y x) \<and>
     (\<forall>k < length (free_cells funs cs). case free_cells funs cs ! k of (y, x) \<Rightarrow>
        grid_get g' y x = (data_bit cws (i + k) \<noteq> mask_fn msk y x))"
proof (induction cs arbitrary: g i)
  case Nil
  then show ?case by (simp add: free_cells_def)
next
  case (Cons c cs)
  obtain y x where c: "c = (y, x)" by fastforce
  show ?case
  proof (cases "grid_get funs y x")
    case True
    then have "free_cells funs (c # cs) = free_cells funs cs" "draw_cell funs cws msk c (g, i) = (g, i)"
      by (simp_all add: free_cells_def c draw_cell_def)
    then show ?thesis using Cons.IH [of g i] Cons.prems by simp
  next
    case False
    define v where "v = (data_bit cws i \<noteq> mask_fn msk y x)"
    define i1 where "i1 = (if i < length cws * 8 then i + 1 else i)"
    define g1 where "g1 = grid_set y x v g"
    have yx: "y < n" "x < n" using Cons.prems(2) by (simp_all add: c)
    have d: "draw_cell funs cws msk c (g, i) = (g1, i1)"
      using False by (simp add: draw_cell_def c v_def data_bit_def Let_def i1_def g1_def)
    have fr: "free_cells funs (c # cs) = (y, x) # free_cells funs cs" using False by (simp add: free_cells_def c)
    have notin: "(y, x) \<notin> set (free_cells funs cs)" using Cons.prems(3) by (auto simp: free_cells_def c)
    have shift: "data_bit cws (i1 + k) = data_bit cws (Suc (i + k))" for k
      by (simp add: data_bit_def i1_def)
    have ih: "square n g'" "\<And>b a. (b, a) \<notin> set (free_cells funs cs) \<Longrightarrow> grid_get g' b a = grid_get g1 b a"
      "\<And>k. k < length (free_cells funs cs) \<Longrightarrow> case free_cells funs cs ! k of (y, x) \<Rightarrow>
         grid_get g' y x = (data_bit cws (i1 + k) \<noteq> mask_fn msk y x)"
      using Cons.IH [of g1 i1] Cons.prems yx by (auto simp: d square_set g1_def)
    note get1 = grid_get_set [OF Cons.prems(1) yx, of v, folded g1_def]
    have "grid_get g' b a = grid_get g b a" if "(b, a) \<notin> set (free_cells funs (c # cs))" for b a
      using that ih(2) [of b a] get1 [of b a] by (auto simp: fr)
    moreover have "case free_cells funs (c # cs) ! k of (y, x) \<Rightarrow> grid_get g' y x = (data_bit cws (i + k) \<noteq> mask_fn msk y x)"
      if "k < length (free_cells funs (c # cs))" for k
    proof (cases k)
      case 0
      then show ?thesis using ih(2) [OF notin] get1 [of y x] by (simp add: fr v_def)
    next
      case (Suc k')
      then show ?thesis using ih(3) [of k'] that by (simp add: fr shift)
    qed
    ultimately show ?thesis using ih(1) by blast
  qed
qed


definition ex_builder :: matrix_builder where
  "ex_builder = \<lparr>mb_version = 1, mb_size = 2, mb_modules = [[False, False], [False, True]],
     mb_is_function = [[False, False], [False, True]]\<rparr>"


section \<open>Format information and penalties, evaluated\<close>

definition popcount :: "int \<Rightarrow> nat" where
  "popcount v = length (filter (\<lambda>i. bit v i) [0..<15])"

definition all_formats :: "int list" where
  "all_formats = [format_bits l m. l \<leftarrow> [LOW, MEDIUM], m \<leftarrow> [0..7]]"

text \<open>The sixteen format words the generator can draw are pairwise at Hamming distance five or more, so
  up to two damaged format modules are correctable, and each carries its level and mask in the
  clear in its high bits once the fixed pattern is removed.
\<close>
lemma qr_format_distance:
  "distinct all_formats \<and> list_all (\<lambda>a. list_all (\<lambda>b. a = b \<or> popcount (a XOR b) \<ge> 5) all_formats) all_formats \<and>
   list_all (\<lambda>m. drop_bit 10 (format_bits LOW m XOR FORMAT_MASK) = 8 + m \<and>
     drop_bit 10 (format_bits MEDIUM m XOR FORMAT_MASK) = m) [0..7]"
  by code_simp

text \<open>
  The finder-like rule of the penalty is applied to the wrong colour. The run history starts with a
  spurious run, which shifts the parity that tells dark from light runs: a dark-first 1:1:3:1:1
  pattern with a light guard, which the rule is for, scores nothing, and its light-first negative,
  which is no finder pattern, scores.
\<close>
lemma qr_finder_penalty_inverted:
  "line_penalty [False, False, False, False, True, False, True, True, True, False, True, False, False, False, False] = 0 \<and>
   line_penalty [True, True, True, True, False, True, False, False, False, True, False, True, True, True, True] = 80"
  by code_simp

end
