(* ===== verification/Provision.thy ===== *)
theory Provision
  imports PyTime "HOL-Library.Multiset"
begin

text \<open>
  The user provisioning fan-out and the statistics aggregation of \<open>app/cores/manager.py\<close>: create,
  update, suspend, resume and delete a user's accounts on every requested core, collect usage and
  online devices, each core isolated from the failures of the others. The account API of a driver
  is a parameter, a record of functions on an abstract driver state; a call returns the new state
  and the message of the exception, if it raised.

  \<open>asyncio.gather\<close> runs the calls for the different cores concurrently. Each call touches one driver
  only, so the model runs them one after the other; that the order does not matter is proved.
\<close>

section \<open>Drivers and accounts\<close>

datatype capability =
  SUSPEND_RESUME | USER_MANAGEMENT | USAGE_ACCOUNTING | ONLINE_TRACKING | OTHER_CAPABILITY string

definition capability_value :: "capability \<Rightarrow> string" where
  "capability_value c =
     (case c of SUSPEND_RESUME \<Rightarrow> ''suspend_resume'' | USER_MANAGEMENT \<Rightarrow> ''user_management''
      | USAGE_ACCOUNTING \<Rightarrow> ''usage_accounting'' | ONLINE_TRACKING \<Rightarrow> ''online_tracking'' | OTHER_CAPABILITY s \<Rightarrow> s)"

record user_account =
  ua_user_id :: int
  ua_username :: string
  ua_account_id :: string
  ua_protocol :: string
  ua_enabled :: bool
  ua_expire_at :: "datetime option"
  ua_data_limit_bytes :: "int option"
  ua_settings :: "(string \<times> pyval) list"

type_synonym 'd call = "'d \<Rightarrow> 'd \<times> string option"

record ('d, 'u, 's) account_driver =
  ad_state :: 'd
  ad_supports :: "capability \<Rightarrow> bool"
  ad_create_account :: "user_account \<Rightarrow> 'd call"
  ad_update_account :: "user_account \<Rightarrow> 'd call"
  ad_delete_account :: "string \<Rightarrow> 'd call"
  ad_suspend_account :: "string \<Rightarrow> 'd call"
  ad_resume_account :: "user_account \<Rightarrow> 'd call"
  ad_sync_accounts :: "user_account list \<Rightarrow> 'd call"
  ad_get_usage :: "string list \<Rightarrow> 'd \<Rightarrow> 'd \<times> (string + 'u list)"
  ad_get_online_devices :: "string list \<Rightarrow> 'd \<Rightarrow> 'd \<times> (string + 's list)"

record provision_result =
  pr_core_id :: string
  pr_account_id :: string
  pr_success :: bool
  pr_error :: "string option"

type_synonym ('d, 'u, 's) fleet = "(string, ('d, 'u, 's) account_driver) dict"

definition not_found :: "string \<Rightarrow> string" where
  "not_found core_id = ''Core '' @ [CHR 0x27] @ core_id @ [CHR 0x27] @ '' is not installed or not managed.''"

definition not_supported :: "string \<Rightarrow> capability \<Rightarrow> string" where
  "not_supported core_id cap =
     ''Core '' @ [CHR 0x27] @ core_id @ [CHR 0x27] @ '' does not support capability '' @ [CHR 0x27] @ capability_value cap @ [CHR 0x27, CHR 0x2E]"

definition result_of :: "string \<Rightarrow> string \<Rightarrow> string option \<Rightarrow> provision_result" where
  "result_of core_id account_id err =
     \<lparr>pr_core_id = core_id, pr_account_id = account_id, pr_success = (err = None), pr_error = err\<rparr>"

text \<open>Run one call on a driver and keep its new state.\<close>

definition call_driver ::
  "'d call \<Rightarrow> ('d, 'u, 's) account_driver \<Rightarrow> string option \<times> ('d, 'u, 's) account_driver" where
  "call_driver c drv = (case c (ad_state drv) of (d', err) \<Rightarrow> (err, drv\<lparr>ad_state := d'\<rparr>))"

section \<open>One core at a time\<close>

definition create_one :: "user_account \<Rightarrow> ('d, 'u, 's) account_driver \<Rightarrow> string option \<times> ('d, 'u, 's) account_driver" where
  "create_one account drv = call_driver (ad_create_account drv account) drv"

definition update_one :: "user_account \<Rightarrow> ('d, 'u, 's) account_driver \<Rightarrow> string option \<times> ('d, 'u, 's) account_driver" where
  "update_one account drv = call_driver (ad_update_account drv account) drv"

definition delete_one :: "string \<Rightarrow> ('d, 'u, 's) account_driver \<Rightarrow> string option \<times> ('d, 'u, 's) account_driver" where
  "delete_one account_id drv = call_driver (ad_delete_account drv account_id) drv"

definition suspend_one ::
  "string \<Rightarrow> user_account \<Rightarrow> ('d, 'u, 's) account_driver \<Rightarrow> string option \<times> ('d, 'u, 's) account_driver" where
  "suspend_one core_id account drv =
     (if ad_supports drv SUSPEND_RESUME then call_driver (ad_suspend_account drv (ua_account_id account)) drv
      else if ad_supports drv USER_MANAGEMENT then call_driver (ad_update_account drv (account\<lparr>ua_enabled := False\<rparr>)) drv
      else (Some (not_supported core_id SUSPEND_RESUME), drv))"

definition resume_one ::
  "string \<Rightarrow> user_account \<Rightarrow> ('d, 'u, 's) account_driver \<Rightarrow> string option \<times> ('d, 'u, 's) account_driver" where
  "resume_one core_id account drv =
     (if ad_supports drv SUSPEND_RESUME then call_driver (ad_resume_account drv account) drv
      else if ad_supports drv USER_MANAGEMENT then call_driver (ad_update_account drv (account\<lparr>ua_enabled := True\<rparr>)) drv
      else (Some (not_supported core_id SUSPEND_RESUME), drv))"

section \<open>Fan-out\<close>

text \<open>
  The pattern the five operations share: look the core up, run the step on its driver, turn the
  outcome into a result; a missing core is a failed result.
\<close>

definition fan_one ::
  "(string \<Rightarrow> 'a \<Rightarrow> ('d, 'u, 's) account_driver \<Rightarrow> string option \<times> ('d, 'u, 's) account_driver) \<Rightarrow> ('a \<Rightarrow> string) \<Rightarrow>
     string \<times> 'a \<Rightarrow> ('d, 'u, 's) fleet \<Rightarrow> provision_result \<times> ('d, 'u, 's) fleet" where
  "fan_one step ident entry fleet =
     (case entry of (core_id, a) \<Rightarrow>
        (case dict_get fleet core_id of
           None \<Rightarrow> (result_of core_id (ident a) (Some (not_found core_id)), fleet)
         | Some drv \<Rightarrow>
             (case step core_id a drv of (err, drv') \<Rightarrow>
                (result_of core_id (ident a) err, dict_set core_id drv' fleet))))"

fun fan_out ::
  "(string \<Rightarrow> 'a \<Rightarrow> ('d, 'u, 's) account_driver \<Rightarrow> string option \<times> ('d, 'u, 's) account_driver) \<Rightarrow> ('a \<Rightarrow> string) \<Rightarrow>
     (string, 'a) dict \<Rightarrow> ('d, 'u, 's) fleet \<Rightarrow> provision_result list \<times> ('d, 'u, 's) fleet" where
  "fan_out step ident [] fleet = ([], fleet)"
| "fan_out step ident (e # es) fleet =
     (case fan_one step ident e fleet of (r, fleet1) \<Rightarrow>
      (case fan_out step ident es fleet1 of (rs, fleet2) \<Rightarrow> (r # rs, fleet2)))"

definition provision_user where
  "provision_user accounts fleet = fan_out (\<lambda>c a. create_one a) ua_account_id accounts fleet"

definition update_user where
  "update_user accounts fleet = fan_out (\<lambda>c a. update_one a) ua_account_id accounts fleet"

definition suspend_user where
  "suspend_user accounts fleet = fan_out suspend_one ua_account_id accounts fleet"

definition resume_user where
  "resume_user accounts fleet = fan_out resume_one ua_account_id accounts fleet"

definition deprovision_user where
  "deprovision_user accounts fleet = fan_out (\<lambda>c a. delete_one a) id accounts fleet"

definition sync_accounts ::
  "string \<Rightarrow> user_account list \<Rightarrow> ('d, 'u, 's) fleet \<Rightarrow> (string + unit) \<times> ('d, 'u, 's) fleet" where
  "sync_accounts core_id accounts fleet =
     (case dict_get fleet core_id of
        None \<Rightarrow> (Inl (not_found core_id), fleet)
      | Some drv \<Rightarrow>
          (case call_driver (ad_sync_accounts drv accounts) drv of (err, drv') \<Rightarrow>
             ((case err of None \<Rightarrow> Inr () | Some e \<Rightarrow> Inl e), dict_set core_id drv' fleet)))"

section \<open>Aggregation\<close>

fun collect ::
  "capability \<Rightarrow> (('d, 'u, 's) account_driver \<Rightarrow> string list \<Rightarrow> 'd \<Rightarrow> 'd \<times> (string + 'r list)) \<Rightarrow>
     (string, string list) dict \<Rightarrow> ('d, 'u, 's) fleet \<Rightarrow> 'r list \<times> ('d, 'u, 's) fleet" where
  "collect cap get [] fleet = ([], fleet)"
| "collect cap get ((core_id, ids) # es) fleet =
     (case dict_get fleet core_id of
        None \<Rightarrow> collect cap get es fleet
      | Some drv \<Rightarrow>
          if \<not> ad_supports drv cap then collect cap get es fleet
          else (case get drv ids (ad_state drv) of (d', r) \<Rightarrow>
                (case collect cap get es (dict_set core_id (drv\<lparr>ad_state := d'\<rparr>) fleet) of (rs, fleet') \<Rightarrow>
                   ((case r of Inl e \<Rightarrow> [] | Inr xs \<Rightarrow> xs) @ rs, fleet'))))"

definition aggregate_usage where
  "aggregate_usage accounts fleet = collect USAGE_ACCOUNTING ad_get_usage accounts fleet"

definition online_devices where
  "online_devices accounts fleet = collect ONLINE_TRACKING ad_get_online_devices accounts fleet"

section \<open>Isolation\<close>

definition local_result ::
  "(string \<Rightarrow> 'a \<Rightarrow> ('d, 'u, 's) account_driver \<Rightarrow> string option \<times> ('d, 'u, 's) account_driver) \<Rightarrow> ('a \<Rightarrow> string) \<Rightarrow>
     ('d, 'u, 's) fleet \<Rightarrow> string \<times> 'a \<Rightarrow> provision_result" where
  "local_result step ident fleet e = fst (fan_one step ident e fleet)"

lemma fan_one_other:
  "c \<noteq> fst e \<Longrightarrow> dict_get (snd (fan_one step ident e fleet)) c = dict_get fleet c"
  by (cases e) (auto simp: fan_one_def split: option.splits prod.splits)

lemma fan_one_cong:
  "dict_get fleet' (fst e) = dict_get fleet (fst e) \<Longrightarrow>
     fst (fan_one step ident e fleet') = fst (fan_one step ident e fleet) \<and>
     dict_get (snd (fan_one step ident e fleet')) (fst e) = dict_get (snd (fan_one step ident e fleet)) (fst e)"
  by (cases e) (auto simp: fan_one_def split: option.splits prod.splits)

lemma fan_out_spec:
  "distinct (dict_keys es) \<Longrightarrow> fan_out step ident es fleet = (rs, fleet') \<Longrightarrow>
     rs = map (local_result step ident fleet) es \<and>
     (\<forall>e \<in> set es. dict_get fleet' (fst e) = dict_get (snd (fan_one step ident e fleet)) (fst e)) \<and>
     (\<forall>c. c \<notin> set (dict_keys es) \<longrightarrow> dict_get fleet' c = dict_get fleet c)"
proof (induction es arbitrary: fleet rs)
  case Nil
  then show ?case by simp
next
  case (Cons e es)
  obtain r fleet1 where r: "fan_one step ident e fleet = (r, fleet1)" by fastforce
  obtain rs' where rs': "fan_out step ident es fleet1 = (rs', fleet')" "rs = r # rs'"
    using Cons.prems(2) by (auto simp: r split: prod.splits)
  have d: "distinct (dict_keys es)" "fst e \<notin> set (dict_keys es)" using Cons.prems(1) by auto
  have other: "dict_get fleet1 c = dict_get fleet c" if "c \<noteq> fst e" for c
    using fan_one_other [OF that, of step ident fleet] by (simp add: r)
  have ih: "rs' = map (local_result step ident fleet1) es"
    "\<And>x. x \<in> set es \<Longrightarrow> dict_get fleet' (fst x) = dict_get (snd (fan_one step ident x fleet1)) (fst x)"
    "\<And>c. c \<notin> set (dict_keys es) \<Longrightarrow> dict_get fleet' c = dict_get fleet1 c"
    using Cons.IH [OF d(1) rs'(1)] by auto
  have same: "fst (fan_one step ident x fleet1) = fst (fan_one step ident x fleet) \<and>
      dict_get (snd (fan_one step ident x fleet1)) (fst x) = dict_get (snd (fan_one step ident x fleet)) (fst x)" if "x \<in> set es" for x
    using that d(2) by (intro fan_one_cong other) (metis imageI list.set_map)
  have "rs' = map (local_result step ident fleet) es" using same by (simp add: ih(1) local_result_def)
  moreover have "dict_get fleet' (fst e) = dict_get (snd (fan_one step ident e fleet)) (fst e)" using ih(3) [OF d(2)] by (simp add: r)
  moreover have "dict_get fleet' c = dict_get fleet c" if "c \<notin> set (dict_keys (e # es))" for c
    using that ih(3) [of c] other [of c] by simp
  ultimately show ?case using ih(2) same r by (auto simp: rs'(2) local_result_def)
qed



definition ex_driver :: "bool \<Rightarrow> (string list, unit, unit) account_driver" where
  "ex_driver broken = \<lparr>ad_state = [], ad_supports = (\<lambda>c. c = USER_MANAGEMENT),
     ad_create_account = (\<lambda>a d. if broken then (d, Some ''down'') else (ua_account_id a # d, None)),
     ad_update_account = (\<lambda>a d. (d, None)), ad_delete_account = (\<lambda>i d. (removeAll i d, None)),
     ad_suspend_account = (\<lambda>i d. (d, Some ''unsupported'')), ad_resume_account = (\<lambda>a d. (d, Some ''unsupported'')),
     ad_sync_accounts = (\<lambda>as d. (map ua_account_id as, None)), ad_get_usage = (\<lambda>i d. (d, Inr [])),
     ad_get_online_devices = (\<lambda>i d. (d, Inr []))\<rparr>"

definition ex_account :: user_account where
  "ex_account = \<lparr>ua_user_id = 7, ua_username = ''al'', ua_account_id = ''7.al'', ua_protocol = ''vless'', ua_enabled = True,
     ua_expire_at = None, ua_data_limit_bytes = None, ua_settings = []\<rparr>"


end
