(* ===== verification/Devices.thy ===== *)
theory Devices
  imports PyTime
begin

text \<open>
  The unified device registry (\<open>app/cores/devices.py\<close>): live sessions of all cores are folded into
  one device list per user, and device limits are checked over all protocols. The digest of an
  identity is a parameter (\<open>sha256(...)[:16]\<close>); the clock of each session is an argument.
\<close>

section \<open>Data\<close>

record device_info =
  di_device_id :: string
  di_user_id :: int
  di_name :: string
  di_platform :: "string option"
  di_app_version :: "string option"
  di_last_ip :: "string option"
  di_first_seen :: datetime
  di_last_seen :: datetime
  di_current_core :: string
  di_cores :: "string list"
  di_online :: bool

text \<open>A live session as the registry reads it: address, metadata and the time of processing.\<close>

record live_session =
  ls_ip :: "string option"
  ls_stable_id :: "string option"
  ls_meta_ip :: "string option"
  ls_platform :: "string option"
  ls_app_version :: "string option"
  ls_now :: datetime

record device_violation =
  dv_user_id :: int
  dv_active_devices :: nat
  dv_device_limit :: int
  dv_devices :: "device_info list"

type_synonym device_store = "(string, device_info) dict"

section \<open>Identity\<close>

text \<open>\<open>a or b\<close> on optional strings: the empty string counts as missing.\<close>

definition or_str :: "string option \<Rightarrow> string option \<Rightarrow> string option" where
  "or_str a b = (case a of None \<Rightarrow> b | Some s \<Rightarrow> if s = [] then b else a)"

definition truthy_str :: "string option \<Rightarrow> bool" where
  "truthy_str a \<longleftrightarrow> a \<noteq> None \<and> a \<noteq> Some []"

definition identity_text :: "int \<Rightarrow> string option \<Rightarrow> string option \<Rightarrow> string" where
  "identity_text user_id stable_id ip =
     (if truthy_str stable_id then ''stable:'' @ the stable_id
      else if truthy_str ip then ''ip:'' @ int_to_str user_id @ '':'' @ the ip
      else ''anon:'' @ int_to_str user_id)"

definition device_identity :: "(string \<Rightarrow> string) \<Rightarrow> int \<Rightarrow> string option \<Rightarrow> string option \<Rightarrow> string" where
  "device_identity digest user_id stable_id ip = digest (identity_text user_id stable_id ip)"

section \<open>The in-memory store\<close>

definition dev_get :: "device_store \<Rightarrow> string \<Rightarrow> device_info option" where
  "dev_get s device_id = dict_get s device_id"

definition dev_upsert :: "device_info \<Rightarrow> device_store \<Rightarrow> device_store" where
  "dev_upsert d s = dict_set (di_device_id d) d s"

definition dev_bulk_upsert :: "device_info list \<Rightarrow> device_store \<Rightarrow> device_store" where
  "dev_bulk_upsert ds s = fold dev_upsert ds s"

definition dev_all :: "device_store \<Rightarrow> device_info list" where
  "dev_all s = map snd s"

definition dev_for_user :: "int \<Rightarrow> device_store \<Rightarrow> device_info list" where
  "dev_for_user user_id s = filter (\<lambda>d. di_user_id d = user_id) (map snd s)"

section \<open>Refresh\<close>

definition session_ip :: "live_session \<Rightarrow> string option" where
  "session_ip s = or_str (ls_ip s) (ls_meta_ip s)"

definition insert_core :: "string \<Rightarrow> string list \<Rightarrow> string list" where
  "insert_core c cs = (if c \<in> set cs then cs else cs @ [c])"

definition seen_device ::
  "(string \<Rightarrow> string) \<Rightarrow> string \<Rightarrow> int \<Rightarrow> device_info option \<Rightarrow> live_session \<Rightarrow> device_info" where
  "seen_device digest core_id user_id existing s =
     \<lparr>di_device_id = device_identity digest user_id (ls_stable_id s) (session_ip s), di_user_id = user_id,
      di_name = (case existing of
          Some e \<Rightarrow> if truthy_str (ls_stable_id s) then the (ls_stable_id s) else di_name e
        | None \<Rightarrow> (case or_str (ls_stable_id s) (or_str (session_ip s) (Some [])) of None \<Rightarrow> [] | Some n \<Rightarrow> n)),
      di_platform = or_str (ls_platform s) (Option.bind existing di_platform),
      di_app_version = or_str (ls_app_version s) (Option.bind existing di_app_version),
      di_last_ip = or_str (session_ip s) (Option.bind existing di_last_ip),
      di_first_seen = (case existing of Some e \<Rightarrow> di_first_seen e | None \<Rightarrow> ls_now s),
      di_last_seen = ls_now s, di_current_core = core_id,
      di_cores = (case existing of Some e \<Rightarrow> insert_core core_id (di_cores e) | None \<Rightarrow> [core_id]),
      di_online = True\<rparr>"

text \<open>One session: the store is asked first, then the devices of this refresh.\<close>

definition refresh_session ::
  "(string \<Rightarrow> string) \<Rightarrow> string \<Rightarrow> int \<Rightarrow> live_session \<Rightarrow> device_store \<times> device_store \<Rightarrow> device_store \<times> device_store" where
  "refresh_session digest core_id user_id s st =
     (case st of (online_now, store) \<Rightarrow>
        (let device_id = device_identity digest user_id (ls_stable_id s) (session_ip s);
             existing = (case dev_get store device_id of Some e \<Rightarrow> Some e | None \<Rightarrow> dict_get online_now device_id);
             device = seen_device digest core_id user_id existing s
         in (dict_set device_id device online_now, dev_upsert device store)))"

definition refresh_owner ::
  "(string \<Rightarrow> string) \<Rightarrow> (string \<times> string) \<times> (int \<times> live_session list) \<Rightarrow> device_store \<times> device_store \<Rightarrow> device_store \<times> device_store" where
  "refresh_owner digest entry st =
     (case entry of ((core_id, account_id), (user_id, sessions)) \<Rightarrow>
        fold (refresh_session digest core_id user_id) sessions st)"

definition mark_offline :: "device_store \<Rightarrow> device_info \<Rightarrow> device_store \<Rightarrow> device_store" where
  "mark_offline online_now d store =
     (if di_online d \<and> \<not> dict_in (di_device_id d) online_now then dev_upsert (d\<lparr>di_online := False\<rparr>) store else store)"

definition refresh_devices ::
  "(string \<Rightarrow> string) \<Rightarrow> (string \<times> string, int \<times> live_session list) dict \<Rightarrow> device_store \<Rightarrow> device_info list \<times> device_store" where
  "refresh_devices digest sessions_by_owner store =
     (case fold (refresh_owner digest) sessions_by_owner ([], store) of (online_now, store1) \<Rightarrow>
        (map snd online_now, fold (mark_offline online_now) (dev_all store1) store1))"

section \<open>Limits\<close>

definition active_devices :: "int \<Rightarrow> device_store \<Rightarrow> device_info list" where
  "active_devices user_id store = filter di_online (dev_for_user user_id store)"

definition list_devices :: "int option \<Rightarrow> device_store \<Rightarrow> device_info list" where
  "list_devices user_id store = (case user_id of None \<Rightarrow> dev_all store | Some u \<Rightarrow> dev_for_user u store)"

text \<open>\<open>sorted(..., reverse=True)\<close> is stable: equal keys keep their order.\<close>

definition newest_first :: "device_info list \<Rightarrow> device_info list" where
  "newest_first ds = sort_key (\<lambda>d. - instant (di_last_seen d)) ds"

definition enforce_limits :: "(int, int option) dict \<Rightarrow> device_store \<Rightarrow> device_violation list" where
  "enforce_limits limits store =
     List.map_filter (\<lambda>(user_id, limit).
       (case limit of
          None \<Rightarrow> None
        | Some l \<Rightarrow>
            (let active = active_devices user_id store
             in if int (length active) > l
                then Some \<lparr>dv_user_id = user_id, dv_active_devices = length active, dv_device_limit = l,
                           dv_devices = newest_first active\<rparr>
                else None))) limits"

section \<open>What a refresh leaves\<close>

definition keyed_store :: "device_store \<Rightarrow> bool" where
  "keyed_store s \<longleftrightarrow> dict_ok s \<and> (\<forall>k d. dict_get s k = Some d \<longrightarrow> di_device_id d = k)"

lemma keyed_upsert: "keyed_store s \<Longrightarrow> keyed_store (dev_upsert d s)"
  by (simp add: keyed_store_def dev_upsert_def)

text \<open>The ids of the live sessions of a poll.\<close>

definition live_ids :: "(string \<Rightarrow> string) \<Rightarrow> (string \<times> string, int \<times> live_session list) dict \<Rightarrow> string set" where
  "live_ids digest owners =
     (\<Union>((c, a), (u, ss)) \<in> set owners. (\<lambda>s. device_identity digest u (ls_stable_id s) (session_ip s)) ` set ss)"

text \<open>The loop invariant: devices seen so far are stored, online, and everything else is as before.\<close>

definition seen_inv :: "string set \<Rightarrow> device_store \<Rightarrow> device_store \<times> device_store \<Rightarrow> bool" where
  "seen_inv ids s0 st \<longleftrightarrow> keyed_store (fst st) \<and> keyed_store (snd st) \<and>
     (\<forall>k. dict_get (fst st) k \<noteq> None \<longleftrightarrow> k \<in> ids) \<and>
     (\<forall>k. k \<in> ids \<longrightarrow> dict_get (snd st) k = dict_get (fst st) k) \<and>
     (\<forall>k. k \<notin> ids \<longrightarrow> dict_get (snd st) k = dict_get s0 k) \<and>
     (\<forall>k d. dict_get (fst st) k = Some d \<longrightarrow> di_online d)"

lemma seen_session:
  assumes "seen_inv ids s0 st"
  shows "seen_inv (insert (device_identity digest u (ls_stable_id s) (session_ip s)) ids) s0 (refresh_session digest c u s st)"
proof -
  obtain online store where st: "st = (online, store)" by fastforce
  define id where "id = device_identity digest u (ls_stable_id s) (session_ip s)"
  define d where "d = seen_device digest c u (case dev_get store id of Some e \<Rightarrow> Some e | None \<Rightarrow> dict_get online id) s"
  have d: "di_device_id d = id" "di_online d" by (simp_all add: d_def seen_device_def id_def)
  have r: "refresh_session digest c u s st = (dict_set id d online, dict_set id d store)"
    using d(1) by (simp add: refresh_session_def st id_def [symmetric] Let_def d_def dev_upsert_def)
  have k: "keyed_store (dict_set id d online)" "keyed_store (dict_set id d store)"
    using assms keyed_upsert [of online d] keyed_upsert [of store d] by (simp_all add: seen_inv_def st dev_upsert_def d(1))
  have g: "dict_get online k \<noteq> None \<longleftrightarrow> k \<in> ids" "k \<in> ids \<Longrightarrow> dict_get store k = dict_get online k"
    "k \<notin> ids \<Longrightarrow> dict_get store k = dict_get s0 k" "dict_get online k = Some e \<Longrightarrow> di_online e" for k e
    using assms unfolding seen_inv_def st fst_conv snd_conv by blast+
  show ?thesis
    unfolding r id_def [symmetric] seen_inv_def fst_conv snd_conv
  proof (intro conjI allI impI k)
    fix x
    show "dict_get (dict_set id d online) x \<noteq> None \<longleftrightarrow> x \<in> insert id ids" using g(1) [of x] by simp
  next
    fix x
    assume "x \<in> insert id ids"
    then show "dict_get (dict_set id d store) x = dict_get (dict_set id d online) x" using g(2) [of x] by auto
  next
    fix x
    assume "x \<notin> insert id ids"
    then show "dict_get (dict_set id d store) x = dict_get s0 x" using g(3) [of x] by simp
  next
    fix x e
    assume "dict_get (dict_set id d online) x = Some e"
    then show "di_online e" using g(4) [of x e] d(2) by (simp split: if_splits)
  qed
qed

lemma seen_sessions:
  "seen_inv ids s0 st \<Longrightarrow>
     seen_inv (ids \<union> (\<lambda>s. device_identity digest u (ls_stable_id s) (session_ip s)) ` set ss) s0
       (fold (refresh_session digest c u) ss st)"
proof (induction ss arbitrary: ids st)
  case (Cons s ss)
  have "ids \<union> (\<lambda>s. device_identity digest u (ls_stable_id s) (session_ip s)) ` set (s # ss) =
    insert (device_identity digest u (ls_stable_id s) (session_ip s)) ids \<union>
      (\<lambda>s. device_identity digest u (ls_stable_id s) (session_ip s)) ` set ss" by auto
  then show ?case using Cons.IH [OF seen_session [OF Cons.prems, of digest u s c]] by simp
qed simp

lemma seen_owners:
  "seen_inv ids s0 st \<Longrightarrow> seen_inv (ids \<union> live_ids digest os) s0 (fold (refresh_owner digest) os st)"
proof (induction os arbitrary: ids st)
  case (Cons e os)
  obtain c a u ss where e: "e = ((c, a), (u, ss))" by (metis prod.exhaust)
  have "ids \<union> live_ids digest (e # os) =
      (ids \<union> (\<lambda>s. device_identity digest u (ls_stable_id s) (session_ip s)) ` set ss) \<union> live_ids digest os"
    by (auto simp: live_ids_def e)
  then show ?case using Cons.IH [OF seen_sessions [OF Cons.prems, of digest u ss c]] by (simp add: refresh_owner_def e)
qed (simp add: live_ids_def)

lemma fold_mark_offline:
  "keyed_store store \<Longrightarrow> (\<forall>d \<in> set ds. dict_get store (di_device_id d) = Some d) \<Longrightarrow> distinct (map di_device_id ds) \<Longrightarrow>
     dict_get (fold (mark_offline online) ds store) k =
       (case dict_get store k of
          None \<Rightarrow> None
        | Some d \<Rightarrow> Some (if d \<in> set ds \<and> di_online d \<and> \<not> dict_in k online then d\<lparr>di_online := False\<rparr> else d))"
proof (induction ds arbitrary: store)
  case Nil
  then show ?case by (simp split: option.splits)
next
  case (Cons d ds)
  define s1 where "s1 = mark_offline online d store"
  have s1: "dict_get s1 x = (if x = di_device_id d \<and> di_online d \<and> \<not> dict_in x online then Some (d\<lparr>di_online := False\<rparr>) else dict_get store x)" for x
    by (auto simp: s1_def mark_offline_def dev_upsert_def)
  have k: "keyed_store s1" using Cons.prems(1) keyed_upsert by (simp add: s1_def mark_offline_def)
  have here: "dict_get store (di_device_id d) = Some d" by (rule bspec [OF Cons.prems(2)]) simp
  have ne: "di_device_id e \<noteq> di_device_id d" if "e \<in> set ds" for e
  proof
    assume "di_device_id e = di_device_id d"
    with that have "di_device_id d \<in> set (map di_device_id ds)" by (metis image_eqI list.set_map)
    then show False using Cons.prems(3) by simp
  qed
  have ds: "\<forall>e \<in> set ds. dict_get s1 (di_device_id e) = Some e"
  proof
    fix e
    assume e: "e \<in> set ds"
    have "dict_get store (di_device_id e) = Some e" by (rule bspec [OF Cons.prems(2)]) (simp add: e)
    then show "dict_get s1 (di_device_id e) = Some e" unfolding s1 using ne [OF e] by simp
  qed
  have notin: "d\<lparr>di_online := False\<rparr> \<notin> set ds" "d \<notin> set ds"
    using ne [of "d\<lparr>di_online := False\<rparr>"] ne [of d] by (simp_all, blast+)
  have step: "fold (mark_offline online) (d # ds) store = fold (mark_offline online) ds s1" by (simp add: s1_def)
  have ih: "dict_get (fold (mark_offline online) ds s1) k =
       (case dict_get s1 k of None \<Rightarrow> None
        | Some d \<Rightarrow> Some (if d \<in> set ds \<and> di_online d \<and> \<not> dict_in k online then d\<lparr>di_online := False\<rparr> else d))"
    by (rule Cons.IH [OF k ds]) (use Cons.prems(3) in simp)
  show ?case
  proof (cases "k = di_device_id d")
    case True
    then show ?thesis unfolding step ih using here notin by (simp add: s1)
  next
    case False
    have "e \<noteq> d" if "dict_get store k = Some e" for e
      using Cons.prems(1) that False by (auto simp: keyed_store_def)
    then show ?thesis unfolding step ih using False by (simp add: s1 split: option.split)
  qed
qed

text \<open>
  After a refresh a stored device is online exactly when one of the polled sessions has its
  identity, on whatever core; devices that vanished from every core are kept but marked offline,
  nothing is deleted, and the returned list is exactly the stored devices that are online.
\<close>
lemma refresh_online_iff_live:
  fixes digest :: "string \<Rightarrow> string" and owners :: "(string \<times> string, int \<times> live_session list) dict"
  assumes "keyed_store store"
  defines "res \<equiv> refresh_devices digest owners store"
  shows "(\<forall>k. (\<exists>d. dict_get (snd res) k = Some d \<and> di_online d) \<longleftrightarrow> k \<in> live_ids digest owners) \<and>
     (\<forall>k d. dict_get store k = Some d \<longrightarrow> k \<notin> live_ids digest owners \<longrightarrow> dict_get (snd res) k = Some (d\<lparr>di_online := False\<rparr>)) \<and>
     set (fst res) = {d. \<exists>k. dict_get (snd res) k = Some d \<and> di_online d}"
proof -
  obtain online store1 where f: "fold (refresh_owner digest) owners ([], store) = (online, store1)" by fastforce
  define L where "L = live_ids digest owners"
  have "seen_inv {} store ([], store)" using assms(1) by (simp add: seen_inv_def keyed_store_def)
  from seen_owners [OF this, of digest owners] have inv: "seen_inv L store (online, store1)" by (simp add: f L_def)
  have on: "dict_get online k \<noteq> None \<longleftrightarrow> k \<in> L" "k \<in> L \<Longrightarrow> dict_get store1 k = dict_get online k"
    "k \<notin> L \<Longrightarrow> dict_get store1 k = dict_get store k" "dict_get online k = Some e \<Longrightarrow> di_online e"
    "keyed_store online" "keyed_store store1" for k e
    using inv unfolding seen_inv_def fst_conv snd_conv by blast+
  have keyed: "dict_get store1 (di_device_id d) = Some d" if "d \<in> set (dev_all store1)" for d
    using that on(6) unfolding keyed_store_def dev_all_def
    by (metis (no_types, lifting) imageE list.set_map map_of_is_SomeI prod.collapse)
  have ids: "map di_device_id (dev_all store1) = dict_keys store1"
    using on(6) unfolding keyed_store_def dev_all_def by (auto intro!: map_cong)
  have res: "dict_get (snd res) k = (case dict_get store1 k of None \<Rightarrow> None
      | Some d \<Rightarrow> Some (if di_online d \<and> k \<notin> L then d\<lparr>di_online := False\<rparr> else d))" for k
  proof -
    have mem: "d \<in> set (dev_all store1)" if "dict_get store1 k = Some d" for d
      using that by (force simp: dev_all_def dest: map_of_SomeD)
    have "dict_in k online \<longleftrightarrow> k \<in> L" using on(1) by (simp add: dict_in_def)
    then show ?thesis
      using fold_mark_offline [OF on(6), of "dev_all store1" online k] keyed ids on(6) mem
      by (auto simp: res_def refresh_devices_def f keyed_store_def split: option.splits)
  qed
  have live: "dict_get (snd res) k = dict_get online k" if "k \<in> L" for k
    using that on(1) [of k] on(2) [OF that] by (auto simp: res)
  have dead: "\<not> di_online d" if "k \<notin> L" "dict_get (snd res) k = Some d" for k d
    using that by (auto simp: res split: option.splits if_splits)
  have iff: "dict_get (snd res) k = Some d \<and> di_online d \<longleftrightarrow> dict_get online k = Some d" for k d
    using live [of k] dead [of k d] on(1) [of k] on(4) [of k d] by (cases "k \<in> L") auto
  have off: "d\<lparr>di_online := False\<rparr> = d" if "\<not> di_online d" for d :: device_info using that by (cases d) simp
  have "dict_get (snd res) k = Some (d\<lparr>di_online := False\<rparr>)" if "dict_get store k = Some d" "k \<notin> L" for k d
    using that on(3) [OF that(2)] off [of d] by (auto simp: res)
  moreover have "set (fst res) = {d. \<exists>k. dict_get online k = Some d}"
    using on(5) by (force simp: res_def refresh_devices_def f keyed_store_def dest: map_of_SomeD)
  moreover have "(\<exists>d. dict_get online k = Some d) \<longleftrightarrow> k \<in> L" for k using on(1) [of k] by auto
  ultimately show ?thesis unfolding iff L_def [symmetric] by blast
qed

definition ex_live :: "string \<Rightarrow> int \<Rightarrow> live_session" where
  "ex_live ip h = \<lparr>ls_ip = Some ip, ls_stable_id = None, ls_meta_ip = None, ls_platform = None, ls_app_version = None,
     ls_now = \<lparr>dt_year = 2025, dt_month = 1, dt_day = 1, dt_hour = h, dt_minute = 0, dt_second = 0, dt_us = 0, dt_utcoff = Some 0\<rparr>\<rparr>"

lemma refresh_online_iff_live_example:
  "\<exists>d. dict_get (snd (refresh_devices id [((''wg'', ''a''), (7, [ex_live ''10.0.0.2'' 1]))] [])) ''ip:7:10.0.0.2'' = Some d \<and> di_online d"
proof -
  have t: "int_to_str 7 = ''7''" by code_simp
  have "keyed_store []" by (simp add: keyed_store_def)
  moreover have "''ip:7:10.0.0.2'' \<in> live_ids id [((''wg'', ''a''), (7, [ex_live ''10.0.0.2'' 1]))]"
    by (simp add: live_ids_def device_identity_def identity_text_def session_ip_def or_str_def truthy_str_def ex_live_def t)
  ultimately show ?thesis
    using refresh_online_iff_live [of "[]" id "[((''wg'', ''a''), (7, [ex_live ''10.0.0.2'' 1]))]"] by blast
qed

text \<open>
  Device identity by stable id leaves the user out: when two users report the same stable id the
  device changes hands, and the first user's device no longer counts against that user's limit.
\<close>

lemma shared_stable_id_changes_owner:
  assumes "truthy_str sid"
  shows "device_identity digest u sid ip = device_identity digest u' sid ip'"
  using assms by (simp add: device_identity_def identity_text_def)

end
