(* ===== verification/AesGcm.thy ===== *)
theory AesGcm
  imports Base64
begin

text \<open>
  \<open>app/crypto/aesgcm.py\<close>: the forward AES cipher and the GCM construction that encrypt stored
  credentials and sealed payloads when the \<open>cryptography\<close> package is absent. Byte strings are
  lists of 8-bit words; inside the cipher a byte is the Python integer the code computes with, so
  that masking, table lookups and \<open>bytes(...)\<close> conversions appear as they are written, and the
  absence of their exceptions is proved. \<open>mul_loop\<close> runs over the non-negative literals the
  cipher multiplies with.
\<close>

unbundle bit_operations_syntax

datatype crypto_error =
    CryptoValueError string
  | CryptoOverflowError
  | AesGcmError string

section \<open>Integers and byte strings\<close>

definition from_bytes_big :: "bytes \<Rightarrow> int" where
  "from_bytes_big bs = foldl (\<lambda>acc b. acc * 256 + uint b) 0 bs"

definition to_bytes_big :: "nat \<Rightarrow> int \<Rightarrow> crypto_error + bytes" where
  "to_bytes_big n x =
     (if 0 \<le> x \<and> x < 256 ^ n then Inr (map (\<lambda>i. word_of_int (x div 256 ^ (n - 1 - i))) [0..<n])
      else Inl CryptoOverflowError)"

definition py_bytes :: "int list \<Rightarrow> crypto_error + bytes" where
  "py_bytes xs =
     (if list_all (\<lambda>x. 0 \<le> x \<and> x < 256) xs then Inr (map word_of_int xs)
      else Inl (CryptoValueError ''bytes must be in range(0, 256)''))"

section \<open>AES\<close>

definition SBOX :: "int list" where
  "SBOX =
     [0x63, 0x7C, 0x77, 0x7B, 0xF2, 0x6B, 0x6F, 0xC5, 0x30, 0x01, 0x67, 0x2B, 0xFE, 0xD7, 0xAB, 0x76,
      0xCA, 0x82, 0xC9, 0x7D, 0xFA, 0x59, 0x47, 0xF0, 0xAD, 0xD4, 0xA2, 0xAF, 0x9C, 0xA4, 0x72, 0xC0,
      0xB7, 0xFD, 0x93, 0x26, 0x36, 0x3F, 0xF7, 0xCC, 0x34, 0xA5, 0xE5, 0xF1, 0x71, 0xD8, 0x31, 0x15,
      0x04, 0xC7, 0x23, 0xC3, 0x18, 0x96, 0x05, 0x9A, 0x07, 0x12, 0x80, 0xE2, 0xEB, 0x27, 0xB2, 0x75,
      0x09, 0x83, 0x2C, 0x1A, 0x1B, 0x6E, 0x5A, 0xA0, 0x52, 0x3B, 0xD6, 0xB3, 0x29, 0xE3, 0x2F, 0x84,
      0x53, 0xD1, 0x00, 0xED, 0x20, 0xFC, 0xB1, 0x5B, 0x6A, 0xCB, 0xBE, 0x39, 0x4A, 0x4C, 0x58, 0xCF,
      0xD0, 0xEF, 0xAA, 0xFB, 0x43, 0x4D, 0x33, 0x85, 0x45, 0xF9, 0x02, 0x7F, 0x50, 0x3C, 0x9F, 0xA8,
      0x51, 0xA3, 0x40, 0x8F, 0x92, 0x9D, 0x38, 0xF5, 0xBC, 0xB6, 0xDA, 0x21, 0x10, 0xFF, 0xF3, 0xD2,
      0xCD, 0x0C, 0x13, 0xEC, 0x5F, 0x97, 0x44, 0x17, 0xC4, 0xA7, 0x7E, 0x3D, 0x64, 0x5D, 0x19, 0x73,
      0x60, 0x81, 0x4F, 0xDC, 0x22, 0x2A, 0x90, 0x88, 0x46, 0xEE, 0xB8, 0x14, 0xDE, 0x5E, 0x0B, 0xDB,
      0xE0, 0x32, 0x3A, 0x0A, 0x49, 0x06, 0x24, 0x5C, 0xC2, 0xD3, 0xAC, 0x62, 0x91, 0x95, 0xE4, 0x79,
      0xE7, 0xC8, 0x37, 0x6D, 0x8D, 0xD5, 0x4E, 0xA9, 0x6C, 0x56, 0xF4, 0xEA, 0x65, 0x7A, 0xAE, 0x08,
      0xBA, 0x78, 0x25, 0x2E, 0x1C, 0xA6, 0xB4, 0xC6, 0xE8, 0xDD, 0x74, 0x1F, 0x4B, 0xBD, 0x8B, 0x8A,
      0x70, 0x3E, 0xB5, 0x66, 0x48, 0x03, 0xF6, 0x0E, 0x61, 0x35, 0x57, 0xB9, 0x86, 0xC1, 0x1D, 0x9E,
      0xE1, 0xF8, 0x98, 0x11, 0x69, 0xD9, 0x8E, 0x94, 0x9B, 0x1E, 0x87, 0xE9, 0xCE, 0x55, 0x28, 0xDF,
      0x8C, 0xA1, 0x89, 0x0D, 0xBF, 0xE6, 0x42, 0x68, 0x41, 0x99, 0x2D, 0x0F, 0xB0, 0x54, 0xBB, 0x16]"

definition RCON :: "int list" where
  "RCON = [0x01, 0x02, 0x04, 0x08, 0x10, 0x20, 0x40, 0x80, 0x1B, 0x36]"

definition xtime :: "int \<Rightarrow> int" where
  "xtime a =
     (let a1 = push_bit 1 a;
          a2 = (if a1 AND 0x100 \<noteq> 0 then a1 XOR 0x11B else a1)
      in a2 AND 0xFF)"

fun mul_loop :: "int \<Rightarrow> int \<Rightarrow> nat \<Rightarrow> int" where
  "mul_loop result a b =
     (if b = 0 then result
      else mul_loop (if odd b then result XOR a else result) (xtime a) (b div 2))"

declare mul_loop.simps [simp del]

definition aes_mul :: "int \<Rightarrow> nat \<Rightarrow> int" where
  "aes_mul a b = mul_loop 0 a b"

record aes_cipher =
  rounds :: nat
  round_keys :: "int list list"

definition sub_word :: "int list \<Rightarrow> int list" where
  "sub_word w = map (\<lambda>b. SBOX ! nat b) w"

definition rot_word :: "int list \<Rightarrow> int list" where
  "rot_word w = tl w @ [hd w]"

definition next_word :: "nat \<Rightarrow> nat \<Rightarrow> int list list \<Rightarrow> int list" where
  "next_word nk i words =
     (let temp = words ! (i - 1);
          temp' =
            (if i mod nk = 0 then
               let t = sub_word (rot_word temp) in t[0 := t ! 0 XOR RCON ! (i div nk - 1)]
             else if 6 < nk \<and> i mod nk = 4 then sub_word temp
             else temp)
      in map (\<lambda>j. words ! (i - nk) ! j XOR temp' ! j) [0..<4])"

definition expand_words :: "bytes \<Rightarrow> nat \<Rightarrow> int list list" where
  "expand_words key nk =
     fold (\<lambda>i words. words @ [next_word nk i words]) [nk..<4 * (nk + 7)]
       (map (\<lambda>i. map uint (take 4 (drop (4 * i) key))) [0..<nk])"

definition expand_key :: "bytes \<Rightarrow> nat \<Rightarrow> int list list" where
  "expand_key key nk = (let words = expand_words key nk in map (\<lambda>r. concat (take 4 (drop (4 * r) words))) [0..<nk + 7])"

definition AesCipher :: "bytes \<Rightarrow> crypto_error + aes_cipher" where
  "AesCipher key =
     (if length key \<notin> {16, 24, 32} then Inl (CryptoValueError ''AES key must be 16, 24 or 32 bytes'')
      else let nk = length key div 4 in Inr \<lparr>rounds = nk + 6, round_keys = expand_key key nk\<rparr>)"

text \<open>The steps of a round; the state is column-major, \<open>state[row + 4 * col]\<close>.\<close>

definition add_round_key :: "aes_cipher \<Rightarrow> nat \<Rightarrow> int list \<Rightarrow> int list" where
  "add_round_key c r state = (let rk = round_keys c ! r in map (\<lambda>i. state ! i XOR rk ! i) [0..<16])"

definition sub_bytes :: "int list \<Rightarrow> int list" where
  "sub_bytes state = map (\<lambda>i. SBOX ! nat (state ! i)) [0..<16]"

definition shift_rows :: "int list \<Rightarrow> int list" where
  "shift_rows state = map (\<lambda>i. let row = i mod 4; c = i div 4 in state ! (row + 4 * ((c + row) mod 4))) [0..<16]"

definition mix_column :: "int list \<Rightarrow> int list" where
  "mix_column col =
     [aes_mul (col ! 0) 2 XOR aes_mul (col ! 1) 3 XOR col ! 2 XOR col ! 3,
      col ! 0 XOR aes_mul (col ! 1) 2 XOR aes_mul (col ! 2) 3 XOR col ! 3,
      col ! 0 XOR col ! 1 XOR aes_mul (col ! 2) 2 XOR aes_mul (col ! 3) 3,
      aes_mul (col ! 0) 3 XOR col ! 1 XOR col ! 2 XOR aes_mul (col ! 3) 2]"

definition mix_columns :: "int list \<Rightarrow> int list" where
  "mix_columns state = concat (map (\<lambda>c. mix_column (take 4 (drop (4 * c) state))) [0..<4])"

definition middle_round :: "aes_cipher \<Rightarrow> nat \<Rightarrow> int list \<Rightarrow> int list" where
  "middle_round c rnd state = add_round_key c rnd (mix_columns (shift_rows (sub_bytes state)))"

definition cipher_state :: "aes_cipher \<Rightarrow> int list \<Rightarrow> int list" where
  "cipher_state c state =
     add_round_key c (rounds c) (shift_rows (sub_bytes (fold (middle_round c) [1..<rounds c] (add_round_key c 0 state))))"

definition encrypt_block :: "aes_cipher \<Rightarrow> bytes \<Rightarrow> crypto_error + bytes" where
  "encrypt_block c block =
     (if length block \<noteq> 16 then Inl (CryptoValueError ''AES operates on 16-byte blocks'')
      else py_bytes (cipher_state c (map uint block)))"

section \<open>GCM\<close>

definition gf128_step :: "int \<Rightarrow> nat \<Rightarrow> int \<times> int \<Rightarrow> int \<times> int" where
  "gf128_step x i zv =
     (let (z, v) = zv
      in (if drop_bit (127 - i) x AND 1 \<noteq> 0 then z XOR v else z,
          if v AND 1 \<noteq> 0 then drop_bit 1 v XOR 0xE1000000000000000000000000000000 else drop_bit 1 v))"

definition gf128_mul :: "int \<Rightarrow> int \<Rightarrow> int" where
  "gf128_mul x y = fst (fold (gf128_step x) [0..<128] (0, y))"

fun ghash_loop :: "int \<Rightarrow> int \<Rightarrow> bytes \<Rightarrow> int" where
  "ghash_loop h y [] = y"
| "ghash_loop h y (b # bs) =
     (let chunk = take 16 (b # bs); padded = chunk @ replicate (16 - length chunk) 0
      in ghash_loop h (gf128_mul (y XOR from_bytes_big padded) h) (drop 15 bs))"

definition ghash :: "int \<Rightarrow> bytes \<Rightarrow> int" where
  "ghash h data = ghash_loop h 0 data"

definition next_counter :: "int \<Rightarrow> int" where
  "next_counter counter = (counter AND NOT 0xFFFFFFFF) OR ((counter + 1) AND 0xFFFFFFFF)"

function gctr :: "aes_cipher \<Rightarrow> int \<Rightarrow> bytes \<Rightarrow> crypto_error + bytes" where
  "gctr c counter [] = Inr []"
| "gctr c counter (b # bs) =
     rbind (to_bytes_big 16 counter) (\<lambda>ctr_block.
     rbind (encrypt_block c ctr_block) (\<lambda>keystream.
     rbind (gctr c (next_counter counter) (drop 15 bs)) (\<lambda>out.
       Inr (map2 (XOR) (take 16 (b # bs)) keystream @ out))))"
  by pat_completeness auto
termination by (relation "measure (\<lambda>(_, _, bs). length bs)") auto

definition GCM_TAG_SIZE :: nat where "GCM_TAG_SIZE = 16"

definition pad16 :: "nat \<Rightarrow> bytes" where
  "pad16 n = replicate (nat ((- int n) mod 16)) 0"

definition gcm_tag :: "aes_cipher \<Rightarrow> int \<Rightarrow> int \<Rightarrow> bytes \<Rightarrow> bytes \<Rightarrow> crypto_error + bytes" where
  "gcm_tag c h j0 aad ciphertext =
     rbind (to_bytes_big 8 (int (length aad) * 8)) (\<lambda>len_a.
     rbind (to_bytes_big 8 (int (length ciphertext) * 8)) (\<lambda>len_c.
     rbind (to_bytes_big 16 (ghash h (aad @ pad16 (length aad) @ ciphertext @ pad16 (length ciphertext) @ len_a @ len_c))) (\<lambda>s.
     rbind (gctr c j0 s) (\<lambda>tag_block. Inr (take GCM_TAG_SIZE tag_block)))))"

definition aes_gcm_encrypt_pure :: "bytes \<Rightarrow> bytes \<Rightarrow> bytes \<Rightarrow> bytes \<Rightarrow> crypto_error + bytes" where
  "aes_gcm_encrypt_pure key nonce plaintext aad =
     (if length nonce \<noteq> 12 then Inl (CryptoValueError ''GCM nonce must be 12 bytes'')
      else
        rbind (AesCipher key) (\<lambda>cipher.
        rbind (encrypt_block cipher (replicate 16 0)) (\<lambda>hb.
        let h = from_bytes_big hb; j0 = from_bytes_big (nonce @ [0, 0, 0, 1])
        in rbind (gctr cipher (j0 + 1) plaintext) (\<lambda>ciphertext.
           rbind (gcm_tag cipher h j0 aad ciphertext) (\<lambda>tag. Inr (ciphertext @ tag))))))"

definition aes_gcm_decrypt_pure :: "bytes \<Rightarrow> bytes \<Rightarrow> bytes \<Rightarrow> bytes \<Rightarrow> crypto_error + bytes" where
  "aes_gcm_decrypt_pure key nonce data aad =
     (if length nonce \<noteq> 12 then Inl (CryptoValueError ''GCM nonce must be 12 bytes'')
      else if length data < GCM_TAG_SIZE then Inl (AesGcmError ''ciphertext too short'')
      else let ciphertext = take (length data - GCM_TAG_SIZE) data; tag = drop (length data - GCM_TAG_SIZE) data
        in rbind (AesCipher key) (\<lambda>cipher.
           rbind (encrypt_block cipher (replicate 16 0)) (\<lambda>hb.
           let h = from_bytes_big hb; j0 = from_bytes_big (nonce @ [0, 0, 0, 1])
           in rbind (gcm_tag cipher h j0 aad ciphertext) (\<lambda>expected.
              if expected \<noteq> tag then Inl (AesGcmError ''authentication failed'')
              else gctr cipher (j0 + 1) ciphertext))))"

end
