(* ===== verification/AesGcmProps.thy ===== *)
theory AesGcmProps
  imports AesGcm
begin

text \<open>
  What \<open>app/crypto/aesgcm.py\<close> guarantees: the block cipher is a permutation of the 16-byte
  blocks under every key, the S-box is the one of FIPS-197, no conversion inside the cipher or the
  mode can raise, decryption inverts encryption, and every change of the tag is refused.
\<close>

unbundle bit_operations_syntax

section \<open>Bytes and the field multiplication\<close>

definition is_byte :: "int \<Rightarrow> bool" where
  "is_byte x \<longleftrightarrow> 0 \<le> x \<and> x < 256"

definition byte_list :: "nat \<Rightarrow> int list \<Rightarrow> bool" where
  "byte_list n xs \<longleftrightarrow> length xs = n \<and> list_all is_byte xs"

lemma is_byte_xor: "is_byte x \<Longrightarrow> is_byte y \<Longrightarrow> is_byte (x XOR y)"
  using XOR_upper [of x 8 y] by (simp add: is_byte_def)

lemma is_byte_and: "is_byte (x AND 255)"
  using AND_upper2' [of 255 255 x] by (simp add: is_byte_def)

lemma is_byte_uint [simp]: "is_byte (uint (w :: 8 word))"
  using uint_lt2p [of w] by (simp add: is_byte_def)

lemma byte_list_nth: "byte_list n xs \<Longrightarrow> i < n \<Longrightarrow> is_byte (xs ! i)"
  by (simp add: byte_list_def list_all_length)

lemma is_byte_xtime: "is_byte (xtime a)"
  by (simp add: xtime_def Let_def is_byte_and)

lemma xtime_linear: "xtime (a XOR b) = xtime a XOR xtime b"
proof -
  have t: "(push_bit 1 x AND 256 \<noteq> 0) = bit x 7" for x :: int
    using bit_iff_and_push_bit_not_eq_0 [of "push_bit 1 x" 8] bit_push_bit_iff [of 1 x 8] by simp
  have e: "xtime x = (if bit x 7 then (push_bit 1 x XOR 283) AND 255 else push_bit 1 x AND 255)" for x
    unfolding xtime_def Let_def t by simp
  show ?thesis
    unfolding e by (simp add: bit_xor_iff push_bit_xor) (auto intro!: bit_eqI simp: bit_simps)
qed

lemma aes_mul_2_3:
  "aes_mul a 2 = xtime a" "aes_mul a 3 = a XOR xtime a"
  by (simp_all add: aes_mul_def mul_loop.simps)

lemma SBOX_length: "length SBOX = 256"
  by (simp add: SBOX_def)

lemma SBOX_bytes: "list_all is_byte SBOX"
  by (simp add: SBOX_def is_byte_def)

lemma SBOX_distinct: "distinct SBOX"
  by code_simp

lemma SBOX_byte: "is_byte b \<Longrightarrow> is_byte (SBOX ! nat b)"
  using SBOX_bytes SBOX_length by (auto simp: list_all_length is_byte_def nat_less_iff)

lemma SBOX_inj: "is_byte a \<Longrightarrow> is_byte b \<Longrightarrow> SBOX ! nat a = SBOX ! nat b \<Longrightarrow> a = b"
  using nth_eq_iff_index_eq [OF SBOX_distinct, of "nat a" "nat b"] by (auto simp: is_byte_def SBOX_length nat_less_iff)

section \<open>Every step is a permutation of the byte states\<close>

lemma sub_bytes_ok: "byte_list 16 s \<Longrightarrow> byte_list 16 (sub_bytes s)"
  by (auto simp: sub_bytes_def byte_list_def list_all_length SBOX_byte)

lemma shift_rows_ok: "byte_list 16 s \<Longrightarrow> byte_list 16 (shift_rows s)"
  by (auto simp: shift_rows_def byte_list_def list_all_length Let_def)

lemma add_round_key_ok:
  "byte_list 16 s \<Longrightarrow> byte_list 16 (round_keys c ! r) \<Longrightarrow> byte_list 16 (add_round_key c r s)"
  by (auto simp: add_round_key_def byte_list_def list_all_length Let_def is_byte_xor)

lemma length_mix_column [simp]: "length (mix_column col) = 4"
  by (simp add: mix_column_def)

lemma mix_column_bytes: "byte_list 4 col \<Longrightarrow> list_all is_byte (mix_column col)"
  by (simp add: mix_column_def aes_mul_2_3 is_byte_xor is_byte_xtime byte_list_nth)

lemma column_ok: "byte_list 16 s \<Longrightarrow> c < 4 \<Longrightarrow> byte_list 4 (take 4 (drop (4 * c) s))"
  by (auto simp: byte_list_def list_all_length)

lemma mix_columns_4:
  "mix_columns s = mix_column (take 4 (drop (4 * 0) s)) @ mix_column (take 4 (drop (4 * 1) s))
     @ mix_column (take 4 (drop (4 * 2) s)) @ mix_column (take 4 (drop (4 * 3) s))"
  by (simp add: mix_columns_def upt_rec)

lemma mix_columns_ok:
  assumes "byte_list 16 s"
  shows "byte_list 16 (mix_columns s)"
proof -
  have "list_all is_byte (mix_column (take 4 (drop (4 * c) s)))" if "c < 4" for c
    using mix_column_bytes column_ok assms that by blast
  from this [of 0] this [of 1] this [of 2] this [of 3] show ?thesis
    by (simp only: mix_columns_4) (simp add: byte_list_def)
qed

text \<open>\<open>MixColumns\<close> applied four times is the identity: its matrix has order four.\<close>

lemma xor_int_cancel [simp]: "x XOR (x XOR y) = (y :: int)"
  by (simp flip: xor.assoc)

lemmas xor_int_norm = xor.assoc xor.commute xor.left_commute

lemma mix_column_twice:
  "mix_column (mix_column [a, b, c, d]) =
     [xtime (xtime a) XOR a XOR xtime (xtime c), xtime (xtime b) XOR b XOR xtime (xtime d),
      xtime (xtime c) XOR c XOR xtime (xtime a), xtime (xtime d) XOR d XOR xtime (xtime b)]"
  by (simp add: mix_column_def aes_mul_2_3 xtime_linear xor_int_norm)

lemma length_4_cases:
  assumes "length xs = 4"
  obtains a b c d where "xs = [a, b, c, d]"
proof -
  obtain a ys where 1: "xs = a # ys" "length ys = 3" using assms by (cases xs) auto
  obtain b zs where 2: "ys = b # zs" "length zs = 2" using 1(2) by (cases ys) auto
  obtain c us where 3: "zs = c # us" "length us = 1" using 2(2) by (cases zs) auto
  obtain d where 4: "us = [d]" using 3(2) by (cases us) auto
  show ?thesis using that 1(1) 2(1) 3(1) 4 by simp
qed

lemma mix_column_order_4: "length col = 4 \<Longrightarrow> mix_column (mix_column (mix_column (mix_column col))) = col"
proof -
  assume "length col = 4"
  then obtain a b c d where "col = [a, b, c, d]"
    by (rule length_4_cases)
  then show ?thesis by (simp add: mix_column_twice xtime_linear xor_int_norm)
qed

lemma mix_column_inj: "length x = 4 \<Longrightarrow> length y = 4 \<Longrightarrow> mix_column x = mix_column y \<Longrightarrow> x = y"
  by (metis mix_column_order_4)

lemma nth_column: "i < 16 \<Longrightarrow> length s = 16 \<Longrightarrow> s ! i = take 4 (drop (4 * (i div 4)) s) ! (i mod 4)"
  by (subst nth_take, simp, subst nth_drop) auto

lemma columns_eqI:
  assumes "length s = 16" "length t = 16"
    and "\<And>c. c < 4 \<Longrightarrow> take 4 (drop (4 * c) s) = take 4 (drop (4 * c) t)"
  shows "s = t"
proof (rule nth_equalityI)
  show "length s = length t" using assms by simp
  fix i assume "i < length s"
  then have "i < 16" "i div 4 < 4" using assms by auto
  then show "s ! i = t ! i" using nth_column [of i s] nth_column [of i t] assms(1,2) assms(3) [of "i div 4"] by presburger
qed

lemma mix_columns_column:
  assumes "c < 4"
  shows "take 4 (drop (4 * c) (mix_columns s)) = mix_column (take 4 (drop (4 * c) s))"
proof -
  have "c = 0 \<or> c = 1 \<or> c = 2 \<or> c = 3" using assms by linarith
  then show ?thesis
    unfolding mix_columns_4 by (elim disjE) (simp_all del: take_drop add: drop_append)
qed

lemma mix_columns_inj:
  assumes "length s = 16" "length t = 16" "mix_columns s = mix_columns t"
  shows "s = t"
proof (rule columns_eqI [OF assms(1,2)])
  fix c :: nat assume c: "c < 4"
  have "mix_column (take 4 (drop (4 * c) s)) = mix_column (take 4 (drop (4 * c) t))"
    using mix_columns_column [OF c, of s] mix_columns_column [OF c, of t] assms(3) by metis
  moreover have "length (take 4 (drop (4 * c) s)) = 4" "length (take 4 (drop (4 * c) t)) = 4" using c assms by simp_all
  ultimately show "take 4 (drop (4 * c) s) = take 4 (drop (4 * c) t)" using mix_column_inj by blast
qed

lemma sub_bytes_inj:
  assumes "byte_list 16 s" "byte_list 16 t" "sub_bytes s = sub_bytes t"
  shows "s = t"
proof (rule nth_equalityI)
  show "length s = length t" using assms by (simp add: byte_list_def)
  fix i assume "i < length s"
  then have i: "i < 16" using assms by (simp add: byte_list_def)
  have "sub_bytes s ! i = sub_bytes t ! i" using assms(3) by simp
  then have "SBOX ! nat (s ! i) = SBOX ! nat (t ! i)" using i by (simp add: sub_bytes_def)
  then show "s ! i = t ! i" using SBOX_inj byte_list_nth assms(1,2) i by blast
qed

lemma shift_index:
  "list_all (\<lambda>i. list_ex (\<lambda>j. j mod 4 + 4 * ((j div 4 + j mod 4) mod 4) = i) [0..<16]) [0..<16::nat]"
  by code_simp

lemma shift_rows_inj:
  assumes "length s = 16" "length t = 16" "shift_rows s = shift_rows t"
  shows "s = t"
proof (rule nth_equalityI)
  show "length s = length t" using assms by simp
  fix i assume "i < length s"
  then have i: "i < 16" using assms by simp
  obtain j where j: "j < 16" "j mod 4 + 4 * ((j div 4 + j mod 4) mod 4) = i"
    using shift_index i unfolding list_all_iff list_ex_iff set_upt by (meson atLeastLessThan_iff le0)
  have "shift_rows s ! j = shift_rows t ! j" using assms(3) by simp
  then show "s ! i = t ! i" using j by (simp add: shift_rows_def Let_def)
qed

lemma add_round_key_inj:
  assumes "length s = 16" "length t = 16" "add_round_key c r s = add_round_key c r t"
  shows "s = t"
proof (rule nth_equalityI)
  show "length s = length t" using assms by simp
  fix i assume "i < length s"
  then have i: "i < 16" using assms by simp
  have "add_round_key c r s ! i = add_round_key c r t ! i" using assms(3) by simp
  then have "s ! i XOR round_keys c ! r ! i = t ! i XOR round_keys c ! r ! i" using i by (simp add: add_round_key_def Let_def)
  then have "(s ! i XOR round_keys c ! r ! i) XOR round_keys c ! r ! i = (t ! i XOR round_keys c ! r ! i) XOR round_keys c ! r ! i" by simp
  then show "s ! i = t ! i" unfolding xor.assoc by simp
qed

section \<open>The key schedule\<close>

definition good_cipher :: "aes_cipher \<Rightarrow> bool" where
  "good_cipher c \<longleftrightarrow> length (round_keys c) = rounds c + 1 \<and> list_all (byte_list 16) (round_keys c)"

lemma sub_word_ok: "byte_list 4 w \<Longrightarrow> byte_list 4 (sub_word w)"
  by (auto simp: sub_word_def byte_list_def list_all_length SBOX_byte)

lemma rot_word_ok: "byte_list 4 w \<Longrightarrow> byte_list 4 (rot_word w)"
  by (cases w) (auto simp: rot_word_def byte_list_def)

lemma RCON_ok: "list_all is_byte RCON" "length RCON = 10"
  by (simp_all add: RCON_def is_byte_def)

lemma byte_list_update: "byte_list n w \<Longrightarrow> is_byte b \<Longrightarrow> byte_list n (w[i := b])"
  unfolding byte_list_def list_all_iff using set_update_subset_insert [of w i b] by auto

lemma next_word_ok:
  assumes "list_all (byte_list 4) ws" "i = length ws" "0 < nk" "nk \<le> i" "i div nk \<le> 10"
  shows "byte_list 4 (next_word nk i ws)"
proof -
  have prev: "byte_list 4 (ws ! (i - 1))" "byte_list 4 (ws ! (i - nk))"
    using assms by (auto simp: list_all_length)
  have rc: "is_byte (RCON ! (i div nk - 1))"
    using RCON_ok assms(5) by (auto simp: list_all_length)
  define t where "t = (if i mod nk = 0 then let t = sub_word (rot_word (ws ! (i - 1))) in t[0 := t ! 0 XOR RCON ! (i div nk - 1)]
     else if 6 < nk \<and> i mod nk = 4 then sub_word (ws ! (i - 1)) else ws ! (i - 1))"
  have "byte_list 4 t"
    unfolding t_def Let_def
    using prev(1) rc by (auto intro!: byte_list_update is_byte_xor sub_word_ok rot_word_ok byte_list_nth [of 4])
  then have "is_byte (ws ! (i - nk) ! j XOR t ! j)" if "j < 4" for j
    using prev(2) that by (auto intro: is_byte_xor byte_list_nth)
  then show ?thesis
    unfolding next_word_def Let_def t_def [unfolded Let_def, symmetric] by (simp add: byte_list_def list_all_length)
qed

lemma expand_fold_ok:
  assumes "list_all (byte_list 4) ws" "length ws = a" "0 < nk" "nk \<le> a" "a \<le> b" "\<And>i. i < b \<Longrightarrow> i div nk \<le> 10"
  shows "list_all (byte_list 4) (fold (\<lambda>i words. words @ [next_word nk i words]) [a..<b] ws) \<and>
    length (fold (\<lambda>i words. words @ [next_word nk i words]) [a..<b] ws) = b"
  using assms(5,6)
proof (induction b rule: dec_induct)
  case base
  then show ?case using assms by simp
next
  case (step b)
  let ?ws = "fold (\<lambda>i words. words @ [next_word nk i words]) [a..<b] ws"
  have ih: "list_all (byte_list 4) ?ws \<and> length ?ws = b" using step by simp
  then have "byte_list 4 (next_word nk b ?ws)"
    using next_word_ok [of ?ws b nk] assms step by simp
  then show ?case using ih step by simp
qed

lemma expand_words_ok:
  assumes "length key = 4 * nk" "nk \<in> {4, 6, 8}"
  shows "list_all (byte_list 4) (expand_words key nk)" "length (expand_words key nk) = 4 * (nk + 7)"
proof -
  let ?init = "map (\<lambda>i. map uint (take 4 (drop (4 * i) key))) [0..<nk]"
  have "list_all (byte_list 4) ?init" using assms(1) by (auto simp: list_all_iff byte_list_def)
  moreover have "length ?init = nk" "0 < nk" "nk \<le> nk" "nk \<le> 4 * (nk + 7)" using assms(2) by auto
  moreover have dv: "i div nk \<le> 10" if "i < 4 * (nk + 7)" for i
  proof -
    have "i < 11 * nk" using assms(2) that by auto
    then have "i div nk < 11" by (rule less_mult_imp_div_less)
    then show ?thesis by simp
  qed
  ultimately have "list_all (byte_list 4) (expand_words key nk) \<and> length (expand_words key nk) = 4 * (nk + 7)"
    unfolding expand_words_def by (rule expand_fold_ok)
  then show "list_all (byte_list 4) (expand_words key nk)" "length (expand_words key nk) = 4 * (nk + 7)" by blast+
qed

lemma byte_list_concat: "list_all (byte_list 4) ws \<Longrightarrow> byte_list (4 * length ws) (concat ws)"
  by (induction ws) (auto simp: byte_list_def)

lemma AesCipher_good: "AesCipher key = Inr c \<Longrightarrow> good_cipher c"
proof -
  assume c: "AesCipher key = Inr c"
  define nk where "nk = length key div 4"
  have nk: "length key = 4 * nk" "nk \<in> {4, 6, 8}" using c by (auto simp: AesCipher_def nk_def split: if_splits)
  have "byte_list 16 (concat (take 4 (drop (4 * r) (expand_words key nk))))" if "r < nk + 7" for r
  proof -
    have "list_all (byte_list 4) (take 4 (drop (4 * r) (expand_words key nk)))"
      using expand_words_ok(1) [OF nk] by (auto simp: list_all_iff dest!: in_set_takeD in_set_dropD)
    moreover have "length (take 4 (drop (4 * r) (expand_words key nk))) = 4"
      using expand_words_ok(2) [OF nk] that by simp
    ultimately show ?thesis using byte_list_concat by fastforce
  qed
  then have "list_all (byte_list 16) (expand_key key nk)" by (simp add: expand_key_def Let_def list_all_iff)
  moreover have "c = \<lparr>rounds = nk + 6, round_keys = expand_key key nk\<rparr>"
    using c by (auto simp: AesCipher_def nk_def Let_def split: if_splits)
  ultimately show ?thesis by (simp add: good_cipher_def expand_key_def Let_def)
qed

section \<open>The cipher\<close>

lemma middle_round_ok:
  "good_cipher c \<Longrightarrow> r \<le> rounds c \<Longrightarrow> byte_list 16 s \<Longrightarrow> byte_list 16 (middle_round c r s)"
  unfolding middle_round_def good_cipher_def
  by (intro add_round_key_ok mix_columns_ok shift_rows_ok sub_bytes_ok) (auto simp: list_all_length)

lemma middle_round_inj:
  assumes "byte_list 16 s" "byte_list 16 t" "middle_round c r s = middle_round c r t"
  shows "s = t"
proof -
  note ok = mix_columns_ok shift_rows_ok sub_bytes_ok
  have l: "length s = 16" if "byte_list 16 s" for s using that by (simp add: byte_list_def)
  have "mix_columns (shift_rows (sub_bytes s)) = mix_columns (shift_rows (sub_bytes t))"
    using assms(3) unfolding middle_round_def by (rule add_round_key_inj [rotated 2]) (intro l ok assms)+
  then have "shift_rows (sub_bytes s) = shift_rows (sub_bytes t)"
    by (rule mix_columns_inj [rotated 2]) (intro l ok assms)+
  then have "sub_bytes s = sub_bytes t"
    by (rule shift_rows_inj [rotated 2]) (intro l ok assms)+
  then show ?thesis using sub_bytes_inj assms by blast
qed

lemma rounds_fold_ok:
  "good_cipher c \<Longrightarrow> \<forall>r \<in> set rs. r \<le> rounds c \<Longrightarrow> byte_list 16 s \<Longrightarrow> byte_list 16 (fold (middle_round c) rs s)"
  by (induction rs arbitrary: s) (simp_all add: middle_round_ok)

lemma rounds_fold_inj:
  "good_cipher c \<Longrightarrow> \<forall>r \<in> set rs. r \<le> rounds c \<Longrightarrow> byte_list 16 s \<Longrightarrow> byte_list 16 t
    \<Longrightarrow> fold (middle_round c) rs s = fold (middle_round c) rs t \<Longrightarrow> s = t"
proof (induction rs arbitrary: s t)
  case Nil
  then show ?case by simp
next
  case (Cons r rs)
  have "middle_round c r s = middle_round c r t"
    by (rule Cons.IH) (use Cons.prems in \<open>auto intro: middle_round_ok\<close>)
  then show ?case using middle_round_inj Cons.prems by blast
qed

lemma round_key_ok: "good_cipher c \<Longrightarrow> r \<le> rounds c \<Longrightarrow> byte_list 16 (round_keys c ! r)"
  by (auto simp: good_cipher_def list_all_length)

lemma cipher_state_ok:
  assumes "good_cipher c" "byte_list 16 s"
  shows "byte_list 16 (cipher_state c s)"
  unfolding cipher_state_def
  by (intro add_round_key_ok shift_rows_ok sub_bytes_ok rounds_fold_ok assms round_key_ok) (use assms in auto)

lemma cipher_state_inj:
  assumes c: "good_cipher c" and s: "byte_list 16 s" and t: "byte_list 16 t"
    and eq: "cipher_state c s = cipher_state c t"
  shows "s = t"
proof -
  let ?f = "\<lambda>s. fold (middle_round c) [1..<rounds c] (add_round_key c 0 s)"
  have l: "length s = 16" if "byte_list 16 s" for s using that by (simp add: byte_list_def)
  have a: "byte_list 16 (add_round_key c 0 s)" if "byte_list 16 s" for s
    using add_round_key_ok round_key_ok [OF c, of 0] that by simp
  have f: "byte_list 16 (?f s)" if "byte_list 16 s" for s
    by (rule rounds_fold_ok [OF c _ a [OF that]]) simp
  have "shift_rows (sub_bytes (?f s)) = shift_rows (sub_bytes (?f t))"
    using eq unfolding cipher_state_def by (rule add_round_key_inj [rotated 2]) (intro l shift_rows_ok sub_bytes_ok f s t)+
  then have "sub_bytes (?f s) = sub_bytes (?f t)"
    by (rule shift_rows_inj [rotated 2]) (intro l sub_bytes_ok f s t)+
  then have "?f s = ?f t" using sub_bytes_inj f s t by blast
  then have "add_round_key c 0 s = add_round_key c 0 t"
    by (rule rounds_fold_inj [OF c _ a [OF s] a [OF t], rotated]) simp
  then show ?thesis by (rule add_round_key_inj [OF l [OF s] l [OF t]])
qed

lemma py_bytes_ok: "byte_list n xs \<Longrightarrow> py_bytes xs = Inr (map word_of_int xs)"
  by (auto simp: py_bytes_def byte_list_def is_byte_def list_all_iff)

lemma uint_of_byte: "is_byte x \<Longrightarrow> uint (word_of_int x :: 8 word) = x"
  by (simp add: is_byte_def uint_word_of_int take_bit_eq_mod)

lemma block_bytes: "length (b :: bytes) = 16 \<Longrightarrow> byte_list 16 (map uint b)"
  by (simp add: byte_list_def list_all_iff)

lemma encrypt_block_total:
  assumes "good_cipher c" "length b = 16"
  obtains out where "encrypt_block c b = Inr out" "length out = 16"
proof -
  have ok: "byte_list 16 (cipher_state c (map uint b))" using cipher_state_ok block_bytes assms by blast
  show ?thesis using that assms(2) py_bytes_ok [OF ok] ok by (auto simp: encrypt_block_def byte_list_def)
qed

lemma encrypt_block_inj:
  assumes c: "good_cipher c" and l: "length b1 = 16" "length b2 = 16"
    and eq: "encrypt_block c b1 = encrypt_block c b2"
  shows "b1 = b2"
proof -
  let ?s = "\<lambda>b :: bytes. cipher_state c (map uint b)"
  have ok: "byte_list 16 (?s b1)" "byte_list 16 (?s b2)" using cipher_state_ok [OF c] block_bytes l by blast+
  have "map word_of_int (?s b1) = (map word_of_int (?s b2) :: bytes)"
    using eq l py_bytes_ok [OF ok(1)] py_bytes_ok [OF ok(2)] by (simp add: encrypt_block_def)
  then have "map uint (map word_of_int (?s b1) :: bytes) = map uint (map word_of_int (?s b2) :: bytes)" by simp
  moreover have "map uint (map word_of_int xs :: bytes) = xs" if "byte_list 16 xs" for xs
    using that by (auto simp: byte_list_def list_all_iff uint_of_byte intro!: map_idI)
  ultimately have "?s b1 = ?s b2" using ok by simp
  then have "map uint b1 = map uint b2" using cipher_state_inj [OF c block_bytes block_bytes] l by blast
  then show ?thesis by (rule injD [OF inj_mapI, rotated]) (auto intro!: injI unsigned_word_eqI)
qed

section \<open>The S-box of FIPS-197\<close>

definition rotl8 :: "nat \<Rightarrow> int \<Rightarrow> int" where
  "rotl8 k x = (push_bit k x OR drop_bit (8 - k) x) AND 0xFF"

definition fips_affine :: "int \<Rightarrow> int" where
  "fips_affine x = x XOR rotl8 1 x XOR rotl8 2 x XOR rotl8 3 x XOR rotl8 4 x XOR 0x63"

definition affine_inverse :: "int \<Rightarrow> int" where
  "affine_inverse s = rotl8 1 s XOR rotl8 3 s XOR rotl8 6 s XOR 0x05"

fun mul_bits :: "int \<Rightarrow> int \<Rightarrow> nat \<Rightarrow> int \<Rightarrow> int" where
  "mul_bits result a 0 b = result"
| "mul_bits result a (Suc n) b =
     mul_bits (if b mod 2 = 1 then result XOR a else result) (xtime a) n (b div 2)"

lemma mul_loop_bits: "0 \<le> b \<Longrightarrow> b < 2 ^ n \<Longrightarrow> mul_loop r a (nat b) = mul_bits r a n b"
proof (induction n arbitrary: r a b)
  case 0
  then show ?case by (simp add: mul_loop.simps)
next
  case (Suc n)
  have b: "nat b div 2 = nat (b div 2)" "odd (nat b) \<longleftrightarrow> b mod 2 = 1" using Suc.prems
    by (simp_all add: nat_div_distrib even_nat_iff) presburger
  have ih: "mul_loop r' a' (nat (b div 2)) = mul_bits r' a' n (b div 2)" for r' a'
    using Suc by simp
  show ?case
  proof (cases "b = 0")
    case True
    then show ?thesis using ih [of r "xtime a"] by (simp add: mul_loop.simps [of r a 0] mul_loop.simps [of r "xtime a" 0])
  next
    case False
    then have "nat b \<noteq> 0" using Suc.prems by simp
    then show ?thesis by (subst mul_loop.simps) (simp add: b ih)
  qed
qed

definition sbox_entry_ok :: "int \<times> int \<Rightarrow> bool" where
  "sbox_entry_ok p = (let y = affine_inverse (snd p) in
     0 \<le> y \<and> y < 256 \<and> (if fst p = 0 then y = 0 else mul_bits 0 (fst p) 8 y = 1) \<and> snd p = fips_affine y)"

lemma SBOX_check: "list_all sbox_entry_ok (zip [0..255] SBOX)"
  by code_simp

lemma SBOX_fips:
  assumes "is_byte b"
  shows "\<exists>y. is_byte y \<and> (if b = 0 then y = 0 else aes_mul b (nat y) = 1) \<and> SBOX ! nat b = fips_affine y"
proof -
  have n: "nat b < 256" using assms by (auto simp: is_byte_def)
  then have "(b, SBOX ! nat b) \<in> set (zip [0..255] SBOX)"
    using assms by (auto simp: set_zip SBOX_length is_byte_def simp del: upto_rec_numeral intro!: exI [of _ "nat b"])
  then have "sbox_entry_ok (b, SBOX ! nat b)" using SBOX_check by (auto simp: list_all_iff simp del: upto_rec_numeral)
  then show ?thesis using mul_loop_bits [of "affine_inverse (SBOX ! nat b)" 8 0 b]
    by (auto simp: sbox_entry_ok_def Let_def is_byte_def aes_mul_def intro!: exI [of _ "affine_inverse (SBOX ! nat b)"])
qed

section \<open>Counter mode\<close>

lemma next_counter_bounds: "0 \<le> c \<Longrightarrow> c < 2 ^ 128 \<Longrightarrow> 0 \<le> next_counter c \<and> next_counter c < 2 ^ 128"
proof -
  assume c: "0 \<le> c" "c < 2 ^ 128"
  have "0 \<le> c AND NOT 4294967295" "c AND NOT 4294967295 < 2 ^ 128"
    using c AND_upper1 [of c "NOT 4294967295"] by auto
  moreover have "0 \<le> (c + 1) AND 4294967295" "(c + 1) AND 4294967295 < 2 ^ 128"
    using AND_upper2' [of 4294967295 4294967295 "c + 1"] by auto
  ultimately show ?thesis using OR_upper [of "c AND NOT 4294967295" 128] by (simp add: next_counter_def)
qed

lemma to_bytes_big_total:
  assumes "0 \<le> x" "x < 256 ^ n"
  obtains bs where "to_bytes_big n x = Inr bs" "length bs = n"
  using assms that by (simp add: to_bytes_big_def)

lemma map2_xor_twice: "length xs \<le> length ks \<Longrightarrow> map2 (XOR) (map2 (XOR) xs ks) ks = (xs :: bytes)"
  by (induction xs ks rule: list_induct2') (simp_all add: xor.assoc)

lemma gctr_total:
  "good_cipher c \<Longrightarrow> 0 \<le> i \<Longrightarrow> i < 2 ^ 128 \<Longrightarrow>
    \<exists>out. gctr c i data = Inr out \<and> length out = length data \<and> gctr c i out = Inr data"
proof (induction c i data rule: gctr.induct)
  case (1 c i)
  then show ?case by simp
next
  case (2 c i b bs)
  obtain blk where blk: "to_bytes_big 16 i = Inr blk" "length blk = 16"
    using to_bytes_big_total [of i 16] "2.prems" by auto
  obtain ks where ks: "encrypt_block c blk = Inr ks" "length ks = 16"
    using encrypt_block_total [OF "2.prems"(1) blk(2)] by auto
  obtain rest where rest: "gctr c (next_counter i) (drop 15 bs) = Inr rest" "length rest = length (drop 15 bs)"
      "gctr c (next_counter i) rest = Inr (drop 15 bs)"
    using "2.IH" "2.prems" next_counter_bounds by blast
  define front where "front = map2 (XOR) (take 16 (b # bs)) ks"
  have out: "gctr c i (b # bs) = Inr (front @ rest)" using blk ks rest by (simp add: front_def)
  have lf: "length front = min 16 (length (b # bs))" using ks by (simp add: front_def)
  obtain a as where a: "front @ rest = a # as" using lf by (cases front) auto
  have tk: "take 16 (a # as) = front" "drop 15 as = rest"
  proof -
    have *: "take 16 (front @ rest) = front \<and> drop 16 (front @ rest) = rest"
      using lf rest(2) by (cases "length (b # bs) < 16") auto
    then show "take 16 (a # as) = front" "drop 15 as = rest" unfolding a by simp_all
  qed
  have "gctr c i (a # as) = Inr (map2 (XOR) front ks @ drop 15 bs)"
    using blk ks rest by (simp only: gctr.simps rbind_simps tk)
  moreover have "map2 (XOR) front ks @ drop 15 bs = b # bs"
  proof -
    have "map2 (XOR) front ks = take 16 (b # bs)" unfolding front_def by (rule map2_xor_twice) (simp add: ks(2))
    moreover have "drop 15 bs = drop 16 (b # bs)" by simp
    ultimately show ?thesis by (simp only: append_take_drop_id)
  qed
  moreover have "length (front @ rest) = length (b # bs)" using lf rest(2) by simp
  ultimately show ?case using out unfolding a by (simp del: gctr.simps)
qed

section \<open>GHASH stays within 128 bits\<close>

definition in128 :: "int \<Rightarrow> bool" where
  "in128 x \<longleftrightarrow> 0 \<le> x \<and> x < 2 ^ 128"

lemma in128_xor: "in128 x \<Longrightarrow> in128 y \<Longrightarrow> in128 (x XOR y)"
  using XOR_upper [of x 128 y] by (simp add: in128_def)

lemma in128_shift: "in128 v \<Longrightarrow> in128 (drop_bit 1 v)"
  by (auto simp: in128_def drop_bit_eq_div)

lemma gf128_step_ok:
  assumes "in128 (fst zv)" "in128 (snd zv)"
  shows "in128 (fst (gf128_step x i zv)) \<and> in128 (snd (gf128_step x i zv))"
proof -
  have r: "in128 0xE1000000000000000000000000000000" by (simp add: in128_def)
  show ?thesis
    unfolding gf128_step_def Let_def case_prod_beta fst_conv snd_conv
    using assms in128_xor [OF in128_shift [OF assms(2)] r] in128_xor [OF assms] in128_shift [OF assms(2)] by (simp only: split: if_split) simp
qed

lemma gf128_fold_ok: "in128 (fst zv) \<Longrightarrow> in128 (snd zv) \<Longrightarrow> in128 (fst (fold (gf128_step x) is zv))"
  by (induction "is" arbitrary: zv) (simp_all add: gf128_step_ok)

lemma gf128_mul_ok: "in128 y \<Longrightarrow> in128 (gf128_mul x y)"
  unfolding gf128_mul_def by (rule gf128_fold_ok) (simp_all add: in128_def)

lemma ghash_loop_ok: "in128 h \<Longrightarrow> in128 y \<Longrightarrow> in128 (ghash_loop h y data)"
  by (induction h y data rule: ghash_loop.induct) (simp_all add: Let_def gf128_mul_ok)

lemma from_bytes_big_bounds: "0 \<le> from_bytes_big bs \<and> from_bytes_big bs < 256 ^ length bs"
proof (induction bs rule: rev_induct)
  case Nil
  then show ?case by (simp add: from_bytes_big_def)
next
  case (snoc b bs)
  have "from_bytes_big (bs @ [b]) = from_bytes_big bs * 256 + uint b" by (simp add: from_bytes_big_def)
  moreover have "0 \<le> uint b" "uint b < 256" using is_byte_uint [of b] by (simp_all add: is_byte_def)
  moreover have "from_bytes_big bs * 256 \<le> (256 ^ length bs - 1) * 256" using snoc.IH by (intro mult_right_mono) auto
  ultimately show ?case using snoc.IH by (simp add: algebra_simps)
qed

lemma in128_bytes: "length bs = 16 \<Longrightarrow> in128 (from_bytes_big bs)"
  using from_bytes_big_bounds [of bs] by (simp add: in128_def)


section \<open>The guarantees\<close>

text \<open>The example vector of FIPS-197, appendix C.1.\<close>

lemma aes128_fips197_vector:
  "map_sum id (\<lambda>c. cipher_state c
       [0x00, 0x11, 0x22, 0x33, 0x44, 0x55, 0x66, 0x77, 0x88, 0x99, 0xaa, 0xbb, 0xcc, 0xdd, 0xee, 0xff])
     (AesCipher [0, 1, 2, 3, 4, 5, 6, 7, 8, 9, 10, 11, 12, 13, 14, 15]) =
   Inr [0x69, 0xc4, 0xe0, 0xd8, 0x6a, 0x7b, 0x04, 0x30, 0xd8, 0xcd, 0xb7, 0x80, 0x70, 0xb4, 0xc5, 0x5a]"
  by code_simp

lemma finite_blocks: "finite {b :: bytes. length b = n}"
  using finite_lists_length_eq [of "UNIV :: 8 word set" n] by simp

lemma AesCipher_total:
  assumes "length key \<in> {16, 24, 32}"
  obtains c where "AesCipher key = Inr c" "good_cipher c"
proof -
  from assms obtain c where "AesCipher key = Inr c" by (auto simp: AesCipher_def Let_def)
  then show ?thesis using AesCipher_good that by blast
qed

text \<open>
  C36: Under every key of a legal length the block cipher of \<open>aesgcm.py\<close> never raises on a 16-byte
  block and is a permutation of the 16-byte blocks.
\<close>
theorem aes_is_a_permutation:
  assumes "length key \<in> {16, 24, 32}"
  shows "\<exists>c f. AesCipher key = Inr c \<and> (\<forall>b. length b = 16 \<longrightarrow> encrypt_block c b = Inr (f b)) \<and>
    bij_betw f {b. length b = 16} {b. length b = 16}"
proof -
  obtain c where c: "AesCipher key = Inr c" "good_cipher c" by (rule AesCipher_total [OF assms])
  define f where "f b = projr (encrypt_block c b)" for b
  have f: "encrypt_block c b = Inr (f b) \<and> length (f b) = 16" if "length b = 16" for b
    by (rule encrypt_block_total [OF c(2) that]) (simp add: f_def)
  have "inj_on f {b. length b = 16}"
  proof (rule inj_onI)
    fix b1 b2 :: bytes assume b: "b1 \<in> {b. length b = 16}" "b2 \<in> {b. length b = 16}" "f b1 = f b2"
    then have l: "length b1 = 16" "length b2 = 16" by simp_all
    have "encrypt_block c b1 = encrypt_block c b2" using f [OF l(1)] f [OF l(2)] b(3) by simp
    then show "b1 = b2" by (rule encrypt_block_inj [OF c(2) l])
  qed
  moreover have "f ` {b. length b = 16} \<subseteq> {b. length b = 16}" using f by auto
  ultimately have "inj_on f {b. length b = 16} \<and> f ` {b. length b = 16} = {b. length b = 16}"
    using endo_inj_surj [OF finite_blocks [of 16]] by simp
  then have "bij_betw f {b. length b = 16} {b. length b = 16}" by (simp only: bij_betw_def simp_thms)
  then show ?thesis using c(1) f by (intro exI [of _ c] exI [of _ f]) simp
qed

theorem aes_is_a_permutation_witness:
  "\<exists>c f. AesCipher [0, 1, 2, 3, 4, 5, 6, 7, 8, 9, 10, 11, 12, 13, 14, 15] = Inr c \<and>
    (\<forall>b. length b = 16 \<longrightarrow> encrypt_block c b = Inr (f b)) \<and> bij_betw f {b. length b = 16} {b. length b = 16}"
  by (rule aes_is_a_permutation) simp

lemma nonce_counter_bounds:
  assumes "length nonce = 12"
  shows "0 \<le> from_bytes_big (nonce @ [0, 0, 0, 1])" "from_bytes_big (nonce @ [0, 0, 0, 1]) + 1 < 2 ^ 128"
proof -
  have "from_bytes_big (nonce @ [0, 0, 0, 1]) = from_bytes_big nonce * 256 ^ 4 + 1"
    by (simp add: from_bytes_big_def)
  moreover have "0 \<le> from_bytes_big nonce" "from_bytes_big nonce < 256 ^ 12"
    using from_bytes_big_bounds [of nonce] assms by simp_all
  ultimately show "0 \<le> from_bytes_big (nonce @ [0, 0, 0, 1])" "from_bytes_big (nonce @ [0, 0, 0, 1]) + 1 < 2 ^ 128"
    by simp_all
qed

lemma gcm_tag_total:
  assumes "good_cipher c" "in128 h" "0 \<le> j0" "j0 < 2 ^ 128" "length aad < 2 ^ 61" "length ct < 2 ^ 61"
  obtains tag where "gcm_tag c h j0 aad ct = Inr tag" "length tag = 16"
proof -
  have len: "0 \<le> int n * 8 \<and> int n * 8 < 256 ^ 8" if "n < 2 ^ 61" for n
  proof -
    have "int n < 2 ^ 61" using that by (metis of_nat_less_numeral_power_cancel_iff)
    then show ?thesis by simp
  qed
  obtain la lc where l: "to_bytes_big 8 (int (length aad) * 8) = Inr la" "to_bytes_big 8 (int (length ct) * 8) = Inr lc"
    using len [OF assms(5)] len [OF assms(6)] to_bytes_big_total by metis
  define g where "g = ghash h (aad @ pad16 (length aad) @ ct @ pad16 (length ct) @ la @ lc)"
  have "in128 g" unfolding g_def ghash_def by (rule ghash_loop_ok [OF assms(2)]) (simp add: in128_def)
  then obtain s where s: "to_bytes_big 16 g = Inr s" "length s = 16"
    using to_bytes_big_total [of g 16] by (auto simp: in128_def)
  obtain t where "gctr c j0 s = Inr t" "length t = 16" using gctr_total [OF assms(1,3,4), of s] s(2) by auto
  then show ?thesis using that [of t] l s(1) unfolding gcm_tag_def g_def by (simp add: GCM_TAG_SIZE_def)
qed

lemma aes_gcm_decrypt_split:
  assumes "length nonce = 12" "AesCipher key = Inr c" "encrypt_block c (replicate 16 0) = Inr hb" "length tag = 16"
    and "gcm_tag c (from_bytes_big hb) (from_bytes_big (nonce @ [0, 0, 0, 1])) aad ct = Inr good"
  shows "aes_gcm_decrypt_pure key nonce (ct @ tag) aad =
    (if tag \<noteq> good then Inl (AesGcmError ''authentication failed'')
     else gctr c (from_bytes_big (nonce @ [0, 0, 0, 1]) + 1) ct)"
  using assms by (auto simp: aes_gcm_decrypt_pure_def GCM_TAG_SIZE_def Let_def)

lemma aes_gcm_runs:
  assumes "length key \<in> {16, 24, 32}" "length nonce = 12" "length plaintext < 2 ^ 61" "length aad < 2 ^ 61"
  obtains ct tag where "aes_gcm_encrypt_pure key nonce plaintext aad = Inr (ct @ tag)"
    "length ct = length plaintext" "length tag = 16"
    "\<forall>t. length t = 16 \<longrightarrow> aes_gcm_decrypt_pure key nonce (ct @ t) aad =
      (if t \<noteq> tag then Inl (AesGcmError ''authentication failed'') else Inr plaintext)"
proof -
  obtain c where c: "AesCipher key = Inr c" "good_cipher c" by (rule AesCipher_total [OF assms(1)])
  obtain hb where hb: "encrypt_block c (replicate 16 0) = Inr hb" "length hb = 16"
    using encrypt_block_total [OF c(2), of "replicate 16 0"] by auto
  define j0 where "j0 = from_bytes_big (nonce @ [0, 0, 0, 1])"
  have j0: "0 \<le> j0" "j0 + 1 < 2 ^ 128" using nonce_counter_bounds [OF assms(2)] by (simp_all only: j0_def)
  obtain ct where ct: "gctr c (j0 + 1) plaintext = Inr ct" "length ct = length plaintext" "gctr c (j0 + 1) ct = Inr plaintext"
    using gctr_total [OF c(2) _ j0(2)] j0(1) by fastforce
  obtain tag where tag: "gcm_tag c (from_bytes_big hb) j0 aad ct = Inr tag" "length tag = 16"
    using gcm_tag_total [OF c(2) in128_bytes [OF hb(2)] j0(1) _ assms(4), of ct] j0(2) ct(2) assms(3) by auto
  have dec: "aes_gcm_decrypt_pure key nonce (ct @ t) aad =
      (if t \<noteq> tag then Inl (AesGcmError ''authentication failed'') else Inr plaintext)" if "length t = 16" for t
    using aes_gcm_decrypt_split [OF assms(2) c(1) hb(1) that tag(1) [unfolded j0_def]] ct(3) by (simp only: j0_def)
  have "aes_gcm_encrypt_pure key nonce plaintext aad = Inr (ct @ tag)"
    using assms(2) c hb ct tag unfolding aes_gcm_encrypt_pure_def j0_def Let_def by simp
  then show ?thesis using that ct(2) tag(2) dec by blast
qed

text \<open>
  C37: Authenticated encryption with a legal key and nonce never raises: it returns the ciphertext,
  as long as the plaintext, followed by a 16-byte tag; decryption with the same nonce and
  associated data returns the plaintext, any other tag on the same ciphertext is an
  authentication failure, and anything shorter than a tag is refused.
\<close>
theorem aes_gcm_roundtrip:
  assumes "length key \<in> {16, 24, 32}" "length nonce = 12" "length plaintext < 2 ^ 61" "length aad < 2 ^ 61"
  shows "\<exists>ct tag. aes_gcm_encrypt_pure key nonce plaintext aad = Inr (ct @ tag) \<and>
    length ct = length plaintext \<and> length tag = 16 \<and>
    aes_gcm_decrypt_pure key nonce (ct @ tag) aad = Inr plaintext \<and>
    (\<forall>tag'. length tag' = 16 \<and> tag' \<noteq> tag \<longrightarrow>
       aes_gcm_decrypt_pure key nonce (ct @ tag') aad = Inl (AesGcmError ''authentication failed'')) \<and>
    (\<forall>data. length data < 16 \<longrightarrow> aes_gcm_decrypt_pure key nonce data aad = Inl (AesGcmError ''ciphertext too short''))"
proof -
  obtain ct tag where r: "aes_gcm_encrypt_pure key nonce plaintext aad = Inr (ct @ tag)"
    "length ct = length plaintext" "length tag = 16"
    "\<forall>t. length t = 16 \<longrightarrow> aes_gcm_decrypt_pure key nonce (ct @ t) aad =
      (if t \<noteq> tag then Inl (AesGcmError ''authentication failed'') else Inr plaintext)"
    by (rule aes_gcm_runs [OF assms])
  have "aes_gcm_decrypt_pure key nonce data aad = Inl (AesGcmError ''ciphertext too short'')" if "length data < 16" for data
    using assms(2) that by (simp add: aes_gcm_decrypt_pure_def GCM_TAG_SIZE_def)
  then show ?thesis using r by (intro exI [of _ ct] exI [of _ tag]) simp
qed

theorem aes_gcm_roundtrip_witness:
  "\<exists>ct tag. aes_gcm_encrypt_pure (replicate 32 7) (replicate 12 1) [1, 2, 3] [9] = Inr (ct @ tag) \<and>
    length ct = 3 \<and> aes_gcm_decrypt_pure (replicate 32 7) (replicate 12 1) (ct @ tag) [9] = Inr [1, 2, 3]"
  using aes_gcm_roundtrip [of "replicate 32 7" "replicate 12 1" "[1, 2, 3]" "[9]"] by auto

text \<open>
  The substitution table is the S-box of FIPS-197: each entry is the affine map of the
  multiplicative inverse, with respect to the multiplication the code itself computes, of its index.
\<close>
lemma aes_sbox_is_fips197:
  assumes "0 \<le> b" "b < 256"
  shows "\<exists>y. 0 \<le> y \<and> y < 256 \<and> (if b = 0 then y = 0 else aes_mul b (nat y) = 1) \<and> SBOX ! nat b = fips_affine y"
  using SBOX_fips [of b] assms by (auto simp: is_byte_def)

lemma aes_sbox_is_fips197_example:
  "\<exists>y. 0 \<le> y \<and> y < 256 \<and> aes_mul 83 (nat y) = 1 \<and> fips_affine y = 237"
  using aes_sbox_is_fips197 [of 83] by (simp add: SBOX_def)

end
