(* ===== verification/X25519.thy ===== *)
theory X25519
  imports AesGcm
begin

text \<open>
  \<open>app/crypto/x25519.py\<close>: scalar clamping, the constant-time Montgomery ladder with its deferred
  swaps, the pure key agreement built on it, and the dispatch to the \<open>cryptography\<close> package, whose
  two primitives are a parameter. Main result: the ladder with swaps computes the textbook ladder
  (differential addition and doubling, one pair per scalar bit), its results fit 32 bytes, and the
  all-zero public key is always refused.
\<close>

unbundle bit_operations_syntax

definition P25519 :: int where "P25519 = 2 ^ 255 - 19"
definition A24 :: int where "A24 = 121665"
definition BASE_POINT :: int where "BASE_POINT = 9"
definition X25519_KEY_SIZE :: nat where "X25519_KEY_SIZE = 32"

section \<open>Little-endian integers\<close>

definition from_bytes_little :: "bytes \<Rightarrow> int" where
  "from_bytes_little bs = from_bytes_big (rev bs)"

definition to_bytes_little :: "nat \<Rightarrow> int \<Rightarrow> crypto_error + bytes" where
  "to_bytes_little n x = map_sum id rev (to_bytes_big n x)"

section \<open>The module\<close>

definition clamp_scalar :: "bytes \<Rightarrow> crypto_error + int" where
  "clamp_scalar scalar =
     (if length scalar \<noteq> X25519_KEY_SIZE then Inl (CryptoValueError ''X25519 scalar must be 32 bytes'')
      else let k0 = scalar[0 := scalar ! 0 AND 248];
               k1 = k0[31 := k0 ! 31 AND 127];
               k2 = k1[31 := k1 ! 31 OR 64]
           in Inr (from_bytes_little k2))"

record ladder_state =
  x2 :: int
  z2 :: int
  x3 :: int
  z3 :: int
  swap :: int

definition cswap :: "ladder_state \<Rightarrow> ladder_state" where
  "cswap s = (if swap s \<noteq> 0 then s\<lparr>x2 := x3 s, x3 := x2 s, z2 := z3 s, z3 := z2 s\<rparr> else s)"

text \<open>\<open>pow(b, e, m)\<close> by repeated squaring.\<close>

function pow_mod :: "int \<Rightarrow> int \<Rightarrow> int \<Rightarrow> int" where
  "pow_mod b e m =
     (if e \<le> 0 then 1 mod m
      else let h = pow_mod (b * b mod m) (e div 2) m in if e mod 2 = 1 then b * h mod m else h)"
  by pat_completeness auto
termination by (relation "measure (\<lambda>(b, e, m). nat e)") auto

declare pow_mod.simps [simp del]

definition ladder_step :: "int \<Rightarrow> int \<Rightarrow> nat \<Rightarrow> ladder_state \<Rightarrow> ladder_state" where
  "ladder_step k x1 t s0 =
     (let k_t = drop_bit t k AND 1;
          s = cswap (s0\<lparr>swap := swap s0 XOR k_t\<rparr>);
          a = (x2 s + z2 s) mod P25519;
          aa = (a * a) mod P25519;
          b = (x2 s - z2 s) mod P25519;
          bb = (b * b) mod P25519;
          e = (aa - bb) mod P25519;
          c = (x3 s + z3 s) mod P25519;
          d = (x3 s - z3 s) mod P25519;
          da = (d * a) mod P25519;
          cb = (c * b) mod P25519
      in \<lparr>x2 = (aa * bb) mod P25519, z2 = (e * (aa + A24 * e)) mod P25519,
          x3 = ((da + cb) ^ 2) mod P25519, z3 = (x1 * ((da - cb) ^ 2)) mod P25519, swap = k_t\<rparr>)"

definition ladder :: "int \<Rightarrow> int \<Rightarrow> int" where
  "ladder k u =
     (let s = cswap (fold (ladder_step k u) (rev [0..<255]) \<lparr>x2 = 1, z2 = 0, x3 = u, z3 = 1, swap = 0\<rparr>)
      in (x2 s * pow_mod (z2 s) (P25519 - 2) P25519) mod P25519)"

definition x25519_pure :: "bytes \<Rightarrow> bytes \<Rightarrow> crypto_error + bytes" where
  "x25519_pure private_key public_key =
     (if length public_key \<noteq> X25519_KEY_SIZE then Inl (CryptoValueError ''X25519 public key must be 32 bytes'')
      else let received = public_key[31 := public_key ! 31 AND 0x7F]
           in rbind (clamp_scalar private_key) (\<lambda>k.
              rbind (to_bytes_little X25519_KEY_SIZE (ladder k (from_bytes_little received))) (\<lambda>out.
                if list_all (\<lambda>b. b = 0) out then Inl (CryptoValueError ''non-contributory X25519 public key rejected'')
                else Inr out)))"

definition public_from_private_pure :: "bytes \<Rightarrow> crypto_error + bytes" where
  "public_from_private_pure private_key =
     rbind (clamp_scalar private_key) (\<lambda>k. to_bytes_little X25519_KEY_SIZE (ladder k BASE_POINT))"

text \<open>
  The \<open>cryptography\<close> backend: \<open>priv.exchange(pub)\<close> and the raw public key of a private key. An
  exception of the package is its \<^term>\<open>Inl\<close> value.
\<close>

record x25519_lib =
  lib_exchange :: "bytes \<Rightarrow> bytes \<Rightarrow> crypto_error + bytes"
  lib_public :: "bytes \<Rightarrow> crypto_error + bytes"

definition x25519 :: "x25519_lib option \<Rightarrow> bytes \<Rightarrow> bytes \<Rightarrow> crypto_error + bytes" where
  "x25519 backend private_key public_key =
     (case backend of
        None \<Rightarrow> x25519_pure private_key public_key
      | Some lib \<Rightarrow>
          (if length private_key \<noteq> 32 then Inl (CryptoValueError ''X25519 scalar must be 32 bytes'')
           else if length public_key \<noteq> 32 then Inl (CryptoValueError ''X25519 public key must be 32 bytes'')
           else if public_key = replicate 32 0 then Inl (CryptoValueError ''non-contributory X25519 public key rejected'')
           else case lib_exchange lib private_key public_key of
             Inl (CryptoValueError _) \<Rightarrow> Inl (CryptoValueError ''non-contributory X25519 public key rejected'')
           | r \<Rightarrow> r))"

definition public_from_private :: "x25519_lib option \<Rightarrow> bytes \<Rightarrow> crypto_error + bytes" where
  "public_from_private backend private_key =
     (case backend of None \<Rightarrow> public_from_private_pure private_key | Some lib \<Rightarrow> lib_public lib private_key)"

section \<open>The textbook ladder\<close>

type_synonym mont = "int \<times> int"

definition mont_dbl :: "mont \<Rightarrow> mont" where
  "mont_dbl p =
     (let (x, z) = p; s = (x + z) ^ 2; d = (x - z) ^ 2
      in ((s * d) mod P25519, ((s - d) * (s + A24 * (s - d))) mod P25519))"

definition mont_add :: "int \<Rightarrow> mont \<Rightarrow> mont \<Rightarrow> mont" where
  "mont_add x1 p q =
     (let (x, z) = p; (x', z') = q; u = (x' - z') * (x + z); v = (x' + z') * (x - z)
      in ((u + v) ^ 2 mod P25519, x1 * (u - v) ^ 2 mod P25519))"

definition mont_step :: "int \<Rightarrow> int \<Rightarrow> nat \<Rightarrow> mont \<times> mont \<Rightarrow> mont \<times> mont" where
  "mont_step k x1 t pq =
     (let (p, q) = pq in if bit k t then (mont_add x1 p q, mont_dbl q) else (mont_dbl p, mont_add x1 p q))"

definition textbook_ladder :: "int \<Rightarrow> int \<Rightarrow> int" where
  "textbook_ladder k u =
     (let (x, z) = fst (fold (mont_step k u) (rev [0..<255]) ((1, 0), (u, 1)))
      in x * z ^ nat (P25519 - 2) mod P25519)"

section \<open>The ladder with swaps is the textbook ladder\<close>

lemma pow_mod_power: "0 \<le> e \<Longrightarrow> pow_mod b e m = b ^ nat e mod m"
proof (induction b e m rule: pow_mod.induct)
  case (1 b e m)
  show ?case
  proof (cases "e \<le> 0")
    case True
    then show ?thesis using 1 by (simp add: pow_mod.simps)
  next
    case False
    define h where "h = nat e div 2"
    have h: "nat (e div 2) = h" using False by (simp add: h_def nat_div_distrib)
    have ih: "pow_mod (b * b mod m) (e div 2) m = (b * b) ^ h mod m"
      using 1 False by (simp add: h power_mod)
    have e: "nat e = 2 * h + (if e mod 2 = 1 then 1 else 0)"
    proof -
      obtain n where n: "e = int n" using False by (meson nonneg_int_cases linear)
      have "n = 2 * (n div 2) + (if n mod 2 = 1 then 1 else 0)" by (cases "n mod 2 = 1") presburger+
      moreover have "e mod 2 = 1 \<longleftrightarrow> n mod 2 = 1" unfolding n by presburger
      ultimately show ?thesis unfolding h_def by (simp add: n)
    qed
    have sq: "(b * b) ^ h = b ^ (2 * h)" by (simp add: power_mult power2_eq_square)
    show ?thesis using False ih unfolding e sq
      by (simp add: pow_mod.simps [of b e m] Let_def mod_mult_right_eq)
  qed
qed

definition pair_of :: "ladder_state \<Rightarrow> mont \<times> mont" where
  "pair_of s = (if swap s \<noteq> 0 then ((x3 s, z3 s), (x2 s, z2 s)) else ((x2 s, z2 s), (x3 s, z3 s)))"

lemma mod_strip: "a mod m = b mod m \<Longrightarrow> a mod m = b mod m mod (m :: int)"
  by simp

lemmas mod_congs = mod_strip mod_mult_cong mod_add_cong mod_diff_cong refl

lemma mont_dbl_code:
  "mont_dbl (x, z) =
     (let a = (x + z) mod P25519; aa = (a * a) mod P25519; b = (x - z) mod P25519; bb = (b * b) mod P25519;
          e = (aa - bb) mod P25519
      in ((aa * bb) mod P25519, (e * (aa + A24 * e)) mod P25519))"
  unfolding mont_dbl_def Let_def power2_eq_square case_prod_conv prod.inject by (intro conjI mod_congs)

lemma mont_add_code:
  "mont_add x1 (x, z) (x', z') =
     (let a = (x + z) mod P25519; b = (x - z) mod P25519; c = (x' + z') mod P25519; d = (x' - z') mod P25519;
          da = (d * a) mod P25519; cb = (c * b) mod P25519
      in (((da + cb) ^ 2) mod P25519, (x1 * ((da - cb) ^ 2)) mod P25519))"
  unfolding mont_add_def Let_def power2_eq_square case_prod_conv prod.inject by (intro conjI mod_congs)

lemma mont_add_sym: "mont_add x1 p q = mont_add x1 q p"
  by (cases p; cases q) (simp add: mont_add_def Let_def power2_eq_square algebra_simps)

lemma low_bit: "drop_bit t k AND 1 = (if bit k t then 1 else (0 :: int))"
  by (auto simp: and_one_eq bit_iff_odd drop_bit_eq_div odd_iff_mod_2_eq_one)

lemma ladder_step_pair:
  assumes "swap s = 0 \<or> swap s = 1"
  shows "pair_of (ladder_step k x1 t s) = mont_step k x1 t (pair_of s)"
    and "swap (ladder_step k x1 t s) = 0 \<or> swap (ladder_step k x1 t s) = 1"
proof -
  define s' where "s' = cswap (s\<lparr>swap := swap s XOR (drop_bit t k AND 1)\<rparr>)"
  define p' q' where "p' = (x2 s', z2 s')" and "q' = (x3 s', z3 s')"
  have step: "ladder_step k x1 t s = \<lparr>x2 = fst (mont_dbl p'), z2 = snd (mont_dbl p'),
      x3 = fst (mont_add x1 p' q'), z3 = snd (mont_add x1 p' q'), swap = (if bit k t then 1 else 0)\<rparr>"
    unfolding ladder_step_def Let_def s'_def [symmetric]
    unfolding low_bit p'_def q'_def mont_dbl_code mont_add_code Let_def fst_conv snd_conv by (rule refl)
  obtain p q where pq: "pair_of s = (p, q)" by (cases "pair_of s")
  have order: "(p', q') = (if bit k t then (q, p) else (p, q))"
  proof (cases "swap s = 0")
    case True
    then show ?thesis using pq by (cases "bit k t") (simp_all add: p'_def q'_def s'_def cswap_def low_bit pair_of_def)
  next
    case False
    then have "swap s = 1" using assms by simp
    then show ?thesis using pq by (cases "bit k t") (simp_all add: p'_def q'_def s'_def cswap_def low_bit pair_of_def)
  qed
  have "pair_of (ladder_step k x1 t s) =
      (if bit k t then (mont_add x1 p' q', mont_dbl p') else (mont_dbl p', mont_add x1 p' q'))"
    by (simp add: step pair_of_def)
  then show "pair_of (ladder_step k x1 t s) = mont_step k x1 t (pair_of s)"
    using order by (cases "bit k t") (simp_all add: pq mont_step_def mont_add_sym [of x1 q p])
  show "swap (ladder_step k x1 t s) = 0 \<or> swap (ladder_step k x1 t s) = 1"
    by (simp add: step)
qed

lemma ladder_fold_pair:
  "swap s = 0 \<or> swap s = 1 \<Longrightarrow> pair_of (fold (ladder_step k u) ts s) = fold (mont_step k u) ts (pair_of s) \<and>
    (swap (fold (ladder_step k u) ts s) = 0 \<or> swap (fold (ladder_step k u) ts s) = 1)"
proof (induction ts arbitrary: s)
  case Nil
  then show ?case by simp
next
  case (Cons t ts)
  show ?case using Cons.IH [OF ladder_step_pair(2) [OF Cons.prems]] ladder_step_pair(1) [OF Cons.prems] by simp
qed

lemma cswap_pair: "(x2 (cswap s), z2 (cswap s)) = fst (pair_of s)"
  by (simp add: cswap_def pair_of_def)

lemma ladder_textbook: "ladder k u = textbook_ladder k u"
proof -
  define s where "s = fold (ladder_step k u) (rev [0..<255]) \<lparr>x2 = 1, z2 = 0, x3 = u, z3 = 1, swap = 0\<rparr>"
  have "pair_of s = fold (mont_step k u) (rev [0..<255]) ((1, 0), (u, 1))"
    using ladder_fold_pair [of "\<lparr>x2 = 1, z2 = 0, x3 = u, z3 = 1, swap = 0\<rparr>" k u "rev [0..<255]"]
    unfolding s_def by (simp only: pair_of_def ladder_state.simps) simp
  then have xz: "fst (fold (mont_step k u) (rev [0..<255]) ((1, 0), (u, 1))) = (x2 (cswap s), z2 (cswap s))"
    using cswap_pair by metis
  have pw: "pow_mod z (P25519 - 2) P25519 = z ^ nat (P25519 - 2) mod P25519" for z
    by (rule pow_mod_power) (simp add: P25519_def)
  show ?thesis
    unfolding ladder_def textbook_ladder_def xz Let_def case_prod_conv pw s_def [symmetric] by (simp only: mod_mult_right_eq)
qed

section \<open>Byte strings and integers\<close>

lemma from_bytes_big_snoc: "from_bytes_big (bs @ [b]) = from_bytes_big bs * 256 + uint b"
  by (simp add: from_bytes_big_def)

lemma big_bytes_snoc:
  "map (\<lambda>i. word_of_int (x div 256 ^ (Suc n - 1 - i))) [0..<Suc n] =
     map (\<lambda>i. word_of_int (x div 256 div 256 ^ (n - 1 - i))) [0..<n] @ [word_of_int x :: 8 word]"
proof -
  have "x div 256 ^ (n - i) = x div 256 div 256 ^ (n - 1 - i)" if "i < n" for i
  proof -
    have "n - i = Suc (n - 1 - i)" using that by simp
    then show ?thesis by (simp add: zdiv_zmult2_eq)
  qed
  then show ?thesis by simp
qed

lemma from_big_bytes:
  "from_bytes_big (map (\<lambda>i. word_of_int (x div 256 ^ (n - 1 - i))) [0..<n]) = x mod 256 ^ n"
proof (induction n arbitrary: x)
  case 0
  then show ?case by (simp add: from_bytes_big_def)
next
  case (Suc n)
  have u: "uint (word_of_int x :: 8 word) = x mod 256" by (simp add: uint_word_of_int take_bit_eq_mod)
  have "(x div 256 mod 256 ^ n) * 256 + x mod 256 = x mod 256 ^ Suc n"
    using zmod_zmult2_eq [of "256 ^ n" x 256] by (simp add: mult.commute)
  then show ?case unfolding big_bytes_snoc from_bytes_big_snoc Suc.IH u .
qed

lemma to_bytes_little_total:
  assumes "0 \<le> x" "x < 256 ^ n"
  obtains bs where "to_bytes_little n x = Inr bs" "length bs = n" "from_bytes_little bs = x"
  using that assms from_big_bytes [of x n] by (simp add: to_bytes_little_def to_bytes_big_def from_bytes_little_def)

lemma from_bytes_little_Cons: "from_bytes_little (b # bs) = from_bytes_little bs * 256 + uint b"
  by (simp add: from_bytes_little_def from_bytes_big_snoc)

lemma from_bytes_little_zero: "from_bytes_little (replicate n 0) = 0"
  by (induction n) (simp_all add: from_bytes_little_Cons, simp add: from_bytes_little_def from_bytes_big_def)

lemma from_bytes_little_nonneg: "0 \<le> from_bytes_little bs"
  by (induction bs) (simp_all add: from_bytes_little_Cons, simp add: from_bytes_little_def from_bytes_big_def)

lemma from_bytes_little_eq_0: "from_bytes_little bs = 0 \<longleftrightarrow> list_all (\<lambda>b. b = 0) bs"
proof (induction bs)
  case Nil
  then show ?case by (simp add: from_bytes_little_def from_bytes_big_def)
next
  case (Cons b bs)
  have "0 \<le> uint b" by simp
  then have "from_bytes_little bs * 256 + uint b = 0 \<longleftrightarrow> from_bytes_little bs = 0 \<and> uint b = 0"
    using from_bytes_little_nonneg [of bs] by linarith
  then show ?case using Cons by (simp add: from_bytes_little_Cons uint_0_iff conj_commute)
qed

section \<open>Low-order keys\<close>

definition flat :: "mont \<Rightarrow> bool" where
  "flat p \<longleftrightarrow> fst p = 0 \<or> snd p = 0"

lemma mont_dbl_flat: "flat p \<Longrightarrow> snd (mont_dbl p) = 0"
  by (cases p) (auto simp: flat_def mont_dbl_def Let_def power2_eq_square)

lemma mont_add_flat: "snd (mont_add 0 p q) = 0"
  by (cases p; cases q) (simp add: mont_add_def Let_def)

lemma mont_fold_flat:
  "flat (fst pq) \<Longrightarrow> flat (snd pq) \<Longrightarrow>
    flat (fst (fold (mont_step k 0) ts pq)) \<and> flat (snd (fold (mont_step k 0) ts pq))"
proof (induction ts arbitrary: pq)
  case Nil
  then show ?case by simp
next
  case (Cons t ts)
  have "flat (fst (mont_step k 0 t pq)) \<and> flat (snd (mont_step k 0 t pq))"
    using Cons.prems mont_dbl_flat mont_add_flat by (auto simp: mont_step_def flat_def split: prod.splits)
  then show ?case using Cons.IH by simp
qed

lemma textbook_ladder_zero:
  assumes "\<not> bit k 0"
  shows "textbook_ladder k 0 = 0"
proof -
  have split: "rev [0..<255] = rev [1..<255] @ [0]" by (subst upt_conv_Cons) simp_all
  define pq where "pq = fold (mont_step k 0) (rev [1..<255]) ((1, 0), (0, 1))"
  have "flat (fst pq)" unfolding pq_def using mont_fold_flat [of "((1, 0), (0, 1))" k "rev [1..<255]"] by (simp add: flat_def)
  then have z: "snd (fst (fold (mont_step k 0) (rev [0..<255]) ((1, 0), (0, 1)))) = 0"
    unfolding split fold_append comp_apply pq_def [symmetric]
    using assms mont_dbl_flat by (cases pq) (simp add: mont_step_def)
  have "nat (P25519 - 2) \<noteq> 0" by (simp add: P25519_def)
  then show ?thesis using z unfolding textbook_ladder_def by (simp add: case_prod_beta power_0_left del: upt_conv_Cons)
qed

lemma textbook_ladder_bounds: "0 \<le> textbook_ladder k u" "textbook_ladder k u < 256 ^ 32"
proof -
  have "0 \<le> textbook_ladder k u \<and> textbook_ladder k u < P25519"
    unfolding textbook_ladder_def by (simp add: case_prod_beta P25519_def)
  moreover have "P25519 < 256 ^ 32" by (simp add: P25519_def)
  ultimately show "0 \<le> textbook_ladder k u" "textbook_ladder k u < 256 ^ 32" by linarith+
qed

section \<open>Clamping\<close>

lemma clamp_scalar_total:
  assumes "length scalar = 32"
  obtains k where "clamp_scalar scalar = Inr k" "\<not> bit k 0"
proof -
  obtain b bs where b: "scalar = b # bs" "length bs = 31" using assms by (cases scalar) auto
  define rest where "rest = (bs[30 := bs ! 30 AND 127])[30 := (bs[30 := bs ! 30 AND 127]) ! 30 OR 64]"
  have "clamp_scalar scalar = Inr (from_bytes_little ((b AND 248) # rest))"
    using b by (simp add: clamp_scalar_def X25519_KEY_SIZE_def Let_def rest_def numeral_eq_Suc)
  moreover have "even (from_bytes_little ((b AND 248) # rest))"
  proof -
    have "\<not> bit (uint (b AND 248)) 0" by (simp only: bit_uint_iff bit_and_iff) simp
    then show ?thesis by (simp add: from_bytes_little_Cons bit_0)
  qed
  ultimately show ?thesis using that by (simp add: bit_0)
qed

section \<open>The guarantee\<close>

text \<open>
  C38: For 32-byte keys the pure X25519 function computes the textbook Montgomery ladder on the clamped
  scalar and the masked coordinate: it returns the 32 little-endian bytes of a non-zero result and
  raises \<open>ValueError\<close> exactly on a zero result, which every coordinate of zero has; no conversion
  inside can overflow.
\<close>
theorem x25519_computes_textbook_ladder:
  assumes "length priv = 32" "length pub = 32"
  shows "\<exists>k. clamp_scalar priv = Inr k \<and>
    (let u = from_bytes_little (pub[31 := pub ! 31 AND 0x7F]); r = textbook_ladder k u
     in (if r = 0 then x25519_pure priv pub = Inl (CryptoValueError ''non-contributory X25519 public key rejected'')
         else \<exists>out. x25519_pure priv pub = Inr out \<and> length out = 32 \<and> from_bytes_little out = r) \<and>
        (u = 0 \<longrightarrow> r = 0))"
proof -
  obtain k where k: "clamp_scalar priv = Inr k" "\<not> bit k 0" using clamp_scalar_total [OF assms(1)] by blast
  define u where "u = from_bytes_little (pub[31 := pub ! 31 AND 0x7F])"
  obtain bs where bs: "to_bytes_little 32 (textbook_ladder k u) = Inr bs" "length bs = 32"
      "from_bytes_little bs = textbook_ladder k u"
    by (rule to_bytes_little_total [OF textbook_ladder_bounds])
  have run: "x25519_pure priv pub =
      (if list_all (\<lambda>b. b = 0) bs then Inl (CryptoValueError ''non-contributory X25519 public key rejected'') else Inr bs)"
    using assms k(1) bs(1) by (simp add: x25519_pure_def X25519_KEY_SIZE_def u_def [symmetric] ladder_textbook Let_def)
  have zero: "list_all (\<lambda>b. b = 0) bs \<longleftrightarrow> textbook_ladder k u = 0" using from_bytes_little_eq_0 [of bs] bs(3) by simp
  have "u = 0 \<Longrightarrow> textbook_ladder k u = 0" using textbook_ladder_zero [OF k(2)] by simp
  then show ?thesis
    unfolding Let_def u_def [symmetric]
    using k(1) run bs(2,3) zero by (intro exI [of _ k]) auto
qed

theorem x25519_computes_textbook_ladder_witness:
  "x25519_pure (replicate 32 5) (replicate 32 0) = Inl (CryptoValueError ''non-contributory X25519 public key rejected'')"
proof -
  have "(replicate 32 0 :: bytes)[31 := replicate 32 0 ! 31 AND 0x7F] = replicate 32 0"
    by (simp add: list_update_same_conv)
  then have u: "from_bytes_little ((replicate 32 0 :: bytes)[31 := replicate 32 0 ! 31 AND 0x7F]) = 0"
    using from_bytes_little_zero [of 32] by (simp only:)
  show ?thesis
    using x25519_computes_textbook_ladder [of "replicate 32 5" "replicate 32 0"]
    unfolding u Let_def by auto
qed

end
