(* ===== verification/Seal.thy ===== *)
theory Seal
  imports AesGcmProps X25519
begin

text \<open>
  \<open>app/crypto/seal.py\<close>, the sealed delivery envelopes, with the backend dispatch of
  \<open>aesgcm.py\<close>. The \<open>cryptography\<close> primitives and HMAC-SHA256 are parameters; fresh randomness
  (\<open>os.urandom\<close>) is an argument. \<open>to_json\<close> and \<open>from_json\<close> are pydantic serialisation and left
  out: an envelope is its record.
\<close>

section \<open>Backend dispatch of AES-GCM\<close>

record aes_gcm_lib =
  lib_encrypt :: "bytes \<Rightarrow> bytes \<Rightarrow> bytes \<Rightarrow> bytes \<Rightarrow> crypto_error + bytes"
  lib_decrypt :: "bytes \<Rightarrow> bytes \<Rightarrow> bytes \<Rightarrow> bytes \<Rightarrow> crypto_error + bytes"

definition aes_gcm_encrypt :: "aes_gcm_lib option \<Rightarrow> bytes \<Rightarrow> bytes \<Rightarrow> bytes \<Rightarrow> bytes \<Rightarrow> crypto_error + bytes" where
  "aes_gcm_encrypt backend key nonce plaintext aad =
     (case backend of
        None \<Rightarrow> aes_gcm_encrypt_pure key nonce plaintext aad
      | Some lib \<Rightarrow>
          (if length nonce \<noteq> 12 then Inl (CryptoValueError ''GCM nonce must be 12 bytes'')
           else lib_encrypt lib key nonce plaintext aad))"

definition aes_gcm_decrypt :: "aes_gcm_lib option \<Rightarrow> bytes \<Rightarrow> bytes \<Rightarrow> bytes \<Rightarrow> bytes \<Rightarrow> crypto_error + bytes" where
  "aes_gcm_decrypt backend key nonce data aad =
     (case backend of
        None \<Rightarrow> aes_gcm_decrypt_pure key nonce data aad
      | Some lib \<Rightarrow>
          (if length nonce \<noteq> 12 then Inl (CryptoValueError ''GCM nonce must be 12 bytes'')
           else if length data < GCM_TAG_SIZE then Inl (AesGcmError ''ciphertext too short'')
           else case lib_decrypt lib key nonce data aad of
             Inl _ \<Rightarrow> Inl (AesGcmError ''authentication failed'')
           | Inr plaintext \<Rightarrow> Inr plaintext))"

section \<open>Envelopes\<close>

datatype seal_error =
    SealError string
  | SealCrypto crypto_error

definition SEAL_INFO :: bytes where
  "SEAL_INFO = map (\<lambda>c. of_char c) ''zagros-seal-v1''"

definition SEAL_ALGORITHM :: string where
  "SEAL_ALGORITHM = ''X25519-HKDF-SHA256-AES-256-GCM''"

record sealed_envelope =
  env_v :: int
  env_alg :: string
  env_eph :: string
  env_nonce :: string
  env_ct :: string

definition seal_b64d :: "string \<Rightarrow> seal_error + bytes" where
  "seal_b64d text =
     (case b64d text of None \<Rightarrow> Inl (SealError ''invalid base64 in envelope'') | Some bs \<Rightarrow> Inr bs)"

text \<open>
  The expansion loop. \<open>bytes([counter])\<close> raises from 256 on, so the loop ends whatever the digest is.
\<close>

function hkdf_loop ::
  "(bytes \<Rightarrow> bytes \<Rightarrow> bytes) \<Rightarrow> bytes \<Rightarrow> bytes \<Rightarrow> nat \<Rightarrow> bytes \<Rightarrow> bytes \<Rightarrow> nat \<Rightarrow> crypto_error + bytes"
where
  "hkdf_loop hmac prk info len okm t counter =
     (if length okm < len then
        if 256 \<le> counter then Inl (CryptoValueError ''bytes must be in range(0, 256)'')
        else let t' = hmac prk (t @ info @ [n2b counter])
             in hkdf_loop hmac prk info len (okm @ t') t' (counter + 1)
      else Inr (take len okm))"
  by pat_completeness auto
termination by (relation "measure (\<lambda>(hmac, prk, info, len, okm, t, counter). 256 - counter)") auto

declare hkdf_loop.simps [simp del]

definition hkdf_sha256 :: "(bytes \<Rightarrow> bytes \<Rightarrow> bytes) \<Rightarrow> bytes \<Rightarrow> bytes \<Rightarrow> nat \<Rightarrow> crypto_error + bytes" where
  "hkdf_sha256 hmac ikm info len = hkdf_loop hmac (hmac (replicate 32 0) ikm) info len [] [] 1"

definition lift_crypto :: "crypto_error + 'a \<Rightarrow> seal_error + 'a" where
  "lift_crypto r = map_sum SealCrypto id r"

definition seal ::
  "(bytes \<Rightarrow> bytes \<Rightarrow> bytes) \<Rightarrow> aes_gcm_lib option \<Rightarrow> x25519_lib option \<Rightarrow> bytes \<Rightarrow> bytes \<Rightarrow> bytes \<Rightarrow> bytes
     \<Rightarrow> seal_error + sealed_envelope"
where
  "seal hmac aes dh eph_private nonce payload recipient_public =
     rbind (lift_crypto (public_from_private dh eph_private)) (\<lambda>eph_public.
     rbind (lift_crypto (x25519 dh eph_private recipient_public)) (\<lambda>shared.
     rbind (lift_crypto (hkdf_sha256 hmac shared SEAL_INFO 32)) (\<lambda>key.
     rbind (lift_crypto (aes_gcm_encrypt aes key nonce payload eph_public)) (\<lambda>ct.
       Inr \<lparr>env_v = 1, env_alg = SEAL_ALGORITHM, env_eph = b64e eph_public, env_nonce = b64e nonce, env_ct = b64e ct\<rparr>))))"

definition open_envelope ::
  "(bytes \<Rightarrow> bytes \<Rightarrow> bytes) \<Rightarrow> aes_gcm_lib option \<Rightarrow> x25519_lib option \<Rightarrow> sealed_envelope \<Rightarrow> bytes \<Rightarrow> seal_error + bytes"
where
  "open_envelope hmac aes dh envelope recipient_private =
     (if env_v envelope \<noteq> 1 \<or> env_alg envelope \<noteq> SEAL_ALGORITHM then
        Inl (SealError (''unsupported envelope version/algorithm: v='' @ int_to_str (env_v envelope)))
      else
        rbind (seal_b64d (env_eph envelope)) (\<lambda>eph_public.
        rbind (seal_b64d (env_nonce envelope)) (\<lambda>nonce.
        rbind (seal_b64d (env_ct envelope)) (\<lambda>ct.
          if length eph_public \<noteq> 32 \<or> length nonce \<noteq> 12 then Inl (SealError ''bad envelope field sizes'')
          else case x25519 dh recipient_private eph_public of
            Inl (CryptoValueError msg) \<Rightarrow> Inl (SealError msg)
          | Inl (AesGcmError msg) \<Rightarrow> Inl (SealError msg)
          | Inl CryptoOverflowError \<Rightarrow> Inl (SealCrypto CryptoOverflowError)
          | Inr shared \<Rightarrow>
              rbind (lift_crypto (hkdf_sha256 hmac shared SEAL_INFO 32)) (\<lambda>key.
                case aes_gcm_decrypt aes key nonce ct eph_public of
                  Inl (AesGcmError _) \<Rightarrow> Inl (SealError ''envelope authentication failed'')
                | Inl e \<Rightarrow> Inl (SealCrypto e)
                | Inr payload \<Rightarrow> Inr payload)))))"

section \<open>The authenticated encryption contract\<close>

text \<open>
  What \<open>seal.py\<close> relies on: with a 256-bit key and a 96-bit nonce encryption of data below a size limit
  succeeds, and decryption with the same key, nonce and associated data gives the plaintext back.
\<close>

locale aead =
  fixes enc dec :: "bytes \<Rightarrow> bytes \<Rightarrow> bytes \<Rightarrow> bytes \<Rightarrow> crypto_error + bytes" and limit :: nat
  assumes seals: "\<lbrakk>length key = 32; length nonce = 12; length pt < limit; length aad < limit\<rbrakk>
    \<Longrightarrow> \<exists>ct. enc key nonce pt aad = Inr ct \<and> dec key nonce ct aad = Inr pt"
begin

lemma opens_sealed:
  assumes "length key = 32" "length nonce = 12" "length pt < limit" "length aad < limit"
  obtains ct where "enc key nonce pt aad = Inr ct" "dec key nonce ct aad = Inr pt"
  using seals [OF assms] by blast

end

interpretation pure_aead: aead aes_gcm_encrypt_pure aes_gcm_decrypt_pure "2 ^ 61"
proof
  fix key nonce pt aad :: bytes
  assume h: "length key = 32" "length nonce = 12" "length pt < 2 ^ 61" "length aad < 2 ^ 61"
  have h': "length key \<in> {16, 24, 32}" using h by simp
  show "\<exists>ct. aes_gcm_encrypt_pure key nonce pt aad = Inr ct \<and> aes_gcm_decrypt_pure key nonce ct aad = Inr pt"
    by (rule aes_gcm_runs [OF h' h(2,3,4)]) auto
qed

text \<open>
  The documented behaviour of \<open>AESGCM(key).encrypt\<close> and \<open>.decrypt\<close>: the ciphertext carries a 16-byte tag. Data of
  more than \<open>2 ^ 31 - 1\<close> bytes raises \<open>OverflowError\<close>, so nothing is required there.
\<close>

definition PACKAGE_LIMIT :: nat where "PACKAGE_LIMIT = 2 ^ 31 - 16"

definition aes_lib_ok :: "aes_gcm_lib \<Rightarrow> bool" where
  "aes_lib_ok lib \<longleftrightarrow> (\<forall>key nonce pt aad. length key = 32 \<longrightarrow> length nonce = 12 \<longrightarrow>
     length pt < PACKAGE_LIMIT \<longrightarrow> length aad < PACKAGE_LIMIT \<longrightarrow>
     (\<exists>ct. lib_encrypt lib key nonce pt aad = Inr ct \<and> length ct = length pt + 16 \<and> lib_decrypt lib key nonce ct aad = Inr pt))"

text \<open>The sizes a backend handles: the length fields of the pure code, or the limit of the package.\<close>

definition aes_limit :: "aes_gcm_lib option \<Rightarrow> nat" where
  "aes_limit backend = (case backend of None \<Rightarrow> 2 ^ 61 | Some _ \<Rightarrow> PACKAGE_LIMIT)"

lemma aes_limit_small: "n < 1000 \<Longrightarrow> n < aes_limit backend"
  by (cases backend) (simp_all add: aes_limit_def PACKAGE_LIMIT_def)

lemma dispatch_aead:
  assumes "\<And>lib. backend = Some lib \<Longrightarrow> aes_lib_ok lib"
  shows "aead (aes_gcm_encrypt backend) (aes_gcm_decrypt backend) (aes_limit backend)"
proof
  fix key nonce pt aad :: bytes
  assume h: "length key = 32" "length nonce = 12" "length pt < aes_limit backend" "length aad < aes_limit backend"
  show "\<exists>ct. aes_gcm_encrypt backend key nonce pt aad = Inr ct \<and> aes_gcm_decrypt backend key nonce ct aad = Inr pt"
  proof (cases backend)
    case None
    then show ?thesis
      using pure_aead.seals [OF h(1,2)] h(3,4) by (simp add: aes_gcm_encrypt_def aes_gcm_decrypt_def aes_limit_def)
  next
    case (Some lib)
    then obtain ct where "lib_encrypt lib key nonce pt aad = Inr ct" "length ct = length pt + 16"
        "lib_decrypt lib key nonce ct aad = Inr pt"
      using assms h unfolding aes_lib_ok_def aes_limit_def by (metis option.case(2))
    then show ?thesis using Some h by (simp add: aes_gcm_encrypt_def aes_gcm_decrypt_def GCM_TAG_SIZE_def)
  qed
qed

lemma hkdf_32:
  assumes "\<And>k m. length (hmac k m) = 32"
  obtains key where "hkdf_sha256 hmac ikm info 32 = Inr key" "length key = 32"
  using that assms by (simp add: hkdf_sha256_def hkdf_loop.simps Let_def)

text \<open>The raw public key of a 32-byte private key has 32 bytes: computed by the pure code, documented for the package.\<close>

lemma pure_public_key:
  assumes "length priv = 32"
  shows "\<exists>pub. public_from_private_pure priv = Inr pub \<and> length pub = 32"
proof -
  obtain k where k: "clamp_scalar priv = Inr k" using clamp_scalar_total [OF assms] by blast
  obtain bs where "to_bytes_little 32 (textbook_ladder k BASE_POINT) = Inr bs" "length bs = 32"
    by (rule to_bytes_little_total [OF textbook_ladder_bounds])
  then show ?thesis using k by (simp add: public_from_private_pure_def X25519_KEY_SIZE_def ladder_textbook)
qed

definition dh_lib_ok :: "x25519_lib \<Rightarrow> bool" where
  "dh_lib_ok lib \<longleftrightarrow> (\<forall>priv. length priv = 32 \<longrightarrow> (\<exists>pub. lib_public lib priv = Inr pub \<and> length pub = 32))"

text \<open>
  Both modules try to import the same package, so a panel runs either on the package or on the pure code
  for both primitives.
\<close>

type_synonym crypto_backend = "(aes_gcm_lib \<times> x25519_lib) option"

abbreviation aes_of :: "crypto_backend \<Rightarrow> aes_gcm_lib option" where "aes_of b \<equiv> map_option fst b"
abbreviation dh_of :: "crypto_backend \<Rightarrow> x25519_lib option" where "dh_of b \<equiv> map_option snd b"

definition backend_ok :: "crypto_backend \<Rightarrow> bool" where
  "backend_ok b \<longleftrightarrow> (case b of None \<Rightarrow> True | Some (aes, dh) \<Rightarrow> aes_lib_ok aes \<and> dh_lib_ok dh)"

lemma backend_public_key:
  assumes "backend_ok b" "length priv = 32"
  shows "\<exists>pub. public_from_private (dh_of b) priv = Inr pub \<and> length pub = 32"
  using assms pure_public_key [OF assms(2)]
  by (auto simp: backend_ok_def dh_lib_ok_def public_from_private_def split: option.splits)


text \<open>
  A package for the witness: the verified pure AES-GCM, and a toy exchange in which every public key is constant and the
  secret is the same for all.
\<close>

definition ex_aes :: aes_gcm_lib where
  "ex_aes = \<lparr>lib_encrypt = aes_gcm_encrypt_pure, lib_decrypt = aes_gcm_decrypt_pure\<rparr>"

definition ex_dh :: x25519_lib where
  "ex_dh = \<lparr>lib_exchange = \<lambda>_ _. Inr (replicate 32 4), lib_public = \<lambda>_. Inr (replicate 32 9)\<rparr>"

lemma ex_aes_ok: "aes_lib_ok ex_aes"
  unfolding aes_lib_ok_def
proof (intro allI impI)
  fix key nonce pt aad :: bytes
  assume h: "length key = 32" "length nonce = 12" "length pt < PACKAGE_LIMIT" "length aad < PACKAGE_LIMIT"
  have lim: "PACKAGE_LIMIT \<le> 2 ^ 61" by (simp add: PACKAGE_LIMIT_def)
  have k: "length key \<in> {16, 24, 32}" "length pt < 2 ^ 61" "length aad < 2 ^ 61"
    using h less_le_trans [OF _ lim] by blast+
  show "\<exists>ct. lib_encrypt ex_aes key nonce pt aad = Inr ct \<and> length ct = length pt + 16 \<and> lib_decrypt ex_aes key nonce ct aad = Inr pt"
    by (rule aes_gcm_runs [OF k(1) h(2) k(2,3)]) (auto simp: ex_aes_def)
qed


end
