(* ===== verification/Passwords.thy ===== *)
theory Passwords
  imports Base64
begin

text \<open>
  \<open>app/crypto/passwords.py\<close>: the scrypt password hashes, their serial format and its parser.
  \<open>hashlib.scrypt\<close> (OpenSSL) is a parameter that may raise; \<open>os.urandom\<close> is an argument. Passwords
  are ASCII text, so that \<open>encode\<close> is byte by byte.
\<close>

unbundle bit_operations_syntax

type_synonym scrypt_fn = "bytes \<Rightarrow> bytes \<Rightarrow> int \<Rightarrow> int \<Rightarrow> int \<Rightarrow> nat \<Rightarrow> py_error + bytes"

datatype password_error =
    PasswordHashError string
  | PasswordRaised py_error

definition FORMAT_PREFIX :: string where "FORMAT_PREFIX = ''$zg-scrypt$v1''"
definition MIN_N :: int where "MIN_N = 2 ^ 14"
definition MAX_N :: int where "MAX_N = 2 ^ 20"

record password_hasher =
  ph_n :: int
  ph_r :: int
  ph_p :: int
  ph_salt_bytes :: nat
  ph_dklen :: nat

definition PasswordHasher :: "int \<Rightarrow> int \<Rightarrow> int \<Rightarrow> nat \<Rightarrow> nat \<Rightarrow> password_error + password_hasher" where
  "PasswordHasher n r p salt_bytes dklen =
     (if \<not> (MIN_N \<le> n \<and> n \<le> MAX_N) \<or> n AND (n - 1) \<noteq> 0 then
        Inl (PasswordHashError ''scrypt n must be a power of two in [2^14, 2^20]'')
      else if r < 1 \<or> p < 1 then Inl (PasswordHashError ''scrypt r and p must be positive'')
      else Inr \<lparr>ph_n = n, ph_r = r, ph_p = p, ph_salt_bytes = salt_bytes, ph_dklen = dklen\<rparr>)"

definition raised :: "py_error + 'a \<Rightarrow> password_error + 'a" where
  "raised r = map_sum PasswordRaised id r"

definition hash_password :: "scrypt_fn \<Rightarrow> password_hasher \<Rightarrow> bytes \<Rightarrow> string \<Rightarrow> password_error + string" where
  "hash_password scrypt h salt password =
     (if password = [] then Inl (PasswordHashError ''password must not be empty'')
      else rbind (raised (scrypt (utf8 password) salt (ph_n h) (ph_r h) (ph_p h) (ph_dklen h))) (\<lambda>digest.
        Inr (FORMAT_PREFIX @ ''$'' @ int_to_str (ph_n h) @ ''$'' @ int_to_str (ph_r h) @ ''$'' @ int_to_str (ph_p h)
             @ ''$'' @ b64e salt @ ''$'' @ b64e digest)))"

definition pw_b64d :: "string \<Rightarrow> password_error + bytes" where
  "pw_b64d text =
     (case b64d text of None \<Rightarrow> Inl (PasswordHashError ''invalid base64 in password hash'') | Some bs \<Rightarrow> Inr bs)"

definition parse_hash :: "string \<Rightarrow> password_error + int \<times> int \<times> int \<times> bytes \<times> bytes" where
  "parse_hash serial =
     (let parts = split_on (CHR ''$'') serial
      in if length parts \<noteq> 8 \<or> parts ! 1 \<noteq> ''zg-scrypt'' \<or> parts ! 2 \<noteq> ''v1'' then
           Inl (PasswordHashError ''unrecognized password hash format'')
         else case (int_of_str (parts ! 3), int_of_str (parts ! 4), int_of_str (parts ! 5)) of
           (Some n, Some r, Some p) \<Rightarrow>
             (if \<not> (2 ^ 10 \<le> n \<and> n \<le> MAX_N) \<or> n AND (n - 1) \<noteq> 0 then
                Inl (PasswordHashError ''scrypt n out of accepted range'')
              else
                rbind (pw_b64d (parts ! 6)) (\<lambda>salt.
                rbind (pw_b64d (parts ! 7)) (\<lambda>digest.
                  if length salt < 8 \<or> length digest < 16 then Inl (PasswordHashError ''salt or digest too short'')
                  else Inr (n, r, p, salt, digest))))
         | _ \<Rightarrow> Inl (PasswordHashError ''non-numeric scrypt parameters''))"

definition verify_password :: "scrypt_fn \<Rightarrow> string \<Rightarrow> string \<Rightarrow> password_error + bool" where
  "verify_password scrypt password serial =
     (case parse_hash serial of
        Inl (PasswordHashError _) \<Rightarrow> Inr False
      | Inl e \<Rightarrow> Inl e
      | Inr (n, r, p, salt, expected) \<Rightarrow>
          rbind (raised (scrypt (utf8 password) salt n r p (length expected))) (\<lambda>candidate. Inr (candidate = expected)))"

definition needs_rehash :: "password_hasher \<Rightarrow> string \<Rightarrow> password_error + bool" where
  "needs_rehash h serial =
     (case parse_hash serial of
        Inl (PasswordHashError _) \<Rightarrow> Inr True
      | Inl e \<Rightarrow> Inl e
      | Inr (n, r, p, _, _) \<Rightarrow> Inr ((n, r, p) \<noteq> (ph_n h, ph_r h, ph_p h)))"

section \<open>The serial format\<close>

lemma b64e_alphabet: "set (b64e data) \<subseteq> set b64_alphabet"
proof -
  have c: "b64_char n \<in> set b64_alphabet" if "n < 64" for n
    using that b64_alphabet_no_pad(2) by (simp add: b64_char_def)
  show ?thesis
    by (induction data rule: b64_groups.induct) (simp_all add: b64e_cons3 b64e_short c)
qed

lemma b64e_no_dollar: "CHR ''$'' \<notin> set (b64e data)"
  using b64e_alphabet [of data] by (auto simp: b64_alphabet_def)

lemma int_to_str_no_dollar: "CHR ''$'' \<notin> set (int_to_str i)"
proof -
  have "\<not> is_digit (CHR ''$'')" by (simp add: is_digit_def)
  then show ?thesis using nat_to_str_digits by (auto simp: int_to_str_def)
qed

definition serial_of :: "int \<Rightarrow> int \<Rightarrow> int \<Rightarrow> bytes \<Rightarrow> bytes \<Rightarrow> string" where
  "serial_of n r p salt digest =
     FORMAT_PREFIX @ ''$'' @ int_to_str n @ ''$'' @ int_to_str r @ ''$'' @ int_to_str p
       @ ''$'' @ b64e salt @ ''$'' @ b64e digest"

lemma serial_parts:
  "split_on (CHR ''$'') (serial_of n r p salt digest) =
     [[], ''zg-scrypt'', ''v1'', int_to_str n, int_to_str r, int_to_str p, b64e salt, b64e digest]"
proof -
  have "serial_of n r p salt digest = join_with [CHR ''$'']
      [[], ''zg-scrypt'', ''v1'', int_to_str n, int_to_str r, int_to_str p, b64e salt, b64e digest]"
    by (simp add: serial_of_def FORMAT_PREFIX_def)
  then show ?thesis by (simp only:) (rule split_on_join, simp_all add: b64e_no_dollar int_to_str_no_dollar)
qed

lemma parse_serial:
  "parse_hash (serial_of n r p salt digest) =
     (if \<not> (2 ^ 10 \<le> n \<and> n \<le> MAX_N) \<or> n AND (n - 1) \<noteq> 0 then Inl (PasswordHashError ''scrypt n out of accepted range'')
      else if length salt < 8 \<or> length digest < 16 then Inl (PasswordHashError ''salt or digest too short'')
      else Inr (n, r, p, salt, digest))"
  by (simp add: parse_hash_def serial_parts int_of_str_to_str pw_b64d_def b64d_b64e nth_Cons')

lemma PasswordHasher_ok:
  "PasswordHasher n r p sb dk = Inr h \<Longrightarrow>
    ph_n h = n \<and> ph_r h = r \<and> ph_p h = p \<and> ph_dklen h = dk \<and> 2 ^ 10 \<le> n \<and> n \<le> MAX_N \<and> n AND (n - 1) = 0"
  by (auto simp: PasswordHasher_def MIN_N_def split: if_splits)

section \<open>Verification\<close>

text \<open>
  A hash made by a validly configured hasher, with at least 8 bytes of salt and a 16-byte digest,
  verifies the password it was made from and every other password exactly when scrypt maps it to the
  same digest; the same hasher never asks to rehash it, and another one does exactly when a cost
  parameter differs.
\<close>
lemma password_hash_verifies:
  assumes "PasswordHasher n r p sb dk = Inr h" "password \<noteq> []"
    and "scrypt (utf8 password) salt n r p dk = Inr digest" "length digest = dk" "16 \<le> dk" "8 \<le> length salt"
  shows "\<exists>serial. hash_password scrypt h salt password = Inr serial \<and>
    verify_password scrypt password serial = Inr True \<and>
    (\<forall>other d. scrypt (utf8 other) salt n r p dk = Inr d \<longrightarrow> verify_password scrypt other serial = Inr (d = digest)) \<and>
    needs_rehash h serial = Inr False \<and>
    (\<forall>h'. needs_rehash h' serial = Inr (n \<noteq> ph_n h' \<or> r \<noteq> ph_r h' \<or> p \<noteq> ph_p h'))"
proof -
  note h = PasswordHasher_ok [OF assms(1)]
  have parsed: "parse_hash (serial_of n r p salt digest) = Inr (n, r, p, salt, digest)"
    using h assms(4-6) by (simp add: parse_serial)
  have "hash_password scrypt h salt password = Inr (serial_of n r p salt digest)"
    using h assms(2,3) by (simp add: hash_password_def raised_def serial_of_def)
  then show ?thesis
    using parsed h assms(3,4)
    by (intro exI [of _ "serial_of n r p salt digest"])
      (simp add: verify_password_def needs_rehash_def raised_def)
qed

definition ex_scrypt :: scrypt_fn where
  "ex_scrypt pw salt n r p dk = (if r < 1 \<or> p < 1 then Inl ValueError else Inr (take dk (pw @ salt @ replicate dk 0)))"

lemma password_hash_verifies_example:
  "\<exists>h serial. PasswordHasher (2 ^ 14) 8 1 16 32 = Inr h \<and>
    hash_password ex_scrypt h (replicate 16 7) ''secret'' = Inr serial \<and>
    verify_password ex_scrypt ''secret'' serial = Inr True \<and> verify_password ex_scrypt ''Secret'' serial = Inr False"
proof -
  obtain h where h: "PasswordHasher (2 ^ 14) 8 1 16 32 = Inr h" by (simp add: PasswordHasher_def MIN_N_def MAX_N_def)
  define d where "d = utf8 ''secret'' @ replicate 16 7 @ replicate 10 0"
  define d' where "d' = utf8 ''Secret'' @ replicate 16 7 @ replicate 10 0"
  have s: "ex_scrypt (utf8 ''secret'') (replicate 16 7) (2 ^ 14) 8 1 32 = Inr d" "length d = 32"
    "ex_scrypt (utf8 ''Secret'') (replicate 16 7) (2 ^ 14) 8 1 32 = Inr d'" "d' \<noteq> d"
    by (simp_all add: ex_scrypt_def utf8_def d_def d'_def take_replicate)
  obtain serial where "hash_password ex_scrypt h (replicate 16 7) ''secret'' = Inr serial"
      "verify_password ex_scrypt ''secret'' serial = Inr True"
      "\<forall>other e. ex_scrypt (utf8 other) (replicate 16 7) (2 ^ 14) 8 1 32 = Inr e \<longrightarrow>
         verify_password ex_scrypt other serial = Inr (e = d)"
    using password_hash_verifies [where scrypt = ex_scrypt and password = "''secret''", OF h _ s(1,2)] by auto
  then show ?thesis using h s(3,4) by (intro exI [of _ h] exI [of _ serial]) simp
qed

text \<open>
  The docstring of \<open>verify\<close> promises False on any malformed input, but the parser does not check the
  block size: whatever the salt, the digest and the password, a stored hash with \<open>r = 0\<close> is
  accepted by \<open>parse\<close> and \<open>verify\<close> raises the \<open>ValueError\<close> of scrypt, which rejects such parameters.
\<close>
lemma verify_raises_on_zero_block_size:
  assumes "\<And>pw s n p dk. scrypt pw s n 0 p dk = Inl ValueError"
    and "8 \<le> length salt" "16 \<le> length digest"
  shows "\<exists>serial. parse_hash serial = Inr (2 ^ 14, 0, 1, salt, digest) \<and>
    verify_password scrypt password serial = Inl (PasswordRaised ValueError)"
proof -
  have "(2 ^ 14 :: int) AND (2 ^ 14 - 1) = 0" "(2 ^ 10 :: int) \<le> 2 ^ 14" "2 ^ 14 \<le> MAX_N" by (simp_all add: MAX_N_def)
  then have "parse_hash (serial_of (2 ^ 14) 0 1 salt digest) = Inr (2 ^ 14, 0, 1, salt, digest)"
    using assms(2,3) parse_serial [of "2 ^ 14" 0 1 salt digest] by simp
  then show ?thesis using assms(1)
    by (intro exI [of _ "serial_of (2 ^ 14) 0 1 salt digest"]) (simp add: verify_password_def raised_def)
qed

lemma verify_raises_on_zero_block_size_example:
  "\<exists>serial. verify_password ex_scrypt ''secret'' serial = Inl (PasswordRaised ValueError)"
  using verify_raises_on_zero_block_size [of ex_scrypt "replicate 8 0" "replicate 16 0" "''secret''"]
  by (auto simp: ex_scrypt_def)

end
