(* ===== verification/Consolidation.thy ===== *)
theory Consolidation
  imports PyValue
begin

text \<open>
  \<open>app/cores/consolidation.py\<close>: moving the inbounds and the grants of the standalone \<open>hysteria2\<close> and
  \<open>tuic\<close> cores into the \<open>sing-box\<close> core. Documents are dynamically typed values. \<open>str()\<close> of a float, a
  list or a dictionary is the parameter \<open>show\<close>; the text of error messages is not modelled beyond
  the exception class. Main results: the tag search ends, the merged document has unique tags and
  keeps every inbound, and grants follow the inbounds they pointed to.
\<close>

section \<open>Constants and errors\<close>

datatype cons_error =
    ConsolidationError
  | ConsRaised py_error

definition MERGED_CORES :: "string list" where
  "MERGED_CORES = [''hysteria2'', ''tuic'']"

definition TARGET_CORE_ID :: string where
  "TARGET_CORE_ID = ''sing-box''"

definition BOOKKEEPING_KEYS :: "string list" where
  "BOOKKEEPING_KEYS = [''has_obfs'', ''has_certificate'']"

definition raising :: "py_error + 'a \<Rightarrow> cons_error + 'a" where
  "raising r = map_sum ConsRaised id r"

section \<open>Translating one inbound\<close>

definition protocol_for :: "string \<Rightarrow> cons_error + string" where
  "protocol_for core_id = (if core_id \<notin> set MERGED_CORES then Inl ConsolidationError else Inr core_id)"

definition int_mbps :: "(pyval \<Rightarrow> string) \<Rightarrow> pyval \<Rightarrow> cons_error + int option" where
  "int_mbps show v =
     (if v = VNone \<or> v = VStr [] then Inr None
      else case v of
        VBool _ \<Rightarrow> map_sum id Some (raising (py_int v))
      | VInt _ \<Rightarrow> map_sum id Some (raising (py_int v))
      | VFloat _ \<Rightarrow> map_sum id Some (raising (py_int v))
      | _ \<Rightarrow>
          (case int_of_str (takeWhile (\<lambda>c. \<not> is_space c) (py_strip (py_str show v))) of
             None \<Rightarrow> Inl ConsolidationError
           | Some i \<Rightarrow> Inr (Some i)))"

fun put_mbps ::
  "(pyval \<Rightarrow> string) \<Rightarrow> (string, pyval) dict \<Rightarrow> (string \<times> string) list \<Rightarrow> (string, pyval) dict \<Rightarrow> cons_error + (string, pyval) dict"
where
  "put_mbps show entry [] out = Inr out"
| "put_mbps show entry ((src, dst) # rest) out =
     rbind (int_mbps show (vget entry src)) (\<lambda>mbps.
       put_mbps show entry rest
         (case mbps of None \<Rightarrow> out | Some m \<Rightarrow> if m \<noteq> 0 then dict_set dst (VInt m) out else out))"

definition hysteria2_fields :: "(pyval \<Rightarrow> string) \<Rightarrow> (string, pyval) dict \<Rightarrow> (string, pyval) dict \<Rightarrow> cons_error + (string, pyval) dict" where
  "hysteria2_fields show entry out0 =
     rbind (put_mbps show entry
              [(''up_mbps'', ''up_mbps''), (''down_mbps'', ''down_mbps''),
               (''bandwidth_up'', ''up_mbps''), (''bandwidth_down'', ''down_mbps'')] out0) (\<lambda>out1.
       let out2 =
             (if truthy (vget entry ''obfs'') then dict_set ''obfs'' (VStr (py_str show (vget entry ''obfs''))) out1
              else if truthy (vget entry ''has_obfs'') \<and> truthy (vget entry ''obfs_password'')
                then dict_set ''obfs'' (VStr (py_str show (vget entry ''obfs_password''))) out1
              else out1)
       in Inr (if truthy (vget entry ''masquerade'')
               then dict_set ''masquerade'' (VStr (py_str show (vget entry ''masquerade''))) out2 else out2))"

definition tuic_fields :: "(pyval \<Rightarrow> string) \<Rightarrow> (string, pyval) dict \<Rightarrow> (string, pyval) dict \<Rightarrow> (string, pyval) dict" where
  "tuic_fields show entry out0 =
     (let out1 =
            (if truthy (vget entry ''congestion_control'')
             then dict_set ''congestion_control'' (VStr (py_str show (vget entry ''congestion_control''))) out0 else out0)
      in if vget entry ''zero_rtt'' \<noteq> VNone then dict_set ''zero_rtt'' (VBool (truthy (vget entry ''zero_rtt''))) out1
         else if vget entry ''zero_rtt_handshake'' \<noteq> VNone
           then dict_set ''zero_rtt'' (VBool (truthy (vget entry ''zero_rtt_handshake''))) out1
         else out1)"

text \<open>Both pieces of certificate material have to be non-empty.\<close>

definition put_certificate :: "string option \<Rightarrow> string option \<Rightarrow> (string, pyval) dict \<Rightarrow> (string, pyval) dict" where
  "put_certificate certificate certificate_key out =
     (case (certificate, certificate_key) of
        (Some c, Some k) \<Rightarrow>
          (if c \<noteq> [] \<and> k \<noteq> [] then dict_set ''certificate_key'' (VStr k) (dict_set ''certificate'' (VStr c) out) else out)
      | _ \<Rightarrow> out)"

definition translate_entry ::
  "(pyval \<Rightarrow> string) \<Rightarrow> string \<Rightarrow> pyval \<Rightarrow> string option \<Rightarrow> string option \<Rightarrow> cons_error + (string, pyval) dict"
where
  "translate_entry show core_id e certificate certificate_key =
     rbind (protocol_for core_id) (\<lambda>proto.
     case e of
       VDict entry \<Rightarrow>
         let doc_proto = py_or (vget entry ''protocol'') (VStr proto)
         in if \<not> py_eq doc_proto (VStr proto) then Inl ConsolidationError
            else
              let tag = py_str show (py_or (vget entry ''tag'') (VStr proto))
              in rbind (raising (py_int (py_or (vget entry ''port'') (VInt (if proto = ''hysteria2'' then 443 else 8443))))) (\<lambda>port.
                 let out =
                       [(''tag'', VStr tag), (''protocol'', VStr proto), (''listen'', py_or (vget entry ''listen'') (VStr ''::'')),
                        (''port'', VInt port), (''security'', VStr ''tls''), (''transport'', VStr ''quic''),
                        (''sni'', VStr (py_str show (py_or (vget entry ''sni'') (VStr []))))]
                 in rbind (if proto = ''hysteria2'' then hysteria2_fields show entry out else Inr (tuic_fields show entry out)) (\<lambda>out'.
                    Inr (fold dict_pop BOOKKEEPING_KEYS (put_certificate certificate certificate_key out'))))
     | _ \<Rightarrow> Inl ConsolidationError)"

definition synthesize_default_entry ::
  "(pyval \<Rightarrow> string) \<Rightarrow> string \<Rightarrow> (string, pyval) dict option \<Rightarrow> string option \<Rightarrow> string option \<Rightarrow> cons_error + (string, pyval) dict"
where
  "synthesize_default_entry show core_id settings certificate certificate_key =
     rbind (protocol_for core_id) (\<lambda>proto.
     let s = (case settings of None \<Rightarrow> [] | Some d \<Rightarrow> d);
         sni = py_or (py_or (vget s ''advertise_sni'') (vget s ''cert_common_name'')) (VStr [])
     in if proto = ''hysteria2'' then
          rbind (raising (py_int (py_or (vget s ''port'') (VInt 443)))) (\<lambda>port.
            translate_entry show core_id
              (VDict [(''tag'', VStr ''hysteria2''), (''protocol'', VStr ''hysteria2''),
                 (''listen'', py_or (vget s ''listen'') (VStr ''::'')), (''port'', VInt port), (''sni'', sni),
                 (''masquerade'', py_or (vget s ''masquerade_url'') (VStr [])),
                 (''up_mbps'', py_or (vget s ''bandwidth_up'') (VStr [])),
                 (''down_mbps'', py_or (vget s ''bandwidth_down'') (VStr [])),
                 (''obfs'', py_or (vget s ''obfs_password'') (VStr []))]) certificate certificate_key)
        else
          rbind (raising (py_int (py_or (vget s ''port'') (VInt 8443)))) (\<lambda>port.
            translate_entry show core_id
              (VDict [(''tag'', VStr ''tuic''), (''protocol'', VStr ''tuic''),
                 (''listen'', VStr (py_str show (py_or (vget s ''listen'') (VStr ''[::]'')))), (''port'', VInt port), (''sni'', sni),
                 (''congestion_control'', py_or (vget s ''congestion_control'') (VStr ''bbr'')),
                 (''zero_rtt'', VBool (truthy (case dict_get s ''zero_rtt_handshake'' of None \<Rightarrow> VBool False | Some v \<Rightarrow> v)))])
              certificate certificate_key))"

section \<open>Merging documents\<close>

lemma numbered_tag_inj: "inj (\<lambda>k. base @ ''-'' @ nat_to_str k)"
  by (rule injI) (auto dest: nat_to_str_inj)

lemma numbered_tags_finite: "finite {k. n \<le> k \<and> base @ ''-'' @ nat_to_str k \<in> set used}"
proof (rule finite_subset)
  show "{k. n \<le> k \<and> base @ ''-'' @ nat_to_str k \<in> set used} \<subseteq> (\<lambda>k. base @ ''-'' @ nat_to_str k) -` set used" by auto
  show "finite ((\<lambda>k. base @ ''-'' @ nat_to_str k) -` set used)"
    by (rule finite_vimageI [OF finite_set numbered_tag_inj])
qed

text \<open>The \<open>while candidate in used\<close> loop: each round leaves one numbered tag of \<open>used\<close> behind.\<close>

function numbered_tag :: "string list \<Rightarrow> string \<Rightarrow> nat \<Rightarrow> string" where
  "numbered_tag used base suffix =
     (let candidate = base @ ''-'' @ nat_to_str suffix
      in if candidate \<in> set used then numbered_tag used base (suffix + 1) else candidate)"
  by pat_completeness auto
termination
proof (relation "measure (\<lambda>(used, base, n). card {k. n \<le> k \<and> base @ ''-'' @ nat_to_str k \<in> set used})")
  fix used base and suffix :: nat and candidate
  assume "candidate = base @ ''-'' @ nat_to_str suffix" "candidate \<in> set used"
  then have "{k. suffix + 1 \<le> k \<and> base @ ''-'' @ nat_to_str k \<in> set used} \<subset> {k. suffix \<le> k \<and> base @ ''-'' @ nat_to_str k \<in> set used}"
    by (intro psubsetI subsetI notI) (auto dest: equalityD2 [THEN subsetD, of _ _ suffix])
  then show "((used, base, suffix + 1), used, base, suffix) \<in>
      measure (\<lambda>(used, base, n). card {k. n \<le> k \<and> base @ ''-'' @ nat_to_str k \<in> set used})"
    by (simp only: in_measure case_prod_conv psubset_card_mono [OF numbered_tags_finite])
qed simp

declare numbered_tag.simps [simp del]

definition fresh_tag :: "string list \<Rightarrow> string \<Rightarrow> string \<Rightarrow> string" where
  "fresh_tag used core_id tag =
     (let candidate = tag @ ''-from-'' @ core_id
      in if candidate \<in> set used then numbered_tag used candidate 2 else candidate)"

record merge_state =
  merged :: "(string, pyval) dict list"
  used_tags :: "string list"
  renames :: "(string, string) dict"

definition tag_of :: "(pyval \<Rightarrow> string) \<Rightarrow> (string, pyval) dict \<Rightarrow> string" where
  "tag_of show e = py_str show (vget e ''tag'')"

definition merge_one ::
  "(pyval \<Rightarrow> string) \<Rightarrow> string \<times> (string, pyval) dict \<Rightarrow> merge_state \<Rightarrow> cons_error + merge_state"
where
  "merge_one show p m =
     (let (core_id, item) = p; tag = py_str show (py_or (vget item ''tag'') (VStr []))
      in if tag = [] then Inl ConsolidationError
         else
           let (item', renames') =
                 (if tag \<in> set (used_tags m) then
                    let candidate = fresh_tag (used_tags m) core_id tag
                    in (dict_set ''tag'' (VStr candidate) item, dict_set (core_id @ '':'' @ tag) candidate (renames m))
                  else (item, renames m))
           in Inr \<lparr>merged = merged m @ [item'], used_tags = tag_of show item' # used_tags m, renames = renames'\<rparr>)"

fun merge_all ::
  "(pyval \<Rightarrow> string) \<Rightarrow> (string \<times> (string, pyval) dict) list \<Rightarrow> merge_state \<Rightarrow> cons_error + merge_state"
where
  "merge_all show [] m = Inr m"
| "merge_all show (p # ps) m = rbind (merge_one show p m) (merge_all show ps)"

definition merge_inbound_entries ::
  "(pyval \<Rightarrow> string) \<Rightarrow> (string, pyval) dict list \<Rightarrow> (string \<times> (string, pyval) dict) list
     \<Rightarrow> cons_error + (string, pyval) dict list \<times> (string, string) dict"
where
  "merge_inbound_entries show existing incoming =
     rbind (merge_all show incoming \<lparr>merged = existing, used_tags = map (tag_of show) existing, renames = []\<rparr>) (\<lambda>m.
       Inr (merged m, renames m))"

section \<open>Re-pointing grants\<close>

definition add_tag :: "string \<Rightarrow> string list \<Rightarrow> string list" where
  "add_tag t bucket = (if t \<in> set bucket then bucket else bucket @ [t])"

definition rename_of :: "(string, string) dict \<Rightarrow> string \<Rightarrow> string \<Rightarrow> string" where
  "rename_of rn core_id tag = (case dict_get rn (core_id @ '':'' @ tag) of None \<Rightarrow> tag | Some t \<Rightarrow> t)"

definition target_of :: "string \<Rightarrow> string" where
  "target_of core_id = (if core_id \<in> set MERGED_CORES then TARGET_CORE_ID else core_id)"

definition access_one ::
  "(string, string) dict \<Rightarrow> string \<times> string list \<Rightarrow> (string, string list) dict \<Rightarrow> (string, string list) dict"
where
  "access_one rn p out =
     (let (core_id, tags) = p; target = target_of core_id;
          bucket = (case dict_get out target of None \<Rightarrow> [] | Some b \<Rightarrow> b)
      in dict_set target (fold (\<lambda>tag. add_tag (rename_of rn core_id tag)) tags bucket) out)"

text \<open>Grants are \<open>{core_id: [tags]}\<close>, as the column stores them; \<^term>\<open>None\<close> is the SQL NULL.\<close>

definition merge_core_access ::
  "(string, string list) dict option \<Rightarrow> (string, string) dict \<Rightarrow> (string, string list) dict option"
where
  "merge_core_access access rn =
     (case access of None \<Rightarrow> None | Some a \<Rightarrow> Some (fold (access_one rn) a []))"

section \<open>Fresh tags\<close>

lemma numbered_tag_fresh: "numbered_tag used base n \<notin> set used"
proof (induction used base n rule: numbered_tag.induct)
  case (1 used base n)
  then show ?case by (subst numbered_tag.simps) (simp add: Let_def)
qed

lemma fresh_tag_fresh: "fresh_tag used core tag \<notin> set used"
  by (simp add: fresh_tag_def Let_def numbered_tag_fresh)

section \<open>The merged document\<close>

definition in_tag :: "(pyval \<Rightarrow> string) \<Rightarrow> (string, pyval) dict \<Rightarrow> string" where
  "in_tag show item = py_str show (py_or (vget item ''tag'') (VStr []))"

definition grant_key :: "(pyval \<Rightarrow> string) \<Rightarrow> string \<times> (string, pyval) dict \<Rightarrow> string" where
  "grant_key show p = fst p @ '':'' @ in_tag show (snd p)"

lemma in_tag_tag_of: "in_tag show item \<noteq> [] \<Longrightarrow> tag_of show item = in_tag show item"
  by (auto simp: in_tag_def tag_of_def py_or_def split: if_splits)

lemma tag_of_set: "tag_of show (dict_set ''tag'' (VStr t) item) = t"
  by (simp add: tag_of_def vget_def)

definition same_but_tag :: "(string, pyval) dict \<Rightarrow> (string, pyval) dict \<Rightarrow> bool" where
  "same_but_tag e e' \<longleftrightarrow> (\<forall>k. k \<noteq> ''tag'' \<longrightarrow> dict_get e' k = dict_get e k)"

lemma merge_one_spec:
  assumes "in_tag show (snd p) \<noteq> []" "set (used_tags m) = set (map (tag_of show) (merged m))"
  obtains item m' where "merge_one show p m = Inr m'" "merged m' = merged m @ [item]"
    "set (used_tags m') = set (map (tag_of show) (merged m'))" "tag_of show item \<notin> set (used_tags m)"
    "same_but_tag (snd p) item"
    "\<forall>k. dict_get (renames m') k = (if k = grant_key show p \<and> in_tag show (snd p) \<in> set (used_tags m)
       then Some (tag_of show item) else dict_get (renames m) k)"
    "in_tag show (snd p) \<in> set (used_tags m) \<or> tag_of show item = in_tag show (snd p)"
proof -
  obtain c e where p: "p = (c, e)" by (cases p)
  define t where "t = in_tag show e"
  have t: "t \<noteq> []" "py_str show (py_or (vget e ''tag'') (VStr [])) = t" using assms(1) by (simp_all add: p t_def in_tag_def)
  show ?thesis
  proof (cases "t \<in> set (used_tags m)")
    case True
    define new where "new = fresh_tag (used_tags m) c t"
    define m' where "m' = \<lparr>merged = merged m @ [dict_set ''tag'' (VStr new) e], used_tags = new # used_tags m,
      renames = dict_set (c @ '':'' @ t) new (renames m)\<rparr>"
    have fresh: "new \<notin> set (used_tags m)" unfolding new_def by (rule fresh_tag_fresh)
    show ?thesis
    proof (rule that [of m' "dict_set ''tag'' (VStr new) e"])
      show "merge_one show p m = Inr m'"
        using t True by (simp add: merge_one_def p m'_def new_def Let_def tag_of_set)
    qed (use True fresh assms(2) in \<open>simp_all add: m'_def tag_of_set same_but_tag_def grant_key_def p t_def\<close>)
  next
    case False
    define m' where "m' = \<lparr>merged = merged m @ [e], used_tags = t # used_tags m, renames = renames m\<rparr>"
    have e: "tag_of show e = t" using in_tag_tag_of t(1) by (simp add: t_def)
    show ?thesis
    proof (rule that [of m' e])
      show "merge_one show p m = Inr m'"
        using t False by (simp add: merge_one_def p m'_def Let_def e)
    qed (use False assms(2) e in \<open>auto simp: m'_def same_but_tag_def p t_def\<close>)
  qed
qed

lemma merge_all_spec:
  "\<lbrakk>\<forall>p \<in> set ps. in_tag show (snd p) \<noteq> []; set (used_tags m) = set (map (tag_of show) (merged m));
    distinct (map (tag_of show) (merged m)); distinct (map (grant_key show) ps);
    \<forall>p \<in> set ps. dict_get (renames m) (grant_key show p) = None\<rbrakk>
   \<Longrightarrow> \<exists>m' items. merge_all show ps m = Inr m' \<and> merged m' = merged m @ items \<and> length items = length ps \<and>
     distinct (map (tag_of show) (merged m')) \<and>
     (\<forall>k. k \<notin> grant_key show ` set ps \<longrightarrow> dict_get (renames m') k = dict_get (renames m) k) \<and>
     (\<forall>i < length ps. same_but_tag (snd (ps ! i)) (items ! i) \<and>
        tag_of show (items ! i) = rename_of (renames m') (fst (ps ! i)) (in_tag show (snd (ps ! i))))"
proof (induction ps arbitrary: m)
  case Nil
  then show ?case by simp
next
  case (Cons p ps)
  obtain item m1 where m1: "merge_one show p m = Inr m1" "merged m1 = merged m @ [item]"
    "set (used_tags m1) = set (map (tag_of show) (merged m1))" "tag_of show item \<notin> set (used_tags m)" "same_but_tag (snd p) item"
    "\<forall>k. dict_get (renames m1) k = (if k = grant_key show p \<and> in_tag show (snd p) \<in> set (used_tags m)
       then Some (tag_of show item) else dict_get (renames m) k)"
    "in_tag show (snd p) \<in> set (used_tags m) \<or> tag_of show item = in_tag show (snd p)"
    by (rule merge_one_spec [of "show" p m]) (use Cons.prems(1,2) in simp_all)
  have d1: "distinct (map (tag_of show) (merged m1))" using m1(2,4) Cons.prems(2,3) by auto
  have none: "\<forall>q \<in> set ps. dict_get (renames m1) (grant_key show q) = None"
    using m1(6) Cons.prems(4,5) by (auto simp: image_iff)
  obtain m2 items where r: "merge_all show ps m1 = Inr m2" "merged m2 = merged m1 @ items" "length items = length ps"
    "distinct (map (tag_of show) (merged m2))"
    "\<forall>k. k \<notin> grant_key show ` set ps \<longrightarrow> dict_get (renames m2) k = dict_get (renames m1) k"
    "\<forall>i < length ps. same_but_tag (snd (ps ! i)) (items ! i) \<and>
        tag_of show (items ! i) = rename_of (renames m2) (fst (ps ! i)) (in_tag show (snd (ps ! i)))"
    using Cons.IH [OF _ m1(3) d1 _ none] Cons.prems(1,4) by auto
  have key: "dict_get (renames m2) (grant_key show p) =
      (if in_tag show (snd p) \<in> set (used_tags m) then Some (tag_of show item) else None)"
    using r(5) m1(6) Cons.prems(4,5) by (auto simp: image_iff)
  have tag: "tag_of show item = rename_of (renames m2) (fst p) (in_tag show (snd p))"
    using key m1(7) by (auto simp: rename_of_def grant_key_def)
  show ?case
  proof (intro exI [of _ m2] exI [of _ "item # items"] conjI allI impI)
    show "merge_all show (p # ps) m = Inr m2" using m1(1) r(1) by simp
    show "merged m2 = merged m @ item # items" using m1(2) r(2) by simp
    show "length (item # items) = length (p # ps)" using r(3) by simp
    show "distinct (map (tag_of show) (merged m2))" by (rule r(4))
    fix k assume "k \<notin> grant_key show ` set (p # ps)"
    then show "dict_get (renames m2) k = dict_get (renames m) k" using r(5) m1(6) by simp
  next
    fix i assume i: "i < length (p # ps)"
    show "same_but_tag (snd ((p # ps) ! i)) ((item # items) ! i)" using m1(5) r(6) i by (cases i) auto
    show "tag_of show ((item # items) ! i) = rename_of (renames m2) (fst ((p # ps) ! i)) (in_tag show (snd ((p # ps) ! i)))"
      using tag r(6) i by (cases i) auto
  qed
qed

lemma merge_entries_spec:
  assumes "\<forall>p \<in> set incoming. in_tag show (snd p) \<noteq> []" "distinct (map (tag_of show) existing)"
    "distinct (map (grant_key show) incoming)"
  obtains items rn where "merge_inbound_entries show existing incoming = Inr (existing @ items, rn)"
    "length items = length incoming" "distinct (map (tag_of show) (existing @ items))"
    "\<forall>k. k \<notin> grant_key show ` set incoming \<longrightarrow> dict_get rn k = None"
    "\<forall>i < length incoming. same_but_tag (snd (incoming ! i)) (items ! i)"
    "\<forall>i < length incoming. tag_of show (items ! i) = rename_of rn (fst (incoming ! i)) (in_tag show (snd (incoming ! i)))"
proof -
  let ?m = "\<lparr>merged = existing, used_tags = map (tag_of show) existing, renames = []\<rparr>"
  obtain m' items where "merge_all show incoming ?m = Inr m'" "merged m' = merged ?m @ items" "length items = length incoming"
     "distinct (map (tag_of show) (merged m'))"
     "\<forall>k. k \<notin> grant_key show ` set incoming \<longrightarrow> dict_get (renames m') k = dict_get (renames ?m) k"
     "\<forall>i < length incoming. same_but_tag (snd (incoming ! i)) (items ! i) \<and>
        tag_of show (items ! i) = rename_of (renames m') (fst (incoming ! i)) (in_tag show (snd (incoming ! i)))"
    using merge_all_spec [OF assms(1), of ?m] assms(2,3) by auto
  then show ?thesis by (intro that [of items "renames m'"]) (simp_all add: merge_inbound_entries_def)
qed

section \<open>The grants\<close>

definition granted :: "(string, string list) dict \<Rightarrow> string \<Rightarrow> string \<Rightarrow> bool" where
  "granted access core tag \<longleftrightarrow> (\<exists>tags. (core, tags) \<in> set access \<and> tag \<in> set tags)"

definition bucket_of :: "(string, string list) dict \<Rightarrow> string \<Rightarrow> string list" where
  "bucket_of out core = (case dict_get out core of None \<Rightarrow> [] | Some b \<Rightarrow> b)"

lemma set_add_tags: "set (fold (\<lambda>tag. add_tag (f tag)) tags bucket) = set bucket \<union> f ` set tags"
  by (induction tags arbitrary: bucket) (auto simp: add_tag_def)

lemma bucket_access_one:
  "set (bucket_of (access_one rn (c, tags) out) core) =
     set (bucket_of out core) \<union> (if target_of c = core then rename_of rn c ` set tags else {})"
  by (auto simp: access_one_def bucket_of_def Let_def set_add_tags)

lemma bucket_access_fold:
  "set (bucket_of (fold (access_one rn) a out) core) =
     set (bucket_of out core) \<union> {rename_of rn c t |c t. target_of c = core \<and> granted a c t}"
proof (induction a arbitrary: out)
  case Nil
  then show ?case by (simp add: granted_def)
next
  case (Cons p a)
  obtain c tags where p: "p = (c, tags)" by (cases p)
  have g: "granted (p # a) c' t \<longleftrightarrow> c' = c \<and> t \<in> set tags \<or> granted a c' t" for c' t
    by (auto simp: granted_def p)
  show ?case unfolding g fold_Cons comp_apply Cons.IH unfolding p bucket_access_one by auto
qed

lemma dict_ok_access: "dict_ok out \<Longrightarrow> dict_ok (fold (access_one rn) a out)"
  by (induction a arbitrary: out) (auto simp: access_one_def Let_def)

lemma granted_bucket: "dict_ok out \<Longrightarrow> granted out core t \<longleftrightarrow> t \<in> set (bucket_of out core)"
  by (auto simp: granted_def bucket_of_def split: option.splits dest: map_of_SomeD)

lemma merge_core_access_granted:
  "merge_core_access (Some a) rn = Some out \<Longrightarrow>
    granted out core t' \<longleftrightarrow> (\<exists>c t. target_of c = core \<and> granted a c t \<and> t' = rename_of rn c t)"
proof -
  assume "merge_core_access (Some a) rn = Some out"
  then have out: "out = fold (access_one rn) a []" by (simp add: merge_core_access_def)
  have "granted out core t' \<longleftrightarrow> t' \<in> set (bucket_of out core)"
    unfolding out by (rule granted_bucket [OF dict_ok_access]) simp
  also have "\<dots> \<longleftrightarrow> t' \<in> {rename_of rn c t |c t. target_of c = core \<and> granted a c t}"
    unfolding out bucket_access_fold by (simp add: bucket_of_def)
  finally show ?thesis by blast
qed

text \<open>Grants of the merged cores, and of the target core, that point to inbounds which exist.\<close>

definition grants_exist ::
  "(pyval \<Rightarrow> string) \<Rightarrow> (string, pyval) dict list \<Rightarrow> (string \<times> (string, pyval) dict) list \<Rightarrow> (string, string list) dict \<Rightarrow> bool"
where
  "grants_exist show existing incoming access \<longleftrightarrow>
     (\<forall>tag. granted access TARGET_CORE_ID tag \<longrightarrow> tag \<in> set (map (tag_of show) existing)) \<and>
     (\<forall>core \<in> set MERGED_CORES. \<forall>tag. granted access core tag \<longrightarrow>
        (core, tag) \<in> set (map (\<lambda>(c, e). (c, in_tag show e)) incoming))"

lemma merged_core_colon: "core \<in> set MERGED_CORES \<Longrightarrow> CHR '':'' \<notin> set core"
  by (auto simp: MERGED_CORES_def)

lemma colon_split:
  "CHR '':'' \<notin> set a \<Longrightarrow> CHR '':'' \<notin> set b \<Longrightarrow> a @ '':'' @ x = b @ '':'' @ y \<Longrightarrow> a = b \<and> x = y"
proof (induction a arbitrary: b)
  case Nil
  then show ?case by (cases b) auto
next
  case (Cons c a)
  then show ?case by (cases b) auto
qed

lemma target_of_target: "target_of c = TARGET_CORE_ID \<longleftrightarrow> c \<in> set MERGED_CORES \<or> c = TARGET_CORE_ID"
  by (auto simp: target_of_def)

lemma rename_target_core:
  assumes "\<forall>p \<in> set incoming. fst p \<in> set MERGED_CORES" "\<forall>k. k \<notin> grant_key show ` set incoming \<longrightarrow> dict_get rn k = None"
  shows "rename_of rn TARGET_CORE_ID t = t"
proof -
  have "TARGET_CORE_ID @ '':'' @ t \<noteq> grant_key show p" if p: "p \<in> set incoming" for p
  proof
    assume eq: "TARGET_CORE_ID @ '':'' @ t = grant_key show p"
    have c: "fst p \<in> set MERGED_CORES" using assms(1) p by blast
    have "CHR '':'' \<notin> set TARGET_CORE_ID" by (simp add: TARGET_CORE_ID_def)
    then have "TARGET_CORE_ID = fst p"
      using colon_split [OF _ merged_core_colon [OF c] eq [unfolded grant_key_def]] by blast
    then have "TARGET_CORE_ID \<in> set MERGED_CORES" using c by simp
    then show False by (simp add: TARGET_CORE_ID_def MERGED_CORES_def)
  qed
  then have "TARGET_CORE_ID @ '':'' @ t \<notin> grant_key show ` set incoming" by blast
  then have "dict_get rn (TARGET_CORE_ID @ '':'' @ t) = None" using assms(2) by blast
  then show ?thesis by (simp only: rename_of_def option.case)
qed

text \<open>Who may use what on the target core afterwards.\<close>

lemma granted_after:
  assumes out: "merge_core_access (Some access) rn = Some out" and old: "\<And>t. rename_of rn TARGET_CORE_ID t = t"
    and gr: "grants_exist show existing incoming access" and cores: "\<forall>p \<in> set incoming. fst p \<in> set MERGED_CORES"
    and tags: "\<forall>i < length incoming. tag_of show (items ! i) = rename_of rn (fst (incoming ! i)) (in_tag show (snd (incoming ! i)))"
  shows "granted out TARGET_CORE_ID t' \<longleftrightarrow> granted access TARGET_CORE_ID t' \<or>
    (\<exists>i < length incoming. granted access (fst (incoming ! i)) (in_tag show (snd (incoming ! i))) \<and> t' = tag_of show (items ! i))"
    (is "_ \<longleftrightarrow> _ \<or> ?R")
proof
  assume "granted out TARGET_CORE_ID t'"
  then obtain c t where ct: "c \<in> set MERGED_CORES \<or> c = TARGET_CORE_ID" "granted access c t" "t' = rename_of rn c t"
    unfolding merge_core_access_granted [OF out] target_of_target by blast
  show "granted access TARGET_CORE_ID t' \<or> ?R"
  proof (cases "c = TARGET_CORE_ID")
    case True
    then show ?thesis using ct(2,3) old by simp
  next
    case False
    then have "(c, t) \<in> set (map (\<lambda>(c, e). (c, in_tag show e)) incoming)" using gr ct(1,2) unfolding grants_exist_def by blast
    then obtain i where i: "i < length incoming" "fst (incoming ! i) = c" "in_tag show (snd (incoming ! i)) = t"
      by (auto simp: in_set_conv_nth case_prod_beta)
    then have "t' = tag_of show (items ! i)" using ct(3) tags by simp
    then have ?R using i ct(2) by (intro exI [of _ i]) simp
    then show ?thesis ..
  qed
next
  assume "granted access TARGET_CORE_ID t' \<or> ?R"
  then show "granted out TARGET_CORE_ID t'"
  proof
    assume "granted access TARGET_CORE_ID t'"
    then show ?thesis
      unfolding merge_core_access_granted [OF out] target_of_target
      by (intro exI [of _ TARGET_CORE_ID] exI [of _ t']) (simp add: old)
  next
    assume ?R
    then obtain i where i: "i < length incoming" "granted access (fst (incoming ! i)) (in_tag show (snd (incoming ! i)))"
      "t' = tag_of show (items ! i)" by blast
    have "fst (incoming ! i) \<in> set MERGED_CORES" using cores i(1) by simp
    then show ?thesis
      unfolding merge_core_access_granted [OF out] target_of_target using i tags by blast
  qed
qed

text \<open>
  Consolidation keeps the meaning of grants. The existing inbounds stay in place with their tags, each
  migrated inbound keeps its fields up to its tag, all tags of the merged document are distinct,
  and after re-pointing a user may use a migrated inbound exactly when the user could use it on its old
  core, and an old sing-box inbound exactly when the user could before.
\<close>
lemma consolidation_grants_follow_inbounds:
  assumes cores: "\<forall>p \<in> set incoming. fst p \<in> set MERGED_CORES \<and> in_tag show (snd p) \<noteq> []"
    and ex: "distinct (map (tag_of show) existing)" and keys: "distinct (map (grant_key show) incoming)"
    and gr: "grants_exist show existing incoming access"
  shows "\<exists>items rn out. merge_inbound_entries show existing incoming = Inr (existing @ items, rn) \<and>
    merge_core_access (Some access) rn = Some out \<and> length items = length incoming \<and>
    distinct (map (tag_of show) (existing @ items)) \<and>
    (\<forall>i < length incoming. same_but_tag (snd (incoming ! i)) (items ! i) \<and>
       (granted out TARGET_CORE_ID (tag_of show (items ! i)) \<longleftrightarrow>
        granted access (fst (incoming ! i)) (in_tag show (snd (incoming ! i))))) \<and>
    (\<forall>e \<in> set existing. granted out TARGET_CORE_ID (tag_of show e) \<longleftrightarrow> granted access TARGET_CORE_ID (tag_of show e))"
proof -
  have cores': "\<forall>p \<in> set incoming. fst p \<in> set MERGED_CORES" "\<forall>p \<in> set incoming. in_tag show (snd p) \<noteq> []" using cores by blast+
  obtain items rn where m: "merge_inbound_entries show existing incoming = Inr (existing @ items, rn)"
    "length items = length incoming" "distinct (map (tag_of show) (existing @ items))"
    "\<forall>k. k \<notin> grant_key show ` set incoming \<longrightarrow> dict_get rn k = None"
    "\<forall>i < length incoming. same_but_tag (snd (incoming ! i)) (items ! i)"
    "\<forall>i < length incoming. tag_of show (items ! i) = rename_of rn (fst (incoming ! i)) (in_tag show (snd (incoming ! i)))"
    by (rule merge_entries_spec [OF cores'(2) ex keys])
  obtain out where out: "merge_core_access (Some access) rn = Some out" by (simp add: merge_core_access_def)
  note after = granted_after [OF out rename_target_core [OF cores'(1) m(4)] gr cores'(1) m(6)]
  have ne: "tag_of show (items ! i) \<notin> set (map (tag_of show) existing)" if "i < length incoming" for i
  proof -
    have "items ! i \<in> set items" using that m(2) by simp
    then show ?thesis using m(3) by (auto simp: image_iff)
  qed
  have inj: "i = j" if "i < length incoming" "j < length incoming" "tag_of show (items ! i) = tag_of show (items ! j)" for i j
    using nth_eq_iff_index_eq [of "map (tag_of show) items" i j] m(2,3) that by simp
  have "granted out TARGET_CORE_ID (tag_of show (items ! i)) \<longleftrightarrow> granted access (fst (incoming ! i)) (in_tag show (snd (incoming ! i)))"
    if i: "i < length incoming" for i
  proof
    assume "granted out TARGET_CORE_ID (tag_of show (items ! i))"
    moreover have "\<not> granted access TARGET_CORE_ID (tag_of show (items ! i))" using gr ne [OF i] unfolding grants_exist_def by blast
    ultimately obtain j where "j < length incoming" "granted access (fst (incoming ! j)) (in_tag show (snd (incoming ! j)))"
        "tag_of show (items ! i) = tag_of show (items ! j)" unfolding after by blast
    then show "granted access (fst (incoming ! i)) (in_tag show (snd (incoming ! i)))" using inj [OF i] by blast
  next
    assume "granted access (fst (incoming ! i)) (in_tag show (snd (incoming ! i)))"
    then show "granted out TARGET_CORE_ID (tag_of show (items ! i))" unfolding after using i by blast
  qed
  moreover have "granted out TARGET_CORE_ID (tag_of show e) \<longleftrightarrow> granted access TARGET_CORE_ID (tag_of show e)" if "e \<in> set existing" for e
  proof -
    have "tag_of show e \<noteq> tag_of show (items ! i)" if "i < length incoming" for i using ne [OF that] \<open>e \<in> set existing\<close> by (metis imageI set_map)
    then show ?thesis unfolding after by blast
  qed
  ultimately show ?thesis
    by (intro exI [of _ items] exI [of _ rn] exI [of _ out] conjI allI impI ballI) (use m(1,2,3,5) out in blast)+
qed

definition ex_show :: "pyval \<Rightarrow> string" where "ex_show v = ''?''"

definition ex_inbound :: "string \<Rightarrow> (string, pyval) dict" where
  "ex_inbound tag = [(''tag'', VStr tag), (''port'', VInt 443)]"

lemma consolidation_grants_follow_inbounds_example:
  "\<exists>items rn out. merge_inbound_entries ex_show [ex_inbound ''hy'']
      [(''hysteria2'', ex_inbound ''hy''), (''tuic'', ex_inbound ''hy'')] = Inr (ex_inbound ''hy'' # items, rn) \<and>
    merge_core_access (Some [(''tuic'', [''hy''])]) rn = Some out \<and>
    granted out ''sing-box'' (tag_of ex_show (items ! 1)) \<and> \<not> granted out ''sing-box'' ''hy''"
proof -
  let ?inc = "[(''hysteria2'', ex_inbound ''hy''), (''tuic'', ex_inbound ''hy'')]"
  have tag: "in_tag ex_show (ex_inbound t) = t" "tag_of ex_show (ex_inbound t) = t" for t
    by (simp_all add: in_tag_def tag_of_def ex_inbound_def vget_def py_or_def)
  have gr: "grants_exist ex_show [ex_inbound ''hy''] ?inc [(''tuic'', [''hy''])]"
    by (auto simp: grants_exist_def granted_def TARGET_CORE_ID_def MERGED_CORES_def tag)
  obtain items rn out where r: "merge_inbound_entries ex_show [ex_inbound ''hy''] ?inc = Inr ([ex_inbound ''hy''] @ items, rn)"
    "merge_core_access (Some [(''tuic'', [''hy''])]) rn = Some out"
    "\<forall>i < length ?inc. same_but_tag (snd (?inc ! i)) (items ! i) \<and>
       (granted out TARGET_CORE_ID (tag_of ex_show (items ! i)) \<longleftrightarrow>
        granted [(''tuic'', [''hy''])] (fst (?inc ! i)) (in_tag ex_show (snd (?inc ! i))))"
    "\<forall>e \<in> set [ex_inbound ''hy'']. granted out TARGET_CORE_ID (tag_of ex_show e) \<longleftrightarrow>
       granted [(''tuic'', [''hy''])] TARGET_CORE_ID (tag_of ex_show e)"
    using consolidation_grants_follow_inbounds [OF _ _ _ gr] by (auto simp: MERGED_CORES_def grant_key_def tag)
  have "granted [(''tuic'', [''hy''])] ''tuic'' ''hy''" "\<not> granted [(''tuic'', [''hy''])] ''sing-box'' ''hy''"
    by (simp_all add: granted_def)
  then show ?thesis using r(1,2) r(3) [rule_format, of 1] r(4) by (auto simp: tag TARGET_CORE_ID_def)
qed

end
