(* ===== verification/Ports.thy ===== *)
theory Ports
  imports PyValue
begin

text \<open>
  \<open>app/studio/ports.py\<close>: the listen-port suggestion of the wizard. The random generator is the
  stream of its draws, with the documented range of \<open>randint\<close> as a hypothesis; files under
  \<open>/proc\<close> are their text, or \<^term>\<open>None\<close> when reading raises \<open>OSError\<close>.
\<close>

definition PORT_MIN :: int where "PORT_MIN = 10000"
definition PORT_MAX :: int where "PORT_MAX = 65535"

section \<open>Text functions of the language\<close>

text \<open>\<open>text.splitlines()\<close> on ASCII text; a final separator does not start another line.\<close>

definition line_break :: "char \<Rightarrow> bool" where
  "line_break c \<longleftrightarrow> (let n = (of_char c :: nat) in (10 \<le> n \<and> n \<le> 13) \<or> (28 \<le> n \<and> n \<le> 30))"

fun splitlines :: "string \<Rightarrow> string \<Rightarrow> string list" where
  "splitlines acc [] = (if acc = [] then [] else [rev acc])"
| "splitlines acc (c # cs) =
     (if line_break c then
        (case cs of
           d # ds \<Rightarrow> if of_char c = (13 :: nat) \<and> of_char d = (10 :: nat) then rev acc # splitlines [] ds
                     else rev acc # splitlines [] cs
         | [] \<Rightarrow> [rev acc])
      else splitlines (c # acc) cs)"

text \<open>\<open>line.split()\<close>: the maximal runs without white space.\<close>

fun split_ws :: "string \<Rightarrow> string \<Rightarrow> string list" where
  "split_ws acc [] = (if acc = [] then [] else [rev acc])"
| "split_ws acc (c # cs) =
     (if is_space c then (if acc = [] then split_ws [] cs else rev acc # split_ws [] cs) else split_ws (c # acc) cs)"

text \<open>\<open>s.rsplit(':', 1)[1]\<close>; without a colon the index raises.\<close>

definition after_colon :: "string \<Rightarrow> string option" where
  "after_colon s = (if CHR '':'' \<in> set s then Some (rev (takeWhile (\<lambda>c. c \<noteq> CHR '':'') (rev s))) else None)"

text \<open>\<open>int(s, 16)\<close>: white space around it, a sign, the prefix \<open>0x\<close> and single underscores are allowed.\<close>

definition hex_val :: "char \<Rightarrow> int option" where
  "hex_val c =
     (let n = (of_char c :: nat)
      in if 48 \<le> n \<and> n \<le> 57 then Some (int n - 48)
         else if 97 \<le> n \<and> n \<le> 102 then Some (int n - 87)
         else if 65 \<le> n \<and> n \<le> 70 then Some (int n - 55)
         else None)"

fun hex_digits :: "int \<Rightarrow> bool \<Rightarrow> string \<Rightarrow> int option" where
  "hex_digits acc prev_digit [] = (if prev_digit then Some acc else None)"
| "hex_digits acc prev_digit (c # cs) =
     (case hex_val c of
        Some d \<Rightarrow> hex_digits (16 * acc + d) True cs
      | None \<Rightarrow> if c = CHR ''_'' \<and> prev_digit then hex_digits acc False cs else None)"

definition hex_body :: "string \<Rightarrow> int option" where
  "hex_body s =
     (case s of
        z # x # rest \<Rightarrow>
          if z = CHR ''0'' \<and> (x = CHR ''x'' \<or> x = CHR ''X'')
          then hex_digits 0 False (case rest of u # us \<Rightarrow> (if u = CHR ''_'' then us else rest) | [] \<Rightarrow> rest)
          else hex_digits 0 False s
      | _ \<Rightarrow> hex_digits 0 False s)"

definition int_of_hex :: "string \<Rightarrow> int option" where
  "int_of_hex s =
     (case py_strip s of
        c # cs \<Rightarrow>
          if c = CHR ''-'' then map_option uminus (hex_body cs)
          else if c = CHR ''+'' then hex_body cs else hex_body (c # cs)
      | [] \<Rightarrow> None)"

section \<open>Ports in use\<close>

definition row_port :: "string \<Rightarrow> int option" where
  "row_port line =
     (let parts = split_ws [] line
      in if length parts < 4 then None
         else let local = parts ! 1; state = parts ! 3
              in case Option.bind (after_colon local) int_of_hex of
                   None \<Rightarrow> None
                 | Some port \<Rightarrow>
                     if state = ''0A'' \<or> state \<notin> {''0A''} then (if 0 < port \<and> port \<le> 65535 then Some port else None)
                     else None)"

definition parse_proc_net_listeners :: "string \<Rightarrow> int list" where
  "parse_proc_net_listeners text = remdups (List.map_filter row_port (drop 1 (splitlines [] text)))"

definition host_listening_ports :: "string option list \<Rightarrow> int set" where
  "host_listening_ports files =
     fold (\<lambda>f out. case f of None \<Rightarrow> out | Some text \<Rightarrow> out \<union> set (parse_proc_net_listeners text)) files {}"

fun inbound_items :: "pyval \<Rightarrow> py_error + pyval list" where
  "inbound_items (VList xs) = Inr xs"
| "inbound_items (VStr s) = Inr (map (\<lambda>c. VStr [c]) s)"
| "inbound_items (VDict d) = Inr (map (\<lambda>(k, v). VStr k) d)"
| "inbound_items _ = Inl TypeError"

definition item_port :: "pyval \<Rightarrow> int option" where
  "item_port item =
     (case item of
        VDict d \<Rightarrow> (case py_int (vget d ''port'') of Inr p \<Rightarrow> Some p | Inl _ \<Rightarrow> None)
      | _ \<Rightarrow> None)"

text \<open>The studio documents by core; \<^term>\<open>None\<close> where the store raises.\<close>

fun studio_used_ports :: "(string \<times> (string, pyval) dict option option) list \<Rightarrow> int list \<Rightarrow> py_error + int list" where
  "studio_used_ports [] used = Inr used"
| "studio_used_ports ((core_id, None) # rest) used = studio_used_ports rest used"
| "studio_used_ports ((core_id, Some doc) # rest) used =
     (let d = (case doc of None \<Rightarrow> [] | Some x \<Rightarrow> x)
      in rbind (inbound_items (py_or (vget d ''inbounds'') (VList []))) (\<lambda>items.
           studio_used_ports rest (fold List.insert (List.map_filter item_port items) used)))"

section \<open>The suggestion\<close>

datatype port_error = NoFreePort

definition first_free :: "int list \<Rightarrow> int list \<Rightarrow> int option" where
  "first_free skip candidates = List.find (\<lambda>c. c \<notin> set skip) candidates"

definition probe_sequence :: "int \<Rightarrow> int \<Rightarrow> int \<Rightarrow> int list" where
  "probe_sequence start lo hi =
     (let span = hi - lo + 1 in map (\<lambda>step. lo + ((start - lo + step) mod span)) [0..span - 1])"

definition suggest_port :: "int list \<Rightarrow> (nat \<Rightarrow> int) \<Rightarrow> int \<Rightarrow> int \<Rightarrow> port_error + int" where
  "suggest_port excluded draw lo hi =
     (case first_free excluded (map draw [0..<64]) of
        Some candidate \<Rightarrow> Inr candidate
      | None \<Rightarrow>
          (case first_free excluded (probe_sequence (draw 64) lo hi) of
             Some candidate \<Rightarrow> Inr candidate
           | None \<Rightarrow> Inl NoFreePort))"

section \<open>Properties\<close>

lemma find_Some_in: "List.find P xs = Some x \<Longrightarrow> x \<in> set xs \<and> P x"
  by (auto simp: find_Some_iff)

lemma probe_sequence_set:
  assumes "lo \<le> hi"
  shows "set (probe_sequence start lo hi) = {lo..hi}"
proof -
  let ?n = "hi - lo + 1"
  have n: "0 < ?n" using assms by simp
  have "p \<in> (\<lambda>step. lo + (start - lo + step) mod ?n) ` {0..?n - 1}" if "p \<in> {lo..hi}" for p
  proof (rule image_eqI [of _ _ "(p - start) mod ?n"])
    have "(start - lo + (p - start) mod ?n) mod ?n = (p - lo) mod ?n" by (simp add: mod_add_right_eq)
    also have "\<dots> = p - lo" using that by (intro mod_pos_pos_trivial) auto
    finally show "p = lo + (start - lo + (p - start) mod ?n) mod ?n" by simp
    show "(p - start) mod ?n \<in> {0..?n - 1}" 
      using pos_mod_sign [OF n, of "p - start"] pos_mod_bound [OF n, of "p - start"] unfolding atLeastAtMost_iff by linarith
  qed
  moreover have "lo + (start - lo + step) mod ?n \<in> {lo..hi}" for step
    using pos_mod_sign [OF n, of "start - lo + step"] pos_mod_bound [OF n, of "start - lo + step"]
    unfolding atLeastAtMost_iff by linarith
  ultimately show ?thesis unfolding probe_sequence_def Let_def set_map set_upto by blast
qed

text \<open>
  C40: Whatever the draws within the range, the suggestion is a port of the range that is not excluded, as
  long as one exists, and the error is raised exactly when every port of the range is excluded.
\<close>
theorem suggest_port_finds_free_port:
  assumes "lo \<le> hi" "\<And>i. lo \<le> draw i \<and> draw i \<le> hi"
  shows "(case suggest_port excluded draw lo hi of
      Inr p \<Rightarrow> lo \<le> p \<and> p \<le> hi \<and> p \<notin> set excluded
    | Inl e \<Rightarrow> {lo..hi} \<subseteq> set excluded) \<and>
    (suggest_port excluded draw lo hi = Inl NoFreePort \<longleftrightarrow> {lo..hi} \<subseteq> set excluded)"
proof (cases "first_free excluded (map draw [0..<64])")
  case (Some p)
  then have p: "p \<in> draw ` {0..<64}" "p \<notin> set excluded" by (auto simp: first_free_def dest: find_Some_in)
  then have "lo \<le> p" "p \<le> hi" using assms(2) by auto
  then show ?thesis using p Some by (auto simp: suggest_port_def)
next
  case None
  note seq = probe_sequence_set [OF assms(1), of "draw 64"]
  show ?thesis
  proof (cases "first_free excluded (probe_sequence (draw 64) lo hi)")
    case (Some p)
    then have "p \<in> {lo..hi}" "p \<notin> set excluded" using seq by (auto simp: first_free_def dest: find_Some_in)
    then show ?thesis using None Some by (auto simp: suggest_port_def)
  next
    case probe: None
    then have "{lo..hi} \<subseteq> set excluded" using seq by (auto simp: first_free_def find_None_iff)
    then show ?thesis using None probe by (simp add: suggest_port_def)
  qed
qed

theorem suggest_port_finds_free_port_witness:
  "suggest_port [10, 11, 12] (\<lambda>_. 11) 10 13 = Inr 13 \<and> (13 :: int) \<notin> set [10, 11, 12]"
proof -
  have "suggest_port [10, 11, 12] (\<lambda>_. 11) 10 13 = Inr 13" by code_simp
  then show ?thesis using suggest_port_finds_free_port [of 10 13 "\<lambda>_. 11" "[10, 11, 12]"] by simp
qed

text \<open>
  The docstring of the parser speaks of listening sockets only, but its test of the state column
  holds for every state: an established connection (state \<open>01\<close>) counts as a bound port.
\<close>

lemma established_rows_are_counted:
  "row_port ''  1: 0100007F:C350 0100007F:1F90 01 00000000:00000000'' = Some 50000"
  by code_simp

end
