(* ===== verification/Matrix.thy ===== *)
theory Matrix
  imports PyValue
begin

text \<open>
  \<open>app/cores/matrix.py\<close>: the capability matrix of the cores and the source-to-target routing matrix.
  A cell is its state and its detail text (with the long dash of the source written as \<open>-\<close>); the
  JSON dump of a cell is the cell.
\<close>

section \<open>The tables\<close>

datatype availability = SUPPORTED | UNSUPPORTED | ENVIRONMENT_LIMITED | NOT_APPLICABLE | NOT_INSTALLED

record cell_view =
  state :: availability
  detail :: string

definition cell :: "availability \<Rightarrow> string \<Rightarrow> cell_view" where
  "cell st d = \<lparr>state = st, detail = d\<rparr>"

definition FEATURES :: "string list" where
  "FEATURES = [''inbound'', ''outbound'', ''routing_source'', ''routing_destination'', ''tun'', ''traffic_accounting'', ''host_settings'', ''subscription'', ''tls'', ''version_probe'', ''node_support'']"

definition PROFILES :: "(string, (string, cell_view) dict) dict" where
  "PROFILES =
     [(''xray'',
        [(''inbound'', cell SUPPORTED ''Config Studio inbounds + Xray renderer''),
         (''outbound'', cell SUPPORTED ''native Xray deploy_outbounds renderer''),
         (''routing_source'', cell SUPPORTED ''native Xray routing rules''),
         (''routing_destination'', cell SUPPORTED ''native named Xray outbounds''),
         (''tun'', cell NOT_APPLICABLE ''Xray routing is in-process; shared host TUN is provided by sing-box''),
         (''traffic_accounting'', cell SUPPORTED ''gRPC per-account counters''),
         (''host_settings'', cell SUPPORTED ''legacy Xray host expansion''),
         (''subscription'', cell SUPPORTED ''driver delivery descriptors + share links''),
         (''tls'', cell SUPPORTED ''TLS/REALITY inbound renderer''),
         (''version_probe'', cell SUPPORTED ''binary/legacy adapter version probe''),
         (''node_support'', cell SUPPORTED ''native signed Zagros node agent; legacy Xray path remains migration-only'')]),
      (''sing-box'',
        [(''inbound'', cell SUPPORTED ''Config Studio + sing-box renderer''),
         (''outbound'', cell SUPPORTED ''native sing-box deploy_outbounds renderer''),
         (''routing_source'', cell SUPPORTED ''native sing-box route rules''),
         (''routing_destination'', cell SUPPORTED ''native named sing-box outbounds''),
         (''tun'', cell SUPPORTED ''shared Linux policy TUN adapter''),
         (''traffic_accounting'', cell SUPPORTED ''V2Ray-compatible traffic stats adapter''),
         (''host_settings'', cell SUPPORTED ''core-host delivery expansion''),
         (''subscription'', cell SUPPORTED ''driver delivery descriptors + share links''),
         (''tls'', cell SUPPORTED ''TLS/REALITY inbound renderer''),
         (''version_probe'', cell SUPPORTED ''sing-box version command''),
         (''node_support'', cell SUPPORTED ''native signed Zagros node agent reuses this CoreManager adapter'')]),
      (''openvpn'',
        [(''inbound'', cell SUPPORTED ''real OpenVPN server listener processes''),
         (''outbound'', cell SUPPORTED ''real OpenVPN client policy domain''),
         (''routing_source'', cell SUPPORTED ''source subnet classification in Linux policy plane''),
         (''routing_destination'', cell SUPPORTED ''isolated OpenVPN client interface/table''),
         (''tun'', cell SUPPORTED ''OpenVPN tun client interface''),
         (''traffic_accounting'', cell SUPPORTED ''management interface/session counters''),
         (''host_settings'', cell SUPPORTED ''core-host delivery expansion''),
         (''subscription'', cell SUPPORTED ''OpenVPN profile delivery''),
         (''tls'', cell SUPPORTED ''OpenVPN PKI/TLS''),
         (''version_probe'', cell SUPPORTED ''openvpn --version''),
         (''node_support'', cell SUPPORTED ''native signed Zagros node agent reuses this CoreManager adapter'')]),
      (''wireguard'',
        [(''inbound'', cell SUPPORTED ''real kernel WireGuard interfaces''),
         (''outbound'', cell SUPPORTED ''real WireGuard client policy domain''),
         (''routing_source'', cell SUPPORTED ''source subnet classification in Linux policy plane''),
         (''routing_destination'', cell SUPPORTED ''isolated WireGuard interface/table''),
         (''tun'', cell SUPPORTED ''kernel WireGuard interface''),
         (''traffic_accounting'', cell SUPPORTED ''wg peer transfer counters''),
         (''host_settings'', cell SUPPORTED ''core-host delivery expansion''),
         (''subscription'', cell SUPPORTED ''WireGuard profile delivery''),
         (''tls'', cell NOT_APPLICABLE ''WireGuard uses NoiseIK, not TLS''),
         (''version_probe'', cell SUPPORTED ''wg --version parser''),
         (''node_support'', cell SUPPORTED ''native signed Zagros node agent reuses this CoreManager adapter'')]),
      (''ssh'',
        [(''inbound'', cell SUPPORTED ''real OpenSSH listener/account management''),
         (''outbound'', cell SUPPORTED ''managed OpenSSH dynamic-forward TCP application proxy''),
         (''routing_source'', cell SUPPORTED ''per-UID TCP classification in Linux policy plane''),
         (''routing_destination'', cell ENVIRONMENT_LIMITED ''TCP application-level SOCKS only; not a policy TUN''),
         (''tun'', cell UNSUPPORTED ''OpenSSH dynamic forwarding does not provide an IP TUN dataplane''),
         (''traffic_accounting'', cell SUPPORTED ''SFTP/SCP stream counters + per-UID bidirectional conntrack forwarding counters''),
         (''host_settings'', cell SUPPORTED ''core-host delivery expansion''),
         (''subscription'', cell SUPPORTED ''SSH credential/config delivery''),
         (''tls'', cell NOT_APPLICABLE ''SSH transport is not TLS''),
         (''version_probe'', cell SUPPORTED ''sshd -V parser''),
         (''node_support'', cell SUPPORTED ''native signed Zagros node agent reuses this CoreManager adapter'')]),
      (''softether'',
        [(''inbound'', cell SUPPORTED ''vpnserver/vpncmd hub features''),
         (''outbound'', cell SUPPORTED ''dedicated native vpnclient account + Virtual NIC per outbound''),
         (''routing_source'', cell SUPPORTED ''isolated routed Hub/TAP source subnet''),
         (''routing_destination'', cell SUPPORTED ''native vpnclient namespace/table policy domain''),
         (''tun'', cell SUPPORTED ''vpnclient TAP Virtual NIC behind an isolated namespace gateway''),
         (''traffic_accounting'', cell SUPPORTED ''vpncmd user/session counters''),
         (''host_settings'', cell SUPPORTED ''core-host delivery expansion''),
         (''subscription'', cell SUPPORTED ''L2TP/SSTP/OpenVPN/native delivery descriptors''),
         (''tls'', cell SUPPORTED ''native SoftEther/SSTP TLS server''),
         (''version_probe'', cell SUPPORTED ''vpncmd version parser''),
         (''node_support'', cell SUPPORTED ''native signed Zagros node agent reuses this CoreManager adapter'')]),
      (''pptp'',
        [(''inbound'', cell SUPPORTED ''independent ACCEL-PPP PPTP server - Legacy / Insecure''),
         (''outbound'', cell SUPPORTED ''independent pptp-linux/pppd policy domain - Legacy / Insecure''),
         (''routing_source'', cell SUPPORTED ''ACCEL-PPP assigned IPv4 subnet classification in Linux policy plane''),
         (''routing_destination'', cell SUPPORTED ''namespace-isolated pptp-linux/PPP interface and policy table''),
         (''tun'', cell SUPPORTED ''independent outbound PPP interface; never a SoftEther mode''),
         (''traffic_accounting'', cell SUPPORTED ''ACCEL-PPP raw session counters + pppd_compat final ledger''),
         (''host_settings'', cell SUPPORTED ''existing core-host delivery expansion''),
         (''subscription'', cell SUPPORTED ''existing sealed delivery descriptors with legacy warning''),
         (''tls'', cell NOT_APPLICABLE ''PPTP uses GRE and MPPE, not TLS''),
         (''version_probe'', cell SUPPORTED ''pinned accel-pppd --version''),
         (''node_support'', cell UNSUPPORTED ''remote PPTP node deployment is not implemented'')])]"

section \<open>The capability matrix\<close>

text \<open>\<open>_PROFILES[core_id][feature]\<close> raises \<open>KeyError\<close> when the feature is missing.\<close>

definition refine_cell :: "string set option \<Rightarrow> string \<Rightarrow> cell_view \<Rightarrow> cell_view" where
  "refine_cell installed core_id c =
     (case installed of
        Some ins \<Rightarrow>
          if core_id \<notin> ins \<and> (state c = SUPPORTED \<or> state c = ENVIRONMENT_LIMITED)
          then cell NOT_INSTALLED (core_id @ '' is not installed; implementation: '' @ detail c) else c
      | None \<Rightarrow> c)"

fun matrix_row ::
  "string set option \<Rightarrow> string \<Rightarrow> (string, cell_view) dict \<Rightarrow> string list \<Rightarrow> (string, cell_view) dict \<Rightarrow> py_error + (string, cell_view) dict"
where
  "matrix_row installed core_id profile [] cells = Inr cells"
| "matrix_row installed core_id profile (f # fs) cells =
     (case dict_get profile f of
        None \<Rightarrow> Inl KeyError
      | Some c \<Rightarrow> matrix_row installed core_id profile fs (dict_set f (refine_cell installed core_id c) cells))"

fun matrix_rows ::
  "string set option \<Rightarrow> string list \<Rightarrow> (string, (string, cell_view) dict) dict \<Rightarrow> py_error + (string, (string, cell_view) dict) dict"
where
  "matrix_rows installed [] result = Inr result"
| "matrix_rows installed (core_id # ids) result =
     (case dict_get PROFILES core_id of
        None \<Rightarrow> matrix_rows installed ids result
      | Some profile \<Rightarrow>
          rbind (matrix_row installed core_id profile FEATURES []) (\<lambda>cells.
            matrix_rows installed ids (dict_set core_id cells result)))"

definition capability_matrix ::
  "string list option \<Rightarrow> string set option \<Rightarrow> py_error + (string, (string, cell_view) dict) dict"
where
  "capability_matrix core_ids installed =
     matrix_rows installed (case core_ids of Some ids \<Rightarrow> ids | None \<Rightarrow> dict_keys PROFILES) []"

section \<open>The routing matrix\<close>

definition ROUTING_CORES :: "string list" where
  "ROUTING_CORES = [''xray'', ''sing-box'', ''openvpn'', ''wireguard'', ''ssh'', ''softether'', ''pptp'']"

definition APPLICATION_SOURCES :: "string list" where
  "APPLICATION_SOURCES = [''xray'', ''sing-box'']"

definition TUN_DESTINATIONS :: "string list" where
  "TUN_DESTINATIONS = [''xray'', ''sing-box'', ''openvpn'', ''wireguard'', ''softether'', ''pptp'']"

definition pair_state :: "string \<Rightarrow> string \<Rightarrow> availability \<times> string" where
  "pair_state source target =
     (if target \<in> set TUN_DESTINATIONS then
        (SUPPORTED, source @ '' source reaches a '' @ target @ ''-executed named outbound through native application routing or the shared policy TUN'')
      else if target = ''ssh'' \<and> source \<in> set APPLICATION_SOURCES then
        (SUPPORTED, source @ '' native TCP rules can use the managed OpenSSH SOCKS application proxy; UDP and generic TUN are excluded'')
      else if target = ''ssh'' then
        (UNSUPPORTED, source @ '' is not a native application source; SSH dynamic forwarding is not an IP/UDP TUN target'')
      else (UNSUPPORTED, ''SoftEther server is a routing source only; Zagros has no validated vpnclient/client-adapter destination''))"

definition py_list_repr :: "string list \<Rightarrow> string" where
  "py_list_repr xs = ''['' @ join_with '', '' (map (\<lambda>x. [CHR 0x27] @ x @ [CHR 0x27]) xs) @ '']''"

definition pair_cell :: "string list option \<Rightarrow> string \<Rightarrow> string \<Rightarrow> cell_view" where
  "pair_cell installed source target =
     (let (st, d) = pair_state source target
      in case installed of
           Some ins \<Rightarrow>
             if st = SUPPORTED \<and> (source \<notin> set ins \<or> target \<notin> set ins)
             then let missing = filter (\<lambda>c. c \<notin> set ins) (sort (remdups [source, target]))
                  in cell NOT_INSTALLED (''runtime core(s) not installed: '' @ py_list_repr missing @ ''; implementation: '' @ d)
             else cell st d
         | None \<Rightarrow> cell st d)"

definition routing_pair_matrix :: "string list option \<Rightarrow> (string, (string, cell_view) dict) dict" where
  "routing_pair_matrix installed =
     map (\<lambda>source. (source, map (\<lambda>target. (target, pair_cell installed source target)) ROUTING_CORES)) ROUTING_CORES"

section \<open>Properties\<close>

lemma profiles_complete: "list_all (\<lambda>(core, p). map fst p = FEATURES) PROFILES"
  by (simp add: PROFILES_def FEATURES_def)

lemma features_distinct: "distinct FEATURES"
  by (simp add: FEATURES_def)

lemma profile_keys: "dict_get PROFILES core = Some p \<Longrightarrow> map fst p = FEATURES"
  using profiles_complete by (auto simp: list_all_iff dest!: map_of_SomeD)

lemma matrix_row_spec:
  "set fs \<subseteq> fst ` set profile \<Longrightarrow> \<exists>cells'. matrix_row installed core profile fs cells = Inr cells' \<and>
     (\<forall>f. dict_get cells' f = (if f \<in> set fs then map_option (refine_cell installed core) (dict_get profile f) else dict_get cells f))"
proof (induction fs arbitrary: cells)
  case Nil
  then show ?case by simp
next
  case (Cons f fs)
  obtain c where c: "dict_get profile f = Some c" using Cons.prems by (metis insert_subset list.simps(15) map_of_eq_None_iff not_None_eq)
  obtain cells' where r: "matrix_row installed core profile fs (dict_set f (refine_cell installed core c) cells) = Inr cells'"
    "\<forall>g. dict_get cells' g = (if g \<in> set fs then map_option (refine_cell installed core) (dict_get profile g)
       else dict_get (dict_set f (refine_cell installed core c) cells) g)"
    using Cons.IH [of "dict_set f (refine_cell installed core c) cells"] Cons.prems by auto
  show ?case using r c by (intro exI [of _ cells']) auto
qed

lemma matrix_rows_spec:
  "\<exists>m. matrix_rows installed ids result = Inr m \<and>
     (\<forall>core. core \<notin> set ids \<or> dict_get PROFILES core = None \<longrightarrow> dict_get m core = dict_get result core) \<and>
     (\<forall>core p. core \<in> set ids \<and> dict_get PROFILES core = Some p \<longrightarrow>
        (\<exists>row. dict_get m core = Some row \<and> (\<forall>f. dict_get row f = map_option (refine_cell installed core) (dict_get p f))))"
proof (induction ids arbitrary: result)
  case Nil
  then show ?case by simp
next
  case (Cons core ids)
  show ?case
  proof (cases "dict_get PROFILES core")
    case None
    then show ?thesis using Cons.IH [of result] by auto
  next
    case (Some p)
    have keys: "set FEATURES = fst ` set p" using profile_keys [OF Some] by (metis set_map)
    obtain row where row: "matrix_row installed core p FEATURES [] = Inr row"
      "\<forall>f. dict_get row f = (if f \<in> set FEATURES then map_option (refine_cell installed core) (dict_get p f) else None)"
      using matrix_row_spec [of FEATURES p installed core "[]"] keys by auto
    have row': "dict_get row f = map_option (refine_cell installed core) (dict_get p f)" for f
      using row(2) keys by (auto simp: map_of_eq_None_iff)
    obtain m where m: "matrix_rows installed ids (dict_set core row result) = Inr m"
      "\<forall>c. c \<notin> set ids \<or> dict_get PROFILES c = None \<longrightarrow> dict_get m c = dict_get (dict_set core row result) c"
      "\<forall>c q. c \<in> set ids \<and> dict_get PROFILES c = Some q \<longrightarrow>
        (\<exists>row. dict_get m c = Some row \<and> (\<forall>f. dict_get row f = map_option (refine_cell installed c) (dict_get q f)))"
      using Cons.IH [of "dict_set core row result"] by blast
    have "\<exists>r. dict_get m core = Some r \<and> (\<forall>f. dict_get r f = map_option (refine_cell installed core) (dict_get p f))"
      using m(2,3) Some row' by (cases "core \<in> set ids") auto
    then show ?thesis using m Some row(1) by (intro exI [of _ m]) auto
  qed
qed

text \<open>
  The capability matrix never raises: it has exactly the requested known cores, every row has exactly
  the product features, and a cell differs from the static profile only where the core is not
  installed and the profile says supported or environment-limited.
\<close>
lemma capability_matrix_total:
  "\<exists>m. capability_matrix core_ids installed = Inr m \<and>
    (\<forall>core. let wanted = (case core_ids of Some ids \<Rightarrow> core \<in> set ids | None \<Rightarrow> True)
       in case dict_get PROFILES core of
            None \<Rightarrow> dict_get m core = None
          | Some p \<Rightarrow> (if wanted then \<exists>row. dict_get m core = Some row \<and>
                (\<forall>f. dict_get row f = map_option (refine_cell installed core) (dict_get p f)) \<and>
                {f. dict_get row f \<noteq> None} = set FEATURES
              else dict_get m core = None))"
proof -
  define ids where "ids = (case core_ids of Some ids \<Rightarrow> ids | None \<Rightarrow> dict_keys PROFILES)"
  obtain m where m: "matrix_rows installed ids [] = Inr m"
    "\<forall>core. core \<notin> set ids \<or> dict_get PROFILES core = None \<longrightarrow> dict_get m core = dict_get ([] :: (string, (string, cell_view) dict) dict) core"
    "\<forall>core p. core \<in> set ids \<and> dict_get PROFILES core = Some p \<longrightarrow>
        (\<exists>row. dict_get m core = Some row \<and> (\<forall>f. dict_get row f = map_option (refine_cell installed core) (dict_get p f)))"
    using matrix_rows_spec by blast
  have keys: "{f. map_option (refine_cell installed core) (dict_get p f) \<noteq> None} = set FEATURES"
    if "dict_get PROFILES core = Some p" for core p
  proof -
    have "set FEATURES = fst ` set p" using profile_keys [OF that] by (metis set_map)
    then show ?thesis by (auto simp: map_of_eq_None_iff)
  qed
  have wanted: "(case core_ids of Some ids \<Rightarrow> core \<in> set ids | None \<Rightarrow> True) \<longleftrightarrow> core \<in> set ids"
    if "dict_get PROFILES core = Some p" for core p
    using that by (cases core_ids) (auto simp: ids_def dest: map_of_SomeD intro: rev_image_eqI)
  have "capability_matrix core_ids installed = Inr m" using m(1) by (simp add: capability_matrix_def ids_def)
  moreover have "let w = (case core_ids of Some ids \<Rightarrow> core \<in> set ids | None \<Rightarrow> True)
       in case dict_get PROFILES core of
            None \<Rightarrow> dict_get m core = None
          | Some p \<Rightarrow> (if w then \<exists>row. dict_get m core = Some row \<and>
                (\<forall>f. dict_get row f = map_option (refine_cell installed core) (dict_get p f)) \<and>
                {f. dict_get row f \<noteq> None} = set FEATURES
              else dict_get m core = None)" for core
  proof (cases "dict_get PROFILES core")
    case None
    then show ?thesis using m(2) by simp
  next
    case (Some p)
    show ?thesis
    proof (cases "core \<in> set ids")
      case True
      then obtain row where "dict_get m core = Some row" "\<forall>f. dict_get row f = map_option (refine_cell installed core) (dict_get p f)"
        using m(3) Some by blast
      then show ?thesis using Some wanted [OF Some] True keys [OF Some] by simp
    next
      case False
      then show ?thesis using Some wanted [OF Some] m(2) by simp
    qed
  qed
  ultimately show ?thesis by blast
qed

text \<open>
  The last branch of the routing matrix is dead: every target but \<open>ssh\<close>, SoftEther included, is a
  tunnel destination, although its text calls SoftEther a routing source only.
\<close>

lemma routing_pair_softether_supported:
  "\<forall>source \<in> set ROUTING_CORES. \<forall>target \<in> set ROUTING_CORES.
     fst (pair_state source target) = SUPPORTED \<longleftrightarrow> target \<noteq> ''ssh'' \<or> source \<in> set APPLICATION_SOURCES"
  by (simp add: ROUTING_CORES_def pair_state_def TUN_DESTINATIONS_def APPLICATION_SOURCES_def)

end
