(* ===== verification/RoutingModel.thy ===== *)
theory RoutingModel
  imports PyValue
begin

text \<open>
  \<open>app/cores/routing/model.py\<close>: the core-agnostic routing rules, their scopes, the construction-time
  validation of a rule, and the report types of a deployment.
\<close>

section \<open>Rules\<close>

datatype rule_action = ALLOW | BLOCK | ROUTE_TO | REDIRECT | DNS | FAKE_DNS | DNS_OVERRIDE

fun action_value :: "rule_action \<Rightarrow> string" where
  "action_value ALLOW = ''allow''"
| "action_value BLOCK = ''block''"
| "action_value ROUTE_TO = ''route_to''"
| "action_value REDIRECT = ''redirect''"
| "action_value DNS = ''dns''"
| "action_value FAKE_DNS = ''fake_dns''"
| "action_value DNS_OVERRIDE = ''dns_override''"

record rule_matcher =
  inbounds :: "string list"
  domains :: "string list"
  domain_suffixes :: "string list"
  domain_keywords :: "string list"
  domain_regexes :: "string list"
  geosites :: "string list"
  geoips :: "string list"
  ip_cidrs :: "string list"
  source_ip_cidrs :: "string list"
  ports :: "int list"
  port_ranges :: "string list"
  process_names :: "string list"
  protocols :: "string list"
  networks :: "string list"

definition matcher_fields :: "rule_matcher \<Rightarrow> (string \<times> bool) list" where
  "matcher_fields m =
     [(''inbounds'', inbounds m \<noteq> []), (''domains'', domains m \<noteq> []), (''domain_suffixes'', domain_suffixes m \<noteq> []),
      (''domain_keywords'', domain_keywords m \<noteq> []), (''domain_regexes'', domain_regexes m \<noteq> []),
      (''geosites'', geosites m \<noteq> []), (''geoips'', geoips m \<noteq> []), (''ip_cidrs'', ip_cidrs m \<noteq> []),
      (''source_ip_cidrs'', source_ip_cidrs m \<noteq> []), (''ports'', ports m \<noteq> []), (''port_ranges'', port_ranges m \<noteq> []),
      (''process_names'', process_names m \<noteq> []), (''protocols'', protocols m \<noteq> []), (''networks'', networks m \<noteq> [])]"

definition used_fields :: "rule_matcher \<Rightarrow> string list" where
  "used_fields m = map fst (filter snd (matcher_fields m))"

definition is_empty_matcher :: "rule_matcher \<Rightarrow> bool" where
  "is_empty_matcher m \<longleftrightarrow> used_fields m = []"

record rule_scope =
  nodes :: "int list"

definition targets_nodes_only :: "rule_scope \<Rightarrow> bool" where
  "targets_nodes_only s \<longleftrightarrow> nodes s \<noteq> []"

definition applies_on_master :: "rule_scope \<Rightarrow> bool" where
  "applies_on_master s \<longleftrightarrow> \<not> targets_nodes_only s"

definition applies_on_node :: "rule_scope \<Rightarrow> int \<Rightarrow> bool" where
  "applies_on_node s node_id \<longleftrightarrow> nodes s = [] \<or> node_id \<in> set (nodes s)"

record routing_rule =
  rname :: string
  matcher :: rule_matcher
  action :: rule_action
  outbound :: "string option"
  redirect_to :: "string option"
  dns_server :: "string option"
  priority :: int
  enabled :: bool
  scope :: rule_scope

definition effective_rules_for_node :: "routing_rule list \<Rightarrow> int \<Rightarrow> routing_rule list" where
  "effective_rules_for_node rules node_id = filter (\<lambda>r. enabled r \<and> applies_on_node (scope r) node_id) rules"

section \<open>Validation\<close>

text \<open>\<open>^[A-Za-z0-9.\-_]+:\d{1,5}$\<close>; the dollar also matches before a final newline.\<close>

definition host_char :: "char \<Rightarrow> bool" where
  "host_char c \<longleftrightarrow> (let n = (of_char c :: nat) in
     (65 \<le> n \<and> n \<le> 90) \<or> (97 \<le> n \<and> n \<le> 122) \<or> (48 \<le> n \<and> n \<le> 57) \<or> c \<in> {CHR ''.'', CHR ''-'', CHR ''_''})"

definition HOST_PORT :: "string \<Rightarrow> bool" where
  "HOST_PORT s \<longleftrightarrow>
     takeWhile host_char s \<noteq> [] \<and>
     (case dropWhile host_char s of
        c # ds \<Rightarrow> c = CHR '':'' \<and>
          (let digits = takeWhile is_digit ds; rest = dropWhile is_digit ds
           in 1 \<le> length digits \<and> length digits \<le> 5 \<and> (rest = [] \<or> rest = [CHR 0x0A]))
      | [] \<Rightarrow> False)"

datatype rule_error =
    NameLength
  | EmptyMatcher
  | MissingOutbound
  | BadRedirect

definition truthy_opt :: "string option \<Rightarrow> bool" where
  "truthy_opt s \<longleftrightarrow> s \<noteq> None \<and> s \<noteq> Some []"

definition validate_rule :: "routing_rule \<Rightarrow> rule_error + routing_rule" where
  "validate_rule r =
     (if length (rname r) < 1 \<or> 80 < length (rname r) then Inl NameLength
      else if is_empty_matcher (matcher r) then Inl EmptyMatcher
      else if action r = ROUTE_TO \<and> \<not> truthy_opt (outbound r) then Inl MissingOutbound
      else if action r = REDIRECT \<and> \<not> (case redirect_to r of None \<Rightarrow> False | Some s \<Rightarrow> s \<noteq> [] \<and> HOST_PORT s) then Inl BadRedirect
      else Inr r)"

section \<open>Reports\<close>

record unsupported_rule =
  urule :: string
  reason :: string
  ufields :: "string list"

record route_context =
  available_outbounds :: "string list"

record translated_route =
  tr_core_id :: string
  applied :: "string list"
  unsupported :: "unsupported_rule list"
  tr_notes :: "string list"

definition complete :: "translated_route \<Rightarrow> bool" where
  "complete t \<longleftrightarrow> unsupported t = []"

record deployment_report =
  results :: "(string, translated_route) dict"
  skipped_by_scope :: "(string \<times> int list) list"

definition gaps :: "deployment_report \<Rightarrow> (string, unsupported_rule list) dict" where
  "gaps rep = map (\<lambda>(cid, t). (cid, unsupported t)) (filter (\<lambda>(cid, t). unsupported t \<noteq> []) (results rep))"

text \<open>A rule is accounted for in a result when it is applied or reported as unsupported.\<close>

definition accounted :: "translated_route \<Rightarrow> string \<Rightarrow> bool" where
  "accounted t name \<longleftrightarrow> name \<in> set (applied t) \<or> name \<in> urule ` set (unsupported t)"

end
