(* ===== verification/RoutingPolicy.thy ===== *)
theory RoutingPolicy
  imports RoutingModel
begin

text \<open>
  The rule plane of \<open>app/cores/routing/policy.py\<close>: which rules the kernel can enforce for the service
  cores, the nft classifier it renders for them, and the transactional replacement of both with the
  SoftEther hub sources. The traffic sources, which the drivers' settings determine, are an argument;
  the drivers' hub operations and \<open>ip_network\<close> normalisation are parameters. Conditions are data with a
  rendering to text, so that their meaning on packets can be stated.
\<close>

section \<open>Data\<close>

record traffic_source =
  ts_core :: string
  inbound_tag :: string
  source_subnet :: "string option"
  uid :: "int option"
  ts_note :: "string option"

record policy_report =
  rep_applied :: "(string, string list) dict"
  rep_unsupported :: "(string, unsupported_rule list) dict"
  rep_notes :: "(string, string list) dict"

record policy_domain =
  fwmark :: int
  return_mark :: int
  table_id :: int
  interface :: string
  redirect_port :: int
  mode :: string
  ready :: bool

text \<open>\<open>d.setdefault(k, []).append(v)\<close> and \<open>.extend(vs)\<close>.\<close>

definition append_at :: "string \<Rightarrow> 'a list \<Rightarrow> (string, 'a list) dict \<Rightarrow> (string, 'a list) dict" where
  "append_at k vs d = dict_set k ((case dict_get d k of None \<Rightarrow> [] | Some xs \<Rightarrow> xs) @ vs) d"

section \<open>What the kernel can enforce\<close>

definition inspected_fields :: "rule_matcher \<Rightarrow> (string \<times> bool) list" where
  "inspected_fields m =
     [(''domains'', domains m \<noteq> []), (''domain_suffixes'', domain_suffixes m \<noteq> []), (''domain_keywords'', domain_keywords m \<noteq> []),
      (''domain_regexes'', domain_regexes m \<noteq> []), (''geosites'', geosites m \<noteq> []), (''geoips'', geoips m \<noteq> []),
      (''process_names'', process_names m \<noteq> []), (''protocols'', protocols m \<noteq> [])]"

definition service_unsupported :: "routing_rule \<Rightarrow> unsupported_rule option" where
  "service_unsupported rule =
     (let fields = map fst (filter snd (inspected_fields (matcher rule)))
      in if fields \<noteq> [] then
           Some \<lparr>urule = rname rule,
             reason = ''kernel service routing cannot inspect domain/geo/process/sniffed protocol fields'', ufields = fields\<rparr>
         else if action rule \<notin> {ROUTE_TO, ALLOW, BLOCK} then
           Some \<lparr>urule = rname rule,
             reason = ''kernel service routing does not implement action '' @ [CHR 0x27] @ action_value (action rule) @ [CHR 0x27],
             ufields = [''action'']\<rparr>
         else None)"

definition selects :: "routing_rule \<Rightarrow> traffic_source \<Rightarrow> bool" where
  "selects rule s \<longleftrightarrow> inbounds (matcher rule) = [] \<or> inbound_tag s \<in> set (inbounds (matcher rule))"

definition unavailable :: "traffic_source \<Rightarrow> bool" where
  "unavailable s \<longleftrightarrow> source_subnet s = None \<and> uid s = None"

text \<open>\<open>str(rule.outbound)\<close>\<close>

definition outbound_name :: "routing_rule \<Rightarrow> string" where
  "outbound_name rule = (case outbound rule of None \<Rightarrow> ''None'' | Some s \<Rightarrow> s)"

definition rule_gap :: "(string, policy_domain) dict \<Rightarrow> traffic_source list \<Rightarrow> routing_rule \<Rightarrow> unsupported_rule option" where
  "rule_gap doms core_sources rule =
     (case service_unsupported rule of
        Some g \<Rightarrow> Some g
      | None \<Rightarrow>
          (case filter unavailable (filter (selects rule) core_sources) of
             s # _ \<Rightarrow>
               Some \<lparr>urule = rname rule,
                 reason = (case ts_note s of Some n \<Rightarrow> if n \<noteq> [] then n else ''traffic source is not classifiable''
                           | None \<Rightarrow> ''traffic source is not classifiable''),
                 ufields = [''inbounds'']\<rparr>
           | [] \<Rightarrow>
               if action rule = ROUTE_TO \<and> \<not> (case dict_get doms (outbound_name rule) of None \<Rightarrow> False | Some d \<Rightarrow> ready d) then
                 Some \<lparr>urule = rname rule,
                   reason = ''outbound '' @ [CHR 0x27] @ outbound_name rule @ [CHR 0x27] @ '' has no running policy domain'',
                   ufields = [''outbound'']\<rparr>
               else None))"

definition preview_rule ::
  "(string, policy_domain) dict \<Rightarrow> string \<Rightarrow> traffic_source list \<Rightarrow> routing_rule \<Rightarrow> policy_report \<Rightarrow> policy_report"
where
  "preview_rule doms core_id core_sources rule rep =
     (if inbounds (matcher rule) \<noteq> [] \<and> \<not> list_ex (\<lambda>s. inbound_tag s \<in> set (inbounds (matcher rule))) core_sources then rep
      else case rule_gap doms core_sources rule of
        Some gap \<Rightarrow> rep\<lparr>rep_unsupported := append_at core_id [gap] (rep_unsupported rep)\<rparr>
      | None \<Rightarrow> rep\<lparr>rep_applied := append_at core_id [rname rule] (rep_applied rep)\<rparr>)"

definition source_notes :: "traffic_source list \<Rightarrow> string list" where
  "source_notes core_sources = remdups (rev (List.map_filter (\<lambda>s. if truthy_opt (ts_note s) then ts_note s else None) core_sources))"

definition preview_core ::
  "(string, policy_domain) dict \<Rightarrow> routing_rule list \<Rightarrow> string \<times> traffic_source list \<Rightarrow> policy_report \<Rightarrow> policy_report"
where
  "preview_core doms rules p rep =
     (let (core_id, core_sources) = p;
          rep' = fold (preview_rule doms core_id core_sources) rules rep;
          ns = rev (source_notes core_sources)
      in if core_id = ''softether'' \<and> ns \<noteq> [] then rep'\<lparr>rep_notes := append_at core_id ns (rep_notes rep')\<rparr> else rep')"

definition by_core :: "traffic_source list \<Rightarrow> (string, traffic_source list) dict" where
  "by_core sources = fold (\<lambda>s. append_at (ts_core s) [s]) sources []"

definition preview_rules :: "(string, policy_domain) dict \<Rightarrow> traffic_source list \<Rightarrow> routing_rule list \<Rightarrow> policy_report" where
  "preview_rules doms sources rules =
     fold (preview_core doms rules) (by_core sources) \<lparr>rep_applied = [], rep_unsupported = [], rep_notes = []\<rparr>"

section \<open>The nft classifier\<close>

datatype nft_cond =
    SAddr string
  | SkUid int
  | SAddrSet "string list"
  | DAddrSet "string list"
  | L4Proto "string list"
  | L4ProtoTcp

definition nft_set :: "string list \<Rightarrow> string" where
  "nft_set values = ''{ '' @ join_with '', '' values @ '' }''"

fun render_cond :: "nft_cond \<Rightarrow> string" where
  "render_cond (SAddr net) = ''ip saddr '' @ net"
| "render_cond (SkUid u) = ''meta skuid '' @ int_to_str u"
| "render_cond (SAddrSet nets) = ''ip saddr '' @ nft_set nets"
| "render_cond (DAddrSet nets) = ''ip daddr '' @ nft_set nets"
| "render_cond (L4Proto ps) = ''meta l4proto '' @ nft_set ps"
| "render_cond L4ProtoTcp = ''meta l4proto tcp''"

text \<open>\<open>ip_network(value, strict=False)\<close> on each value; any bad value raises \<open>ValueError\<close>.\<close>

definition networks_of :: "(string \<Rightarrow> string option) \<Rightarrow> string list \<Rightarrow> string list option" where
  "networks_of ip_network vals = those (map ip_network vals)"

definition l4_protocols :: "string list \<Rightarrow> string list" where
  "l4_protocols nets =
     sort (remdups (filter (\<lambda>item. item \<in> {''tcp'', ''udp''}) (concat (map (split_on (CHR '','')) nets))))"

definition nft_conditions :: "(string \<Rightarrow> string option) \<Rightarrow> routing_rule \<Rightarrow> traffic_source \<Rightarrow> nft_cond list option" where
  "nft_conditions ip_network rule source =
     (let m = matcher rule;
          c1 = (case source_subnet source of Some net \<Rightarrow> if net \<noteq> [] then [SAddr net] else [] | None \<Rightarrow> []);
          c2 = (case uid source of Some u \<Rightarrow> [SkUid u] | None \<Rightarrow> [])
      in case (if source_ip_cidrs m \<noteq> [] then map_option (\<lambda>ns. [SAddrSet ns]) (networks_of ip_network (source_ip_cidrs m)) else Some []) of
           None \<Rightarrow> None
         | Some c3 \<Rightarrow>
             (case (if ip_cidrs m \<noteq> [] then map_option (\<lambda>ns. [DAddrSet ns]) (networks_of ip_network (ip_cidrs m)) else Some []) of
                None \<Rightarrow> None
              | Some c4 \<Rightarrow>
                  Some (c1 @ c2 @ c3 @ c4 @ (if l4_protocols (networks m) \<noteq> [] then [L4Proto (l4_protocols (networks m))] else []))))"

datatype nft_verdict =
    NftReturn
  | NftDrop
  | NftMark int int
  | NftRedirect int

fun render_verdict :: "nft_verdict \<Rightarrow> string" where
  "render_verdict NftReturn = ''return''"
| "render_verdict NftDrop = ''drop''"
| "render_verdict (NftMark ret mark) = ''ct mark set '' @ int_to_str ret @ '' meta mark set '' @ int_to_str mark @ '' return''"
| "render_verdict (NftRedirect port) = ''redirect to :'' @ int_to_str port"

text \<open>\<open>self._domains[str(rule.outbound)]\<close> raises \<open>KeyError\<close> when the domain is gone.\<close>

definition nft_action :: "(string, policy_domain) dict \<Rightarrow> routing_rule \<Rightarrow> nft_verdict option" where
  "nft_action doms rule =
     (if action rule = ALLOW then Some NftReturn
      else if action rule = BLOCK then Some NftDrop
      else map_option (\<lambda>d. NftMark (return_mark d) (fwmark d)) (dict_get doms (outbound_name rule)))"

type_synonym nft_line = "nft_cond list \<times> nft_verdict"

record nft_lines =
  prerouting :: "nft_line list"
  output_chain :: "nft_line list"
  output_nat :: "nft_line list"

definition render_line :: "nft_line \<Rightarrow> string" where
  "render_line l = (let (conds, v) = l in ''    '' @ join_with '' '' (map render_cond conds @ [''counter'', render_verdict v]))"

definition add_line :: "nft_line \<Rightarrow> nft_line list \<Rightarrow> nft_line list" where
  "add_line l ls = (if render_line l \<in> set (map render_line ls) then ls else ls @ [l])"

definition script_source ::
  "(string \<Rightarrow> string option) \<Rightarrow> (string, policy_domain) dict \<Rightarrow> routing_rule \<Rightarrow> traffic_source \<Rightarrow> nft_lines \<Rightarrow> nft_lines option"
where
  "script_source ip_network doms rule source ls =
     (if inbounds (matcher rule) \<noteq> [] \<and> inbound_tag source \<notin> set (inbounds (matcher rule)) then Some ls
      else if unavailable source then Some ls
      else Option.bind (nft_conditions ip_network rule source) (\<lambda>conds.
        if uid source \<noteq> None \<and> action rule = ROUTE_TO then
          Option.bind (dict_get doms (outbound_name rule)) (\<lambda>d.
            Some (ls\<lparr>output_nat := add_line (conds @ [L4ProtoTcp], NftRedirect (redirect_port d)) (output_nat ls)\<rparr>))
        else
          Option.bind (nft_action doms rule) (\<lambda>v.
            if uid source \<noteq> None then Some (ls\<lparr>output_chain := add_line (conds, v) (output_chain ls)\<rparr>)
            else Some (ls\<lparr>prerouting := add_line (conds, v) (prerouting ls)\<rparr>))))"

fun script_sources where
  "script_sources ip_network doms rule [] ls = Some ls"
| "script_sources ip_network doms rule (s # ss) ls =
     Option.bind (script_source ip_network doms rule s ls) (script_sources ip_network doms rule ss)"

definition supported_names :: "policy_report \<Rightarrow> string set" where
  "supported_names rep = set (concat (map snd (rep_applied rep)))"

fun script_rules ::
  "(string \<Rightarrow> string option) \<Rightarrow> (string, policy_domain) dict \<Rightarrow> traffic_source list \<Rightarrow> policy_report \<Rightarrow> routing_rule list \<Rightarrow> nft_lines \<Rightarrow> nft_lines option"
where
  "script_rules ip_network doms sources rep [] ls = Some ls"
| "script_rules ip_network doms sources rep (r # rs) ls =
     Option.bind (if rname r \<notin> supported_names rep then Some ls else script_sources ip_network doms r sources ls)
       (script_rules ip_network doms sources rep rs)"

definition POLICY_TABLE :: string where "POLICY_TABLE = ''zagros_policy''"

definition nft_body :: "(string, policy_domain) dict \<Rightarrow> nft_lines \<Rightarrow> string list" where
  "nft_body doms ls =
     (let ds = sort_key table_id (map snd doms)
      in [''table inet '' @ POLICY_TABLE @ '' {'', ''  chain prerouting {'',
          ''    type filter hook prerouting priority mangle; policy accept;'']
         @ map (\<lambda>d. ''    ct mark '' @ int_to_str (return_mark d) @ '' counter meta mark set '' @ int_to_str (return_mark d)) ds
         @ map render_line (prerouting ls)
         @ [''  }'', ''  chain output {'', ''    type route hook output priority mangle; policy accept;'']
         @ map (\<lambda>d. ''    meta mark '' @ int_to_str (fwmark d) @ '' counter ct mark set '' @ int_to_str (return_mark d)) ds
         @ map render_line (output_chain ls)
         @ [''  }'', ''  chain output_nat {'', ''    type nat hook output priority dstnat; policy accept;'']
         @ map render_line (output_nat ls)
         @ [''  }'', ''  chain postrouting {'', ''    type nat hook postrouting priority srcnat; policy accept;'']
         @ map (\<lambda>d. ''    meta mark '' @ int_to_str (fwmark d) @ '' oifname '' @ [CHR 0x22] @ interface d @ [CHR 0x22] @ '' counter masquerade'')
             (filter (\<lambda>d. mode d \<in> {''openvpn'', ''wireguard'', ''softether'', ''ppp''}) ds)
         @ [''  }'', ''}''])"

definition nft_script ::
  "(string \<Rightarrow> string option) \<Rightarrow> (string, policy_domain) dict \<Rightarrow> traffic_source list \<Rightarrow> routing_rule list \<Rightarrow> policy_report \<Rightarrow> string option"
where
  "nft_script ip_network doms sources rules rep =
     map_option (\<lambda>ls. join_with [CHR 0x0A] (nft_body doms ls) @ [CHR 0x0A])
       (script_rules ip_network doms sources rep rules \<lparr>prerouting = [], output_chain = [], output_nat = []\<rparr>)"

section \<open>Replacing the rule set\<close>

record hub_spec =
  hub_id :: string
  hub_name :: string
  hub_tags :: "string list"

text \<open>The SoftEther driver as the manager uses it: its source specifications and the two hub operations, which may raise.\<close>

record 'd hub_driver =
  routing_source_specs :: "'d \<Rightarrow> hub_spec list"
  ensure_policy_source :: "string \<Rightarrow> 'd \<Rightarrow> 'd \<times> string option"
  disable_policy_source :: "string \<Rightarrow> 'd \<Rightarrow> 'd \<times> string option"

record 'd policy_state =
  pr_domains :: "(string, policy_domain) dict"
  pr_rules :: "routing_rule list"
  pr_routed :: "string set"
  pr_table :: "string option"
  pr_hubs :: 'd

definition partial_hub_rule :: "hub_spec \<Rightarrow> routing_rule \<Rightarrow> bool" where
  "partial_hub_rule spec rule \<longleftrightarrow>
     enabled rule \<and> inbounds (matcher rule) \<noteq> [] \<and>
     (let tags = set (hub_tags spec); selected = tags \<inter> set (inbounds (matcher rule))
      in selected \<noteq> {} \<and> selected \<noteq> tags)"

definition validate_rule_set :: "'d hub_driver option \<Rightarrow> 'd \<Rightarrow> routing_rule list \<Rightarrow> string option" where
  "validate_rule_set softether hubs rules =
     (case softether of
        None \<Rightarrow> None
      | Some drv \<Rightarrow>
          if list_ex (\<lambda>spec. 1 < card (set (hub_tags spec)) \<and> list_ex (partial_hub_rule spec) rules) (routing_source_specs drv hubs)
          then Some ''CoreError'' else None)"

definition needed_sources :: "hub_spec list \<Rightarrow> routing_rule list \<Rightarrow> string set" where
  "needed_sources specs rules =
     set (map hub_id (filter (\<lambda>spec. list_ex (\<lambda>rule. enabled rule \<and>
       (inbounds (matcher rule) = [] \<or> set (hub_tags spec) \<inter> set (inbounds (matcher rule)) \<noteq> {})) rules) specs))"

text \<open>One call after the other; the set of routed sources follows each call that returns.\<close>

fun run_calls ::
  "(string \<Rightarrow> 'd \<Rightarrow> 'd \<times> string option) \<Rightarrow> (string \<Rightarrow> string set \<Rightarrow> string set) \<Rightarrow> string list \<Rightarrow> 'd \<times> string set
     \<Rightarrow> string option \<times> 'd \<times> string set"
where
  "run_calls call upd [] s = (None, s)"
| "run_calls call upd (i # is) (d, routed) =
     (case call i d of
        (d', Some e) \<Rightarrow> (Some e, d', routed)
      | (d', None) \<Rightarrow> run_calls call upd is (d', upd i routed))"

definition converge_softether_source ::
  "'d hub_driver option \<Rightarrow> routing_rule list \<Rightarrow> 'd policy_state \<Rightarrow> string option \<times> 'd policy_state"
where
  "converge_softether_source softether rules st =
     (case softether of
        None \<Rightarrow> (None, st)
      | Some drv \<Rightarrow>
          let needed = needed_sources (routing_source_specs drv (pr_hubs st)) rules;
              (e1, d1, r1) = run_calls (ensure_policy_source drv) insert (sorted_list_of_set (needed - pr_routed st)) (pr_hubs st, pr_routed st)
          in case e1 of
               Some e \<Rightarrow> (Some e, st\<lparr>pr_hubs := d1, pr_routed := r1\<rparr>)
             | None \<Rightarrow>
                 let (e2, d2, r2) = run_calls (disable_policy_source drv) (\<lambda>i r. r - {i}) (sorted_list_of_set (r1 - needed)) (d1, r1)
                 in (e2, st\<lparr>pr_hubs := d2, pr_routed := r2\<rparr>))"

text \<open>The handler of a failed replacement: undo the hub changes; a failure here is only logged.\<close>

definition rollback_sources :: "'d hub_driver option \<Rightarrow> string set \<Rightarrow> 'd policy_state \<Rightarrow> 'd policy_state" where
  "rollback_sources softether previous st =
     (case softether of
        None \<Rightarrow> st
      | Some drv \<Rightarrow>
          let (e1, d1, _) = run_calls (disable_policy_source drv) (\<lambda>_ r. r) (sorted_list_of_set (pr_routed st - previous)) (pr_hubs st, {})
          in case e1 of
               Some _ \<Rightarrow> st\<lparr>pr_hubs := d1\<rparr>
             | None \<Rightarrow>
                 let (e2, d2, _) = run_calls (ensure_policy_source drv) (\<lambda>_ r. r) (sorted_list_of_set (previous - pr_routed st)) (d1, {})
                 in case e2 of
                      Some _ \<Rightarrow> st\<lparr>pr_hubs := d2\<rparr>
                    | None \<Rightarrow> st\<lparr>pr_hubs := d2, pr_routed := previous\<rparr>)"

definition delete_prefix :: "string option \<Rightarrow> string" where
  "delete_prefix table = (if table \<noteq> None then ''delete table inet '' @ POLICY_TABLE @ [CHR 0x0A] else [])"

definition apply_rules ::
  "'d hub_driver option \<Rightarrow> ('d \<Rightarrow> traffic_source list) \<Rightarrow> (string \<Rightarrow> string option) \<Rightarrow> (string \<Rightarrow> bool)
     \<Rightarrow> routing_rule list \<Rightarrow> 'd policy_state \<Rightarrow> (string + policy_report) \<times> 'd policy_state"
where
  "apply_rules softether sources ip_network nft_accepts rules st =
     (case validate_rule_set softether (pr_hubs st) rules of
        Some e \<Rightarrow> (Inl e, st)
      | None \<Rightarrow>
          let previous = pr_routed st; (err, st1) = converge_softether_source softether rules st
          in case err of
               Some e \<Rightarrow> (Inl e, rollback_sources softether previous st1)
             | None \<Rightarrow>
                 let report = preview_rules (pr_domains st1) (sources (pr_hubs st1)) rules
                 in case nft_script ip_network (pr_domains st1) (sources (pr_hubs st1)) rules report of
                      None \<Rightarrow> (Inl ''ValueError'', rollback_sources softether previous st1)
                    | Some script \<Rightarrow>
                        if nft_accepts (delete_prefix (pr_table st1) @ script)
                        then (Inr report, st1\<lparr>pr_table := Some script, pr_rules := rules\<rparr>)
                        else (Inl ''CoreError'', rollback_sources softether previous st1))"

section \<open>The replacement is transactional\<close>

lemma run_calls_ok:
  "run_calls call upd is (d, r) = (None, d', r') \<Longrightarrow> r' = fold upd is r"
  by (induction "is" arbitrary: d r) (auto split: prod.splits option.splits)

lemma run_calls_cant_fail:
  "(\<And>i d. snd (call i d) = None) \<Longrightarrow> fst (run_calls call upd is s) = None"
proof (induction "is" arbitrary: s)
  case Nil
  then show ?case by simp
next
  case (Cons i "is")
  obtain d r d' where s: "s = (d, r)" "call i d = (d', None)" using Cons.prems by (metis prod.exhaust_sel surj_pair)
  then show ?case using Cons by simp
qed

lemma fold_insert_set: "fold insert xs r = set xs \<union> r"
  by (induction xs arbitrary: r) auto

lemma fold_remove_set: "fold (\<lambda>i r. r - {i}) xs r = r - set xs"
  by (induction xs arbitrary: r) auto

lemma converge_frame:
  "converge_softether_source softether rules st = (e, st1) \<Longrightarrow>
    pr_domains st1 = pr_domains st \<and> pr_rules st1 = pr_rules st \<and> pr_table st1 = pr_table st"
  by (auto simp: converge_softether_source_def Let_def split: option.splits prod.splits)

lemma converge_none: "converge_softether_source None rules st = (e, st1) \<Longrightarrow> st1 = st"
  by (simp add: converge_softether_source_def)

lemma converge_success:
  assumes "converge_softether_source (Some drv) rules st = (None, st1)" "finite (pr_routed st)"
  shows "pr_routed st1 = needed_sources (routing_source_specs drv (pr_hubs st)) rules"
proof -
  let ?n = "needed_sources (routing_source_specs drv (pr_hubs st)) rules"
  have fin: "finite ?n" by (simp add: needed_sources_def)
  obtain e1 d1 r1 where c1: "run_calls (ensure_policy_source drv) insert (sorted_list_of_set (?n - pr_routed st)) (pr_hubs st, pr_routed st) = (e1, d1, r1)"
    using prod_cases3 by blast
  obtain e2 d2 r2 where c2: "run_calls (disable_policy_source drv) (\<lambda>i r. r - {i}) (sorted_list_of_set (r1 - ?n)) (d1, r1) = (e2, d2, r2)"
    using prod_cases3 by blast
  have ok: "e1 = None" "e2 = None" "st1 = st\<lparr>pr_hubs := d2, pr_routed := r2\<rparr>"
    using assms(1) c1 c2 by (auto simp: converge_softether_source_def split: option.splits)
  have r1: "r1 = ?n \<union> pr_routed st"
    using run_calls_ok [OF c1 [unfolded ok(1)]] fin by (auto simp: fold_insert_set)
  then have "finite (r1 - ?n)" using fin assms(2) by simp
  then have "r2 = ?n" using run_calls_ok [OF c2 [unfolded ok(2)]] r1 by (auto simp: fold_remove_set)
  then show ?thesis by (simp add: ok(3))
qed

lemma rollback_frame:
  "pr_domains (rollback_sources softether prev st) = pr_domains st \<and> pr_rules (rollback_sources softether prev st) = pr_rules st \<and>
   pr_table (rollback_sources softether prev st) = pr_table st"
  by (simp add: rollback_sources_def Let_def split: option.splits prod.splits)

text \<open>The hub operations that a failed replacement needs for its rollback can raise.\<close>

definition hub_calls_fail :: "'d hub_driver option \<Rightarrow> bool" where
  "hub_calls_fail softether \<longleftrightarrow>
     (\<exists>drv i d. softether = Some drv \<and> (snd (ensure_policy_source drv i d) \<noteq> None \<or> snd (disable_policy_source drv i d) \<noteq> None))"

lemma rollback_restores:
  assumes "\<not> hub_calls_fail (Some drv)"
  shows "pr_routed (rollback_sources (Some drv) prev st) = prev"
proof -
  have nf: "snd (ensure_policy_source drv i d) = None" "snd (disable_policy_source drv i d) = None" for i d
    using assms unfolding hub_calls_fail_def by blast+
  obtain d1 r1 where c1: "run_calls (disable_policy_source drv) (\<lambda>_ r. r) (sorted_list_of_set (pr_routed st - prev)) (pr_hubs st, {}) = (None, d1, r1)"
    using run_calls_cant_fail [of "disable_policy_source drv", OF nf(2)] by (metis prod.exhaust_sel)
  obtain d2 r2 where c2: "run_calls (ensure_policy_source drv) (\<lambda>_ r. r) (sorted_list_of_set (prev - pr_routed st)) (d1, {}) = (None, d2, r2)"
    using run_calls_cant_fail [of "ensure_policy_source drv", OF nf(1)] by (metis prod.exhaust_sel)
  show ?thesis unfolding rollback_sources_def using c1 c2 by simp
qed

text \<open>
  Replacing the rule set is transactional. On success the manager holds the new rules, the kernel table is
  the rendering of exactly these rules for the sources then present, the report is the preview of the
  same state, and the routed SoftEther sources are exactly the needed ones. On any failure the rules and
  the kernel table are unchanged, and the routed sources are restored unless a hub operation can raise.
\<close>
lemma apply_rules_transactional:
  assumes "apply_rules softether sources ip_network nft_accepts rules st = (r, st')" "finite (pr_routed st)"
  shows "case r of
      Inr rep \<Rightarrow> pr_rules st' = rules \<and> pr_domains st' = pr_domains st \<and>
        rep = preview_rules (pr_domains st) (sources (pr_hubs st')) rules \<and>
        pr_table st' = nft_script ip_network (pr_domains st) (sources (pr_hubs st')) rules rep \<and> pr_table st' \<noteq> None \<and>
        (\<forall>drv. softether = Some drv \<longrightarrow> pr_routed st' = needed_sources (routing_source_specs drv (pr_hubs st)) rules)
    | Inl e \<Rightarrow> pr_rules st' = pr_rules st \<and> pr_table st' = pr_table st \<and> pr_domains st' = pr_domains st \<and>
        (hub_calls_fail softether \<or> pr_routed st' = pr_routed st)"
proof (cases "validate_rule_set softether (pr_hubs st) rules")
  case (Some e)
  then show ?thesis using assms(1) by (auto simp: apply_rules_def)
next
  case None
  obtain err st1 where c: "converge_softether_source softether rules st = (err, st1)" by fastforce
  note frame = converge_frame [OF c]
  have undo: "hub_calls_fail softether \<or> pr_routed (rollback_sources softether (pr_routed st) st1) = pr_routed st"
  proof (cases softether)
    case None
    then show ?thesis using c converge_none [of rules st err st1] by (simp add: rollback_sources_def)
  next
    case (Some drv)
    then show ?thesis using rollback_restores [of drv] by blast
  qed
  define rep where "rep = preview_rules (pr_domains st1) (sources (pr_hubs st1)) rules"
  consider (conv) e where "err = Some e" | (render) "err = None" "nft_script ip_network (pr_domains st1) (sources (pr_hubs st1)) rules rep = None"
    | (nft) script where "err = None" "nft_script ip_network (pr_domains st1) (sources (pr_hubs st1)) rules rep = Some script"
    by (cases err; cases "nft_script ip_network (pr_domains st1) (sources (pr_hubs st1)) rules rep") auto
  then show ?thesis
  proof cases
    case conv
    then have "r = Inl e" "st' = rollback_sources softether (pr_routed st) st1"
      using assms(1) None c by (auto simp: apply_rules_def)
    then show ?thesis using rollback_frame [of softether "pr_routed st" st1] frame undo by simp
  next
    case render
    then have "r = Inl ''ValueError''" "st' = rollback_sources softether (pr_routed st) st1"
      using assms(1) None c by (auto simp: apply_rules_def rep_def [symmetric])
    then show ?thesis using rollback_frame [of softether "pr_routed st" st1] frame undo by simp
  next
    case nft
    then have st': "(r, st') = (if nft_accepts (delete_prefix (pr_table st1) @ script)
        then (Inr rep, st1\<lparr>pr_table := Some script, pr_rules := rules\<rparr>)
        else (Inl ''CoreError'', rollback_sources softether (pr_routed st) st1))"
      using assms(1) None c by (auto simp: apply_rules_def rep_def [symmetric])
    show ?thesis
    proof (cases "nft_accepts (delete_prefix (pr_table st1) @ script)")
      case True
      have "\<forall>drv. softether = Some drv \<longrightarrow> pr_routed st1 = needed_sources (routing_source_specs drv (pr_hubs st)) rules"
        using converge_success assms(2) c nft(1) by blast
      then show ?thesis using st' True frame nft(2) by (simp add: rep_def)
    next
      case False
      then show ?thesis using st' rollback_frame [of softether "pr_routed st" st1] frame undo by simp
    qed
  qed
qed

definition blank_matcher :: rule_matcher where
  "blank_matcher = \<lparr>inbounds = [], domains = [], domain_suffixes = [], domain_keywords = [], domain_regexes = [], geosites = [],
     geoips = [], ip_cidrs = [], source_ip_cidrs = [], ports = [], port_ranges = [], process_names = [], protocols = [], networks = []\<rparr>"

definition block_port :: "int \<Rightarrow> routing_rule" where
  "block_port p = \<lparr>rname = ''block-port'', matcher = blank_matcher\<lparr>ports := [p]\<rparr>, action = BLOCK, outbound = None, redirect_to = None,
     dns_server = None, priority = 100, enabled = True, scope = \<lparr>nodes = []\<rparr>\<rparr>"

definition subnet_source :: "string \<Rightarrow> string \<Rightarrow> string \<Rightarrow> traffic_source" where
  "subnet_source core tag net = \<lparr>ts_core = core, inbound_tag = tag, source_subnet = Some net, uid = None, ts_note = None\<rparr>"

definition ex_hubs :: "string set hub_driver" where
  "ex_hubs = \<lparr>routing_source_specs = \<lambda>_. [\<lparr>hub_id = ''primary'', hub_name = ''DEFAULT'', hub_tags = [''sstp'']\<rparr>],
     ensure_policy_source = \<lambda>i d. (insert i d, None), disable_policy_source = \<lambda>i d. (d - {i}, None)\<rparr>"

definition ex_policy :: "string set policy_state" where
  "ex_policy = \<lparr>pr_domains = [], pr_rules = [], pr_routed = {}, pr_table = None, pr_hubs = {}\<rparr>"

text \<open>A rejected classifier: nothing is kept.\<close>

lemma apply_rules_transactional_example:
  "let (r, st) = apply_rules (Some ex_hubs) (\<lambda>_. [subnet_source ''openvpn'' ''ovpn'' ''10.8.0.0/24'']) Some (\<lambda>_. False) [block_port 25] ex_policy
   in r = Inl ''CoreError'' \<and> pr_rules st = [] \<and> pr_table st = None \<and> pr_routed st = {}"
proof -
  obtain r st where run: "apply_rules (Some ex_hubs) (\<lambda>_. [subnet_source ''openvpn'' ''ovpn'' ''10.8.0.0/24'']) Some (\<lambda>_. False) [block_port 25] ex_policy = (r, st)"
    by fastforce
  have "fst (apply_rules (Some ex_hubs) (\<lambda>_. [subnet_source ''openvpn'' ''ovpn'' ''10.8.0.0/24'']) Some (\<lambda>_. False) [block_port 25] ex_policy) = Inl ''CoreError''"
    by code_simp
  then have "r = Inl ''CoreError''" using run by simp
  moreover have "\<not> hub_calls_fail (Some ex_hubs)" by (simp add: hub_calls_fail_def ex_hubs_def)
  ultimately show ?thesis using apply_rules_transactional [OF run] run by (simp add: ex_policy_def)
qed

section \<open>Port conditions are lost\<close>

definition clear_ports :: "routing_rule \<Rightarrow> routing_rule" where
  "clear_ports r = r\<lparr>matcher := (matcher r)\<lparr>ports := [], port_ranges := []\<rparr>\<rparr>"

lemma clear_ports_simps [simp]:
  "rname (clear_ports r) = rname r" "action (clear_ports r) = action r" "outbound (clear_ports r) = outbound r"
  "inbounds (matcher (clear_ports r)) = inbounds (matcher r)" "ip_cidrs (matcher (clear_ports r)) = ip_cidrs (matcher r)"
  "source_ip_cidrs (matcher (clear_ports r)) = source_ip_cidrs (matcher r)" "networks (matcher (clear_ports r)) = networks (matcher r)"
  "inspected_fields (matcher (clear_ports r)) = inspected_fields (matcher r)"
  by (simp_all add: clear_ports_def inspected_fields_def)

lemma rule_gap_clear: "rule_gap doms ss (clear_ports r) = rule_gap doms ss r"
proof -
  have su: "service_unsupported (clear_ports r) = service_unsupported r" by (simp add: service_unsupported_def)
  have sel: "selects (clear_ports r) = selects r" by (rule ext) (simp add: selects_def)
  show ?thesis unfolding rule_gap_def outbound_name_def su sel clear_ports_simps by (rule refl)
qed

lemma preview_clear: "preview_rules doms sources (map clear_ports rules) = preview_rules doms sources rules"
proof -
  have "preview_rule doms c ss (clear_ports r) = preview_rule doms c ss r" for c ss r
    unfolding preview_rule_def rule_gap_clear clear_ports_simps by (rule refl)
  then have "preview_core doms (map clear_ports rules) = preview_core doms rules"
    by (intro ext) (simp add: preview_core_def fold_map comp_def)
  then show ?thesis by (simp add: preview_rules_def)
qed

lemma script_source_clear: "script_source ipn doms (clear_ports r) s ls = script_source ipn doms r s ls"
  unfolding script_source_def nft_conditions_def nft_action_def outbound_name_def Let_def clear_ports_simps by (rule refl)

lemma script_sources_clear: "script_sources ipn doms (clear_ports r) ss = script_sources ipn doms r ss"
proof (induction ss)
  case Nil
  show ?case by (rule ext) simp
next
  case (Cons s ss)
  show ?case by (rule ext) (simp add: script_source_clear Cons.IH)
qed

lemma script_rules_clear: "script_rules ipn doms sources rep (map clear_ports rules) = script_rules ipn doms sources rep rules"
proof (induction rules)
  case Nil
  show ?case by simp
next
  case (Cons r rules)
  show ?case by (rule ext) (simp add: script_sources_clear Cons.IH)
qed

text \<open>
  The kernel classifier loses port conditions: neither the support check nor the rendering reads \<open>ports\<close> or
  \<open>port_ranges\<close>, so erasing them from any rule set changes neither the report nor the nft script.
  A valid rule that blocks one port is reported as applied and drops all traffic of the subnet.
\<close>
lemma kernel_rules_ignore_ports:
  "preview_rules doms sources (map clear_ports rules) = preview_rules doms sources rules \<and>
   nft_script ipn doms sources (map clear_ports rules) rep = nft_script ipn doms sources rules rep \<and>
   validate_rule (block_port p) = Inr (block_port p) \<and>
   (let src = [subnet_source core tag (CHR ''1'' # net)]; rep' = preview_rules doms src [block_port p]
    in rep_applied rep' = [(core, [''block-port''])] \<and> rep_unsupported rep' = [] \<and>
       script_rules ipn doms src rep' [block_port p] \<lparr>prerouting = [], output_chain = [], output_nat = []\<rparr> =
         Some \<lparr>prerouting = [([SAddr (CHR ''1'' # net)], NftDrop)], output_chain = [], output_nat = []\<rparr>)"
proof (intro conjI)
  show "preview_rules doms sources (map clear_ports rules) = preview_rules doms sources rules" by (rule preview_clear)
  show "nft_script ipn doms sources (map clear_ports rules) rep = nft_script ipn doms sources rules rep"
    by (simp add: nft_script_def script_rules_clear)
  show "validate_rule (block_port p) = Inr (block_port p)"
    by (simp add: validate_rule_def block_port_def is_empty_matcher_def used_fields_def matcher_fields_def blank_matcher_def)
  define src where "src = [subnet_source core tag (CHR ''1'' # net)]"
  have gap: "rule_gap doms src (block_port p) = None"
    by (simp add: rule_gap_def service_unsupported_def inspected_fields_def block_port_def blank_matcher_def src_def
        subnet_source_def unavailable_def)
  have grp: "by_core src = [(core, src)]" by (simp add: by_core_def src_def subnet_source_def append_at_def)
  have rep': "rep_applied (preview_rules doms src [block_port p]) = [(core, [''block-port''])]"
    "rep_unsupported (preview_rules doms src [block_port p]) = []"
    using gap unfolding preview_rules_def grp
    by (simp_all add: preview_core_def preview_rule_def block_port_def blank_matcher_def append_at_def Let_def)
  have sn: "supported_names (preview_rules doms src [block_port p]) = {''block-port''}" by (simp add: supported_names_def rep')
  have "script_rules ipn doms src (preview_rules doms src [block_port p]) [block_port p] \<lparr>prerouting = [], output_chain = [], output_nat = []\<rparr> =
         Some \<lparr>prerouting = [([SAddr (CHR ''1'' # net)], NftDrop)], output_chain = [], output_nat = []\<rparr>"
    unfolding script_rules.simps sn
    by (simp add: src_def script_source_def nft_conditions_def nft_action_def l4_protocols_def
        block_port_def blank_matcher_def subnet_source_def unavailable_def add_line_def)
  then show "let src = [subnet_source core tag (CHR ''1'' # net)]; rep' = preview_rules doms src [block_port p]
    in rep_applied rep' = [(core, [''block-port''])] \<and> rep_unsupported rep' = [] \<and>
       script_rules ipn doms src rep' [block_port p] \<lparr>prerouting = [], output_chain = [], output_nat = []\<rparr> =
         Some \<lparr>prerouting = [([SAddr (CHR ''1'' # net)], NftDrop)], output_chain = [], output_nat = []\<rparr>"
    using rep' by (simp add: src_def Let_def)
qed

end
