(* ===== verification/RoutingEngine.thy ===== *)
theory RoutingEngine
  imports RoutingPolicy
begin

text \<open>
  \<open>app/cores/routing/engine.py\<close>: validation of a rule set, its dry preview and its deployment over the
  cores. Drivers' translators and the host policy plane are the arguments they are in the code;
  \<open>RoutingPolicy\<close> models the plane itself, and the accounting theorem composes the two.
\<close>

section \<open>The engine\<close>

record 'd route_driver =
  supports_routing :: bool
  translate_rules :: "routing_rule list \<Rightarrow> route_context \<Rightarrow> 'd \<Rightarrow> string + translated_route"
  deploy_rules :: "routing_rule list \<Rightarrow> route_context \<Rightarrow> 'd \<Rightarrow> (string + translated_route) \<times> 'd"
  driver_state :: 'd

record ('d, 'p) routing_engine =
  re_cores :: "(string, 'd route_driver) dict"
  re_policy :: "'p option"
  re_last_report :: "deployment_report option"
  re_events :: "(string list \<times> (string, string list) dict) list"

fun check_names :: "string list \<Rightarrow> routing_rule list \<Rightarrow> bool" where
  "check_names seen [] = True"
| "check_names seen (r # rs) = (if rname r \<in> set seen then False else check_names (rname r # seen) rs)"

definition validate_rules :: "routing_rule list \<Rightarrow> string + routing_rule list" where
  "validate_rules rules =
     (if check_names [] rules then Inr (sort_key (\<lambda>r. (priority r, rname r)) rules) else Inl ''CoreError'')"

definition host_rules :: "routing_rule list \<Rightarrow> routing_rule list" where
  "host_rules rules = filter (\<lambda>r. enabled r \<and> \<not> targets_nodes_only (scope r)) rules"

definition skipped_rules :: "routing_rule list \<Rightarrow> (string \<times> int list) list" where
  "skipped_rules rules = map (\<lambda>r. (rname r, nodes (scope r))) (filter (\<lambda>r. enabled r \<and> targets_nodes_only (scope r)) rules)"

definition POLICY_CORES :: "string list" where
  "POLICY_CORES = [''openvpn'', ''wireguard'', ''softether'', ''ssh'', ''pptp'']"

definition uses_policy :: "string list \<Rightarrow> bool" where
  "uses_policy targets \<longleftrightarrow> list_ex (\<lambda>c. c \<in> set POLICY_CORES) targets"

definition lookup_list :: "(string, 'a list) dict \<Rightarrow> string \<Rightarrow> 'a list" where
  "lookup_list d k = (case dict_get d k of None \<Rightarrow> [] | Some xs \<Rightarrow> xs)"

text \<open>The result of a core whose driver has no routing capability.\<close>

definition plane_result :: "policy_report option \<Rightarrow> routing_rule list \<Rightarrow> string \<Rightarrow> translated_route" where
  "plane_result policy rules core_id =
     (case policy of
        Some rep \<Rightarrow>
          \<lparr>tr_core_id = core_id, applied = lookup_list (rep_applied rep) core_id,
           unsupported = lookup_list (rep_unsupported rep) core_id, tr_notes = lookup_list (rep_notes rep) core_id\<rparr>
      | None \<Rightarrow>
          \<lparr>tr_core_id = core_id, applied = [],
           unsupported = map (\<lambda>r. \<lparr>urule = rname r,
             reason = ''Core '' @ [CHR 0x27] @ core_id @ [CHR 0x27] @ '' has no routing support.'', ufields = []\<rparr>) rules,
           tr_notes = [''routing rules are ignored by this core by design'']\<rparr>)"

fun preview_targets ::
  "(string, 'd route_driver) dict \<Rightarrow> policy_report option \<Rightarrow> routing_rule list \<Rightarrow> route_context \<Rightarrow> string list
     \<Rightarrow> (string, translated_route) dict \<Rightarrow> string + (string, translated_route) dict"
where
  "preview_targets cores policy rules ctx [] res = Inr res"
| "preview_targets cores policy rules ctx (cid # cids) res =
     (case dict_get cores cid of
        None \<Rightarrow> preview_targets cores policy rules ctx cids res
      | Some drv \<Rightarrow>
          if \<not> supports_routing drv then preview_targets cores policy rules ctx cids (dict_set cid (plane_result policy rules cid) res)
          else rbind (translate_rules drv rules ctx (driver_state drv)) (\<lambda>t.
            preview_targets cores policy rules ctx cids (dict_set cid t res)))"

definition target_cores :: "('d, 'p) routing_engine \<Rightarrow> string list option \<Rightarrow> string list" where
  "target_cores e core_ids = (case core_ids of Some ids \<Rightarrow> ids | None \<Rightarrow> dict_keys (re_cores e))"

definition preview ::
  "(routing_rule list \<Rightarrow> 'p \<Rightarrow> string + policy_report) \<Rightarrow> ('d, 'p) routing_engine \<Rightarrow> routing_rule list \<Rightarrow> string list option
     \<Rightarrow> string list \<Rightarrow> string + deployment_report"
where
  "preview preview_plane e rules core_ids outbounds =
     rbind (validate_rules rules) (\<lambda>all_rules.
     let normalized = host_rules all_rules; ctx = \<lparr>available_outbounds = outbounds\<rparr>; targets = target_cores e core_ids
     in rbind (case re_policy e of
                 Some p \<Rightarrow> if uses_policy targets then map_sum id Some (preview_plane normalized p) else Inr None
               | None \<Rightarrow> Inr None) (\<lambda>policy.
        rbind (preview_targets (re_cores e) policy normalized ctx targets []) (\<lambda>res.
          Inr \<lparr>results = res, skipped_by_scope = skipped_rules all_rules\<rparr>)))"

text \<open>Deployment threads the drivers; a driver that raises leaves the earlier cores deployed.\<close>

fun deploy_targets ::
  "policy_report option \<Rightarrow> routing_rule list \<Rightarrow> route_context \<Rightarrow> string list \<Rightarrow> (string, 'd route_driver) dict
     \<Rightarrow> (string, translated_route) dict \<Rightarrow> (string + (string, translated_route) dict) \<times> (string, 'd route_driver) dict"
where
  "deploy_targets policy rules ctx [] cores res = (Inr res, cores)"
| "deploy_targets policy rules ctx (cid # cids) cores res =
     (case dict_get cores cid of
        None \<Rightarrow> deploy_targets policy rules ctx cids cores res
      | Some drv \<Rightarrow>
          if \<not> supports_routing drv then deploy_targets policy rules ctx cids cores (dict_set cid (plane_result policy rules cid) res)
          else case deploy_rules drv rules ctx (driver_state drv) of
            (Inl e, d) \<Rightarrow> (Inl e, dict_set cid (drv\<lparr>driver_state := d\<rparr>) cores)
          | (Inr t, d) \<Rightarrow> deploy_targets policy rules ctx cids (dict_set cid (drv\<lparr>driver_state := d\<rparr>) cores) (dict_set cid t res))"

definition deploy_event :: "routing_rule list \<Rightarrow> (string, translated_route) dict \<Rightarrow> string list \<times> (string, string list) dict" where
  "deploy_event rules res =
     (map rname rules, map (\<lambda>(cid, t). (cid, map urule (unsupported t))) (filter (\<lambda>(cid, t). unsupported t \<noteq> []) res))"

definition deploy ::
  "(routing_rule list \<Rightarrow> 'p \<Rightarrow> (string + policy_report) \<times> 'p) \<Rightarrow> routing_rule list \<Rightarrow> string list option \<Rightarrow> string list
     \<Rightarrow> ('d, 'p) routing_engine \<Rightarrow> (string + deployment_report) \<times> ('d, 'p) routing_engine"
where
  "deploy apply_plane rules core_ids outbounds e =
     (case validate_rules rules of
        Inl err \<Rightarrow> (Inl err, e)
      | Inr all_rules \<Rightarrow>
          let normalized = host_rules all_rules; ctx = \<lparr>available_outbounds = outbounds\<rparr>; targets = target_cores e core_ids;
              (policy, e1) =
                (case re_policy e of
                   Some p \<Rightarrow> if uses_policy targets
                     then (case apply_plane normalized p of (r, p') \<Rightarrow> (map_sum id Some r, e\<lparr>re_policy := Some p'\<rparr>))
                     else (Inr None, e)
                 | None \<Rightarrow> (Inr None, e))
          in case policy of
               Inl err \<Rightarrow> (Inl err, e1)
             | Inr pol \<Rightarrow>
                 (case deploy_targets pol normalized ctx targets (re_cores e1) [] of
                    (Inl err, cores) \<Rightarrow> (Inl err, e1\<lparr>re_cores := cores\<rparr>)
                  | (Inr res, cores) \<Rightarrow>
                      let report = \<lparr>results = res, skipped_by_scope = skipped_rules all_rules\<rparr>
                      in (Inr report, e1\<lparr>re_cores := cores, re_last_report := Some report,
                            re_events := re_events e1 @ [deploy_event normalized res]\<rparr>)))"

section \<open>Validation\<close>

lemma check_names_distinct: "check_names seen rs \<longleftrightarrow> distinct (map rname rs) \<and> set seen \<inter> set (map rname rs) = {}"
  by (induction rs arbitrary: seen) auto

lemma validate_rules_ok: "validate_rules rules = Inr all \<Longrightarrow> distinct (map rname all) \<and> set all = set rules"
  by (auto simp: validate_rules_def check_names_distinct split: if_splits)

section \<open>What the policy plane accounts for\<close>

definition plane_acc :: "policy_report \<Rightarrow> string \<Rightarrow> string \<Rightarrow> bool" where
  "plane_acc rep core n \<longleftrightarrow> n \<in> set (lookup_list (rep_applied rep) core) \<or> n \<in> urule ` set (lookup_list (rep_unsupported rep) core)"

lemma lookup_append_at: "lookup_list (append_at k vs d) k' = (if k' = k then lookup_list d k @ vs else lookup_list d k')"
  by (simp add: lookup_list_def append_at_def)

lemma rule_gap_name: "rule_gap doms ss r = Some g \<Longrightarrow> urule g = rname r"
  by (auto simp: rule_gap_def service_unsupported_def Let_def split: option.splits if_splits list.splits)

definition rule_hits :: "routing_rule \<Rightarrow> traffic_source list \<Rightarrow> bool" where
  "rule_hits r ss \<longleftrightarrow> inbounds (matcher r) = [] \<or> (\<exists>s \<in> set ss. inbound_tag s \<in> set (inbounds (matcher r)))"

lemma preview_rule_acc:
  "plane_acc (preview_rule doms c ss r rep) c' n \<longleftrightarrow> plane_acc rep c' n \<or> (c' = c \<and> n = rname r \<and> rule_hits r ss)"
proof (cases "rule_hits r ss")
  case False
  then show ?thesis by (auto simp: preview_rule_def rule_hits_def list_ex_iff)
next
  case True
  then have hit: "\<not> (inbounds (matcher r) \<noteq> [] \<and> \<not> list_ex (\<lambda>s. inbound_tag s \<in> set (inbounds (matcher r))) ss)"
    by (auto simp: rule_hits_def list_ex_iff)
  show ?thesis
  proof (cases "rule_gap doms ss r")
    case None
    then show ?thesis using hit True by (auto simp: preview_rule_def plane_acc_def lookup_append_at)
  next
    case (Some g)
    then show ?thesis using hit True rule_gap_name [OF Some] by (auto simp: preview_rule_def plane_acc_def lookup_append_at)
  qed
qed

lemma preview_fold_acc:
  "plane_acc (fold (preview_rule doms c ss) rules rep) c' n \<longleftrightarrow>
    plane_acc rep c' n \<or> (c' = c \<and> (\<exists>r \<in> set rules. n = rname r \<and> rule_hits r ss))"
  by (induction rules arbitrary: rep) (auto simp: preview_rule_acc)

lemma preview_core_acc:
  "plane_acc (preview_core doms rules (c, ss) rep) c' n \<longleftrightarrow>
    plane_acc rep c' n \<or> (c' = c \<and> (\<exists>r \<in> set rules. n = rname r \<and> rule_hits r ss))"
proof -
  have "plane_acc (preview_core doms rules (c, ss) rep) c' n \<longleftrightarrow> plane_acc (fold (preview_rule doms c ss) rules rep) c' n"
    by (simp add: preview_core_def Let_def plane_acc_def)
  then show ?thesis unfolding preview_fold_acc .
qed

lemma preview_cores_acc:
  "plane_acc (fold (preview_core doms rules) groups rep) c' n \<longleftrightarrow>
    plane_acc rep c' n \<or> (\<exists>ss. (c', ss) \<in> set groups \<and> (\<exists>r \<in> set rules. n = rname r \<and> rule_hits r ss))"
proof (induction groups arbitrary: rep)
  case Nil
  then show ?case by simp
next
  case (Cons p groups)
  obtain c ss where p: "p = (c, ss)" by (cases p)
  show ?case using Cons.IH [of "preview_core doms rules (c, ss) rep"] preview_core_acc [of doms rules c ss rep c' n] p by auto
qed

lemma by_core_fold:
  "dict_ok d \<Longrightarrow> dict_ok (fold (\<lambda>s. append_at (ts_core s) [s]) sources d) \<and>
    lookup_list (fold (\<lambda>s. append_at (ts_core s) [s]) sources d) c = lookup_list d c @ filter (\<lambda>s. ts_core s = c) sources"
proof (induction sources arbitrary: d)
  case Nil
  then show ?case by simp
next
  case (Cons s sources)
  have "dict_ok (append_at (ts_core s) [s] d)" using Cons.prems by (simp add: append_at_def)
  then show ?case using Cons.IH [of "append_at (ts_core s) [s] d"] by (simp add: lookup_append_at)
qed

lemma by_core_nonempty: "(c, ss) \<in> set (by_core sources) \<Longrightarrow> ss \<noteq> []"
proof -
  have "\<forall>(c, ss) \<in> set (fold (\<lambda>s. append_at (ts_core s) [s]) xs d). ss \<noteq> []" if "\<forall>(c, ss) \<in> set d. ss \<noteq> []" for xs and d :: "(string, traffic_source list) dict"
    using that
  proof (induction xs arbitrary: d)
    case Nil
    then show ?case by simp
  next
    case (Cons s xs)
    have "\<forall>(c, ss) \<in> set (append_at (ts_core s) [s] d). ss \<noteq> []"
      using Cons.prems set_dict_set [of "ts_core s" _ d] by (fastforce simp: append_at_def)
    then show ?case using Cons.IH by simp
  qed
  from this [of "[]" sources] show "(c, ss) \<in> set (by_core sources) \<Longrightarrow> ss \<noteq> []" by (auto simp: by_core_def)
qed

lemma by_core_member: "(c, ss) \<in> set (by_core sources) \<longleftrightarrow> ss = filter (\<lambda>s. ts_core s = c) sources \<and> ss \<noteq> []"
proof -
  have ok: "dict_ok (by_core sources)" and lk: "lookup_list (by_core sources) c = filter (\<lambda>s. ts_core s = c) sources"
    using by_core_fold [of "[]" sources c] by (simp_all add: by_core_def lookup_list_def)
  have mem: "(c, ss) \<in> set (by_core sources) \<longleftrightarrow> dict_get (by_core sources) c = Some ss" using ok by simp
  show ?thesis
  proof
    assume a: "(c, ss) \<in> set (by_core sources)"
    then show "ss = filter (\<lambda>s. ts_core s = c) sources \<and> ss \<noteq> []" using lk mem by_core_nonempty [OF a] by (simp add: lookup_list_def)
  next
    assume "ss = filter (\<lambda>s. ts_core s = c) sources \<and> ss \<noteq> []"
    then show "(c, ss) \<in> set (by_core sources)" using lk mem by (auto simp: lookup_list_def split: option.splits)
  qed
qed

lemma preview_rules_acc:
  assumes "distinct (map rname rules)" "r \<in> set rules"
  shows "plane_acc (preview_rules doms sources rules) core (rname r) \<longleftrightarrow> (\<exists>s \<in> set sources. ts_core s = core \<and> selects r s)"
proof -
  have uniq: "r' = r" if "r' \<in> set rules" "rname r = rname r'" for r'
    using assms that by (auto simp: distinct_map inj_on_def)
  have "plane_acc (preview_rules doms sources rules) core (rname r) \<longleftrightarrow>
      (\<exists>ss. (core, ss) \<in> set (by_core sources) \<and> (\<exists>r' \<in> set rules. rname r = rname r' \<and> rule_hits r' ss))"
    unfolding preview_rules_def preview_cores_acc by (simp add: plane_acc_def lookup_list_def)
  also have "\<dots> \<longleftrightarrow> (\<exists>ss. (core, ss) \<in> set (by_core sources) \<and> rule_hits r ss)"
    using uniq assms(2) by blast
  also have "\<dots> \<longleftrightarrow> (\<exists>s \<in> set sources. ts_core s = core \<and> selects r s)"
    unfolding by_core_member by (auto simp: rule_hits_def selects_def filter_empty_conv)
  finally show ?thesis .
qed

section \<open>Accounting\<close>

text \<open>The contract of a driver's translator: every rule it is given appears in its result.\<close>

definition translators_account :: "(string, 'd route_driver) dict \<Rightarrow> bool" where
  "translators_account cores \<longleftrightarrow>
     (\<forall>(c, drv) \<in> set cores. \<forall>rules ctx d t. translate_rules drv rules ctx d = Inr t \<longrightarrow> (\<forall>r \<in> set rules. accounted t (rname r)))"

lemma preview_targets_spec:
  "preview_targets cores policy rules ctx targets res = Inr res' \<Longrightarrow> translators_account cores \<Longrightarrow>
    (\<forall>cid. cid \<notin> set targets \<longrightarrow> dict_get res' cid = dict_get res cid) \<and>
    (\<forall>cid drv. cid \<in> set targets \<longrightarrow> dict_get cores cid = Some drv \<longrightarrow>
      (\<exists>t. dict_get res' cid = Some t \<and>
        (if supports_routing drv then \<forall>r \<in> set rules. accounted t (rname r) else t = plane_result policy rules cid)))"
proof (induction targets arbitrary: res)
  case Nil
  then show ?case by simp
next
  case (Cons c targets)
  define good where "good res' cid drv \<longleftrightarrow> (\<exists>t. dict_get res' cid = Some t \<and>
        (if supports_routing drv then \<forall>r \<in> set rules. accounted t (rname r) else t = plane_result policy rules cid))"
    for res' cid and drv :: "'a route_driver"
  show ?case
  proof (cases "dict_get cores c")
    case None
    then show ?thesis using Cons.IH [of res] Cons.prems by auto
  next
    case (Some drv)
    obtain t where t: "preview_targets cores policy rules ctx targets (dict_set c t res) = Inr res'"
        "if supports_routing drv then \<forall>r \<in> set rules. accounted t (rname r) else t = plane_result policy rules c"
    proof (cases "supports_routing drv")
      case True
      then obtain t where t: "translate_rules drv rules ctx (driver_state drv) = Inr t"
          "preview_targets cores policy rules ctx targets (dict_set c t res) = Inr res'"
        using Cons.prems(1) Some by (auto simp: rbind_Inr_iff)
      have "(c, drv) \<in> set cores" using Some by (rule map_of_SomeD)
      then have "\<forall>r \<in> set rules. accounted t (rname r)" using Cons.prems(2) t(1) unfolding translators_account_def by blast
      then show ?thesis using that t(2) True by simp
    next
      case False
      then show ?thesis using that [of "plane_result policy rules c"] Cons.prems(1) Some by simp
    qed
    note ih = Cons.IH [OF t(1) Cons.prems(2)]
    have "dict_get res' c = Some t \<or> c \<in> set targets" using ih by (cases "c \<in> set targets") auto
    then have "good res' c drv" using ih Some t(2) unfolding good_def by blast
    then show ?thesis using ih Some unfolding good_def by auto
  qed
qed

text \<open>
  The preview accounts for rules exactly as follows. On a core with its own translator, every enabled rule
  of this host is applied or reported. On a core that the host policy plane serves, a rule is
  accounted for if and only if some traffic source of that core exists and is selected by the rule: a rule
  whose inbounds name no source of the core, or any rule on a core without sources, is in neither list,
  although the engine promises that nothing is dropped silently.
\<close>
lemma preview_accounting_exact:
  assumes "re_policy e = Some p" "uses_policy (target_cores e core_ids)" "translators_account (re_cores e)"
    and run: "preview (\<lambda>rs _. Inr (preview_rules doms sources rs)) e rules core_ids outbounds = Inr report"
    and core: "cid \<in> set (target_cores e core_ids)" "dict_get (re_cores e) cid = Some drv"
    and r: "r \<in> set rules" "enabled r" "\<not> targets_nodes_only (scope r)"
  shows "\<exists>t. dict_get (results report) cid = Some t \<and>
    (accounted t (rname r) \<longleftrightarrow> supports_routing drv \<or> (\<exists>s \<in> set sources. ts_core s = cid \<and> selects r s))"
proof -
  obtain all where v: "validate_rules rules = Inr all" using run by (auto simp: preview_def rbind_Inr_iff)
  define norm where "norm = host_rules all"
  have norm: "distinct (map rname norm)" "r \<in> set norm"
    using validate_rules_ok [OF v] r by (auto simp: norm_def host_rules_def distinct_map_filter)
  define pol where "pol = Some (preview_rules doms sources norm)"
  obtain res where res: "preview_targets (re_cores e) pol norm \<lparr>available_outbounds = outbounds\<rparr> (target_cores e core_ids) [] = Inr res"
      "results report = res"
    using run assms(1,2) v by (auto simp: preview_def rbind_Inr_iff Let_def norm_def pol_def)
  obtain t where t: "dict_get res cid = Some t"
      "if supports_routing drv then \<forall>r \<in> set norm. accounted t (rname r) else t = plane_result pol norm cid"
    using preview_targets_spec [OF res(1) assms(3)] core by blast
  have "accounted t (rname r) \<longleftrightarrow> supports_routing drv \<or> (\<exists>s \<in> set sources. ts_core s = cid \<and> selects r s)"
  proof (cases "supports_routing drv")
    case True
    then show ?thesis using t(2) norm(2) by simp
  next
    case False
    then have "accounted t (rname r) \<longleftrightarrow> plane_acc (preview_rules doms sources norm) cid (rname r)"
      using t(2) by (simp add: plane_result_def pol_def accounted_def plane_acc_def)
    then show ?thesis using preview_rules_acc [OF norm] False by simp
  qed
  then show ?thesis using t(1) res(2) by blast
qed

definition ex_engine :: "(unit, unit) routing_engine" where
  "ex_engine = \<lparr>re_cores = [(''openvpn'', \<lparr>supports_routing = False, translate_rules = \<lambda>_ _ _. Inl ''unused'',
     deploy_rules = \<lambda>_ _ d. (Inl ''unused'', d), driver_state = ()\<rparr>)], re_policy = Some (), re_last_report = None, re_events = []\<rparr>"

text \<open>A rule for another inbound: the only core of the engine neither applies nor reports it.\<close>

lemma preview_accounting_exact_example:
  "\<exists>report t. preview (\<lambda>rs _. Inr (preview_rules [] [subnet_source ''openvpn'' ''ovpn'' ''10.8.0.0/24''] rs)) ex_engine
      [block_port 25\<lparr>matcher := blank_matcher\<lparr>inbounds := [''reality-in'']\<rparr>\<rparr>] None [] = Inr report \<and>
    dict_get (results report) ''openvpn'' = Some t \<and> \<not> accounted t ''block-port''"
proof -
  let ?rule = "block_port 25\<lparr>matcher := blank_matcher\<lparr>inbounds := [''reality-in'']\<rparr>\<rparr>"
  have ex: "re_policy ex_engine = Some ()" "uses_policy (target_cores ex_engine None)" "translators_account (re_cores ex_engine)"
    by (simp_all add: ex_engine_def uses_policy_def target_cores_def POLICY_CORES_def translators_account_def)
  obtain report where run: "preview (\<lambda>rs _. Inr (preview_rules [] [subnet_source ''openvpn'' ''ovpn'' ''10.8.0.0/24''] rs)) ex_engine [?rule] None [] = Inr report"
    using ex by (simp add: preview_def validate_rules_def ex_engine_def target_cores_def Let_def)
  show ?thesis
    using preview_accounting_exact [OF ex run, of "''openvpn''" _ ?rule] run
    by (auto simp: ex_engine_def target_cores_def block_port_def targets_nodes_only_def subnet_source_def selects_def)
qed

text \<open>A successful deployment is what \<open>last_report\<close> returns, and its event lists the rules and the gaps of the report.\<close>

lemma deploy_publishes:
  assumes "deploy apply_plane rules core_ids outbounds e = (Inr report, e')"
  shows "re_last_report e' = Some report \<and>
    (\<exists>all. validate_rules rules = Inr all \<and> last (re_events e') = deploy_event (host_rules all) (results report) \<and>
       skipped_by_scope report = skipped_rules all)"
  using assms by (auto simp: deploy_def Let_def split: sum.splits option.splits prod.splits if_splits)

end
