(* ===== verification/IpLimits.thy ===== *)
theory IpLimits
  imports PyValue
begin

text \<open>
  \<open>app/platform/ip_limits.py\<close>: the cross-core source-address ceiling. Instants are whole microseconds since
  the epoch (every datetime here is UTC-aware), the event-loop clock is in milliseconds. The ban
  table is the list of its rows in id order; a session that commits is the updated list. Address
  parsing (\<open>ipaddress\<close>), the drivers' answers, the node client and the command runner are parameters.
  Main results: overflow addresses are exactly those after the earliest \<open>ip_limit\<close> ones, and over any
  sequence of reviews and revocations a user and address have at most one active ban.
\<close>

section \<open>Settings\<close>

definition DEFAULT_BAN_MINUTES :: int where "DEFAULT_BAN_MINUTES = 15"
definition DEFAULT_REVIEW_SECONDS :: int where "DEFAULT_REVIEW_SECONDS = 5"

record limit_settings =
  ban_duration_minutes :: int
  review_interval_seconds :: int

definition load_settings :: "(string, pyval) dict \<Rightarrow> py_error + limit_settings" where
  "load_settings raw =
     rbind (py_int (py_or (vget raw ''ban_duration_minutes'') (VInt DEFAULT_BAN_MINUTES))) (\<lambda>b.
     rbind (py_int (py_or (vget raw ''review_interval_seconds'') (VInt DEFAULT_REVIEW_SECONDS))) (\<lambda>r.
       Inr \<lparr>ban_duration_minutes = max 1 (min 10080 b), review_interval_seconds = max 5 (min 300 r)\<rparr>))"

definition save_settings :: "int \<Rightarrow> int \<Rightarrow> py_error + (string, pyval) dict" where
  "save_settings minutes seconds =
     (if \<not> (1 \<le> minutes \<and> minutes \<le> 10080) then Inl ValueError
      else if \<not> (5 \<le> seconds \<and> seconds \<le> 300) then Inl ValueError
      else Inr [(''ban_duration_minutes'', VInt minutes), (''review_interval_seconds'', VInt seconds)])"

lemma settings_roundtrip:
  "save_settings m s = Inr d \<Longrightarrow> load_settings d = Inr \<lparr>ban_duration_minutes = m, review_interval_seconds = s\<rparr>"
  by (auto simp: save_settings_def load_settings_def vget_def py_or_def split: if_splits)

section \<open>Observations\<close>

text \<open>The last-activity and metadata columns of a row are only displayed and are left out.\<close>

record device_row =
  row_core :: string
  row_account :: string
  row_ip :: string
  row_connected :: "int option"

record monitor_row =
  mon_user :: int
  mon_core :: string
  mon_account :: string
  mon_node :: "int option"
  mon_ip :: "string option"
  mon_connected :: "int option"

text \<open>A core as one poll sees it: whether it is enabled, its driver if any, and the driver's answer, which may raise.\<close>

record polled_core =
  pc_enabled :: bool
  pc_driver :: "(bool \<times> device_row list option) option"

record poll_state =
  monitor_rows :: "monitor_row list"
  online_users :: "int set"
  failed :: "string list"
  probed :: nat

definition owner_of ::
  "((string \<times> string), int) dict \<Rightarrow> (string \<Rightarrow> int option) \<Rightarrow> bool \<Rightarrow> string \<Rightarrow> string \<Rightarrow> int option"
where
  "owner_of owners xray_owner is_xray core account =
     (case dict_get owners (core, account) of
        Some u \<Rightarrow> Some u
      | None \<Rightarrow> if is_xray then xray_owner account else None)"

definition observe_row ::
  "((string \<times> string), int) dict \<Rightarrow> (string \<Rightarrow> int option) \<Rightarrow> (string \<Rightarrow> string option) \<Rightarrow> string \<Rightarrow> int option \<Rightarrow> device_row
     \<Rightarrow> poll_state \<Rightarrow> poll_state"
where
  "observe_row owners xray_owner canonical core_id node row p =
     (case owner_of owners xray_owner (core_id = ''xray'') (row_core row) (row_account row) of
        None \<Rightarrow> p
      | Some u \<Rightarrow>
          p\<lparr>online_users := insert u (online_users p),
            monitor_rows := monitor_rows p @ [\<lparr>mon_user = u, mon_core = row_core row, mon_account = row_account row,
              mon_node = node, mon_ip = canonical (row_ip row), mon_connected = row_connected row\<rparr>]\<rparr>)"

definition poll_core ::
  "((string \<times> string), int) dict \<Rightarrow> (string \<Rightarrow> int option) \<Rightarrow> (string \<Rightarrow> string option) \<Rightarrow> string \<times> polled_core \<Rightarrow> poll_state \<Rightarrow> poll_state"
where
  "poll_core owners xray_owner canonical c p =
     (let (core_id, core) = c
      in if \<not> pc_enabled core then p
         else case pc_driver core of
           None \<Rightarrow> p
         | Some (tracking, rows) \<Rightarrow>
             if \<not> tracking then p
             else case rows of
               None \<Rightarrow> p\<lparr>failed := failed p @ [core_id]\<rparr>
             | Some rs \<Rightarrow> fold (observe_row owners xray_owner canonical core_id None) rs (p\<lparr>probed := probed p + 1\<rparr>))"

text \<open>The earliest instant per user and address: the persisted first sighting, or the connection time when earlier.\<close>

definition first_seen :: "((int \<times> string), int) dict \<Rightarrow> int \<Rightarrow> monitor_row \<Rightarrow> string \<Rightarrow> int" where
  "first_seen first_by_ip now row ip =
     (let first = (case dict_get first_by_ip (mon_user row, ip) of Some t \<Rightarrow> t | None \<Rightarrow> now)
      in case mon_connected row of Some t \<Rightarrow> min first t | None \<Rightarrow> first)"

definition observe_address ::
  "((int \<times> string), int) dict \<Rightarrow> int \<Rightarrow> monitor_row \<Rightarrow> (int, (string, int) dict) dict \<Rightarrow> (int, (string, int) dict) dict"
where
  "observe_address first_by_ip now row observed =
     (case mon_ip row of
        None \<Rightarrow> observed
      | Some ip \<Rightarrow>
          if ip = [] then observed
          else
            let first = first_seen first_by_ip now row ip;
                mine = (case dict_get observed (mon_user row) of Some d \<Rightarrow> d | None \<Rightarrow> []);
                old = (case dict_get mine ip of Some t \<Rightarrow> t | None \<Rightarrow> first)
            in dict_set (mon_user row) (dict_set ip (min old first) mine) observed)"

definition aggregate_observed ::
  "((int \<times> string), int) dict \<Rightarrow> int \<Rightarrow> monitor_row list \<Rightarrow> (int, (string, int) dict) dict"
where
  "aggregate_observed first_by_ip now rows = fold (observe_address first_by_ip now) rows []"

section \<open>The ban table\<close>

record ban_row =
  ban_id :: int
  ban_user :: int
  ban_ip :: string
  banned_at :: int
  expires_at :: int
  ban_active :: bool

definition expire_rows :: "int \<Rightarrow> ban_row list \<Rightarrow> ban_row list" where
  "expire_rows now table = map (\<lambda>b. if ban_active b \<and> expires_at b \<le> now then b\<lparr>ban_active := False\<rparr> else b) table"

definition expire_and_load :: "int \<Rightarrow> ban_row list \<Rightarrow> ban_row list \<times> nat \<times> ban_row list" where
  "expire_and_load now table =
     (let table' = expire_rows now table
      in (filter (\<lambda>b. ban_active b \<and> now < expires_at b) table',
          length (filter (\<lambda>b. ban_active b \<and> expires_at b \<le> now) table), table'))"

definition limits_of :: "(int \<times> int option) list \<Rightarrow> (int, int) dict" where
  "limits_of users = List.map_filter (\<lambda>(u, l). case l of Some n \<Rightarrow> if 0 < n then Some (u, n) else None | None \<Rightarrow> None) users"

definition next_id :: "ban_row list \<Rightarrow> int" where
  "next_id table = fold max (map ban_id table) 0 + 1"

definition new_ban :: "int \<Rightarrow> int \<Rightarrow> ban_row list \<Rightarrow> int \<times> string \<Rightarrow> ban_row" where
  "new_ban now minutes table c =
     \<lparr>ban_id = next_id table, ban_user = fst c, ban_ip = snd c, banned_at = now, expires_at = now + minutes * 60000000, ban_active = True\<rparr>"

definition insert_bans :: "int \<Rightarrow> int \<Rightarrow> (int \<times> string) list \<Rightarrow> ban_row list \<Rightarrow> ban_row list \<times> ban_row list" where
  "insert_bans now minutes candidates table =
     fold (\<lambda>c (created, t). let b = new_ban now minutes t c in (created @ [b], t @ [b])) candidates ([], table)"

definition revoke_ban :: "int \<Rightarrow> ban_row list \<Rightarrow> bool \<times> ban_row list" where
  "revoke_ban i table =
     (if list_ex (\<lambda>b. ban_id b = i) table
      then (True, map (\<lambda>b. if ban_id b = i then b\<lparr>ban_active := False\<rparr> else b) table)
      else (False, table))"

text \<open>At most 500 rows, the newest first; the state column is recomputed.\<close>

definition list_bans :: "bool \<Rightarrow> int \<Rightarrow> ban_row list \<Rightarrow> ban_row list \<times> ban_row list" where
  "list_bans active_only now table =
     (let (_, _, table') = expire_and_load now table;
          rows = sort_key (\<lambda>b. - banned_at b) (if active_only then filter (\<lambda>b. ban_active b \<and> now < expires_at b) table' else table')
      in (map (\<lambda>b. b\<lparr>ban_active := ban_active b \<and> now < expires_at b\<rparr>) (take 500 rows), table'))"

section \<open>Choosing overflow addresses\<close>

definition available_ips :: "string set \<Rightarrow> (string, int) dict \<Rightarrow> (string \<times> int) list" where
  "available_ips banned mine = sort_key (\<lambda>p. (snd p, fst p)) (filter (\<lambda>p. fst p \<notin> banned) mine)"

definition user_overflow ::
  "string set \<Rightarrow> (int \<times> string) set \<Rightarrow> (int, (string, int) dict) dict \<Rightarrow> int \<times> int \<Rightarrow> (int \<times> string) list"
where
  "user_overflow banned active observed ul =
     (let (u, limit) = ul; mine = (case dict_get observed u of Some d \<Rightarrow> d | None \<Rightarrow> [])
      in filter (\<lambda>c. c \<notin> active) (map (\<lambda>p. (u, fst p)) (drop (nat limit) (available_ips banned mine))))"

definition overflow_candidates ::
  "ban_row list \<Rightarrow> (int, (string, int) dict) dict \<Rightarrow> (int, int) dict \<Rightarrow> (int \<times> string) list"
where
  "overflow_candidates before observed limits =
     concat (map (user_overflow (ban_ip ` set before) ((\<lambda>b. (ban_user b, ban_ip b)) ` set before) observed) limits)"

section \<open>Firewall\<close>

definition put_max :: "string \<Rightarrow> int \<Rightarrow> (string, int) dict \<Rightarrow> (string, int) dict" where
  "put_max ip seconds d = dict_set ip (max (case dict_get d ip of Some s \<Rightarrow> s | None \<Rightarrow> 0) seconds) d"

definition remaining_seconds :: "int \<Rightarrow> ban_row \<Rightarrow> int" where
  "remaining_seconds now b = max 1 ((expires_at b - now) div 1000000)"

definition ban_sets :: "(string \<Rightarrow> bool) \<Rightarrow> int \<Rightarrow> ban_row list \<Rightarrow> (string, int) dict \<times> (string, int) dict" where
  "ban_sets is_v6 now bans =
     fold (\<lambda>b (v4, v6). if is_v6 (ban_ip b) then (v4, put_max (ban_ip b) (remaining_seconds now b) v6)
                        else (put_max (ban_ip b) (remaining_seconds now b) v4, v6)) bans ([], [])"

definition set_line :: "string \<Rightarrow> string \<Rightarrow> string \<Rightarrow> bool \<Rightarrow> string" where
  "set_line name nft_type vals timed =
     '' set '' @ name @ '' { type '' @ nft_type @ '';'' @ (if timed then '' flags timeout;'' else [])
     @ (if vals \<noteq> [] then '' elements = { '' @ vals @ '' };'' else []) @ '' }''"

definition render_elements :: "(string, int) dict \<Rightarrow> string" where
  "render_elements rows = join_with '', '' (map (\<lambda>(ip, s). ip @ '' timeout '' @ int_to_str s @ ''s'') (sort_key (\<lambda>p. p) rows))"

definition render_ports :: "int list \<Rightarrow> string" where
  "render_ports ps = join_with '', '' (map int_to_str (sort (remdups ps)))"

definition ban_script :: "(string \<Rightarrow> bool) \<Rightarrow> ban_row list \<Rightarrow> int list \<Rightarrow> int list \<Rightarrow> int \<Rightarrow> string" where
  "ban_script is_v6 bans tcp udp now =
     (let (v4, v6) = ban_sets is_v6 now bans
      in concat (map (\<lambda>l. l @ [CHR 0x0A])
        [''table inet zagros_ip_limit {'',
         set_line ''banned_v4'' ''ipv4_addr'' (render_elements v4) True,
         set_line ''banned_v6'' ''ipv6_addr'' (render_elements v6) True,
         set_line ''vpn_tcp_ports'' ''inet_service'' (render_ports tcp) False,
         set_line ''vpn_udp_ports'' ''inet_service'' (render_ports udp) False,
         '' chain input {'',
         ''  type filter hook input priority -210; policy accept;'',
         ''  ip saddr @banned_v4 tcp dport @vpn_tcp_ports counter drop'',
         ''  ip saddr @banned_v4 udp dport @vpn_udp_ports counter drop'',
         ''  ip6 saddr @banned_v6 tcp dport @vpn_tcp_ports counter drop'',
         ''  ip6 saddr @banned_v6 udp dport @vpn_udp_ports counter drop'',
         '' }'', ''}'']))"

text \<open>The kernel table as \<open>nft\<close> keeps it, and the runner's answer to a script.\<close>

definition apply_firewall ::
  "bool \<Rightarrow> (string \<Rightarrow> bool) \<Rightarrow> (string \<Rightarrow> bool) \<Rightarrow> ban_row list \<Rightarrow> int list \<Rightarrow> int list \<Rightarrow> int \<Rightarrow> string option \<Rightarrow> bool \<times> string option"
where
  "apply_firewall nft_installed accepts is_v6 bans tcp udp now table =
     (if \<not> nft_installed then (False, table)
      else if bans = [] then
        (if table \<noteq> None then (if accepts ''delete table inet zagros_ip_limit'' then (True, None) else (False, table)) else (True, table))
      else
        let script = ban_script is_v6 bans tcp udp now;
            full = (if table \<noteq> None then ''delete table inet zagros_ip_limit'' @ [CHR 0x0A] @ script else script)
        in if accepts full then (True, Some script) else (False, table))"

section \<open>One review\<close>

record ip_state =
  ip_table :: "ban_row list"
  ip_last_run :: int
  ip_running :: bool
  ip_nft :: "string option"

record review_stats =
  st_observed :: nat
  st_banned :: nat
  st_expired :: nat
  st_closed :: int
  st_skipped :: nat

definition skipped_stats :: review_stats where
  "skipped_stats = \<lparr>st_observed = 0, st_banned = 0, st_expired = 0, st_closed = 0, st_skipped = 1\<rparr>"

record review_env =
  rv_force :: bool
  rv_loop_now :: int
  rv_now :: int
  rv_settings :: limit_settings
  rv_observed :: "(int, (string, int) dict) dict"
  rv_users :: "(int \<times> int option) list"
  rv_tcp :: "int list"
  rv_udp :: "int list"
  rv_nft_installed :: bool
  rv_accepts :: "string \<Rightarrow> bool"
  rv_is_v6 :: "string \<Rightarrow> bool"
  rv_terminate :: "string list \<Rightarrow> int"

definition run_once :: "review_env \<Rightarrow> ip_state \<Rightarrow> review_stats \<times> ip_state" where
  "run_once v s =
     (if ip_running s then (skipped_stats, s)
      else if \<not> rv_force v \<and> rv_loop_now v - ip_last_run s < review_interval_seconds (rv_settings v) * 1000 - 100 then (skipped_stats, s)
      else
        let (before, expired, table1) = expire_and_load (rv_now v) (ip_table s);
            candidates = overflow_candidates before (rv_observed v) (limits_of (rv_users v));
            (created, table2) = insert_bans (rv_now v) (ban_duration_minutes (rv_settings v)) candidates table1;
            all_bans = before @ created;
            (ok, nft) = apply_firewall (rv_nft_installed v) (rv_accepts v) (rv_is_v6 v) all_bans (rv_tcp v) (rv_udp v) (rv_now v) (ip_nft s);
            closed = (if ok then rv_terminate v (remdups (map ban_ip all_bans)) else 0)
        in (\<lparr>st_observed = sum_list (map (\<lambda>(u, d). length d) (rv_observed v)), st_banned = length created, st_expired = expired,
             st_closed = closed, st_skipped = 0\<rparr>,
            s\<lparr>ip_table := table2, ip_last_run := rv_loop_now v, ip_nft := nft\<rparr>))"

section \<open>Inserting\<close>

lemma fold_max_ge: "x \<in> set xs \<Longrightarrow> x \<le> fold max xs (a :: int)" "a \<le> fold max xs (a :: int)"
proof (induction xs arbitrary: a)
  case (Cons y xs)
  { case 1
    then show ?case using Cons.IH(1) [of "max y a"] Cons.IH(2) [of "max y a"] by auto
  next
    case 2
    then show ?case using Cons.IH(2) [of "max y a"] by simp }
qed simp_all

lemma next_id_fresh: "b \<in> set table \<Longrightarrow> ban_id b < next_id table"
  using fold_max_ge(1) [of "ban_id b" "map ban_id table" 0] by (simp add: next_id_def)

lemma insert_bans_fold:
  "\<exists>new. fold (\<lambda>c (created, t). let b = new_ban now minutes t c in (created @ [b], t @ [b])) cs (created, t) = (created @ new, t @ new) \<and>
    map (\<lambda>b. (ban_user b, ban_ip b)) new = cs \<and>
    (\<forall>b \<in> set new. ban_active b \<and> banned_at b = now \<and> expires_at b = now + minutes * 60000000) \<and>
    (distinct (map ban_id t) \<longrightarrow> distinct (map ban_id (t @ new)))"
proof (induction cs arbitrary: created t)
  case Nil
  then show ?case by simp
next
  case (Cons c cs)
  let ?b = "new_ban now minutes t c"
  obtain new where new: "fold (\<lambda>c (created, t). let b = new_ban now minutes t c in (created @ [b], t @ [b])) cs (created @ [?b], t @ [?b])
      = (created @ [?b] @ new, t @ [?b] @ new)" "map (\<lambda>b. (ban_user b, ban_ip b)) new = cs"
    "\<forall>b \<in> set new. ban_active b \<and> banned_at b = now \<and> expires_at b = now + minutes * 60000000"
    "distinct (map ban_id (t @ [?b])) \<longrightarrow> distinct (map ban_id ((t @ [?b]) @ new))"
    using Cons.IH [of "created @ [?b]" "t @ [?b]"] by auto
  have "ban_id ?b \<notin> ban_id ` set t" using next_id_fresh [of _ t] by (force simp: new_ban_def)
  then show ?case using new
    by (intro exI [of _ "?b # new"]) (auto simp: new_ban_def Let_def)
qed

lemma insert_bans_spec:
  obtains created where "insert_bans now minutes cs table = (created, table @ created)"
    "map (\<lambda>b. (ban_user b, ban_ip b)) created = cs"
    "\<forall>b \<in> set created. ban_active b \<and> banned_at b = now \<and> expires_at b = now + minutes * 60000000"
    "distinct (map ban_id table) \<longrightarrow> distinct (map ban_id (table @ created))"
  using insert_bans_fold [of now minutes cs "[]" table] unfolding insert_bans_def by auto

section \<open>Overflow\<close>

lemma available_ips_set: "set (available_ips banned mine) = {p \<in> set mine. fst p \<notin> banned}"
  by (auto simp: available_ips_def)

lemma available_ips_distinct: "dict_ok mine \<Longrightarrow> distinct (map fst (available_ips banned mine))"
  by (simp add: available_ips_def distinct_map_filter)

lemma available_ips_sorted: "sorted (map (\<lambda>p. (snd p, fst p)) (available_ips banned mine))"
  by (simp add: available_ips_def)

definition mine_of :: "(int, (string, int) dict) dict \<Rightarrow> int \<Rightarrow> (string, int) dict" where
  "mine_of observed u = (case dict_get observed u of Some d \<Rightarrow> d | None \<Rightarrow> [])"

lemma user_overflow_eq:
  "user_overflow (ban_ip ` set before) ((\<lambda>b. (ban_user b, ban_ip b)) ` set before) observed (u, l) =
     map (\<lambda>p. (u, fst p)) (drop (nat l) (available_ips (ban_ip ` set before) (mine_of observed u)))"
proof -
  have "(u, fst p) \<notin> (\<lambda>b. (ban_user b, ban_ip b)) ` set before"
    if "p \<in> set (drop (nat l) (available_ips (ban_ip ` set before) (mine_of observed u)))" for p
    using in_set_dropD [OF that] by (auto simp: available_ips_set)
  then show ?thesis by (simp add: user_overflow_def mine_of_def filter_id_conv)
qed

lemma limits_of_member: "(u, l) \<in> set (limits_of users) \<longleftrightarrow> (u, Some l) \<in> set users \<and> 0 < l"
  by (force simp: limits_of_def map_filter_def split: option.splits if_splits)

lemma limits_of_ok: "distinct (map fst users) \<Longrightarrow> dict_ok (limits_of users)"
proof (induction users)
  case Nil
  then show ?case by (simp add: limits_of_def map_filter_simps)
next
  case (Cons x users)
  obtain u l where x: "x = (u, l)" by (cases x)
  have "u \<notin> fst ` set (limits_of users)" using Cons.prems x limits_of_member by force
  then show ?case using Cons x by (auto simp: limits_of_def map_filter_simps split: option.splits)
qed

lemma candidates_member:
  "(u, ip) \<in> set (overflow_candidates before observed limits) \<longleftrightarrow>
     (\<exists>l. (u, l) \<in> set limits \<and> ip \<in> fst ` set (drop (nat l) (available_ips (ban_ip ` set before) (mine_of observed u))))"
  unfolding overflow_candidates_def set_concat set_map by (force simp: user_overflow_eq)

definition observed_ok :: "(int, (string, int) dict) dict \<Rightarrow> bool" where
  "observed_ok observed \<longleftrightarrow> dict_ok observed \<and> (\<forall>(u, d) \<in> set observed. dict_ok d)"

lemma mine_ok: "observed_ok observed \<Longrightarrow> dict_ok (mine_of observed u)"
  by (auto simp: observed_ok_def mine_of_def split: option.splits dest: map_of_SomeD)

lemma distinct_concat_tagged:
  "distinct (map fst ls) \<Longrightarrow> (\<And>p. p \<in> set ls \<Longrightarrow> distinct (f p) \<and> (\<forall>c \<in> set (f p). fst c = fst p)) \<Longrightarrow> distinct (concat (map f ls))"
proof (induction ls)
  case Nil
  then show ?case by simp
next
  case (Cons p ls)
  have "c \<notin> set (concat (map f ls))" if c: "c \<in> set (f p)" for c
  proof
    assume "c \<in> set (concat (map f ls))"
    then obtain q where q: "q \<in> set ls" "c \<in> set (f q)" by auto
    have "fst c = fst p" "fst c = fst q" using Cons.prems(2) [of p] Cons.prems(2) [of q] c q by auto
    then show False using Cons.prems(1) q(1) by (metis distinct.simps(2) imageI list.simps(9) set_map)
  qed
  then have "set (f p) \<inter> set (concat (map f ls)) = {}" by blast
  then show ?case using Cons by simp
qed

lemma candidates_distinct:
  assumes "dict_ok limits" "observed_ok observed"
  shows "distinct (overflow_candidates before observed limits)"
  unfolding overflow_candidates_def
proof (rule distinct_concat_tagged [OF assms(1)])
  fix p assume "p \<in> set limits"
  obtain u l where p: "p = (u, l)" by (cases p)
  let ?xs = "drop (nat l) (available_ips (ban_ip ` set before) (mine_of observed u))"
  have "distinct (map fst ?xs)"
    using available_ips_distinct [OF mine_ok [OF assms(2)]] by (simp add: drop_map [symmetric])
  then have "distinct (map (\<lambda>p. (u, fst p)) ?xs)" by (simp add: distinct_map inj_on_def)
  then show "distinct (user_overflow (ban_ip ` set before) ((\<lambda>b. (ban_user b, ban_ip b)) ` set before) observed p) \<and>
      (\<forall>c \<in> set (user_overflow (ban_ip ` set before) ((\<lambda>b. (ban_user b, ban_ip b)) ` set before) observed p). fst c = fst p)"
    unfolding p user_overflow_eq by auto
qed

lemma split_sorted:
  assumes "sorted (map key xs)" "distinct (map key xs)" "x \<in> set (take n xs)" "y \<in> set (drop n xs)"
  shows "key x < (key y :: 'a :: linorder)"
proof -
  have srt: "sorted (map key (take n xs @ drop n xs))" "distinct (map key (take n xs @ drop n xs))" using assms(1,2) by simp_all
  have "key x \<le> key y" using srt(1) assms(3,4) unfolding map_append sorted_append by auto
  moreover have "key x \<noteq> key y" using srt(2) assms(3,4) unfolding map_append distinct_append by (metis disjoint_iff imageI set_map)
  ultimately show ?thesis by simp
qed

section \<open>One active ban per user and address\<close>

definition ban_pair :: "ban_row \<Rightarrow> int \<times> string" where
  "ban_pair b = (ban_user b, ban_ip b)"

definition table_inv :: "ban_row list \<Rightarrow> bool" where
  "table_inv t \<longleftrightarrow> distinct (map ban_id t) \<and> distinct (map ban_pair (filter ban_active t)) \<and> (\<forall>b \<in> set t. banned_at b < expires_at b)"

definition live :: "int \<Rightarrow> ban_row list \<Rightarrow> ban_row list" where
  "live now t = filter (\<lambda>b. ban_active b \<and> now < expires_at b) t"

lemma expire_rows_fields:
  "map ban_id (expire_rows now t) = map ban_id t" "map ban_pair (expire_rows now t) = map ban_pair t"
  by (induction t) (auto simp: expire_rows_def ban_pair_def)

lemma expire_rows_live: "filter ban_active (expire_rows now t) = live now t"
  by (induction t) (auto simp: expire_rows_def live_def)

lemma live_expire: "filter (\<lambda>b. ban_active b \<and> now < expires_at b) (expire_rows now t) = live now t"
  by (induction t) (auto simp: expire_rows_def live_def)

lemma distinct_filter_weaken:
  "distinct (map f (filter P xs)) \<Longrightarrow> (\<And>x. Q x \<Longrightarrow> P x) \<Longrightarrow> distinct (map f (filter Q xs))"
  by (induction xs) (auto simp: image_iff split: if_splits)

lemma expire_rows_inv: "table_inv t \<Longrightarrow> table_inv (expire_rows now t)"
proof -
  assume inv: "table_inv t"
  have "distinct (map ban_pair (live now t))" unfolding live_def
    by (rule distinct_filter_weaken [of ban_pair ban_active]) (use inv in \<open>simp_all add: table_inv_def\<close>)
  moreover have "\<forall>b \<in> set (expire_rows now t). banned_at b < expires_at b" using inv by (auto simp: table_inv_def expire_rows_def)
  ultimately show ?thesis using inv by (simp add: table_inv_def expire_rows_fields expire_rows_live)
qed

definition env_ok :: "review_env \<Rightarrow> bool" where
  "env_ok v \<longleftrightarrow> 1 \<le> ban_duration_minutes (rv_settings v) \<and> distinct (map fst (rv_users v)) \<and> observed_ok (rv_observed v)"

definition reviewed :: "review_env \<Rightarrow> ip_state \<Rightarrow> bool" where
  "reviewed v s \<longleftrightarrow> \<not> ip_running s \<and>
     (rv_force v \<or> review_interval_seconds (rv_settings v) * 1000 - 100 \<le> rv_loop_now v - ip_last_run s)"

text \<open>What a review appends to the table.\<close>

lemma run_once_table:
  assumes "reviewed v s"
  obtains created where "ip_table (snd (run_once v s)) = expire_rows (rv_now v) (ip_table s) @ created"
    "map ban_pair created = overflow_candidates (live (rv_now v) (ip_table s)) (rv_observed v) (limits_of (rv_users v))"
    "\<forall>b \<in> set created. ban_active b \<and> banned_at b = rv_now v \<and>
       expires_at b = rv_now v + ban_duration_minutes (rv_settings v) * 60000000"
    "distinct (map ban_id (ip_table s)) \<longrightarrow> distinct (map ban_id (expire_rows (rv_now v) (ip_table s) @ created))"
    "st_skipped (fst (run_once v s)) = 0" "st_banned (fst (run_once v s)) = length created"
proof -
  define cs where "cs = overflow_candidates (live (rv_now v) (ip_table s)) (rv_observed v) (limits_of (rv_users v))"
  define t where "t = expire_rows (rv_now v) (ip_table s)"
  have load: "expire_and_load (rv_now v) (ip_table s) =
      (live (rv_now v) (ip_table s), length (filter (\<lambda>b. ban_active b \<and> expires_at b \<le> rv_now v) (ip_table s)), t)"
    by (simp add: expire_and_load_def live_expire t_def Let_def)
  obtain created where c: "insert_bans (rv_now v) (ban_duration_minutes (rv_settings v)) cs t = (created, t @ created)"
    "map (\<lambda>b. (ban_user b, ban_ip b)) created = cs"
    "\<forall>b \<in> set created. ban_active b \<and> banned_at b = rv_now v \<and> expires_at b = rv_now v + ban_duration_minutes (rv_settings v) * 60000000"
    "distinct (map ban_id t) \<longrightarrow> distinct (map ban_id (t @ created))"
    by (rule insert_bans_spec)
  have guard: "\<not> ip_running s"
    "\<not> (\<not> rv_force v \<and> rv_loop_now v - ip_last_run s < review_interval_seconds (rv_settings v) * 1000 - 100)"
    using assms by (auto simp: reviewed_def)
  have "ip_table (snd (run_once v s)) = t @ created" "st_skipped (fst (run_once v s)) = 0"
      "st_banned (fst (run_once v s)) = length created"
    using guard unfolding run_once_def load Let_def case_prod_conv cs_def [symmetric] c(1) if_not_P [OF guard(1)] if_not_P [OF guard(2)]
    by (simp_all split: prod.splits)
  then show ?thesis using that c(2-4) by (simp add: t_def cs_def ban_pair_def [abs_def] expire_rows_fields)
qed

lemma run_once_inv:
  assumes inv: "table_inv (ip_table s)" and env: "env_ok v"
  shows "table_inv (ip_table (snd (run_once v s)))"
proof (cases "reviewed v s")
  case False
  then have "snd (run_once v s) = s" by (auto simp: reviewed_def run_once_def)
  then show ?thesis using inv by simp
next
  case True
  define before where "before = live (rv_now v) (ip_table s)"
  obtain created where c: "ip_table (snd (run_once v s)) = expire_rows (rv_now v) (ip_table s) @ created"
    "map ban_pair created = overflow_candidates before (rv_observed v) (limits_of (rv_users v))"
    "\<forall>b \<in> set created. ban_active b \<and> banned_at b = rv_now v \<and> expires_at b = rv_now v + ban_duration_minutes (rv_settings v) * 60000000"
    "distinct (map ban_id (ip_table s)) \<longrightarrow> distinct (map ban_id (expire_rows (rv_now v) (ip_table s) @ created))"
    unfolding before_def by (rule run_once_table [OF True])
  have d: "distinct (map ban_pair created)"
    using candidates_distinct [OF limits_of_ok] env c(2) by (simp add: env_ok_def)
  have disj: "ban_pair b \<notin> ban_pair ` set before" if "b \<in> set created" for b
  proof
    assume "ban_pair b \<in> ban_pair ` set before"
    then have "ban_ip b \<in> ban_ip ` set before" by (auto simp: ban_pair_def)
    moreover have "ban_pair b \<in> set (overflow_candidates before (rv_observed v) (limits_of (rv_users v)))"
      using that c(2) by (metis image_eqI set_map)
    ultimately show False using candidates_member [of "ban_user b" "ban_ip b" before]
      by (auto simp: ban_pair_def available_ips_set dest!: in_set_dropD)
  qed
  note e = expire_rows_inv [OF inv, of "rv_now v"]
  have act: "filter ban_active created = created" using c(3) by (simp add: filter_id_conv)
  have "ban_pair ` set before \<inter> ban_pair ` set created = {}"
  proof (rule equals0I)
    fix x assume x: "x \<in> ban_pair ` set before \<inter> ban_pair ` set created"
    then obtain b where "b \<in> set created" "x = ban_pair b" by blast
    then show False using disj [of b] x by simp
  qed
  then have "distinct (map ban_pair (before @ created))"
    using e d by (simp add: table_inv_def expire_rows_live before_def)
  then show ?thesis using e c(1,3,4) inv env act
    by (auto simp: table_inv_def expire_rows_live before_def env_ok_def)
qed

lemma revoke_inv: "table_inv t \<Longrightarrow> table_inv (snd (revoke_ban i t))"
proof -
  assume inv: "table_inv t"
  define t' where "t' = map (\<lambda>b. if ban_id b = i then b\<lparr>ban_active := False\<rparr> else b) t"
  have act: "filter ban_active t' = filter (\<lambda>b. ban_active b \<and> ban_id b \<noteq> i) t" unfolding t'_def by (induction t) auto
  have ids: "map ban_id t' = map ban_id t" unfolding t'_def by (induction t) auto
  have "distinct (map ban_pair (filter (\<lambda>b. ban_active b \<and> ban_id b \<noteq> i) t))"
    by (rule distinct_filter_weaken [of ban_pair ban_active]) (use inv in \<open>simp_all add: table_inv_def\<close>)
  moreover have "\<forall>b \<in> set t'. banned_at b < expires_at b" using inv by (auto simp: t'_def table_inv_def)
  ultimately have "table_inv t'" using inv by (simp add: table_inv_def act ids)
  then show ?thesis using inv by (simp add: revoke_ban_def t'_def)
qed

inductive ban_reach :: "ip_state \<Rightarrow> bool" where
  init: "ip_table s = [] \<Longrightarrow> ban_reach s"
| review: "ban_reach s \<Longrightarrow> env_ok v \<Longrightarrow> ban_reach (snd (run_once v s))"
| revoke: "ban_reach s \<Longrightarrow> ban_reach (s\<lparr>ip_table := snd (revoke_ban i (ip_table s))\<rparr>)"
| listing: "ban_reach s \<Longrightarrow> ban_reach (s\<lparr>ip_table := snd (list_bans a now (ip_table s))\<rparr>)"
| guard: "ban_reach s \<Longrightarrow> ban_reach (s\<lparr>ip_running := g\<rparr>)"

text \<open>
  Over any sequence of reviews, revocations and listings, with any observations and clocks, each user and
  address have at most one active ban, ban ids are unique, and every ban ends after it began.
\<close>
lemma one_active_ban_per_address:
  assumes "ban_reach s"
  shows "distinct (map ban_id (ip_table s)) \<and> distinct (map ban_pair (filter ban_active (ip_table s))) \<and>
    (\<forall>b \<in> set (ip_table s). banned_at b < expires_at b)"
proof -
  have "table_inv (ip_table s)" using assms
  proof induction
    case (init s)
    then show ?case by (simp add: table_inv_def)
  next
    case (review s v)
    then show ?case by (simp add: run_once_inv)
  next
    case (revoke s i)
    then show ?case by (simp add: revoke_inv)
  next
    case (listing s a now)
    then show ?case by (simp add: list_bans_def expire_and_load_def Let_def expire_rows_inv)
  next
    case (guard s g)
    then show ?case by simp
  qed
  then show ?thesis by (simp add: table_inv_def)
qed

section \<open>The ceiling\<close>

text \<open>
  A review enforces the ceiling. It keeps the earlier rows, deactivating those that expired, and appends
  bans with the configured duration. A user without a positive limit gets none. For a user with limit
  \<open>l\<close>, of the observed addresses that no live ban covers exactly the \<open>l\<close> earliest (by first sighting, then
  address) are spared and the others are banned.
\<close>
lemma review_bans_exactly_the_overflow:
  assumes "reviewed v s" "env_ok v"
  shows "\<exists>created. ip_table (snd (run_once v s)) = expire_rows (rv_now v) (ip_table s) @ created \<and>
    (\<forall>b \<in> set created. ban_active b \<and> expires_at b = rv_now v + ban_duration_minutes (rv_settings v) * 60000000 \<and>
       (\<exists>l. (ban_user b, Some l) \<in> set (rv_users v) \<and> 0 < l)) \<and>
    (\<forall>u l. (u, Some l) \<in> set (rv_users v) \<and> 0 < l \<longrightarrow>
      (let free = {p \<in> set (mine_of (rv_observed v) u). fst p \<notin> ban_ip ` set (live (rv_now v) (ip_table s))};
           hit = {p \<in> free. fst p \<in> ban_ip ` {b \<in> set created. ban_user b = u}}
       in ban_ip ` {b \<in> set created. ban_user b = u} = fst ` hit \<and> card (free - hit) = min (nat l) (card free) \<and>
          (\<forall>k \<in> free - hit. \<forall>b \<in> hit. (snd k, fst k) < (snd b, fst b))))"
proof -
  define before where "before = live (rv_now v) (ip_table s)"
  obtain created where c: "ip_table (snd (run_once v s)) = expire_rows (rv_now v) (ip_table s) @ created"
    "map ban_pair created = overflow_candidates before (rv_observed v) (limits_of (rv_users v))"
    "\<forall>b \<in> set created. ban_active b \<and> banned_at b = rv_now v \<and> expires_at b = rv_now v + ban_duration_minutes (rv_settings v) * 60000000"
    unfolding before_def by (rule run_once_table [OF assms(1)])
  have pairs: "ban_pair ` set created = set (overflow_candidates before (rv_observed v) (limits_of (rv_users v)))"
    using c(2) by (metis set_map)
  have users: "\<exists>l. (ban_user b, Some l) \<in> set (rv_users v) \<and> 0 < l" if "b \<in> set created" for b
  proof -
    have "(ban_user b, ban_ip b) \<in> set (overflow_candidates before (rv_observed v) (limits_of (rv_users v)))"
      using pairs that by (auto simp: ban_pair_def)
    then show ?thesis by (auto simp: candidates_member limits_of_member)
  qed
  have "let free = {p \<in> set (mine_of (rv_observed v) u). fst p \<notin> ban_ip ` set before};
           hit = {p \<in> free. fst p \<in> ban_ip ` {b \<in> set created. ban_user b = u}}
       in ban_ip ` {b \<in> set created. ban_user b = u} = fst ` hit \<and> card (free - hit) = min (nat l) (card free) \<and>
          (\<forall>k \<in> free - hit. \<forall>b \<in> hit. (snd k, fst k) < (snd b, fst b))"
    if ul: "(u, Some l) \<in> set (rv_users v)" "0 < l" for u l
  proof -
    define xs where "xs = available_ips (ban_ip ` set before) (mine_of (rv_observed v) u)"
    have uniq: "l' = l" if "(u, l') \<in> set (limits_of (rv_users v))" for l'
      using that ul assms(2) eq_key_imp_eq_value [of "rv_users v" u] by (auto simp: limits_of_member env_ok_def)
    have ips: "ban_ip ` {b \<in> set created. ban_user b = u} = fst ` set (drop (nat l) xs)"
    proof -
      have "ip \<in> ban_ip ` {b \<in> set created. ban_user b = u} \<longleftrightarrow> (u, ip) \<in> ban_pair ` set created" for ip
        by (auto simp: ban_pair_def image_iff)
      then have "ip \<in> ban_ip ` {b \<in> set created. ban_user b = u} \<longleftrightarrow> ip \<in> fst ` set (drop (nat l) xs)" for ip
        unfolding pairs candidates_member using uniq ul limits_of_member [of u l] xs_def by blast
      then show ?thesis by blast
    qed
    have dis: "distinct (map fst xs)" unfolding xs_def using available_ips_distinct mine_ok assms(2) by (simp add: env_ok_def)
    have free: "{p \<in> set (mine_of (rv_observed v) u). fst p \<notin> ban_ip ` set before} = set xs" by (simp add: xs_def available_ips_set)
    have inj: "inj_on fst (set xs)" using dis by (simp add: distinct_map)
    have hit: "{p \<in> set xs. fst p \<in> fst ` set (drop (nat l) xs)} = set (drop (nat l) xs)"
      using inj by (auto simp: inj_on_def dest: in_set_dropD)
    have "set xs = set (take (nat l) xs) \<union> set (drop (nat l) xs)" by (metis append_take_drop_id set_append)
    moreover have "set (take (nat l) xs) \<inter> set (drop (nat l) xs) = {}"
      using dis set_take_disj_set_drop_if_distinct [of xs "nat l" "nat l"] by (simp add: distinct_map)
    ultimately have rest: "set xs - set (drop (nat l) xs) = set (take (nat l) xs)" by blast
    have dx: "distinct xs" using dis by (simp add: distinct_map)
    have "card (set (take (nat l) xs)) = min (nat l) (card (set xs))"
      using dx by (simp add: distinct_card min.commute)
    moreover have "(snd k, fst k) < (snd b, fst b)" if "k \<in> set (take (nat l) xs)" "b \<in> set (drop (nat l) xs)" for k b
    proof (rule split_sorted [where key = "\<lambda>p. (snd p, fst p)", OF _ _ that])
      show "sorted (map (\<lambda>p. (snd p, fst p)) xs)" unfolding xs_def by (rule available_ips_sorted)
      show "distinct (map (\<lambda>p. (snd p, fst p)) xs)" using dx by (simp add: distinct_map inj_on_def prod_eq_iff)
    qed
    ultimately show ?thesis unfolding free ips hit Let_def rest by simp
  qed
  then show ?thesis using c(1,3) users unfolding before_def by (intro exI [of _ created]) blast
qed

definition ex_review :: review_env where
  "ex_review = \<lparr>rv_force = True, rv_loop_now = 0, rv_now = 100, rv_settings = \<lparr>ban_duration_minutes = 15, review_interval_seconds = 5\<rparr>,
     rv_observed = [(7, [(''10.0.0.2'', 50), (''10.0.0.1'', 20)])], rv_users = [(7, Some 1), (8, None)], rv_tcp = [443], rv_udp = [],
     rv_nft_installed = False, rv_accepts = \<lambda>_. True, rv_is_v6 = \<lambda>_. False, rv_terminate = \<lambda>_. 0\<rparr>"

definition ex_ip_state :: ip_state where
  "ex_ip_state = \<lparr>ip_table = [], ip_last_run = 0, ip_running = False, ip_nft = None\<rparr>"

lemma ex_review_ok: "env_ok ex_review" "reviewed ex_review ex_ip_state"
  by (simp_all add: env_ok_def observed_ok_def reviewed_def ex_review_def ex_ip_state_def)

lemma ex_review_run:
  "ip_table (snd (run_once ex_review ex_ip_state)) =
     [\<lparr>ban_id = 1, ban_user = 7, ban_ip = ''10.0.0.2'', banned_at = 100, expires_at = 900000100, ban_active = True\<rparr>]"
  by code_simp

lemma one_active_ban_per_address_example:
  "ip_table (snd (run_once ex_review ex_ip_state)) \<noteq> [] \<and>
   distinct (map ban_pair (filter ban_active (ip_table (snd (run_once ex_review ex_ip_state)))))"
proof -
  have "ban_reach (snd (run_once ex_review ex_ip_state))"
    by (intro ban_reach.review ban_reach.init ex_review_ok) (simp add: ex_ip_state_def)
  from one_active_ban_per_address [OF this] show ?thesis by (simp add: ex_review_run)
qed

lemma review_bans_exactly_the_overflow_example:
  "\<exists>b. ip_table (snd (run_once ex_review ex_ip_state)) = [b] \<and> ban_user b = 7 \<and> ban_ip b = ''10.0.0.2'' \<and>
     (\<exists>l. (ban_user b, Some l) \<in> set (rv_users ex_review) \<and> 0 < l)"
  using review_bans_exactly_the_overflow [OF ex_review_ok(2,1)] ex_review_run by (auto simp: ex_ip_state_def expire_rows_def)

end
