(* ===== verification/PyRegex.thy ===== *)
theory PyRegex
  imports PyValue
begin

text \<open>
  The part of Python's \<open>re\<close> module the sources use: backtracking matching of regular expressions with
  greedy and lazy repetition, groups, word boundaries and the end anchor, and \<open>re.sub\<close>. A match attempt
  yields the list of its successes in the order in which the backtracking engine finds them, so the first
  element is the match Python returns.

  A position is the text already passed, reversed, the text still ahead, and the groups captured so far.
\<close>

datatype rx =
    REps
  | RChr "char \<Rightarrow> bool"
  | RSeq rx rx
  | RAlt rx rx
  | RStar rx
  | RLazy rx
  | RGroup nat rx
  | RWordB
  | REnd

type_synonym rx_pos = "string \<times> string \<times> (nat \<times> string) list"

abbreviation rx_behind :: "rx_pos \<Rightarrow> string" where "rx_behind p \<equiv> fst p"
abbreviation rx_ahead :: "rx_pos \<Rightarrow> string" where "rx_ahead p \<equiv> fst (snd p)"
abbreviation rx_groups :: "rx_pos \<Rightarrow> (nat \<times> string) list" where "rx_groups p \<equiv> snd (snd p)"

definition is_word :: "char \<Rightarrow> bool" where
  "is_word c \<longleftrightarrow> (let n = (of_char c :: nat) in is_digit c \<or> 65 \<le> n \<and> n \<le> 90 \<or> 97 \<le> n \<and> n \<le> 122 \<or> n = 95)"

definition at_word_boundary :: "rx_pos \<Rightarrow> bool" where
  "at_word_boundary p \<longleftrightarrow>
     (case rx_behind p of [] \<Rightarrow> False | c # _ \<Rightarrow> is_word c) \<noteq> (case rx_ahead p of [] \<Rightarrow> False | c # _ \<Rightarrow> is_word c)"

text \<open>
  Repetition: iterate while the body makes progress. The number of iterations is bounded by the length of
  the text ahead, and every iteration consumes at least one character, so the bound never cuts a match
  (\<open>iter_greedy_bound\<close>, \<open>iter_lazy_bound\<close> below).
\<close>

definition progress :: "(rx_pos \<Rightarrow> rx_pos list) \<Rightarrow> rx_pos \<Rightarrow> rx_pos list" where
  "progress f p = filter (\<lambda>q. length (rx_ahead q) < length (rx_ahead p)) (f p)"

primrec iter_greedy :: "(rx_pos \<Rightarrow> rx_pos list) \<Rightarrow> nat \<Rightarrow> rx_pos \<Rightarrow> rx_pos list" where
  "iter_greedy f 0 p = [p]"
| "iter_greedy f (Suc n) p = concat (map (iter_greedy f n) (progress f p)) @ [p]"

primrec iter_lazy :: "(rx_pos \<Rightarrow> rx_pos list) \<Rightarrow> nat \<Rightarrow> rx_pos \<Rightarrow> rx_pos list" where
  "iter_lazy f 0 p = [p]"
| "iter_lazy f (Suc n) p = p # concat (map (iter_lazy f n) (progress f p))"

primrec rx_matches :: "rx \<Rightarrow> rx_pos \<Rightarrow> rx_pos list" where
  "rx_matches REps p = [p]"
| "rx_matches (RChr P) p =
     (case rx_ahead p of [] \<Rightarrow> [] | c # cs \<Rightarrow> if P c then [(c # rx_behind p, cs, rx_groups p)] else [])"
| "rx_matches (RSeq r s) p = concat (map (rx_matches s) (rx_matches r p))"
| "rx_matches (RAlt r s) p = rx_matches r p @ rx_matches s p"
| "rx_matches (RStar r) p = iter_greedy (rx_matches r) (length (rx_ahead p)) p"
| "rx_matches (RLazy r) p = iter_lazy (rx_matches r) (length (rx_ahead p)) p"
| "rx_matches (RGroup i r) p =
     map (\<lambda>q. (rx_behind q, rx_ahead q,
             (i, take (length (rx_ahead p) - length (rx_ahead q)) (rx_ahead p)) # rx_groups q)) (rx_matches r p)"
| "rx_matches RWordB p = (if at_word_boundary p then [p] else [])"
| "rx_matches REnd p = (if rx_ahead p = [] \<or> rx_ahead p = [CHR 0x0A] then [p] else [])"

text \<open>Derived forms: literals, \<open>r+\<close>, \<open>r?\<close>, exactly and at least \<open>n\<close> copies, alternatives of literals.\<close>

primrec rlit :: "string \<Rightarrow> rx" where
  "rlit [] = REps"
| "rlit (c # cs) = RSeq (RChr (\<lambda>x. x = c)) (rlit cs)"

primrec rlit_nocase :: "string \<Rightarrow> rx" where
  "rlit_nocase [] = REps"
| "rlit_nocase (c # cs) = RSeq (RChr (\<lambda>x. lower_char x = lower_char c)) (rlit_nocase cs)"

definition rplus :: "rx \<Rightarrow> rx" where
  "rplus r = RSeq r (RStar r)"

definition ropt :: "rx \<Rightarrow> rx" where
  "ropt r = RAlt r REps"

primrec rtimes :: "nat \<Rightarrow> rx \<Rightarrow> rx" where
  "rtimes 0 r = REps"
| "rtimes (Suc n) r = RSeq r (rtimes n r)"

primrec rseq :: "rx list \<Rightarrow> rx" where
  "rseq [] = REps"
| "rseq (r # rs) = RSeq r (rseq rs)"

fun ralts :: "rx list \<Rightarrow> rx" where
  "ralts [] = RChr (\<lambda>_. False)"
| "ralts [r] = r"
| "ralts (r # s # rs) = RAlt r (ralts (s # rs))"

text \<open>\<open>pattern.match(text)\<close>: the first success at the start of the text.\<close>

definition rx_match :: "rx \<Rightarrow> string \<Rightarrow> rx_pos option" where
  "rx_match r s = (case rx_matches r ([], s, []) of [] \<Rightarrow> None | p # _ \<Rightarrow> Some p)"

definition group_text :: "rx_pos \<Rightarrow> nat \<Rightarrow> string" where
  "group_text p i = (case map_of (rx_groups p) i of None \<Rightarrow> [] | Some s \<Rightarrow> s)"

text \<open>
  \<open>pattern.sub(f, text)\<close>, left to right without overlaps. None of the patterns of the sources matches the
  empty string; an empty match would be skipped here.
\<close>

lemma progress_length: "q \<in> set (progress f p) \<Longrightarrow> length (rx_ahead q) < length (rx_ahead p)"
  by (simp add: progress_def)

lemma progress_hd: "progress f p = q # qs \<Longrightarrow> length (rx_ahead q) < length (rx_ahead p)"
  by (rule progress_length [of q f p]) simp

function sub_from :: "rx \<Rightarrow> (rx_pos \<Rightarrow> string) \<Rightarrow> string \<Rightarrow> string \<Rightarrow> string" where
  "sub_from r f b [] = []"
| "sub_from r f b (c # cs) =
     (case progress (rx_matches r) (b, c # cs, []) of
        [] \<Rightarrow> c # sub_from r f (c # b) cs
      | q # _ \<Rightarrow> f q @ sub_from r f (rx_behind q) (rx_ahead q))"
  by pat_completeness auto
termination by (relation "measure (\<lambda>(r, f, b, s). length s)") (auto dest: progress_hd)

definition rx_sub :: "rx \<Rightarrow> (rx_pos \<Rightarrow> string) \<Rightarrow> string \<Rightarrow> string" where
  "rx_sub r f s = sub_from r f [] s"

section \<open>Laws\<close>

lemma progress_set: "q \<in> set (progress f p) \<Longrightarrow> q \<in> set (f p)"
  by (simp add: progress_def)

lemma iter_greedy_bound:
  "length (rx_ahead p) \<le> m \<Longrightarrow> length (rx_ahead p) \<le> n \<Longrightarrow> iter_greedy f m p = iter_greedy f n p"
proof (induction m arbitrary: n p)
  case 0
  then have "progress f p = []" by (simp add: progress_def)
  then show ?case by (cases n) simp_all
next
  case (Suc m)
  show ?case
  proof (cases n)
    case 0
    with Suc.prems have "progress f p = []" by (simp add: progress_def)
    with 0 show ?thesis by simp
  next
    case (Suc k)
    have "iter_greedy f m q = iter_greedy f k q" if q: "q \<in> set (progress f p)" for q
      using progress_length [OF q] Suc.prems Suc by (intro Suc.IH) simp_all
    then have "map (iter_greedy f m) (progress f p) = map (iter_greedy f k) (progress f p)"
      by (rule map_cong [OF refl])
    then show ?thesis by (simp add: Suc del: map_eq_conv)
  qed
qed

lemma iter_lazy_bound:
  "length (rx_ahead p) \<le> m \<Longrightarrow> length (rx_ahead p) \<le> n \<Longrightarrow> iter_lazy f m p = iter_lazy f n p"
proof (induction m arbitrary: n p)
  case 0
  then have "progress f p = []" by (simp add: progress_def)
  then show ?case by (cases n) simp_all
next
  case (Suc m)
  show ?case
  proof (cases n)
    case 0
    with Suc.prems have "progress f p = []" by (simp add: progress_def)
    with 0 show ?thesis by simp
  next
    case (Suc k)
    have "iter_lazy f m q = iter_lazy f k q" if q: "q \<in> set (progress f p)" for q
      using progress_length [OF q] Suc.prems Suc by (intro Suc.IH) simp_all
    then have "map (iter_lazy f m) (progress f p) = map (iter_lazy f k) (progress f p)"
      by (rule map_cong [OF refl])
    then show ?thesis by (simp add: Suc del: map_eq_conv)
  qed
qed

text \<open>The bound is invisible: greedy repetition is the unbounded loop of the engine.\<close>

lemma rx_matches_star:
  "rx_matches (RStar r) p = concat (map (rx_matches (RStar r)) (progress (rx_matches r) p)) @ [p]"
proof (cases "length (rx_ahead p)")
  case 0
  then have "progress (rx_matches r) p = []" by (simp add: progress_def)
  with 0 show ?thesis by simp
next
  case (Suc k)
  have "iter_greedy (rx_matches r) k q = rx_matches (RStar r) q" if q: "q \<in> set (progress (rx_matches r) p)" for q
    using progress_length [OF q] Suc by (simp add: iter_greedy_bound [of q k "length (rx_ahead q)"])
  then have "map (iter_greedy (rx_matches r) k) (progress (rx_matches r) p) = map (rx_matches (RStar r)) (progress (rx_matches r) p)"
    by (rule map_cong [OF refl])
  with Suc show ?thesis by (simp del: map_eq_conv rx_matches.simps(5) add: rx_matches.simps(5) [of r p])
qed

text \<open>A success leaves the subject text in place and never moves backwards.\<close>

definition rx_follows :: "rx_pos \<Rightarrow> rx_pos \<Rightarrow> bool" where
  "rx_follows p q \<longleftrightarrow> (\<exists>w. rx_behind q = rev w @ rx_behind p \<and> rx_ahead p = w @ rx_ahead q)"

lemma rx_follows_refl [simp]: "rx_follows p p"
  by (simp add: rx_follows_def)

lemma rx_follows_trans: "rx_follows p q \<Longrightarrow> rx_follows q r \<Longrightarrow> rx_follows p r"
  unfolding rx_follows_def by (metis append.assoc rev_append)

lemma iter_greedy_follows:
  assumes "\<And>p q. q \<in> set (f p) \<Longrightarrow> rx_follows p q"
  shows "q \<in> set (iter_greedy f n p) \<Longrightarrow> rx_follows p q"
proof (induction n arbitrary: p)
  case (Suc n)
  then consider "q = p" | p' where "p' \<in> set (progress f p)" "q \<in> set (iter_greedy f n p')" by auto
  then show ?case
    by cases (auto intro: rx_follows_trans Suc.IH assms progress_set)
qed simp

lemma iter_lazy_follows:
  assumes "\<And>p q. q \<in> set (f p) \<Longrightarrow> rx_follows p q"
  shows "q \<in> set (iter_lazy f n p) \<Longrightarrow> rx_follows p q"
proof (induction n arbitrary: p)
  case (Suc n)
  then consider "q = p" | p' where "p' \<in> set (progress f p)" "q \<in> set (iter_lazy f n p')" by auto
  then show ?case
    by cases (auto intro: rx_follows_trans Suc.IH assms progress_set)
qed simp

lemma rx_matches_follows: "q \<in> set (rx_matches r p) \<Longrightarrow> rx_follows p q"
proof (induction r arbitrary: p q)
  case (RChr P)
  then show ?case by (auto simp: rx_follows_def split: list.splits if_splits)
next
  case (RSeq r s)
  from RSeq.prems obtain p' where "p' \<in> set (rx_matches r p)" "q \<in> set (rx_matches s p')" by auto
  then show ?case using RSeq.IH by (blast intro: rx_follows_trans)
next
  case (RStar r)
  then show ?case by (auto intro: iter_greedy_follows [of "rx_matches r"])
next
  case (RLazy r)
  then show ?case by (auto intro: iter_lazy_follows [of "rx_matches r"])
next
  case (RGroup i r)
  then obtain q' where "q' \<in> set (rx_matches r p)" "rx_behind q = rx_behind q'" "rx_ahead q = rx_ahead q'" by auto
  with RGroup.IH show ?case by (auto simp: rx_follows_def)
qed (auto split: if_splits)

text \<open>A text in which the pattern matches nowhere is left alone by \<open>sub\<close>.\<close>

lemma sub_from_id:
  "(\<And>b' s'. rev b @ s = rev b' @ s' \<Longrightarrow> rx_matches r (b', s', []) = []) \<Longrightarrow> sub_from r f b s = s"
proof (induction s arbitrary: b)
  case (Cons c s)
  have "progress (rx_matches r) (b, c # s, []) = []" by (simp add: progress_def Cons.prems)
  moreover have "sub_from r f (c # b) s = s" by (rule Cons.IH, rule Cons.prems) simp
  ultimately show ?case by simp
qed simp

lemma rx_sub_id: "(\<And>b s'. s = rev b @ s' \<Longrightarrow> rx_matches r (b, s', []) = []) \<Longrightarrow> rx_sub r f s = s"
  by (auto simp: rx_sub_def intro!: sub_from_id)

end
