(* ===== verification/BuildValidators.thy ===== *)
theory BuildValidators
  imports PyRegex
begin

text \<open>
  Build request validation and log redaction, \<open>app/builder/validators.py\<close>, with the errors of
  \<open>app/builder/errors.py\<close>. The JSON printer and parser and SHA-256 are parameters. Main results: an accepted
  configuration holds no secret-shaped key and no key material at any depth, accepted targets are legal and
  distinct, and the mapping redaction leaves no value under a secret-shaped key.
\<close>

section \<open>Errors\<close>

datatype build_error =
    BuildNotFound string
  | BuildForbidden string
  | BuildValidationFailed string
  | BuildConflict string
  | BuildQueueUnavailable string
  | WorkerAuthFailed string
  | WorkerNotFound string
  | WorkerConflict string
  | CredentialNotFound string
  | CredentialRevoked string
  | Raised py_error

section \<open>Tables\<close>

definition PLATFORM_ARCHES :: "(string, string list) dict" where
  "PLATFORM_ARCHES =
     [(''android'', [''armeabi-v7a'', ''arm64-v8a'', ''x86_64'']), (''ios'', [''arm64'']),
      (''windows'', [''x64'', ''arm64'']), (''linux'', [''x64'', ''arm64'']), (''macos'', [''arm64'', ''x64''])]"

definition QUEUE_FOR_PLATFORM :: "(string, string) dict" where
  "QUEUE_FOR_PLATFORM =
     [(''android'', ''builder:linux''), (''ios'', ''builder:macos''), (''windows'', ''builder:windows''),
      (''linux'', ''builder:linux''), (''macos'', ''builder:macos'')]"

definition PLATFORM_ARTIFACTS :: "(string, string list) dict" where
  "PLATFORM_ARTIFACTS =
     [(''android'', [''apk'', ''aab'']), (''windows'', [''zip'']), (''linux'', [''tar.gz'']),
      (''macos'', [''tar.gz'']), (''ios'', [''ipa''])]"

definition MAX_TARGETS :: nat where "MAX_TARGETS = 8"
definition MAX_CONFIG_BYTES :: int where "MAX_CONFIG_BYTES = 64 * 1024"
definition MAX_CONFIG_DEPTH :: nat where "MAX_CONFIG_DEPTH = 4"

definition SECRET_KEY_FRAGMENTS :: "string list" where
  "SECRET_KEY_FRAGMENTS =
     [''password'', ''passwd'', ''secret'', ''token'', ''private_key'', ''privatekey'', ''api_key'', ''apikey'',
      ''credential'', ''passphrase'', ''client_secret'', ''auth_key'', ''keystore'', ''key_password'', ''sign_password'']"

definition SECRET_KEY_EXACT :: "string list" where
  "SECRET_KEY_EXACT = [''signing_key'', ''signing_secret'']"

definition REDACTED :: string where
  "REDACTED = ''***REDACTED***''"

definition py_endswith :: "string \<Rightarrow> string \<Rightarrow> bool" where
  "py_endswith s suf \<longleftrightarrow> py_prefix (rev suf) (rev s)"

definition rstrip_char :: "char \<Rightarrow> string \<Rightarrow> string" where
  "rstrip_char c s = rev (dropWhile (\<lambda>x. x = c) (rev s))"

section \<open>Version and revision\<close>

definition alnum :: "char \<Rightarrow> bool" where
  "alnum c \<longleftrightarrow> is_word c \<and> c \<noteq> CHR ''_''"

definition semver_tail :: rx where
  "semver_tail = rplus (RChr (\<lambda>c. alnum c \<or> c = CHR ''.'' \<or> c = CHR ''-''))"

definition semver_number :: rx where
  "semver_number = RAlt (rlit ''0'') (RSeq (RChr (\<lambda>c. is_digit c \<and> c \<noteq> CHR ''0'')) (RStar (RChr is_digit)))"

definition SEMVER :: rx where
  "SEMVER = rseq [semver_number, rlit ''.'', semver_number, rlit ''.'', semver_number,
     ropt (RSeq (rlit ''-'') semver_tail), ropt (RSeq (rlit ''+'') semver_tail), REnd]"

definition validate_version :: "pyval \<Rightarrow> build_error + string" where
  "validate_version version =
     (case version of
        VStr v \<Rightarrow>
          (let cleaned = py_strip v
           in if cleaned = [] \<or> length cleaned > 32 \<or> rx_match SEMVER cleaned = None
              then Inl (BuildValidationFailed ''version must be semver'') else Inr cleaned)
      | _ \<Rightarrow> Inl (BuildValidationFailed ''version must be a string''))"

definition hex_lower :: "char \<Rightarrow> bool" where
  "hex_lower c \<longleftrightarrow> is_digit c \<or> c \<in> set ''abcdef''"

definition HEX40 :: rx where
  "HEX40 = RSeq (rtimes 40 (RChr hex_lower)) REnd"

definition validate_source_revision :: "pyval \<Rightarrow> build_error + string" where
  "validate_source_revision revision =
     (case revision of
        VStr r \<Rightarrow>
          (let cleaned = py_lower (py_strip r)
           in if rx_match HEX40 cleaned = None
              then Inl (BuildValidationFailed ''source_revision must be a pinned 40-hex commit SHA'') else Inr cleaned)
      | _ \<Rightarrow> Inl (BuildValidationFailed ''source_revision must be a string''))"

section \<open>Source repositories\<close>

text \<open>
  \<open>urllib.parse.urlsplit\<close> as far as it is used here: scheme, network location, host name and path. A network
  location with an unmatched bracket raises \<open>ValueError\<close>; the address inside matched brackets is checked by the
  \<open>ipaddress\<close> module, whose verdict is the parameter \<open>bracket_ok\<close>.
\<close>

record split_url =
  u_scheme :: string
  u_netloc :: string
  u_path :: string

definition scheme_char :: "char \<Rightarrow> bool" where
  "scheme_char c \<longleftrightarrow> alnum c \<or> c \<in> set ''+-.''"

definition split_scheme :: "string \<Rightarrow> string \<times> string" where
  "split_scheme url =
     (let sch = takeWhile (\<lambda>c. c \<noteq> CHR '':'') url; rest = dropWhile (\<lambda>c. c \<noteq> CHR '':'') url
      in if rest \<noteq> [] \<and> sch \<noteq> [] \<and> alnum (hd sch) \<and> \<not> is_digit (hd sch) \<and> list_all scheme_char sch
         then (py_lower sch, tl rest) else ([], url))"

definition urlsplit :: "(string \<Rightarrow> bool) \<Rightarrow> string \<Rightarrow> py_error + split_url" where
  "urlsplit bracket_ok url0 =
     (let url1 = filter (\<lambda>c. c \<notin> {CHR 0x09, CHR 0x0A, CHR 0x0D}) (dropWhile (\<lambda>c. (of_char c :: nat) \<le> 32) url0);
          (sch, url2) = split_scheme url1;
          delim = (\<lambda>c. c \<in> {CHR ''/'', CHR ''?'', CHR ''#''});
          (netloc, url3) = (if py_prefix ''//'' url2
             then (takeWhile (\<lambda>c. \<not> delim c) (drop 2 url2), dropWhile (\<lambda>c. \<not> delim c) (drop 2 url2)) else ([], url2));
          opening = CHR ''['' \<in> set netloc; closing = CHR '']'' \<in> set netloc
      in if opening \<noteq> closing \<or> (opening \<and> \<not> bracket_ok netloc) then Inl ValueError
         else Inr \<lparr>u_scheme = sch, u_netloc = netloc, u_path = takeWhile (\<lambda>c. c \<notin> {CHR ''?'', CHR ''#''}) url3\<rparr>)"

text \<open>The host name: what follows the last \<open>@\<close>, without the port; inside brackets when there are any.\<close>

definition has_hostname :: "split_url \<Rightarrow> bool" where
  "has_hostname u =
     (let hostinfo = rev (takeWhile (\<lambda>c. c \<noteq> CHR ''@'') (rev (u_netloc u)))
      in if CHR ''['' \<in> set hostinfo
         then takeWhile (\<lambda>c. c \<noteq> CHR '']'') (tl (dropWhile (\<lambda>c. c \<noteq> CHR ''['') hostinfo)) \<noteq> []
         else takeWhile (\<lambda>c. c \<noteq> CHR '':'') hostinfo \<noteq> [])"

definition normalize_repo :: "(string \<Rightarrow> bool) \<Rightarrow> string \<Rightarrow> py_error + string" where
  "normalize_repo bracket_ok url =
     (let cleaned = rstrip_char (CHR ''/'') (py_strip url)
      in case urlsplit bracket_ok cleaned of
           Inl e \<Rightarrow> Inl e
         | Inr u \<Rightarrow>
             if u_scheme u = ''https'' then
               (let low = py_lower cleaned
                in Inr (if py_endswith low ''.git'' then take (length low - 4) low else low))
             else Inr cleaned)"

fun normalize_all :: "(string \<Rightarrow> bool) \<Rightarrow> string list \<Rightarrow> py_error + string list" where
  "normalize_all bracket_ok [] = Inr []"
| "normalize_all bracket_ok (e # es) =
     rbind (normalize_repo bracket_ok e) (\<lambda>n. rbind (normalize_all bracket_ok es) (\<lambda>ns. Inr (n # ns)))"

definition lift_raise :: "py_error + 'a \<Rightarrow> build_error + 'a" where
  "lift_raise r = (case r of Inl e \<Rightarrow> Inl (Raised e) | Inr x \<Rightarrow> Inr x)"

definition validate_source_repo :: "(string \<Rightarrow> bool) \<Rightarrow> pyval \<Rightarrow> string list \<Rightarrow> build_error + string" where
  "validate_source_repo bracket_ok repo allowlist =
     (case repo of
        VStr r \<Rightarrow>
          (let cleaned = py_strip r
           in if cleaned = [] \<or> int (length cleaned) > 512 then Inl (BuildValidationFailed ''source_repo is required'')
              else rbind (lift_raise (urlsplit bracket_ok cleaned)) (\<lambda>parsed.
                if (if u_scheme parsed = ''https'' then has_hostname parsed
                    else if u_scheme parsed = ''file''
                      then u_netloc parsed \<in> {[], ''localhost''} \<and> py_prefix ''/'' (u_path parsed)
                    else False)
                then rbind (lift_raise (normalize_all bracket_ok allowlist)) (\<lambda>allowed.
                     rbind (lift_raise (normalize_repo bracket_ok cleaned)) (\<lambda>n.
                       if n \<notin> set allowed then Inl (BuildValidationFailed ''not on the build source allowlist'')
                       else Inr cleaned))
                else Inl (BuildValidationFailed ''must be an https URL or an absolute file:// mirror'')))
      | _ \<Rightarrow> Inl (BuildValidationFailed ''source_repo must be a string''))"

section \<open>Targets\<close>

record build_target =
  t_platform :: string
  t_arch :: string
  t_artifact :: string

definition allowed_artifacts :: "string \<Rightarrow> string list" where
  "allowed_artifacts platform = (case dict_get PLATFORM_ARTIFACTS platform of None \<Rightarrow> [''apk''] | Some xs \<Rightarrow> xs)"

definition validate_target :: "pyval \<Rightarrow> build_error + build_target" where
  "validate_target entry =
     (case entry of
        VDict d \<Rightarrow>
          (case (vget d ''platform'', vget d ''arch'') of
             (VStr p, VStr a) \<Rightarrow>
               (let platform = py_lower (py_strip p); arch = py_lower (py_strip a);
                    default_artifact = hd (allowed_artifacts platform)
                in case (case dict_get d ''artifact'' of None \<Rightarrow> VStr default_artifact | Some x \<Rightarrow> x) of
                     VStr art \<Rightarrow>
                       (let artifact = py_lower (py_strip art)
                        in if artifact \<notin> set (allowed_artifacts platform)
                             then Inl (BuildValidationFailed ''unsupported artifact'')
                           else case dict_get PLATFORM_ARCHES platform of
                             None \<Rightarrow> Inl (BuildValidationFailed ''unsupported platform'')
                           | Some arches \<Rightarrow>
                               if arch \<notin> set arches then Inl (BuildValidationFailed ''unsupported arch'')
                               else if artifact = ''aab'' \<and> platform \<noteq> ''android''
                                 then Inl (BuildValidationFailed ''artifact aab is only supported for android'')
                               else Inr \<lparr>t_platform = platform, t_arch = arch, t_artifact = artifact\<rparr>)
                   | _ \<Rightarrow> Inl (BuildValidationFailed ''each target artifact must be a string''))
           | _ \<Rightarrow> Inl (BuildValidationFailed ''each target must be {platform, arch} strings''))
      | _ \<Rightarrow> Inl (BuildValidationFailed ''each target must be {platform, arch}''))"

fun clean_targets :: "pyval list \<Rightarrow> build_target list \<Rightarrow> build_error + build_target list" where
  "clean_targets [] cleaned = Inr cleaned"
| "clean_targets (entry # rest) cleaned =
     rbind (validate_target entry) (\<lambda>t.
       if t \<in> set cleaned then Inl (BuildValidationFailed ''duplicate target'')
       else clean_targets rest (cleaned @ [t]))"

definition validate_targets :: "pyval \<Rightarrow> build_error + build_target list" where
  "validate_targets targets =
     (case targets of
        VList xs \<Rightarrow>
          if xs = [] then Inl (BuildValidationFailed ''targets must be a non-empty list'')
          else if length xs > MAX_TARGETS then Inl (BuildValidationFailed ''too many targets'')
          else clean_targets xs []
      | _ \<Rightarrow> Inl (BuildValidationFailed ''targets must be a non-empty list''))"

section \<open>Configuration\<close>

definition secret_key_name :: "string \<Rightarrow> bool" where
  "secret_key_name key =
     (let lowered = py_lower key
      in lowered \<in> set SECRET_KEY_EXACT \<or> list_ex (\<lambda>fragment. py_in fragment lowered) SECRET_KEY_FRAGMENTS)"

function walk_config :: "pyval \<Rightarrow> nat \<Rightarrow> string \<Rightarrow> build_error + unit"
  and walk_dict :: "(string \<times> pyval) list \<Rightarrow> nat \<Rightarrow> string \<Rightarrow> build_error + unit"
  and walk_list :: "pyval list \<Rightarrow> nat \<Rightarrow> nat \<Rightarrow> string \<Rightarrow> build_error + unit" where
  "walk_config v depth path =
     (if depth > MAX_CONFIG_DEPTH then Inl (BuildValidationFailed (''build_config exceeds max depth at '' @ path))
      else case v of
        VDict d \<Rightarrow> walk_dict d depth path
      | VList xs \<Rightarrow>
          if int (length xs) > 256 then Inl (BuildValidationFailed (''build_config list too long at '' @ path))
          else walk_list xs 0 depth path
      | VStr s \<Rightarrow>
          if int (length s) > 8192 then Inl (BuildValidationFailed (''build_config string too long at '' @ path))
          else if py_in ''PRIVATE KEY-----'' s then Inl (BuildValidationFailed (''private-key material at '' @ path))
          else Inr ()
      | _ \<Rightarrow> Inr ())"
| "walk_dict [] depth path = Inr ()"
| "walk_dict ((key, item) # rest) depth path =
     (if secret_key_name key then Inl (BuildValidationFailed (''looks like a secret: '' @ path @ key))
      else if int (length key) > 128 then Inl (BuildValidationFailed (''build_config key too long at '' @ path))
      else rbind (walk_config item (depth + 1) (path @ key @ ''.'')) (\<lambda>_. walk_dict rest depth path))"
| "walk_list [] index depth path = Inr ()"
| "walk_list (item # rest) index depth path =
     rbind (walk_config item (depth + 1) (path @ nat_to_str index @ ''.'')) (\<lambda>_. walk_list rest (index + 1) depth path)"
  by pat_completeness auto
termination
  by (relation "measure (\<lambda>x. case x of Inl (v, _) \<Rightarrow> 2 * size v | Inr (Inl (d, _)) \<Rightarrow> Suc (2 * size_list (size_prod (\<lambda>_. 0) size) d)
        | Inr (Inr (xs, _)) \<Rightarrow> Suc (2 * size_list size xs))")
    auto

text \<open>The JSON codec and the digest the panel uses.\<close>

record config_env =
  canonical_json :: "pyval \<Rightarrow> string"
  json_parse :: "string \<Rightarrow> pyval"
  sha256_hex :: "string \<Rightarrow> string"

definition validate_build_config :: "config_env \<Rightarrow> pyval \<Rightarrow> build_error + (pyval \<times> string)" where
  "validate_build_config env config =
     (case config of
        VDict d \<Rightarrow>
          (let raw = canonical_json env config
           in if int (length raw) > MAX_CONFIG_BYTES then Inl (BuildValidationFailed ''build_config exceeds 65536 bytes'')
              else rbind (walk_config config 0 []) (\<lambda>_.
                case vget d ''display_name'' of
                  VStr display \<Rightarrow>
                    if py_strip display = [] then Inl (BuildValidationFailed ''build_config.display_name is required'')
                    else if int (length (py_strip display)) > 64 then Inl (BuildValidationFailed ''build_config.display_name is too long'')
                    else Inr (json_parse env raw, sha256_hex env raw)
                | _ \<Rightarrow> Inl (BuildValidationFailed ''build_config.display_name is required'')))
      | _ \<Rightarrow> Inl (BuildValidationFailed ''build_config must be a JSON object''))"

section \<open>Redaction\<close>

definition rx_space :: rx where "rx_space = RChr is_space"
definition rx_class :: "string \<Rightarrow> rx" where "rx_class extra = RChr (\<lambda>c. alnum c \<or> c \<in> set extra)"
definition rx_quote :: rx where "rx_quote = ropt (RChr (\<lambda>c. c = CHR 0x27 \<or> c = CHR 0x22))"
definition rx_dash :: rx where "rx_dash = ropt (RChr (\<lambda>c. c = CHR ''_'' \<or> c = CHR ''-''))"

definition key_header :: "string \<Rightarrow> rx" where
  "key_header word = rseq [rlit (''-----'' @ word @ '' ''),
     RStar (RChr (\<lambda>c. (let n = (of_char c :: nat) in 65 \<le> n \<and> n \<le> 90) \<or> is_digit c \<or> c = CHR '' '')),
     rlit ''PRIVATE KEY-----'']"

definition PRIVATE_KEY_BLOCK :: rx where
  "PRIVATE_KEY_BLOCK = rseq [key_header ''BEGIN'', RLazy (RChr (\<lambda>_. True)), key_header ''END'']"

definition secret_label :: rx where
  "secret_label = ralts [rlit_nocase ''password'', rlit_nocase ''passwd'', rlit_nocase ''secret'', rlit_nocase ''token'',
     rseq [rlit_nocase ''private'', rx_dash, rlit_nocase ''key''], rseq [rlit_nocase ''api'', rx_dash, rlit_nocase ''key''],
     rlit_nocase ''passphrase'', rlit_nocase ''credential'', rseq [rlit_nocase ''client'', rx_dash, rlit_nocase ''secret''],
     rseq [rlit_nocase ''auth'', rx_dash, rlit_nocase ''key''], rlit_nocase ''authorization'']"

definition LABELED_SECRET :: rx where
  "LABELED_SECRET = rseq
     [RGroup 1 secret_label,
      RGroup 2 (rseq [rx_quote, RStar rx_space, RChr (\<lambda>c. c = CHR '':'' \<or> c = CHR ''=''), RStar rx_space, rx_quote]),
      RGroup 3 (RSeq (ropt (RSeq (rlit_nocase ''bearer'') (rplus rx_space)))
        (rplus (RChr (\<lambda>c. \<not> is_space c \<and> c \<notin> {CHR 0x27, CHR 0x22, CHR '';'', CHR '','', CHR ''}''}))))]"

definition TOKEN_PREFIXES :: rx where
  "TOKEN_PREFIXES = rseq [RWordB, RGroup 1 (ralts
     [RSeq (rlit ''ghp_'') (rplus (rx_class ''_'')), RSeq (rlit ''github_pat_'') (rplus (rx_class ''_'')),
      RSeq (rlit ''glpat-'') (rplus (rx_class ''_-'')),
      rseq [rlit ''xox'', RChr (\<lambda>c. c \<in> set ''bap''), rlit ''-'', rplus (rx_class ''-'')],
      rseq [rlit ''sk-'', rtimes 8 (rx_class []), RStar (rx_class [])],
      rseq [rlit ''rk-'', rtimes 8 (rx_class []), RStar (rx_class [])]]), RWordB]"

definition BEARER :: rx where
  "BEARER = rseq [RWordB, RGroup 1 (rlit_nocase ''Bearer''), rplus rx_space, RGroup 2 (rplus (rx_class ''._~+/-''))]"

definition URL_USERINFO :: rx where
  "URL_USERINFO = rseq
     [RGroup 1 (rseq [rlit ''http'', ropt (rlit ''s''), rlit ''://'',
        rplus (RChr (\<lambda>c. c \<noteq> CHR ''/'' \<and> \<not> is_space c \<and> c \<noteq> CHR '':'')), rlit '':'']),
      RGroup 2 (rplus (RChr (\<lambda>c. c \<noteq> CHR ''@'' \<and> \<not> is_space c \<and> c \<noteq> CHR ''/''))),
      RGroup 3 (rlit ''@'')]"

text \<open>The ellipsis U+2026 the code appends to cut texts, as one character.\<close>

definition ELLIPSIS :: char where
  "ELLIPSIS = CHR 0x85"

definition redact_text :: "string \<Rightarrow> int \<Rightarrow> string" where
  "redact_text text0 max_bytes =
     (let truncated = int (length text0) > max_bytes;
          text1 = (if truncated then take (nat max_bytes) text0 else text0);
          text2 = rx_sub PRIVATE_KEY_BLOCK (\<lambda>_. REDACTED) text1;
          text3 = rx_sub LABELED_SECRET (\<lambda>m. group_text m 1 @ group_text m 2 @ REDACTED) text2;
          text4 = rx_sub TOKEN_PREFIXES (\<lambda>_. REDACTED) text3;
          text5 = rx_sub BEARER (\<lambda>m. group_text m 1 @ '' '' @ REDACTED) text4;
          text6 = rx_sub URL_USERINFO (\<lambda>m. group_text m 1 @ REDACTED @ group_text m 3) text5
      in if truncated
         then text6 @ [CHR 0x0A, ELLIPSIS] @ ''[truncated to '' @ int_to_str max_bytes @ '' bytes]'' else text6)"

fun redact_mapping :: "pyval \<Rightarrow> pyval" where
  "redact_mapping (VDict d) =
     VDict (map (\<lambda>(key, item). (key, if secret_key_name key then VStr REDACTED else redact_mapping item)) d)"
| "redact_mapping (VList xs) = VList (map redact_mapping xs)"
| "redact_mapping (VStr s) = VStr (redact_text s (1024 * 1024))"
| "redact_mapping v = v"

section \<open>What acceptance means\<close>

text \<open>All values inside a value, itself included, and the nesting depth of a value.\<close>

fun nested :: "pyval \<Rightarrow> pyval list" where
  "nested (VList xs) = VList xs # concat (map nested xs)"
| "nested (VDict d) = VDict d # concat (map (\<lambda>(k, v). nested v) d)"
| "nested v = [v]"

fun vdepth :: "pyval \<Rightarrow> nat" where
  "vdepth (VList xs) = foldr (\<lambda>x. max (Suc (vdepth x))) xs 0"
| "vdepth (VDict d) = foldr (\<lambda>(k, v). max (Suc (vdepth v))) d 0"
| "vdepth v = 0"

fun node_ok :: "pyval \<Rightarrow> bool" where
  "node_ok (VDict d) = list_all (\<lambda>(k, v). \<not> secret_key_name k \<and> int (length k) \<le> 128) d"
| "node_ok (VList xs) = (int (length xs) \<le> 256)"
| "node_ok (VStr s) = (int (length s) \<le> 8192 \<and> \<not> py_in ''PRIVATE KEY-----'' s)"
| "node_ok v = True"

lemma rbind_unit_iff: "rbind r (\<lambda>_. q) = Inr () \<longleftrightarrow> r = Inr () \<and> q = Inr ()"
  by (cases r) auto

lemma walk_dict_iff:
  "walk_dict d depth path = Inr () \<longleftrightarrow>
     list_all (\<lambda>(k, v). \<not> secret_key_name k \<and> int (length k) \<le> 128 \<and> walk_config v (depth + 1) (path @ k @ ''.'') = Inr ()) d"
proof (induction d)
  case (Cons p d)
  obtain k v where p: "p = (k, v)" by (cases p)
  have "walk_dict (p # d) depth path = Inr () \<longleftrightarrow> \<not> secret_key_name k \<and> int (length k) \<le> 128 \<and>
      walk_config v (depth + 1) (path @ k @ ''.'') = Inr () \<and> walk_dict d depth path = Inr ()"
    unfolding p walk_dict.simps by (simp add: rbind_unit_iff not_less del: walk_config.simps)
  then show ?case using Cons.IH by (simp add: p del: walk_config.simps walk_dict.simps)
qed simp

lemma walk_list_iff:
  "walk_list xs i depth path = Inr () \<longleftrightarrow>
     (\<forall>j < length xs. walk_config (xs ! j) (depth + 1) (path @ nat_to_str (i + j) @ ''.'') = Inr ())"
proof (induction xs arbitrary: i)
  case (Cons x xs)
  then show ?case by (simp add: rbind_unit_iff All_less_Suc2 del: walk_config.simps)
qed simp

lemma foldr_max_le: "foldr (\<lambda>x. max (f x)) xs 0 \<le> n \<longleftrightarrow> (\<forall>x \<in> set xs. f x \<le> n)" for n :: nat
  by (induction xs) auto

lemma walk_config_iff:
  "walk_config v depth path = Inr () \<longleftrightarrow> depth + vdepth v \<le> MAX_CONFIG_DEPTH \<and> list_all node_ok (nested v)"
proof (induction v arbitrary: depth path)
  case (VList xs)
  have "walk_config (VList xs) depth path = Inr () \<longleftrightarrow>
      depth \<le> MAX_CONFIG_DEPTH \<and> int (length xs) \<le> 256 \<and>
      (\<forall>x \<in> set xs. depth + 1 + vdepth x \<le> MAX_CONFIG_DEPTH \<and> list_all node_ok (nested x))"
    using VList.IH [OF nth_mem]
    by (simp add: walk_config.simps [of "VList xs"] walk_list_iff all_set_conv_all_nth not_less del: walk_config.simps)
  moreover have "depth + vdepth (VList xs) \<le> MAX_CONFIG_DEPTH \<longleftrightarrow>
      depth \<le> MAX_CONFIG_DEPTH \<and> (\<forall>x \<in> set xs. depth + 1 + vdepth x \<le> MAX_CONFIG_DEPTH)"
    using foldr_max_le [of "\<lambda>x. Suc (vdepth x)" xs "MAX_CONFIG_DEPTH - depth"] by auto
  ultimately show ?case by (auto simp: list_all_iff)
next
  case (VDict d)
  have IH: "walk_config v (depth + 1) p = Inr () \<longleftrightarrow> depth + 1 + vdepth v \<le> MAX_CONFIG_DEPTH \<and> list_all node_ok (nested v)"
    if "(k, v) \<in> set d" for k v p
    using VDict.IH [of "(k, v)" v] that by (simp del: walk_config.simps)
  have "walk_config (VDict d) depth path = Inr () \<longleftrightarrow>
      depth \<le> MAX_CONFIG_DEPTH \<and> (\<forall>(k, v) \<in> set d. (\<not> secret_key_name k \<and> int (length k) \<le> 128) \<and>
        depth + 1 + vdepth v \<le> MAX_CONFIG_DEPTH \<and> list_all node_ok (nested v))"
  proof -
    have "(case p of (k, v) \<Rightarrow> \<not> secret_key_name k \<and> int (length k) \<le> 128 \<and> walk_config v (depth + 1) (path @ k @ ''.'') = Inr ()) \<longleftrightarrow>
        (case p of (k, v) \<Rightarrow> (\<not> secret_key_name k \<and> int (length k) \<le> 128) \<and>
          depth + 1 + vdepth v \<le> MAX_CONFIG_DEPTH \<and> list_all node_ok (nested v))" if "p \<in> set d" for p
      using IH that by (cases p) (simp del: walk_config.simps)
    then show ?thesis
      by (simp add: walk_config.simps [of "VDict d"] walk_dict_iff list_all_iff not_less del: walk_config.simps)
  qed
  moreover have "depth + vdepth (VDict d) \<le> MAX_CONFIG_DEPTH \<longleftrightarrow>
      depth \<le> MAX_CONFIG_DEPTH \<and> (\<forall>(k, v) \<in> set d. depth + 1 + vdepth v \<le> MAX_CONFIG_DEPTH)"
    using foldr_max_le [of "\<lambda>(k, v). Suc (vdepth v)" d "MAX_CONFIG_DEPTH - depth"]
    by (auto simp: case_prod_unfold)
  ultimately show ?case by (fastforce simp: list_all_iff)
qed (auto simp: MAX_CONFIG_DEPTH_def)

definition legal_target :: "build_target \<Rightarrow> bool" where
  "legal_target t \<longleftrightarrow> (\<exists>arches. dict_get PLATFORM_ARCHES (t_platform t) = Some arches \<and> t_arch t \<in> set arches) \<and>
     (\<exists>arts. dict_get PLATFORM_ARTIFACTS (t_platform t) = Some arts \<and> t_artifact t \<in> set arts)"

lemma platform_tables: "dict_get PLATFORM_ARCHES p = Some arches \<Longrightarrow> \<exists>arts q. dict_get PLATFORM_ARTIFACTS p = Some arts \<and> dict_get QUEUE_FOR_PLATFORM p = Some q"
  by (auto simp: PLATFORM_ARCHES_def PLATFORM_ARTIFACTS_def QUEUE_FOR_PLATFORM_def split: if_splits)

lemma validate_target_legal:
  assumes "validate_target e = Inr t"
  shows "legal_target t"
proof -
  obtain arches where a: "dict_get PLATFORM_ARCHES (t_platform t) = Some arches" "t_arch t \<in> set arches"
      "t_artifact t \<in> set (allowed_artifacts (t_platform t))"
    using assms by (auto simp: validate_target_def Let_def split: pyval.splits option.splits if_splits)
  from platform_tables [OF a(1)] a show ?thesis by (auto simp: legal_target_def allowed_artifacts_def)
qed

lemma clean_targets_legal:
  "clean_targets es acc = Inr ts \<Longrightarrow> distinct acc \<Longrightarrow> list_all legal_target acc \<Longrightarrow>
     distinct ts \<and> list_all legal_target ts \<and> length ts = length acc + length es"
  by (induction es acc rule: clean_targets.induct) (auto simp: rbind_Inr_iff dest: validate_target_legal split: if_splits)

lemma validate_targets_legal:
  assumes "validate_targets v = Inr ts"
  shows "distinct ts" "list_all legal_target ts" "ts \<noteq> []" "length ts \<le> MAX_TARGETS"
proof -
  obtain xs where "clean_targets xs [] = Inr ts" "xs \<noteq> []" "length xs \<le> MAX_TARGETS"
    using assms by (auto simp: validate_targets_def split: pyval.splits if_splits)
  with clean_targets_legal [of xs "[]" ts]
  show "distinct ts" "list_all legal_target ts" "ts \<noteq> []" "length ts \<le> MAX_TARGETS" by auto
qed

lemma legal_target_queue: "legal_target t \<Longrightarrow> \<exists>q. dict_get QUEUE_FOR_PLATFORM (t_platform t) = Some q"
  using platform_tables by (fastforce simp: legal_target_def)

text \<open>Redacted mappings: under a secret-shaped key there is only the placeholder, at every depth.\<close>

fun hidden :: "pyval \<Rightarrow> bool" where
  "hidden (VDict d) = list_all (\<lambda>(k, v). secret_key_name k \<longrightarrow> v = VStr REDACTED) d"
| "hidden v = True"

lemma redact_mapping_hides: "list_all hidden (nested (redact_mapping v))"
proof (induction v rule: redact_mapping.induct)
  case (1 d)
  have "list_all hidden (nested (if secret_key_name k then VStr REDACTED else redact_mapping x))" if "(k, x) \<in> set d" for k x
    using 1 that by auto
  then show ?case by (auto simp: list_all_iff)
next
  case (2 xs)
  then show ?case by (auto simp: list_all_iff)
qed simp_all

text \<open>
  Exactly the clean configurations are accepted: a JSON object of bounded size and depth with a display
  name, in which no key at any depth is secret-shaped or too long, no list or string is too long and no
  string holds private key material.
\<close>
lemma accepted_configs_are_clean:
  "(\<exists>r. validate_build_config env v = Inr r) =
     (\<exists>d display. v = VDict d \<and> int (length (canonical_json env v)) \<le> MAX_CONFIG_BYTES \<and> vdepth v \<le> MAX_CONFIG_DEPTH \<and>
       list_all node_ok (nested v) \<and> dict_get d ''display_name'' = Some (VStr display) \<and> py_strip display \<noteq> [] \<and>
       int (length (py_strip display)) \<le> 64)"
proof (cases v)
  case (VDict d)
  have "(\<exists>display. vget d ''display_name'' = VStr display \<and> P display) \<longleftrightarrow>
      (\<exists>display. dict_get d ''display_name'' = Some (VStr display) \<and> P display)" for P
    by (auto simp: vget_def split: option.splits)
  note name = this [of "\<lambda>s. py_strip s \<noteq> [] \<and> int (length (py_strip s)) \<le> 64"]
  have "(\<exists>r. validate_build_config env v = Inr r) \<longleftrightarrow>
      int (length (canonical_json env v)) \<le> MAX_CONFIG_BYTES \<and> walk_config v 0 [] = Inr () \<and>
      (\<exists>display. vget d ''display_name'' = VStr display \<and> py_strip display \<noteq> [] \<and> int (length (py_strip display)) \<le> 64)"
    by (cases "vget d ''display_name''")
      (auto simp: validate_build_config_def VDict rbind_Inr_iff not_less Let_def simp del: walk_config.simps split: if_splits)
  then show ?thesis unfolding name walk_config_iff by (auto simp: VDict)
qed (simp_all add: validate_build_config_def)

end
