(* ===== verification/SqlTable.thy ===== *)
theory SqlTable
  imports Base64
begin

text \<open>
  Tables as the repositories use them through SQLAlchemy: a table is the list of its rows in the order of their
  primary keys. The theory has the lookups (\<open>scalar_one_or_none\<close> on a column whose values are unique), the bulk
  \<open>UPDATE ... WHERE\<close>, fresh primary keys, and the hexadecimal text of digests.
\<close>

section \<open>Hexadecimal text\<close>

definition hex_digit :: "nat \<Rightarrow> char" where
  "hex_digit n = (if n < 10 then char_of (48 + n) else char_of (87 + n))"

definition hex_value :: "char \<Rightarrow> nat option" where
  "hex_value c =
     (let n = (of_char c :: nat)
      in if 48 \<le> n \<and> n \<le> 57 then Some (n - 48)
         else if 97 \<le> n \<and> n \<le> 102 then Some (n - 87)
         else if 65 \<le> n \<and> n \<le> 70 then Some (n - 55) else None)"

definition hexdigest :: "bytes \<Rightarrow> string" where
  "hexdigest bs = concat (map (\<lambda>b. [hex_digit (unat b div 16), hex_digit (unat b mod 16)]) bs)"

text \<open>\<open>bytes.fromhex\<close>: white space between the pairs is skipped.\<close>

fun fromhex :: "string \<Rightarrow> bytes option" where
  "fromhex [] = Some []"
| "fromhex [c] = (if is_space c then Some [] else None)"
| "fromhex (c # d # cs) =
     (if is_space c then fromhex (d # cs)
      else case (hex_value c, hex_value d) of
        (Some x, Some y) \<Rightarrow> map_option (Cons (word_of_nat (16 * x + y))) (fromhex cs)
      | _ \<Rightarrow> None)"

lemma hex_value_digit: "n < 16 \<Longrightarrow> hex_value (hex_digit n) = Some n" "n < 16 \<Longrightarrow> \<not> is_space (hex_digit n)"
  by (auto simp: hex_value_def hex_digit_def is_space_def Let_def)

lemma fromhex_hexdigest: "fromhex (hexdigest bs) = Some bs"
proof (induction bs)
  case (Cons b bs)
  have b: "unat b < 256" using unsigned_less [of b] by simp
  then have "unat b div 16 < 16" "unat b mod 16 < 16" by auto
  moreover have "word_of_nat (16 * (unat b div 16) + unat b mod 16) = b" by simp
  ultimately show ?case using Cons by (simp add: hexdigest_def hex_value_digit del: of_nat_add of_nat_mult)
qed (simp add: hexdigest_def)

lemma hexdigest_Nil: "hexdigest bs = [] \<longleftrightarrow> bs = []"
  by (cases bs) (simp_all add: hexdigest_def)

section \<open>Rows\<close>

definition fresh_id :: "int list \<Rightarrow> int" where
  "fresh_id ids = fold max ids 0 + 1"

definition one_or_none :: "('r \<Rightarrow> bool) \<Rightarrow> 'r list \<Rightarrow> 'r option" where
  "one_or_none P rows = (case filter P rows of [] \<Rightarrow> None | r # _ \<Rightarrow> Some r)"

lemma one_or_none_Some: "one_or_none P xs = Some x \<Longrightarrow> x \<in> set xs \<and> P x"
  by (auto simp: one_or_none_def filter_eq_Cons_iff split: list.splits)

lemma fold_max_start: "a \<le> fold max xs (a :: int)"
proof (induction xs arbitrary: a)
  case (Cons y ys)
  have "a \<le> max y a" by simp
  also have "\<dots> \<le> fold max ys (max y a)" by (rule Cons.IH)
  finally show ?case by simp
qed simp

lemma fold_max_upper: "x \<in> set xs \<Longrightarrow> x \<le> fold max xs (a :: int)"
proof (induction xs arbitrary: a)
  case (Cons y ys)
  show ?case
  proof (cases "x = y")
    case True
    then have "x \<le> max y a" by simp
    also have "\<dots> \<le> fold max ys (max y a)" by (rule fold_max_start)
    finally show ?thesis by simp
  qed (use Cons in simp)
qed simp

lemma fresh_id_notin: "fresh_id xs \<notin> set xs"
  using fold_max_upper [of "fresh_id xs" xs 0] by (auto simp: fresh_id_def)

text \<open>\<open>UPDATE table SET ... WHERE P\<close>.\<close>

definition update_where :: "('r \<Rightarrow> bool) \<Rightarrow> ('r \<Rightarrow> 'r) \<Rightarrow> 'r list \<Rightarrow> 'r list" where
  "update_where P f rows = map (\<lambda>r. if P r then f r else r) rows"

text \<open>The number of rows the statement touches, \<open>rowcount\<close>.\<close>

definition count_where :: "('r \<Rightarrow> bool) \<Rightarrow> 'r list \<Rightarrow> nat" where
  "count_where P rows = length (filter P rows)"

lemma one_or_none_None: "one_or_none P xs = None \<longleftrightarrow> (\<forall>x \<in> set xs. \<not> P x)"
proof -
  have "one_or_none P xs = None \<longleftrightarrow> filter P xs = []" by (simp add: one_or_none_def split: list.splits)
  then show ?thesis by (simp add: filter_empty_conv)
qed

lemma one_or_none_eqI:
  assumes "distinct (map k xs)" "x \<in> set xs" "P x" "\<And>y. y \<in> set xs \<Longrightarrow> P y \<Longrightarrow> k y = k x"
  shows "one_or_none P xs = Some x"
proof -
  obtain y where y: "one_or_none P xs = Some y" using assms(2,3) one_or_none_None [of P xs] by fastforce
  note m = one_or_none_Some [OF y]
  have "k y = k x" using m by (intro assms(4)) simp_all
  then have "y = x" using inj_onD [OF iffD1 [OF distinct_map, OF assms(1), THEN conjunct2]] m assms(2) by blast
  then show ?thesis using y by simp
qed

lemma length_update_where [simp]: "length (update_where P f xs) = length xs"
  by (simp add: update_where_def)

lemma set_update_where: "set (update_where P f xs) = (\<lambda>r. if P r then f r else r) ` set xs"
  by (simp add: update_where_def)

lemma update_where_row: "r \<in> set xs \<Longrightarrow> (if P r then f r else r) \<in> set (update_where P f xs)"
  by (simp add: set_update_where)

lemma map_update_where [simp]: "(\<And>r. k (f r) = k r) \<Longrightarrow> map k (update_where P f xs) = map k xs"
  by (simp add: update_where_def)

lemma update_where_id: "(\<And>x. x \<in> set xs \<Longrightarrow> \<not> P x) \<Longrightarrow> update_where P f xs = xs"
  by (induction xs) (auto simp: update_where_def)

lemma update_whereE:
  assumes "x \<in> set (update_where P f xs)"
  obtains (same) "x \<in> set xs" "\<not> P x" | (changed) y where "y \<in> set xs" "P y" "x = f y"
  using assms by (auto simp: set_update_where split: if_splits)

lemma one_or_none_update:
  assumes "\<And>r. Q (f r) \<longleftrightarrow> Q r"
  shows "one_or_none Q (update_where P f xs) = map_option (\<lambda>r. if P r then f r else r) (one_or_none Q xs)"
proof -
  have "filter Q (update_where P f xs) = map (\<lambda>r. if P r then f r else r) (filter Q xs)"
    using assms by (induction xs) (auto simp: update_where_def)
  then show ?thesis by (simp add: one_or_none_def split: list.splits)
qed

section \<open>Tables that only grow\<close>

text \<open>
  A change that keeps the key of every row, may alter a row only as \<open>keep\<close> allows, and appends rows with new keys.
\<close>

definition table_change :: "('r \<Rightarrow> 'k) \<Rightarrow> ('r \<Rightarrow> 'r \<Rightarrow> bool) \<Rightarrow> 'r list \<Rightarrow> 'r list \<Rightarrow> bool" where
  "table_change key keep xs ys \<longleftrightarrow>
     (\<exists>P f new. ys = update_where P f xs @ new \<and> (\<forall>r. P r \<longrightarrow> key (f r) = key r \<and> keep r (f r)) \<and>
        distinct (map key new) \<and> key ` set new \<inter> key ` set xs = {})"

lemma table_changeI:
  assumes "\<And>r. P r \<Longrightarrow> key (f r) = key r \<and> keep r (f r)" "distinct (map key new)" "key ` set new \<inter> key ` set xs = {}"
  shows "table_change key keep xs (update_where P f xs @ new)"
  unfolding table_change_def using assms by blast

lemma table_change_update: "(\<And>r. P r \<Longrightarrow> key (f r) = key r \<and> keep r (f r)) \<Longrightarrow> table_change key keep xs (update_where P f xs)"
  using table_changeI [of P key f keep "[]" xs] by simp

lemma table_change_append: "key r \<notin> key ` set xs \<Longrightarrow> table_change key keep xs (xs @ [r])"
  using table_changeI [of "\<lambda>_. False" key id keep "[r]" xs] by (simp add: update_where_id)

lemma table_change_refl: "table_change key keep xs xs"
  using table_change_update [of "\<lambda>_. False" key id keep xs] by (simp add: update_where_id)

lemma table_change_keys:
  assumes "table_change key keep xs ys" "distinct (map key xs)"
  shows "distinct (map key ys)"
proof -
  obtain P f new where y: "ys = update_where P f xs @ new" "\<forall>r. P r \<longrightarrow> key (f r) = key r \<and> keep r (f r)" "distinct (map key new)"
      "key ` set new \<inter> key ` set xs = {}"
    using assms(1) unfolding table_change_def by blast
  have "map key ys = map key xs @ map key new" using y(1,2) by (simp add: update_where_def)
  moreover have "set (map key xs) \<inter> set (map key new) = {}" using y(4) by (simp add: Int_commute)
  ultimately show ?thesis using y(3) assms(2) by (simp only: distinct_append)
qed

lemma table_change_row:
  assumes "table_change key keep xs ys" "r \<in> set xs" "Q r" "\<forall>r r'. keep r r' \<longrightarrow> key r' = key r \<longrightarrow> Q r \<longrightarrow> Q r'"
  shows "\<exists>r' \<in> set ys. key r' = key r \<and> Q r'"
proof -
  obtain P f new where y: "ys = update_where P f xs @ new" "\<forall>r. P r \<longrightarrow> key (f r) = key r \<and> keep r (f r)"
    using assms(1) unfolding table_change_def by blast
  let ?r = "if P r then f r else r"
  have "?r \<in> set ys" using y(1) assms(2) by (auto simp: set_update_where)
  moreover have "key ?r = key r \<and> Q ?r" using y(2) assms(3,4) by auto
  ultimately show ?thesis by blast
qed

lemma table_changes_row:
  assumes "(table_change key keep)\<^sup>*\<^sup>* xs ys" "distinct (map key xs)" "r \<in> set xs" "Q r"
    and "\<forall>r r'. keep r r' \<longrightarrow> key r' = key r \<longrightarrow> Q r \<longrightarrow> Q r'"
  shows "distinct (map key ys) \<and> (\<exists>r' \<in> set ys. key r' = key r \<and> Q r')"
  using assms(1)
proof (induction rule: rtranclp_induct)
  case base
  then show ?case using assms(2-4) by blast
next
  case (step ys zs)
  then obtain r' where r': "r' \<in> set ys" "key r' = key r" "Q r'" by blast
  show ?case using table_change_keys [OF step.hyps(2)] table_change_row [where Q = Q, OF step.hyps(2) r'(1,3) assms(5)] step.IH r'(2) by auto
qed

text \<open>So a lookup by key finds the row, and what the change relation preserves still holds of it.\<close>

lemma table_changes_lookup:
  assumes "(table_change key keep)\<^sup>*\<^sup>* xs ys" "distinct (map key xs)" "r \<in> set xs" "Q r"
    and "\<forall>r r'. keep r r' \<longrightarrow> key r' = key r \<longrightarrow> Q r \<longrightarrow> Q r'"
  shows "\<exists>r'. one_or_none (\<lambda>x. key x = key r) ys = Some r' \<and> Q r'"
proof -
  obtain r' where "distinct (map key ys)" "r' \<in> set ys" "key r' = key r" "Q r'"
    using table_changes_row [where Q = Q, OF assms] by blast
  moreover from this have "one_or_none (\<lambda>x. key x = key r) ys = Some r'" by (intro one_or_none_eqI [of key]) auto
  ultimately show ?thesis by blast
qed

end
