(* ===== verification/BuildRepo.thy ===== *)
theory BuildRepo
  imports BuildValidators SqlTable
begin

text \<open>
  The repository of builds, build workers and build credentials, \<open>app/builder/repository.py\<close>. A table is the
  list of its rows in the order of their primary keys; every operation is one database session, so it takes the
  tables and returns its result with the tables after commit (unchanged when it raises). Random tokens, UUIDs and
  the clock are arguments; SHA-256, the JSON size and the cipher are in \<open>build_env\<close>.
\<close>

section \<open>Rows\<close>

datatype run_status = Queued | Running | Succeeded | Failed | Cancelled

definition TERMINAL :: "run_status set" where
  "TERMINAL = {Succeeded, Failed, Cancelled}"

record app_row =
  ap_id :: int
  ap_public_id :: string
  ap_owner :: int
  ap_name :: string
  ap_status :: string
  ap_branding :: pyval

record build_row =
  bd_id :: int
  bd_public_id :: string
  bd_application :: int
  bd_owner :: int
  bd_version :: string
  bd_number :: int
  bd_source_repo :: string
  bd_source_revision :: string
  bd_sdk_repo :: "string option"
  bd_sdk_revision :: "string option"
  bd_config :: pyval
  bd_digest :: string
  bd_requested :: "build_target list"
  bd_credentials :: "string list"
  bd_status :: run_status
  bd_progress :: int
  bd_failure_code :: "string option"
  bd_failure_message :: "string option"
  bd_created :: int
  bd_started :: "int option"
  bd_finished :: "int option"

record job_row =
  jb_id :: int
  jb_build :: int
  jb_target :: build_target
  jb_queue :: string
  jb_queue_job :: "string option"
  jb_token_hash :: "string option"
  jb_token_valid :: bool
  jb_status :: run_status
  jb_worker :: "string option"
  jb_started :: "int option"
  jb_finished :: "int option"
  jb_failure_code :: "string option"
  jb_failure_message :: "string option"
  jb_log_ref :: "string option"

record artifact_row =
  af_id :: int
  af_build :: int
  af_target :: build_target
  af_filename :: string
  af_rel_path :: string
  af_sha256 :: string
  af_size :: int
  af_provenance :: pyval
  af_created :: int

datatype worker_status = Pending | Active | Retired

text \<open>A time column whose stored text may fail to parse.\<close>

datatype stamp = NoStamp | StampAt int | Malformed string

record worker_row =
  wk_id :: int
  wk_worker_id :: string
  wk_name :: string
  wk_labels :: "string list"
  wk_status :: worker_status
  wk_api_hash :: "string option"
  wk_reg_hash :: "string option"
  wk_reg_expires :: "int option"
  wk_last_seen :: stamp
  wk_created :: int

record cred_row =
  cd_id :: int
  cd_public_id :: string
  cd_scope :: string
  cd_owner :: string
  cd_kind :: string
  cd_label :: string
  cd_material :: string
  cd_digest :: string
  cd_created :: int
  cd_rotated :: "int option"
  cd_revoked :: bool
  cd_revoked_at :: "int option"

record build_db =
  apps :: "app_row list"
  builds :: "build_row list"
  jobs :: "job_row list"
  artifacts :: "artifact_row list"
  workers :: "worker_row list"
  creds :: "cred_row list"

record build_env =
  sha256 :: "string \<Rightarrow> bytes"
  json_size :: "pyval \<Rightarrow> int"
  encrypt_json :: "bytes \<Rightarrow> pyval \<Rightarrow> string \<Rightarrow> string"
  decrypt_json :: "string \<Rightarrow> string \<Rightarrow> build_error + pyval"

type_synonym 'a repo_result = "(build_error + 'a) \<times> build_db"

section \<open>Token comparison\<close>

definition token_hash :: "build_env \<Rightarrow> string \<Rightarrow> string" where
  "token_hash env token = hexdigest (sha256 env token)"

definition safe_compare :: "build_env \<Rightarrow> string \<Rightarrow> string option \<Rightarrow> bool" where
  "safe_compare env presented stored_hex =
     (case stored_hex of
        None \<Rightarrow> False
      | Some h \<Rightarrow> if h = [] then False else (case fromhex h of None \<Rightarrow> False | Some expected \<Rightarrow> sha256 env presented = expected))"

section \<open>Row access\<close>

definition app_by_id :: "build_db \<Rightarrow> int \<Rightarrow> app_row option" where
  "app_by_id db i = one_or_none (\<lambda>a. ap_id a = i) (apps db)"

definition build_by_public_id :: "build_db \<Rightarrow> string \<Rightarrow> build_error + build_row" where
  "build_by_public_id db pid =
     (case one_or_none (\<lambda>b. bd_public_id b = pid) (builds db) of
        None \<Rightarrow> Inl (BuildNotFound ''build does not exist'') | Some b \<Rightarrow> Inr b)"

definition jobs_of :: "build_db \<Rightarrow> int \<Rightarrow> job_row list" where
  "jobs_of db i = filter (\<lambda>j. jb_build j = i) (jobs db)"

definition artifacts_of :: "build_db \<Rightarrow> int \<Rightarrow> artifact_row list" where
  "artifacts_of db i = filter (\<lambda>a. af_build a = i) (artifacts db)"

definition job_by_ref :: "build_db \<Rightarrow> string \<Rightarrow> build_target \<Rightarrow> build_error + build_row \<times> job_row" where
  "job_by_ref db pid t =
     rbind (build_by_public_id db pid) (\<lambda>b.
       case one_or_none (\<lambda>j. jb_build j = bd_id b \<and> jb_target j = t) (jobs db) of
         None \<Rightarrow> Inl (BuildNotFound ''build has no such job'') | Some j \<Rightarrow> Inr (b, j))"

definition put_job :: "job_row \<Rightarrow> build_db \<Rightarrow> build_db" where
  "put_job j db = db\<lparr>jobs := map (\<lambda>x. if jb_id x = jb_id j then j else x) (jobs db)\<rparr>"

definition put_build :: "build_row \<Rightarrow> build_db \<Rightarrow> build_db" where
  "put_build b db = db\<lparr>builds := map (\<lambda>x. if bd_id x = bd_id b then b else x) (builds db)\<rparr>"

text \<open>The view \<open>_build_dict\<close>: the build with its jobs, its artifacts and its application.\<close>

record build_view =
  vw_build :: build_row
  vw_jobs :: "job_row list"
  vw_artifacts :: "artifact_row list"
  vw_application :: "app_row option"

definition build_dict :: "build_db \<Rightarrow> build_row \<Rightarrow> build_view" where
  "build_dict db b =
     \<lparr>vw_build = b, vw_jobs = jobs_of db (bd_id b), vw_artifacts = artifacts_of db (bd_id b),
      vw_application = app_by_id db (bd_application b)\<rparr>"

section \<open>Applications and builds\<close>

definition get_application :: "build_db \<Rightarrow> string \<Rightarrow> build_error + app_row" where
  "get_application db pid =
     (case one_or_none (\<lambda>a. ap_public_id a = pid) (apps db) of
        None \<Rightarrow> Inl (BuildNotFound ''application does not exist'') | Some a \<Rightarrow> Inr a)"

definition build_peak :: "build_db \<Rightarrow> int \<Rightarrow> int" where
  "build_peak db app = fold max (map bd_number (filter (\<lambda>b. bd_application b = app) (builds db))) 0"

definition new_job :: "int \<Rightarrow> int \<Rightarrow> build_target \<Rightarrow> job_row" where
  "new_job i build t =
     \<lparr>jb_id = i, jb_build = build, jb_target = t,
      jb_queue = (case dict_get QUEUE_FOR_PLATFORM (t_platform t) of None \<Rightarrow> [] | Some q \<Rightarrow> q), jb_queue_job = None,
      jb_token_hash = None, jb_token_valid = False, jb_status = Queued, jb_worker = None, jb_started = None,
      jb_finished = None, jb_failure_code = None, jb_failure_message = None, jb_log_ref = None\<rparr>"

fun insert_jobs :: "int \<Rightarrow> build_target list \<Rightarrow> job_row list \<Rightarrow> job_row list" where
  "insert_jobs build [] rows = rows"
| "insert_jobs build (t # ts) rows = insert_jobs build ts (rows @ [new_job (fresh_id (map jb_id rows)) build t])"

record build_request =
  rq_owner :: int
  rq_application :: int
  rq_version :: string
  rq_source_repo :: string
  rq_source_revision :: string
  rq_sdk_repo :: string
  rq_sdk_revision :: string
  rq_config :: pyval
  rq_digest :: string
  rq_targets :: "build_target list"
  rq_credentials :: "string list"

definition new_build :: "int \<Rightarrow> int \<Rightarrow> string \<Rightarrow> int \<Rightarrow> build_request \<Rightarrow> build_row" where
  "new_build i number uuid now rq =
     \<lparr>bd_id = i, bd_public_id = uuid, bd_application = rq_application rq, bd_owner = rq_owner rq,
      bd_version = rq_version rq, bd_number = number, bd_source_repo = rq_source_repo rq,
      bd_source_revision = rq_source_revision rq, bd_sdk_repo = Some (rq_sdk_repo rq),
      bd_sdk_revision = Some (rq_sdk_revision rq), bd_config = rq_config rq, bd_digest = rq_digest rq,
      bd_requested = rq_targets rq, bd_credentials = rq_credentials rq, bd_status = Queued, bd_progress = 0,
      bd_failure_code = None, bd_failure_message = None, bd_created = now, bd_started = None, bd_finished = None\<rparr>"

text \<open>
  The insert, with the number read before: the unique constraints on the public id, on application and number,
  and on the targets of a build turn a violation into \<open>BuildConflict\<close>. A platform without a queue raises
  \<open>KeyError\<close> before the commit.
\<close>

definition insert_build :: "int \<Rightarrow> string \<Rightarrow> int \<Rightarrow> build_request \<Rightarrow> build_db \<Rightarrow> build_view repo_result" where
  "insert_build peak uuid now rq db =
     (let b = new_build (fresh_id (map bd_id (builds db))) (peak + 1) uuid now rq;
          db' = db\<lparr>builds := builds db @ [b], jobs := insert_jobs (bd_id b) (rq_targets rq) (jobs db)\<rparr>
      in if list_ex (\<lambda>t. dict_get QUEUE_FOR_PLATFORM (t_platform t) = None) (rq_targets rq) then (Inl (Raised KeyError), db)
         else if list_ex (\<lambda>x. bd_public_id x = uuid \<or> (bd_application x = rq_application rq \<and> bd_number x = peak + 1)) (builds db) \<or>
              \<not> distinct (rq_targets rq)
         then (Inl (BuildConflict ''build number collided''), db)
         else (Inr (build_dict db' b), db'))"

definition create_build :: "string \<Rightarrow> int \<Rightarrow> build_request \<Rightarrow> build_db \<Rightarrow> build_view repo_result" where
  "create_build uuid now rq db = insert_build (build_peak db (rq_application rq)) uuid now rq db"

definition get_build :: "build_db \<Rightarrow> string \<Rightarrow> build_error + build_view" where
  "get_build db pid = rbind (build_by_public_id db pid) (\<lambda>b. Inr (build_dict db b))"

definition list_builds ::
  "int \<Rightarrow> int \<Rightarrow> run_status option \<Rightarrow> string option \<Rightarrow> int option \<Rightarrow> build_db \<Rightarrow> build_view list \<times> nat" where
  "list_builds limit0 offset0 status application owner db =
     (let limit = min (max limit0 1) 200; offset = max offset0 0;
          app_id = (case application of None \<Rightarrow> Some None
                    | Some pid \<Rightarrow> map_option (\<lambda>a. Some (ap_id a)) (one_or_none (\<lambda>a. ap_public_id a = pid) (apps db)))
      in case app_id of
           None \<Rightarrow> ([], 0)
         | Some app \<Rightarrow>
             (let rows = filter (\<lambda>b. (status = None \<or> status = Some (bd_status b)) \<and>
                      (app = None \<or> app = Some (bd_application b)) \<and> (owner = None \<or> owner = Some (bd_owner b))) (builds db);
                  page = take (nat limit) (drop (nat offset) (rev rows))
              in (map (\<lambda>b. (build_dict db b)\<lparr>vw_artifacts := []\<rparr>) page, length rows)))"

definition attach_queue_job :: "string \<Rightarrow> build_target \<Rightarrow> string \<Rightarrow> build_db \<Rightarrow> unit repo_result" where
  "attach_queue_job pid t queue_job_id db =
     (case job_by_ref db pid t of
        Inl e \<Rightarrow> (Inl e, db)
      | Inr (b, j) \<Rightarrow> (Inr (), put_job (j\<lparr>jb_queue_job := Some queue_job_id\<rparr>) db))"

section \<open>Job tokens\<close>

definition issue_job_token :: "build_env \<Rightarrow> string \<Rightarrow> build_target \<Rightarrow> string \<Rightarrow> build_db \<Rightarrow> string repo_result" where
  "issue_job_token env pid t token db =
     (case job_by_ref db pid t of
        Inl e \<Rightarrow> (Inl e, db)
      | Inr (b, j) \<Rightarrow>
          if jb_status j \<in> TERMINAL then (Inl (BuildConflict ''job is already terminal''), db)
          else (Inr token, put_job (j\<lparr>jb_token_hash := Some (token_hash env token), jb_token_valid := True\<rparr>) db))"

definition token_ok :: "build_env \<Rightarrow> string \<Rightarrow> job_row \<Rightarrow> bool" where
  "token_ok env token j \<longleftrightarrow> jb_token_valid j \<and> safe_compare env token (jb_token_hash j)"

definition verify_job_token ::
  "build_env \<Rightarrow> string \<Rightarrow> build_target \<Rightarrow> string \<Rightarrow> build_db \<Rightarrow> build_error + build_view \<times> job_row" where
  "verify_job_token env pid t token db =
     rbind (job_by_ref db pid t) (\<lambda>(b, j).
       if \<not> token_ok env token j then Inl (WorkerAuthFailed ''invalid or expired job token'')
       else Inr (build_dict db b, j))"

text \<open>The launcher pack of a build; \<open>branding\<close> and its icon document are JSON objects or absent.\<close>

definition job_icon_ref :: "build_db \<Rightarrow> string \<Rightarrow> (string \<times> (string, pyval) dict) option" where
  "job_icon_ref db pid =
     (case one_or_none (\<lambda>b. bd_public_id b = pid) (builds db) of
        None \<Rightarrow> None
      | Some b \<Rightarrow>
          (case app_by_id db (bd_application b) of
             None \<Rightarrow> None
           | Some app \<Rightarrow>
               (let branding = (case ap_branding app of VDict d \<Rightarrow> d | _ \<Rightarrow> []);
                    meta = (case vget branding ''icon'' of VDict d \<Rightarrow> d | _ \<Rightarrow> [])
                in if \<not> truthy (vget meta ''android_pack_sha256'') then None
                   else Some (ap_public_id app,
                     [(''sha256'', vget meta ''android_pack_sha256''), (''size_bytes'', vget meta ''android_pack_bytes''),
                      (''width'', vget meta ''width''), (''height'', vget meta ''height'')]))))"

section \<open>The job state machine\<close>

definition recompute_progress :: "build_db \<Rightarrow> build_row \<Rightarrow> build_row" where
  "recompute_progress db b =
     (let js = jobs_of db (bd_id b); n = int (length js);
          terminal = int (length (filter (\<lambda>j. jb_status j \<in> TERMINAL) js))
      in b\<lparr>bd_progress := if js = [] then 0 else min 100 ((terminal * 100) div n)\<rparr>)"

definition or_str :: "string option \<Rightarrow> string \<Rightarrow> string" where
  "or_str a d = (case a of None \<Rightarrow> d | Some s \<Rightarrow> if s = [] then d else s)"

definition aggregate_build :: "int \<Rightarrow> build_db \<Rightarrow> build_row \<Rightarrow> build_row" where
  "aggregate_build now db b0 =
     (let js = jobs_of db (bd_id b0); b = recompute_progress db b0;
          failed = filter (\<lambda>j. jb_status j = Failed) js; cancelled = filter (\<lambda>j. jb_status j = Cancelled) js
      in if js = [] \<or> list_ex (\<lambda>j. jb_status j \<notin> TERMINAL) js then
           (if bd_status b = Queued
            then b\<lparr>bd_status := Running, bd_started := (case bd_started b of None \<Rightarrow> Some now | Some s \<Rightarrow> Some s)\<rparr> else b)
         else if failed \<noteq> [] then
           b\<lparr>bd_finished := Some now, bd_status := Failed,
             bd_failure_code := Some (or_str (jb_failure_code (hd failed)) ''worker_error''),
             bd_failure_message := Some (or_str (jb_failure_message (hd failed))
               (nat_to_str (length failed) @ '' of '' @ nat_to_str (length js) @ '' platform jobs failed''))\<rparr>
         else if cancelled \<noteq> [] \<and> length cancelled = length js then
           b\<lparr>bd_finished := Some now, bd_status := Cancelled, bd_failure_code := Some ''cancelled''\<rparr>
         else if cancelled \<noteq> [] then
           b\<lparr>bd_finished := Some now, bd_status := Failed, bd_failure_code := Some ''cancelled'',
             bd_failure_message := Some ''some platform jobs were cancelled''\<rparr>
         else b\<lparr>bd_finished := Some now, bd_status := Succeeded, bd_failure_code := None, bd_failure_message := None\<rparr>)"

definition claim_job ::
  "build_env \<Rightarrow> int \<Rightarrow> string \<Rightarrow> build_target \<Rightarrow> string \<Rightarrow> string \<Rightarrow> build_db \<Rightarrow> job_row repo_result" where
  "claim_job env now pid t token worker_id db =
     (case job_by_ref db pid t of
        Inl e \<Rightarrow> (Inl e, db)
      | Inr (b, j) \<Rightarrow>
          if \<not> token_ok env token j then (Inl (WorkerAuthFailed ''invalid or expired job token''), db)
          else if jb_status j \<in> TERMINAL then (Inl (WorkerAuthFailed ''job is already terminal''), db)
          else if jb_status j = Running \<and> jb_worker j \<noteq> Some worker_id
            then (Inl (BuildConflict ''job already claimed by another worker''), db)
          else
            (let j' = j\<lparr>jb_status := Running, jb_worker := Some worker_id,
                        jb_started := (case jb_started j of None \<Rightarrow> Some now | Some s \<Rightarrow> Some s)\<rparr>;
                 db1 = put_job j' db;
                 b' = (if bd_status b = Queued then b\<lparr>bd_status := Running, bd_started := Some now\<rparr> else b)
             in (Inr j', put_build (recompute_progress db1 b') db1)))"

definition ALLOWED_CODES :: "string list" where
  "ALLOWED_CODES =
     [''clone_failed'', ''checkout_failed'', ''config_invalid'', ''toolchain_missing'', ''build_failed'', ''artifact_invalid'',
      ''artifact_upload_failed'', ''no_artifacts'', ''worker_error'', ''cancelled'', ''timeout'', ''panel_error'',
      ''credential_revoked'', ''resources_insufficient'', ''provision_failed'', ''provision_unsupported'']"

definition report_message :: "string option \<Rightarrow> string option" where
  "report_message failure_message =
     (case failure_message of
        None \<Rightarrow> None
      | Some m \<Rightarrow>
          if m = [] then None
          else (let r = redact_text m 2000 in Some (if int (length r) > 500 then take 497 r @ [ELLIPSIS] else r)))"

definition report_code :: "string option \<Rightarrow> string option" where
  "report_code failure_code =
     (let code = take 64 (py_strip (case failure_code of None \<Rightarrow> [] | Some c \<Rightarrow> c))
      in if code = [] then None else if code \<in> set ALLOWED_CODES then Some code else Some ''worker_error'')"

definition produced :: "build_db \<Rightarrow> build_row \<Rightarrow> build_target \<Rightarrow> nat" where
  "produced db b t = length (filter (\<lambda>a. af_build a = bd_id b \<and> af_target a = t) (artifacts db))"

definition finish_job :: "int \<Rightarrow> bool \<Rightarrow> string option \<Rightarrow> string option \<Rightarrow> string option \<Rightarrow> job_row \<Rightarrow> job_row" where
  "finish_job now success code message log_ref j =
     j\<lparr>jb_status := (if success then Succeeded else Failed),
       jb_failure_code := (if success then None else Some (or_str code ''worker_error'')),
       jb_failure_message := (if success then None else message),
       jb_finished := Some now, jb_token_valid := False, jb_token_hash := None,
       jb_log_ref := (case log_ref of None \<Rightarrow> jb_log_ref j | Some l \<Rightarrow> Some l)\<rparr>"

definition report_job ::
  "build_env \<Rightarrow> int \<Rightarrow> string \<Rightarrow> build_target \<Rightarrow> string \<Rightarrow> bool \<Rightarrow> string option \<Rightarrow> string option \<Rightarrow> string option
     \<Rightarrow> build_db \<Rightarrow> build_view repo_result" where
  "report_job env now pid t token success failure_code failure_message log_ref db =
     (case job_by_ref db pid t of
        Inl e \<Rightarrow> (Inl e, db)
      | Inr (b, j) \<Rightarrow>
          if \<not> token_ok env token j then (Inl (WorkerAuthFailed ''invalid or expired job token''), db)
          else if jb_status j \<in> TERMINAL then (Inl (BuildConflict ''job is already terminal''), db)
          else
            (let empty = success \<and> produced db b t = 0;
                 j' = finish_job now (success \<and> \<not> empty) (if empty then Some ''no_artifacts'' else report_code failure_code)
                   (if empty then Some ''worker reported success without uploading any artifact'' else report_message failure_message)
                   log_ref j;
                 db1 = put_job j' db; b' = aggregate_build now db1 b; db2 = put_build b' db1
             in (Inr (build_dict db2 b'), db2)))"

definition close_job :: "int \<Rightarrow> run_status \<Rightarrow> string \<Rightarrow> string option \<Rightarrow> job_row \<Rightarrow> job_row" where
  "close_job now st code message j =
     j\<lparr>jb_status := st, jb_failure_code := Some code,
       jb_failure_message := (case message of None \<Rightarrow> jb_failure_message j | Some m \<Rightarrow> Some m),
       jb_finished := Some now, jb_token_valid := False, jb_token_hash := None\<rparr>"

definition close_open_jobs :: "int \<Rightarrow> (job_row \<Rightarrow> job_row) \<Rightarrow> build_db \<Rightarrow> build_db" where
  "close_open_jobs build f db =
     db\<lparr>jobs := map (\<lambda>j. if jb_build j = build \<and> jb_status j \<notin> TERMINAL then f j else j) (jobs db)\<rparr>"

definition cancel_build :: "int \<Rightarrow> string \<Rightarrow> build_db \<Rightarrow> (build_view \<times> (string \<times> string) list) repo_result" where
  "cancel_build now pid db =
     (case build_by_public_id db pid of
        Inl e \<Rightarrow> (Inl e, db)
      | Inr b \<Rightarrow>
          if bd_status b \<in> TERMINAL then (Inl (BuildConflict ''build is already terminal''), db)
          else
            (let open_jobs = filter (\<lambda>j. jb_status j \<notin> TERMINAL) (jobs_of db (bd_id b));
                 live = List.map_filter (\<lambda>j. case jb_queue_job j of None \<Rightarrow> None
                          | Some q \<Rightarrow> if q = [] then None else Some (jb_queue j, q)) open_jobs;
                 db1 = close_open_jobs (bd_id b) (close_job now Cancelled ''cancelled'' None) db;
                 b' = recompute_progress db1 (b\<lparr>bd_status := Cancelled, bd_finished := Some now\<rparr>);
                 db2 = put_build b' db1
             in (Inr (build_dict db2 b', live), db2)))"

definition fail_build :: "int \<Rightarrow> string \<Rightarrow> string \<Rightarrow> string \<Rightarrow> build_db \<Rightarrow> build_view repo_result" where
  "fail_build now pid code message db =
     (case build_by_public_id db pid of
        Inl e \<Rightarrow> (Inl e, db)
      | Inr b \<Rightarrow>
          if bd_status b \<in> TERMINAL then (Inl (BuildConflict ''build is already terminal''), db)
          else
            (let c = take 64 (if code = [] then ''panel_error'' else code); m = take 500 (redact_text message 2000);
                 db1 = close_open_jobs (bd_id b) (close_job now Failed c (Some m)) db;
                 b' = (aggregate_build now db1 b)\<lparr>bd_failure_code := Some c, bd_failure_message := Some m\<rparr>;
                 db2 = put_build b' db1
             in (Inr (build_dict db2 b'), db2)))"

definition record_artifact ::
  "int \<Rightarrow> int \<Rightarrow> string \<Rightarrow> string \<Rightarrow> string \<Rightarrow> int \<Rightarrow> pyval \<Rightarrow> build_db \<Rightarrow> artifact_row repo_result" where
  "record_artifact now job_id filename rel_path sha size_bytes provenance db =
     (case one_or_none (\<lambda>j. jb_id j = job_id) (jobs db) of
        None \<Rightarrow> (Inl (BuildNotFound ''platform job does not exist''), db)
      | Some j \<Rightarrow>
          if jb_status j \<noteq> Running then (Inl (BuildConflict ''artifacts are only accepted while running''), db)
          else
            (let row = \<lparr>af_id = fresh_id (map af_id (artifacts db)), af_build = jb_build j, af_target = jb_target j,
                        af_filename = filename, af_rel_path = rel_path, af_sha256 = sha, af_size = size_bytes,
                        af_provenance = provenance, af_created = now\<rparr>
             in if list_ex (\<lambda>a. af_build a = jb_build j \<and> t_platform (af_target a) = t_platform (jb_target j) \<and>
                      t_arch (af_target a) = t_arch (jb_target j) \<and> af_filename a = filename) (artifacts db)
                then (Inl (BuildConflict ''artifact already recorded''), db)
                else (Inr row, db\<lparr>artifacts := artifacts db @ [row]\<rparr>)))"

section \<open>Workers\<close>

definition WORKER_LABELS :: "string list" where
  "WORKER_LABELS = [''linux'', ''windows'', ''macos'']"

text \<open>\<open>WORKER_ID_RE\<close>, on text without surrounding white space.\<close>

definition lower_alnum :: "char \<Rightarrow> bool" where
  "lower_alnum c \<longleftrightarrow> alnum c \<and> lower_char c = c"

definition WORKER_ID_match :: "string \<Rightarrow> bool" where
  "WORKER_ID_match s \<longleftrightarrow>
     (case s of
        [] \<Rightarrow> False
      | c # cs \<Rightarrow> lower_alnum c \<and> 1 \<le> length cs \<and> length cs \<le> 127 \<and>
          list_all (\<lambda>x. lower_alnum x \<or> x = CHR ''-'' \<or> x = CHR ''_'') cs)"

text \<open>
  The lookup of a worker. A malformed time stamp makes the first read of the row raise; the handler clears the
  column, commits and reads again.
\<close>

definition worker_by_id :: "string \<Rightarrow> build_db \<Rightarrow> worker_row repo_result" where
  "worker_by_id worker_id db =
     (let key = py_lower (py_strip worker_id)
      in case one_or_none (\<lambda>w. wk_worker_id w = key) (workers db) of
           None \<Rightarrow> (Inl (WorkerNotFound ''worker does not exist''), db)
         | Some w \<Rightarrow>
             (case wk_last_seen w of
                Malformed _ \<Rightarrow>
                  (Inr (w\<lparr>wk_last_seen := NoStamp\<rparr>),
                   db\<lparr>workers := map (\<lambda>x. if wk_worker_id x = key then x\<lparr>wk_last_seen := NoStamp\<rparr> else x) (workers db)\<rparr>)
              | _ \<Rightarrow> (Inr w, db)))"

definition put_worker :: "worker_row \<Rightarrow> build_db \<Rightarrow> build_db" where
  "put_worker w db = db\<lparr>workers := map (\<lambda>x. if wk_worker_id x = wk_worker_id w then w else x) (workers db)\<rparr>"

definition create_worker :: "int \<Rightarrow> string \<Rightarrow> string \<Rightarrow> string list \<Rightarrow> build_db \<Rightarrow> worker_row repo_result" where
  "create_worker now worker_id display_name platform_labels db =
     (let cleaned_id = py_lower (py_strip worker_id);
          labels = sort (remdups (map (\<lambda>l. py_lower (py_strip l)) platform_labels));
          name = py_strip display_name
      in if \<not> WORKER_ID_match cleaned_id then (Inl (BuildValidationFailed ''worker_id''), db)
         else if labels = [] \<or> \<not> set labels \<subseteq> set WORKER_LABELS then (Inl (BuildValidationFailed ''platform_labels''), db)
         else if name = [] \<or> int (length name) > 128 then (Inl (BuildValidationFailed ''display_name is required''), db)
         else if list_ex (\<lambda>w. wk_worker_id w = cleaned_id) (workers db) then (Inl (WorkerConflict ''worker already exists''), db)
         else
           (let row = \<lparr>wk_id = fresh_id (map wk_id (workers db)), wk_worker_id = cleaned_id, wk_name = name, wk_labels = labels,
                       wk_status = Pending, wk_api_hash = None, wk_reg_hash = None, wk_reg_expires = None,
                       wk_last_seen = NoStamp, wk_created = now\<rparr>
            in (Inr row, db\<lparr>workers := workers db @ [row]\<rparr>)))"

definition list_workers :: "build_db \<Rightarrow> build_error + worker_row list" where
  "list_workers db =
     (if list_ex (\<lambda>w. case wk_last_seen w of Malformed _ \<Rightarrow> True | _ \<Rightarrow> False) (workers db) then Inl (Raised ValueError)
      else Inr (workers db))"

definition issue_register_token ::
  "build_env \<Rightarrow> string \<Rightarrow> int \<Rightarrow> int \<Rightarrow> string \<Rightarrow> build_db \<Rightarrow> (string \<times> int) repo_result" where
  "issue_register_token env worker_id ttl_seconds moment token db =
     (if \<not> (60 \<le> ttl_seconds \<and> ttl_seconds \<le> 86400) then (Inl (BuildValidationFailed ''ttl_seconds''), db)
      else case worker_by_id worker_id db of
        (Inl e, db') \<Rightarrow> (Inl e, db')
      | (Inr w, db') \<Rightarrow>
          if wk_status w = Retired then (Inl (WorkerConflict ''retired workers cannot re-enroll''), db')
          else (Inr (token, moment + ttl_seconds),
                put_worker (w\<lparr>wk_reg_hash := Some (token_hash env token), wk_reg_expires := Some (moment + ttl_seconds)\<rparr>) db'))"

definition exchange_register_token ::
  "build_env \<Rightarrow> string \<Rightarrow> string \<Rightarrow> int \<Rightarrow> string \<Rightarrow> build_db \<Rightarrow> string repo_result" where
  "exchange_register_token env worker_id register_token moment api_token db =
     (case worker_by_id worker_id db of
        (Inl e, db') \<Rightarrow> (Inl e, db')
      | (Inr w, db') \<Rightarrow>
          if wk_status w = Retired then (Inl (WorkerAuthFailed ''worker is retired''), db')
          else if \<not> safe_compare env register_token (wk_reg_hash w) \<or>
              (case wk_reg_expires w of None \<Rightarrow> True | Some expiry \<Rightarrow> expiry \<le> moment)
            then (Inl (WorkerAuthFailed ''invalid or expired registration token''), db')
          else (Inr api_token,
                put_worker (w\<lparr>wk_reg_hash := None, wk_reg_expires := None, wk_api_hash := Some (token_hash env api_token),
                  wk_status := Active\<rparr>) db'))"

definition verify_worker_token :: "build_env \<Rightarrow> string \<Rightarrow> string \<Rightarrow> build_db \<Rightarrow> worker_row repo_result" where
  "verify_worker_token env worker_id token db =
     (case worker_by_id worker_id db of
        (Inl e, db') \<Rightarrow> (Inl e, db')
      | (Inr w, db') \<Rightarrow>
          if wk_status w \<noteq> Active \<or> \<not> safe_compare env token (wk_api_hash w)
          then (Inl (WorkerAuthFailed ''invalid worker credentials or inactive worker''), db') else (Inr w, db'))"

definition heartbeat :: "string \<Rightarrow> int \<Rightarrow> build_db \<Rightarrow> worker_row repo_result" where
  "heartbeat worker_id now db =
     (case worker_by_id worker_id db of
        (Inl e, db') \<Rightarrow> (Inl e, db')
      | (Inr w, db') \<Rightarrow> (Inr (w\<lparr>wk_last_seen := StampAt now\<rparr>), put_worker (w\<lparr>wk_last_seen := StampAt now\<rparr>) db'))"

section \<open>Credentials\<close>

definition CREDENTIAL_SCOPES :: "string list" where
  "CREDENTIAL_SCOPES = [''worker'', ''application'', ''global'']"

definition CREDENTIAL_KINDS :: "string list" where
  "CREDENTIAL_KINDS = [''ssh_password'', ''ssh_key'', ''signing_key'', ''api_token'']"

definition cred_aad :: "string \<Rightarrow> string" where
  "cred_aad public_id = ''build-credential:'' @ public_id"

definition cred_by_id :: "build_db \<Rightarrow> string \<Rightarrow> build_error + cred_row" where
  "cred_by_id db pid =
     (case one_or_none (\<lambda>c. cd_public_id c = pid) (creds db) of
        None \<Rightarrow> Inl (CredentialNotFound ''build credential does not exist'') | Some c \<Rightarrow> Inr c)"

definition put_cred :: "cred_row \<Rightarrow> build_db \<Rightarrow> build_db" where
  "put_cred c db = db\<lparr>creds := map (\<lambda>x. if cd_public_id x = cd_public_id c then c else x) (creds db)\<rparr>"

definition material_error :: "build_env \<Rightarrow> pyval \<Rightarrow> build_error option" where
  "material_error env material =
     (case material of
        VDict d \<Rightarrow>
          if d = [] then Some (BuildValidationFailed ''material must be a non-empty JSON object'')
          else if json_size env material > 8192 then Some (BuildValidationFailed ''material exceeds 8 KiB'') else None
      | _ \<Rightarrow> Some (BuildValidationFailed ''material must be a non-empty JSON object''))"

definition store_credential ::
  "build_env \<Rightarrow> string \<Rightarrow> bytes \<Rightarrow> int \<Rightarrow> string \<Rightarrow> string \<Rightarrow> string \<Rightarrow> string \<Rightarrow> pyval \<Rightarrow> build_db \<Rightarrow> cred_row repo_result" where
  "store_credential env public_id nonce now scope0 owner_ref kind0 label material db =
     (let scope = py_lower (py_strip scope0); kind = py_lower (py_strip kind0); owner = py_strip owner_ref; name = py_strip label
      in if scope \<notin> set CREDENTIAL_SCOPES then (Inl (BuildValidationFailed ''scope''), db)
         else if kind \<notin> set CREDENTIAL_KINDS then (Inl (BuildValidationFailed ''kind''), db)
         else if owner = [] \<or> int (length owner) > 128 then (Inl (BuildValidationFailed ''owner_ref is required''), db)
         else if name = [] \<or> int (length name) > 128 then (Inl (BuildValidationFailed ''label is required''), db)
         else case material_error env material of
           Some e \<Rightarrow> (Inl e, db)
         | None \<Rightarrow>
             (let envelope = encrypt_json env nonce material (cred_aad public_id);
                  row = \<lparr>cd_id = fresh_id (map cd_id (creds db)), cd_public_id = public_id, cd_scope = scope, cd_owner = owner,
                         cd_kind = kind, cd_label = name, cd_material = envelope, cd_digest = token_hash env envelope,
                         cd_created = now, cd_rotated = None, cd_revoked = False, cd_revoked_at = None\<rparr>
              in (Inr row, db\<lparr>creds := creds db @ [row]\<rparr>)))"

definition list_credentials :: "string option \<Rightarrow> string option \<Rightarrow> bool \<Rightarrow> build_db \<Rightarrow> cred_row list" where
  "list_credentials scope owner_ref include_revoked db =
     take 200 (rev (filter (\<lambda>c. (scope = None \<or> scope = Some (cd_scope c)) \<and> (owner_ref = None \<or> owner_ref = Some (cd_owner c)) \<and>
       (include_revoked \<or> \<not> cd_revoked c)) (creds db)))"

definition load_material :: "build_env \<Rightarrow> string \<Rightarrow> build_db \<Rightarrow> build_error + pyval" where
  "load_material env pid db =
     rbind (cred_by_id db pid) (\<lambda>c.
       if cd_revoked c then Inl (CredentialRevoked ''credential is revoked'')
       else decrypt_json env (cd_material c) (cred_aad (cd_public_id c)))"

definition rotate_credential :: "build_env \<Rightarrow> bytes \<Rightarrow> int \<Rightarrow> string \<Rightarrow> pyval \<Rightarrow> build_db \<Rightarrow> cred_row repo_result" where
  "rotate_credential env nonce now pid material db =
     (case material_error env material of
        Some e \<Rightarrow> (Inl e, db)
      | None \<Rightarrow>
          (case cred_by_id db pid of
             Inl e \<Rightarrow> (Inl e, db)
           | Inr c \<Rightarrow>
               if cd_revoked c then (Inl (CredentialRevoked ''credential is revoked''), db)
               else
                 (let envelope = encrypt_json env nonce material (cred_aad (cd_public_id c));
                      c' = c\<lparr>cd_material := envelope, cd_digest := token_hash env envelope, cd_rotated := Some now\<rparr>
                  in (Inr c', put_cred c' db))))"

definition revoke_credential :: "int \<Rightarrow> string \<Rightarrow> build_db \<Rightarrow> cred_row repo_result" where
  "revoke_credential now pid db =
     (case cred_by_id db pid of
        Inl e \<Rightarrow> (Inl e, db)
      | Inr c \<Rightarrow>
          if cd_revoked c then (Inr c, db)
          else (let c' = c\<lparr>cd_revoked := True, cd_revoked_at := Some now\<rparr> in (Inr c', put_cred c' db)))"

end
