(* ===== verification/BuildRepoInv.thy ===== *)
theory BuildRepoInv
  imports BuildRepo
begin

text \<open>
  The state machine of the build tables: the steps of the repository, the invariant they keep and what a job and a
  build may become. The step for a new build takes an arbitrary number read earlier, so interleaved requests that
  computed the same number are covered.
\<close>

section \<open>Steps\<close>

inductive repo_step :: "build_env \<Rightarrow> build_db \<Rightarrow> build_db \<Rightarrow> bool" for env where
  create: "rq_targets rq \<noteq> [] \<Longrightarrow> repo_step env db (snd (insert_build peak uuid now rq db))"
| attach: "repo_step env db (snd (attach_queue_job pid t q db))"
| token: "repo_step env db (snd (issue_job_token env pid t token db))"
| claim: "repo_step env db (snd (claim_job env now pid t token worker_id db))"
| report: "repo_step env db (snd (report_job env now pid t token success code message log_ref db))"
| cancel: "repo_step env db (snd (cancel_build now pid db))"
| fail_all: "repo_step env db (snd (fail_build now pid code message db))"
| artifact: "repo_step env db (snd (record_artifact now job_id filename rel sha sz prov db))"
| worker: "repo_step env db (snd (create_worker now wid name labels db))"
| register: "repo_step env db (snd (issue_register_token env wid ttl now token db))"
| exchange: "repo_step env db (snd (exchange_register_token env wid token now api db))"
| verify: "repo_step env db (snd (verify_worker_token env wid token db))"
| beat: "repo_step env db (snd (heartbeat wid now db))"
| store: "pid \<notin> cd_public_id ` set (creds db) \<Longrightarrow>
    repo_step env db (snd (store_credential env pid nonce now scope owner kind label material db))"
| rotate: "repo_step env db (snd (rotate_credential env nonce now pid material db))"
| revoke: "repo_step env db (snd (revoke_credential now pid db))"

section \<open>The invariant\<close>

abbreviation open_job :: "job_row \<Rightarrow> bool" where
  "open_job j \<equiv> jb_status j \<notin> TERMINAL"

definition job_ok :: "job_row \<Rightarrow> bool" where
  "job_ok j \<longleftrightarrow>
     (jb_status j \<in> TERMINAL \<longrightarrow> \<not> jb_token_valid j \<and> jb_token_hash j = None \<and> jb_finished j \<noteq> None) \<and>
     (jb_status j = Running \<longrightarrow> jb_worker j \<noteq> None \<and> jb_started j \<noteq> None) \<and>
     (jb_status j = Queued \<longrightarrow> jb_worker j = None \<and> jb_finished j = None)"

definition progress_of :: "job_row list \<Rightarrow> int" where
  "progress_of js =
     (if js = [] then 0 else min 100 ((int (length (filter (\<lambda>j. jb_status j \<in> TERMINAL) js)) * 100) div int (length js)))"

definition build_ok :: "job_row list \<Rightarrow> build_row \<Rightarrow> bool" where
  "build_ok js b \<longleftrightarrow>
     js \<noteq> [] \<and> bd_progress b = progress_of js \<and>
     (bd_status b \<in> TERMINAL \<longleftrightarrow> \<not> list_ex open_job js) \<and>
     (bd_status b = Queued \<longrightarrow> list_all (\<lambda>j. jb_status j = Queued) js) \<and>
     (bd_status b = Succeeded \<longleftrightarrow> list_all (\<lambda>j. jb_status j = Succeeded) js) \<and>
     (bd_status b \<in> TERMINAL \<longrightarrow> bd_finished b \<noteq> None)"

definition has_artifact :: "artifact_row list \<Rightarrow> job_row \<Rightarrow> bool" where
  "has_artifact rows j \<longleftrightarrow> list_ex (\<lambda>a. af_build a = jb_build j \<and> af_target a = jb_target j) rows"

definition build_key :: "build_row \<Rightarrow> int \<times> int" where
  "build_key b = (bd_application b, bd_number b)"

definition job_key :: "job_row \<Rightarrow> int \<times> build_target" where
  "job_key j = (jb_build j, jb_target j)"

definition db_ok :: "build_db \<Rightarrow> bool" where
  "db_ok db \<longleftrightarrow>
     distinct (map bd_id (builds db)) \<and> distinct (map bd_public_id (builds db)) \<and> distinct (map build_key (builds db)) \<and>
     distinct (map jb_id (jobs db)) \<and> distinct (map job_key (jobs db)) \<and>
     list_all job_ok (jobs db) \<and> list_all (\<lambda>j. jb_build j \<in> bd_id ` set (builds db)) (jobs db) \<and>
     list_all (\<lambda>b. build_ok (jobs_of db (bd_id b)) b) (builds db) \<and>
     list_all (\<lambda>j. jb_status j = Succeeded \<longrightarrow> has_artifact (artifacts db) j) (jobs db)"

section \<open>Table lemmas\<close>

lemma build_by_public_id_set: "build_by_public_id db pid = Inr b \<Longrightarrow> b \<in> set (builds db) \<and> bd_public_id b = pid"
  by (auto simp: build_by_public_id_def split: option.splits dest: one_or_none_Some)

lemma job_by_ref_set:
  "job_by_ref db pid t = Inr (b, j) \<Longrightarrow> b \<in> set (builds db) \<and> j \<in> set (jobs db) \<and> jb_build j = bd_id b \<and> jb_target j = t \<and> bd_public_id b = pid"
  by (auto simp: job_by_ref_def rbind_Inr_iff split: option.splits dest: one_or_none_Some build_by_public_id_set)

lemma recompute_progress_eq: "recompute_progress db b = b\<lparr>bd_progress := progress_of (jobs_of db (bd_id b))\<rparr>"
  by (simp add: recompute_progress_def progress_of_def Let_def)

lemma db_okD:
  assumes "db_ok db"
  shows "distinct (map jb_id (jobs db))" "distinct (map job_key (jobs db))" "distinct (map bd_id (builds db))"
    "j \<in> set (jobs db) \<Longrightarrow> job_ok j" "b \<in> set (builds db) \<Longrightarrow> build_ok (jobs_of db (bd_id b)) b"
    "j \<in> set (jobs db) \<Longrightarrow> jb_status j = Succeeded \<Longrightarrow> has_artifact (artifacts db) j"
    "j \<in> set (jobs db) \<Longrightarrow> jb_build j \<in> bd_id ` set (builds db)"
  using assms by (auto simp: db_ok_def list_all_iff)

lemma distinct_map_eq: "distinct (map f xs) \<Longrightarrow> x \<in> set xs \<Longrightarrow> y \<in> set xs \<Longrightarrow> f x = f y \<Longrightarrow> x = y"
  by (auto simp: distinct_map dest: inj_onD)

text \<open>
  The update every operation on existing builds makes: the jobs of one build are rewritten without changing their
  keys, and the row of that build is replaced.
\<close>

definition job_frame :: "build_row \<Rightarrow> (job_row \<Rightarrow> job_row) \<Rightarrow> job_row \<Rightarrow> bool" where
  "job_frame b f j \<longleftrightarrow> jb_id (f j) = jb_id j \<and> job_key (f j) = job_key j \<and> (jb_build j \<noteq> bd_id b \<longrightarrow> f j = j)"

lemma jobs_of_map:
  assumes "jobs db' = map f (jobs db)" "\<And>j. j \<in> set (jobs db) \<Longrightarrow> job_frame b f j"
  shows "jobs_of db' i = map f (jobs_of db i)"
  unfolding jobs_of_def assms(1) using assms(2)
  by (induction "jobs db") (auto simp: filter_map comp_def job_frame_def job_key_def intro!: filter_cong [THEN arg_cong [of _ _ "map f"]])

lemma db_ok_update:
  assumes ok: "db_ok db" and b: "b \<in> set (builds db)"
    and jobs: "jobs db' = map f (jobs db)" and frame: "\<And>j. j \<in> set (jobs db) \<Longrightarrow> job_frame b f j"
    and jok: "\<And>j. j \<in> set (jobs db) \<Longrightarrow> jb_build j = bd_id b \<Longrightarrow> job_ok (f j)"
    and art: "\<And>j. j \<in> set (jobs db) \<Longrightarrow> jb_build j = bd_id b \<Longrightarrow> jb_status (f j) = Succeeded \<Longrightarrow> has_artifact (artifacts db) j"
    and bs: "builds db' = map (\<lambda>x. if bd_id x = bd_id b then b' else x) (builds db)"
    and b': "bd_id b' = bd_id b" "bd_public_id b' = bd_public_id b" "build_key b' = build_key b"
    and bok: "build_ok (map f (jobs_of db (bd_id b))) b'"
    and arts: "artifacts db' = artifacts db"
  shows "db_ok db'"
proof -
  have sub: "(if bd_id x = bd_id b then b' else x) = (if x = b then b' else x)" if "x \<in> set (builds db)" for x
    using distinct_map_eq [OF db_okD(3) [OF ok] that b] by auto
  have m: "map (g \<circ> (\<lambda>x. if bd_id x = bd_id b then b' else x)) (builds db) = map g (builds db)" if "g b' = g b" for g :: "build_row \<Rightarrow> 'z"
    using sub that by (auto intro!: map_cong)
  have jid: "map (jb_id \<circ> f) (jobs db) = map jb_id (jobs db)" "map (job_key \<circ> f) (jobs db) = map job_key (jobs db)"
    using frame by (auto simp: job_frame_def)
  have key: "jb_build (f j) = jb_build j" "jb_target (f j) = jb_target j" if "j \<in> set (jobs db)" for j
    using frame [OF that] by (auto simp: job_frame_def job_key_def)
  have jok': "job_ok (f j)" "jb_status (f j) = Succeeded \<Longrightarrow> has_artifact (artifacts db) (f j)" if "j \<in> set (jobs db)" for j
    using jok [OF that] art [OF that] frame [OF that] db_okD(4,6) [OF ok that] key [OF that]
    by (auto simp: job_frame_def has_artifact_def)
  have "build_ok (jobs_of db' (bd_id x)) x" if x: "x \<in> set (builds db')" for x
  proof (cases "x = b'")
    case True
    then show ?thesis using bok by (simp add: b' jobs_of_map [OF jobs frame])
  next
    case False
    with x bs have y: "x \<in> set (builds db)" "bd_id x \<noteq> bd_id b" by (auto split: if_splits)
    have "map f (jobs_of db (bd_id x)) = jobs_of db (bd_id x)"
      using frame y(2) by (auto simp: jobs_of_def job_frame_def intro!: map_idI)
    then show ?thesis using db_okD(5) [OF ok y(1)] by (simp add: jobs_of_map [OF jobs frame])
  qed
  then have bs_ok: "list_all (\<lambda>b. build_ok (jobs_of db' (bd_id b)) b) (builds db')" by (simp add: list_all_iff)
  have maps: "map bd_id (builds db') = map bd_id (builds db)" "map bd_public_id (builds db') = map bd_public_id (builds db)"
      "map build_key (builds db') = map build_key (builds db)" "map jb_id (jobs db') = map jb_id (jobs db)"
      "map job_key (jobs db') = map job_key (jobs db)"
    using m [of bd_id, OF b'(1)] m [of bd_public_id, OF b'(2)] m [of build_key, OF b'(3)] jid by (simp_all add: bs jobs)
  have ids: "bd_id ` set (builds db') = bd_id ` set (builds db)" using maps(1) by (metis list.set_map)
  have rest: "list_all job_ok (jobs db')" "list_all (\<lambda>j. jb_build j \<in> bd_id ` set (builds db)) (jobs db')"
      "list_all (\<lambda>j. jb_status j = Succeeded \<longrightarrow> has_artifact (artifacts db) j) (jobs db')"
    using jok' key db_okD(7) [OF ok] by (auto simp: jobs list_all_iff)
  show ?thesis
    using ok bs_ok rest unfolding db_ok_def maps ids arts by (simp only: simp_thms)
qed

section \<open>Build rows\<close>

lemma TERMINAL_iff [simp]:
  "Succeeded \<in> TERMINAL" "Failed \<in> TERMINAL" "Cancelled \<in> TERMINAL" "Queued \<notin> TERMINAL" "Running \<notin> TERMINAL"
  by (auto simp: TERMINAL_def)

lemma not_terminal: "s \<notin> TERMINAL \<longleftrightarrow> s = Queued \<or> s = Running"
  by (cases s) (auto simp: TERMINAL_def)

lemma build_ok_statuses:
  assumes "map jb_status js = map jb_status js'"
  shows "build_ok js b = build_ok js' b"
proof -
  have "length (filter (\<lambda>j. jb_status j \<in> TERMINAL) xs) = length (filter (\<lambda>s. s \<in> TERMINAL) (map jb_status xs))"
    and "list_ex open_job xs = list_ex (\<lambda>s. s \<notin> TERMINAL) (map jb_status xs)"
    and "list_all (\<lambda>j. jb_status j = s) xs = list_all (\<lambda>x. x = s) (map jb_status xs)" for xs s
    by (simp_all add: filter_map comp_def list_ex_iff list_all_iff)
  moreover have "length js = length js'" using assms by (metis length_map)
  moreover have "js = [] \<longleftrightarrow> js' = []" using assms by (cases js; cases js') auto
  ultimately show ?thesis unfolding build_ok_def progress_of_def by (simp only: assms)
qed

lemma build_ok_open:
  "\<lbrakk>js \<noteq> []; bd_progress b = progress_of js; list_ex open_job js; bd_status b \<notin> TERMINAL;
    bd_status b = Queued \<Longrightarrow> list_all (\<lambda>j. jb_status j = Queued) js\<rbrakk> \<Longrightarrow> build_ok js b"
  unfolding build_ok_def by (auto simp: list_all_iff list_ex_iff)

lemma aggregate_keys [simp]:
  "bd_id (aggregate_build now db b) = bd_id b" "bd_public_id (aggregate_build now db b) = bd_public_id b"
  "build_key (aggregate_build now db b) = build_key b"
  by (simp_all add: aggregate_build_def recompute_progress_eq build_key_def Let_def)

lemma aggregate_ok:
  assumes "jobs_of db (bd_id b) \<noteq> []" "bd_status b \<notin> TERMINAL"
  shows "build_ok (jobs_of db (bd_id b)) (aggregate_build now db b)"
proof (cases "list_ex open_job (jobs_of db (bd_id b))")
  case True
  with assms show ?thesis
    by (intro build_ok_open) (auto simp: aggregate_build_def recompute_progress_eq Let_def not_terminal)
next
  case False
  let ?js = "jobs_of db (bd_id b)"
  have all: "jb_status j = Succeeded \<or> jb_status j = Failed \<or> jb_status j = Cancelled" if "j \<in> set ?js" for j
    using False that by (cases "jb_status j") (auto simp: list_ex_iff)
  have succ: "list_all (\<lambda>j. jb_status j = Succeeded) ?js \<longleftrightarrow>
      filter (\<lambda>j. jb_status j = Failed) ?js = [] \<and> filter (\<lambda>j. jb_status j = Cancelled) ?js = []"
    using all by (fastforce simp: list_all_iff filter_empty_conv)
  show ?thesis
    using False assms(1) unfolding build_ok_def succ
    by (simp add: aggregate_build_def recompute_progress_eq Let_def)
qed

section \<open>Preservation\<close>

lemma put_build_self: "distinct (map bd_id (builds db)) \<Longrightarrow> b \<in> set (builds db) \<Longrightarrow> put_build b db = db"
proof -
  assume d: "distinct (map bd_id (builds db))" "b \<in> set (builds db)"
  have "(if bd_id x = bd_id b then b else x) = x" if "x \<in> set (builds db)" for x
    using distinct_map_eq [OF d(1) that d(2)] by auto
  then have "map (\<lambda>x. if bd_id x = bd_id b then b else x) (builds db) = builds db"
    by (rule map_idI)
  then show ?thesis by (simp add: put_build_def)
qed

lemma put_job_frame:
  assumes "db_ok db" "j \<in> set (jobs db)" "jb_build j = bd_id b" "jb_id j' = jb_id j" "job_key j' = job_key j" "x \<in> set (jobs db)"
  shows "job_frame b (\<lambda>x. if jb_id x = jb_id j' then j' else x) x" "(if jb_id x = jb_id j' then j' else x) = (if x = j then j' else x)"
  using assms distinct_map_eq [OF db_okD(1) [OF assms(1)] assms(6,2)] by (auto simp: job_frame_def)

lemma put_job_jobs_of:
  fixes b :: build_row
  assumes "db_ok db" "j \<in> set (jobs db)" "jb_build j = bd_id b" "jb_id j' = jb_id j" "job_key j' = job_key j"
  shows "jobs_of (put_job j' db) i = map (\<lambda>x. if x = j then j' else x) (jobs_of db i)"
proof -
  have "jobs_of (put_job j' db) i = map (\<lambda>x. if jb_id x = jb_id j' then j' else x) (jobs_of db i)"
    using put_job_frame(1) [OF assms] by (intro jobs_of_map [of _ _ _ b]) (auto simp: put_job_def)
  also have "\<dots> = map (\<lambda>x. if x = j then j' else x) (jobs_of db i)"
    using put_job_frame(2) [OF assms] by (intro map_cong) (auto simp: jobs_of_def)
  finally show ?thesis .
qed

lemma db_ok_single:
  assumes ok: "db_ok db" and b: "b \<in> set (builds db)" and j: "j \<in> set (jobs db)" "jb_build j = bd_id b"
    and j': "jb_id j' = jb_id j" "job_key j' = job_key j" "job_ok j'" "jb_status j' = Succeeded \<Longrightarrow> has_artifact (artifacts db) j"
    and b': "bd_id b' = bd_id b" "bd_public_id b' = bd_public_id b" "build_key b' = build_key b"
    and bok: "build_ok (jobs_of (put_job j' db) (bd_id b)) b'"
  shows "db_ok (put_build b' (put_job j' db))"
proof (rule db_ok_update [OF ok b, where f = "\<lambda>x. if jb_id x = jb_id j' then j' else x" and b' = b'])
  note fr = put_job_frame [OF ok j j'(1,2)]
  show "job_frame b (\<lambda>x. if jb_id x = jb_id j' then j' else x) x" if "x \<in> set (jobs db)" for x by (rule fr(1) [OF that])
  show "job_ok (if jb_id x = jb_id j' then j' else x)" if "x \<in> set (jobs db)" for x
    using j'(3) db_okD(4) [OF ok that] by simp
  show "has_artifact (artifacts db) x" if "x \<in> set (jobs db)" "jb_status (if jb_id x = jb_id j' then j' else x) = Succeeded" for x
    using that j'(4) db_okD(6) [OF ok that(1)] unfolding fr(2) [OF that(1)] by (auto split: if_splits)
  have "map (\<lambda>x. if jb_id x = jb_id j' then j' else x) (jobs_of db (bd_id b)) = jobs_of (put_job j' db) (bd_id b)"
    using fr(1) by (intro jobs_of_map [of _ _ _ b, symmetric]) (auto simp: put_job_def)
  with bok show "build_ok (map (\<lambda>x. if jb_id x = jb_id j' then j' else x) (jobs_of db (bd_id b))) b'" by simp
qed (simp_all add: put_build_def put_job_def b')

lemma db_ok_job_only:
  assumes ok: "db_ok db" and j: "j \<in> set (jobs db)"
    and j': "jb_id j' = jb_id j" "job_key j' = job_key j" "job_ok j'" "jb_status j' = jb_status j"
  shows "db_ok (put_job j' db)"
proof -
  obtain b where b: "b \<in> set (builds db)" "jb_build j = bd_id b" using db_okD(7) [OF ok j] by auto
  have "map jb_status (jobs_of (put_job j' db) (bd_id b)) = map jb_status (jobs_of db (bd_id b))"
    using j'(4) by (auto simp: put_job_jobs_of [OF ok j b(2) j'(1,2)])
  then have "build_ok (jobs_of (put_job j' db) (bd_id b)) b"
    using build_ok_statuses db_okD(5) [OF ok b(1)] by blast
  moreover have "jb_status j' = Succeeded \<Longrightarrow> has_artifact (artifacts db) j" using db_okD(6) [OF ok j] j'(4) by simp
  ultimately have "db_ok (put_build b (put_job j' db))" using ok b j j' by (intro db_ok_single) auto
  moreover have "put_build b (put_job j' db) = put_job j' db"
    using db_okD(3) [OF ok] b(1) by (intro put_build_self) (simp_all add: put_job_def)
  ultimately show ?thesis by simp
qed

section \<open>How rows evolve\<close>

text \<open>
  A terminal job keeps everything but its queue reference: \<open>attach_queue_job\<close> does not look at the status, and a
  worker may finish a job before the dispatcher attaches the reference.
\<close>

definition job_evolves :: "job_row \<Rightarrow> job_row \<Rightarrow> bool" where
  "job_evolves j j' \<longleftrightarrow> jb_id j' = jb_id j \<and> job_key j' = job_key j \<and> (jb_status j \<in> TERMINAL \<longrightarrow> j' = j\<lparr>jb_queue_job := jb_queue_job j'\<rparr>) \<and>
     (jb_status j = Running \<longrightarrow> jb_worker j' = jb_worker j \<and> jb_status j' \<noteq> Queued)"

definition build_evolves :: "build_row \<Rightarrow> build_row \<Rightarrow> bool" where
  "build_evolves b b' \<longleftrightarrow> bd_id b' = bd_id b \<and> bd_public_id b' = bd_public_id b \<and> build_key b' = build_key b \<and>
     (bd_status b \<in> TERMINAL \<longrightarrow> b' = b)"

definition db_evolves :: "build_db \<Rightarrow> build_db \<Rightarrow> bool" where
  "db_evolves db db' \<longleftrightarrow> (\<forall>j \<in> set (jobs db). \<exists>j' \<in> set (jobs db'). job_evolves j j') \<and>
     (\<forall>b \<in> set (builds db). \<exists>b' \<in> set (builds db'). build_evolves b b') \<and> set (artifacts db) \<subseteq> set (artifacts db')"

lemma job_evolves_refl [simp]: "job_evolves j j"
  by (simp add: job_evolves_def)

lemma build_evolves_refl [simp]: "build_evolves b b"
  by (simp add: build_evolves_def)

lemma job_evolves_trans: "job_evolves j j' \<Longrightarrow> job_evolves j' j'' \<Longrightarrow> job_evolves j j''"
proof -
  assume h: "job_evolves j j'" "job_evolves j' j''"
  have "j'' = j\<lparr>jb_queue_job := jb_queue_job j''\<rparr>" if t: "jb_status j \<in> TERMINAL"
  proof -
    have 1: "j' = j\<lparr>jb_queue_job := jb_queue_job j'\<rparr>" using h(1) t by (simp add: job_evolves_def)
    then have "jb_status j' = jb_status j" by (metis job_row.surjective job_row.update_convs(5) job_row.select_convs(8))
    then have "j'' = j'\<lparr>jb_queue_job := jb_queue_job j''\<rparr>" using h(2) t by (simp add: job_evolves_def)
    also have "\<dots> = j\<lparr>jb_queue_job := jb_queue_job j''\<rparr>" by (subst 1) simp
    finally show ?thesis .
  qed
  moreover have "jb_worker j'' = jb_worker j \<and> jb_status j'' \<noteq> Queued" if r: "jb_status j = Running"
  proof (cases "jb_status j' \<in> TERMINAL")
    case True
    with h(2) have "j'' = j'\<lparr>jb_queue_job := jb_queue_job j''\<rparr>" by (simp add: job_evolves_def)
    then have "jb_worker j'' = jb_worker j'" "jb_status j'' = jb_status j'" by (metis job_row.select_convs job_row.surjective job_row.update_convs(5))+
    with h(1) r show ?thesis by (simp add: job_evolves_def)
  next
    case False
    with h r show ?thesis by (simp add: job_evolves_def not_terminal)
  qed
  ultimately show ?thesis using h by (auto simp: job_evolves_def)
qed

lemma build_evolves_trans: "build_evolves b b' \<Longrightarrow> build_evolves b' b'' \<Longrightarrow> build_evolves b b''"
  unfolding build_evolves_def by auto

lemma db_evolves_refl [simp]: "db_evolves db db"
  unfolding db_evolves_def using job_evolves_refl build_evolves_refl by blast

lemma db_evolves_trans: "db_evolves db db' \<Longrightarrow> db_evolves db' db'' \<Longrightarrow> db_evolves db db''"
  unfolding db_evolves_def by (meson job_evolves_trans build_evolves_trans subset_trans)

lemma db_evolves_maps:
  assumes "jobs db' = map f (jobs db)" "\<And>j. j \<in> set (jobs db) \<Longrightarrow> job_evolves j (f j)"
    and "builds db' = map g (builds db)" "\<And>b. b \<in> set (builds db) \<Longrightarrow> build_evolves b (g b)" "artifacts db' = artifacts db"
  shows "db_evolves db db'"
  using assms unfolding db_evolves_def by auto

definition repo_ok :: "build_db \<Rightarrow> build_db \<Rightarrow> bool" where
  "repo_ok db db' \<longleftrightarrow> db_ok db' \<and> db_evolves db db'"

lemma repo_ok_same: "db_ok db \<Longrightarrow> repo_ok db db"
  by (simp add: repo_ok_def)

text \<open>Tables of workers and credentials are independent of the builds.\<close>

lemma repo_ok_frame:
  assumes "db_ok db" "builds db' = builds db" "jobs db' = jobs db" "artifacts db' = artifacts db"
  shows "repo_ok db db'"
proof -
  have "jobs_of db' i = jobs_of db i" for i by (simp add: jobs_of_def assms)
  then show ?thesis
    using assms db_evolves_maps [of db' "\<lambda>x. x" db "\<lambda>x. x"] unfolding repo_ok_def db_ok_def by simp
qed

lemma repo_ok_single:
  assumes ok: "db_ok db" and b: "b \<in> set (builds db)" and j: "j \<in> set (jobs db)" "jb_build j = bd_id b"
    and j': "job_evolves j j'" "job_ok j'" "jb_status j' = Succeeded \<Longrightarrow> has_artifact (artifacts db) j"
    and b': "build_evolves b b'" and bok: "build_ok (jobs_of (put_job j' db) (bd_id b)) b'"
  shows "repo_ok db (put_build b' (put_job j' db))"
proof -
  have k: "jb_id j' = jb_id j" "job_key j' = job_key j" "bd_id b' = bd_id b" "bd_public_id b' = bd_public_id b" "build_key b' = build_key b"
    using j'(1) b' by (auto simp: job_evolves_def build_evolves_def)
  have "job_evolves x (if jb_id x = jb_id j' then j' else x)" if "x \<in> set (jobs db)" for x
    using j'(1) unfolding put_job_frame(2) [OF ok j k(1,2) that] by simp
  moreover have "build_evolves x (if bd_id x = bd_id b' then b' else x)" if "x \<in> set (builds db)" for x
    using b' distinct_map_eq [OF db_okD(3) [OF ok] that b] by (auto simp: k)
  ultimately have "db_evolves db (put_build b' (put_job j' db))"
    by (intro db_evolves_maps [where f = "\<lambda>x. if jb_id x = jb_id j' then j' else x" and g = "\<lambda>x. if bd_id x = bd_id b' then b' else x"])
      (simp_all add: put_build_def put_job_def)
  then show ?thesis using db_ok_single [OF ok b j k(1,2) j'(2,3) k(3-5) bok] by (simp add: repo_ok_def)
qed

lemma repo_ok_job_only:
  assumes ok: "db_ok db" and j: "j \<in> set (jobs db)" and j': "job_evolves j j'" "job_ok j'" "jb_status j' = jb_status j"
  shows "repo_ok db (put_job j' db)"
proof -
  have k: "jb_id j' = jb_id j" "job_key j' = job_key j" using j'(1) by (auto simp: job_evolves_def)
  obtain b where b: "b \<in> set (builds db)" "jb_build j = bd_id b" using db_okD(7) [OF ok j] by auto
  have "job_evolves x (if jb_id x = jb_id j' then j' else x)" if "x \<in> set (jobs db)" for x
    using j'(1) unfolding put_job_frame(2) [OF ok j b(2) k that] by simp
  then have "db_evolves db (put_job j' db)"
    by (intro db_evolves_maps [where f = "\<lambda>x. if jb_id x = jb_id j' then j' else x" and g = "\<lambda>b. b"]) (simp_all add: put_job_def)
  then show ?thesis using db_ok_job_only [OF ok j k j'(2,3)] by (simp add: repo_ok_def)
qed

lemma attach_ok: "db_ok db \<Longrightarrow> repo_ok db (snd (attach_queue_job pid t q db))"
  by (auto simp: attach_queue_job_def repo_ok_same job_evolves_def job_key_def job_ok_def
      split: sum.splits dest!: job_by_ref_set intro!: repo_ok_job_only dest: db_okD(4))

lemma issue_token_ok: "db_ok db \<Longrightarrow> repo_ok db (snd (issue_job_token env pid t token db))"
  by (auto simp: issue_job_token_def repo_ok_same job_evolves_def job_key_def job_ok_def
      split: sum.splits dest!: job_by_ref_set intro!: repo_ok_job_only dest: db_okD(4))

lemma build_not_terminal:
  assumes "db_ok db" "b \<in> set (builds db)" "j \<in> set (jobs db)" "jb_build j = bd_id b" "open_job j"
  shows "bd_status b \<notin> TERMINAL"
proof -
  have "j \<in> set (jobs_of db (bd_id b))" using assms(3,4) by (simp add: jobs_of_def)
  then have "list_ex open_job (jobs_of db (bd_id b))" using assms(5) by (auto simp: list_ex_iff)
  then show ?thesis using db_okD(5) [OF assms(1,2)] by (auto simp: build_ok_def)
qed

lemma claim_ok:
  assumes ok: "db_ok db"
  shows "repo_ok db (snd (claim_job env now pid t token wid db))"
proof (cases "job_by_ref db pid t")
  case (Inr p)
  obtain b j where p: "p = (b, j)" by (cases p)
  note ref = job_by_ref_set [OF Inr [unfolded p]]
  then have mem: "b \<in> set (builds db)" "j \<in> set (jobs db)" "jb_build j = bd_id b" by auto
  let ?j = "j\<lparr>jb_status := Running, jb_worker := Some wid, jb_started := (case jb_started j of None \<Rightarrow> Some now | Some s \<Rightarrow> Some s)\<rparr>"
  let ?b = "if bd_status b = Queued then b\<lparr>bd_status := Running, bd_started := Some now\<rparr> else b"
  let ?db1 = "put_job ?j db"
  show ?thesis
  proof (cases "token_ok env token j \<and> open_job j \<and> \<not> (jb_status j = Running \<and> jb_worker j \<noteq> Some wid)")
    case True
    then have o: "open_job j" and w: "jb_status j = Running \<Longrightarrow> jb_worker j = Some wid" by auto
    have nt: "bd_status b \<notin> TERMINAL" by (rule build_not_terminal [OF ok mem o])
    have js: "jobs_of ?db1 (bd_id b) = map (\<lambda>x. if x = j then ?j else x) (jobs_of db (bd_id b))"
      by (rule put_job_jobs_of [OF ok mem(2,3)]) (simp_all add: job_key_def)
    have jin: "j \<in> set (jobs_of db (bd_id b))" using mem by (simp add: jobs_of_def)
    then have j': "?j \<in> set (jobs_of ?db1 (bd_id b))" unfolding js by force
    have "open_job ?j" by simp
    with j' have ex: "list_ex open_job (jobs_of ?db1 (bd_id b))" unfolding list_ex_iff by (rule bexI [rotated])
    have "bd_status ?b = Running" using nt by (auto simp: not_terminal)
    then have "build_ok (jobs_of ?db1 (bd_id b)) (recompute_progress ?db1 ?b)"
      using ex by (intro build_ok_open) (auto simp: recompute_progress_eq)
    moreover have "build_evolves b (recompute_progress ?db1 ?b)"
      using nt by (simp add: build_evolves_def recompute_progress_eq build_key_def)
    moreover have "job_evolves j ?j" using o w by (auto simp: job_evolves_def job_key_def)
    ultimately have "repo_ok db (put_build (recompute_progress ?db1 ?b) ?db1)"
      using ok mem by (intro repo_ok_single) (auto simp: job_ok_def split: option.splits)
    with True show ?thesis by (auto simp: claim_job_def Inr p Let_def)
  qed (use ok in \<open>auto simp: claim_job_def Inr p repo_ok_same\<close>)
qed (use ok in \<open>simp add: claim_job_def repo_ok_same\<close>)

lemma finish_job_evolves: "open_job j \<Longrightarrow> job_evolves j (finish_job now s c m l j)"
  by (auto simp: job_evolves_def finish_job_def job_key_def)

lemma report_ok:
  assumes ok: "db_ok db"
  shows "repo_ok db (snd (report_job env now pid t token success code message log_ref db))"
proof (cases "job_by_ref db pid t")
  case (Inr p)
  obtain b j where p: "p = (b, j)" by (cases p)
  note ref = job_by_ref_set [OF Inr [unfolded p]]
  then have mem: "b \<in> set (builds db)" "j \<in> set (jobs db)" "jb_build j = bd_id b" "jb_target j = t" by auto
  let ?empty = "success \<and> produced db b t = 0"
  let ?j = "finish_job now (success \<and> \<not> ?empty) (if ?empty then Some ''no_artifacts'' else report_code code)
      (if ?empty then Some ''worker reported success without uploading any artifact'' else report_message message) log_ref j"
  let ?db1 = "put_job ?j db"
  show ?thesis
  proof (cases "token_ok env token j \<and> open_job j")
    case True
    have nt: "bd_status b \<notin> TERMINAL" using build_not_terminal [OF ok mem(1-3)] True by blast
    have ev: "job_evolves j ?j" using True by (intro finish_job_evolves) simp
    have js: "jobs_of ?db1 (bd_id b) = map (\<lambda>x. if x = j then ?j else x) (jobs_of db (bd_id b))"
      by (rule put_job_jobs_of [OF ok mem(2,3)]) (use ev in \<open>simp_all add: job_evolves_def\<close>)
    have "j \<in> set (jobs_of db (bd_id b))" using mem by (simp add: jobs_of_def)
    then have "jobs_of ?db1 (bd_id b) \<noteq> []" unfolding js by auto
    then have bok: "build_ok (jobs_of ?db1 (bd_id b)) (aggregate_build now ?db1 b)" using nt by (intro aggregate_ok)
    have art: "has_artifact (artifacts db) j" if "jb_status ?j = Succeeded"
    proof -
      have "produced db b t \<noteq> 0" using that by (auto simp: finish_job_def split: if_splits)
      then show ?thesis using mem by (auto simp: produced_def has_artifact_def list_ex_iff filter_empty_conv)
    qed
    have "job_ok ?j" by (simp add: job_ok_def finish_job_def)
    moreover have "build_evolves b (aggregate_build now ?db1 b)" using nt by (simp add: build_evolves_def)
    ultimately have "repo_ok db (put_build (aggregate_build now ?db1 b) ?db1)"
      using repo_ok_single [OF ok mem(1-3) ev _ art _ bok] by blast
    with True show ?thesis by (simp add: report_job_def Inr p Let_def)
  qed (use ok in \<open>auto simp: report_job_def Inr p repo_ok_same\<close>)
qed (use ok in \<open>simp add: report_job_def repo_ok_same\<close>)

lemma close_open_jobs_frame:
  assumes "\<And>j. jb_id (g j) = jb_id j \<and> job_key (g j) = job_key j"
  shows "job_frame b (\<lambda>j. if jb_build j = bd_id b \<and> open_job j then g j else j) j"
  using assms by (simp add: job_frame_def)

text \<open>Closing all open jobs of a build with a terminal status other than success.\<close>

lemma close_all_ok:
  assumes ok: "db_ok db" and b: "b \<in> set (builds db)" "bd_status b \<notin> TERMINAL" and st: "st = Cancelled \<or> st = Failed"
    and b': "build_evolves b b'" "bd_status b' \<in> TERMINAL" "bd_status b' \<noteq> Succeeded" "bd_finished b' \<noteq> None"
      "bd_progress b' = progress_of (jobs_of (close_open_jobs (bd_id b) (close_job now st c m) db) (bd_id b))"
  shows "repo_ok db (put_build b' (close_open_jobs (bd_id b) (close_job now st c m) db))"
proof -
  let ?f = "\<lambda>j. if jb_build j = bd_id b \<and> open_job j then close_job now st c m j else j"
  let ?db1 = "close_open_jobs (bd_id b) (close_job now st c m) db"
  have k: "bd_id b' = bd_id b" "bd_public_id b' = bd_public_id b" "build_key b' = build_key b"
    using b'(1) by (auto simp: build_evolves_def)
  have frame: "job_frame b ?f j" for j by (rule close_open_jobs_frame) (simp add: close_job_def job_key_def)
  have js: "jobs_of ?db1 i = map ?f (jobs_of db i)" for i
    using frame by (intro jobs_of_map [of _ _ _ b]) (auto simp: close_open_jobs_def)
  have bok: "build_ok (jobs_of db (bd_id b)) b" by (rule db_okD(5) [OF ok b(1)])
  then obtain j0 where j0: "j0 \<in> set (jobs_of db (bd_id b))" "open_job j0"
    using b(2) by (auto simp: build_ok_def list_ex_iff)
  have shut: "\<not> open_job (?f j)" if "j \<in> set (jobs_of db (bd_id b))" for j
    using that st by (auto simp: jobs_of_def close_job_def)
  have "jb_status (?f j0) \<noteq> Succeeded" using j0 st by (auto simp: jobs_of_def close_job_def)
  then have nsucc: "\<not> list_all (\<lambda>j. jb_status j = Succeeded) (map ?f (jobs_of db (bd_id b)))"
    using j0(1) unfolding list_all_iff set_map by blast
  have nopen: "\<not> list_ex open_job (map ?f (jobs_of db (bd_id b)))" using shut unfolding list_ex_iff set_map by blast
  have ne: "jobs_of db (bd_id b) \<noteq> []" using j0(1) by auto
  have bok': "build_ok (map ?f (jobs_of db (bd_id b))) b'"
    unfolding build_ok_def using b'(2-5) nsucc nopen ne js [of "bd_id b"] by auto
  have jok': "job_ok (?f j)" if "j \<in> set (jobs db)" for j
    using db_okD(4) [OF ok that] st by (auto simp: job_ok_def close_job_def)
  have art': "has_artifact (artifacts db) j" if "j \<in> set (jobs db)" "jb_status (?f j) = Succeeded" for j
    using db_okD(6) [OF ok that(1)] that(2) st by (auto simp: close_job_def split: if_splits)
  have dbs: "jobs (put_build b' ?db1) = map ?f (jobs db)" "artifacts (put_build b' ?db1) = artifacts db"
      "builds (put_build b' ?db1) = map (\<lambda>x. if bd_id x = bd_id b then b' else x) (builds db)"
    by (simp_all add: put_build_def close_open_jobs_def k)
  have "db_ok (put_build b' ?db1)"
    by (rule db_ok_update [OF ok b(1) dbs(1) frame jok' art' dbs(3) k bok' dbs(2)])
  moreover have ev: "job_evolves j (?f j)" for j
    using st by (auto simp: job_evolves_def close_job_def job_key_def)
  have bev: "build_evolves x (if bd_id x = bd_id b then b' else x)" if "x \<in> set (builds db)" for x
    using b'(1) distinct_map_eq [OF db_okD(3) [OF ok] that b(1)] by auto
  have "db_evolves db (put_build b' ?db1)"
    by (rule db_evolves_maps [OF dbs(1) ev dbs(3) bev dbs(2)])
  ultimately show ?thesis by (simp add: repo_ok_def)
qed

lemma cancel_ok:
  assumes ok: "db_ok db"
  shows "repo_ok db (snd (cancel_build now pid db))"
proof (cases "build_by_public_id db pid")
  case (Inr b)
  note b = build_by_public_id_set [OF Inr]
  show ?thesis
  proof (cases "bd_status b \<in> TERMINAL")
    case False
    let ?db1 = "close_open_jobs (bd_id b) (close_job now Cancelled ''cancelled'' None) db"
    let ?b = "recompute_progress ?db1 (b\<lparr>bd_status := Cancelled, bd_finished := Some now\<rparr>)"
    have "repo_ok db (put_build ?b ?db1)"
      using b False by (intro close_all_ok [OF ok]) (auto simp: recompute_progress_eq build_evolves_def build_key_def)
    with False show ?thesis by (simp add: cancel_build_def Inr Let_def)
  qed (use ok in \<open>simp add: cancel_build_def Inr repo_ok_same\<close>)
qed (use ok in \<open>simp add: cancel_build_def repo_ok_same\<close>)

lemma aggregate_after_failure:
  assumes "db_ok db" "b \<in> set (builds db)" "bd_status b \<notin> TERMINAL"
  shows "bd_status (aggregate_build now (close_open_jobs (bd_id b) (close_job now Failed c m) db) b) = Failed"
    and "bd_finished (aggregate_build now (close_open_jobs (bd_id b) (close_job now Failed c m) db) b) = Some now"
    and "bd_progress (aggregate_build now (close_open_jobs (bd_id b) (close_job now Failed c m) db) b) =
      progress_of (jobs_of (close_open_jobs (bd_id b) (close_job now Failed c m) db) (bd_id b))"
proof -
  let ?f = "\<lambda>j. if jb_build j = bd_id b \<and> open_job j then close_job now Failed c m j else j"
  let ?db1 = "close_open_jobs (bd_id b) (close_job now Failed c m) db"
  have js: "jobs_of ?db1 (bd_id b) = map ?f (jobs_of db (bd_id b))"
    by (rule jobs_of_map [of _ _ _ b]) (simp_all add: close_open_jobs_def job_frame_def close_job_def job_key_def)
  obtain j0 where j0: "j0 \<in> set (jobs_of db (bd_id b))" "open_job j0"
    using db_okD(5) [OF assms(1,2)] assms(3) by (auto simp: build_ok_def list_ex_iff)
  have "?f j0 \<in> set (jobs_of ?db1 (bd_id b))" unfolding js using j0(1) by auto
  moreover have "jb_status (?f j0) = Failed" using j0 by (auto simp: jobs_of_def close_job_def)
  ultimately have failed: "filter (\<lambda>j. jb_status j = Failed) (jobs_of ?db1 (bd_id b)) \<noteq> []"
    by (auto simp: filter_empty_conv)
  have "\<not> open_job (?f j)" if "j \<in> set (jobs_of db (bd_id b))" for j
    using that by (auto simp: jobs_of_def close_job_def)
  then have "\<not> list_ex open_job (jobs_of ?db1 (bd_id b))" unfolding js list_ex_iff set_map by blast
  moreover have "jobs_of ?db1 (bd_id b) \<noteq> []" using failed by auto
  ultimately show "bd_status (aggregate_build now ?db1 b) = Failed" "bd_finished (aggregate_build now ?db1 b) = Some now"
    "bd_progress (aggregate_build now ?db1 b) = progress_of (jobs_of ?db1 (bd_id b))"
    using failed by (simp_all add: aggregate_build_def recompute_progress_eq Let_def)
qed

lemma fail_ok:
  assumes ok: "db_ok db"
  shows "repo_ok db (snd (fail_build now pid code message db))"
proof (cases "build_by_public_id db pid")
  case (Inr b)
  note b = build_by_public_id_set [OF Inr]
  show ?thesis
  proof (cases "bd_status b \<in> TERMINAL")
    case False
    let ?c = "take 64 (if code = [] then ''panel_error'' else code)"
    let ?m = "take 500 (redact_text message 2000)"
    let ?db1 = "close_open_jobs (bd_id b) (close_job now Failed ?c (Some ?m)) db"
    let ?b = "(aggregate_build now ?db1 b)\<lparr>bd_failure_code := Some ?c, bd_failure_message := Some ?m\<rparr>"
    have "build_evolves b ?b"
      using False aggregate_keys [of now ?db1 b] by (simp add: build_evolves_def build_key_def)
    then have "repo_ok db (put_build ?b ?db1)"
      using b False aggregate_after_failure [OF ok _ False, of now ?c "Some ?m"] by (intro close_all_ok [OF ok]) auto
    with False show ?thesis by (simp add: fail_build_def Inr Let_def)
  qed (use ok in \<open>simp add: fail_build_def Inr repo_ok_same\<close>)
qed (use ok in \<open>simp add: fail_build_def repo_ok_same\<close>)

definition fresh_job :: "int \<Rightarrow> job_row \<Rightarrow> bool" where
  "fresh_job i j \<longleftrightarrow> jb_build j = i \<and> jb_status j = Queued \<and> job_ok j \<and> \<not> jb_token_valid j"

lemma insert_jobs_spec:
  "distinct (map jb_id rows) \<Longrightarrow> \<exists>new. insert_jobs i ts rows = rows @ new \<and> map jb_target new = ts \<and> list_all (fresh_job i) new \<and>
     distinct (map jb_id (rows @ new))"
proof (induction ts arbitrary: rows)
  case Nil
  then show ?case by (intro exI [of _ "[]"]) simp
next
  case (Cons t ts)
  define j where "j = new_job (fresh_id (map jb_id rows)) i t"
  have fj: "fresh_job i j" "jb_id j = fresh_id (map jb_id rows)" "jb_target j = t"
    by (simp_all add: j_def new_job_def fresh_job_def job_ok_def)
  have "distinct (map jb_id (rows @ [j]))" using Cons.prems fresh_id_notin [of "map jb_id rows"] by (simp add: fj)
  from Cons.IH [OF this] obtain new where new: "insert_jobs i ts (rows @ [j]) = (rows @ [j]) @ new" "map jb_target new = ts"
      "list_all (fresh_job i) new" "distinct (map jb_id ((rows @ [j]) @ new))" by (elim exE conjE)
  have "insert_jobs i (t # ts) rows = rows @ j # new" using new(1) by (simp add: j_def)
  moreover have "map jb_target (j # new) = t # ts" "list_all (fresh_job i) (j # new)" using new(2,3) fj by simp_all
  moreover have "distinct (map jb_id (rows @ j # new))" using new(4) by simp
  ultimately show ?case by (intro exI [of _ "j # new"] conjI)
qed

lemma progress_of_queued: "list_all (\<lambda>j. jb_status j = Queued) js \<Longrightarrow> progress_of js = 0"
proof -
  assume "list_all (\<lambda>j. jb_status j = Queued) js"
  then have "filter (\<lambda>j. jb_status j \<in> TERMINAL) js = []" by (auto simp: filter_empty_conv list_all_iff)
  then show ?thesis by (simp add: progress_of_def)
qed

lemma create_ok:
  assumes ok: "db_ok db" and ne: "rq_targets rq \<noteq> []"
  shows "repo_ok db (snd (insert_build peak uuid now rq db))"
proof -
  let ?i = "fresh_id (map bd_id (builds db))"
  let ?b = "new_build ?i (peak + 1) uuid now rq"
  let ?db1 = "db\<lparr>builds := builds db @ [?b], jobs := insert_jobs ?i (rq_targets rq) (jobs db)\<rparr>"
  let ?clash = "list_ex (\<lambda>t. dict_get QUEUE_FOR_PLATFORM (t_platform t) = None) (rq_targets rq) \<or>
      list_ex (\<lambda>x. bd_public_id x = uuid \<or> (bd_application x = rq_application rq \<and> bd_number x = peak + 1)) (builds db) \<or>
      \<not> distinct (rq_targets rq)"
  show ?thesis
  proof (cases ?clash)
    case True
    then have "snd (insert_build peak uuid now rq db) = db" by (auto simp: insert_build_def Let_def)
    then show ?thesis using ok by (simp add: repo_ok_same)
  next
    case False
    obtain new where new: "insert_jobs ?i (rq_targets rq) (jobs db) = jobs db @ new" "map jb_target new = rq_targets rq"
        "list_all (fresh_job ?i) new" "distinct (map jb_id (jobs db @ new))"
      using insert_jobs_spec [OF db_okD(1) [OF ok]] by blast
    have fresh: "?i \<notin> bd_id ` set (builds db)" using fresh_id_notin [of "map bd_id (builds db)"] by simp
    have old: "jb_build j \<noteq> ?i" if "j \<in> set (jobs db)" for j using db_okD(7) [OF ok that] fresh by auto
    have newb: "jb_build j = ?i" "jb_status j = Queued" "job_ok j" if "j \<in> set new" for j
      using new(3) that by (auto simp: list_all_iff fresh_job_def)
    have "map snd (map job_key new) = rq_targets rq" using new(2) by (simp add: job_key_def comp_def)
    then have dn: "distinct (map job_key new)" using False distinct_map [of snd "map job_key new"] by simp
    have keys: "distinct (map job_key (jobs db @ new))"
      using db_okD(2) [OF ok] dn old newb(1) by (force simp: job_key_def)
    have js: "jobs_of ?db1 x = (if x = ?i then new else jobs_of db x)" for x
      using old newb(1) by (auto simp: jobs_of_def new(1) filter_id_conv filter_empty_conv)
    have "new \<noteq> []" using new(2) ne by auto
    then have nb: "build_ok new ?b"
      using newb(2) progress_of_queued [of new]
      by (intro build_ok_open) (auto simp: new_build_def list_all_iff list_ex_iff not_terminal neq_Nil_conv)
    have blds: "list_all (\<lambda>b. build_ok (jobs_of ?db1 (bd_id b)) b) (builds db @ [?b])"
    proof -
      have "bd_id ?b = ?i" by (simp add: new_build_def)
      moreover have "bd_id b \<noteq> ?i" if "b \<in> set (builds db)" for b using fresh that by (metis imageI)
      ultimately show ?thesis using db_okD(5) [OF ok] nb unfolding js by (simp add: list_all_iff)
    qed
    have bdist: "distinct (map bd_id (builds db @ [?b]))" "distinct (map bd_public_id (builds db @ [?b]))"
        "distinct (map build_key (builds db @ [?b]))"
      using ok fresh False by (auto simp: db_ok_def list_ex_iff new_build_def build_key_def)
    have rest: "list_all job_ok (jobs db @ new)" "list_all (\<lambda>j. jb_build j \<in> bd_id ` set (builds db @ [?b])) (jobs db @ new)"
        "list_all (\<lambda>j. jb_status j = Succeeded \<longrightarrow> has_artifact (artifacts db) j) (jobs db @ new)"
      using db_okD(4,6,7) [OF ok] newb by (auto simp: list_all_iff new_build_def)
    have sel: "builds ?db1 = builds db @ [?b]" "jobs ?db1 = jobs db @ new" "artifacts ?db1 = artifacts db" by (simp_all add: new(1))
    have "db_ok ?db1"
      unfolding db_ok_def sel using bdist new(4) keys rest blds by blast
    moreover have "db_evolves db ?db1"
      using job_evolves_refl build_evolves_refl unfolding db_evolves_def sel set_append by blast
    moreover have "snd (insert_build peak uuid now rq db) = ?db1"
      using False by (simp add: insert_build_def Let_def new_build_def)
    ultimately show ?thesis by (simp add: repo_ok_def)
  qed
qed

lemma record_ok:
  assumes ok: "db_ok db"
  shows "repo_ok db (snd (record_artifact now job_id filename rel sha sz prov db))"
proof -
  have "snd (record_artifact now job_id filename rel sha sz prov db) = db \<or>
      (\<exists>row. snd (record_artifact now job_id filename rel sha sz prov db) = db\<lparr>artifacts := artifacts db @ [row]\<rparr>)"
    by (auto simp: record_artifact_def Let_def split: option.splits)
  moreover have "db = db\<lparr>artifacts := artifacts db @ []\<rparr>" by simp
  ultimately obtain new where new: "snd (record_artifact now job_id filename rel sha sz prov db) = db\<lparr>artifacts := artifacts db @ new\<rparr>"
    by metis
  have "jobs_of (db\<lparr>artifacts := artifacts db @ new\<rparr>) i = jobs_of db i" for i by (simp add: jobs_of_def)
  moreover have "has_artifact rows j \<Longrightarrow> has_artifact (rows @ new) j" for rows j by (simp add: has_artifact_def)
  ultimately have "db_ok (db\<lparr>artifacts := artifacts db @ new\<rparr>)"
    using ok unfolding db_ok_def by (auto simp: list_all_iff)
  moreover have "db_evolves db (db\<lparr>artifacts := artifacts db @ new\<rparr>)"
    using db_evolves_refl [of db] unfolding db_evolves_def by auto
  ultimately show ?thesis by (simp add: new repo_ok_def)
qed

section \<open>All steps\<close>

lemma worker_by_id_frame:
  "builds (snd (worker_by_id wid db)) = builds db" "jobs (snd (worker_by_id wid db)) = jobs db"
  "artifacts (snd (worker_by_id wid db)) = artifacts db" "creds (snd (worker_by_id wid db)) = creds db"
  by (auto simp: worker_by_id_def Let_def split: option.splits stamp.splits)

lemma worker_by_id_frame':
  assumes "worker_by_id wid db = (r, db')"
  shows "builds db' = builds db" "jobs db' = jobs db" "artifacts db' = artifacts db" "creds db' = creds db"
  using worker_by_id_frame [of wid db] by (simp_all add: assms)

definition same_builds :: "build_db \<Rightarrow> build_db \<Rightarrow> bool" where
  "same_builds db db' \<longleftrightarrow> builds db' = builds db \<and> jobs db' = jobs db \<and> artifacts db' = artifacts db"

lemma worker_ops_frame:
  "same_builds db (snd (create_worker now wid name labels db))" "same_builds db (snd (issue_register_token env wid ttl now token db))"
  "same_builds db (snd (exchange_register_token env wid token now api db))" "same_builds db (snd (verify_worker_token env wid token db))"
  "same_builds db (snd (heartbeat wid now db))"
  by (auto simp: same_builds_def create_worker_def issue_register_token_def exchange_register_token_def verify_worker_token_def
      heartbeat_def put_worker_def Let_def split: prod.splits sum.splits dest: worker_by_id_frame')

lemma worker_ops_creds:
  "creds (snd (create_worker now wid name labels db)) = creds db" "creds (snd (issue_register_token env wid ttl now token db)) = creds db"
  "creds (snd (exchange_register_token env wid token now api db)) = creds db" "creds (snd (verify_worker_token env wid token db)) = creds db"
  "creds (snd (heartbeat wid now db)) = creds db"
  by (auto simp: create_worker_def issue_register_token_def exchange_register_token_def verify_worker_token_def
      heartbeat_def put_worker_def Let_def split: prod.splits sum.splits dest: worker_by_id_frame')

lemma cred_ops_frame:
  "same_builds db (snd (store_credential env pid nonce now scope owner kind label material db))"
  "same_builds db (snd (rotate_credential env nonce now pid material db))" "same_builds db (snd (revoke_credential now pid db))"
  by (auto simp: same_builds_def store_credential_def rotate_credential_def revoke_credential_def put_cred_def Let_def
      split: option.splits sum.splits)

lemma repo_ok_same_builds: "same_builds db db' \<Longrightarrow> db_ok db \<Longrightarrow> repo_ok db db'"
  by (auto simp: same_builds_def intro: repo_ok_frame)

lemma repo_step_ok: "repo_step env db db' \<Longrightarrow> db_ok db \<Longrightarrow> repo_ok db db'"
proof (induction rule: repo_step.induct)
  case create
  then show ?case by (intro create_ok)
next
  case attach
  then show ?case by (intro attach_ok)
next
  case token
  then show ?case by (intro issue_token_ok)
next
  case claim
  then show ?case by (intro claim_ok)
next
  case report
  then show ?case by (intro report_ok)
next
  case cancel
  then show ?case by (intro cancel_ok)
next
  case fail_all
  then show ?case by (intro fail_ok)
next
  case artifact
  then show ?case by (intro record_ok)
qed (rule repo_ok_same_builds, rule worker_ops_frame cred_ops_frame, assumption)+

lemma repo_steps_ok: "(repo_step env)\<^sup>*\<^sup>* db db' \<Longrightarrow> db_ok db \<Longrightarrow> repo_ok db db'"
proof (induction rule: rtranclp_induct)
  case base
  then show ?case by (simp add: repo_ok_same)
next
  case (step y z)
  then show ?case using repo_step_ok [of env y z] by (auto simp: repo_ok_def intro: db_evolves_trans)
qed

definition empty_db :: "app_row list \<Rightarrow> build_db" where
  "empty_db a = \<lparr>apps = a, builds = [], jobs = [], artifacts = [], workers = [], creds = []\<rparr>"

lemma db_ok_empty: "db_ok (empty_db a)"
  by (simp add: db_ok_def empty_db_def)

lemma reachable_ok: "(repo_step env)\<^sup>*\<^sup>* (empty_db a) db \<Longrightarrow> db_ok db"
  using repo_steps_ok [OF _ db_ok_empty] by (auto simp: repo_ok_def)

end
