(* ===== verification/BuildRepoProps.thy ===== *)
theory BuildRepoProps
  imports BuildRepoInv
begin

text \<open>
  The properties of the build repository: consistency of the tables in every reachable state, finality of finished
  builds, exclusiveness of a claim, and revocation of credentials.
\<close>

section \<open>Tokens\<close>

lemma safe_compare_hash: "safe_compare env token (Some (token_hash env token')) \<longleftrightarrow> sha256 env token' \<noteq> [] \<and> sha256 env token = sha256 env token'"
  by (auto simp: safe_compare_def token_hash_def fromhex_hexdigest hexdigest_Nil)

section \<open>Consequences of the invariant\<close>

lemma progress_bounds: "0 \<le> progress_of js \<and> progress_of js \<le> 100"
  by (auto simp: progress_of_def min_def intro!: pos_imp_zdiv_nonneg_iff [THEN iffD2])

lemma length_filter_all: "length (filter P xs) = length xs \<longleftrightarrow> (\<forall>x \<in> set xs. P x)"
  by (induction xs) (auto, metis Suc_n_not_le_n length_filter_le)

lemma progress_full: "js \<noteq> [] \<Longrightarrow> progress_of js = 100 \<longleftrightarrow> \<not> list_ex open_job js"
proof -
  assume ne: "js \<noteq> []"
  let ?t = "length (filter (\<lambda>j. jb_status j \<in> TERMINAL) js)" and ?n = "length js"
  have n: "0 < ?n" using ne by simp
  have eq: "?t = ?n \<longleftrightarrow> \<not> list_ex open_job js" by (auto simp: length_filter_all list_ex_iff)
  have d: "(int ?t * 100) div int ?n = int ((?t * 100) div ?n)" by (simp add: zdiv_int)
  have "?t * 100 div ?n < 100" if "?t \<noteq> ?n"
  proof -
    have "?t < ?n" using length_filter_le [of "\<lambda>j. jb_status j \<in> TERMINAL" js] that by (rule le_neq_implies_less)
    then show ?thesis using n by (simp add: div_less_iff_less_mult)
  qed
  moreover have "?n * 100 div ?n = 100" using n by simp
  ultimately have "progress_of js = 100 \<longleftrightarrow> ?t = ?n"
    using ne unfolding progress_of_def d by (cases "?t = ?n") (auto simp: min_def)
  then show ?thesis by (simp only: eq)
qed

lemma reachable_later:
  assumes "(repo_step env)\<^sup>*\<^sup>* (empty_db a) db" "(repo_step env)\<^sup>*\<^sup>* db db'"
  shows "db_ok db" "db_ok db'" "db_evolves db db'"
  using reachable_ok [OF assms(1)] repo_steps_ok [OF assms(2)] by (auto simp: repo_ok_def)

text \<open>The row of a reference and its later version.\<close>

lemma job_by_ref_row:
  assumes ok: "db_ok db" and b: "b \<in> set (builds db)" and j: "j \<in> set (jobs db)" "jb_build j = bd_id b"
  shows "job_by_ref db (bd_public_id b) (jb_target j) = Inr (b, j)"
proof -
  have "one_or_none (\<lambda>x. bd_public_id x = bd_public_id b) (builds db) = Some b"
  proof (cases "one_or_none (\<lambda>x. bd_public_id x = bd_public_id b) (builds db)")
    case None
    then show ?thesis using b by (auto simp: one_or_none_def filter_empty_conv split: list.splits)
  next
    case (Some x)
    have "distinct (map bd_public_id (builds db))" using ok by (simp add: db_ok_def)
    with Some b show ?thesis using one_or_none_Some [OF Some] distinct_map_eq by metis
  qed
  moreover have "one_or_none (\<lambda>x. jb_build x = bd_id b \<and> jb_target x = jb_target j) (jobs db) = Some j"
  proof (cases "one_or_none (\<lambda>x. jb_build x = bd_id b \<and> jb_target x = jb_target j) (jobs db)")
    case None
    then show ?thesis using j by (auto simp: one_or_none_def filter_empty_conv split: list.splits)
  next
    case (Some x)
    then have "x \<in> set (jobs db)" "job_key x = job_key j" using j one_or_none_Some [OF Some] by (auto simp: job_key_def)
    with Some j show ?thesis using distinct_map_eq [OF db_okD(2) [OF ok]] by metis
  qed
  ultimately show ?thesis by (simp add: job_by_ref_def build_by_public_id_def)
qed

lemma later_ref:
  assumes ok: "db_ok db" "db_ok db'" and ev: "db_evolves db db'" and ref: "job_by_ref db pid t = Inr (b, j)"
  shows "\<exists>b' j'. job_by_ref db' pid t = Inr (b', j') \<and> build_evolves b b' \<and> job_evolves j j' \<and> j' \<in> set (jobs db')"
proof -
  note r = job_by_ref_set [OF ref]
  obtain b' j' where m: "b' \<in> set (builds db')" "build_evolves b b'" "j' \<in> set (jobs db')" "job_evolves j j'"
    using ev r unfolding db_evolves_def by blast
  then have "jb_build j' = bd_id b'" "bd_public_id b' = pid" "jb_target j' = t"
    using r by (auto simp: build_evolves_def job_evolves_def job_key_def)
  then have "job_by_ref db' pid t = Inr (b', j')" using job_by_ref_row [OF ok(2) m(1,3)] by simp
  with m show ?thesis by blast
qed

section \<open>Artifacts belong to jobs\<close>

definition artifacts_owned :: "build_db \<Rightarrow> bool" where
  "artifacts_owned db \<longleftrightarrow> (\<forall>art \<in> set (artifacts db). (af_build art, af_target art) \<in> job_key ` set (jobs db))"

lemma ops_artifacts:
  "artifacts (snd (insert_build peak uuid now rq db)) = artifacts db" "artifacts (snd (attach_queue_job p t q db)) = artifacts db"
  "artifacts (snd (issue_job_token env p t token db)) = artifacts db" "artifacts (snd (claim_job env now p t token w db)) = artifacts db"
  "artifacts (snd (report_job env now p t token success code message log_ref db)) = artifacts db"
  "artifacts (snd (cancel_build now p db)) = artifacts db" "artifacts (snd (fail_build now p code' message' db)) = artifacts db"
  by (auto simp: insert_build_def attach_queue_job_def issue_job_token_def claim_job_def report_job_def cancel_build_def
      fail_build_def put_job_def put_build_def close_open_jobs_def Let_def split: sum.splits option.splits)

lemma worker_ops_artifacts:
  "artifacts (snd (create_worker now wid name labels db)) = artifacts db"
  "artifacts (snd (issue_register_token env wid ttl now token db)) = artifacts db"
  "artifacts (snd (exchange_register_token env wid token now api db)) = artifacts db"
  "artifacts (snd (verify_worker_token env wid token db)) = artifacts db"
  "artifacts (snd (heartbeat wid now db)) = artifacts db"
  "artifacts (snd (store_credential env i nonce now scope owner kind label material db)) = artifacts db"
  "artifacts (snd (rotate_credential env nonce now i material db)) = artifacts db"
  "artifacts (snd (revoke_credential now i db)) = artifacts db"
  using worker_ops_frame [of db] cred_ops_frame [of db] by (simp_all add: same_builds_def)

lemma new_artifact_owned:
  "set (artifacts (snd (record_artifact now i f rel sha sz prov db))) \<subseteq>
     set (artifacts db) \<union> {art. (af_build art, af_target art) \<in> job_key ` set (jobs db)}"
  by (auto simp: record_artifact_def Let_def job_key_def dest!: one_or_none_Some split: option.splits)

lemma step_artifacts:
  "repo_step env db db' \<Longrightarrow>
     set (artifacts db') \<subseteq> set (artifacts db) \<union> {art. (af_build art, af_target art) \<in> job_key ` set (jobs db)}"
proof (induction rule: repo_step.induct)
  case (artifact db now job_id filename rel sha sz prov)
  show ?case by (rule new_artifact_owned)
qed (simp_all add: ops_artifacts worker_ops_artifacts)

lemma evolves_keys:
  assumes "db_evolves db db'"
  shows "job_key ` set (jobs db) \<subseteq> job_key ` set (jobs db')"
proof (rule image_subsetI)
  fix j assume "j \<in> set (jobs db)"
  then obtain j' where "j' \<in> set (jobs db')" "job_key j' = job_key j"
    using assms unfolding db_evolves_def job_evolves_def by blast
  then show "job_key j \<in> job_key ` set (jobs db')" by (metis imageI)
qed

lemma artifacts_owned_reachable:
  assumes "(repo_step env)\<^sup>*\<^sup>* (empty_db a) db"
  shows "artifacts_owned db"
  using assms
proof (induction rule: rtranclp_induct)
  case base
  then show ?case by (simp add: artifacts_owned_def empty_db_def)
next
  case (step db db')
  have "db_evolves db db'" using reachable_later [OF step(1) r_into_rtranclp [of "repo_step env", OF step(2)]] by simp
  then have k: "job_key ` set (jobs db) \<subseteq> job_key ` set (jobs db')" by (rule evolves_keys)
  show ?case unfolding artifacts_owned_def
    using step.IH [unfolded artifacts_owned_def] step_artifacts [OF step(2)] k by blast
qed

section \<open>Properties\<close>

text \<open>
  C30: In every reachable state of the build tables, whatever requests were interleaved (each a transaction of
  its own): build numbers are unique per application and targets per build; every job belongs to a build and
  every artifact to a job of a build, by build and target; a finished job has no usable token; a running job
  has a worker; a job that succeeded has an artifact of its own; a build is finished exactly when all its jobs
  are, it succeeded exactly when all of them did, and its progress is between 0 and 100 and reaches 100 exactly
  then.
\<close>
theorem build_tables_consistent:
  assumes "(repo_step env)\<^sup>*\<^sup>* (empty_db a) db"
  shows "distinct (map build_key (builds db)) \<and> distinct (map job_key (jobs db)) \<and>
    (\<forall>j \<in> set (jobs db). \<exists>b \<in> set (builds db). bd_id b = jb_build j) \<and>
    (\<forall>art \<in> set (artifacts db). \<exists>b \<in> set (builds db). \<exists>j \<in> set (jobs_of db (bd_id b)).
       af_build art = bd_id b \<and> af_target art = jb_target j) \<and>
    (\<forall>j. j \<in> set (jobs db) \<longrightarrow>
       (jb_status j \<in> TERMINAL \<longrightarrow> (\<forall>token. \<not> token_ok env token j)) \<and> (jb_status j = Running \<longrightarrow> jb_worker j \<noteq> None) \<and>
       (jb_status j = Succeeded \<longrightarrow> (\<exists>art \<in> set (artifacts db). af_build art = jb_build j \<and> af_target art = jb_target j))) \<and>
    (\<forall>b. b \<in> set (builds db) \<longrightarrow>
       (bd_status b \<in> TERMINAL \<longleftrightarrow> (\<forall>j \<in> set (jobs_of db (bd_id b)). jb_status j \<in> TERMINAL)) \<and>
       (bd_status b = Succeeded \<longleftrightarrow> (\<forall>j \<in> set (jobs_of db (bd_id b)). jb_status j = Succeeded)) \<and>
       0 \<le> bd_progress b \<and> bd_progress b \<le> 100 \<and> (bd_progress b = 100 \<longleftrightarrow> bd_status b \<in> TERMINAL))"
proof -
  have ok: "db_ok db" by (rule reachable_ok [OF assms])
  have owned: "\<forall>j \<in> set (jobs db). \<exists>b \<in> set (builds db). bd_id b = jb_build j" using db_okD(7) [OF ok] by fastforce
  moreover have "\<exists>b \<in> set (builds db). \<exists>j \<in> set (jobs_of db (bd_id b)). af_build art = bd_id b \<and> af_target art = jb_target j"
    if art: "art \<in> set (artifacts db)" for art
  proof -
    obtain j where j: "j \<in> set (jobs db)" "jb_build j = af_build art" "jb_target j = af_target art"
      using artifacts_owned_reachable [OF assms] art by (fastforce simp: artifacts_owned_def job_key_def)
    with owned obtain b where "b \<in> set (builds db)" "bd_id b = jb_build j" by blast
    with j show ?thesis by (intro bexI [of _ b] bexI [of _ j]) (simp_all add: jobs_of_def)
  qed
  moreover have "(jb_status j \<in> TERMINAL \<longrightarrow> (\<forall>token. \<not> token_ok env token j)) \<and> (jb_status j = Running \<longrightarrow> jb_worker j \<noteq> None) \<and>
       (jb_status j = Succeeded \<longrightarrow> (\<exists>art \<in> set (artifacts db). af_build art = jb_build j \<and> af_target art = jb_target j))"
    if "j \<in> set (jobs db)" for j
    using db_okD(4,6) [OF ok that] by (auto simp: job_ok_def token_ok_def has_artifact_def list_ex_iff)
  moreover have "(bd_status b \<in> TERMINAL \<longleftrightarrow> (\<forall>j \<in> set (jobs_of db (bd_id b)). jb_status j \<in> TERMINAL)) \<and>
       (bd_status b = Succeeded \<longleftrightarrow> (\<forall>j \<in> set (jobs_of db (bd_id b)). jb_status j = Succeeded)) \<and>
       0 \<le> bd_progress b \<and> bd_progress b \<le> 100 \<and> (bd_progress b = 100 \<longleftrightarrow> bd_status b \<in> TERMINAL)"
    if "b \<in> set (builds db)" for b
    using db_okD(5) [OF ok that] progress_bounds [of "jobs_of db (bd_id b)"] progress_full [of "jobs_of db (bd_id b)"]
    unfolding build_ok_def list_all_iff list_ex_iff by auto
  ultimately show ?thesis using ok unfolding db_ok_def by blast
qed

text \<open>
  C31: Finished builds are final. Once a build is in a terminal status, in every later state its row is unchanged,
  the row of each of its jobs is unchanged except for the reference to the queue entry, and every claim, report and
  document request for the job is refused whatever token is presented.
\<close>
theorem finished_builds_are_final:
  assumes "(repo_step env)\<^sup>*\<^sup>* (empty_db a) db" "job_by_ref db pid t = Inr (b, j)" "bd_status b \<in> TERMINAL"
    and "(repo_step env)\<^sup>*\<^sup>* db db'"
  shows "build_by_public_id db' pid = Inr b \<and>
    (\<exists>q. job_by_ref db' pid t = Inr (b, j\<lparr>jb_queue_job := q\<rparr>)) \<and>
    claim_job env now pid t token w db' = (Inl (WorkerAuthFailed ''invalid or expired job token''), db') \<and>
    report_job env now pid t token success code message log_ref db' = (Inl (WorkerAuthFailed ''invalid or expired job token''), db') \<and>
    verify_job_token env pid t token db' = Inl (WorkerAuthFailed ''invalid or expired job token'')"
proof -
  note ok = reachable_later [OF assms(1,4)]
  obtain b' j' where l: "job_by_ref db' pid t = Inr (b', j')" "build_evolves b b'" "j' \<in> set (jobs db')"
      "job_evolves j j'"
    using later_ref [OF ok assms(2)] by blast
  note r = job_by_ref_set [OF l(1)]
  have b: "b' = b" using l(2) assms(3) by (simp add: build_evolves_def)
  have "j' \<in> set (jobs_of db' (bd_id b'))" using r by (simp add: jobs_of_def)
  moreover have "build_ok (jobs_of db' (bd_id b')) b'" using db_okD(5) [OF ok(2)] r by blast
  ultimately have "jb_status j' \<in> TERMINAL" using assms(3) b unfolding build_ok_def list_ex_iff by blast
  note j0 = job_by_ref_set [OF assms(2)]
  have "j \<in> set (jobs_of db (bd_id b))" "build_ok (jobs_of db (bd_id b)) b"
    using j0 db_okD(5) [OF ok(1)] by (auto simp: jobs_of_def)
  then have "jb_status j \<in> TERMINAL" using assms(3) unfolding build_ok_def list_ex_iff by blast
  then have "j' = j\<lparr>jb_queue_job := jb_queue_job j'\<rparr>" using l(4) by (simp add: job_evolves_def)
  then have kept: "\<exists>q. job_by_ref db' pid t = Inr (b, j\<lparr>jb_queue_job := q\<rparr>)" using l(1) b by metis
  have nt: "\<not> token_ok env token j'" using \<open>jb_status j' \<in> TERMINAL\<close> db_okD(4) [OF ok(2) l(3)] by (simp add: job_ok_def token_ok_def)
  have "build_by_public_id db' pid = Inr b" using l(1) b by (auto simp: job_by_ref_def rbind_Inr_iff split: option.splits)
  then show ?thesis using l(1) nt kept by (simp add: claim_job_def report_job_def verify_job_token_def)
qed

text \<open>
  A claim is exclusive. Issuing a token for an open job lets the holder claim it for a worker; from then on,
  in every later state, the job belongs to that worker and a claim for any other worker is refused, with the
  token of the job too.
\<close>
lemma claims_are_exclusive:
  fixes now :: int and w :: string
  assumes "(repo_step env)\<^sup>*\<^sup>* (empty_db a) db" "job_by_ref db pid t = Inr (b, j)" "jb_status j = Queued" "sha256 env token \<noteq> []"
  defines "db1 \<equiv> snd (issue_job_token env pid t token db)"
  defines "db2 \<equiv> snd (claim_job env now pid t token w db1)"
  shows "(\<exists>j'. fst (claim_job env now pid t token w db1) = Inr j' \<and> jb_status j' = Running \<and> jb_worker j' = Some w) \<and>
    (\<forall>db3 tok now' w'. (repo_step env)\<^sup>*\<^sup>* db2 db3 \<longrightarrow>
       (\<exists>b' j'. job_by_ref db3 pid t = Inr (b', j') \<and> jb_worker j' = Some w \<and> jb_status j' \<noteq> Queued) \<and>
       (w' \<noteq> w \<longrightarrow> (\<exists>e. claim_job env now' pid t tok w' db3 = (Inl e, db3))))"
proof -
  have ok: "db_ok db" by (rule reachable_ok [OF assms(1)])
  let ?j1 = "j\<lparr>jb_token_hash := Some (token_hash env token), jb_token_valid := True\<rparr>"
  note r = job_by_ref_set [OF assms(2)]
  have db1: "db1 = put_job ?j1 db" using assms(2,3) by (simp add: db1_def issue_job_token_def)
  have ok1: "db_ok db1" using issue_token_ok [OF ok] by (simp add: db1_def repo_ok_def)
  have j1: "?j1 \<in> set (jobs db1)" using r by (force simp: db1 put_job_def)
  have b1: "b \<in> set (builds db1)" using r by (simp add: db1 put_job_def)
  have ref1: "job_by_ref db1 pid t = Inr (b, ?j1)" using job_by_ref_row [OF ok1 b1 j1] r by simp
  have tok: "token_ok env token ?j1" using assms(4) by (simp add: token_ok_def safe_compare_hash)
  let ?j2 = "?j1\<lparr>jb_status := Running, jb_worker := Some w, jb_started := (case jb_started j of None \<Rightarrow> Some now | Some s \<Rightarrow> Some s)\<rparr>"
  have claim: "fst (claim_job env now pid t token w db1) = Inr ?j2" "jobs db2 = jobs (put_job ?j2 db1)" "builds db2 = builds (put_build (recompute_progress (put_job ?j2 db1)
      (if bd_status b = Queued then b\<lparr>bd_status := Running, bd_started := Some now\<rparr> else b)) (put_job ?j2 db1))"
    using ref1 tok assms(3) by (simp_all add: db2_def claim_job_def Let_def put_build_def)
  have ok2: "db_ok db2" using claim_ok [OF ok1] by (simp add: db2_def repo_ok_def)
  have j2: "?j2 \<in> set (jobs db2)" using j1 by (force simp: claim(2) put_job_def)
  obtain b2 where b2: "b2 \<in> set (builds db2)" "bd_id b2 = bd_id b" "bd_public_id b2 = bd_public_id b"
    using claim_ok [OF ok1, of env now pid t token w] b1 by (auto simp: repo_ok_def db_evolves_def build_evolves_def db2_def)
  have ref2: "job_by_ref db2 pid t = Inr (b2, ?j2)" using job_by_ref_row [OF ok2 b2(1) j2] b2 r by simp
  have "(\<exists>b' j'. job_by_ref db3 pid t = Inr (b', j') \<and> jb_worker j' = Some w \<and> jb_status j' \<noteq> Queued) \<and>
       (w' \<noteq> w \<longrightarrow> (\<exists>e. claim_job env now' pid t tok w' db3 = (Inl e, db3)))"
    if st: "(repo_step env)\<^sup>*\<^sup>* db2 db3" for db3 tok now' w'
  proof -
    have "db_ok db3" "db_evolves db2 db3" using repo_steps_ok [OF st ok2] by (auto simp: repo_ok_def)
    then obtain b' j' where l: "job_by_ref db3 pid t = Inr (b', j')" "job_evolves ?j2 j'"
      using later_ref [OF ok2 _ _ ref2] by blast
    then have "jb_worker j' = Some w" "jb_status j' \<noteq> Queued" by (auto simp: job_evolves_def)
    with l(1) show ?thesis by (auto simp: claim_job_def not_terminal)
  qed
  with claim(1) show ?thesis by simp
qed

section \<open>Credentials\<close>

text \<open>A revoked credential row stays, revoked.\<close>

definition revoked_row :: "string \<Rightarrow> build_db \<Rightarrow> bool" where
  "revoked_row pid db \<longleftrightarrow> pid \<in> set (map cd_public_id (creds db)) \<and>
     (\<forall>c. c \<in> set (creds db) \<longrightarrow> cd_public_id c = pid \<longrightarrow> cd_revoked c)"

lemma cred_by_id_set: "cred_by_id db pid = Inr c \<Longrightarrow> c \<in> set (creds db) \<and> cd_public_id c = pid"
  by (auto simp: cred_by_id_def split: option.splits dest: one_or_none_Some)

lemma put_cred_ids: "map cd_public_id (creds (put_cred c db)) = map cd_public_id (creds db)"
  by (simp add: put_cred_def)

lemma put_cred_revoked:
  assumes "revoked_row pid db" "c \<in> set (creds db)" "cd_public_id c' = cd_public_id c" "cd_revoked c \<Longrightarrow> cd_revoked c'"
  shows "revoked_row pid (put_cred c' db)"
  using assms unfolding revoked_row_def put_cred_ids by (auto simp: put_cred_def)

lemma build_ops_creds:
  "creds (snd (insert_build peak uuid now rq db)) = creds db" "creds (snd (attach_queue_job p t q db)) = creds db"
  "creds (snd (issue_job_token env p t token db)) = creds db" "creds (snd (claim_job env now p t token w db)) = creds db"
  "creds (snd (report_job env now p t token success code message log_ref db)) = creds db"
  "creds (snd (cancel_build now p db)) = creds db" "creds (snd (fail_build now p code' message' db)) = creds db"
  "creds (snd (record_artifact now i f rel sha sz prov db)) = creds db"
  by (auto simp: insert_build_def attach_queue_job_def issue_job_token_def claim_job_def report_job_def cancel_build_def
      fail_build_def record_artifact_def put_job_def put_build_def close_open_jobs_def Let_def split: sum.splits option.splits)

lemma store_creds:
  "creds (snd (store_credential env i nonce now scope owner kind label material db)) = creds db \<or>
   (\<exists>row. cd_public_id row = i \<and> creds (snd (store_credential env i nonce now scope owner kind label material db)) = creds db @ [row])"
  by (auto simp: store_credential_def Let_def split: option.splits)

lemma revoked_step: "repo_step env db db' \<Longrightarrow> revoked_row pid db \<Longrightarrow> revoked_row pid db'"
proof (induction rule: repo_step.induct)
  case (store i db nonce now scope owner kind label material)
  then show ?case
    using store_creds [of env i nonce now scope owner kind label material db] unfolding revoked_row_def by auto
next
  case (rotate db nonce now i material)
  then show ?case
    by (auto simp: rotate_credential_def Let_def split: option.splits sum.splits dest!: cred_by_id_set intro!: put_cred_revoked)
next
  case (revoke db now i)
  then show ?case
    by (auto simp: revoke_credential_def Let_def split: sum.splits dest!: cred_by_id_set intro!: put_cred_revoked)
qed (simp_all add: revoked_row_def build_ops_creds worker_ops_creds)

lemma revoke_gives_row:
  assumes "cred_by_id db pid = Inr c" "distinct (map cd_public_id (creds db))"
  shows "revoked_row pid (snd (revoke_credential now pid db))"
proof -
  note c = cred_by_id_set [OF assms(1)]
  have "x = c" if "x \<in> set (creds db)" "cd_public_id x = pid" for x
    using distinct_map_eq [OF assms(2) that(1)] c that(2) by auto
  moreover have "pid \<in> set (map cd_public_id (creds db))" using c by auto
  moreover let ?c = "c\<lparr>cd_revoked := True, cd_revoked_at := Some now\<rparr>"
  have "snd (revoke_credential now pid db) = (if cd_revoked c then db else put_cred ?c db)"
    using assms(1) by (simp add: revoke_credential_def Let_def)
  ultimately show ?thesis
    using c unfolding revoked_row_def by (auto simp: put_cred_ids simp del: set_map) (auto simp: put_cred_def)
qed

text \<open>
  A revoked credential is never served again: after a revocation, in every later state, whatever is stored,
  rotated or dispatched, reading its material and rotating it are refused.
\<close>
lemma revoked_credentials_stay_closed:
  assumes "cred_by_id db pid = Inr c" "distinct (map cd_public_id (creds db))"
    and "(repo_step env)\<^sup>*\<^sup>* (snd (revoke_credential now pid db)) db'"
  shows "load_material env pid db' = Inl (CredentialRevoked ''credential is revoked'') \<and>
    (material_error env m = None \<longrightarrow> rotate_credential env nonce now' pid m db' = (Inl (CredentialRevoked ''credential is revoked''), db'))"
proof -
  have "revoked_row pid db'"
    using assms(3) revoke_gives_row [OF assms(1,2)] by (induction rule: rtranclp_induct) (auto dest: revoked_step)
  then obtain c' where "cred_by_id db' pid = Inr c'" "cd_revoked c'"
  proof -
    assume r: "revoked_row pid db'"
    then have "filter (\<lambda>c. cd_public_id c = pid) (creds db') \<noteq> []" by (auto simp: revoked_row_def filter_empty_conv)
    then obtain x where "one_or_none (\<lambda>c. cd_public_id c = pid) (creds db') = Some x" by (cases "filter (\<lambda>c. cd_public_id c = pid) (creds db')") (auto simp: one_or_none_def)
    with r show thesis using one_or_none_Some that by (fastforce simp: cred_by_id_def revoked_row_def)
  qed
  then show ?thesis by (simp add: load_material_def rotate_credential_def)
qed

section \<open>Examples\<close>

definition ex_build_env :: build_env where
  "ex_build_env = \<lparr>sha256 = map (\<lambda>c. word_of_nat (of_char c)), json_size = (\<lambda>_. 10), encrypt_json = (\<lambda>_ _ aad. aad),
     decrypt_json = (\<lambda>_ _. Inr (VDict []))\<rparr>"

definition ex_target :: build_target where
  "ex_target = \<lparr>t_platform = ''android'', t_arch = ''x86_64'', t_artifact = ''apk''\<rparr>"

definition ex_request :: build_request where
  "ex_request = \<lparr>rq_owner = 1, rq_application = 1, rq_version = ''1.0.0'', rq_source_repo = [], rq_source_revision = [],
     rq_sdk_repo = [], rq_sdk_revision = [], rq_config = VDict [], rq_digest = [], rq_targets = [ex_target], rq_credentials = []\<rparr>"

definition ex_db1 :: build_db where "ex_db1 = snd (insert_build 0 ''b1'' 0 ex_request (empty_db []))"
definition ex_db2 :: build_db where "ex_db2 = snd (cancel_build 5 ''b1'' ex_db1)"

lemma ex_db1_reachable: "(repo_step ex_build_env)\<^sup>*\<^sup>* (empty_db []) ex_db1"
  unfolding ex_db1_def by (intro r_into_rtranclp repo_step.create) (simp add: ex_request_def)

lemma ex_db2_reachable: "(repo_step ex_build_env)\<^sup>*\<^sup>* (empty_db []) ex_db2"
  using ex_db1_reachable unfolding ex_db2_def by (rule rtranclp.rtrancl_into_rtrancl) (rule repo_step.cancel)

lemma ex_refs:
  "(case job_by_ref ex_db1 ''b1'' ex_target of Inl _ \<Rightarrow> False | Inr (b, j) \<Rightarrow> jb_status j = Queued)"
  "(case job_by_ref ex_db2 ''b1'' ex_target of Inl _ \<Rightarrow> False | Inr (b, j) \<Rightarrow> bd_status b = Cancelled)"
  by code_simp+

theorem build_tables_consistent_witness: "map bd_progress (builds ex_db2) = [100] \<and> distinct (map job_key (jobs ex_db2))"
proof -
  have "map bd_status (builds ex_db2) = [Cancelled]" by code_simp
  then obtain b where b: "builds ex_db2 = [b]" "bd_status b = Cancelled" by auto
  with build_tables_consistent [OF ex_db2_reachable] show ?thesis by auto
qed

theorem finished_builds_are_final_witness:
  "claim_job ex_build_env 9 ''b1'' ex_target ''tok'' ''w'' ex_db2 = (Inl (WorkerAuthFailed ''invalid or expired job token''), ex_db2)"
proof -
  obtain b j where "job_by_ref ex_db2 ''b1'' ex_target = Inr (b, j)" "bd_status b = Cancelled"
    using ex_refs(2) by (auto split: sum.splits)
  with finished_builds_are_final [OF ex_db2_reachable, of "''b1''" ex_target b j ex_db2] show ?thesis by simp
qed

lemma claims_are_exclusive_example:
  "\<exists>e. claim_job ex_build_env 9 ''b1'' ex_target ''tok'' ''w2''
     (snd (claim_job ex_build_env 8 ''b1'' ex_target ''tok'' ''w1'' (snd (issue_job_token ex_build_env ''b1'' ex_target ''tok'' ex_db1)))) =
   (Inl e, snd (claim_job ex_build_env 8 ''b1'' ex_target ''tok'' ''w1'' (snd (issue_job_token ex_build_env ''b1'' ex_target ''tok'' ex_db1))))"
proof -
  obtain b j where r: "job_by_ref ex_db1 ''b1'' ex_target = Inr (b, j)" "jb_status j = Queued"
    using ex_refs(1) by (auto split: sum.splits)
  have "sha256 ex_build_env ''tok'' \<noteq> []" by (simp add: ex_build_env_def)
  from claims_are_exclusive [OF ex_db1_reachable r this, of 8 "''w1''"] show ?thesis by auto
qed

definition ex_cred_db :: build_db where
  "ex_cred_db = snd (store_credential ex_build_env ''c1'' [] 0 ''global'' ''ops'' ''ssh_key'' ''key'' (VDict [(''k'', VNone)]) (empty_db []))"

lemma revoked_credentials_stay_closed_example:
  "load_material ex_build_env ''c1'' (snd (revoke_credential 1 ''c1'' ex_cred_db)) = Inl (CredentialRevoked ''credential is revoked'')"
proof -
  have "(case cred_by_id ex_cred_db ''c1'' of Inl _ \<Rightarrow> False | Inr c \<Rightarrow> True)" by code_simp
  then obtain c where c: "cred_by_id ex_cred_db ''c1'' = Inr c" by (auto split: sum.splits)
  have "distinct (map cd_public_id (creds ex_cred_db))" by code_simp
  from revoked_credentials_stay_closed [OF c this rtranclp.rtrancl_refl] show ?thesis by blast
qed

end
