(* ===== verification/ArtifactStore.thy ===== *)
theory ArtifactStore
  imports BuildValidators Base64
begin

text \<open>
  The store of build artifacts and final logs, \<open>app/builder/artifacts.py\<close>. A file system is a dictionary from
  absolute paths, as lists of components, to contents; directories exist as prefixes of files, and there are no
  symbolic links below the root. SHA-256 is a parameter. Main results: whatever file name a worker supplies, the
  artifact path stays below its release directory, and files outside the staging area never change.
\<close>

type_synonym path = "string list"
type_synonym file_system = "(path, bytes) dict"

definition MAX_FINAL_LOG_BYTES :: int where "MAX_FINAL_LOG_BYTES = 5 * 1024 * 1024"
definition MAX_ARTIFACT_BYTES :: int where "MAX_ARTIFACT_BYTES = 1024 * 1024 * 1024"
definition MAX_API_LOG_BYTES :: int where "MAX_API_LOG_BYTES = 1024 * 1024"

section \<open>Paths\<close>

text \<open>
  \<open>_SAFE_SEGMENT.match\<close>: one alphanumeric character and up to 255 of the class; the anchor \<open>$\<close> also matches
  before a final line feed.
\<close>

definition seg_char :: "char \<Rightarrow> bool" where
  "seg_char c \<longleftrightarrow> alnum c \<or> c \<in> set ''_.@+-''"

definition SAFE_SEGMENT_match :: "string \<Rightarrow> bool" where
  "SAFE_SEGMENT_match s \<longleftrightarrow>
     (case s of
        [] \<Rightarrow> False
      | c # cs \<Rightarrow>
          alnum c \<and> (let body = (if cs \<noteq> [] \<and> last cs = CHR 0x0A then butlast cs else cs)
                    in length body \<le> 255 \<and> list_all seg_char body))"

definition segment :: "string \<Rightarrow> build_error + string" where
  "segment v =
     (if \<not> SAFE_SEGMENT_match v then Inl (BuildValidationFailed ''unsafe segment'')
      else if v = ''.'' \<or> v = ''..'' then Inl (BuildValidationFailed ''unsafe segment'')
      else Inr v)"

definition artifact_rel_path :: "string \<Rightarrow> string \<Rightarrow> int \<Rightarrow> string \<Rightarrow> string \<Rightarrow> string \<Rightarrow> build_error + string" where
  "artifact_rel_path app_public_id version build_number platform arch filename =
     rbind (segment app_public_id) (\<lambda>app.
     rbind (segment (version @ ''+'' @ int_to_str build_number)) (\<lambda>release.
     rbind (segment (platform @ ''-'' @ arch)) (\<lambda>target.
     rbind (segment filename) (\<lambda>name.
       if py_prefix ''.'' name then Inl (BuildValidationFailed ''unsafe filename'')
       else Inr (''applications/'' @ app @ ''/releases/'' @ release @ ''/'' @ target @ ''/'' @ name)))))"

definition log_rel_path :: "string \<Rightarrow> string \<Rightarrow> string \<Rightarrow> string \<Rightarrow> string \<Rightarrow> build_error + string" where
  "log_rel_path app_public_id build_public_id platform arch artifact =
     rbind (segment app_public_id) (\<lambda>app.
     rbind (segment build_public_id) (\<lambda>build.
     rbind (segment (platform @ ''-'' @ arch @ (if artifact = ''aab'' then ''-aab'' else []))) (\<lambda>target.
       Inr (''applications/'' @ app @ ''/build-logs/'' @ build @ ''/'' @ target @ ''.log''))))"

text \<open>Joining a relative path to the root and resolving it; an absolute path replaces the root.\<close>

definition path_step :: "string \<Rightarrow> path \<Rightarrow> path" where
  "path_step seg acc = (if seg = [] \<or> seg = ''.'' then acc else if seg = ''..'' then butlast acc else acc @ [seg])"

definition join_resolve :: "path \<Rightarrow> string \<Rightarrow> path" where
  "join_resolve base rel = fold path_step (split_on (CHR ''/'') rel) (if py_prefix ''/'' rel then [] else base)"

definition resolve_in :: "path \<Rightarrow> string \<Rightarrow> build_error + path" where
  "resolve_in base rel =
     (let candidate = join_resolve base rel
      in if candidate \<noteq> base \<and> \<not> (length base < length candidate \<and> take (length base) candidate = base)
         then Inl (BuildValidationFailed ''path escapes the artifact store'') else Inr candidate)"

section \<open>Files\<close>

definition is_file :: "file_system \<Rightarrow> path \<Rightarrow> bool" where
  "is_file fs p \<longleftrightarrow> dict_in p fs"

definition path_exists :: "file_system \<Rightarrow> path \<Rightarrow> bool" where
  "path_exists fs p \<longleftrightarrow> list_ex (\<lambda>q. take (length p) q = p) (dict_keys fs)"

text \<open>\<open>mkdir(parents=True)\<close> fails when a parent is a file.\<close>

definition parents_ok :: "file_system \<Rightarrow> path \<Rightarrow> bool" where
  "parents_ok fs p \<longleftrightarrow> list_all (\<lambda>n. \<not> is_file fs (take n p)) [0..<length p]"

definition staging_path :: "path \<Rightarrow> string \<Rightarrow> path" where
  "staging_path base uuid = base @ [''.staging'', uuid @ ''.part'']"

definition stage_upload :: "path \<Rightarrow> string \<Rightarrow> file_system \<Rightarrow> path \<times> file_system" where
  "stage_upload base uuid fs = (staging_path base uuid, dict_set (staging_path base uuid) [] fs)"

definition discard_staged :: "path \<Rightarrow> file_system \<Rightarrow> file_system" where
  "discard_staged staged fs = dict_pop staged fs"

definition finalize ::
  "(bytes \<Rightarrow> string) \<Rightarrow> path \<Rightarrow> path \<Rightarrow> string \<Rightarrow> string \<Rightarrow> int \<Rightarrow> file_system \<Rightarrow> (build_error + string \<times> int) \<times> file_system" where
  "finalize sha256_of base staged rel_path expected_sha256 expected_size fs =
     (case dict_get fs staged of
        None \<Rightarrow> (Inl (BuildValidationFailed ''staged upload is missing''), fs)
      | Some content \<Rightarrow>
          if expected_size < 0 \<or> expected_size > MAX_ARTIFACT_BYTES then (Inl (BuildValidationFailed ''artifact size out of bounds''), fs)
          else if int (length content) \<noteq> expected_size then (Inl (BuildValidationFailed ''artifact size mismatch''), fs)
          else if sha256_of content \<noteq> py_lower (py_strip expected_sha256) then (Inl (BuildValidationFailed ''artifact checksum mismatch''), fs)
          else case resolve_in base rel_path of
            Inl e \<Rightarrow> (Inl e, fs)
          | Inr dest \<Rightarrow>
              if path_exists fs dest then (Inl (BuildConflict ''artifact already recorded''), fs)
              else if \<not> parents_ok fs dest then (Inl (Raised OSError), fs)
              else (Inr (rel_path, int (length content)), dict_set dest content (dict_pop staged fs)))"

definition write_final_log :: "path \<Rightarrow> string \<Rightarrow> bytes \<Rightarrow> file_system \<Rightarrow> (build_error + string) \<times> file_system" where
  "write_final_log base rel_path content fs =
     (if int (length content) > MAX_FINAL_LOG_BYTES then (Inl (BuildValidationFailed ''final log exceeds 5242880 bytes''), fs)
      else case resolve_in base rel_path of
        Inl e \<Rightarrow> (Inl e, fs)
      | Inr dest \<Rightarrow>
          if path_exists fs dest then (Inl (BuildConflict ''final log already recorded''), fs)
          else if \<not> parents_ok fs dest then (Inl (Raised OSError), fs)
          else (Inr rel_path, dict_set dest content fs))"

definition open_for_download :: "path \<Rightarrow> string \<Rightarrow> file_system \<Rightarrow> build_error + path" where
  "open_for_download base rel_path fs =
     rbind (resolve_in base rel_path) (\<lambda>p.
       if is_file fs p then Inr p else Inl (BuildValidationFailed ''stored file is missing''))"

definition read_log :: "path \<Rightarrow> string \<Rightarrow> file_system \<Rightarrow> build_error + bytes \<times> bool" where
  "read_log base rel_path fs =
     rbind (resolve_in base rel_path) (\<lambda>p.
       case dict_get fs p of
         None \<Rightarrow> Inr ([], False)
       | Some content \<Rightarrow>
           if int (length content) \<le> MAX_API_LOG_BYTES then Inr (content, False)
           else Inr (drop (length content - nat MAX_API_LOG_BYTES) content, True))"

section \<open>Confinement\<close>

lemma alnum_not_sep [simp]: "\<not> alnum (CHR ''/'')" "\<not> alnum (CHR ''.'')" "\<not> seg_char (CHR ''/'')"
  by (simp_all add: alnum_def is_word_def is_digit_def seg_char_def)

lemma segment_chars:
  assumes "segment v = Inr s"
  shows "s = v" "v \<noteq> []" "CHR ''/'' \<notin> set v" "hd v \<noteq> CHR ''.''"
proof -
  obtain c cs where v: "v = c # cs" "alnum c" "list_all seg_char (if cs \<noteq> [] \<and> last cs = CHR 0x0A then butlast cs else cs)"
    and s: "s = v"
    using assms by (auto simp: segment_def SAFE_SEGMENT_match_def Let_def split: list.splits if_splits)
  have "CHR ''/'' \<notin> set cs"
  proof (cases "cs \<noteq> [] \<and> last cs = CHR 0x0A")
    case True
    then have "cs = butlast cs @ [CHR 0x0A]" using append_butlast_last_id [of cs] by simp
    then have "set cs = insert (CHR 0x0A) (set (butlast cs))" by (metis list.simps(15) rotate1.simps(2) set_rotate1)
    moreover have "CHR ''/'' \<notin> set (butlast cs)" using v(3) True by (auto simp: list_all_iff)
    ultimately show ?thesis by simp
  next
    case False
    with v(3) have "list_all seg_char cs" by (auto split: if_splits)
    then show ?thesis using alnum_not_sep(3) unfolding list_all_iff by blast
  qed
  with v s show "s = v" "v \<noteq> []" "CHR ''/'' \<notin> set v" "hd v \<noteq> CHR ''.''" by auto
qed

lemma fold_path_step_plain:
  "list_all (\<lambda>s. s \<noteq> [] \<and> hd s \<noteq> CHR ''.'') segs \<Longrightarrow> fold path_step segs acc = acc @ segs"
  by (induction segs arbitrary: acc) (auto simp: path_step_def)

lemma join_resolve_plain:
  assumes "segs \<noteq> []" "list_all (\<lambda>s. s \<noteq> [] \<and> hd s \<noteq> CHR ''.'' \<and> CHR ''/'' \<notin> set s) segs"
  shows "join_resolve base (join_with ''/'' segs) = base @ segs"
proof -
  obtain s ss where segs: "segs = s # ss" using assms(1) by (cases segs) auto
  then obtain c cs where s: "s = c # cs" "c \<noteq> CHR ''/''" using assms(2) by (cases s) auto
  have "\<not> py_prefix ''/'' (join_with ''/'' segs)" using s(2) by (cases ss) (auto simp: segs s(1))
  moreover have "split_on (CHR ''/'') (join_with ''/'' segs) = segs"
    using assms by (intro split_on_join) (auto simp: list_all_iff)
  moreover have "list_all (\<lambda>s. s \<noteq> [] \<and> hd s \<noteq> CHR ''.'') segs" using assms(2) by (auto simp: list_all_iff)
  ultimately show ?thesis by (simp add: join_resolve_def fold_path_step_plain)
qed

lemma resolve_in_plain:
  assumes "segs \<noteq> []" "list_all (\<lambda>s. s \<noteq> [] \<and> hd s \<noteq> CHR ''.'' \<and> CHR ''/'' \<notin> set s) segs"
  shows "resolve_in base (join_with ''/'' segs) = Inr (base @ segs)"
  using assms by (simp add: resolve_in_def join_resolve_plain)

lemma artifact_path_resolves:
  assumes "artifact_rel_path app ver n platform arch filename = Inr rel"
  shows "resolve_in base rel =
    Inr (base @ [''applications'', app, ''releases'', ver @ ''+'' @ int_to_str n, platform @ ''-'' @ arch, filename])"
proof -
  let ?segs = "[''applications'', app, ''releases'', ver @ ''+'' @ int_to_str n, platform @ ''-'' @ arch, filename]"
  obtain a r t f where s: "segment app = Inr a" "segment (ver @ ''+'' @ int_to_str n) = Inr r"
      "segment (platform @ ''-'' @ arch) = Inr t" "segment filename = Inr f"
    and rel: "rel = ''applications/'' @ a @ ''/releases/'' @ r @ ''/'' @ t @ ''/'' @ f"
    using assms by (auto simp: artifact_rel_path_def rbind_Inr_iff split: if_splits)
  note ok = s [THEN segment_chars(1)] s [THEN segment_chars(2)] s [THEN segment_chars(3)] s [THEN segment_chars(4)]
  have "rel = join_with ''/'' ?segs" by (simp add: rel ok(1-4))
  moreover have "list_all (\<lambda>s. s \<noteq> [] \<and> hd s \<noteq> CHR ''.'' \<and> CHR ''/'' \<notin> set s) ?segs"
    using ok(5-) by simp
  ultimately show ?thesis using resolve_in_plain [of ?segs base] by simp
qed

lemma log_path_resolves:
  assumes "log_rel_path app b platform arch artifact = Inr rel"
  shows "resolve_in base rel =
    Inr (base @ [''applications'', app, ''build-logs'', b, platform @ ''-'' @ arch @ (if artifact = ''aab'' then ''-aab'' else []) @ ''.log''])"
proof -
  let ?t = "platform @ ''-'' @ arch @ (if artifact = ''aab'' then ''-aab'' else [])"
  obtain s1 s2 s3 where s: "segment app = Inr s1" "segment b = Inr s2" "segment ?t = Inr s3"
    and rel: "rel = ''applications/'' @ s1 @ ''/build-logs/'' @ s2 @ ''/'' @ s3 @ ''.log''"
    using assms by (auto simp: log_rel_path_def rbind_Inr_iff split del: if_split)
  note ok = s [THEN segment_chars(1)] s [THEN segment_chars(2)] s [THEN segment_chars(3)] s [THEN segment_chars(4)]
  let ?segs = "[''applications'', app, ''build-logs'', b, ?t @ ''.log'']"
  have "rel = join_with ''/'' ?segs" by (simp add: rel ok(1-3))
  moreover have "list_all (\<lambda>s. s \<noteq> [] \<and> hd s \<noteq> CHR ''.'' \<and> CHR ''/'' \<notin> set s) ?segs"
    using ok(4-) by (simp add: hd_append split: if_splits)
  ultimately show ?thesis using resolve_in_plain [of ?segs base] by simp
qed

section \<open>Immutability\<close>

text \<open>What callers do with the store: stage and fill an upload, discard it, publish it, write a final log.\<close>

inductive store_step :: "(bytes \<Rightarrow> string) \<Rightarrow> path \<Rightarrow> file_system \<Rightarrow> file_system \<Rightarrow> bool" for sha256_of base where
  stage: "store_step sha256_of base fs (dict_set (staging_path base uuid) content fs)"
| discard: "store_step sha256_of base fs (discard_staged (staging_path base uuid) fs)"
| publish: "store_step sha256_of base fs (snd (finalize sha256_of base (staging_path base uuid) rel sha sz fs))"
| final_log: "store_step sha256_of base fs (snd (write_final_log base rel content fs))"

definition staged :: "path \<Rightarrow> path \<Rightarrow> bool" where
  "staged base p \<longleftrightarrow> (\<exists>uuid. p = staging_path base uuid)"

lemma path_exists_file: "dict_get fs p = Some c \<Longrightarrow> path_exists fs p"
  by (force simp: path_exists_def list_ex_iff dest: map_of_SomeD)

lemma finalize_keeps:
  "dict_get fs p = Some c \<Longrightarrow> p \<noteq> st \<Longrightarrow> dict_get (snd (finalize sha256_of base st rel sha sz fs)) p = Some c"
  using path_exists_file [of fs p c] by (auto simp: finalize_def split: option.splits sum.splits)

lemma write_final_log_keeps:
  "dict_get fs p = Some c \<Longrightarrow> dict_get (snd (write_final_log base rel content fs)) p = Some c"
  using path_exists_file [of fs p c] by (auto simp: write_final_log_def split: option.splits sum.splits)

lemma store_step_keeps:
  "store_step sha256_of base fs fs' \<Longrightarrow> dict_get fs p = Some c \<Longrightarrow> \<not> staged base p \<Longrightarrow> dict_get fs' p = Some c"
  by (induction rule: store_step.induct)
    (auto simp: staged_def discard_staged_def finalize_keeps write_final_log_keeps)

lemma store_steps_keep:
  assumes "(store_step sha256_of base)\<^sup>*\<^sup>* fs fs'" "\<not> staged base p" "dict_get fs p = Some c"
  shows "dict_get fs' p = Some c"
  using assms by (induction rule: rtranclp_induct) (auto dest: store_step_keeps)

text \<open>
  Published files are confined and immutable. Whatever file name the worker supplies, an accepted artifact
  path resolves to the release directory of its application, version, build number and target; publishing to it
  succeeds only with the declared size and digest and never on top of an existing file; and no later operation
  of the store changes or removes the file.
\<close>
lemma published_artifacts_are_immutable:
  assumes "artifact_rel_path app ver n platform arch filename = Inr rel"
    and "finalize sha256_of base (staging_path base uuid) rel sha sz fs = (Inr r, fs1)"
    and "(store_step sha256_of base)\<^sup>*\<^sup>* fs1 fs2"
  shows "\<exists>content. resolve_in base rel = Inr (base @ [''applications'', app, ''releases'', ver @ ''+'' @ int_to_str n, platform @ ''-'' @ arch, filename]) \<and>
    dict_get fs (staging_path base uuid) = Some content \<and> int (length content) = sz \<and> sha256_of content = py_lower (py_strip sha) \<and>
    \<not> path_exists fs (base @ [''applications'', app, ''releases'', ver @ ''+'' @ int_to_str n, platform @ ''-'' @ arch, filename]) \<and>
    dict_get fs2 (base @ [''applications'', app, ''releases'', ver @ ''+'' @ int_to_str n, platform @ ''-'' @ arch, filename]) = Some content"
proof -
  let ?p = "base @ [''applications'', app, ''releases'', ver @ ''+'' @ int_to_str n, platform @ ''-'' @ arch, filename]"
  note res = artifact_path_resolves [OF assms(1), of base]
  obtain content where c: "dict_get fs (staging_path base uuid) = Some content" "int (length content) = sz"
      "sha256_of content = py_lower (py_strip sha)" "\<not> path_exists fs ?p" "fs1 = dict_set ?p content (dict_pop (staging_path base uuid) fs)"
    using assms(2) by (auto simp: finalize_def res split: option.splits if_splits)
  have "\<not> staged base ?p" by (simp add: staged_def staging_path_def)
  moreover from c(5) have "dict_get fs1 ?p = Some content" by simp
  ultimately have "dict_get fs2 ?p = Some content"
    using store_steps_keep [OF assms(3)] by blast
  with c res show ?thesis by blast
qed

definition ex_upload :: file_system where
  "ex_upload = [(staging_path [''srv''] ''u1'', [1, 2, 3])]"

lemma published_artifacts_are_immutable_example:
  "dict_get (snd (finalize (\<lambda>_. ''ab'') [''srv''] (staging_path [''srv''] ''u1'') ''applications/a1/releases/1.0.0+1/android-x86_64/app.apk'' ''AB'' 3 ex_upload))
     [''srv'', ''applications'', ''a1'', ''releases'', ''1.0.0+1'', ''android-x86_64'', ''app.apk''] = Some [1, 2, 3]"
proof -
  let ?rel = "''applications/a1/releases/1.0.0+1/android-x86_64/app.apk''"
  have path: "artifact_rel_path ''a1'' ''1.0.0'' 1 ''android'' ''x86_64'' ''app.apk'' = Inr ?rel" by code_simp
  have num: "int_to_str 1 = ''1''" by code_simp
  have fin: "finalize (\<lambda>_. ''ab'') [''srv''] (staging_path [''srv''] ''u1'') ?rel ''AB'' 3 ex_upload =
      (Inr (?rel, 3), [([''srv'', ''applications'', ''a1'', ''releases'', ''1.0.0+1'', ''android-x86_64'', ''app.apk''], [1, 2, 3])])"
    by code_simp
  have "dict_get (snd (Inr (?rel, 3) :: build_error + string \<times> int,
        [([''srv'', ''applications'', ''a1'', ''releases'', ''1.0.0+1'', ''android-x86_64'', ''app.apk''], [1, 2, 3 :: 8 word])]))
      [''srv'', ''applications'', ''a1'', ''releases'', ''1.0.0+1'', ''android-x86_64'', ''app.apk''] = Some [1, 2, 3]"
    using published_artifacts_are_immutable [OF path fin rtranclp.rtrancl_refl] by (auto simp: num)
  then show ?thesis unfolding fin .
qed

text \<open>The anchor lets a file name with a final line feed through.\<close>

lemma trailing_newline_accepted: "segment (''app.apk'' @ [CHR 0x0A]) = Inr (''app.apk'' @ [CHR 0x0A])"
  by code_simp

end
