(* ===== verification/BuildService.thy ===== *)
theory BuildService
  imports BuildRepoProps ArtifactStore
begin

text \<open>
  The build service, \<open>app/builder/service.py\<close>, over the repository, the artifact store and the job queue
  (\<open>app/builder/queue.py\<close>). Redis and RQ are outside the repository: the outcome of every enqueue, cancel and depth
  request is an argument, and the calls made are recorded in the state: an enqueue with its payload, and the attempt
  to cancel a queue entry, whose failure the service swallows. A request runs its transactions one after the other;
  transactions of other requests and of workers in between are not part of these definitions. Main results: a
  build whose dispatch fails is failed as a whole, and every recorded artifact is backed by a file with the recorded
  digest and size.
\<close>

section \<open>State and parameters\<close>

text \<open>An enqueue with queue, returned job id and payload (build, target, job token), or a request to cancel.\<close>

datatype queue_call = Enqueued string string string build_target string | CancelRequested string string

record build_world =
  bw_db :: build_db
  bw_fs :: file_system
  bw_calls :: "queue_call list"

record service_env =
  sv_repo :: build_env
  sv_config :: config_env
  sv_bracket_ok :: "string \<Rightarrow> bool"
  sv_sources :: "string list"
  sv_sdks :: "string list"
  sv_sha256_of :: "bytes \<Rightarrow> string"
  sv_root :: path
  sv_encode :: "string \<Rightarrow> bytes"
  sv_decode :: "bytes \<Rightarrow> string"
  sv_seed :: "(string \<Rightarrow> string option) option"

text \<open>The queue as one request sees it.\<close>

record queue_io =
  qi_enqueue :: "nat \<Rightarrow> build_error + string"
  qi_cancel :: "string \<Rightarrow> string \<Rightarrow> build_error + bool"

type_synonym 'a svc_result = "(build_error + 'a) \<times> build_world"

definition LOG_STREAM_PREFIX :: string where
  "LOG_STREAM_PREFIX = ''zagros:build:log:''"

definition log_stream_key :: "string \<Rightarrow> string \<Rightarrow> string \<Rightarrow> string \<Rightarrow> string" where
  "log_stream_key pid platform arch artifact =
     LOG_STREAM_PREFIX @ pid @ '':'' @ platform @ '':'' @ arch @ (if artifact = ''aab'' then '':aab'' else [])"

definition clean_artifact :: "string \<Rightarrow> build_error + string" where
  "clean_artifact artifact =
     (let cleaned = py_lower (py_strip artifact)
      in if cleaned \<notin> set [''apk'', ''aab'', ''zip'', ''tar.gz'', ''ipa''] then Inl (BuildValidationFailed ''unsupported artifact'')
         else Inr cleaned)"

definition target_of :: "string \<Rightarrow> string \<Rightarrow> string \<Rightarrow> build_target" where
  "target_of platform arch artifact = \<lparr>t_platform = platform, t_arch = arch, t_artifact = artifact\<rparr>"

section \<open>Creating a build\<close>

fun authorize_attachments :: "string \<Rightarrow> string list \<Rightarrow> build_db \<Rightarrow> build_error + string list" where
  "authorize_attachments app [] db = Inr []"
| "authorize_attachments app (i # is) db =
     rbind (cred_by_id db i) (\<lambda>c.
       if cd_revoked c then Inl (CredentialRevoked ''credential is revoked'')
       else if \<not> (cd_scope c = ''global'' \<or> (cd_scope c = ''application'' \<and> cd_owner c = app))
         then Inl (BuildForbidden ''credential cannot attach to application'')
       else rbind (authorize_attachments app is db) (\<lambda>rest. Inr (cd_public_id c # rest)))"

text \<open>The dispatch loop: token, enqueue, attach; it stops at the first exception.\<close>

fun dispatch ::
  "service_env \<Rightarrow> queue_io \<Rightarrow> (nat \<Rightarrow> string) \<Rightarrow> string \<Rightarrow> nat \<Rightarrow> build_target list \<Rightarrow> build_world
     \<Rightarrow> build_error option \<times> (string \<times> string) list \<times> build_world" where
  "dispatch env io tokens pid i [] w = (None, [], w)"
| "dispatch env io tokens pid i (t # ts) w =
     (case dict_get QUEUE_FOR_PLATFORM (t_platform t) of
        None \<Rightarrow> (Some (Raised KeyError), [], w)
      | Some queue \<Rightarrow>
          (case issue_job_token (sv_repo env) pid t (tokens i) (bw_db w) of
             (Inl e, db1) \<Rightarrow> (Some e, [], w\<lparr>bw_db := db1\<rparr>)
           | (Inr token, db1) \<Rightarrow>
               (case qi_enqueue io i of
                  Inl e \<Rightarrow> (Some e, [], w\<lparr>bw_db := db1\<rparr>)
                | Inr job_id \<Rightarrow>
                    let w1 = w\<lparr>bw_db := db1, bw_calls := bw_calls w @ [Enqueued queue job_id pid t token]\<rparr>
                    in case attach_queue_job pid t job_id (bw_db w1) of
                         (Inl e, db2) \<Rightarrow> (Some e, [], w1\<lparr>bw_db := db2\<rparr>)
                       | (Inr _, db2) \<Rightarrow>
                           (let (err, dispatched, w2) = dispatch env io tokens pid (Suc i) ts (w1\<lparr>bw_db := db2\<rparr>)
                            in (err, (queue, job_id) # dispatched, w2)))))"

definition withdraw :: "(string \<times> string) list \<Rightarrow> build_world \<Rightarrow> build_world" where
  "withdraw dispatched w = w\<lparr>bw_calls := bw_calls w @ map (\<lambda>(q, j). CancelRequested q j) dispatched\<rparr>"

text \<open>The text of an exception; the model keeps a short form of it.\<close>

fun error_text :: "build_error \<Rightarrow> string" where
  "error_text (BuildNotFound s) = s"
| "error_text (BuildForbidden s) = s"
| "error_text (BuildValidationFailed s) = s"
| "error_text (BuildConflict s) = s"
| "error_text (BuildQueueUnavailable s) = s"
| "error_text (WorkerAuthFailed s) = s"
| "error_text (WorkerNotFound s) = s"
| "error_text (WorkerConflict s) = s"
| "error_text (CredentialNotFound s) = s"
| "error_text (CredentialRevoked s) = s"
| "error_text (Raised e) = []"

fun is_queue_error :: "build_error \<Rightarrow> bool" where
  "is_queue_error (BuildQueueUnavailable _) = True"
| "is_queue_error _ = False"

definition dispatch_build ::
  "service_env \<Rightarrow> queue_io \<Rightarrow> (nat \<Rightarrow> string) \<Rightarrow> int \<Rightarrow> string \<Rightarrow> build_target list \<Rightarrow> build_world \<Rightarrow> build_view svc_result" where
  "dispatch_build env io tokens now pid targets w =
     (case dispatch env io tokens pid 0 targets w of
        (None, _, w1) \<Rightarrow> (get_build (bw_db w1) pid, w1)
      | (Some exc, dispatched, w1) \<Rightarrow>
          (let w2 = withdraw dispatched w1;
               reason = (if is_queue_error exc then ''build queue unavailable'' else ''dispatch failed: '' @ error_text exc)
           in case fail_build now pid ''panel_error'' reason (bw_db w2) of
                (Inl e, db3) \<Rightarrow> (Inl e, w2\<lparr>bw_db := db3\<rparr>)
              | (Inr _, db3) \<Rightarrow> (Inl (if is_queue_error exc then exc else BuildQueueUnavailable reason), w2\<lparr>bw_db := db3\<rparr>)))"

record create_args =
  ca_owner :: int
  ca_application :: string
  ca_version :: pyval
  ca_source_repo :: pyval
  ca_source_revision :: pyval
  ca_sdk_repo :: pyval
  ca_sdk_revision :: pyval
  ca_config :: pyval
  ca_targets :: pyval
  ca_credentials :: "string list"

definition validate_request :: "service_env \<Rightarrow> create_args \<Rightarrow> build_db \<Rightarrow> build_error + build_request" where
  "validate_request env args db =
     rbind (get_application db (ca_application args)) (\<lambda>app.
     if ap_status app \<noteq> ''active'' then Inl (BuildConflict ''application is not active'')
     else if ap_owner app \<noteq> ca_owner args then Inl (BuildForbidden ''owner_admin_id does not own this application'')
     else
       rbind (validate_version (ca_version args)) (\<lambda>ver.
       rbind (validate_source_repo (sv_bracket_ok env) (ca_source_repo args) (sv_sources env)) (\<lambda>repo.
       rbind (validate_source_revision (ca_source_revision args)) (\<lambda>rev.
       rbind (validate_source_repo (sv_bracket_ok env) (ca_sdk_repo args) (sv_sdks env)) (\<lambda>sdk_repo.
       rbind (validate_source_revision (ca_sdk_revision args)) (\<lambda>sdk_rev.
       rbind (validate_build_config (sv_config env) (py_or (ca_config args) (VDict []))) (\<lambda>(config, digest).
       rbind (validate_targets (ca_targets args)) (\<lambda>targets.
       rbind (authorize_attachments (ca_application args) (ca_credentials args) db) (\<lambda>attached.
         Inr \<lparr>rq_owner = ap_owner app, rq_application = ap_id app, rq_version = ver, rq_source_repo = repo,
              rq_source_revision = rev, rq_sdk_repo = sdk_repo, rq_sdk_revision = sdk_rev, rq_config = config,
              rq_digest = digest, rq_targets = targets, rq_credentials = attached\<rparr>)))))))))"

definition svc_create_build ::
  "service_env \<Rightarrow> queue_io \<Rightarrow> (nat \<Rightarrow> string) \<Rightarrow> string \<Rightarrow> int \<Rightarrow> create_args \<Rightarrow> build_world \<Rightarrow> build_view svc_result" where
  "svc_create_build env io tokens uuid now args w =
     (case validate_request env args (bw_db w) of
        Inl e \<Rightarrow> (Inl e, w)
      | Inr rq \<Rightarrow>
          (case create_build uuid now rq (bw_db w) of
             (Inl e, db1) \<Rightarrow> (Inl e, w\<lparr>bw_db := db1\<rparr>)
           | (Inr view, db1) \<Rightarrow>
               dispatch_build env io tokens now (bd_public_id (vw_build view)) (rq_targets rq) (w\<lparr>bw_db := db1\<rparr>)))"

definition svc_cancel_build ::
  "queue_io \<Rightarrow> int \<Rightarrow> string \<Rightarrow> build_world \<Rightarrow> (build_view \<times> (string \<times> string \<times> bool) list) svc_result" where
  "svc_cancel_build io now pid w =
     (case cancel_build now pid (bw_db w) of
        (Inl e, db1) \<Rightarrow> (Inl e, w\<lparr>bw_db := db1\<rparr>)
      | (Inr (view, live), db1) \<Rightarrow>
          (Inr (view, map (\<lambda>(q, j). (q, j, case qi_cancel io q j of Inl _ \<Rightarrow> False | Inr removed \<Rightarrow> removed)) live),
           withdraw live (w\<lparr>bw_db := db1\<rparr>)))"

section \<open>Logs and downloads\<close>

definition find_job :: "build_view \<Rightarrow> string \<Rightarrow> string \<Rightarrow> build_error + job_row" where
  "find_job view platform arch =
     (case one_or_none (\<lambda>j. t_platform (jb_target j) = platform \<and> t_arch (jb_target j) = arch) (vw_jobs view) of
        None \<Rightarrow> Inl (BuildNotFound ''build has no such job'') | Some j \<Rightarrow> Inr j)"

datatype log_page = FinalLog string bool | LiveLog string

definition read_logs :: "service_env \<Rightarrow> string \<Rightarrow> string \<Rightarrow> string \<Rightarrow> build_world \<Rightarrow> build_error + log_page" where
  "read_logs env pid platform arch w =
     rbind (get_build (bw_db w) pid) (\<lambda>view.
     rbind (find_job view platform arch) (\<lambda>j.
       if jb_status j \<in> TERMINAL then
         (case jb_log_ref j of
            None \<Rightarrow> Inr (FinalLog [] False)
          | Some ref \<Rightarrow>
              if ref = [] then Inr (FinalLog [] False)
              else rbind (read_log (sv_root env) ref (bw_fs w)) (\<lambda>(content, truncated). Inr (FinalLog (sv_decode env content) truncated)))
       else Inr (LiveLog (log_stream_key pid platform arch ''apk''))))"

definition download_artifact ::
  "service_env \<Rightarrow> string \<Rightarrow> string \<Rightarrow> string \<Rightarrow> string \<Rightarrow> build_world \<Rightarrow> build_error + path \<times> artifact_row" where
  "download_artifact env pid platform arch filename w =
     rbind (get_build (bw_db w) pid) (\<lambda>view.
       case one_or_none (\<lambda>a. t_platform (af_target a) = platform \<and> t_arch (af_target a) = arch \<and> af_filename a = filename) (vw_artifacts view) of
         None \<Rightarrow> Inl (BuildNotFound ''no such artifact'')
       | Some a \<Rightarrow> rbind (open_for_download (sv_root env) (af_rel_path a) (bw_fs w)) (\<lambda>p. Inr (p, a)))"

section \<open>The worker side\<close>

definition svc_claim_job ::
  "service_env \<Rightarrow> int \<Rightarrow> string \<Rightarrow> string \<Rightarrow> string \<Rightarrow> string \<Rightarrow> string \<Rightarrow> string \<Rightarrow> string \<Rightarrow> build_world \<Rightarrow> job_row svc_result" where
  "svc_claim_job env now pid platform arch artifact token worker_id worker_token w =
     (case clean_artifact artifact of
        Inl e \<Rightarrow> (Inl e, w)
      | Inr cleaned \<Rightarrow>
          (case verify_worker_token (sv_repo env) worker_id worker_token (bw_db w) of
             (Inl e, db1) \<Rightarrow> (Inl e, w\<lparr>bw_db := db1\<rparr>)
           | (Inr _, db1) \<Rightarrow>
               (case claim_job (sv_repo env) now pid (target_of platform arch cleaned) token worker_id db1 of (r, db2) \<Rightarrow>
                  (r, w\<lparr>bw_db := db2\<rparr>))))"

record job_credential =
  jc_public_id :: string
  jc_kind :: string
  jc_label :: string
  jc_material :: pyval

fun attached_credentials :: "build_env \<Rightarrow> build_db \<Rightarrow> string list \<Rightarrow> build_error + job_credential list" where
  "attached_credentials env db [] = Inr []"
| "attached_credentials env db (i # is) =
     rbind (cred_by_id db i) (\<lambda>c.
       if cd_revoked c then Inl (CredentialRevoked ''credential was revoked'')
       else rbind (load_material env i db) (\<lambda>m.
            rbind (attached_credentials env db is) (\<lambda>rest.
              Inr (\<lparr>jc_public_id = cd_public_id c, jc_kind = cd_kind c, jc_label = cd_label c, jc_material = m\<rparr> # rest))))"

fun worker_credentials :: "build_env \<Rightarrow> build_db \<Rightarrow> cred_row list \<Rightarrow> build_error + job_credential list" where
  "worker_credentials env db [] = Inr []"
| "worker_credentials env db (c # cs) =
     rbind (load_material env (cd_public_id c) db) (\<lambda>m.
     rbind (worker_credentials env db cs) (\<lambda>rest.
       Inr (\<lparr>jc_public_id = cd_public_id c, jc_kind = cd_kind c, jc_label = cd_label c, jc_material = m\<rparr> # rest)))"

definition app_signing_credential :: "string \<Rightarrow> app_row option \<Rightarrow> (string \<Rightarrow> string option) option \<Rightarrow> job_credential list" where
  "app_signing_credential pid application resolver =
     (case (resolver, application) of
        (Some f, Some app) \<Rightarrow>
          if ap_public_id app = [] then []
          else (case f (ap_public_id app) of
                  None \<Rightarrow> []
                | Some seed \<Rightarrow>
                    if seed = [] then []
                    else [\<lparr>jc_public_id = pid @ ''-app-signing'', jc_kind = ''signing_key'',
                           jc_label = ''application attestation seed (per-job)'', jc_material = VDict [(''seed'', VStr seed)]\<rparr>])
      | _ \<Rightarrow> [])"

record job_document =
  jd_build :: build_row
  jd_job :: job_row
  jd_application :: "app_row option"
  jd_icon :: "(string, pyval) dict option"
  jd_credentials :: "job_credential list"
  jd_log_stream :: string

definition fetch_job :: "service_env \<Rightarrow> string \<Rightarrow> string \<Rightarrow> string \<Rightarrow> string \<Rightarrow> string \<Rightarrow> build_world \<Rightarrow> build_error + job_document" where
  "fetch_job env pid platform arch artifact token w =
     rbind (clean_artifact artifact) (\<lambda>cleaned.
     rbind (verify_job_token (sv_repo env) pid (target_of platform arch cleaned) token (bw_db w)) (\<lambda>(view, j).
       let b = vw_build view
       in case jb_worker j of
            None \<Rightarrow> Inl (BuildConflict ''job must be claimed before fetching'')
          | Some worker \<Rightarrow>
              if jb_status j \<noteq> Running \<or> worker = [] then Inl (BuildConflict ''job must be claimed before fetching'')
              else
                rbind (attached_credentials (sv_repo env) (bw_db w) (bd_credentials b)) (\<lambda>own.
                rbind (worker_credentials (sv_repo env) (bw_db w) (list_credentials (Some ''worker'') (Some worker) False (bw_db w))) (\<lambda>wc.
                  Inr \<lparr>jd_build = b, jd_job = j, jd_application = vw_application view,
                       jd_icon = map_option snd (job_icon_ref (bw_db w) pid),
                       jd_credentials = own @ wc @ app_signing_credential (bd_public_id b) (vw_application view) (sv_seed env),
                       jd_log_stream = log_stream_key (bd_public_id b) (t_platform (jb_target j)) (t_arch (jb_target j)) (t_artifact (jb_target j))\<rparr>))))"

definition fetch_job_icon ::
  "service_env \<Rightarrow> string \<Rightarrow> string \<Rightarrow> string \<Rightarrow> string \<Rightarrow> string \<Rightarrow> build_world \<Rightarrow> build_error + string \<times> (string, pyval) dict" where
  "fetch_job_icon env pid platform arch artifact token w =
     rbind (clean_artifact artifact) (\<lambda>cleaned.
     rbind (verify_job_token (sv_repo env) pid (target_of platform arch cleaned) token (bw_db w)) (\<lambda>(view, j).
       if jb_status j \<noteq> Running \<or> jb_worker j = None \<or> jb_worker j = Some [] then Inl (BuildConflict ''job must be claimed before fetching'')
       else case job_icon_ref (bw_db w) pid of
              None \<Rightarrow> Inl (BuildNotFound ''application has no launcher icon pack'') | Some ref \<Rightarrow> Inr ref))"

definition app_segment :: "build_view \<Rightarrow> string" where
  "app_segment view = (case vw_application view of None \<Rightarrow> ''unknown'' | Some a \<Rightarrow> ap_public_id a)"

definition store_log ::
  "service_env \<Rightarrow> string \<Rightarrow> string \<Rightarrow> string \<Rightarrow> string \<Rightarrow> string \<Rightarrow> bytes option \<Rightarrow> build_world \<Rightarrow> (string option) svc_result" where
  "store_log env pid platform arch cleaned token final_log w =
     (case final_log of
        None \<Rightarrow> (Inr None, w)
      | Some content \<Rightarrow>
          (case rbind (verify_job_token (sv_repo env) pid (target_of platform arch cleaned) token (bw_db w)) (\<lambda>(view, j).
                  log_rel_path (app_segment view) pid platform arch cleaned) of
             Inl e \<Rightarrow> (Inl e, w)
           | Inr rel \<Rightarrow>
               (case write_final_log (sv_root env) rel (sv_encode env (redact_text (sv_decode env content) (1024 * 1024))) (bw_fs w) of
                  (Inl e, fs) \<Rightarrow> (Inl e, w\<lparr>bw_fs := fs\<rparr>)
                | (Inr ref, fs) \<Rightarrow> (Inr (Some ref), w\<lparr>bw_fs := fs\<rparr>))))"

definition report_status ::
  "service_env \<Rightarrow> int \<Rightarrow> string \<Rightarrow> string \<Rightarrow> string \<Rightarrow> string \<Rightarrow> string \<Rightarrow> string \<Rightarrow> string option \<Rightarrow> string option \<Rightarrow> bytes option
     \<Rightarrow> build_world \<Rightarrow> build_view svc_result" where
  "report_status env now pid platform arch artifact token status failure_code failure_message final_log w =
     (if status \<noteq> ''success'' \<and> status \<noteq> ''failed'' then (Inl (BuildValidationFailed ''status''), w)
      else case clean_artifact artifact of
        Inl e \<Rightarrow> (Inl e, w)
      | Inr cleaned \<Rightarrow>
          (case store_log env pid platform arch cleaned token final_log w of
             (Inl e, w1) \<Rightarrow> (Inl e, w1)
           | (Inr log_ref, w1) \<Rightarrow>
               (case report_job (sv_repo env) now pid (target_of platform arch cleaned) token (status = ''success'') failure_code failure_message
                       log_ref (bw_db w1) of
                  (r, db) \<Rightarrow> (r, w1\<lparr>bw_db := db\<rparr>))))"

text \<open>
  The upload: the chunks of the stream go to a staged file, which is published and then recorded. The staged file
  is discarded when the size limit, the size or the digest check fails.
\<close>

definition receive_upload ::
  "service_env \<Rightarrow> string \<Rightarrow> bytes list \<Rightarrow> string \<Rightarrow> string \<Rightarrow> int \<Rightarrow> file_system \<Rightarrow> (build_error + string \<times> int) \<times> file_system" where
  "receive_upload env uuid chunks rel sha size_bytes fs =
     (let (staged_file, fs1) = stage_upload (sv_root env) uuid fs; content = concat chunks
      in if int (length content) > MAX_ARTIFACT_BYTES
         then (Inl (BuildValidationFailed ''artifact exceeds the 1 GiB cap''), discard_staged staged_file fs1)
         else case finalize (sv_sha256_of env) (sv_root env) staged_file rel sha size_bytes (dict_set staged_file content fs1) of
                (Inl e, fs2) \<Rightarrow> (Inl e, discard_staged staged_file fs2)
              | (Inr r, fs2) \<Rightarrow> (Inr r, fs2))"

definition provenance_of :: "build_row \<Rightarrow> job_row \<Rightarrow> pyval \<Rightarrow> pyval" where
  "provenance_of b j toolchain =
     (let opt = (\<lambda>x. case x of None \<Rightarrow> VNone | Some s \<Rightarrow> VStr s)
      in VDict [(''source_repo'', VStr (bd_source_repo b)), (''source_revision'', VStr (bd_source_revision b)),
                (''sdk_source_repo'', opt (bd_sdk_repo b)), (''sdk_source_revision'', opt (bd_sdk_revision b)),
                (''config_digest'', VStr (bd_digest b)), (''worker_id'', opt (jb_worker j)),
                (''toolchain'', py_or toolchain (VDict []))])"

definition upload_artifact ::
  "service_env \<Rightarrow> string \<Rightarrow> int \<Rightarrow> string \<Rightarrow> string \<Rightarrow> string \<Rightarrow> string \<Rightarrow> string \<Rightarrow> string \<Rightarrow> bytes list \<Rightarrow> string \<Rightarrow> int \<Rightarrow> pyval
     \<Rightarrow> build_world \<Rightarrow> artifact_row svc_result" where
  "upload_artifact env uuid now pid platform arch artifact token filename chunks sha size_bytes toolchain w =
     (case rbind (clean_artifact artifact) (\<lambda>cleaned.
            rbind (verify_job_token (sv_repo env) pid (target_of platform arch cleaned) token (bw_db w)) (\<lambda>(view, j).
              if jb_status j \<noteq> Running then Inl (BuildConflict ''artifacts are only accepted while running'')
              else rbind (artifact_rel_path (app_segment view) (bd_version (vw_build view)) (bd_number (vw_build view)) platform arch filename)
                (\<lambda>rel. Inr (view, j, rel)))) of
        Inl e \<Rightarrow> (Inl e, w)
      | Inr (view, j, rel) \<Rightarrow>
          (case receive_upload env uuid chunks rel sha size_bytes (bw_fs w) of
             (Inl e, fs) \<Rightarrow> (Inl e, w\<lparr>bw_fs := fs\<rparr>)
           | (Inr _, fs) \<Rightarrow>
               (case record_artifact now (jb_id j) filename rel (py_lower (py_strip sha)) size_bytes
                       (provenance_of (vw_build view) j toolchain) (bw_db w) of
                  (r, db) \<Rightarrow> (r, w\<lparr>bw_fs := fs, bw_db := db\<rparr>))))"

definition register_worker :: "service_env \<Rightarrow> string \<Rightarrow> string \<Rightarrow> int \<Rightarrow> string \<Rightarrow> build_world \<Rightarrow> (worker_row \<times> string) svc_result" where
  "register_worker env worker_id register_token now api_token w =
     (case exchange_register_token (sv_repo env) worker_id register_token now api_token (bw_db w) of
        (Inl e, db1) \<Rightarrow> (Inl e, w\<lparr>bw_db := db1\<rparr>)
      | (Inr tok, db1) \<Rightarrow>
          (case worker_by_id worker_id db1 of
             (Inl e, db2) \<Rightarrow> (Inl e, w\<lparr>bw_db := db2\<rparr>)
           | (Inr row, db2) \<Rightarrow> (Inr (row, tok), w\<lparr>bw_db := db2\<rparr>)))"

definition svc_heartbeat ::
  "service_env \<Rightarrow> (string \<Rightarrow> build_error + int) \<Rightarrow> string \<Rightarrow> string \<Rightarrow> int \<Rightarrow> build_world \<Rightarrow> (worker_row \<times> (string, int option) dict) svc_result" where
  "svc_heartbeat env depth worker_id token now w =
     (case verify_worker_token (sv_repo env) worker_id token (bw_db w) of
        (Inl e, db1) \<Rightarrow> (Inl e, w\<lparr>bw_db := db1\<rparr>)
      | (Inr _, db1) \<Rightarrow>
          (case heartbeat worker_id now db1 of
             (Inl e, db2) \<Rightarrow> (Inl e, w\<lparr>bw_db := db2\<rparr>)
           | (Inr row, db2) \<Rightarrow>
               (Inr (row, map (\<lambda>l. (''builder:'' @ l, case depth (''builder:'' @ l) of Inl _ \<Rightarrow> None | Inr n \<Rightarrow> Some n)) (wk_labels row)),
                w\<lparr>bw_db := db2\<rparr>)))"

end
