(* ===== verification/BuildServiceProps.thy ===== *)
theory BuildServiceProps
  imports BuildService
begin

text \<open>
  Properties of the build service: dispatch of a new build is all or nothing, and in every reachable state of the
  service each recorded artifact can be downloaded with its recorded size and digest.
\<close>

section \<open>Dispatch\<close>

text \<open>A build that nobody has touched yet.\<close>

definition untouched :: "string \<Rightarrow> build_target list \<Rightarrow> build_db \<Rightarrow> bool" where
  "untouched pid ts db \<longleftrightarrow> db_ok db \<and>
     (\<exists>b. build_by_public_id db pid = Inr b \<and> bd_status b = Queued \<and> map jb_target (jobs_of db (bd_id b)) = ts \<and>
        list_all (\<lambda>j. jb_status j = Queued) (jobs_of db (bd_id b)))"

lemma untouched_ref:
  assumes "untouched pid ts db" "t \<in> set ts"
  shows "\<exists>b j. job_by_ref db pid t = Inr (b, j) \<and> build_by_public_id db pid = Inr b \<and> jb_status j = Queued"
proof -
  obtain b where b: "db_ok db" "build_by_public_id db pid = Inr b" "map jb_target (jobs_of db (bd_id b)) = ts"
      "list_all (\<lambda>j. jb_status j = Queued) (jobs_of db (bd_id b))" using assms(1) by (auto simp: untouched_def)
  then obtain j where j: "j \<in> set (jobs_of db (bd_id b))" "jb_target j = t" using assms(2) by auto
  then have "j \<in> set (jobs db)" "jb_build j = bd_id b" by (auto simp: jobs_of_def)
  with job_by_ref_row [OF b(1) _ this] build_by_public_id_set [OF b(2)] b j show ?thesis by (auto simp: list_all_iff)
qed

lemma untouched_put_job:
  assumes u: "untouched pid ts db" and ref: "job_by_ref db pid t = Inr (b, j)"
    and j': "jb_id j' = jb_id j" "job_key j' = job_key j" "jb_status j' = Queued" "job_ok j'" and q: "jb_status j = Queued"
  shows "untouched pid ts (put_job j' db)"
proof -
  note r = job_by_ref_set [OF ref]
  obtain b0 where b0: "db_ok db" "build_by_public_id db pid = Inr b0" "bd_status b0 = Queued"
      "map jb_target (jobs_of db (bd_id b0)) = ts" "list_all (\<lambda>j. jb_status j = Queued) (jobs_of db (bd_id b0))"
    using u by (auto simp: untouched_def)
  have js: "jobs_of (put_job j' db) i = map (\<lambda>x. if x = j then j' else x) (jobs_of db i)" for i
    using r j' by (intro put_job_jobs_of [OF b0(1), of j b]) auto
  have "db_ok (put_job j' db)" using r j' q by (intro db_ok_job_only [OF b0(1), of j]) auto
  moreover have "build_by_public_id (put_job j' db) pid = Inr b0" using b0(2) by (simp add: build_by_public_id_def put_job_def)
  moreover have "jb_target j' = jb_target j" using j'(2) by (simp add: job_key_def)
  then have "map jb_target (jobs_of (put_job j' db) (bd_id b0)) = ts"
    unfolding b0(4) [symmetric] js by (auto simp: comp_def)
  moreover have "list_all (\<lambda>j. jb_status j = Queued) (jobs_of (put_job j' db) (bd_id b0))"
    using b0(5) j'(3) unfolding js by (auto simp: list_all_iff)
  ultimately show ?thesis using b0(3) by (auto simp: untouched_def)
qed

text \<open>A write of one job row and what the references find afterwards.\<close>

lemma put_job_ref:
  assumes ok: "db_ok db" "db_ok (put_job j' db)" and ref: "job_by_ref db pid t = Inr (b, j)"
    and j': "jb_id j' = jb_id j" "job_key j' = job_key j"
  shows "job_by_ref (put_job j' db) pid t = Inr (b, j')"
    and "t2 \<noteq> t \<Longrightarrow> job_by_ref db pid t2 = Inr (b2, j2) \<Longrightarrow> job_by_ref (put_job j' db) pid t2 = Inr (b2, j2)"
proof -
  note r = job_by_ref_set [OF ref]
  have k: "jb_build j' = jb_build j" "jb_target j' = jb_target j" using j'(2) by (simp_all add: job_key_def)
  have m: "j' \<in> set (jobs (put_job j' db))" "b \<in> set (builds (put_job j' db))" using r j'(1) by (force simp: put_job_def)+
  show "job_by_ref (put_job j' db) pid t = Inr (b, j')" using job_by_ref_row [OF ok(2) m(2,1)] r k by simp
  assume t2: "t2 \<noteq> t" "job_by_ref db pid t2 = Inr (b2, j2)"
  note r2 = job_by_ref_set [OF t2(2)]
  have "jb_id j2 \<noteq> jb_id j" using distinct_map_eq [OF db_okD(1) [OF ok(1)], of j2 j] r r2 t2(1) by auto
  then have "j2 \<in> set (jobs (put_job j' db))" "b2 \<in> set (builds (put_job j' db))"
    using r2 j'(1) by (force simp: put_job_def)+
  from job_by_ref_row [OF ok(2) this(2,1)] r2 show "job_by_ref (put_job j' db) pid t2 = Inr (b2, j2)" by simp
qed

definition has_token :: "build_env \<Rightarrow> build_db \<Rightarrow> string \<Rightarrow> build_target \<Rightarrow> string \<Rightarrow> bool" where
  "has_token env db pid t token \<longleftrightarrow> (\<exists>b j. job_by_ref db pid t = Inr (b, j) \<and>
     jb_token_valid j \<and> jb_token_hash j = Some (token_hash env token))"

definition job_sent :: "build_env \<Rightarrow> build_db \<Rightarrow> string \<Rightarrow> build_target \<Rightarrow> string \<Rightarrow> string \<Rightarrow> bool" where
  "job_sent env db pid t job_id token \<longleftrightarrow> (\<exists>b j. job_by_ref db pid t = Inr (b, j) \<and> jb_queue_job j = Some job_id \<and>
     jb_token_valid j \<and> jb_token_hash j = Some (token_hash env token))"

lemma issue_token_untouched:
  assumes "untouched pid ts db" "t \<in> set ts"
  shows "\<exists>db'. issue_job_token env pid t token db = (Inr token, db') \<and> untouched pid ts db' \<and> has_token env db' pid t token \<and>
    (\<forall>t2 i tok. t2 \<noteq> t \<longrightarrow> job_sent env db pid t2 i tok \<longrightarrow> job_sent env db' pid t2 i tok)"
proof -
  obtain b j where r: "job_by_ref db pid t = Inr (b, j)" "jb_status j = Queued" using untouched_ref [OF assms] by blast
  let ?j = "j\<lparr>jb_token_hash := Some (token_hash env token), jb_token_valid := True\<rparr>"
  have "job_ok j" using assms(1) job_by_ref_set [OF r(1)] by (auto simp: untouched_def intro: db_okD(4))
  then have u: "untouched pid ts (put_job ?j db)"
    using r by (intro untouched_put_job [OF assms(1) r(1)]) (auto simp: job_key_def job_ok_def)
  have ok: "db_ok db" "db_ok (put_job ?j db)" using assms(1) u by (simp_all add: untouched_def)
  have k: "jb_id ?j = jb_id j" "job_key ?j = job_key j" by (simp_all add: job_key_def)
  note p = put_job_ref [OF ok r(1) k]
  have "has_token env (put_job ?j db) pid t token" using p(1) by (simp add: has_token_def)
  moreover have "job_sent env (put_job ?j db) pid t2 i tok" if "t2 \<noteq> t" "job_sent env db pid t2 i tok" for t2 i tok
    using that p(2) unfolding job_sent_def by blast
  ultimately show ?thesis using r u by (simp add: issue_job_token_def)
qed

lemma attach_untouched:
  assumes "untouched pid ts db" "t \<in> set ts" "has_token env db pid t token"
  shows "\<exists>db'. attach_queue_job pid t q db = (Inr (), db') \<and> untouched pid ts db' \<and> job_sent env db' pid t q token \<and>
    (\<forall>t2 i tok. t2 \<noteq> t \<longrightarrow> job_sent env db pid t2 i tok \<longrightarrow> job_sent env db' pid t2 i tok)"
proof -
  obtain b j where r: "job_by_ref db pid t = Inr (b, j)" "jb_status j = Queued" using untouched_ref [OF assms(1,2)] by blast
  let ?j = "j\<lparr>jb_queue_job := Some q\<rparr>"
  have "job_ok j" using assms(1) job_by_ref_set [OF r(1)] by (auto simp: untouched_def intro: db_okD(4))
  then have u: "untouched pid ts (put_job ?j db)"
    using r by (intro untouched_put_job [OF assms(1) r(1)]) (auto simp: job_key_def job_ok_def)
  have ok: "db_ok db" "db_ok (put_job ?j db)" using assms(1) u by (simp_all add: untouched_def)
  have k: "jb_id ?j = jb_id j" "job_key ?j = job_key j" by (simp_all add: job_key_def)
  note p = put_job_ref [OF ok r(1) k]
  have "job_sent env (put_job ?j db) pid t q token" using p(1) assms(3) r(1) by (simp add: has_token_def job_sent_def)
  moreover have "job_sent env (put_job ?j db) pid t2 i tok" if "t2 \<noteq> t" "job_sent env db pid t2 i tok" for t2 i tok
    using that p(2) unfolding job_sent_def by blast
  ultimately show ?thesis using r u by (simp add: attach_queue_job_def)
qed

text \<open>
  What the loop does: it enqueues a prefix of the targets, each on the queue of its platform and with its own token,
  and fails only with the queue.
\<close>

definition queue_of :: "build_target \<Rightarrow> string" where
  "queue_of t = (case dict_get QUEUE_FOR_PLATFORM (t_platform t) of None \<Rightarrow> [] | Some q \<Rightarrow> q)"

definition enqueues :: "(nat \<Rightarrow> string) \<Rightarrow> string \<Rightarrow> nat \<Rightarrow> build_target list \<Rightarrow> string list \<Rightarrow> queue_call list" where
  "enqueues tokens pid i ts ids = map (\<lambda>k. Enqueued (queue_of (ts ! k)) (ids ! k) pid (ts ! k) (tokens (i + k))) [0..<length ids]"

lemma enqueues_Cons:
  "enqueues tokens pid i (t # ts) (x # ids) = Enqueued (queue_of t) x pid t (tokens i) # enqueues tokens pid (Suc i) ts ids"
  by (simp add: enqueues_def upt_conv_Cons map_Suc_upt [symmetric] comp_def del: upt_Suc)

lemma all_less_Suc: "(\<forall>k < Suc n. P k) \<longleftrightarrow> P 0 \<and> (\<forall>k < n. P (Suc k))"
  using less_Suc_eq_0_disj by auto

lemma dispatch_spec:
  assumes "untouched pid ts (bw_db w)" "set us \<subseteq> set ts" "distinct us" "list_all legal_target us"
    and "dispatch env io tokens pid i us w = (err, disp, w')"
  shows "untouched pid ts (bw_db w') \<and> bw_fs w' = bw_fs w \<and> length disp \<le> length us \<and>
    bw_calls w' = bw_calls w @ enqueues tokens pid i us (map snd disp) \<and> map fst disp = map queue_of (take (length disp) us) \<and>
    (\<forall>k < length disp. qi_enqueue io (i + k) = Inr (map snd disp ! k) \<and>
       job_sent (sv_repo env) (bw_db w') pid (us ! k) (map snd disp ! k) (tokens (i + k))) \<and>
    (\<forall>t2 n tok. t2 \<notin> set us \<longrightarrow> job_sent (sv_repo env) (bw_db w) pid t2 n tok \<longrightarrow> job_sent (sv_repo env) (bw_db w') pid t2 n tok) \<and>
    (case err of
       None \<Rightarrow> length disp = length us
     | Some e \<Rightarrow> length disp < length us \<and> qi_enqueue io (i + length disp) = Inl e)"
  using assms
proof (induction us arbitrary: i w err disp w')
  case Nil
  then show ?case by (auto simp: enqueues_def)
next
  case (Cons t us)
  obtain q where q: "dict_get QUEUE_FOR_PLATFORM (t_platform t) = Some q" "queue_of t = q"
    using legal_target_queue [of t] Cons.prems(4) by (auto simp: queue_of_def)
  obtain db1 where db1: "issue_job_token (sv_repo env) pid t (tokens i) (bw_db w) = (Inr (tokens i), db1)" "untouched pid ts db1"
      "has_token (sv_repo env) db1 pid t (tokens i)"
      "\<forall>t2 n tok. t2 \<noteq> t \<longrightarrow> job_sent (sv_repo env) (bw_db w) pid t2 n tok \<longrightarrow> job_sent (sv_repo env) db1 pid t2 n tok"
    using issue_token_untouched [OF Cons.prems(1), of t "sv_repo env" "tokens i"] Cons.prems(2) by auto
  show ?case
  proof (cases "qi_enqueue io i")
    case (Inl e)
    then show ?thesis using Cons.prems(5) db1 by (auto simp: q enqueues_def)
  next
    case (Inr jid)
    let ?w1 = "w\<lparr>bw_db := db1, bw_calls := bw_calls w @ [Enqueued q jid pid t (tokens i)]\<rparr>"
    obtain db2 where db2: "attach_queue_job pid t jid db1 = (Inr (), db2)" "untouched pid ts db2"
        "job_sent (sv_repo env) db2 pid t jid (tokens i)"
        "\<forall>t2 n tok. t2 \<noteq> t \<longrightarrow> job_sent (sv_repo env) db1 pid t2 n tok \<longrightarrow> job_sent (sv_repo env) db2 pid t2 n tok"
      using attach_untouched [OF db1(2) _ db1(3), of jid] Cons.prems(2) by auto
    obtain err' disp' w2 where d: "dispatch env io tokens pid (Suc i) us (?w1\<lparr>bw_db := db2\<rparr>) = (err', disp', w2)"
      by (metis prod_cases3)
    have eqs: "err = err'" "disp = (q, jid) # disp'" "w' = w2" using Cons.prems(5) Inr db1 db2 d by (auto simp: q)
    have "untouched pid ts (bw_db (?w1\<lparr>bw_db := db2\<rparr>))" "set us \<subseteq> set ts" "distinct us" "list_all legal_target us"
      using db2(2) Cons.prems(2-4) by auto
    note ih = Cons.IH [OF this d]
    have "t \<notin> set us" using Cons.prems(3) by simp
    then have here: "job_sent (sv_repo env) (bw_db w2) pid t jid (tokens i)" using ih db2(3) by simp
    have older: "job_sent (sv_repo env) (bw_db w2) pid t2 n tok"
      if "t2 \<notin> set (t # us)" "job_sent (sv_repo env) (bw_db w) pid t2 n tok" for t2 n tok
      using ih db1(4) db2(4) that by simp
    show ?thesis
      unfolding eqs using ih here older Inr
      by (simp add: enqueues_Cons q(2) all_less_Suc split: option.splits)
  qed
qed

lemma insert_build_untouched:
  assumes ok: "db_ok db" and ne: "rq_targets rq \<noteq> []" and ins: "insert_build peak uuid now rq db = (Inr view, db1)"
  shows "untouched uuid (rq_targets rq) db1" "bd_public_id (vw_build view) = uuid"
proof -
  let ?i = "fresh_id (map bd_id (builds db))"
  let ?b = "new_build ?i (peak + 1) uuid now rq"
  have db1: "db1 = db\<lparr>builds := builds db @ [?b], jobs := insert_jobs ?i (rq_targets rq) (jobs db)\<rparr>"
    and nu: "\<not> list_ex (\<lambda>x. bd_public_id x = uuid) (builds db)" and view: "vw_build view = ?b"
    using ins by (auto simp: insert_build_def Let_def new_build_def build_dict_def list_ex_iff split: if_splits)
  show "bd_public_id (vw_build view) = uuid" by (simp add: view new_build_def)
  have ok1: "db_ok db1" using create_ok [OF ok ne, of peak uuid now] ins by (simp add: repo_ok_def)
  obtain new where new: "insert_jobs ?i (rq_targets rq) (jobs db) = jobs db @ new" "map jb_target new = rq_targets rq"
      "list_all (fresh_job ?i) new"
    using insert_jobs_spec [OF db_okD(1) [OF ok]] by blast
  have "jb_build j \<noteq> ?i" if "j \<in> set (jobs db)" for j
    using db_okD(7) [OF ok that] fresh_id_notin [of "map bd_id (builds db)"] by auto
  then have js: "jobs_of db1 ?i = new"
    using new(3) by (auto simp: jobs_of_def db1 new(1) filter_id_conv filter_empty_conv list_all_iff fresh_job_def)
  have "filter (\<lambda>x. bd_public_id x = uuid) (builds db) = []" using nu by (auto simp: list_ex_iff filter_empty_conv)
  then have "build_by_public_id db1 uuid = Inr ?b"
    by (simp add: build_by_public_id_def one_or_none_def db1 new_build_def)
  moreover have "bd_id ?b = ?i" "bd_status ?b = Queued" by (simp_all add: new_build_def)
  moreover have "list_all (\<lambda>j. jb_status j = Queued) new" using new(3) by (auto simp: list_all_iff fresh_job_def)
  ultimately show "untouched uuid (rq_targets rq) db1" using ok1 js new(2) by (auto simp: untouched_def)
qed

lemma build_row_found:
  assumes "db_ok db" "b \<in> set (builds db)"
  shows "build_by_public_id db (bd_public_id b) = Inr b"
proof -
  have "jobs_of db (bd_id b) \<noteq> []" using db_okD(5) [OF assms] by (simp add: build_ok_def)
  then have "hd (jobs_of db (bd_id b)) \<in> set (jobs_of db (bd_id b))" by (rule hd_in_set)
  then obtain j where "j \<in> set (jobs db)" "jb_build j = bd_id b" by (auto simp: jobs_of_def)
  from job_by_ref_row [OF assms this] show ?thesis
    by (auto simp: job_by_ref_def rbind_Inr_iff split: option.splits)
qed

definition failed_build :: "string \<Rightarrow> build_target list \<Rightarrow> build_db \<Rightarrow> bool" where
  "failed_build pid ts db \<longleftrightarrow> (\<exists>b. build_by_public_id db pid = Inr b \<and> bd_status b = Failed \<and>
     map jb_target (jobs_of db (bd_id b)) = ts \<and> list_all (\<lambda>j. jb_status j = Failed \<and> \<not> jb_token_valid j) (jobs_of db (bd_id b)))"

lemma untouched_fail:
  assumes "untouched pid ts db"
  shows "\<exists>view db'. fail_build now pid code message db = (Inr view, db') \<and> failed_build pid ts db'"
proof -
  obtain b where b: "db_ok db" "build_by_public_id db pid = Inr b" "bd_status b = Queued"
      "map jb_target (jobs_of db (bd_id b)) = ts" "list_all (\<lambda>j. jb_status j = Queued) (jobs_of db (bd_id b))"
    using assms by (auto simp: untouched_def)
  note bm = build_by_public_id_set [OF b(2)]
  define c where "c = take 64 (if code = [] then ''panel_error'' else code)"
  define m where "m = take 500 (redact_text message 2000)"
  define g where "g = close_job now Failed c (Some m)"
  define db1 where "db1 = close_open_jobs (bd_id b) g db"
  define b2 where "b2 = (aggregate_build now db1 b)\<lparr>bd_failure_code := Some c, bd_failure_message := Some m\<rparr>"
  define db2 where "db2 = put_build b2 db1"
  have nt: "bd_status b \<notin> TERMINAL" by (simp add: b(3))
  have run: "fail_build now pid code message db = (Inr (build_dict db2 b2), db2)"
    using b(2) nt by (simp add: fail_build_def Let_def c_def m_def g_def db1_def b2_def db2_def)
  have ok: "db_ok db2" using fail_ok [OF b(1), of now pid code message] by (simp add: run repo_ok_def)
  have ids: "bd_public_id b2 = pid" "bd_id b2 = bd_id b" using bm by (simp_all add: b2_def)
  have "b2 \<in> set (builds db2)" using bm by (force simp: db2_def put_build_def db1_def close_open_jobs_def ids)
  from build_row_found [OF ok this] have found: "build_by_public_id db2 pid = Inr b2" by (simp add: ids)
  have "jobs_of db2 (bd_id b) = map (\<lambda>j. if jb_build j = bd_id b \<and> open_job j then g j else j) (jobs_of db (bd_id b))"
    by (rule jobs_of_map [of _ _ _ b]) (simp_all add: db2_def db1_def g_def put_build_def close_open_jobs_def job_frame_def close_job_def job_key_def)
  also have "\<dots> = map g (jobs_of db (bd_id b))"
    using b(5) by (intro map_cong refl) (auto simp: jobs_of_def list_all_iff)
  finally have js: "jobs_of db2 (bd_id b) = map g (jobs_of db (bd_id b))" .
  have "bd_status b2 = Failed"
    using aggregate_after_failure(1) [OF b(1) _ nt] bm by (simp add: b2_def db1_def g_def)
  moreover have "map jb_target (map g xs) = map jb_target xs" "list_all (\<lambda>j. jb_status j = Failed \<and> \<not> jb_token_valid j) (map g xs)" for xs
    by (simp_all add: g_def close_job_def list_all_iff)
  ultimately have "failed_build pid ts db2"
    unfolding failed_build_def by (intro exI [of _ b2] conjI) (simp_all only: found ids js b(4))
  with run show ?thesis by blast
qed

text \<open>
  C32: Dispatching a new build is all or nothing, as long as no other transaction touches the new build meanwhile.
  When every enqueue succeeds, every target has been enqueued in order, on the queue of its platform and with
  the token issued for it, and the build is stored with all its jobs queued, each with the queue entry and the valid
  token it was sent with. When an enqueue fails, the targets before it have been enqueued in the same way, the
  cancellation of each of those entries has been requested, the request answers with a queue error, the build and all
  its jobs are failed, and no job token is usable.
\<close>
theorem create_build_all_or_nothing:
  assumes ok: "db_ok (bw_db w)" and valid: "validate_request env args (bw_db w) = Inr rq"
    and created: "create_build uuid now rq (bw_db w) = (Inr view, db1)"
    and run: "svc_create_build env io tokens uuid now args w = (r, w')"
  shows "\<exists>ids. (\<forall>k < length ids. qi_enqueue io k = Inr (ids ! k)) \<and>
    bw_calls w' = bw_calls w @
      map (\<lambda>k. Enqueued (queue_of (rq_targets rq ! k)) (ids ! k) uuid (rq_targets rq ! k) (tokens k)) [0..<length ids] @
      (if isl r then map (\<lambda>k. CancelRequested (queue_of (rq_targets rq ! k)) (ids ! k)) [0..<length ids] else []) \<and>
    (case r of
       Inr v \<Rightarrow> length ids = length (rq_targets rq) \<and> untouched uuid (rq_targets rq) (bw_db w') \<and>
         (\<forall>k < length ids. job_sent (sv_repo env) (bw_db w') uuid (rq_targets rq ! k) (ids ! k) (tokens k))
     | Inl e \<Rightarrow> length ids < length (rq_targets rq) \<and> isl (qi_enqueue io (length ids)) \<and>
         is_queue_error e \<and> failed_build uuid (rq_targets rq) (bw_db w'))"
proof -
  have ts: "list_all legal_target (rq_targets rq)" "rq_targets rq \<noteq> []"
    using valid validate_targets_legal by (auto simp: validate_request_def rbind_Inr_iff split: if_splits)
  have dist: "distinct (rq_targets rq)"
    using created by (auto simp: create_build_def insert_build_def Let_def split: if_splits)
  note u = insert_build_untouched [OF ok ts(2) created [unfolded create_build_def]]
  have run': "dispatch_build env io tokens now uuid (rq_targets rq) (w\<lparr>bw_db := db1\<rparr>) = (r, w')"
    using run by (simp add: svc_create_build_def valid created u(2))
  obtain err disp w1 where d: "dispatch env io tokens uuid 0 (rq_targets rq) (w\<lparr>bw_db := db1\<rparr>) = (err, disp, w1)"
    by (metis prod_cases3)
  have "untouched uuid (rq_targets rq) (bw_db (w\<lparr>bw_db := db1\<rparr>))" using u(1) by simp
  note spec = dispatch_spec [OF this subset_refl dist ts(1) d, unfolded enqueues_def add_0 length_map]
  show ?thesis
  proof (cases err)
    case None
    obtain b where "build_by_public_id (bw_db w1) uuid = Inr b" using spec by (auto simp: untouched_def)
    then obtain v where "w' = w1" "r = Inr v" using run' by (auto simp: dispatch_build_def d None get_build_def)
    then show ?thesis using spec None by (intro exI [of _ "map snd disp"]) simp
  next
    case (Some e)
    let ?reason = "if is_queue_error e then ''build queue unavailable'' else ''dispatch failed: '' @ error_text e"
    have "untouched uuid (rq_targets rq) (bw_db (withdraw disp w1))" using spec by (simp add: withdraw_def)
    from untouched_fail [OF this, of now "''panel_error''" ?reason] obtain v db3 where
      f: "fail_build now uuid ''panel_error'' ?reason (bw_db (withdraw disp w1)) = (Inr v, db3)" "failed_build uuid (rq_targets rq) db3" by blast
    then have r: "r = Inl (if is_queue_error e then e else BuildQueueUnavailable ?reason)" "w' = (withdraw disp w1)\<lparr>bw_db := db3\<rparr>"
      using run' by (auto simp: dispatch_build_def d Some Let_def)
    have fst_disp: "map fst disp = map queue_of (take (length disp) (rq_targets rq))" "length disp \<le> length (rq_targets rq)"
      using spec by blast+
    have "fst (disp ! k) = queue_of (rq_targets rq ! k)" if "k < length disp" for k
      using that fst_disp(2) arg_cong [OF fst_disp(1), of "\<lambda>xs. xs ! k"] by simp
    then have "map (\<lambda>(q, j). CancelRequested q j) disp =
        map (\<lambda>k. CancelRequested (queue_of (rq_targets rq ! k)) (map snd disp ! k)) [0..<length disp]"
      by (intro nth_equalityI) (auto simp: split_beta)
    then show ?thesis using spec f Some r by (intro exI [of _ "map snd disp"]) (auto simp: withdraw_def)
  qed
qed

definition ex_service_env :: service_env where
  "ex_service_env = \<lparr>sv_repo = ex_build_env,
     sv_config = \<lparr>canonical_json = (\<lambda>_. ''{}''), json_parse = (\<lambda>_. VDict []), sha256_hex = (\<lambda>_. ''d'')\<rparr>,
     sv_bracket_ok = (\<lambda>_. True), sv_sources = [''https://github.com/z/app.git''], sv_sdks = [''file:///srv/sdk''],
     sv_sha256_of = (\<lambda>_. ''ab''), sv_root = [''srv''], sv_encode = map (\<lambda>c. word_of_nat (of_char c)),
     sv_decode = map (\<lambda>b. char_of (unat b)), sv_seed = None\<rparr>"

definition ex_args :: create_args where
  "ex_args = \<lparr>ca_owner = 7, ca_application = ''a1'', ca_version = VStr ''1.0.0'', ca_source_repo = VStr ''https://GitHub.com/z/app'',
     ca_source_revision = VStr ''0123456789abcdef0123456789abcdef01234567'', ca_sdk_repo = VStr ''file:///srv/sdk'',
     ca_sdk_revision = VStr ''0123456789ABCDEF0123456789abcdef01234567'', ca_config = VDict [(''display_name'', VStr ''Z'')],
     ca_targets = VList [VDict [(''platform'', VStr ''android''), (''arch'', VStr ''x86_64'')], VDict [(''platform'', VStr ''ios''), (''arch'', VStr ''arm64'')]],
     ca_credentials = []\<rparr>"

definition ex_world :: build_world where
  "ex_world = \<lparr>bw_db = empty_db [\<lparr>ap_id = 1, ap_public_id = ''a1'', ap_owner = 7, ap_name = ''App'', ap_status = ''active'', ap_branding = VDict []\<rparr>],
     bw_fs = [], bw_calls = []\<rparr>"

text \<open>A queue that accepts the first job and refuses the second.\<close>

definition ex_queue :: queue_io where
  "ex_queue = \<lparr>qi_enqueue = (\<lambda>i. if i = 0 then Inr ''q0'' else Inl (BuildQueueUnavailable ''down'')), qi_cancel = (\<lambda>_ _. Inr True)\<rparr>"

theorem create_build_all_or_nothing_witness:
  "\<exists>r w' ts. svc_create_build ex_service_env ex_queue (\<lambda>_. ''tok'') ''u1'' 0 ex_args ex_world = (r, w') \<and> isl r \<and>
     length ts = 2 \<and> failed_build ''u1'' ts (bw_db w')"
proof -
  have ok: "db_ok (bw_db ex_world)" by (simp add: ex_world_def db_ok_empty)
  have "case validate_request ex_service_env ex_args (bw_db ex_world) of Inl _ \<Rightarrow> False | Inr rq \<Rightarrow> length (rq_targets rq) = 2 \<and>
      (case create_build ''u1'' 0 rq (bw_db ex_world) of (Inl _, _) \<Rightarrow> False | (Inr _, _) \<Rightarrow> True)" by code_simp
  then obtain rq view db1 where v: "validate_request ex_service_env ex_args (bw_db ex_world) = Inr rq"
      "create_build ''u1'' 0 rq (bw_db ex_world) = (Inr view, db1)" and two: "length (rq_targets rq) = 2"
    by (auto split: sum.splits prod.splits)
  obtain r w' where run: "svc_create_build ex_service_env ex_queue (\<lambda>_. ''tok'') ''u1'' 0 ex_args ex_world = (r, w')"
    by (rule prod.exhaust)
  have "isl (qi_enqueue ex_queue 1)" by (simp add: ex_queue_def)
  with two have "\<exists>k < length (rq_targets rq). isl (qi_enqueue ex_queue k)" by (intro exI [of _ 1]) simp
  with create_build_all_or_nothing [OF ok v run] have "isl r" "failed_build ''u1'' (rq_targets rq) (bw_db w')"
    by (cases r; auto)+
  with run two show ?thesis by blast
qed

section \<open>Artifacts and files\<close>

text \<open>
  The steps of the service. The last rule stands for the operations on workers and credentials and for the changes
  other requests make to the tables: whatever they do, they do not touch the artifact table.
\<close>

inductive svc_step :: "service_env \<Rightarrow> build_world \<Rightarrow> build_world \<Rightarrow> bool" for env where
  create: "svc_step env w (snd (svc_create_build env io tokens uuid now args w))"
| cancel: "svc_step env w (snd (svc_cancel_build io now pid w))"
| claim: "svc_step env w (snd (svc_claim_job env now pid platform arch artifact token wid wtoken w))"
| report: "svc_step env w (snd (report_status env now pid platform arch artifact token status code message final_log w))"
| upload: "svc_step env w (snd (upload_artifact env uuid now pid platform arch artifact token filename chunks sha sz toolchain w))"
| register: "svc_step env w (snd (register_worker env wid rtoken now api w))"
| beat: "svc_step env w (snd (svc_heartbeat env depth wid token now w))"
| admin: "artifacts db = artifacts (bw_db w) \<Longrightarrow> svc_step env w (w\<lparr>bw_db := db\<rparr>)"

definition backed :: "service_env \<Rightarrow> file_system \<Rightarrow> artifact_row \<Rightarrow> bool" where
  "backed env fs a \<longleftrightarrow> (\<exists>p content. resolve_in (sv_root env) (af_rel_path a) = Inr p \<and> \<not> staged (sv_root env) p \<and>
     dict_get fs p = Some content \<and> sv_sha256_of env content = af_sha256 a \<and> int (length content) = af_size a)"

definition world_ok :: "service_env \<Rightarrow> build_world \<Rightarrow> bool" where
  "world_ok env w \<longleftrightarrow> list_all (backed env (bw_fs w)) (artifacts (bw_db w))"

lemma world_ok_files:
  assumes "world_ok env w" "(store_step (sv_sha256_of env) (sv_root env))\<^sup>*\<^sup>* (bw_fs w) (bw_fs w')" "artifacts (bw_db w') = artifacts (bw_db w)"
  shows "world_ok env w'"
  using assms store_steps_keep [OF assms(2)] unfolding world_ok_def backed_def list_all_iff by (metis (no_types, lifting))

lemma issue_attach_artifacts:
  "issue_job_token e pid t token db = (r, db1) \<Longrightarrow> artifacts db1 = artifacts db"
  "attach_queue_job pid t q db = (r2, db1) \<Longrightarrow> artifacts db1 = artifacts db"
  by (auto simp: issue_job_token_def attach_queue_job_def put_job_def split: sum.splits if_splits)

lemma dispatch_artifacts:
  "dispatch env io tokens pid i ts w = (err, disp, w') \<Longrightarrow> artifacts (bw_db w') = artifacts (bw_db w) \<and> bw_fs w' = bw_fs w"
proof (induction ts arbitrary: i w err disp w')
  case (Cons t ts)
  from Cons.prems show ?case
    by (auto simp: Let_def split: option.splits sum.splits prod.splits dest!: issue_attach_artifacts Cons.IH)
qed simp

lemma fail_artifacts: "fail_build now pid code message db = (r, db1) \<Longrightarrow> artifacts db1 = artifacts db"
  by (auto simp: fail_build_def put_build_def close_open_jobs_def Let_def split: sum.splits if_splits)

lemma insert_artifacts: "create_build uuid now rq db = (r, db1) \<Longrightarrow> artifacts db1 = artifacts db"
  by (auto simp: create_build_def insert_build_def Let_def split: if_splits)

lemma create_frame:
  "artifacts (bw_db (snd (svc_create_build env io tokens uuid now args w))) = artifacts (bw_db w) \<and>
   bw_fs (snd (svc_create_build env io tokens uuid now args w)) = bw_fs w"
  by (auto simp: svc_create_build_def dispatch_build_def withdraw_def Let_def split: sum.splits prod.splits option.splits
      dest!: insert_artifacts fail_artifacts dispatch_artifacts)

lemma cancel_artifacts: "cancel_build now pid db = (r, db1) \<Longrightarrow> artifacts db1 = artifacts db"
  by (auto simp: cancel_build_def put_build_def close_open_jobs_def Let_def split: sum.splits if_splits)

lemma claim_artifacts: "claim_job e now pid t token wid db = (r, db1) \<Longrightarrow> artifacts db1 = artifacts db"
  by (auto simp: claim_job_def put_build_def put_job_def Let_def split: sum.splits if_splits)

lemma report_artifacts: "report_job e now pid t token ok code message ref db = (r, db1) \<Longrightarrow> artifacts db1 = artifacts db"
  by (auto simp: report_job_def put_build_def put_job_def Let_def split: sum.splits if_splits)

lemma worker_artifacts:
  "verify_worker_token e wid token db = (r, db1) \<Longrightarrow> artifacts db1 = artifacts db"
  "exchange_register_token e wid rt now api db = (r1, db1) \<Longrightarrow> artifacts db1 = artifacts db"
  "heartbeat wid now db = (r2, db1) \<Longrightarrow> artifacts db1 = artifacts db"
  "worker_by_id wid db = (r3, db1) \<Longrightarrow> artifacts db1 = artifacts db"
  using worker_ops_frame(3) [where db = db] worker_ops_frame(4) [where db = db] worker_ops_frame(5) [where db = db]
  by (auto simp: same_builds_def worker_by_id_frame') (metis snd_conv)+

lemma cancel_frame:
  "artifacts (bw_db (snd (svc_cancel_build io now pid w))) = artifacts (bw_db w) \<and> bw_fs (snd (svc_cancel_build io now pid w)) = bw_fs w"
  by (auto simp: svc_cancel_build_def withdraw_def split: sum.splits prod.splits dest!: cancel_artifacts)

lemma claim_frame:
  "artifacts (bw_db (snd (svc_claim_job env now pid platform arch artifact token wid wt w))) = artifacts (bw_db w) \<and>
   bw_fs (snd (svc_claim_job env now pid platform arch artifact token wid wt w)) = bw_fs w"
  by (auto simp: svc_claim_job_def split: sum.splits prod.splits dest!: claim_artifacts worker_artifacts(1))

lemma worker_frame:
  "artifacts (bw_db (snd (register_worker env wid rt now api w))) = artifacts (bw_db w) \<and> bw_fs (snd (register_worker env wid rt now api w)) = bw_fs w"
  "artifacts (bw_db (snd (svc_heartbeat env depth wid token now w))) = artifacts (bw_db w) \<and> bw_fs (snd (svc_heartbeat env depth wid token now w)) = bw_fs w"
  by (auto simp: register_worker_def svc_heartbeat_def split: sum.splits prod.splits dest!: worker_artifacts)

lemma store_log_frame:
  assumes "store_log env pid platform arch cleaned token final_log w = (r, w1)"
  shows "bw_db w1 = bw_db w" "(store_step (sv_sha256_of env) (sv_root env))\<^sup>*\<^sup>* (bw_fs w) (bw_fs w1)"
proof -
  have "bw_db w1 = bw_db w \<and> (bw_fs w1 = bw_fs w \<or> (\<exists>rel content. bw_fs w1 = snd (write_final_log (sv_root env) rel content (bw_fs w))))"
    using assms by (auto simp: store_log_def split: option.splits sum.splits prod.splits) (metis snd_conv)+
  moreover have "(store_step (sv_sha256_of env) (sv_root env))\<^sup>*\<^sup>* fs (snd (write_final_log (sv_root env) rel content fs))" for fs rel content
    by (rule r_into_rtranclp) (rule store_step.final_log)
  ultimately show "bw_db w1 = bw_db w" "(store_step (sv_sha256_of env) (sv_root env))\<^sup>*\<^sup>* (bw_fs w) (bw_fs w1)"
    by auto
qed

lemma report_frame:
  "artifacts (bw_db (snd (report_status env now pid platform arch artifact token status code message final_log w))) = artifacts (bw_db w) \<and>
   (store_step (sv_sha256_of env) (sv_root env))\<^sup>*\<^sup>* (bw_fs w) (bw_fs (snd (report_status env now pid platform arch artifact token status code message final_log w)))"
  by (auto simp: report_status_def split: sum.splits prod.splits dest!: report_artifacts dest: store_log_frame)

text \<open>The upload publishes the file before the row is recorded.\<close>

lemma receive_upload_spec:
  assumes "receive_upload env uuid chunks rel sha sz fs = (r, fs')"
  shows "(store_step (sv_sha256_of env) (sv_root env))\<^sup>*\<^sup>* fs fs' \<and>
    (\<forall>x. r = Inr x \<longrightarrow> (\<exists>p content. resolve_in (sv_root env) rel = Inr p \<and> dict_get fs' p = Some content \<and>
       sv_sha256_of env content = py_lower (py_strip sha) \<and> int (length content) = sz))"
proof -
  let ?S = "store_step (sv_sha256_of env) (sv_root env)" and ?st = "staging_path (sv_root env) uuid"
  let ?fs1 = "dict_set ?st [] fs" let ?fs2 = "dict_set ?st (concat chunks) ?fs1"
  have s1: "?S\<^sup>*\<^sup>* fs ?fs1" and s2: "?S\<^sup>*\<^sup>* fs ?fs2"
    using store_step.stage [of "sv_sha256_of env" "sv_root env"] by (meson rtranclp.rtrancl_into_rtrancl rtranclp.rtrancl_refl)+
  show ?thesis
  proof (cases "int (length (concat chunks)) > MAX_ARTIFACT_BYTES")
    case True
    with assms have "r = Inl (BuildValidationFailed ''artifact exceeds the 1 GiB cap'')" "fs' = discard_staged ?st ?fs1"
      by (simp_all add: receive_upload_def stage_upload_def)
    with s1 show ?thesis by (auto intro: rtranclp.rtrancl_into_rtrancl store_step.discard)
  next
    case False
    obtain r' fs3 where fin: "finalize (sv_sha256_of env) (sv_root env) ?st rel sha sz ?fs2 = (r', fs3)" by (rule prod.exhaust)
    have s3: "?S\<^sup>*\<^sup>* fs fs3"
      using s2 store_step.publish [of "sv_sha256_of env" "sv_root env" ?fs2 uuid rel sha sz] unfolding fin snd_conv
      by (rule rtranclp.rtrancl_into_rtrancl)
    show ?thesis
    proof (cases r')
      case (Inl e)
      with assms False fin have "r = Inl e" "fs' = discard_staged ?st fs3" by (auto simp: receive_upload_def stage_upload_def)
      with s3 show ?thesis by (auto intro: rtranclp.rtrancl_into_rtrancl store_step.discard)
    next
      case (Inr x)
      with assms False fin have "fs' = fs3" by (auto simp: receive_upload_def stage_upload_def)
      with s3 fin Inr show ?thesis by (auto simp: finalize_def split: option.splits if_splits sum.splits)
    qed
  qed
qed

lemma upload_ok:
  assumes ok: "world_ok env w"
  shows "world_ok env (snd (upload_artifact env uuid now pid platform arch artifact token filename chunks sha sz toolchain w))"
proof -
  let ?up = "upload_artifact env uuid now pid platform arch artifact token filename chunks sha sz toolchain w"
  let ?pre = "rbind (clean_artifact artifact) (\<lambda>cleaned.
      rbind (verify_job_token (sv_repo env) pid (target_of platform arch cleaned) token (bw_db w)) (\<lambda>(view, j).
        if jb_status j \<noteq> Running then Inl (BuildConflict ''artifacts are only accepted while running'')
        else rbind (artifact_rel_path (app_segment view) (bd_version (vw_build view)) (bd_number (vw_build view)) platform arch filename)
          (\<lambda>rel. Inr (view, j, rel))))"
  show ?thesis
  proof (cases ?pre)
    case (Inl e)
    then show ?thesis using ok by (simp add: upload_artifact_def)
  next
    case (Inr x)
    obtain view j rel where x: "x = (view, j, rel)" by (rule prod_cases3)
    have rel: "artifact_rel_path (app_segment view) (bd_version (vw_build view)) (bd_number (vw_build view)) platform arch filename = Inr rel"
      using Inr by (auto simp: x rbind_Inr_iff split: if_splits)
    obtain r fs where up: "receive_upload env uuid chunks rel sha sz (bw_fs w) = (r, fs)" by (rule prod.exhaust)
    note spec = receive_upload_spec [OF up]
    have keep: "world_ok env (w\<lparr>bw_fs := fs\<rparr>)" using spec by (intro world_ok_files [OF ok]) simp_all
    show ?thesis
    proof (cases r)
      case (Inl e)
      with keep show ?thesis using \<open>?pre = Inr x\<close> by (simp add: upload_artifact_def x up)
    next
      case (Inr y)
      obtain r2 db where rec: "record_artifact now (jb_id j) filename rel (py_lower (py_strip sha)) sz (provenance_of (vw_build view) j toolchain) (bw_db w) = (r2, db)"
        by (rule prod.exhaust)
      have w': "snd ?up = w\<lparr>bw_fs := fs, bw_db := db\<rparr>" using \<open>?pre = Inr x\<close> Inr by (simp add: upload_artifact_def x up rec)
      have "artifacts db = artifacts (bw_db w) \<or>
          (\<exists>a. artifacts db = artifacts (bw_db w) @ [a] \<and> af_rel_path a = rel \<and> af_sha256 a = py_lower (py_strip sha) \<and> af_size a = sz)"
        using rec by (auto simp: record_artifact_def Let_def split: option.splits if_splits)
      moreover have "backed env fs a" if "af_rel_path a = rel" "af_sha256 a = py_lower (py_strip sha)" "af_size a = sz" for a
      proof -
        have "\<not> staged (sv_root env) p" if "resolve_in (sv_root env) rel = Inr p" for p
          using that artifact_path_resolves [OF rel, of "sv_root env"] by (auto simp: staged_def staging_path_def)
        then show ?thesis using spec Inr that by (auto simp: backed_def)
      qed
      ultimately show ?thesis using keep unfolding w' by (auto simp: world_ok_def)
    qed
  qed
qed

lemma svc_step_ok: "svc_step env w w' \<Longrightarrow> world_ok env w \<Longrightarrow> world_ok env w'"
proof (induction rule: svc_step.induct)
  case upload
  then show ?case by (rule upload_ok)
next
  case report
  then show ?case by (rule world_ok_files [OF _ conjunct2 [OF report_frame] conjunct1 [OF report_frame]])
next
  case (admin db w)
  then show ?case by (simp add: world_ok_def)
qed (simp_all add: world_ok_def create_frame cancel_frame claim_frame worker_frame)

lemma svc_steps_ok: "(svc_step env)\<^sup>*\<^sup>* w w' \<Longrightarrow> world_ok env w \<Longrightarrow> world_ok env w'"
  by (induction rule: rtranclp_induct) (auto intro: svc_step_ok)

text \<open>
  In every reachable state of the build service each recorded artifact of a build can be downloaded: its path
  resolves inside the store to a file whose size and digest are the recorded ones.
\<close>
lemma recorded_artifacts_are_downloadable:
  assumes "(svc_step env)\<^sup>*\<^sup>* w0 w" "artifacts (bw_db w0) = []" "get_build (bw_db w) pid = Inr view" "a \<in> set (vw_artifacts view)"
  shows "\<exists>p a' content. download_artifact env pid (t_platform (af_target a)) (t_arch (af_target a)) (af_filename a) w = Inr (p, a') \<and>
    af_filename a' = af_filename a \<and> dict_get (bw_fs w) p = Some content \<and> sv_sha256_of env content = af_sha256 a' \<and> int (length content) = af_size a'"
proof -
  have "world_ok env w" using svc_steps_ok [OF assms(1)] assms(2) by (simp add: world_ok_def)
  let ?P = "\<lambda>x. t_platform (af_target x) = t_platform (af_target a) \<and> t_arch (af_target x) = t_arch (af_target a) \<and> af_filename x = af_filename a"
  have "filter ?P (vw_artifacts view) \<noteq> []" using assms(4) by (auto simp: filter_empty_conv)
  then obtain a' where a': "one_or_none ?P (vw_artifacts view) = Some a'"
    by (cases "filter ?P (vw_artifacts view)") (auto simp: one_or_none_def)
  note m = one_or_none_Some [OF a']
  have "a' \<in> set (artifacts (bw_db w))"
    using m assms(3) by (auto simp: get_build_def rbind_Inr_iff build_dict_def artifacts_of_def)
  then have "backed env (bw_fs w) a'" using \<open>world_ok env w\<close> by (simp add: world_ok_def list_all_iff)
  then obtain p content where "resolve_in (sv_root env) (af_rel_path a') = Inr p" "dict_get (bw_fs w) p = Some content"
      "sv_sha256_of env content = af_sha256 a'" "int (length content) = af_size a'" by (auto simp: backed_def)
  moreover from this have "download_artifact env pid (t_platform (af_target a)) (t_arch (af_target a)) (af_filename a) w = Inr (p, a')"
    using assms(3) a' by (simp add: download_artifact_def open_for_download_def is_file_def dict_in_def)
  ultimately show ?thesis using m by blast
qed

definition ex_claimed :: build_world where
  "ex_claimed = \<lparr>bw_db = snd (claim_job ex_build_env 8 ''b1'' ex_target ''tok'' ''w1'' (snd (issue_job_token ex_build_env ''b1'' ex_target ''tok'' ex_db1))),
     bw_fs = [], bw_calls = []\<rparr>"

definition ex_uploaded :: build_world where
  "ex_uploaded = snd (upload_artifact ex_service_env ''u9'' 9 ''b1'' ''android'' ''x86_64'' ''apk'' ''tok'' ''app.apk'' [[1, 2], [3]] ''AB'' 3 VNone ex_claimed)"

lemma recorded_artifacts_are_downloadable_example:
  "\<exists>p a content. download_artifact ex_service_env ''b1'' ''android'' ''x86_64'' ''app.apk'' ex_uploaded = Inr (p, a) \<and>
     dict_get (bw_fs ex_uploaded) p = Some content \<and> int (length content) = af_size a"
proof -
  have step: "(svc_step ex_service_env)\<^sup>*\<^sup>* ex_claimed ex_uploaded"
    unfolding ex_uploaded_def by (rule r_into_rtranclp) (rule svc_step.upload)
  have empty: "artifacts (bw_db ex_claimed) = []" by code_simp
  have "case get_build (bw_db ex_uploaded) ''b1'' of Inl _ \<Rightarrow> False
      | Inr v \<Rightarrow> map (\<lambda>a. (t_platform (af_target a), t_arch (af_target a), af_filename a)) (vw_artifacts v) = [(''android'', ''x86_64'', ''app.apk'')]"
    by code_simp
  then obtain v a where v: "get_build (bw_db ex_uploaded) ''b1'' = Inr v" "a \<in> set (vw_artifacts v)"
      "t_platform (af_target a) = ''android''" "t_arch (af_target a) = ''x86_64''" "af_filename a = ''app.apk''"
    by (auto split: sum.splits)
  from recorded_artifacts_are_downloadable [OF step empty v(1,2)] show ?thesis unfolding v(3-5) by blast
qed

end
