(* ===== verification/AppDb.thy ===== *)
theory AppDb
  imports SqlTable "HOL-Library.Product_Lexorder"
begin

text \<open>
  The tables of the Application API (\<open>app/persistence/models.py\<close>) and what every operation on them shares: the
  errors of \<open>app/applicationapi/errors.py\<close>, the contexts of \<open>app/applicationapi/repository.py\<close>, the audit log, the
  hashes of identifiers and the device policy of \<open>app/persistence/device_authority.py\<close>. Times are microseconds in
  UTC; a status column keeps the text the source stores. SHA-256, HMAC, Ed25519, X25519 key generation, JSON text,
  the parsing of IP addresses and the credential ciphers are the fields of \<open>app_env\<close>.
\<close>

section \<open>Errors\<close>

datatype app_error =
    ApplicationAuthFailed | ApplicationForbidden | EnrollmentRequired | ActivationTicketInvalid | ActivationTicketExpired
  | ReplayRejected | ApplicationRateLimited | DeviceLimitReached | ConfigGrantExpired | ConfigGrantConsumed
  | ConfigGrantInvalid | ConnectionRequired | ConnectionNotFound | ConnectionFailed | ProtocolUnavailable
  | DeviceNotFound | ApplicationNotFound | ApplicationGrantNotFound | ApplicationKeyNotFound
  | IntegrityError | NoResultFound | AppRaised py_error

section \<open>Rows\<close>

record app_row =
  ap_id :: int
  ap_public_id :: string
  ap_owner :: int
  ap_name :: string
  ap_status :: string
  ap_api_base :: string
  ap_lang :: string
  ap_mode :: string
  ap_branding :: "(string, pyval) dict"
  ap_signing_kid :: "string option"
  ap_config_kid :: "string option"
  ap_revoked :: "int option"
  ap_reason :: "string option"

record key_row =
  ky_id :: int
  ky_app :: int
  ky_kid :: string
  ky_purpose :: string
  ky_algorithm :: string
  ky_public :: string
  ky_private :: string
  ky_status :: string
  ky_not_before :: "int option"
  ky_not_after :: "int option"
  ky_revoked :: "int option"
  ky_reason :: "string option"

record user_row =
  us_id :: int
  us_status :: string
  us_data_limit :: "int option"
  us_expire :: "int option"
  us_device_limit :: "int option"
  us_access_mode :: "string option"
  us_client_mode :: "string option"
  us_app_username :: "string option"
  us_password_hash :: "string option"
  us_online :: "int option"

record grant_row =
  gr_id :: int
  gr_app :: int
  gr_user :: int
  gr_status :: string
  gr_revoked :: "int option"
  gr_reason :: "string option"

record ticket_row =
  tk_app :: int
  tk_key :: int
  tk_user :: "int option"
  tk_grant :: "int option"
  tk_hash :: string
  tk_jti :: string
  tk_intended :: "string option"
  tk_issued :: int
  tk_expires :: int
  tk_consumed :: "int option"
  tk_revoked :: "int option"
  tk_reason :: "string option"

record config_row =
  cg_public_id :: string
  cg_app :: int
  cg_user :: int
  cg_device :: int
  cg_key :: int
  cg_family :: string
  cg_core :: string
  cg_protocol :: "string option"
  cg_source :: "string option"
  cg_inbound :: "string option"
  cg_connection :: "string option"
  cg_issued :: int
  cg_expires :: int
  cg_consumed :: "int option"
  cg_revoked :: "int option"
  cg_reason :: "string option"

record conn_row =
  cn_id :: int
  cn_public_id :: string
  cn_app :: int
  cn_user :: int
  cn_device :: int
  cn_key :: int
  cn_family :: string
  cn_core :: string
  cn_protocol :: string
  cn_node :: "int option"
  cn_target :: string
  cn_active_key :: "string option"
  cn_status :: string
  cn_observed :: string
  cn_teardown :: string
  cn_requested :: int
  cn_activated :: "int option"
  cn_renewed :: "int option"
  cn_not_after :: int
  cn_updated :: int
  cn_observed_at :: "int option"
  cn_stopped :: "int option"
  cn_stop_reason :: "string option"
  cn_error :: "string option"

record lease_row =
  ls_public_id :: string
  ls_conn :: int
  ls_app :: int
  ls_user :: int
  ls_device :: int
  ls_core :: string
  ls_protocol :: string
  ls_node :: "int option"
  ls_target :: string
  ls_account :: string
  ls_credentials :: "string option"
  ls_status :: string
  ls_issued :: int
  ls_renewed :: "int option"
  ls_not_after :: int
  ls_applied :: "int option"
  ls_revoke_requested :: "int option"
  ls_revoked :: "int option"
  ls_removed :: "int option"
  ls_reason :: "string option"
  ls_error :: "string option"

record nonce_row =
  nn_app :: int
  nn_device :: "int option"
  nn_key :: int
  nn_hash :: string
  nn_timestamp :: int
  nn_expires :: int

record throttle_row =
  th_app :: int
  th_kind :: string
  th_hash :: string
  th_count :: int
  th_window :: int
  th_blocked :: "int option"
  th_updated :: int

record device_row =
  dv_id :: int
  dv_user :: int
  dv_app :: "int option"
  dv_hash :: string
  dv_hint :: string
  dv_public :: "string option"
  dv_fingerprint :: "string option"
  dv_key_id :: "string option"
  dv_status :: "string option"
  dv_name :: "string option"
  dv_platform :: "string option"
  dv_version :: "string option"
  dv_first :: int
  dv_last :: int
  dv_auth :: "int option"
  dv_revoked :: "int option"
  dv_reason :: "string option"
  dv_agent :: "string option"
  dv_ip :: "string option"

record token_row =
  rt_hash :: string
  rt_user :: int
  rt_app :: "int option"
  rt_device :: "int option"
  rt_key :: "int option"
  rt_family :: "string option"
  rt_parent :: "string option"
  rt_expires :: int
  rt_revoked :: bool
  rt_rotated :: "string option"
  rt_created :: int
  rt_used :: "int option"
  rt_revoked_at :: "int option"
  rt_reason :: "string option"
  rt_agent :: "string option"

record audit_row =
  au_actor :: string
  au_action :: string
  au_target :: string
  au_detail :: "(string, pyval) dict"

record app_db =
  apps :: "app_row list"
  keys :: "key_row list"
  users :: "user_row list"
  admins :: "int list"
  grants :: "grant_row list"
  tickets :: "ticket_row list"
  configs :: "config_row list"
  conns :: "conn_row list"
  leases :: "lease_row list"
  nonces :: "nonce_row list"
  throttles :: "throttle_row list"
  devices :: "device_row list"
  tokens :: "token_row list"
  usage :: "(int, int \<times> int) dict"
  portal :: "pyval option"
  audits :: "audit_row list"

record app_env =
  sha256 :: "bytes \<Rightarrow> bytes"
  hmac :: "bytes \<Rightarrow> bytes \<Rightarrow> bytes"
  identifier_key :: bytes
  ip_text :: "string \<Rightarrow> string option"
  json_dumps :: "pyval \<Rightarrow> bytes"
  json_loads :: "bytes \<Rightarrow> pyval option"
  ed_public :: "bytes \<Rightarrow> bytes"
  ed_sign :: "bytes \<Rightarrow> bytes \<Rightarrow> bytes"
  ed_verify :: "bytes \<Rightarrow> bytes \<Rightarrow> bytes \<Rightarrow> bool"
  x_public :: "bytes \<Rightarrow> bytes"
  key_seal :: "bytes \<Rightarrow> pyval \<Rightarrow> string \<Rightarrow> string"
  key_open :: "string \<Rightarrow> string \<Rightarrow> app_error + (string, pyval) dict"
  lease_seal :: "bytes \<Rightarrow> pyval \<Rightarrow> string \<Rightarrow> string"
  lease_open :: "string \<Rightarrow> string \<Rightarrow> app_error + (string, pyval) dict"

type_synonym 'a app_result = "(app_error + 'a) \<times> app_db"

section \<open>Text and time\<close>

definition secs :: "int \<Rightarrow> int" where
  "secs s = s * 1000000"

text \<open>\<open>int(now.timestamp())\<close> for times after 1970.\<close>

definition timestamp :: "int \<Rightarrow> int" where
  "timestamp now = now div 1000000"

text \<open>\<open>(text or "")[:n] or None\<close>\<close>

definition cut :: "nat \<Rightarrow> string option \<Rightarrow> string option" where
  "cut n text = (let s = take n (case text of None \<Rightarrow> [] | Some s \<Rightarrow> s) in if s = [] then None else Some s)"

definition cut_strip :: "nat \<Rightarrow> string option \<Rightarrow> string option" where
  "cut_strip n text = cut n (map_option py_strip text)"

definition or_text :: "string option \<Rightarrow> string \<Rightarrow> string" where
  "or_text x d = (case x of None \<Rightarrow> d | Some s \<Rightarrow> if s = [] then d else s)"

definition app_token_hash :: "app_env \<Rightarrow> string \<Rightarrow> string" where
  "app_token_hash env value = hexdigest (sha256 env (utf8 value))"

definition identifier_hash :: "app_env \<Rightarrow> string \<Rightarrow> string \<Rightarrow> string" where
  "identifier_hash env kind value =
     (let normalized = (if kind = ''username'' then py_lower (py_strip value) else py_strip value)
      in hexdigest (hmac env (identifier_key env) (utf8 (kind @ [CHR 0x00] @ normalized))))"

definition safe_source_ip :: "app_env \<Rightarrow> string option \<Rightarrow> string" where
  "safe_source_ip env value = (case ip_text env (or_text value []) of None \<Rightarrow> ''unknown'' | Some s \<Rightarrow> s)"

definition b64url_decode :: "string \<Rightarrow> nat option \<Rightarrow> app_error + bytes" where
  "b64url_decode value expected =
     (if value = [] \<or> \<not> list_all (\<lambda>c. c \<in> set b64_alphabet) value then Inl (AppRaised ValueError)
      else case b64d value of
        None \<Rightarrow> Inl (AppRaised ValueError)
      | Some bs \<Rightarrow> (case expected of None \<Rightarrow> Inr bs | Some n \<Rightarrow> if length bs = n then Inr bs else Inl (AppRaised ValueError)))"

section \<open>Audit\<close>

definition opt_int :: "int option \<Rightarrow> pyval" where
  "opt_int x = (case x of None \<Rightarrow> VNone | Some i \<Rightarrow> VInt i)"

definition opt_str :: "string option \<Rightarrow> pyval" where
  "opt_str x = (case x of None \<Rightarrow> VNone | Some s \<Rightarrow> VStr s)"

record audit_args =
  ar_app :: "int option"
  ar_user :: "int option"
  ar_device :: "int option"
  ar_ip_hash :: "string option"
  ar_result :: string
  ar_reason :: "string option"
  ar_extra :: "(string, pyval) dict"
  ar_actor :: string

definition no_audit :: audit_args where
  "no_audit = \<lparr>ar_app = None, ar_user = None, ar_device = None, ar_ip_hash = None, ar_result = ''ok'', ar_reason = None,
     ar_extra = [], ar_actor = ''application-api''\<rparr>"

definition safe_extra :: "(string, pyval) dict \<Rightarrow> (string, pyval) dict" where
  "safe_extra extra =
     concat (map (\<lambda>k. case vget extra k of
                    VStr s \<Rightarrow> [(k, VStr (take 64 s))] | VInt i \<Rightarrow> [(k, VInt i)] | VBool b \<Rightarrow> [(k, VBool b)] | _ \<Rightarrow> [])
               [''count'', ''core_id'', ''from'', ''to''])"

definition audit_entry :: "string \<Rightarrow> audit_args \<Rightarrow> audit_row" where
  "audit_entry action args =
     (let detail =
        [(''application_id'', opt_int (ar_app args)), (''user_id'', opt_int (ar_user args)),
         (''device_id'', opt_int (ar_device args)), (''source_ip_hash'', opt_str (ar_ip_hash args)),
         (''result'', VStr (ar_result args))] @
        (case ar_reason args of None \<Rightarrow> [] | Some r \<Rightarrow> if r = [] then [] else [(''reason'', VStr (take 64 r))])
      in \<lparr>au_actor = take 64 (ar_actor args), au_action = take 64 action,
          au_target = (case ar_app args of
                         None \<Rightarrow> ''application:unknown''
                       | Some i \<Rightarrow> if i = 0 then ''application:unknown'' else ''application:'' @ int_to_str i),
          au_detail = filter (\<lambda>(k, v). v \<noteq> VNone) (dict_update detail (safe_extra (ar_extra args)))\<rparr>)"

definition audit :: "string \<Rightarrow> audit_args \<Rightarrow> app_db \<Rightarrow> app_db" where
  "audit action args db = db\<lparr>audits := audits db @ [audit_entry action args]\<rparr>"

section \<open>Lookups\<close>

definition app_of :: "app_db \<Rightarrow> int \<Rightarrow> app_row option" where
  "app_of db i = one_or_none (\<lambda>a. ap_id a = i) (apps db)"

definition app_named :: "app_db \<Rightarrow> string \<Rightarrow> app_row option" where
  "app_named db pid = one_or_none (\<lambda>a. ap_public_id a = pid) (apps db)"

definition user_of :: "app_db \<Rightarrow> int \<Rightarrow> user_row option" where
  "user_of db i = one_or_none (\<lambda>u. us_id u = i) (users db)"

definition key_of :: "app_db \<Rightarrow> int \<Rightarrow> key_row option" where
  "key_of db i = one_or_none (\<lambda>k. ky_id k = i) (keys db)"

definition device_of :: "app_db \<Rightarrow> int \<Rightarrow> device_row option" where
  "device_of db i = one_or_none (\<lambda>d. dv_id d = i) (devices db)"

definition grant_of :: "app_db \<Rightarrow> int \<Rightarrow> grant_row option" where
  "grant_of db i = one_or_none (\<lambda>g. gr_id g = i) (grants db)"

definition grant_for :: "app_db \<Rightarrow> int \<Rightarrow> int \<Rightarrow> grant_row option" where
  "grant_for db a u = one_or_none (\<lambda>g. gr_app g = a \<and> gr_user g = u) (grants db)"

definition key_named :: "app_db \<Rightarrow> int \<Rightarrow> string option \<Rightarrow> string \<Rightarrow> key_row option" where
  "key_named db a kid purpose = one_or_none (\<lambda>k. ky_app k = a \<and> Some (ky_kid k) = kid \<and> ky_purpose k = purpose) (keys db)"

definition usage_of :: "app_db \<Rightarrow> int \<Rightarrow> int" where
  "usage_of db u = (case dict_get (usage db) u of None \<Rightarrow> 0 | Some (up, down) \<Rightarrow> up + down)"

definition mode_of :: "app_row \<Rightarrow> string" where
  "mode_of a = or_text (Some (ap_mode a)) ''all_users''"

definition app_mode :: "app_row option \<Rightarrow> string" where
  "app_mode a = (case a of None \<Rightarrow> ''all_users'' | Some a \<Rightarrow> mode_of a)"

text \<open>\<open>_portal_default_access_mode\<close>: the panel-wide default behind a user without a mode of its own.\<close>

definition portal_default_access_mode :: "app_db \<Rightarrow> string" where
  "portal_default_access_mode db =
     (case portal db of
        None \<Rightarrow> ''subscription''
      | Some v \<Rightarrow>
          (case py_or v (VDict []) of
             VDict d \<Rightarrow> (if py_or (vget d ''client_auth_mode'') (VStr []) = VStr ''application_login'' then ''application'' else ''subscription'')
           | _ \<Rightarrow> ''subscription''))"

definition effective_mode :: "app_db \<Rightarrow> user_row \<Rightarrow> string" where
  "effective_mode db u = or_text (us_access_mode u) (or_text (us_client_mode u) (portal_default_access_mode db))"

section \<open>Device slots\<close>

definition occupying :: "int \<Rightarrow> device_row \<Rightarrow> bool" where
  "occupying user d \<longleftrightarrow> dv_user d = user \<and> (dv_status d = None \<or> dv_status d = Some ''active'')"

definition occupying_device_count :: "app_db \<Rightarrow> int \<Rightarrow> int" where
  "occupying_device_count db user = int (count_where (occupying user) (devices db))"

definition occupying_devices :: "app_db \<Rightarrow> int \<Rightarrow> device_row list" where
  "occupying_devices db user = sort_key (\<lambda>d. (dv_first d, dv_id d)) (filter (occupying user) (devices db))"

definition slot_limit :: "int option \<Rightarrow> int" where
  "slot_limit device_limit = max 0 (case device_limit of None \<Rightarrow> 0 | Some n \<Rightarrow> n)"

definition device_within_limit :: "app_db \<Rightarrow> int \<Rightarrow> int \<Rightarrow> int option \<Rightarrow> bool" where
  "device_within_limit db user device device_limit =
     (let limit = slot_limit device_limit
      in limit = 0 \<or> device \<in> set (map dv_id (take (nat limit) (occupying_devices db user))))"

section \<open>Contexts\<close>

record request_context =
  rc_app :: int
  rc_app_public :: string
  rc_app_status :: string
  rc_key :: int
  rc_key_id :: string
  rc_key_status :: string
  rc_private :: bytes
  rc_mode :: string
  rc_device :: "int option"
  rc_device_key_id :: "string option"
  rc_device_public :: "bytes option"
  rc_device_status :: "string option"
  rc_user :: "int option"

record user_context =
  uc_app :: int
  uc_app_public :: string
  uc_app_status :: string
  uc_key :: int
  uc_key_id :: string
  uc_key_status :: string
  uc_user :: int
  uc_username :: "string option"
  uc_password_hash :: "string option"
  uc_user_status :: string
  uc_access_mode :: "string option"
  uc_expire :: "int option"
  uc_data_limit :: "int option"
  uc_used :: int
  uc_device_limit :: "int option"
  uc_grant :: "int option"
  uc_grant_status :: "string option"
  uc_mode :: string
  uc_device :: "int option"
  uc_device_key_id :: "string option"
  uc_device_status :: "string option"
  uc_family :: "string option"
  uc_within :: bool

text \<open>The part of a user context that comes from the rows of the user and of its grant.\<close>

definition context_for ::
  "app_db \<Rightarrow> app_row option \<Rightarrow> string option \<Rightarrow> user_row \<Rightarrow> grant_row option \<Rightarrow> int \<times> string \<times> string \<Rightarrow> int \<times> string \<times> string \<Rightarrow> user_context"
where
  "context_for db a mode u g app_part key_part =
     \<lparr>uc_app = fst app_part, uc_app_public = fst (snd app_part), uc_app_status = snd (snd app_part),
      uc_key = fst key_part, uc_key_id = fst (snd key_part), uc_key_status = snd (snd key_part),
      uc_user = us_id u, uc_username = us_app_username u, uc_password_hash = us_password_hash u,
      uc_user_status = us_status u, uc_access_mode = mode, uc_expire = us_expire u,
      uc_data_limit = us_data_limit u, uc_used = usage_of db (us_id u), uc_device_limit = us_device_limit u,
      uc_grant = map_option gr_id g, uc_grant_status = map_option gr_status g, uc_mode = app_mode a,
      uc_device = None, uc_device_key_id = None, uc_device_status = None, uc_family = None, uc_within = True\<rparr>"

definition request_parts :: "request_context \<Rightarrow> (int \<times> string \<times> string) \<times> (int \<times> string \<times> string)" where
  "request_parts c = ((rc_app c, rc_app_public c, rc_app_status c), (rc_key c, rc_key_id c, rc_key_status c))"

end
