(* ===== verification/AppAuthRepo.thy ===== *)
theory AppAuthRepo
  imports AppDb
begin

text \<open>
  The authentication half of \<open>app/applicationapi/repository.py\<close>: applications and their keys, grants, activation
  tickets, the replay ledger, the throttle buckets, the contexts a request is judged by, enrollment, and the refresh
  token families. A \<open>with self._sf() as session\<close> block is one transaction: it takes the tables and returns them as
  committed, or unchanged when it raises before a commit. Random draws and the clock are arguments. An error keeps
  its class, not its text.
\<close>

section \<open>Bulk revocations\<close>

definition revoke_tokens :: "(token_row \<Rightarrow> bool) \<Rightarrow> int \<Rightarrow> string \<Rightarrow> app_db \<Rightarrow> app_db" where
  "revoke_tokens P now reason db =
     db\<lparr>tokens := update_where P (\<lambda>t. t\<lparr>rt_revoked := True, rt_revoked_at := Some now, rt_reason := Some reason\<rparr>) (tokens db)\<rparr>"

definition open_config :: "config_row \<Rightarrow> bool" where
  "open_config c \<longleftrightarrow> cg_consumed c = None \<and> cg_revoked c = None"

definition revoke_configs :: "(config_row \<Rightarrow> bool) \<Rightarrow> int \<Rightarrow> string \<Rightarrow> app_db \<Rightarrow> app_db" where
  "revoke_configs P now reason db =
     db\<lparr>configs := update_where (\<lambda>c. P c \<and> open_config c) (\<lambda>c. c\<lparr>cg_revoked := Some now, cg_reason := Some reason\<rparr>) (configs db)\<rparr>"

definition revoke_tickets :: "(ticket_row \<Rightarrow> bool) \<Rightarrow> int \<Rightarrow> string \<Rightarrow> app_db \<Rightarrow> app_db" where
  "revoke_tickets P now reason db =
     db\<lparr>tickets := update_where (\<lambda>t. P t \<and> tk_consumed t = None \<and> tk_revoked t = None)
        (\<lambda>t. t\<lparr>tk_revoked := Some now, tk_reason := Some reason\<rparr>) (tickets db)\<rparr>"

section \<open>Applications and keys\<close>

definition key_aad :: "string \<Rightarrow> string \<Rightarrow> string \<Rightarrow> string" where
  "key_aad pid kid purpose = ''application-key:'' @ pid @ '':'' @ kid @ '':'' @ purpose"

definition encrypt_private :: "app_env \<Rightarrow> bytes \<Rightarrow> bytes \<Rightarrow> string \<Rightarrow> string \<Rightarrow> string \<Rightarrow> string" where
  "encrypt_private env nonce private pid kid purpose =
     key_seal env nonce (VDict [(''private_key'', VStr (b64e private))]) (key_aad pid kid purpose)"

definition decrypt_private :: "app_env \<Rightarrow> key_row \<Rightarrow> string \<Rightarrow> app_error + bytes" where
  "decrypt_private env k pid =
     rbind (key_open env (ky_private k) (key_aad pid (ky_kid k) (ky_purpose k))) (\<lambda>d.
       case vget d ''private_key'' of
         VStr s \<Rightarrow> b64url_decode s (Some 32)
       | VInt i \<Rightarrow> b64url_decode (int_to_str i) (Some 32)
       | _ \<Rightarrow> Inl (AppRaised ValueError))"

record key_draws =
  kd_public_id :: string
  kd_signing_hex :: string
  kd_config_hex :: string
  kd_signing_private :: bytes
  kd_config_private :: bytes
  kd_nonce1 :: bytes
  kd_nonce2 :: bytes

record app_created =
  ac_public_id :: string
  ac_name :: string
  ac_mode :: string
  ac_signing_kid :: string
  ac_signing_public :: string
  ac_config_kid :: string
  ac_config_public :: string

definition new_key :: "int \<Rightarrow> int \<Rightarrow> string \<Rightarrow> string \<Rightarrow> string \<Rightarrow> string \<Rightarrow> string \<Rightarrow> int \<Rightarrow> key_row" where
  "new_key i a kid purpose algorithm public private now =
     \<lparr>ky_id = i, ky_app = a, ky_kid = kid, ky_purpose = purpose, ky_algorithm = algorithm, ky_public = public,
      ky_private = private, ky_status = ''active'', ky_not_before = Some now, ky_not_after = None, ky_revoked = None, ky_reason = None\<rparr>"

definition create_application ::
  "app_env \<Rightarrow> key_draws \<Rightarrow> int \<Rightarrow> int \<Rightarrow> string \<Rightarrow> string \<Rightarrow> string \<Rightarrow> (string, pyval) dict \<Rightarrow> string \<Rightarrow> app_db \<Rightarrow> app_created app_result"
where
  "create_application env draws now owner name api lang branding mode db =
     (if mode \<notin> {''all_users'', ''bound_only''} then (Inl ApplicationForbidden, db)
      else if owner \<notin> set (admins db) then (Inl ApplicationForbidden, db)
      else if app_named db (kd_public_id draws) \<noteq> None then (Inl IntegrityError, db)
      else
        (let pid = kd_public_id draws; skid = ''sig-'' @ kd_signing_hex draws; ckid = ''cfg-'' @ kd_config_hex draws;
             spub = b64e (ed_public env (kd_signing_private draws)); cpub = b64e (x_public env (kd_config_private draws));
             a = fresh_id (map ap_id (apps db)); k = fresh_id (map ky_id (keys db));
             app = \<lparr>ap_id = a, ap_public_id = pid, ap_owner = owner, ap_name = py_strip name, ap_status = ''active'',
                    ap_api_base = py_strip api, ap_lang = py_strip lang, ap_mode = mode, ap_branding = branding,
                    ap_signing_kid = Some skid, ap_config_kid = Some ckid, ap_revoked = None, ap_reason = None\<rparr>;
             signing = new_key k a skid ''signing'' ''ed25519'' spub
               (encrypt_private env (kd_nonce1 draws) (kd_signing_private draws) pid skid ''signing'') now;
             config = new_key (k + 1) a ckid ''config_encryption'' ''x25519'' cpub
               (encrypt_private env (kd_nonce2 draws) (kd_config_private draws) pid ckid ''config_encryption'') now
         in (Inr \<lparr>ac_public_id = pid, ac_name = py_strip name, ac_mode = mode, ac_signing_kid = skid, ac_signing_public = spub,
                  ac_config_kid = ckid, ac_config_public = cpub\<rparr>,
             audit ''application.created'' (no_audit\<lparr>ar_app := Some a\<rparr>)
               (db\<lparr>apps := apps db @ [app], keys := keys db @ [signing, config]\<rparr>))))"

definition set_user_access_mode :: "string \<Rightarrow> string \<Rightarrow> app_db \<Rightarrow> app_row app_result" where
  "set_user_access_mode pid mode db =
     (if mode \<notin> {''all_users'', ''bound_only''} then (Inl ApplicationForbidden, db)
      else case app_named db pid of
        None \<Rightarrow> (Inl ApplicationForbidden, db)
      | Some a \<Rightarrow>
          (Inr (a\<lparr>ap_mode := mode\<rparr>),
           audit ''application.access_mode.changed''
             (no_audit\<lparr>ar_app := Some (ap_id a), ar_extra := [(''from'', VStr (mode_of a)), (''to'', VStr mode)]\<rparr>)
             (db\<lparr>apps := update_where (\<lambda>r. ap_id r = ap_id a) (\<lambda>r. r\<lparr>ap_mode := mode\<rparr>) (apps db)\<rparr>)))"

definition active_signing_seed :: "app_env \<Rightarrow> string \<Rightarrow> app_db \<Rightarrow> app_error + string option" where
  "active_signing_seed env pid db =
     (case app_named db pid of
        None \<Rightarrow> Inr None
      | Some a \<Rightarrow>
          if ap_status a \<noteq> ''active'' \<or> ap_signing_kid a \<in> {None, Some []} then Inr None
          else case key_named db (ap_id a) (ap_signing_kid a) ''signing'' of
            None \<Rightarrow> Inr None
          | Some k \<Rightarrow>
              if ky_status k \<noteq> ''active'' then Inr None
              else rbind (decrypt_private env k (ap_public_id a)) (\<lambda>bs. Inr (Some (b64e bs))))"

definition grant_user :: "string \<Rightarrow> int \<Rightarrow> app_db \<Rightarrow> grant_row app_result" where
  "grant_user pid user db =
     (case (app_named db pid, user_of db user) of
        (Some a, Some u) \<Rightarrow>
          if ap_status a \<noteq> ''active'' then (Inl ApplicationForbidden, db)
          else
            (let (g, rows) =
               (case grant_for db (ap_id a) user of
                  None \<Rightarrow>
                    (let g = \<lparr>gr_id = fresh_id (map gr_id (grants db)), gr_app = ap_id a, gr_user = user, gr_status = ''active'',
                              gr_revoked = None, gr_reason = None\<rparr>
                     in (g, grants db @ [g]))
                | Some g \<Rightarrow>
                    (let g' = g\<lparr>gr_status := ''active'', gr_revoked := None, gr_reason := None\<rparr>
                     in (g', update_where (\<lambda>r. gr_id r = gr_id g) (\<lambda>_. g') (grants db))))
             in (Inr g, audit ''application.grant.created'' (no_audit\<lparr>ar_app := Some (ap_id a), ar_user := Some user\<rparr>)
                          (db\<lparr>grants := rows\<rparr>)))
      | _ \<Rightarrow> (Inl ApplicationForbidden, db))"

definition set_application_icon :: "string \<Rightarrow> (string, pyval) dict option \<Rightarrow> app_db \<Rightarrow> (app_row option) \<times> app_db" where
  "set_application_icon pid meta db =
     (case app_named db pid of
        None \<Rightarrow> (None, db)
      | Some a \<Rightarrow>
          (let branding = (case meta of None \<Rightarrow> dict_pop ''icon'' (ap_branding a) | Some m \<Rightarrow> dict_set ''icon'' (VDict m) (ap_branding a))
           in (Some (a\<lparr>ap_branding := branding\<rparr>),
               db\<lparr>apps := update_where (\<lambda>r. ap_id r = ap_id a) (\<lambda>r. r\<lparr>ap_branding := branding\<rparr>) (apps db)\<rparr>)))"

section \<open>Revocation by the administrator\<close>

text \<open>Each operation commits the revoked parent first and cascades in a second transaction.\<close>

definition revoke_application_row :: "int \<Rightarrow> string \<Rightarrow> app_db \<Rightarrow> int app_result" where
  "revoke_application_row now pid db =
     (case app_named db pid of
        None \<Rightarrow> (Inl ApplicationNotFound, db)
      | Some a \<Rightarrow>
          (Inr (ap_id a),
           if ap_status a \<noteq> ''revoked'' then
             audit ''application.revoked'' (no_audit\<lparr>ar_app := Some (ap_id a), ar_actor := ''admin''\<rparr>)
               (db\<lparr>apps := update_where (\<lambda>r. ap_id r = ap_id a)
                    (\<lambda>r. r\<lparr>ap_status := ''revoked'', ap_revoked := Some now, ap_reason := Some ''administrator''\<rparr>) (apps db)\<rparr>)
           else db))"

definition revoke_application_cascade :: "int \<Rightarrow> int \<Rightarrow> app_db \<Rightarrow> app_db" where
  "revoke_application_cascade now a db =
     revoke_tickets (\<lambda>t. tk_app t = a) now ''application_revoked''
      (revoke_configs (\<lambda>c. cg_app c = a) now ''application_revoked''
        (revoke_tokens (\<lambda>t. rt_app t = Some a \<and> \<not> rt_revoked t) now ''application_revoked''
          (db\<lparr>keys := update_where (\<lambda>k. ky_app k = a \<and> ky_status k \<noteq> ''revoked'')
                (\<lambda>k. k\<lparr>ky_status := ''revoked'', ky_revoked := Some now, ky_reason := Some ''application_revoked''\<rparr>) (keys db),
              grants := update_where (\<lambda>g. gr_app g = a \<and> gr_status g \<noteq> ''revoked'')
                (\<lambda>g. g\<lparr>gr_status := ''revoked'', gr_revoked := Some now, gr_reason := Some ''application_revoked''\<rparr>) (grants db),
              devices := update_where (\<lambda>d. dv_app d = Some a \<and> dv_status d = Some ''active'')
                (\<lambda>d. d\<lparr>dv_status := Some ''revoked'', dv_revoked := Some now, dv_reason := Some ''application_revoked''\<rparr>) (devices db)\<rparr>)))"

definition revoke_application :: "int \<Rightarrow> string \<Rightarrow> app_db \<Rightarrow> unit app_result" where
  "revoke_application now pid db =
     (case revoke_application_row now pid db of
        (Inl e, db1) \<Rightarrow> (Inl e, db1)
      | (Inr a, db1) \<Rightarrow> (Inr (), revoke_application_cascade now a db1))"

definition revoke_grant_row :: "int \<Rightarrow> string \<Rightarrow> int \<Rightarrow> app_db \<Rightarrow> int app_result" where
  "revoke_grant_row now pid user db =
     (case app_named db pid of
        None \<Rightarrow> (Inl ApplicationGrantNotFound, db)
      | Some a \<Rightarrow>
          (case grant_for db (ap_id a) user of
             None \<Rightarrow> (Inl ApplicationGrantNotFound, db)
           | Some g \<Rightarrow>
               (Inr (ap_id a),
                if gr_status g \<noteq> ''revoked'' then
                  audit ''application.grant.revoked'' (no_audit\<lparr>ar_app := Some (ap_id a), ar_user := Some user, ar_actor := ''admin''\<rparr>)
                    (db\<lparr>grants := update_where (\<lambda>r. gr_id r = gr_id g)
                         (\<lambda>r. r\<lparr>gr_status := ''revoked'', gr_revoked := Some now, gr_reason := Some ''administrator''\<rparr>) (grants db)\<rparr>)
                else db)))"

definition revoke_grant_cascade :: "int \<Rightarrow> int \<Rightarrow> int \<Rightarrow> app_db \<Rightarrow> app_db" where
  "revoke_grant_cascade now a user db =
     revoke_tickets (\<lambda>t. tk_app t = a \<and> tk_user t = Some user) now ''grant_revoked''
      (revoke_configs (\<lambda>c. cg_app c = a \<and> cg_user c = user) now ''grant_revoked''
        (revoke_tokens (\<lambda>t. rt_app t = Some a \<and> rt_user t = user \<and> \<not> rt_revoked t) now ''grant_revoked'' db))"

definition revoke_user_grant :: "int \<Rightarrow> string \<Rightarrow> int \<Rightarrow> app_db \<Rightarrow> unit app_result" where
  "revoke_user_grant now pid user db =
     (case revoke_grant_row now pid user db of
        (Inl e, db1) \<Rightarrow> (Inl e, db1)
      | (Inr a, db1) \<Rightarrow> (Inr (), revoke_grant_cascade now a user db1))"

definition revoke_key_row :: "int \<Rightarrow> string \<Rightarrow> string \<Rightarrow> app_db \<Rightarrow> (app_row \<times> key_row) app_result" where
  "revoke_key_row now pid kid db =
     (case app_named db pid of
        None \<Rightarrow> (Inl ApplicationKeyNotFound, db)
      | Some a \<Rightarrow>
          (case one_or_none (\<lambda>k. ky_app k = ap_id a \<and> ky_kid k = kid) (keys db) of
             None \<Rightarrow> (Inl ApplicationKeyNotFound, db)
           | Some k \<Rightarrow>
               (Inr (a, k),
                if ky_status k \<noteq> ''revoked'' then
                  audit ''application.key.revoked'' (no_audit\<lparr>ar_app := Some (ap_id a), ar_actor := ''admin''\<rparr>)
                    (db\<lparr>keys := update_where (\<lambda>r. ky_id r = ky_id k)
                         (\<lambda>r. r\<lparr>ky_status := ''revoked'', ky_revoked := Some now, ky_reason := Some ''administrator''\<rparr>) (keys db)\<rparr>)
                else db)))"

definition revoke_key_cascade :: "int \<Rightarrow> app_row \<Rightarrow> key_row \<Rightarrow> app_db \<Rightarrow> app_db" where
  "revoke_key_cascade now a k db =
     (let config = ky_purpose k = ''config_encryption''; active_signing = ap_signing_kid a = Some (ky_kid k);
          db1 = (if config then revoke_tokens (\<lambda>t. rt_app t = Some (ap_id a) \<and> rt_key t = Some (ky_id k) \<and> \<not> rt_revoked t)
                                  now ''application_key_revoked'' db else db);
          db2 = (if config \<or> active_signing
                 then revoke_configs (\<lambda>c. if config then cg_key c = ky_id k else cg_app c = ap_id a) now ''application_key_revoked'' db1
                 else db1)
      in revoke_tickets (\<lambda>t. tk_app t = ap_id a \<and> tk_key t = ky_id k) now ''application_key_revoked'' db2)"

definition revoke_application_key :: "int \<Rightarrow> string \<Rightarrow> string \<Rightarrow> app_db \<Rightarrow> unit app_result" where
  "revoke_application_key now pid kid db =
     (case revoke_key_row now pid kid db of
        (Inl e, db1) \<Rightarrow> (Inl e, db1)
      | (Inr (a, k), db1) \<Rightarrow> (Inr (), revoke_key_cascade now a k db1))"

section \<open>Activation tickets\<close>

definition ticket_payload :: "string \<Rightarrow> app_row \<Rightarrow> user_row \<Rightarrow> grant_row \<Rightarrow> key_row \<Rightarrow> int \<Rightarrow> int \<Rightarrow> string option \<Rightarrow> pyval" where
  "ticket_payload jti a u g k now expires intended =
     VDict [(''v'', VInt 1), (''jti'', VStr jti), (''aid'', VStr (ap_public_id a)), (''uid'', VInt (us_id u)), (''gid'', VInt (gr_id g)),
            (''kid'', VStr (ky_kid k)), (''iat'', VInt (timestamp now)), (''exp'', VInt (timestamp expires)), (''dkh'', opt_str intended)]"

definition issue_activation_ticket ::
  "app_env \<Rightarrow> string \<Rightarrow> int \<Rightarrow> string \<Rightarrow> int \<Rightarrow> int \<Rightarrow> string option \<Rightarrow> app_db \<Rightarrow> (string \<times> int) app_result"
where
  "issue_activation_ticket env jti now pid user ttl intended_key db =
     (case app_named db pid of
        None \<Rightarrow> (Inl ApplicationForbidden, db)
      | Some a \<Rightarrow>
          if ap_status a \<noteq> ''active'' \<or> ap_signing_kid a \<in> {None, Some []} then (Inl ApplicationForbidden, db)
          else case (user_of db user, grant_for db (ap_id a) user, key_named db (ap_id a) (ap_signing_kid a) ''signing'') of
            (Some u, Some g, Some k) \<Rightarrow>
              if effective_mode db u \<noteq> ''application'' \<or> gr_status g \<noteq> ''active'' \<or> ky_status k \<noteq> ''active'' then (Inl ApplicationForbidden, db)
              else
                (case rbind (case intended_key of
                               None \<Rightarrow> Inr None
                             | Some t \<Rightarrow> if t = [] then Inr None
                                 else rbind (b64url_decode t (Some 32)) (\<lambda>raw. Inr (Some (hexdigest (sha256 env raw)))))
                      (\<lambda>intended. rbind (decrypt_private env k (ap_public_id a)) (\<lambda>private. Inr (intended, private))) of
                   Inl e \<Rightarrow> (Inl e, db)
                 | Inr (intended, private) \<Rightarrow>
                     (let expires = now + secs ttl;
                          encoded = b64e (json_dumps env (ticket_payload jti a u g k now expires intended));
                          token = ''zgat1.'' @ encoded @ ''.'' @ b64e (ed_sign env private (utf8 (''zgat1.'' @ encoded)));
                          row = \<lparr>tk_app = ap_id a, tk_key = ky_id k, tk_user = Some (us_id u), tk_grant = Some (gr_id g),
                                 tk_hash = app_token_hash env token, tk_jti = jti, tk_intended = intended, tk_issued = now,
                                 tk_expires = expires, tk_consumed = None, tk_revoked = None, tk_reason = None\<rparr>
                      in if \<exists>t \<in> set (tickets db). tk_hash t = tk_hash row \<or> tk_jti t = jti then (Inl IntegrityError, db)
                         else (Inr (token, expires),
                               audit ''application.activation.issued'' (no_audit\<lparr>ar_app := Some (ap_id a), ar_user := Some (us_id u)\<rparr>)
                                 (db\<lparr>tickets := tickets db @ [row]\<rparr>))))
          | _ \<Rightarrow> (Inl ApplicationForbidden, db))"

text \<open>Splitting and decoding a ticket; every failure there is one error.\<close>

definition parse_ticket :: "app_env \<Rightarrow> string \<Rightarrow> app_error + string \<times> pyval \<times> bytes" where
  "parse_ticket env token =
     (case split_on (CHR ''.'') token of
        [prefix, encoded, sig] \<Rightarrow>
          (if prefix \<noteq> ''zgat1'' then Inl ActivationTicketInvalid
           else case (b64url_decode encoded None, b64url_decode sig (Some 64)) of
             (Inr body, Inr signature) \<Rightarrow>
               (case json_loads env body of None \<Rightarrow> Inl ActivationTicketInvalid | Some v \<Rightarrow> Inr (encoded, v, signature))
           | _ \<Rightarrow> Inl ActivationTicketInvalid)
      | _ \<Rightarrow> Inl ActivationTicketInvalid)"

definition claim_int :: "(string, pyval) dict \<Rightarrow> string \<Rightarrow> int \<Rightarrow> app_error + int" where
  "claim_int d k other = (case dict_get d k of None \<Rightarrow> Inr other | Some v \<Rightarrow> map_sum AppRaised id (py_int v))"

definition signature_ok :: "app_env \<Rightarrow> key_row \<Rightarrow> bytes \<Rightarrow> bytes \<Rightarrow> bool" where
  "signature_ok env k message signature =
     (case b64url_decode (ky_public k) (Some 32) of Inl _ \<Rightarrow> False | Inr public \<Rightarrow> ed_verify env public message signature)"

definition kid_of :: "(string, pyval) dict \<Rightarrow> string option" where
  "kid_of d = (case vget d ''kid'' of VStr s \<Rightarrow> Some s | _ \<Rightarrow> None)"

text \<open>The claims that hold for the payload itself: version, expiry and issue time, in the order of the source.\<close>

definition claims_current :: "int \<Rightarrow> (string, pyval) dict \<Rightarrow> app_error + bool" where
  "claims_current now d =
     (if \<not> py_eq (vget d ''v'') (VInt 1) then Inr False
      else rbind (claim_int d ''exp'' 0) (\<lambda>expires.
        if expires \<le> timestamp now then Inr False
        else rbind (claim_int d ''iat'' 0) (\<lambda>issued. Inr (issued \<le> timestamp now + 30))))"

definition previewed_ticket :: "app_env \<Rightarrow> int \<Rightarrow> string \<Rightarrow> (string, pyval) dict \<Rightarrow> string \<Rightarrow> bytes \<Rightarrow> app_db \<Rightarrow> app_error + app_row \<times> ticket_row" where
  "previewed_ticket env now token d encoded signature db =
     (case (case vget d ''aid'' of VStr pid \<Rightarrow> app_named db pid | _ \<Rightarrow> None) of
        None \<Rightarrow> Inl ActivationTicketInvalid
      | Some a \<Rightarrow>
          (case key_named db (ap_id a) (kid_of d) ''signing'' of
             None \<Rightarrow> Inl ActivationTicketInvalid
           | Some k \<Rightarrow>
               if ky_status k \<noteq> ''active'' \<or> \<not> signature_ok env k (utf8 (''zgat1.'' @ encoded)) signature
                 then Inl ActivationTicketInvalid
               else (case one_or_none (\<lambda>t. tk_hash t = app_token_hash env token) (tickets db) of
                       None \<Rightarrow> Inl ActivationTicketInvalid
                     | Some t \<Rightarrow>
                         if tk_revoked t \<noteq> None \<or> tk_consumed t \<noteq> None then Inl ActivationTicketInvalid
                         else if tk_expires t \<le> now then Inl ActivationTicketExpired
                         else Inr (a, t))))"

definition get_activation_preview :: "app_env \<Rightarrow> int \<Rightarrow> string \<Rightarrow> app_db \<Rightarrow> app_error + app_row \<times> ticket_row" where
  "get_activation_preview env now token db =
     rbind (parse_ticket env token) (\<lambda>(encoded, payload, signature).
       case payload of
         VDict d \<Rightarrow>
           rbind (claims_current now d) (\<lambda>current.
             if current then previewed_ticket env now token d encoded signature db
             else Inl (if one_or_none (\<lambda>t. tk_hash t = app_token_hash env token) (tickets db) = None
                       then ActivationTicketInvalid else ActivationTicketExpired))
       | _ \<Rightarrow> Inl (AppRaised AttributeError))"

section \<open>Request keys and the replay ledger\<close>

definition enrollment_request_key :: "app_env \<Rightarrow> string \<Rightarrow> string \<Rightarrow> app_db \<Rightarrow> app_error + request_context" where
  "enrollment_request_key env pid kid db =
     (case Option.bind (app_named db pid) (\<lambda>a.
             map_option (Pair a) (key_named db (ap_id a) (Some kid) ''config_encryption'')) of
        None \<Rightarrow> Inl ApplicationAuthFailed
      | Some (a, k) \<Rightarrow>
          rbind (decrypt_private env k (ap_public_id a)) (\<lambda>private.
            Inr \<lparr>rc_app = ap_id a, rc_app_public = ap_public_id a, rc_app_status = ap_status a, rc_key = ky_id k,
                 rc_key_id = ky_kid k, rc_key_status = ky_status k, rc_private = private, rc_mode = mode_of a,
                 rc_device = None, rc_device_key_id = None, rc_device_public = None, rc_device_status = None, rc_user = None\<rparr>))"

definition device_request_key :: "app_env \<Rightarrow> string \<Rightarrow> string \<Rightarrow> string \<Rightarrow> app_db \<Rightarrow> app_error + request_context" where
  "device_request_key env pid kid device_key_id db =
     (case Option.bind (app_named db pid) (\<lambda>a.
             Option.bind (key_named db (ap_id a) (Some kid) ''config_encryption'') (\<lambda>k.
               map_option (\<lambda>d. (a, k, d))
                 (one_or_none (\<lambda>d. dv_app d = Some (ap_id a) \<and> dv_key_id d = Some device_key_id) (devices db)))) of
        None \<Rightarrow> Inl EnrollmentRequired
      | Some (a, k, d) \<Rightarrow>
          (case b64url_decode (or_text (dv_public d) []) (Some 32) of
             Inl _ \<Rightarrow> Inl ApplicationAuthFailed
           | Inr public \<Rightarrow>
               rbind (decrypt_private env k (ap_public_id a)) (\<lambda>private.
                 Inr \<lparr>rc_app = ap_id a, rc_app_public = ap_public_id a, rc_app_status = ap_status a, rc_key = ky_id k,
                      rc_key_id = ky_kid k, rc_key_status = ky_status k, rc_private = private, rc_mode = mode_of a,
                      rc_device = Some (dv_id d), rc_device_key_id = dv_key_id d, rc_device_public = Some public,
                      rc_device_status = dv_status d, rc_user = Some (dv_user d)\<rparr>)))"

text \<open>\<open>clock\<close> is \<open>_utcnow()\<close> inside the transaction; the unique constraint on application and hash refuses a repeat.\<close>

definition purge_expired_nonces :: "int \<Rightarrow> app_db \<Rightarrow> nat \<times> app_db" where
  "purge_expired_nonces before db =
     (count_where (\<lambda>n. nn_expires n < before) (nonces db), db\<lparr>nonces := filter (\<lambda>n. \<not> nn_expires n < before) (nonces db)\<rparr>)"

definition consume_nonce :: "app_env \<Rightarrow> int \<Rightarrow> request_context \<Rightarrow> string \<Rightarrow> int \<Rightarrow> int \<Rightarrow> app_db \<Rightarrow> unit app_result" where
  "consume_nonce env clock ctx nonce request_timestamp expires db =
     (let h = identifier_hash env ''nonce'' nonce; live = nonces (snd (purge_expired_nonces clock db))
      in if \<exists>n \<in> set live. nn_app n = rc_app ctx \<and> nn_hash n = h then (Inl ReplayRejected, db)
         else (Inr (), db\<lparr>nonces := live @ [\<lparr>nn_app = rc_app ctx, nn_device = rc_device ctx, nn_key = rc_key ctx, nn_hash = h,
                                         nn_timestamp = request_timestamp, nn_expires = expires\<rparr>]\<rparr>))"

section \<open>Throttle buckets\<close>

definition throttle_keys :: "app_env \<Rightarrow> string \<Rightarrow> string option \<Rightarrow> (string \<times> string) list" where
  "throttle_keys env username source_ip =
     [(''username'', identifier_hash env ''username'' username), (''ip'', identifier_hash env ''ip'' (safe_source_ip env source_ip))]"

definition in_bucket :: "int \<Rightarrow> string \<times> string \<Rightarrow> throttle_row \<Rightarrow> bool" where
  "in_bucket a key t \<longleftrightarrow> th_app t = a \<and> (th_kind t, th_hash t) = key"

definition assert_not_throttled :: "app_env \<Rightarrow> int \<Rightarrow> string \<Rightarrow> string option \<Rightarrow> int \<Rightarrow> app_db \<Rightarrow> app_error + unit" where
  "assert_not_throttled env a username source_ip now db =
     (if \<exists>t \<in> set (throttles db). (\<exists>k \<in> set (throttle_keys env username source_ip). in_bucket a k t) \<and>
           (case th_blocked t of None \<Rightarrow> False | Some b \<Rightarrow> b > now)
      then Inl ApplicationRateLimited else Inr ())"

record throttle_policy =
  max_failures :: int
  window_seconds :: int
  block_seconds :: int

definition count_failure :: "throttle_policy \<Rightarrow> int \<Rightarrow> throttle_row \<Rightarrow> throttle_row" where
  "count_failure pol now row =
     (let r = (if now - th_window row \<ge> secs (window_seconds pol)
               then row\<lparr>th_window := now, th_count := 0, th_blocked := None\<rparr> else row);
          c = th_count r + 1
      in r\<lparr>th_count := c, th_updated := now,
           th_blocked := (if c \<ge> max_failures pol then Some (now + secs (block_seconds pol)) else th_blocked r)\<rparr>)"

definition bump_bucket :: "throttle_policy \<Rightarrow> int \<Rightarrow> int \<Rightarrow> string \<times> string \<Rightarrow> app_db \<Rightarrow> app_db" where
  "bump_bucket pol now a key db =
     (case one_or_none (in_bucket a key) (throttles db) of
        None \<Rightarrow>
          db\<lparr>throttles := throttles db @ [count_failure pol now
             \<lparr>th_app = a, th_kind = fst key, th_hash = snd key, th_count = 0, th_window = now, th_blocked = None, th_updated = now\<rparr>]\<rparr>
      | Some row \<Rightarrow> db\<lparr>throttles := update_where (in_bucket a key) (\<lambda>_. count_failure pol now row) (throttles db)\<rparr>)"

definition record_auth_failure :: "app_env \<Rightarrow> throttle_policy \<Rightarrow> int \<Rightarrow> string \<Rightarrow> string option \<Rightarrow> int \<Rightarrow> app_db \<Rightarrow> app_db" where
  "record_auth_failure env pol a username source_ip now db =
     audit ''application.auth.failure''
       (no_audit\<lparr>ar_app := Some a, ar_ip_hash := Some (identifier_hash env ''ip'' (safe_source_ip env source_ip)),
                 ar_result := ''denied'', ar_reason := Some ''invalid_credentials''\<rparr>)
       (fold (bump_bucket pol now a) (throttle_keys env username source_ip) db)"

definition clear_auth_failures :: "app_env \<Rightarrow> int \<Rightarrow> string \<Rightarrow> string option \<Rightarrow> app_db \<Rightarrow> app_db" where
  "clear_auth_failures env a username source_ip db =
     db\<lparr>throttles := filter (\<lambda>t. \<not> (\<exists>k \<in> set (throttle_keys env username source_ip). in_bucket a k t)) (throttles db)\<rparr>"

end
