(* ===== verification/AppEnrollRepo.thy ===== *)
theory AppEnrollRepo
  imports AppAuthRepo
begin

text \<open>
  The second part of \<open>app/applicationapi/repository.py\<close>: the contexts in which a user is judged, ticket and
  attestation checks, enrollment of a device into a slot, and the refresh token families.
\<close>

section \<open>User contexts\<close>

definition login_context :: "app_db \<Rightarrow> request_context \<Rightarrow> user_row \<Rightarrow> user_context" where
  "login_context db ctx u =
     context_for db (app_of db (rc_app ctx)) (Some (effective_mode db u)) u (grant_for db (rc_app ctx) (us_id u))
       (fst (request_parts ctx)) (snd (request_parts ctx))"

definition enrollment_user_context :: "request_context \<Rightarrow> string \<Rightarrow> app_db \<Rightarrow> user_context option" where
  "enrollment_user_context ctx username db =
     map_option (login_context db ctx) (one_or_none (\<lambda>u. us_app_username u = Some username) (users db))"

definition device_user_context :: "request_context \<Rightarrow> string option \<Rightarrow> app_db \<Rightarrow> user_context option" where
  "device_user_context ctx username db =
     (case rc_user ctx of
        None \<Rightarrow> None
      | Some i \<Rightarrow>
          map_option
            (\<lambda>u. (login_context db ctx u)\<lparr>uc_device := rc_device ctx, uc_device_key_id := rc_device_key_id ctx,
                uc_device_status := rc_device_status ctx,
                uc_within := (case rc_device ctx of None \<Rightarrow> False | Some d \<Rightarrow> device_within_limit db (us_id u) d (us_device_limit u))\<rparr>)
            (one_or_none (\<lambda>u. us_id u = i \<and> (username = None \<or> us_app_username u = username)) (users db)))"

text \<open>The count of live refresh tokens of a family at the time \<open>now\<close>.\<close>

definition live_token :: "int \<Rightarrow> int \<Rightarrow> int \<Rightarrow> int \<Rightarrow> int \<Rightarrow> string \<Rightarrow> token_row \<Rightarrow> bool" where
  "live_token now a u d k family t \<longleftrightarrow>
     rt_family t = Some family \<and> rt_app t = Some a \<and> rt_user t = u \<and> rt_device t = Some d \<and> rt_key t = Some k \<and>
     rt_expires t > now \<and> \<not> rt_revoked t"

definition active_family :: "app_db \<Rightarrow> int \<Rightarrow> int \<Rightarrow> int \<Rightarrow> int \<Rightarrow> int \<Rightarrow> string \<Rightarrow> bool" where
  "active_family db now a u d k family \<longleftrightarrow> count_where (live_token now a u d k family) (tokens db) \<noteq> 0"

record access_claims =
  cl_app :: int
  cl_app_public :: string
  cl_user :: int
  cl_device :: int
  cl_device_key_id :: string
  cl_key :: int
  cl_family :: string

definition access_user_context :: "int \<Rightarrow> access_claims \<Rightarrow> app_db \<Rightarrow> (user_context option) \<times> app_db" where
  "access_user_context now c db =
     (let a = app_of db (cl_app c); u = user_of db (cl_user c); d = device_of db (cl_device c); k = key_of db (cl_key c);
          g = grant_for db (cl_app c) (cl_user c); required = app_mode a = ''bound_only'';
          denied = (case a of
             None \<Rightarrow> (None, db)
           | Some app \<Rightarrow>
               (None, audit ''application.access.denied''
                  (no_audit\<lparr>ar_app := Some (ap_id app), ar_user := map_option us_id u, ar_device := map_option dv_id d,
                            ar_result := ''denied'', ar_reason := Some ''binding_or_family''\<rparr>) db))
      in case (a, u, d, k) of
           (Some app, Some user, Some device, Some key) \<Rightarrow>
             if g = None \<and> required \<or>
                \<not> active_family db now (cl_app c) (cl_user c) (cl_device c) (cl_key c) (cl_family c) \<or>
                ap_public_id app \<noteq> cl_app_public c \<or> dv_app device \<noteq> Some (cl_app c) \<or> dv_user device \<noteq> cl_user c \<or>
                dv_key_id device \<noteq> Some (cl_device_key_id c) \<or> ky_app key \<noteq> cl_app c
             then denied
             else (Some ((context_for db a (us_access_mode user) user g
                            (ap_id app, ap_public_id app, ap_status app) (ky_id key, ky_kid key, ky_status key))
                          \<lparr>uc_device := Some (dv_id device), uc_device_key_id := dv_key_id device, uc_device_status := dv_status device,
                           uc_family := Some (cl_family c),
                           uc_within := device_within_limit db (us_id user) (dv_id device) (us_device_limit user)\<rparr>), db)
         | _ \<Rightarrow> denied)"

section \<open>Tickets and attestations\<close>

record verified_ticket =
  vt_hash :: string
  vt_jti :: pyval
  vt_signing_key :: int

definition text_of :: "pyval \<Rightarrow> string" where
  "text_of v = (case v of VStr s \<Rightarrow> s | VInt i \<Rightarrow> int_to_str i | _ \<Rightarrow> [])"

definition ticket_claims_ok :: "int \<Rightarrow> user_context \<Rightarrow> (string, pyval) dict \<Rightarrow> app_error + bool" where
  "ticket_claims_ok now ctx d =
     (if \<not> py_eq (vget d ''v'') (VInt 1) \<or> \<not> py_eq (vget d ''aid'') (VStr (uc_app_public ctx)) then Inr False
      else rbind (claim_int d ''uid'' (- 1)) (\<lambda>uid. if uid \<noteq> uc_user ctx then Inr False
      else rbind (claim_int d ''gid'' (- 1)) (\<lambda>gid.
        if gid \<noteq> (case uc_grant ctx of None \<Rightarrow> - 2 | Some g \<Rightarrow> if g = 0 then - 2 else g) then Inr False
      else rbind (claim_int d ''exp'' 0) (\<lambda>expires. if expires \<le> timestamp now then Inr False
      else rbind (claim_int d ''iat'' 0) (\<lambda>issued. Inr (issued \<le> timestamp now + 30))))))"

definition verify_ticket :: "app_env \<Rightarrow> int \<Rightarrow> user_context \<Rightarrow> string \<Rightarrow> bytes \<Rightarrow> app_db \<Rightarrow> app_error + verified_ticket" where
  "verify_ticket env now ctx token device_public db =
     rbind (parse_ticket env token) (\<lambda>(encoded, payload, signature).
       case payload of
         VDict d \<Rightarrow>
           rbind (ticket_claims_ok now ctx d) (\<lambda>ok.
             if \<not> ok then Inl ActivationTicketInvalid
             else if truthy (vget d ''dkh'') \<and> text_of (vget d ''dkh'') \<noteq> hexdigest (sha256 env device_public) then Inl ActivationTicketInvalid
             else case (app_of db (uc_app ctx), key_named db (uc_app ctx) (kid_of d) ''signing'') of
               (Some a, Some k) \<Rightarrow>
                 if ky_status k \<noteq> ''active'' \<or> \<not> signature_ok env k (utf8 (''zgat1.'' @ encoded)) signature then Inl ActivationTicketInvalid
                 else Inr \<lparr>vt_hash = app_token_hash env token, vt_jti = vget d ''jti'', vt_signing_key = ky_id k\<rparr>
             | _ \<Rightarrow> Inl ActivationTicketInvalid)
       | _ \<Rightarrow> Inl (AppRaised AttributeError))"

definition app_attestation_message :: "string \<Rightarrow> string \<Rightarrow> string \<Rightarrow> bytes \<Rightarrow> bytes" where
  "app_attestation_message pid kid username device_public =
     utf8 (join_with [CHR 0x0A] [''ZAGROS-APP-ATTEST-V1'', pid, kid, username, b64e device_public] @ [CHR 0x0A])"

definition kid_char :: "char \<Rightarrow> bool" where
  "kid_char c \<longleftrightarrow> c \<in> set b64_alphabet \<or> c = CHR ''.''"

definition verify_app_attestation :: "app_env \<Rightarrow> string \<Rightarrow> string \<Rightarrow> bytes \<Rightarrow> string \<Rightarrow> app_db \<Rightarrow> app_error + unit" where
  "verify_app_attestation env pid kid message signature_text db =
     (if kid = [] \<or> int (length kid) > 64 \<or> \<not> list_all kid_char kid then Inl ApplicationAuthFailed
      else case app_named db pid of
        None \<Rightarrow> Inl ApplicationAuthFailed
      | Some a \<Rightarrow>
          if ap_status a \<noteq> ''active'' \<or> ap_signing_kid a \<in> {None, Some []} \<or> ap_signing_kid a \<noteq> Some kid then Inl ApplicationAuthFailed
          else case key_named db (ap_id a) (Some kid) ''signing'' of
            None \<Rightarrow> Inl ApplicationAuthFailed
          | Some k \<Rightarrow>
              if ky_status k \<noteq> ''active'' then Inl ApplicationAuthFailed
              else (case b64url_decode signature_text (Some 64) of
                      Inl _ \<Rightarrow> Inl ApplicationAuthFailed
                    | Inr signature \<Rightarrow> if signature_ok env k message signature then Inr () else Inl ApplicationAuthFailed))"

section \<open>Enrollment\<close>

record device_request =
  dr_public :: bytes
  dr_name :: "string option"
  dr_platform :: "string option"
  dr_version :: "string option"
  dr_ip :: "string option"
  dr_agent :: "string option"

definition fingerprint_of :: "app_env \<Rightarrow> bytes \<Rightarrow> string" where
  "fingerprint_of env public = hexdigest (sha256 env public)"

text \<open>The hint shows both ends of the fingerprint around a one-character mark.\<close>

definition new_device :: "app_env \<Rightarrow> int \<Rightarrow> string \<Rightarrow> int \<Rightarrow> user_row \<Rightarrow> app_row \<Rightarrow> device_request \<Rightarrow> device_row" where
  "new_device env i key_hex now u a rq =
     (let fp = fingerprint_of env (dr_public rq)
      in \<lparr>dv_id = i, dv_user = us_id u, dv_app = Some (ap_id a),
          dv_hash = hexdigest (sha256 env (utf8 (''zagros-application-device-v1'' @ [CHR 0x00] @ int_to_str (ap_id a) @ [CHR 0x00]) @ dr_public rq)),
          dv_hint = take 8 fp @ [CHR 0x85] @ drop (length fp - 6) fp, dv_public = Some (b64e (dr_public rq)),
          dv_fingerprint = Some fp, dv_key_id = Some (''dev-'' @ key_hex), dv_status = Some ''active'',
          dv_name = cut_strip 128 (dr_name rq), dv_platform = cut_strip 32 (dr_platform rq), dv_version = cut_strip 64 (dr_version rq),
          dv_first = now, dv_last = now, dv_auth = Some now, dv_revoked = None, dv_reason = None,
          dv_agent = cut 512 (dr_agent rq), dv_ip = Some (safe_source_ip env (dr_ip rq))\<rparr>)"

text \<open>
  The part both enrollments share: the device must be new, a slot must be free, and the row is inserted under the
  unique constraints of the table. \<open>taken\<close> is the error for a device that is already enrolled.
\<close>

definition insert_device ::
  "app_env \<Rightarrow> app_error \<Rightarrow> string \<Rightarrow> int \<Rightarrow> user_row \<Rightarrow> app_row \<Rightarrow> device_request \<Rightarrow> app_db \<Rightarrow> device_row app_result" where
  "insert_device env taken key_hex now u a rq db =
     (if \<exists>d \<in> set (devices db). dv_user d = us_id u \<and> dv_app d = Some (ap_id a) \<and> dv_fingerprint d = Some (fingerprint_of env (dr_public rq))
      then (Inl taken, db)
      else if slot_limit (us_device_limit u) \<noteq> 0 \<and> occupying_device_count db (us_id u) \<ge> slot_limit (us_device_limit u)
      then (Inl DeviceLimitReached, db)
      else
        (let d = new_device env (fresh_id (map dv_id (devices db))) key_hex now u a rq
         in if \<exists>x \<in> set (devices db). dv_user x = dv_user d \<and> (dv_hash x = dv_hash d \<or> (dv_app x = dv_app d \<and> dv_public x = dv_public d))
            then (Inl IntegrityError, db)
            else (Inr d,
                  audit ''application.device.enrolled''
                    (no_audit\<lparr>ar_app := Some (ap_id a), ar_user := Some (us_id u), ar_device := Some (dv_id d),
                              ar_ip_hash := Some (identifier_hash env ''ip'' (safe_source_ip env (dr_ip rq)))\<rparr>)
                    (db\<lparr>devices := devices db @ [d]\<rparr>))))"

definition ticket_matches :: "int \<Rightarrow> app_row \<Rightarrow> user_row \<Rightarrow> grant_row \<Rightarrow> verified_ticket \<Rightarrow> ticket_row \<Rightarrow> bool" where
  "ticket_matches now a u g vt t \<longleftrightarrow>
     tk_app t = ap_id a \<and> tk_user t = Some (us_id u) \<and> tk_grant t = Some (gr_id g) \<and> tk_key t = vt_signing_key vt \<and>
     VStr (tk_jti t) = vt_jti vt \<and> tk_consumed t = None \<and> tk_revoked t = None \<and> now < tk_expires t"

definition consume_ticket_and_enroll ::
  "app_env \<Rightarrow> string \<Rightarrow> int \<Rightarrow> user_context \<Rightarrow> verified_ticket \<Rightarrow> device_request \<Rightarrow> app_db \<Rightarrow> device_row app_result" where
  "consume_ticket_and_enroll env key_hex now ctx vt rq db =
     (case (user_of db (uc_user ctx), Option.bind (uc_grant ctx) (grant_of db), app_of db (uc_app ctx),
            one_or_none (\<lambda>t. tk_hash t = vt_hash vt) (tickets db)) of
        (Some u, Some g, Some a, Some t) \<Rightarrow>
          if ap_status a \<noteq> ''active'' \<or> gr_status g \<noteq> ''active'' \<or> us_status u \<noteq> ''active'' \<or> us_access_mode u \<noteq> Some ''application'' \<or>
             \<not> ticket_matches now a u g vt t \<or>
             (case tk_intended t of None \<Rightarrow> False | Some h \<Rightarrow> h \<noteq> [] \<and> h \<noteq> fingerprint_of env (dr_public rq))
          then (Inl ActivationTicketInvalid, db)
          else
            (case insert_device env ActivationTicketInvalid key_hex now u a rq db of
               (Inl e, db1) \<Rightarrow> (Inl e, db1)
             | (Inr d, db1) \<Rightarrow>
                 (Inr d, db1\<lparr>tickets := update_where (\<lambda>x. tk_hash x = tk_hash t) (\<lambda>x. x\<lparr>tk_consumed := Some now\<rparr>) (tickets db1)\<rparr>))
      | _ \<Rightarrow> (Inl ActivationTicketInvalid, db))"

definition enroll_attested_device ::
  "app_env \<Rightarrow> string \<Rightarrow> int \<Rightarrow> user_context \<Rightarrow> device_request \<Rightarrow> app_db \<Rightarrow> device_row app_result" where
  "enroll_attested_device env key_hex now ctx rq db =
     (let g = Option.bind (uc_grant ctx) (grant_of db)
      in case (user_of db (uc_user ctx), app_of db (uc_app ctx)) of
           (Some u, Some a) \<Rightarrow>
             if ap_status a \<noteq> ''active'' \<or> us_status u \<noteq> ''active'' \<or> us_access_mode u \<noteq> Some ''application'' \<or>
                mode_of a = ''bound_only'' \<and> (case g of None \<Rightarrow> True | Some g \<Rightarrow> gr_status g \<noteq> ''active'')
             then (Inl ApplicationAuthFailed, db)
             else insert_device env ApplicationAuthFailed key_hex now u a rq db
         | _ \<Rightarrow> (Inl ApplicationAuthFailed, db))"

section \<open>Refresh token families\<close>

record refresh_issue =
  ri_secret :: string
  ri_hash :: string
  ri_family :: string
  ri_expires :: int

definition new_refresh :: "app_env \<Rightarrow> string \<Rightarrow> string \<Rightarrow> int \<Rightarrow> int \<Rightarrow> string option \<Rightarrow> refresh_issue" where
  "new_refresh env secret family_hex ttl now family =
     \<lparr>ri_secret = secret, ri_hash = app_token_hash env secret, ri_family = or_text family family_hex, ri_expires = now + secs ttl\<rparr>"

definition save_initial_refresh :: "user_context \<Rightarrow> int \<Rightarrow> refresh_issue \<Rightarrow> int \<Rightarrow> string option \<Rightarrow> app_db \<Rightarrow> unit app_result" where
  "save_initial_refresh ctx device issue now agent db =
     (if \<exists>t \<in> set (tokens db). rt_hash t = ri_hash issue then (Inl IntegrityError, db)
      else (Inr (),
            audit ''application.auth.success'' (no_audit\<lparr>ar_app := Some (uc_app ctx), ar_user := Some (uc_user ctx), ar_device := Some device\<rparr>)
              (db\<lparr>tokens := tokens db @ [\<lparr>rt_hash = ri_hash issue, rt_user = uc_user ctx, rt_app = Some (uc_app ctx), rt_device = Some device,
                   rt_key = Some (uc_key ctx), rt_family = Some (ri_family issue), rt_parent = None, rt_expires = ri_expires issue,
                   rt_revoked = False, rt_rotated = None, rt_created = now, rt_used = None, rt_revoked_at = None, rt_reason = None,
                   rt_agent = cut 256 agent\<rparr>]\<rparr>)))"

definition revoke_family :: "int \<Rightarrow> string \<Rightarrow> string \<Rightarrow> app_db \<Rightarrow> app_db" where
  "revoke_family now reason family db =
     revoke_configs (\<lambda>c. cg_family c = family) now reason (revoke_tokens (\<lambda>t. rt_family t = Some family) now reason db)"

definition refresh_replayed :: "int \<Rightarrow> token_row \<Rightarrow> string \<Rightarrow> app_db \<Rightarrow> app_db" where
  "refresh_replayed now old family db =
     audit ''application.refresh.replay''
       (no_audit\<lparr>ar_app := rt_app old, ar_user := Some (rt_user old), ar_device := rt_device old, ar_result := ''denied'',
                 ar_reason := Some ''refresh_reuse''\<rparr>)
       (revoke_family now ''refresh_reuse'' family db)"

text \<open>
  Rotation up to the conditional update. The reads come from \<open>seen\<close>, the writes go to \<open>db\<close>: under a lock both are
  the same, without one (SQLite ignores \<open>FOR UPDATE\<close>) other transactions may lie between them.
\<close>

datatype rotation =
    Refused "app_db \<Rightarrow> app_db"
  | Proceed token_row string user_context

definition nonempty :: "string option \<Rightarrow> string option" where
  "nonempty x = (case x of None \<Rightarrow> None | Some s \<Rightarrow> if s = [] then None else Some s)"

definition rotation_context :: "app_db \<Rightarrow> token_row \<Rightarrow> user_context option" where
  "rotation_context db old =
     (case (Option.bind (rt_app old) (app_of db), Option.bind (rt_device old) (device_of db), user_of db (rt_user old),
            Option.bind (rt_app old) (\<lambda>a. grant_for db a (rt_user old)), Option.bind (rt_key old) (key_of db)) of
        (Some a, Some d, Some u, Some g, Some k) \<Rightarrow>
          Some ((context_for db None (us_access_mode u) u (Some g) (ap_id a, ap_public_id a, ap_status a) (ky_id k, ky_kid k, ky_status k))
            \<lparr>uc_device := Some (dv_id d), uc_device_key_id := dv_key_id d, uc_device_status := dv_status d,
             uc_within := device_within_limit db (us_id u) (dv_id d) (us_device_limit u)\<rparr>)
      | _ \<Rightarrow> None)"

definition rotate_read :: "app_env \<Rightarrow> int \<Rightarrow> string \<Rightarrow> request_context \<Rightarrow> app_db \<Rightarrow> rotation" where
  "rotate_read env now secret ctx seen =
     (case one_or_none (\<lambda>t. rt_hash t = app_token_hash env secret) (tokens seen) of
        None \<Rightarrow> Refused id
      | Some old \<Rightarrow>
          if rt_revoked old then
            Refused (case nonempty (rt_family old) of None \<Rightarrow> id | Some family \<Rightarrow> refresh_replayed now old family)
          else if rt_expires old \<le> now then
            Refused (\<lambda>db. (case nonempty (rt_family old) of None \<Rightarrow> id | Some family \<Rightarrow> revoke_configs (\<lambda>c. cg_family c = family) now ''refresh_expired'')
                            (revoke_tokens (\<lambda>t. rt_hash t = rt_hash old) now ''expired'' db))
          else if rt_app old \<noteq> Some (rc_app ctx) \<or> rt_device old \<noteq> rc_device ctx \<or> rt_key old \<noteq> Some (rc_key ctx) then Refused id
          else (case (nonempty (rt_family old), rotation_context seen old) of
                  (Some family, Some uc) \<Rightarrow> Proceed old family uc
                | _ \<Rightarrow> Refused id))"

definition rotate_write ::
  "app_env \<Rightarrow> int \<Rightarrow> int \<Rightarrow> string \<Rightarrow> string option \<Rightarrow> rotation \<Rightarrow> app_db \<Rightarrow> (user_context \<times> refresh_issue) app_result" where
  "rotate_write env ttl now new_secret agent r db =
     (case r of
        Refused f \<Rightarrow> (Inl ApplicationAuthFailed, f db)
      | Proceed old family uc \<Rightarrow>
          (let issue = new_refresh env new_secret [] ttl now (Some family)
           in if count_where (\<lambda>t. rt_hash t = rt_hash old \<and> \<not> rt_revoked t) (tokens db) \<noteq> 1
              then (Inl ApplicationAuthFailed, refresh_replayed now old family db)
              else if \<exists>t \<in> set (tokens db). rt_hash t = ri_hash issue then (Inl IntegrityError, db)
              else
                (Inr (uc, issue),
                 audit ''application.refresh.rotated'' (no_audit\<lparr>ar_app := Some (uc_app uc), ar_user := Some (uc_user uc), ar_device := uc_device uc\<rparr>)
                   (db\<lparr>tokens :=
                        update_where (\<lambda>t. rt_hash t = rt_hash old \<and> \<not> rt_revoked t)
                          (\<lambda>t. t\<lparr>rt_revoked := True, rt_rotated := Some (ri_hash issue), rt_used := Some now, rt_revoked_at := Some now,
                                 rt_reason := Some ''rotated''\<rparr>) (tokens db)
                        @ [\<lparr>rt_hash = ri_hash issue, rt_user = uc_user uc, rt_app = Some (uc_app uc), rt_device = uc_device uc,
                            rt_key = Some (uc_key uc), rt_family = Some (ri_family issue), rt_parent = Some (rt_hash old),
                            rt_expires = ri_expires issue, rt_revoked = False, rt_rotated = None, rt_created = now, rt_used = None,
                            rt_revoked_at = None, rt_reason = None, rt_agent = cut 256 agent\<rparr>],
                      devices := update_where (\<lambda>d. Some (dv_id d) = uc_device uc)
                        (\<lambda>d. d\<lparr>dv_last := now, dv_auth := Some now\<rparr>) (devices db)\<rparr>))))"

definition rotate_refresh ::
  "app_env \<Rightarrow> int \<Rightarrow> int \<Rightarrow> string \<Rightarrow> string \<Rightarrow> request_context \<Rightarrow> string option \<Rightarrow> app_db \<Rightarrow> (user_context \<times> refresh_issue) app_result" where
  "rotate_refresh env ttl now new_secret secret ctx agent db =
     rotate_write env ttl now new_secret agent (rotate_read env now secret ctx db) db"

definition revoke_refresh_family :: "app_env \<Rightarrow> int \<Rightarrow> string \<Rightarrow> request_context \<Rightarrow> app_db \<Rightarrow> app_db" where
  "revoke_refresh_family env now secret ctx db =
     (case one_or_none (\<lambda>t. rt_hash t = app_token_hash env secret) (tokens db) of
        None \<Rightarrow> db
      | Some t \<Rightarrow>
          (case nonempty (rt_family t) of
             None \<Rightarrow> db
           | Some family \<Rightarrow>
               if rt_app t = Some (rc_app ctx) \<and> rt_device t = rc_device ctx then
                 audit ''application.auth.logout'' (no_audit\<lparr>ar_app := rt_app t, ar_user := Some (rt_user t), ar_device := rt_device t\<rparr>)
                   (revoke_family now ''logout'' family db)
               else db))"

definition mark_login_success :: "app_env \<Rightarrow> int \<Rightarrow> int \<Rightarrow> string option \<Rightarrow> string option \<Rightarrow> app_db \<Rightarrow> app_db" where
  "mark_login_success env device now source_ip agent db =
     db\<lparr>devices := update_where (\<lambda>d. dv_id d = device)
       (\<lambda>d. d\<lparr>dv_last := now, dv_auth := Some now, dv_ip := Some (safe_source_ip env source_ip), dv_agent := cut 512 agent\<rparr>) (devices db)\<rparr>"

end
