(* ===== verification/AppConnRepo.thy ===== *)
theory AppConnRepo
  imports AppEnrollRepo
begin

text \<open>
  The protected half of \<open>app/applicationapi/repository.py\<close>: the authority check every resource starts with, devices
  and their revocation, one-time config grants, and the connections with their leases. Connections and leases are
  changed together; a client request is several transactions, so the steps of different requests interleave. A
  transaction is one step: the methods that lock their rows are serialised by the database, while
  \<open>due_connection_leases\<close> reads without locks, so for it a commit of another transaction between its query and
  its own commit is not modelled.
\<close>

section \<open>The authority check\<close>

record authority =
  au_app :: app_row
  au_user :: user_row
  au_device :: device_row
  au_key :: key_row
  au_grant :: "grant_row option"
  au_used :: int

definition expired :: "int option \<Rightarrow> int \<Rightarrow> bool" where
  "expired t now \<longleftrightarrow> (case t of None \<Rightarrow> False | Some e \<Rightarrow> e \<le> now)"

definition not_yet :: "int option \<Rightarrow> int \<Rightarrow> bool" where
  "not_yet t now \<longleftrightarrow> (case t of None \<Rightarrow> False | Some e \<Rightarrow> e > now)"

definition over_quota :: "int option \<Rightarrow> int \<Rightarrow> bool" where
  "over_quota limit used \<longleftrightarrow> (case limit of None \<Rightarrow> False | Some n \<Rightarrow> used \<ge> n)"

definition authority_holds :: "app_db \<Rightarrow> int \<Rightarrow> user_context \<Rightarrow> authority \<Rightarrow> bool" where
  "authority_holds db now ctx x \<longleftrightarrow>
     (let a = au_app x; u = au_user x; d = au_device x; k = au_key x in
      \<not> (mode_of a = ''bound_only'' \<and> au_grant x = None) \<and>
      (case nonempty (uc_family ctx) of
         None \<Rightarrow> False
       | Some family \<Rightarrow> (case uc_device ctx of None \<Rightarrow> False | Some dev \<Rightarrow> active_family db now (uc_app ctx) (uc_user ctx) dev (uc_key ctx) family)) \<and>
      ap_public_id a = uc_app_public ctx \<and> ap_status a = ''active'' \<and>
      us_status u = ''active'' \<and> us_access_mode u = Some ''application'' \<and>
      dv_user d = us_id u \<and> dv_app d = Some (ap_id a) \<and> dv_key_id d = uc_device_key_id ctx \<and> dv_status d = Some ''active'' \<and>
      device_within_limit db (us_id u) (dv_id d) (us_device_limit u) \<and>
      ky_app k = ap_id a \<and> ky_kid k = uc_key_id ctx \<and> ky_purpose k = ''config_encryption'' \<and> ky_status k = ''active'' \<and>
      (case au_grant x of None \<Rightarrow> True | Some g \<Rightarrow> gr_app g = ap_id a \<and> gr_user g = us_id u \<and> gr_status g = ''active'') \<and>
      \<not> expired (us_expire u) now \<and> \<not> over_quota (us_data_limit u) (au_used x) \<and>
      \<not> not_yet (ky_not_before k) now \<and> \<not> expired (ky_not_after k) now)"

definition assert_resource_authority :: "app_db \<Rightarrow> int \<Rightarrow> user_context \<Rightarrow> app_error + authority" where
  "assert_resource_authority db now ctx =
     (case (user_of db (uc_user ctx), app_of db (uc_app ctx), Option.bind (uc_device ctx) (device_of db), key_of db (uc_key ctx)) of
        (Some u, Some a, Some d, Some k) \<Rightarrow>
          (let x = \<lparr>au_app = a, au_user = u, au_device = d, au_key = k, au_grant = Option.bind (uc_grant ctx) (grant_of db),
                    au_used = usage_of db (uc_user ctx)\<rparr>
           in if authority_holds db now ctx x then Inr x else Inl ApplicationForbidden)
      | _ \<Rightarrow> Inl ApplicationForbidden)"

section \<open>Profile and devices\<close>

record profile_view =
  pv_username :: string
  pv_status :: string
  pv_online :: bool
  pv_used :: int
  pv_limit :: "int option"
  pv_remaining :: "int option"
  pv_expire :: "int option"
  pv_app :: app_row

definition remaining_of :: "int option \<Rightarrow> int \<Rightarrow> int option" where
  "remaining_of limit used = map_option (\<lambda>n. max 0 (n - used)) limit"

definition application_profile :: "app_db \<Rightarrow> int \<Rightarrow> user_context \<Rightarrow> app_error + profile_view" where
  "application_profile db now ctx =
     rbind (assert_resource_authority db now ctx) (\<lambda>x.
       Inr \<lparr>pv_username = or_text (us_app_username (au_user x)) [], pv_status = us_status (au_user x),
            pv_online = (case us_online (au_user x) of None \<Rightarrow> False | Some t \<Rightarrow> now - t < secs 90),
            pv_used = au_used x, pv_limit = us_data_limit (au_user x), pv_remaining = remaining_of (us_data_limit (au_user x)) (au_used x),
            pv_expire = us_expire (au_user x), pv_app = au_app x\<rparr>)"

definition application_devices :: "app_db \<Rightarrow> int \<Rightarrow> user_context \<Rightarrow> app_error + (device_row \<times> bool) list" where
  "application_devices db now ctx =
     rbind (assert_resource_authority db now ctx) (\<lambda>x.
       Inr (map (\<lambda>d. (d, Some (dv_id d) = uc_device ctx))
         (sort_key (\<lambda>d. (dv_first d, dv_id d))
           (filter (\<lambda>d. dv_app d = Some (uc_app ctx) \<and> dv_user d = uc_user ctx \<and> dv_key_id d \<noteq> None) (devices db)))))"

definition revoke_device_rows :: "int \<Rightarrow> string \<Rightarrow> int \<Rightarrow> app_db \<Rightarrow> app_db" where
  "revoke_device_rows now reason device db =
     revoke_configs (\<lambda>c. cg_device c = device) now ''device_revoked''
      (revoke_tokens (\<lambda>t. rt_device t = Some device \<and> \<not> rt_revoked t) now ''device_revoked''
        (db\<lparr>devices := update_where (\<lambda>d. dv_id d = device)
             (\<lambda>d. d\<lparr>dv_status := Some ''revoked'', dv_revoked := Some now, dv_reason := Some reason\<rparr>) (devices db)\<rparr>))"

definition revoke_application_device :: "app_env \<Rightarrow> int \<Rightarrow> user_context \<Rightarrow> string \<Rightarrow> string option \<Rightarrow> app_db \<Rightarrow> unit app_result" where
  "revoke_application_device env now ctx target_key source_ip db =
     (case assert_resource_authority db now ctx of
        Inl e \<Rightarrow> (Inl e, db)
      | Inr x \<Rightarrow>
          (case one_or_none (\<lambda>d. dv_app d = Some (uc_app ctx) \<and> dv_user d = uc_user ctx \<and> dv_key_id d = Some target_key) (devices db) of
             None \<Rightarrow> (Inl DeviceNotFound, db)
           | Some d \<Rightarrow>
               (Inr (),
                if dv_status d \<noteq> Some ''revoked'' then
                  audit ''application.device.revoked''
                    (no_audit\<lparr>ar_app := Some (uc_app ctx), ar_user := Some (uc_user ctx), ar_device := Some (dv_id d),
                              ar_ip_hash := Some (identifier_hash env ''ip'' (safe_source_ip env source_ip))\<rparr>)
                    (revoke_device_rows now ''self_service'' (dv_id d) db)
                else db)))"

definition admin_revoke_application_device :: "int \<Rightarrow> string \<Rightarrow> string \<Rightarrow> app_db \<Rightarrow> unit app_result" where
  "admin_revoke_application_device now pid target_key db =
     (case Option.bind (app_named db pid) (\<lambda>a. map_option (Pair a)
             (one_or_none (\<lambda>d. dv_app d = Some (ap_id a) \<and> dv_key_id d = Some target_key) (devices db))) of
        None \<Rightarrow> (Inl DeviceNotFound, db)
      | Some (a, d) \<Rightarrow>
          (Inr (),
           if dv_status d \<noteq> Some ''revoked'' then
             audit ''application.device.revoked''
               (no_audit\<lparr>ar_app := Some (ap_id a), ar_user := Some (dv_user d), ar_device := Some (dv_id d), ar_actor := ''admin''\<rparr>)
               (revoke_device_rows now ''administrator'' (dv_id d) db)
           else db))"

section \<open>Config grants\<close>

record selector =
  se_core :: string
  se_protocol :: "string option"
  se_source :: "string option"
  se_inbound :: "string option"

definition clean_selector :: "selector \<Rightarrow> selector" where
  "clean_selector r = \<lparr>se_core = take 32 (se_core r), se_protocol = cut 32 (se_protocol r), se_source = cut 190 (se_source r),
     se_inbound = cut 64 (se_inbound r)\<rparr>"

fun unique_selectors :: "selector list \<Rightarrow> selector list \<Rightarrow> selector list" where
  "unique_selectors [] acc = acc"
| "unique_selectors (r # rs) acc =
     (let item = clean_selector r
      in unique_selectors rs (if se_core item \<noteq> [] \<and> item \<notin> set acc then acc @ [item] else acc))"

definition signing_key_of :: "app_db \<Rightarrow> int \<Rightarrow> app_row \<Rightarrow> key_row option" where
  "signing_key_of db now a =
     (case key_named db (ap_id a) (ap_signing_kid a) ''signing'' of
        None \<Rightarrow> None
      | Some k \<Rightarrow> if ky_status k \<noteq> ''active'' \<or> not_yet (ky_not_before k) now \<or> expired (ky_not_after k) now then None else Some k)"

definition new_config :: "user_context \<Rightarrow> int \<Rightarrow> int \<Rightarrow> int \<Rightarrow> selector \<times> string \<Rightarrow> config_row" where
  "new_config ctx dev now expires p =
     \<lparr>cg_public_id = snd p, cg_app = uc_app ctx, cg_user = uc_user ctx, cg_device = dev, cg_key = uc_key ctx,
      cg_family = or_text (uc_family ctx) [], cg_core = se_core (fst p), cg_protocol = se_protocol (fst p), cg_source = se_source (fst p),
      cg_inbound = se_inbound (fst p), cg_connection = None, cg_issued = now, cg_expires = expires, cg_consumed = None,
      cg_revoked = None, cg_reason = None\<rparr>"

text \<open>\<open>uuids\<close> gives the public id of the \<open>i\<close>-th row; the column is unique.\<close>

definition issue_config_grants ::
  "(nat \<Rightarrow> string) \<Rightarrow> int \<Rightarrow> int \<Rightarrow> user_context \<Rightarrow> selector list \<Rightarrow> app_db \<Rightarrow> config_row list app_result" where
  "issue_config_grants uuids now expires ctx requested db =
     (let unique = unique_selectors requested []
      in if unique = [] \<or> expires \<le> now then (Inr [], db)
         else case assert_resource_authority db now ctx of
           Inl e \<Rightarrow> (Inl e, db)
         | Inr x \<Rightarrow>
             (case signing_key_of db now (au_app x) of
                None \<Rightarrow> (Inl ApplicationForbidden, db)
              | Some sk \<Rightarrow>
                  (let dev = dv_id (au_device x);
                       ids = map uuids [0..<length unique];
                       rows = map (new_config ctx dev now expires) (zip unique ids);
                       db1 = revoke_configs (\<lambda>c. cg_app c = uc_app ctx \<and> cg_user c = uc_user ctx \<and> cg_device c = dev) now ''superseded'' db
                   in if \<not> distinct ids \<or> set ids \<inter> cg_public_id ` set (configs db) \<noteq> {} then (Inl IntegrityError, db)
                      else (Inr rows,
                            audit ''application.config.grants_issued''
                              (no_audit\<lparr>ar_app := Some (uc_app ctx), ar_user := Some (uc_user ctx), ar_device := uc_device ctx,
                                        ar_extra := [(''count'', VInt (int (length rows)))]\<rparr>)
                              (db1\<lparr>configs := configs db1 @ rows\<rparr>)))))"

definition bound_config :: "app_db \<Rightarrow> user_context \<Rightarrow> string \<Rightarrow> config_row option" where
  "bound_config db ctx pid =
     one_or_none (\<lambda>c. cg_public_id c = pid \<and> cg_app c = uc_app ctx \<and> cg_user c = uc_user ctx \<and> Some (cg_device c) = uc_device ctx \<and>
       cg_key c = uc_key ctx \<and> Some (cg_family c) = uc_family ctx) (configs db)"

definition usable_config :: "app_db \<Rightarrow> user_context \<Rightarrow> string \<Rightarrow> app_error + config_row" where
  "usable_config db ctx pid =
     (case bound_config db ctx pid of
        None \<Rightarrow> Inl ConfigGrantInvalid
      | Some c \<Rightarrow> if cg_revoked c \<noteq> None then Inl ConfigGrantInvalid else if cg_consumed c \<noteq> None then Inl ConfigGrantConsumed else Inr c)"

definition inspect_config_grant :: "app_db \<Rightarrow> int \<Rightarrow> user_context \<Rightarrow> string \<Rightarrow> app_error + config_row" where
  "inspect_config_grant db now ctx pid =
     rbind (assert_resource_authority db now ctx) (\<lambda>x. rbind (usable_config db ctx pid) (\<lambda>c.
       if cg_expires c \<le> now then Inl ConfigGrantExpired else Inr c))"

definition put_config :: "config_row \<Rightarrow> (config_row \<Rightarrow> config_row) \<Rightarrow> app_db \<Rightarrow> app_db" where
  "put_config c f db = db\<lparr>configs := update_where (\<lambda>r. cg_public_id r = cg_public_id c) f (configs db)\<rparr>"

definition lease_of :: "app_db \<Rightarrow> int \<Rightarrow> lease_row option" where
  "lease_of db i = one_or_none (\<lambda>l. ls_conn l = i) (leases db)"

definition conn_named :: "app_db \<Rightarrow> string \<Rightarrow> conn_row option" where
  "conn_named db pid = one_or_none (\<lambda>c. cn_public_id c = pid) (conns db)"

definition own_conn :: "app_db \<Rightarrow> user_context \<Rightarrow> string \<Rightarrow> conn_row option" where
  "own_conn db ctx pid =
     one_or_none (\<lambda>c. cn_public_id c = pid \<and> cn_app c = uc_app ctx \<and> cn_user c = uc_user ctx \<and> Some (cn_device c) = uc_device ctx) (conns db)"

text \<open>The lease a grant is bound to, when it may be delivered.\<close>

definition delivery_lease :: "app_db \<Rightarrow> int \<Rightarrow> user_context \<Rightarrow> config_row \<Rightarrow> app_error + conn_row \<times> lease_row" where
  "delivery_lease db now ctx c =
     (case nonempty (cg_connection c) of
        None \<Rightarrow> Inl ConnectionRequired
      | Some pid \<Rightarrow>
          (case Option.bind (own_conn db ctx pid) (\<lambda>cn. map_option (Pair cn) (lease_of db (cn_id cn))) of
             None \<Rightarrow> Inl ConnectionRequired
           | Some (cn, l) \<Rightarrow>
               if cn_status cn \<noteq> ''active'' \<or> ls_status l \<noteq> ''active'' \<or> ls_not_after l \<le> now then Inl ConnectionRequired else Inr (cn, l)))"

record delivery_material =
  dm_config :: config_row
  dm_app_public :: string
  dm_config_key_id :: string
  dm_config_private :: bytes
  dm_signing_key_id :: string
  dm_signing_private :: bytes
  dm_device_key_id :: string
  dm_device_public :: bytes

text \<open>\<open>except ValueError\<close> turns a failed decoding or decryption into a refusal; any other exception leaves the method.\<close>

definition delivery_error :: "app_error \<Rightarrow> app_error" where
  "delivery_error e = (if e = AppRaised ValueError then ApplicationAuthFailed else e)"

definition consume_config_grant :: "app_env \<Rightarrow> int \<Rightarrow> user_context \<Rightarrow> string \<Rightarrow> app_db \<Rightarrow> delivery_material app_result" where
  "consume_config_grant env now ctx pid db =
     (case rbind (assert_resource_authority db now ctx) (\<lambda>x. rbind (usable_config db ctx pid) (\<lambda>c. Inr (x, c))) of
        Inl e \<Rightarrow> (Inl e, db)
      | Inr (x, c) \<Rightarrow>
          if cg_expires c \<le> now then
            (Inl ConfigGrantExpired,
             audit ''application.config.denied''
               (no_audit\<lparr>ar_app := Some (ap_id (au_app x)), ar_user := Some (us_id (au_user x)), ar_device := Some (dv_id (au_device x)),
                         ar_result := ''denied'', ar_reason := Some ''expired''\<rparr>)
               (put_config c (\<lambda>r. r\<lparr>cg_revoked := Some now, cg_reason := Some ''expired''\<rparr>) db))
          else case delivery_lease db now ctx c of
            Inl e \<Rightarrow> (Inl e, db)
          | Inr _ \<Rightarrow>
              (case signing_key_of db now (au_app x) of
                 None \<Rightarrow> (Inl ApplicationForbidden, db)
               | Some sk \<Rightarrow>
                   (case rbind (b64url_decode (or_text (dv_public (au_device x)) []) (Some 32)) (\<lambda>device_public.
                         rbind (decrypt_private env (au_key x) (ap_public_id (au_app x))) (\<lambda>config_private.
                         rbind (decrypt_private env sk (ap_public_id (au_app x))) (\<lambda>signing_private.
                           Inr (device_public, config_private, signing_private)))) of
                      Inl e \<Rightarrow> (Inl (delivery_error e), db)
                    | Inr (device_public, config_private, signing_private) \<Rightarrow>
                        (Inr \<lparr>dm_config = c, dm_app_public = ap_public_id (au_app x), dm_config_key_id = ky_kid (au_key x),
                              dm_config_private = config_private, dm_signing_key_id = ky_kid sk, dm_signing_private = signing_private,
                              dm_device_key_id = or_text (dv_key_id (au_device x)) [], dm_device_public = device_public\<rparr>,
                         audit ''application.config.grant_consumed''
                           (no_audit\<lparr>ar_app := Some (ap_id (au_app x)), ar_user := Some (us_id (au_user x)),
                                     ar_device := Some (dv_id (au_device x)), ar_extra := [(''core_id'', VStr (cg_core c))]\<rparr>)
                           (put_config c (\<lambda>r. r\<lparr>cg_consumed := Some now\<rparr>) db)))))"

section \<open>Connections and leases\<close>

record lease_context =
  lc_conn :: conn_row
  lc_lease :: lease_row
  lc_settings :: "(string, pyval) dict"
  lc_created :: bool

definition lease_aad :: "string \<Rightarrow> string \<Rightarrow> string" where
  "lease_aad pid account = ''application-lease:'' @ pid @ '':'' @ account"

definition lease_settings :: "app_env \<Rightarrow> lease_row \<Rightarrow> app_error + (string, pyval) dict" where
  "lease_settings env l =
     (case nonempty (ls_credentials l) of
        None \<Rightarrow> Inr []
      | Some blob \<Rightarrow> lease_open env blob (lease_aad (ls_public_id l) (ls_account l)))"

definition opened_lease :: "app_env \<Rightarrow> conn_row \<Rightarrow> lease_row \<Rightarrow> app_error + lease_context" where
  "opened_lease env cn l =
     rbind (lease_settings env l) (\<lambda>d. Inr \<lparr>lc_conn = cn, lc_lease = l, lc_settings = d, lc_created = False\<rparr>)"

definition closed_lease :: "conn_row \<Rightarrow> lease_row \<Rightarrow> lease_context" where
  "closed_lease cn l = \<lparr>lc_conn = cn, lc_lease = l, lc_settings = [], lc_created = False\<rparr>"

definition connection_active_key :: "int \<Rightarrow> int \<Rightarrow> string \<Rightarrow> string \<Rightarrow> string" where
  "connection_active_key a dev core protocol = int_to_str a @ '':'' @ int_to_str dev @ '':'' @ core @ '':'' @ protocol"

definition put_conn :: "(conn_row \<Rightarrow> conn_row) \<Rightarrow> int \<Rightarrow> app_db \<Rightarrow> app_db" where
  "put_conn f i db = db\<lparr>conns := update_where (\<lambda>c. cn_id c = i) f (conns db)\<rparr>"

definition put_lease :: "(lease_row \<Rightarrow> lease_row) \<Rightarrow> int \<Rightarrow> app_db \<Rightarrow> app_db" where
  "put_lease f i db = db\<lparr>leases := update_where (\<lambda>l. ls_conn l = i) f (leases db)\<rparr>"

record conn_draws =
  cd_public_id :: string
  cd_lease_id :: string
  cd_account_hex :: string

definition target_kind :: "int option \<Rightarrow> string" where
  "target_kind node = (case node of None \<Rightarrow> ''local'' | Some n \<Rightarrow> if n = 0 then ''local'' else ''node'')"

definition new_conn :: "int \<Rightarrow> string \<Rightarrow> user_context \<Rightarrow> authority \<Rightarrow> string \<Rightarrow> string \<Rightarrow> int option \<Rightarrow> int \<Rightarrow> int \<Rightarrow> conn_row" where
  "new_conn i pid ctx x core protocol node not_after now =
     \<lparr>cn_id = i, cn_public_id = pid, cn_app = ap_id (au_app x), cn_user = us_id (au_user x), cn_device = dv_id (au_device x),
      cn_key = uc_key ctx, cn_family = or_text (uc_family ctx) [], cn_core = core, cn_protocol = protocol, cn_node = node,
      cn_target = target_kind node, cn_active_key = Some (connection_active_key (uc_app ctx) (dv_id (au_device x)) core protocol),
      cn_status = ''pending'', cn_observed = ''unknown'', cn_teardown = ''authorization_only'', cn_requested = now, cn_activated = None,
      cn_renewed = None, cn_not_after = not_after, cn_updated = now, cn_observed_at = None, cn_stopped = None, cn_stop_reason = None,
      cn_error = None\<rparr>"

definition new_lease :: "string \<Rightarrow> string \<Rightarrow> conn_row \<Rightarrow> int \<Rightarrow> lease_row" where
  "new_lease pid hex cn now =
     \<lparr>ls_public_id = pid, ls_conn = cn_id cn, ls_app = cn_app cn, ls_user = cn_user cn, ls_device = cn_device cn, ls_core = cn_core cn,
      ls_protocol = cn_protocol cn, ls_node = cn_node cn, ls_target = cn_target cn, ls_account = ''zgl-'' @ hex, ls_credentials = None,
      ls_status = ''pending'', ls_issued = now, ls_renewed = None, ls_not_after = cn_not_after cn, ls_applied = None,
      ls_revoke_requested = None, ls_revoked = None, ls_removed = None, ls_reason = None, ls_error = None\<rparr>"

definition reserved :: "user_context \<Rightarrow> authority \<Rightarrow> config_row \<Rightarrow> string \<Rightarrow> string \<Rightarrow> app_db \<Rightarrow> app_db" where
  "reserved ctx x c pid core db =
     audit ''application.connection.reserved''
       (no_audit\<lparr>ar_app := Some (ap_id (au_app x)), ar_user := Some (us_id (au_user x)), ar_device := Some (dv_id (au_device x)),
                 ar_extra := [(''core_id'', VStr core)]\<rparr>)
       (put_config c (\<lambda>r. r\<lparr>cg_connection := Some pid\<rparr>) db)"

definition reserve_new ::
  "conn_draws \<Rightarrow> int \<Rightarrow> int \<Rightarrow> int option \<Rightarrow> user_context \<Rightarrow> authority \<Rightarrow> config_row \<Rightarrow> string \<Rightarrow> app_db \<Rightarrow> lease_context app_result" where
  "reserve_new draws now not_after node ctx x c protocol db =
     (let cn = new_conn (fresh_id (map cn_id (conns db))) (cd_public_id draws) ctx x (cg_core c) protocol node not_after now;
          l = new_lease (cd_lease_id draws) (cd_account_hex draws) cn now
      in if conn_named db (cn_public_id cn) \<noteq> None \<or> (\<exists>r \<in> set (leases db). ls_public_id r = ls_public_id l \<or> ls_account r = ls_account l)
         then (Inl IntegrityError, db)
         else (Inr \<lparr>lc_conn = cn, lc_lease = l, lc_settings = [], lc_created = True\<rparr>,
               reserved ctx x c (cn_public_id cn) (cn_core cn) (db\<lparr>conns := conns db @ [cn], leases := leases db @ [l]\<rparr>)))"

definition renew_conn_row :: "user_context \<Rightarrow> int \<Rightarrow> int \<Rightarrow> conn_row \<Rightarrow> conn_row" where
  "renew_conn_row ctx not_after now cn =
     cn\<lparr>cn_key := uc_key ctx, cn_family := or_text (uc_family ctx) [], cn_not_after := not_after, cn_renewed := Some now, cn_updated := now,
        cn_status := (if cn_status cn \<in> {''error'', ''pending''} then ''pending'' else cn_status cn)\<rparr>"

definition renew_lease_row :: "conn_row \<Rightarrow> int \<Rightarrow> int \<Rightarrow> lease_row \<Rightarrow> lease_row" where
  "renew_lease_row cn not_after now l =
     l\<lparr>ls_not_after := not_after, ls_renewed := Some now,
       ls_status := (if cn_status cn \<in> {''error'', ''pending''} then ''pending'' else ls_status l)\<rparr>"

text \<open>The credentials are opened after the commit, so the writes stay when the cipher refuses them.\<close>

definition reserve_again ::
  "app_env \<Rightarrow> int \<Rightarrow> int \<Rightarrow> user_context \<Rightarrow> authority \<Rightarrow> config_row \<Rightarrow> conn_row \<Rightarrow> app_db \<Rightarrow> lease_context app_result" where
  "reserve_again env now not_after ctx x c cn db =
     (case lease_of db (cn_id cn) of
        None \<Rightarrow> (Inl ConnectionFailed, db)
      | Some l \<Rightarrow>
          (opened_lease env (renew_conn_row ctx not_after now cn) (renew_lease_row cn not_after now l),
           reserved ctx x c (cn_public_id cn) (cn_core cn)
             (put_lease (renew_lease_row cn not_after now) (cn_id cn) (put_conn (renew_conn_row ctx not_after now) (cn_id cn) db))))"

definition reserve_connection ::
  "app_env \<Rightarrow> conn_draws \<Rightarrow> int \<Rightarrow> int \<Rightarrow> int option \<Rightarrow> user_context \<Rightarrow> string \<Rightarrow> app_db \<Rightarrow> lease_context app_result" where
  "reserve_connection env draws now not_after node ctx config_id db =
     (case rbind (assert_resource_authority db now ctx) (\<lambda>x. rbind (usable_config db ctx config_id) (\<lambda>c. Inr (x, c))) of
        Inl e \<Rightarrow> (Inl e, db)
      | Inr (x, c) \<Rightarrow>
          if cg_expires c \<le> now then
            (Inl ConfigGrantExpired, put_config c (\<lambda>r. r\<lparr>cg_revoked := Some now, cg_reason := Some ''expired''\<rparr>) db)
          else case (nonempty (cg_protocol c), nonempty (cg_source c)) of
            (Some protocol, Some source) \<Rightarrow>
              (case one_or_none (\<lambda>r. cn_active_key r = Some (connection_active_key (uc_app ctx) (dv_id (au_device x)) (cg_core c) protocol)) (conns db) of
                 None \<Rightarrow> reserve_new draws now not_after node ctx x c protocol db
               | Some cn \<Rightarrow> reserve_again env now not_after ctx x c cn db)
          | _ \<Rightarrow> (Inl ConnectionRequired, db))"

definition complete_conn_row :: "int \<Rightarrow> int \<Rightarrow> string \<Rightarrow> conn_row \<Rightarrow> conn_row" where
  "complete_conn_row not_after now capability cn =
     cn\<lparr>cn_status := ''active'', cn_activated := (case cn_activated cn of None \<Rightarrow> Some now | Some t \<Rightarrow> Some t), cn_renewed := Some now,
        cn_not_after := not_after, cn_updated := now, cn_error := None, cn_teardown := take 32 capability\<rparr>"

definition complete_lease_row :: "app_env \<Rightarrow> bytes \<Rightarrow> (string, pyval) dict \<Rightarrow> int \<Rightarrow> int \<Rightarrow> lease_row \<Rightarrow> lease_row" where
  "complete_lease_row env nonce settings not_after now l =
     l\<lparr>ls_credentials := Some (lease_seal env nonce (VDict settings) (lease_aad (ls_public_id l) (ls_account l))), ls_status := ''active'',
       ls_applied := Some now, ls_not_after := not_after, ls_error := None\<rparr>"

definition complete_connection ::
  "app_env \<Rightarrow> bytes \<Rightarrow> int \<Rightarrow> int \<Rightarrow> string \<Rightarrow> (string, pyval) dict \<Rightarrow> string \<Rightarrow> app_db \<Rightarrow> lease_context app_result" where
  "complete_connection env nonce now not_after pid settings capability db =
     (case conn_named db pid of
        None \<Rightarrow> (Inl ConnectionNotFound, db)
      | Some cn \<Rightarrow>
          (case lease_of db (cn_id cn) of
             None \<Rightarrow> (Inl NoResultFound, db)
           | Some l \<Rightarrow>
               (Inr \<lparr>lc_conn = complete_conn_row not_after now capability cn, lc_lease = complete_lease_row env nonce settings not_after now l,
                     lc_settings = settings, lc_created = False\<rparr>,
                audit ''application.connection.active''
                  (no_audit\<lparr>ar_app := Some (cn_app cn), ar_user := Some (cn_user cn), ar_device := Some (cn_device cn),
                            ar_extra := [(''core_id'', VStr (cn_core cn))]\<rparr>)
                  (put_lease (complete_lease_row env nonce settings not_after now) (cn_id cn)
                    (put_conn (complete_conn_row not_after now capability) (cn_id cn) db)))))"

definition revoke_bound_configs :: "int \<Rightarrow> string \<Rightarrow> string \<Rightarrow> app_db \<Rightarrow> app_db" where
  "revoke_bound_configs now reason pid db = revoke_configs (\<lambda>c. cg_connection c = Some pid) now (take 500 reason) db"

definition fail_connection :: "int \<Rightarrow> string \<Rightarrow> string \<Rightarrow> app_db \<Rightarrow> app_db" where
  "fail_connection now pid reason db =
     (case conn_named db pid of
        None \<Rightarrow> db
      | Some cn \<Rightarrow>
          revoke_bound_configs now reason pid
           (put_lease (\<lambda>l. l\<lparr>ls_status := ''error'', ls_revoke_requested := Some now, ls_reason := Some (take 500 reason),
                            ls_error := Some (take 1000 reason)\<rparr>) (cn_id cn)
             (put_conn (\<lambda>c. c\<lparr>cn_status := ''error'', cn_active_key := None, cn_error := Some (take 1000 reason), cn_updated := now,
                             cn_stopped := Some now\<rparr>) (cn_id cn) db)))"

definition connection_for_config :: "app_env \<Rightarrow> int \<Rightarrow> user_context \<Rightarrow> string \<Rightarrow> app_db \<Rightarrow> app_error + lease_context" where
  "connection_for_config env now ctx config_id db =
     rbind (assert_resource_authority db now ctx) (\<lambda>x.
       case one_or_none (\<lambda>c. cg_public_id c = config_id \<and> cg_app c = uc_app ctx \<and> cg_user c = uc_user ctx \<and> Some (cg_device c) = uc_device ctx)
              (configs db) of
         None \<Rightarrow> Inl ConnectionRequired
       | Some c \<Rightarrow> rbind (delivery_lease db now ctx c) (\<lambda>(cn, l). opened_lease env cn l))"

definition final_status :: "string \<Rightarrow> bool" where
  "final_status s \<longleftrightarrow> s \<in> {''stopped'', ''expired'', ''revoked''}"

definition request_connection_stop :: "app_env \<Rightarrow> int \<Rightarrow> user_context \<Rightarrow> string \<Rightarrow> string \<Rightarrow> app_db \<Rightarrow> lease_context app_result" where
  "request_connection_stop env now ctx pid reason db =
     (case assert_resource_authority db now ctx of
        Inl e \<Rightarrow> (Inl e, db)
      | Inr x \<Rightarrow>
          (case own_conn db ctx pid of
             None \<Rightarrow> (Inl ConnectionNotFound, db)
           | Some cn \<Rightarrow>
               (case lease_of db (cn_id cn) of
                  None \<Rightarrow> (Inl NoResultFound, db)
                | Some l \<Rightarrow>
                    (let fc = (\<lambda>c. if final_status (cn_status c) then c else
                                 c\<lparr>cn_status := ''revoke_pending'', cn_active_key := None, cn_stop_reason := Some (take 500 reason),
                                   cn_stopped := Some now, cn_updated := now\<rparr>);
                         fl = (\<lambda>r. if final_status (cn_status cn) then r else
                                 r\<lparr>ls_status := ''revoke_pending'', ls_revoke_requested := Some now, ls_reason := Some (take 500 reason)\<rparr>)
                     in (opened_lease env (fc cn) (fl l),
                         revoke_bound_configs now reason pid (put_lease fl (cn_id cn) (put_conn fc (cn_id cn) db)))))))"

definition connection_statuses :: "app_db \<Rightarrow> int \<Rightarrow> user_context \<Rightarrow> string option \<Rightarrow> app_error + lease_context list" where
  "connection_statuses db now ctx pid =
     rbind (assert_resource_authority db now ctx) (\<lambda>x.
       Inr (concat (map (\<lambda>cn. case lease_of db (cn_id cn) of None \<Rightarrow> [] | Some l \<Rightarrow> [closed_lease cn l])
         (rev (sort_key (\<lambda>cn. (cn_requested cn, cn_id cn))
           (filter (\<lambda>cn. cn_app cn = uc_app ctx \<and> cn_user cn = uc_user ctx \<and> Some (cn_device cn) = uc_device ctx \<and>
              (nonempty pid = None \<or> Some (cn_public_id cn) = pid)) (conns db)))))))"

definition renew_connection :: "app_env \<Rightarrow> int \<Rightarrow> int \<Rightarrow> user_context \<Rightarrow> string \<Rightarrow> app_db \<Rightarrow> lease_context app_result" where
  "renew_connection env now not_after ctx pid db =
     (case assert_resource_authority db now ctx of
        Inl e \<Rightarrow> (Inl e, db)
      | Inr x \<Rightarrow>
          (case own_conn db ctx pid of
             None \<Rightarrow> (Inl ConnectionNotFound, db)
           | Some cn \<Rightarrow>
               if cn_status cn \<noteq> ''active'' then (Inl ConnectionNotFound, db)
               else case lease_of db (cn_id cn) of
                 None \<Rightarrow> (Inl ConnectionFailed, db)
               | Some l \<Rightarrow>
                   if ls_status l \<noteq> ''active'' \<or> ls_not_after l \<le> now then (Inl ConnectionFailed, db)
                   else
                     (let fc = (\<lambda>c. c\<lparr>cn_not_after := not_after, cn_renewed := Some now, cn_updated := now\<rparr>);
                          fl = (\<lambda>r. r\<lparr>ls_not_after := not_after, ls_renewed := Some now\<rparr>)
                      in (opened_lease env (fc cn) (fl l), put_lease fl (cn_id cn) (put_conn fc (cn_id cn) db)))))"

definition update_connection_observation :: "int \<Rightarrow> string \<Rightarrow> string \<Rightarrow> string option \<Rightarrow> app_db \<Rightarrow> app_db" where
  "update_connection_observation now pid observed error db =
     db\<lparr>conns := update_where (\<lambda>c. cn_public_id c = pid)
       (\<lambda>c. c\<lparr>cn_observed := take 24 observed, cn_observed_at := Some now, cn_updated := now, cn_error := cut 1000 error\<rparr>) (conns db)\<rparr>"

section \<open>Reconciliation\<close>

text \<open>One row of the join over connections, leases and the rows their authority rests on.\<close>

record lease_join =
  lj_conn :: conn_row
  lj_lease :: lease_row
  lj_app :: app_row
  lj_user :: user_row
  lj_device :: device_row
  lj_key :: key_row
  lj_grant :: "grant_row option"

definition join_lease :: "app_db \<Rightarrow> lease_row \<Rightarrow> lease_join option" where
  "join_lease db l =
     Option.bind (one_or_none (\<lambda>c. cn_id c = ls_conn l) (conns db)) (\<lambda>cn.
     Option.bind (app_of db (cn_app cn)) (\<lambda>a.
     Option.bind (user_of db (cn_user cn)) (\<lambda>u.
     Option.bind (device_of db (cn_device cn)) (\<lambda>d.
     map_option (\<lambda>k. \<lparr>lj_conn = cn, lj_lease = l, lj_app = a, lj_user = u, lj_device = d, lj_key = k,
       lj_grant = grant_for db (cn_app cn) (cn_user cn)\<rparr>) (key_of db (cn_key cn))))))"

definition lease_family_alive :: "app_db \<Rightarrow> int \<Rightarrow> conn_row \<Rightarrow> bool" where
  "lease_family_alive db now cn \<longleftrightarrow>
     (\<exists>t \<in> set (tokens db). rt_family t = Some (cn_family cn) \<and> rt_app t = Some (cn_app cn) \<and> rt_user t = cn_user cn \<and>
        rt_device t = Some (cn_device cn) \<and> \<not> rt_revoked t \<and> rt_expires t > now)"

definition authority_lost :: "app_db \<Rightarrow> int \<Rightarrow> lease_join \<Rightarrow> bool" where
  "authority_lost db now j \<longleftrightarrow>
     (let a = lj_app j; u = lj_user j; d = lj_device j; k = lj_key j in
      ap_status a \<noteq> ''active'' \<or> us_status u \<noteq> ''active'' \<or> us_access_mode u \<noteq> Some ''application'' \<or>
      dv_status d \<noteq> Some ''active'' \<or> dv_app d \<noteq> Some (ap_id a) \<or> dv_user d \<noteq> us_id u \<or>
      \<not> device_within_limit db (us_id u) (dv_id d) (us_device_limit u) \<or>
      ky_status k \<noteq> ''active'' \<or> ky_app k \<noteq> ap_id a \<or> not_yet (ky_not_before k) now \<or> expired (ky_not_after k) now \<or>
      (mode_of a = ''bound_only'' \<and> lj_grant j = None) \<or>
      expired (us_expire u) now \<or> over_quota (us_data_limit u) (usage_of db (us_id u)) \<or> \<not> lease_family_alive db now (lj_conn j))"

definition lease_due :: "app_db \<Rightarrow> int \<Rightarrow> lease_join \<Rightarrow> bool" where
  "lease_due db now j \<longleftrightarrow> ls_not_after (lj_lease j) \<le> now \<or> authority_lost db now j \<or> ls_status (lj_lease j) = ''revoke_pending''"

definition mark_lease :: "int \<Rightarrow> lease_row \<Rightarrow> lease_row" where
  "mark_lease now l =
     (if ls_status l = ''revoke_pending'' then l
      else l\<lparr>ls_status := ''revoke_pending'', ls_revoke_requested := Some now,
             ls_reason := Some (if ls_not_after l \<le> now then ''expired'' else ''authority_revoked'')\<rparr>)"

definition mark_conn :: "int \<Rightarrow> lease_row \<Rightarrow> conn_row \<Rightarrow> conn_row" where
  "mark_conn now l cn =
     (if ls_status l = ''revoke_pending'' then cn
      else cn\<lparr>cn_status := ''revoke_pending'', cn_active_key := None, cn_stop_reason := ls_reason (mark_lease now l),
              cn_stopped := (case cn_stopped cn of None \<Rightarrow> Some now | Some t \<Rightarrow> Some t), cn_updated := now\<rparr>)"

definition due_joins :: "app_db \<Rightarrow> int \<Rightarrow> lease_join list" where
  "due_joins db now =
     filter (lease_due db now)
       (List.map_filter (join_lease db) (sort_key ls_not_after (filter (\<lambda>l. ls_removed l = None) (leases db))))"

definition mark_due :: "int \<Rightarrow> lease_join \<Rightarrow> app_db \<Rightarrow> app_db" where
  "mark_due now j db =
     put_lease (mark_lease now) (cn_id (lj_conn j)) (put_conn (mark_conn now (lj_lease j)) (cn_id (lj_conn j)) db)"

fun open_all :: "app_env \<Rightarrow> int \<Rightarrow> lease_join list \<Rightarrow> app_error + lease_context list" where
  "open_all env now [] = Inr []"
| "open_all env now (j # js) =
     rbind (opened_lease env (mark_conn now (lj_lease j) (lj_conn j)) (mark_lease now (lj_lease j))) (\<lambda>x.
     rbind (open_all env now js) (\<lambda>xs. Inr (x # xs)))"

text \<open>Credentials that do not open abort the transaction, so no lease is marked then.\<close>

definition due_connection_leases :: "app_env \<Rightarrow> int \<Rightarrow> app_db \<Rightarrow> lease_context list app_result" where
  "due_connection_leases env now db =
     (case open_all env now (due_joins db now) of
        Inl e \<Rightarrow> (Inl e, db)
      | Inr xs \<Rightarrow> (Inr xs, fold (mark_due now) (due_joins db now) db))"

definition removed_conn_row :: "int \<Rightarrow> bool \<Rightarrow> string option \<Rightarrow> conn_row \<Rightarrow> conn_row" where
  "removed_conn_row now was_expired error cn =
     cn\<lparr>cn_status := (if error = None then (if was_expired then ''expired'' else ''stopped'') else ''revoke_pending''), cn_active_key := None,
        cn_observed := (if error = None then ''offline'' else ''unknown''), cn_observed_at := Some now, cn_updated := now,
        cn_stopped := (case cn_stopped cn of None \<Rightarrow> Some now | Some t \<Rightarrow> Some t), cn_error := cut 1000 error\<rparr>"

definition removed_lease_row :: "int \<Rightarrow> bool \<Rightarrow> string option \<Rightarrow> lease_row \<Rightarrow> lease_row" where
  "removed_lease_row now was_expired error l =
     (case error of
        None \<Rightarrow> l\<lparr>ls_status := (if was_expired then ''expired'' else ''stopped''), ls_revoked := Some now, ls_removed := Some now, ls_error := None\<rparr>
      | Some e \<Rightarrow> l\<lparr>ls_status := ''revoke_pending'', ls_error := Some (take 1000 e)\<rparr>)"

definition mark_connection_removed :: "int \<Rightarrow> string \<Rightarrow> bool \<Rightarrow> string option \<Rightarrow> app_db \<Rightarrow> app_db" where
  "mark_connection_removed now pid was_expired error db =
     (case conn_named db pid of
        None \<Rightarrow> db
      | Some cn \<Rightarrow> put_lease (removed_lease_row now was_expired error) (cn_id cn) (put_conn (removed_conn_row now was_expired error) (cn_id cn) db))"

definition lease_account_owners :: "app_db \<Rightarrow> (string \<times> string, int) dict" where
  "lease_account_owners db = dict_update [] (map (\<lambda>l. ((ls_core l, ls_account l), ls_user l)) (leases db))"

definition active_lease_accounts :: "app_env \<Rightarrow> int \<Rightarrow> string \<Rightarrow> int option \<Rightarrow> app_db \<Rightarrow> (app_error + lease_context) list" where
  "active_lease_accounts env now core node db =
     List.map_filter (\<lambda>l. map_option (\<lambda>cn. opened_lease env cn l) (one_or_none (\<lambda>c. cn_id c = ls_conn l) (conns db)))
       (filter (\<lambda>l. ls_core l = core \<and> ls_node l = node \<and> ls_status l \<in> {''active'', ''pending''} \<and> ls_not_after l > now \<and> ls_removed l = None)
         (leases db))"

record usage_view =
  uv_used :: int
  uv_uplink :: int
  uv_downlink :: int
  uv_limit :: "int option"
  uv_remaining :: "int option"
  uv_expire :: "int option"
  uv_active :: nat

definition usage_summary :: "app_db \<Rightarrow> int \<Rightarrow> user_context \<Rightarrow> app_error + usage_view" where
  "usage_summary db now ctx =
     rbind (assert_resource_authority db now ctx) (\<lambda>x.
       let (up, down) = (case dict_get (usage db) (us_id (au_user x)) of None \<Rightarrow> (0, 0) | Some p \<Rightarrow> p)
       in Inr \<lparr>uv_used = au_used x, uv_uplink = up, uv_downlink = down, uv_limit = us_data_limit (au_user x),
               uv_remaining = remaining_of (us_data_limit (au_user x)) (au_used x), uv_expire = us_expire (au_user x),
               uv_active = count_where (\<lambda>c. cn_app c = uc_app ctx \<and> cn_user c = uc_user ctx \<and> cn_status c = ''active'' \<and> cn_not_after c > now)
                 (conns db)\<rparr>)"

end
