(* ===== verification/AppRequests.thy ===== *)
theory AppRequests
  imports AppDb
begin

text \<open>
  Signed requests and access tokens: \<open>app/applicationapi/security.py\<close> and \<open>app/applicationapi/tokens.py\<close>. The
  canonical form of a request is what its MAC covers; the target in it is normalised by decoding and re-encoding the
  path and the sorted query. \<open>quote\<close>, \<open>unquote\<close> and \<open>parse_qsl\<close> are modelled on the bytes behind the text; the
  validity of UTF-8, SHA-256, HMAC, HKDF and the X25519 exchange are the fields of \<open>request_env\<close>.
\<close>

record request_env =
  rq_sha256 :: "bytes \<Rightarrow> bytes"
  rq_hmac :: "bytes \<Rightarrow> bytes \<Rightarrow> bytes"
  rq_hkdf :: "bytes \<Rightarrow> bytes \<Rightarrow> bytes \<Rightarrow> bytes"
  rq_exchange :: "bytes \<Rightarrow> bytes \<Rightarrow> app_error + bytes"
  rq_valid_utf8 :: "string \<Rightarrow> bool"

section \<open>Percent encoding\<close>

definition is_alnum :: "char \<Rightarrow> bool" where
  "is_alnum c \<longleftrightarrow> (let n = (of_char c :: nat) in 48 \<le> n \<and> n \<le> 57 \<or> 65 \<le> n \<and> n \<le> 90 \<or> 97 \<le> n \<and> n \<le> 122)"

definition upper_hex :: "nat \<Rightarrow> char" where
  "upper_hex n = (if n < 10 then char_of (48 + n) else char_of (55 + n))"

definition quote_char :: "string \<Rightarrow> char \<Rightarrow> string" where
  "quote_char safe c =
     (if is_alnum c \<or> c \<in> set ''_.-~'' \<or> c \<in> set safe then [c]
      else let n = (of_char c :: nat) in [CHR ''%'', upper_hex (n div 16), upper_hex (n mod 16)])"

definition quote :: "string \<Rightarrow> string \<Rightarrow> string" where
  "quote safe s = concat (map (quote_char safe) s)"

fun percent_decode :: "string \<Rightarrow> string" where
  "percent_decode (c # x # y # rest) =
     (if c = CHR ''%'' then
        (case (hex_value x, hex_value y) of
           (Some a, Some b) \<Rightarrow> char_of (16 * a + b) # percent_decode rest
         | _ \<Rightarrow> c # percent_decode (x # y # rest))
      else c # percent_decode (x # y # rest))"
| "percent_decode s = s"

definition unquote :: "request_env \<Rightarrow> string \<Rightarrow> app_error + string" where
  "unquote env s = (let t = percent_decode s in if rq_valid_utf8 env t then Inr t else Inl (AppRaised ValueError))"

text \<open>\<open>%(?![0-9A-Fa-f]{2})\<close>\<close>

fun bad_percent :: "string \<Rightarrow> bool" where
  "bad_percent [] = False"
| "bad_percent (c # cs) =
     ((c = CHR ''%'' \<and> (case cs of x # y # _ \<Rightarrow> hex_value x = None \<or> hex_value y = None | _ \<Rightarrow> True)) \<or> bad_percent cs)"

definition split_pair :: "string \<Rightarrow> string \<times> string" where
  "split_pair s = (takeWhile (\<lambda>c. c \<noteq> CHR ''='') s, drop 1 (dropWhile (\<lambda>c. c \<noteq> CHR ''='') s))"

definition plus_to_space :: "string \<Rightarrow> string" where
  "plus_to_space s = map (\<lambda>c. if c = CHR ''+'' then CHR '' '' else c) s"

fun parse_pairs :: "request_env \<Rightarrow> string list \<Rightarrow> app_error + (string \<times> string) list" where
  "parse_pairs env [] = Inr []"
| "parse_pairs env (p # ps) =
     (if p = [] then parse_pairs env ps
      else rbind (unquote env (plus_to_space (fst (split_pair p)))) (\<lambda>k.
           rbind (unquote env (plus_to_space (snd (split_pair p)))) (\<lambda>v.
           rbind (parse_pairs env ps) (\<lambda>rest. Inr ((k, v) # rest)))))"

definition parse_qsl :: "request_env \<Rightarrow> string \<Rightarrow> app_error + (string \<times> string) list" where
  "parse_qsl env query =
     (if query = [] then Inr []
      else if int (length (filter (\<lambda>c. c = CHR ''&'') query)) + 1 > 100 then Inl (AppRaised ValueError)
      else parse_pairs env (split_on (CHR ''&'') query))"

definition normalize_target :: "request_env \<Rightarrow> string \<Rightarrow> string \<Rightarrow> app_error + string" where
  "normalize_target env path0 raw_query =
     (let path = or_text (Some path0) ''/''
      in if bad_percent path \<or> bad_percent raw_query \<or> int (length path) > 2048 \<or> int (length raw_query) > 4096
         then Inl (AppRaised ValueError)
         else rbind (unquote env path) (\<lambda>plain.
              rbind (parse_qsl env raw_query) (\<lambda>pairs.
                let npath = quote ''/-._~'' plain;
                    npath' = (if take 1 npath = ''/'' then npath else CHR ''/'' # npath);
                    quoted = sort (map (\<lambda>(k, v). (quote ''-._~'' k, quote ''-._~'' v)) pairs);
                    query = join_with ''&'' (map (\<lambda>(k, v). k @ ''='' @ v) quoted)
                in Inr (if query = [] then npath' else npath' @ ''?'' @ query))))"

section \<open>The canonical request\<close>

record signed_request =
  sr_method :: string
  sr_path :: string
  sr_query :: string
  sr_body :: bytes
  sr_app :: string
  sr_key :: string
  sr_device :: "string option"
  sr_timestamp :: int
  sr_nonce :: string
  sr_signature :: string

definition CANONICAL_PREFIX :: string where
  "CANONICAL_PREFIX = ''ZAGROS-APPLICATION-REQUEST-V1''"

definition nonce_ok :: "string \<Rightarrow> bool" where
  "nonce_ok s \<longleftrightarrow> 16 \<le> length s \<and> int (length s) \<le> 128 \<and> list_all (\<lambda>c. is_alnum c \<or> c \<in> set ''_-'') s"

definition identifier_ok :: "string \<Rightarrow> bool" where
  "identifier_ok s \<longleftrightarrow> s \<noteq> [] \<and> int (length s) \<le> 128 \<and> list_all (\<lambda>c. is_alnum c \<or> c \<in> set ''._-'') s"

definition canonical_fields :: "request_env \<Rightarrow> signed_request \<Rightarrow> string \<Rightarrow> string list" where
  "canonical_fields env r target =
     [CANONICAL_PREFIX, py_upper (sr_method r), target, int_to_str (sr_timestamp r), sr_nonce r, sr_app r, sr_key r,
      or_text (sr_device r) ''-'', hexdigest (rq_sha256 env (sr_body r))]"

definition canonical_request :: "request_env \<Rightarrow> signed_request \<Rightarrow> app_error + bytes" where
  "canonical_request env r =
     (if \<not> nonce_ok (sr_nonce r) then Inl (AppRaised ValueError)
      else if \<not> identifier_ok (sr_app r) \<or> \<not> identifier_ok (sr_key r) \<or>
        (case sr_device r of None \<Rightarrow> False | Some d \<Rightarrow> d \<noteq> [] \<and> \<not> identifier_ok d) then Inl (AppRaised ValueError)
      else rbind (normalize_target env (sr_path r) (sr_query r)) (\<lambda>target.
        if list_ex (\<lambda>f. CHR 0x0A \<in> set f \<or> CHR 0x0D \<in> set f) (canonical_fields env r target) then Inl (AppRaised ValueError)
        else Inr (utf8 (join_with [CHR 0x0A] (canonical_fields env r target) @ [CHR 0x0A]))))"

definition canonical :: "request_env \<Rightarrow> signed_request \<Rightarrow> app_error + bytes" where
  "canonical env r = rbind (b64url_decode (sr_signature r) (Some 32)) (\<lambda>_. canonical_request env r)"

definition MAC_INFO :: bytes where
  "MAC_INFO = utf8 ''zagros/application/request-mac/v1''"

definition derive_request_mac_key :: "request_env \<Rightarrow> bytes \<Rightarrow> bytes \<Rightarrow> string \<Rightarrow> string \<Rightarrow> string option \<Rightarrow> app_error + bytes" where
  "derive_request_mac_key env private peer app key device =
     rbind (rq_exchange env private peer) (\<lambda>shared.
       let scope = utf8 (join_with [CHR 0x00] [app, key, or_text device ''-'']);
           salt = rq_sha256 env (utf8 (''zagros/application/request-salt/v1'' @ [CHR 0x00]) @ scope)
       in Inr (rq_hkdf env salt (MAC_INFO @ [0] @ scope) shared))"

definition request_signature :: "request_env \<Rightarrow> bytes \<Rightarrow> bytes \<Rightarrow> string" where
  "request_signature env mac_key message = b64e (rq_hmac env mac_key message)"

definition verify_request_signature :: "request_env \<Rightarrow> bytes \<Rightarrow> bytes \<Rightarrow> string \<Rightarrow> bool" where
  "verify_request_signature env mac_key message signature =
     (let provided = (case b64url_decode signature (Some 32) of Inl _ \<Rightarrow> replicate 32 0 | Inr bs \<Rightarrow> bs)
      in rq_hmac env mac_key message = provided)"

section \<open>Access tokens\<close>

record access_issue =
  ai_user :: int
  ai_app :: int
  ai_app_public :: string
  ai_device :: int
  ai_device_key :: string
  ai_key :: int
  ai_family :: string

definition access_payload :: "access_issue \<Rightarrow> int \<Rightarrow> int \<Rightarrow> string \<Rightarrow> pyval" where
  "access_payload c issued expires jti =
     VDict [(''sub'', VStr (int_to_str (ai_user c))), (''app'', VStr (int_to_str (ai_app c))), (''aid'', VStr (ai_app_public c)),
            (''dev'', VStr (int_to_str (ai_device c))), (''dkid'', VStr (ai_device_key c)), (''akid'', VStr (int_to_str (ai_key c))),
            (''fam'', VStr (ai_family c)), (''iat'', VInt issued), (''exp'', VInt expires), (''jti'', VStr jti),
            (''typ'', VStr ''application_access'')]"

definition access_signature :: "app_env \<Rightarrow> bytes \<Rightarrow> string \<Rightarrow> string" where
  "access_signature env key text = b64e (hmac env key (utf8 text))"

definition issue_access :: "app_env \<Rightarrow> bytes \<Rightarrow> int \<Rightarrow> int \<Rightarrow> string \<Rightarrow> access_issue \<Rightarrow> string \<times> int" where
  "issue_access env key ttl now jti c =
     (let issued = timestamp now; expires = issued + ttl;
          body = b64e (json_dumps env (access_payload c issued expires jti));
          signed = ''zgaa.'' @ body
      in (signed @ ''.'' @ access_signature env key signed, expires))"

definition REQUIRED_CLAIMS :: "string list" where
  "REQUIRED_CLAIMS = [''sub'', ''app'', ''aid'', ''dev'', ''dkid'', ''akid'', ''fam'', ''jti'']"

definition token_int :: "(string, pyval) dict \<Rightarrow> string \<Rightarrow> app_error + int" where
  "token_int d k = (case dict_get d k of None \<Rightarrow> Inr 0 | Some v \<Rightarrow> map_sum AppRaised id (py_int v))"

text \<open>\<open>ApplicationTokenError\<close> is a \<open>ValueError\<close>; callers turn it into the same failure.\<close>

definition verify_access_token :: "app_env \<Rightarrow> bytes \<Rightarrow> int \<Rightarrow> string \<Rightarrow> app_error + (string, pyval) dict" where
  "verify_access_token env key now token =
     (case split_on (CHR ''.'') token of
        [prefix, body, sig] \<Rightarrow>
          if prefix \<noteq> ''zgaa'' \<or> access_signature env key (prefix @ ''.'' @ body) \<noteq> sig then Inl (AppRaised ValueError)
          else case rbind (b64url_decode body None) (\<lambda>bs. case json_loads env bs of None \<Rightarrow> Inl (AppRaised ValueError) | Some v \<Rightarrow> Inr v) of
            Inl e \<Rightarrow> Inl e
          | Inr (VDict d) \<Rightarrow>
              (if \<not> py_eq (vget d ''typ'') (VStr ''application_access'') \<or> \<not> list_all (\<lambda>k. dict_in k d) REQUIRED_CLAIMS then Inl (AppRaised ValueError)
               else rbind (token_int d ''exp'') (\<lambda>expires. if expires \<le> timestamp now then Inl (AppRaised ValueError)
                 else rbind (token_int d ''iat'') (\<lambda>issued. if issued > timestamp now + 30 then Inl (AppRaised ValueError) else Inr d)))
          | Inr _ \<Rightarrow> Inl (AppRaised AttributeError)
      | _ \<Rightarrow> Inl (AppRaised ValueError))"

section \<open>Properties\<close>

lemma utf8_inj: "utf8 s = utf8 t \<longleftrightarrow> s = t"
proof -
  have "inj (of_char :: char \<Rightarrow> 8 word)"
    by (rule injI) (metis of_char_eq_iff unat_of_char)
  then show ?thesis by (simp add: utf8_def inj_map_eq_map)
qed

lemma join_fields_inj:
  assumes "\<forall>f \<in> set fs. c \<notin> set f" "\<forall>f \<in> set gs. c \<notin> set f" "fs \<noteq> []" "gs \<noteq> []"
    and "join_with [c] fs = join_with [c] gs"
  shows "fs = gs"
  by (metis split_on_join [OF assms(3,1)] split_on_join [OF assms(4,2)] assms(5))

lemma int_to_str_inj: "int_to_str i = int_to_str j \<Longrightarrow> i = j"
  by (metis int_of_str_to_str option.inject)

lemma hexdigest_inj: "hexdigest a = hexdigest b \<Longrightarrow> a = b"
  by (metis fromhex_hexdigest option.inject)

lemma canonical_fieldsE:
  assumes "canonical_request env r = Inr b"
  obtains target where "normalize_target env (sr_path r) (sr_query r) = Inr target"
    "b = utf8 (join_with [CHR 0x0A] (canonical_fields env r target) @ [CHR 0x0A])"
    "\<forall>f \<in> set (canonical_fields env r target). CHR 0x0A \<notin> set f"
  using assms by (auto simp: canonical_request_def rbind_Inr_iff list_ex_iff split: if_splits)

text \<open>
  What a request signature covers is unambiguous. Two requests with the same canonical bytes have the same
  method, normalised target, timestamp, nonce, application, key, device field and body digest, so a signature for one
  is no signature for another that differs in any of them.
\<close>
lemma canonical_request_unambiguous:
  assumes "canonical_request env r = Inr b" "canonical_request env r' = Inr b"
  shows "py_upper (sr_method r) = py_upper (sr_method r') \<and>
    normalize_target env (sr_path r) (sr_query r) = normalize_target env (sr_path r') (sr_query r') \<and>
    sr_timestamp r = sr_timestamp r' \<and> sr_nonce r = sr_nonce r' \<and> sr_app r = sr_app r' \<and> sr_key r = sr_key r' \<and>
    or_text (sr_device r) ''-'' = or_text (sr_device r') ''-'' \<and> rq_sha256 env (sr_body r) = rq_sha256 env (sr_body r')"
proof -
  obtain t where t: "normalize_target env (sr_path r) (sr_query r) = Inr t"
      "b = utf8 (join_with [CHR 0x0A] (canonical_fields env r t) @ [CHR 0x0A])" "\<forall>f \<in> set (canonical_fields env r t). CHR 0x0A \<notin> set f"
    by (rule canonical_fieldsE [OF assms(1)])
  obtain t' where t': "normalize_target env (sr_path r') (sr_query r') = Inr t'"
      "b = utf8 (join_with [CHR 0x0A] (canonical_fields env r' t') @ [CHR 0x0A])" "\<forall>f \<in> set (canonical_fields env r' t'). CHR 0x0A \<notin> set f"
    by (rule canonical_fieldsE [OF assms(2)])
  have "join_with [CHR 0x0A] (canonical_fields env r t) = join_with [CHR 0x0A] (canonical_fields env r' t')"
    using t(2) t'(2) by (simp add: utf8_inj)
  then have "canonical_fields env r t = canonical_fields env r' t'"
    by (intro join_fields_inj [OF t(3) t'(3)]) (simp_all add: canonical_fields_def)
  then show ?thesis using t(1) t'(1) by (auto simp: canonical_fields_def dest: int_to_str_inj hexdigest_inj)
qed

definition ex_request :: signed_request where
  "ex_request = \<lparr>sr_method = ''get'', sr_path = ''/a%7Eb'', sr_query = ''y=2&x=%31'', sr_body = [], sr_app = ''app'', sr_key = ''cfg-1'',
     sr_device = None, sr_timestamp = 100, sr_nonce = ''abcdefghijklmnop'', sr_signature = []\<rparr>"

definition ex_request_env :: request_env where
  "ex_request_env = \<lparr>rq_sha256 = (\<lambda>_. [171]), rq_hmac = (\<lambda>k m. m), rq_hkdf = (\<lambda>_ _ x. x), rq_exchange = (\<lambda>a b. Inr b), rq_valid_utf8 = (\<lambda>_. True)\<rparr>"

lemma canonical_request_unambiguous_example:
  "canonical_request ex_request_env ex_request = canonical_request ex_request_env (ex_request\<lparr>sr_path := ''/a~b'', sr_query := ''x=1&y=2''\<rparr>) \<and>
   normalize_target ex_request_env ''/a%7Eb'' ''y=2&x=%31'' = normalize_target ex_request_env ''/a~b'' ''x=1&y=2''"
proof -
  have eq: "canonical_request ex_request_env ex_request = canonical_request ex_request_env (ex_request\<lparr>sr_path := ''/a~b'', sr_query := ''x=1&y=2''\<rparr>)"
    "\<not> isl (canonical_request ex_request_env ex_request)" by code_simp+
  from eq(2) obtain b where b: "canonical_request ex_request_env ex_request = Inr b" by (cases "canonical_request ex_request_env ex_request") simp_all
  have "canonical_request ex_request_env (ex_request\<lparr>sr_path := ''/a~b'', sr_query := ''x=1&y=2''\<rparr>) = Inr b" using eq b by simp
  from canonical_request_unambiguous [OF b this] show ?thesis using eq(1) by (simp add: ex_request_def)
qed

section \<open>Percent encoding round trip\<close>

lemma hex_value_upper: "n < 16 \<Longrightarrow> hex_value (upper_hex n) = Some n"
  by (auto simp: hex_value_def upper_hex_def Let_def)

lemma percent_decode_plain: "c \<noteq> CHR ''%'' \<Longrightarrow> percent_decode (c # s) = c # percent_decode s"
  by (cases s rule: percent_decode.cases) auto

text \<open>Quoting keeps the text: decoding what \<open>quote\<close> wrote gives the bytes back, whatever is left unquoted.\<close>

lemma percent_roundtrip: "CHR ''%'' \<notin> set safe \<Longrightarrow> percent_decode (quote safe s) = s"
proof (induction s)
  case Nil
  then show ?case by (simp add: quote_def)
next
  case (Cons c s)
  then have ih: "percent_decode (concat (map (quote_char safe) s)) = s" by (simp add: quote_def)
  show ?case
  proof (cases "is_alnum c \<or> c \<in> set ''_.-~'' \<or> c \<in> set safe")
    case True
    then have "c \<noteq> CHR ''%''" using Cons.prems by (auto simp: is_alnum_def)
    then show ?thesis using True ih by (simp add: quote_def quote_char_def percent_decode_plain)
  next
    case False
    define n where "n = (of_char c :: nat)"
    have "n < 256" by (simp add: n_def)
    then have "n div 16 < 16" "n mod 16 < 16" by auto
    then have "percent_decode (quote_char safe c @ concat (map (quote_char safe) s)) = char_of (16 * (n div 16) + n mod 16) # s"
      using False ih by (simp add: quote_char_def Let_def hex_value_upper n_def)
    also have "\<dots> = c # s" by (simp add: n_def)
    finally show ?thesis by (simp add: quote_def)
  qed
qed

end
