(* ===== verification/AppAuthService.thy ===== *)
theory AppAuthService
  imports AppConnRepo AppRequests Passwords
begin

text \<open>
  The authentication service, \<open>app/applicationapi/service.py\<close>: signed requests with the replay ledger, password
  checks behind the throttle, enrollment, login, refresh, logout and the authorisation of protected requests. A
  method is the sequence of the transactions it awaits; the clock is read where the source reads it, so a method
  takes its own time \<open>now\<close>, the time \<open>t\<close> of the request check and the \<open>clock\<close> inside the replay ledger.
\<close>

record auth_env =
  ae_app :: app_env
  ae_req :: request_env
  ae_scrypt :: scrypt_fn
  ae_access_key :: bytes
  ae_access_ttl :: int
  ae_window :: int
  ae_refresh_ttl :: int
  ae_policy :: throttle_policy
  ae_dummy_hash :: string

section \<open>Signed requests\<close>

definition check_timestamp :: "auth_env \<Rightarrow> signed_request \<Rightarrow> int \<Rightarrow> app_error + unit" where
  "check_timestamp env r now = (if \<bar>timestamp now - sr_timestamp r\<bar> > ae_window env then Inl ApplicationAuthFailed else Inr ())"

definition validate_request_context :: "request_context \<Rightarrow> app_error + unit" where
  "validate_request_context c =
     (if rc_app_status c \<noteq> ''active'' \<or> rc_key_status c \<noteq> ''active'' then Inl ApplicationForbidden
      else if rc_device c \<noteq> None \<and> rc_device_status c \<noteq> Some ''active'' then Inl ApplicationForbidden
      else Inr ())"

definition validate_user_context :: "user_context \<Rightarrow> int \<Rightarrow> app_error + unit" where
  "validate_user_context c now =
     (if uc_app_status c \<noteq> ''active'' \<or> uc_key_status c \<noteq> ''active'' \<or> uc_user_status c \<noteq> ''active'' \<or>
         uc_access_mode c \<noteq> Some ''application'' \<or>
         (or_text (Some (uc_mode c)) ''all_users'' = ''bound_only'' \<and> (uc_grant c = None \<or> uc_grant_status c \<noteq> Some ''active'')) \<or>
         (uc_device c \<noteq> None \<and> (uc_device_status c \<noteq> Some ''active'' \<or> \<not> uc_within c)) then Inl ApplicationForbidden
      else if expired (uc_expire c) now then Inl ApplicationForbidden
      else if over_quota (uc_data_limit c) (uc_used c) then Inl ApplicationForbidden
      else Inr ())"

text \<open>What both kinds of request share once the key of the application is known.\<close>

definition admit_request ::
  "auth_env \<Rightarrow> int \<Rightarrow> int \<Rightarrow> signed_request \<Rightarrow> request_context \<Rightarrow> bytes \<Rightarrow> app_db \<Rightarrow> request_context app_result" where
  "admit_request env t clock r ctx peer db =
     (case derive_request_mac_key (ae_req env) (rc_private ctx) peer (rc_app_public ctx) (rc_key_id ctx) (rc_device_key_id ctx) of
        Inl _ \<Rightarrow> (Inl ApplicationAuthFailed, db)
      | Inr mac_key \<Rightarrow>
          (case canonical (ae_req env) r of
             Inl e \<Rightarrow> (Inl e, db)
           | Inr message \<Rightarrow>
               if \<not> verify_request_signature (ae_req env) mac_key message (sr_signature r) then
                 (Inl ApplicationAuthFailed,
                  audit ''application.request.signature_failed''
                    (no_audit\<lparr>ar_app := Some (rc_app ctx), ar_device := rc_device ctx, ar_result := ''denied'', ar_reason := Some ''signature''\<rparr>) db)
               else case validate_request_context ctx of
                 Inl e \<Rightarrow>
                   (Inl e, audit ''application.request.denied''
                      (no_audit\<lparr>ar_app := Some (rc_app ctx), ar_device := rc_device ctx, ar_result := ''denied'', ar_reason := Some ''revoked_context''\<rparr>) db)
               | Inr _ \<Rightarrow>
                   (case consume_nonce (ae_app env) clock ctx (sr_nonce r) (secs (sr_timestamp r)) (t + secs (ae_window env)) db of
                      (Inl e, db1) \<Rightarrow> (Inl e, db1)
                    | (Inr _, db1) \<Rightarrow> (Inr ctx, db1))))"

definition authenticate_enrollment_request ::
  "auth_env \<Rightarrow> int \<Rightarrow> int \<Rightarrow> signed_request \<Rightarrow> bytes \<Rightarrow> app_db \<Rightarrow> request_context app_result" where
  "authenticate_enrollment_request env t clock r device_public db =
     (case check_timestamp env r t of
        Inl e \<Rightarrow> (Inl e, db)
      | Inr _ \<Rightarrow>
          if sr_device r \<noteq> None then (Inl ApplicationAuthFailed, db)
          else case enrollment_request_key (ae_app env) (sr_app r) (sr_key r) db of
            Inl e \<Rightarrow> (Inl e, db)
          | Inr ctx \<Rightarrow> admit_request env t clock r ctx device_public db)"

definition authenticate_device_request :: "auth_env \<Rightarrow> int \<Rightarrow> int \<Rightarrow> signed_request \<Rightarrow> app_db \<Rightarrow> request_context app_result" where
  "authenticate_device_request env t clock r db =
     (case check_timestamp env r t of
        Inl e \<Rightarrow> (Inl e, db)
      | Inr _ \<Rightarrow>
          (case nonempty (sr_device r) of
             None \<Rightarrow> (Inl ApplicationAuthFailed, db)
           | Some device \<Rightarrow>
               (case device_request_key (ae_app env) (sr_app r) (sr_key r) device db of
                  Inl e \<Rightarrow> (Inl e, db)
                | Inr ctx \<Rightarrow> admit_request env t clock r ctx (case rc_device_public ctx of None \<Rightarrow> [] | Some p \<Rightarrow> p) db)))"

section \<open>Passwords\<close>

definition ip_hash :: "auth_env \<Rightarrow> string option \<Rightarrow> string" where
  "ip_hash env source_ip = identifier_hash (ae_app env) ''ip'' (safe_source_ip (ae_app env) source_ip)"

definition failed_password :: "auth_env \<Rightarrow> int \<Rightarrow> string \<Rightarrow> string option \<Rightarrow> int \<Rightarrow> app_db \<Rightarrow> app_db" where
  "failed_password env a username source_ip now db = record_auth_failure (ae_app env) (ae_policy env) a username source_ip now db"

definition password_auth ::
  "auth_env \<Rightarrow> int \<Rightarrow> request_context \<Rightarrow> string \<Rightarrow> string \<Rightarrow> string option \<Rightarrow> bool \<Rightarrow> app_db \<Rightarrow> user_context app_result" where
  "password_auth env now ctx username password source_ip device_bound db =
     (case assert_not_throttled (ae_app env) (rc_app ctx) username source_ip now db of
        Inl e \<Rightarrow>
          (Inl e, audit ''application.auth.throttled''
             (no_audit\<lparr>ar_app := Some (rc_app ctx), ar_device := rc_device ctx, ar_ip_hash := Some (ip_hash env source_ip),
                       ar_result := ''denied'', ar_reason := Some ''throttled''\<rparr>) db)
      | Inr _ \<Rightarrow>
          (let user = (if device_bound then device_user_context ctx (Some username) db else enrollment_user_context ctx username db);
               stored = (case Option.bind user uc_password_hash of None \<Rightarrow> ae_dummy_hash env | Some h \<Rightarrow> or_text (Some h) (ae_dummy_hash env))
           in case verify_password (ae_scrypt env) password stored of
                Inl _ \<Rightarrow> (Inl (AppRaised ValueError), db)
              | Inr valid \<Rightarrow>
                  (case (valid, user) of
                     (True, Some u) \<Rightarrow>
                       (case validate_user_context u now of
                          Inl e \<Rightarrow>
                            (Inl e, audit ''application.auth.denied''
                               (no_audit\<lparr>ar_app := Some (rc_app ctx), ar_user := Some (uc_user u), ar_device := rc_device ctx,
                                         ar_ip_hash := Some (ip_hash env source_ip), ar_result := ''denied'', ar_reason := Some ''policy''\<rparr>) db)
                        | Inr _ \<Rightarrow> (Inr u, db))
                   | _ \<Rightarrow> (Inl ApplicationAuthFailed, failed_password env (rc_app ctx) username source_ip now db))))"

section \<open>Sessions\<close>

record auth_tokens =
  at_access :: string
  at_access_expires :: int
  at_refresh :: string
  at_refresh_expires :: int

record draws =
  dw_key_hex :: string
  dw_secret :: string
  dw_family :: string
  dw_jti :: string

definition token_result :: "auth_env \<Rightarrow> int \<Rightarrow> string \<Rightarrow> user_context \<Rightarrow> int \<Rightarrow> string \<Rightarrow> refresh_issue \<Rightarrow> auth_tokens" where
  "token_result env now jti ctx device device_key issue =
     (let (access, expires) = issue_access (ae_app env) (ae_access_key env) (ae_access_ttl env) now jti
            \<lparr>ai_user = uc_user ctx, ai_app = uc_app ctx, ai_app_public = uc_app_public ctx, ai_device = device, ai_device_key = device_key,
             ai_key = uc_key ctx, ai_family = ri_family issue\<rparr>
      in \<lparr>at_access = access, at_access_expires = secs expires, at_refresh = ri_secret issue, at_refresh_expires = ri_expires issue\<rparr>)"

text \<open>The end of \<open>enroll\<close> and \<open>login\<close>: a new token family for the device.\<close>

definition open_session ::
  "auth_env \<Rightarrow> draws \<Rightarrow> int \<Rightarrow> user_context \<Rightarrow> string \<Rightarrow> int \<Rightarrow> string \<Rightarrow> string option \<Rightarrow> string option \<Rightarrow> app_db \<Rightarrow> auth_tokens app_result" where
  "open_session env dw now u username device device_key source_ip agent db =
     (let db1 = clear_auth_failures (ae_app env) (uc_app u) username source_ip db;
          issue = new_refresh (ae_app env) (dw_secret dw) (dw_family dw) (ae_refresh_ttl env) now None
      in case save_initial_refresh u device issue now agent db1 of
           (Inl e, db2) \<Rightarrow> (Inl e, db2)
         | (Inr _, db2) \<Rightarrow> (Inr (token_result env now (dw_jti dw) u device device_key issue), db2))"

definition enroll_ticket ::
  "auth_env \<Rightarrow> draws \<Rightarrow> int \<Rightarrow> user_context \<Rightarrow> string \<Rightarrow> string \<Rightarrow> device_request \<Rightarrow> app_db \<Rightarrow> device_row app_result" where
  "enroll_ticket env dw now u username ticket rq db =
     (let (r, db1) = (case verify_ticket (ae_app env) now u ticket (dr_public rq) db of
            Inl e \<Rightarrow> (Inl e, db)
          | Inr vt \<Rightarrow> consume_ticket_and_enroll (ae_app env) (dw_key_hex dw) now u vt rq db);
          denied = (\<lambda>action reason. audit action (no_audit\<lparr>ar_app := Some (uc_app u), ar_user := Some (uc_user u), ar_result := ''denied'', ar_reason := Some reason\<rparr>))
      in case r of
           Inl ActivationTicketInvalid \<Rightarrow>
             (r, denied ''application.activation.denied'' ''invalid_ticket'' (failed_password env (uc_app u) username (dr_ip rq) now db1))
         | Inl DeviceLimitReached \<Rightarrow> (r, denied ''application.device.enrollment_denied'' ''device_limit'' db1)
         | _ \<Rightarrow> (r, db1))"

definition enroll_attested ::
  "auth_env \<Rightarrow> draws \<Rightarrow> int \<Rightarrow> request_context \<Rightarrow> user_context \<Rightarrow> string \<Rightarrow> string option \<Rightarrow> string option \<Rightarrow> device_request \<Rightarrow> app_db
     \<Rightarrow> device_row app_result" where
  "enroll_attested env dw now ctx u username app_signature app_kid rq db =
     (let denied = (\<lambda>reason. audit ''application.device.enrollment_denied''
            (no_audit\<lparr>ar_app := Some (uc_app u), ar_user := Some (uc_user u), ar_result := ''denied'', ar_reason := Some reason\<rparr>))
      in case (nonempty app_signature, nonempty app_kid) of
           (Some signature, Some kid) \<Rightarrow>
             (case verify_app_attestation (ae_app env) (rc_app_public ctx) kid
                     (app_attestation_message (rc_app_public ctx) kid username (dr_public rq)) signature db of
                Inl e \<Rightarrow> (Inl e, denied ''app_attestation_invalid'' db)
              | Inr _ \<Rightarrow>
                  (case enroll_attested_device (ae_app env) (dw_key_hex dw) now u rq db of
                     (Inl e, db1) \<Rightarrow> (Inl e, if e = DeviceLimitReached then denied ''device_limit'' db1 else db1)
                   | (Inr d, db1) \<Rightarrow> (Inr d, db1)))
         | _ \<Rightarrow> (Inl ApplicationAuthFailed, denied ''app_attestation_missing'' db))"

definition enroll ::
  "auth_env \<Rightarrow> draws \<Rightarrow> int \<Rightarrow> int \<Rightarrow> int \<Rightarrow> signed_request \<Rightarrow> string \<Rightarrow> string \<Rightarrow> string option \<Rightarrow> string option \<Rightarrow> string option
     \<Rightarrow> string \<Rightarrow> device_request \<Rightarrow> app_db \<Rightarrow> (device_row \<times> auth_tokens) app_result" where
  "enroll env dw now t clock r username password ticket app_signature app_kid public_text rq0 db =
     (case b64url_decode public_text (Some 32) of
        Inl _ \<Rightarrow> (Inl ApplicationAuthFailed, db)
      | Inr public \<Rightarrow>
          (case authenticate_enrollment_request env t clock r public db of
             (Inl e, db1) \<Rightarrow> (Inl e, db1)
           | (Inr ctx, db1) \<Rightarrow>
               (case password_auth env now ctx username password (dr_ip rq0) False db1 of
                  (Inl e, db2) \<Rightarrow> (Inl e, db2)
                | (Inr u, db2) \<Rightarrow>
                    (let rq = rq0\<lparr>dr_public := public\<rparr>
                     in case (case nonempty ticket of
                                Some tk \<Rightarrow> enroll_ticket env dw now u username tk rq db2
                              | None \<Rightarrow> enroll_attested env dw now ctx u username app_signature app_kid rq db2) of
                          (Inl e, db3) \<Rightarrow> (Inl e, db3)
                        | (Inr d, db3) \<Rightarrow>
                            (case open_session env dw now u username (dv_id d) (or_text (dv_key_id d) []) (dr_ip rq) (dr_agent rq) db3 of
                               (Inl e, db4) \<Rightarrow> (Inl e, db4)
                             | (Inr tks, db4) \<Rightarrow> (Inr (d, tks), db4))))))"

definition login ::
  "auth_env \<Rightarrow> draws \<Rightarrow> int \<Rightarrow> int \<Rightarrow> int \<Rightarrow> signed_request \<Rightarrow> string \<Rightarrow> string \<Rightarrow> string option \<Rightarrow> string option \<Rightarrow> app_db
     \<Rightarrow> auth_tokens app_result" where
  "login env dw now t clock r username password source_ip agent db =
     (case authenticate_device_request env t clock r db of
        (Inl e, db1) \<Rightarrow> (Inl e, db1)
      | (Inr ctx, db1) \<Rightarrow>
          (case password_auth env now ctx username password source_ip True db1 of
             (Inl e, db2) \<Rightarrow> (Inl e, db2)
           | (Inr u, db2) \<Rightarrow>
               (case rc_device ctx of
                  None \<Rightarrow> (Inl IntegrityError, db2)
                | Some device \<Rightarrow>
                    (case open_session env dw now u username device (or_text (rc_device_key_id ctx) []) source_ip agent db2 of
                       (Inl e, db3) \<Rightarrow> (Inl e, db3)
                     | (Inr tks, db3) \<Rightarrow> (Inr tks, mark_login_success (ae_app env) device now source_ip agent db3)))))"

text \<open>The body of \<open>refresh\<close> inside its \<open>try\<close>; both error classes are audited.\<close>

definition try_refresh ::
  "auth_env \<Rightarrow> draws \<Rightarrow> int \<Rightarrow> request_context \<Rightarrow> string \<Rightarrow> string option \<Rightarrow> app_db \<Rightarrow> (user_context \<times> refresh_issue) app_result" where
  "try_refresh env dw now ctx secret agent db =
     (case device_user_context ctx None db of
        None \<Rightarrow> (Inl ApplicationAuthFailed, db)
      | Some current \<Rightarrow>
          (case validate_user_context current now of
             Inl e \<Rightarrow> (Inl e, db)
           | Inr _ \<Rightarrow>
               (case rotate_refresh (ae_app env) (ae_refresh_ttl env) now (dw_secret dw) secret ctx agent db of
                  (Inl e, db1) \<Rightarrow> (Inl e, db1)
                | (Inr (u, issue), db1) \<Rightarrow>
                    (case validate_user_context u now of Inl e \<Rightarrow> (Inl e, db1) | Inr _ \<Rightarrow> (Inr (u, issue), db1)))))"

definition refresh_session ::
  "auth_env \<Rightarrow> draws \<Rightarrow> int \<Rightarrow> int \<Rightarrow> int \<Rightarrow> signed_request \<Rightarrow> string \<Rightarrow> string option \<Rightarrow> app_db \<Rightarrow> auth_tokens app_result" where
  "refresh_session env dw now t clock r secret agent db =
     (case authenticate_device_request env t clock r db of
        (Inl e, db1) \<Rightarrow> (Inl e, db1)
      | (Inr ctx, db1) \<Rightarrow>
          (let denied = (\<lambda>reason. audit ''application.refresh.denied''
                 (no_audit\<lparr>ar_app := Some (rc_app ctx), ar_device := rc_device ctx, ar_result := ''denied'', ar_reason := Some reason\<rparr>))
           in case try_refresh env dw now ctx secret agent db1 of
                (Inl ApplicationForbidden, db2) \<Rightarrow> (Inl ApplicationForbidden, denied ''policy'' db2)
              | (Inl ApplicationAuthFailed, db2) \<Rightarrow> (Inl ApplicationAuthFailed, denied ''invalid_refresh'' db2)
              | (Inl e, db2) \<Rightarrow> (Inl e, db2)
              | (Inr (u, issue), db2) \<Rightarrow>
                  (Inr (token_result env now (dw_jti dw) u (case rc_device ctx of None \<Rightarrow> 0 | Some d \<Rightarrow> d) (or_text (rc_device_key_id ctx) []) issue), db2)))"

definition logout_session :: "auth_env \<Rightarrow> int \<Rightarrow> int \<Rightarrow> int \<Rightarrow> signed_request \<Rightarrow> string \<Rightarrow> app_db \<Rightarrow> unit app_result" where
  "logout_session env now t clock r secret db =
     (case authenticate_device_request env t clock r db of
        (Inl e, db1) \<Rightarrow> (Inl e, db1)
      | (Inr ctx, db1) \<Rightarrow> (Inr (), revoke_refresh_family (ae_app env) now secret ctx db1))"

section \<open>Protected requests\<close>

definition claims_of :: "(string, pyval) dict \<Rightarrow> app_error + access_claims" where
  "claims_of d =
     (let num = (\<lambda>k. map_sum AppRaised id (py_int (vget d k)))
      in rbind (num ''app'') (\<lambda>a. rbind (num ''sub'') (\<lambda>u. rbind (num ''dev'') (\<lambda>dev. rbind (num ''akid'') (\<lambda>k.
           Inr \<lparr>cl_app = a, cl_app_public = text_of (vget d ''aid''), cl_user = u, cl_device = dev,
                cl_device_key_id = text_of (vget d ''dkid''), cl_key = k, cl_family = text_of (vget d ''fam'')\<rparr>)))))"

definition authorize_access :: "auth_env \<Rightarrow> int \<Rightarrow> string \<Rightarrow> app_db \<Rightarrow> user_context app_result" where
  "authorize_access env now token db =
     (case rbind (verify_access_token (ae_app env) (ae_access_key env) now token) claims_of of
        Inl (AppRaised AttributeError) \<Rightarrow> (Inl (AppRaised AttributeError), db)
      | Inl _ \<Rightarrow> (Inl ApplicationAuthFailed, db)
      | Inr c \<Rightarrow>
          (case access_user_context now c db of
             (None, db1) \<Rightarrow> (Inl ApplicationAuthFailed, db1)
           | (Some u, db1) \<Rightarrow>
               (case validate_user_context u now of
                  Inl e \<Rightarrow>
                    (Inl e, audit ''application.access.denied''
                       (no_audit\<lparr>ar_app := Some (uc_app u), ar_user := Some (uc_user u), ar_device := uc_device u, ar_result := ''denied'',
                                 ar_reason := Some ''policy''\<rparr>) db1)
                | Inr _ \<Rightarrow> (Inr u, db1))))"

definition authorize_protected :: "auth_env \<Rightarrow> int \<Rightarrow> int \<Rightarrow> int \<Rightarrow> signed_request \<Rightarrow> string \<Rightarrow> app_db \<Rightarrow> user_context app_result" where
  "authorize_protected env now t clock r token db =
     (case authenticate_device_request env t clock r db of
        (Inl e, db1) \<Rightarrow> (Inl e, db1)
      | (Inr ctx, db1) \<Rightarrow>
          (case authorize_access env now token db1 of
             (Inl e, db2) \<Rightarrow> (Inl e, db2)
           | (Inr u, db2) \<Rightarrow>
               if rc_app ctx \<noteq> uc_app u \<or> rc_key ctx \<noteq> uc_key u \<or> rc_device ctx \<noteq> uc_device u \<or>
                  rc_device_key_id ctx \<noteq> uc_device_key_id u \<or> rc_user ctx \<noteq> Some (uc_user u)
               then (Inl ApplicationAuthFailed,
                     audit ''application.access.denied''
                       (no_audit\<lparr>ar_app := Some (rc_app ctx), ar_device := rc_device ctx, ar_result := ''denied'',
                                 ar_reason := Some ''request_token_binding''\<rparr>) db2)
               else (Inr u, db2)))"

definition reauthenticate :: "auth_env \<Rightarrow> int \<Rightarrow> user_context \<Rightarrow> string \<Rightarrow> string option \<Rightarrow> app_db \<Rightarrow> unit app_result" where
  "reauthenticate env now ctx password source_ip db =
     (let username = or_text (uc_username ctx) []
      in case assert_not_throttled (ae_app env) (uc_app ctx) username source_ip now db of
           Inl e \<Rightarrow>
             (Inl e, audit ''application.auth.throttled''
                (no_audit\<lparr>ar_app := Some (uc_app ctx), ar_user := Some (uc_user ctx), ar_device := uc_device ctx, ar_result := ''denied'',
                          ar_reason := Some ''device_reauth''\<rparr>) db)
         | Inr _ \<Rightarrow>
             (case verify_password (ae_scrypt env) password (or_text (uc_password_hash ctx) (ae_dummy_hash env)) of
                Inl _ \<Rightarrow> (Inl (AppRaised ValueError), db)
              | Inr True \<Rightarrow> (Inr (), clear_auth_failures (ae_app env) (uc_app ctx) username source_ip db)
              | Inr False \<Rightarrow> (Inl ApplicationAuthFailed, failed_password env (uc_app ctx) username source_ip now db)))"

end
