(* ===== verification/AppConnService.thy ===== *)
theory AppConnService
  imports AppAuthService
begin

text \<open>
  The connection service, \<open>app/applicationapi/connection_service.py\<close>: starting and stopping a connection, renewal with
  observation, the reconciliation of a core and the sweep of due leases. The cores of this host and the node agents
  are a state \<open>'c\<close> with the calls the service makes (\<open>core_side\<close>); a failing call gives the name of its exception. A
  method takes the user context its request was authorised for.
\<close>

section \<open>Cores and nodes\<close>

record lease_account =
  la_user :: int
  la_account :: string
  la_protocol :: string
  la_expire :: int
  la_limit :: "int option"
  la_settings :: "(string, pyval) dict"

record source_account =
  sa_core :: string
  sa_account :: string
  sa_protocol :: string
  sa_enabled :: bool
  sa_settings :: "(string, pyval) dict"
  sa_manageable :: bool
  sa_leasable :: bool

record 'c core_side =
  create_account :: "string \<Rightarrow> lease_account \<Rightarrow> 'c \<Rightarrow> (string + (string, pyval) dict) \<times> 'c"
  update_account :: "string \<Rightarrow> lease_account \<Rightarrow> 'c \<Rightarrow> (string + (string, pyval) dict) \<times> 'c"
  delete_account :: "string \<Rightarrow> string \<Rightarrow> 'c \<Rightarrow> string option \<times> 'c"
  teardown_capability :: "string \<Rightarrow> string"
  online_sessions :: "string \<Rightarrow> string \<Rightarrow> 'c \<Rightarrow> string + bool"
  tracks_online :: "string \<Rightarrow> bool"
  node_apply :: "int \<Rightarrow> lease_context \<Rightarrow> lease_account \<Rightarrow> 'c \<Rightarrow> (string + (string, pyval) dict) \<times> 'c"
  node_revoke :: "int \<Rightarrow> lease_context \<Rightarrow> 'c \<Rightarrow> string option \<times> 'c"
  node_status :: "int \<Rightarrow> lease_context \<Rightarrow> 'c \<Rightarrow> string + (string, pyval) dict"

record 'c conn_world =
  cw_db :: app_db
  cw_cores :: 'c

type_synonym ('c, 'a) conn_result = "(app_error + 'a) \<times> 'c conn_world"

definition LEASE_SETTING_KEYS :: "string list" where
  "LEASE_SETTING_KEYS = [''inbound_tags'', ''excluded_inbounds'', ''flow'', ''method'']"

definition initial_settings :: "source_account \<Rightarrow> (string, pyval) dict" where
  "initial_settings src = filter (\<lambda>(k, v). k \<in> set LEASE_SETTING_KEYS) (sa_settings src)"

definition lease_account_of :: "user_context \<Rightarrow> lease_context \<Rightarrow> (string, pyval) dict \<Rightarrow> lease_account" where
  "lease_account_of ctx lc settings =
     \<lparr>la_user = uc_user ctx, la_account = ls_account (lc_lease lc), la_protocol = cn_protocol (lc_conn lc),
      la_expire = ls_not_after (lc_lease lc), la_limit = uc_data_limit ctx, la_settings = settings\<rparr>"

definition select_source :: "source_account list \<Rightarrow> config_row \<Rightarrow> app_error + source_account" where
  "select_source accounts c =
     (case (nonempty (cg_protocol c), nonempty (cg_source c)) of
        (Some protocol, Some source) \<Rightarrow>
          (case find (\<lambda>s. sa_core s = cg_core c \<and> sa_account s = source \<and> sa_protocol s = protocol \<and> sa_enabled s) accounts of
             None \<Rightarrow> Inl ProtocolUnavailable
           | Some s \<Rightarrow> if \<not> sa_manageable s \<or> \<not> sa_leasable s then Inl ProtocolUnavailable else Inr s)
      | _ \<Rightarrow> Inl ProtocolUnavailable)"

definition source_of :: "app_db \<Rightarrow> int \<Rightarrow> user_context \<Rightarrow> string \<Rightarrow> source_account list \<Rightarrow> app_error + config_row \<times> source_account" where
  "source_of db now ctx config_id accounts =
     rbind (inspect_config_grant db now ctx config_id) (\<lambda>c. rbind (select_source accounts c) (\<lambda>s. Inr (c, s)))"

text \<open>\<open>_apply\<close>: the account on the core or on the node, with the settings and the teardown capability it reports.\<close>

definition apply_lease ::
  "'c core_side \<Rightarrow> user_context \<Rightarrow> lease_context \<Rightarrow> source_account \<Rightarrow> 'c \<Rightarrow> (string + (string, pyval) dict \<times> string) \<times> 'c" where
  "apply_lease side ctx lc src c =
     (let settings = (if lc_settings lc \<noteq> [] then lc_settings lc else initial_settings src);
          account = lease_account_of ctx lc settings; core = cn_core (lc_conn lc)
      in if cn_target (lc_conn lc) = ''node'' then
           (case cn_node (lc_conn lc) of
              None \<Rightarrow> (Inl ''ConnectionFailed'', c)
            | Some n \<Rightarrow>
                (case node_apply side n lc account c of
                   (Inl e, c1) \<Rightarrow> (Inl e, c1)
                 | (Inr d, c1) \<Rightarrow>
                     (case vget d ''settings'' of
                        VDict s \<Rightarrow> (Inr (s, text_of (py_or (vget d ''teardown_capability'') (VStr ''authorization_only''))), c1)
                      | _ \<Rightarrow> (Inl ''ConnectionFailed'', c1))))
         else
           (case (if lc_created lc then create_account side core account c else update_account side core account c) of
              (Inl e, c1) \<Rightarrow> (Inl e, c1)
            | (Inr s, c1) \<Rightarrow> (Inr (s, teardown_capability side core), c1)))"

definition error_name :: "app_error \<Rightarrow> string" where
  "error_name e = (if e = ConnectionNotFound then ''ConnectionNotFound'' else if e = NoResultFound then ''NoResultFound'' else ''Exception'')"

text \<open>The part of \<open>start\<close> after the reservation: apply on the core, then record; any failure marks the connection.\<close>

definition provision ::
  "app_env \<Rightarrow> 'c core_side \<Rightarrow> bytes \<Rightarrow> int \<Rightarrow> int \<Rightarrow> user_context \<Rightarrow> source_account \<Rightarrow> lease_context \<Rightarrow> 'c conn_world \<Rightarrow> ('c, lease_context) conn_result" where
  "provision env side nonce later not_after ctx src lc w =
     (let pid = cn_public_id (lc_conn lc);
          failed = (\<lambda>name w. (Inl ConnectionFailed, w\<lparr>cw_db := fail_connection later pid name (cw_db w)\<rparr>))
      in case apply_lease side ctx lc src (cw_cores w) of
           (Inl e, c1) \<Rightarrow> failed e (w\<lparr>cw_cores := c1\<rparr>)
         | (Inr (settings, capability), c1) \<Rightarrow>
             (case complete_connection env nonce later not_after pid settings capability (cw_db w) of
                (Inl e, db1) \<Rightarrow> failed (error_name e) (w\<lparr>cw_cores := c1, cw_db := db1\<rparr>)
              | (Inr done, db1) \<Rightarrow> (Inr done, w\<lparr>cw_cores := c1, cw_db := db1\<rparr>)))"

definition start_connection ::
  "app_env \<Rightarrow> 'c core_side \<Rightarrow> conn_draws \<Rightarrow> bytes \<Rightarrow> int \<Rightarrow> int \<Rightarrow> int \<Rightarrow> int option \<Rightarrow> source_account list \<Rightarrow> user_context \<Rightarrow> string
     \<Rightarrow> 'c conn_world \<Rightarrow> ('c, lease_context) conn_result" where
  "start_connection env side draws nonce ttl now later node accounts ctx config_id w =
     (case source_of (cw_db w) now ctx config_id accounts of
        Inl e \<Rightarrow> (Inl e, w)
      | Inr (c, src) \<Rightarrow>
          (case reserve_connection env draws now (now + secs ttl) node ctx config_id (cw_db w) of
             (Inl e, db1) \<Rightarrow> (Inl e, w\<lparr>cw_db := db1\<rparr>)
           | (Inr lc, db1) \<Rightarrow> provision env side nonce later (now + secs ttl) ctx src lc (w\<lparr>cw_db := db1\<rparr>)))"

section \<open>Teardown\<close>

definition teardown_lease :: "'c core_side \<Rightarrow> lease_context \<Rightarrow> 'c \<Rightarrow> string option \<times> 'c" where
  "teardown_lease side lc c =
     (if cn_target (lc_conn lc) = ''node'' then
        (case cn_node (lc_conn lc) of None \<Rightarrow> (Some ''ConnectionFailed'', c) | Some n \<Rightarrow> node_revoke side n lc c)
      else delete_account side (cn_core (lc_conn lc)) (ls_account (lc_lease lc)) c)"

definition remove_lease :: "'c core_side \<Rightarrow> int \<Rightarrow> bool \<Rightarrow> lease_context \<Rightarrow> 'c conn_world \<Rightarrow> bool \<times> 'c conn_world" where
  "remove_lease side later was_expired lc w =
     (case teardown_lease side lc (cw_cores w) of
        (err, c1) \<Rightarrow>
          (err = None, w\<lparr>cw_cores := c1, cw_db := mark_connection_removed later (cn_public_id (lc_conn lc)) was_expired err (cw_db w)\<rparr>))"

definition stop_connection ::
  "app_env \<Rightarrow> 'c core_side \<Rightarrow> int \<Rightarrow> int \<Rightarrow> user_context \<Rightarrow> string \<Rightarrow> 'c conn_world \<Rightarrow> ('c, lease_context) conn_result" where
  "stop_connection env side now later ctx pid w =
     (case request_connection_stop env now ctx pid ''client_stop'' (cw_db w) of
        (Inl e, db1) \<Rightarrow> (Inl e, w\<lparr>cw_db := db1\<rparr>)
      | (Inr lc, db1) \<Rightarrow>
          (let w2 = snd (remove_lease side later False lc (w\<lparr>cw_db := db1\<rparr>))
           in case connection_statuses (cw_db w2) later ctx (Some pid) of
                Inl e \<Rightarrow> (Inl e, w2)
              | Inr [] \<Rightarrow> (Inl (AppRaised IndexError), w2)
              | Inr (x # _) \<Rightarrow> (Inr x, w2)))"

section \<open>Observation and renewal\<close>

definition observe_lease :: "'c core_side \<Rightarrow> lease_context \<Rightarrow> 'c \<Rightarrow> string + string" where
  "observe_lease side lc c =
     (if cn_status (lc_conn lc) \<notin> {''active'', ''pending''} then Inr ''offline''
      else if cn_target (lc_conn lc) = ''node'' then
        (case cn_node (lc_conn lc) of
           None \<Rightarrow> Inr ''unknown''
         | Some n \<Rightarrow> rbind (node_status side n lc c) (\<lambda>d. Inr (text_of (py_or (vget d ''observed_status'') (VStr ''unknown'')))))
      else if \<not> tracks_online side (cn_core (lc_conn lc)) then Inr ''unknown''
      else rbind (online_sessions side (cn_core (lc_conn lc)) (ls_account (lc_lease lc)) c) (\<lambda>b. Inr (if b then ''online'' else ''offline'')))"

text \<open>A renewal that fails after its first transaction is only logged: the reported lease is then the renewed one.\<close>

definition renew_lease ::
  "app_env \<Rightarrow> 'c core_side \<Rightarrow> bytes \<Rightarrow> int \<Rightarrow> int \<Rightarrow> source_account list \<Rightarrow> user_context \<Rightarrow> lease_context \<Rightarrow> 'c conn_world \<Rightarrow> lease_context \<times> 'c conn_world" where
  "renew_lease env side nonce ttl now accounts ctx lc w =
     (case renew_connection env now (now + secs ttl) ctx (cn_public_id (lc_conn lc)) (cw_db w) of
        (Inl e, db1) \<Rightarrow> (lc, w\<lparr>cw_db := db1\<rparr>)
      | (Inr renewed, db1) \<Rightarrow>
          (case find (\<lambda>s. sa_core s = cn_core (lc_conn renewed) \<and> sa_protocol s = cn_protocol (lc_conn renewed)) accounts of
             None \<Rightarrow> (renewed, w\<lparr>cw_db := db1\<rparr>)
           | Some src \<Rightarrow>
               (case apply_lease side ctx renewed src (cw_cores w) of
                  (Inl e, c1) \<Rightarrow> (renewed, w\<lparr>cw_db := db1, cw_cores := c1\<rparr>)
                | (Inr (settings, capability), c1) \<Rightarrow>
                    (case complete_connection env nonce now (ls_not_after (lc_lease renewed)) (cn_public_id (lc_conn renewed)) settings capability db1 of
                       (Inl e, db2) \<Rightarrow> (renewed, w\<lparr>cw_db := db2, cw_cores := c1\<rparr>)
                     | (Inr done, db2) \<Rightarrow> (done, w\<lparr>cw_db := db2, cw_cores := c1\<rparr>)))))"

definition report_lease ::
  "app_env \<Rightarrow> 'c core_side \<Rightarrow> bytes \<Rightarrow> int \<Rightarrow> int \<Rightarrow> bool \<Rightarrow> source_account list \<Rightarrow> user_context \<Rightarrow> lease_context \<Rightarrow> 'c conn_world \<Rightarrow> lease_context \<times> 'c conn_world" where
  "report_lease env side nonce ttl now renew accounts ctx lc w =
     (let (lc1, w1) = (if renew \<and> cn_status (lc_conn lc) = ''active'' then renew_lease env side nonce ttl now accounts ctx lc w else (lc, w));
          pid = cn_public_id (lc_conn lc1)
      in case observe_lease side lc1 (cw_cores w1) of
           Inr observed \<Rightarrow>
             (lc1\<lparr>lc_conn := (lc_conn lc1)\<lparr>cn_observed := observed, cn_observed_at := Some now\<rparr>\<rparr>,
              w1\<lparr>cw_db := update_connection_observation now pid observed None (cw_db w1)\<rparr>)
         | Inl e \<Rightarrow> (lc1, w1\<lparr>cw_db := update_connection_observation now pid ''unknown'' (Some e) (cw_db w1)\<rparr>))"

fun report_leases ::
  "app_env \<Rightarrow> 'c core_side \<Rightarrow> bytes \<Rightarrow> int \<Rightarrow> int \<Rightarrow> bool \<Rightarrow> source_account list \<Rightarrow> user_context \<Rightarrow> lease_context list \<Rightarrow> 'c conn_world
     \<Rightarrow> lease_context list \<times> 'c conn_world" where
  "report_leases env side nonce ttl now renew accounts ctx [] w = ([], w)"
| "report_leases env side nonce ttl now renew accounts ctx (lc # lcs) w =
     (let (x, w1) = report_lease env side nonce ttl now renew accounts ctx lc w;
          (xs, w2) = report_leases env side nonce ttl now renew accounts ctx lcs w1
      in (x # xs, w2))"

definition connection_reports ::
  "app_env \<Rightarrow> 'c core_side \<Rightarrow> bytes \<Rightarrow> int \<Rightarrow> int \<Rightarrow> bool \<Rightarrow> source_account list \<Rightarrow> user_context \<Rightarrow> string option \<Rightarrow> 'c conn_world
     \<Rightarrow> ('c, lease_context list) conn_result" where
  "connection_reports env side nonce ttl now renew accounts ctx pid w =
     (case connection_statuses (cw_db w) now ctx pid of
        Inl e \<Rightarrow> (Inl e, w)
      | Inr rows \<Rightarrow> (let (xs, w1) = report_leases env side nonce ttl now renew accounts ctx rows w in (Inr xs, w1)))"

section \<open>Reconciliation\<close>

text \<open>\<open>owner\<close> tells whether the user of a lease still exists; the first exception ends the loop.\<close>

fun reassert_leases :: "'c core_side \<Rightarrow> (int \<Rightarrow> bool) \<Rightarrow> string \<Rightarrow> (app_error + lease_context) list \<Rightarrow> 'c \<Rightarrow> (string + nat) \<times> 'c" where
  "reassert_leases side owner core [] c = (Inr 0, c)"
| "reassert_leases side owner core (r # rs) c =
     (case r of
        Inl e \<Rightarrow> (Inl (error_name e), c)
      | Inr lc \<Rightarrow>
          if \<not> owner (cn_user (lc_conn lc)) then reassert_leases side owner core rs c
          else case update_account side core
                 \<lparr>la_user = cn_user (lc_conn lc), la_account = ls_account (lc_lease lc), la_protocol = cn_protocol (lc_conn lc),
                  la_expire = ls_not_after (lc_lease lc), la_limit = None, la_settings = lc_settings lc\<rparr> c of
            (Inl e, c1) \<Rightarrow> (Inl e, c1)
          | (Inr _, c1) \<Rightarrow> (case reassert_leases side owner core rs c1 of (Inl e, c2) \<Rightarrow> (Inl e, c2) | (Inr n, c2) \<Rightarrow> (Inr (n + 1), c2)))"

definition reconcile_local_core ::
  "app_env \<Rightarrow> 'c core_side \<Rightarrow> (int \<Rightarrow> bool) \<Rightarrow> int \<Rightarrow> string \<Rightarrow> 'c conn_world \<Rightarrow> (string + nat) \<times> 'c conn_world" where
  "reconcile_local_core env side owner now core w =
     (case reassert_leases side owner core (active_lease_accounts env now core None (cw_db w)) (cw_cores w) of (r, c1) \<Rightarrow> (r, w\<lparr>cw_cores := c1\<rparr>))"

fun remove_due :: "'c core_side \<Rightarrow> int \<Rightarrow> int \<Rightarrow> lease_context list \<Rightarrow> 'c conn_world \<Rightarrow> nat \<times> 'c conn_world" where
  "remove_due side now later [] w = (0, w)"
| "remove_due side now later (lc # lcs) w =
     (let (ok, w1) = remove_lease side later (ls_not_after (lc_lease lc) \<le> now) lc w;
          (n, w2) = remove_due side now later lcs w1
      in (if ok then n + 1 else n, w2))"

definition sweep :: "app_env \<Rightarrow> 'c core_side \<Rightarrow> int \<Rightarrow> int \<Rightarrow> 'c conn_world \<Rightarrow> ('c, nat) conn_result" where
  "sweep env side now later w =
     (case due_connection_leases env now (cw_db w) of
        (Inl e, db1) \<Rightarrow> (Inl e, w\<lparr>cw_db := db1\<rparr>)
      | (Inr due, db1) \<Rightarrow> (let (n, w1) = remove_due side now later due (w\<lparr>cw_db := db1\<rparr>) in (Inr n, w1)))"

end
