(* ===== verification/AppSteps.thy ===== *)
theory AppSteps
  imports AppConnService
begin

text \<open>
  The state machine of the Application API tables: \<open>app_step\<close> has a rule for every transaction of the repository, so
  its runs are all interleavings of requests, sweeps and administrators. Drawn token families are new; the other
  draws are arbitrary, since the tables refuse a duplicate. \<open>bnd\<close> bounds the clock of the transactions that delete
  expired replay rows. \<open>outside\<close> stands for the parts of the panel that own the other tables.
\<close>

section \<open>Steps\<close>

text \<open>A rotation may have read an earlier database: the rows it saw are still there.\<close>

definition earlier :: "app_db \<Rightarrow> app_db \<Rightarrow> bool" where
  "earlier seen db \<longleftrightarrow> (\<forall>t \<in> set (tokens seen). \<exists>t' \<in> set (tokens db). rt_hash t' = rt_hash t \<and> rt_family t' = rt_family t)"

definition fresh_family :: "string \<Rightarrow> app_db \<Rightarrow> bool" where
  "fresh_family f db \<longleftrightarrow> (\<forall>t \<in> set (tokens db). rt_family t \<noteq> Some f)"

inductive app_step :: "app_env \<Rightarrow> int \<Rightarrow> app_db \<Rightarrow> app_db \<Rightarrow> bool" for env bnd where
  create: "app_step env bnd db (snd (create_application env dw now owner name api lang branding mode db))"
| set_mode: "app_step env bnd db (snd (set_user_access_mode pid mode db))"
| grant: "app_step env bnd db (snd (grant_user pid user db))"
| icon: "app_step env bnd db (snd (set_application_icon pid meta db))"
| revoke_app: "app_step env bnd db (snd (revoke_application_row now pid db))"
| cascade_app: "app_step env bnd db (revoke_application_cascade now a db)"
| revoke_grant: "app_step env bnd db (snd (revoke_grant_row now pid user db))"
| cascade_grant: "app_step env bnd db (revoke_grant_cascade now a user db)"
| revoke_key: "app_step env bnd db (snd (revoke_key_row now pid kid db))"
| cascade_key: "app_step env bnd db (revoke_key_cascade now app key db)"
| issue_ticket: "app_step env bnd db (snd (issue_activation_ticket env jti now pid user ttl intended db))"
| consume_nonce: "clock \<le> bnd \<Longrightarrow> app_step env bnd db (snd (consume_nonce env clock ctx nonce ts expires db))"
| purge: "before \<le> bnd \<Longrightarrow> app_step env bnd db (snd (purge_expired_nonces before db))"
| failure: "app_step env bnd db (record_auth_failure env pol a username ip now db)"
| clear: "app_step env bnd db (clear_auth_failures env a username ip db)"
| access: "app_step env bnd db (snd (access_user_context now claims db))"
| note_audit: "app_step env bnd db (audit action args db)"
| enroll_ticket: "app_step env bnd db (snd (consume_ticket_and_enroll env hex now uctx vt rq db))"
| enroll_attested: "app_step env bnd db (snd (enroll_attested_device env hex now uctx rq db))"
| login: "fresh_family (ri_family issue) db \<Longrightarrow> app_step env bnd db (snd (save_initial_refresh uctx device issue now agent db))"
| rotate: "earlier seen db \<Longrightarrow>
    app_step env bnd db (snd (rotate_write env ttl now secret' agent (rotate_read env now secret ctx seen) db))"
| logout: "app_step env bnd db (revoke_refresh_family env now secret ctx db)"
| mark_login: "app_step env bnd db (mark_login_success env device now ip agent db)"
| revoke_device: "app_step env bnd db (snd (revoke_application_device env now uctx target ip db))"
| admin_revoke_device: "app_step env bnd db (snd (admin_revoke_application_device now pid target db))"
| issue_configs: "app_step env bnd db (snd (issue_config_grants uuids now expires uctx requested db))"
| consume_config: "app_step env bnd db (snd (consume_config_grant env now uctx pid db))"
| reserve: "app_step env bnd db (snd (reserve_connection env cdw now not_after node uctx pid db))"
| complete: "app_step env bnd db (snd (complete_connection env nonce' now not_after pid settings capability db))"
| fail_conn: "app_step env bnd db (fail_connection now pid reason db)"
| stop: "app_step env bnd db (snd (request_connection_stop env now uctx pid reason db))"
| renew: "app_step env bnd db (snd (renew_connection env now not_after uctx pid db))"
| observe: "app_step env bnd db (update_connection_observation now pid observed err db)"
| due: "app_step env bnd db (snd (due_connection_leases env now db))"
| removed: "app_step env bnd db (mark_connection_removed now pid was_expired err db)"
| outside: "app_step env bnd db (db\<lparr>users := us, usage := ug, portal := po, admins := ad\<rparr>)"

section \<open>What a step does to each table\<close>

definition revoke_token :: "int \<Rightarrow> string \<Rightarrow> token_row \<Rightarrow> token_row" where
  "revoke_token now reason t = t\<lparr>rt_revoked := True, rt_revoked_at := Some now, rt_reason := Some reason\<rparr>"

definition rotate_token :: "int \<Rightarrow> string \<Rightarrow> token_row \<Rightarrow> token_row" where
  "rotate_token now h t = t\<lparr>rt_revoked := True, rt_rotated := Some h, rt_used := Some now, rt_revoked_at := Some now, rt_reason := Some ''rotated''\<rparr>"

inductive token_change :: "token_row list \<Rightarrow> token_row list \<Rightarrow> bool" where
  tc_same: "token_change ts ts"
| tc_revoke: "token_change ts (update_where P (revoke_token now reason) ts)"
| tc_login: "\<lbrakk>rt_hash t \<notin> rt_hash ` set ts; \<forall>s \<in> set ts. rt_family s \<noteq> rt_family t; rt_family t \<noteq> None\<rbrakk> \<Longrightarrow> token_change ts (ts @ [t])"
| tc_rotate: "\<lbrakk>count_where (\<lambda>t. rt_hash t = h \<and> \<not> rt_revoked t) ts = 1; rt_hash new \<notin> rt_hash ` set ts;
     \<exists>t \<in> set ts. rt_hash t = h \<and> rt_family t = rt_family new; rt_family new \<noteq> None\<rbrakk> \<Longrightarrow>
    token_change ts (update_where (\<lambda>t. rt_hash t = h \<and> \<not> rt_revoked t) (rotate_token now (rt_hash new)) ts @ [new])"

named_theorems app_frame \<open>the tables an operation leaves alone\<close>

lemma audit_frame [simp]:
  "apps (audit action args db) = apps db"
  "grants (audit action args db) = grants db"
  "tickets (audit action args db) = tickets db"
  "configs (audit action args db) = configs db"
  "conns (audit action args db) = conns db"
  "leases (audit action args db) = leases db"
  "nonces (audit action args db) = nonces db"
  "devices (audit action args db) = devices db"
  "tokens (audit action args db) = tokens db"
  "throttles (audit action args db) = throttles db"
  by (simp_all add: audit_def)

lemma revoke_tokens_frame [simp]:
  "apps (revoke_tokens P now reason db) = apps db"
  "grants (revoke_tokens P now reason db) = grants db"
  "tickets (revoke_tokens P now reason db) = tickets db"
  "configs (revoke_tokens P now reason db) = configs db"
  "conns (revoke_tokens P now reason db) = conns db"
  "leases (revoke_tokens P now reason db) = leases db"
  "nonces (revoke_tokens P now reason db) = nonces db"
  "devices (revoke_tokens P now reason db) = devices db"
  "throttles (revoke_tokens P now reason db) = throttles db"
  by (simp_all add: revoke_tokens_def)

lemma revoke_configs_frame [simp]:
  "apps (revoke_configs P now reason db) = apps db"
  "grants (revoke_configs P now reason db) = grants db"
  "tickets (revoke_configs P now reason db) = tickets db"
  "conns (revoke_configs P now reason db) = conns db"
  "leases (revoke_configs P now reason db) = leases db"
  "nonces (revoke_configs P now reason db) = nonces db"
  "devices (revoke_configs P now reason db) = devices db"
  "tokens (revoke_configs P now reason db) = tokens db"
  "throttles (revoke_configs P now reason db) = throttles db"
  by (simp_all add: revoke_configs_def)

lemma revoke_tickets_frame [simp]:
  "apps (revoke_tickets P now reason db) = apps db"
  "grants (revoke_tickets P now reason db) = grants db"
  "configs (revoke_tickets P now reason db) = configs db"
  "conns (revoke_tickets P now reason db) = conns db"
  "leases (revoke_tickets P now reason db) = leases db"
  "nonces (revoke_tickets P now reason db) = nonces db"
  "devices (revoke_tickets P now reason db) = devices db"
  "tokens (revoke_tickets P now reason db) = tokens db"
  "throttles (revoke_tickets P now reason db) = throttles db"
  by (simp_all add: revoke_tickets_def)

lemma put_config_frame [simp]:
  "apps (put_config c f db) = apps db"
  "grants (put_config c f db) = grants db"
  "tickets (put_config c f db) = tickets db"
  "conns (put_config c f db) = conns db"
  "leases (put_config c f db) = leases db"
  "nonces (put_config c f db) = nonces db"
  "devices (put_config c f db) = devices db"
  "tokens (put_config c f db) = tokens db"
  "throttles (put_config c f db) = throttles db"
  by (simp_all add: put_config_def)

lemma put_conn_frame [simp]:
  "apps (put_conn f i db) = apps db"
  "grants (put_conn f i db) = grants db"
  "tickets (put_conn f i db) = tickets db"
  "configs (put_conn f i db) = configs db"
  "leases (put_conn f i db) = leases db"
  "nonces (put_conn f i db) = nonces db"
  "devices (put_conn f i db) = devices db"
  "tokens (put_conn f i db) = tokens db"
  "throttles (put_conn f i db) = throttles db"
  by (simp_all add: put_conn_def)

lemma put_lease_frame [simp]:
  "apps (put_lease f i db) = apps db"
  "grants (put_lease f i db) = grants db"
  "tickets (put_lease f i db) = tickets db"
  "configs (put_lease f i db) = configs db"
  "conns (put_lease f i db) = conns db"
  "nonces (put_lease f i db) = nonces db"
  "devices (put_lease f i db) = devices db"
  "tokens (put_lease f i db) = tokens db"
  "throttles (put_lease f i db) = throttles db"
  by (simp_all add: put_lease_def)

lemma create_application_frame [app_frame]:
  "grants (snd (create_application env dw now owner name api lang branding mode db)) = grants db"
  "tickets (snd (create_application env dw now owner name api lang branding mode db)) = tickets db"
  "configs (snd (create_application env dw now owner name api lang branding mode db)) = configs db"
  "conns (snd (create_application env dw now owner name api lang branding mode db)) = conns db"
  "leases (snd (create_application env dw now owner name api lang branding mode db)) = leases db"
  "nonces (snd (create_application env dw now owner name api lang branding mode db)) = nonces db"
  "devices (snd (create_application env dw now owner name api lang branding mode db)) = devices db"
  "tokens (snd (create_application env dw now owner name api lang branding mode db)) = tokens db"
  "throttles (snd (create_application env dw now owner name api lang branding mode db)) = throttles db"
  by (simp_all add: create_application_def Let_def split: option.split sum.split prod.split)

lemma set_user_access_mode_frame [app_frame]:
  "grants (snd (set_user_access_mode pid mode db)) = grants db"
  "tickets (snd (set_user_access_mode pid mode db)) = tickets db"
  "configs (snd (set_user_access_mode pid mode db)) = configs db"
  "conns (snd (set_user_access_mode pid mode db)) = conns db"
  "leases (snd (set_user_access_mode pid mode db)) = leases db"
  "nonces (snd (set_user_access_mode pid mode db)) = nonces db"
  "devices (snd (set_user_access_mode pid mode db)) = devices db"
  "tokens (snd (set_user_access_mode pid mode db)) = tokens db"
  "throttles (snd (set_user_access_mode pid mode db)) = throttles db"
  by (simp_all add: set_user_access_mode_def Let_def split: option.split sum.split prod.split)

lemma grant_user_frame [app_frame]:
  "apps (snd (grant_user pid user db)) = apps db"
  "tickets (snd (grant_user pid user db)) = tickets db"
  "configs (snd (grant_user pid user db)) = configs db"
  "conns (snd (grant_user pid user db)) = conns db"
  "leases (snd (grant_user pid user db)) = leases db"
  "nonces (snd (grant_user pid user db)) = nonces db"
  "devices (snd (grant_user pid user db)) = devices db"
  "tokens (snd (grant_user pid user db)) = tokens db"
  "throttles (snd (grant_user pid user db)) = throttles db"
  by (simp_all add: grant_user_def Let_def split: option.split sum.split prod.split)

lemma set_application_icon_frame [app_frame]:
  "grants (snd (set_application_icon pid meta db)) = grants db"
  "tickets (snd (set_application_icon pid meta db)) = tickets db"
  "configs (snd (set_application_icon pid meta db)) = configs db"
  "conns (snd (set_application_icon pid meta db)) = conns db"
  "leases (snd (set_application_icon pid meta db)) = leases db"
  "nonces (snd (set_application_icon pid meta db)) = nonces db"
  "devices (snd (set_application_icon pid meta db)) = devices db"
  "tokens (snd (set_application_icon pid meta db)) = tokens db"
  "throttles (snd (set_application_icon pid meta db)) = throttles db"
  by (simp_all add: set_application_icon_def Let_def split: option.split sum.split prod.split)

lemma revoke_application_row_frame [app_frame]:
  "grants (snd (revoke_application_row now pid db)) = grants db"
  "tickets (snd (revoke_application_row now pid db)) = tickets db"
  "configs (snd (revoke_application_row now pid db)) = configs db"
  "conns (snd (revoke_application_row now pid db)) = conns db"
  "leases (snd (revoke_application_row now pid db)) = leases db"
  "nonces (snd (revoke_application_row now pid db)) = nonces db"
  "devices (snd (revoke_application_row now pid db)) = devices db"
  "tokens (snd (revoke_application_row now pid db)) = tokens db"
  "throttles (snd (revoke_application_row now pid db)) = throttles db"
  by (simp_all add: revoke_application_row_def Let_def split: option.split sum.split prod.split)

lemma revoke_application_cascade_frame [app_frame]:
  "apps (revoke_application_cascade now a db) = apps db"
  "conns (revoke_application_cascade now a db) = conns db"
  "leases (revoke_application_cascade now a db) = leases db"
  "nonces (revoke_application_cascade now a db) = nonces db"
  "throttles (revoke_application_cascade now a db) = throttles db"
  by (simp_all add: revoke_application_cascade_def Let_def split: option.split sum.split prod.split)

lemma revoke_grant_row_frame [app_frame]:
  "apps (snd (revoke_grant_row now pid user db)) = apps db"
  "tickets (snd (revoke_grant_row now pid user db)) = tickets db"
  "configs (snd (revoke_grant_row now pid user db)) = configs db"
  "conns (snd (revoke_grant_row now pid user db)) = conns db"
  "leases (snd (revoke_grant_row now pid user db)) = leases db"
  "nonces (snd (revoke_grant_row now pid user db)) = nonces db"
  "devices (snd (revoke_grant_row now pid user db)) = devices db"
  "tokens (snd (revoke_grant_row now pid user db)) = tokens db"
  "throttles (snd (revoke_grant_row now pid user db)) = throttles db"
  by (simp_all add: revoke_grant_row_def Let_def split: option.split sum.split prod.split)

lemma revoke_grant_cascade_frame [app_frame]:
  "apps (revoke_grant_cascade now a user db) = apps db"
  "grants (revoke_grant_cascade now a user db) = grants db"
  "conns (revoke_grant_cascade now a user db) = conns db"
  "leases (revoke_grant_cascade now a user db) = leases db"
  "nonces (revoke_grant_cascade now a user db) = nonces db"
  "devices (revoke_grant_cascade now a user db) = devices db"
  "throttles (revoke_grant_cascade now a user db) = throttles db"
  by (simp_all add: revoke_grant_cascade_def Let_def split: option.split sum.split prod.split)

lemma revoke_key_row_frame [app_frame]:
  "apps (snd (revoke_key_row now pid kid db)) = apps db"
  "grants (snd (revoke_key_row now pid kid db)) = grants db"
  "tickets (snd (revoke_key_row now pid kid db)) = tickets db"
  "configs (snd (revoke_key_row now pid kid db)) = configs db"
  "conns (snd (revoke_key_row now pid kid db)) = conns db"
  "leases (snd (revoke_key_row now pid kid db)) = leases db"
  "nonces (snd (revoke_key_row now pid kid db)) = nonces db"
  "devices (snd (revoke_key_row now pid kid db)) = devices db"
  "tokens (snd (revoke_key_row now pid kid db)) = tokens db"
  "throttles (snd (revoke_key_row now pid kid db)) = throttles db"
  by (simp_all add: revoke_key_row_def Let_def split: option.split sum.split prod.split)

lemma revoke_key_cascade_frame [app_frame]:
  "apps (revoke_key_cascade now app key db) = apps db"
  "grants (revoke_key_cascade now app key db) = grants db"
  "conns (revoke_key_cascade now app key db) = conns db"
  "leases (revoke_key_cascade now app key db) = leases db"
  "nonces (revoke_key_cascade now app key db) = nonces db"
  "devices (revoke_key_cascade now app key db) = devices db"
  "throttles (revoke_key_cascade now app key db) = throttles db"
  by (simp_all add: revoke_key_cascade_def Let_def split: option.split sum.split prod.split)

lemma issue_activation_ticket_frame [app_frame]:
  "apps (snd (issue_activation_ticket env jti now pid user ttl intended db)) = apps db"
  "grants (snd (issue_activation_ticket env jti now pid user ttl intended db)) = grants db"
  "configs (snd (issue_activation_ticket env jti now pid user ttl intended db)) = configs db"
  "conns (snd (issue_activation_ticket env jti now pid user ttl intended db)) = conns db"
  "leases (snd (issue_activation_ticket env jti now pid user ttl intended db)) = leases db"
  "nonces (snd (issue_activation_ticket env jti now pid user ttl intended db)) = nonces db"
  "devices (snd (issue_activation_ticket env jti now pid user ttl intended db)) = devices db"
  "tokens (snd (issue_activation_ticket env jti now pid user ttl intended db)) = tokens db"
  "throttles (snd (issue_activation_ticket env jti now pid user ttl intended db)) = throttles db"
  by (simp_all add: issue_activation_ticket_def Let_def split: option.split sum.split prod.split)

lemma consume_nonce_frame [app_frame]:
  "apps (snd (consume_nonce env clock ctx nonce ts expires db)) = apps db"
  "grants (snd (consume_nonce env clock ctx nonce ts expires db)) = grants db"
  "tickets (snd (consume_nonce env clock ctx nonce ts expires db)) = tickets db"
  "configs (snd (consume_nonce env clock ctx nonce ts expires db)) = configs db"
  "conns (snd (consume_nonce env clock ctx nonce ts expires db)) = conns db"
  "leases (snd (consume_nonce env clock ctx nonce ts expires db)) = leases db"
  "devices (snd (consume_nonce env clock ctx nonce ts expires db)) = devices db"
  "tokens (snd (consume_nonce env clock ctx nonce ts expires db)) = tokens db"
  "throttles (snd (consume_nonce env clock ctx nonce ts expires db)) = throttles db"
  by (simp_all add: consume_nonce_def Let_def split: option.split sum.split prod.split)

lemma purge_expired_nonces_frame [app_frame]:
  "apps (snd (purge_expired_nonces before db)) = apps db"
  "grants (snd (purge_expired_nonces before db)) = grants db"
  "tickets (snd (purge_expired_nonces before db)) = tickets db"
  "configs (snd (purge_expired_nonces before db)) = configs db"
  "conns (snd (purge_expired_nonces before db)) = conns db"
  "leases (snd (purge_expired_nonces before db)) = leases db"
  "devices (snd (purge_expired_nonces before db)) = devices db"
  "tokens (snd (purge_expired_nonces before db)) = tokens db"
  "throttles (snd (purge_expired_nonces before db)) = throttles db"
  by (simp_all add: purge_expired_nonces_def Let_def split: option.split sum.split prod.split)

lemma record_auth_failure_frame [app_frame]:
  "apps (record_auth_failure env pol a username ip now db) = apps db"
  "grants (record_auth_failure env pol a username ip now db) = grants db"
  "tickets (record_auth_failure env pol a username ip now db) = tickets db"
  "configs (record_auth_failure env pol a username ip now db) = configs db"
  "conns (record_auth_failure env pol a username ip now db) = conns db"
  "leases (record_auth_failure env pol a username ip now db) = leases db"
  "nonces (record_auth_failure env pol a username ip now db) = nonces db"
  "devices (record_auth_failure env pol a username ip now db) = devices db"
  "tokens (record_auth_failure env pol a username ip now db) = tokens db"
  by (simp_all add: record_auth_failure_def throttle_keys_def bump_bucket_def Let_def split: option.split sum.split prod.split)

lemma clear_auth_failures_frame [app_frame]:
  "apps (clear_auth_failures env a username ip db) = apps db"
  "grants (clear_auth_failures env a username ip db) = grants db"
  "tickets (clear_auth_failures env a username ip db) = tickets db"
  "configs (clear_auth_failures env a username ip db) = configs db"
  "conns (clear_auth_failures env a username ip db) = conns db"
  "leases (clear_auth_failures env a username ip db) = leases db"
  "nonces (clear_auth_failures env a username ip db) = nonces db"
  "devices (clear_auth_failures env a username ip db) = devices db"
  "tokens (clear_auth_failures env a username ip db) = tokens db"
  by (simp_all add: clear_auth_failures_def Let_def split: option.split sum.split prod.split)

lemma access_user_context_frame [app_frame]:
  "apps (snd (access_user_context now claims db)) = apps db"
  "grants (snd (access_user_context now claims db)) = grants db"
  "tickets (snd (access_user_context now claims db)) = tickets db"
  "configs (snd (access_user_context now claims db)) = configs db"
  "conns (snd (access_user_context now claims db)) = conns db"
  "leases (snd (access_user_context now claims db)) = leases db"
  "nonces (snd (access_user_context now claims db)) = nonces db"
  "devices (snd (access_user_context now claims db)) = devices db"
  "tokens (snd (access_user_context now claims db)) = tokens db"
  "throttles (snd (access_user_context now claims db)) = throttles db"
  by (simp_all add: access_user_context_def Let_def split: option.split sum.split prod.split)

lemma insert_device_frame [app_frame]:
  "apps (snd (insert_device env err hex now u a rq db)) = apps db"
  "grants (snd (insert_device env err hex now u a rq db)) = grants db"
  "tickets (snd (insert_device env err hex now u a rq db)) = tickets db"
  "configs (snd (insert_device env err hex now u a rq db)) = configs db"
  "conns (snd (insert_device env err hex now u a rq db)) = conns db"
  "leases (snd (insert_device env err hex now u a rq db)) = leases db"
  "nonces (snd (insert_device env err hex now u a rq db)) = nonces db"
  "tokens (snd (insert_device env err hex now u a rq db)) = tokens db"
  "throttles (snd (insert_device env err hex now u a rq db)) = throttles db"
  by (simp_all add: insert_device_def Let_def split: option.split sum.split prod.split)

lemma insert_device_eqD:
  assumes "insert_device env err hex now u a rq db = (r, db1)"
  shows "apps db1 = apps db" "grants db1 = grants db" "tickets db1 = tickets db" "configs db1 = configs db" "conns db1 = conns db"
    "leases db1 = leases db" "nonces db1 = nonces db" "tokens db1 = tokens db" "throttles db1 = throttles db"
  using insert_device_frame [of env err hex now u a rq db] assms by simp_all

lemma consume_ticket_and_enroll_frame [app_frame]:
  "apps (snd (consume_ticket_and_enroll env hex now uctx vt rq db)) = apps db"
  "grants (snd (consume_ticket_and_enroll env hex now uctx vt rq db)) = grants db"
  "configs (snd (consume_ticket_and_enroll env hex now uctx vt rq db)) = configs db"
  "conns (snd (consume_ticket_and_enroll env hex now uctx vt rq db)) = conns db"
  "leases (snd (consume_ticket_and_enroll env hex now uctx vt rq db)) = leases db"
  "nonces (snd (consume_ticket_and_enroll env hex now uctx vt rq db)) = nonces db"
  "tokens (snd (consume_ticket_and_enroll env hex now uctx vt rq db)) = tokens db"
  "throttles (snd (consume_ticket_and_enroll env hex now uctx vt rq db)) = throttles db"
  by (auto simp: consume_ticket_and_enroll_def dest: insert_device_eqD split: option.split sum.split prod.split)

lemma enroll_attested_device_frame [app_frame]:
  "apps (snd (enroll_attested_device env hex now uctx rq db)) = apps db"
  "grants (snd (enroll_attested_device env hex now uctx rq db)) = grants db"
  "tickets (snd (enroll_attested_device env hex now uctx rq db)) = tickets db"
  "configs (snd (enroll_attested_device env hex now uctx rq db)) = configs db"
  "conns (snd (enroll_attested_device env hex now uctx rq db)) = conns db"
  "leases (snd (enroll_attested_device env hex now uctx rq db)) = leases db"
  "nonces (snd (enroll_attested_device env hex now uctx rq db)) = nonces db"
  "tokens (snd (enroll_attested_device env hex now uctx rq db)) = tokens db"
  "throttles (snd (enroll_attested_device env hex now uctx rq db)) = throttles db"
  by (simp_all add: enroll_attested_device_def insert_device_frame Let_def split: option.split sum.split prod.split)

lemma save_initial_refresh_frame [app_frame]:
  "apps (snd (save_initial_refresh uctx device issue now agent db)) = apps db"
  "grants (snd (save_initial_refresh uctx device issue now agent db)) = grants db"
  "tickets (snd (save_initial_refresh uctx device issue now agent db)) = tickets db"
  "configs (snd (save_initial_refresh uctx device issue now agent db)) = configs db"
  "conns (snd (save_initial_refresh uctx device issue now agent db)) = conns db"
  "leases (snd (save_initial_refresh uctx device issue now agent db)) = leases db"
  "nonces (snd (save_initial_refresh uctx device issue now agent db)) = nonces db"
  "devices (snd (save_initial_refresh uctx device issue now agent db)) = devices db"
  "throttles (snd (save_initial_refresh uctx device issue now agent db)) = throttles db"
  by (simp_all add: save_initial_refresh_def Let_def split: option.split sum.split prod.split)

lemma refresh_replayed_frame [app_frame]:
  "apps (refresh_replayed now old family db) = apps db"
  "grants (refresh_replayed now old family db) = grants db"
  "tickets (refresh_replayed now old family db) = tickets db"
  "conns (refresh_replayed now old family db) = conns db"
  "leases (refresh_replayed now old family db) = leases db"
  "nonces (refresh_replayed now old family db) = nonces db"
  "devices (refresh_replayed now old family db) = devices db"
  "throttles (refresh_replayed now old family db) = throttles db"
  by (simp_all add: refresh_replayed_def revoke_family_def Let_def split: option.split sum.split prod.split)

lemma revoke_refresh_family_frame [app_frame]:
  "apps (revoke_refresh_family env now secret ctx db) = apps db"
  "grants (revoke_refresh_family env now secret ctx db) = grants db"
  "tickets (revoke_refresh_family env now secret ctx db) = tickets db"
  "conns (revoke_refresh_family env now secret ctx db) = conns db"
  "leases (revoke_refresh_family env now secret ctx db) = leases db"
  "nonces (revoke_refresh_family env now secret ctx db) = nonces db"
  "devices (revoke_refresh_family env now secret ctx db) = devices db"
  "throttles (revoke_refresh_family env now secret ctx db) = throttles db"
  by (simp_all add: revoke_refresh_family_def revoke_family_def Let_def split: option.split sum.split prod.split)

lemma mark_login_success_frame [app_frame]:
  "apps (mark_login_success env device now ip agent db) = apps db"
  "grants (mark_login_success env device now ip agent db) = grants db"
  "tickets (mark_login_success env device now ip agent db) = tickets db"
  "configs (mark_login_success env device now ip agent db) = configs db"
  "conns (mark_login_success env device now ip agent db) = conns db"
  "leases (mark_login_success env device now ip agent db) = leases db"
  "nonces (mark_login_success env device now ip agent db) = nonces db"
  "tokens (mark_login_success env device now ip agent db) = tokens db"
  "throttles (mark_login_success env device now ip agent db) = throttles db"
  by (simp_all add: mark_login_success_def Let_def split: option.split sum.split prod.split)

lemma revoke_application_device_frame [app_frame]:
  "apps (snd (revoke_application_device env now uctx target ip db)) = apps db"
  "grants (snd (revoke_application_device env now uctx target ip db)) = grants db"
  "tickets (snd (revoke_application_device env now uctx target ip db)) = tickets db"
  "conns (snd (revoke_application_device env now uctx target ip db)) = conns db"
  "leases (snd (revoke_application_device env now uctx target ip db)) = leases db"
  "nonces (snd (revoke_application_device env now uctx target ip db)) = nonces db"
  "throttles (snd (revoke_application_device env now uctx target ip db)) = throttles db"
  by (simp_all add: revoke_application_device_def revoke_device_rows_def Let_def split: option.split sum.split prod.split)

lemma admin_revoke_application_device_frame [app_frame]:
  "apps (snd (admin_revoke_application_device now pid target db)) = apps db"
  "grants (snd (admin_revoke_application_device now pid target db)) = grants db"
  "tickets (snd (admin_revoke_application_device now pid target db)) = tickets db"
  "conns (snd (admin_revoke_application_device now pid target db)) = conns db"
  "leases (snd (admin_revoke_application_device now pid target db)) = leases db"
  "nonces (snd (admin_revoke_application_device now pid target db)) = nonces db"
  "throttles (snd (admin_revoke_application_device now pid target db)) = throttles db"
  by (simp_all add: admin_revoke_application_device_def revoke_device_rows_def Let_def split: option.split sum.split prod.split)

lemma issue_config_grants_frame [app_frame]:
  "apps (snd (issue_config_grants uuids now expires uctx requested db)) = apps db"
  "grants (snd (issue_config_grants uuids now expires uctx requested db)) = grants db"
  "tickets (snd (issue_config_grants uuids now expires uctx requested db)) = tickets db"
  "conns (snd (issue_config_grants uuids now expires uctx requested db)) = conns db"
  "leases (snd (issue_config_grants uuids now expires uctx requested db)) = leases db"
  "nonces (snd (issue_config_grants uuids now expires uctx requested db)) = nonces db"
  "devices (snd (issue_config_grants uuids now expires uctx requested db)) = devices db"
  "tokens (snd (issue_config_grants uuids now expires uctx requested db)) = tokens db"
  "throttles (snd (issue_config_grants uuids now expires uctx requested db)) = throttles db"
  by (simp_all add: issue_config_grants_def Let_def split: option.split sum.split prod.split)

lemma consume_config_grant_frame [app_frame]:
  "apps (snd (consume_config_grant env now uctx pid db)) = apps db"
  "grants (snd (consume_config_grant env now uctx pid db)) = grants db"
  "tickets (snd (consume_config_grant env now uctx pid db)) = tickets db"
  "conns (snd (consume_config_grant env now uctx pid db)) = conns db"
  "leases (snd (consume_config_grant env now uctx pid db)) = leases db"
  "nonces (snd (consume_config_grant env now uctx pid db)) = nonces db"
  "devices (snd (consume_config_grant env now uctx pid db)) = devices db"
  "tokens (snd (consume_config_grant env now uctx pid db)) = tokens db"
  "throttles (snd (consume_config_grant env now uctx pid db)) = throttles db"
  by (simp_all add: consume_config_grant_def Let_def split: option.split sum.split prod.split)

lemma reserve_connection_frame [app_frame]:
  "apps (snd (reserve_connection env cdw now not_after node uctx pid db)) = apps db"
  "grants (snd (reserve_connection env cdw now not_after node uctx pid db)) = grants db"
  "tickets (snd (reserve_connection env cdw now not_after node uctx pid db)) = tickets db"
  "nonces (snd (reserve_connection env cdw now not_after node uctx pid db)) = nonces db"
  "devices (snd (reserve_connection env cdw now not_after node uctx pid db)) = devices db"
  "tokens (snd (reserve_connection env cdw now not_after node uctx pid db)) = tokens db"
  "throttles (snd (reserve_connection env cdw now not_after node uctx pid db)) = throttles db"
  by (simp_all add: reserve_connection_def reserve_new_def reserve_again_def reserved_def Let_def split: option.split sum.split prod.split)

lemma complete_connection_frame [app_frame]:
  "apps (snd (complete_connection env nonce' now not_after pid settings capability db)) = apps db"
  "grants (snd (complete_connection env nonce' now not_after pid settings capability db)) = grants db"
  "tickets (snd (complete_connection env nonce' now not_after pid settings capability db)) = tickets db"
  "configs (snd (complete_connection env nonce' now not_after pid settings capability db)) = configs db"
  "nonces (snd (complete_connection env nonce' now not_after pid settings capability db)) = nonces db"
  "devices (snd (complete_connection env nonce' now not_after pid settings capability db)) = devices db"
  "tokens (snd (complete_connection env nonce' now not_after pid settings capability db)) = tokens db"
  "throttles (snd (complete_connection env nonce' now not_after pid settings capability db)) = throttles db"
  by (simp_all add: complete_connection_def Let_def split: option.split sum.split prod.split)

lemma fail_connection_frame [app_frame]:
  "apps (fail_connection now pid reason db) = apps db"
  "grants (fail_connection now pid reason db) = grants db"
  "tickets (fail_connection now pid reason db) = tickets db"
  "nonces (fail_connection now pid reason db) = nonces db"
  "devices (fail_connection now pid reason db) = devices db"
  "tokens (fail_connection now pid reason db) = tokens db"
  "throttles (fail_connection now pid reason db) = throttles db"
  by (simp_all add: fail_connection_def revoke_bound_configs_def Let_def split: option.split sum.split prod.split)

lemma request_connection_stop_frame [app_frame]:
  "apps (snd (request_connection_stop env now uctx pid reason db)) = apps db"
  "grants (snd (request_connection_stop env now uctx pid reason db)) = grants db"
  "tickets (snd (request_connection_stop env now uctx pid reason db)) = tickets db"
  "nonces (snd (request_connection_stop env now uctx pid reason db)) = nonces db"
  "devices (snd (request_connection_stop env now uctx pid reason db)) = devices db"
  "tokens (snd (request_connection_stop env now uctx pid reason db)) = tokens db"
  "throttles (snd (request_connection_stop env now uctx pid reason db)) = throttles db"
  by (simp_all add: request_connection_stop_def revoke_bound_configs_def Let_def split: option.split sum.split prod.split)

lemma renew_connection_frame [app_frame]:
  "apps (snd (renew_connection env now not_after uctx pid db)) = apps db"
  "grants (snd (renew_connection env now not_after uctx pid db)) = grants db"
  "tickets (snd (renew_connection env now not_after uctx pid db)) = tickets db"
  "configs (snd (renew_connection env now not_after uctx pid db)) = configs db"
  "nonces (snd (renew_connection env now not_after uctx pid db)) = nonces db"
  "devices (snd (renew_connection env now not_after uctx pid db)) = devices db"
  "tokens (snd (renew_connection env now not_after uctx pid db)) = tokens db"
  "throttles (snd (renew_connection env now not_after uctx pid db)) = throttles db"
  by (simp_all add: renew_connection_def Let_def split: option.split sum.split prod.split)

lemma update_connection_observation_frame [app_frame]:
  "apps (update_connection_observation now pid observed err db) = apps db"
  "grants (update_connection_observation now pid observed err db) = grants db"
  "tickets (update_connection_observation now pid observed err db) = tickets db"
  "configs (update_connection_observation now pid observed err db) = configs db"
  "leases (update_connection_observation now pid observed err db) = leases db"
  "nonces (update_connection_observation now pid observed err db) = nonces db"
  "devices (update_connection_observation now pid observed err db) = devices db"
  "tokens (update_connection_observation now pid observed err db) = tokens db"
  "throttles (update_connection_observation now pid observed err db) = throttles db"
  by (simp_all add: update_connection_observation_def Let_def split: option.split sum.split prod.split)

lemma mark_connection_removed_frame [app_frame]:
  "apps (mark_connection_removed now pid was_expired err db) = apps db"
  "grants (mark_connection_removed now pid was_expired err db) = grants db"
  "tickets (mark_connection_removed now pid was_expired err db) = tickets db"
  "configs (mark_connection_removed now pid was_expired err db) = configs db"
  "nonces (mark_connection_removed now pid was_expired err db) = nonces db"
  "devices (mark_connection_removed now pid was_expired err db) = devices db"
  "tokens (mark_connection_removed now pid was_expired err db) = tokens db"
  "throttles (mark_connection_removed now pid was_expired err db) = throttles db"
  by (simp_all add: mark_connection_removed_def Let_def split: option.split sum.split prod.split)


lemma tokens_revoke [simp]: "tokens (revoke_tokens P now reason db) = update_where P (revoke_token now reason) (tokens db)"
  by (simp add: revoke_tokens_def revoke_token_def [abs_def])

lemma mark_due_frame [app_frame]:
  "apps (mark_due now j db) = apps db" "grants (mark_due now j db) = grants db" "tickets (mark_due now j db) = tickets db"
  "configs (mark_due now j db) = configs db" "nonces (mark_due now j db) = nonces db" "devices (mark_due now j db) = devices db"
  "tokens (mark_due now j db) = tokens db" "throttles (mark_due now j db) = throttles db"
  by (simp_all add: mark_due_def)

lemma fold_mark_due_frame [app_frame]:
  "apps (fold (mark_due now) js db) = apps db" "grants (fold (mark_due now) js db) = grants db" "tickets (fold (mark_due now) js db) = tickets db"
  "configs (fold (mark_due now) js db) = configs db" "nonces (fold (mark_due now) js db) = nonces db" "devices (fold (mark_due now) js db) = devices db"
  "tokens (fold (mark_due now) js db) = tokens db" "throttles (fold (mark_due now) js db) = throttles db"
  by (induction js arbitrary: db; simp add: mark_due_frame)+

lemma due_connection_leases_frame [app_frame]:
  "apps (snd (due_connection_leases env now db)) = apps db" "grants (snd (due_connection_leases env now db)) = grants db"
  "tickets (snd (due_connection_leases env now db)) = tickets db" "configs (snd (due_connection_leases env now db)) = configs db"
  "nonces (snd (due_connection_leases env now db)) = nonces db" "devices (snd (due_connection_leases env now db)) = devices db"
  "tokens (snd (due_connection_leases env now db)) = tokens db" "throttles (snd (due_connection_leases env now db)) = throttles db"
  by (simp_all add: due_connection_leases_def fold_mark_due_frame split: sum.split)

section \<open>Rotations\<close>

lemma nonempty_Some: "nonempty x = Some s \<longleftrightarrow> x = Some s \<and> s \<noteq> []"
  by (auto simp: nonempty_def split: option.splits if_splits)

lemma rotate_read_cases:
  obtains "rotate_read env now secret ctx seen = Refused id"
  | old family where "rotate_read env now secret ctx seen = Refused (refresh_replayed now old family)" "rt_revoked old"
      "old \<in> set (tokens seen)" "rt_hash old = app_token_hash env secret" "rt_family old = Some family"
  | old f where "rotate_read env now secret ctx seen = Refused (\<lambda>db. f (revoke_tokens (\<lambda>t. rt_hash t = rt_hash old) now ''expired'' db))"
      "old \<in> set (tokens seen)" "f = id \<or> (\<exists>family. f = revoke_configs (\<lambda>c. cg_family c = family) now ''refresh_expired'')"
  | old family uc where "rotate_read env now secret ctx seen = Proceed old family uc" "old \<in> set (tokens seen)" "rt_family old = Some family"
      "family \<noteq> []" "rt_hash old = app_token_hash env secret" "\<not> rt_revoked old" "rotation_context seen old = Some uc"
proof (cases "one_or_none (\<lambda>t. rt_hash t = app_token_hash env secret) (tokens seen)")
  case None
  then show thesis using that(1) by (simp add: rotate_read_def)
next
  case (Some old)
  note m = one_or_none_Some [OF Some]
  show thesis
  proof (cases "rt_revoked old")
    case True
    then show thesis using Some m that(1,2) by (cases "nonempty (rt_family old)") (auto simp: rotate_read_def nonempty_Some)
  next
    case nr: False
    show thesis
    proof (cases "rt_expires old \<le> now")
      case True
      define f where "f = (case nonempty (rt_family old) of None \<Rightarrow> id | Some family \<Rightarrow> revoke_configs (\<lambda>c. cg_family c = family) now ''refresh_expired'')"
      have "rotate_read env now secret ctx seen = Refused (\<lambda>db. f (revoke_tokens (\<lambda>t. rt_hash t = rt_hash old) now ''expired'' db))"
        using True Some nr by (simp add: rotate_read_def f_def)
      moreover have "f = id \<or> (\<exists>family. f = revoke_configs (\<lambda>c. cg_family c = family) now ''refresh_expired'')"
        by (cases "nonempty (rt_family old)") (auto simp: f_def)
      ultimately show thesis using m by (intro that(3) [of f old]) simp_all
    next
      case False
      note r = rotate_read_def [of env now secret ctx seen, unfolded Some option.simps if_not_P [OF nr] if_not_P [OF False]]
      show thesis
      proof (cases "rt_app old \<noteq> Some (rc_app ctx) \<or> rt_device old \<noteq> rc_device ctx \<or> rt_key old \<noteq> Some (rc_key ctx)")
        case True
        then show thesis using r that(1) by simp
      next
        case bound: False
        show thesis
        proof (cases "nonempty (rt_family old)")
          case None
          then show thesis using r bound that(1) by simp
        next
          case fam: (Some family)
          show thesis
          proof (cases "rotation_context seen old")
            case None
            then show thesis using r bound fam that(1) by simp
          next
            case (Some uc)
            have "rotate_read env now secret ctx seen = Proceed old family uc" using r bound fam Some by simp
            then show thesis using fam [unfolded nonempty_Some] Some m nr by (intro that(4) [of old family uc]) simp_all
          qed
        qed
      qed
    qed
  qed
qed

lemma refresh_replayed_tokens: "tokens (refresh_replayed now old family db) = update_where (\<lambda>t. rt_family t = Some family) (revoke_token now ''refresh_reuse'') (tokens db)"
  by (simp add: refresh_replayed_def revoke_family_def)

lemma rotate_write_keeps:
  "apps (snd (rotate_write env ttl now new_secret agent (rotate_read env now' secret ctx seen) db)) = apps db \<and>
   grants (snd (rotate_write env ttl now new_secret agent (rotate_read env now' secret ctx seen) db)) = grants db \<and>
   tickets (snd (rotate_write env ttl now new_secret agent (rotate_read env now' secret ctx seen) db)) = tickets db \<and>
   conns (snd (rotate_write env ttl now new_secret agent (rotate_read env now' secret ctx seen) db)) = conns db \<and>
   leases (snd (rotate_write env ttl now new_secret agent (rotate_read env now' secret ctx seen) db)) = leases db \<and>
   nonces (snd (rotate_write env ttl now new_secret agent (rotate_read env now' secret ctx seen) db)) = nonces db \<and>
   throttles (snd (rotate_write env ttl now new_secret agent (rotate_read env now' secret ctx seen) db)) = throttles db"
proof (cases rule: rotate_read_cases [of env now' secret ctx seen])
  case (3 old f)
  from 3(3) show ?thesis by (elim disjE exE) (simp_all add: 3(1) rotate_write_def)
qed (simp_all add: rotate_write_def refresh_replayed_frame Let_def)

lemmas rotate_write_frame [app_frame] =
  rotate_write_keeps [THEN conjunct1] rotate_write_keeps [THEN conjunct2, THEN conjunct1]
  rotate_write_keeps [THEN conjunct2, THEN conjunct2, THEN conjunct1]
  rotate_write_keeps [THEN conjunct2, THEN conjunct2, THEN conjunct2, THEN conjunct1]
  rotate_write_keeps [THEN conjunct2, THEN conjunct2, THEN conjunct2, THEN conjunct2, THEN conjunct1]
  rotate_write_keeps [THEN conjunct2, THEN conjunct2, THEN conjunct2, THEN conjunct2, THEN conjunct2, THEN conjunct1]
  rotate_write_keeps [THEN conjunct2, THEN conjunct2, THEN conjunct2, THEN conjunct2, THEN conjunct2, THEN conjunct2]

lemma rotate_tokens:
  assumes "earlier seen db"
  shows "token_change (tokens db) (tokens (snd (rotate_write env ttl now new_secret agent (rotate_read env now secret ctx seen) db)))"
proof (cases rule: rotate_read_cases [of env now secret ctx seen])
  case 1
  then show ?thesis by (simp add: rotate_write_def tc_same)
next
  case (2 old family)
  then show ?thesis by (simp add: rotate_write_def refresh_replayed_tokens tc_revoke)
next
  case (3 old f)
  from 3(3) show ?thesis by (elim disjE exE) (simp_all add: 3(1) rotate_write_def tc_revoke)
next
  case (4 old family uc)
  have t: "\<exists>t \<in> set (tokens db). rt_hash t = rt_hash old \<and> rt_family t = Some family"
    using assms 4(2,3) unfolding earlier_def by metis
  define issue where "issue = new_refresh env new_secret [] ttl now (Some family)"
  have f: "ri_family issue = family" using 4(4) by (simp add: issue_def new_refresh_def or_text_def)
  define new where "new = \<lparr>rt_hash = ri_hash issue, rt_user = uc_user uc, rt_app = Some (uc_app uc), rt_device = uc_device uc,
    rt_key = Some (uc_key uc), rt_family = Some (ri_family issue), rt_parent = Some (rt_hash old), rt_expires = ri_expires issue,
    rt_revoked = False, rt_rotated = None, rt_created = now, rt_used = None, rt_revoked_at = None, rt_reason = None, rt_agent = cut 256 agent\<rparr>"
  have new: "rt_hash new = ri_hash issue" "rt_family new = Some family" by (simp_all add: new_def f)
  have "token_change (tokens db) (update_where (\<lambda>t. rt_hash t = rt_hash old \<and> \<not> rt_revoked t) (rotate_token now (ri_hash issue)) (tokens db) @ [new])"
    if "count_where (\<lambda>t. rt_hash t = rt_hash old \<and> \<not> rt_revoked t) (tokens db) = 1" "\<not> (\<exists>t \<in> set (tokens db). rt_hash t = ri_hash issue)"
    using tc_rotate [OF that(1), of new now] that(2) t new by fastforce
  then show ?thesis
    using 4(1) by (simp add: rotate_write_def issue_def [symmetric] new_def [symmetric] refresh_replayed_tokens tc_same tc_revoke
        rotate_token_def [symmetric, abs_def] Let_def)
qed

lemma step_tokens: "app_step env bnd db db' \<Longrightarrow> token_change (tokens db) (tokens db')"
proof (induction rule: app_step.induct)
  case (cascade_app db now a)
  show ?case by (simp add: revoke_application_cascade_def tc_revoke)
next
  case (cascade_grant db now a user)
  show ?case by (simp add: revoke_grant_cascade_def tc_revoke)
next
  case (cascade_key db now app key)
  show ?case by (simp add: revoke_key_cascade_def Let_def tc_revoke tc_same)
next
  case (login issue db uctx device now agent)
  then show ?case
    by (auto simp: save_initial_refresh_def fresh_family_def tc_same intro!: tc_login)
next
  case (rotate seen db ttl now secret' agent secret ctx)
  then show ?case by (rule rotate_tokens)
next
  case (logout db now secret ctx)
  show ?case by (simp add: revoke_refresh_family_def revoke_family_def tc_same tc_revoke split: option.split)
next
  case (revoke_device db now uctx target ip)
  show ?case by (simp add: revoke_application_device_def revoke_device_rows_def tc_same tc_revoke split: option.split sum.split)
next
  case (admin_revoke_device db now pid target)
  show ?case by (simp add: admin_revoke_application_device_def revoke_device_rows_def tc_same tc_revoke split: option.split)
qed (simp_all add: app_frame tc_same)

section \<open>Tickets, config grants and applications\<close>

definition ticket_closed :: "ticket_row \<Rightarrow> bool" where
  "ticket_closed t \<longleftrightarrow> tk_consumed t \<noteq> None \<or> tk_revoked t \<noteq> None"

definition ticket_keep :: "ticket_row \<Rightarrow> ticket_row \<Rightarrow> bool" where
  "ticket_keep t t' \<longleftrightarrow> (ticket_closed t \<longrightarrow> ticket_closed t') \<and> tk_jti t' = tk_jti t"

definition config_keep :: "config_row \<Rightarrow> config_row \<Rightarrow> bool" where
  "config_keep c c' \<longleftrightarrow> (cg_consumed c \<noteq> None \<longrightarrow> cg_consumed c' \<noteq> None) \<and> (cg_revoked c \<noteq> None \<longrightarrow> cg_revoked c' \<noteq> None)"

definition app_keep :: "app_row \<Rightarrow> app_row \<Rightarrow> bool" where
  "app_keep a a' \<longleftrightarrow> ap_id a' = ap_id a \<and> (ap_status a = ''revoked'' \<longrightarrow> ap_status a' = ''revoked'')"

abbreviation ticket_change :: "ticket_row list \<Rightarrow> ticket_row list \<Rightarrow> bool" where
  "ticket_change \<equiv> table_change tk_hash ticket_keep"

abbreviation config_change :: "config_row list \<Rightarrow> config_row list \<Rightarrow> bool" where
  "config_change \<equiv> table_change cg_public_id config_keep"

abbreviation app_change :: "app_row list \<Rightarrow> app_row list \<Rightarrow> bool" where
  "app_change \<equiv> table_change ap_public_id app_keep"

lemma tickets_revoke: "tickets db1 = tickets db \<Longrightarrow> ticket_change (tickets db) (tickets (revoke_tickets P now reason db1))"
  by (auto simp: revoke_tickets_def ticket_keep_def ticket_closed_def intro!: table_change_update)

lemma configs_revoke: "configs db1 = configs db \<Longrightarrow> config_change (configs db) (configs (revoke_configs P now reason db1))"
  by (auto simp: revoke_configs_def config_keep_def intro!: table_change_update)

lemma configs_put:
  assumes "\<And>r. cg_public_id (f r) = cg_public_id r \<and> config_keep r (f r)" "configs db1 = configs db"
  shows "config_change (configs db) (configs (put_config c f db1))"
  using assms by (auto simp: put_config_def intro!: table_change_update)

lemma issue_ticket_change: "ticket_change (tickets db) (tickets (snd (issue_activation_ticket env jti now pid user ttl intended db)))"
  by (auto simp: issue_activation_ticket_def Let_def table_change_refl split: option.split sum.split prod.split intro!: table_change_append)

lemma consume_ticket_change: "ticket_change (tickets db) (tickets (snd (consume_ticket_and_enroll env hex now uctx vt rq db)))"
  by (auto simp: consume_ticket_and_enroll_def table_change_refl ticket_keep_def ticket_closed_def insert_device_eqD
      split: option.split sum.split prod.split intro!: table_change_update)

lemma step_tickets: "app_step env bnd db db' \<Longrightarrow> ticket_change (tickets db) (tickets db')"
proof (induction rule: app_step.induct)
  case (cascade_app db now a)
  show ?case by (simp add: revoke_application_cascade_def tickets_revoke)
next
  case (cascade_grant db now a user)
  show ?case by (simp add: revoke_grant_cascade_def tickets_revoke)
next
  case (cascade_key db now app key)
  show ?case by (simp add: revoke_key_cascade_def Let_def tickets_revoke)
qed (simp_all add: app_frame table_change_refl issue_ticket_change consume_ticket_change)

lemma reserved_configs: "configs db1 = configs db \<Longrightarrow> config_change (configs db) (configs (reserved ctx x c pid core db1))"
  unfolding reserved_def by (simp, rule configs_put) (simp_all add: config_keep_def)

lemma put_closed: "config_change (configs db) (configs (put_config c (\<lambda>r. r\<lparr>cg_revoked := Some now, cg_reason := Some why\<rparr>) db))"
    "config_change (configs db) (configs (put_config c (\<lambda>r. r\<lparr>cg_consumed := Some now\<rparr>) db))"
  by (rule configs_put; simp add: config_keep_def)+

lemma reserve_configs: "config_change (configs db) (configs (snd (reserve_connection env cdw now not_after node uctx pid db)))"
  by (auto simp: reserve_connection_def reserve_new_def reserve_again_def Let_def table_change_refl put_closed
      split: option.split sum.split intro!: reserved_configs)

lemma consume_configs: "config_change (configs db) (configs (snd (consume_config_grant env now uctx pid db)))"
  by (auto simp: consume_config_grant_def table_change_refl put_closed split: option.split sum.split)

lemma issue_configs: "config_change (configs db) (configs (snd (issue_config_grants uuids now expires uctx requested db)))"
proof -
  have ids: "map cg_public_id (map (new_config uctx dev now expires) (zip sel ids)) = ids" if "length ids = length sel" for sel ids dev
  proof -
    have "cg_public_id \<circ> new_config uctx dev now expires = snd" by (simp add: fun_eq_iff new_config_def)
    then show ?thesis using that by (simp only: map_map) simp
  qed
  have "config_change (configs db) (configs (revoke_configs P now why db) @ map (new_config uctx dev now expires) (zip sel ids))"
    if "length ids = length sel" "distinct ids" "set ids \<inter> cg_public_id ` set (configs db) = {}" for P why dev sel ids
    unfolding revoke_configs_def
    using ids [OF that(1), of dev] that(2,3)
    by (simp, intro table_changeI) (auto simp: config_keep_def image_set simp del: map_map set_map)
  then show ?thesis
    by (auto simp: issue_config_grants_def Let_def table_change_refl split: option.split sum.split)
qed

lemma step_configs: "app_step env bnd db db' \<Longrightarrow> config_change (configs db) (configs db')"
proof (induction rule: app_step.induct)
  case (cascade_app db now a)
  show ?case by (simp add: revoke_application_cascade_def configs_revoke)
next
  case (cascade_grant db now a user)
  show ?case by (simp add: revoke_grant_cascade_def configs_revoke)
next
  case (cascade_key db now app key)
  show ?case by (simp add: revoke_key_cascade_def Let_def configs_revoke table_change_refl)
next
  case (rotate seen db ttl now secret' agent secret ctx)
  show ?case
  proof (cases rule: rotate_read_cases [of env now secret ctx seen])
    case (3 old f)
    from 3(3) show ?thesis by (elim disjE exE) (simp_all add: 3(1) rotate_write_def configs_revoke table_change_refl)
  qed (simp_all add: rotate_write_def refresh_replayed_def revoke_family_def configs_revoke Let_def table_change_refl)
next
  case (logout db now secret ctx)
  show ?case by (simp add: revoke_refresh_family_def revoke_family_def configs_revoke table_change_refl split: option.split)
next
  case (revoke_device db now uctx target ip)
  show ?case by (simp add: revoke_application_device_def revoke_device_rows_def configs_revoke table_change_refl split: option.split sum.split)
next
  case (admin_revoke_device db now pid target)
  show ?case by (simp add: admin_revoke_application_device_def revoke_device_rows_def configs_revoke table_change_refl split: option.split)
next
  case (fail_conn db now pid reason)
  show ?case by (simp add: fail_connection_def revoke_bound_configs_def configs_revoke table_change_refl split: option.split)
next
  case (stop db now uctx pid reason)
  show ?case by (simp add: request_connection_stop_def revoke_bound_configs_def configs_revoke table_change_refl Let_def split: option.split sum.split)
qed (simp_all add: app_frame table_change_refl issue_configs consume_configs reserve_configs)

lemma step_apps: "app_step env bnd db db' \<Longrightarrow> app_change (apps db) (apps db')"
proof (induction rule: app_step.induct)
  case (create db dw now owner name api lang branding mode)
  show ?case
    by (auto simp: create_application_def Let_def table_change_refl app_named_def one_or_none_None intro!: table_change_append)
next
  case (set_mode db pid mode)
  show ?case by (auto simp: set_user_access_mode_def table_change_refl app_keep_def split: option.split intro!: table_change_update)
next
  case (icon db pid meta)
  show ?case by (auto simp: set_application_icon_def Let_def table_change_refl app_keep_def split: option.split intro!: table_change_update)
next
  case (revoke_app db now pid)
  show ?case by (auto simp: revoke_application_row_def table_change_refl app_keep_def split: option.split intro!: table_change_update)
qed (simp_all add: app_frame table_change_refl)

end
