(* ===== verification/AppSamples.thy ===== *)
theory AppSamples
  imports AppSteps
begin

text \<open>
  A small run of the Application API from an empty database: an application, a grant, a ticket, an enrolled device, a
  session, a config grant and an active connection. The cryptographic parameters are simple concrete functions. The
  run instantiates the hypotheses of the properties about reachable states.
\<close>

definition initial_db :: "app_db \<Rightarrow> bool" where
  "initial_db db \<longleftrightarrow> apps db = [] \<and> tickets db = [] \<and> configs db = [] \<and> tokens db = [] \<and> conns db = [] \<and> leases db = [] \<and> nonces db = []"

definition sample_env :: app_env where
  "sample_env =
     \<lparr>sha256 = take 8, hmac = (\<lambda>k m. k @ m), identifier_key = [], ip_text = (\<lambda>s. if s = [] then None else Some s), json_dumps = (\<lambda>_. []),
      json_loads = (\<lambda>_. None), ed_public = (\<lambda>k. k), ed_sign = (\<lambda>k m. []), ed_verify = (\<lambda>k m s. True), x_public = (\<lambda>k. k),
      key_seal = (\<lambda>n v s. ''sealed''), key_open = (\<lambda>b s. Inr [(''private_key'', VStr (b64e (replicate 32 7)))]),
      lease_seal = (\<lambda>n v s. ''sealed''), lease_open = (\<lambda>b s. Inr [])\<rparr>"

definition sample_user :: user_row where
  "sample_user = \<lparr>us_id = 5, us_status = ''active'', us_data_limit = None, us_expire = None, us_device_limit = Some 1,
     us_access_mode = Some ''application'', us_client_mode = None, us_app_username = Some ''ada'', us_password_hash = None, us_online = None\<rparr>"

definition empty_db :: app_db where
  "empty_db = \<lparr>apps = [], keys = [], users = [sample_user], admins = [1], grants = [], tickets = [], configs = [], conns = [], leases = [],
     nonces = [], throttles = [], devices = [], tokens = [], usage = [], portal = None, audits = []\<rparr>"

definition sample_request :: request_context where
  "sample_request = \<lparr>rc_app = 1, rc_app_public = ''a'', rc_app_status = ''active'', rc_key = 2, rc_key_id = ''cfg-'', rc_key_status = ''active'',
     rc_private = [], rc_mode = ''all_users'', rc_device = Some 1, rc_device_key_id = Some ''dev-k'', rc_device_public = None,
     rc_device_status = Some ''active'', rc_user = Some 5\<rparr>"

definition sample_context :: user_context where
  "sample_context = (login_context empty_db sample_request sample_user)\<lparr>uc_device := Some 1, uc_family := Some ''f'', uc_grant := Some 1\<rparr>"

definition sample_access :: user_context where
  "sample_access = sample_context\<lparr>uc_device_key_id := Some ''dev-k''\<rparr>"

definition sample_device :: device_request where
  "sample_device = \<lparr>dr_public = replicate 32 9, dr_name = None, dr_platform = None, dr_version = None, dr_ip = None, dr_agent = None\<rparr>"

definition sample1 :: app_db where
  "sample1 = snd (create_application sample_env \<lparr>kd_public_id = ''a'', kd_signing_hex = [], kd_config_hex = [], kd_signing_private = [7],
     kd_config_private = [7], kd_nonce1 = [], kd_nonce2 = []\<rparr> 10 1 ''App'' [] ''en'' [] ''all_users'' empty_db)"

definition sample2 :: app_db where
  "sample2 = snd (grant_user ''a'' 5 sample1)"

definition sample3 :: app_db where
  "sample3 = snd (issue_activation_ticket sample_env ''j'' 20 ''a'' 5 600 None sample2)"

definition sample_token :: string where
  "sample_token = ''zgat1..''"

definition sample_verified :: verified_ticket where
  "sample_verified = \<lparr>vt_hash = app_token_hash sample_env sample_token, vt_jti = VStr ''j'', vt_signing_key = 1\<rparr>"

definition sample4 :: app_db where
  "sample4 = snd (consume_ticket_and_enroll sample_env ''k'' 30 sample_context sample_verified sample_device sample3)"

definition sample5 :: app_db where
  "sample5 = snd (save_initial_refresh sample_context 1 (new_refresh sample_env ''s'' ''f'' 60 40 None) 40 None sample4)"

definition sample6 :: app_db where
  "sample6 = snd (issue_config_grants (\<lambda>_. ''c'') 50 1000 sample_access
     [\<lparr>se_core = ''xray'', se_protocol = Some ''vless'', se_source = Some ''acc'', se_inbound = None\<rparr>] sample5)"

definition sample7 :: app_db where
  "sample7 = snd (reserve_connection sample_env \<lparr>cd_public_id = ''n'', cd_lease_id = ''l'', cd_account_hex = ''h''\<rparr> 60 5000 None sample_access ''c'' sample6)"

definition sample8 :: app_db where
  "sample8 = snd (complete_connection sample_env [] 70 5000 ''n'' [] ''x'' sample7)"

lemma sample_initial: "initial_db empty_db"
  by (simp add: initial_db_def empty_db_def)

lemma sample_tokens: "tokens sample4 = []"
  by code_simp

lemma sample_run:
  "(app_step sample_env 0)\<^sup>*\<^sup>* empty_db sample1" "(app_step sample_env 0)\<^sup>*\<^sup>* empty_db sample2" "(app_step sample_env 0)\<^sup>*\<^sup>* empty_db sample3"
  "(app_step sample_env 0)\<^sup>*\<^sup>* empty_db sample4" "(app_step sample_env 0)\<^sup>*\<^sup>* empty_db sample5" "(app_step sample_env 0)\<^sup>*\<^sup>* empty_db sample6"
  "(app_step sample_env 0)\<^sup>*\<^sup>* empty_db sample7" "(app_step sample_env 0)\<^sup>*\<^sup>* empty_db sample8"
proof -
  show 1: "(app_step sample_env 0)\<^sup>*\<^sup>* empty_db sample1" unfolding sample1_def by (rule r_into_rtranclp) (rule app_step.create)
  show 2: "(app_step sample_env 0)\<^sup>*\<^sup>* empty_db sample2" using 1 unfolding sample2_def by (rule rtranclp.rtrancl_into_rtrancl) (rule app_step.grant)
  show 3: "(app_step sample_env 0)\<^sup>*\<^sup>* empty_db sample3" using 2 unfolding sample3_def by (rule rtranclp.rtrancl_into_rtrancl) (rule app_step.issue_ticket)
  show 4: "(app_step sample_env 0)\<^sup>*\<^sup>* empty_db sample4" using 3 unfolding sample4_def by (rule rtranclp.rtrancl_into_rtrancl) (rule app_step.enroll_ticket)
  show 5: "(app_step sample_env 0)\<^sup>*\<^sup>* empty_db sample5" using 4 unfolding sample5_def
    by (rule rtranclp.rtrancl_into_rtrancl) (rule app_step.login, simp add: fresh_family_def sample_tokens)
  show 6: "(app_step sample_env 0)\<^sup>*\<^sup>* empty_db sample6" using 5 unfolding sample6_def by (rule rtranclp.rtrancl_into_rtrancl) (rule app_step.issue_configs)
  show 7: "(app_step sample_env 0)\<^sup>*\<^sup>* empty_db sample7" using 6 unfolding sample7_def by (rule rtranclp.rtrancl_into_rtrancl) (rule app_step.reserve)
  show 8: "(app_step sample_env 0)\<^sup>*\<^sup>* empty_db sample8" using 7 unfolding sample8_def by (rule rtranclp.rtrancl_into_rtrancl) (rule app_step.complete)
qed

lemma InrI: "\<not> isl (fst r) \<Longrightarrow> \<exists>x. r = (Inr x, snd r)"
  by (cases r; cases "fst r") simp_all

lemma sample_enrolled: "\<exists>d. consume_ticket_and_enroll sample_env ''k'' 30 sample_context sample_verified sample_device sample3 = (Inr d, sample4)"
  unfolding sample4_def by (rule InrI) code_simp

lemma sample_delivered: "\<exists>m db1. consume_config_grant sample_env 80 sample_access ''c'' sample8 = (Inr m, db1)"
proof -
  have "\<not> isl (fst (consume_config_grant sample_env 80 sample_access ''c'' sample8))" by code_simp
  then show ?thesis using InrI by blast
qed

end
