(* ===== verification/AppAuthProps.thy ===== *)
theory AppAuthProps
  imports AppSamples
begin

text \<open>
  Properties of the authentication half of the Application API over all runs of \<open>app_step\<close>: refresh token families,
  activation tickets, device slots, the replay ledger, config grants and revoked applications.
\<close>

section \<open>Runs\<close>

lemma run_tables:
  assumes "(app_step env bnd)\<^sup>*\<^sup>* db db'"
  shows "token_change\<^sup>*\<^sup>* (tokens db) (tokens db')" "ticket_change\<^sup>*\<^sup>* (tickets db) (tickets db')"
    "config_change\<^sup>*\<^sup>* (configs db) (configs db')" "app_change\<^sup>*\<^sup>* (apps db) (apps db')"
  using assms
  by (induction rule: rtranclp_induct)
    (auto intro: rtranclp.rtrancl_into_rtrancl dest: step_tokens step_tickets step_configs step_apps)

section \<open>Refresh token families\<close>

definition single_live :: "token_row list \<Rightarrow> bool" where
  "single_live ts \<longleftrightarrow> distinct (map rt_hash ts) \<and>
     (\<forall>s \<in> set ts. \<forall>t \<in> set ts. \<not> rt_revoked s \<and> \<not> rt_revoked t \<and> rt_family s = rt_family t \<and> rt_family s \<noteq> None \<longrightarrow> s = t)"

definition family_dead :: "string \<Rightarrow> token_row list \<Rightarrow> bool" where
  "family_dead f ts \<longleftrightarrow> (\<exists>t \<in> set ts. rt_family t = Some f) \<and> (\<forall>t \<in> set ts. rt_family t = Some f \<longrightarrow> rt_revoked t)"

lemma token_row_changes [simp]:
  "rt_hash (revoke_token now why t) = rt_hash t" "rt_family (revoke_token now why t) = rt_family t" "rt_revoked (revoke_token now why t)"
  "rt_hash (rotate_token now h t) = rt_hash t" "rt_family (rotate_token now h t) = rt_family t" "rt_revoked (rotate_token now h t)"
  by (simp_all add: revoke_token_def rotate_token_def)

lemma unrevoked_update:
  assumes "s \<in> set (update_where P f ts)" "\<not> rt_revoked s" "\<And>t. rt_revoked (f t)"
  shows "s \<in> set ts \<and> \<not> P s"
  using assms by (elim update_whereE) auto

lemma counted_row:
  assumes "count_where P ts = 1"
  obtains t where "t \<in> set ts" "P t"
proof -
  have "filter P ts \<noteq> []" using assms by (auto simp: count_where_def)
  then show thesis using that by (auto simp: filter_empty_conv)
qed

lemma distinct_hash: "distinct (map rt_hash ts) \<Longrightarrow> s \<in> set ts \<Longrightarrow> t \<in> set ts \<Longrightarrow> rt_hash s = rt_hash t \<Longrightarrow> s = t"
  by (metis distinct_map inj_onD)

lemma single_live_change: "token_change ts ts' \<Longrightarrow> single_live ts \<Longrightarrow> single_live ts'"
proof (induction rule: token_change.induct)
  case (tc_revoke ts P now reason)
  then show ?case using unrevoked_update [of _ P "revoke_token now reason" ts] unfolding single_live_def by (simp; blast)
next
  case (tc_login t ts)
  then show ?case by (auto simp: single_live_def)
next
  case (tc_rotate h ts new now)
  obtain t0 where t0: "t0 \<in> set ts" "rt_hash t0 = h" "\<not> rt_revoked t0" by (rule counted_row [OF tc_rotate.hyps(1)]) blast
  have d: "distinct (map rt_hash ts)" using tc_rotate.prems by (simp add: single_live_def)
  have fam: "rt_family t0 = rt_family new" using tc_rotate.hyps(3) distinct_hash [OF d t0(1)] t0(2) by metis
  let ?us = "update_where (\<lambda>t. rt_hash t = h \<and> \<not> rt_revoked t) (rotate_token now (rt_hash new)) ts"
  have live: "s \<in> set ts \<and> rt_hash s \<noteq> h" if "s \<in> set ?us" "\<not> rt_revoked s" for s
    using unrevoked_update [OF that] that(2) by simp
  have other: "rt_family s \<noteq> rt_family new" if "s \<in> set ?us" "\<not> rt_revoked s" for s
    using live [OF that] that(2) t0 fam tc_rotate.prems tc_rotate.hyps(4) unfolding single_live_def by metis
  have "distinct (map rt_hash (?us @ [new]))" using d tc_rotate.hyps(2) by simp
  moreover have "s = t" if "s \<in> set (?us @ [new])" "t \<in> set (?us @ [new])" "\<not> rt_revoked s" "\<not> rt_revoked t" "rt_family s = rt_family t"
      "rt_family s \<noteq> None" for s t
    using that live other tc_rotate.prems unfolding single_live_def by (auto; metis)
  ultimately show ?case unfolding single_live_def by blast
qed

text \<open>A bulk update that keeps families and only ever revokes cannot bring a dead family back.\<close>

lemma family_dead_update:
  assumes "\<And>t. rt_family (f t) = rt_family t \<and> rt_revoked (f t)" "\<exists>t \<in> set ts. rt_family t = Some fam"
    and "\<And>t. t \<in> set ts \<Longrightarrow> rt_family t = Some fam \<Longrightarrow> rt_revoked t \<or> P t"
  shows "family_dead fam (update_where P f ts)"
proof -
  obtain t where t: "t \<in> set ts" "rt_family t = Some fam" using assms(2) by blast
  have "rt_family (if P t then f t else t) = Some fam" using t(2) assms(1) by simp
  then have "\<exists>t \<in> set (update_where P f ts). rt_family t = Some fam" using update_where_row [OF t(1)] by metis
  moreover have "rt_revoked s" if "s \<in> set (update_where P f ts)" "rt_family s = Some fam" for s
    using that(1)
  proof (cases rule: update_whereE)
    case same
    then show ?thesis using assms(3) that(2) by blast
  next
    case (changed y)
    then show ?thesis using assms(1) by simp
  qed
  ultimately show ?thesis unfolding family_dead_def by blast
qed

lemma family_dead_change: "token_change ts ts' \<Longrightarrow> distinct (map rt_hash ts) \<Longrightarrow> family_dead f ts \<Longrightarrow> family_dead f ts'"
proof (induction rule: token_change.induct)
  case (tc_revoke ts P now reason)
  then show ?case by (intro family_dead_update) (auto simp: family_dead_def)
next
  case (tc_login t ts)
  then show ?case unfolding family_dead_def by auto
next
  case (tc_rotate h ts new now)
  obtain t0 where t0: "t0 \<in> set ts" "rt_hash t0 = h" "\<not> rt_revoked t0" by (rule counted_row [OF tc_rotate.hyps(1)]) blast
  have "rt_family t0 = rt_family new" using tc_rotate.hyps(3) distinct_hash [OF tc_rotate.prems(1) t0(1)] t0(2) by metis
  then have "rt_family new \<noteq> Some f" using t0 tc_rotate.prems(2) unfolding family_dead_def by metis
  moreover have "family_dead f (update_where (\<lambda>t. rt_hash t = h \<and> \<not> rt_revoked t) (rotate_token now (rt_hash new)) ts)"
    using tc_rotate.prems(2) by (intro family_dead_update) (auto simp: family_dead_def)
  ultimately show ?case unfolding family_dead_def by auto
qed simp

lemma token_changes_keep:
  assumes "token_change\<^sup>*\<^sup>* ts ts'" "single_live ts"
  shows "single_live ts'" "family_dead f ts \<Longrightarrow> family_dead f ts'"
proof -
  have "single_live ts' \<and> (family_dead f ts \<longrightarrow> family_dead f ts')"
    using assms(1)
  proof (induction rule: rtranclp_induct)
    case base
    then show ?case using assms(2) by simp
  next
    case (step us vs)
    then show ?case using single_live_change [OF step.hyps(2)] family_dead_change [OF step.hyps(2)] unfolding single_live_def by blast
  qed
  then show "single_live ts'" "family_dead f ts \<Longrightarrow> family_dead f ts'" by blast+
qed

lemma reachable_single_live:
  assumes "initial_db db0" "(app_step env bnd)\<^sup>*\<^sup>* db0 db"
  shows "single_live (tokens db)"
proof -
  have "single_live (tokens db0)" using assms(1) by (simp add: initial_db_def single_live_def)
  then show ?thesis by (rule token_changes_keep(1) [OF run_tables(1) [OF assms(2)]])
qed

lemma dead_family_inactive: "family_dead f (tokens db) \<Longrightarrow> \<not> active_family db now a u d k f"
  by (auto simp: active_family_def family_dead_def count_where_def live_token_def filter_empty_conv)

text \<open>
  C17: A refresh token family has at most one live token, in every run and even when rotations read stale rows. As
  soon as a token of a family that was rotated or revoked is presented again, the rotation is refused, and from
  then on every token of the family is revoked and no access token of the family is accepted.
\<close>
theorem refresh_reuse_ends_the_family:
  assumes "initial_db db0" "(app_step env bnd)\<^sup>*\<^sup>* db0 db"
    and "one_or_none (\<lambda>t. rt_hash t = app_token_hash env secret) (tokens db) = Some old" "rt_revoked old" "rt_family old = Some f" "f \<noteq> []"
  shows "(\<forall>s t. s \<in> set (tokens db) \<longrightarrow> t \<in> set (tokens db) \<longrightarrow> \<not> rt_revoked s \<longrightarrow> \<not> rt_revoked t \<longrightarrow>
            rt_family s = rt_family t \<longrightarrow> rt_family s \<noteq> None \<longrightarrow> s = t) \<and>
    fst (rotate_refresh env ttl now new_secret secret ctx agent db) = Inl ApplicationAuthFailed \<and>
    (\<forall>bnd' db2 now2 claims. (app_step env bnd')\<^sup>*\<^sup>* (snd (rotate_refresh env ttl now new_secret secret ctx agent db)) db2 \<longrightarrow>
       cl_family claims = f \<longrightarrow> fst (access_user_context now2 claims db2) = None)"
proof -
  have live: "single_live (tokens db)" by (rule reachable_single_live [OF assms(1,2)])
  have r: "rotate_refresh env ttl now new_secret secret ctx agent db = (Inl ApplicationAuthFailed, refresh_replayed now old f db)"
    using assms(3-6) by (simp add: rotate_refresh_def rotate_read_def rotate_write_def nonempty_def)
  have old: "old \<in> set (tokens db)" using one_or_none_Some [OF assms(3)] by simp
  let ?db1 = "refresh_replayed now old f db"
  have "tokens ?db1 = update_where (\<lambda>t. rt_family t = Some f) (revoke_token now ''refresh_reuse'') (tokens db)"
    by (rule refresh_replayed_tokens)
  then have "single_live (tokens ?db1)" "family_dead f (tokens ?db1)"
    using single_live_change [OF tc_revoke live] old assms(5) by (auto intro!: family_dead_update)
  then have dead: "family_dead f (tokens db2)" if "(app_step env bnd')\<^sup>*\<^sup>* ?db1 db2" for bnd' db2
    using token_changes_keep [OF run_tables(1) [OF that]] by blast
  have "fst (access_user_context now2 claims db2) = None" if "(app_step env bnd')\<^sup>*\<^sup>* ?db1 db2" "cl_family claims = f" for bnd' db2 now2 claims
    using dead_family_inactive [OF dead [OF that(1)]] that(2)
    by (simp add: access_user_context_def Let_def split: option.split)
  moreover have "s = t" if "s \<in> set (tokens db)" "t \<in> set (tokens db)" "\<not> rt_revoked s" "\<not> rt_revoked t" "rt_family s = rt_family t"
      "rt_family s \<noteq> None" for s t
    using live that unfolding single_live_def by metis
  ultimately show ?thesis unfolding r by simp
qed


definition sample_session :: app_db where
  "sample_session = snd (save_initial_refresh sample_context 1 (new_refresh sample_env ''s'' ''f'' 60 10 None) 10 None empty_db)"

theorem refresh_reuse_ends_the_family_witness:
  "\<exists>old. one_or_none (\<lambda>t. rt_hash t = app_token_hash sample_env ''s'') (tokens (revoke_refresh_family sample_env 20 ''s'' sample_request sample_session)) = Some old \<and>
     rt_revoked old \<and>
     fst (rotate_refresh sample_env 60 30 ''n'' ''s'' sample_request None (revoke_refresh_family sample_env 20 ''s'' sample_request sample_session)) =
       Inl ApplicationAuthFailed"
proof -
  let ?db = "revoke_refresh_family sample_env 20 ''s'' sample_request sample_session"
  have i: "initial_db empty_db" by (simp add: initial_db_def empty_db_def)
  have "app_step sample_env 0 empty_db sample_session"
    unfolding sample_session_def by (rule app_step.login) (simp add: fresh_family_def empty_db_def)
  then have run: "(app_step sample_env 0)\<^sup>*\<^sup>* empty_db ?db" using app_step.logout by (metis r_into_rtranclp rtranclp.rtrancl_into_rtrancl)
  obtain old where old: "one_or_none (\<lambda>t. rt_hash t = app_token_hash sample_env ''s'') (tokens ?db) = Some old" "rt_revoked old" "rt_family old = Some ''f''"
    by (simp add: revoke_refresh_family_def sample_session_def save_initial_refresh_def new_refresh_def empty_db_def sample_context_def sample_request_def
        login_context_def context_for_def request_parts_def one_or_none_def or_text_def nonempty_def revoke_family_def revoke_tokens_def update_where_def
        app_token_hash_def sample_env_def)
  show ?thesis using refresh_reuse_ends_the_family [OF i run old(1-3), of 60 30 "''n''" sample_request None] old(1,2) by simp
qed

end
