(* ===== verification/AppEnrollProps.thy ===== *)
theory AppEnrollProps
  imports AppAuthProps
begin

text \<open>
  Properties of enrollment and of what an application owns: an activation ticket enrolls one device, device slots
  stay within the limit of the user, a config grant is delivered once, and a revoked application stays closed, in
  every interleaving of the transactions that follow.
\<close>

section \<open>Keys of the tables in reachable states\<close>

lemma table_changes_keys: "(table_change key keep)\<^sup>*\<^sup>* xs ys \<Longrightarrow> distinct (map key xs) \<Longrightarrow> distinct (map key ys)"
  by (induction rule: rtranclp_induct) (auto dest: table_change_keys)

lemma reachable_keys:
  assumes "initial_db db0" "(app_step env bnd)\<^sup>*\<^sup>* db0 db"
  shows "distinct (map tk_hash (tickets db))" "distinct (map cg_public_id (configs db))" "distinct (map ap_public_id (apps db))"
  using run_tables [OF assms(2)] assms(1) by (auto simp: initial_db_def intro: table_changes_keys)

section \<open>Enrollment\<close>

lemma insert_device_InrD:
  assumes "insert_device env taken hex now u a rq db = (Inr d, db1)"
  shows "devices db1 = devices db @ [d]" "tickets db1 = tickets db" "dv_user d = us_id u" "dv_status d = Some ''active''" "dv_app d = Some (ap_id a)"
    "slot_limit (us_device_limit u) = 0 \<or> occupying_device_count db (us_id u) < slot_limit (us_device_limit u)"
    "dv_id d \<notin> dv_id ` set (devices db)"
  using assms fresh_id_notin [of "map dv_id (devices db)"]
  by (auto simp: insert_device_def new_device_def Let_def split: if_splits)

lemma enroll_ticketE:
  assumes "consume_ticket_and_enroll env hex now ctx vt rq db = (Inr d, db1)"
  obtains u g a t db' where "user_of db (uc_user ctx) = Some u" "one_or_none (\<lambda>t. tk_hash t = vt_hash vt) (tickets db) = Some t"
    "ticket_matches now a u g vt t" "insert_device env ActivationTicketInvalid hex now u a rq db = (Inr d, db')"
    "db1 = db'\<lparr>tickets := update_where (\<lambda>x. tk_hash x = tk_hash t) (\<lambda>x. x\<lparr>tk_consumed := Some now\<rparr>) (tickets db')\<rparr>" "us_status u = ''active''"
  using assms unfolding consume_ticket_and_enroll_def by (auto split: option.splits prod.splits sum.splits if_splits)

lemma enroll_attestedE:
  assumes "enroll_attested_device env hex now ctx rq db = (Inr d, db1)"
  obtains u a where "user_of db (uc_user ctx) = Some u" "insert_device env ApplicationAuthFailed hex now u a rq db = (Inr d, db1)"
    "us_status u = ''active''"
  using assms unfolding enroll_attested_device_def Let_def by (auto split: option.splits if_splits)

lemma occupying_appended:
  assumes "devices db1 = devices db @ [d]" "dv_user d = u" "dv_status d = Some ''active''"
  shows "occupying_device_count db1 u = occupying_device_count db u + 1" "d \<in> set (occupying_devices db1 u)"
  using assms by (simp_all add: occupying_device_count_def count_where_def occupying_devices_def occupying_def)

lemma within_when_free:
  assumes "d \<in> set (occupying_devices db u)" "slot_limit n = 0 \<or> occupying_device_count db u \<le> slot_limit n"
  shows "device_within_limit db u (dv_id d) n"
proof (cases "slot_limit n = 0")
  case False
  then have "int (length (occupying_devices db u)) \<le> slot_limit n"
    using assms(2) by (simp add: occupying_devices_def occupying_device_count_def count_where_def)
  then have "take (nat (slot_limit n)) (occupying_devices db u) = occupying_devices db u" by simp
  then show ?thesis using assms(1) by (simp add: device_within_limit_def Let_def)
qed (simp add: device_within_limit_def Let_def)

lemma inserted_within:
  assumes "insert_device env taken hex now u a rq db = (Inr d, db')" "devices db1 = devices db'"
  shows "devices db1 = devices db @ [d] \<and> dv_id d \<notin> dv_id ` set (devices db) \<and>
    occupying_device_count db1 (us_id u) = occupying_device_count db (us_id u) + 1 \<and>
    (slot_limit (us_device_limit u) = 0 \<or> occupying_device_count db1 (us_id u) \<le> slot_limit (us_device_limit u)) \<and>
    device_within_limit db1 (us_id u) (dv_id d) (us_device_limit u)"
proof -
  note i = insert_device_InrD [OF assms(1)]
  have dev: "devices db1 = devices db @ [d]" using i(1) assms(2) by simp
  note o = occupying_appended [OF dev i(3,4)]
  have "slot_limit (us_device_limit u) = 0 \<or> occupying_device_count db1 (us_id u) \<le> slot_limit (us_device_limit u)" using i(6) o(1) by auto
  then show ?thesis using dev o within_when_free [OF o(2)] i(7) by blast
qed

text \<open>
  C24: Both ways to enroll respect the device limit of the user: an enrollment that succeeds adds one device under
  a new id to an active user, the user had a free slot (a limit of zero or below means no limit), the number of
  occupied slots afterwards is one more and within the limit, and the new device counts as within it.
\<close>
theorem enrollment_respects_device_limit:
  assumes "consume_ticket_and_enroll env hex now ctx vt rq db = (Inr d, db1) \<or> enroll_attested_device env hex now ctx rq db = (Inr d, db1)"
  shows "\<exists>u. user_of db (uc_user ctx) = Some u \<and> us_status u = ''active'' \<and>
    devices db1 = devices db @ [d] \<and> dv_id d \<notin> dv_id ` set (devices db) \<and>
    occupying_device_count db1 (us_id u) = occupying_device_count db (us_id u) + 1 \<and>
    (slot_limit (us_device_limit u) = 0 \<or> occupying_device_count db1 (us_id u) \<le> slot_limit (us_device_limit u)) \<and>
    device_within_limit db1 (us_id u) (dv_id d) (us_device_limit u)"
  using assms
proof
  assume "consume_ticket_and_enroll env hex now ctx vt rq db = (Inr d, db1)"
  then obtain u g a and t :: ticket_row and db' where u: "user_of db (uc_user ctx) = Some u" "us_status u = ''active''"
      "insert_device env ActivationTicketInvalid hex now u a rq db = (Inr d, db')"
      "db1 = db'\<lparr>tickets := update_where (\<lambda>x. tk_hash x = tk_hash t) (\<lambda>x. x\<lparr>tk_consumed := Some now\<rparr>) (tickets db')\<rparr>"
    by (rule enroll_ticketE) blast
  have "devices db1 = devices db'" using u(4) by simp
  then show ?thesis using inserted_within [OF u(3)] u(1,2) by blast
next
  assume "enroll_attested_device env hex now ctx rq db = (Inr d, db1)"
  then obtain u a where u: "user_of db (uc_user ctx) = Some u" "us_status u = ''active''"
      "insert_device env ApplicationAuthFailed hex now u a rq db = (Inr d, db1)"
    by (rule enroll_attestedE) blast
  show ?thesis using inserted_within [OF u(3) refl] u(1,2) by blast
qed

theorem enrollment_respects_device_limit_witness:
  "\<exists>d db1. consume_ticket_and_enroll sample_env ''k'' 30 sample_context sample_verified sample_device sample3 = (Inr d, db1) \<and>
     devices db1 = devices sample3 @ [d]"
proof -
  obtain d where d: "consume_ticket_and_enroll sample_env ''k'' 30 sample_context sample_verified sample_device sample3 = (Inr d, sample4)"
    using sample_enrolled by blast
  show ?thesis using enrollment_respects_device_limit [OF disjI1, OF d] d by blast
qed

section \<open>Activation tickets\<close>

lemma consumed_ticket_closed:
  assumes "distinct (map tk_hash (tickets db))" "consume_ticket_and_enroll env hex now ctx vt rq db = (Inr d, db1)"
  obtains t t' where "t \<in> set (tickets db)" "tk_hash t = vt_hash vt" "\<not> ticket_closed t" "now < tk_expires t" "tk_user t = Some (uc_user ctx)"
    "t' \<in> set (tickets db1)" "tk_hash t' = vt_hash vt" "ticket_closed t'"
proof -
  obtain u g a t db' where e: "user_of db (uc_user ctx) = Some u" "one_or_none (\<lambda>t. tk_hash t = vt_hash vt) (tickets db) = Some t"
      "ticket_matches now a u g vt t" "insert_device env ActivationTicketInvalid hex now u a rq db = (Inr d, db')"
      "db1 = db'\<lparr>tickets := update_where (\<lambda>x. tk_hash x = tk_hash t) (\<lambda>x. x\<lparr>tk_consumed := Some now\<rparr>) (tickets db')\<rparr>"
    using assms(2) by (rule enroll_ticketE) blast
  note t = one_or_none_Some [OF e(2)]
  have u: "us_id u = uc_user ctx" using one_or_none_Some [OF e(1) [unfolded user_of_def]] by simp
  have tk: "tickets db1 = update_where (\<lambda>x. tk_hash x = tk_hash t) (\<lambda>x. x\<lparr>tk_consumed := Some now\<rparr>) (tickets db)"
    using e(5) insert_device_InrD(2) [OF e(4)] by simp
  have "t\<lparr>tk_consumed := Some now\<rparr> \<in> set (tickets db1)"
    using update_where_row [of t "tickets db" "\<lambda>x. tk_hash x = tk_hash t" "\<lambda>x. x\<lparr>tk_consumed := Some now\<rparr>"] t tk by simp
  then show thesis using t e(3) u by (intro that [of t "t\<lparr>tk_consumed := Some now\<rparr>"]) (auto simp: ticket_matches_def ticket_closed_def)
qed

lemma closed_ticket_refused:
  assumes "one_or_none (\<lambda>t. tk_hash t = vt_hash vt) (tickets db) = Some t" "ticket_closed t"
  shows "consume_ticket_and_enroll env hex now ctx vt rq db = (Inl ActivationTicketInvalid, db)"
  using assms unfolding consume_ticket_and_enroll_def ticket_closed_def
  by (auto simp: ticket_matches_def split: option.splits)

text \<open>
  C18: An activation ticket enrolls at most one device. A ticket that enrolled a device was open, unexpired and made
  for that user; from then on, whatever other transactions run in between, a second enrollment with the same ticket
  is refused by every user and for every device and changes nothing, and the ticket has no preview any more.
\<close>
theorem activation_ticket_enrolls_once:
  assumes "initial_db db0" "(app_step env bnd)\<^sup>*\<^sup>* db0 db"
    and "consume_ticket_and_enroll env hex now ctx vt rq db = (Inr d, db1)"
  shows "(\<exists>t \<in> set (tickets db). tk_hash t = vt_hash vt \<and> tk_consumed t = None \<and> tk_revoked t = None \<and> now < tk_expires t \<and> tk_user t = Some (uc_user ctx)) \<and>
    (\<forall>bnd' db2 hex2 now2 ctx2 vt2 rq2 token payload encoded signature.
       (app_step env bnd')\<^sup>*\<^sup>* db1 db2 \<longrightarrow> vt_hash vt2 = vt_hash vt \<longrightarrow> app_token_hash env token = vt_hash vt \<longrightarrow>
       consume_ticket_and_enroll env hex2 now2 ctx2 vt2 rq2 db2 = (Inl ActivationTicketInvalid, db2) \<and>
       previewed_ticket env now2 token payload encoded signature db2 = Inl ActivationTicketInvalid)"
proof -
  have "app_step env bnd db db1" using app_step.enroll_ticket [of env bnd db hex now ctx vt rq] assms(3) by simp
  then have d1: "distinct (map tk_hash (tickets db1))" using reachable_keys(1) [OF assms(1) rtranclp.rtrancl_into_rtrancl [OF assms(2)]] by blast
  obtain t t' where t: "t \<in> set (tickets db)" "tk_hash t = vt_hash vt" "\<not> ticket_closed t" "now < tk_expires t" "tk_user t = Some (uc_user ctx)"
      "t' \<in> set (tickets db1)" "tk_hash t' = vt_hash vt" "ticket_closed t'"
    by (rule consumed_ticket_closed [OF reachable_keys(1) [OF assms(1,2)] assms(3)])
  have later: "\<exists>r. one_or_none (\<lambda>x. tk_hash x = vt_hash vt) (tickets db2) = Some r \<and> ticket_closed r" if "(app_step env bnd')\<^sup>*\<^sup>* db1 db2" for bnd' db2
    using table_changes_lookup [where Q = ticket_closed, OF run_tables(2) [OF that] d1 t(6,8)] t(7) by (simp add: ticket_keep_def)
  have closed: "consume_ticket_and_enroll env hex2 now2 ctx2 vt2 rq2 db2 = (Inl ActivationTicketInvalid, db2)"
    if "(app_step env bnd')\<^sup>*\<^sup>* db1 db2" "vt_hash vt2 = vt_hash vt" for bnd' db2 hex2 now2 ctx2 vt2 rq2
    using later [OF that(1)] closed_ticket_refused [of vt2 db2] that(2) by auto
  have preview: "previewed_ticket env now2 token payload encoded signature db2 = Inl ActivationTicketInvalid"
    if "(app_step env bnd')\<^sup>*\<^sup>* db1 db2" "app_token_hash env token = vt_hash vt" for bnd' db2 now2 token payload encoded signature
    using later [OF that(1)] that(2) by (auto simp: previewed_ticket_def ticket_closed_def split: option.split)
  have "\<exists>t \<in> set (tickets db). tk_hash t = vt_hash vt \<and> tk_consumed t = None \<and> tk_revoked t = None \<and> now < tk_expires t \<and> tk_user t = Some (uc_user ctx)"
    using t(1-5) unfolding ticket_closed_def by auto
  then show ?thesis by (intro conjI allI impI) (assumption, erule (1) closed, erule (1) preview)
qed

theorem activation_ticket_enrolls_once_witness:
  "\<exists>d. consume_ticket_and_enroll sample_env ''k'' 30 sample_context sample_verified sample_device sample3 = (Inr d, sample4) \<and>
     consume_ticket_and_enroll sample_env ''q'' 31 sample_context sample_verified sample_device sample4 = (Inl ActivationTicketInvalid, sample4)"
proof -
  obtain d where d: "consume_ticket_and_enroll sample_env ''k'' 30 sample_context sample_verified sample_device sample3 = (Inr d, sample4)"
    using sample_enrolled by blast
  have "app_token_hash sample_env sample_token = vt_hash sample_verified" by (simp add: sample_verified_def)
  then show ?thesis using activation_ticket_enrolls_once [OF sample_initial sample_run(3) d] d by blast
qed

section \<open>Config grants\<close>

lemma consume_config_InrD:
  assumes "consume_config_grant env now ctx pid db = (Inr m, db1)"
  obtains x cn l where "assert_resource_authority db now ctx = Inr x" "usable_config db ctx pid = Inr (dm_config m)" "now < cg_expires (dm_config m)"
    "delivery_lease db now ctx (dm_config m) = Inr (cn, l)"
    "configs db1 = update_where (\<lambda>r. cg_public_id r = cg_public_id (dm_config m)) (\<lambda>r. r\<lparr>cg_consumed := Some now\<rparr>) (configs db)"
  using assms unfolding consume_config_grant_def rbind_def
  by (auto simp: put_config_def split: option.splits sum.splits if_splits)

lemma usable_configD: "usable_config db ctx pid = Inr c \<Longrightarrow> c \<in> set (configs db) \<and> cg_public_id c = pid \<and> open_config c"
  using one_or_none_Some [of _ "configs db" c] by (auto simp: usable_config_def bound_config_def open_config_def split: option.splits if_splits)

lemma consumed_config_refused:
  assumes "distinct (map cg_public_id (configs db))" "r \<in> set (configs db)" "cg_public_id r = pid" "cg_consumed r \<noteq> None"
  shows "\<exists>e \<in> {ApplicationForbidden, ConfigGrantInvalid, ConfigGrantConsumed}. consume_config_grant env now ctx pid db = (Inl e, db)"
proof -
  have "usable_config db ctx pid = Inl ConfigGrantInvalid \<or> usable_config db ctx pid = Inl ConfigGrantConsumed"
  proof (cases "bound_config db ctx pid")
    case (Some c)
    then have "c \<in> set (configs db)" "cg_public_id c = pid" using one_or_none_Some [OF Some [unfolded bound_config_def]] by simp_all
    then have "c = r" using assms(1-3) by (metis distinct_map inj_onD)
    then show ?thesis using Some assms(4) by (simp add: usable_config_def)
  qed (simp add: usable_config_def)
  moreover have "e = ApplicationForbidden" if "assert_resource_authority db now ctx = Inl e" for e
    using that by (auto simp: assert_resource_authority_def Let_def split: option.splits if_splits)
  ultimately show ?thesis by (cases "assert_resource_authority db now ctx") (auto simp: consume_config_grant_def rbind_def)
qed

text \<open>
  C20: A config grant is delivered at most once, and only to a caller whose authority still holds, before the grant
  expires, and while the connection it is bound to is active with an unexpired lease. After a delivery every later
  attempt on the same grant is refused and changes nothing, whatever transactions ran in between.
\<close>
theorem config_grant_delivered_once:
  assumes "initial_db db0" "(app_step env bnd)\<^sup>*\<^sup>* db0 db" "consume_config_grant env now ctx pid db = (Inr m, db1)"
  shows "cg_public_id (dm_config m) = pid \<and> now < cg_expires (dm_config m) \<and> (\<exists>x. assert_resource_authority db now ctx = Inr x) \<and>
    (\<exists>cn l. own_conn db ctx (or_text (cg_connection (dm_config m)) []) = Some cn \<and> lease_of db (cn_id cn) = Some l \<and>
       cn_status cn = ''active'' \<and> ls_status l = ''active'' \<and> now < ls_not_after l) \<and>
    (\<forall>bnd' db2 now2 ctx2. (app_step env bnd')\<^sup>*\<^sup>* db1 db2 \<longrightarrow>
       (\<exists>e \<in> {ApplicationForbidden, ConfigGrantInvalid, ConfigGrantConsumed}. consume_config_grant env now2 ctx2 pid db2 = (Inl e, db2)))"
proof -
  obtain x cn l where c: "assert_resource_authority db now ctx = Inr x" "usable_config db ctx pid = Inr (dm_config m)" "now < cg_expires (dm_config m)"
      "delivery_lease db now ctx (dm_config m) = Inr (cn, l)"
      "configs db1 = update_where (\<lambda>r. cg_public_id r = cg_public_id (dm_config m)) (\<lambda>r. r\<lparr>cg_consumed := Some now\<rparr>) (configs db)"
    using assms(3) by (rule consume_config_InrD)
  note g = usable_configD [OF c(2)]
  have "app_step env bnd db db1" using app_step.consume_config [of env bnd db now ctx pid] assms(3) by simp
  then have d1: "distinct (map cg_public_id (configs db1))" using reachable_keys(2) [OF assms(1) rtranclp.rtrancl_into_rtrancl [OF assms(2)]] by blast
  define r where "r = (dm_config m)\<lparr>cg_consumed := Some now\<rparr>"
  have r: "r \<in> set (configs db1)" "cg_public_id r = pid" "cg_consumed r \<noteq> None"
    using update_where_row [of "dm_config m" "configs db" "\<lambda>r. cg_public_id r = cg_public_id (dm_config m)" "\<lambda>r. r\<lparr>cg_consumed := Some now\<rparr>"] g c(5)
    by (simp_all add: r_def)
  have later: "\<exists>e \<in> {ApplicationForbidden, ConfigGrantInvalid, ConfigGrantConsumed}. consume_config_grant env now2 ctx2 pid db2 = (Inl e, db2)"
    if "(app_step env bnd')\<^sup>*\<^sup>* db1 db2" for bnd' db2 now2 ctx2
  proof -
    have "distinct (map cg_public_id (configs db2)) \<and> (\<exists>r' \<in> set (configs db2). cg_public_id r' = cg_public_id r \<and> cg_consumed r' \<noteq> None)"
      using table_changes_row [where Q = "\<lambda>r. cg_consumed r \<noteq> None", OF run_tables(3) [OF that] d1 r(1,3)] by (simp add: config_keep_def)
    then show ?thesis using consumed_config_refused r(2) by metis
  qed
  have "own_conn db ctx (or_text (cg_connection (dm_config m)) []) = Some cn \<and> lease_of db (cn_id cn) = Some l \<and>
       cn_status cn = ''active'' \<and> ls_status l = ''active'' \<and> now < ls_not_after l"
    using c(4) unfolding delivery_lease_def
    by (auto simp: nonempty_def or_text_def bind_eq_Some_conv split: option.splits if_splits)
  then show ?thesis using g c(1,3) later by blast
qed

theorem config_grant_delivered_once_witness:
  "\<exists>m db1. consume_config_grant sample_env 80 sample_access ''c'' sample8 = (Inr m, db1) \<and> cg_public_id (dm_config m) = ''c''"
proof -
  obtain m db1 where m: "consume_config_grant sample_env 80 sample_access ''c'' sample8 = (Inr m, db1)" using sample_delivered by blast
  show ?thesis using config_grant_delivered_once [OF sample_initial sample_run(8) m] m by blast
qed

end
