(* ===== verification/AppAccessProps.thy ===== *)
theory AppAccessProps
  imports AppEnrollProps
begin

text \<open>
  Who gets in: a revoked application is closed for good, a replayed request is refused as long as its row is in the
  replay ledger (and no longer), and a session of a user without a grant cannot be refreshed.
\<close>

section \<open>Revoked applications\<close>

definition app_id_keep :: "app_row \<Rightarrow> app_row \<Rightarrow> bool" where
  "app_id_keep a a' \<longleftrightarrow> ap_public_id a' = ap_public_id a \<and> (ap_status a = ''revoked'' \<longrightarrow> ap_status a' = ''revoked'')"

abbreviation app_id_change :: "app_row list \<Rightarrow> app_row list \<Rightarrow> bool" where
  "app_id_change \<equiv> table_change ap_id app_id_keep"

lemma step_app_ids: "app_step env bnd db db' \<Longrightarrow> app_id_change (apps db) (apps db')"
proof (induction rule: app_step.induct)
  case (create db dw now owner name api lang branding mode)
  show ?case
    using fresh_id_notin [of "map ap_id (apps db)"]
    by (auto simp: create_application_def Let_def table_change_refl intro!: table_change_append)
next
  case (set_mode db pid mode)
  show ?case by (auto simp: set_user_access_mode_def table_change_refl app_id_keep_def split: option.split intro!: table_change_update)
next
  case (icon db pid meta)
  show ?case by (auto simp: set_application_icon_def Let_def table_change_refl app_id_keep_def split: option.split intro!: table_change_update)
next
  case (revoke_app db now pid)
  show ?case by (auto simp: revoke_application_row_def table_change_refl app_id_keep_def split: option.split intro!: table_change_update)
qed (simp_all add: app_frame table_change_refl)

lemma run_app_ids: "(app_step env bnd)\<^sup>*\<^sup>* db db' \<Longrightarrow> app_id_change\<^sup>*\<^sup>* (apps db) (apps db')"
  by (induction rule: rtranclp_induct) (auto intro: rtranclp.rtrancl_into_rtrancl dest: step_app_ids)

lemma reachable_app_ids: "initial_db db0 \<Longrightarrow> (app_step env bnd)\<^sup>*\<^sup>* db0 db \<Longrightarrow> distinct (map ap_id (apps db))"
  by (drule run_app_ids) (auto simp: initial_db_def intro: table_changes_keys)

lemma revoked_row:
  assumes "revoke_application_row now pid db = (Inr a, db1)"
  obtains r where "r \<in> set (apps db1)" "ap_id r = a" "ap_public_id r = pid" "ap_status r = ''revoked''"
proof -
  obtain x where x: "app_named db pid = Some x" "a = ap_id x"
    using assms by (auto simp: revoke_application_row_def split: option.splits)
  note m = one_or_none_Some [OF x(1) [unfolded app_named_def]]
  show thesis
  proof (cases "ap_status x = ''revoked''")
    case True
    then show thesis using assms x m that [of x] by (simp add: revoke_application_row_def)
  next
    case False
    let ?f = "\<lambda>r. r\<lparr>ap_status := ''revoked'', ap_revoked := Some now, ap_reason := Some ''administrator''\<rparr>"
    have "apps db1 = update_where (\<lambda>r. ap_id r = ap_id x) ?f (apps db)"
      using assms x(1) False by (auto simp: revoke_application_row_def)
    then have "?f x \<in> set (apps db1)" using update_where_row [of x "apps db" "\<lambda>r. ap_id r = ap_id x" ?f] m by simp
    then show thesis using m x(2) by (intro that [of "?f x"]) simp_all
  qed
qed

definition app_closed :: "int \<Rightarrow> string \<Rightarrow> app_db \<Rightarrow> bool" where
  "app_closed a pid db \<longleftrightarrow>
     (\<exists>r. app_of db a = Some r \<and> ap_status r = ''revoked'') \<and> (\<exists>r. app_named db pid = Some r \<and> ap_status r = ''revoked'')"

lemma revoked_app_stays:
  assumes "initial_db db0" "(app_step env bnd)\<^sup>*\<^sup>* db0 db" "revoke_application_row now pid db = (Inr a, db1)" "(app_step env bnd')\<^sup>*\<^sup>* db1 db2"
  shows "app_closed a pid db2"
proof -
  obtain r where r: "r \<in> set (apps db1)" "ap_id r = a" "ap_public_id r = pid" "ap_status r = ''revoked''"
    by (rule revoked_row [OF assms(3)])
  have "app_step env bnd db db1" using app_step.revoke_app [of env bnd db now pid] assms(3) by simp
  then have run: "(app_step env bnd)\<^sup>*\<^sup>* db0 db1" using assms(2) by (rule rtranclp.rtrancl_into_rtrancl [rotated])
  have "\<exists>x. one_or_none (\<lambda>x. ap_id x = ap_id r) (apps db2) = Some x \<and> ap_status x = ''revoked''"
    using table_changes_lookup [where Q = "\<lambda>x. ap_status x = ''revoked''", OF run_app_ids [OF assms(4)] reachable_app_ids [OF assms(1) run] r(1,4)]
    by (simp add: app_id_keep_def)
  moreover have "\<exists>x. one_or_none (\<lambda>x. ap_public_id x = ap_public_id r) (apps db2) = Some x \<and> ap_status x = ''revoked''"
    using table_changes_lookup [where Q = "\<lambda>x. ap_status x = ''revoked''", OF run_tables(4) [OF assms(4)] reachable_keys(3) [OF assms(1) run] r(1,4)]
    by (simp add: app_keep_def)
  ultimately show ?thesis using r(2,3) by (simp add: app_closed_def app_of_def app_named_def)
qed

lemma closed_authority: "app_closed a pid db \<Longrightarrow> uc_app ctx = a \<Longrightarrow> assert_resource_authority db now ctx = Inl ApplicationForbidden"
  by (auto simp: app_closed_def assert_resource_authority_def authority_holds_def Let_def split: option.split)

lemma admit_refused: "rc_app_status ctx \<noteq> ''active'' \<Longrightarrow> isl (fst (admit_request env t clock r ctx peer db))"
  by (simp add: admit_request_def validate_request_context_def split: sum.split)

lemma closed_requests:
  assumes "app_closed a (sr_app r) db"
  shows "isl (fst (authenticate_device_request env t clock r db))" "isl (fst (authenticate_enrollment_request env t clock r public db))"
proof -
  obtain x where x: "app_named db (sr_app r) = Some x" "ap_status x = ''revoked''" using assms by (auto simp: app_closed_def)
  have "rc_app_status ctx = ''revoked''" if "device_request_key e (sr_app r) kid dev db = Inr ctx" for e kid dev ctx
    using that x by (auto simp: device_request_key_def rbind_def bind_eq_Some_conv split: option.splits sum.splits)
  then show "isl (fst (authenticate_device_request env t clock r db))"
    by (auto simp: authenticate_device_request_def admit_refused split: sum.split option.split)
  have "rc_app_status ctx = ''revoked''" if "enrollment_request_key e (sr_app r) kid db = Inr ctx" for e kid ctx
    using that x by (auto simp: enrollment_request_key_def rbind_def bind_eq_Some_conv split: option.splits sum.splits)
  then show "isl (fst (authenticate_enrollment_request env t clock r public db))"
    by (auto simp: authenticate_enrollment_request_def admit_refused split: sum.split)
qed

text \<open>
  C22: Once the first transaction of a revocation has committed, the application is closed for good, even when the
  second transaction that cascades to its keys, tokens and devices never runs. In every later state no resource of
  the application is authorised, no signed request of a device or of an enrollment is admitted, and no ticket or
  grant is issued.
\<close>
theorem revoked_application_stays_closed:
  assumes "initial_db db0" "(app_step (ae_app env) bnd)\<^sup>*\<^sup>* db0 db" "revoke_application_row now pid db = (Inr a, db1)"
    and "(app_step (ae_app env) bnd')\<^sup>*\<^sup>* db1 db2"
  shows "(\<forall>ctx now2. uc_app ctx = a \<longrightarrow> assert_resource_authority db2 now2 ctx = Inl ApplicationForbidden) \<and>
    (\<forall>r t clock public. sr_app r = pid \<longrightarrow>
       isl (fst (authenticate_device_request env t clock r db2)) \<and> isl (fst (authenticate_enrollment_request env t clock r public db2))) \<and>
    (\<forall>jti now2 user ttl intended. issue_activation_ticket (ae_app env) jti now2 pid user ttl intended db2 = (Inl ApplicationForbidden, db2)) \<and>
    (\<forall>user. grant_user pid user db2 = (Inl ApplicationForbidden, db2))"
proof -
  have c: "app_closed a pid db2" by (rule revoked_app_stays [OF assms])
  then obtain x where x: "app_named db2 pid = Some x" "ap_status x = ''revoked''" by (auto simp: app_closed_def)
  have "issue_activation_ticket (ae_app env) jti now2 pid user ttl intended db2 = (Inl ApplicationForbidden, db2)" for jti now2 user ttl intended
    using x by (simp add: issue_activation_ticket_def)
  moreover have "grant_user pid user db2 = (Inl ApplicationForbidden, db2)" for user
    using x by (simp add: grant_user_def split: option.split)
  ultimately show ?thesis using closed_authority [OF c] closed_requests [of a _ db2] c by blast
qed

definition sample_auth :: auth_env where
  "sample_auth = \<lparr>ae_app = sample_env, ae_req = ex_request_env\<lparr>rq_hmac := (\<lambda>_ _. replicate 32 3)\<rparr>, ae_scrypt = (\<lambda>_ _ _ _ _ _. Inl ValueError), ae_access_key = [],
     ae_access_ttl = 60, ae_window = 60, ae_refresh_ttl = 60, ae_policy = \<lparr>max_failures = 5, window_seconds = 60, block_seconds = 60\<rparr>, ae_dummy_hash = []\<rparr>"

definition sample_signed :: signed_request where
  "sample_signed = \<lparr>sr_method = ''get'', sr_path = ''/a'', sr_query = [], sr_body = [], sr_app = ''a'', sr_key = ''cfg-'', sr_device = Some ''dev-k'',
     sr_timestamp = 130, sr_nonce = ''abcdefghijklmnop'', sr_signature = b64e (replicate 32 3)\<rparr>"

definition sample_peer :: bytes where
  "sample_peer = replicate 32 9"

definition sample_clock :: int where
  "sample_clock = secs 100"

lemma sample_admitted:
  "\<exists>ctx db1. authenticate_device_request sample_auth sample_clock sample_clock sample_signed sample5 = (Inr ctx, db1) \<and> rc_app ctx = 1"
proof -
  let ?r = "authenticate_device_request sample_auth sample_clock sample_clock sample_signed sample5"
  have "case fst ?r of Inl _ \<Rightarrow> False | Inr ctx \<Rightarrow> rc_app ctx = 1" by code_simp
  then show ?thesis by (cases ?r) (auto split: sum.splits)
qed

theorem revoked_application_stays_closed_witness:
  "\<exists>db1. revoke_application_row 50 ''a'' sample5 = (Inr 1, db1) \<and> assert_resource_authority db1 60 sample_access = Inl ApplicationForbidden"
proof -
  have "fst (revoke_application_row 50 ''a'' sample5) = Inr 1" by code_simp
  then obtain db1 where r: "revoke_application_row 50 ''a'' sample5 = (Inr 1, db1)" by (metis prod.collapse)
  have e: "ae_app sample_auth = sample_env" by (simp add: sample_auth_def)
  have a: "uc_app sample_access = 1" by code_simp
  have "assert_resource_authority db1 60 sample_access = Inl ApplicationForbidden"
    using revoked_application_stays_closed [of empty_db sample_auth 0 sample5 50 "''a''" 1 db1 0 db1, unfolded e, OF sample_initial sample_run(5) r] a by blast
  then show ?thesis using r by blast
qed

section \<open>The replay ledger\<close>

lemma nonces_kept:
  assumes "app_step env bnd db db'" "n \<in> set (nonces db)" "bnd \<le> nn_expires n"
  shows "n \<in> set (nonces db')"
  using assms
proof (induction rule: app_step.induct)
  case (consume_nonce clock db ctx nonce ts expires)
  then show ?case by (auto simp: consume_nonce_def purge_expired_nonces_def Let_def)
next
  case (purge before db)
  then show ?case by (auto simp: purge_expired_nonces_def)
qed (simp_all add: app_frame)

lemma run_nonces:
  assumes "(app_step env bnd)\<^sup>*\<^sup>* db db'" "n \<in> set (nonces db)" "bnd \<le> nn_expires n"
  shows "n \<in> set (nonces db')"
  using assms by (induction rule: rtranclp_induct) (auto intro: nonces_kept)

lemma admit_requestE:
  assumes "admit_request env t clock r ctx peer db = (Inr c, db1)"
  obtains "c = ctx"
    "consume_nonce (ae_app env) clock ctx (sr_nonce r) (secs (sr_timestamp r)) (t + secs (ae_window env)) db = (Inr (), db1)"
  using assms unfolding admit_request_def by (auto split: sum.splits prod.splits if_splits)

lemma consumed_nonce:
  assumes "consume_nonce env clock ctx nonce ts expires db = (Inr (), db1)"
  shows "\<exists>n \<in> set (nonces db1). nn_app n = rc_app ctx \<and> nn_hash n = identifier_hash env ''nonce'' nonce \<and> nn_expires n = expires"
  using assms by (auto simp: consume_nonce_def Let_def split: if_splits)

lemma nonce_refused:
  assumes "n \<in> set (nonces db)" "nn_app n = rc_app ctx" "nn_hash n = identifier_hash env ''nonce'' nonce" "clock \<le> nn_expires n"
  shows "consume_nonce env clock ctx nonce ts expires db = (Inl ReplayRejected, db)"
  using assms by (auto simp: consume_nonce_def purge_expired_nonces_def Let_def)

text \<open>
  C21: A nonce that was admitted for an application at time \<open>t\<close> cannot be used again with that application, by any
  device and in any request, as long as no clock involved has passed \<open>t\<close> plus the window: whatever transactions ran
  in between, a request that carries it is refused, and refused without a change to the tables when it is otherwise
  valid.
\<close>
theorem admitted_nonce_not_reusable:
  assumes "admit_request env t clock r ctx peer db = (Inr c, db1)" "(app_step (ae_app env) bnd)\<^sup>*\<^sup>* db1 db2"
    and "bnd \<le> t + secs (ae_window env)" "clock2 \<le> t + secs (ae_window env)" "rc_app ctx2 = rc_app ctx" "sr_nonce r2 = sr_nonce r"
  shows "isl (fst (admit_request env t2 clock2 r2 ctx2 peer2 db2)) \<and>
    consume_nonce (ae_app env) clock2 ctx2 (sr_nonce r2) (secs (sr_timestamp r2)) (t2 + secs (ae_window env)) db2 = (Inl ReplayRejected, db2)"
proof -
  obtain n where n: "n \<in> set (nonces db1)" "nn_app n = rc_app ctx" "nn_hash n = identifier_hash (ae_app env) ''nonce'' (sr_nonce r)"
      "nn_expires n = t + secs (ae_window env)"
    using assms(1) by (elim admit_requestE) (drule consumed_nonce, blast)
  have "n \<in> set (nonces db2)" using run_nonces [OF assms(2) n(1)] n(4) assms(3) by simp
  then have "consume_nonce (ae_app env) clock2 ctx2 (sr_nonce r2) (secs (sr_timestamp r2)) (t2 + secs (ae_window env)) db2 = (Inl ReplayRejected, db2)"
    using n assms(4-6) by (intro nonce_refused [of n]) simp_all
  then show ?thesis by (auto simp: admit_request_def split: sum.split)
qed

theorem admitted_nonce_not_reusable_witness:
  "\<exists>c db1. admit_request sample_auth sample_clock sample_clock sample_signed sample_request sample_peer sample5 = (Inr c, db1) \<and>
     isl (fst (admit_request sample_auth (sample_clock + 1) (sample_clock + 1) sample_signed sample_request sample_peer db1))"
proof -
  let ?r = "admit_request sample_auth sample_clock sample_clock sample_signed sample_request sample_peer sample5"
  have "\<not> isl (fst ?r)" by code_simp
  then obtain c db1 where r: "?r = (Inr c, db1)" using InrI by blast
  have "sample_clock + 1 \<le> sample_clock + secs (ae_window sample_auth)" by code_simp
  then have "isl (fst (admit_request sample_auth (sample_clock + 1) (sample_clock + 1) sample_signed sample_request sample_peer db1))"
    using admitted_nonce_not_reusable [OF r, of "sample_clock + 1" db1 "sample_clock + 1" sample_request sample_signed "sample_clock + 1" sample_peer] by simp
  then show ?thesis using r by blast
qed

text \<open>The key of a request does not depend on the replay ledger.\<close>

lemma device_request_key_nonces: "device_request_key env pid kid dev (db\<lparr>nonces := ns\<rparr>) = device_request_key env pid kid dev db"
  by (simp add: device_request_key_def app_named_def key_named_def)

lemma authenticate_deviceE:
  assumes "authenticate_device_request env t clock r db = (Inr ctx, db1)"
  obtains dev where "nonempty (sr_device r) = Some dev" "device_request_key (ae_app env) (sr_app r) (sr_key r) dev db = Inr ctx"
    "admit_request env t clock r ctx (case rc_device_public ctx of None \<Rightarrow> [] | Some p \<Rightarrow> p) db = (Inr ctx, db1)"
proof -
  obtain dev c where d: "nonempty (sr_device r) = Some dev" "device_request_key (ae_app env) (sr_app r) (sr_key r) dev db = Inr c"
      "admit_request env t clock r c (case rc_device_public c of None \<Rightarrow> [] | Some p \<Rightarrow> p) db = (Inr ctx, db1)"
    using assms by (auto simp: authenticate_device_request_def split: sum.splits option.splits)
  moreover have "ctx = c" using d(3) by (rule admit_requestE)
  ultimately show thesis using that by blast
qed

lemma consumed_nonce_db:
  assumes "consume_nonce env clock ctx nonce ts expires db = (Inr (), db1)"
  shows "\<exists>ns. db1 = db\<lparr>nonces := ns\<rparr>"
  using assms by (auto simp: consume_nonce_def Let_def split: if_splits)

lemma nonce_free_again:
  assumes "consume_nonce env clock ctx nonce ts expires db = (Inr (), db1)" "clock \<le> clock2" "expires < clock2"
  shows "\<exists>db2. consume_nonce env clock2 ctx nonce ts2 expires2 db1 = (Inr (), db2)"
  using assms by (auto simp: consume_nonce_def purge_expired_nonces_def Let_def split: if_splits)

text \<open>The admission of a request depends on the tables through the ledger alone.\<close>

lemma admit_again:
  assumes "admit_request env t clock r ctx peer db = (Inr ctx, db1)"
    and "consume_nonce (ae_app env) clock2 ctx (sr_nonce r) (secs (sr_timestamp r)) (t2 + secs (ae_window env)) db' = (Inr (), db2)"
  shows "admit_request env t2 clock2 r ctx peer db' = (Inr ctx, db2)"
  using assms by (auto simp: admit_request_def split: sum.splits prod.splits if_splits)

text \<open>
  C29: The ledger forgets a request at the time it was processed plus the window, but a request is fresh until its
  own timestamp plus the window. So a signed request is admitted a second time, unchanged, as soon as its row has
  expired while its timestamp is still fresh; this needs a timestamp that was not behind the second of the first
  admission, and a client clock that runs ahead of the server is enough.
\<close>
theorem early_request_replayed_after_purge:
  assumes "authenticate_device_request env t clock r db = (Inr ctx, db1)" "clock \<le> t2" "t + secs (ae_window env) < t2"
    and "check_timestamp env r t2 = Inr ()"
  shows "timestamp t \<le> sr_timestamp r \<and> (\<exists>db2. authenticate_device_request env t2 t2 r db1 = (Inr ctx, db2))"
proof -
  obtain dev where d: "nonempty (sr_device r) = Some dev" "device_request_key (ae_app env) (sr_app r) (sr_key r) dev db = Inr ctx"
      "admit_request env t clock r ctx (case rc_device_public ctx of None \<Rightarrow> [] | Some p \<Rightarrow> p) db = (Inr ctx, db1)"
    using assms(1) by (rule authenticate_deviceE)
  have c: "consume_nonce (ae_app env) clock ctx (sr_nonce r) (secs (sr_timestamp r)) (t + secs (ae_window env)) db = (Inr (), db1)"
    using d(3) by (rule admit_requestE)
  obtain ns where ns: "db1 = db\<lparr>nonces := ns\<rparr>" using consumed_nonce_db [OF c] by blast
  obtain db2 where "consume_nonce (ae_app env) t2 ctx (sr_nonce r) (secs (sr_timestamp r)) (t2 + secs (ae_window env)) db1 = (Inr (), db2)"
    using nonce_free_again [OF c assms(2,3)] by blast
  then have "admit_request env t2 t2 r ctx (case rc_device_public ctx of None \<Rightarrow> [] | Some p \<Rightarrow> p) db1 = (Inr ctx, db2)" by (rule admit_again [OF d(3)])
  moreover have "device_request_key (ae_app env) (sr_app r) (sr_key r) dev db1 = Inr ctx" using d(2) ns device_request_key_nonces by simp
  ultimately have "authenticate_device_request env t2 t2 r db1 = (Inr ctx, db2)"
    using assms(4) d(1) by (simp add: authenticate_device_request_def)
  moreover have "timestamp t \<le> sr_timestamp r"
    using assms(3,4) unfolding check_timestamp_def timestamp_def secs_def by (auto split: if_splits)
  ultimately show ?thesis by blast
qed

theorem early_request_replayed_after_purge_witness:
  "\<exists>ctx db1 db2. authenticate_device_request sample_auth sample_clock sample_clock sample_signed sample5 = (Inr ctx, db1) \<and>
     authenticate_device_request sample_auth (secs 170) (secs 170) sample_signed db1 = (Inr ctx, db2)"
proof -
  obtain ctx db1 where r: "authenticate_device_request sample_auth sample_clock sample_clock sample_signed sample5 = (Inr ctx, db1)"
    using sample_admitted by blast
  have c: "sample_clock \<le> secs 170" "sample_clock + secs (ae_window sample_auth) < secs 170" "check_timestamp sample_auth sample_signed (secs 170) = Inr ()"
    by code_simp+
  show ?thesis using early_request_replayed_after_purge [OF r c] r by blast
qed

section \<open>Refresh without a grant\<close>

lemma refresh_without_grant:
  assumes "one_or_none (\<lambda>t. rt_hash t = app_token_hash env secret) (tokens db) = Some old" "grant_for db (rc_app ctx) (rt_user old) = None"
  shows "isl (fst (rotate_refresh env ttl now new_secret secret ctx agent db))"
proof -
  have "rotation_context db old = None" if "rt_app old = Some (rc_app ctx)"
    using that assms(2) by (simp add: rotation_context_def split: option.split)
  then show ?thesis using assms(1)
    by (auto simp: rotate_refresh_def rotate_write_def rotate_read_def split: rotation.split option.splits)
qed

text \<open>
  In an application that is open to all users the login does not look at grants, but the rotation of a refresh
  token does: for a user without a grant row every refresh of a session is refused, although the same user may log
  in, so that such a session ends with its first access token.
\<close>
lemma refresh_refused_without_grant:
  assumes "authenticate_device_request env t clock r db = (Inr ctx, db1)"
    and "one_or_none (\<lambda>t. rt_hash t = app_token_hash (ae_app env) secret) (tokens db) = Some old" "grant_for db (rc_app ctx) (rt_user old) = None"
  shows "isl (fst (refresh_session env dw now t clock r secret agent db)) \<and>
    (\<forall>u g s. app_mode (app_of db1 (rc_app ctx)) = ''all_users'' \<longrightarrow>
       validate_user_context (login_context db1 ctx u) now = validate_user_context ((login_context db1 ctx u)\<lparr>uc_grant := g, uc_grant_status := s\<rparr>) now)"
proof -
  obtain dev where "admit_request env t clock r ctx (case rc_device_public ctx of None \<Rightarrow> [] | Some p \<Rightarrow> p) db = (Inr ctx, db1)"
    using assms(1) by (rule authenticate_deviceE)
  then have "consume_nonce (ae_app env) clock ctx (sr_nonce r) (secs (sr_timestamp r)) (t + secs (ae_window env)) db = (Inr (), db1)"
    by (rule admit_requestE)
  then obtain ns where ns: "db1 = db\<lparr>nonces := ns\<rparr>" using consumed_nonce_db by blast
  have "isl (fst (rotate_refresh (ae_app env) (ae_refresh_ttl env) now (dw_secret dw) secret ctx agent db1))"
    using ns assms(2,3) by (intro refresh_without_grant) (simp_all add: grant_for_def)
  then obtain e db2 where "rotate_refresh (ae_app env) (ae_refresh_ttl env) now (dw_secret dw) secret ctx agent db1 = (Inl e, db2)"
    by (metis isl_def prod.collapse)
  then have "isl (fst (try_refresh env dw now ctx secret agent db1))"
    by (simp add: try_refresh_def split: option.split sum.split)
  then have "isl (fst (refresh_session env dw now t clock r secret agent db))"
    using assms(1) by (auto simp: refresh_session_def Let_def split: sum.split prod.split app_error.split)
  then show ?thesis by (simp add: validate_user_context_def login_context_def context_for_def or_text_def)
qed

lemma refresh_refused_without_grant_example:
  "isl (fst (refresh_session sample_auth \<lparr>dw_key_hex = [], dw_secret = ''n'', dw_family = [], dw_jti = []\<rparr> sample_clock sample_clock sample_clock sample_signed
     ''s'' None (sample5\<lparr>grants := []\<rparr>)))"
proof -
  let ?db = "sample5\<lparr>grants := []\<rparr>" and ?r = "authenticate_device_request sample_auth sample_clock sample_clock sample_signed (sample5\<lparr>grants := []\<rparr>)"
  have "\<not> isl (fst ?r)" by code_simp
  then obtain ctx db1 where r: "?r = (Inr ctx, db1)" using InrI by blast
  have "one_or_none (\<lambda>t. rt_hash t = app_token_hash (ae_app sample_auth) ''s'') (tokens ?db) \<noteq> None" by code_simp
  then obtain old where old: "one_or_none (\<lambda>t. rt_hash t = app_token_hash (ae_app sample_auth) ''s'') (tokens ?db) = Some old" by blast
  have "grant_for ?db a u = None" for a u by (simp add: grant_for_def one_or_none_def)
  then show ?thesis using refresh_refused_without_grant [OF r old] by blast
qed

end
