(* ===== verification/AppConnInv.thy ===== *)
theory AppConnInv
  imports AppSamples
begin

text \<open>
  The invariant of connections and leases: ids, public ids and accounts are unique, every lease has its connection,
  and an active key belongs to one connection. Every transaction keeps it, no transaction takes back the removal of
  a lease, and rows only change within what \<open>conn_keep\<close> and \<open>lease_keep\<close> allow.
\<close>

definition conn_wf :: "app_db \<Rightarrow> bool" where
  "conn_wf db \<longleftrightarrow>
     distinct (map cn_id (conns db)) \<and> distinct (map cn_public_id (conns db)) \<and>
     distinct (map ls_conn (leases db)) \<and> distinct (map ls_account (leases db)) \<and>
     (\<forall>l \<in> set (leases db). ls_conn l \<in> cn_id ` set (conns db)) \<and>
     (\<forall>c \<in> set (conns db). \<forall>c' \<in> set (conns db). cn_active_key c = cn_active_key c' \<longrightarrow> cn_active_key c \<noteq> None \<longrightarrow> c = c')"

definition conn_keep :: "conn_row \<Rightarrow> conn_row \<Rightarrow> bool" where
  "conn_keep c c' \<longleftrightarrow> cn_public_id c' = cn_public_id c \<and> (cn_active_key c' = cn_active_key c \<or> cn_active_key c' = None)"

definition lease_keep :: "lease_row \<Rightarrow> lease_row \<Rightarrow> bool" where
  "lease_keep l l' \<longleftrightarrow> (ls_removed l \<noteq> None \<longrightarrow> ls_removed l' \<noteq> None) \<and> ls_account l' = ls_account l"

definition conn_advance :: "app_db \<Rightarrow> app_db \<Rightarrow> bool" where
  "conn_advance db db' \<longleftrightarrow>
     (conn_wf db \<longrightarrow> conn_wf db' \<and> (table_change ls_conn lease_keep)\<^sup>*\<^sup>* (leases db) (leases db') \<and>
        (table_change cn_id conn_keep)\<^sup>*\<^sup>* (conns db) (conns db'))"

lemma advance_trans [trans]: "conn_advance db db' \<Longrightarrow> conn_advance db' db'' \<Longrightarrow> conn_advance db db''"
  unfolding conn_advance_def by (meson rtranclp_trans)

lemma advance_same: "conns db' = conns db \<Longrightarrow> leases db' = leases db \<Longrightarrow> conn_advance db db'"
  by (simp add: conn_advance_def conn_wf_def)

lemma advance_via: "conns db' = conns db'' \<Longrightarrow> leases db' = leases db'' \<Longrightarrow> conn_advance db db'' \<Longrightarrow> conn_advance db db'"
  by (simp add: conn_advance_def conn_wf_def)

lemma ids_update: "(\<And>c. cn_id (f c) = cn_id c) \<Longrightarrow> cn_id ` set (update_where P f cs) = cn_id ` set cs"
  using map_update_where [of cn_id f P cs] by (metis list.set_map)

lemma active_key_update:
  assumes "\<And>c. cn_active_key (f c) = cn_active_key c \<or> cn_active_key (f c) = None"
    and "\<forall>c \<in> set cs. \<forall>c' \<in> set cs. cn_active_key c = cn_active_key c' \<longrightarrow> cn_active_key c \<noteq> None \<longrightarrow> c = c'"
    and "c \<in> set (update_where P f cs)" "c' \<in> set (update_where P f cs)" "cn_active_key c = cn_active_key c'" "cn_active_key c \<noteq> None"
  shows "c = c'"
proof -
  obtain d d' where d: "d \<in> set cs" "c = (if P d then f d else d)" "d' \<in> set cs" "c' = (if P d' then f d' else d')"
    using assms(3,4) by (auto simp: set_update_where)
  have "cn_active_key d = cn_active_key c" "cn_active_key d' = cn_active_key c'"
    using d(2,4) assms(1) [of d] assms(1) [of d'] assms(5,6) by (auto split: if_splits)
  then have "d = d'" using assms(2,5,6) d(1,3) by metis
  then show ?thesis using d(2,4) by simp
qed

lemma advance_conns:
  assumes "\<And>c. cn_id (f c) = cn_id c \<and> conn_keep c (f c)"
  shows "conn_advance db (db\<lparr>conns := update_where P f (conns db)\<rparr>)"
proof -
  have k: "\<And>c. cn_id (f c) = cn_id c" "\<And>c. cn_public_id (f c) = cn_public_id c"
      "\<And>c. cn_active_key (f c) = cn_active_key c \<or> cn_active_key (f c) = None"
    using assms by (auto simp: conn_keep_def)
  have "table_change cn_id conn_keep (conns db) (update_where P f (conns db))" using assms by (intro table_change_update) simp
  moreover have "conn_wf (db\<lparr>conns := update_where P f (conns db)\<rparr>)" if "conn_wf db"
    using that active_key_update [where P = P and cs = "conns db", OF k(3)] unfolding conn_wf_def by (simp add: k(1,2) ids_update)
  ultimately show ?thesis unfolding conn_advance_def by auto
qed

lemma advance_leases:
  assumes "\<And>l. ls_conn (f l) = ls_conn l \<and> lease_keep l (f l)"
  shows "conn_advance db (db\<lparr>leases := update_where P f (leases db)\<rparr>)"
proof -
  have k: "\<And>l. ls_conn (f l) = ls_conn l" "\<And>l. ls_account (f l) = ls_account l" using assms by (auto simp: lease_keep_def)
  have "table_change ls_conn lease_keep (leases db) (update_where P f (leases db))" using assms by (intro table_change_update) simp
  then show ?thesis
    unfolding conn_advance_def conn_wf_def by (auto simp: k set_update_where)
qed

lemma advance_put:
  assumes "\<And>c. cn_id (f c) = cn_id c \<and> conn_keep c (f c)" "\<And>l. ls_conn (g l) = ls_conn l \<and> lease_keep l (g l)"
  shows "conn_advance db (put_lease g i (put_conn f k db))"
  unfolding put_lease_def put_conn_def by (rule advance_trans [OF advance_conns advance_leases]) (use assms in simp_all)

lemma advance_new:
  assumes "cn_id c \<notin> cn_id ` set (conns db)" "cn_public_id c \<notin> cn_public_id ` set (conns db)" "ls_conn l = cn_id c"
    and "ls_account l \<notin> ls_account ` set (leases db)" "\<forall>r \<in> set (conns db). cn_active_key r \<noteq> cn_active_key c"
  shows "conn_advance db (db\<lparr>conns := conns db @ [c], leases := leases db @ [l]\<rparr>)"
  unfolding conn_advance_def
proof (intro impI conjI)
  assume wf: "conn_wf db"
  then have l: "ls_conn l \<notin> ls_conn ` set (leases db)" using assms(1,3) by (auto simp: conn_wf_def)
  show "conn_wf (db\<lparr>conns := conns db @ [c], leases := leases db @ [l]\<rparr>)"
    using wf assms l unfolding conn_wf_def by (simp; metis)
  show "(table_change ls_conn lease_keep)\<^sup>*\<^sup>* (leases db) (leases (db\<lparr>conns := conns db @ [c], leases := leases db @ [l]\<rparr>))"
    using table_change_append [OF l] by simp blast
  show "(table_change cn_id conn_keep)\<^sup>*\<^sup>* (conns db) (conns (db\<lparr>conns := conns db @ [c], leases := leases db @ [l]\<rparr>))"
    using table_change_append [OF assms(1)] by simp blast
qed

lemmas lease_ops =
  renew_conn_row_def renew_lease_row_def complete_conn_row_def complete_lease_row_def mark_lease_def mark_conn_def removed_conn_row_def removed_lease_row_def

lemma advance_reserve: "conn_advance db (snd (reserve_connection env draws now not_after node ctx pid db))"
proof -
  have new: "conn_advance db (snd (reserve_new draws now not_after node ctx x c protocol db))"
    if "one_or_none (\<lambda>r. cn_active_key r = Some (connection_active_key (uc_app ctx) (dv_id (au_device x)) (cg_core c) protocol)) (conns db) = None" for x c protocol
  proof -
    define cn where "cn = new_conn (fresh_id (map cn_id (conns db))) (cd_public_id draws) ctx x (cg_core c) protocol node not_after now"
    define l where "l = new_lease (cd_lease_id draws) (cd_account_hex draws) cn now"
    have cn: "cn_id cn \<notin> cn_id ` set (conns db)" "ls_conn l = cn_id cn" "\<forall>r \<in> set (conns db). cn_active_key r \<noteq> cn_active_key cn"
      using fresh_id_notin [of "map cn_id (conns db)"] that by (simp_all add: cn_def l_def new_conn_def new_lease_def one_or_none_None)
    have "conn_advance db (reserved ctx x c (cn_public_id cn) (cn_core cn) (db\<lparr>conns := conns db @ [cn], leases := leases db @ [l]\<rparr>))"
      if "conn_named db (cn_public_id cn) = None" "\<not> (\<exists>r \<in> set (leases db). ls_public_id r = ls_public_id l \<or> ls_account r = ls_account l)"
      using that cn by (intro advance_via [OF _ _ advance_new]) (auto simp: reserved_def conn_named_def one_or_none_None)
    then show ?thesis
      by (simp add: reserve_new_def Let_def cn_def [symmetric] l_def [symmetric] advance_same)
  qed
  have again: "conn_advance db (snd (reserve_again env now not_after ctx x c cn db))" for x c cn
    by (auto simp: reserve_again_def reserved_def advance_same lease_ops conn_keep_def lease_keep_def
        split: option.split intro!: advance_via [OF _ _ advance_put])
  show ?thesis
    by (auto simp: reserve_connection_def new again advance_same split: option.split sum.split)
qed

lemma advance_mark_due: "conn_advance db (mark_due now j db)"
  unfolding mark_due_def by (rule advance_put) (simp_all add: lease_ops conn_keep_def lease_keep_def)

lemma advance_fold_due: "conn_advance db (fold (mark_due now) js db)"
proof (induction js arbitrary: db)
  case Nil
  show ?case by (simp add: advance_same)
next
  case (Cons j js)
  show ?case using advance_trans [OF advance_mark_due Cons.IH] by simp
qed

lemma advance_removed: "conn_advance db (mark_connection_removed now pid e err db)"
  by (auto simp: mark_connection_removed_def advance_same lease_ops conn_keep_def lease_keep_def split: option.split intro!: advance_put)

lemma step_advance: "app_step env bnd db db' \<Longrightarrow> conn_advance db db'"
proof (induction rule: app_step.induct)
  case (reserve db cdw now not_after node uctx pid)
  show ?case by (rule advance_reserve)
next
  case (complete db nonce' now not_after pid settings capability)
  show ?case
    by (auto simp: complete_connection_def advance_same lease_ops conn_keep_def lease_keep_def split: option.split intro!: advance_via [OF _ _ advance_put])
next
  case (fail_conn db now pid reason)
  show ?case
    by (auto simp: fail_connection_def revoke_bound_configs_def advance_same conn_keep_def lease_keep_def split: option.split
        intro!: advance_via [OF _ _ advance_put])
next
  case (stop db now uctx pid reason)
  show ?case
    by (auto simp: request_connection_stop_def revoke_bound_configs_def Let_def advance_same conn_keep_def lease_keep_def split: option.split sum.split
        intro!: advance_via [OF _ _ advance_put])
next
  case (renew db now not_after uctx pid)
  show ?case
    by (auto simp: renew_connection_def Let_def advance_same conn_keep_def lease_keep_def split: option.split sum.split intro!: advance_put)
next
  case (observe db now pid observed err)
  show ?case unfolding update_connection_observation_def by (rule advance_conns) (simp add: conn_keep_def)
next
  case (due db now)
  show ?case by (simp add: due_connection_leases_def advance_same advance_fold_due split: sum.split)
next
  case (removed db now pid was_expired err)
  show ?case by (rule advance_removed)
qed (rule advance_same; simp add: app_frame)+

lemma run_advance: "(app_step env bnd)\<^sup>*\<^sup>* db db' \<Longrightarrow> conn_advance db db'"
  by (induction rule: rtranclp_induct) (auto intro: advance_same advance_trans step_advance)

lemma reachable_conn_wf: "initial_db db0 \<Longrightarrow> (app_step env bnd)\<^sup>*\<^sup>* db0 db \<Longrightarrow> conn_wf db"
  using run_advance [of env bnd db0 db] by (simp add: conn_advance_def initial_db_def conn_wf_def)

section \<open>Connections and leases in step\<close>

text \<open>
  What holds between a connection and its lease. The two rows name the same parties and target and have the same status
  and end. An active connection has sealed credentials that were applied; one that ended as stopped or expired has had its
  lease removed. The active key, while there is one, is built from the row's own fields, and then the connection is
  pending or active and nothing was revoked.
\<close>

definition lease_matches :: "conn_row \<Rightarrow> lease_row \<Rightarrow> bool" where
  "lease_matches c l \<longleftrightarrow>
     ls_app l = cn_app c \<and> ls_user l = cn_user c \<and> ls_device l = cn_device c \<and> ls_core l = cn_core c \<and>
     ls_protocol l = cn_protocol c \<and> ls_node l = cn_node c \<and> ls_target l = cn_target c \<and>
     ls_status l = cn_status c \<and> ls_not_after l = cn_not_after c"

definition lease_in_step :: "conn_row \<Rightarrow> lease_row \<Rightarrow> bool" where
  "lease_in_step c l \<longleftrightarrow>
     ls_conn l = cn_id c \<and> lease_matches c l \<and>
     (cn_status c = ''active'' \<longrightarrow> ls_credentials l \<noteq> None \<and> ls_applied l \<noteq> None \<and> cn_activated c \<noteq> None) \<and>
     (cn_status c \<in> {''stopped'', ''expired''} \<longrightarrow> ls_removed l \<noteq> None) \<and>
     (\<forall>k. cn_active_key c = Some k \<longrightarrow>
        k = connection_active_key (cn_app c) (cn_device c) (cn_core c) (cn_protocol c) \<and>
        cn_status c \<in> {''pending'', ''active''} \<and> ls_revoke_requested l = None \<and> ls_removed l = None)"

definition in_step :: "app_db \<Rightarrow> bool" where
  "in_step db \<longleftrightarrow> list_all2 lease_in_step (conns db) (leases db)"

lemma in_step_via: "in_step db' \<Longrightarrow> conns db = conns db' \<Longrightarrow> leases db = leases db' \<Longrightarrow> in_step db"
  by (simp add: in_step_def)

lemma in_step_put:
  assumes "distinct (map cn_id (conns db))" "in_step db" "cn \<in> set (conns db)"
    and "\<And>l. l \<in> set (leases db) \<Longrightarrow> lease_in_step cn l \<Longrightarrow> lease_in_step (f cn) (g l)"
  shows "in_step (put_lease g (cn_id cn) (put_conn f (cn_id cn) db))"
proof -
  have only: "c = cn" if "c \<in> set (conns db)" "cn_id c = cn_id cn" for c
    using assms(1,3) that by (auto simp: distinct_map dest: inj_onD)
  have two: "list_all2 lease_in_step (conns db) (leases db)" using assms(2) by (simp add: in_step_def)
  show ?thesis
    unfolding in_step_def put_conn_def put_lease_def update_where_def
  proof (simp, rule list_all2_all_nthI)
    fix i assume "i < length (map (\<lambda>c. if cn_id c = cn_id cn then f c else c) (conns db))"
    then have i: "i < length (conns db)" "i < length (leases db)" using two by (simp_all add: list_all2_lengthD)
    have pair: "lease_in_step (conns db ! i) (leases db ! i)" by (rule list_all2_nthD [OF two i(1)])
    then have "ls_conn (leases db ! i) = cn_id (conns db ! i)" by (simp add: lease_in_step_def)
    then show "lease_in_step (map (\<lambda>c. if cn_id c = cn_id cn then f c else c) (conns db) ! i)
        (map (\<lambda>l. if ls_conn l = cn_id cn then g l else l) (leases db) ! i)"
      using i pair only [OF nth_mem [OF i(1)]] assms(4) [OF nth_mem [OF i(2)]] by auto
  qed (use two in \<open>simp add: list_all2_lengthD\<close>)
qed

lemma in_step_written:
  assumes "conns db' = conns (put_conn f (cn_id cn) db)" "leases db' = leases (put_lease g (cn_id cn) db)"
    and "distinct (map cn_id (conns db))" "in_step db" "cn \<in> set (conns db)"
    and "\<And>l. lease_in_step cn l \<Longrightarrow> lease_in_step (f cn) (g l)"
  shows "in_step db'"
  by (rule in_step_via [OF in_step_put [OF assms(3-5), of f g]]) (simp_all add: assms(1,2,6) put_conn_def put_lease_def)

lemma in_step_new:
  assumes "in_step db" "lease_in_step c l"
  shows "in_step (db\<lparr>conns := conns db @ [c], leases := leases db @ [l]\<rparr>)"
  using assms by (simp add: in_step_def list_all2_appendI)

lemma in_step_conns:
  assumes "in_step db" "\<And>c l. lease_in_step c l \<Longrightarrow> lease_in_step (f c) l"
  shows "in_step (db\<lparr>conns := update_where P f (conns db)\<rparr>)"
  using assms by (auto simp: in_step_def update_where_def list_all2_map1 elim!: list_all2_mono)

lemmas in_step_rows = lease_in_step_def lease_matches_def lease_ops

lemma in_step_renewed: "lease_in_step cn l \<Longrightarrow> lease_in_step (renew_conn_row ctx na now cn) (renew_lease_row cn na now l)"
  by (auto simp: in_step_rows)

lemma in_step_completed:
  "lease_in_step cn l \<Longrightarrow> lease_in_step (complete_conn_row na now cap cn) (complete_lease_row env nonce settings na now l)"
  by (auto simp: in_step_rows split: option.split)

lemma in_step_ended: "lease_in_step cn l \<Longrightarrow> lease_in_step (removed_conn_row now e err cn) (removed_lease_row now e err l)"
  by (auto simp: in_step_rows split: option.split)

lemma in_step_marked:
  assumes "lease_in_step cn l" "l = l0 \<or> ls_status l = ''revoke_pending''"
  shows "lease_in_step (mark_conn now l0 cn) (mark_lease now l)"
  using assms by (auto simp: in_step_rows)

lemma in_step_first:
  "lease_in_step (new_conn i pid ctx x core protocol node na now) (new_lease lid hex (new_conn i pid ctx x core protocol node na now) now)"
  if "ap_id (au_app x) = uc_app ctx"
  using that by (auto simp: in_step_rows new_conn_def new_lease_def)

lemma in_map_filter: "y \<in> set (List.map_filter f xs) \<longleftrightarrow> (\<exists>x \<in> set xs. f x = Some y)"
  by (induction xs) (auto simp: map_filter_simps split: option.split)

lemma in_due_joins:
  "j \<in> set (due_joins db now) \<longleftrightarrow> (\<exists>l \<in> set (leases db). ls_removed l = None \<and> join_lease db l = Some j \<and> lease_due db now j)"
  unfolding due_joins_def by (auto simp: in_map_filter)

lemma in_step_fold_due:
  assumes "distinct (map cn_id (conns db))" "in_step db"
    and "\<forall>j \<in> set js. cn_id (lj_conn j) \<in> cn_id ` set (conns db) \<and>
      (\<forall>l \<in> set (leases db). ls_conn l = cn_id (lj_conn j) \<longrightarrow> l = lj_lease j \<or> ls_status l = ''revoke_pending'')"
  shows "in_step (fold (mark_due now) js db)"
  using assms
proof (induction js arbitrary: db)
  case (Cons j js)
  obtain cn where cn: "cn \<in> set (conns db)" "cn_id cn = cn_id (lj_conn j)" using Cons.prems(3) by auto
  have step: "in_step (mark_due now j db)"
    unfolding mark_due_def cn(2) [symmetric]
  proof (rule in_step_put [OF Cons.prems(1,2) cn(1)])
    fix l assume l: "l \<in> set (leases db)" "lease_in_step cn l"
    then have "l = lj_lease j \<or> ls_status l = ''revoke_pending''" using Cons.prems(3) cn(2) by (simp add: lease_in_step_def)
    then show "lease_in_step (mark_conn now (lj_lease j) cn) (mark_lease now l)" by (rule in_step_marked [OF l(2)])
  qed
  have ids: "map cn_id (conns (mark_due now j db)) = map cn_id (conns db)" "cn_id ` set (conns (mark_due now j db)) = cn_id ` set (conns db)"
    by (simp_all add: mark_due_def put_conn_def put_lease_def ids_update lease_ops)
  have "x = lj_lease k \<or> ls_status x = ''revoke_pending''"
    if "k \<in> set js" "x \<in> set (leases (mark_due now j db))" "ls_conn x = cn_id (lj_conn k)" for k x
    using that Cons.prems(3) by (auto simp: mark_due_def put_conn_def put_lease_def set_update_where lease_ops split: if_splits)
  then show ?case using Cons.IH [OF _ step] Cons.prems(1,3) ids by simp
qed simp

lemma in_step_due:
  assumes "conn_wf db" "in_step db"
  shows "in_step (snd (due_connection_leases env now db))"
proof -
  have "cn_id (lj_conn j) \<in> cn_id ` set (conns db) \<and> (\<forall>l \<in> set (leases db). ls_conn l = cn_id (lj_conn j) \<longrightarrow> l = lj_lease j)"
    if j: "j \<in> set (due_joins db now)" for j
  proof -
    obtain l where l: "l \<in> set (leases db)" "join_lease db l = Some j" using j by (auto simp: in_due_joins)
    have "lj_lease j = l" "one_or_none (\<lambda>c. cn_id c = ls_conn l) (conns db) = Some (lj_conn j)"
      using l(2) by (auto simp: join_lease_def bind_eq_Some_conv)
    moreover have "inj_on ls_conn (set (leases db))" using assms(1) by (simp add: conn_wf_def distinct_map)
    ultimately show ?thesis using one_or_none_Some l(1) by (metis (mono_tags, lifting) image_eqI inj_onD)
  qed
  then show ?thesis
    using assms in_step_fold_due [of db "due_joins db now" now]
    by (auto simp: due_connection_leases_def conn_wf_def split: sum.split)
qed

lemma conn_named_mem: "conn_named db pid = Some cn \<Longrightarrow> cn \<in> set (conns db)"
  by (auto simp: conn_named_def dest: one_or_none_Some)

lemma own_conn_mem: "own_conn db ctx pid = Some cn \<Longrightarrow> cn \<in> set (conns db)"
  by (auto simp: own_conn_def dest: one_or_none_Some)

lemma authority_app: "assert_resource_authority db now ctx = Inr x \<Longrightarrow> ap_id (au_app x) = uc_app ctx"
  by (auto simp: assert_resource_authority_def Let_def app_of_def split: option.splits if_splits dest: one_or_none_Some)

lemma in_step_reserve:
  assumes "distinct (map cn_id (conns db))" "in_step db"
  shows "in_step (snd (reserve_connection env draws now na node ctx pid db))"
proof -
  have new: "in_step (snd (reserve_new draws now na node ctx x c protocol db))" if "ap_id (au_app x) = uc_app ctx" for x c protocol
    using in_step_via [OF in_step_new [OF assms(2) in_step_first [OF that]]] assms(2)
    by (simp add: reserve_new_def Let_def reserved_def put_config_def app_frame)
  have again: "in_step (snd (reserve_again env now na ctx x c cn db))" if "cn \<in> set (conns db)" for x c cn
    using assms(2) by (auto simp: reserve_again_def reserved_def put_conn_def put_lease_def split: option.split
        intro!: in_step_written [OF _ _ assms that] in_step_renewed)
  have found: "one_or_none P (conns db) = Some cn \<Longrightarrow> cn \<in> set (conns db)" for P cn by (simp add: one_or_none_Some)
  have gone: "in_step (put_config c f db)" for c f by (rule in_step_via [OF assms(2)]) simp_all
  show ?thesis
    using assms(2) new again authority_app found gone
    by (auto simp: reserve_connection_def rbind_def split: option.splits sum.splits)
qed

lemma in_step_stop:
  assumes "distinct (map cn_id (conns db))" "in_step db"
  shows "in_step (snd (request_connection_stop env now ctx pid reason db))"
proof -
  let ?fc = "\<lambda>c. if final_status (cn_status c) then c else c\<lparr>cn_status := ''revoke_pending'', cn_active_key := None,
      cn_stop_reason := Some (take 500 reason), cn_stopped := Some now, cn_updated := now\<rparr>"
  let ?fl = "\<lambda>cn r. if final_status (cn_status cn) then r else r\<lparr>ls_status := ''revoke_pending'', ls_revoke_requested := Some now,
      ls_reason := Some (take 500 reason)\<rparr>"
  have "lease_in_step (?fc cn) (?fl cn l)" if "lease_in_step cn l" for cn l using that by (auto simp: in_step_rows)
  then have "in_step (revoke_bound_configs now reason pid (put_lease (?fl cn) (cn_id cn) (put_conn ?fc (cn_id cn) db)))"
    if "cn \<in> set (conns db)" for cn
    using that by (intro in_step_written [OF _ _ assms, of _ ?fc cn "?fl cn"])
      (simp_all add: revoke_bound_configs_def put_conn_def put_lease_def)
  then show ?thesis using assms(2) own_conn_mem by (simp add: request_connection_stop_def Let_def split: sum.split option.split)
qed

lemma in_step_renew:
  assumes "distinct (map cn_id (conns db))" "in_step db"
  shows "in_step (snd (renew_connection env now na ctx pid db))"
proof -
  let ?fc = "\<lambda>c. c\<lparr>cn_not_after := na, cn_renewed := Some now, cn_updated := now\<rparr>" and ?fl = "\<lambda>r. r\<lparr>ls_not_after := na, ls_renewed := Some now\<rparr>"
  have "lease_in_step (?fc cn) (?fl l)" if "lease_in_step cn l" for cn l using that by (auto simp: in_step_rows)
  then have "in_step (put_lease ?fl (cn_id cn) (put_conn ?fc (cn_id cn) db))" if "cn \<in> set (conns db)" for cn
    using that by (intro in_step_put [OF assms]) simp_all
  then show ?thesis using assms(2) own_conn_mem by (simp add: renew_connection_def Let_def split: sum.split option.split)
qed

lemma in_step_fail:
  assumes "distinct (map cn_id (conns db))" "in_step db"
  shows "in_step (fail_connection now pid reason db)"
  using assms(2) conn_named_mem
  by (auto simp: fail_connection_def revoke_bound_configs_def put_conn_def put_lease_def in_step_rows split: option.split
      intro!: in_step_written [OF _ _ assms])

lemma in_step_complete:
  assumes "distinct (map cn_id (conns db))" "in_step db"
  shows "in_step (snd (complete_connection env nonce now na pid settings capability db))"
proof -
  have "in_step (audit t a (put_lease (complete_lease_row env nonce settings na now) (cn_id cn) (put_conn (complete_conn_row na now capability) (cn_id cn) db)))"
    if "cn \<in> set (conns db)" for cn t a
    by (rule in_step_written [OF _ _ assms that in_step_completed]) (simp_all add: put_conn_def put_lease_def)
  then show ?thesis using assms(2) conn_named_mem by (simp add: complete_connection_def split: option.split)
qed

lemma in_step_removed:
  assumes "distinct (map cn_id (conns db))" "in_step db"
  shows "in_step (mark_connection_removed now pid e err db)"
proof -
  have "in_step (put_lease (removed_lease_row now e err) (cn_id cn) (put_conn (removed_conn_row now e err) (cn_id cn) db))"
    if "cn \<in> set (conns db)" for cn
    by (rule in_step_put [OF assms that]) (rule in_step_ended)
  then show ?thesis using assms(2) conn_named_mem by (simp add: mark_connection_removed_def split: option.split)
qed

lemma step_in_step:
  assumes "app_step env bnd db db'" "conn_wf db" "in_step db"
  shows "in_step db'"
proof -
  have d: "distinct (map cn_id (conns db))" using assms(2) by (simp add: conn_wf_def)
  note writes = in_step_reserve [OF d assms(3)] in_step_due [OF assms(2,3)] in_step_fail [OF d assms(3)] in_step_stop [OF d assms(3)]
    in_step_renew [OF d assms(3)] in_step_complete [OF d assms(3)] in_step_removed [OF d assms(3)]
  show ?thesis
    using assms(1)
  proof (cases rule: app_step.cases)
    case (observe now pid observed err)
    then show ?thesis
      unfolding update_connection_observation_def by (auto intro!: in_step_conns [OF assms(3)] simp: in_step_rows)
  qed (hypsubst, (rule writes | (rule in_step_via [OF assms(3)]; simp add: app_frame)))+
qed

lemma reachable_in_step:
  assumes "initial_db db0" "(app_step env bnd)\<^sup>*\<^sup>* db0 db"
  shows "in_step db"
  using assms(2)
proof (induction rule: rtranclp_induct)
  case base
  then show ?case using assms(1) by (simp add: in_step_def initial_db_def)
next
  case (step db db')
  then show ?case using step_in_step reachable_conn_wf [OF assms(1)] by blast
qed

end
