(* ===== verification/AppConnProps.thy ===== *)
theory AppConnProps
  imports AppConnInv
begin

text \<open>
  Properties of connections and of the sweep that enforces their end: the invariant in every reachable state, what a
  sweep settles, and the two ways in which enforcement falls short.
\<close>



section \<open>What a sweep touches\<close>

text \<open>Everything but the connections and leases with an id in \<open>D\<close> is as before.\<close>

definition same_outside :: "int set \<Rightarrow> app_db \<Rightarrow> app_db \<Rightarrow> bool" where
  "same_outside D db db' \<longleftrightarrow>
     map (\<lambda>c. (cn_id c, cn_public_id c)) (conns db') = map (\<lambda>c. (cn_id c, cn_public_id c)) (conns db) \<and>
     map ls_conn (leases db') = map ls_conn (leases db) \<and>
     filter (\<lambda>c. cn_id c \<notin> D) (conns db') = filter (\<lambda>c. cn_id c \<notin> D) (conns db) \<and>
     filter (\<lambda>l. ls_conn l \<notin> D) (leases db') = filter (\<lambda>l. ls_conn l \<notin> D) (leases db) \<and>
     apps db' = apps db \<and> users db' = users db \<and> devices db' = devices db \<and> keys db' = keys db \<and> grants db' = grants db \<and>
     tokens db' = tokens db \<and> usage db' = usage db"

lemma outside_refl: "same_outside D db db"
  by (simp add: same_outside_def)

lemma outside_trans: "same_outside D db db' \<Longrightarrow> same_outside D db' db'' \<Longrightarrow> same_outside D db db''"
  by (simp add: same_outside_def)

lemma filter_update_where: "(\<And>r. P r \<Longrightarrow> \<not> Q r) \<Longrightarrow> (\<And>r. P r \<Longrightarrow> \<not> Q (f r)) \<Longrightarrow> filter Q (update_where P f xs) = filter Q xs"
  by (induction xs) (auto simp: update_where_def)

lemma outside_put:
  assumes "\<And>c. cn_id (f c) = cn_id c" "\<And>c. cn_public_id (f c) = cn_public_id c" "\<And>l. ls_conn (g l) = ls_conn l" "i \<in> D"
  shows "same_outside D db (put_lease g i (put_conn f i db))"
proof -
  have "filter (\<lambda>c. cn_id c \<notin> D) (update_where (\<lambda>c. cn_id c = i) f (conns db)) = filter (\<lambda>c. cn_id c \<notin> D) (conns db)"
    by (rule filter_update_where) (use assms in auto)
  moreover have "filter (\<lambda>l. ls_conn l \<notin> D) (update_where (\<lambda>l. ls_conn l = i) g (leases db)) = filter (\<lambda>l. ls_conn l \<notin> D) (leases db)"
    by (rule filter_update_where) (use assms in auto)
  ultimately show ?thesis using assms(1-3) by (simp add: same_outside_def put_lease_def put_conn_def)
qed

lemma outside_mark_due: "cn_id (lj_conn j) \<in> D \<Longrightarrow> same_outside D db (mark_due now j db)"
  unfolding mark_due_def by (rule outside_put) (simp_all add: lease_ops)

lemma outside_fold_due: "\<forall>j \<in> set js. cn_id (lj_conn j) \<in> D \<Longrightarrow> same_outside D db (fold (mark_due now) js db)"
proof (induction js arbitrary: db)
  case (Cons j js)
  then show ?case using outside_trans [OF outside_mark_due Cons.IH] by simp
qed (simp add: outside_refl)

lemma filter_key: "i \<notin> D \<Longrightarrow> filter (\<lambda>x. k x = i) xs = filter (\<lambda>x. k x = i) (filter (\<lambda>x. k x \<notin> D) xs)"
  by (induction xs) auto

lemma outside_conn: "same_outside D db db' \<Longrightarrow> i \<notin> D \<Longrightarrow> one_or_none (\<lambda>c. cn_id c = i) (conns db') = one_or_none (\<lambda>c. cn_id c = i) (conns db)"
  unfolding one_or_none_def same_outside_def filter_key [of i D cn_id "conns db"] filter_key [of i D cn_id "conns db'"] by (simp only:)

lemma outside_join: "same_outside D db db' \<Longrightarrow> ls_conn l \<notin> D \<Longrightarrow> join_lease db' l = join_lease db l"
  using outside_conn [of D db db' "ls_conn l"]
  by (simp add: join_lease_def same_outside_def app_of_def user_of_def device_of_def key_of_def grant_for_def)

lemma outside_due: "same_outside D db db' \<Longrightarrow> lease_due db' now j = lease_due db now j"
  by (simp add: lease_due_def authority_lost_def lease_family_alive_def device_within_limit_def occupying_devices_def usage_of_def same_outside_def Let_def)

lemma outside_lease: "same_outside D db db' \<Longrightarrow> l \<in> set (leases db') \<Longrightarrow> ls_conn l \<notin> D \<Longrightarrow> l \<in> set (leases db)"
proof -
  assume d: "same_outside D db db'" "l \<in> set (leases db')" "ls_conn l \<notin> D"
  have "l \<in> set (filter (\<lambda>l. ls_conn l \<notin> D) (leases db'))" using d(2,3) by simp
  also have "filter (\<lambda>l. ls_conn l \<notin> D) (leases db') = filter (\<lambda>l. ls_conn l \<notin> D) (leases db)" using d(1) by (simp add: same_outside_def)
  finally show "l \<in> set (leases db)" by simp
qed

text \<open>A connection is found under its public id, before and after.\<close>

definition named_id :: "app_db \<Rightarrow> string \<Rightarrow> int \<Rightarrow> bool" where
  "named_id db pid i \<longleftrightarrow> (\<exists>c. conn_named db pid = Some c \<and> cn_id c = i)"

lemma named_id_iff: "named_id db pid i \<longleftrightarrow> map snd (filter (\<lambda>x. snd x = pid) (map (\<lambda>c. (cn_id c, cn_public_id c)) (conns db))) \<noteq> [] \<and>
   fst (hd (filter (\<lambda>x. snd x = pid) (map (\<lambda>c. (cn_id c, cn_public_id c)) (conns db)))) = i"
  unfolding named_id_def conn_named_def one_or_none_def
  by (cases "filter (\<lambda>c. cn_public_id c = pid) (conns db)") (simp_all add: filter_map o_def)

lemma outside_named: "same_outside D db db' \<Longrightarrow> named_id db' pid i = named_id db pid i"
  unfolding named_id_iff same_outside_def by simp

lemma removed_outside:
  assumes "named_id db pid i" "i \<in> D"
  shows "same_outside D db (mark_connection_removed now pid e err db)"
  using assms by (auto simp: mark_connection_removed_def named_id_def lease_ops split: option.split intro!: outside_put)

definition lease_ends :: "bool \<Rightarrow> int \<Rightarrow> app_db \<Rightarrow> bool" where
  "lease_ends strict i db \<longleftrightarrow> (\<forall>l \<in> set (leases db). ls_conn l = i \<longrightarrow> ls_removed l \<noteq> None \<or> (\<not> strict \<and> ls_status l = ''revoke_pending''))"

lemma removed_leases:
  assumes "named_id db pid i"
  shows "leases (mark_connection_removed now pid e err db) = update_where (\<lambda>l. ls_conn l = i) (removed_lease_row now e err) (leases db)"
  using assms by (auto simp: mark_connection_removed_def named_id_def put_lease_def)

lemma removed_row:
  "ls_conn (removed_lease_row now e err l) = ls_conn l" "ls_removed (removed_lease_row now e None l) = Some now"
  "ls_removed (removed_lease_row now e (Some m) l) = ls_removed l" "ls_status (removed_lease_row now e (Some m) l) = ''revoke_pending''"
  by (simp_all add: removed_lease_row_def split: option.split)

lemma removed_ends:
  assumes "named_id db pid k" "strict \<longrightarrow> err = None" "i = k \<or> lease_ends strict i db"
  shows "lease_ends strict i (mark_connection_removed now pid e err db)"
proof -
  have "ls_removed l \<noteq> None \<or> (\<not> strict \<and> ls_status l = ''revoke_pending'')"
    if "l \<in> set (update_where (\<lambda>l. ls_conn l = k) (removed_lease_row now e err) (leases db))" "ls_conn l = i" for l
    using that(1)
  proof (cases rule: update_whereE)
    case same
    then show ?thesis using assms(3) that(2) by (auto simp: lease_ends_def)
  next
    case (changed y)
    then show ?thesis using assms(2) by (cases err) (simp_all add: removed_row)
  qed
  then show ?thesis by (simp add: lease_ends_def removed_leases [OF assms(1)])
qed

lemma due_join:
  assumes "conn_wf db" "j \<in> set (due_joins db now)"
  shows "cn_id (lj_conn j) = ls_conn (lj_lease j)" "lj_lease j \<in> set (leases db)" "ls_removed (lj_lease j) = None" "lease_due db now j"
    "join_lease db (lj_lease j) = Some j" "named_id db (cn_public_id (lj_conn j)) (cn_id (lj_conn j))"
proof -
  obtain l where l: "l \<in> set (leases db)" "ls_removed l = None" "join_lease db l = Some j" "lease_due db now j"
    using assms(2) by (auto simp: in_due_joins)
  have "lj_lease j = l" "one_or_none (\<lambda>c. cn_id c = ls_conn l) (conns db) = Some (lj_conn j)"
    using l(3) by (auto simp: join_lease_def bind_eq_Some_conv)
  then show "cn_id (lj_conn j) = ls_conn (lj_lease j)" "lj_lease j \<in> set (leases db)" "ls_removed (lj_lease j) = None" "lease_due db now j"
      "join_lease db (lj_lease j) = Some j"
    using l one_or_none_Some [of _ "conns db" "lj_conn j"] by auto
  have "lj_conn j \<in> set (conns db)" using one_or_none_Some [OF \<open>one_or_none _ _ = Some (lj_conn j)\<close>] by simp
  then have "one_or_none (\<lambda>c. cn_public_id c = cn_public_id (lj_conn j)) (conns db) = Some (lj_conn j)"
    using assms(1) by (intro one_or_none_eqI [of cn_public_id]) (auto simp: conn_wf_def)
  then show "named_id db (cn_public_id (lj_conn j)) (cn_id (lj_conn j))" by (simp add: named_id_def conn_named_def)
qed

section \<open>The sweep\<close>

definition always_torn_down :: "'c core_side \<Rightarrow> bool" where
  "always_torn_down side \<longleftrightarrow> (\<forall>lc c. fst (teardown_lease side lc c) = None)"

lemma remove_due_effects:
  assumes "\<forall>lc \<in> set lcs. named_id (cw_db w) (cn_public_id (lc_conn lc)) (cn_id (lc_conn lc)) \<and> cn_id (lc_conn lc) \<in> D"
    and "strict \<longrightarrow> always_torn_down side" "remove_due side now later lcs w = (n, w')"
  shows "same_outside D (cw_db w) (cw_db w') \<and>
    (\<forall>i. lease_ends strict i (cw_db w) \<or> i \<in> (\<lambda>lc. cn_id (lc_conn lc)) ` set lcs \<longrightarrow> lease_ends strict i (cw_db w')) \<and> (strict \<longrightarrow> n = length lcs)"
  using assms
proof (induction lcs arbitrary: w n)
  case Nil
  then show ?case by (simp add: outside_refl)
next
  case (Cons lc lcs)
  obtain err c1 where t: "teardown_lease side lc (cw_cores w) = (err, c1)" by (metis prod.exhaust)
  define db1 where "db1 = mark_connection_removed later (cn_public_id (lc_conn lc)) (ls_not_after (lc_lease lc) \<le> now) err (cw_db w)"
  define w1 where "w1 = w\<lparr>cw_cores := c1, cw_db := db1\<rparr>"
  have db1: "cw_db w1 = db1" by (simp add: w1_def)
  have r: "remove_lease side later (ls_not_after (lc_lease lc) \<le> now) lc w = (err = None, w1)"
    using t by (simp add: remove_lease_def w1_def db1_def)
  obtain m where m: "remove_due side now later lcs w1 = (m, w')" "n = (if err = None then m + 1 else m)"
    using Cons.prems(3) r by (auto split: prod.splits)
  have err: "strict \<longrightarrow> err = None" using Cons.prems(2) t by (metis always_torn_down_def fst_conv)
  have named: "named_id (cw_db w) (cn_public_id (lc_conn lc)) (cn_id (lc_conn lc))" "cn_id (lc_conn lc) \<in> D" using Cons.prems(1) by simp_all
  have out: "same_outside D (cw_db w) db1" unfolding db1_def by (rule removed_outside [OF named])
  have ends: "lease_ends strict i db1" if "i = cn_id (lc_conn lc) \<or> lease_ends strict i (cw_db w)" for i
    unfolding db1_def by (rule removed_ends [OF named(1) err that])
  have "\<forall>lc \<in> set lcs. named_id (cw_db w1) (cn_public_id (lc_conn lc)) (cn_id (lc_conn lc)) \<and> cn_id (lc_conn lc) \<in> D"
    using Cons.prems(1) outside_named [OF out] db1 by simp
  note ih = Cons.IH [OF this Cons.prems(2) m(1), unfolded db1]
  have "same_outside D (cw_db w) (cw_db w')" using outside_trans [OF out] ih by blast
  moreover have "lease_ends strict i (cw_db w')" if "lease_ends strict i (cw_db w) \<or> i \<in> (\<lambda>lc. cn_id (lc_conn lc)) ` set (lc # lcs)" for i
    using that ends [of i] ih by auto
  moreover have "strict \<longrightarrow> n = length (lc # lcs)" using ih m(2) err by simp
  ultimately show ?case by blast
qed

lemma open_all_conns:
  "open_all env now js = Inr xs \<Longrightarrow> map lc_conn xs = map (\<lambda>j. mark_conn now (lj_lease j) (lj_conn j)) js"
  by (induction js arbitrary: xs) (auto simp: opened_lease_def rbind_def split: sum.splits)

lemma sweep_effects:
  assumes "conn_wf (cw_db w)" "sweep env side now later w = (Inr n, w')" "strict \<longrightarrow> always_torn_down side"
  defines "D \<equiv> (\<lambda>j. cn_id (lj_conn j)) ` set (due_joins (cw_db w) now)"
  shows "same_outside D (cw_db w) (cw_db w')" "\<forall>i \<in> D. lease_ends strict i (cw_db w')" "strict \<longrightarrow> n = length (due_joins (cw_db w) now)"
proof -
  let ?js = "due_joins (cw_db w) now"
  obtain xs where xs: "open_all env now ?js = Inr xs" using assms(2) by (auto simp: sweep_def due_connection_leases_def split: sum.splits)
  define db1 where "db1 = fold (mark_due now) ?js (cw_db w)"
  have rd: "remove_due side now later xs (w\<lparr>cw_db := db1\<rparr>) = (n, w')"
    using assms(2) xs by (auto simp: sweep_def due_connection_leases_def db1_def split: prod.splits)
  have out: "same_outside D (cw_db w) db1" unfolding db1_def D_def by (rule outside_fold_due) simp
  have ids: "cn_id (mark_conn now l c) = cn_id c" "cn_public_id (mark_conn now l c) = cn_public_id c" for l c by (simp_all add: mark_conn_def)
  have conns: "map lc_conn xs = map (\<lambda>j. mark_conn now (lj_lease j) (lj_conn j)) ?js" by (rule open_all_conns [OF xs])
  have len: "length xs = length ?js" using conns by (metis length_map)
  have "\<exists>j \<in> set ?js. lc_conn lc = mark_conn now (lj_lease j) (lj_conn j)" if "lc \<in> set xs" for lc
    using arg_cong [OF conns, of set] that by (auto simp: set_eq_iff)
  then have named: "\<forall>lc \<in> set xs. named_id (cw_db (w\<lparr>cw_db := db1\<rparr>)) (cn_public_id (lc_conn lc)) (cn_id (lc_conn lc)) \<and> cn_id (lc_conn lc) \<in> D"
    using due_join(6) [OF assms(1)] outside_named [OF out] ids unfolding D_def by fastforce
  have D: "(\<lambda>lc. cn_id (lc_conn lc)) ` set xs = D"
  proof -
    have "map (\<lambda>lc. cn_id (lc_conn lc)) xs = map cn_id (map lc_conn xs)" by simp
    also have "\<dots> = map (\<lambda>j. cn_id (lj_conn j)) ?js" by (simp add: conns ids)
    finally show ?thesis unfolding D_def by (metis list.set_map)
  qed
  note e = remove_due_effects [OF named assms(3) rd]
  show "same_outside D (cw_db w) (cw_db w')" using outside_trans [OF out] e by simp
  show "\<forall>i \<in> D. lease_ends strict i (cw_db w')" using e unfolding D by simp
  show "strict \<longrightarrow> n = length ?js" using e len by simp
qed

lemma lease_kept: "same_outside D db db' \<Longrightarrow> l \<in> set (leases db) \<Longrightarrow> \<exists>l' \<in> set (leases db'). ls_conn l' = ls_conn l"
  unfolding same_outside_def by (metis (no_types, lifting) image_iff list.set_map)

text \<open>
  C19: A sweep that runs to its end settles every lease that was due, whatever its outcome on the cores: afterwards
  the lease is removed or waits as \<open>revoke_pending\<close> for the next sweep. When the cores and nodes carry out every
  teardown, nothing is due any more at that time and the count returned is the number of leases that were.
\<close>
theorem sweep_settles_due_leases:
  assumes "initial_db db0" "(app_step env bnd)\<^sup>*\<^sup>* db0 (cw_db w)" "sweep env side now later w = (Inr n, w')"
  shows "(\<forall>j \<in> set (due_joins (cw_db w) now). \<exists>l \<in> set (leases (cw_db w')). ls_conn l = ls_conn (lj_lease j) \<and>
       (ls_removed l \<noteq> None \<or> ls_status l = ''revoke_pending'')) \<and>
    (always_torn_down side \<longrightarrow> due_joins (cw_db w') now = [] \<and> n = length (due_joins (cw_db w) now))"
proof (intro conjI ballI impI)
  have wf: "conn_wf (cw_db w)" by (rule reachable_conn_wf [OF assms(1,2)])
  let ?D = "(\<lambda>j. cn_id (lj_conn j)) ` set (due_joins (cw_db w) now)"
  note soft = sweep_effects [OF wf assms(3), of False, simplified]
  fix j assume j: "j \<in> set (due_joins (cw_db w) now)"
  note dj = due_join [OF wf j]
  obtain l where l: "l \<in> set (leases (cw_db w'))" "ls_conn l = ls_conn (lj_lease j)" using lease_kept [OF soft(1) dj(2)] by blast
  have "lease_ends False (cn_id (lj_conn j)) (cw_db w')" using soft(2) j by blast
  then have "ls_removed l \<noteq> None \<or> ls_status l = ''revoke_pending''" using l dj(1) by (simp add: lease_ends_def)
  then show "\<exists>l \<in> set (leases (cw_db w')). ls_conn l = ls_conn (lj_lease j) \<and> (ls_removed l \<noteq> None \<or> ls_status l = ''revoke_pending'')"
    using l by blast
next
  assume t: "always_torn_down side"
  have wf: "conn_wf (cw_db w)" by (rule reachable_conn_wf [OF assms(1,2)])
  let ?D = "(\<lambda>j. cn_id (lj_conn j)) ` set (due_joins (cw_db w) now)"
  have "same_outside ?D (cw_db w) (cw_db w')" "\<forall>i \<in> ?D. lease_ends True i (cw_db w')" and n: "n = length (due_joins (cw_db w) now)"
    using sweep_effects [OF wf assms(3), of True] t by simp_all
  note e = this(1,2)
  show "n = length (due_joins (cw_db w) now)" by (rule n)
  show "due_joins (cw_db w') now = []"
  proof (rule ccontr)
    assume "due_joins (cw_db w') now \<noteq> []"
    then obtain j where "j \<in> set (due_joins (cw_db w') now)" using hd_in_set by blast
    then obtain l where l: "l \<in> set (leases (cw_db w'))" "ls_removed l = None" "join_lease (cw_db w') l = Some j" "lease_due (cw_db w') now j"
      by (auto simp: in_due_joins)
    have out: "ls_conn l \<notin> ?D"
    proof
      assume "ls_conn l \<in> ?D"
      then have "lease_ends True (ls_conn l) (cw_db w')" using e(2) by blast
      then show False using l(1,2) unfolding lease_ends_def by blast
    qed
    have "l \<in> set (leases (cw_db w))" "join_lease (cw_db w) l = Some j" "lease_due (cw_db w) now j"
      using outside_lease [OF e(1) l(1) out] outside_join [OF e(1) out] outside_due [OF e(1)] l(3,4) by simp_all
    then have "j \<in> set (due_joins (cw_db w) now)" using l(2) by (auto simp: in_due_joins)
    moreover from this have "cn_id (lj_conn j) = ls_conn l" using due_join(1) [OF wf] l(3) by (auto simp: join_lease_def bind_eq_Some_conv)
    ultimately show False using out by force
  qed
qed

definition sample_side :: "unit core_side" where
  "sample_side = \<lparr>create_account = (\<lambda>core a c. (Inr [], c)), update_account = (\<lambda>core a c. (Inr [], c)), delete_account = (\<lambda>core a c. (None, c)),
     teardown_capability = (\<lambda>core. ''full''), online_sessions = (\<lambda>core a c. Inr False), tracks_online = (\<lambda>core. False),
     node_apply = (\<lambda>n lc a c. (Inr [], c)), node_revoke = (\<lambda>n lc c. (None, c)), node_status = (\<lambda>n lc c. Inr [])\<rparr>"

definition sample_world :: "unit conn_world" where
  "sample_world = \<lparr>cw_db = sample8, cw_cores = ()\<rparr>"

theorem sweep_settles_due_leases_witness:
  "\<exists>n w'. sweep sample_env sample_side 6000 6001 sample_world = (Inr n, w') \<and> length (due_joins (cw_db sample_world) 6000) = 1 \<and>
     (\<forall>j \<in> set (due_joins (cw_db sample_world) 6000). \<exists>l \<in> set (leases (cw_db w')). ls_conn l = ls_conn (lj_lease j) \<and>
       (ls_removed l \<noteq> None \<or> ls_status l = ''revoke_pending''))"
proof -
  have "\<not> isl (fst (sweep sample_env sample_side 6000 6001 sample_world))" by code_simp
  then obtain n w' where s: "sweep sample_env sample_side 6000 6001 sample_world = (Inr n, w')"
    by (cases "sweep sample_env sample_side 6000 6001 sample_world"; cases "fst (sweep sample_env sample_side 6000 6001 sample_world)") auto
  have w: "cw_db sample_world = sample8" by (simp add: sample_world_def)
  have "length (due_joins (cw_db sample_world) 6000) = 1" by code_simp
  then show ?thesis
    using sweep_settles_due_leases [of empty_db sample_env 0 sample_world, unfolded w, OF sample_initial sample_run(8) s] s unfolding w by blast
qed

section \<open>Where enforcement falls short\<close>

lemma open_all_fails: "j \<in> set js \<Longrightarrow> isl (lease_settings env (lj_lease j)) \<Longrightarrow> isl (open_all env now js)"
proof (induction js)
  case (Cons x xs)
  have s: "lease_settings env (mark_lease now l) = lease_settings env l" for l by (simp add: lease_settings_def mark_lease_def split: option.split)
  show ?case
  proof (cases "j = x")
    case True
    then show ?thesis using Cons.prems(2) by (cases "lease_settings env (lj_lease x)") (simp_all add: opened_lease_def s rbind_def)
  next
    case False
    then have "isl (open_all env now xs)" using Cons by simp
    then show ?thesis by (auto simp: rbind_def isl_def split: sum.split)
  qed
qed simp

text \<open>
  The sweep opens the credentials of every due lease before it tears any of them down. When the credentials of
  one due lease do not open, the sweep raises and leaves the tables and the cores as they were, so no expired or
  revoked connection ends, and the next sweep fails in the same way.
\<close>
lemma unreadable_lease_blocks_the_sweep:
  assumes "j \<in> set (due_joins (cw_db w) now)" "isl (lease_settings env (lj_lease j))"
  shows "\<exists>e. sweep env side now later w = (Inl e, w)"
proof -
  obtain e where "open_all env now (due_joins (cw_db w) now) = Inl e" using open_all_fails [OF assms] unfolding isl_def by blast
  then show ?thesis by (simp add: sweep_def due_connection_leases_def)
qed

definition unreadable_env :: app_env where
  "unreadable_env = sample_env\<lparr>lease_open := (\<lambda>b s. Inl (AppRaised ValueError))\<rparr>"

lemma unreadable_lease_blocks_the_sweep_example:
  "\<exists>e. sweep unreadable_env sample_side 6000 6001 sample_world = (Inl e, sample_world)"
proof -
  have l: "list_all (\<lambda>j. isl (lease_settings unreadable_env (lj_lease j))) (due_joins (cw_db sample_world) 6000)"
      "length (due_joins (cw_db sample_world) 6000) = 1" by code_simp+
  then obtain j where "j \<in> set (due_joins (cw_db sample_world) 6000)" by (metis hd_in_set length_0_conv zero_neq_one)
  moreover from this l(1) have "isl (lease_settings unreadable_env (lj_lease j))" by (simp add: list_all_iff)
  ultimately show ?thesis by (rule unreadable_lease_blocks_the_sweep)
qed

lemma removed_never_due:
  assumes "conn_wf db" "l \<in> set (leases db)" "ls_removed l \<noteq> None" "j \<in> set (due_joins db now)"
  shows "ls_conn (lj_lease j) \<noteq> ls_conn l"
proof
  assume c: "ls_conn (lj_lease j) = ls_conn l"
  note d = due_join [OF assms(1,4)]
  have "inj_on ls_conn (set (leases db))" using assms(1) by (simp add: conn_wf_def distinct_map)
  then have "lj_lease j = l" using c d(2) assms(2) by (rule inj_onD)
  then show False using d(3) assms(3) by simp
qed

text \<open>
  C28: The completion of a connection does not look at the state the connection is in. When a stop or a sweep has
  removed the lease while the start of the connection was still waiting for its core, the completion makes the
  connection and its lease active again, and from then on, in every run, no sweep finds that lease: it is never
  expired and never revoked.
\<close>
theorem late_completion_escapes_every_sweep:
  assumes "initial_db db0" "(app_step env bnd)\<^sup>*\<^sup>* db0 db"
    and "conn_named db pid = Some cn" "lease_of db (cn_id cn) = Some l" "ls_removed l \<noteq> None"
    and "complete_connection env nonce now not_after pid settings capability db = (r, db1)"
  shows "(\<exists>cn' l'. conn_named db1 pid = Some cn' \<and> cn_status cn' = ''active'' \<and> lease_of db1 (cn_id cn) = Some l' \<and> ls_status l' = ''active'') \<and>
    (\<forall>bnd' db2 now2 j. (app_step env bnd')\<^sup>*\<^sup>* db1 db2 \<longrightarrow> j \<in> set (due_joins db2 now2) \<longrightarrow> ls_conn (lj_lease j) \<noteq> cn_id cn)"
proof -
  let ?c = "complete_conn_row not_after now capability" and ?l = "complete_lease_row env nonce settings not_after now"
  have tables: "conns db1 = update_where (\<lambda>c. cn_id c = cn_id cn) ?c (conns db)" "leases db1 = update_where (\<lambda>x. ls_conn x = cn_id cn) ?l (leases db)"
    using assms(3,4,6) by (auto simp: complete_connection_def put_lease_def put_conn_def)
  have lc: "l \<in> set (leases db)" "ls_conn l = cn_id cn" using one_or_none_Some [OF assms(4) [unfolded lease_of_def]] by simp_all
  have "conn_named db1 pid = Some (?c cn)"
    using assms(3) by (simp add: conn_named_def tables(1) one_or_none_update complete_conn_row_def)
  moreover have "lease_of db1 (cn_id cn) = Some (?l l)"
    using assms(4) lc(2) by (simp add: lease_of_def tables(2) one_or_none_update complete_lease_row_def)
  moreover have "cn_status (?c cn) = ''active''" "ls_status (?l l) = ''active''" "ls_removed (?l l) = ls_removed l" "ls_conn (?l l) = ls_conn l"
    by (simp_all add: complete_conn_row_def complete_lease_row_def)
  moreover have "ls_conn (lj_lease j) \<noteq> cn_id cn" if "(app_step env bnd')\<^sup>*\<^sup>* db1 db2" "j \<in> set (due_joins db2 now2)" for bnd' db2 now2 j
  proof -
    have "app_step env bnd db db1" using app_step.complete [of env bnd db nonce now not_after pid settings capability] assms(6) by simp
    then have wf1: "conn_wf db1" using reachable_conn_wf [OF assms(1) rtranclp.rtrancl_into_rtrancl [OF assms(2)]] by blast
    then have adv: "conn_wf db2" "(table_change ls_conn lease_keep)\<^sup>*\<^sup>* (leases db1) (leases db2)" using run_advance [OF that(1)] by (simp_all add: conn_advance_def)
    have "?l l \<in> set (leases db1)" using update_where_row [OF lc(1)] lc(2) unfolding tables(2) by (metis (mono_tags, lifting))
    then obtain l2 where "l2 \<in> set (leases db2)" "ls_conn l2 = cn_id cn" "ls_removed l2 \<noteq> None"
      using table_changes_row [where Q = "\<lambda>l. ls_removed l \<noteq> None", OF adv(2) _ \<open>?l l \<in> set (leases db1)\<close>] wf1 assms(5) lc(2)
      by (auto simp: conn_wf_def lease_keep_def complete_lease_row_def)
    then show ?thesis using removed_never_due [OF adv(1)] that(2) by metis
  qed
  ultimately show ?thesis by blast
qed

definition sample_stopped :: app_db where
  "sample_stopped = mark_connection_removed 65 ''n'' False None sample7"

theorem late_completion_escapes_every_sweep_witness:
  "\<exists>cn. conn_named sample_stopped ''n'' = Some cn \<and>
     (\<forall>j. j \<in> set (due_joins (snd (complete_connection sample_env [] 70 5000 ''n'' [] ''x'' sample_stopped)) 9000) \<longrightarrow> ls_conn (lj_lease j) \<noteq> cn_id cn)"
proof -
  have run: "(app_step sample_env 0)\<^sup>*\<^sup>* empty_db sample_stopped"
    unfolding sample_stopped_def by (rule rtranclp.rtrancl_into_rtrancl [OF sample_run(7)]) (rule app_step.removed)
  have "(case conn_named sample_stopped ''n'' of None \<Rightarrow> False | Some cn \<Rightarrow>
      (case lease_of sample_stopped (cn_id cn) of None \<Rightarrow> False | Some l \<Rightarrow> ls_removed l \<noteq> None))" by code_simp
  then obtain cn l where c: "conn_named sample_stopped ''n'' = Some cn" "lease_of sample_stopped (cn_id cn) = Some l" "ls_removed l \<noteq> None"
    by (auto split: option.splits)
  let ?r = "complete_connection sample_env [] 70 5000 ''n'' [] ''x'' sample_stopped"
  have r: "?r = (fst ?r, snd ?r)" by simp
  show ?thesis using late_completion_escapes_every_sweep [OF sample_initial run c r] c(1) by blast
qed

end
