(* ===== verification/OutboundModel.thy ===== *)
theory OutboundModel
  imports BuildValidators
begin

text \<open>
  \<open>app/cores/outbounds/model.py\<close>: outbound profiles and the checks of \<open>Outbound._validate\<close>, branch by branch.
  Settings are a dictionary of dynamically typed values. Parameters: \<open>str()\<close> of floats and containers, and
  the verdicts of the \<open>ipaddress\<close> module on a bracketed URL host and on a server name.
  Lengths of texts are counted in characters of ASCII text.
\<close>

section \<open>Kinds\<close>

datatype outbound_kind =
    DIRECT | BLOCK | BLACKHOLE | DNS | SOCKS | HTTP | VLESS | VMESS | TROJAN | SHADOWSOCKS | WIREGUARD
  | HYSTERIA2 | TUIC | ANYTLS | NAIVE | OPENVPN | SSH | L2TP_IPSEC | L2TP_RAW | SSTP | PPTP
  | SOFTETHER_L2TP | SOFTETHER_L2TP_RAW | SOFTETHER_SSTP | SOFTETHER_PPTP | SOFTETHER_NATIVE | CORE

definition kind_table :: "(outbound_kind \<times> string) list" where
  "kind_table =
     [(DIRECT, ''direct''), (BLOCK, ''block''), (BLACKHOLE, ''blackhole''), (DNS, ''dns''), (SOCKS, ''socks''),
      (HTTP, ''http''), (VLESS, ''vless''), (VMESS, ''vmess''), (TROJAN, ''trojan''), (SHADOWSOCKS, ''shadowsocks''),
      (WIREGUARD, ''wireguard''), (HYSTERIA2, ''hysteria2''), (TUIC, ''tuic''), (ANYTLS, ''anytls''), (NAIVE, ''naive''),
      (OPENVPN, ''openvpn''), (SSH, ''ssh''), (L2TP_IPSEC, ''l2tp_ipsec''), (L2TP_RAW, ''l2tp_raw''), (SSTP, ''sstp''),
      (PPTP, ''pptp''), (SOFTETHER_L2TP, ''softether_l2tp''), (SOFTETHER_L2TP_RAW, ''softether_l2tp_raw''),
      (SOFTETHER_SSTP, ''softether_sstp''), (SOFTETHER_PPTP, ''softether_pptp''), (SOFTETHER_NATIVE, ''softether_native''),
      (CORE, ''core'')]"

text \<open>\<open>kind.value\<close> and \<open>OutboundKind(value)\<close>.\<close>

definition kind_value :: "outbound_kind \<Rightarrow> string" where
  "kind_value k = (case map_of kind_table k of Some v \<Rightarrow> v | None \<Rightarrow> [])"

definition kind_of_value :: "string \<Rightarrow> outbound_kind option" where
  "kind_of_value v = map_of (map prod.swap kind_table) v"

definition PPP_CLIENT_KINDS :: "outbound_kind list" where
  "PPP_CLIENT_KINDS = [L2TP_IPSEC, L2TP_RAW, SSTP, PPTP]"

definition LEGACY_SOFTETHER_OUTBOUND_KINDS :: "outbound_kind list" where
  "LEGACY_SOFTETHER_OUTBOUND_KINDS = [SOFTETHER_L2TP, SOFTETHER_L2TP_RAW, SOFTETHER_SSTP, SOFTETHER_PPTP]"

definition SOFTETHER_CLIENT_KINDS :: "outbound_kind list" where
  "SOFTETHER_CLIENT_KINDS = LEGACY_SOFTETHER_OUTBOUND_KINDS @ [SOFTETHER_NATIVE]"

definition XRAY_KINDS :: "outbound_kind list" where
  "XRAY_KINDS = [SOCKS, HTTP, VLESS, VMESS, TROJAN, SHADOWSOCKS]"

definition SERVER_KINDS :: "outbound_kind list" where
  "SERVER_KINDS = [SOCKS, HTTP, VLESS, VMESS, TROJAN, SHADOWSOCKS, WIREGUARD, HYSTERIA2, TUIC, OPENVPN, SSH,
     L2TP_IPSEC, L2TP_RAW, SSTP, PPTP, SOFTETHER_NATIVE]"

section \<open>Profiles\<close>

type_synonym settings = "(string \<times> pyval) list"

record outbound =
  ob_name :: string
  ob_kind :: outbound_kind
  ob_settings :: settings
  ob_enabled :: bool
  ob_nodes :: "int list"

record outbound_env =
  oe_show :: "pyval \<Rightarrow> string"
  oe_bracket_ok :: "string \<Rightarrow> bool"
  oe_is_ip :: "string \<Rightarrow> bool"

text \<open>The pattern of names: an alphanumeric character, then 1 to 63 of the class \<open>[A-Za-z0-9\-_.]\<close>.\<close>

definition name_char :: "char \<Rightarrow> bool" where
  "name_char c \<longleftrightarrow> alnum c \<or> c \<in> set ''-_.''"

definition outbound_name_ok :: "string \<Rightarrow> bool" where
  "outbound_name_ok s \<longleftrightarrow>
     2 \<le> int (length s) \<and> int (length s) \<le> 64 \<and> alnum (hd s) \<and> list_all name_char (tl s)"

section \<open>Validation\<close>

text \<open>A check is the message of the \<open>ValueError\<close> it raises, or \<open>()\<close>.\<close>

definition refuse :: "bool \<Rightarrow> string \<Rightarrow> string + unit" where
  "refuse b msg = (if b then Inl msg else Inr ())"

definition then_check :: "string + unit \<Rightarrow> string + unit \<Rightarrow> string + unit" where
  "then_check a b = rbind a (\<lambda>_. b)"

fun checks :: "(string + unit) list \<Rightarrow> string + unit" where
  "checks [] = Inr ()"
| "checks (c # cs) = then_check c (checks cs)"

text \<open>\<open>str(settings.get(key) or "")\<close>.\<close>

definition text_of :: "outbound_env \<Rightarrow> settings \<Rightarrow> string \<Rightarrow> string" where
  "text_of env s key = py_str (oe_show env) (py_or (vget s key) (VStr []))"

text \<open>\<open>value in (None, "")\<close>.\<close>

definition blank :: "pyval \<Rightarrow> bool" where
  "blank v \<longleftrightarrow> v = VNone \<or> v = VStr []"

definition check_core :: "outbound_kind \<Rightarrow> settings \<Rightarrow> string + unit" where
  "check_core kind s = refuse (kind = CORE \<and> \<not> truthy (vget s ''core_id'')) ''kind=core requires settings.core_id.''"

definition check_policy_core :: "outbound_env \<Rightarrow> outbound_kind \<Rightarrow> settings \<Rightarrow> string + unit" where
  "check_policy_core env kind s =
     (let policy_core = py_lower (py_strip (text_of env s ''policy_core''))
      in checks
        [refuse (policy_core \<notin> {[], ''sing-box'', ''xray''}) ''settings.policy_core must be xray or sing-box'',
         refuse (policy_core = ''xray'' \<and> kind \<notin> set XRAY_KINDS) (''kind='' @ kind_value kind @ '' has no Xray policy runtime'')])"

definition check_server :: "outbound_env \<Rightarrow> outbound_kind \<Rightarrow> settings \<Rightarrow> string + unit" where
  "check_server env kind s =
     (let profile_supplies_endpoint = (kind = OPENVPN \<and> py_strip (text_of env s ''ovpn_content'') \<noteq> [])
      in refuse (kind \<in> set SERVER_KINDS \<and> \<not> truthy (vget s ''server'') \<and> \<not> profile_supplies_endpoint)
           (''kind='' @ kind_value kind @ '' requires settings.server.''))"

definition fits :: "int \<Rightarrow> int \<Rightarrow> (char \<Rightarrow> bool) \<Rightarrow> string \<Rightarrow> bool" where
  "fits lo hi P s \<longleftrightarrow> lo \<le> int (length s) \<and> int (length s) \<le> hi \<and> list_all P s"

definition check_softether :: "outbound_env \<Rightarrow> settings \<Rightarrow> string + unit" where
  "check_softether env s =
     (let missing = filter (\<lambda>key. \<not> truthy (vget s key)) [''server_port'', ''hub'', ''username'', ''password''];
          hub = py_str (oe_show env) (vget s ''hub''); username = py_str (oe_show env) (vget s ''username'');
          secret = py_str (oe_show env) (vget s ''password'')
      in checks
        [refuse (missing \<noteq> []) (''native SoftEther requires '' @ join_with '', '' missing),
         refuse (\<not> fits 1 31 (\<lambda>c. alnum c \<or> c \<in> set ''_-'') hub) ''invalid SoftEther hub'',
         refuse (\<not> fits 1 64 (\<lambda>c. alnum c \<or> c \<in> set ''_.@-'') username) ''invalid SoftEther username'',
         refuse (128 < int (length secret) \<or> list_ex (\<lambda>c. is_space c \<or> c = CHR 0x22 \<or> c = CHR 0x27) secret)
           ''SoftEther password must be 1-128 non-whitespace characters without quotes''])"

text \<open>\<open>test_url\<close>: an HTTPS URL with a host, without user information and without a fragment.\<close>

definition url_userinfo :: "split_url \<Rightarrow> bool" where
  "url_userinfo u =
     (let netloc = u_netloc u; userinfo = rev (tl (dropWhile (\<lambda>c. c \<noteq> CHR ''@'') (rev netloc)));
          user = takeWhile (\<lambda>c. c \<noteq> CHR '':'') userinfo; secret = tl (dropWhile (\<lambda>c. c \<noteq> CHR '':'') userinfo)
      in CHR ''@'' \<in> set netloc \<and> (user \<noteq> [] \<or> secret \<noteq> []))"

definition url_fragment :: "string \<Rightarrow> string" where
  "url_fragment url =
     tl (dropWhile (\<lambda>c. c \<noteq> CHR ''#'')
       (filter (\<lambda>c. c \<notin> {CHR 0x09, CHR 0x0A, CHR 0x0D}) (dropWhile (\<lambda>c. (of_char c :: nat) \<le> 32) url)))"

definition check_test_url :: "outbound_env \<Rightarrow> settings \<Rightarrow> string + unit" where
  "check_test_url env s =
     (let probe_url = py_strip (text_of env s ''test_url'')
      in if probe_url = [] then Inr ()
         else case urlsplit (oe_bracket_ok env) probe_url of
           Inl _ \<Rightarrow> Inl ''Invalid IPv6 URL''
         | Inr parsed \<Rightarrow>
             refuse (u_scheme parsed \<noteq> ''https'' \<or> \<not> has_hostname parsed \<or> url_userinfo parsed \<or> url_fragment probe_url \<noteq> [])
               ''test_url must be an HTTPS URL without credentials or a fragment'')"

definition check_samples :: "settings \<Rightarrow> string + unit" where
  "check_samples s =
     (let given = (case dict_get s ''test_samples'' of None \<Rightarrow> VInt 20 | Some v \<Rightarrow> v);
          raw_samples = (if blank given then VInt 20 else given)
      in case py_int raw_samples of
           Inl _ \<Rightarrow> Inl ''test_samples must be 20-30''
         | Inr samples \<Rightarrow> refuse (\<not> (20 \<le> samples \<and> samples \<le> 30)) ''test_samples must be 20-30'')"

definition check_ppp_port :: "outbound_kind \<Rightarrow> settings \<Rightarrow> string + unit" where
  "check_ppp_port kind s =
     (case py_int (vget s ''server_port'') of
        Inl _ \<Rightarrow> Inl ''invalid server_port''
      | Inr port \<Rightarrow>
          checks
            [refuse (\<not> (1 \<le> port \<and> port \<le> 65535)) ''invalid server_port'',
             refuse (kind \<in> {L2TP_IPSEC, L2TP_RAW} \<and> port \<noteq> 1701) (kind_value kind @ '' uses fixed UDP/1701''),
             refuse (kind = PPTP \<and> port \<noteq> 1723) ''PPTP control port is fixed to TCP/1723''])"

definition ppp_line_char :: "char \<Rightarrow> bool" where
  "ppp_line_char c \<longleftrightarrow> c \<notin> {CHR 0x00, CHR 0x0D, CHR 0x0A}"

definition check_ppp_secret :: "outbound_env \<Rightarrow> settings \<Rightarrow> string \<Rightarrow> string + unit" where
  "check_ppp_secret env s key =
     refuse (dict_in key s \<and> \<not> fits 1 256 ppp_line_char (text_of env s key))
       (''invalid '' @ key @ '' (1-256 chars, no NUL/newline)'')"

definition check_sstp :: "outbound_env \<Rightarrow> settings \<Rightarrow> string + unit" where
  "check_sstp env s =
     (let enabled_bypasses = filter (\<lambda>key. if key = ''verify_certificate'' then vget s key = VBool False else truthy (vget s key))
            [''allow_insecure'', ''insecure'', ''cert_warn'', ''skip_cert_verify'', ''verify_certificate''];
          server_name = py_strip (py_str (oe_show env) (py_or (py_or (vget s ''tls_server_name'') (vget s ''server'')) (VStr [])))
      in checks
        [refuse (enabled_bypasses \<noteq> []) ''SSTP TLS certificate verification cannot be bypassed'',
         refuse (server_name = [] \<or> list_ex is_space server_name) ''SSTP needs a valid TLS server name'',
         refuse (\<not> oe_is_ip env server_name \<and> \<not> fits 1 253 (\<lambda>c. alnum c \<or> c \<in> set ''.-'') server_name)
           ''invalid SSTP TLS server name''])"

definition check_ppp :: "outbound_env \<Rightarrow> outbound_kind \<Rightarrow> settings \<Rightarrow> string + unit" where
  "check_ppp env kind s =
     (let required = [''server_port'', ''username'', ''password''] @ (if kind = L2TP_IPSEC then [''ipsec_psk''] else []);
          missing = filter (\<lambda>key. blank (vget s key)) required;
          probe_ca = py_strip (text_of env s ''probe_ca_pem'')
      in checks
        [refuse (missing \<noteq> []) (kind_value kind @ '' requires '' @ join_with '', '' missing),
         check_ppp_port kind s,
         refuse (\<not> fits 1 190 ppp_line_char (text_of env s ''username'')) ''invalid PPP username'',
         check_ppp_secret env s ''password'',
         check_ppp_secret env s ''ipsec_psk'',
         refuse (vget s ''ipv6'' = VBool True) (kind_value kind @ '' is IPv4-only''),
         refuse (kind \<in> {L2TP_RAW, PPTP} \<and> vget s ''legacy_risk_ack'' \<noteq> VBool True)
           (kind_value kind @ '' requires explicit legacy/insecure risk acknowledgement''),
         check_test_url env s,
         refuse (probe_ca \<noteq> [] \<and> \<not> py_in ''-----BEGIN CERTIFICATE-----'' probe_ca) ''probe_ca_pem is not a PEM certificate'',
         check_samples s,
         if kind = SSTP then check_sstp env s else Inr ()])"

definition validate_outbound :: "outbound_env \<Rightarrow> outbound_kind \<Rightarrow> settings \<Rightarrow> string + unit" where
  "validate_outbound env kind s =
     checks
       [check_core kind s, check_policy_core env kind s, check_server env kind s,
        if kind = SOFTETHER_NATIVE then check_softether env s else Inr (),
        if kind \<in> set PPP_CLIENT_KINDS then check_ppp env kind s else Inr ()]"

text \<open>The constructor on fields of the right types: the name pattern, then the validator.\<close>

definition make_outbound :: "outbound_env \<Rightarrow> outbound \<Rightarrow> string + outbound" where
  "make_outbound env ob =
     (if \<not> outbound_name_ok (ob_name ob) then Inl ''name: String should match pattern''
      else rbind (validate_outbound env (ob_kind ob) (ob_settings ob)) (\<lambda>_. Inr ob))"

section \<open>Facts\<close>

lemma then_check_simps [simp]: "then_check (Inl e) c = Inl e" "then_check (Inr ()) c = c"
  by (simp_all add: then_check_def)

lemma checks_ok_iff: "checks cs = Inr () \<longleftrightarrow> list_all (\<lambda>c. c = Inr ()) cs"
proof (induction cs)
  case (Cons c cs)
  then show ?case by (cases c) auto
qed simp

lemma refuse_ok_iff [simp]: "refuse b msg = Inr () \<longleftrightarrow> \<not> b"
  by (simp add: refuse_def)

lemma kind_value_of_value [simp]: "kind_of_value (kind_value k) = Some k"
  by (cases k) (simp_all add: kind_of_value_def kind_value_def kind_table_def)

lemma kind_of_value_value: "kind_of_value v = Some k \<Longrightarrow> kind_value k = v"
  by (auto simp: kind_of_value_def kind_value_def kind_table_def split: if_splits)

text \<open>The checks look settings up by key, so they do not depend on the order of the dictionary.\<close>

lemma validate_outbound_cong:
  assumes "\<And>k. dict_get s k = dict_get t k"
  shows "validate_outbound env kind s = validate_outbound env kind t"
proof -
  have m: "map_of s = map_of t" using assms by (rule ext)
  have v: "vget s = vget t" by (rule ext) (simp add: vget_def m)
  have d: "dict_in k s = dict_in k t" for k by (simp add: dict_in_def m)
  show ?thesis
    by (simp only: validate_outbound_def check_core_def check_policy_core_def check_server_def check_softether_def check_ppp_def
        check_ppp_port_def check_ppp_secret_def check_test_url_def check_samples_def check_sstp_def text_of_def m v d)
qed

end
