(* ===== verification/PyJson.thy ===== *)
theory PyJson
  imports Base64
begin

text \<open>
  The part of Python's \<open>json\<close> module the sources use: \<open>dumps\<close> with \<open>ensure_ascii=False\<close> and explicit
  separators, and \<open>loads\<close> of a string and of bytes. A string stands for its UTF-8 bytes, so characters beyond
  ASCII pass through the encoder unchanged and an escape \<open>\uXXXX\<close> yields the UTF-8 bytes of its code point.

  Parameters: the text of a float and the value of a float literal. The literals \<open>NaN\<close> and \<open>Infinity\<close>, which are
  not JSON, and the interpreter's recursion limit are outside the model.
\<close>

section \<open>Encoding\<close>

definition hex_digit :: "nat \<Rightarrow> char" where
  "hex_digit n = (if n < 10 then char_of (48 + n) else char_of (87 + n))"

definition escape_char :: "char \<Rightarrow> string" where
  "escape_char c =
     (let n = of_char c :: nat
      in if n = 34 then [CHR 0x5C, CHR 0x22]
         else if n = 92 then [CHR 0x5C, CHR 0x5C]
         else if n = 10 then [CHR 0x5C, CHR ''n'']
         else if n = 13 then [CHR 0x5C, CHR ''r'']
         else if n = 9 then [CHR 0x5C, CHR ''t'']
         else if n = 12 then [CHR 0x5C, CHR ''f'']
         else if n = 8 then [CHR 0x5C, CHR ''b'']
         else if n < 32 then [CHR 0x5C, CHR ''u'', CHR ''0'', CHR ''0'', hex_digit (n div 16), hex_digit (n mod 16)]
         else [c])"

definition quote_str :: "string \<Rightarrow> string" where
  "quote_str s = CHR 0x22 # concat (map escape_char s) @ [CHR 0x22]"

fun dumps_json :: "(rat \<Rightarrow> string) \<Rightarrow> pyval \<Rightarrow> string" where
  "dumps_json fr VNone = ''null''"
| "dumps_json fr (VBool b) = (if b then ''true'' else ''false'')"
| "dumps_json fr (VInt i) = int_to_str i"
| "dumps_json fr (VFloat r) = fr r"
| "dumps_json fr (VStr s) = quote_str s"
| "dumps_json fr (VList xs) = CHR ''['' # join_with '','' (map (dumps_json fr) xs) @ '']''"
| "dumps_json fr (VDict d) =
     CHR ''{'' # join_with '','' (map (\<lambda>(k, v). quote_str k @ CHR '':'' # dumps_json fr v) d) @ ''}''"

section \<open>Decoding\<close>

definition json_ws :: "char \<Rightarrow> bool" where
  "json_ws c \<longleftrightarrow> c \<in> {CHR 0x20, CHR 0x09, CHR 0x0A, CHR 0x0D}"

definition skip_ws :: "string \<Rightarrow> string" where
  "skip_ws s = dropWhile json_ws s"

definition hex_value :: "char \<Rightarrow> nat option" where
  "hex_value c =
     (let n = of_char c :: nat
      in if 48 \<le> n \<and> n \<le> 57 then Some (n - 48)
         else if 97 \<le> n \<and> n \<le> 102 then Some (n - 87)
         else if 65 \<le> n \<and> n \<le> 70 then Some (n - 55)
         else None)"

text \<open>Four hexadecimal digits, and what follows them.\<close>

fun hex4 :: "string \<Rightarrow> (nat \<times> string) option" where
  "hex4 (a # b # c # d # r) =
     (case (hex_value a, hex_value b, hex_value c, hex_value d) of
        (Some w, Some x, Some y, Some z) \<Rightarrow> Some (((w * 16 + x) * 16 + y) * 16 + z, r)
      | _ \<Rightarrow> None)"
| "hex4 _ = None"

definition utf8_char :: "nat \<Rightarrow> string" where
  "utf8_char n =
     (if n < 0x80 then [char_of n]
      else if n < 0x800 then [char_of (0xC0 + n div 64), char_of (0x80 + n mod 64)]
      else if n < 0x10000 then [char_of (0xE0 + n div 4096), char_of (0x80 + n div 64 mod 64), char_of (0x80 + n mod 64)]
      else [char_of (0xF0 + n div 262144), char_of (0x80 + n div 4096 mod 64), char_of (0x80 + n div 64 mod 64),
            char_of (0x80 + n mod 64)])"

definition high_surrogate :: "nat \<Rightarrow> bool" where "high_surrogate n \<longleftrightarrow> 0xD800 \<le> n \<and> n \<le> 0xDBFF"
definition low_surrogate :: "nat \<Rightarrow> bool" where "low_surrogate n \<longleftrightarrow> 0xDC00 \<le> n \<and> n \<le> 0xDFFF"

text \<open>\<open>_decode_uXXXX\<close>: a high surrogate joins a low one that follows it.\<close>

definition decode_u :: "string \<Rightarrow> (string \<times> string) option" where
  "decode_u s =
     (case hex4 s of
        None \<Rightarrow> None
      | Some (n, r) \<Rightarrow>
          if high_surrogate n \<and> take 2 r = [CHR 0x5C, CHR ''u''] then
            (case hex4 (drop 2 r) of
               None \<Rightarrow> None
             | Some (m, r') \<Rightarrow>
                 if low_surrogate m then Some (utf8_char (0x10000 + (n - 0xD800) * 1024 + (m - 0xDC00)), r')
                 else Some (utf8_char n, r))
          else Some (utf8_char n, r))"

definition simple_escape :: "char \<Rightarrow> char option" where
  "simple_escape c =
     map_of [(CHR 0x22, CHR 0x22), (CHR 0x5C, CHR 0x5C), (CHR ''/'', CHR ''/''), (CHR ''b'', CHR 0x08),
             (CHR ''f'', CHR 0x0C), (CHR ''n'', CHR 0x0A), (CHR ''r'', CHR 0x0D), (CHR ''t'', CHR 0x09)] c"

lemma hex4_length: "hex4 s = Some (n, r) \<Longrightarrow> length r < length s"
  by (induction s rule: hex4.induct) (auto split: option.splits)

lemma decode_u_length: "decode_u s = Some (t, r) \<Longrightarrow> length r < length s"
  by (auto simp: decode_u_def split: option.splits if_splits dest!: hex4_length)

text \<open>\<open>scanstring\<close> after the opening quote, in strict mode: raw control characters are refused.\<close>

function scan_str :: "string \<Rightarrow> (string \<times> string) option" where
  "scan_str [] = None"
| "scan_str (c # cs) =
     (if c = CHR 0x22 then Some ([], cs)
      else if c = CHR 0x5C then
        (case cs of
           [] \<Rightarrow> None
         | e # r \<Rightarrow>
             (if e = CHR ''u'' then
                (case decode_u r of
                   None \<Rightarrow> None
                 | Some (t, r') \<Rightarrow> map_option (\<lambda>(s, q). (t @ s, q)) (scan_str r'))
              else case simple_escape e of
                None \<Rightarrow> None
              | Some x \<Rightarrow> map_option (\<lambda>(s, q). (x # s, q)) (scan_str r)))
      else if (of_char c :: nat) < 32 then None
      else map_option (\<lambda>(s, q). (c # s, q)) (scan_str cs))"
  by pat_completeness auto
termination by (relation "measure length") (auto dest!: decode_u_length)

declare scan_str.simps(2) [simp del]

text \<open>The number regular expression: an integer, unless a fraction or an exponent follows.\<close>

definition scan_frac :: "string \<Rightarrow> string \<times> string" where
  "scan_frac s =
     (case s of
        [] \<Rightarrow> ([], [])
      | c # cs \<Rightarrow> if c = CHR ''.'' \<and> takeWhile is_digit cs \<noteq> [] then (c # takeWhile is_digit cs, dropWhile is_digit cs)
                  else ([], s))"

definition scan_exp :: "string \<Rightarrow> string \<times> string" where
  "scan_exp s =
     (case s of
        [] \<Rightarrow> ([], [])
      | c # cs \<Rightarrow>
          let sign = (if cs \<noteq> [] \<and> hd cs \<in> {CHR ''+'', CHR ''-''} then [hd cs] else []);
              rest = drop (length sign) cs
          in if c \<in> {CHR ''e'', CHR ''E''} \<and> takeWhile is_digit rest \<noteq> []
             then (c # sign @ takeWhile is_digit rest, dropWhile is_digit rest) else ([], s))"

definition scan_digits :: "string \<Rightarrow> (string \<times> string) option" where
  "scan_digits s =
     (case s of
        [] \<Rightarrow> None
      | c # cs \<Rightarrow>
          if c = CHR ''0'' then Some ([c], cs)
          else if is_digit c then Some (takeWhile is_digit s, dropWhile is_digit s) else None)"

definition scan_num :: "(string \<Rightarrow> rat) \<Rightarrow> string \<Rightarrow> (pyval \<times> string) option" where
  "scan_num fo s =
     (let (sign, s1) = (case s of [] \<Rightarrow> ([], []) | c # cs \<Rightarrow> if c = CHR ''-'' then ([c], cs) else ([], s))
      in case scan_digits s1 of
           None \<Rightarrow> None
         | Some (ds, s2) \<Rightarrow>
             let (fraction, s3) = scan_frac s2; (ex, s4) = scan_exp s3; text = sign @ ds
             in if fraction = [] \<and> ex = [] then map_option (\<lambda>i. (VInt i, s4)) (int_of_str text)
                else Some (VFloat (fo (text @ fraction @ ex)), s4))"

text \<open>
  \<open>scan_once\<close>, \<open>JSONArray\<close> and \<open>JSONObject\<close> on the text ahead. The fuel bounds the nesting; \<open>loads_json\<close> passes
  more than any text needs (\<open>scan_fuel\<close>), so running out of it never decides a result.
\<close>

definition literal :: "string \<Rightarrow> (pyval \<times> string) option" where
  "literal s =
     (if take 4 s = ''null'' then Some (VNone, drop 4 s)
      else if take 4 s = ''true'' then Some (VBool True, drop 4 s)
      else if take 5 s = ''false'' then Some (VBool False, drop 5 s)
      else None)"

text \<open>The pairs of an object become a dictionary: a repeated key keeps its first position and takes its last value.\<close>

definition pairs_dict :: "(string \<times> pyval) list \<Rightarrow> (string \<times> pyval) list" where
  "pairs_dict ps = dict_update [] ps"

fun scan_once :: "(string \<Rightarrow> rat) \<Rightarrow> nat \<Rightarrow> string \<Rightarrow> (pyval \<times> string) option"
  and scan_items :: "(string \<Rightarrow> rat) \<Rightarrow> nat \<Rightarrow> string \<Rightarrow> (pyval list \<times> string) option"
  and scan_pairs :: "(string \<Rightarrow> rat) \<Rightarrow> nat \<Rightarrow> string \<Rightarrow> ((string \<times> pyval) list \<times> string) option"
where
  "scan_once fo 0 s = None"
| "scan_once fo (Suc n) s =
     (case s of
        [] \<Rightarrow> None
      | c # cs \<Rightarrow>
          if c = CHR 0x22 then map_option (\<lambda>(t, r). (VStr t, r)) (scan_str cs)
          else if c = CHR ''{'' then
            (case skip_ws cs of
               [] \<Rightarrow> None
             | d # ds \<Rightarrow>
                 if d = CHR ''}'' then Some (VDict [], ds)
                 else map_option (\<lambda>(ps, r). (VDict (pairs_dict ps), r)) (scan_pairs fo n (d # ds)))
          else if c = CHR ''['' then
            (case skip_ws cs of
               [] \<Rightarrow> None
             | d # ds \<Rightarrow>
                 if d = CHR '']'' then Some (VList [], ds)
                 else map_option (\<lambda>(xs, r). (VList xs, r)) (scan_items fo n (d # ds)))
          else case literal s of Some p \<Rightarrow> Some p | None \<Rightarrow> scan_num fo s)"
| "scan_items fo 0 s = None"
| "scan_items fo (Suc n) s =
     (case scan_once fo n s of
        None \<Rightarrow> None
      | Some (x, r) \<Rightarrow>
          (case skip_ws r of
             [] \<Rightarrow> None
           | d # ds \<Rightarrow>
               if d = CHR '']'' then Some ([x], ds)
               else if d = CHR '','' then map_option (\<lambda>(xs, q). (x # xs, q)) (scan_items fo n (skip_ws ds))
               else None))"
| "scan_pairs fo 0 s = None"
| "scan_pairs fo (Suc n) s =
     (case s of
        [] \<Rightarrow> None
      | c # cs \<Rightarrow>
          if c \<noteq> CHR 0x22 then None
          else case scan_str cs of
            None \<Rightarrow> None
          | Some (k, r) \<Rightarrow>
              (case skip_ws r of
                 [] \<Rightarrow> None
               | d # ds \<Rightarrow>
                   if d \<noteq> CHR '':'' then None
                   else case scan_once fo n (skip_ws ds) of
                     None \<Rightarrow> None
                   | Some (v, r') \<Rightarrow>
                       (case skip_ws r' of
                          [] \<Rightarrow> None
                        | e # es \<Rightarrow>
                            if e = CHR ''}'' then Some ([(k, v)], es)
                            else if e = CHR '','' then map_option (\<lambda>(ps, q). ((k, v) # ps, q)) (scan_pairs fo n (skip_ws es))
                            else None)))"

declare scan_once.simps [simp del] scan_items.simps [simp del] scan_pairs.simps [simp del]

definition loads_json :: "(string \<Rightarrow> rat) \<Rightarrow> string \<Rightarrow> pyval option" where
  "loads_json fo s =
     (case scan_once fo (2 * length s + 2) (skip_ws s) of
        None \<Rightarrow> None
      | Some (v, r) \<Rightarrow> if skip_ws r = [] then Some v else None)"

section \<open>Fuel is never the reason for a failure\<close>

lemma scan_str_length: "scan_str s = Some (t, r) \<Longrightarrow> length r < length s"
proof (induction s arbitrary: t r rule: scan_str.induct)
  case 1
  then show ?case by simp
next
  case (2 c cs)
  then show ?case
    by (simp add: scan_str.simps(2) split: if_splits list.splits option.splits prod.splits)
      (fastforce dest!: decode_u_length)+
qed

lemma skip_ws_le: "length (skip_ws s) \<le> length s"
  by (simp add: skip_ws_def length_dropWhile_le)

lemma skip_ws_eq_le: "skip_ws s = t \<Longrightarrow> length t \<le> length s"
  using skip_ws_le by blast

lemma scan_frac_length: "scan_frac s = (f, r) \<Longrightarrow> length r \<le> length s"
  by (auto simp: scan_frac_def le_SucI length_dropWhile_le split: list.splits if_splits)

lemma scan_exp_length: "scan_exp s = (f, r) \<Longrightarrow> length r \<le> length s"
  by (cases s) (auto simp: scan_exp_def Let_def le_SucI split: if_splits
      intro: le_trans [OF length_dropWhile_le])

lemma scan_digits_length: "scan_digits s = Some (d, r) \<Longrightarrow> length r < length s"
  by (cases s) (auto simp: scan_digits_def less_Suc_eq_le length_dropWhile_le split: if_splits)

lemma scan_num_length:
  assumes "scan_num fo s = Some (v, r)" shows "length r < length s"
proof -
  obtain sign s1 where s1: "(case s of [] \<Rightarrow> ([], []) | c # cs \<Rightarrow> if c = CHR ''-'' then ([c], cs) else ([], s)) = (sign, s1)"
    by (meson surj_pair)
  obtain ds s2 where d: "scan_digits s1 = Some (ds, s2)"
    using assms s1 by (auto simp: scan_num_def split: option.splits)
  obtain f s3 e s4 where f: "scan_frac s2 = (f, s3)" "scan_exp s3 = (e, s4)" by (meson surj_pair)
  have "r = s4" using assms s1 d f by (auto simp: scan_num_def Let_def split: if_splits)
  moreover have "length s1 \<le> length s" using s1 by (auto split: list.splits if_splits)
  ultimately show ?thesis
    using scan_digits_length [OF d] scan_frac_length [OF f(1)] scan_exp_length [OF f(2)] by simp
qed

lemma literal_length: "literal s = Some (v, r) \<Longrightarrow> length r < length s"
  by (cases s) (auto simp: literal_def split: if_splits)

lemma scan_once_simps:
  "scan_once fo 0 s = None"
  "scan_once fo (Suc n) [] = None"
  "scan_once fo (Suc n) (CHR 0x22 # cs) = map_option (\<lambda>(t, r). (VStr t, r)) (scan_str cs)"
  "skip_ws cs = [] \<Longrightarrow> scan_once fo (Suc n) (CHR ''{'' # cs) = None"
  "skip_ws cs = d # ds \<Longrightarrow> scan_once fo (Suc n) (CHR ''{'' # cs) =
     (if d = CHR ''}'' then Some (VDict [], ds)
      else map_option (\<lambda>(ps, r). (VDict (pairs_dict ps), r)) (scan_pairs fo n (d # ds)))"
  "skip_ws cs = [] \<Longrightarrow> scan_once fo (Suc n) (CHR ''['' # cs) = None"
  "skip_ws cs = d # ds \<Longrightarrow> scan_once fo (Suc n) (CHR ''['' # cs) =
     (if d = CHR '']'' then Some (VList [], ds) else map_option (\<lambda>(xs, r). (VList xs, r)) (scan_items fo n (d # ds)))"
  "c \<notin> {CHR 0x22, CHR ''{'', CHR ''[''} \<Longrightarrow>
     scan_once fo (Suc n) (c # cs) = (case literal (c # cs) of Some p \<Rightarrow> Some p | None \<Rightarrow> scan_num fo (c # cs))"
  by (simp_all add: scan_once.simps)

text \<open>A value starts with one of the three opening characters, or it is a literal or a number.\<close>

lemma json_head_cases:
  obtains (empty) "s = []"
  | (str) cs where "s = CHR 0x22 # cs"
  | (obj0) cs where "s = CHR ''{'' # cs" "skip_ws cs = []"
  | (obj) cs d ds where "s = CHR ''{'' # cs" "skip_ws cs = d # ds"
  | (arr0) cs where "s = CHR ''['' # cs" "skip_ws cs = []"
  | (arr) cs d ds where "s = CHR ''['' # cs" "skip_ws cs = d # ds"
  | (atom) c cs where "s = c # cs" "c \<notin> {CHR 0x22, CHR ''{'', CHR ''[''}"
proof (cases s)
  case (Cons c cs)
  then show ?thesis using that by (cases "skip_ws cs") blast+
qed (use that in blast)

lemma scan_onceE:
  assumes "scan_once fo n s = Some (v, r)"
  obtains (direct) "length r < length s"
  | (pairs) m d ds c cs ps where "n = Suc m" "s = c # cs" "skip_ws cs = d # ds" "scan_pairs fo m (d # ds) = Some (ps, r)"
  | (items) m d ds c cs xs where "n = Suc m" "s = c # cs" "skip_ws cs = d # ds" "scan_items fo m (d # ds) = Some (xs, r)"
proof (cases n)
  case 0
  then show ?thesis using assms by (simp add: scan_once_simps)
next
  case (Suc m)
  show ?thesis
  proof (cases s rule: json_head_cases)
    case (str cs)
    then show ?thesis using assms Suc direct by (auto simp: scan_once_simps dest: scan_str_length)
  next
    case (obj cs d ds)
    then show ?thesis using assms Suc direct pairs skip_ws_eq_le [OF obj(2)]
      by (auto simp: scan_once_simps split: if_splits)
  next
    case (arr cs d ds)
    then show ?thesis using assms Suc direct items skip_ws_eq_le [OF arr(2)]
      by (auto simp: scan_once_simps split: if_splits)
  next
    case (atom c cs)
    then show ?thesis using assms Suc direct literal_length [of s v r] scan_num_length [of fo s v r]
      by (auto simp: scan_once_simps split: option.splits)
  qed (use assms Suc in \<open>simp_all add: scan_once_simps\<close>)
qed

lemma scan_itemsE:
  assumes "scan_items fo n s = Some (xs, r)"
  obtains m x r1 d ds where "n = Suc m" "scan_once fo m s = Some (x, r1)" "skip_ws r1 = d # ds"
    "r = ds \<or> (\<exists>ys. scan_items fo m (skip_ws ds) = Some (ys, r))"
  using assms by (cases n) (auto simp: scan_items.simps split: option.splits list.splits if_splits)

lemma scan_pairsE:
  assumes "scan_pairs fo n s = Some (ps, r)"
  obtains m c cs k r1 d ds v r2 e es where "n = Suc m" "s = c # cs" "scan_str cs = Some (k, r1)" "skip_ws r1 = d # ds"
    "scan_once fo m (skip_ws ds) = Some (v, r2)" "skip_ws r2 = e # es"
    "r = es \<or> (\<exists>qs. scan_pairs fo m (skip_ws es) = Some (qs, r))"
  using assms by (cases n) (auto simp: scan_pairs.simps split: option.splits list.splits if_splits)

lemma scan_length_step:
  "(\<forall>s v r. scan_once fo n s = Some (v, r) \<longrightarrow> length r < length s) \<and>
   (\<forall>s xs r. scan_items fo n s = Some (xs, r) \<longrightarrow> length r < length s) \<and>
   (\<forall>s ps r. scan_pairs fo n s = Some (ps, r) \<longrightarrow> length r < length s)"
proof (induction n)
  case 0
  then show ?case by (simp add: scan_once.simps scan_items.simps scan_pairs.simps)
next
  case (Suc n)
  have o: "length r < length s" if "scan_once fo n s = Some (v, r)" for s v r using Suc that by blast
  have i: "length r < length s" if "scan_items fo n s = Some (xs, r)" for s xs r using Suc that by blast
  have p: "length r < length s" if "scan_pairs fo n s = Some (ps, r)" for s ps r using Suc that by blast
  have "length r < length s" if h: "scan_once fo (Suc n) s = Some (v, r)" for s v r
    using h
  proof (cases rule: scan_onceE)
    case (pairs m d ds c cs ps)
    then show ?thesis using p [of "d # ds"] skip_ws_eq_le [of cs] by fastforce
  next
    case (items m d ds c cs xs)
    then show ?thesis using i [of "d # ds"] skip_ws_eq_le [of cs] by fastforce
  qed
  moreover have "length r < length s" if h: "scan_items fo (Suc n) s = Some (xs, r)" for s xs r
    using h
  proof (rule scan_itemsE)
    fix m x r1 d ds
    assume a: "Suc n = Suc m" "scan_once fo m s = Some (x, r1)" "skip_ws r1 = d # ds"
      "r = ds \<or> (\<exists>ys. scan_items fo m (skip_ws ds) = Some (ys, r))"
    have "length r \<le> length ds" using a(1,4) i [of "skip_ws ds"] skip_ws_le [of ds] by fastforce
    then show ?thesis using a(1,2) o [of s x r1] skip_ws_eq_le [OF a(3)] by simp
  qed
  moreover have "length r < length s" if h: "scan_pairs fo (Suc n) s = Some (ps, r)" for s ps r
    using h
  proof (rule scan_pairsE)
    fix m c cs k r1 d ds v r2 e es
    assume a: "Suc n = Suc m" "s = c # cs" "scan_str cs = Some (k, r1)" "skip_ws r1 = d # ds"
      "scan_once fo m (skip_ws ds) = Some (v, r2)" "skip_ws r2 = e # es"
      "r = es \<or> (\<exists>qs. scan_pairs fo m (skip_ws es) = Some (qs, r))"
    have "length r \<le> length es" using a(1,7) p [of "skip_ws es"] skip_ws_le [of es] by fastforce
    then show ?thesis
      using a(1,2,5) o [of "skip_ws ds" v r2] skip_ws_eq_le [OF a(4)] skip_ws_eq_le [OF a(6)] scan_str_length [OF a(3)]
        skip_ws_le [of ds] by simp
  qed
  ultimately show ?case by blast
qed

lemmas scan_length =
  scan_length_step [THEN conjunct1, rule_format]
  scan_length_step [THEN conjunct2, THEN conjunct1, rule_format]
  scan_length_step [THEN conjunct2, THEN conjunct2, rule_format]

lemma scan_once_cong:
  assumes "\<And>c cs d ds. s = c # cs \<Longrightarrow> skip_ws cs = d # ds \<Longrightarrow>
      scan_pairs fo m (d # ds) = scan_pairs fo n (d # ds) \<and> scan_items fo m (d # ds) = scan_items fo n (d # ds)"
  shows "scan_once fo (Suc m) s = scan_once fo (Suc n) s"
  by (cases s rule: json_head_cases) (simp_all add: scan_once_simps assms)

lemma scan_items_cong:
  assumes o: "scan_once fo m s = scan_once fo n s"
    and i: "\<And>x r d ds. scan_once fo n s = Some (x, r) \<Longrightarrow> skip_ws r = d # ds \<Longrightarrow>
      scan_items fo m (skip_ws ds) = scan_items fo n (skip_ws ds)"
  shows "scan_items fo (Suc m) s = scan_items fo (Suc n) s"
proof (cases "scan_once fo n s")
  case (Some p)
  obtain x r where p: "p = (x, r)" by (cases p)
  show ?thesis
    using Some p o i [of x r] by (cases "skip_ws r") (simp_all add: scan_items.simps)
qed (simp add: scan_items.simps o)

lemma scan_pairs_cong:
  assumes h: "\<And>c cs k r d ds. s = c # cs \<Longrightarrow> scan_str cs = Some (k, r) \<Longrightarrow> skip_ws r = d # ds \<Longrightarrow>
      scan_once fo m (skip_ws ds) = scan_once fo n (skip_ws ds) \<and>
      (\<forall>v r2 e es. scan_once fo n (skip_ws ds) = Some (v, r2) \<longrightarrow> skip_ws r2 = e # es \<longrightarrow>
         scan_pairs fo m (skip_ws es) = scan_pairs fo n (skip_ws es))"
  shows "scan_pairs fo (Suc m) s = scan_pairs fo (Suc n) s"
proof (cases s)
  case s: (Cons c cs)
  show ?thesis
  proof (cases "scan_str cs")
    case (Some p)
    obtain k r where p: "p = (k, r)" by (cases p)
    show ?thesis
    proof (cases "skip_ws r")
      case (Cons d ds)
      note e = h [OF s Some [unfolded p] Cons]
      show ?thesis
      proof (cases "scan_once fo n (skip_ws ds)")
        case (Some q)
        obtain v r2 where q: "q = (v, r2)" by (cases q)
        show ?thesis
          using \<open>scan_str cs = Some p\<close> p s Cons Some q e by (cases "skip_ws r2") (simp_all add: scan_pairs.simps)
      qed (use \<open>scan_str cs = Some p\<close> p s Cons e in \<open>simp add: scan_pairs.simps\<close>)
    qed (use \<open>scan_str cs = Some p\<close> p s in \<open>simp add: scan_pairs.simps\<close>)
  qed (use s in \<open>simp add: scan_pairs.simps\<close>)
qed (simp add: scan_pairs.simps)

lemma scan_fuel_step:
  "(\<forall>s. 2 * length s < n \<longrightarrow> scan_once fo (Suc n) s = scan_once fo n s) \<and>
   (\<forall>s. 2 * length s + 1 < n \<longrightarrow> scan_items fo (Suc n) s = scan_items fo n s) \<and>
   (\<forall>s. 2 * length s + 1 < n \<longrightarrow> scan_pairs fo (Suc n) s = scan_pairs fo n s)"
proof (induction n)
  case 0
  then show ?case by simp
next
  case (Suc n)
  have o: "scan_once fo (Suc n) s = scan_once fo n s" if "2 * length s < n" for s using Suc that by blast
  have i: "scan_items fo (Suc n) s = scan_items fo n s" if "2 * length s + 1 < n" for s using Suc that by blast
  have p: "scan_pairs fo (Suc n) s = scan_pairs fo n s" if "2 * length s + 1 < n" for s using Suc that by blast
  have "scan_once fo (Suc (Suc n)) s = scan_once fo (Suc n) s" if h: "2 * length s < Suc n" for s
  proof (rule scan_once_cong)
    fix c cs d ds
    assume "s = c # cs" "skip_ws cs = d # ds"
    then have "2 * length (d # ds) + 1 < n" using h skip_ws_eq_le [of cs "d # ds"] by simp
    then show "scan_pairs fo (Suc n) (d # ds) = scan_pairs fo n (d # ds) \<and> scan_items fo (Suc n) (d # ds) = scan_items fo n (d # ds)"
      using p i by blast
  qed
  moreover have "scan_items fo (Suc (Suc n)) s = scan_items fo (Suc n) s" if h: "2 * length s + 1 < Suc n" for s
  proof (rule scan_items_cong)
    show "scan_once fo (Suc n) s = scan_once fo n s" using h by (intro o) simp
    fix x r d ds
    assume a: "scan_once fo n s = Some (x, r)" "skip_ws r = d # ds"
    have "2 * length (skip_ws ds) + 1 < n"
      using h scan_length(1) [OF a(1)] skip_ws_eq_le [OF a(2)] skip_ws_le [of ds] by simp
    then show "scan_items fo (Suc n) (skip_ws ds) = scan_items fo n (skip_ws ds)" by (rule i)
  qed
  moreover have "scan_pairs fo (Suc (Suc n)) s = scan_pairs fo (Suc n) s" if h: "2 * length s + 1 < Suc n" for s
  proof (rule scan_pairs_cong, intro conjI allI impI)
    fix c cs k r d ds
    assume a: "s = c # cs" "scan_str cs = Some (k, r)" "skip_ws r = d # ds"
    have l: "2 * length (skip_ws ds) + 3 < n"
      using h a(1) scan_str_length [OF a(2)] skip_ws_eq_le [OF a(3)] skip_ws_le [of ds] by simp
    then show "scan_once fo (Suc n) (skip_ws ds) = scan_once fo n (skip_ws ds)" by (intro o) simp
    fix v r2 e es
    assume b: "scan_once fo n (skip_ws ds) = Some (v, r2)" "skip_ws r2 = e # es"
    have "2 * length (skip_ws es) + 1 < n"
      using l scan_length(1) [OF b(1)] skip_ws_eq_le [OF b(2)] skip_ws_le [of es] by simp
    then show "scan_pairs fo (Suc n) (skip_ws es) = scan_pairs fo n (skip_ws es)" by (rule p)
  qed
  ultimately show ?case by blast
qed

lemma scan_fuel: "2 * length s < n \<Longrightarrow> scan_once fo (n + k) s = scan_once fo n s"
  by (induction k) (simp_all add: scan_fuel_step [THEN conjunct1, rule_format])

text \<open>Every larger amount of fuel gives the same result of \<open>loads\<close>.\<close>

lemma loads_json_fuel:
  "loads_json fo s =
     (case scan_once fo (2 * length s + 2 + k) (skip_ws s) of
        None \<Rightarrow> None
      | Some (v, r) \<Rightarrow> if skip_ws r = [] then Some v else None)"
proof -
  have "2 * length (skip_ws s) < 2 * length s + 2" using skip_ws_le [of s] by simp
  from scan_fuel [OF this, of fo k] show ?thesis by (simp add: loads_json_def)
qed

section \<open>Decoding what was encoded\<close>

text \<open>The values JSON keeps exactly: no floats, and dictionaries with distinct keys.\<close>

fun json_plain :: "pyval \<Rightarrow> bool" where
  "json_plain (VFloat r) = False"
| "json_plain (VList xs) = list_all json_plain xs"
| "json_plain (VDict d) = (dict_ok d \<and> list_all (\<lambda>(k, v). json_plain v) d)"
| "json_plain _ = True"

lemma json_hex_value_digit [simp]: "n < 16 \<Longrightarrow> hex_value (hex_digit n) = Some n"
  by (simp add: hex_value_def hex_digit_def Let_def)

lemma hex4_control:
  "n < 32 \<Longrightarrow> hex4 (CHR ''0'' # CHR ''0'' # hex_digit (n div 16) # hex_digit (n mod 16) # r) = Some (n, r)"
proof -
  assume "n < 32"
  moreover have "hex_value (CHR ''0'') = Some 0" by (simp add: hex_value_def)
  ultimately show ?thesis by simp
qed

lemma decode_u_control:
  "n < 32 \<Longrightarrow> decode_u (CHR ''0'' # CHR ''0'' # hex_digit (n div 16) # hex_digit (n mod 16) # r) = Some ([char_of n], r)"
  by (simp add: decode_u_def hex4_control high_surrogate_def utf8_char_def del: hex4.simps)

lemma escaped_chars:
  "char_of (34 :: nat) = CHR 0x22" "char_of (92 :: nat) = CHR 0x5C" "char_of (10 :: nat) = CHR 0x0A"
  "char_of (13 :: nat) = CHR 0x0D" "char_of (9 :: nat) = CHR 0x09" "char_of (12 :: nat) = CHR 0x0C" "char_of (8 :: nat) = CHR 0x08"
  by code_simp+

lemma scan_str_escape_char:
  "scan_str (escape_char c @ s) = map_option (\<lambda>(t, q). (c # t, q)) (scan_str s)"
proof -
  define n where "n = (of_char c :: nat)"
  have c: "c = char_of n" by (simp add: n_def)
  have eqs: "(CHR 0x22 = c) = (n = 34)" "(CHR 0x5C = c) = (n = 92)" "(c = CHR 0x22) = (n = 34)" "(c = CHR 0x5C) = (n = 92)"
    using of_char_eq_iff [of c "CHR 0x22", where 'a = nat] of_char_eq_iff [of c "CHR 0x5C", where 'a = nat]
    by (auto simp: n_def)
  consider "n \<in> {34, 92, 10, 13, 9, 12, 8}" | "n < 32" "n \<notin> {34, 92, 10, 13, 9, 12, 8}" | "32 \<le> n" "n \<notin> {34, 92}"
    by (cases "n \<in> {34, 92, 10, 13, 9, 12, 8}"; cases "n < 32") auto
  then show ?thesis
  proof cases
    case 1
    then show ?thesis
      unfolding c by (elim insertE emptyE) (simp_all add: escape_char_def scan_str.simps simple_escape_def escaped_chars)
  next
    case 2
    then have e: "escape_char c = [CHR 0x5C, CHR ''u'', CHR ''0'', CHR ''0'', hex_digit (n div 16), hex_digit (n mod 16)]"
      unfolding escape_char_def by (simp add: n_def [symmetric])
    show ?thesis
      using 2 unfolding e by (simp add: scan_str.simps(2) decode_u_control) (simp add: c)
  next
    case 3
    then show ?thesis
      unfolding escape_char_def by (simp add: n_def [symmetric] scan_str.simps(2) eqs)
  qed
qed

lemma scan_str_quote: "scan_str (concat (map escape_char s) @ CHR 0x22 # r) = Some (s, r)"
  by (induction s) (simp_all add: scan_str.simps(2) scan_str_escape_char)

definition num_end :: "string \<Rightarrow> bool" where
  "num_end r \<longleftrightarrow> r = [] \<or> hd r \<notin> {CHR ''.'', CHR ''e'', CHR ''E''} \<and> \<not> is_digit (hd r)"

lemma num_end_simps [simp]:
  "num_end []" "num_end (CHR '','' # r)" "num_end (CHR '']'' # r)" "num_end (CHR ''}'' # r)"
  by (simp_all add: num_end_def is_digit_def)

lemma nat_to_str_head: "nat_to_str n = CHR ''0'' # ds \<Longrightarrow> ds = [] \<and> n = 0"
proof (induction n arbitrary: ds rule: nat_to_str.induct)
  case (1 n)
  show ?case
  proof (cases "n < 10")
    case True
    then have "digit_char n = CHR ''0''" "ds = []" using "1.prems" by (auto simp: nat_to_str.simps [of n])
    moreover from this have "48 + n = (48 :: nat)" using of_char_digit_char [OF True] by simp
    ultimately show ?thesis by simp
  next
    case False
    then obtain es where "nat_to_str (n div 10) = CHR ''0'' # es"
      using "1.prems" by (cases "nat_to_str (n div 10)") (auto simp: nat_to_str.simps [of n])
    from "1.IH" [OF False this] False show ?thesis by (simp add: div_eq_0_iff)
  qed
qed

lemma scan_digits_nat:
  assumes "num_end r"
  shows "scan_digits (nat_to_str n @ r) = Some (nat_to_str n, r)"
proof -
  obtain c cs where s: "nat_to_str n = c # cs" by (cases "nat_to_str n") auto
  have d: "is_digit x" if "x \<in> set (c # cs)" for x using that s nat_to_str_digits [of x n] by simp
  have r: "takeWhile is_digit r = []" "dropWhile is_digit r = r" using assms by (cases r; auto simp: num_end_def)+
  have "takeWhile is_digit ((c # cs) @ r) = c # cs" "dropWhile is_digit ((c # cs) @ r) = r"
    using d r by (simp_all only: takeWhile_append2 dropWhile_append2) simp
  then show ?thesis
    using d nat_to_str_head [of n cs] s by (auto simp: scan_digits_def)
qed

lemma scan_num_int:
  assumes "num_end r"
  shows "scan_num fo (int_to_str i @ r) = Some (VInt i, r)"
proof -
  obtain c cs where s: "nat_to_str (nat i) = c # cs" by (cases "nat_to_str (nat i)") auto
  have "is_digit c" using s nat_to_str_digits [of c "nat i"] by simp
  then have c: "c \<noteq> CHR ''-''" by auto
  have f: "scan_frac r = ([], r)" "scan_exp r = ([], r)"
    using assms by (auto simp: scan_frac_def scan_exp_def num_end_def Let_def split: list.splits)
  have t: "int_of_str (CHR ''-'' # nat_to_str (nat (- i))) = Some i" if "i < 0"
    using int_of_str_to_str [of i] that by (simp add: int_to_str_def)
  have u: "int_of_str (nat_to_str (nat i)) = Some i" if "\<not> i < 0"
    using int_of_str_to_str [of i] that by (simp add: int_to_str_def)
  show ?thesis
    using f t u c scan_digits_nat [OF assms, of "nat (- i)"] scan_digits_nat [OF assms, of "nat i"]
    by (cases "i < 0") (simp_all add: scan_num_def int_to_str_def s)
qed

text \<open>The first character of an encoded value decides how it is read.\<close>

lemma digit_head:
  assumes "is_digit c \<or> c = CHR ''-''"
  shows "c \<notin> {CHR 0x22, CHR ''{'', CHR ''['', CHR '']'', CHR ''}'', CHR ''n'', CHR ''t'', CHR ''f''}" "\<not> json_ws c"
  using assms by (auto simp: is_digit_def json_ws_def)

lemma int_to_str_head: "\<exists>c cs. int_to_str i = c # cs \<and> (is_digit c \<or> c = CHR ''-'')"
proof -
  obtain c cs where s: "nat_to_str (nat i) = c # cs" by (cases "nat_to_str (nat i)") auto
  then have "is_digit c" using nat_to_str_digits [of c "nat i"] by simp
  with s show ?thesis by (auto simp: int_to_str_def)
qed

lemma dumps_head:
  assumes "json_plain v"
  shows "\<exists>c cs. dumps_json fr v = c # cs \<and> \<not> json_ws c \<and> c \<noteq> CHR '']''"
proof (cases v)
  case (VInt i)
  obtain c cs where "int_to_str i = c # cs" "is_digit c \<or> c = CHR ''-''" using int_to_str_head by blast
  with VInt show ?thesis using digit_head [of c] by simp
qed (use assms in \<open>auto simp: json_ws_def quote_str_def\<close>)

lemma skip_ws_dumps: "json_plain v \<Longrightarrow> skip_ws (dumps_json fr v @ r) = dumps_json fr v @ r"
  using dumps_head [of v fr] by (auto simp: skip_ws_def)

lemma skip_ws_sep [simp]:
  "skip_ws (CHR '','' # r) = CHR '','' # r" "skip_ws (CHR '']'' # r) = CHR '']'' # r" "skip_ws (CHR ''}'' # r) = CHR ''}'' # r"
  "skip_ws (CHR '':'' # r) = CHR '':'' # r" "skip_ws (CHR 0x22 # r) = CHR 0x22 # r"
  by (simp_all add: skip_ws_def json_ws_def)

lemma dumps_nonempty: "json_plain v \<Longrightarrow> dumps_json fr v \<noteq> []"
  using dumps_head [of v fr] by auto

definition reads_back :: "(rat \<Rightarrow> string) \<Rightarrow> (string \<Rightarrow> rat) \<Rightarrow> pyval \<Rightarrow> bool" where
  "reads_back fr fo v \<longleftrightarrow> (\<forall>n r. length (dumps_json fr v) \<le> n \<longrightarrow> num_end r \<longrightarrow>
     scan_once fo n (dumps_json fr v @ r) = Some (v, r))"

lemma reads_backD:
  "reads_back fr fo v \<Longrightarrow> length (dumps_json fr v) \<le> n \<Longrightarrow> num_end r \<Longrightarrow> scan_once fo n (dumps_json fr v @ r) = Some (v, r)"
  by (simp add: reads_back_def)

lemma scan_items_dumps:
  assumes "xs \<noteq> []" "\<forall>x \<in> set xs. json_plain x \<and> reads_back fr fo x"
    and "length (join_with '','' (map (dumps_json fr) xs)) < n"
  shows "scan_items fo n (join_with '','' (map (dumps_json fr) xs) @ CHR '']'' # r) = Some (xs, r)"
  using assms
proof (induction xs arbitrary: n rule: list_nonempty_induct)
  case (single x)
  then obtain m where "n = Suc m" by (cases n) auto
  with single show ?case by (simp add: scan_items.simps reads_backD)
next
  case (cons x xs)
  then obtain m where m: "n = Suc m" by (cases n) auto
  obtain y ys where ys: "xs = y # ys" using cons.hyps by (cases xs) auto
  define rest where "rest = join_with '','' (map (dumps_json fr) xs)"
  have j: "join_with '','' (map (dumps_json fr) (x # xs)) = dumps_json fr x @ CHR '','' # rest"
    using ys by (simp add: rest_def)
  have l: "length (dumps_json fr x) \<le> m" "length rest < m"
    using cons.prems(2) dumps_nonempty [of x fr] cons.prems(1) unfolding j m by (cases "dumps_json fr x"; simp)+
  have w: "skip_ws (rest @ CHR '']'' # r) = rest @ CHR '']'' # r"
    using cons.prems(1) ys skip_ws_dumps [of y fr] by (cases ys) (auto simp: rest_def)
  have "scan_items fo m (rest @ CHR '']'' # r) = Some (xs, r)"
    unfolding rest_def by (rule cons.IH) (use cons.prems l in \<open>auto simp: rest_def\<close>)
  then show ?case
    using reads_backD [of fr fo x m "CHR '','' # rest @ CHR '']'' # r"] cons.prems(1) l w
    unfolding j m by (simp add: scan_items.simps)
qed

lemma scan_pairs_dumps:
  assumes "d \<noteq> []" "\<forall>(k, v) \<in> set d. json_plain v \<and> reads_back fr fo v"
    and "length (join_with '','' (map (\<lambda>(k, v). quote_str k @ CHR '':'' # dumps_json fr v) d)) < n"
  shows "scan_pairs fo n (join_with '','' (map (\<lambda>(k, v). quote_str k @ CHR '':'' # dumps_json fr v) d) @ CHR ''}'' # r) = Some (d, r)"
  using assms
proof (induction d arbitrary: n rule: list_nonempty_induct)
  case (single p)
  obtain k v where p: "p = (k, v)" by (cases p)
  obtain m where "n = Suc m" using single by (cases n) auto
  with single p show ?case
    by (simp add: scan_pairs.simps quote_str_def scan_str_quote skip_ws_dumps reads_backD)
next
  case (cons p d)
  obtain k v where p: "p = (k, v)" by (cases p)
  obtain m where m: "n = Suc m" using cons.prems by (cases n) auto
  obtain q e where e: "d = q # e" using cons.hyps by (cases d) auto
  define rest where "rest = join_with '','' (map (\<lambda>(k, v). quote_str k @ CHR '':'' # dumps_json fr v) d)"
  have j: "join_with '','' (map (\<lambda>(k, v). quote_str k @ CHR '':'' # dumps_json fr v) (p # d)) =
      quote_str k @ CHR '':'' # dumps_json fr v @ CHR '','' # rest"
    using e p by (simp add: rest_def)
  have l: "length (dumps_json fr v) \<le> m" "length rest < m"
    using cons.prems(2) unfolding j m by simp_all
  have w: "skip_ws (rest @ CHR ''}'' # r) = rest @ CHR ''}'' # r"
    using e by (cases e) (auto simp: rest_def quote_str_def split: prod.splits)
  have "scan_pairs fo m (rest @ CHR ''}'' # r) = Some (d, r)"
    unfolding rest_def by (rule cons.IH) (use cons.prems l in \<open>auto simp: rest_def\<close>)
  then show ?case
    using reads_backD [of fr fo v m "CHR '','' # rest @ CHR ''}'' # r"] cons.prems(1) l w
    unfolding j m by (simp add: p scan_pairs.simps quote_str_def scan_str_quote skip_ws_dumps)
qed

lemma dict_update_fresh:
  "dict_ok (d @ e) \<Longrightarrow> dict_update d e = d @ e"
proof (induction e arbitrary: d)
  case (Cons p e)
  obtain k v where p: "p = (k, v)" by (cases p)
  have "dict_set k v d = d @ [(k, v)]"
    using Cons.prems by (auto simp: p update_conv' intro!: update_nonempty) (induction d; auto)
  then show ?case using Cons by (simp add: dict_update_def p)
qed (simp add: dict_update_def)

lemma pairs_dict_id: "dict_ok d \<Longrightarrow> pairs_dict d = d"
  using dict_update_fresh [of "[]" d] by (simp add: pairs_dict_def)

lemma dumps_reads_back: "json_plain v \<Longrightarrow> reads_back fr fo v"
proof (induction v)
  case VNone
  then show ?case by (auto simp: reads_back_def literal_def scan_once_simps dest!: Suc_le_D)
next
  case (VBool b)
  then show ?case by (auto simp: reads_back_def literal_def scan_once_simps dest!: Suc_le_D)
next
  case (VInt i)
  obtain c cs where c: "int_to_str i = c # cs" "is_digit c \<or> c = CHR ''-''" using int_to_str_head by blast
  have "literal (c # cs @ r) = None" for r using digit_head(1) [OF c(2)] by (simp add: literal_def)
  then show ?case
    using scan_num_int [of _ fo i] digit_head(1) [OF c(2)]
    by (auto simp: reads_back_def scan_once_simps c(1) dest!: Suc_le_D)
next
  case (VFloat r)
  then show ?case by simp
next
  case (VStr s)
  then show ?case
    by (auto simp: reads_back_def quote_str_def scan_once_simps scan_str_quote dest!: Suc_le_D)
next
  case (VList xs)
  have h: "\<forall>x \<in> set xs. json_plain x \<and> reads_back fr fo x" using VList by (auto simp: list_all_iff)
  show ?case unfolding reads_back_def
  proof (intro allI impI)
    fix n r
    assume n: "length (dumps_json fr (VList xs)) \<le> n"
    then obtain m where m: "n = Suc m" by (auto dest!: Suc_le_D)
    show "scan_once fo n (dumps_json fr (VList xs) @ r) = Some (VList xs, r)"
    proof (cases xs)
      case (Cons x ys)
      let ?b = "join_with '','' (map (dumps_json fr) xs)"
      obtain c cs where c: "dumps_json fr x = c # cs" "\<not> json_ws c" "c \<noteq> CHR '']''"
        using dumps_head [of x fr] h Cons by auto
      obtain cs' where b: "?b @ CHR '']'' # r = c # cs'" using c Cons by (cases ys) auto
      have "scan_items fo m (?b @ CHR '']'' # r) = Some (xs, r)"
        by (rule scan_items_dumps [OF _ h]) (use Cons n m in auto)
      moreover have "skip_ws (?b @ CHR '']'' # r) = ?b @ CHR '']'' # r" using c by (simp add: b skip_ws_def)
      ultimately show ?thesis using c by (simp add: m scan_once_simps(7) b)
    qed (simp add: m scan_once_simps)
  qed
next
  case (VDict d)
  have h: "\<forall>(k, v) \<in> set d. json_plain v \<and> reads_back fr fo v" and ok: "dict_ok d"
    using VDict by (auto simp: list_all_iff)
  show ?case unfolding reads_back_def
  proof (intro allI impI)
    fix n r
    assume n: "length (dumps_json fr (VDict d)) \<le> n"
    then obtain m where m: "n = Suc m" by (auto dest!: Suc_le_D)
    show "scan_once fo n (dumps_json fr (VDict d) @ r) = Some (VDict d, r)"
    proof (cases d)
      case (Cons p e)
      let ?b = "join_with '','' (map (\<lambda>(k, v). quote_str k @ CHR '':'' # dumps_json fr v) d)"
      obtain cs' where b: "?b @ CHR ''}'' # r = CHR 0x22 # cs'"
        using Cons by (cases p; cases e) (auto simp: quote_str_def)
      have "scan_pairs fo m (?b @ CHR ''}'' # r) = Some (d, r)"
        by (rule scan_pairs_dumps [OF _ h]) (use Cons n m in auto)
      then show ?thesis by (simp add: m scan_once_simps(5) b pairs_dict_id [OF ok])
    qed (simp add: m scan_once_simps)
  qed
qed

lemma loads_dumps: "json_plain v \<Longrightarrow> loads_json fo (dumps_json fr v) = Some v"
  using reads_backD [OF dumps_reads_back, of v fr "2 * length (dumps_json fr v) + 2" "[]" fo] skip_ws_dumps [of v fr "[]"]
  by (simp add: loads_json_def skip_ws_def)

end
