(* ===== verification/SecretsCipher.thy ===== *)
theory SecretsCipher
  imports Seal PyJson
begin

text \<open>
  \<open>app/persistence/cipher.py\<close>: encryption at rest of credential documents. The document is printed as JSON,
  sealed with AES-GCM under a key derived from the deployment's master secret, and bound to its row by the
  associated data. HMAC-SHA256, the AES-GCM package of \<open>aesgcm.py\<close>'s dispatch, the text of floats and the
  decoding of UTF-16 and UTF-32 are parameters; the nonce drawn by \<open>os.urandom\<close> is an argument.
\<close>

section \<open>UTF-8\<close>

definition is_cont :: "char \<Rightarrow> bool" where
  "is_cont c \<longleftrightarrow> (let n = of_char c :: nat in 0x80 \<le> n \<and> n < 0xC0)"

text \<open>The number of continuation bytes a lead byte announces.\<close>

definition lead_tail :: "char \<Rightarrow> nat option" where
  "lead_tail c =
     (let n = of_char c :: nat
      in if n < 0x80 then Some 0
         else if 0xC2 \<le> n \<and> n \<le> 0xDF then Some 1
         else if 0xE0 \<le> n \<and> n \<le> 0xEF then Some 2
         else if 0xF0 \<le> n \<and> n \<le> 0xF4 then Some 3
         else None)"

text \<open>Overlong forms and code points beyond U+10FFFF are refused, surrogates unless \<open>surrogatepass\<close> is given.\<close>

definition second_ok :: "bool \<Rightarrow> char \<Rightarrow> string \<Rightarrow> bool" where
  "second_ok surrogates c cs =
     (let n = (of_char c :: nat); m = (case cs of [] \<Rightarrow> 0 | d # _ \<Rightarrow> (of_char d :: nat))
      in if n = 0xE0 then 0xA0 \<le> m
         else if n = 0xED then surrogates \<or> m < 0xA0
         else if n = 0xF0 then 0x90 \<le> m
         else if n = 0xF4 then m < 0x90
         else True)"

function utf8_ok :: "bool \<Rightarrow> string \<Rightarrow> bool" where
  "utf8_ok surrogates [] = True"
| "utf8_ok surrogates (c # cs) =
     (case lead_tail c of
        None \<Rightarrow> False
      | Some k \<Rightarrow> k \<le> length cs \<and> list_all is_cont (take k cs) \<and> second_ok surrogates c cs \<and> utf8_ok surrogates (drop k cs))"
  by pat_completeness auto
termination by (relation "measure (\<lambda>(s, cs). length cs)") auto

section \<open>The cipher\<close>

datatype cipher_error =
    CipherError string
  | CipherCrypto crypto_error
  | CipherRaised py_error

record cipher_env =
  ce_aes :: "aes_gcm_lib option"
  ce_float_repr :: "rat \<Rightarrow> string"
  ce_float :: "string \<Rightarrow> rat"
  ce_wide_decode :: "bytes \<Rightarrow> string option"

definition KEY_INFO :: bytes where
  "KEY_INFO = utf8 ''zagros/db-credentials/v1''"

definition CIPHER_PREFIX :: string where
  "CIPHER_PREFIX = ''v1:''"

text \<open>\<open>_hkdf_sha256\<close> repeats the loop of \<open>seal.py\<close>.\<close>

definition cipher_hkdf_sha256 :: "(bytes \<Rightarrow> bytes \<Rightarrow> bytes) \<Rightarrow> bytes \<Rightarrow> bytes \<Rightarrow> nat \<Rightarrow> crypto_error + bytes" where
  "cipher_hkdf_sha256 hmac ikm info len = hkdf_loop hmac (hmac (replicate 32 0) ikm) info len [] [] 1"

definition derive_key :: "(bytes \<Rightarrow> bytes \<Rightarrow> bytes) \<Rightarrow> bytes \<Rightarrow> bytes \<Rightarrow> cipher_error + bytes" where
  "derive_key hmac master_secret info =
     (if length master_secret < 16
      then Inl (CipherError ''master secret must be at least 16 bytes (set ZAGROS_SECRET_KEY)'')
      else map_sum CipherCrypto id (cipher_hkdf_sha256 hmac master_secret info 32))"

definition secrets_cipher :: "bytes \<Rightarrow> cipher_error + bytes" where
  "secrets_cipher key =
     (if length key \<noteq> 32 then Inl (CipherError ''data key must be 32 bytes (see derive_key)'') else Inr key)"

definition from_master_secret :: "(bytes \<Rightarrow> bytes \<Rightarrow> bytes) \<Rightarrow> bytes \<Rightarrow> cipher_error + bytes" where
  "from_master_secret hmac master_secret = rbind (derive_key hmac master_secret KEY_INFO) secrets_cipher"

text \<open>\<open>base64.b64encode\<close> and \<open>b64decode\<close> use \<open>+/\<close> where the URL-safe alphabet has \<open>-_\<close>, which the decoder skips.\<close>

definition std_char :: "char \<Rightarrow> char" where
  "std_char c = (if c = CHR ''-'' then CHR ''+'' else if c = CHR ''_'' then CHR ''/'' else c)"

definition b64encode :: "bytes \<Rightarrow> string" where
  "b64encode data = map std_char (b64_groups data)"

definition b64decode :: "string \<Rightarrow> bytes option" where
  "b64decode s = a2b 0 0 0 (filter (\<lambda>c. c \<noteq> CHR ''-'' \<and> c \<noteq> CHR ''_'') s)"

definition encode_strict :: "string \<Rightarrow> cipher_error + bytes" where
  "encode_strict s = (if utf8_ok False s then Inr (utf8 s) else Inl (CipherRaised ValueError))"

definition encrypt_json :: "cipher_env \<Rightarrow> bytes \<Rightarrow> bytes \<Rightarrow> (string \<times> pyval) list \<Rightarrow> string \<Rightarrow> cipher_error + string" where
  "encrypt_json env key nonce value aad =
     rbind (encode_strict (dumps_json (ce_float_repr env) (VDict value))) (\<lambda>plaintext.
     rbind (encode_strict aad) (\<lambda>bound.
     rbind (map_sum CipherCrypto id (aes_gcm_encrypt (ce_aes env) key nonce plaintext bound)) (\<lambda>ct.
       Inr (CIPHER_PREFIX @ b64encode (nonce @ ct)))))"

text \<open>\<open>json.loads\<close> on bytes looks at the first bytes to guess the encoding; a byte order mark or NUL bytes mean UTF-16 or UTF-32.\<close>

definition wide_encoding :: "bytes \<Rightarrow> bool" where
  "wide_encoding b \<longleftrightarrow>
     take 4 b \<in> {[0, 0, 0xFE, 0xFF], [0xFF, 0xFE, 0, 0]} \<or> take 2 b \<in> {[0xFE, 0xFF], [0xFF, 0xFE]} \<or>
     take 3 b \<noteq> [0xEF, 0xBB, 0xBF] \<and>
       (length b \<ge> 4 \<and> (b ! 0 = 0 \<or> b ! 1 = 0) \<or> length b = 2 \<and> (b ! 0 = 0 \<or> b ! 1 = 0))"

definition decode_json_bytes :: "cipher_env \<Rightarrow> bytes \<Rightarrow> string option" where
  "decode_json_bytes env b =
     (if wide_encoding b then ce_wide_decode env b
      else let text = map (\<lambda>x. char_of (unat x)) (if take 3 b = [0xEF, 0xBB, 0xBF] then drop 3 b else b)
           in if utf8_ok True text then Some text else None)"

definition parse_credentials :: "cipher_env \<Rightarrow> bytes \<Rightarrow> cipher_error + (string \<times> pyval) list" where
  "parse_credentials env plaintext =
     (case decode_json_bytes env plaintext of
        None \<Rightarrow> Inl (CipherRaised ValueError)
      | Some text \<Rightarrow>
          (case loads_json (ce_float env) text of
             None \<Rightarrow> Inl (CipherError ''credentials payload is not JSON'')
           | Some v \<Rightarrow>
               (case v of VDict d \<Rightarrow> Inr d | _ \<Rightarrow> Inl (CipherError ''credentials payload must be a JSON object''))))"

definition decrypt_json :: "cipher_env \<Rightarrow> bytes \<Rightarrow> string \<Rightarrow> string \<Rightarrow> cipher_error + (string \<times> pyval) list" where
  "decrypt_json env key blob aad =
     (if take (length CIPHER_PREFIX) blob \<noteq> CIPHER_PREFIX
      then Inl (CipherError ''unknown credentials format (missing v1 prefix)'')
      else case b64decode (drop (length CIPHER_PREFIX) blob) of
        None \<Rightarrow> Inl (CipherRaised ValueError)
      | Some raw \<Rightarrow>
          rbind (encode_strict aad) (\<lambda>bound.
          case aes_gcm_decrypt (ce_aes env) key (take 12 raw) (drop 12 raw) bound of
            Inl (AesGcmError _) \<Rightarrow> Inl (CipherError ''credentials failed authentication (wrong key or tampered/swapped row)'')
          | Inl e \<Rightarrow> Inl (CipherCrypto e)
          | Inr plaintext \<Rightarrow> parse_credentials env plaintext))"

section \<open>Standard base64\<close>

lemma a2b_std: "a2b quad left pads (map std_char s) = a2b quad left pads s"
proof (induction s arbitrary: quad left pads)
  case (Cons c s)
  have "std_char c = CHR ''='' \<longleftrightarrow> c = CHR ''=''" "b64_index (std_char c) = b64_index c"
    by (auto simp: std_char_def b64_index_def)
  then show ?case by (simp add: Cons cong: option.case_cong if_cong)
qed simp

lemma std_filter: "filter (\<lambda>c. c \<noteq> CHR ''-'' \<and> c \<noteq> CHR ''_'') (map std_char s) = map std_char s"
  by (induction s) (auto simp: std_char_def)

lemma a2b_b64_groups: "a2b 0 0 0 (b64_groups data) = Some data"
proof (induction data rule: b64_groups.induct)
  case (1 a b c rest)
  then show ?case by (simp add: Let_def a2b_group3 del: a2b.simps)
next
  case (2 a b)
  show ?case using a2b_group2 [of a b] by (simp add: Let_def del: a2b.simps)
next
  case (3 a)
  show ?case using a2b_group1 [of a] by (simp add: Let_def del: a2b.simps)
qed simp

lemma b64decode_encode: "b64decode (b64encode data) = Some data"
  by (simp add: b64decode_def b64encode_def std_filter a2b_std a2b_b64_groups)

section \<open>Documents that survive encryption\<close>

text \<open>Plain JSON values whose strings are valid Unicode text.\<close>

fun val_text :: "pyval \<Rightarrow> bool" where
  "val_text (VStr s) = utf8_ok False s"
| "val_text (VList xs) = list_all val_text xs"
| "val_text (VDict d) = list_all (\<lambda>(k, v). utf8_ok False k \<and> val_text v) d"
| "val_text _ = True"

lemma utf8_ok_append: "utf8_ok b s \<Longrightarrow> utf8_ok b t \<Longrightarrow> utf8_ok b (s @ t)"
proof (induction b s rule: utf8_ok.induct)
  case (2 b c cs)
  have "second_ok b c (cs @ t)" if "lead_tail c = Some k" "k \<le> length cs" "second_ok b c cs" for k
    using that by (cases cs) (auto simp: second_ok_def lead_tail_def Let_def split: if_splits)
  with 2 show ?case by (auto split: option.splits)
qed simp

lemma utf8_ok_mono_aux: "utf8_ok b s \<Longrightarrow> utf8_ok True s"
proof (induction b s rule: utf8_ok.induct)
  case (2 b c cs)
  have "second_ok True c cs" if "second_ok b c cs" using that by (auto simp: second_ok_def Let_def)
  with 2 show ?case by (auto split: option.splits)
qed simp

lemmas utf8_ok_mono = utf8_ok_mono_aux [of False]

definition ascii :: "string \<Rightarrow> bool" where
  "ascii s \<longleftrightarrow> list_all (\<lambda>c. (of_char c :: nat) < 0x80) s"

lemma utf8_ok_ascii: "ascii s \<Longrightarrow> utf8_ok b s"
  by (induction s) (simp_all add: ascii_def lead_tail_def second_ok_def Let_def)

lemma utf8_ok_ascii_Cons: "(of_char c :: nat) < 0x80 \<Longrightarrow> utf8_ok b (c # s) = utf8_ok b s"
  by (simp add: lead_tail_def second_ok_def Let_def)

lemma escape_ascii: "(of_char c :: nat) < 0x80 \<Longrightarrow> ascii (escape_char c)"
  by (auto simp: escape_char_def ascii_def hex_digit_def Let_def)

lemma escape_high: "0x80 \<le> (of_char c :: nat) \<Longrightarrow> escape_char c = [c]"
  by (simp add: escape_char_def)

lemma escape_cont: "list_all is_cont s \<Longrightarrow> concat (map escape_char s) = s"
  by (induction s) (simp_all add: is_cont_def escape_high Let_def)

lemma escape_utf8: "utf8_ok b s \<Longrightarrow> utf8_ok b (concat (map escape_char s))"
proof (induction b s rule: utf8_ok.induct)
  case (2 b c cs)
  show ?case
  proof (cases "(of_char c :: nat) < 0x80")
    case True
    then have "lead_tail c = Some 0" by (simp add: lead_tail_def)
    then show ?thesis using 2 utf8_ok_append [OF utf8_ok_ascii [OF escape_ascii [OF True]]] by simp
  next
    case False
    obtain k where k: "lead_tail c = Some k" "k \<le> length cs" "list_all is_cont (take k cs)" "second_ok b c cs" "utf8_ok b (drop k cs)"
      using "2.prems" by (auto split: option.splits)
    have k0: "k \<noteq> 0" using k(1) False by (auto simp: lead_tail_def Let_def split: if_splits)
    have e: "concat (map escape_char cs) = take k cs @ concat (map escape_char (drop k cs))"
      using escape_cont [OF k(3)] by (metis append_take_drop_id concat_append map_append)
    have "utf8_ok b (c # take k cs @ concat (map escape_char (drop k cs)))"
      using k k0 2(1) [OF k(1)] by (cases cs) (auto simp: min_def second_ok_def Let_def neq0_conv gr0_conv_Suc)
    then show ?thesis using False by (simp add: escape_high e)
  qed
qed simp

lemma join_utf8: "\<forall>p \<in> set ps. utf8_ok b p \<Longrightarrow> utf8_ok b (join_with '','' ps)"
  by (induction "'',''" ps rule: join_with.induct) (auto simp: utf8_ok_append utf8_ok_ascii_Cons simp del: utf8_ok.simps(2))

lemma quote_utf8: "utf8_ok b k \<Longrightarrow> utf8_ok b t \<Longrightarrow> utf8_ok b (quote_str k @ t)"
  by (simp add: quote_str_def utf8_ok_ascii_Cons utf8_ok_append escape_utf8 del: utf8_ok.simps(2))

lemma int_to_str_ascii: "ascii (int_to_str i)"
proof -
  have "ascii (nat_to_str n)" for n
    using nat_to_str_digits [of _ n] by (fastforce simp: ascii_def list_all_iff is_digit_def Let_def)
  then show ?thesis by (simp add: int_to_str_def ascii_def)
qed

lemma dumps_utf8: "json_plain v \<Longrightarrow> val_text v \<Longrightarrow> utf8_ok False (dumps_json fr v)"
proof (induction v)
  case (VInt i)
  then show ?case by (simp add: utf8_ok_ascii int_to_str_ascii)
next
  case (VStr s)
  then show ?case using quote_utf8 [of False s "[]"] by simp
next
  case (VList xs)
  then have "\<forall>x \<in> set xs. utf8_ok False (dumps_json fr x)" by (auto simp: list_all_iff)
  then show ?case by (simp add: utf8_ok_ascii_Cons utf8_ok_append join_utf8 del: utf8_ok.simps(2))
next
  case (VDict d)
  then have "\<forall>(k, v) \<in> set d. utf8_ok False k \<and> utf8_ok False (dumps_json fr v)" by (fastforce simp: list_all_iff)
  then have "\<forall>p \<in> set (map (\<lambda>(k, v). quote_str k @ CHR '':'' # dumps_json fr v) d). utf8_ok False p"
    by (auto simp: quote_utf8 utf8_ok_ascii_Cons simp del: utf8_ok.simps(2))
  then show ?case by (simp add: utf8_ok_ascii_Cons utf8_ok_append join_utf8 del: utf8_ok.simps(2))
qed (simp_all add: utf8_ok_ascii ascii_def del: utf8_ok.simps(2))

lemma char_of_utf8: "map (\<lambda>x. char_of (unat x)) (utf8 s) = s"
proof -
  have "unat (of_char c :: 8 word) = (of_char c :: nat)" for c
    by (simp add: unat_of_char)
  then show ?thesis by (simp add: utf8_def comp_def)
qed

section \<open>Round trip\<close>

lemma dumps_not_wide: "\<not> wide_encoding (utf8 (dumps_json fr (VDict d)))"
proof -
  obtain c cs where c: "dumps_json fr (VDict d) = CHR ''{'' # c # cs" "c \<in> {CHR 0x22, CHR ''}''}"
    by (cases d; cases "hd d"; cases "tl d") (auto simp: quote_str_def)
  have "wide_encoding (123 # b # bs) \<Longrightarrow> b = 0" for b bs by (auto simp: wide_encoding_def)
  moreover have "(of_char c :: 8 word) \<noteq> 0" using c(2) by auto
  ultimately show ?thesis using c(1) by (auto simp: utf8_def)
qed

lemma decode_dumps:
  assumes "json_plain (VDict d)" "val_text (VDict d)"
  shows "decode_json_bytes env (utf8 (dumps_json fr (VDict d))) = Some (dumps_json fr (VDict d))"
proof -
  have "take 3 (utf8 (dumps_json fr (VDict d))) \<noteq> [0xEF, 0xBB, 0xBF]" by (auto simp: utf8_def)
  then show ?thesis
    using dumps_not_wide utf8_ok_mono [OF dumps_utf8 [OF assms, of fr]]
    by (simp add: decode_json_bytes_def char_of_utf8 Let_def del: dumps_json.simps)
qed

lemma master_secret_key:
  assumes "\<And>k m. length (hmac k m) = 32" "16 \<le> length master"
  obtains key where "from_master_secret hmac master = Inr key" "length key = 32"
proof -
  obtain key where "hkdf_sha256 hmac master KEY_INFO 32 = Inr key" "length key = 32" by (rule hkdf_32 [OF assms(1)])
  then show ?thesis using that assms(2)
    by (simp add: from_master_secret_def derive_key_def cipher_hkdf_sha256_def hkdf_sha256_def secrets_cipher_def)
qed

lemma secrets_cipher_opens:
  assumes "\<And>l. ce_aes env = Some l \<Longrightarrow> aes_lib_ok l" "length key = 32" "length nonce = 12"
    and "json_plain (VDict value)" "val_text (VDict value)" "utf8_ok False aad"
    and "length (dumps_json (ce_float_repr env) (VDict value)) < aes_limit (ce_aes env)" "length aad < aes_limit (ce_aes env)"
  obtains blob where "encrypt_json env key nonce value aad = Inr blob" "blob \<noteq> []" "decrypt_json env key blob aad = Inr value"
proof -
  let ?text = "dumps_json (ce_float_repr env) (VDict value)"
  obtain ct where ct: "aes_gcm_encrypt (ce_aes env) key nonce (utf8 ?text) (utf8 aad) = Inr ct"
      "aes_gcm_decrypt (ce_aes env) key nonce ct (utf8 aad) = Inr (utf8 ?text)"
    by (rule aead.opens_sealed [OF dispatch_aead [OF assms(1)] assms(2,3), where pt = "utf8 ?text" and aad = "utf8 aad"])
      (use assms(7,8) in \<open>simp_all add: utf8_def del: dumps_json.simps\<close>)
  have "encrypt_json env key nonce value aad = Inr (CIPHER_PREFIX @ b64encode (nonce @ ct))"
    using dumps_utf8 [OF assms(4,5)] assms(6) ct(1) by (simp add: encrypt_json_def encode_strict_def del: dumps_json.simps)
  moreover have "decrypt_json env key (CIPHER_PREFIX @ b64encode (nonce @ ct)) aad = Inr value"
    using ct(2) assms(3,6) decode_dumps [OF assms(4,5)] loads_dumps [OF assms(4)]
    by (simp add: decrypt_json_def parse_credentials_def CIPHER_PREFIX_def b64decode_encode encode_strict_def del: dumps_json.simps)
  ultimately show ?thesis using that by (simp add: CIPHER_PREFIX_def)
qed

text \<open>
  Every plain JSON document encrypted for a row decrypts to itself with the same key and associated data,
  whichever AES-GCM backend is installed and for every nonce; the key comes from any master secret of at
  least 16 bytes, a shorter one is refused, and a stored text without the version prefix is refused.
\<close>
lemma credentials_roundtrip:
  assumes "\<And>k m. length (hmac k m) = 32" "\<And>l. ce_aes env = Some l \<Longrightarrow> aes_lib_ok l"
    and "16 \<le> length master" "length nonce = 12"
    and "json_plain (VDict value)" "val_text (VDict value)" "utf8_ok False aad"
    and "length (dumps_json (ce_float_repr env) (VDict value)) < aes_limit (ce_aes env)" "length aad < aes_limit (ce_aes env)"
  shows "\<exists>key blob. from_master_secret hmac master = Inr key \<and> encrypt_json env key nonce value aad = Inr blob \<and>
      decrypt_json env key blob aad = Inr value \<and>
      decrypt_json env key (drop 1 blob) aad = Inl (CipherError ''unknown credentials format (missing v1 prefix)'') \<and>
      (\<exists>msg. from_master_secret hmac (take 15 master) = Inl (CipherError msg))"
proof -
  obtain key where key: "from_master_secret hmac master = Inr key" "length key = 32"
    by (rule master_secret_key [OF assms(1,3)])
  obtain blob where blob: "encrypt_json env key nonce value aad = Inr blob" "decrypt_json env key blob aad = Inr value"
    by (rule secrets_cipher_opens [OF assms(2) key(2) assms(4-9)])
  have "\<exists>rest. blob = CIPHER_PREFIX @ rest"
    using blob(1) by (auto simp: encrypt_json_def rbind_Inr_iff)
  then have "decrypt_json env key (drop 1 blob) aad = Inl (CipherError ''unknown credentials format (missing v1 prefix)'')"
    by (auto simp: decrypt_json_def CIPHER_PREFIX_def)
  moreover have "\<exists>msg. from_master_secret hmac (take 15 master) = Inl (CipherError msg)"
    using assms(3) by (simp add: from_master_secret_def derive_key_def)
  ultimately show ?thesis using key(1) blob by blast
qed

definition ex_cipher_env :: cipher_env where
  "ex_cipher_env = \<lparr>ce_aes = None, ce_float_repr = \<lambda>_. ''0.5'', ce_float = \<lambda>_. 1 / 2, ce_wide_decode = \<lambda>_. None\<rparr>"

lemma credentials_roundtrip_example:
  "\<exists>key blob. from_master_secret (\<lambda>_ _. replicate 32 3) (replicate 16 1) = Inr key \<and>
     encrypt_json ex_cipher_env key (replicate 12 2) [(''password'', VStr ''a/b''), (''mtu'', VInt 1420)] ''u:c:1'' = Inr blob \<and>
     decrypt_json ex_cipher_env key blob ''u:c:1'' = Inr [(''password'', VStr ''a/b''), (''mtu'', VInt 1420)]"
proof -
  have t: "val_text (VDict [(''password'', VStr ''a/b''), (''mtu'', VInt 1420)])" "utf8_ok False ''u:c:1''"
    by (simp_all add: utf8_ok_ascii ascii_def del: utf8_ok.simps(2))
  have l: "length (dumps_json (ce_float_repr ex_cipher_env) (VDict [(''password'', VStr ''a/b''), (''mtu'', VInt 1420)])) < aes_limit (ce_aes ex_cipher_env)"
    by (rule aes_limit_small, rule less_trans [of _ 100]) (code_simp, simp)
  have a: "length ''u:c:1'' < aes_limit (ce_aes ex_cipher_env)" by (rule aes_limit_small) simp
  show ?thesis
    using credentials_roundtrip [of "\<lambda>_ _. replicate 32 3" ex_cipher_env "replicate 16 1" "replicate 12 2"
        "[(''password'', VStr ''a/b''), (''mtu'', VInt 1420)]" "''u:c:1''", OF _ _ _ _ _ t l a]
    by (auto simp: ex_cipher_env_def)
qed

end
