(* ===== verification/OutboundStore.thy ===== *)
theory OutboundStore
  imports OutboundModel SecretsCipher
begin

text \<open>
  \<open>app/cores/outbounds/repository.py\<close>: persistence and API views of outbound profiles. Settings split into a public
  part, stored as it is, and credentials, sealed with the platform's cipher. Parameters besides those of the
  profile model and the cipher: pydantic's coercion of the fields of a legacy record, and \<open>dict()\<close> of a
  stored settings value that is not an object. The nonces drawn from \<open>os.urandom\<close> are arguments, one per profile.
\<close>

section \<open>Secret settings\<close>

definition SECRET_EXACT :: "string list" where
  "SECRET_EXACT =
     [''password'', ''ipsec_psk'', ''private_key'', ''preshared_key'', ''key_pem'', ''ovpn_content'', ''obfs_password'', ''seed'',
      ''uuid'', ''token'', ''api_token'', ''client_secret'', ''secret'', ''auth_token'']"

definition PUBLIC_EXACT :: "string list" where
  "PUBLIC_EXACT =
     [''peer_public_key'', ''public_key'', ''reality_public_key'', ''server_cert'', ''ca_pem'', ''probe_ca_pem'', ''cert_pem'',
      ''host_key'', ''tls_server_name'']"

definition is_secret_setting :: "string \<Rightarrow> bool" where
  "is_secret_setting key =
     (let lowered = py_lower (py_strip key)
      in if lowered \<in> set PUBLIC_EXACT then False
         else if lowered \<in> set SECRET_EXACT then True
         else list_ex (py_endswith lowered) [''_password'', ''_private_key'', ''_preshared_key'', ''_secret'', ''_token''] \<or>
              list_ex (\<lambda>p. py_prefix p lowered) [''password_'', ''secret_'', ''token_''])"

definition split_settings :: "settings \<Rightarrow> settings \<times> settings" where
  "split_settings s = (filter (\<lambda>(k, v). \<not> is_secret_setting k) s, filter (\<lambda>(k, v). is_secret_setting k) s)"

text \<open>\<open>sorted(key for key in d if P(key))\<close>.\<close>

definition keys_where :: "(string \<Rightarrow> bool) \<Rightarrow> settings \<Rightarrow> string list" where
  "keys_where P d = sort (filter P (dict_keys d))"

record outbound_write =
  ow_name :: string
  ow_kind :: outbound_kind
  ow_settings :: settings
  ow_enabled :: bool
  ow_secret_state :: "(string \<times> bool) list"
  ow_clear_secret_keys :: "string list"
  ow_sealed_credentials :: "string option"

datatype outbound_error =
    OutboundInvalid string
  | LegacyNotObject
  | UnsupportedFormat
  | ProfilesNotArray
  | ProfileNotObject
  | UnknownKind
  | BadSettings py_error
  | LeakedKeys string "string list"
  | CiphertextInvalid string
  | CipherRequired
  | CipherFailed cipher_error
  | PublicKeysSealed "string list"
  | InternalKeys string "string list"
  | InvalidClear string "string list"

section \<open>The codec\<close>

record codec_env =
  cd_outbound :: outbound_env
  cd_cipher :: cipher_env
  cd_coerce :: "settings \<Rightarrow> string + outbound"
  cd_dict :: "pyval \<Rightarrow> py_error + settings"

text \<open>The cipher of a codec is the data key of a \<open>SecretsCipher\<close>, or \<open>None\<close>.\<close>

type_synonym codec_key = "bytes option"

definition outbound_aad :: "string \<Rightarrow> outbound_kind \<Rightarrow> string" where
  "outbound_aad name kind = ''outbound:'' @ name @ '':'' @ kind_value kind"

definition import_aad :: "outbound_kind \<Rightarrow> string" where
  "import_aad kind = ''outbound-import:'' @ kind_value kind"

definition seal_import_credentials ::
  "codec_env \<Rightarrow> codec_key \<Rightarrow> bytes \<Rightarrow> outbound_kind \<Rightarrow> settings \<Rightarrow> outbound_error + string option"
where
  "seal_import_credentials env key nonce kind credentials =
     (let invalid = keys_where (\<lambda>k. \<not> is_secret_setting k) credentials
      in if credentials = [] then Inr None
         else if invalid \<noteq> [] then Inl (PublicKeysSealed invalid)
         else case key of
           None \<Rightarrow> Inl CipherRequired
         | Some k \<Rightarrow> map_sum CipherFailed Some (encrypt_json (cd_cipher env) k nonce credentials (import_aad kind)))"

definition open_import_credentials :: "codec_env \<Rightarrow> codec_key \<Rightarrow> outbound_kind \<Rightarrow> string \<Rightarrow> outbound_error + settings" where
  "open_import_credentials env key kind blob =
     (case key of
        None \<Rightarrow> Inl CipherRequired
      | Some k \<Rightarrow>
          rbind (map_sum CipherFailed id (decrypt_json (cd_cipher env) k blob (import_aad kind))) (\<lambda>credentials.
            let invalid = keys_where (\<lambda>k. \<not> is_secret_setting k) credentials
            in if invalid \<noteq> [] then Inl (PublicKeysSealed invalid) else Inr credentials))"

definition safe_validate :: "codec_env \<Rightarrow> outbound \<Rightarrow> outbound_error + outbound" where
  "safe_validate env ob = map_sum OutboundInvalid id (make_outbound (cd_outbound env) ob)"

text \<open>A record of the legacy list: pydantic coerces its fields, then the checks run.\<close>

fun decode_legacy :: "codec_env \<Rightarrow> pyval list \<Rightarrow> outbound_error + outbound list" where
  "decode_legacy env [] = Inr []"
| "decode_legacy env (item # items) =
     (case item of
        VDict d \<Rightarrow>
          rbind (rbind (map_sum OutboundInvalid id (cd_coerce env d)) (safe_validate env)) (\<lambda>ob.
          rbind (decode_legacy env items) (\<lambda>obs. Inr (ob # obs)))
      | _ \<Rightarrow> Inl LegacyNotObject)"

definition stored_settings :: "codec_env \<Rightarrow> pyval \<Rightarrow> outbound_error + settings" where
  "stored_settings env v =
     (if \<not> truthy v then Inr []
      else case v of VDict d \<Rightarrow> Inr d | _ \<Rightarrow> map_sum BadSettings id (cd_dict env v))"

definition stored_kind :: "pyval \<Rightarrow> outbound_error + outbound_kind" where
  "stored_kind v =
     (case v of
        VStr s \<Rightarrow> (case kind_of_value s of None \<Rightarrow> Inl UnknownKind | Some k \<Rightarrow> Inr k)
      | _ \<Rightarrow> Inl UnknownKind)"

definition stored_credentials ::
  "codec_env \<Rightarrow> codec_key \<Rightarrow> string \<Rightarrow> outbound_kind \<Rightarrow> pyval \<Rightarrow> outbound_error + settings"
where
  "stored_credentials env key name kind encrypted =
     (if \<not> truthy encrypted then Inr []
      else case encrypted of
        VStr blob \<Rightarrow>
          (case key of
             None \<Rightarrow> Inl CipherRequired
           | Some k \<Rightarrow>
               rbind (map_sum CipherFailed id (decrypt_json (cd_cipher env) k blob (outbound_aad name kind))) (\<lambda>credentials.
                 let invalid = keys_where (\<lambda>k. \<not> is_secret_setting k) credentials
                 in if invalid \<noteq> [] then Inl (PublicKeysSealed invalid) else Inr credentials))
      | _ \<Rightarrow> Inl (CiphertextInvalid name))"

definition decode_profile :: "codec_env \<Rightarrow> codec_key \<Rightarrow> settings \<Rightarrow> outbound_error + outbound" where
  "decode_profile env key stored =
     (let name = py_str (oe_show (cd_outbound env)) (py_or (vget stored ''name'') (VStr []))
      in rbind (stored_kind (vget stored ''kind'')) (\<lambda>kind.
         rbind (stored_settings env (vget stored ''settings'')) (\<lambda>public.
           let leaked = keys_where is_secret_setting public
           in if leaked \<noteq> [] then Inl (LeakedKeys name leaked)
              else rbind (stored_credentials env key name kind (vget stored ''credentials_enc'')) (\<lambda>credentials.
                safe_validate env
                  \<lparr>ob_name = name, ob_kind = kind, ob_settings = dict_update public credentials,
                   ob_enabled = truthy (case dict_get stored ''enabled'' of None \<Rightarrow> VBool True | Some v \<Rightarrow> v), ob_nodes = []\<rparr>))))"

fun decode_profiles :: "codec_env \<Rightarrow> codec_key \<Rightarrow> pyval list \<Rightarrow> outbound_error + outbound list" where
  "decode_profiles env key [] = Inr []"
| "decode_profiles env key (p # ps) =
     (case p of
        VDict stored \<Rightarrow>
          rbind (decode_profile env key stored) (\<lambda>ob. rbind (decode_profiles env key ps) (\<lambda>obs. Inr (ob # obs)))
      | _ \<Rightarrow> Inl ProfileNotObject)"

definition decode_outbounds :: "codec_env \<Rightarrow> codec_key \<Rightarrow> pyval \<Rightarrow> outbound_error + outbound list" where
  "decode_outbounds env key raw =
     (if \<not> truthy raw then Inr []
      else case raw of
        VList items \<Rightarrow> decode_legacy env items
      | VDict d \<Rightarrow>
          (if \<not> py_eq (vget d ''version'') (VInt 2) then Inl UnsupportedFormat
           else case vget d ''profiles'' of VList ps \<Rightarrow> decode_profiles env key ps | _ \<Rightarrow> Inl ProfilesNotArray)
      | _ \<Rightarrow> Inl UnsupportedFormat)"

definition encode_profile :: "codec_env \<Rightarrow> codec_key \<Rightarrow> bytes \<Rightarrow> outbound \<Rightarrow> outbound_error + pyval" where
  "encode_profile env key nonce ob =
     (let (public, credentials) = split_settings (ob_settings ob);
          stored = [(''name'', VStr (ob_name ob)), (''kind'', VStr (kind_value (ob_kind ob))), (''enabled'', VBool (ob_enabled ob)),
                    (''settings'', VDict public)]
      in if credentials = [] then Inr (VDict stored)
         else case key of
           None \<Rightarrow> Inl CipherRequired
         | Some k \<Rightarrow>
             rbind (map_sum CipherFailed id
               (encrypt_json (cd_cipher env) k nonce credentials (outbound_aad (ob_name ob) (ob_kind ob)))) (\<lambda>blob.
               Inr (VDict (dict_set ''credentials_enc'' (VStr blob) stored))))"

fun encode_profiles :: "codec_env \<Rightarrow> codec_key \<Rightarrow> (nat \<Rightarrow> bytes) \<Rightarrow> nat \<Rightarrow> outbound list \<Rightarrow> outbound_error + pyval list" where
  "encode_profiles env key nonces i [] = Inr []"
| "encode_profiles env key nonces i (ob # obs) =
     rbind (encode_profile env key (nonces i) ob) (\<lambda>p.
     rbind (encode_profiles env key nonces (Suc i) obs) (\<lambda>ps. Inr (p # ps)))"

definition encode_outbounds :: "codec_env \<Rightarrow> codec_key \<Rightarrow> (nat \<Rightarrow> bytes) \<Rightarrow> outbound list \<Rightarrow> outbound_error + pyval" where
  "encode_outbounds env key nonces obs =
     rbind (encode_profiles env key nonces 0 obs) (\<lambda>ps. Inr (VDict [(''version'', VInt 2), (''profiles'', VList ps)]))"

definition public_view :: "outbound \<Rightarrow> pyval" where
  "public_view ob =
     (let (public, credentials) = split_settings (ob_settings ob)
      in VDict [(''name'', VStr (ob_name ob)), (''kind'', VStr (kind_value (ob_kind ob))), (''enabled'', VBool (ob_enabled ob)),
           (''settings'', VDict public),
           (''secret_state'', VDict (map (\<lambda>(k, v). (k, VBool (\<not> blank v))) (sort_key fst credentials)))])"

section \<open>Merging writes\<close>

text \<open>
  The loop over the incoming secret keys. The source iterates over a set; every key is handled on its own, so the
  order does not change the resulting dictionary's contents, and dictionary order is taken here.
\<close>

definition keep_secret :: "settings \<Rightarrow> string list \<Rightarrow> string \<Rightarrow> settings \<Rightarrow> settings" where
  "keep_secret old_secrets clear key s =
     (if blank (vget s key) then
        (let popped = dict_pop key s
         in case dict_get old_secrets key of
              Some v \<Rightarrow> if key \<notin> set clear then dict_set key v popped else popped
            | None \<Rightarrow> popped)
      else s)"

definition merge_settings :: "settings \<Rightarrow> string list \<Rightarrow> settings \<Rightarrow> settings" where
  "merge_settings old_secrets clear s =
     (let s1 = fold (keep_secret old_secrets clear) (filter is_secret_setting (dict_keys s)) s;
          s2 = fold (\<lambda>(k, v) t. if \<not> dict_in k t \<and> k \<notin> set clear then dict_set k v t else t) old_secrets s1
      in fold dict_pop clear s2)"

definition incoming_settings :: "codec_env \<Rightarrow> codec_key \<Rightarrow> outbound_write \<Rightarrow> outbound_error + settings" where
  "incoming_settings env key w =
     (case ow_sealed_credentials w of
        None \<Rightarrow> Inr (ow_settings w)
      | Some blob \<Rightarrow>
          if blob = [] then Inr (ow_settings w)
          else rbind (open_import_credentials env key (ow_kind w) blob) (\<lambda>sealed. Inr (dict_update sealed (ow_settings w))))"

definition old_secrets_of :: "(string \<times> outbound) list \<Rightarrow> outbound_write \<Rightarrow> settings" where
  "old_secrets_of previous w =
     (case dict_get previous (ow_name w) of
        Some old \<Rightarrow> if ob_kind old = ow_kind w then snd (split_settings (ob_settings old)) else []
      | None \<Rightarrow> [])"

definition merge_write :: "codec_env \<Rightarrow> codec_key \<Rightarrow> (string \<times> outbound) list \<Rightarrow> outbound_write \<Rightarrow> outbound_error + outbound" where
  "merge_write env key previous w =
     rbind (incoming_settings env key w) (\<lambda>s.
       let internal = keys_where (py_prefix ''_policy_'') s;
           clear = remdups (ow_clear_secret_keys w);
           invalid_clear = sort (filter (\<lambda>k. \<not> is_secret_setting k) clear)
       in if internal \<noteq> [] then Inl (InternalKeys (ow_name w) internal)
          else if invalid_clear \<noteq> [] then Inl (InvalidClear (ow_name w) invalid_clear)
          else safe_validate env
            \<lparr>ob_name = ow_name w, ob_kind = ow_kind w,
             ob_settings = merge_settings (old_secrets_of previous w) clear s,
             ob_enabled = ow_enabled w, ob_nodes = []\<rparr>)"

fun merge_list :: "codec_env \<Rightarrow> codec_key \<Rightarrow> (string \<times> outbound) list \<Rightarrow> outbound_write list \<Rightarrow> outbound_error + outbound list" where
  "merge_list env key previous [] = Inr []"
| "merge_list env key previous (w # ws) =
     rbind (merge_write env key previous w) (\<lambda>ob. rbind (merge_list env key previous ws) (\<lambda>obs. Inr (ob # obs)))"

definition merge_writes :: "codec_env \<Rightarrow> codec_key \<Rightarrow> outbound_write list \<Rightarrow> outbound list \<Rightarrow> outbound_error + outbound list" where
  "merge_writes env key writes existing =
     merge_list env key (dict_update [] (map (\<lambda>ob. (ob_name ob, ob)) existing)) writes"

end
