(* ===== verification/OutboundStoreProps.thy ===== *)
theory OutboundStoreProps
  imports OutboundStore
begin

text \<open>
  What \<open>repository.py\<close> guarantees: the stored envelope decodes to the profiles it was made from, up to their node
  pins, which it drops; neither the envelope's public part nor the API view depends on the value of a secret;
  a write keeps, replaces or clears each stored secret as its reference definition says.
\<close>

section \<open>Splitting settings\<close>

lemma split_get:
  "dict_get (fst (split_settings s)) k = (if is_secret_setting k then None else dict_get s k)"
  "dict_get (snd (split_settings s)) k = (if is_secret_setting k then dict_get s k else None)"
  by (simp_all add: split_settings_def map_of_filter_key)

lemma dict_ok_filter: "dict_ok d \<Longrightarrow> dict_ok (filter P d)"
  by (induction d) auto

lemma split_ok: "dict_ok s \<Longrightarrow> dict_ok (fst (split_settings s))" "dict_ok s \<Longrightarrow> dict_ok (snd (split_settings s))"
  by (simp_all add: split_settings_def dict_ok_filter)

lemma split_keys:
  "(k, v) \<in> set (fst (split_settings s)) \<Longrightarrow> \<not> is_secret_setting k"
  "(k, v) \<in> set (snd (split_settings s)) \<Longrightarrow> is_secret_setting k"
  by (auto simp: split_settings_def)

lemma keys_where_Nil: "keys_where P d = [] \<longleftrightarrow> (\<forall>(k, v) \<in> set d. \<not> P k)"
proof -
  have "keys_where P d = [] \<longleftrightarrow> filter P (dict_keys d) = []"
    unfolding keys_where_def by (metis set_empty set_sort)
  then show ?thesis by (auto simp: filter_empty_conv)
qed

lemma keys_where_split [simp]:
  "keys_where is_secret_setting (fst (split_settings s)) = []"
  "keys_where (\<lambda>k. \<not> is_secret_setting k) (snd (split_settings s)) = []"
  using split_keys by (fastforce simp: keys_where_Nil)+

lemma merge_split_get:
  assumes "dict_ok s"
  shows "dict_get (dict_update (fst (split_settings s)) (snd (split_settings s))) k = dict_get s k"
  using split_ok [OF assms] by (simp add: dict_get_update split_get split: option.splits)

section \<open>Round trip\<close>

text \<open>
  A profile the codec can store: it passes the checks, and its settings are plain JSON, its credentials of a size the
  AES-GCM backend handles.
\<close>

definition storable :: "codec_env \<Rightarrow> outbound \<Rightarrow> bool" where
  "storable env ob \<longleftrightarrow>
     make_outbound (cd_outbound env) ob = Inr ob \<and> json_plain (VDict (ob_settings ob)) \<and> val_text (VDict (ob_settings ob)) \<and>
     length (dumps_json (ce_float_repr (cd_cipher env)) (VDict (snd (split_settings (ob_settings ob))))) < aes_limit (ce_aes (cd_cipher env))"

text \<open>The same profile up to the order of its settings, with no node pins.\<close>

definition same_profile :: "outbound \<Rightarrow> outbound \<Rightarrow> bool" where
  "same_profile ob ob' \<longleftrightarrow>
     ob_name ob' = ob_name ob \<and> ob_kind ob' = ob_kind ob \<and> ob_enabled ob' = ob_enabled ob \<and> ob_nodes ob' = [] \<and>
     (\<forall>k. dict_get (ob_settings ob') k = dict_get (ob_settings ob) k)"

lemma plain_split:
  assumes "json_plain (VDict s)" "val_text (VDict s)"
  shows "json_plain (VDict (snd (split_settings s)))" "val_text (VDict (snd (split_settings s)))"
  using assms by (auto simp: split_settings_def dict_ok_filter list_all_iff)

lemma name_ok_ascii: "outbound_name_ok s \<Longrightarrow> ascii s"
proof -
  assume "outbound_name_ok s"
  then have "list_all name_char s" by (cases s) (auto simp: outbound_name_ok_def name_char_def)
  moreover have "(of_char c :: nat) < 0x80" if "name_char c" for c
    using that by (auto simp: name_char_def alnum_def is_word_def is_digit_def Let_def)
  ultimately show ?thesis by (auto simp: ascii_def list_all_iff)
qed

lemma kind_value_ascii: "ascii (kind_value k)" "length (kind_value k) < 30"
  by (cases k; simp add: kind_value_def kind_table_def ascii_def)+

lemma outbound_aad_ok:
  assumes "outbound_name_ok name"
  shows "utf8_ok False (outbound_aad name kind)" "length (outbound_aad name kind) < aes_limit backend"
proof -
  have "ascii (outbound_aad name kind)"
    using name_ok_ascii [OF assms] kind_value_ascii(1) [of kind] by (simp add: outbound_aad_def ascii_def)
  then show "utf8_ok False (outbound_aad name kind)" by (rule utf8_ok_ascii)
  have "length name \<le> 64" using assms by (simp add: outbound_name_ok_def)
  then have "length (outbound_aad name kind) < 200" using kind_value_ascii(2) [of kind] by (simp add: outbound_aad_def)
  then show "length (outbound_aad name kind) < aes_limit backend" by (intro aes_limit_small) simp
qed

lemma make_outbound_name: "make_outbound env ob = Inr ob' \<Longrightarrow> ob' = ob \<and> outbound_name_ok (ob_name ob)"
  by (auto simp: make_outbound_def rbind_Inr_iff split: if_splits)

lemma make_outbound_cong:
  assumes "make_outbound env ob = Inr ob" "ob_name ob' = ob_name ob" "ob_kind ob' = ob_kind ob"
    and "\<And>k. dict_get (ob_settings ob') k = dict_get (ob_settings ob) k"
  shows "make_outbound env ob' = Inr ob'"
  using assms(1) validate_outbound_cong [OF assms(4)] assms(2,3)
  by (auto simp: make_outbound_def rbind_Inr_iff split: if_splits)

text \<open>The fields of a stored profile, with or without credentials.\<close>

lemma stored_fields:
  "vget [(''name'', a), (''kind'', b), (''enabled'', c), (''settings'', d)] ''name'' = a"
  "vget [(''name'', a), (''kind'', b), (''enabled'', c), (''settings'', d)] ''kind'' = b"
  "vget [(''name'', a), (''kind'', b), (''enabled'', c), (''settings'', d)] ''settings'' = d"
  "vget [(''name'', a), (''kind'', b), (''enabled'', c), (''settings'', d)] ''credentials_enc'' = VNone"
  by (simp_all add: vget_def)

lemma decode_encode_profile:
  assumes aes: "\<And>l. ce_aes (cd_cipher env) = Some l \<Longrightarrow> aes_lib_ok l" and len: "length key = 32" "length nonce = 12"
    and ob: "storable env ob"
  shows "\<exists>stored ob'. encode_profile env (Some key) nonce ob = Inr (VDict stored) \<and>
    decode_profile env (Some key) stored = Inr ob' \<and> same_profile ob ob'"
proof -
  let ?public = "fst (split_settings (ob_settings ob))" and ?creds = "snd (split_settings (ob_settings ob))"
  let ?aad = "outbound_aad (ob_name ob) (ob_kind ob)"
  have ok: "make_outbound (cd_outbound env) ob = Inr ob" "json_plain (VDict (ob_settings ob))" "val_text (VDict (ob_settings ob))"
    "length (dumps_json (ce_float_repr (cd_cipher env)) (VDict ?creds)) < aes_limit (ce_aes (cd_cipher env))"
    using ob unfolding storable_def by blast+
  have name: "outbound_name_ok (ob_name ob)" using make_outbound_name [OF ok(1)] by blast
  then have ne: "ob_name ob \<noteq> []" by (auto simp: outbound_name_ok_def)
  define ob' where "ob' = \<lparr>ob_name = ob_name ob, ob_kind = ob_kind ob, ob_settings = dict_update ?public ?creds,
    ob_enabled = ob_enabled ob, ob_nodes = []\<rparr>"
  have get: "dict_get (ob_settings ob') k = dict_get (ob_settings ob) k" for k
    using merge_split_get [of "ob_settings ob"] ok(2) by (simp add: ob'_def)
  have valid: "safe_validate env ob' = Inr ob'"
    using make_outbound_cong [OF ok(1), of ob'] get by (simp add: safe_validate_def ob'_def)
  have same: "same_profile ob ob'" using get by (simp add: same_profile_def ob'_def)
  have st: "stored_settings env (VDict ?public) = Inr ?public" by (auto simp: stored_settings_def)
  show ?thesis
  proof (cases "?creds = []")
    case True
    let ?stored = "[(''name'', VStr (ob_name ob)), (''kind'', VStr (kind_value (ob_kind ob))), (''enabled'', VBool (ob_enabled ob)),
      (''settings'', VDict ?public)]"
    have "encode_profile env (Some key) nonce ob = Inr (VDict ?stored)"
      using True by (simp add: encode_profile_def case_prod_beta Let_def)
    moreover have "decode_profile env (Some key) ?stored = Inr ob'"
      using True ne st valid by (simp add: decode_profile_def stored_fields py_or_def stored_kind_def stored_credentials_def ob'_def dict_update_def)
    ultimately show ?thesis using same by blast
  next
    case False
    obtain blob where blob: "encrypt_json (cd_cipher env) key nonce ?creds ?aad = Inr blob" "blob \<noteq> []"
        "decrypt_json (cd_cipher env) key blob ?aad = Inr ?creds"
      by (rule secrets_cipher_opens [OF aes len plain_split [OF ok(2,3)] outbound_aad_ok(1) [OF name] ok(4) outbound_aad_ok(2) [OF name]])
    let ?stored = "[(''name'', VStr (ob_name ob)), (''kind'', VStr (kind_value (ob_kind ob))), (''enabled'', VBool (ob_enabled ob)),
      (''settings'', VDict ?public), (''credentials_enc'', VStr blob)]"
    have "encode_profile env (Some key) nonce ob = Inr (VDict ?stored)"
      using False blob(1) by (simp add: encode_profile_def case_prod_beta Let_def)
    moreover have "stored_credentials env (Some key) (ob_name ob) (ob_kind ob) (VStr blob) = Inr ?creds"
      using blob(2,3) by (simp add: stored_credentials_def)
    then have "decode_profile env (Some key) ?stored = Inr ob'"
      using ne st valid by (simp add: decode_profile_def vget_def py_or_def stored_kind_def ob'_def)
    ultimately show ?thesis using same by blast
  qed
qed

lemma decode_encode_profiles:
  assumes aes: "\<And>l. ce_aes (cd_cipher env) = Some l \<Longrightarrow> aes_lib_ok l" and len: "length key = 32" "\<And>j. length (nonces j) = 12"
    and obs: "list_all (storable env) obs"
  shows "\<exists>ps obs'. encode_profiles env (Some key) nonces i obs = Inr ps \<and> decode_profiles env (Some key) ps = Inr obs' \<and>
    list_all2 same_profile obs obs'"
  using obs
proof (induction obs arbitrary: i)
  case (Cons ob obs)
  have "\<exists>stored ob'. encode_profile env (Some key) (nonces i) ob = Inr (VDict stored) \<and>
      decode_profile env (Some key) stored = Inr ob' \<and> same_profile ob ob'"
    by (rule decode_encode_profile) (use aes len Cons.prems in auto)
  then obtain stored ob' where p: "encode_profile env (Some key) (nonces i) ob = Inr (VDict stored)"
      "decode_profile env (Some key) stored = Inr ob'" "same_profile ob ob'" by blast
  obtain ps obs' where "encode_profiles env (Some key) nonces (Suc i) obs = Inr ps"
      "decode_profiles env (Some key) ps = Inr obs'" "list_all2 same_profile obs obs'"
    using Cons by fastforce
  with p show ?case by simp
qed simp

text \<open>
  C25: A saved list of profiles loads again: with the cipher's key, \<open>encode\<close> of storable profiles succeeds and \<open>decode\<close> of
  its envelope returns, in order, profiles with the same name, kind, enabled flag and settings. The pinned
  nodes of every profile come back empty, whatever they were. Without a key, a profile with credentials is refused.
\<close>
theorem outbounds_codec_roundtrip:
  assumes "\<And>l. ce_aes (cd_cipher env) = Some l \<Longrightarrow> aes_lib_ok l" "length key = 32" "\<And>j. length (nonces j) = 12"
    and "list_all (storable env) obs"
  shows "\<exists>raw obs'. encode_outbounds env (Some key) nonces obs = Inr raw \<and> decode_outbounds env (Some key) raw = Inr obs' \<and>
    list_all2 (\<lambda>ob ob'. ob_name ob' = ob_name ob \<and> ob_kind ob' = ob_kind ob \<and> ob_enabled ob' = ob_enabled ob \<and> ob_nodes ob' = [] \<and>
      (\<forall>k. dict_get (ob_settings ob') k = dict_get (ob_settings ob) k)) obs obs' \<and>
    (\<forall>ob \<in> set obs. snd (split_settings (ob_settings ob)) \<noteq> [] \<longrightarrow> encode_outbounds env None nonces obs = Inl CipherRequired)"
proof -
  have "\<exists>ps obs'. encode_profiles env (Some key) nonces 0 obs = Inr ps \<and> decode_profiles env (Some key) ps = Inr obs' \<and>
      list_all2 same_profile obs obs'"
    by (rule decode_encode_profiles) (use assms in auto)
  then obtain ps obs' where p: "encode_profiles env (Some key) nonces 0 obs = Inr ps" "decode_profiles env (Some key) ps = Inr obs'"
      "list_all2 same_profile obs obs'" by blast
  have none: "encode_profiles env None nonces i xs = Inl CipherRequired"
    if "ob \<in> set xs" "snd (split_settings (ob_settings ob)) \<noteq> []" for ob xs i
    using that by (induction xs arbitrary: i) (auto simp: encode_profile_def case_prod_beta Let_def)
  have "encode_outbounds env None nonces obs = Inl CipherRequired"
    if "ob \<in> set obs" "snd (split_settings (ob_settings ob)) \<noteq> []" for ob
    using none [OF that] by (simp add: encode_outbounds_def)
  moreover have "encode_outbounds env (Some key) nonces obs = Inr (VDict [(''version'', VInt 2), (''profiles'', VList ps)])"
    using p(1) by (simp add: encode_outbounds_def)
  moreover have "decode_outbounds env (Some key) (VDict [(''version'', VInt 2), (''profiles'', VList ps)]) = Inr obs'"
    using p(2) by (simp add: decode_outbounds_def vget_def)
  ultimately show ?thesis using p(3) unfolding same_profile_def by blast
qed

text \<open>A profile with a stored secret and a node pin.\<close>

definition ex_codec :: codec_env where
  "ex_codec = \<lparr>cd_outbound = \<lparr>oe_show = \<lambda>_. [], oe_bracket_ok = \<lambda>_. False, oe_is_ip = \<lambda>_. False\<rparr>, cd_cipher = ex_cipher_env,
     cd_coerce = \<lambda>_. Inl ''unused'', cd_dict = \<lambda>_. Inl TypeError\<rparr>"

definition ex_outbound :: outbound where
  "ex_outbound = \<lparr>ob_name = ''Warp-EU'', ob_kind = SOCKS,
     ob_settings = [(''password'', VStr ''pw''), (''server'', VStr ''a.b'')], ob_enabled = True, ob_nodes = [4]\<rparr>"

lemma ex_outbound_split: "split_settings (ob_settings ex_outbound) = ([(''server'', VStr ''a.b'')], [(''password'', VStr ''pw'')])"
  by code_simp

lemma ex_outbound_storable: "storable ex_codec ex_outbound"
proof -
  have "make_outbound (cd_outbound ex_codec) ex_outbound = Inr ex_outbound" unfolding ex_codec_def by code_simp
  moreover have "val_text (VDict (ob_settings ex_outbound))"
    by (simp add: ex_outbound_def utf8_ok_ascii ascii_def del: utf8_ok.simps(2))
  moreover have "length (dumps_json (ce_float_repr (cd_cipher ex_codec)) (VDict (snd (split_settings (ob_settings ex_outbound))))) <
      aes_limit (ce_aes (cd_cipher ex_codec))"
    unfolding ex_outbound_split by (rule aes_limit_small, rule less_trans [of _ 100]) (code_simp, simp)
  ultimately show ?thesis by (simp add: storable_def ex_outbound_def)
qed

theorem outbounds_codec_roundtrip_witness:
  "\<exists>raw ob'. encode_outbounds ex_codec (Some (replicate 32 1)) (\<lambda>_. replicate 12 2) [ex_outbound] = Inr raw \<and>
     decode_outbounds ex_codec (Some (replicate 32 1)) raw = Inr [ob'] \<and> ob_nodes ex_outbound = [4] \<and> ob_nodes ob' = [] \<and>
     dict_get (ob_settings ob') ''password'' = Some (VStr ''pw'')"
proof -
  have "\<exists>raw obs'. encode_outbounds ex_codec (Some (replicate 32 1)) (\<lambda>_. replicate 12 2) [ex_outbound] = Inr raw \<and>
      decode_outbounds ex_codec (Some (replicate 32 1)) raw = Inr obs' \<and>
      list_all2 (\<lambda>ob ob'. ob_name ob' = ob_name ob \<and> ob_kind ob' = ob_kind ob \<and> ob_enabled ob' = ob_enabled ob \<and> ob_nodes ob' = [] \<and>
        (\<forall>k. dict_get (ob_settings ob') k = dict_get (ob_settings ob) k)) [ex_outbound] obs' \<and>
      (\<forall>ob \<in> set [ex_outbound]. snd (split_settings (ob_settings ob)) \<noteq> [] \<longrightarrow>
        encode_outbounds ex_codec None (\<lambda>_. replicate 12 2) [ex_outbound] = Inl CipherRequired)"
    by (rule outbounds_codec_roundtrip) (simp_all add: ex_outbound_storable, simp add: ex_codec_def ex_cipher_env_def)
  then obtain raw ob' where "encode_outbounds ex_codec (Some (replicate 32 1)) (\<lambda>_. replicate 12 2) [ex_outbound] = Inr raw"
      "decode_outbounds ex_codec (Some (replicate 32 1)) raw = Inr [ob']" "ob_nodes ob' = []"
      "\<forall>k. dict_get (ob_settings ob') k = dict_get (ob_settings ex_outbound) k"
    by (auto simp: list_all2_Cons1)
  moreover have "ob_nodes ex_outbound = [4]" "dict_get (ob_settings ex_outbound) ''password'' = Some (VStr ''pw'')"
    by (simp_all add: ex_outbound_def)
  ultimately show ?thesis by metis
qed

section \<open>Secrets stay out of sight\<close>

text \<open>Two profiles that differ at most in the values of their set secrets.\<close>

definition same_public :: "outbound \<Rightarrow> outbound \<Rightarrow> bool" where
  "same_public ob ob' \<longleftrightarrow>
     ob_name ob' = ob_name ob \<and> ob_kind ob' = ob_kind ob \<and> ob_enabled ob' = ob_enabled ob \<and>
     fst (split_settings (ob_settings ob')) = fst (split_settings (ob_settings ob)) \<and>
     map (\<lambda>(k, v). (k, blank v)) (snd (split_settings (ob_settings ob'))) = map (\<lambda>(k, v). (k, blank v)) (snd (split_settings (ob_settings ob)))"

lemma map_sort_key_fst:
  assumes "\<And>p. fst (g p) = fst p"
  shows "map g (sort_key fst d) = sort_key fst (map g d)"
proof (induction d)
  case (Cons p d)
  have "map g (insort_key fst q e) = insort_key fst (g q) (map g e)" for q e
    by (induction e) (simp_all add: assms)
  then show ?case by (simp add: Cons)
qed simp

lemma secret_state_cong:
  fixes d e :: settings
  assumes "map (\<lambda>(k, v). (k, blank v)) d = map (\<lambda>(k, v). (k, blank v)) e"
  shows "map (\<lambda>(k, v). (k, VBool (\<not> blank v))) (sort_key fst d) = map (\<lambda>(k, v). (k, VBool (\<not> blank v))) (sort_key fst e)"
proof -
  have "map (\<lambda>(k, v). (k, VBool (\<not> blank v))) (sort_key fst xs) =
      map (\<lambda>(k, b). (k, VBool (\<not> b))) (sort_key fst (map (\<lambda>(k, v). (k, blank v)) xs))" for xs :: "(string \<times> pyval) list"
    by (subst map_sort_key_fst [symmetric]) (simp_all add: comp_def case_prod_beta)
  note h = this
  show ?thesis unfolding h [of d] h [of e] assms ..
qed

lemma public_view_cong: "same_public ob ob' \<Longrightarrow> public_view ob' = public_view ob"
  unfolding same_public_def public_view_def
  using secret_state_cong [of "snd (split_settings (ob_settings ob'))" "snd (split_settings (ob_settings ob))"]
  by (cases "split_settings (ob_settings ob)"; cases "split_settings (ob_settings ob')") simp

lemma map_sum_Inr_iff: "map_sum f g r = Inr y \<longleftrightarrow> (\<exists>x. r = Inr x \<and> y = g x)"
  by (cases r) auto

text \<open>
  What is stored for a profile, written out: its name, kind and flag, the settings whose keys are not secret, and, if a
  key is secret, one more field, which is the version prefix and the base64 text of the nonce and the AES-GCM ciphertext
  of the JSON text of the secret settings under the key, bound to the profile's name and kind.
\<close>

definition sealed_blob :: "cipher_env \<Rightarrow> bytes \<Rightarrow> bytes \<Rightarrow> settings \<Rightarrow> string \<Rightarrow> string \<Rightarrow> bool" where
  "sealed_blob env key nonce secrets aad blob \<longleftrightarrow>
     (\<exists>plaintext bound ct. encode_strict (dumps_json (ce_float_repr env) (VDict secrets)) = Inr plaintext \<and>
        encode_strict aad = Inr bound \<and> aes_gcm_encrypt (ce_aes env) key nonce plaintext bound = Inr ct \<and>
        blob = ''v1:'' @ b64encode (nonce @ ct))"

definition stored_sealed :: "codec_env \<Rightarrow> codec_key \<Rightarrow> bytes \<Rightarrow> outbound \<Rightarrow> pyval \<Rightarrow> bool" where
  "stored_sealed env key nonce ob p \<longleftrightarrow>
     (\<exists>extra. p = VDict ([(''name'', VStr (ob_name ob)), (''kind'', VStr (kind_value (ob_kind ob))), (''enabled'', VBool (ob_enabled ob)),
            (''settings'', VDict [kv \<leftarrow> ob_settings ob. \<not> is_secret_setting (fst kv)])] @ extra) \<and>
        (if list_ex (\<lambda>kv. is_secret_setting (fst kv)) (ob_settings ob)
         then \<exists>k blob. key = Some k \<and> extra = [(''credentials_enc'', VStr blob)] \<and>
           sealed_blob (cd_cipher env) k nonce [kv \<leftarrow> ob_settings ob. is_secret_setting (fst kv)]
             (''outbound:'' @ ob_name ob @ '':'' @ kind_value (ob_kind ob)) blob
         else extra = []))"

lemma encrypt_json_sealed: "encrypt_json env key nonce value aad = Inr blob \<Longrightarrow> sealed_blob env key nonce value aad blob"
  by (auto simp: encrypt_json_def rbind_Inr_iff CIPHER_PREFIX_def sealed_blob_def map_sum_Inr_iff)

lemma encode_profile_sealed:
  assumes "encode_profile env key nonce ob = Inr p"
  shows "stored_sealed env key nonce ob p"
proof -
  let ?sec = "[kv \<leftarrow> ob_settings ob. is_secret_setting (fst kv)]" and ?pub = "[kv \<leftarrow> ob_settings ob. \<not> is_secret_setting (fst kv)]"
  have split: "split_settings (ob_settings ob) = (?pub, ?sec)" by (simp add: split_settings_def case_prod_unfold)
  have ex: "list_ex (\<lambda>kv. is_secret_setting (fst kv)) (ob_settings ob) \<longleftrightarrow> ?sec \<noteq> []"
    by (auto simp: list_ex_iff filter_empty_conv)
  show ?thesis
  proof (cases "?sec = []")
    case True
    then show ?thesis using assms unfolding stored_sealed_def ex by (simp add: encode_profile_def split)
  next
    case False
    then obtain k blob where "key = Some k" "p = VDict (dict_set ''credentials_enc'' (VStr blob)
          [(''name'', VStr (ob_name ob)), (''kind'', VStr (kind_value (ob_kind ob))), (''enabled'', VBool (ob_enabled ob)), (''settings'', VDict ?pub)])"
        "encrypt_json (cd_cipher env) k nonce ?sec (outbound_aad (ob_name ob) (ob_kind ob)) = Inr blob"
      using assms by (auto simp: encode_profile_def split rbind_Inr_iff map_sum_Inr_iff split: option.splits)
    then show ?thesis
      using False encrypt_json_sealed unfolding stored_sealed_def ex outbound_aad_def by auto
  qed
qed

lemma encode_profiles_sealed:
  "encode_profiles env key nonces i obs = Inr ps \<Longrightarrow>
     length ps = length obs \<and> (\<forall>j < length obs. stored_sealed env key (nonces (i + j)) (obs ! j) (ps ! j))"
proof (induction obs arbitrary: i ps)
  case (Cons ob obs)
  then obtain p ps' where p: "encode_profile env key (nonces i) ob = Inr p" "encode_profiles env key nonces (Suc i) obs = Inr ps'"
      "ps = p # ps'" by (auto simp: rbind_Inr_iff)
  have "stored_sealed env key (nonces (i + j)) ((ob # obs) ! j) (ps ! j)" if "j < length (ob # obs)" for j
    using that encode_profile_sealed [OF p(1)] Cons.IH [OF p(2)] by (cases j) (simp_all add: p(3))
  then show ?case using Cons.IH [OF p(2)] by (simp add: p(3))
qed simp

lemma decode_profile_leak:
  assumes "vget stored ''settings'' = VDict d" "(k, v) \<in> set d" "is_secret_setting k"
  shows "\<exists>e. decode_profile env key stored = Inl e"
    and "stored_kind (vget stored ''kind'') = Inr kd \<Longrightarrow>
      \<exists>name keys. decode_profile env key stored = Inl (LeakedKeys name keys) \<and> k \<in> set keys"
proof -
  have k: "k \<in> set (keys_where is_secret_setting d)" using assms(2,3) by (force simp: keys_where_def)
  then have ne: "keys_where is_secret_setting d \<noteq> []" by auto
  have s: "stored_settings env (VDict d) = Inr d" using assms(2) by (auto simp: stored_settings_def)
  show "\<exists>e. decode_profile env key stored = Inl e"
    using ne by (cases "stored_kind (vget stored ''kind'')") (simp_all add: decode_profile_def assms(1) s Let_def)
  show "\<exists>name keys. decode_profile env key stored = Inl (LeakedKeys name keys) \<and> k \<in> set keys"
    if "stored_kind (vget stored ''kind'') = Inr kd"
    using ne k that by (simp add: decode_profile_def assms(1) s Let_def)
qed

lemma decode_profiles_leak:
  assumes "decode_profile env key stored = Inl e"
  shows "\<exists>e'. decode_profiles env key (pre @ VDict stored # post) = Inl e'"
    and "decode_profiles env key pre = Inr obs \<Longrightarrow> decode_profiles env key (pre @ VDict stored # post) = Inl e"
proof -
  show "\<exists>e'. decode_profiles env key (pre @ VDict stored # post) = Inl e'"
  proof (induction pre)
    case (Cons p pre)
    then show ?case by (cases p; cases "decode_profile env key (case p of VDict d \<Rightarrow> d | _ \<Rightarrow> [])") auto
  qed (simp add: assms)
  show "decode_profiles env key (pre @ VDict stored # post) = Inl e" if "decode_profiles env key pre = Inr obs"
    using that by (induction pre arbitrary: obs) (auto simp: assms rbind_Inr_iff split: pyval.splits)
qed

text \<open>
  C4: Credentials never leave in clear. In every envelope \<open>encode\<close> produces, a profile is stored as its name, kind and flag, its
  settings with the secret keys left out, and, if it has secret keys, one further field: the version prefix and the
  base64 text of nonce and AES-GCM ciphertext of exactly its secret settings under the key. The API view has no
  secret key among its settings either, and profiles that differ only in the values of their set secrets have the same
  view. \<open>decode\<close> refuses every envelope with a profile, in any position and with any other fields, whose public settings
  name a secret; it reports the leaked keys if the profiles before it decode and its kind is known.
\<close>
theorem secrets_never_in_clear:
  "(encode_outbounds env key nonces obs = Inr raw \<longrightarrow>
     (\<exists>ps. raw = VDict [(''version'', VInt 2), (''profiles'', VList ps)] \<and> length ps = length obs \<and>
        (\<forall>j < length obs. stored_sealed env key (nonces j) (obs ! j) (ps ! j)))) \<and>
   (\<exists>fields public. public_view ob = VDict fields \<and> dict_get fields ''settings'' = Some (VDict public) \<and>
      (\<forall>(k, v) \<in> set public. \<not> is_secret_setting k)) \<and>
   (same_public ob ob' \<longrightarrow> public_view ob' = public_view ob) \<and>
   (\<forall>d ps pre stored post s k v. vget d ''profiles'' = VList ps \<longrightarrow> ps = pre @ VDict stored # post \<longrightarrow>
      vget stored ''settings'' = VDict s \<longrightarrow> (k, v) \<in> set s \<longrightarrow> is_secret_setting k \<longrightarrow>
      (\<exists>e. decode_outbounds env key (VDict d) = Inl e) \<and>
      (py_eq (vget d ''version'') (VInt 2) \<and> (\<exists>obs'. decode_profiles env key pre = Inr obs') \<and>
         (\<exists>kd. stored_kind (vget stored ''kind'') = Inr kd) \<longrightarrow>
       (\<exists>name keys. decode_outbounds env key (VDict d) = Inl (LeakedKeys name keys) \<and> k \<in> set keys)))"
proof (intro conjI allI impI)
  assume "encode_outbounds env key nonces obs = Inr raw"
  then show "\<exists>ps. raw = VDict [(''version'', VInt 2), (''profiles'', VList ps)] \<and> length ps = length obs \<and>
      (\<forall>j < length obs. stored_sealed env key (nonces j) (obs ! j) (ps ! j))"
    using encode_profiles_sealed [of env key nonces 0 obs] by (auto simp: encode_outbounds_def rbind_Inr_iff)
next
  have "\<forall>(k, v) \<in> set (fst (split_settings (ob_settings ob))). \<not> is_secret_setting k" using split_keys(1) by fastforce
  then show "\<exists>fields public. public_view ob = VDict fields \<and> dict_get fields ''settings'' = Some (VDict public) \<and>
      (\<forall>(k, v) \<in> set public. \<not> is_secret_setting k)"
    by (simp add: public_view_def case_prod_beta)
next
  show "same_public ob ob' \<Longrightarrow> public_view ob' = public_view ob" by (rule public_view_cong)
next
  fix d s :: settings and ps pre post stored k v
  assume h: "vget d ''profiles'' = VList ps" "ps = pre @ VDict stored # post" "vget stored ''settings'' = VDict s" "(k, v) \<in> set s"
    "is_secret_setting k"
  have ne: "d \<noteq> []" using h(1) by (auto simp: vget_def)
  obtain e where e: "decode_profile env key stored = Inl e" using decode_profile_leak(1) [OF h(3-5)] by blast
  show "\<exists>e. decode_outbounds env key (VDict d) = Inl e"
    using decode_profiles_leak(1) [OF e, of pre post] ne by (auto simp: decode_outbounds_def h(1,2))
  assume p: "py_eq (vget d ''version'') (VInt 2) \<and> (\<exists>obs'. decode_profiles env key pre = Inr obs') \<and>
      (\<exists>kd. stored_kind (vget stored ''kind'') = Inr kd)"
  then obtain name keys where l: "decode_profile env key stored = Inl (LeakedKeys name keys)" "k \<in> set keys"
    using decode_profile_leak(2) [OF h(3-5)] by blast
  show "\<exists>name keys. decode_outbounds env key (VDict d) = Inl (LeakedKeys name keys) \<and> k \<in> set keys"
    using p decode_profiles_leak(2) [OF l(1), of pre _ post] l(2) ne by (auto simp: decode_outbounds_def h(1,2))
qed

theorem secrets_never_in_clear_witness:
  "public_view (ex_outbound\<lparr>ob_settings := [(''password'', VStr ''other''), (''server'', VStr ''a.b'')]\<rparr>) = public_view ex_outbound \<and>
   (\<exists>name keys. decode_outbounds ex_codec None (VDict [(''version'', VInt 2), (''profiles'',
      VList [VDict [(''name'', VStr ''n1''), (''kind'', VStr ''socks''), (''enabled'', VBool True), (''settings'', VDict [(''Password'', VStr ''x'')])]])]) =
     Inl (LeakedKeys name keys) \<and> ''Password'' \<in> set keys)"
proof -
  let ?st = "[(''name'', VStr ''n1''), (''kind'', VStr ''socks''), (''enabled'', VBool True), (''settings'', VDict [(''Password'', VStr ''x'')])]"
  let ?d = "[(''version'', VInt 2), (''profiles'', VList [VDict ?st])]"
  have p: "same_public ex_outbound (ex_outbound\<lparr>ob_settings := [(''password'', VStr ''other''), (''server'', VStr ''a.b'')]\<rparr>)"
    by code_simp
  have k: "is_secret_setting ''Password''" "stored_kind (vget ?st ''kind'') = Inr SOCKS" by code_simp+
  have v: "vget ?d ''profiles'' = VList ([] @ VDict ?st # [])" "vget ?st ''settings'' = VDict [(''Password'', VStr ''x'')]"
    "py_eq (vget ?d ''version'') (VInt 2)" "decode_profiles ex_codec None [] = Inr []" by (simp_all add: vget_def)
  note c = secrets_never_in_clear [where ob = ex_outbound and env = ex_codec and key = None]
  have "\<exists>name keys. decode_outbounds ex_codec None (VDict ?d) = Inl (LeakedKeys name keys) \<and> ''Password'' \<in> set keys"
    using c [THEN conjunct2, THEN conjunct2, THEN conjunct2, rule_format, OF v(1) refl v(2) _ k(1), of "VStr ''x''"] v(3,4) k(2) by simp
  then show ?thesis using c [THEN conjunct2, THEN conjunct2, THEN conjunct1, rule_format, OF p] by simp
qed

section \<open>Merging a write\<close>

text \<open>The reference definition: a cleared secret is gone, a filled-in one wins, an empty one keeps what was stored.\<close>

definition merged_setting :: "settings \<Rightarrow> string list \<Rightarrow> settings \<Rightarrow> string \<Rightarrow> pyval option" where
  "merged_setting old_secrets clear s k =
     (if \<not> is_secret_setting k then dict_get s k
      else if k \<in> set clear then None
      else case dict_get s k of
        Some v \<Rightarrow> if blank v then dict_get old_secrets k else Some v
      | None \<Rightarrow> dict_get old_secrets k)"

lemma keep_secret_get:
  "dict_get (keep_secret old clear key s) k =
     (if k \<noteq> key then dict_get s k
      else if blank (vget s key) then (if key \<in> set clear then None else dict_get old key) else dict_get s key)"
  by (auto simp: keep_secret_def Let_def split: option.splits)

lemma fold_keep_secret_get:
  "distinct ks \<Longrightarrow> dict_get (fold (keep_secret old clear) ks s) k =
     (if k \<in> set ks \<and> blank (vget s k) then (if k \<in> set clear then None else dict_get old k) else dict_get s k)"
proof (induction ks arbitrary: s)
  case (Cons a ks)
  have "vget (keep_secret old clear a s) k = vget s k" if "k \<noteq> a" using that by (simp add: vget_def keep_secret_get)
  with Cons show ?case by (auto simp: keep_secret_get)
qed simp

lemma fold_restore_get:
  "dict_ok old \<Longrightarrow> dict_get (fold (\<lambda>(k, v) t. if \<not> dict_in k t \<and> k \<notin> set clear then dict_set k v t else t) old s) k =
     (case dict_get s k of Some v \<Rightarrow> Some v | None \<Rightarrow> if k \<in> set clear then None else dict_get old k)"
proof (induction old arbitrary: s)
  case (Cons p old)
  obtain a b where p: "p = (a, b)" by (cases p)
  have "dict_get old a = None" using Cons.prems by (simp add: p map_of_eq_None_iff)
  then show ?case using Cons by (auto simp: p dict_in_def split: option.splits)
qed (simp split: option.splits)

lemma fold_pop_get: "dict_get (fold dict_pop ks s) k = (if k \<in> set ks then None else dict_get s k)"
  by (induction ks arbitrary: s) auto

lemma merge_settings_get:
  assumes "dict_ok s" "dict_ok old" "\<forall>(k, v) \<in> set old. is_secret_setting k" "\<forall>k \<in> set clear. is_secret_setting k"
  shows "dict_get (merge_settings old clear s) k = merged_setting old clear s k"
proof -
  have d: "distinct (filter is_secret_setting (dict_keys s))" using assms(1) by simp
  have old: "dict_get old k = None" if "\<not> is_secret_setting k" using that assms(3) by (auto simp: map_of_eq_None_iff)
  have "k \<in> set (dict_keys s) \<longleftrightarrow> dict_get s k \<noteq> None" using dict_in_set [of k s] by (simp add: dict_in_def)
  then show ?thesis
    using old assms(4)
    by (auto simp: merge_settings_def Let_def fold_pop_get fold_restore_get [OF assms(2)] fold_keep_secret_get [OF d] merged_setting_def
        vget_def blank_def split: option.splits)
qed

lemma old_secrets_ok:
  assumes "list_all (\<lambda>ob. dict_ok (ob_settings ob)) existing"
    and "previous = dict_update [] (map (\<lambda>ob. (ob_name ob, ob)) existing)"
  shows "dict_ok (old_secrets_of previous w)" "\<forall>(k, v) \<in> set (old_secrets_of previous w). is_secret_setting k"
proof -
  have "(k, ob) \<in> set (dict_update d (map (\<lambda>ob. (ob_name ob, ob)) xs)) \<Longrightarrow> (k, ob) \<in> set d \<or> ob \<in> set xs" for k ob d xs
    by (induction xs arbitrary: d) (fastforce simp: dict_update_def dest: set_dict_set [THEN subsetD])+
  then have "ob \<in> set existing" if "dict_get previous n = Some ob" for n ob
    using that map_of_SomeD [OF that] unfolding assms(2) by fastforce
  then show "dict_ok (old_secrets_of previous w)"
    using assms(1) split_ok(2) by (auto simp: old_secrets_of_def list_all_iff split: option.splits)
  show "\<forall>(k, v) \<in> set (old_secrets_of previous w). is_secret_setting k"
    using split_keys(2) by (fastforce simp: old_secrets_of_def split: option.splits)
qed

lemma scan_once_dict_ok: "scan_once fo n s = Some (VDict d, r) \<Longrightarrow> dict_ok d"
proof (cases s rule: json_head_cases)
  case (atom c cs)
  moreover have "literal s \<noteq> Some (VDict d, r)" by (simp add: literal_def)
  moreover have "scan_num fo s \<noteq> Some (VDict d, r)"
    by (auto simp: scan_num_def Let_def case_prod_beta split: option.splits)
  moreover assume "scan_once fo n s = Some (VDict d, r)"
  ultimately show ?thesis by (cases n) (auto simp: scan_once_simps split: option.splits)
qed (cases n; auto simp: scan_once_simps pairs_dict_def dict_ok_update split: if_splits)+

lemma loads_json_dict_ok: "loads_json fo s = Some (VDict d) \<Longrightarrow> dict_ok d"
  by (auto simp: loads_json_def dest: scan_once_dict_ok split: option.splits if_splits)

lemma parse_credentials_dict_ok: "parse_credentials env plaintext = Inr d \<Longrightarrow> dict_ok d"
  by (auto simp: parse_credentials_def dest: loads_json_dict_ok split: option.splits pyval.splits)

lemma decrypt_json_dict_ok:
  assumes "decrypt_json env key blob aad = Inr d" shows "dict_ok d"
proof -
  obtain raw bound where b: "(case aes_gcm_decrypt (ce_aes env) key (take 12 raw) (drop 12 raw) bound of
      Inl (AesGcmError _) \<Rightarrow> Inl (CipherError ''credentials failed authentication (wrong key or tampered/swapped row)'')
    | Inl e \<Rightarrow> Inl (CipherCrypto e) | Inr plaintext \<Rightarrow> parse_credentials env plaintext) = Inr d"
    using assms unfolding decrypt_json_def rbind_Inr_iff by (auto simp: rbind_Inr_iff split: if_splits option.splits)
  then show ?thesis
    by (cases "aes_gcm_decrypt (ce_aes env) key (take 12 raw) (drop 12 raw) bound")
      (auto dest: parse_credentials_dict_ok split: crypto_error.splits)
qed

lemma incoming_dict_ok:
  assumes "incoming_settings env key w = Inr s" "dict_ok (ow_settings w)"
  shows "dict_ok s"
  using assms
  by (auto simp: incoming_settings_def open_import_credentials_def rbind_Inr_iff map_sum_Inr_iff Let_def
      intro!: dict_ok_update dest: decrypt_json_dict_ok split: option.splits if_splits)

definition merged_as_specified :: "codec_env \<Rightarrow> codec_key \<Rightarrow> (string \<times> outbound) list \<Rightarrow> outbound_write \<Rightarrow> outbound \<Rightarrow> bool" where
  "merged_as_specified env key previous w ob \<longleftrightarrow>
     ob_name ob = ow_name w \<and> ob_kind ob = ow_kind w \<and> ob_enabled ob = ow_enabled w \<and>
     (\<exists>s. incoming_settings env key w = Inr s \<and> (\<forall>k. dict_in k s \<longrightarrow> \<not> py_prefix ''_policy_'' k) \<and>
        (\<forall>k. dict_get (ob_settings ob) k = merged_setting (old_secrets_of previous w) (ow_clear_secret_keys w) s k))"

lemma merge_write_specified:
  assumes "merge_write env key previous w = Inr ob" "dict_ok (ow_settings w)"
    and "dict_ok (old_secrets_of previous w)" "\<forall>(k, v) \<in> set (old_secrets_of previous w). is_secret_setting k"
  shows "merged_as_specified env key previous w ob"
proof -
  let ?clear = "remdups (ow_clear_secret_keys w)"
  obtain s where s: "incoming_settings env key w = Inr s" "keys_where (py_prefix ''_policy_'') s = []"
      "sort (filter (\<lambda>k. \<not> is_secret_setting k) ?clear) = []"
      "ob = \<lparr>ob_name = ow_name w, ob_kind = ow_kind w, ob_settings = merge_settings (old_secrets_of previous w) ?clear s,
         ob_enabled = ow_enabled w, ob_nodes = []\<rparr>"
    using assms(1)
    by (auto simp: merge_write_def rbind_Inr_iff Let_def safe_validate_def map_sum_Inr_iff dest!: make_outbound_name split: if_splits)
  have "\<forall>k \<in> set ?clear. is_secret_setting k"
    using s(3) by (metis (mono_tags, lifting) filter_empty_conv set_empty set_sort)
  from merge_settings_get [OF incoming_dict_ok [OF s(1) assms(2)] assms(3,4) this]
  have "dict_get (ob_settings ob) k = merged_setting (old_secrets_of previous w) (ow_clear_secret_keys w) s k" for k
    by (simp add: s(4) merged_setting_def)
  moreover have "\<not> py_prefix ''_policy_'' k" if "dict_in k s" for k
    using s(2) that by (auto simp: keys_where_Nil dict_in_set)
  ultimately show ?thesis using s(1) by (auto simp: merged_as_specified_def s(4))
qed

lemma merge_list_specified:
  assumes "merge_list env key previous ws = Inr obs" "\<forall>w \<in> set ws. dict_ok (ow_settings w)"
    and "\<And>w. dict_ok (old_secrets_of previous w)" "\<And>w. \<forall>(k, v) \<in> set (old_secrets_of previous w). is_secret_setting k"
  shows "list_all2 (merged_as_specified env key previous) ws obs"
  using assms(1,2)
proof (induction ws arbitrary: obs)
  case (Cons w ws)
  then obtain ob obs' where o: "merge_write env key previous w = Inr ob" "merge_list env key previous ws = Inr obs'" "obs = ob # obs'"
    by (auto simp: rbind_Inr_iff)
  then show ?case using merge_write_specified [OF o(1) _ assms(3,4)] Cons by simp
qed simp

text \<open>
  The specification of one merged write, from the form, the opened import and the stored profiles alone. \<open>imported\<close> says
  what a sealed import holds, \<open>stored_setting\<close> what the last stored profile of that name has under a key if it is of
  the same kind, \<open>submitted\<close> what the write submits for a key: the value of the form, else that of the import.
\<close>

definition imported :: "codec_env \<Rightarrow> codec_key \<Rightarrow> outbound_write \<Rightarrow> settings \<Rightarrow> bool" where
  "imported env key w creds \<longleftrightarrow>
     (if ow_sealed_credentials w \<in> {None, Some []} then creds = []
      else \<exists>blob k. ow_sealed_credentials w = Some blob \<and> key = Some k \<and>
        decrypt_json (cd_cipher env) k blob (''outbound-import:'' @ kind_value (ow_kind w)) = Inr creds)"

definition submitted :: "outbound_write \<Rightarrow> settings \<Rightarrow> string \<Rightarrow> pyval option" where
  "submitted w creds k = (if dict_get (ow_settings w) k \<noteq> None then dict_get (ow_settings w) k else dict_get creds k)"

definition stored_setting :: "outbound list \<Rightarrow> outbound_write \<Rightarrow> string \<Rightarrow> pyval option" where
  "stored_setting existing w k =
     (case filter (\<lambda>ob. ob_name ob = ow_name w) existing of
        [] \<Rightarrow> None
      | named \<Rightarrow> if ob_kind (last named) = ow_kind w then dict_get (ob_settings (last named)) k else None)"

definition merged_write :: "codec_env \<Rightarrow> codec_key \<Rightarrow> outbound list \<Rightarrow> outbound_write \<Rightarrow> outbound \<Rightarrow> bool" where
  "merged_write env key existing w ob \<longleftrightarrow>
     ob_name ob = ow_name w \<and> ob_kind ob = ow_kind w \<and> ob_enabled ob = ow_enabled w \<and>
     (\<exists>creds. imported env key w creds \<and>
       (\<forall>k. submitted w creds k \<noteq> None \<longrightarrow> \<not> py_prefix ''_policy_'' k) \<and>
       (\<forall>k. dict_get (ob_settings ob) k =
          (if \<not> is_secret_setting k then dict_get (ow_settings w) k
           else if k \<in> set (ow_clear_secret_keys w) then None
           else if submitted w creds k \<in> {None, Some VNone, Some (VStr [])} then stored_setting existing w k
           else submitted w creds k)))"

lemma previous_get:
  "dict_get (dict_update [] (map (\<lambda>ob. (ob_name ob, ob)) existing)) n =
     (case filter (\<lambda>ob. ob_name ob = n) existing of [] \<Rightarrow> None | named \<Rightarrow> Some (last named))"
proof -
  have "dict_get (dict_update d (map (\<lambda>ob. (ob_name ob, ob)) obs)) n =
      (case filter (\<lambda>ob. ob_name ob = n) obs of [] \<Rightarrow> dict_get d n | named \<Rightarrow> Some (last named))" for d obs
    by (induction obs arbitrary: d) (auto simp: dict_update_def split: list.splits)
  from this [of "[]" existing] show ?thesis by (auto split: list.splits)
qed

lemma old_secrets_get:
  assumes "is_secret_setting k"
  shows "dict_get (old_secrets_of (dict_update [] (map (\<lambda>ob. (ob_name ob, ob)) existing)) w) k = stored_setting existing w k"
  using assms by (auto simp: old_secrets_of_def previous_get stored_setting_def split_get split: list.splits)

lemma incoming_imported:
  assumes "incoming_settings env key w = Inr s" "dict_ok (ow_settings w)"
  obtains creds where "imported env key w creds" "\<And>k. dict_get s k = submitted w creds k"
    "\<And>k. \<not> is_secret_setting k \<Longrightarrow> dict_get creds k = None"
proof (cases "ow_sealed_credentials w \<in> {None, Some []}")
  case True
  then have "s = ow_settings w" using assms(1) by (auto simp: incoming_settings_def)
  then show ?thesis using True that [of "[]"] by (auto simp: imported_def submitted_def)
next
  case False
  then obtain blob k creds where b: "ow_sealed_credentials w = Some blob" "blob \<noteq> []" "key = Some k"
      "decrypt_json (cd_cipher env) k blob (import_aad (ow_kind w)) = Inr creds" "s = dict_update creds (ow_settings w)"
      "keys_where (\<lambda>k. \<not> is_secret_setting k) creds = []"
    using assms(1) by (auto simp: incoming_settings_def open_import_credentials_def rbind_Inr_iff map_sum_Inr_iff Let_def
        split: option.splits if_splits)
  have "dict_get creds x = None" if "\<not> is_secret_setting x" for x
    using b(6) that by (auto simp: keys_where_Nil map_of_eq_None_iff)
  moreover have "imported env key w creds" using False b by (auto simp: imported_def import_aad_def)
  moreover have "dict_get s x = submitted w creds x" for x
    using assms(2) by (auto simp: b(5) dict_get_update submitted_def split: option.splits)
  ultimately show ?thesis using that by blast
qed

lemma merged_write_holds:
  assumes "merged_as_specified env key (dict_update [] (map (\<lambda>ob. (ob_name ob, ob)) existing)) w ob" "dict_ok (ow_settings w)"
  shows "merged_write env key existing w ob"
proof -
  obtain s where s: "incoming_settings env key w = Inr s" "\<forall>k. dict_in k s \<longrightarrow> \<not> py_prefix ''_policy_'' k"
      "\<forall>k. dict_get (ob_settings ob) k =
        merged_setting (old_secrets_of (dict_update [] (map (\<lambda>ob. (ob_name ob, ob)) existing)) w) (ow_clear_secret_keys w) s k"
    using assms(1) by (auto simp: merged_as_specified_def)
  obtain creds where c: "imported env key w creds" "\<And>k. dict_get s k = submitted w creds k"
      "\<And>k. \<not> is_secret_setting k \<Longrightarrow> dict_get creds k = None"
    using incoming_imported [OF s(1) assms(2)] by blast
  have "submitted w creds k = dict_get (ow_settings w) k" if "\<not> is_secret_setting k" for k
    using c(3) [OF that] by (simp add: submitted_def)
  then have "dict_get (ob_settings ob) k =
      (if \<not> is_secret_setting k then dict_get (ow_settings w) k
       else if k \<in> set (ow_clear_secret_keys w) then None
       else if submitted w creds k \<in> {None, Some VNone, Some (VStr [])} then stored_setting existing w k
       else submitted w creds k)" for k
    using s(3) [rule_format, of k] old_secrets_get [of k existing w] c(2) [of k]
    by (auto simp: merged_setting_def blank_def split: option.splits)
  then show ?thesis
    using assms(1) c(1,2) s(2) unfolding merged_as_specified_def merged_write_def dict_in_def by auto
qed

text \<open>
  C26: A successful merge of API writes into the stored profiles yields one profile per write, in order, with the name, kind and
  flag of the write. Its public settings are those of the form. A secret listed for clearing is gone; a secret submitted
  with a value, in the form or else in the opened import, has that value; a secret left out or blank keeps the value of
  the last stored profile with the same name if that has the same kind, and is absent otherwise. No deployment-only key is
  accepted.
\<close>
theorem merge_writes_specified:
  assumes "merge_writes env key writes existing = Inr obs"
    and "\<forall>w \<in> set writes. dict_ok (ow_settings w)" "\<forall>ob \<in> set existing. dict_ok (ob_settings ob)"
  shows "list_all2 (merged_write env key existing) writes obs"
proof -
  have "list_all2 (merged_as_specified env key (dict_update [] (map (\<lambda>ob. (ob_name ob, ob)) existing))) writes obs"
    using assms old_secrets_ok [of existing]
    by (intro merge_list_specified) (auto simp: merge_writes_def list_all_iff)
  then show ?thesis
    using assms(2) merged_write_holds
    by (auto simp: list_all2_conv_all_nth)
qed

definition ex_write :: outbound_write where
  "ex_write = \<lparr>ow_name = ''Warp-EU'', ow_kind = SOCKS, ow_settings = [(''password'', VStr []), (''server'', VStr ''c.d'')],
     ow_enabled = True, ow_secret_state = [], ow_clear_secret_keys = [''token''], ow_sealed_credentials = None\<rparr>"

definition ex_other :: outbound where
  "ex_other = ex_outbound\<lparr>ob_name := ''Other'', ob_kind := HTTP\<rparr>"

text \<open>The blank password keeps the stored one; a profile stored with another kind gives nothing.\<close>

theorem merge_writes_specified_witness:
  "\<exists>ob. merge_writes ex_codec None [ex_write] [ex_outbound, ex_other] = Inr [ob] \<and>
     merged_write ex_codec None [ex_outbound, ex_other] ex_write ob \<and>
     dict_get (ob_settings ob) ''password'' = Some (VStr ''pw'') \<and>
     stored_setting [ex_outbound, ex_other] (ex_write\<lparr>ow_name := ''Other''\<rparr>) ''password'' = None"
proof -
  let ?ob = "\<lparr>ob_name = ''Warp-EU'', ob_kind = SOCKS, ob_settings = [(''server'', VStr ''c.d''), (''password'', VStr ''pw'')],
     ob_enabled = True, ob_nodes = []\<rparr>"
  have "merge_writes ex_codec None [ex_write] [ex_outbound, ex_other] = Inr [?ob]"
    unfolding ex_codec_def ex_cipher_env_def by code_simp
  moreover from merge_writes_specified [OF this]
  have "merged_write ex_codec None [ex_outbound, ex_other] ex_write ?ob"
    by (simp add: ex_write_def ex_outbound_def ex_other_def)
  moreover have "stored_setting [ex_outbound, ex_other] (ex_write\<lparr>ow_name := ''Other''\<rparr>) ''password'' = None" by code_simp
  ultimately show ?thesis by auto
qed

end
