(* ===== verification/OutboundManager.thy ===== *)
theory OutboundManager
  imports OutboundModel
begin

text \<open>
  \<open>app/cores/outbounds/manager.py\<close>: the registry of outbounds, the resolution of chain targets with its cycle guard,
  and the deployment fan-out; with \<open>decorate\<close> of \<open>app/cores/routing/policy.py\<close>. The drivers of the cores, the free port
  the kernel hands out and the policy layer's \<open>prepare\<close> (host commands) are parameters over a state of the
  world \<open>'w\<close> that they read and change; a raised exception of theirs is its text.
\<close>

section \<open>Drivers and state\<close>

record chain_endpoint =
  ep_protocol :: string
  ep_host :: string
  ep_port :: int
  ep_metadata :: settings

record translated_outbound =
  to_core_id :: string
  to_applied :: "string list"
  to_unsupported :: "(string \<times> string) list"
  to_notes :: "string list"
  to_payload :: "settings list"
  to_materialized :: "(string \<times> outbound) list"

record 'w core_driver =
  supports_chain_routing :: bool
  supports_outbound_management :: bool
  get_chain_endpoints :: "'w \<Rightarrow> (string + chain_endpoint list) \<times> 'w"
  ensure_chain_listener :: "pyval \<Rightarrow> int \<Rightarrow> 'w \<Rightarrow> (string + chain_endpoint) \<times> 'w"
  deploy_outbounds :: "outbound list \<Rightarrow> 'w \<Rightarrow> (string + translated_outbound) \<times> 'w"

record live_domain =
  ld_ready :: bool
  ld_proxy_port :: int
  ld_fwmark :: int
  ld_table_id :: int
  ld_interface :: string
  ld_vrf_interface :: "string option"

record 'w policy_plane =
  pp_prepare :: "outbound list \<Rightarrow> 'w \<Rightarrow> (string + string list) \<times> 'w"
  pp_domains :: "'w \<Rightarrow> (string \<times> live_domain) list"

record 'w manager_env =
  me_outbound :: outbound_env
  me_cores :: "(string \<times> 'w core_driver) list"
  me_free_port :: "'w \<Rightarrow> int \<times> 'w"
  me_policy :: "'w policy_plane option"

datatype manager_error =
    OutboundExists string
  | OutboundMissing string
  | ChainTargetNotInstalled string
  | BadCoreId
  | ChainIntoItself string
  | ChainCycle string string
  | CoreNotFound string
  | NoChainRouting string
  | EndpointInexpressible string
  | InvalidMaterialized string
  | DriverRaised string
  | PolicyRaised string

record manager_state =
  om_outbounds :: "(string \<times> outbound) list"
  om_last_report :: "(string \<times> translated_outbound) list option"

section \<open>Registry\<close>

definition cores_get :: "'w manager_env \<Rightarrow> string \<Rightarrow> 'w core_driver option" where
  "cores_get env core_id = dict_get (me_cores env) core_id"

definition validate_external :: "'w manager_env \<Rightarrow> outbound \<Rightarrow> manager_error + unit" where
  "validate_external env ob =
     (if ob_kind ob = CORE then
        (case vget (ob_settings ob) ''core_id'' of
           VStr c \<Rightarrow> (case cores_get env c of None \<Rightarrow> Inl (ChainTargetNotInstalled c) | Some _ \<Rightarrow> Inr ())
         | _ \<Rightarrow> Inl BadCoreId)
      else Inr ())"

definition om_register :: "'w manager_env \<Rightarrow> outbound \<Rightarrow> manager_state \<Rightarrow> manager_error + manager_state" where
  "om_register env ob st =
     (if dict_in (ob_name ob) (om_outbounds st) then Inl (OutboundExists (ob_name ob))
      else rbind (validate_external env ob) (\<lambda>_. Inr (st\<lparr>om_outbounds := dict_set (ob_name ob) ob (om_outbounds st)\<rparr>)))"

definition om_unregister :: "string \<Rightarrow> manager_state \<Rightarrow> manager_error + manager_state" where
  "om_unregister name st =
     (if \<not> dict_in name (om_outbounds st) then Inl (OutboundMissing name)
      else Inr (st\<lparr>om_outbounds := dict_pop name (om_outbounds st)\<rparr>))"

definition om_get :: "string \<Rightarrow> manager_state \<Rightarrow> manager_error + outbound" where
  "om_get name st = (case dict_get (om_outbounds st) name of None \<Rightarrow> Inl (OutboundMissing name) | Some ob \<Rightarrow> Inr ob)"

definition om_list :: "manager_state \<Rightarrow> outbound list" where
  "om_list st = filter ob_enabled (map snd (om_outbounds st))"

section \<open>The chain graph\<close>

text \<open>\<open>chain_edges\<close>: for each core, the cores its outbounds chain into (a Python set, kept here without repetitions).\<close>

type_synonym chain_edges = "(string \<times> string list) list"

definition edges_from :: "chain_edges \<Rightarrow> string \<Rightarrow> string list" where
  "edges_from edges node = (case dict_get edges node of None \<Rightarrow> [] | Some ts \<Rightarrow> ts)"

definition add_edge :: "string \<Rightarrow> string \<Rightarrow> chain_edges \<Rightarrow> chain_edges" where
  "add_edge a b edges =
     (let ts = edges_from edges a in dict_set a (if b \<in> set ts then ts else ts @ [b]) edges)"

lemma edges_from_key: "edges_from edges node \<noteq> [] \<Longrightarrow> node \<in> set (dict_keys edges)"
  using dict_in_set [of node edges] by (auto simp: edges_from_def dict_in_def split: option.splits)

lemma keys_seen_less:
  "node \<in> K \<Longrightarrow> node \<notin> set seen \<Longrightarrow> finite K \<Longrightarrow> card (K - insert node (set seen)) < card (K - set seen)"
  by (rule psubset_card_mono) auto

text \<open>
  The loop of \<open>_reaches\<close>; the head of the list is the top of the stack. It ends because every node that has
  successors is expanded at most once.
\<close>

function reaches_loop :: "chain_edges \<Rightarrow> string \<Rightarrow> string list \<Rightarrow> string list \<Rightarrow> bool" where
  "reaches_loop edges goal [] seen = False"
| "reaches_loop edges goal (node # stack) seen =
     (if node = goal then True
      else if node \<in> set seen then reaches_loop edges goal stack seen
      else reaches_loop edges goal (rev (edges_from edges node) @ stack) (node # seen))"
  by pat_completeness auto

termination
proof (relation "measures [\<lambda>(edges, goal, stack, seen). card (set (dict_keys edges) - set seen), \<lambda>(edges, goal, stack, seen). length stack]")
  fix edges :: chain_edges and goal node :: string and stack seen :: "string list"
  assume n: "node \<noteq> goal" "node \<notin> set seen"
  let ?K = "set (dict_keys edges)"
  have le: "card (?K - insert node (set seen)) \<le> card (?K - set seen)" by (rule card_mono) auto
  show "((edges, goal, rev (edges_from edges node) @ stack, node # seen), edges, goal, node # stack, seen)
      \<in> measures [\<lambda>(edges, goal, stack, seen). card (set (dict_keys edges) - set seen), \<lambda>(edges, goal, stack, seen). length stack]"
  proof (cases "node \<in> ?K")
    case True
    then show ?thesis using keys_seen_less [OF True n(2)] by simp
  next
    case False
    then have "edges_from edges node = []" using edges_from_key by blast
    then show ?thesis using le by auto
  qed
qed auto

definition reaches :: "chain_edges \<Rightarrow> string \<Rightarrow> string \<Rightarrow> bool" where
  "reaches edges start goal = reaches_loop edges goal [start] []"

section \<open>Chain resolution\<close>

definition ENDPOINT_KIND :: "(string \<times> outbound_kind) list" where
  "ENDPOINT_KIND =
     [(''socks'', SOCKS), (''http'', HTTP), (''vless'', VLESS), (''vmess'', VMESS), (''trojan'', TROJAN),
      (''shadowsocks'', SHADOWSOCKS), (''wireguard'', WIREGUARD), (''hysteria2'', HYSTERIA2), (''tuic'', TUIC), (''ssh'', SSH)]"

definition METADATA_KEYS :: "(string \<times> string list) list" where
  "METADATA_KEYS =
     [(''wireguard'', [''private_key'', ''peer_public_key'', ''local_address'', ''allowed_ips'', ''reserved'', ''mtu'']),
      (''hysteria2'', [''password'', ''sni'', ''insecure'', ''alpn'', ''obfs'']),
      (''tuic'', [''uuid'', ''password'', ''sni'', ''insecure'', ''alpn'', ''congestion_control'']),
      (''ssh'', [''username'', ''password''])]"

definition endpoint_settings :: "chain_endpoint \<Rightarrow> settings" where
  "endpoint_settings ep =
     fold (\<lambda>key s. case dict_get (ep_metadata ep) key of None \<Rightarrow> s | Some v \<Rightarrow> dict_set key v s)
       (case dict_get METADATA_KEYS (ep_protocol ep) of None \<Rightarrow> [] | Some ks \<Rightarrow> ks)
       [(''server'', VStr (ep_host ep)), (''server_port'', VInt (ep_port ep))]"

text \<open>The target's endpoint for the preferred protocol, or a listener opened for it.\<close>

definition chain_endpoint_of ::
  "'w manager_env \<Rightarrow> 'w core_driver \<Rightarrow> string \<Rightarrow> pyval \<Rightarrow> 'w \<Rightarrow> (manager_error + chain_endpoint) \<times> 'w"
where
  "chain_endpoint_of env driver target preferred w =
     (case get_chain_endpoints driver w of
        (Inl e, w1) \<Rightarrow> (Inl (DriverRaised e), w1)
      | (Inr endpoints, w1) \<Rightarrow>
          (case filter (\<lambda>e. VStr (ep_protocol e) = preferred) endpoints of
             ep # _ \<Rightarrow> (Inr ep, w1)
           | [] \<Rightarrow>
               if \<not> supports_chain_routing driver then (Inl (NoChainRouting target), w1)
               else (case me_free_port env w1 of (port, w2) \<Rightarrow>
                       (case ensure_chain_listener driver preferred port w2 of (r, w3) \<Rightarrow> (map_sum DriverRaised id r, w3)))))"

definition materialize ::
  "'w manager_env \<Rightarrow> string \<Rightarrow> outbound \<Rightarrow> chain_edges \<times> 'w \<Rightarrow> (manager_error + outbound) \<times> chain_edges \<times> 'w"
where
  "materialize env requester ob ew =
     (let (edges, w) = ew
      in if ob_kind ob \<noteq> CORE then (Inr ob, edges, w)
         else case vget (ob_settings ob) ''core_id'' of
           VStr target \<Rightarrow>
             if target = requester then (Inl (ChainIntoItself (ob_name ob)), edges, w)
             else if reaches edges target requester then (Inl (ChainCycle requester target), edges, w)
             else (case cores_get env target of
               None \<Rightarrow> (Inl (CoreNotFound target), edges, w)
             | Some driver \<Rightarrow>
                 (case chain_endpoint_of env driver target
                     (case dict_get (ob_settings ob) ''protocol'' of None \<Rightarrow> VStr ''socks'' | Some v \<Rightarrow> v) w of
                    (Inl e, w1) \<Rightarrow> (Inl e, edges, w1)
                  | (Inr ep, w1) \<Rightarrow>
                      (case dict_get ENDPOINT_KIND (ep_protocol ep) of
                         None \<Rightarrow> (Inl (EndpointInexpressible (ep_protocol ep)), edges, w1)
                       | Some kind \<Rightarrow>
                           (map_sum InvalidMaterialized id
                              (make_outbound (me_outbound env)
                                \<lparr>ob_name = ob_name ob, ob_kind = kind, ob_settings = endpoint_settings ep, ob_enabled = True, ob_nodes = []\<rparr>),
                            add_edge requester target edges, w1))))
         | _ \<Rightarrow> (Inl BadCoreId, edges, w))"

text \<open>\<open>outbound.settings.get("core_id") == core_id\<close> for a chain outbound.\<close>

definition chains_into :: "string \<Rightarrow> outbound \<Rightarrow> bool" where
  "chains_into core_id ob \<longleftrightarrow> ob_kind ob = CORE \<and> vget (ob_settings ob) ''core_id'' = VStr core_id"

fun materialize_for ::
  "'w manager_env \<Rightarrow> string \<Rightarrow> outbound list \<Rightarrow> (string \<times> outbound) list \<Rightarrow> chain_edges \<times> 'w
     \<Rightarrow> (manager_error + (string \<times> outbound) list) \<times> chain_edges \<times> 'w"
where
  "materialize_for env core_id [] resolved ew = (Inr resolved, ew)"
| "materialize_for env core_id (ob # obs) resolved ew =
     (if chains_into core_id ob then materialize_for env core_id obs resolved ew
      else case materialize env core_id ob ew of
        (Inl e, ew1) \<Rightarrow> (Inl e, ew1)
      | (Inr m, ew1) \<Rightarrow> materialize_for env core_id obs (dict_set (ob_name ob) m resolved) ew1)"

section \<open>Deployment\<close>

definition policy_decorate :: "(string \<times> live_domain) list \<Rightarrow> outbound \<Rightarrow> outbound" where
  "policy_decorate doms ob =
     (case dict_get doms (ob_name ob) of
        None \<Rightarrow> ob
      | Some d \<Rightarrow>
          if \<not> ld_ready d then ob
          else ob\<lparr>ob_settings :=
            dict_update (dict_set ''_policy_socks_port'' (VInt (ld_proxy_port d)) (ob_settings ob))
              [(''_policy_mark'', VInt (ld_fwmark d)), (''_policy_table'', VInt (ld_table_id d)),
               (''_policy_interface'', VStr (ld_interface d)),
               (''_policy_vrf'', case ld_vrf_interface d of None \<Rightarrow> VNone | Some i \<Rightarrow> VStr i)]\<rparr>)"

text \<open>The outbounds of one core: notes for chains into it, everything else resolved and decorated.\<close>

fun resolve_outbounds ::
  "'w manager_env \<Rightarrow> string \<Rightarrow> outbound list \<Rightarrow> chain_edges \<times> 'w \<Rightarrow> (manager_error + outbound list \<times> string list) \<times> chain_edges \<times> 'w"
where
  "resolve_outbounds env core_id [] ew = (Inr ([], []), ew)"
| "resolve_outbounds env core_id (ob # obs) ew =
     (if chains_into core_id ob then
        (case resolve_outbounds env core_id obs ew of
           (Inl e, ew1) \<Rightarrow> (Inl e, ew1)
         | (Inr (ms, notes), ew1) \<Rightarrow>
             (Inr (ms, (''outbound '' @ ob_name ob @ '' chains INTO this core; not materialized locally.'') # notes), ew1))
      else case materialize env core_id ob ew of
        (Inl e, ew1) \<Rightarrow> (Inl e, ew1)
      | (Inr m, ew1) \<Rightarrow>
          (let m' = (case me_policy env of None \<Rightarrow> m | Some pol \<Rightarrow> policy_decorate (pp_domains pol (snd ew1)) m)
           in case resolve_outbounds env core_id obs ew1 of
                (Inl e, ew2) \<Rightarrow> (Inl e, ew2)
              | (Inr (ms, notes), ew2) \<Rightarrow> (Inr (m' # ms, notes), ew2)))"

definition policy_only_report :: "string \<Rightarrow> string list \<Rightarrow> outbound list \<Rightarrow> translated_outbound" where
  "policy_only_report core_id doms active =
     (let handled = (\<lambda>ob. ob_kind ob \<in> {DIRECT, BLOCK, BLACKHOLE} \<or> ob_name ob \<in> set doms)
      in \<lparr>to_core_id = core_id, to_applied = map ob_name (filter handled active),
          to_unsupported = map (\<lambda>ob. (ob_name ob, ''Core '' @ core_id @ '' has no native outbound management and no kernel policy domain could represent this profile.''))
            (filter (\<lambda>ob. \<not> handled ob) active),
          to_notes = [''service traffic uses the shared Linux policy-routing plane''], to_payload = [], to_materialized = []\<rparr>)"

fun deploy_targets ::
  "'w manager_env \<Rightarrow> outbound list \<Rightarrow> string list \<Rightarrow> string list \<Rightarrow> (string \<times> translated_outbound) list \<Rightarrow> chain_edges \<times> 'w
     \<Rightarrow> (manager_error + (string \<times> translated_outbound) list) \<times> chain_edges \<times> 'w"
where
  "deploy_targets env active doms [] results ew = (Inr results, ew)"
| "deploy_targets env active doms (core_id # core_ids) results ew =
     (case cores_get env core_id of
        None \<Rightarrow> deploy_targets env active doms core_ids results ew
      | Some driver \<Rightarrow>
          if \<not> supports_outbound_management driver then
            deploy_targets env active doms core_ids (dict_set core_id (policy_only_report core_id doms active) results) ew
          else
            (case resolve_outbounds env core_id active ew of
               (Inl e, ew1) \<Rightarrow> (Inl e, ew1)
             | (Inr (resolved, notes), (edges1, w1)) \<Rightarrow>
                 (case deploy_outbounds driver resolved w1 of
                    (Inl e, w2) \<Rightarrow> (Inl (DriverRaised e), (edges1, w2))
                  | (Inr report, w2) \<Rightarrow>
                      deploy_targets env active doms core_ids
                        (dict_set core_id (report\<lparr>to_notes := to_notes report @ notes\<rparr>) results) (edges1, w2))))"

definition POLICY_CORES :: "string list" where
  "POLICY_CORES = [''xray'', ''sing-box'', ''openvpn'', ''wireguard'', ''softether'', ''ssh'', ''pptp'']"

definition om_deploy ::
  "'w manager_env \<Rightarrow> string list option \<Rightarrow> manager_state \<times> 'w
     \<Rightarrow> (manager_error + (string \<times> translated_outbound) list) \<times> manager_state \<times> 'w"
where
  "om_deploy env core_ids sw =
     (let (st, w) = sw; active = om_list st;
          targets = (case core_ids of None \<Rightarrow> dict_keys (me_cores env) | Some cs \<Rightarrow> cs);
          (prepared, w0) =
            (case me_policy env of
               None \<Rightarrow> (Inr [], w)
             | Some pol \<Rightarrow> if set POLICY_CORES \<inter> set targets \<noteq> {} then pp_prepare pol active w else (Inr [], w))
      in case prepared of
           Inl e \<Rightarrow> (Inl (PolicyRaised e), st, w0)
         | Inr doms \<Rightarrow>
             (case deploy_targets env active doms targets [] ([], w0) of
                (Inl e, ew) \<Rightarrow> (Inl e, st, snd ew)
              | (Inr results, ew) \<Rightarrow> (Inr results, st\<lparr>om_last_report := Some results\<rparr>, snd ew)))"

section \<open>The cycle guard\<close>

definition chain_rel :: "chain_edges \<Rightarrow> (string \<times> string) set" where
  "chain_rel edges = {(a, b). b \<in> set (edges_from edges a)}"

lemma chain_rel_Nil [simp]: "chain_rel [] = {}"
  by (simp add: chain_rel_def edges_from_def)

lemma chain_rel_add_edge: "chain_rel (add_edge a b edges) = insert (a, b) (chain_rel edges)"
  by (auto simp: chain_rel_def add_edge_def edges_from_def Let_def split: if_splits option.splits)

text \<open>
  Invariant of the loop: the expanded nodes are not the goal, and their successors are expanded or on the stack. So the
  goal is reachable from the work list exactly when it is reachable from the stack.
\<close>

definition expanded :: "chain_edges \<Rightarrow> string \<Rightarrow> string list \<Rightarrow> string list \<Rightarrow> bool" where
  "expanded edges goal stack seen \<longleftrightarrow>
     (\<forall>s \<in> set seen. s \<noteq> goal \<and> (\<forall>t. (s, t) \<in> chain_rel edges \<longrightarrow> t \<in> set seen \<or> t \<in> set stack))"

lemma expanded_closed:
  assumes "expanded edges goal [] seen" "x \<in> set seen" "(x, t) \<in> (chain_rel edges)\<^sup>*"
  shows "t \<in> set seen"
  using assms(3,2) by (induction rule: rtrancl_induct) (use assms(1) in \<open>auto simp: expanded_def\<close>)

lemma expanded_drop: "expanded edges goal (node # stack) seen \<Longrightarrow> node \<in> set seen \<Longrightarrow> expanded edges goal stack seen"
  by (auto simp: expanded_def)

lemma expanded_push:
  "expanded edges goal (node # stack) seen \<Longrightarrow> node \<noteq> goal \<Longrightarrow> expanded edges goal (rev (edges_from edges node) @ stack) (node # seen)"
  by (auto simp: expanded_def chain_rel_def)

lemma reaches_loop_iff:
  "expanded edges goal stack seen \<Longrightarrow>
     reaches_loop edges goal stack seen \<longleftrightarrow> (\<exists>x \<in> set stack \<union> set seen. (x, goal) \<in> (chain_rel edges)\<^sup>*)"
proof (induction edges goal stack seen rule: reaches_loop.induct)
  case (1 edges goal seen)
  have "goal \<notin> set seen" using 1 by (auto simp: expanded_def)
  then show ?case using expanded_closed [OF 1] by auto
next
  case (2 edges goal node stack seen)
  let ?R = "chain_rel edges"
  consider (found) "node = goal" | (again) "node \<noteq> goal" "node \<in> set seen" | (fresh) "node \<noteq> goal" "node \<notin> set seen" by blast
  then show ?case
  proof cases
    case again
    have "set (node # stack) \<union> set seen = set stack \<union> set seen" using again by auto
    then show ?thesis using "2.IH"(1) [OF again expanded_drop [OF "2.prems" again(2)]] again by simp
  next
    case fresh
    have "(\<exists>x \<in> set (rev (edges_from edges node) @ stack) \<union> set (node # seen). (x, goal) \<in> ?R\<^sup>*) \<longleftrightarrow>
        (\<exists>x \<in> set (node # stack) \<union> set seen. (x, goal) \<in> ?R\<^sup>*)"
    proof -
      have "(node, goal) \<in> ?R\<^sup>*" if "x \<in> set (edges_from edges node)" "(x, goal) \<in> ?R\<^sup>*" for x
        by (rule converse_rtrancl_into_rtrancl [OF _ that(2)]) (use that(1) in \<open>simp add: chain_rel_def\<close>)
      then show ?thesis by auto
    qed
    then show ?thesis using "2.IH"(2) [OF fresh expanded_push [OF "2.prems" fresh(1)]] fresh by simp
  qed (auto intro: bexI [of _ goal])
qed

lemma reaches_rtrancl: "reaches edges start goal \<longleftrightarrow> (start, goal) \<in> (chain_rel edges)\<^sup>*"
  using reaches_loop_iff [of edges goal "[start]" "[]"] by (simp add: reaches_def expanded_def)

text \<open>
  The depth-first search of the cycle guard ends on every graph, cyclic ones included, and answers exactly whether the goal can
  be reached from the start along the recorded chain edges.
\<close>
lemma reaches_is_reachability: "reaches edges start goal \<longleftrightarrow> (start, goal) \<in> (chain_rel edges)\<^sup>*"
  by (rule reaches_rtrancl)

text \<open>Resolving an endpoint never reports a cycle.\<close>

lemma chain_endpoint_of_error:
  "chain_endpoint_of env driver target preferred w = (Inl e, w') \<Longrightarrow> e \<noteq> ChainCycle a b"
  by (auto simp: chain_endpoint_of_def split: prod.splits sum.splits list.splits if_splits) (metis manager_error.distinct map_sum.simps sum.exhaust sum.inject(1) sum.simps(4))

text \<open>What one resolution does to the graph: nothing, or one edge to a target that does not reach the requester.\<close>

lemma materialize_edges:
  assumes "materialize env requester ob (edges, w) = (r, edges', w')"
  shows "edges' = edges \<or> (\<exists>target. vget (ob_settings ob) ''core_id'' = VStr target \<and> ob_kind ob = CORE \<and>
    (target, requester) \<notin> (chain_rel edges)\<^sup>* \<and> edges' = add_edge requester target edges)"
  using assms
  by (auto simp: materialize_def Let_def reaches_rtrancl split: if_splits pyval.splits option.splits prod.splits sum.splits)

lemma materialize_acyclic:
  assumes "materialize env requester ob (edges, w) = (r, edges', w')" "acyclic (chain_rel edges)"
  shows "acyclic (chain_rel edges')" "chain_rel edges \<subseteq> chain_rel edges'"
  using materialize_edges [OF assms(1)] assms(2) by (auto simp: chain_rel_add_edge acyclic_insert)

lemma resolve_outbounds_acyclic:
  assumes "resolve_outbounds env core_id obs (edges, w) = (r, edges', w')" "acyclic (chain_rel edges)"
  shows "acyclic (chain_rel edges') \<and> chain_rel edges \<subseteq> chain_rel edges'"
  using assms
proof (induction obs arbitrary: edges w r)
  case (Cons ob obs)
  show ?case
  proof (cases "chains_into core_id ob")
    case True
    then show ?thesis using Cons by (force split: prod.splits sum.splits)
  next
    case False
    obtain m edges1 w1 where m: "materialize env core_id ob (edges, w) = (m, edges1, w1)" by (metis prod_cases3)
    note ok = materialize_acyclic [OF m Cons.prems(2)]
    show ?thesis
    proof (cases m)
      case (Inl e)
      then show ?thesis using Cons.prems(1) False m ok by auto
    next
      case (Inr x)
      obtain r2 where "resolve_outbounds env core_id obs (edges1, w1) = (r2, edges', w')"
        using Cons.prems(1) False m Inr by (auto simp: Let_def split: prod.splits sum.splits)
      from Cons.IH [OF this ok(1)] ok(2) show ?thesis by blast
    qed
  qed
qed auto

lemma deploy_targets_acyclic:
  assumes "deploy_targets env active doms cores results (edges, w) = (r, edges', w')" "acyclic (chain_rel edges)"
  shows "acyclic (chain_rel edges') \<and> chain_rel edges \<subseteq> chain_rel edges'"
  using assms
proof (induction cores arbitrary: results edges w)
  case (Cons core_id cores)
  show ?case
  proof (cases "cores_get env core_id")
    case (Some driver)
    show ?thesis
    proof (cases "supports_outbound_management driver")
      case True
      obtain x edges1 w1 where x: "resolve_outbounds env core_id active (edges, w) = (x, edges1, w1)" by (metis prod_cases3)
      note ok = resolve_outbounds_acyclic [OF x Cons.prems(2)]
      show ?thesis
      proof (cases x)
        case (Inr p)
        obtain d w2 where d: "deploy_outbounds driver (fst p) w1 = (d, w2)" by (metis prod.exhaust)
        show ?thesis
        proof (cases d)
          case (Inr report)
          have "\<exists>res. deploy_targets env active doms cores res (edges1, w2) = (r, edges', w')"
            using Cons.prems(1) Some True x \<open>x = Inr p\<close> d Inr by (cases p) auto
          then obtain res where "deploy_targets env active doms cores res (edges1, w2) = (r, edges', w')" ..
          from Cons.IH [OF this] ok show ?thesis by blast
        qed (use Cons.prems(1) Some True x Inr d ok in \<open>cases p; auto\<close>)
      qed (use Cons.prems(1) Some True x ok in auto)
    qed (use Cons Some in auto)
  qed (use Cons in auto)
qed auto

text \<open>
  C5: The chain plan of a deployment stays free of cycles: from an acyclic plan, pushing any list of cores ends with an acyclic plan
  that extends it, whether the push succeeds or fails. The guard is exact: a chain outbound is refused as a
  cycle when its target already reaches the requesting core, and only then.
\<close>
theorem chain_plan_acyclic:
  assumes "acyclic (chain_rel edges)"
  shows "(deploy_targets env active doms cores results (edges, w) = (r, edges', w') \<longrightarrow>
      acyclic (chain_rel edges') \<and> chain_rel edges \<subseteq> chain_rel edges') \<and>
    (ob_kind ob = CORE \<longrightarrow> vget (ob_settings ob) ''core_id'' = VStr target \<longrightarrow> target \<noteq> requester \<longrightarrow>
      ((target, requester) \<in> (chain_rel edges)\<^sup>* \<longleftrightarrow> fst (materialize env requester ob (edges, w)) = Inl (ChainCycle requester target)))"
proof (intro conjI impI)
  assume "deploy_targets env active doms cores results (edges, w) = (r, edges', w')"
  from deploy_targets_acyclic [OF this assms]
  show "acyclic (chain_rel edges')" "chain_rel edges \<subseteq> chain_rel edges'" by blast+
next
  assume "ob_kind ob = CORE" "vget (ob_settings ob) ''core_id'' = VStr target" "target \<noteq> requester"
  then show "(target, requester) \<in> (chain_rel edges)\<^sup>* \<longleftrightarrow> fst (materialize env requester ob (edges, w)) = Inl (ChainCycle requester target)"
    by (auto simp: materialize_def Let_def reaches_rtrancl map_sum_def chain_endpoint_of_error
        split: option.splits prod.splits sum.splits)
qed

text \<open>Two cores that chain into each other; the world is the log of pushed cores.\<close>

definition ex_driver :: "string \<Rightarrow> string list core_driver" where
  "ex_driver c = \<lparr>supports_chain_routing = True, supports_outbound_management = True,
     get_chain_endpoints = \<lambda>w. (Inr [\<lparr>ep_protocol = ''socks'', ep_host = ''127.0.0.1'', ep_port = 41001, ep_metadata = []\<rparr>], w),
     ensure_chain_listener = \<lambda>_ _ w. (Inl ''unused'', w),
     deploy_outbounds = \<lambda>obs w. (Inr \<lparr>to_core_id = c, to_applied = map ob_name obs, to_unsupported = [], to_notes = [], to_payload = [],
       to_materialized = []\<rparr>, w @ [c])\<rparr>"

definition ex_manager :: "string list manager_env" where
  "ex_manager = \<lparr>me_outbound = \<lparr>oe_show = \<lambda>_. [], oe_bracket_ok = \<lambda>_. False, oe_is_ip = \<lambda>_. False\<rparr>,
     me_cores = [(''xray'', ex_driver ''xray''), (''sing-box'', ex_driver ''sing-box'')], me_free_port = \<lambda>w. (1, w), me_policy = None\<rparr>"

definition ex_chain :: "string \<Rightarrow> string \<Rightarrow> outbound" where
  "ex_chain name target = \<lparr>ob_name = name, ob_kind = CORE, ob_settings = [(''core_id'', VStr target)], ob_enabled = True, ob_nodes = []\<rparr>"

lemma ex_deploy_cycle:
  "deploy_targets ex_manager [ex_chain ''a1'' ''sing-box'', ex_chain ''a2'' ''xray''] [] [''xray'', ''sing-box''] [] ([], []) =
     (Inl (ChainCycle ''sing-box'' ''xray''), [(''xray'', [''sing-box''])], [''xray''])"
  by (simp add: ex_manager_def ex_driver_def ex_chain_def cores_get_def chains_into_def vget_def materialize_def chain_endpoint_of_def
      ENDPOINT_KIND_def METADATA_KEYS_def endpoint_settings_def make_outbound_def validate_outbound_def check_core_def check_policy_core_def
      check_server_def text_of_def py_or_def py_strip_def py_lower_def refuse_def outbound_name_ok_def reaches_def edges_from_def add_edge_def
      PPP_CLIENT_KINDS_def SERVER_KINDS_def XRAY_KINDS_def alnum_def is_word_def is_digit_def name_char_def)

theorem chain_plan_acyclic_witness:
  "acyclic (chain_rel [(''xray'', [''sing-box''])]) \<and>
   fst (materialize ex_manager ''sing-box'' (ex_chain ''a2'' ''xray'') ([(''xray'', [''sing-box''])], [])) = Inl (ChainCycle ''sing-box'' ''xray'')"
proof -
  let ?e = "[(''xray'', [''sing-box''])]" and ?ob = "ex_chain ''a2'' ''xray''"
  have r: "chain_rel ?e = {(''xray'', ''sing-box'')}" by (auto simp: chain_rel_def edges_from_def split: if_splits)
  have "acyclic (chain_rel [])" by (simp add: acyclic_def)
  from chain_plan_acyclic [OF this, THEN conjunct1, rule_format, OF ex_deploy_cycle]
  have a: "acyclic (chain_rel ?e)" by blast
  have p: "(''xray'', ''sing-box'') \<in> (chain_rel ?e)\<^sup>*" unfolding r by (rule r_into_rtrancl) simp
  have k: "ob_kind ?ob = CORE" "vget (ob_settings ?ob) ''core_id'' = VStr ''xray''" "''xray'' \<noteq> ''sing-box''"
    by (simp_all add: ex_chain_def vget_def)
  from chain_plan_acyclic [OF a, THEN conjunct2, rule_format, OF k, THEN iffD1, OF p, of ex_manager "[]"] a
  show ?thesis by (rule conjI [rotated])
qed

section \<open>Failures\<close>

lemma deploy_targets_append:
  "deploy_targets env active doms (pre @ post) results ew =
     (case deploy_targets env active doms pre results ew of
        (Inl e, ew1) \<Rightarrow> (Inl e, ew1)
      | (Inr res, ew1) \<Rightarrow> deploy_targets env active doms post res ew1)"
  by (induction pre arbitrary: results ew) (auto split: prod.splits sum.splits option.splits)

lemma deploy_targets_fails_at:
  assumes "deploy_targets env active doms cores results ew = (Inl e, ew')"
  shows "\<exists>pre core_id post res ew1. cores = pre @ core_id # post \<and> deploy_targets env active doms pre results ew = (Inr res, ew1) \<and>
    deploy_targets env active doms [core_id] res ew1 = (Inl e, ew')"
  using assms
proof (induction cores arbitrary: results ew)
  case (Cons c cores)
  obtain r ew1 where r: "deploy_targets env active doms [c] results ew = (r, ew1)" by (metis prod.exhaust)
  show ?case
  proof (cases r)
    case (Inl x)
    then have "deploy_targets env active doms [c] results ew = (Inl e, ew')"
      using r Cons.prems deploy_targets_append [of env active doms "[c]" cores results ew] by simp
    moreover have "c # cores = [] @ c # cores" "deploy_targets env active doms [] results ew = (Inr results, ew)" by simp_all
    ultimately show ?thesis by blast
  next
    case (Inr res)
    then have "deploy_targets env active doms cores res ew1 = (Inl e, ew')"
      using r Cons.prems deploy_targets_append [of env active doms "[c]" cores results ew] by simp
    from Cons.IH [OF this] obtain pre d post res2 ew2 where ih: "cores = pre @ d # post"
        "deploy_targets env active doms pre res ew1 = (Inr res2, ew2)" "deploy_targets env active doms [d] res2 ew2 = (Inl e, ew')" by blast
    have "deploy_targets env active doms (c # pre) results ew = (Inr res2, ew2)"
      using r Inr ih(2) deploy_targets_append [of env active doms "[c]" pre results ew] by simp
    moreover have "c # cores = (c # pre) @ d # post" using ih(1) by simp
    ultimately show ?thesis using ih(3) by blast
  qed
qed auto

text \<open>
  A deployment that raises leaves the registry and the last report as they were, but it is not a transaction: unless the policy
  layer refused at the start, the failure is at one core, and the cores before it in the target order have been
  pushed, in the state of the world in which the failing core was tried. A chain cycle is one such failure.
\<close>
lemma failed_deploy_is_partial:
  assumes "om_deploy env core_ids (st, w) = (Inl e, st', w')"
  shows "st' = st \<and>
    ((\<exists>msg. e = PolicyRaised msg) \<or>
     (\<exists>doms w0 pre core_id post res edges1 w1 edges2.
        (case core_ids of None \<Rightarrow> dict_keys (me_cores env) | Some cs \<Rightarrow> cs) = pre @ core_id # post \<and>
        deploy_targets env (om_list st) doms pre [] ([], w0) = (Inr res, edges1, w1) \<and>
        deploy_targets env (om_list st) doms [core_id] res (edges1, w1) = (Inl e, edges2, w')))"
proof -
  let ?targets = "case core_ids of None \<Rightarrow> dict_keys (me_cores env) | Some cs \<Rightarrow> cs"
  obtain prepared w0 where p: "(case me_policy env of None \<Rightarrow> (Inr [], w)
      | Some pol \<Rightarrow> if set POLICY_CORES \<inter> set ?targets \<noteq> {} then pp_prepare pol (om_list st) w else (Inr [], w)) = (prepared, w0)"
    by (metis prod.exhaust)
  show ?thesis
  proof (cases prepared)
    case (Inl msg)
    then show ?thesis using assms p by (auto simp: om_deploy_def Let_def)
  next
    case (Inr doms)
    obtain r edges' w2 where r: "deploy_targets env (om_list st) doms ?targets [] ([], w0) = (r, edges', w2)" by (metis prod_cases3)
    have "om_deploy env core_ids (st, w) =
        (case r of Inl e \<Rightarrow> (Inl e, st, w2) | Inr results \<Rightarrow> (Inr results, st\<lparr>om_last_report := Some results\<rparr>, w2))"
      using p Inr r by (simp add: om_deploy_def Let_def split: sum.splits)
    then have f: "st' = st" "deploy_targets env (om_list st) doms ?targets [] ([], w0) = (Inl e, edges', w')"
      using assms r by (auto split: sum.splits)
    obtain pre core_id post res ew1 where d: "?targets = pre @ core_id # post"
        "deploy_targets env (om_list st) doms pre [] ([], w0) = (Inr res, ew1)" "deploy_targets env (om_list st) doms [core_id] res ew1 = (Inl e, edges', w')"
      using deploy_targets_fails_at [OF f(2)] by blast
    then show ?thesis using f(1) by (cases ew1) blast
  qed
qed

definition ex_manager_state :: manager_state where
  "ex_manager_state = \<lparr>om_outbounds = [(''a1'', ex_chain ''a1'' ''sing-box''), (''a2'', ex_chain ''a2'' ''xray'')], om_last_report = None\<rparr>"

lemma failed_deploy_is_partial_example:
  "om_deploy ex_manager None (ex_manager_state, []) = (Inl (ChainCycle ''sing-box'' ''xray''), ex_manager_state, [''xray'']) \<and>
   (\<exists>doms w0 pre core_id post res edges1 w1 edges2. [''xray'', ''sing-box''] = pre @ core_id # post \<and>
      deploy_targets ex_manager (om_list ex_manager_state) doms pre [] ([], w0) = (Inr res, edges1, w1) \<and>
      deploy_targets ex_manager (om_list ex_manager_state) doms [core_id] res (edges1, w1) = (Inl (ChainCycle ''sing-box'' ''xray''), edges2, [''xray'']))"
proof -
  have c: "dict_keys (me_cores ex_manager) = [''xray'', ''sing-box'']" "me_policy ex_manager = None"
    "om_list ex_manager_state = [ex_chain ''a1'' ''sing-box'', ex_chain ''a2'' ''xray'']"
    by (simp_all add: ex_manager_def ex_manager_state_def om_list_def ex_chain_def)
  then have d: "om_deploy ex_manager None (ex_manager_state, []) = (Inl (ChainCycle ''sing-box'' ''xray''), ex_manager_state, [''xray''])"
    using ex_deploy_cycle by (simp add: om_deploy_def)
  show ?thesis using failed_deploy_is_partial [OF d] d c(1) by auto
qed

end
