(* ===== verification/OutboundRender.thy ===== *)
theory OutboundRender
  imports OutboundStore
begin

text \<open>
  \<open>app/cores/outbounds/stream_render.py\<close> and \<open>wireguard_profile.py\<close>: the transport and security blocks of proxy outbounds for
  the two native cores, and the import of WireGuard client profiles. Parameters: \<open>str()\<close> of floats and
  containers, the INI parser (\<open>configparser\<close>) and the address normalisation of \<open>ipaddress\<close>.
\<close>

section \<open>Transport and security blocks\<close>

definition truthy_flag :: "pyval \<Rightarrow> bool" where
  "truthy_flag raw \<longleftrightarrow>
     list_ex (py_eq raw) [VBool True, VStr ''true'', VStr ''True'', VInt 1, VStr ''1'']"

definition comma_parts :: "string \<Rightarrow> string list" where
  "comma_parts s = filter (\<lambda>p. p \<noteq> []) (map py_strip (split_on (CHR '','') s))"

definition split_alpn :: "(pyval \<Rightarrow> string) \<Rightarrow> pyval \<Rightarrow> string list" where
  "split_alpn show raw =
     (if \<not> truthy raw then []
      else case raw of
        VList xs \<Rightarrow> filter (\<lambda>p. p \<noteq> []) (map (\<lambda>x. py_strip (py_str show x)) xs)
      | _ \<Rightarrow> comma_parts (py_str show raw))"

text \<open>\<open>str(s.get(key) or dflt)\<close>, and \<open>{name: str(s[key])} if s.get(key) else {}\<close>.\<close>

definition get_str :: "(pyval \<Rightarrow> string) \<Rightarrow> settings \<Rightarrow> string \<Rightarrow> string \<Rightarrow> string" where
  "get_str show s key dflt = py_str show (py_or (vget s key) (VStr dflt))"

definition opt_str :: "(pyval \<Rightarrow> string) \<Rightarrow> settings \<Rightarrow> string \<Rightarrow> string \<Rightarrow> settings" where
  "opt_str show s key name = (if truthy (vget s key) then [(name, VStr (py_str show (vget s key)))] else [])"

definition opt_field :: "bool \<Rightarrow> string \<Rightarrow> pyval \<Rightarrow> settings" where
  "opt_field b name v = (if b then [(name, v)] else [])"

definition server_name_of :: "(pyval \<Rightarrow> string) \<Rightarrow> settings \<Rightarrow> string" where
  "server_name_of show s = py_strip (py_str show (py_or (py_or (vget s ''sni'') (vget s ''server'')) (VStr [])))"

definition lowered_field :: "(pyval \<Rightarrow> string) \<Rightarrow> settings \<Rightarrow> string \<Rightarrow> string \<Rightarrow> string" where
  "lowered_field show s key dflt = py_lower (py_strip (get_str show s key dflt))"

definition vstrs :: "string list \<Rightarrow> pyval" where
  "vstrs xs = VList (map VStr xs)"

definition xray_transport :: "(pyval \<Rightarrow> string) \<Rightarrow> settings \<Rightarrow> string \<Rightarrow> settings" where
  "xray_transport show s network =
     (let path = (''path'', VStr (get_str show s ''path'' ''/''))
      in if network = ''ws'' then
           [(''network'', VStr network),
            (''wsSettings'', VDict (path # opt_field (truthy (vget s ''host'')) ''headers''
               (VDict [(''Host'', VStr (py_str show (vget s ''host'')))])))]
         else if network = ''httpupgrade'' then
           [(''network'', VStr network), (''httpupgradeSettings'', VDict (path # opt_str show s ''host'' ''host''))]
         else if network = ''splithttp'' then
           [(''network'', VStr ''xhttp''), (''xhttpSettings'', VDict (path # opt_str show s ''host'' ''host''))]
         else if network = ''http'' then
           [(''network'', VStr network),
            (''httpSettings'', VDict (path # opt_field (truthy (vget s ''host'')) ''host'' (vstrs (comma_parts (py_str show (vget s ''host''))))))]
         else if network = ''grpc'' then
           [(''network'', VStr network),
            (''grpcSettings'', VDict (opt_str show s ''serviceName'' ''serviceName'' @ opt_str show s ''authority'' ''authority'' @
               opt_field (lowered_field show s ''mode'' [] = ''multi'') ''multiMode'' (VBool True)))]
         else if network = ''kcp'' then
           (let header_type = py_strip (get_str show s ''headerType'' []);
                kcp = opt_field (header_type \<noteq> [] \<and> header_type \<noteq> ''none'') ''header'' (VDict [(''type'', VStr header_type)]) @
                  opt_str show s ''seed'' ''seed''
            in (''network'', VStr network) # opt_field (kcp \<noteq> []) ''kcpSettings'' (VDict kcp))
         else [(''network'', VStr network)])"

definition xray_security :: "(pyval \<Rightarrow> string) \<Rightarrow> settings \<Rightarrow> string \<Rightarrow> settings" where
  "xray_security show s security =
     (let server_name = server_name_of show s; named = opt_field (server_name \<noteq> []) ''serverName'' (VStr server_name);
          alpn = split_alpn show (vget s ''alpn'')
      in if security = ''tls'' then
           [(''security'', VStr ''tls''),
            (''tlsSettings'', VDict (named @ opt_field (alpn \<noteq> []) ''alpn'' (vstrs alpn) @ opt_str show s ''fingerprint'' ''fingerprint'' @
               opt_field (truthy_flag (vget s ''allow_insecure'')) ''allowInsecure'' (VBool True)))]
         else if security = ''reality'' then
           [(''security'', VStr ''reality''),
            (''realitySettings'', VDict (named @ opt_str show s ''reality_public_key'' ''publicKey'' @
               opt_str show s ''reality_short_id'' ''shortId'' @ opt_str show s ''fingerprint'' ''fingerprint'' @
               [(''spiderX'', VStr (get_str show s ''reality_spider_x'' ''/''))]))]
         else [(''security'', VStr ''none'')])"

definition xray_stream_settings :: "(pyval \<Rightarrow> string) \<Rightarrow> settings \<Rightarrow> settings option" where
  "xray_stream_settings show s =
     (let network = lowered_field show s ''network'' ''tcp''; security = lowered_field show s ''security'' ''none'';
          stream = xray_transport show s network @ xray_security show s security
      in if vget stream ''network'' = VStr ''tcp'' \<and> vget stream ''security'' = VStr ''none'' \<and> length stream = 2
         then None else Some stream)"

definition singbox_tls :: "(pyval \<Rightarrow> string) \<Rightarrow> settings \<Rightarrow> string \<Rightarrow> settings option" where
  "singbox_tls show s security =
     (let server_name = server_name_of show s; alpn = split_alpn show (vget s ''alpn'')
      in if security \<in> {''tls'', ''reality''} \<and> server_name \<noteq> [] then
           Some ([(''enabled'', VBool True), (''server_name'', VStr server_name)] @ opt_field (alpn \<noteq> []) ''alpn'' (vstrs alpn) @
             opt_field (truthy_flag (vget s ''allow_insecure'')) ''insecure'' (VBool True) @
             opt_field (truthy (vget s ''fingerprint'')) ''utls''
               (VDict [(''enabled'', VBool True), (''fingerprint'', VStr (py_str show (vget s ''fingerprint'')))]) @
             opt_field (security = ''reality'') ''reality''
               (VDict [(''enabled'', VBool True), (''public_key'', VStr (get_str show s ''reality_public_key'' [])),
                       (''short_id'', VStr (get_str show s ''reality_short_id'' []))]))
         else None)"

definition singbox_transport :: "(pyval \<Rightarrow> string) \<Rightarrow> settings \<Rightarrow> string \<Rightarrow> settings option" where
  "singbox_transport show s network =
     (let path = (''path'', VStr (get_str show s ''path'' ''/''))
      in if network = ''ws'' then
           Some ([(''type'', VStr ''ws''), path] @ opt_field (truthy (vget s ''host'')) ''headers''
             (VDict [(''Host'', VStr (py_str show (vget s ''host'')))]))
         else if network = ''http'' then
           Some ([(''type'', VStr ''http''), path] @
             opt_field (truthy (vget s ''host'')) ''host'' (vstrs (comma_parts (py_str show (vget s ''host'')))))
         else if network = ''httpupgrade'' then Some ([(''type'', VStr ''httpupgrade''), path] @ opt_str show s ''host'' ''host'')
         else if network = ''grpc'' then Some ((''type'', VStr ''grpc'') # opt_str show s ''serviceName'' ''service_name'')
         else None)"

definition singbox_tls_and_transport :: "(pyval \<Rightarrow> string) \<Rightarrow> settings \<Rightarrow> settings option \<times> settings option" where
  "singbox_tls_and_transport show s =
     (singbox_tls show s (lowered_field show s ''security'' ''none''), singbox_transport show s (lowered_field show s ''network'' ''tcp''))"

section \<open>WireGuard profiles\<close>

text \<open>\<open>base64.b64decode(value, validate=True)\<close>: full groups over the standard alphabet, padding at the end only.\<close>

definition b64decode_strict :: "string \<Rightarrow> bytes option" where
  "b64decode_strict s =
     (let body = rstrip_eq s
      in if length s mod 4 = 0 \<and> length s \<le> length body + 2 \<and>
            list_all (\<lambda>c. b64_index c \<noteq> None \<and> c \<noteq> CHR ''-'' \<and> c \<noteq> CHR ''_'') body
         then a2b 0 0 0 s else None)"

record wg_env =
  wg_read_ini :: "string \<Rightarrow> (string \<times> (string \<times> string) list) list option"
  wg_ip_interface :: "string \<Rightarrow> string option"
  wg_ip_network :: "string \<Rightarrow> string option"

definition wg_key :: "string \<Rightarrow> string \<Rightarrow> bool \<Rightarrow> string + string" where
  "wg_key value label optional =
     (let value = py_strip value
      in if optional \<and> value = [] then Inr []
         else case b64decode_strict value of
           None \<Rightarrow> Inl (label @ '' must be a base64 WireGuard key'')
         | Some raw \<Rightarrow> if length raw \<noteq> 32 then Inl (label @ '' must decode to exactly 32 bytes'') else Inr value)"

text \<open>\<open>[host]:port\<close> first, then the last colon.\<close>

definition wg_bracketed :: "string \<Rightarrow> (string \<times> string) option" where
  "wg_bracketed value =
     (case value of
        c # rest \<Rightarrow>
          (let host = takeWhile (\<lambda>x. x \<noteq> CHR '']'') rest; after = dropWhile (\<lambda>x. x \<noteq> CHR '']'') rest
           in if c = CHR ''['' \<and> host \<noteq> [] \<and> take 2 after = '']:'' \<and> drop 2 after \<noteq> [] \<and> list_all is_digit (drop 2 after)
              then Some (host, drop 2 after) else None)
      | [] \<Rightarrow> None)"

definition wg_endpoint :: "string \<Rightarrow> string + (string \<times> int)" where
  "wg_endpoint value =
     (let value = py_strip value;
          split = (case wg_bracketed value of
             Some p \<Rightarrow> Some p
           | None \<Rightarrow>
               (let tail = takeWhile (\<lambda>c. c \<noteq> CHR '':'') (rev value); front = dropWhile (\<lambda>c. c \<noteq> CHR '':'') (rev value)
                in if front = [] then None else Some (rev (tl front), rev tail)))
      in case split of
           None \<Rightarrow> Inl ''Peer Endpoint must be host:port (IPv6 must use [address]:port)''
         | Some (host, port_raw) \<Rightarrow>
             (case int_of_str port_raw of
                None \<Rightarrow> Inl ''Peer Endpoint port must be an integer''
              | Some port \<Rightarrow>
                  if py_strip host = [] \<or> \<not> (1 \<le> port \<and> port \<le> 65535) then Inl ''Peer Endpoint must contain a valid host and port''
                  else Inr (py_strip host, port)))"

definition section_get :: "(string \<times> string) list \<Rightarrow> string \<Rightarrow> string" where
  "section_get sec key = (case dict_get sec key of None \<Rightarrow> [] | Some v \<Rightarrow> v)"

definition wg_number :: "(string \<times> string) list \<Rightarrow> string \<Rightarrow> int \<Rightarrow> int \<Rightarrow> int \<Rightarrow> string + int" where
  "wg_number sec key dflt low high =
     (let raw = section_get sec key
      in if raw = [] then Inr dflt
         else case int_of_str raw of
           None \<Rightarrow> Inl (key @ '' must be an integer'')
         | Some n \<Rightarrow> if low \<le> n \<and> n \<le> high then Inr n else Inl (key @ '' is out of range''))"

text \<open>The lines that read \<open>[peer]\<close>, in any case, with white space around.\<close>

definition peer_lines :: "string \<Rightarrow> nat" where
  "peer_lines text = length (filter (\<lambda>l. py_lower (py_strip l) = ''[peer]'') (split_on (CHR 0x0A) text))"

definition some_or :: "string \<Rightarrow> 'a option \<Rightarrow> string + 'a" where
  "some_or msg r = (case r of None \<Rightarrow> Inl msg | Some x \<Rightarrow> Inr x)"

definition BOM :: string where
  "BOM = [CHR 0xEF, CHR 0xBB, CHR 0xBF]"

function lstrip_bom :: "string \<Rightarrow> string" where
  "lstrip_bom s = (if take 3 s = BOM then lstrip_bom (drop 3 s) else s)"
  by pat_completeness auto
termination
proof (relation "measure length")
  fix s :: string
  assume "take 3 s = BOM"
  then show "(drop 3 s, s) \<in> measure length" by (cases s) (auto simp: BOM_def)
qed simp

declare lstrip_bom.simps [simp del]

definition wg_settings :: "wg_env \<Rightarrow> (string \<times> string) list \<Rightarrow> (string \<times> string) list \<Rightarrow> string + settings" where
  "wg_settings env wg_if peer =
     rbind (wg_key (section_get wg_if ''privatekey'') ''Interface PrivateKey'' False) (\<lambda>private_key.
     rbind (wg_key (section_get peer ''publickey'') ''Peer PublicKey'' False) (\<lambda>peer_public_key.
     rbind (wg_key (section_get peer ''presharedkey'') ''Peer PresharedKey'' True) (\<lambda>preshared_key.
     rbind (let given = comma_parts (section_get wg_if ''address'')
            in if given = [] then Inl ''Interface Address is required''
               else some_or ''invalid Interface Address'' (those (map (wg_ip_interface env) given))) (\<lambda>addresses.
     rbind (let nets = comma_parts (section_get peer ''allowedips'')
            in some_or ''invalid Peer AllowedIPs'' (those (map (wg_ip_network env) (if nets = [] then [''0.0.0.0/0'', ''::/0''] else nets)))) (\<lambda>allowed_ips.
     rbind (wg_endpoint (section_get peer ''endpoint'')) (\<lambda>ep.
     let dns = comma_parts (section_get wg_if ''dns'') in
     rbind (wg_number wg_if ''mtu'' 1420 576 9000) (\<lambda>mtu.
     rbind (wg_number peer ''persistentkeepalive'' 25 0 65535) (\<lambda>keepalive.
       Inr ([(''server'', VStr (fst ep)), (''server_port'', VInt (snd ep)), (''private_key'', VStr private_key),
             (''peer_public_key'', VStr peer_public_key), (''local_address'', vstrs addresses), (''allowed_ips'', vstrs allowed_ips)] @
            opt_field (preshared_key \<noteq> []) ''preshared_key'' (VStr preshared_key) @ opt_field (dns \<noteq> []) ''dns'' (vstrs dns) @
            [(''mtu'', VInt mtu), (''keepalive'', VInt keepalive)])))))))))"

definition parse_wireguard_profile :: "wg_env \<Rightarrow> string \<Rightarrow> string + settings" where
  "parse_wireguard_profile env content =
     (let text = py_strip (lstrip_bom content)
      in if text = [] then Inl ''WireGuard profile is empty''
         else if peer_lines text \<noteq> 1 then Inl ''WireGuard outbound import requires exactly one [Peer]''
         else rbind (some_or ''invalid WireGuard INI profile'' (wg_read_ini env text)) (\<lambda>ini.
           if set (dict_keys ini) \<noteq> {''Interface'', ''Peer''} then Inl ''WireGuard profile must contain exactly [Interface] and [Peer]''
           else wg_settings env (case dict_get ini ''Interface'' of None \<Rightarrow> [] | Some x \<Rightarrow> x)
                  (case dict_get ini ''Peer'' of None \<Rightarrow> [] | Some x \<Rightarrow> x)))"

section \<open>Facts\<close>

text \<open>A plain TCP profile without security renders to nothing in both cores, and only such a profile does in Xray.\<close>

lemma xray_none_iff:
  "xray_stream_settings show s = None \<longleftrightarrow>
     lowered_field show s ''network'' ''tcp'' = ''tcp'' \<and> lowered_field show s ''security'' ''none'' \<notin> {''tls'', ''reality''}"
  by (auto simp: xray_stream_settings_def xray_transport_def xray_security_def vget_def Let_def opt_field_def split: if_splits)

text \<open>Both renderers announce the same server name when they secure a connection.\<close>

lemma renderers_same_server_name:
  assumes "singbox_tls_and_transport show s = (Some tls, transport)"
  shows "\<exists>stream block sett. xray_stream_settings show s = Some stream \<and>
    (block, sett) \<in> {(''tls'', ''tlsSettings''), (''reality'', ''realitySettings'')} \<and> dict_get stream ''security'' = Some (VStr block) \<and>
    (\<exists>d. dict_get stream sett = Some (VDict d) \<and> dict_get d ''serverName'' = dict_get tls ''server_name'')"
proof -
  let ?sec = "lowered_field show s ''security'' ''none''" and ?net = "lowered_field show s ''network'' ''tcp''"
  have t: "?sec \<in> {''tls'', ''reality''}" "server_name_of show s \<noteq> []" "dict_get tls ''server_name'' = Some (VStr (server_name_of show s))"
    using assms by (auto simp: singbox_tls_and_transport_def singbox_tls_def Let_def opt_field_def split: if_splits)
  have keys: "k \<notin> set (dict_keys (xray_transport show s ?net))" if "k \<in> {''security'', ''tlsSettings'', ''realitySettings''}" for k
    using that by (auto simp: xray_transport_def Let_def opt_field_def split: if_splits)
  have st: "xray_stream_settings show s = Some (xray_transport show s ?net @ xray_security show s ?sec)"
    using xray_none_iff [of "show" s] t(1) by (auto simp: xray_stream_settings_def Let_def split: if_splits)
  have "dict_get (xray_transport show s ?net @ xray_security show s ?sec) k = dict_get (xray_security show s ?sec) k"
    if "k \<in> {''security'', ''tlsSettings'', ''realitySettings''}" for k
    using keys [OF that] map_of_eq_None_iff [of "xray_transport show s ?net" k] by (simp add: map_add_def split: option.splits)
  with t st show ?thesis by (auto simp: xray_security_def Let_def opt_field_def)
qed

lemma some_or_Inr [simp]: "some_or msg r = Inr x \<longleftrightarrow> r = Some x"
  by (auto simp: some_or_def split: option.splits)

lemma wg_number_range: "wg_number sec key dflt low high = Inr n \<Longrightarrow> low \<le> dflt \<Longrightarrow> dflt \<le> high \<Longrightarrow> low \<le> n \<and> n \<le> high"
  by (auto simp: wg_number_def Let_def split: if_splits option.splits)

lemma wg_endpoint_ok: "wg_endpoint value = Inr ep \<Longrightarrow> fst ep \<noteq> [] \<and> 1 \<le> snd ep \<and> snd ep \<le> 65535"
  by (auto simp: wg_endpoint_def Let_def split: option.splits if_splits)

lemma wg_key_ok: "wg_key value label False = Inr k \<Longrightarrow> \<exists>raw. b64decode_strict k = Some raw \<and> length raw = 32"
  by (auto simp: wg_key_def Let_def split: option.splits if_splits)

text \<open>The parts of an accepted profile.\<close>

lemma wg_settings_parts:
  assumes "wg_settings env wg_if peer = Inr s"
  shows "\<exists>ep priv pub psk addrs nets dns mtu keepalive.
    s = [(''server'', VStr (fst ep)), (''server_port'', VInt (snd ep)), (''private_key'', VStr priv), (''peer_public_key'', VStr pub),
        (''local_address'', vstrs addrs), (''allowed_ips'', vstrs nets)] @ opt_field (psk \<noteq> []) ''preshared_key'' (VStr psk) @
        opt_field (dns \<noteq> []) ''dns'' (vstrs dns) @ [(''mtu'', VInt mtu), (''keepalive'', VInt keepalive)] \<and>
    wg_endpoint (section_get peer ''endpoint'') = Inr ep \<and>
    wg_key (section_get wg_if ''privatekey'') ''Interface PrivateKey'' False = Inr priv \<and>
    wg_key (section_get peer ''publickey'') ''Peer PublicKey'' False = Inr pub \<and>
    wg_number wg_if ''mtu'' 1420 576 9000 = Inr mtu \<and> wg_number peer ''persistentkeepalive'' 25 0 65535 = Inr keepalive"
  using assms unfolding wg_settings_def rbind_Inr_iff Let_def
  by (elim exE conjE) (simp only: Inr_inject, blast)

lemma parse_wireguard_parts:
  "parse_wireguard_profile env content = Inr s \<Longrightarrow> \<exists>wg_if peer. wg_settings env wg_if peer = Inr s"
  by (auto simp: parse_wireguard_profile_def rbind_Inr_iff Let_def split: if_splits)

text \<open>
  An imported WireGuard profile is a valid outbound: what the importer accepts passes every check of the profile model, its two
  keys decode to 32 bytes each, its port, MTU and keepalive are in range, and the private and the preshared key are
  stored as credentials while the rest of the profile is public.
\<close>
lemma wireguard_import_valid:
  assumes "parse_wireguard_profile env content = Inr s"
  shows "validate_outbound oenv WIREGUARD s = Inr () \<and> dict_ok s \<and>
    (\<forall>k \<in> {''private_key'', ''peer_public_key''}. \<exists>t raw. dict_get s k = Some (VStr t) \<and> b64decode_strict t = Some raw \<and> length raw = 32) \<and>
    (\<exists>port mtu keepalive. dict_get s ''server_port'' = Some (VInt port) \<and> dict_get s ''mtu'' = Some (VInt mtu) \<and>
       dict_get s ''keepalive'' = Some (VInt keepalive) \<and> 1 \<le> port \<and> port \<le> 65535 \<and> 576 \<le> mtu \<and> mtu \<le> 9000 \<and> 0 \<le> keepalive \<and> keepalive \<le> 65535) \<and>
    (\<forall>k \<in> set (dict_keys s). is_secret_setting k \<longleftrightarrow> k \<in> {''private_key'', ''preshared_key''})"
proof -
  obtain wg_if peer where w: "wg_settings env wg_if peer = Inr s" using parse_wireguard_parts [OF assms] by blast
  obtain ep priv pub psk addrs nets dns mtu keepalive where s:
    "s = [(''server'', VStr (fst ep)), (''server_port'', VInt (snd ep)), (''private_key'', VStr priv), (''peer_public_key'', VStr pub),
        (''local_address'', vstrs addrs), (''allowed_ips'', vstrs nets)] @ opt_field (psk \<noteq> []) ''preshared_key'' (VStr psk) @
        opt_field (dns \<noteq> []) ''dns'' (vstrs dns) @ [(''mtu'', VInt mtu), (''keepalive'', VInt keepalive)]"
    and ep: "wg_endpoint (section_get peer ''endpoint'') = Inr ep"
    and keys: "wg_key (section_get wg_if ''privatekey'') ''Interface PrivateKey'' False = Inr priv"
      "wg_key (section_get peer ''publickey'') ''Peer PublicKey'' False = Inr pub"
    and num: "wg_number wg_if ''mtu'' 1420 576 9000 = Inr mtu" "wg_number peer ''persistentkeepalive'' 25 0 65535 = Inr keepalive"
    using wg_settings_parts [OF w] by (elim exE conjE) (rule that, assumption+)
  have secret: "is_secret_setting ''private_key''" "is_secret_setting ''preshared_key''" "\<not> is_secret_setting ''server''"
    "\<not> is_secret_setting ''server_port''" "\<not> is_secret_setting ''peer_public_key''" "\<not> is_secret_setting ''local_address''"
    "\<not> is_secret_setting ''allowed_ips''" "\<not> is_secret_setting ''dns''" "\<not> is_secret_setting ''mtu''" "\<not> is_secret_setting ''keepalive''"
    by code_simp+
  have g: "vget s ''core_id'' = VNone" "vget s ''policy_core'' = VNone" "vget s ''server'' = VStr (fst ep)"
    by (simp_all add: s vget_def opt_field_def)
  have "validate_outbound oenv WIREGUARD s = Inr ()"
    using wg_endpoint_ok [OF ep]
    by (simp add: g validate_outbound_def check_core_def check_policy_core_def check_server_def PPP_CLIENT_KINDS_def SERVER_KINDS_def
        text_of_def py_or_def py_strip_def py_lower_def refuse_def Let_def)
  moreover have "dict_ok s" by (simp add: s opt_field_def)
  moreover have "\<exists>raw. b64decode_strict priv = Some raw \<and> length raw = 32" "\<exists>raw. b64decode_strict pub = Some raw \<and> length raw = 32"
    using wg_key_ok [OF keys(1)] wg_key_ok [OF keys(2)] by blast+
  then have "\<forall>k \<in> {''private_key'', ''peer_public_key''}. \<exists>t raw. dict_get s k = Some (VStr t) \<and> b64decode_strict t = Some raw \<and> length raw = 32"
    by (simp add: s)
  moreover have "1 \<le> snd ep \<and> snd ep \<le> 65535" "576 \<le> mtu \<and> mtu \<le> 9000" "0 \<le> keepalive \<and> keepalive \<le> 65535"
    using wg_endpoint_ok [OF ep] wg_number_range [OF num(1)] wg_number_range [OF num(2)] by simp_all
  then have "\<exists>port mtu keepalive. dict_get s ''server_port'' = Some (VInt port) \<and> dict_get s ''mtu'' = Some (VInt mtu) \<and>
       dict_get s ''keepalive'' = Some (VInt keepalive) \<and> 1 \<le> port \<and> port \<le> 65535 \<and> 576 \<le> mtu \<and> mtu \<le> 9000 \<and> 0 \<le> keepalive \<and> keepalive \<le> 65535"
    by (simp add: s opt_field_def)
  moreover have "\<forall>k \<in> set (dict_keys s). is_secret_setting k \<longleftrightarrow> k \<in> {''private_key'', ''preshared_key''}"
    using secret by (cases "psk = []"; cases "dns = []") (simp_all add: s opt_field_def)
  ultimately show ?thesis by blast
qed

definition ex_wg_env :: wg_env where
  "ex_wg_env = \<lparr>wg_read_ini = \<lambda>_. Some [(''Interface'', [(''privatekey'', replicate 43 (CHR ''A'') @ ''=''), (''address'', ''10.0.0.2/32'')]),
       (''Peer'', [(''publickey'', replicate 43 (CHR ''A'') @ ''=''), (''endpoint'', ''[fd00::1]:51820'')])],
     wg_ip_interface = Some, wg_ip_network = Some\<rparr>"

lemma wireguard_import_valid_example:
  "\<exists>s. parse_wireguard_profile ex_wg_env ''[peer]'' = Inr s \<and> dict_get s ''server'' = Some (VStr ''fd00::1'') \<and>
     validate_outbound \<lparr>oe_show = \<lambda>_. [], oe_bracket_ok = \<lambda>_. False, oe_is_ip = \<lambda>_. False\<rparr> WIREGUARD s = Inr ()"
proof -
  let ?s = "[(''server'', VStr ''fd00::1''), (''server_port'', VInt 51820), (''private_key'', VStr (replicate 43 (CHR ''A'') @ ''='')),
     (''peer_public_key'', VStr (replicate 43 (CHR ''A'') @ ''='')), (''local_address'', vstrs [''10.0.0.2/32'']),
     (''allowed_ips'', vstrs [''0.0.0.0/0'', ''::/0'']), (''mtu'', VInt 1420), (''keepalive'', VInt 25)]"
  have "parse_wireguard_profile ex_wg_env ''[peer]'' = Inr ?s" unfolding ex_wg_env_def by code_simp
  from wireguard_import_valid [OF this] this show ?thesis by auto
qed

end
