(* ===== verification/StudioValidate.thy ===== *)
theory StudioValidate
  imports BuildValidators
begin

text \<open>
  \<open>app/studio/validate.py\<close>, the JSON Schema subset that driver documents are checked against, and
  \<open>app/studio/headers.py\<close>, the header block of the inbound wizard. A schema is a dynamically typed value like the
  document, so a malformed schema raises where the source would. Error texts are the kind of failure and its path.
\<close>

section \<open>Schema validation\<close>

datatype schema_failure =
    TypeMismatch
  | NotInEnum
  | BelowMinimum
  | AboveMaximum
  | TooShort
  | MissingRequired pyval

type_synonym schema_error = "string \<times> schema_failure"

text \<open>\<open>path or "/"\<close>.\<close>

definition at_path :: "string \<Rightarrow> schema_failure \<Rightarrow> schema_error" where
  "at_path path f = (if path = [] then ''/'' else path, f)"

definition is_number :: "pyval \<Rightarrow> bool" where
  "is_number v = (case v of VInt _ \<Rightarrow> True | VFloat _ \<Rightarrow> True | _ \<Rightarrow> False)"

definition type_check :: "string \<Rightarrow> pyval \<Rightarrow> bool option" where
  "type_check t v =
     (if t = ''object'' then Some (case v of VDict _ \<Rightarrow> True | _ \<Rightarrow> False)
      else if t = ''array'' then Some (case v of VList _ \<Rightarrow> True | _ \<Rightarrow> False)
      else if t = ''string'' then Some (case v of VStr _ \<Rightarrow> True | _ \<Rightarrow> False)
      else if t = ''integer'' then Some (case v of VInt _ \<Rightarrow> True | _ \<Rightarrow> False)
      else if t = ''number'' then Some (is_number v)
      else if t = ''boolean'' then Some (case v of VBool _ \<Rightarrow> True | _ \<Rightarrow> False)
      else if t = ''null'' then Some (v = VNone)
      else None)"

definition hashable :: "pyval \<Rightarrow> bool" where
  "hashable v = (case v of VList _ \<Rightarrow> False | VDict _ \<Rightarrow> False | _ \<Rightarrow> True)"

text \<open>Iterating over a value: a list, the characters of a string, the keys of a dictionary.\<close>

definition iterate :: "pyval \<Rightarrow> py_error + pyval list" where
  "iterate v =
     (case v of
        VList xs \<Rightarrow> Inr xs
      | VStr s \<Rightarrow> Inr (map (\<lambda>c. VStr [c]) s)
      | VDict d \<Rightarrow> Inr (map (\<lambda>(k, x). VStr k) d)
      | _ \<Rightarrow> Inl TypeError)"

fun any_type :: "pyval \<Rightarrow> pyval list \<Rightarrow> py_error + bool" where
  "any_type v [] = Inr False"
| "any_type v (t # ts) =
     (case t of
        VStr name \<Rightarrow>
          (case type_check name v of
             None \<Rightarrow> Inl KeyError
           | Some ok \<Rightarrow> if ok then Inr True else any_type v ts)
      | _ \<Rightarrow> Inl (if hashable t then KeyError else TypeError))"

definition check_type :: "pyval \<Rightarrow> (string \<times> pyval) list \<Rightarrow> py_error + bool" where
  "check_type v sc =
     (let expected = vget sc ''type''
      in if \<not> truthy expected then Inr True
         else case expected of
           VStr t \<Rightarrow> any_type v [expected]
         | _ \<Rightarrow> rbind (iterate expected) (any_type v))"

text \<open>\<open>value in container\<close>.\<close>

definition contains :: "pyval \<Rightarrow> pyval \<Rightarrow> py_error + bool" where
  "contains container v =
     (case container of
        VList xs \<Rightarrow> Inr (list_ex (\<lambda>x. py_eq x v) xs)
      | VStr s \<Rightarrow> (case v of VStr t \<Rightarrow> Inr (py_in t s) | _ \<Rightarrow> Inl TypeError)
      | VDict d \<Rightarrow>
          if \<not> hashable v then Inl TypeError else Inr (case v of VStr k \<Rightarrow> dict_in k d | _ \<Rightarrow> False)
      | _ \<Rightarrow> Inl TypeError)"

definition check_enum :: "string \<Rightarrow> pyval \<Rightarrow> (string \<times> pyval) list \<Rightarrow> py_error + schema_error list" where
  "check_enum path v sc =
     (case dict_get sc ''enum'' of
        None \<Rightarrow> Inr []
      | Some e \<Rightarrow> rbind (contains e v) (\<lambda>ok. Inr (if ok then [] else [at_path path NotInEnum])))"

text \<open>\<open>a < b\<close> on numbers; another operand raises.\<close>

definition num_less :: "rat \<Rightarrow> pyval \<Rightarrow> py_error + bool" where
  "num_less a b = (case num_of b of None \<Rightarrow> Inl TypeError | Some r \<Rightarrow> Inr (a < r))"

definition num_greater :: "rat \<Rightarrow> pyval \<Rightarrow> py_error + bool" where
  "num_greater a b = (case num_of b of None \<Rightarrow> Inl TypeError | Some r \<Rightarrow> Inr (r < a))"

definition check_keyword ::
  "(string \<times> pyval) list \<Rightarrow> string \<Rightarrow> (pyval \<Rightarrow> py_error + bool) \<Rightarrow> schema_error \<Rightarrow> py_error + schema_error list"
where
  "check_keyword sc key bad e =
     (case dict_get sc key of
        None \<Rightarrow> Inr []
      | Some b \<Rightarrow> rbind (bad b) (\<lambda>x. Inr (if x then [e] else [])))"

definition check_bounds :: "string \<Rightarrow> pyval \<Rightarrow> (string \<times> pyval) list \<Rightarrow> py_error + schema_error list" where
  "check_bounds path v sc =
     (if is_number v then
        (let x = the (num_of v)
         in rbind (check_keyword sc ''minimum'' (num_less x) (at_path path BelowMinimum)) (\<lambda>e1.
            rbind (check_keyword sc ''maximum'' (num_greater x) (at_path path AboveMaximum)) (\<lambda>e2. Inr (e1 @ e2))))
      else Inr [])"

definition check_length :: "string \<Rightarrow> pyval \<Rightarrow> (string \<times> pyval) list \<Rightarrow> py_error + schema_error list" where
  "check_length path v sc =
     (case v of
        VStr s \<Rightarrow> check_keyword sc ''minLength'' (num_less (of_int (int (length s)))) (at_path path TooShort)
      | _ \<Rightarrow> Inr [])"

fun missing_keys :: "string \<Rightarrow> (string \<times> pyval) list \<Rightarrow> pyval list \<Rightarrow> py_error + schema_error list" where
  "missing_keys path d [] = Inr []"
| "missing_keys path d (k # ks) =
     (if \<not> hashable k then Inl TypeError
      else rbind (missing_keys path d ks) (\<lambda>es.
        Inr (if (case k of VStr key \<Rightarrow> dict_in key d | _ \<Rightarrow> False) then es else at_path path (MissingRequired k) # es)))"

definition check_required :: "string \<Rightarrow> pyval \<Rightarrow> (string \<times> pyval) list \<Rightarrow> py_error + schema_error list" where
  "check_required path v sc =
     (case v of
        VDict d \<Rightarrow>
          (case dict_get sc ''required'' of
             None \<Rightarrow> Inr []
           | Some req \<Rightarrow> rbind (iterate req) (missing_keys path d))
      | _ \<Rightarrow> Inr [])"

definition properties_of :: "(string \<times> pyval) list \<Rightarrow> py_error + (string \<times> pyval) list" where
  "properties_of sc =
     (case dict_get sc ''properties'' of
        None \<Rightarrow> Inr []
      | Some (VDict ps) \<Rightarrow> Inr ps
      | Some _ \<Rightarrow> Inl AttributeError)"

fun gather :: "('e + 'a list) list \<Rightarrow> 'e + 'a list" where
  "gather [] = Inr []"
| "gather (r # rs) = rbind r (\<lambda>xs. rbind (gather rs) (\<lambda>ys. Inr (xs @ ys)))"

text \<open>The checks before the recursion into properties and items.\<close>

definition check_here :: "string \<Rightarrow> pyval \<Rightarrow> (string \<times> pyval) list \<Rightarrow> py_error + schema_error list" where
  "check_here path v sc = gather [check_enum path v sc, check_bounds path v sc, check_length path v sc, check_required path v sc]"

lemma dict_get_size: "dict_get d k = Some v \<Longrightarrow> size v < size (VDict d)"
  using size_dict_val [of k v d] map_of_SomeD [of d k v] by simp

lemma enumerate_mem: "(i, x) \<in> set (enumerate n xs) \<Longrightarrow> x \<in> set xs"
  by (auto simp: in_set_enumerate_eq)

lemma enumerate_size: "(i, x) \<in> set (enumerate n xs) \<Longrightarrow> size x < size (VList xs)"
  using size_list_estimation' [OF enumerate_mem, of i x n xs "size x" size] by (simp add: less_Suc_eq_le)

function validate_at :: "string \<Rightarrow> pyval \<Rightarrow> pyval \<Rightarrow> py_error + schema_error list" where
  "validate_at path v schema =
     (if \<not> truthy schema then Inr []
      else case schema of
        VDict sc \<Rightarrow>
          rbind (check_type v sc) (\<lambda>ok.
            if \<not> ok then Inr [at_path path TypeMismatch]
            else gather
              [check_here path v sc,
               (case v of
                  VDict d \<Rightarrow>
                    (case properties_of sc of
                       Inl e \<Rightarrow> Inl e
                     | Inr ps \<Rightarrow>
                         gather (map (\<lambda>(key, sub).
                           case dict_get d key of
                             None \<Rightarrow> Inr []
                           | Some x \<Rightarrow> validate_at (path @ ''/'' @ key) x sub) ps))
                | _ \<Rightarrow> Inr []),
               (case v of
                  VList xs \<Rightarrow>
                    (case dict_get sc ''items'' of
                       None \<Rightarrow> Inr []
                     | Some sub \<Rightarrow> gather (map (\<lambda>(i, x). validate_at (path @ ''/'' @ nat_to_str i) x sub) (enumerate 0 xs)))
                | _ \<Rightarrow> Inr [])])
      | _ \<Rightarrow> Inl AttributeError)"
  by pat_completeness auto
termination
  by (relation "measure (\<lambda>(path, v, schema). size v)") (auto dest: dict_get_size enumerate_size)

declare validate_at.simps [simp del]

definition validate_against_schema :: "pyval \<Rightarrow> pyval \<Rightarrow> py_error + schema_error list" where
  "validate_against_schema v schema = validate_at [] v schema"

section \<open>What a schema means\<close>

text \<open>Reference definition: when a value conforms to a schema, without paths and error lists.\<close>

definition keyword_ok :: "(string \<times> pyval) list \<Rightarrow> string \<Rightarrow> (rat \<Rightarrow> bool) \<Rightarrow> bool" where
  "keyword_ok sc key P = (case dict_get sc key of None \<Rightarrow> True | Some b \<Rightarrow> (case num_of b of None \<Rightarrow> False | Some r \<Rightarrow> P r))"

definition conforms_here :: "pyval \<Rightarrow> (string \<times> pyval) list \<Rightarrow> bool" where
  "conforms_here v sc \<longleftrightarrow>
     (case dict_get sc ''enum'' of None \<Rightarrow> True | Some e \<Rightarrow> contains e v = Inr True) \<and>
     (is_number v \<longrightarrow> keyword_ok sc ''minimum'' (\<lambda>lo. lo \<le> the (num_of v)) \<and> keyword_ok sc ''maximum'' (\<lambda>hi. the (num_of v) \<le> hi)) \<and>
     (case v of VStr s \<Rightarrow> keyword_ok sc ''minLength'' (\<lambda>n. n \<le> of_int (int (length s))) | _ \<Rightarrow> True) \<and>
     (case v of
        VDict d \<Rightarrow>
          (case dict_get sc ''required'' of
             None \<Rightarrow> True
           | Some req \<Rightarrow> (case iterate req of
               Inl _ \<Rightarrow> False
             | Inr ks \<Rightarrow> list_all (\<lambda>k. case k of VStr key \<Rightarrow> dict_in key d | _ \<Rightarrow> False) ks))
      | _ \<Rightarrow> True)"

function conforms :: "pyval \<Rightarrow> pyval \<Rightarrow> bool" where
  "conforms v schema =
     (truthy schema \<longrightarrow>
        (case schema of
           VDict sc \<Rightarrow>
             check_type v sc = Inr True \<and> conforms_here v sc \<and>
             (case v of
                VDict d \<Rightarrow>
                  (case properties_of sc of
                     Inl e \<Rightarrow> False
                   | Inr ps \<Rightarrow>
                       list_all (\<lambda>(key, sub). case dict_get d key of None \<Rightarrow> True | Some x \<Rightarrow> conforms x sub) ps)
              | _ \<Rightarrow> True) \<and>
             (case v of
                VList xs \<Rightarrow> (case dict_get sc ''items'' of None \<Rightarrow> True | Some sub \<Rightarrow> list_all (\<lambda>x. conforms x sub) xs)
              | _ \<Rightarrow> True)
         | _ \<Rightarrow> False))"
  by pat_completeness auto
termination
proof (relation "measure (\<lambda>(v, schema). size v)")
  fix xs :: "pyval list" and v x sub schema :: pyval
  assume "v = VList xs" "x \<in> set xs"
  then show "((x, sub), v, schema) \<in> measure (\<lambda>(v, schema). size v)"
    using size_list_estimation' [of x xs "size x" size] by (simp add: less_Suc_eq_le)
qed (auto dest: dict_get_size)

declare conforms.simps [simp del]

lemma gather_Nil_iff: "gather rs = Inr [] \<longleftrightarrow> list_all (\<lambda>r. r = Inr []) rs"
  by (induction rs) (auto simp: rbind_Inr_iff)

lemma gather_Inr_list: "gather rs = Inr es \<Longrightarrow> r \<in> set rs \<Longrightarrow> \<exists>xs. r = Inr xs"
  by (induction rs arbitrary: es) (auto simp: rbind_Inr_iff)

lemma check_keyword_Nil:
  "check_keyword sc key (num_less x) e = Inr [] \<longleftrightarrow> keyword_ok sc key (\<lambda>r. r \<le> x)"
  "check_keyword sc key (num_greater x) e = Inr [] \<longleftrightarrow> keyword_ok sc key (\<lambda>r. x \<le> r)"
  by (auto simp: check_keyword_def keyword_ok_def num_less_def num_greater_def split: option.splits)

lemma rbind_append_Nil: "rbind a (\<lambda>xs. rbind b (\<lambda>ys. Inr (xs @ ys))) = Inr [] \<longleftrightarrow> a = Inr [] \<and> b = Inr []"
  by (auto simp: rbind_Inr_iff)

lemma missing_keys_Nil:
  "missing_keys path d ks = Inr [] \<longleftrightarrow> list_all (\<lambda>k. case k of VStr key \<Rightarrow> dict_in key d | _ \<Rightarrow> False) ks"
proof (induction ks)
  case (Cons k ks)
  then show ?case by (cases k) (auto simp: hashable_def rbind_Inr_iff)
qed simp

lemma check_here_Nil: "check_here path v sc = Inr [] \<longleftrightarrow> conforms_here v sc"
proof -
  have "check_enum path v sc = Inr [] \<longleftrightarrow> (case dict_get sc ''enum'' of None \<Rightarrow> True | Some e \<Rightarrow> contains e v = Inr True)"
    by (auto simp: check_enum_def rbind_Inr_iff split: option.splits)
  moreover have "check_bounds path v sc = Inr [] \<longleftrightarrow>
      (is_number v \<longrightarrow> keyword_ok sc ''minimum'' (\<lambda>lo. lo \<le> the (num_of v)) \<and> keyword_ok sc ''maximum'' (\<lambda>hi. the (num_of v) \<le> hi))"
    by (simp add: check_bounds_def Let_def rbind_append_Nil check_keyword_Nil)
  moreover have "check_length path v sc = Inr [] \<longleftrightarrow> (case v of VStr s \<Rightarrow> keyword_ok sc ''minLength'' (\<lambda>n. n \<le> of_int (int (length s))) | _ \<Rightarrow> True)"
    by (simp add: check_length_def check_keyword_Nil split: pyval.splits)
  moreover have "check_required path v sc = Inr [] \<longleftrightarrow>
     (case v of VDict d \<Rightarrow> (case dict_get sc ''required'' of None \<Rightarrow> True | Some req \<Rightarrow> (case iterate req of Inl _ \<Rightarrow> False
        | Inr ks \<Rightarrow> list_all (\<lambda>k. case k of VStr key \<Rightarrow> dict_in key d | _ \<Rightarrow> False) ks)) | _ \<Rightarrow> True)"
    by (auto simp: check_required_def rbind_Inr_iff missing_keys_Nil split: pyval.splits option.splits sum.splits)
  ultimately show ?thesis unfolding check_here_def gather_Nil_iff conforms_here_def by simp
qed

lemma validate_at_Nil: "validate_at path v schema = Inr [] \<longleftrightarrow> conforms v schema"
proof (induction path v schema rule: validate_at.induct)
  case (1 path v schema)
  show ?case
  proof (cases "truthy schema \<and> (\<exists>sc. schema = VDict sc)")
    case True
    then obtain sc where sc: "truthy schema" "schema = VDict sc" by blast
    have p: "gather (map (\<lambda>(key, sub). case dict_get d key of None \<Rightarrow> Inr [] | Some x \<Rightarrow> validate_at (path @ ''/'' @ key) x sub) ps) = Inr []
        \<longleftrightarrow> list_all (\<lambda>(key, sub). case dict_get d key of None \<Rightarrow> True | Some x \<Rightarrow> conforms x sub) ps"
      if "check_type v sc = Inr True" "v = VDict d" "properties_of sc = Inr ps" for d ps
      using "1.IH"(1) [of sc True d ps] sc that
      by (fastforce simp: gather_Nil_iff list_all_iff split: option.splits)
    have i: "gather (map (\<lambda>(i, x). validate_at (path @ ''/'' @ nat_to_str i) x sub) (enumerate 0 xs)) = Inr [] \<longleftrightarrow> list_all (\<lambda>x. conforms x sub) xs"
      if "check_type v sc = Inr True" "v = VList xs" "dict_get sc ''items'' = Some sub" for xs sub
    proof -
      have "list_all (\<lambda>(i, x). validate_at (path @ ''/'' @ nat_to_str i) x sub = Inr []) (enumerate 0 xs) \<longleftrightarrow>
          list_all (\<lambda>(i, x). conforms x sub) (enumerate 0 xs)"
        using "1.IH"(2) [of sc True xs sub] sc that by (fastforce simp: list_all_iff)
      also have "\<dots> \<longleftrightarrow> list_all (\<lambda>x. conforms x sub) xs"
        by (auto simp: list_all_length nth_enumerate_eq)
      finally show ?thesis by (simp add: gather_Nil_iff list_all_iff case_prod_beta)
    qed
    show ?thesis
    proof (cases "check_type v sc = Inr True")
      case ok: True
      show ?thesis
        using sc ok p i
        by (subst validate_at.simps, subst conforms.simps)
          (auto simp: gather_Nil_iff check_here_Nil rbind_append_Nil simp del: gather.simps split: pyval.splits option.splits sum.splits)
    next
      case False
      then show ?thesis
        using sc by (subst validate_at.simps, subst conforms.simps) (auto simp: rbind_Inr_iff)
    qed
  next
    case False
    then show ?thesis
      by (subst validate_at.simps, subst conforms.simps) (auto split: pyval.splits)
  qed
qed


section \<open>HTTP headers\<close>

definition TOKEN_CHARS :: string where
  "TOKEN_CHARS = ''!#$%&'' @ [CHR 0x27] @ ''*+-.^_'' @ [CHR 0x60] @ ''|~''"

definition token_ok :: "string \<Rightarrow> bool" where
  "token_ok name \<longleftrightarrow> name \<noteq> [] \<and> list_all (\<lambda>c. alnum c \<or> c \<in> set TOKEN_CHARS) name"

definition header_value_ok :: "string \<Rightarrow> bool" where
  "header_value_ok value \<longleftrightarrow>
     list_all (\<lambda>c. \<not> ((of_char c :: nat) < 0x20 \<and> c \<noteq> CHR 0x09)) value \<and> CHR 0x7F \<notin> set value"

datatype header_error = BadHeaderName string | ControlCharacters string | NoColon nat | NotAMapping

definition check_header :: "string \<Rightarrow> string \<Rightarrow> header_error + unit" where
  "check_header name value =
     (if \<not> token_ok name then Inl (BadHeaderName name)
      else if \<not> header_value_ok value then Inl (ControlCharacters name) else Inr ())"

text \<open>\<open>str.splitlines\<close> on ASCII text; a carriage return and a line feed together end one line.\<close>

definition line_break :: "char \<Rightarrow> bool" where
  "line_break c \<longleftrightarrow> (let n = (of_char c :: nat) in 10 \<le> n \<and> n \<le> 13 \<or> 28 \<le> n \<and> n \<le> 30)"

fun splitlines_acc :: "string \<Rightarrow> string \<Rightarrow> string list" where
  "splitlines_acc acc [] = (if acc = [] then [] else [rev acc])"
| "splitlines_acc acc (c # cs) =
     (if c = CHR 0x0D \<and> cs \<noteq> [] \<and> hd cs = CHR 0x0A then rev acc # splitlines_acc [] (tl cs)
      else if line_break c then rev acc # splitlines_acc [] cs
      else splitlines_acc (c # acc) cs)"

definition splitlines :: "string \<Rightarrow> string list" where
  "splitlines s = splitlines_acc [] s"

fun headers_of_dict :: "(pyval \<Rightarrow> string) \<Rightarrow> (string \<times> pyval) list \<Rightarrow> (string \<times> string) list \<Rightarrow> header_error + (string \<times> string) list" where
  "headers_of_dict show [] out = Inr out"
| "headers_of_dict show ((k, v) # d) out =
     (let name = py_strip k; text = py_str show v
      in rbind (check_header name text) (\<lambda>_. headers_of_dict show d (dict_set name text out)))"

fun headers_of_lines :: "nat \<Rightarrow> string list \<Rightarrow> (string \<times> string) list \<Rightarrow> header_error + (string \<times> string) list" where
  "headers_of_lines lineno [] out = Inr out"
| "headers_of_lines lineno (raw # raws) out =
     (let line = py_strip raw
      in if line = [] \<or> py_prefix ''#'' line then headers_of_lines (Suc lineno) raws out
         else if CHR '':'' \<notin> set line then Inl (NoColon lineno)
         else let name = py_strip (takeWhile (\<lambda>c. c \<noteq> CHR '':'') line); val = py_strip (tl (dropWhile (\<lambda>c. c \<noteq> CHR '':'') line))
              in rbind (check_header name val) (\<lambda>_. headers_of_lines (Suc lineno) raws (dict_set name val out)))"

definition parse_http_headers :: "(pyval \<Rightarrow> string) \<Rightarrow> pyval \<Rightarrow> header_error + (string \<times> string) list" where
  "parse_http_headers show v =
     (case v of
        VNone \<Rightarrow> Inr []
      | VStr s \<Rightarrow> if s = [] then Inr [] else headers_of_lines 1 (splitlines s) []
      | VDict d \<Rightarrow> headers_of_dict show d []
      | _ \<Rightarrow> Inl NotAMapping)"

definition headers_ok :: "(string \<times> string) list \<Rightarrow> bool" where
  "headers_ok hs \<longleftrightarrow> (\<forall>(name, v) \<in> set hs. token_ok name \<and> header_value_ok v)"

lemma headers_ok_set: "headers_ok hs \<Longrightarrow> token_ok name \<Longrightarrow> header_value_ok v \<Longrightarrow> headers_ok (dict_set name v hs)"
  using set_dict_set [of name v hs] by (auto simp: headers_ok_def)

lemma check_header_ok: "check_header name v = Inr u \<Longrightarrow> token_ok name \<and> header_value_ok v"
  by (simp add: check_header_def split: if_splits)

lemma headers_of_dict_ok: "headers_of_dict show d out = Inr hs \<Longrightarrow> headers_ok out \<Longrightarrow> headers_ok hs"
  by (induction "show" d out rule: headers_of_dict.induct)
    (auto simp: Let_def rbind_Inr_iff dest!: check_header_ok intro: headers_ok_set)

lemma headers_of_lines_ok: "headers_of_lines n ls out = Inr hs \<Longrightarrow> headers_ok out \<Longrightarrow> headers_ok hs"
  by (induction n ls out rule: headers_of_lines.induct)
    (auto simp: Let_def rbind_Inr_iff headers_ok_set dest!: check_header_ok split: if_splits)

text \<open>Whatever is accepted can be written to the wire: token names, and values without line breaks.\<close>

lemma parsed_headers_are_safe: "parse_http_headers show v = Inr hs \<Longrightarrow> headers_ok hs"
  by (auto simp: parse_http_headers_def headers_ok_def split: pyval.splits if_splits
      dest!: headers_of_dict_ok headers_of_lines_ok)

end
