(* ===== verification/StudioService.thy ===== *)
theory StudioService
  imports StudioValidate JsonPatch PyJson
begin

text \<open>
  \<open>app/studio/service.py\<close>: staged, validated changes of a core's configuration document and the inbound wizard. The store maps a
  core to its document. A driver is what the service reads of it: its schema, the pointer and the limit of
  its inbound list, its live document (\<open>export_config_document\<close>) and its semantic check, the last two being
  parameters; \<open>materialize\<close>, the hook that pushes a candidate into the core, is one too. An operation runs under
  the core's lock, so it is one step on the store. The diff text of a preview is not modelled.
\<close>

section \<open>State\<close>

type_synonym studio_store = "(string \<times> pyval) list"

record studio_driver =
  sd_id :: string
  sd_schema :: pyval
  sd_inbounds_path :: string
  sd_max_inbounds :: "int option"
  sd_export :: "pyval option"
  sd_validator :: "(pyval \<Rightarrow> string + string list) option"

datatype preview_error =
    PatchFailed patch_error
  | SchemaFailed schema_error
  | SemanticFailed string

record preview_result =
  pv_core_id :: string
  pv_valid :: bool
  pv_errors :: "preview_error list"
  pv_document :: "pyval option"
  pv_changed :: bool

datatype studio_error =
    WizardUnsupported
  | NoStudioInbounds
  | StudioConflict string
  | StudioNotFound string
  | StudioRaised py_error
  | MaterializeFailed string

record inbound_spec =
  is_tag :: string
  is_protocol :: string
  is_listen :: "string option"
  is_port :: int
  is_settings :: "(string \<times> pyval) list"

section \<open>Documents and previews\<close>

text \<open>The stored document, or the driver's live one, which is then stored.\<close>

definition get_document :: "studio_driver \<Rightarrow> studio_store \<Rightarrow> pyval \<times> studio_store" where
  "get_document driver store =
     (case dict_get store (sd_id driver) of
        Some doc \<Rightarrow> (doc, store)
      | None \<Rightarrow>
          (case sd_export driver of
             Some (VDict d) \<Rightarrow> (VDict d, dict_set (sd_id driver) (VDict d) store)
           | _ \<Rightarrow> (VDict [], store)))"

definition studio_validate :: "studio_driver \<Rightarrow> pyval \<Rightarrow> py_error + schema_error list" where
  "studio_validate driver doc =
     (if \<not> truthy (sd_schema driver) then Inr [] else validate_against_schema doc (sd_schema driver))"

definition semantic_errors :: "studio_driver \<Rightarrow> pyval \<Rightarrow> string list" where
  "semantic_errors driver doc =
     (case sd_validator driver of
        None \<Rightarrow> []
      | Some check \<Rightarrow> (case check doc of Inl e \<Rightarrow> [e] | Inr es \<Rightarrow> es))"

text \<open>\<open>PreviewResult(document=...)\<close> accepts an object only.\<close>

definition preview_of :: "studio_driver \<Rightarrow> pyval \<Rightarrow> patch_operation list \<Rightarrow> studio_error + preview_result" where
  "preview_of driver current ops =
     (case apply_patches current ops of
        Inl e \<Rightarrow> Inr \<lparr>pv_core_id = sd_id driver, pv_valid = False, pv_errors = [PatchFailed e], pv_document = None, pv_changed = True\<rparr>
      | Inr patched \<Rightarrow>
          rbind (map_sum StudioRaised id (studio_validate driver patched)) (\<lambda>errors.
            let semantic = (if errors = [] then semantic_errors driver patched else []);
                messages = map SchemaFailed errors @ map SemanticFailed semantic
            in case patched of
                 VDict d \<Rightarrow> Inr \<lparr>pv_core_id = sd_id driver, pv_valid = (messages = []), pv_errors = messages, pv_document = Some patched, pv_changed = True\<rparr>
               | _ \<Rightarrow> Inl (StudioRaised ValueError)))"

definition studio_preview :: "studio_driver \<Rightarrow> patch_operation list \<Rightarrow> studio_store \<Rightarrow> (studio_error + preview_result) \<times> studio_store" where
  "studio_preview driver ops store =
     (let (current, store1) = get_document driver store in (preview_of driver current ops, store1))"

definition document_or_empty :: "preview_result \<Rightarrow> pyval" where
  "document_or_empty r = (case pv_document r of None \<Rightarrow> VDict [] | Some d \<Rightarrow> d)"

definition studio_apply :: "studio_driver \<Rightarrow> patch_operation list \<Rightarrow> studio_store \<Rightarrow> (studio_error + preview_result) \<times> studio_store" where
  "studio_apply driver ops store =
     (let (r, store1) = studio_preview driver ops store
      in case r of
           Inl e \<Rightarrow> (Inl e, store1)
         | Inr p \<Rightarrow> if \<not> pv_valid p then (Inr p, store1) else (Inr p, dict_set (sd_id driver) (document_or_empty p) store1))"

definition studio_persist :: "studio_driver \<Rightarrow> pyval \<Rightarrow> studio_store \<Rightarrow> studio_store" where
  "studio_persist driver doc store = dict_set (sd_id driver) doc store"

section \<open>The inbound wizard\<close>

definition wizard_entry :: "inbound_spec \<Rightarrow> (string \<times> pyval) list" where
  "wizard_entry spec =
     dict_update
       [(''tag'', VStr (is_tag spec)), (''listen'', case is_listen spec of None \<Rightarrow> VNone | Some l \<Rightarrow> VStr l),
        (''port'', VInt (is_port spec)), (''protocol'', VStr (is_protocol spec))]
       (is_settings spec)"

definition patch_op :: "op_kind \<Rightarrow> string \<Rightarrow> pyval \<Rightarrow> patch_operation" where
  "patch_op k path v = \<lparr>po_op = k, po_path = path, po_from = None, po_value = v\<rparr>"

definition wizard_patch :: "studio_driver \<Rightarrow> inbound_spec \<Rightarrow> studio_error + patch_operation list" where
  "wizard_patch driver spec =
     (if sd_inbounds_path driver = [] then Inl WizardUnsupported
      else Inr [patch_op OpAdd (sd_inbounds_path driver @ ''/-'') (VDict (wizard_entry spec))])"

fun path_missing_from :: "pyval \<Rightarrow> string list \<Rightarrow> bool" where
  "path_missing_from node [] = False"
| "path_missing_from node (seg # segs) =
     (case node of
        VDict d \<Rightarrow> (case dict_get d seg of None \<Rightarrow> True | Some v \<Rightarrow> path_missing_from v segs)
      | _ \<Rightarrow> True)"

definition path_missing :: "pyval \<Rightarrow> string \<Rightarrow> bool" where
  "path_missing doc pointer = path_missing_from doc (filter (\<lambda>s. s \<noteq> []) (split_on (CHR ''/'') pointer))"

definition strip_slash :: "string \<Rightarrow> string" where
  "strip_slash s = rstrip_char (CHR ''/'') (dropWhile (\<lambda>c. c = CHR ''/'') s)"

definition inbound_items :: "pyval \<Rightarrow> string \<Rightarrow> pyval list" where
  "inbound_items doc path =
     (case doc of
        VDict d \<Rightarrow> (case dict_get d (strip_slash path) of Some (VList xs) \<Rightarrow> xs | _ \<Rightarrow> [])
      | _ \<Rightarrow> [])"

text \<open>
  The patch of a create: a missing list is added first, and a list at the driver's limit has its first entry replaced.
\<close>

definition wizard_ops :: "studio_driver \<Rightarrow> pyval \<Rightarrow> inbound_spec \<Rightarrow> patch_operation list" where
  "wizard_ops driver doc spec =
     (let path = sd_inbounds_path driver; entry = VDict (wizard_entry spec); add = patch_op OpAdd (path @ ''/-'') entry
      in if path_missing doc path then [patch_op OpAdd path (VList []), add]
         else case sd_max_inbounds driver of
           None \<Rightarrow> [add]
         | Some limit \<Rightarrow>
             if limit \<le> int (length (inbound_items doc path)) then [patch_op OpReplace (path @ ''/0'') entry] else [add])"

text \<open>
  \<open>_entry_fingerprint\<close>: the printed JSON with sorted keys. Only equality of fingerprints matters, so the separators
  of \<open>dumps_json\<close> stand for the default ones.
\<close>

fun sort_val :: "pyval \<Rightarrow> pyval" where
  "sort_val (VList xs) = VList (map sort_val xs)"
| "sort_val (VDict d) = VDict (sort_key fst (map (\<lambda>(k, v). (k, sort_val v)) d))"
| "sort_val v = v"

definition entry_fingerprint :: "(rat \<Rightarrow> string) \<Rightarrow> pyval \<Rightarrow> string" where
  "entry_fingerprint fr entry = dumps_json fr (sort_val entry)"

definition has_tag :: "string \<Rightarrow> pyval \<Rightarrow> bool" where
  "has_tag tag e = (case e of VDict d \<Rightarrow> vget d ''tag'' = VStr tag | _ \<Rightarrow> False)"

definition unchanged_result :: "studio_driver \<Rightarrow> pyval \<Rightarrow> preview_result" where
  "unchanged_result driver doc =
     \<lparr>pv_core_id = sd_id driver, pv_valid = True, pv_errors = [], pv_document = Some doc, pv_changed = False\<rparr>"

definition wizard_create_candidate ::
  "(rat \<Rightarrow> string) \<Rightarrow> studio_driver \<Rightarrow> inbound_spec \<Rightarrow> studio_store \<Rightarrow> (studio_error + preview_result) \<times> studio_store"
where
  "wizard_create_candidate fr driver spec store =
     (if sd_inbounds_path driver = [] then (Inl WizardUnsupported, store)
      else let (doc, store1) = get_document driver store; items = inbound_items doc (sd_inbounds_path driver);
               entry = VDict (wizard_entry spec)
           in case find (has_tag (is_tag spec)) items of
                Some existing \<Rightarrow>
                  if entry_fingerprint fr existing = entry_fingerprint fr entry then (Inr (unchanged_result driver doc), store1)
                  else (Inl (StudioConflict (is_tag spec)), store1)
              | None \<Rightarrow>
                  if sd_max_inbounds driver = Some 1 \<and> items \<noteq> [] \<and> entry_fingerprint fr (hd items) = entry_fingerprint fr entry
                  then (Inr (unchanged_result driver doc), store1)
                  else studio_preview driver (wizard_ops driver doc spec) store1)"

fun index_where :: "('a \<Rightarrow> bool) \<Rightarrow> nat \<Rightarrow> 'a list \<Rightarrow> nat list" where
  "index_where P n [] = []"
| "index_where P n (x # xs) = (if P x then [n] else []) @ index_where P (Suc n) xs"

definition wizard_update_candidate ::
  "(rat \<Rightarrow> string) \<Rightarrow> studio_driver \<Rightarrow> string \<Rightarrow> inbound_spec \<Rightarrow> studio_store \<Rightarrow> (studio_error + preview_result) \<times> studio_store"
where
  "wizard_update_candidate fr driver tag spec store =
     (if sd_inbounds_path driver = [] then (Inl NoStudioInbounds, store)
      else let (doc, store1) = get_document driver store; path = sd_inbounds_path driver; items = inbound_items doc path;
               entry = VDict (wizard_entry spec)
           in case index_where (has_tag tag) 0 items of
                [] \<Rightarrow> (Inl (StudioNotFound tag), store1)
              | idx # _ \<Rightarrow>
                  if is_tag spec \<noteq> tag \<and> list_ex (has_tag (is_tag spec)) items then (Inl (StudioConflict (is_tag spec)), store1)
                  else if entry_fingerprint fr (items ! idx) = entry_fingerprint fr entry then (Inr (unchanged_result driver doc), store1)
                  else studio_preview driver [patch_op OpReplace (path @ ''/'' @ nat_to_str idx) entry] store1)"

definition wizard_delete_candidate ::
  "studio_driver \<Rightarrow> string \<Rightarrow> studio_store \<Rightarrow> (studio_error + preview_result) \<times> studio_store"
where
  "wizard_delete_candidate driver tag store =
     (if sd_inbounds_path driver = [] then (Inl NoStudioInbounds, store)
      else let (doc, store1) = get_document driver store; path = sd_inbounds_path driver; items = inbound_items doc path
           in case index_where (has_tag tag) 0 items of
                [] \<Rightarrow> (Inl (StudioNotFound tag), store1)
              | [idx] \<Rightarrow> studio_preview driver [patch_op OpRemove (path @ ''/'' @ nat_to_str idx) VNone] store1
              | _ \<Rightarrow> (Inl (StudioConflict tag), store1))"

section \<open>Transactions\<close>

text \<open>Stage, push the candidate into the core, persist; \<open>materialize\<close> is \<open>None\<close> in the headless flows.\<close>

type_synonym materialize_hook = "(pyval \<Rightarrow> string + unit) option"

definition wizard_execute ::
  "studio_driver \<Rightarrow> (studio_store \<Rightarrow> (studio_error + preview_result) \<times> studio_store) \<Rightarrow> materialize_hook \<Rightarrow> studio_store
     \<Rightarrow> (studio_error + preview_result) \<times> studio_store"
where
  "wizard_execute driver stage hook store =
     (let (r, store1) = stage store
      in case r of
           Inl e \<Rightarrow> (Inl e, store1)
         | Inr p \<Rightarrow>
             if \<not> pv_valid p \<or> \<not> pv_changed p then (Inr p, store1)
             else case (case hook of None \<Rightarrow> Inr () | Some m \<Rightarrow> m (document_or_empty p)) of
               Inl e \<Rightarrow> (Inl (MaterializeFailed e), store1)
             | Inr _ \<Rightarrow> (Inr p, studio_persist driver (document_or_empty p) store1))"

definition wizard_create where
  "wizard_create fr driver spec hook store = wizard_execute driver (wizard_create_candidate fr driver spec) hook store"

definition wizard_update where
  "wizard_update fr driver tag spec hook store = wizard_execute driver (wizard_update_candidate fr driver tag spec) hook store"

definition wizard_delete where
  "wizard_delete driver tag hook store = wizard_execute driver (wizard_delete_candidate driver tag) hook store"

definition apply_operations where
  "apply_operations driver ops hook store = wizard_execute driver (studio_preview driver ops) hook store"

section \<open>Staging and headless flows\<close>

definition wizard_preview_inbound ::
  "studio_driver \<Rightarrow> inbound_spec \<Rightarrow> studio_store \<Rightarrow> (studio_error + preview_result) \<times> studio_store"
where
  "wizard_preview_inbound driver spec store =
     (if sd_inbounds_path driver = [] then (Inl WizardUnsupported, store)
      else let (doc, store1) = get_document driver store in studio_preview driver (wizard_ops driver doc spec) store1)"

definition stage_apply where
  "stage_apply driver ops store = studio_preview driver ops store"

definition wizard_stage_create where
  "wizard_stage_create fr driver spec store = wizard_create_candidate fr driver spec store"

definition wizard_stage_update where
  "wizard_stage_update fr driver tag spec store = wizard_update_candidate fr driver tag spec store"

definition wizard_stage_delete where
  "wizard_stage_delete driver tag store = wizard_delete_candidate driver tag store"

definition wizard_add_inbound where
  "wizard_add_inbound fr driver spec store = wizard_create fr driver spec None store"

definition wizard_update_inbound where
  "wizard_update_inbound fr driver tag spec store = wizard_update fr driver tag spec None store"

end
