(* ===== verification/StudioServiceProps.thy ===== *)
theory StudioServiceProps
  imports StudioService
begin

text \<open>
  What the studio guarantees: a request either leaves the stored documents alone, up to seeding from the driver, or commits a
  document that passed the schema, the driver's check and the core; the wizard touches only the inbound list, keeps
  tags unique as long as no settings block overrides the tag, and replays of a create change nothing. At a driver's
  inbound limit a create replaces the first inbound.
\<close>

section \<open>Transactions\<close>

datatype studio_request =
    CreateInbound inbound_spec
  | UpdateInbound string inbound_spec
  | DeleteInbound string
  | PatchDocument "patch_operation list"

definition run_request ::
  "(rat \<Rightarrow> string) \<Rightarrow> studio_driver \<Rightarrow> studio_request \<Rightarrow> materialize_hook \<Rightarrow> studio_store \<Rightarrow> (studio_error + preview_result) \<times> studio_store"
where
  "run_request fr driver req hook store =
     (case req of
        CreateInbound spec \<Rightarrow> wizard_create fr driver spec hook store
      | UpdateInbound tag spec \<Rightarrow> wizard_update fr driver tag spec hook store
      | DeleteInbound tag \<Rightarrow> wizard_delete driver tag hook store
      | PatchDocument ops \<Rightarrow> apply_operations driver ops hook store)"

abbreviation seeded :: "studio_driver \<Rightarrow> studio_store \<Rightarrow> studio_store" where
  "seeded driver store \<equiv> snd (get_document driver store)"

abbreviation current_doc :: "studio_driver \<Rightarrow> studio_store \<Rightarrow> pyval" where
  "current_doc driver store \<equiv> fst (get_document driver store)"

lemma get_document_again: "get_document driver (seeded driver store) = get_document driver store"
  by (auto simp: get_document_def split: option.splits pyval.splits)

lemma get_document_saved: "get_document driver (dict_set (sd_id driver) doc store) = (doc, dict_set (sd_id driver) doc store)"
  by (simp add: get_document_def)

text \<open>A valid preview: the patched document is an object that passed both checks.\<close>

definition accepted_doc :: "studio_driver \<Rightarrow> pyval \<Rightarrow> bool" where
  "accepted_doc driver doc \<longleftrightarrow>
     (\<exists>d. doc = VDict d) \<and> (truthy (sd_schema driver) \<longrightarrow> conforms doc (sd_schema driver)) \<and> semantic_errors driver doc = []"

lemma map_sum_Inr_conv: "map_sum f g r = Inr y \<longleftrightarrow> (\<exists>x. r = Inr x \<and> y = g x)"
  by (cases r) auto

lemma preview_of_valid:
  assumes "preview_of driver current ops = Inr p" "pv_valid p"
  shows "\<exists>doc. apply_patches current ops = Inr doc \<and> pv_document p = Some doc \<and> pv_changed p \<and> accepted_doc driver doc"
proof -
  obtain doc where d: "apply_patches current ops = Inr doc"
    using assms by (auto simp: preview_of_def split: sum.splits)
  obtain errors where e: "studio_validate driver doc = Inr errors"
    using assms(1) d by (auto simp: preview_of_def rbind_Inr_iff map_sum_Inr_conv)
  obtain k where k: "doc = VDict k"
    using assms(1) d e by (auto simp: preview_of_def Let_def split: pyval.splits)
  have "errors = []" "semantic_errors driver doc = []" "pv_document p = Some doc" "pv_changed p"
    using assms d e k by (auto simp: preview_of_def Let_def split: if_splits)
  moreover have "truthy (sd_schema driver) \<longrightarrow> conforms doc (sd_schema driver)"
    using e \<open>errors = []\<close> by (auto simp: studio_validate_def validate_against_schema_def validate_at_Nil split: if_splits)
  ultimately show ?thesis using d k by (auto simp: accepted_doc_def)
qed

definition stage_of ::
  "(rat \<Rightarrow> string) \<Rightarrow> studio_driver \<Rightarrow> studio_request \<Rightarrow> studio_store \<Rightarrow> (studio_error + preview_result) \<times> studio_store"
where
  "stage_of fr driver req store =
     (case req of
        CreateInbound spec \<Rightarrow> wizard_create_candidate fr driver spec store
      | UpdateInbound tag spec \<Rightarrow> wizard_update_candidate fr driver tag spec store
      | DeleteInbound tag \<Rightarrow> wizard_delete_candidate driver tag store
      | PatchDocument ops \<Rightarrow> studio_preview driver ops store)"

lemma run_request_execute: "run_request fr driver req hook store = wizard_execute driver (stage_of fr driver req) hook store"
  by (cases req) (simp_all add: run_request_def wizard_create_def wizard_update_def wizard_delete_def apply_operations_def
      wizard_execute_def stage_of_def)

text \<open>Every stage ends in an error, an unchanged result or a preview of some patch, on the store as found or seeded.\<close>

lemma stage_cases:
  assumes "stage_of fr driver req store = (r, store1)"
  shows "store1 \<in> {store, seeded driver store} \<and>
    ((\<exists>e. r = Inl e) \<or> (\<exists>p. r = Inr p \<and> \<not> pv_changed p) \<or>
     (\<exists>ops. r = preview_of driver (current_doc driver store) ops \<and> store1 = seeded driver store))"
proof -
  obtain doc st where g: "get_document driver store = (doc, st)" by (meson surj_pair)
  have again: "get_document driver st = (doc, st)" using get_document_again [of driver store] g by simp
  have p: "studio_preview driver ops st = (preview_of driver doc ops, st)" for ops
    by (simp add: studio_preview_def again)
  have q: "studio_preview driver ops store = (preview_of driver doc ops, st)" for ops
    by (simp add: studio_preview_def g)
  show ?thesis
  proof (cases req)
    case (CreateInbound spec)
    then show ?thesis
      using assms g p
      by (auto simp: stage_of_def wizard_create_candidate_def Let_def unchanged_result_def split: if_splits option.splits)
  next
    case (UpdateInbound tag spec)
    then show ?thesis
      using assms g p
      by (auto simp: stage_of_def wizard_update_candidate_def Let_def unchanged_result_def split: if_splits list.splits)
  next
    case (DeleteInbound tag)
    then show ?thesis
      using assms g p by (auto simp: stage_of_def wizard_delete_candidate_def Let_def split: if_splits list.splits)
  next
    case (PatchDocument ops)
    then show ?thesis using assms g q by (auto simp: stage_of_def)
  qed
qed

text \<open>
  C7: A studio request is a transaction. Whatever the request, the result and the driver, the store ends as it was, or as it was with
  the core's live document filled in when there was none, or with exactly one document replaced by one that is valid,
  conforms to the driver's schema, passed the driver's own check and was accepted by the core. A request that
  raises, is invalid or is refused by the core commits nothing, and documents of other cores are never touched.
\<close>
theorem studio_request_is_transaction:
  assumes "run_request fr driver req hook store = (r, store')"
  shows "store' \<in> {store, seeded driver store} \<or>
      (\<exists>p doc. r = Inr p \<and> pv_valid p \<and> pv_changed p \<and> pv_document p = Some doc \<and> accepted_doc driver doc \<and>
         (\<forall>m. hook = Some m \<longrightarrow> m doc = Inr ()) \<and> store' = dict_set (sd_id driver) doc (seeded driver store))"
    (is "?kept \<or> ?committed")
proof -
  obtain s store1 where st: "stage_of fr driver req store = (s, store1)" by (meson surj_pair)
  note c = stage_cases [OF st]
  have ex: "wizard_execute driver (stage_of fr driver req) hook store = (r, store')" using assms by (simp add: run_request_execute)
  show ?thesis
  proof (cases "\<exists>p. s = Inr p \<and> pv_valid p \<and> pv_changed p")
    case True
    then obtain p where p: "s = Inr p" "pv_valid p" "pv_changed p" by blast
    then obtain ops where ops: "preview_of driver (current_doc driver store) ops = Inr p" "store1 = seeded driver store"
      using c by auto
    obtain doc where doc: "pv_document p = Some doc" "accepted_doc driver doc" using preview_of_valid [OF ops(1) p(2)] by blast
    show ?thesis
      using ex st p doc ops(2)
      by (cases hook) (auto simp: wizard_execute_def document_or_empty_def studio_persist_def split: sum.splits)
  next
    case False
    then have "store' = store1" using ex st by (auto simp: wizard_execute_def split: sum.splits if_splits)
    then show ?thesis using c by simp
  qed
qed

definition ex_studio :: studio_driver where
  "ex_studio = \<lparr>sd_id = ''mtproto'', sd_schema = VDict [(''type'', VStr ''object'')], sd_inbounds_path = ''/inbounds'', sd_max_inbounds = Some 2,
     sd_export = None, sd_validator = None\<rparr>"

definition ex_spec :: "string \<Rightarrow> int \<Rightarrow> inbound_spec" where
  "ex_spec tag port = \<lparr>is_tag = tag, is_protocol = ''mtproto'', is_listen = None, is_port = port, is_settings = []\<rparr>"

definition ex_entry :: "string \<Rightarrow> int \<Rightarrow> pyval" where
  "ex_entry tag port = VDict [(''tag'', VStr tag), (''listen'', VNone), (''port'', VInt port), (''protocol'', VStr ''mtproto'')]"

definition ex_doc :: "pyval list \<Rightarrow> pyval" where
  "ex_doc items = VDict [(''inbounds'', VList items)]"

theorem studio_request_is_transaction_witness:
  "\<exists>store'. run_request (\<lambda>_. []) ex_studio (CreateInbound (ex_spec ''b'' 2)) (Some (\<lambda>_. Inl ''refused'')) [(''mtproto'', ex_doc [ex_entry ''a'' 1])] =
      (Inl (MaterializeFailed ''refused''), store') \<and> store' = [(''mtproto'', ex_doc [ex_entry ''a'' 1])]"
proof -
  have "run_request (\<lambda>_. []) ex_studio (CreateInbound (ex_spec ''b'' 2)) (Some (\<lambda>_. Inl ''refused'')) [(''mtproto'', ex_doc [ex_entry ''a'' 1])] =
      (Inl (MaterializeFailed ''refused''), [(''mtproto'', ex_doc [ex_entry ''a'' 1])])"
    by code_simp
  with studio_request_is_transaction [OF this] show ?thesis by (auto simp: get_document_def ex_studio_def)
qed

section \<open>The inbound list\<close>

text \<open>The pointer every driver of the panel declares has one segment.\<close>

definition simple_path :: "studio_driver \<Rightarrow> string \<Rightarrow> bool" where
  "simple_path driver key \<longleftrightarrow>
     sd_inbounds_path driver = CHR ''/'' # key \<and> key \<noteq> [] \<and> CHR ''/'' \<notin> set key \<and> CHR ''~'' \<notin> set key"

lemma replace_tilde_id: "CHR ''~'' \<notin> set s \<Longrightarrow> replace_tilde x r s = s"
  by (induction x r s rule: replace_tilde.induct) auto

lemma unescape_id: "CHR ''~'' \<notin> set s \<Longrightarrow> unescape s = s"
  by (simp add: unescape_def replace_tilde_id)

lemma split_path:
  assumes "simple_path driver key" "CHR ''/'' \<notin> set seg" "CHR ''~'' \<notin> set seg"
  shows "split_pointer (sd_inbounds_path driver @ ''/'' @ seg) = Inr [key, seg]" "split_pointer (sd_inbounds_path driver) = Inr [key]"
  using assms by (simp_all add: simple_path_def split_pointer_def split_on_append split_on_single unescape_id)

lemma strip_slash_path: "simple_path driver key \<Longrightarrow> strip_slash (sd_inbounds_path driver) = key"
proof -
  assume s: "simple_path driver key"
  have "dropWhile (\<lambda>c. c = CHR ''/'') key = key" "dropWhile (\<lambda>c. c = CHR ''/'') (rev key) = rev key"
    using s by (simp_all add: simple_path_def dropWhile_eq_self_iff) (metis hd_in_set set_rev rev_is_Nil_conv, metis hd_in_set set_rev rev_is_Nil_conv)
  then show ?thesis using s by (simp add: strip_slash_def rstrip_char_def simple_path_def)
qed

lemma path_missing_simple:
  "simple_path driver key \<Longrightarrow> path_missing (VDict d) (sd_inbounds_path driver) \<longleftrightarrow> dict_get d key = None"
  by (auto simp: path_missing_def simple_path_def split_on_single split: option.splits)

lemma inbound_items_simple:
  "simple_path driver key \<Longrightarrow> dict_get d key = Some (VList items) \<Longrightarrow> inbound_items (VDict d) (sd_inbounds_path driver) = items"
  by (simp add: inbound_items_def strip_slash_path)

lemma nat_to_str_seg: "CHR ''/'' \<notin> set (nat_to_str n)" "CHR ''~'' \<notin> set (nat_to_str n)"
  by (fastforce dest: nat_to_str_digits simp: is_digit_def)+

lemma int_of_nat_str: "int_of_str (nat_to_str n) = Some (int n)"
  using int_of_str_to_str [of "int n"] by (simp add: int_to_str_def)

text \<open>The four patches of the wizard on a document with an inbound list.\<close>

lemma patch_append:
  assumes "simple_path driver key" "dict_get d key = Some (VList items)"
  shows "apply_patches (VDict d) [patch_op OpAdd (sd_inbounds_path driver @ ''/-'') e] = Inr (VDict (dict_set key (VList (items @ [e])) d))"
  using split_path(1) [OF assms(1), of "''-''"] assms(2)
  by (simp add: apply_patches_def patch_op_def run_op_def add_op_def modify_parent_def child_def add_child_def set_child_def)

lemma patch_create_list:
  assumes "simple_path driver key"
  shows "apply_patches (VDict d) [patch_op OpAdd (sd_inbounds_path driver) (VList []), patch_op OpAdd (sd_inbounds_path driver @ ''/-'') e] =
    Inr (VDict (dict_set key (VList [e]) d))"
proof -
  have 1: "run_op (VDict d) (patch_op OpAdd (sd_inbounds_path driver) (VList [])) = Inr (VDict (dict_set key (VList []) d))"
    using split_path(2) [OF assms, of "''-''"] by (simp add: patch_op_def run_op_def add_op_def modify_parent_def add_child_def)
  have "run_op (VDict (dict_set key (VList []) d)) (patch_op OpAdd (sd_inbounds_path driver @ ''/-'') e) = Inr (VDict (dict_set key (VList [e]) (dict_set key (VList []) d)))"
    using split_path(1) [OF assms, of "''-''"]
    by (simp add: patch_op_def run_op_def add_op_def modify_parent_def child_def add_child_def set_child_def)
  moreover have "dict_set key (VList [e]) (dict_set key (VList []) d) = dict_set key (VList [e]) d"
    by (induction d) auto
  ultimately show ?thesis using 1 by (simp add: apply_patches_def)
qed

lemma patch_replace:
  assumes "simple_path driver key" "dict_get d key = Some (VList items)" "i < length items"
  shows "apply_patches (VDict d) [patch_op OpReplace (sd_inbounds_path driver @ ''/'' @ nat_to_str i) e] =
    Inr (VDict (dict_set key (VList (items[i := e])) d))"
  using split_path(1) [OF assms(1) nat_to_str_seg(1,2)] assms(2,3)
  by (simp add: apply_patches_def patch_op_def run_op_def replace_op_def modify_parent_def child_def replace_child_def set_child_def
      seg_index_def int_of_nat_str)

lemma patch_remove:
  assumes "simple_path driver key" "dict_get d key = Some (VList items)" "i < length items"
  shows "apply_patches (VDict d) [patch_op OpRemove (sd_inbounds_path driver @ ''/'' @ nat_to_str i) VNone] =
    Inr (VDict (dict_set key (VList (take i items @ drop (Suc i) items)) d))"
  using split_path(1) [OF assms(1) nat_to_str_seg(1,2)] assms(2,3)
  by (simp add: apply_patches_def patch_op_def run_op_def remove_op_def modify_parent_def child_def remove_child_def set_child_def
      seg_index_def int_of_nat_str)

section \<open>The wizard on the list of inbounds\<close>

text \<open>
  What the wizard does to the list, as a function on it: a create appends unless the tag is taken, and takes the first place when the
  list is at the driver's limit; an update replaces the first entry with the tag; a delete removes the one entry with it.
\<close>

definition wizard_items :: "studio_driver \<Rightarrow> studio_request \<Rightarrow> pyval list \<Rightarrow> pyval list option" where
  "wizard_items driver req items =
     (case req of
        CreateInbound spec \<Rightarrow>
          let entry = VDict (wizard_entry spec) in
          if list_ex (has_tag (is_tag spec)) items then None
          else if (case sd_max_inbounds driver of None \<Rightarrow> False | Some limit \<Rightarrow> limit \<le> int (length items))
            then (case items of [] \<Rightarrow> None | _ # rest \<Rightarrow> Some (entry # rest))
          else Some (items @ [entry])
      | UpdateInbound tag spec \<Rightarrow>
          if is_tag spec \<noteq> tag \<and> list_ex (has_tag (is_tag spec)) items then None
          else (case index_where (has_tag tag) 0 items of [] \<Rightarrow> None | i # _ \<Rightarrow> Some (items[i := VDict (wizard_entry spec)]))
      | DeleteInbound tag \<Rightarrow>
          if length (filter (has_tag tag) items) = 1 then Some (filter (\<lambda>e. \<not> has_tag tag e) items) else None
      | PatchDocument ops \<Rightarrow> None)"

definition inbound_list :: "studio_driver \<Rightarrow> string \<Rightarrow> pyval \<Rightarrow> pyval list \<Rightarrow> bool" where
  "inbound_list driver key doc items \<longleftrightarrow>
     simple_path driver key \<and> (\<exists>d. doc = VDict d \<and>
       (case dict_get d key of Some v \<Rightarrow> v = VList items | None \<Rightarrow> items = [] \<and> sd_max_inbounds driver = None))"

definition with_inbounds :: "string \<Rightarrow> pyval list \<Rightarrow> pyval \<Rightarrow> pyval" where
  "with_inbounds key items doc = (case doc of VDict d \<Rightarrow> VDict (dict_set key (VList items) d) | _ \<Rightarrow> doc)"

lemma index_where_iff: "i \<in> set (index_where P n xs) \<longleftrightarrow> n \<le> i \<and> i < n + length xs \<and> P (xs ! (i - n))"
proof (induction xs arbitrary: n)
  case (Cons x xs)
  show ?case
  proof (cases "i = n")
    case False
    then show ?thesis using Cons [of "Suc n"] by (cases "n < i") (auto simp: Suc_diff_Suc nth_Cons')
  qed (use Cons [of "Suc n"] in auto)
qed simp

lemma index_where_length: "length (index_where P n xs) = length (filter P xs)"
  by (induction xs arbitrary: n) auto

lemma index_where_remove:
  "index_where P n xs = [i] \<Longrightarrow> take (i - n) xs @ drop (Suc (i - n)) xs = filter (\<lambda>x. \<not> P x) xs"
proof (induction xs arbitrary: n)
  case (Cons x xs)
  show ?case
  proof (cases "P x")
    case True
    then have "i = n" "index_where P (Suc n) xs = []" using Cons.prems by auto
    then have "filter P xs = []" using index_where_length [of P "Suc n" xs] by simp
    then have "filter (\<lambda>x. \<not> P x) xs = xs" by (auto simp: filter_empty_conv filter_id_conv)
    then show ?thesis using True \<open>i = n\<close> by simp
  next
    case False
    then have s: "index_where P (Suc n) xs = [i]" using Cons.prems by simp
    then have "Suc n \<le> i" using index_where_iff [of i P "Suc n" xs] by simp
    then show ?thesis using Cons.IH [OF s] False by (simp add: Suc_diff_le Suc_diff_Suc [symmetric] take_Cons' drop_Cons')
  qed
qed simp

lemma find_None_list_ex: "find P xs = None \<longleftrightarrow> \<not> list_ex P xs"
  by (induction xs) auto

lemma nat_to_str_0: "nat_to_str 0 = ''0''"
  by (subst nat_to_str.simps) (simp add: digit_char_def, code_simp)

text \<open>A committed stage has patched the list as the specification says.\<close>

lemma stage_create:
  assumes "stage_of fr driver (CreateInbound spec) store = (Inr p, store1)" "pv_valid p" "pv_changed p"
    and doc: "current_doc driver store = VDict d" and path: "simple_path driver key"
    and items: "case dict_get d key of Some v \<Rightarrow> v = VList items | None \<Rightarrow> items = [] \<and> sd_max_inbounds driver = None"
  shows "\<exists>items'. wizard_items driver (CreateInbound spec) items = Some items' \<and> pv_document p = Some (VDict (dict_set key (VList items') d))"
proof -
  obtain st where g: "get_document driver store = (VDict d, st)" using doc by (metis prod.collapse)
  have again: "get_document driver st = (VDict d, st)" using get_document_again [of driver store] g by simp
  have ne: "sd_inbounds_path driver \<noteq> []" using path by (simp add: simple_path_def)
  have it: "inbound_items (VDict d) (sd_inbounds_path driver) = items"
    using items path by (auto simp: inbound_items_def strip_slash_path split: option.splits)
  let ?e = "VDict (wizard_entry spec)"
  have n: "\<not> list_ex (has_tag (is_tag spec)) items"
    using assms(1,3) g ne it find_None_list_ex [of "has_tag (is_tag spec)" items]
    by (auto simp: stage_of_def wizard_create_candidate_def unchanged_result_def split: option.splits if_splits)
  then have "find (has_tag (is_tag spec)) items = None" by (simp add: find_None_list_ex)
  then have pv: "preview_of driver (VDict d) (wizard_ops driver (VDict d) spec) = Inr p"
    using assms(1,3) g ne it again
    by (auto simp: stage_of_def wizard_create_candidate_def unchanged_result_def studio_preview_def split: if_splits)
  obtain patched where a: "apply_patches (VDict d) (wizard_ops driver (VDict d) spec) = Inr patched" "pv_document p = Some patched"
    using preview_of_valid [OF pv assms(2)] by blast
  show ?thesis
  proof (cases "dict_get d key")
    case None
    then have "wizard_ops driver (VDict d) spec = [patch_op OpAdd (sd_inbounds_path driver) (VList []), patch_op OpAdd (sd_inbounds_path driver @ ''/-'') ?e]"
      using path by (simp add: wizard_ops_def path_missing_simple Let_def)
    then show ?thesis
      using a patch_create_list [OF path, of d ?e] None items by (simp add: wizard_items_def)
  next
    case (Some v)
    then have v: "dict_get d key = Some (VList items)" using items by simp
    have ops: "wizard_ops driver (VDict d) spec =
        (if (case sd_max_inbounds driver of None \<Rightarrow> False | Some limit \<Rightarrow> limit \<le> int (length items))
         then [patch_op OpReplace (sd_inbounds_path driver @ ''/'' @ nat_to_str 0) ?e] else [patch_op OpAdd (sd_inbounds_path driver @ ''/-'') ?e])"
      using path v it by (simp add: wizard_ops_def path_missing_simple Let_def nat_to_str_0 split: option.splits)
    show ?thesis
    proof (cases "case sd_max_inbounds driver of None \<Rightarrow> False | Some limit \<Rightarrow> limit \<le> int (length items)")
      case False
      then show ?thesis using a patch_append [OF path v, of ?e] n ops by (simp add: wizard_items_def)
    next
      case True
      have "items \<noteq> []"
      proof
        assume "items = []"
        then have "run_op (VDict d) (patch_op OpReplace (sd_inbounds_path driver @ ''/'' @ nat_to_str 0) ?e) \<noteq> Inr patched"
          using split_path(1) [OF path nat_to_str_seg(1,2), of 0] v
          by (simp add: patch_op_def run_op_def replace_op_def modify_parent_def child_def replace_child_def seg_index_def int_of_nat_str)
        then show False using a(1) ops True by (auto simp: apply_patches_def split: sum.splits)
      qed
      then obtain x rest where x: "items = x # rest" by (cases items) auto
      then show ?thesis using a patch_replace [OF path v, of 0 ?e] n ops True by (simp add: wizard_items_def Let_def split: option.splits)
    qed
  qed
qed

lemma stage_update:
  assumes "stage_of fr driver (UpdateInbound tag spec) store = (Inr p, store1)" "pv_valid p" "pv_changed p"
    and doc: "current_doc driver store = VDict d" and path: "simple_path driver key"
    and items: "case dict_get d key of Some v \<Rightarrow> v = VList items | None \<Rightarrow> items = [] \<and> sd_max_inbounds driver = None"
  shows "\<exists>items'. wizard_items driver (UpdateInbound tag spec) items = Some items' \<and> pv_document p = Some (VDict (dict_set key (VList items') d))"
proof -
  obtain st where g: "get_document driver store = (VDict d, st)" using doc by (metis prod.collapse)
  have again: "get_document driver st = (VDict d, st)" using get_document_again [of driver store] g by simp
  have ne: "sd_inbounds_path driver \<noteq> []" using path by (simp add: simple_path_def)
  have it: "inbound_items (VDict d) (sd_inbounds_path driver) = items"
    using items path by (auto simp: inbound_items_def strip_slash_path split: option.splits)
  let ?e = "VDict (wizard_entry spec)"
  obtain i tail where i: "index_where (has_tag tag) 0 items = i # tail"
    using assms(1) g ne it by (cases "index_where (has_tag tag) 0 items") (auto simp: stage_of_def wizard_update_candidate_def)
  have n: "\<not> (is_tag spec \<noteq> tag \<and> list_ex (has_tag (is_tag spec)) items)"
    and pv: "preview_of driver (VDict d) [patch_op OpReplace (sd_inbounds_path driver @ ''/'' @ nat_to_str i) ?e] = Inr p"
    using assms(1,3) g ne it again i
    by (auto simp: stage_of_def wizard_update_candidate_def unchanged_result_def studio_preview_def Let_def split: if_splits)
  have v: "dict_get d key = Some (VList items)" using items i by (auto split: option.splits)
  have "i < length items" using i index_where_iff [of i "has_tag tag" 0 items] by simp
  from patch_replace [OF path v this, of ?e]
  have "pv_document p = Some (VDict (dict_set key (VList (items[i := ?e])) d))"
    using preview_of_valid [OF pv assms(2)] by auto
  with n i show ?thesis by (simp add: wizard_items_def)
qed

lemma stage_delete:
  assumes "stage_of fr driver (DeleteInbound tag) store = (Inr p, store1)" "pv_valid p"
    and doc: "current_doc driver store = VDict d" and path: "simple_path driver key"
    and items: "case dict_get d key of Some v \<Rightarrow> v = VList items | None \<Rightarrow> items = [] \<and> sd_max_inbounds driver = None"
  shows "\<exists>items'. wizard_items driver (DeleteInbound tag) items = Some items' \<and> pv_document p = Some (VDict (dict_set key (VList items') d))"
proof -
  obtain st where g: "get_document driver store = (VDict d, st)" using doc by (metis prod.collapse)
  have again: "get_document driver st = (VDict d, st)" using get_document_again [of driver store] g by simp
  have ne: "sd_inbounds_path driver \<noteq> []" using path by (simp add: simple_path_def)
  have it: "inbound_items (VDict d) (sd_inbounds_path driver) = items"
    using items path by (auto simp: inbound_items_def strip_slash_path split: option.splits)
  obtain i where i: "index_where (has_tag tag) 0 items = [i]"
    using assms(1) g ne it by (auto simp: stage_of_def wizard_delete_candidate_def Let_def split: list.splits)
  have pv: "preview_of driver (VDict d) [patch_op OpRemove (sd_inbounds_path driver @ ''/'' @ nat_to_str i) VNone] = Inr p"
    using assms(1) g ne it again i by (simp add: stage_of_def wizard_delete_candidate_def studio_preview_def Let_def)
  have v: "dict_get d key = Some (VList items)" using items i by (auto split: option.splits)
  have len: "i < length items" using i index_where_iff [of i "has_tag tag" 0 items] by simp
  have "pv_document p = Some (VDict (dict_set key (VList (filter (\<lambda>e. \<not> has_tag tag e) items)) d))"
    using preview_of_valid [OF pv assms(2)] patch_remove [OF path v len] index_where_remove [OF i] by auto
  moreover have "length (filter (has_tag tag) items) = 1" using i index_where_length [of "has_tag tag" 0 items] by simp
  ultimately show ?thesis by (simp add: wizard_items_def)
qed

text \<open>Unique tags, and when a request may break them: a settings block that carries its own tag.\<close>

definition tags_unique :: "pyval list \<Rightarrow> bool" where
  "tags_unique items \<longleftrightarrow> (\<forall>t. length (filter (has_tag t) items) \<le> 1)"

definition tag_safe :: "studio_request \<Rightarrow> bool" where
  "tag_safe req =
     (case req of
        CreateInbound spec \<Rightarrow> dict_ok (is_settings spec) \<and> \<not> dict_in ''tag'' (is_settings spec)
      | UpdateInbound tag spec \<Rightarrow> dict_ok (is_settings spec) \<and> \<not> dict_in ''tag'' (is_settings spec)
      | DeleteInbound tag \<Rightarrow> True
      | PatchDocument ops \<Rightarrow> False)"

lemma entry_tag:
  assumes "dict_ok (is_settings spec)" "\<not> dict_in ''tag'' (is_settings spec)"
  shows "has_tag t (VDict (wizard_entry spec)) \<longleftrightarrow> t = is_tag spec"
proof -
  have "dict_get (is_settings spec) ''tag'' = None" using assms(2) by (simp add: dict_in_def)
  then show ?thesis using assms(1) by (auto simp: has_tag_def vget_def wizard_entry_def dict_get_update)
qed

lemma filter_update_le:
  assumes "i < length xs" shows "length (filter P (xs[i := y])) \<le> length (filter P (take i xs @ drop (Suc i) xs)) + (if P y then 1 else 0)"
  using assms by (simp add: upd_conv_take_nth_drop)

lemma filter_without_le: "length (filter P (take i xs @ drop (Suc i) xs)) \<le> length (filter P xs)"
proof (cases "i < length xs")
  case True
  then have "xs = take i xs @ xs ! i # drop (Suc i) xs" by (rule id_take_nth_drop)
  then have "length (filter P xs) = length (filter P (take i xs @ xs ! i # drop (Suc i) xs))" by simp
  then show ?thesis by simp
qed simp

lemma filter_without_hit:
  assumes "i < length xs" "P (xs ! i)"
  shows "Suc (length (filter P (take i xs @ drop (Suc i) xs))) = length (filter P xs)"
proof -
  have "length (filter P xs) = length (filter P (take i xs @ xs ! i # drop (Suc i) xs))"
    using id_take_nth_drop [OF assms(1)] by simp
  then show ?thesis using assms(2) by simp
qed

lemma not_list_ex_filter: "\<not> list_ex P xs \<Longrightarrow> filter P xs = []"
  by (auto simp: list_ex_iff filter_empty_conv)

lemma wizard_items_unique:
  assumes "wizard_items driver req items = Some items'" "tags_unique items" "tag_safe req"
  shows "tags_unique items'"
proof (cases req)
  case (CreateInbound spec)
  let ?e = "VDict (wizard_entry spec)"
  have e: "has_tag t ?e \<longleftrightarrow> t = is_tag spec" for t using entry_tag assms(3) CreateInbound by (simp add: tag_safe_def)
  have n: "filter (has_tag (is_tag spec)) items = []"
    using assms(1) CreateInbound by (auto simp: wizard_items_def Let_def intro!: not_list_ex_filter split: if_splits)
  have "items' = items @ [?e] \<or> (\<exists>x rest. items = x # rest \<and> items' = ?e # rest)"
    using assms(1) CreateInbound by (auto simp: wizard_items_def Let_def split: if_splits list.splits option.splits)
  then show ?thesis using n assms(2) e by (auto simp: tags_unique_def split: if_splits) (metis le_SucI length_0_conv list.size(3))+
next
  case (UpdateInbound tag spec)
  let ?e = "VDict (wizard_entry spec)"
  have e: "has_tag t ?e \<longleftrightarrow> t = is_tag spec" for t using entry_tag assms(3) UpdateInbound by (simp add: tag_safe_def)
  obtain i tail where i: "index_where (has_tag tag) 0 items = i # tail" "items' = items[i := ?e]"
    "\<not> (is_tag spec \<noteq> tag \<and> list_ex (has_tag (is_tag spec)) items)"
    using assms(1) UpdateInbound by (auto simp: wizard_items_def split: if_splits list.splits)
  have hit: "i < length items" "has_tag tag (items ! i)" using i(1) index_where_iff [of i "has_tag tag" 0 items] by auto
  have "length (filter (has_tag t) items') \<le> 1" for t
  proof (cases "t = is_tag spec")
    case True
    have "filter (has_tag t) (take i items @ drop (Suc i) items) = []"
    proof (cases "is_tag spec = tag")
      case True
      have "length (filter (has_tag tag) items) \<le> 1" using assms(2) by (simp add: tags_unique_def)
      then have "length (filter (has_tag tag) (take i items @ drop (Suc i) items)) = 0"
        using filter_without_hit [of i items "has_tag tag", OF hit] by linarith
      then show ?thesis using True \<open>t = is_tag spec\<close> by (simp only: length_0_conv)
    next
      case False
      then have "filter (has_tag t) items = []" using i(3) True by (simp add: not_list_ex_filter)
      then show ?thesis using filter_without_le [of "has_tag t" i items] by simp
    qed
    then show ?thesis using filter_update_le [OF hit(1), of "has_tag t" ?e] i(2) e by (simp split: if_splits)
  next
    case False
    have "length (filter (has_tag t) items) \<le> 1" using assms(2) by (simp add: tags_unique_def)
    then show ?thesis
      using filter_update_le [OF hit(1), of "has_tag t" ?e] filter_without_le [of "has_tag t" i items] i(2) e False by simp
  qed
  then show ?thesis by (simp add: tags_unique_def)
next
  case (DeleteInbound tag)
  then have i: "items' = filter (\<lambda>e. \<not> has_tag tag e) items" using assms(1) by (auto simp: wizard_items_def split: if_splits)
  have sub: "length (filter P (filter Q xs)) \<le> length (filter P xs)" for P Q and xs :: "pyval list" by (induction xs) auto
  have "length (filter (has_tag t) items') \<le> 1" for t
    unfolding i by (rule le_trans [OF sub]) (use assms(2) in \<open>simp add: tags_unique_def\<close>)
  then show ?thesis by (simp add: tags_unique_def)
next
  case (PatchDocument ops)
  then show ?thesis using assms(3) by (simp add: tag_safe_def)
qed

text \<open>
  C6: The wizard refines its specification on the inbound list. After any wizard request the core's document is the one before, or the
  one before with only its inbound list changed as the specification says; and if tags were unique and the settings block
  of the request does not carry a tag of its own, they still are. In particular a create at a driver's limit
  replaces the first inbound of the list, whatever the limit is.
\<close>
theorem wizard_refines_list:
  assumes "run_request fr driver req hook store = (r, store')" "inbound_list driver key (current_doc driver store) items"
    and "\<forall>ops. req \<noteq> PatchDocument ops"
  shows "(current_doc driver store' = current_doc driver store \<or>
     (\<exists>items'. wizard_items driver req items = Some items' \<and> current_doc driver store' = with_inbounds key items' (current_doc driver store) \<and>
        (tags_unique items \<longrightarrow> tag_safe req \<longrightarrow> tags_unique items')))"
proof -
  obtain s store1 where st: "stage_of fr driver req store = (s, store1)" by (meson surj_pair)
  have ex: "wizard_execute driver (stage_of fr driver req) hook store = (r, store')" using assms(1) by (simp add: run_request_execute)
  obtain d where d: "current_doc driver store = VDict d" "simple_path driver key"
      "case dict_get d key of Some v \<Rightarrow> v = VList items | None \<Rightarrow> items = [] \<and> sd_max_inbounds driver = None"
    using assms(2) by (auto simp: inbound_list_def)
  have same: "current_doc driver store1 = current_doc driver store" using stage_cases [OF st] get_document_again [of driver store] by auto
  show ?thesis
  proof (cases "\<exists>p. s = Inr p \<and> pv_valid p \<and> pv_changed p")
    case False
    then have "store' = store1" using ex st by (auto simp: wizard_execute_def split: sum.splits if_splits)
    then show ?thesis using same by simp
  next
    case True
    then obtain p where p: "s = Inr p" "pv_valid p" "pv_changed p" by blast
    have "\<exists>items'. wizard_items driver req items = Some items' \<and> pv_document p = Some (VDict (dict_set key (VList items') d))"
    proof (cases req)
      case (CreateInbound spec)
      then show ?thesis using stage_create [OF _ p(2,3) d] st p(1) by simp
    next
      case (UpdateInbound tag spec)
      then show ?thesis using stage_update [OF _ p(2,3) d] st p(1) by simp
    next
      case (DeleteInbound tag)
      then show ?thesis using stage_delete [OF _ p(2) d] st p(1) by simp
    qed (use assms(3) in simp)
    then obtain items' where i: "wizard_items driver req items = Some items'" "pv_document p = Some (VDict (dict_set key (VList items') d))"
      by blast
    have "store' = store1 \<or> store' = dict_set (sd_id driver) (VDict (dict_set key (VList items') d)) store1"
      using ex st p i(2) by (cases hook) (auto simp: wizard_execute_def document_or_empty_def studio_persist_def split: sum.splits)
    then show ?thesis
      using same i(1) wizard_items_unique [OF i(1)] d(1) by (auto simp: get_document_saved with_inbounds_def)
  qed
qed

text \<open>Two inbounds at a limit of two: the third create drops the first inbound, and its settings could forge a tag.\<close>

theorem wizard_refines_list_witness:
  "\<exists>p. run_request (\<lambda>_. []) ex_studio (CreateInbound (ex_spec ''c'' 3)) None [(''mtproto'', ex_doc [ex_entry ''a'' 1, ex_entry ''b'' 2])] =
      (Inr p, [(''mtproto'', ex_doc [ex_entry ''c'' 3, ex_entry ''b'' 2])]) \<and>
   wizard_items ex_studio (CreateInbound (ex_spec ''c'' 3)) [ex_entry ''a'' 1, ex_entry ''b'' 2] = Some [ex_entry ''c'' 3, ex_entry ''b'' 2] \<and>
   tags_unique [ex_entry ''c'' 3, ex_entry ''b'' 2]"
proof -
  let ?items = "[ex_entry ''a'' 1, ex_entry ''b'' 2]" and ?items' = "[ex_entry ''c'' 3, ex_entry ''b'' 2]"
  let ?req = "CreateInbound (ex_spec ''c'' 3)" and ?st = "[(''mtproto'', ex_doc [ex_entry ''a'' 1, ex_entry ''b'' 2])]"
  have g: "get_document ex_studio ?st = (ex_doc ?items, ?st)" "get_document ex_studio [(''mtproto'', ex_doc ?items')] = (ex_doc ?items', [(''mtproto'', ex_doc ?items')])"
    by (simp_all add: get_document_def ex_studio_def)
  have r: "run_request (\<lambda>_. []) ex_studio ?req None ?st = (Inr \<lparr>pv_core_id = ''mtproto'', pv_valid = True, pv_errors = [],
      pv_document = Some (ex_doc ?items'), pv_changed = True\<rparr>, [(''mtproto'', ex_doc ?items')])"
    by code_simp
  have l: "inbound_list ex_studio ''inbounds'' (current_doc ex_studio ?st) ?items"
    unfolding g by (simp add: inbound_list_def simple_path_def ex_doc_def ex_studio_def)
  have w: "wizard_items ex_studio ?req ?items = Some ?items'" by code_simp
  have u: "tags_unique ?items" by (simp add: tags_unique_def has_tag_def ex_entry_def vget_def)
  have safe: "tag_safe ?req" by (simp add: tag_safe_def ex_spec_def dict_in_def)
  have "ex_doc ?items' \<noteq> ex_doc ?items" by (simp add: ex_doc_def ex_entry_def)
  then have "tags_unique ?items'"
    using wizard_refines_list [OF r l] u safe w by (auto simp: g)
  then show ?thesis using r w by blast
qed

text \<open>A settings block with its own tag gets past the conflict check: two inbounds share a tag afterwards.\<close>

lemma forged_tag_makes_twins:
  "\<exists>p. run_request (\<lambda>_. []) (ex_studio\<lparr>sd_max_inbounds := None\<rparr>) (CreateInbound (ex_spec ''b'' 2\<lparr>is_settings := [(''tag'', VStr ''a'')]\<rparr>)) None
       [(''mtproto'', ex_doc [ex_entry ''a'' 1])] = (Inr p, [(''mtproto'', ex_doc [ex_entry ''a'' 1, ex_entry ''a'' 2])])"
proof -
  have "run_request (\<lambda>_. []) (ex_studio\<lparr>sd_max_inbounds := None\<rparr>) (CreateInbound (ex_spec ''b'' 2\<lparr>is_settings := [(''tag'', VStr ''a'')]\<rparr>)) None
       [(''mtproto'', ex_doc [ex_entry ''a'' 1])] = (Inr \<lparr>pv_core_id = ''mtproto'', pv_valid = True, pv_errors = [],
      pv_document = Some (ex_doc [ex_entry ''a'' 1, ex_entry ''a'' 2]), pv_changed = True\<rparr>, [(''mtproto'', ex_doc [ex_entry ''a'' 1, ex_entry ''a'' 2])])"
    by code_simp
  then show ?thesis by blast
qed

text \<open>
  Replaying a create is harmless: right after a create that was committed, the same create (whose settings do not carry their own
  tag) succeeds, reports that nothing changed, and leaves the store alone, even if the core would now refuse it. The
  same tag with other content is a conflict and leaves the store alone too.
\<close>
lemma create_replay_changes_nothing:
  assumes "run_request fr driver (CreateInbound spec) hook store = (Inr p, store')" "pv_valid p" "pv_changed p"
    and "inbound_list driver key (current_doc driver store) items" "tag_safe (CreateInbound spec)"
  shows "(\<exists>q. run_request fr driver (CreateInbound spec) hook' store' = (Inr q, store') \<and> pv_valid q \<and> \<not> pv_changed q) \<and>
    (\<forall>other. is_tag other = is_tag spec \<longrightarrow>
       entry_fingerprint fr (VDict (wizard_entry other)) \<noteq> entry_fingerprint fr (VDict (wizard_entry spec)) \<longrightarrow>
       run_request fr driver (CreateInbound other) hook' store' = (Inl (StudioConflict (is_tag spec)), store'))"
proof -
  obtain s store1 where st: "stage_of fr driver (CreateInbound spec) store = (s, store1)" by (meson surj_pair)
  have ex: "wizard_execute driver (stage_of fr driver (CreateInbound spec)) hook store = (Inr p, store')"
    using assms(1) by (simp add: run_request_execute)
  have s: "s = Inr p" using ex st by (auto simp: wizard_execute_def split: sum.splits if_splits)
  obtain d where d: "current_doc driver store = VDict d" "simple_path driver key"
      "case dict_get d key of Some v \<Rightarrow> v = VList items | None \<Rightarrow> items = [] \<and> sd_max_inbounds driver = None"
    using assms(4) by (auto simp: inbound_list_def)
  obtain items' where i: "wizard_items driver (CreateInbound spec) items = Some items'" "pv_document p = Some (VDict (dict_set key (VList items') d))"
    using stage_create [OF st [unfolded s] assms(2,3) d] by blast
  have st': "store' = dict_set (sd_id driver) (VDict (dict_set key (VList items') d)) store1"
    using ex st s assms(2,3) i(2) by (cases hook) (auto simp: wizard_execute_def document_or_empty_def studio_persist_def split: sum.splits)
  have g: "get_document driver store' = (VDict (dict_set key (VList items') d), store')" by (simp add: st' get_document_saved)
  have it: "inbound_items (VDict (dict_set key (VList items') d)) (sd_inbounds_path driver) = items'"
    by (rule inbound_items_simple [OF d(2)]) simp
  let ?e = "VDict (wizard_entry spec)"
  have e: "has_tag (is_tag spec) ?e" using entry_tag assms(5) by (simp add: tag_safe_def)
  have n: "\<not> list_ex (has_tag (is_tag spec)) items" using i(1) by (auto simp: wizard_items_def Let_def split: if_splits)
  have "items' = items @ [?e] \<or> (\<exists>x rest. items = x # rest \<and> items' = ?e # rest)"
    using i(1) by (auto simp: wizard_items_def Let_def split: if_splits list.splits option.splits)
  then have f: "find (has_tag (is_tag spec)) items' = Some ?e"
  proof
    assume "items' = items @ [?e]"
    moreover have "find P (xs @ [y]) = Some y" if "\<not> list_ex P xs" "P y" for P y and xs :: "pyval list"
      using that by (induction xs) auto
    ultimately show ?thesis using n e by simp
  qed (use e in auto)
  have ne: "sd_inbounds_path driver \<noteq> []" using d(2) by (simp add: simple_path_def)
  have "wizard_create_candidate fr driver other store' =
      (if entry_fingerprint fr ?e = entry_fingerprint fr (VDict (wizard_entry other)) then (Inr (unchanged_result driver (VDict (dict_set key (VList items') d))), store')
       else (Inl (StudioConflict (is_tag other)), store'))" if "is_tag other = is_tag spec" for other
    using that ne g it f by (simp add: wizard_create_candidate_def)
  then show ?thesis
    by (auto simp: run_request_execute wizard_execute_def stage_of_def unchanged_result_def)
qed

lemma create_replay_changes_nothing_example:
  "\<exists>q. run_request (\<lambda>_. []) ex_studio (CreateInbound (ex_spec ''a'' 1)) (Some (\<lambda>_. Inl ''down'')) [(''mtproto'', ex_doc [ex_entry ''a'' 1])] =
      (Inr q, [(''mtproto'', ex_doc [ex_entry ''a'' 1])]) \<and> \<not> pv_changed q"
proof -
  let ?st = "[(''mtproto'', ex_doc [])]"
  have r: "run_request (\<lambda>_. []) ex_studio (CreateInbound (ex_spec ''a'' 1)) None ?st = (Inr \<lparr>pv_core_id = ''mtproto'', pv_valid = True, pv_errors = [],
      pv_document = Some (ex_doc [ex_entry ''a'' 1]), pv_changed = True\<rparr>, [(''mtproto'', ex_doc [ex_entry ''a'' 1])])"
    by code_simp
  have l: "inbound_list ex_studio ''inbounds'' (current_doc ex_studio ?st) []"
    by (simp add: inbound_list_def simple_path_def ex_doc_def ex_studio_def get_document_def)
  have safe: "tag_safe (CreateInbound (ex_spec ''a'' 1))" by (simp add: tag_safe_def ex_spec_def dict_in_def)
  show ?thesis using create_replay_changes_nothing [OF r _ _ l safe, of "Some (\<lambda>_. Inl ''down'')"] by auto
qed

end
