(* ===== verification/UsageJournal.thy ===== *)
theory UsageJournal
  imports PyValue
begin

text \<open>
  The usage journal: \<open>SQLUsageJournal.append\<close> of \<open>app/persistence/repositories.py\<close>, which journals a batch and rolls it up, and
  \<open>app/jobs/usage_retention.py\<close>, which collapses old rows into daily ones and deletes very old ones. The journal table is
  its list of rows; a time is a number of microseconds since the epoch. A query without an order returns its rows in
  table order here.
\<close>

section \<open>Rows and rollups\<close>

record usage_delta =
  ud_core :: string
  ud_account :: string
  ud_node :: "int option"
  ud_up :: int
  ud_down :: int
  ud_at :: int
  ud_quota_factor :: "rat option"
  ud_billing_factor :: "rat option"

record usage_row =
  ur_seq :: int
  ur_user :: "int option"
  ur_core :: string
  ur_account :: string
  ur_node :: "int option"
  ur_up :: int
  ur_down :: int
  ur_at :: int
  ur_quota_factor :: "rat option"
  ur_billing_factor :: "rat option"

type_synonym 'k totals = "('k \<times> int \<times> int) list"

record usage_journal =
  uj_rows :: "usage_row list"
  uj_next :: int
  uj_aggregates :: "string totals"
  uj_buckets :: "int totals"

text \<open>\<open>totals = d.setdefault(k, [0, 0]); totals[0] += up; totals[1] += down\<close>.\<close>

definition totals_of :: "'k totals \<Rightarrow> 'k \<Rightarrow> int \<times> int" where
  "totals_of t k = (case dict_get t k of None \<Rightarrow> (0, 0) | Some p \<Rightarrow> p)"

definition add_totals :: "'k \<Rightarrow> int \<Rightarrow> int \<Rightarrow> 'k totals \<Rightarrow> 'k totals" where
  "add_totals k up down t = dict_set k (fst (totals_of t k) + up, snd (totals_of t k) + down) t"

definition node_dimension :: "int option \<Rightarrow> string" where
  "node_dimension node = ''node:'' @ (case node of None \<Rightarrow> ''master'' | Some n \<Rightarrow> int_to_str n)"

definition core_dimension :: "string \<Rightarrow> string" where
  "core_dimension core = ''core:'' @ core"

definition dimensions_of :: "usage_delta \<Rightarrow> string list" where
  "dimensions_of r = [''system'', core_dimension (ud_core r), node_dimension (ud_node r)]"

definition MICRO :: int where "MICRO = 1000000"
definition FIVE_MINUTES :: int where "FIVE_MINUTES = 300 * MICRO"
definition DAY :: int where "DAY = 86400 * MICRO"

definition bucket_of :: "int \<Rightarrow> int" where
  "bucket_of t = t - t mod FIVE_MINUTES"

definition batch_dimensions :: "usage_delta list \<Rightarrow> string totals" where
  "batch_dimensions records =
     fold (\<lambda>r t. fold (\<lambda>dim. add_totals dim (ud_up r) (ud_down r)) (dimensions_of r) t) records []"

definition batch_buckets :: "usage_delta list \<Rightarrow> int totals" where
  "batch_buckets records = fold (\<lambda>r. add_totals (bucket_of (ud_at r)) (ud_up r) (ud_down r)) records []"

definition merge_totals :: "'k totals \<Rightarrow> 'k totals \<Rightarrow> 'k totals" where
  "merge_totals batch t = fold (\<lambda>(k, up, down). add_totals k up down) batch t"

fun journal_rows :: "((string \<times> string) \<times> int) list \<Rightarrow> int \<Rightarrow> usage_delta list \<Rightarrow> usage_row list" where
  "journal_rows owners seq [] = []"
| "journal_rows owners seq (r # rs) =
     \<lparr>ur_seq = seq, ur_user = dict_get owners (ud_core r, ud_account r), ur_core = ud_core r, ur_account = ud_account r,
      ur_node = ud_node r, ur_up = ud_up r, ur_down = ud_down r, ur_at = ud_at r,
      ur_quota_factor = ud_quota_factor r, ur_billing_factor = ud_billing_factor r\<rparr> # journal_rows owners (seq + 1) rs"

definition journal_append :: "usage_delta list \<Rightarrow> ((string \<times> string) \<times> int) list \<Rightarrow> usage_journal \<Rightarrow> usage_journal" where
  "journal_append records owners j =
     (if records = [] then j
      else j\<lparr>uj_rows := uj_rows j @ journal_rows owners (uj_next j) records,
             uj_next := uj_next j + int (length records),
             uj_aggregates := merge_totals (batch_dimensions records) (uj_aggregates j),
             uj_buckets := merge_totals (batch_buckets records) (uj_buckets j)\<rparr>)"

section \<open>Collapsing old rows\<close>

definition BATCH_GROUPS :: nat where "BATCH_GROUPS = 400"
definition MAX_BATCHES_PER_RUN :: nat where "MAX_BATCHES_PER_RUN = 100"
definition COLLAPSE_DAYS_DEFAULT :: int where "COLLAPSE_DAYS_DEFAULT = 7"
definition RETENTION_DAYS_DEFAULT :: int where "RETENTION_DAYS_DEFAULT = 90"

text \<open>The environment setting as an integer, or the default when it is empty or not a number.\<close>

definition days_setting :: "string option \<Rightarrow> int \<Rightarrow> int" where
  "days_setting raw dflt =
     (case raw of
        None \<Rightarrow> dflt
      | Some s \<Rightarrow> if py_strip s = [] then dflt else (case int_of_str (py_strip s) of None \<Rightarrow> dflt | Some n \<Rightarrow> n))"

type_synonym group_key = "int \<times> int option \<times> string \<times> int option"

definition key_of :: "usage_row \<Rightarrow> group_key" where
  "key_of r = (ur_at r div DAY, ur_user r, ur_core r, ur_node r)"

definition old_rows :: "int \<Rightarrow> group_key \<Rightarrow> usage_row list \<Rightarrow> usage_row list" where
  "old_rows cutoff k rows = filter (\<lambda>r. ur_at r < cutoff \<and> key_of r = k) rows"

text \<open>\<open>max\<close> of a nullable column ignores the nulls.\<close>

definition max_factor :: "rat option list \<Rightarrow> rat option" where
  "max_factor xs = (case List.map_filter id xs of [] \<Rightarrow> None | ys \<Rightarrow> Some (Max (set ys)))"

record usage_group =
  ug_key :: group_key
  ug_up :: int
  ug_down :: int
  ug_first :: int
  ug_last :: int
  ug_quota_factor :: "rat option"
  ug_billing_factor :: "rat option"

definition group_of :: "int \<Rightarrow> usage_row list \<Rightarrow> group_key \<Rightarrow> usage_group" where
  "group_of cutoff rows k =
     (let members = old_rows cutoff k rows
      in \<lparr>ug_key = k, ug_up = sum_list (map ur_up members), ug_down = sum_list (map ur_down members),
          ug_first = Min (set (map ur_at members)), ug_last = Max (set (map ur_at members)),
          ug_quota_factor = max_factor (map ur_quota_factor members), ug_billing_factor = max_factor (map ur_billing_factor members)\<rparr>)"

text \<open>The groups with more than one row before the cutoff, at most a batch of them.\<close>

definition crowded_keys :: "int \<Rightarrow> usage_row list \<Rightarrow> group_key list" where
  "crowded_keys cutoff rows =
     filter (\<lambda>k. 1 < length (old_rows cutoff k rows)) (remdups (map key_of (filter (\<lambda>r. ur_at r < cutoff) rows)))"

definition group_filter :: "usage_group \<Rightarrow> usage_row \<Rightarrow> bool" where
  "group_filter g r \<longleftrightarrow>
     (let (day, user, core, node) = ug_key g
      in ug_first g \<le> ur_at r \<and> ur_at r \<le> ug_last g \<and> ur_core r = core \<and> ur_user r = user \<and> ur_node r = node)"

definition collapse_group :: "usage_group \<Rightarrow> usage_row list \<times> int \<Rightarrow> usage_row list \<times> int" where
  "collapse_group g rs =
     (let (rows, seq) = rs; (day, user, core, node) = ug_key g
      in (filter (\<lambda>r. \<not> group_filter g r) rows @
            [\<lparr>ur_seq = seq, ur_user = user, ur_core = core, ur_account = [], ur_node = node, ur_up = ug_up g, ur_down = ug_down g,
              ur_at = ug_first g, ur_quota_factor = ug_quota_factor g, ur_billing_factor = ug_billing_factor g\<rparr>],
          seq + 1))"

definition collapse_batch :: "int \<Rightarrow> usage_row list \<times> int \<Rightarrow> usage_row list \<times> int" where
  "collapse_batch cutoff rs =
     fold collapse_group (map (group_of cutoff (fst rs)) (take BATCH_GROUPS (crowded_keys cutoff (fst rs)))) rs"

fun collapse_batches :: "nat \<Rightarrow> int \<Rightarrow> usage_row list \<times> int \<Rightarrow> usage_row list \<times> int" where
  "collapse_batches 0 cutoff rs = rs"
| "collapse_batches (Suc n) cutoff rs =
     (if crowded_keys cutoff (fst rs) = [] then rs else collapse_batches n cutoff (collapse_batch cutoff rs))"

definition collapse_journal :: "int \<Rightarrow> usage_journal \<Rightarrow> usage_journal" where
  "collapse_journal cutoff j =
     (let (rows, seq) = collapse_batches MAX_BATCHES_PER_RUN cutoff (uj_rows j, uj_next j)
      in j\<lparr>uj_rows := rows, uj_next := seq\<rparr>)"

section \<open>Hard retention\<close>

fun retention_batches :: "nat \<Rightarrow> int \<Rightarrow> usage_row list \<Rightarrow> usage_row list" where
  "retention_batches 0 cutoff rows = rows"
| "retention_batches (Suc n) cutoff rows =
     (let batch = BATCH_GROUPS * 8; seqs = take batch (map ur_seq (filter (\<lambda>r. ur_at r < cutoff) rows))
      in if seqs = [] then rows
         else let kept = filter (\<lambda>r. ur_seq r \<notin> set seqs) rows
              in if length rows - length kept < batch then kept else retention_batches n cutoff kept)"

definition hard_retention :: "string option \<Rightarrow> int \<Rightarrow> usage_journal \<Rightarrow> usage_journal" where
  "hard_retention setting now j =
     (let days = days_setting setting RETENTION_DAYS_DEFAULT
      in if days \<le> 0 then j else j\<lparr>uj_rows := retention_batches MAX_BATCHES_PER_RUN (now - days * DAY) (uj_rows j)\<rparr>)"

definition run_usage_retention :: "string option \<Rightarrow> string option \<Rightarrow> int \<Rightarrow> usage_journal \<Rightarrow> usage_journal" where
  "run_usage_retention collapse_setting retention_setting now j =
     (let days = days_setting collapse_setting COLLAPSE_DAYS_DEFAULT
      in if days \<le> 0 then j else hard_retention retention_setting now (collapse_journal (now - days * DAY) j))"

end
