(* ===== verification/UsageJournalProps.thy ===== *)
theory UsageJournalProps
  imports UsageJournal
begin

text \<open>
  Collapsing keeps the sums of every day, user, core and node and leaves at most one old row per group; deleting removes
  exactly the oldest rows, batch by batch; the rollup tables and the sums of the days that are not deleted agree with
  everything ever journalled, through every sequence of appends and retention jobs.
\<close>

section \<open>One group\<close>

lemma DAY_pos: "0 < DAY"
  by (simp add: DAY_def MICRO_def)

definition group_sum :: "(usage_row \<Rightarrow> int) \<Rightarrow> group_key \<Rightarrow> usage_row list \<Rightarrow> int" where
  "group_sum f k rows = sum_list (map f (filter (\<lambda>r. key_of r = k) rows))"

lemma group_sum_simps [simp]:
  "group_sum f k [] = 0" "group_sum f k (r # rows) = (if key_of r = k then f r else 0) + group_sum f k rows"
  "group_sum f k (xs @ ys) = group_sum f k xs + group_sum f k ys"
  by (simp_all add: group_sum_def)

lemma group_sum_split:
  "group_sum f k rows = group_sum f k (filter P rows) + group_sum f k (filter (\<lambda>r. \<not> P r) rows)"
  by (induction rows) auto

lemma group_sum_filter_key: "group_sum f k (old_rows cutoff k' rows) = (if k = k' then sum_list (map f (old_rows cutoff k' rows)) else 0)"
proof -
  have "filter (\<lambda>r. key_of r = k) (old_rows cutoff k' rows) = (if k = k' then old_rows cutoff k' rows else [])"
    by (auto simp: old_rows_def filter_empty_conv)
  then show ?thesis by (simp add: group_sum_def)
qed

lemma group_filter_iff:
  assumes ne: "old_rows cutoff k rows \<noteq> []"
  shows "group_filter (group_of cutoff rows k) r \<longleftrightarrow>
    ug_first (group_of cutoff rows k) \<le> ur_at r \<and> ur_at r \<le> ug_last (group_of cutoff rows k) \<and> key_of r = k"
    "ug_last (group_of cutoff rows k) < cutoff" "ug_first (group_of cutoff rows k) div DAY = fst k"
    "r \<in> set (old_rows cutoff k rows) \<Longrightarrow> ug_first (group_of cutoff rows k) \<le> ur_at r \<and> ur_at r \<le> ug_last (group_of cutoff rows k)"
proof -
  let ?g = "group_of cutoff rows k" and ?m = "old_rows cutoff k rows"
  have f: "ug_first ?g = Min (ur_at ` set ?m)" "ug_last ?g = Max (ur_at ` set ?m)" by (simp_all add: group_of_def Let_def)
  have ends: "ug_first ?g \<in> ur_at ` set ?m" "ug_last ?g \<in> ur_at ` set ?m"
    unfolding f using ne by (auto intro!: Min_in Max_in simp del: Min_in Max_in)
  have day: "x div DAY = fst k \<and> x < cutoff" if "x \<in> ur_at ` set ?m" for x using that by (auto simp: old_rows_def key_of_def)
  show "ug_last ?g < cutoff" "ug_first ?g div DAY = fst k" using day ends by blast+
  show "ug_first ?g \<le> ur_at r \<and> ur_at r \<le> ug_last ?g" if "r \<in> set ?m" using that by (simp add: f)
  have "ur_at r div DAY = fst k" if "ug_first ?g \<le> ur_at r" "ur_at r \<le> ug_last ?g"
  proof -
    have "ug_first ?g div DAY \<le> ur_at r div DAY" "ur_at r div DAY \<le> ug_last ?g div DAY"
      using that DAY_pos by (simp_all add: zdiv_mono1)
    then show ?thesis using day [OF ends(1)] day [OF ends(2)] by simp
  qed
  then show "group_filter ?g r \<longleftrightarrow> ug_first ?g \<le> ur_at r \<and> ur_at r \<le> ug_last ?g \<and> key_of r = k"
    by (cases k) (auto simp: group_filter_def key_of_def group_of_def Let_def)
qed

text \<open>On rows whose old members of the group are those it was computed from, the filter selects exactly them.\<close>

lemma group_filter_members:
  assumes "old_rows cutoff k rows \<noteq> []" "old_rows cutoff k now = old_rows cutoff k rows"
  shows "filter (group_filter (group_of cutoff rows k)) now = old_rows cutoff k now"
proof -
  have "group_filter (group_of cutoff rows k) r \<longleftrightarrow> ur_at r < cutoff \<and> key_of r = k" if "r \<in> set now" for r
  proof
    assume "ur_at r < cutoff \<and> key_of r = k"
    then have "r \<in> set (old_rows cutoff k rows)" using that assms(2) [symmetric] by (simp add: old_rows_def)
    then show "group_filter (group_of cutoff rows k) r"
      using group_filter_iff(1,4) [OF assms(1)] \<open>ur_at r < cutoff \<and> key_of r = k\<close> by blast
  qed (use group_filter_iff(1,2) [OF assms(1)] in fastforce)
  then show ?thesis unfolding old_rows_def by (rule filter_cong [OF refl])
qed

definition collapsed_row :: "usage_group \<Rightarrow> int \<Rightarrow> usage_row" where
  "collapsed_row g seq =
     (let (day, user, core, node) = ug_key g
      in \<lparr>ur_seq = seq, ur_user = user, ur_core = core, ur_account = [], ur_node = node, ur_up = ug_up g, ur_down = ug_down g,
          ur_at = ug_first g, ur_quota_factor = ug_quota_factor g, ur_billing_factor = ug_billing_factor g\<rparr>)"

lemma collapse_group_row:
  "collapse_group g (rows, seq) = (filter (\<lambda>r. \<not> group_filter g r) rows @ [collapsed_row g seq], seq + 1)"
  by (cases "ug_key g") (simp add: collapse_group_def collapsed_row_def)

lemma collapsed_row_facts:
  assumes "old_rows cutoff k rows \<noteq> []"
  shows "key_of (collapsed_row (group_of cutoff rows k) seq) = k" "ur_at (collapsed_row (group_of cutoff rows k) seq) < cutoff"
    "ur_up (collapsed_row (group_of cutoff rows k) seq) = sum_list (map ur_up (old_rows cutoff k rows))"
    "ur_down (collapsed_row (group_of cutoff rows k) seq) = sum_list (map ur_down (old_rows cutoff k rows))"
proof -
  obtain day user core node where k: "k = (day, user, core, node)" by (metis prod_cases4)
  have g: "ug_key (group_of cutoff rows k) = k" by (simp add: group_of_def Let_def)
  obtain r where r: "r \<in> set (old_rows cutoff k rows)" using assms by (cases "old_rows cutoff k rows") auto
  have "ug_first (group_of cutoff rows k) < cutoff" using group_filter_iff(2,4) [OF assms] r by fastforce
  then show "ur_at (collapsed_row (group_of cutoff rows k) seq) < cutoff"
    using g by (simp add: collapsed_row_def k)
  show "key_of (collapsed_row (group_of cutoff rows k) seq) = k"
    using group_filter_iff(3) [OF assms] g by (simp add: collapsed_row_def key_of_def k)
  show "ur_up (collapsed_row (group_of cutoff rows k) seq) = sum_list (map ur_up (old_rows cutoff k rows))"
    "ur_down (collapsed_row (group_of cutoff rows k) seq) = sum_list (map ur_down (old_rows cutoff k rows))"
    using g by (simp_all add: collapsed_row_def k) (simp_all add: group_of_def Let_def)
qed

lemma collapse_group_effect:
  assumes "old_rows cutoff k rows \<noteq> []" "old_rows cutoff k now = old_rows cutoff k rows"
    and res: "collapse_group (group_of cutoff rows k) (now, seq) = (now', seq')"
  shows "group_sum ur_up k' now' = group_sum ur_up k' now" "group_sum ur_down k' now' = group_sum ur_down k' now"
    "old_rows cutoff k' now' = (if k' = k then [collapsed_row (group_of cutoff rows k) seq] else old_rows cutoff k' now)"
proof -
  let ?g = "group_of cutoff rows k" and ?c = "collapsed_row (group_of cutoff rows k) seq"
  note m = group_filter_members [OF assms(1,2)] and c = collapsed_row_facts [OF assms(1), of seq]
  have now': "now' = filter (\<lambda>r. \<not> group_filter ?g r) now @ [?c]" using res by (simp add: collapse_group_row)
  have "group_sum f k' now' = group_sum f k' now" if "f ?c = sum_list (map f (old_rows cutoff k now))" for f
    using group_sum_split [of f k' now "group_filter ?g"] that c(1) m by (simp add: now' group_sum_filter_key)
  then show "group_sum ur_up k' now' = group_sum ur_up k' now" "group_sum ur_down k' now' = group_sum ur_down k' now"
    using c(3,4) assms(2) by simp_all
  have rest: "old_rows cutoff k' (filter (\<lambda>r. \<not> group_filter ?g r) now) = (if k' = k then [] else old_rows cutoff k' now)"
  proof -
    have gf: "group_filter ?g r \<longleftrightarrow> ur_at r < cutoff \<and> key_of r = k" if "r \<in> set now" for r
    proof -
      have "group_filter ?g r \<longleftrightarrow> r \<in> set (filter (group_filter ?g) now)" using that by simp
      also have "\<dots> \<longleftrightarrow> ur_at r < cutoff \<and> key_of r = k" using that unfolding m by (simp add: old_rows_def)
      finally show ?thesis .
    qed
    show ?thesis unfolding old_rows_def filter_filter
      using gf by (auto simp: filter_empty_conv intro!: filter_cong)
  qed
  show "old_rows cutoff k' now' = (if k' = k then [?c] else old_rows cutoff k' now)"
    unfolding now' using rest c(1,2) by (simp add: old_rows_def)
qed

section \<open>Batches\<close>

lemma crowded_iff: "k \<in> set (crowded_keys cutoff rows) \<longleftrightarrow> 1 < length (old_rows cutoff k rows)"
proof -
  have "k \<in> key_of ` {r \<in> set rows. ur_at r < cutoff}" if "old_rows cutoff k rows \<noteq> []"
    using that by (auto simp: old_rows_def filter_empty_conv)
  moreover have "old_rows cutoff k rows \<noteq> []" if "1 < length (old_rows cutoff k rows)" using that by auto
  ultimately show ?thesis by (auto simp: crowded_keys_def)
qed

lemma crowded_distinct: "distinct (crowded_keys cutoff rows)"
  by (simp add: crowded_keys_def)

lemma collapse_fold:
  assumes "distinct ks" "\<forall>k \<in> set ks. old_rows cutoff k rows \<noteq> [] \<and> old_rows cutoff k now = old_rows cutoff k rows"
    and "fold collapse_group (map (group_of cutoff rows) ks) (now, seq) = (now', seq')"
  shows "group_sum ur_up k' now' = group_sum ur_up k' now \<and> group_sum ur_down k' now' = group_sum ur_down k' now \<and>
    length (old_rows cutoff k' now') = (if k' \<in> set ks then 1 else length (old_rows cutoff k' now))"
  using assms
proof (induction ks arbitrary: now seq)
  case (Cons k ks)
  obtain mid seq1 where mid: "collapse_group (group_of cutoff rows k) (now, seq) = (mid, seq1)" by (meson surj_pair)
  note e = collapse_group_effect [OF _ _ mid]
  have k: "old_rows cutoff k rows \<noteq> []" "old_rows cutoff k now = old_rows cutoff k rows" using Cons.prems(2) by auto
  have ok: "\<forall>x \<in> set ks. old_rows cutoff x rows \<noteq> [] \<and> old_rows cutoff x mid = old_rows cutoff x rows"
    using Cons.prems(1,2) e(3) [OF k] by auto
  have ih: "group_sum ur_up k' now' = group_sum ur_up k' mid \<and> group_sum ur_down k' now' = group_sum ur_down k' mid \<and>
      length (old_rows cutoff k' now') = (if k' \<in> set ks then 1 else length (old_rows cutoff k' mid))"
    by (rule Cons.IH [of mid seq1]) (use Cons.prems(1,3) ok mid in auto)
  then show ?case using e [OF k, of k'] Cons.prems(1) by auto
qed auto

lemma collapse_batch_effect:
  assumes "collapse_batch cutoff (rows, seq) = (rows', seq')"
  shows "group_sum ur_up k rows' = group_sum ur_up k rows" "group_sum ur_down k rows' = group_sum ur_down k rows"
    "length (old_rows cutoff k rows') = (if k \<in> set (take BATCH_GROUPS (crowded_keys cutoff rows)) then 1 else length (old_rows cutoff k rows))"
proof -
  have "\<forall>k \<in> set (take BATCH_GROUPS (crowded_keys cutoff rows)). old_rows cutoff k rows \<noteq> [] \<and> old_rows cutoff k rows = old_rows cutoff k rows"
    using crowded_iff [of _ cutoff rows] by (fastforce dest: in_set_takeD)
  from collapse_fold [OF distinct_take [OF crowded_distinct] this, of seq rows' seq' k]
  show "group_sum ur_up k rows' = group_sum ur_up k rows" "group_sum ur_down k rows' = group_sum ur_down k rows"
    "length (old_rows cutoff k rows') = (if k \<in> set (take BATCH_GROUPS (crowded_keys cutoff rows)) then 1 else length (old_rows cutoff k rows))"
    using assms by (simp_all add: collapse_batch_def)
qed

lemma collapse_batch_crowded:
  assumes "collapse_batch cutoff (rows, seq) = (rows', seq')"
  shows "length (crowded_keys cutoff rows') = length (crowded_keys cutoff rows) - BATCH_GROUPS"
proof -
  let ?c = "crowded_keys cutoff rows"
  have "set (crowded_keys cutoff rows') = set ?c - set (take BATCH_GROUPS ?c)"
  proof (rule set_eqI)
    fix k
    show "k \<in> set (crowded_keys cutoff rows') \<longleftrightarrow> k \<in> set ?c - set (take BATCH_GROUPS ?c)"
      unfolding crowded_iff collapse_batch_effect(3) [OF assms, of k] Diff_iff by simp
  qed
  also have "\<dots> = set (drop BATCH_GROUPS ?c)"
    using set_take_disj_set_drop_if_distinct [OF crowded_distinct, of BATCH_GROUPS BATCH_GROUPS cutoff rows]
      set_append [of "take BATCH_GROUPS ?c" "drop BATCH_GROUPS ?c"]
    by (simp only: append_take_drop_id) blast
  finally have "card (set (crowded_keys cutoff rows')) = card (set (drop BATCH_GROUPS ?c))" by simp
  then show ?thesis
    using distinct_card [OF crowded_distinct, of cutoff rows'] distinct_card [OF distinct_drop [OF crowded_distinct], of BATCH_GROUPS cutoff rows]
    by simp
qed

lemma collapse_batches_effect:
  assumes "collapse_batches n cutoff (rows, seq) = (rows', seq')"
  shows "group_sum ur_up k rows' = group_sum ur_up k rows \<and> group_sum ur_down k rows' = group_sum ur_down k rows \<and>
    length (crowded_keys cutoff rows') = length (crowded_keys cutoff rows) - n * BATCH_GROUPS"
  using assms
proof (induction n arbitrary: rows seq)
  case (Suc n)
  show ?case
  proof (cases "crowded_keys cutoff rows = []")
    case False
    obtain mid seq1 where mid: "collapse_batch cutoff (rows, seq) = (mid, seq1)" by (meson surj_pair)
    have "collapse_batches n cutoff (mid, seq1) = (rows', seq')" using Suc.prems False mid by simp
    from Suc.IH [OF this] show ?thesis
      using collapse_batch_effect(1,2) [OF mid, of k] collapse_batch_crowded [OF mid] by simp
  qed (use Suc.prems in simp)
qed simp

section \<open>Rows after the cutoff\<close>

definition recent :: "int \<Rightarrow> usage_row list \<Rightarrow> usage_row list" where
  "recent cutoff rows = filter (\<lambda>r. cutoff \<le> ur_at r) rows"

lemma collapse_group_recent:
  assumes "old_rows cutoff k rows \<noteq> []" "collapse_group (group_of cutoff rows k) (now, seq) = (now', seq')"
  shows "recent cutoff now' = recent cutoff now"
proof -
  have "\<not> group_filter (group_of cutoff rows k) r" if "cutoff \<le> ur_at r" for r
    using that group_filter_iff(1,2) [OF assms(1)] by fastforce
  then have "filter (\<lambda>r. \<not> group_filter (group_of cutoff rows k) r \<and> cutoff \<le> ur_at r) now = recent cutoff now"
    unfolding recent_def by (intro filter_cong) auto
  then show ?thesis
    using assms(2) collapsed_row_facts(2) [OF assms(1), of seq] by (auto simp: collapse_group_row recent_def conj_commute)
qed

lemma collapse_fold_recent:
  assumes "\<forall>k \<in> set ks. old_rows cutoff k rows \<noteq> []"
    "fold collapse_group (map (group_of cutoff rows) ks) (now, seq) = (now', seq')"
  shows "recent cutoff now' = recent cutoff now"
  using assms
proof (induction ks arbitrary: now seq)
  case (Cons k ks)
  obtain mid seq1 where mid: "collapse_group (group_of cutoff rows k) (now, seq) = (mid, seq1)" by (meson surj_pair)
  have "recent cutoff now' = recent cutoff mid" by (rule Cons.IH [of mid seq1]) (use Cons.prems mid in auto)
  then show ?case using collapse_group_recent [OF _ mid] Cons.prems(1) by simp
qed simp

lemma collapse_batch_recent:
  assumes "collapse_batch cutoff (rows, seq) = (rows', seq')"
  shows "recent cutoff rows' = recent cutoff rows"
proof (rule collapse_fold_recent)
  show "\<forall>k \<in> set (take BATCH_GROUPS (crowded_keys cutoff rows)). old_rows cutoff k rows \<noteq> []"
    using crowded_iff [of _ cutoff rows] by (fastforce dest: in_set_takeD)
qed (use assms in \<open>simp add: collapse_batch_def\<close>)

lemma collapse_batches_recent:
  "collapse_batches n cutoff (rows, seq) = (rows', seq') \<Longrightarrow> recent cutoff rows' = recent cutoff rows"
proof (induction n arbitrary: rows seq)
  case (Suc n)
  obtain mid seq1 where mid: "collapse_batch cutoff (rows, seq) = (mid, seq1)" by (meson surj_pair)
  show ?case using Suc collapse_batch_recent [OF mid] mid by (auto split: if_splits)
qed simp

section \<open>Rollups\<close>

text \<open>Sums over the rows whose group satisfies a predicate are determined by the sums of the groups.\<close>

definition class_sum :: "(usage_row \<Rightarrow> int) \<Rightarrow> (group_key \<Rightarrow> bool) \<Rightarrow> usage_row list \<Rightarrow> int" where
  "class_sum f Q rows = sum_list (map f (filter (\<lambda>r. Q (key_of r)) rows))"

lemma class_sum_append: "class_sum f Q (xs @ ys) = class_sum f Q xs + class_sum f Q ys"
  by (simp add: class_sum_def)

lemma class_sum_groups:
  assumes "finite S" "key_of ` set rows \<subseteq> S"
  shows "class_sum f Q rows = (\<Sum>k \<in> {k \<in> S. Q k}. group_sum f k rows)"
  using assms(2)
proof (induction rows)
  case (Cons r rows)
  have fin: "finite {k \<in> S. Q k}" using assms(1) by simp
  have "(\<Sum>k \<in> {k \<in> S. Q k}. if key_of r = k then f r else 0) = (if Q (key_of r) then f r else 0)"
    using Cons.prems by (simp add: sum.delta [OF fin] sum.delta' [OF fin])
  then show ?case using Cons by (simp add: class_sum_def sum.distrib)
qed (simp add: class_sum_def)

lemma class_sum_cong:
  assumes "\<And>k. group_sum f k xs = group_sum f k ys"
  shows "class_sum f Q xs = class_sum f Q ys"
proof -
  let ?S = "key_of ` set (xs @ ys)"
  have "class_sum f Q xs = (\<Sum>k \<in> {k \<in> ?S. Q k}. group_sum f k xs)" by (rule class_sum_groups) auto
  also have "\<dots> = (\<Sum>k \<in> {k \<in> ?S. Q k}. group_sum f k ys)" by (rule sum.cong [OF refl]) (rule assms)
  also have "\<dots> = class_sum f Q ys" by (rule class_sum_groups [symmetric]) auto
  finally show ?thesis .
qed

text \<open>What the aggregate of a dimension counts; \<open>H\<close> are all the rows ever journalled.\<close>

definition counts_for :: "string \<Rightarrow> group_key \<Rightarrow> bool" where
  "counts_for d k \<longleftrightarrow> (let (day, user, core, node) = k in d = ''system'' \<or> d = core_dimension core \<or> d = node_dimension node)"

definition rolled_up :: "usage_row list \<Rightarrow> usage_journal \<Rightarrow> bool" where
  "rolled_up H j \<longleftrightarrow>
     (\<forall>d. totals_of (uj_aggregates j) d = (class_sum ur_up (counts_for d) H, class_sum ur_down (counts_for d) H))"

lemma totals_of_add:
  "totals_of (add_totals k up down t) k' =
     (fst (totals_of t k') + (if k' = k then up else 0), snd (totals_of t k') + (if k' = k then down else 0))"
  by (simp add: totals_of_def add_totals_def)

lemma totals_of_merge:
  "totals_of (merge_totals b t) k = (fst (totals_of t k) + sum_list (map (\<lambda>(k', up, down). if k' = k then up else 0) b),
     snd (totals_of t k) + sum_list (map (\<lambda>(k', up, down). if k' = k then down else 0) b))"
  unfolding merge_totals_def by (induction b arbitrary: t) (auto simp: totals_of_add)

lemma distinct_totals:
  assumes "distinct (map fst t)"
  shows "sum_list (map (\<lambda>(k', up, down). if k' = k then up else 0) t) = fst (totals_of t k)"
    "sum_list (map (\<lambda>(k', up, down). if k' = k then down else 0) t) = snd (totals_of t k)"
proof -
  have z: "sum_list (map (\<lambda>(k', up, down). if k' = k then up else 0) t) = 0"
    "sum_list (map (\<lambda>(k', up, down). if k' = k then down else 0) t) = 0" if "k \<notin> fst ` set t" for t :: "'a totals"
    using that by (induction t) (auto split: prod.splits)
  show "sum_list (map (\<lambda>(k', up, down). if k' = k then up else 0) t) = fst (totals_of t k)"
    "sum_list (map (\<lambda>(k', up, down). if k' = k then down else 0) t) = snd (totals_of t k)"
    using assms z by (induction t) (auto simp: totals_of_def)
qed

lemma batch_dimensions_totals:
  "totals_of (batch_dimensions records) d =
     (sum_list (map ud_up (filter (\<lambda>r. d \<in> set (dimensions_of r)) records)),
      sum_list (map ud_down (filter (\<lambda>r. d \<in> set (dimensions_of r)) records)))"
  "dict_ok (batch_dimensions records)"
proof -
  have ne: "''system'' \<noteq> core_dimension c" "''system'' \<noteq> node_dimension n" "core_dimension c \<noteq> node_dimension n" for c n
    by (simp_all add: core_dimension_def node_dimension_def)
  have "totals_of (fold (\<lambda>r t. fold (\<lambda>x. add_totals x (ud_up r) (ud_down r)) (dimensions_of r) t) records t) d =
     (fst (totals_of t d) + sum_list (map ud_up (filter (\<lambda>r. d \<in> set (dimensions_of r)) records)),
      snd (totals_of t d) + sum_list (map ud_down (filter (\<lambda>r. d \<in> set (dimensions_of r)) records)))" for t
  proof (induction records arbitrary: t)
    case (Cons r rs)
    then show ?case using ne by (auto simp: dimensions_of_def totals_of_add)
  qed simp
  from this [of "[]"] show "totals_of (batch_dimensions records) d =
     (sum_list (map ud_up (filter (\<lambda>r. d \<in> set (dimensions_of r)) records)),
      sum_list (map ud_down (filter (\<lambda>r. d \<in> set (dimensions_of r)) records)))"
    by (simp add: batch_dimensions_def totals_of_def)
  have "dict_ok t \<Longrightarrow> dict_ok (fold (\<lambda>r t. fold (\<lambda>x. add_totals x (ud_up r) (ud_down r)) (dimensions_of r) t) records t)" for t
    by (induction records arbitrary: t) (simp_all add: dimensions_of_def add_totals_def)
  then show "dict_ok (batch_dimensions records)" by (simp add: batch_dimensions_def)
qed

lemma journal_rows_sum:
  "class_sum ur_up (counts_for d) (journal_rows owners seq records) = sum_list (map ud_up (filter (\<lambda>r. d \<in> set (dimensions_of r)) records))"
  "class_sum ur_down (counts_for d) (journal_rows owners seq records) = sum_list (map ud_down (filter (\<lambda>r. d \<in> set (dimensions_of r)) records))"
  by (induction records arbitrary: seq) (auto simp: class_sum_def counts_for_def key_of_def dimensions_of_def)

definition appended :: "usage_row list \<Rightarrow> usage_delta list \<Rightarrow> ((string \<times> string) \<times> int) list \<Rightarrow> usage_journal \<Rightarrow> usage_row list" where
  "appended H records owners j = H @ journal_rows owners (uj_next j) records"

lemma append_rolled_up: "rolled_up H j \<Longrightarrow> rolled_up (appended H records owners j) (journal_append records owners j)"
  by (simp add: rolled_up_def appended_def journal_append_def totals_of_merge distinct_totals batch_dimensions_totals
      class_sum_append journal_rows_sum)

lemma collapse_journal_rows:
  "\<exists>seq. collapse_batches MAX_BATCHES_PER_RUN cutoff (uj_rows j, uj_next j) = (uj_rows (collapse_journal cutoff j), seq)"
  by (simp add: collapse_journal_def split: prod.split)

lemma collapse_journal_sums:
  "group_sum ur_up k (uj_rows (collapse_journal cutoff j)) = group_sum ur_up k (uj_rows j)"
  "group_sum ur_down k (uj_rows (collapse_journal cutoff j)) = group_sum ur_down k (uj_rows j)"
  "length (crowded_keys cutoff (uj_rows (collapse_journal cutoff j))) =
     length (crowded_keys cutoff (uj_rows j)) - MAX_BATCHES_PER_RUN * BATCH_GROUPS"
  "recent cutoff (uj_rows (collapse_journal cutoff j)) = recent cutoff (uj_rows j)"
proof -
  obtain seq where b: "collapse_batches MAX_BATCHES_PER_RUN cutoff (uj_rows j, uj_next j) = (uj_rows (collapse_journal cutoff j), seq)"
    using collapse_journal_rows by blast
  show "group_sum ur_up k (uj_rows (collapse_journal cutoff j)) = group_sum ur_up k (uj_rows j)"
    "group_sum ur_down k (uj_rows (collapse_journal cutoff j)) = group_sum ur_down k (uj_rows j)"
    "length (crowded_keys cutoff (uj_rows (collapse_journal cutoff j))) =
     length (crowded_keys cutoff (uj_rows j)) - MAX_BATCHES_PER_RUN * BATCH_GROUPS"
    using collapse_batches_effect [OF b, of k] by simp_all
  show "recent cutoff (uj_rows (collapse_journal cutoff j)) = recent cutoff (uj_rows j)"
    by (rule collapse_batches_recent [OF b])
qed

section \<open>Sequence numbers\<close>

text \<open>Hard retention deletes by sequence number, so it matters that they are unique and never reused.\<close>

definition seq_ok :: "usage_row list \<times> int \<Rightarrow> bool" where
  "seq_ok rs \<longleftrightarrow> distinct (map ur_seq (fst rs)) \<and> (\<forall>r \<in> set (fst rs). ur_seq r < snd rs)"

lemma collapse_group_seq_ok: "seq_ok rs \<Longrightarrow> seq_ok (collapse_group g rs)"
  by (cases rs) (force simp: seq_ok_def collapse_group_row collapsed_row_def distinct_map_filter split: prod.splits)

lemma collapse_batch_seq_ok: "seq_ok rs \<Longrightarrow> seq_ok (collapse_batch cutoff rs)"
proof -
  have "seq_ok rs \<Longrightarrow> seq_ok (fold collapse_group gs rs)" for gs and rs :: "usage_row list \<times> int"
    by (induction gs arbitrary: rs) (simp_all add: collapse_group_seq_ok)
  then show "seq_ok rs \<Longrightarrow> seq_ok (collapse_batch cutoff rs)" by (simp add: collapse_batch_def)
qed

lemma collapse_batches_seq_ok: "seq_ok rs \<Longrightarrow> seq_ok (collapse_batches n cutoff rs)"
  by (induction n arbitrary: rs) (simp_all add: collapse_batch_seq_ok)

lemma collapse_seq_ok:
  "seq_ok (uj_rows j, uj_next j) \<Longrightarrow> seq_ok (uj_rows (collapse_journal cutoff j), uj_next (collapse_journal cutoff j))"
  using collapse_batches_seq_ok [of "(uj_rows j, uj_next j)" MAX_BATCHES_PER_RUN cutoff]
  by (auto simp: collapse_journal_def split: prod.splits)

lemma journal_rows_seqs: "map ur_seq (journal_rows owners seq records) = map (\<lambda>i. seq + int i) [0..<length records]"
  by (induction records arbitrary: seq) (simp_all add: upt_conv_Cons map_Suc_upt [symmetric] del: upt_Suc)

lemma append_seq_ok:
  assumes "seq_ok (uj_rows j, uj_next j)"
  shows "seq_ok (uj_rows (journal_append records owners j), uj_next (journal_append records owners j))"
proof -
  let ?new = "journal_rows owners (uj_next j) records"
  have new: "set (map ur_seq ?new) = (\<lambda>i. uj_next j + int i) ` {..<length records}" "distinct (map ur_seq ?new)"
    unfolding journal_rows_seqs by (auto simp: distinct_map inj_on_def atLeast0LessThan)
  then have "uj_next j \<le> ur_seq r \<and> ur_seq r < uj_next j + int (length records)" if "r \<in> set ?new" for r
    using that by (metis (no_types, lifting) imageE imageI lessThan_iff list.set_map add_less_cancel_left
        le_add_same_cancel1 of_nat_0_le_iff of_nat_less_iff)
  then show ?thesis using assms new(2) by (fastforce simp: seq_ok_def journal_append_def)
qed

section \<open>Hard retention\<close>

text \<open>
  With unique sequence numbers every batch deletes the next 3,200 rows before the cutoff, in table
  order, and nothing else.
\<close>

lemma filter_seqs:
  assumes "distinct (map ur_seq olds)"
  shows "filter (\<lambda>r. ur_seq r \<notin> set (take n (map ur_seq olds))) olds = drop n olds"
proof -
  have "set (take n (map ur_seq olds)) \<inter> set (drop n (map ur_seq olds)) = {}"
    using assms by (rule set_take_disj_set_drop_if_distinct) simp
  then have "ur_seq r \<notin> set (take n (map ur_seq olds))" if "r \<in> set (drop n olds)" for r
    using that by (auto simp: drop_map)
  moreover have "ur_seq r \<in> set (take n (map ur_seq olds))" if "r \<in> set (take n olds)" for r
    using that by (simp add: take_map)
  ultimately have "filter (\<lambda>r. ur_seq r \<notin> set (take n (map ur_seq olds))) (take n olds @ drop n olds) = drop n olds"
    by (simp del: append_take_drop_id)
  then show ?thesis by simp
qed

lemma retention_step:
  fixes b :: nat and cutoff :: int
  assumes "distinct (map ur_seq rows)"
  defines "kept \<equiv> filter (\<lambda>r. ur_seq r \<notin> set (take b (map ur_seq (filter (\<lambda>r. ur_at r < cutoff) rows)))) rows"
  shows "filter (\<lambda>r. ur_at r < cutoff) kept = drop b (filter (\<lambda>r. ur_at r < cutoff) rows)"
    and "recent cutoff kept = recent cutoff rows" "distinct (map ur_seq kept)"
    and "length rows - length kept = min b (length (filter (\<lambda>r. ur_at r < cutoff) rows))"
proof -
  let ?old = "filter (\<lambda>r. ur_at r < cutoff) rows"
  have "filter (\<lambda>r. ur_at r < cutoff) kept = filter (\<lambda>r. ur_seq r \<notin> set (take b (map ur_seq ?old))) ?old"
    unfolding kept_def by (simp only: filter_filter conj_commute)
  then show old: "filter (\<lambda>r. ur_at r < cutoff) kept = drop b ?old"
    using filter_seqs [of ?old b] assms(1) by (simp add: distinct_map_filter)
  have "ur_seq r \<notin> set (take b (map ur_seq ?old))" if "r \<in> set rows" "cutoff \<le> ur_at r" for r
  proof
    assume "ur_seq r \<in> set (take b (map ur_seq ?old))"
    then have "ur_seq r \<in> ur_seq ` set ?old" using in_set_takeD by (metis list.set_map)
    then obtain r' where "r' \<in> set ?old" "ur_seq r' = ur_seq r" by auto
    then show False using that assms(1) by (auto simp: distinct_map inj_on_def)
  qed
  then show rec: "recent cutoff kept = recent cutoff rows"
    unfolding recent_def kept_def filter_filter by (intro filter_cong) auto
  show "distinct (map ur_seq kept)" unfolding kept_def by (rule distinct_map_filter [OF assms(1)])
  have len: "length xs = length (filter (\<lambda>r. ur_at r < cutoff) xs) + length (recent cutoff xs)" for xs
    using sum_length_filter_compl [of "\<lambda>r. ur_at r < cutoff" xs] by (simp add: recent_def not_less)
  show "length rows - length kept = min b (length ?old)"
    using len [of rows] len [of kept] by (simp add: old rec)
qed

lemma retention_batches_effect:
  assumes "distinct (map ur_seq rows)"
  shows "filter (\<lambda>r. ur_at r < cutoff) (retention_batches n cutoff rows) =
      drop (n * (BATCH_GROUPS * 8)) (filter (\<lambda>r. ur_at r < cutoff) rows) \<and>
    recent cutoff (retention_batches n cutoff rows) = recent cutoff rows \<and>
    distinct (map ur_seq (retention_batches n cutoff rows)) \<and>
    (\<exists>Q. retention_batches n cutoff rows = filter Q rows)"
  using assms
proof (induction n arbitrary: rows)
  case (Suc n)
  let ?old = "filter (\<lambda>r. ur_at r < cutoff) rows"
  define b where "b = BATCH_GROUPS * 8"
  define kept where "kept = filter (\<lambda>r. ur_seq r \<notin> set (take b (map ur_seq ?old))) rows"
  have b: "0 < b" by (simp add: b_def BATCH_GROUPS_def)
  note st = retention_step [OF Suc.prems, where b = b and cutoff = cutoff, folded kept_def]
  note ih = Suc.IH [OF st(3), folded b_def]
  have sub: "\<exists>Q'. filter Q kept = filter Q' rows" for Q by (auto simp: kept_def)
  have rows: "rows = filter (\<lambda>r. True) rows" "kept = filter (\<lambda>r. True) kept" by simp_all
  have eq: "retention_batches (Suc n) cutoff rows = (if ?old = [] then rows
      else if length rows - length kept < b then kept else retention_batches n cutoff kept)"
    using b by (simp add: Let_def b_def kept_def)
  consider "?old = []" | "?old \<noteq> []" "length ?old < b" | "?old \<noteq> []" "b \<le> length ?old" by linarith
  then show ?case
  proof cases
    case 1
    then show ?thesis using Suc.prems rows(1) by (auto simp: eq simp del: retention_batches.simps filter_True)
  next
    case 2
    then show ?thesis using st sub [of "\<lambda>r. True"] by (simp add: eq b_def [symmetric] del: retention_batches.simps)
  next
    case 3
    then show ?thesis using st(1,2,4) ih sub by (auto simp: eq b_def [symmetric] add.commute simp del: retention_batches.simps)
  qed
qed (auto intro: exI [of _ "\<lambda>r. True"])

section \<open>Runs of the journal\<close>

text \<open>
  A journal is used by appending batches and by running the retention job, which collapses and then
  deletes, with any settings and clocks. \<open>H\<close> collects all rows ever journalled; \<open>D\<close> bounds the
  horizons before which a job has deleted.
\<close>

abbreviation collapse_days :: "string option \<Rightarrow> int" where
  "collapse_days setting \<equiv> days_setting setting COLLAPSE_DAYS_DEFAULT"

abbreviation retention_days :: "string option \<Rightarrow> int" where
  "retention_days setting \<equiv> days_setting setting RETENTION_DAYS_DEFAULT"

definition horizon_le :: "string option \<Rightarrow> int \<Rightarrow> int \<Rightarrow> bool" where
  "horizon_le rset now D \<longleftrightarrow> retention_days rset \<le> 0 \<or> now - retention_days rset * DAY \<le> D"

inductive journal_run :: "int \<Rightarrow> usage_row list \<Rightarrow> usage_journal \<Rightarrow> bool" for D where
  run_empty: "journal_run D [] \<lparr>uj_rows = [], uj_next = 1, uj_aggregates = [], uj_buckets = []\<rparr>"
| run_append: "journal_run D H j \<Longrightarrow> journal_run D (appended H records owners j) (journal_append records owners j)"
| run_job: "journal_run D H j \<Longrightarrow> horizon_le rset now D \<Longrightarrow> journal_run D H (run_usage_retention cset rset now j)"

definition sums_kept :: "int \<Rightarrow> usage_row list \<Rightarrow> usage_row list \<Rightarrow> bool" where
  "sums_kept D H rows \<longleftrightarrow>
     (\<forall>k. D \<le> fst k * DAY \<longrightarrow> group_sum ur_up k rows = group_sum ur_up k H \<and> group_sum ur_down k rows = group_sum ur_down k H)"

definition journal_inv :: "int \<Rightarrow> usage_row list \<Rightarrow> usage_journal \<Rightarrow> bool" where
  "journal_inv D H j \<longleftrightarrow> rolled_up H j \<and> seq_ok (uj_rows j, uj_next j) \<and> sums_kept D H (uj_rows j)"

lemma group_sum_recent:
  assumes "cutoff \<le> fst k * DAY"
  shows "group_sum f k rows = group_sum f k (recent cutoff rows)"
proof -
  have "cutoff \<le> ur_at r" if "key_of r = k" for r
  proof -
    have "ur_at r div DAY * DAY \<le> ur_at r" using pos_mod_sign [OF DAY_pos, of "ur_at r"] div_mult_mod_eq [of "ur_at r" DAY] by linarith
    then show ?thesis using that assms by (auto simp: key_of_def)
  qed
  then have "filter (\<lambda>r. key_of r = k) rows = filter (\<lambda>r. key_of r = k) (recent cutoff rows)"
    unfolding recent_def filter_filter by (intro filter_cong) auto
  then show ?thesis by (simp add: group_sum_def)
qed

lemma job_rows:
  assumes "seq_ok (uj_rows j, uj_next j)" "0 < collapse_days cset"
    and j': "j' = run_usage_retention cset rset now j" and c: "c = collapse_journal (now - collapse_days cset * DAY) j"
  shows "uj_aggregates j' = uj_aggregates j" "seq_ok (uj_rows j', uj_next j')" "\<exists>Q. uj_rows j' = filter Q (uj_rows c)"
    and "retention_days rset \<le> 0 \<Longrightarrow> uj_rows j' = uj_rows c"
    and "0 < retention_days rset \<Longrightarrow>
      recent (now - retention_days rset * DAY) (uj_rows j') = recent (now - retention_days rset * DAY) (uj_rows c) \<and>
      filter (\<lambda>r. ur_at r < now - retention_days rset * DAY) (uj_rows j') =
        drop 320000 (filter (\<lambda>r. ur_at r < now - retention_days rset * DAY) (uj_rows c))"
proof -
  have agg: "uj_aggregates c = uj_aggregates j" by (simp add: c collapse_journal_def split: prod.split)
  have cs: "seq_ok (uj_rows c, uj_next c)" unfolding c by (rule collapse_seq_ok [OF assms(1)])
  then have dist: "distinct (map ur_seq (uj_rows c))" by (simp add: seq_ok_def)
  have eq: "j' = hard_retention rset now c" using assms(2) by (simp add: j' c run_usage_retention_def Let_def)
  note h = retention_batches_effect [OF dist, of "now - retention_days rset * DAY" MAX_BATCHES_PER_RUN]
  show "uj_aggregates j' = uj_aggregates j" by (simp add: eq hard_retention_def Let_def agg)
  show q: "\<exists>Q. uj_rows j' = filter Q (uj_rows c)"
    using h by (auto simp: eq hard_retention_def Let_def intro: exI [of _ "\<lambda>r. True"])
  show "seq_ok (uj_rows j', uj_next j')"
    using cs q h by (auto simp: eq hard_retention_def Let_def seq_ok_def)
  show "uj_rows j' = uj_rows c" if "retention_days rset \<le> 0" using that by (simp add: eq hard_retention_def)
  show "recent (now - retention_days rset * DAY) (uj_rows j') = recent (now - retention_days rset * DAY) (uj_rows c) \<and>
      filter (\<lambda>r. ur_at r < now - retention_days rset * DAY) (uj_rows j') =
        drop 320000 (filter (\<lambda>r. ur_at r < now - retention_days rset * DAY) (uj_rows c))" if "0 < retention_days rset"
    using that h by (simp add: eq hard_retention_def Let_def MAX_BATCHES_PER_RUN_def BATCH_GROUPS_def)
qed

lemma job_inv:
  assumes "journal_inv D H j" "horizon_le rset now D"
  shows "journal_inv D H (run_usage_retention cset rset now j)"
proof (cases "0 < collapse_days cset")
  case True
  define c where "c = collapse_journal (now - collapse_days cset * DAY) j"
  define j' where "j' = run_usage_retention cset rset now j"
  have seq: "seq_ok (uj_rows j, uj_next j)" using assms(1) by (simp add: journal_inv_def)
  note r = job_rows [OF seq True j'_def c_def]
  have "group_sum f k (uj_rows j') = group_sum f k (uj_rows c)" if "D \<le> fst k * DAY" for f k
  proof (cases "retention_days rset \<le> 0")
    case False
    then have "now - retention_days rset * DAY \<le> fst k * DAY" using that assms(2) by (auto simp: horizon_le_def)
    note g = group_sum_recent [OF this, of f]
    show ?thesis unfolding g [of "uj_rows j'"] g [of "uj_rows c"] using r(5) False by simp
  qed (simp add: r(4))
  then have "sums_kept D H (uj_rows j')"
    using assms(1) by (simp add: journal_inv_def sums_kept_def c_def collapse_journal_sums)
  then show ?thesis using assms(1) r(1,2) by (simp add: journal_inv_def rolled_up_def j'_def)
qed (use assms(1) in \<open>simp add: run_usage_retention_def\<close>)

lemma append_inv: "journal_inv D H j \<Longrightarrow> journal_inv D (appended H records owners j) (journal_append records owners j)"
  using append_seq_ok [of j records owners] append_rolled_up [of H j records owners]
  by (simp add: journal_inv_def) (simp add: sums_kept_def appended_def journal_append_def)

lemma journal_run_inv: "journal_run D H j \<Longrightarrow> journal_inv D H j"
proof (induction rule: journal_run.induct)
  case run_empty
  then show ?case
    by (simp add: journal_inv_def rolled_up_def totals_of_def class_sum_def seq_ok_def sums_kept_def)
qed (auto intro: append_inv job_inv)

text \<open>
  C8: take any run of journalled batches and retention jobs (a job collapses and then deletes), in
  which no job deleted rows newer than a time \<open>D\<close>, and one more such job. The cumulative counters of
  the system, of every core and of every node are the sums over all rows ever journalled, deleted
  or not. For every day that starts at \<open>D\<close> or later, and every user, core and node, the sums of the
  uplink and downlink bytes of the rows are those of all rows ever journalled for them. If
  collapsing is switched on, the job keeps the rows newer than its two cutoffs, in their order,
  leaves no group with more than one row before the collapsing cutoff if at most 40,000 groups had
  more than one, and leaves no row before the deletion cutoff if at most 320,000 collapsed rows are
  older than that.
\<close>

theorem collapse_preserves_daily_sums:
  assumes "journal_run D H j" "horizon_le rset now D" "j' = run_usage_retention cset rset now j"
  defines "cutoff \<equiv> now - collapse_days cset * DAY" and "hard \<equiv> now - retention_days rset * DAY"
  shows "(\<forall>d. totals_of (uj_aggregates j') d = (class_sum ur_up (counts_for d) H, class_sum ur_down (counts_for d) H)) \<and>
      (\<forall>k. D \<le> fst k * DAY \<longrightarrow> group_sum ur_up k (uj_rows j') = group_sum ur_up k H \<and>
        group_sum ur_down k (uj_rows j') = group_sum ur_down k H) \<and>
      (0 < collapse_days cset \<longrightarrow>
        filter (\<lambda>r. cutoff \<le> ur_at r \<and> (retention_days rset \<le> 0 \<or> hard \<le> ur_at r)) (uj_rows j') =
          filter (\<lambda>r. cutoff \<le> ur_at r \<and> (retention_days rset \<le> 0 \<or> hard \<le> ur_at r)) (uj_rows j) \<and>
        (length (crowded_keys cutoff (uj_rows j)) \<le> 40000 \<longrightarrow> (\<forall>k. length (old_rows cutoff k (uj_rows j')) \<le> 1)) \<and>
        (0 < retention_days rset \<and> length (filter (\<lambda>r. ur_at r < hard) (uj_rows (collapse_journal cutoff j))) \<le> 320000 \<longrightarrow>
           (\<forall>r \<in> set (uj_rows j'). hard \<le> ur_at r)))"
proof -
  have inv: "journal_inv D H j" "journal_inv D H j'"
    using journal_run_inv [OF assms(1)] job_inv [OF _ assms(2), of H j cset] by (simp_all add: assms(3))
  then have seq: "seq_ok (uj_rows j, uj_next j)" by (simp add: journal_inv_def)
  have sums: "\<forall>d. totals_of (uj_aggregates j') d = (class_sum ur_up (counts_for d) H, class_sum ur_down (counts_for d) H)"
    "\<forall>k. D \<le> fst k * DAY \<longrightarrow> group_sum ur_up k (uj_rows j') = group_sum ur_up k H \<and>
        group_sum ur_down k (uj_rows j') = group_sum ur_down k H"
    using inv(2) by (simp_all add: journal_inv_def rolled_up_def sums_kept_def)
  moreover {
    assume on: "0 < collapse_days cset"
    note r = job_rows [OF seq on assms(3) refl, folded cutoff_def hard_def]
    let ?c = "collapse_journal cutoff j"
    have both: "filter (\<lambda>r. cutoff \<le> ur_at r \<and> (retention_days rset \<le> 0 \<or> hard \<le> ur_at r)) rows =
        (if retention_days rset \<le> 0 then recent cutoff rows else filter (\<lambda>r. cutoff \<le> ur_at r) (recent hard rows))" for rows
      by (auto simp: recent_def intro!: filter_cong)
    have swap: "filter (\<lambda>r. cutoff \<le> ur_at r) (recent hard rows) = filter (\<lambda>r. hard \<le> ur_at r) (recent cutoff rows)" for rows
      by (auto simp: recent_def intro!: filter_cong)
    have "filter (\<lambda>r. cutoff \<le> ur_at r \<and> (retention_days rset \<le> 0 \<or> hard \<le> ur_at r)) (uj_rows j') =
          filter (\<lambda>r. cutoff \<le> ur_at r \<and> (retention_days rset \<le> 0 \<or> hard \<le> ur_at r)) (uj_rows j)"
      unfolding both using r(4,5) collapse_journal_sums(4) [of cutoff j] swap [of "uj_rows j"] swap [of "uj_rows ?c"] by auto
    moreover have "length (old_rows cutoff k (uj_rows j')) \<le> 1" if "length (crowded_keys cutoff (uj_rows j)) \<le> 40000" for k
    proof -
      have "crowded_keys cutoff (uj_rows ?c) = []"
        using that collapse_journal_sums(3) [of cutoff j] by (simp add: MAX_BATCHES_PER_RUN_def BATCH_GROUPS_def)
      then have le: "length (old_rows cutoff k (uj_rows ?c)) \<le> 1" using crowded_iff [of k cutoff "uj_rows ?c"] by simp
      obtain Q where "uj_rows j' = filter Q (uj_rows ?c)" using r(3) by blast
      then have "old_rows cutoff k (uj_rows j') = filter Q (old_rows cutoff k (uj_rows ?c))"
        by (auto simp: old_rows_def intro!: filter_cong)
      then show ?thesis using le length_filter_le le_trans by metis
    qed
    moreover have "hard \<le> ur_at r" if "0 < retention_days rset" "r \<in> set (uj_rows j')"
      "length (filter (\<lambda>r. ur_at r < hard) (uj_rows ?c)) \<le> 320000" for r
      using r(5) that by (metis drop_all filter_empty_conv not_less)
    ultimately have "filter (\<lambda>r. cutoff \<le> ur_at r \<and> (retention_days rset \<le> 0 \<or> hard \<le> ur_at r)) (uj_rows j') =
          filter (\<lambda>r. cutoff \<le> ur_at r \<and> (retention_days rset \<le> 0 \<or> hard \<le> ur_at r)) (uj_rows j) \<and>
        (length (crowded_keys cutoff (uj_rows j)) \<le> 40000 \<longrightarrow> (\<forall>k. length (old_rows cutoff k (uj_rows j')) \<le> 1)) \<and>
        (0 < retention_days rset \<and> length (filter (\<lambda>r. ur_at r < hard) (uj_rows ?c)) \<le> 320000 \<longrightarrow>
           (\<forall>r \<in> set (uj_rows j'). hard \<le> ur_at r))" by blast
  }
  ultimately show ?thesis by blast
qed

definition ex_delta :: "int \<Rightarrow> int \<Rightarrow> usage_delta" where
  "ex_delta t up = \<lparr>ud_core = ''xray'', ud_account = ''a'', ud_node = None, ud_up = up, ud_down = 2 * up, ud_at = t,
     ud_quota_factor = Some 1, ud_billing_factor = None\<rparr>"

definition ex_journal :: usage_journal where
  "ex_journal = journal_append [ex_delta 5 10, ex_delta 7 20, ex_delta (20 * DAY) 1] [((''xray'', ''a''), 3)]
     \<lparr>uj_rows = [], uj_next = 1, uj_aggregates = [], uj_buckets = []\<rparr>"

definition ex_rows :: "usage_row list" where
  "ex_rows = journal_rows [((''xray'', ''a''), 3)] 1 [ex_delta 5 10, ex_delta 7 20, ex_delta (20 * DAY) 1]"

lemma ex_journal_run: "journal_run 0 ex_rows ex_journal"
proof -
  have "ex_rows = appended [] [ex_delta 5 10, ex_delta 7 20, ex_delta (20 * DAY) 1] [((''xray'', ''a''), 3)]
      \<lparr>uj_rows = [], uj_next = 1, uj_aggregates = [], uj_buckets = []\<rparr>"
    by (simp add: ex_rows_def appended_def)
  then show ?thesis unfolding ex_journal_def by (metis run_append run_empty)
qed

text \<open>A job twenty days later with the default settings merges the two rows of the first day.\<close>

lemma ex_journal_counts:
  "length (crowded_keys (21 * DAY - 7 * DAY) (uj_rows ex_journal)) = 1"
  "length (old_rows (21 * DAY - 7 * DAY) (0, Some 3, ''xray'', None) (uj_rows ex_journal)) = 2"
  by (simp_all add: crowded_keys_def old_rows_def ex_journal_def journal_append_def ex_delta_def key_of_def DAY_def MICRO_def)

lemma ex_rows_sums:
  "group_sum ur_up (0, Some 3, ''xray'', None) ex_rows = 30"
  "class_sum ur_up (counts_for ''system'') ex_rows = 31" "class_sum ur_down (counts_for ''system'') ex_rows = 62"
  by (simp_all add: group_sum_def class_sum_def counts_for_def ex_rows_def ex_delta_def key_of_def DAY_def MICRO_def)

theorem collapse_preserves_daily_sums_witness:
  "let j' = run_usage_retention None None (21 * DAY) ex_journal; k = (0, Some 3, ''xray'', None)
   in group_sum ur_up k (uj_rows j') = 30 \<and> length (old_rows (21 * DAY - 7 * DAY) k (uj_rows j')) \<le> 1 \<and>
     length (old_rows (21 * DAY - 7 * DAY) k (uj_rows ex_journal)) = 2 \<and> totals_of (uj_aggregates j') ''system'' = (31, 62)"
proof -
  let ?j' = "run_usage_retention None None (21 * DAY) ex_journal" and ?k = "(0, Some 3, ''xray'', None)"
  have days: "collapse_days None = 7" "retention_days None = 90"
    by (simp_all add: days_setting_def COLLAPSE_DAYS_DEFAULT_def RETENTION_DAYS_DEFAULT_def)
  have h: "horizon_le None (21 * DAY) 0" using DAY_pos by (simp add: horizon_le_def days)
  note c = collapse_preserves_daily_sums [OF ex_journal_run h refl, of None, unfolded days]
  have "totals_of (uj_aggregates ?j') ''system'' = (31, 62)"
    using c [THEN conjunct1, rule_format, of "''system''"] by (simp add: ex_rows_sums)
  moreover have "group_sum ur_up ?k (uj_rows ?j') = 30"
    using c [THEN conjunct2, THEN conjunct1, rule_format, of ?k] ex_rows_sums(1) by simp
  moreover have "\<forall>k. length (old_rows (21 * DAY - 7 * DAY) k (uj_rows ?j')) \<le> 1"
    using c [THEN conjunct2, THEN conjunct2] ex_journal_counts(1) by simp
  ultimately show ?thesis using ex_journal_counts(2) unfolding Let_def by blast
qed

end
