(* ===== verification/UserDb.thy ===== *)
theory UserDb
  imports SqlTable PyValue
begin

text \<open>
  The users and administrators of the panel: the tables of \<open>app/db/models.py\<close> and the operations of \<open>app/db/crud.py\<close> that
  change them. A time is a number of microseconds of UTC, an expiry is a POSIX time in seconds. Operations that
  commit in the middle work on a session, the pair of the committed and the pending database: an exception returns the
  committed one. \<open>ue_offset\<close> is the distance of the server's local time from UTC, which \<open>timestamp()\<close> subtracts from a
  naive datetime.
\<close>

section \<open>Tables\<close>

datatype user_status = Active | Disabled | Limited | Expired | OnHold

definition status_value :: "user_status \<Rightarrow> string" where
  "status_value s =
     (case s of Active \<Rightarrow> ''active'' | Disabled \<Rightarrow> ''disabled'' | Limited \<Rightarrow> ''limited'' | Expired \<Rightarrow> ''expired'' | OnHold \<Rightarrow> ''on_hold'')"

datatype reset_strategy = NoReset | ResetDay | ResetWeek | ResetMonth | ResetYear

datatype proxy_type = VMess | VLESS | Trojan | Shadowsocks

type_synonym proxy_settings = "(string \<times> pyval) list"

record next_plan =
  np_data_limit :: int
  np_expire :: "int option"
  np_add_remaining_traffic :: bool
  np_fire_on_either :: bool

record proxy_row =
  px_type :: proxy_type
  px_settings :: proxy_settings
  px_excluded :: "string list"

record db_user =
  du_id :: int
  du_username :: string
  du_proxies :: "proxy_row list"
  du_status :: user_status
  du_used_traffic :: int
  du_data_limit :: "int option"
  du_reset_strategy :: reset_strategy
  du_expire :: "int option"
  du_admin :: "int option"
  du_sub_revoked_at :: "int option"
  du_sub_updated_at :: "int option"
  du_sub_agent :: "string option"
  du_created_at :: int
  du_note :: "string option"
  du_online_at :: "int option"
  du_on_hold_expire_duration :: "int option"
  du_on_hold_timeout :: "int option"
  du_auto_delete :: "int option"
  du_edit_at :: "int option"
  du_last_status_change :: "int option"
  du_admin_limit_disabled :: bool
  du_template :: "int option"
  du_ip_limit :: "int option"
  du_device_limit :: "int option"
  du_download_mbps :: int
  du_upload_mbps :: int
  du_next_plan :: "next_plan option"
  du_node_usages :: "(int option \<times> int) list"

record db_admin =
  da_id :: int
  da_username :: string
  da_is_sudo :: bool
  da_users_usage :: int
  da_max_users :: "int option"
  da_expire_at :: "int option"
  da_alloc_limit :: "int option"
  da_consume_limit :: "int option"
  da_allowed_templates :: "int list option"
  da_max_duration_days :: "int option"
  da_clamp_expiry :: "bool option"

record db_template =
  dt_id :: int
  dt_data_limit :: "int option"
  dt_expire_duration :: "int option"
  dt_core_access :: "(string \<times> string list) list"
  dt_tags :: "string list"

record reset_log =
  rl_user :: "int option"
  rl_used :: int
  rl_at :: int

record admin_log =
  al_admin :: "int option"
  al_used :: int
  al_at :: int

datatype reminder_type = ExpirationDate | DataUsage

record reminder =
  rm_id :: int
  rm_user :: int
  rm_type :: reminder_type
  rm_threshold :: "int option"
  rm_expires_at :: "int option"

record proxy_host =
  ho_remark :: string
  ho_address :: string

record user_db =
  users :: "db_user list"
  admins :: "db_admin list"
  user_templates :: "db_template list"
  reset_logs :: "reset_log list"
  admin_logs :: "admin_log list"
  reminders :: "reminder list"
  inbounds :: "(string \<times> proxy_host list) list"

record user_env =
  ue_offset :: int
  ue_percents :: "int list"
  ue_days_left :: "int list"
  ue_autodelete_days :: int
  ue_by_protocol :: "(proxy_type \<times> string list) list"
  ue_webhook :: bool
  ue_notify_usage :: bool
  ue_notify_days :: bool

definition SECOND :: int where "SECOND = 1000000"
definition A_DAY :: int where "A_DAY = 86400 * SECOND"

text \<open>\<open>utcnow().timestamp()\<close> in microseconds, and \<open>x or None\<close> of an optional number.\<close>

definition naive_timestamp :: "user_env \<Rightarrow> int \<Rightarrow> int" where
  "naive_timestamp env t = t - ue_offset env"

definition or_none :: "int option \<Rightarrow> int option" where
  "or_none v = (if v = Some 0 then None else v)"

definition falsy :: "int option \<Rightarrow> bool" where
  "falsy v \<longleftrightarrow> or_none v = None"

datatype user_error = AdminLimitError string | IntegrityError | TypeFailure

definition user_of :: "user_db \<Rightarrow> int \<Rightarrow> db_user option" where
  "user_of db uid = one_or_none (\<lambda>u. du_id u = uid) (users db)"

definition admin_of :: "user_db \<Rightarrow> int option \<Rightarrow> db_admin option" where
  "admin_of db aid = (case aid of None \<Rightarrow> None | Some a \<Rightarrow> one_or_none (\<lambda>r. da_id r = a) (admins db))"

definition owned_by :: "int \<Rightarrow> db_user \<Rightarrow> bool" where
  "owned_by aid u \<longleftrightarrow> du_admin u = Some aid"

definition set_user :: "int \<Rightarrow> (db_user \<Rightarrow> db_user) \<Rightarrow> user_db \<Rightarrow> user_db" where
  "set_user uid f db = db\<lparr>users := update_where (\<lambda>u. du_id u = uid) f (users db)\<rparr>"

section \<open>Sums over the users of an administrator\<close>

definition admin_user_count :: "user_db \<Rightarrow> int \<Rightarrow> int" where
  "admin_user_count db aid = int (count_where (owned_by aid) (users db))"

definition limit_or_zero :: "int option \<Rightarrow> int" where
  "limit_or_zero v = (case v of None \<Rightarrow> 0 | Some n \<Rightarrow> n)"

definition admin_allocated_traffic :: "user_db \<Rightarrow> int \<Rightarrow> int" where
  "admin_allocated_traffic db aid = sum_list (map (\<lambda>u. limit_or_zero (du_data_limit u)) (filter (owned_by aid) (users db)))"

definition admin_lifetime_usage :: "user_db \<Rightarrow> int \<Rightarrow> int" where
  "admin_lifetime_usage db aid =
     sum_list (map du_used_traffic (filter (owned_by aid) (users db))) +
     sum_list (map rl_used (filter (\<lambda>l. \<exists>u \<in> set (users db). rl_user l = Some (du_id u) \<and> owned_by aid u) (reset_logs db)))"

definition admin_is_expired :: "int \<Rightarrow> db_admin \<Rightarrow> bool" where
  "admin_is_expired now a \<longleftrightarrow> (case da_expire_at a of None \<Rightarrow> False | Some t \<Rightarrow> t \<le> now)"

section \<open>Inbounds\<close>

text \<open>Of a host only the remark (without its leading symbol) and the address are kept.\<close>

definition default_host :: proxy_host where
  "default_host = \<lparr>ho_remark = ''Zagros ({USERNAME}) [{PROTOCOL} - {TRANSPORT}]'', ho_address = ''{SERVER_IP}''\<rparr>"

type_synonym session = "user_db \<times> user_db"

definition session_commit :: "session \<Rightarrow> session" where
  "session_commit s = (snd s, snd s)"

definition pending :: "(user_db \<Rightarrow> user_db) \<Rightarrow> session \<Rightarrow> session" where
  "pending f s = (fst s, f (snd s))"

definition get_or_create_inbound :: "string \<Rightarrow> session \<Rightarrow> session" where
  "get_or_create_inbound tag s =
     (if dict_in tag (inbounds (snd s)) then s
      else session_commit (pending (\<lambda>db. db\<lparr>inbounds := inbounds db @ [(tag, [default_host])]\<rparr>) s))"

definition get_hosts :: "string \<Rightarrow> session \<Rightarrow> proxy_host list \<times> session" where
  "get_hosts tag s = (let s1 = get_or_create_inbound tag s in (case dict_get (inbounds (snd s1)) tag of None \<Rightarrow> [] | Some hs \<Rightarrow> hs, s1))"

definition remove_inbound_row :: "string \<Rightarrow> user_db \<Rightarrow> bool \<times> user_db" where
  "remove_inbound_row tag db =
     (let drop_tag = (\<lambda>u. u\<lparr>du_proxies := map (\<lambda>p. p\<lparr>px_excluded := filter (\<lambda>t. t \<noteq> tag) (px_excluded p)\<rparr>) (du_proxies u)\<rparr>);
          db1 = db\<lparr>users := map drop_tag (users db),
                   user_templates := map (\<lambda>t. t\<lparr>dt_tags := filter (\<lambda>x. x \<noteq> tag) (dt_tags t)\<rparr>) (user_templates db)\<rparr>
      in (dict_in tag (inbounds db), db1\<lparr>inbounds := dict_pop tag (inbounds db1)\<rparr>))"

section \<open>Requests\<close>

record next_plan_model =
  nm_data_limit :: "int option"
  nm_expire :: "int option"
  nm_add_remaining_traffic :: bool
  nm_fire_on_either :: bool

text \<open>The \<open>next_plans\<close> row of a model; a missing data limit violates the column's \<open>NOT NULL\<close>.\<close>

definition plan_row :: "next_plan_model \<Rightarrow> next_plan option" where
  "plan_row m =
     (case nm_data_limit m of
        None \<Rightarrow> None
      | Some limit \<Rightarrow> Some \<lparr>np_data_limit = limit, np_expire = nm_expire m, np_add_remaining_traffic = nm_add_remaining_traffic m,
          np_fire_on_either = nm_fire_on_either m\<rparr>)"

record user_create =
  uc_username :: string
  uc_status :: "user_status option"
  uc_proxies :: "(proxy_type \<times> proxy_settings) list"
  uc_inbounds :: "(proxy_type \<times> string list) list"
  uc_data_limit :: "int option"
  uc_expire :: "int option"
  uc_reset_strategy :: reset_strategy
  uc_ip_limit :: "int option"
  uc_device_limit :: "int option"
  uc_download_mbps :: int
  uc_upload_mbps :: int
  uc_note :: "string option"
  uc_on_hold_expire_duration :: "int option"
  uc_on_hold_timeout :: "int option"
  uc_auto_delete :: "int option"
  uc_next_plan :: "next_plan_model option"
  uc_template :: "int option"
  uc_core_access :: "(string \<times> string list) list option"

definition protocol_tags :: "user_env \<Rightarrow> proxy_type \<Rightarrow> string list" where
  "protocol_tags env t = (case dict_get (ue_by_protocol env) t of None \<Rightarrow> [] | Some tags \<Rightarrow> tags)"

definition create_excluded :: "user_env \<Rightarrow> user_create \<Rightarrow> proxy_type \<Rightarrow> string list" where
  "create_excluded env u t =
     (let selected = (case dict_get (uc_inbounds u) t of None \<Rightarrow> [] | Some tags \<Rightarrow> tags)
      in filter (\<lambda>tag. tag \<notin> set selected) (protocol_tags env t))"

section \<open>Governance\<close>

text \<open>\<open>allowed_template_ids\<close> is JSON text of a sorted list of numbers; the column is that list here.\<close>

definition dump_template_ids :: "int list \<Rightarrow> int list option" where
  "dump_template_ids ids = (if ids = [] then None else Some (sort (remdups ids)))"

definition load_template_ids :: "int list option \<Rightarrow> int list" where
  "load_template_ids raw = (case raw of None \<Rightarrow> [] | Some ids \<Rightarrow> ids)"

definition check_duration :: "int \<Rightarrow> db_admin \<Rightarrow> int option \<Rightarrow> int option \<Rightarrow> user_error + unit" where
  "check_duration now a expire hold =
     (case or_none (da_max_duration_days a) of
        None \<Rightarrow> Inr ()
      | Some max_days \<Rightarrow>
          let horizon_ts = (now + max_days * A_DAY) div SECOND
          in if \<not> falsy expire \<and> the expire > horizon_ts then Inl (AdminLimitError ''max_user_duration'')
             else if \<not> falsy hold \<and> the hold > max_days * 86400 then Inl (AdminLimitError ''max_user_duration'')
             else Inr ())"

definition clamp_expiry :: "db_admin \<Rightarrow> int option \<Rightarrow> int option" where
  "clamp_expiry a expire =
     (case (da_clamp_expiry a, da_expire_at a) of
        (Some True, Some t) \<Rightarrow> if \<not> falsy expire \<and> the expire > t div SECOND then Some (t div SECOND) else expire
      | _ \<Rightarrow> expire)"

definition lock_template :: "user_env \<Rightarrow> int \<Rightarrow> db_template \<Rightarrow> user_create \<Rightarrow> user_create" where
  "lock_template env now tpl u =
     (let hits = map (\<lambda>(t, tags). (t, filter (\<lambda>tag. tag \<in> set (dt_tags tpl)) tags)) (ue_by_protocol env)
      in u\<lparr>uc_data_limit := or_none (dt_data_limit tpl),
           uc_expire := (case or_none (dt_expire_duration tpl) of None \<Rightarrow> None | Some d \<Rightarrow> Some ((now + d * SECOND) div SECOND)),
           uc_core_access := Some (dt_core_access tpl),
           uc_inbounds := filter (\<lambda>(t, tags). tags \<noteq> []) hits\<rparr>)"

definition enforce_reseller_user_policy ::
  "user_env \<Rightarrow> int \<Rightarrow> user_db \<Rightarrow> db_admin option \<Rightarrow> user_create \<Rightarrow> user_error + user_create"
where
  "enforce_reseller_user_policy env now db admin u =
     (case admin of
        None \<Rightarrow> Inr u
      | Some a \<Rightarrow>
          rbind (check_duration now a (uc_expire u) (uc_on_hold_expire_duration u)) (\<lambda>_.
            let u1 = u\<lparr>uc_expire := clamp_expiry a (uc_expire u)\<rparr>; enforced = load_template_ids (da_allowed_templates a)
            in if enforced = [] then Inr u1
               else case or_none (uc_template u1) of
                 None \<Rightarrow> Inl (AdminLimitError ''enforced_templates'')
               | Some tid \<Rightarrow>
                   if tid \<notin> set enforced then Inl (AdminLimitError ''enforced_templates'')
                   else case one_or_none (\<lambda>t. dt_id t = tid) (user_templates db) of
                     None \<Rightarrow> Inl (AdminLimitError ''enforced_templates'')
                   | Some tpl \<Rightarrow> Inr (lock_template env now tpl u1)))"

definition enforce_reseller_update_policy :: "int \<Rightarrow> user_db \<Rightarrow> db_user \<Rightarrow> int option \<Rightarrow> user_error + int option" where
  "enforce_reseller_update_policy now db u new_expire =
     (case admin_of db (du_admin u) of
        None \<Rightarrow> Inr new_expire
      | Some a \<Rightarrow>
          if falsy new_expire then Inr new_expire
          else rbind (check_duration now a new_expire None) (\<lambda>_. Inr (clamp_expiry a new_expire)))"

definition check_user_create_limits :: "user_db \<Rightarrow> db_admin option \<Rightarrow> int option \<Rightarrow> user_error + unit" where
  "check_user_create_limits db admin new_data_limit =
     (case admin of
        None \<Rightarrow> Inr ()
      | Some a \<Rightarrow>
          if (case da_max_users a of None \<Rightarrow> False | Some cap \<Rightarrow> cap \<le> admin_user_count db (da_id a)) then Inl (AdminLimitError ''max_users'')
          else case da_alloc_limit a of
            None \<Rightarrow> Inr ()
          | Some cap \<Rightarrow>
              if falsy new_data_limit then Inl (AdminLimitError ''traffic_alloc_limit'')
              else if cap < admin_allocated_traffic db (da_id a) + the new_data_limit then Inl (AdminLimitError ''traffic_alloc_limit'')
              else Inr ())"

definition check_user_update_limits :: "user_db \<Rightarrow> db_user \<Rightarrow> int option \<Rightarrow> user_error + unit" where
  "check_user_update_limits db u new_data_limit =
     (case admin_of db (du_admin u) of
        None \<Rightarrow> Inr ()
      | Some a \<Rightarrow>
          (case da_alloc_limit a of
             None \<Rightarrow> Inr ()
           | Some cap \<Rightarrow>
               if falsy new_data_limit then Inl (AdminLimitError ''traffic_alloc_limit'')
               else let others = sum_list (map (\<lambda>x. limit_or_zero (du_data_limit x))
                          (filter (\<lambda>x. owned_by (da_id a) x \<and> du_id x \<noteq> du_id u) (users db)))
                    in if cap < others + the new_data_limit then Inl (AdminLimitError ''traffic_alloc_limit'') else Inr ()))"

text \<open>One user under the reconciler of the consumption cap.\<close>

definition enforce_on :: "bool \<Rightarrow> int \<Rightarrow> db_user \<Rightarrow> db_user" where
  "enforce_on over now u =
     (if over \<and> du_status u = Active \<and> \<not> du_admin_limit_disabled u
      then u\<lparr>du_status := Disabled, du_admin_limit_disabled := True, du_last_status_change := Some now\<rparr>
      else if \<not> over \<and> du_admin_limit_disabled u
      then u\<lparr>du_status := Active, du_admin_limit_disabled := False, du_last_status_change := Some now\<rparr>
      else u)"

definition over_consumption :: "user_db \<Rightarrow> db_admin \<Rightarrow> bool" where
  "over_consumption db a = (case da_consume_limit a of None \<Rightarrow> False | Some limit \<Rightarrow> limit \<le> admin_lifetime_usage db (da_id a))"

definition enforce_admin_consumption :: "int \<Rightarrow> db_admin \<Rightarrow> user_db \<Rightarrow> (int list \<times> int list) \<times> user_db" where
  "enforce_admin_consumption now a db =
     (let over = over_consumption db a; mine = filter (owned_by (da_id a)) (users db);
          suspended = filter (\<lambda>u. over \<and> du_status u = Active \<and> \<not> du_admin_limit_disabled u) mine;
          reactivated = filter (\<lambda>u. \<not> over \<and> du_admin_limit_disabled u) mine
      in ((map du_id suspended, map du_id reactivated),
          db\<lparr>users := update_where (owned_by (da_id a)) (enforce_on over now) (users db)\<rparr>))"

section \<open>Creating and removing users\<close>

fun create_inbounds :: "string list \<Rightarrow> session \<Rightarrow> session" where
  "create_inbounds [] s = s"
| "create_inbounds (tag # tags) s = create_inbounds tags (get_or_create_inbound tag s)"

definition create_proxies :: "user_env \<Rightarrow> user_create \<Rightarrow> proxy_row list" where
  "create_proxies env u = map (\<lambda>(t, st). \<lparr>px_type = t, px_settings = st, px_excluded = create_excluded env u t\<rparr>) (uc_proxies u)"

definition new_user :: "user_env \<Rightarrow> int \<Rightarrow> int \<Rightarrow> int option \<Rightarrow> next_plan option \<Rightarrow> user_create \<Rightarrow> db_user" where
  "new_user env now uid admin plan u =
     \<lparr>du_id = uid, du_username = uc_username u, du_proxies = create_proxies env u,
      du_status = (case uc_status u of None \<Rightarrow> Active | Some st \<Rightarrow> st), du_used_traffic = 0, du_data_limit = or_none (uc_data_limit u),
      du_reset_strategy = uc_reset_strategy u, du_expire = or_none (uc_expire u), du_admin = admin, du_sub_revoked_at = None,
      du_sub_updated_at = None, du_sub_agent = None, du_created_at = now, du_note = uc_note u, du_online_at = None,
      du_on_hold_expire_duration = or_none (uc_on_hold_expire_duration u), du_on_hold_timeout = uc_on_hold_timeout u,
      du_auto_delete = uc_auto_delete u, du_edit_at = None, du_last_status_change = Some now, du_admin_limit_disabled = False,
      du_template = or_none (uc_template u), du_ip_limit = or_none (uc_ip_limit u), du_device_limit = or_none (uc_device_limit u),
      du_download_mbps = uc_download_mbps u, du_upload_mbps = uc_upload_mbps u, du_next_plan = plan, du_node_usages = []\<rparr>"

text \<open>
  The insert: a user name that is taken (the column compares without regard to case) and a plan without a data limit
  violate a constraint. Inbounds created on the way are committed before it.
\<close>

definition insert_user :: "user_env \<Rightarrow> int \<Rightarrow> int option \<Rightarrow> user_create \<Rightarrow> user_db \<Rightarrow> (user_error + db_user) \<times> user_db" where
  "insert_user env now admin u db =
     (let taken = (\<exists>x \<in> set (users db). py_lower (du_username x) = py_lower (uc_username u));
          plan = (case uc_next_plan u of None \<Rightarrow> None | Some m \<Rightarrow> plan_row m);
          row = new_user env now (fresh_id (map du_id (users db))) admin plan u
      in if taken \<or> (uc_next_plan u \<noteq> None \<and> plan = None) then (Inl IntegrityError, db)
         else (Inr row, db\<lparr>users := users db @ [row]\<rparr>))"

definition create_gate :: "user_env \<Rightarrow> int \<Rightarrow> int option \<Rightarrow> user_create \<Rightarrow> user_db \<Rightarrow> user_error + user_create" where
  "create_gate env now admin user db =
     rbind (enforce_reseller_user_policy env now db (admin_of db admin) user) (\<lambda>u.
       rbind (check_user_create_limits db (admin_of db admin) (or_none (uc_data_limit u))) (\<lambda>_. Inr u))"

definition create_user :: "user_env \<Rightarrow> int \<Rightarrow> int option \<Rightarrow> user_create \<Rightarrow> user_db \<Rightarrow> (user_error + db_user) \<times> user_db" where
  "create_user env now admin user db =
     (case create_gate env now admin user db of
        Inl e \<Rightarrow> (Inl e, db)
      | Inr u \<Rightarrow>
          let s = create_inbounds (concat (map (\<lambda>(t, _). create_excluded env u t) (uc_proxies u))) (db, db)
          in insert_user env now admin u (snd s))"

text \<open>Deleting a user cascades to proxies, plan, node usages and reminders; the reset logs lose their user.\<close>

definition forget_logs :: "int list \<Rightarrow> reset_log list \<Rightarrow> reset_log list" where
  "forget_logs uids logs = update_where (\<lambda>l. \<exists>uid \<in> set uids. rl_user l = Some uid) (\<lambda>l. l\<lparr>rl_user := None\<rparr>) logs"

definition remove_users :: "int list \<Rightarrow> user_db \<Rightarrow> user_db" where
  "remove_users uids db =
     db\<lparr>users := filter (\<lambda>u. du_id u \<notin> set uids) (users db), reset_logs := forget_logs uids (reset_logs db),
        reminders := filter (\<lambda>r. rm_user r \<notin> set uids) (reminders db)\<rparr>"

definition remove_user :: "int \<Rightarrow> user_db \<Rightarrow> user_db" where
  "remove_user uid db = remove_users [uid] db"

definition autodelete_expired_users :: "user_env \<Rightarrow> int \<Rightarrow> bool \<Rightarrow> user_db \<Rightarrow> (user_error + int list) \<times> user_db" where
  "autodelete_expired_users env now include_limited db =
     (let days_of = (\<lambda>u. case du_auto_delete u of None \<Rightarrow> ue_autodelete_days env | Some d \<Rightarrow> d);
          candidates = filter (\<lambda>u. 0 \<le> days_of u \<and> (du_status u = Expired \<or> include_limited \<and> du_status u = Limited)) (users db);
          due = filter (\<lambda>u. case du_last_status_change u of None \<Rightarrow> False | Some t \<Rightarrow> t + days_of u * A_DAY \<le> now) candidates
      in if \<exists>u \<in> set candidates. du_last_status_change u = None then (Inl TypeFailure, db)
         else (Inr (map du_id due), remove_users (map du_id due) db))"

section \<open>Reminders\<close>

definition find_reminder :: "int \<Rightarrow> reminder_type \<Rightarrow> int \<Rightarrow> user_db \<Rightarrow> reminder option" where
  "find_reminder uid ty threshold db =
     one_or_none (\<lambda>r. rm_user r = uid \<and> rm_type r = ty \<and> rm_threshold r = Some threshold) (reminders db)"

definition delete_notification_reminder :: "reminder \<Rightarrow> session \<Rightarrow> session" where
  "delete_notification_reminder r s = session_commit (pending (\<lambda>db. db\<lparr>reminders := filter (\<lambda>x. rm_id x \<noteq> rm_id r) (reminders db)\<rparr>) s)"

definition get_notification_reminder :: "int \<Rightarrow> int \<Rightarrow> reminder_type \<Rightarrow> int \<Rightarrow> session \<Rightarrow> reminder option \<times> session" where
  "get_notification_reminder now uid ty threshold s =
     (case find_reminder uid ty threshold (snd s) of
        None \<Rightarrow> (None, s)
      | Some r \<Rightarrow>
          (case rm_expires_at r of
             Some t \<Rightarrow> if t < now then (None, delete_notification_reminder r s) else (Some r, s)
           | None \<Rightarrow> (Some r, s)))"

definition create_notification_reminder :: "reminder_type \<Rightarrow> int option \<Rightarrow> int \<Rightarrow> int \<Rightarrow> user_db \<Rightarrow> user_db" where
  "create_notification_reminder ty expires uid threshold db =
     db\<lparr>reminders := reminders db @ [\<lparr>rm_id = fresh_id (map rm_id (reminders db)), rm_user = uid, rm_type = ty,
          rm_threshold = Some threshold, rm_expires_at = expires\<rparr>]\<rparr>"

definition drop_reminder :: "int \<Rightarrow> int \<Rightarrow> reminder_type \<Rightarrow> int \<Rightarrow> session \<Rightarrow> session" where
  "drop_reminder now uid ty threshold s =
     (let (found, s1) = get_notification_reminder now uid ty threshold s
      in case found of None \<Rightarrow> s1 | Some r \<Rightarrow> delete_notification_reminder r s1)"

fun drop_reminders :: "int \<Rightarrow> int \<Rightarrow> reminder_type \<Rightarrow> int list \<Rightarrow> session \<Rightarrow> session" where
  "drop_reminders now uid ty [] s = s"
| "drop_reminders now uid ty (th # ths) s = drop_reminders now uid ty ths (drop_reminder now uid ty th s)"

text \<open>The percentage as an exact quotient, the days as a floor.\<close>

definition percent_below :: "int \<Rightarrow> int \<Rightarrow> int \<Rightarrow> bool" where
  "percent_below used limit percent \<longleftrightarrow> used * 100 < percent * limit"

definition expiration_days :: "user_env \<Rightarrow> int \<Rightarrow> int \<Rightarrow> int" where
  "expiration_days env now expire = (expire * SECOND + ue_offset env - now) div A_DAY"

section \<open>Editing users\<close>

text \<open>
  A modification: \<open>None\<close> leaves a field as it is. \<open>um_excluded\<close> is \<open>excluded_inbounds\<close>, given when \<open>inbounds\<close> is.
\<close>

record user_modify =
  um_proxies :: "(proxy_type \<times> proxy_settings) list option"
  um_excluded :: "(proxy_type \<times> string list) list option"
  um_status :: "user_status option"
  um_ip_limit :: "int option"
  um_device_limit :: "int option"
  um_download_mbps :: "int option"
  um_upload_mbps :: "int option"
  um_data_limit :: "int option"
  um_expire :: "int option"
  um_note :: "string option"
  um_reset_strategy :: "reset_strategy option"
  um_on_hold_timeout :: "int option"
  um_on_hold_expire_duration :: "int option"
  um_next_plan :: "next_plan_model option"

definition modify_excluded :: "user_env \<Rightarrow> (proxy_type \<times> string list) list \<Rightarrow> (proxy_type \<times> string list) list" where
  "modify_excluded env selection =
     map (\<lambda>(t, tags). (t, if tags = [] then [] else filter (\<lambda>tag. tag \<notin> set tags) (protocol_tags env t))) selection"

text \<open>Editing keeps the stored credentials, and the method and flow unless new ones are given.\<close>

definition keep_setting :: "bool \<Rightarrow> string \<Rightarrow> proxy_settings \<Rightarrow> proxy_settings \<Rightarrow> proxy_settings" where
  "keep_setting always key old new =
     (if truthy (vget old key) \<and> (always \<or> \<not> truthy (vget new key)) then dict_set key (vget old key) new else new)"

definition keep_credentials :: "proxy_settings \<Rightarrow> proxy_settings \<Rightarrow> proxy_settings" where
  "keep_credentials old new =
     keep_setting False ''flow'' old (keep_setting False ''method'' old (keep_setting True ''password'' old (keep_setting True ''id'' old new)))"

definition put_proxy :: "proxy_type \<times> proxy_settings \<Rightarrow> proxy_row list \<Rightarrow> proxy_row list" where
  "put_proxy ts rows =
     (let (t, st) = ts
      in if \<exists>p \<in> set rows. px_type p = t
         then update_where (\<lambda>p. px_type p = t) (\<lambda>p. p\<lparr>px_settings := keep_credentials (px_settings p) st\<rparr>) rows
         else rows @ [\<lparr>px_type = t, px_settings = st, px_excluded = []\<rparr>])"

definition update_proxies :: "(proxy_type \<times> proxy_settings) list option \<Rightarrow> db_user \<Rightarrow> db_user" where
  "update_proxies given u =
     (case given of
        None \<Rightarrow> u
      | Some ps \<Rightarrow> u\<lparr>du_proxies := filter (\<lambda>p. px_type p \<in> set (map fst ps)) (fold put_proxy ps (du_proxies u))\<rparr>)"

fun update_excluded :: "int \<Rightarrow> (proxy_type \<times> string list) list \<Rightarrow> session \<Rightarrow> session" where
  "update_excluded uid [] s = s"
| "update_excluded uid ((t, tags) # rest) s =
     update_excluded uid rest
       (case user_of (snd s) uid of
          None \<Rightarrow> s
        | Some u \<Rightarrow>
            if \<exists>p \<in> set (du_proxies u). px_type p = t
            then pending (set_user uid (\<lambda>x. x\<lparr>du_proxies := update_where (\<lambda>p. px_type p = t) (\<lambda>p. p\<lparr>px_excluded := tags\<rparr>) (du_proxies x)\<rparr>))
                   (create_inbounds tags s)
            else s)"

definition update_limits :: "user_modify \<Rightarrow> db_user \<Rightarrow> db_user" where
  "update_limits m u =
     u\<lparr>du_status := (case um_status m of None \<Rightarrow> du_status u | Some st \<Rightarrow> st),
       du_ip_limit := (case um_ip_limit m of None \<Rightarrow> du_ip_limit u | v \<Rightarrow> or_none v),
       du_device_limit := (case um_device_limit m of None \<Rightarrow> du_device_limit u | v \<Rightarrow> or_none v),
       du_download_mbps := (case um_download_mbps m of None \<Rightarrow> du_download_mbps u | Some v \<Rightarrow> v),
       du_upload_mbps := (case um_upload_mbps m of None \<Rightarrow> du_upload_mbps u | Some v \<Rightarrow> v)\<rparr>"

text \<open>The status after a new data limit, and after a new expiry.\<close>

definition within_limit :: "db_user \<Rightarrow> bool" where
  "within_limit u \<longleftrightarrow> (case or_none (du_data_limit u) of None \<Rightarrow> True | Some limit \<Rightarrow> du_used_traffic u < limit)"

definition status_for_limit :: "db_user \<Rightarrow> user_status" where
  "status_for_limit u =
     (if du_status u \<in> {Expired, Disabled} then du_status u
      else if within_limit u then (if du_status u = OnHold then OnHold else Active) else Limited)"

definition not_expired :: "user_env \<Rightarrow> int \<Rightarrow> db_user \<Rightarrow> bool" where
  "not_expired env now u \<longleftrightarrow> (case or_none (du_expire u) of None \<Rightarrow> True | Some e \<Rightarrow> naive_timestamp env now < e * SECOND)"

definition status_for_expire :: "user_env \<Rightarrow> int \<Rightarrow> db_user \<Rightarrow> user_status" where
  "status_for_expire env now u =
     (if du_status u \<in> {Active, Expired} then (if not_expired env now u then Active else Expired) else du_status u)"

type_synonym 'a step_result = "(user_error \<times> user_db) + 'a"

definition update_data_limit :: "user_env \<Rightarrow> int \<Rightarrow> int \<Rightarrow> int option \<Rightarrow> session \<Rightarrow> session step_result" where
  "update_data_limit env now uid new s =
     (case (new, user_of (snd s) uid) of
        (Some limit, Some u) \<Rightarrow>
          (case check_user_update_limits (snd s) u (or_none new) of
             Inl e \<Rightarrow> Inl (e, fst s)
           | Inr _ \<Rightarrow>
               let u1 = u\<lparr>du_data_limit := or_none new\<rparr>; u2 = u1\<lparr>du_status := status_for_limit u1\<rparr>;
                   s1 = pending (set_user uid (\<lambda>_. u2)) s;
                   ths = filter (\<lambda>p. falsy (du_data_limit u1) \<or> percent_below (du_used_traffic u1) (the (du_data_limit u1)) p)
                           (rev (sort (ue_percents env)))
               in Inr (if du_status u \<notin> {Expired, Disabled} \<and> within_limit u1 then drop_reminders now uid DataUsage ths s1 else s1))
      | _ \<Rightarrow> Inr s)"

definition update_expire :: "user_env \<Rightarrow> int \<Rightarrow> int \<Rightarrow> int option \<Rightarrow> session \<Rightarrow> session step_result" where
  "update_expire env now uid new s =
     (case (new, user_of (snd s) uid) of
        (Some _, Some u) \<Rightarrow>
          (case enforce_reseller_update_policy now (snd s) u new of
             Inl e \<Rightarrow> Inl (e, fst s)
           | Inr e \<Rightarrow>
               let u1 = u\<lparr>du_expire := or_none e\<rparr>; u2 = u1\<lparr>du_status := status_for_expire env now u1\<rparr>;
                   s1 = pending (set_user uid (\<lambda>_. u2)) s;
                   ths = filter (\<lambda>d. falsy (du_expire u1) \<or> d < expiration_days env now (the (du_expire u1))) (sort (ue_days_left env))
               in Inr (if du_status u \<in> {Active, Expired} \<and> not_expired env now u1 then drop_reminders now uid ExpirationDate ths s1 else s1))
      | _ \<Rightarrow> Inr s)"

definition update_rest :: "user_modify \<Rightarrow> int \<Rightarrow> db_user \<Rightarrow> db_user" where
  "update_rest m now u =
     u\<lparr>du_note := (case um_note m of None \<Rightarrow> du_note u | Some n \<Rightarrow> if n = [] then None else Some n),
       du_reset_strategy := (case um_reset_strategy m of None \<Rightarrow> du_reset_strategy u | Some r \<Rightarrow> r),
       du_on_hold_timeout := (case um_on_hold_timeout m of None \<Rightarrow> du_on_hold_timeout u | t \<Rightarrow> t),
       du_on_hold_expire_duration := (case um_on_hold_expire_duration m of None \<Rightarrow> du_on_hold_expire_duration u | d \<Rightarrow> d),
       du_next_plan := (case um_next_plan m of None \<Rightarrow> None | Some p \<Rightarrow> plan_row p),
       du_edit_at := Some now\<rparr>"

definition finish_update :: "user_modify \<Rightarrow> int \<Rightarrow> int \<Rightarrow> session \<Rightarrow> session step_result" where
  "finish_update m now uid s =
     (if (case um_next_plan m of None \<Rightarrow> False | Some p \<Rightarrow> plan_row p = None) then Inl (IntegrityError, fst s)
      else Inr (session_commit (pending (set_user uid (update_rest m now)) s)))"

definition update_session :: "user_env \<Rightarrow> int \<Rightarrow> int \<Rightarrow> user_modify \<Rightarrow> session \<Rightarrow> session step_result" where
  "update_session env now uid m s =
     (let s1 = pending (set_user uid (update_proxies (um_proxies m))) s;
          s2 = (case um_excluded m of None \<Rightarrow> s1 | Some ex \<Rightarrow> update_excluded uid ex s1);
          s3 = pending (set_user uid (update_limits m)) s2
      in rbind (update_data_limit env now uid (um_data_limit m) s3) (\<lambda>s4.
           rbind (update_expire env now uid (um_expire m) s4) (finish_update m now uid)))"

definition close_session :: "session step_result \<Rightarrow> (user_error + unit) \<times> user_db" where
  "close_session r = (case r of Inl (e, db) \<Rightarrow> (Inl e, db) | Inr s \<Rightarrow> (Inr (), fst s))"

definition update_user :: "user_env \<Rightarrow> int \<Rightarrow> int \<Rightarrow> user_modify \<Rightarrow> user_db \<Rightarrow> (user_error + unit) \<times> user_db" where
  "update_user env now uid m db = close_session (update_session env now uid m (db, db))"

section \<open>Resets, revocation and bulk operations\<close>

text \<open>
  \<open>status not in (UserStatus.expired or UserStatus.disabled)\<close>: the bracket is the string \<open>expired\<close>, and \<open>in\<close> on strings
  looks for a substring.
\<close>

definition spared_by_reset :: "user_status \<Rightarrow> bool" where
  "spared_by_reset st \<longleftrightarrow> py_in (status_value st) (status_value Expired)"

definition add_reset_log :: "int \<Rightarrow> db_user \<Rightarrow> user_db \<Rightarrow> user_db" where
  "add_reset_log now u db = db\<lparr>reset_logs := reset_logs db @ [\<lparr>rl_user = Some (du_id u), rl_used = du_used_traffic u, rl_at = now\<rparr>]\<rparr>"

definition reset_row :: "db_user \<Rightarrow> db_user" where
  "reset_row u =
     u\<lparr>du_used_traffic := 0, du_node_usages := [], du_status := (if spared_by_reset (du_status u) then du_status u else Active),
       du_next_plan := None\<rparr>"

definition reset_user_data_usage :: "int \<Rightarrow> int \<Rightarrow> user_db \<Rightarrow> user_db" where
  "reset_user_data_usage now uid db =
     (case user_of db uid of None \<Rightarrow> db | Some u \<Rightarrow> set_user uid reset_row (add_reset_log now u db))"

text \<open>\<open>None - int\<close> raises when a user without a data limit has a plan that does not add the remaining traffic.\<close>

definition next_limit :: "db_user \<Rightarrow> next_plan \<Rightarrow> user_error + int" where
  "next_limit u plan =
     (if np_add_remaining_traffic plan then Inr (np_data_limit plan)
      else case du_data_limit u of
        None \<Rightarrow> Inl TypeFailure
      | Some limit \<Rightarrow> Inr (np_data_limit plan + (limit - du_used_traffic u)))"

definition reset_user_by_next :: "int \<Rightarrow> int \<Rightarrow> user_db \<Rightarrow> (user_error + unit) \<times> user_db" where
  "reset_user_by_next now uid db =
     (case user_of db uid of
        None \<Rightarrow> (Inr (), db)
      | Some u \<Rightarrow>
          (case du_next_plan u of
             None \<Rightarrow> (Inr (), db)
           | Some plan \<Rightarrow>
               (case next_limit u plan of
                  Inl e \<Rightarrow> (Inl e, db)
                | Inr limit \<Rightarrow>
                    (Inr (), set_user uid (\<lambda>x. x\<lparr>du_node_usages := [], du_status := Active, du_data_limit := Some limit,
                       du_expire := np_expire plan, du_used_traffic := 0, du_next_plan := None\<rparr>) (add_reset_log now u db)))))"

text \<open>
  The settings of a proxy row are those of a validated model: its method is a text, in a current or a legacy spelling, and the
  unset markers fall back to the default method.
\<close>

definition flow_of :: "proxy_settings \<Rightarrow> pyval" where
  "flow_of st = (case dict_get st ''flow'' of None \<Rightarrow> VStr [] | Some v \<Rightarrow> v)"

definition normalize_legacy_method :: "pyval \<Rightarrow> pyval" where
  "normalize_legacy_method v =
     (case v of
        VStr m \<Rightarrow>
          let m1 = py_lower (py_strip m)
          in if m1 \<in> {[], ''auto'', ''none'', ''chacha20-poly1305'', ''chacha20''} then VStr ''chacha20-ietf-poly1305'' else VStr m1
      | _ \<Rightarrow> v)"

definition method_of :: "proxy_settings \<Rightarrow> pyval" where
  "method_of st = (case dict_get st ''method'' of None \<Rightarrow> VStr ''chacha20-ietf-poly1305'' | Some v \<Rightarrow> normalize_legacy_method v)"

text \<open>\<open>from_dict\<close>, then \<open>revoke()\<close>: the model of the protocol with a fresh secret.\<close>

definition revoked_settings :: "pyval \<Rightarrow> proxy_type \<Rightarrow> proxy_settings \<Rightarrow> proxy_settings" where
  "revoked_settings fresh t st =
     (case t of
        VMess \<Rightarrow> [(''id'', fresh)]
      | VLESS \<Rightarrow> [(''id'', fresh), (''flow'', flow_of st)]
      | Trojan \<Rightarrow> [(''password'', fresh), (''flow'', flow_of st)]
      | Shadowsocks \<Rightarrow> [(''password'', fresh), (''method'', method_of st)])"

definition plan_model :: "next_plan \<Rightarrow> next_plan_model" where
  "plan_model p = \<lparr>nm_data_limit = Some (np_data_limit p), nm_expire = np_expire p, nm_add_remaining_traffic = np_add_remaining_traffic p,
     nm_fire_on_either = np_fire_on_either p\<rparr>"

text \<open>The user's own response as a modification, with revoked proxies.\<close>

definition revoke_modify :: "(proxy_type \<Rightarrow> pyval) \<Rightarrow> db_user \<Rightarrow> user_modify" where
  "revoke_modify fresh u =
     \<lparr>um_proxies = Some (map (\<lambda>p. (px_type p, revoked_settings (fresh (px_type p)) (px_type p) (px_settings p))) (du_proxies u)),
      um_excluded = Some (map (\<lambda>p. (px_type p, px_excluded p)) (du_proxies u)), um_status = Some (du_status u),
      um_ip_limit = du_ip_limit u, um_device_limit = du_device_limit u, um_download_mbps = Some (du_download_mbps u),
      um_upload_mbps = Some (du_upload_mbps u), um_data_limit = du_data_limit u, um_expire = du_expire u, um_note = du_note u,
      um_reset_strategy = Some (du_reset_strategy u), um_on_hold_timeout = du_on_hold_timeout u,
      um_on_hold_expire_duration = or_none (du_on_hold_expire_duration u), um_next_plan = map_option plan_model (du_next_plan u)\<rparr>"

definition revoke_user_sub :: "user_env \<Rightarrow> int \<Rightarrow> (proxy_type \<Rightarrow> pyval) \<Rightarrow> int \<Rightarrow> user_db \<Rightarrow> (user_error + unit) \<times> user_db" where
  "revoke_user_sub env now fresh uid db =
     (case user_of db uid of
        None \<Rightarrow> (Inr (), db)
      | Some u \<Rightarrow>
          close_session (update_session env now uid (revoke_modify fresh u)
            (pending (set_user uid (\<lambda>x. x\<lparr>du_sub_revoked_at := Some now\<rparr>)) (db, db))))"

definition update_user_sub :: "int \<Rightarrow> int \<Rightarrow> string \<Rightarrow> user_db \<Rightarrow> user_db" where
  "update_user_sub now uid agent db = set_user uid (\<lambda>u. u\<lparr>du_sub_updated_at := Some now, du_sub_agent := Some agent\<rparr>) db"

definition of_admin :: "int option \<Rightarrow> db_user \<Rightarrow> bool" where
  "of_admin aid u \<longleftrightarrow> (case aid of None \<Rightarrow> True | Some a \<Rightarrow> owned_by a u)"

definition reset_all_users_data_usage :: "int option \<Rightarrow> user_db \<Rightarrow> user_db" where
  "reset_all_users_data_usage aid db =
     (let hit = of_admin aid
      in db\<lparr>users := update_where hit (\<lambda>u. u\<lparr>du_used_traffic := 0,
               du_status := (if du_status u \<in> {OnHold, Expired, Disabled} then du_status u else Active),
               du_node_usages := [], du_next_plan := None\<rparr>) (users db),
            reset_logs := forget_logs (map du_id (filter hit (users db))) (reset_logs db)\<rparr>)"

definition disable_all_active_users :: "int \<Rightarrow> int option \<Rightarrow> user_db \<Rightarrow> user_db" where
  "disable_all_active_users now aid db =
     db\<lparr>users := update_where (\<lambda>u. du_status u \<in> {Active, OnHold} \<and> of_admin aid u)
          (\<lambda>u. u\<lparr>du_status := Disabled, du_last_status_change := Some now\<rparr>) (users db)\<rparr>"

definition activate_all_disabled_users :: "int \<Rightarrow> int option \<Rightarrow> user_db \<Rightarrow> user_db" where
  "activate_all_disabled_users now aid db =
     (let held = update_where (\<lambda>u. du_status u = Disabled \<and> du_expire u = None \<and> du_on_hold_expire_duration u \<noteq> None \<and>
              du_online_at u = None \<and> of_admin aid u) (\<lambda>u. u\<lparr>du_status := OnHold, du_last_status_change := Some now\<rparr>) (users db)
      in db\<lparr>users := update_where (\<lambda>u. du_status u = Disabled \<and> of_admin aid u)
              (\<lambda>u. u\<lparr>du_status := Active, du_last_status_change := Some now\<rparr>) held\<rparr>)"

definition update_user_status :: "int \<Rightarrow> int \<Rightarrow> user_status \<Rightarrow> user_db \<Rightarrow> user_db" where
  "update_user_status now uid st db = set_user uid (\<lambda>u. u\<lparr>du_status := st, du_last_status_change := Some now\<rparr>) db"

definition set_owner :: "int \<Rightarrow> int \<Rightarrow> user_db \<Rightarrow> user_db" where
  "set_owner uid aid db = set_user uid (\<lambda>u. u\<lparr>du_admin := Some aid\<rparr>) db"

definition start_user_expire :: "user_env \<Rightarrow> int \<Rightarrow> int \<Rightarrow> user_db \<Rightarrow> (user_error + unit) \<times> user_db" where
  "start_user_expire env now uid db =
     (case user_of db uid of
        None \<Rightarrow> (Inr (), db)
      | Some u \<Rightarrow>
          (case du_on_hold_expire_duration u of
             None \<Rightarrow> (Inl TypeFailure, db)
           | Some d \<Rightarrow>
               (Inr (), set_user uid (\<lambda>x. x\<lparr>du_expire := Some (naive_timestamp env now div SECOND + d),
                  du_on_hold_expire_duration := None, du_on_hold_timeout := None\<rparr>) db)))"

section \<open>Administrators\<close>

text \<open>The fields of an update: \<open>None\<close> is absent from the payload, \<open>Some None\<close> is an explicit null.\<close>

record admin_modify =
  am_max_users :: "int option option"
  am_expire_at :: "int option option"
  am_alloc_limit :: "int option option"
  am_consume_limit :: "int option option"
  am_max_duration_days :: "int option option"
  am_allowed_templates :: "int list option option"
  am_clamp_expiry :: "bool option option"

definition governed :: "int option option \<Rightarrow> int option \<Rightarrow> int option" where
  "governed given old =
     (case given of None \<Rightarrow> old | Some None \<Rightarrow> None | Some (Some v) \<Rightarrow> if 0 < v then Some v else None)"

definition apply_governance_fields :: "admin_modify \<Rightarrow> db_admin \<Rightarrow> db_admin" where
  "apply_governance_fields m a =
     a\<lparr>da_max_users := governed (am_max_users m) (da_max_users a),
       da_expire_at := (case am_expire_at m of None \<Rightarrow> da_expire_at a | Some v \<Rightarrow> v),
       da_alloc_limit := governed (am_alloc_limit m) (da_alloc_limit a),
       da_consume_limit := governed (am_consume_limit m) (da_consume_limit a),
       da_max_duration_days := governed (am_max_duration_days m) (da_max_duration_days a),
       da_allowed_templates := (case am_allowed_templates m of None \<Rightarrow> da_allowed_templates a
          | Some v \<Rightarrow> (case v of None \<Rightarrow> None | Some ids \<Rightarrow> dump_template_ids ids)),
       da_clamp_expiry := (case am_clamp_expiry m of None \<Rightarrow> da_clamp_expiry a | Some v \<Rightarrow> v)\<rparr>"

definition govern_admin :: "int \<Rightarrow> admin_modify \<Rightarrow> user_db \<Rightarrow> user_db" where
  "govern_admin aid m db = db\<lparr>admins := update_where (\<lambda>a. da_id a = aid) (apply_governance_fields m) (admins db)\<rparr>"

definition remove_admin :: "int \<Rightarrow> user_db \<Rightarrow> user_db" where
  "remove_admin aid db =
     db\<lparr>admins := filter (\<lambda>a. da_id a \<noteq> aid) (admins db),
        users := update_where (owned_by aid) (\<lambda>u. u\<lparr>du_admin := None\<rparr>) (users db),
        admin_logs := update_where (\<lambda>l. al_admin l = Some aid) (\<lambda>l. l\<lparr>al_admin := None\<rparr>) (admin_logs db)\<rparr>"

definition reset_admin_usage :: "int \<Rightarrow> int \<Rightarrow> user_db \<Rightarrow> user_db" where
  "reset_admin_usage now aid db =
     (case one_or_none (\<lambda>a. da_id a = aid) (admins db) of
        None \<Rightarrow> db
      | Some a \<Rightarrow>
          if da_users_usage a = 0 then db
          else db\<lparr>admin_logs := admin_logs db @ [\<lparr>al_admin = Some aid, al_used = da_users_usage a, al_at = now\<rparr>],
                  admins := update_where (\<lambda>a. da_id a = aid) (\<lambda>a. a\<lparr>da_users_usage := 0\<rparr>) (admins db)\<rparr>)"

end
