(* ===== verification/UserJobs.thy ===== *)
theory UserJobs
  imports UserDb
begin

text \<open>
  The scheduled jobs over the users: \<open>app/jobs/review_users.py\<close>, \<open>reset_user_data_usage.py\<close> and \<open>remove_expired_users.py\<close>. What a job
  asks of the Xray core, the reporters and the platform projection is logged as an effect, in order; these calls do not fail
  here. A job reads each row when its turn comes, and an exception ends it with what is committed by then.
\<close>

datatype job_effect =
    XrayRemove int | XrayUpdate int | XrayAdd int | XrayRestart
  | StatusReport int user_status | ResetByNextReport int | DeletedReport int | PlatformSync int
  | UsageNotice int int | DaysNotice int int

type_synonym job_world = "user_db \<times> job_effect list"

definition emit :: "job_effect list \<Rightarrow> job_world \<Rightarrow> job_world" where
  "emit es w = (fst w, snd w @ es)"

definition on_db :: "(user_db \<Rightarrow> user_db) \<Rightarrow> job_world \<Rightarrow> job_world" where
  "on_db f w = (f (fst w), snd w)"

section \<open>Consumption caps\<close>

definition review_admin :: "int \<Rightarrow> db_admin \<Rightarrow> bool \<times> user_db \<Rightarrow> bool \<times> user_db" where
  "review_admin now a st =
     (let (needs_core_sync, db) = st
      in if da_consume_limit a = None \<and> \<not> list_ex (\<lambda>u. owned_by (da_id a) u \<and> du_admin_limit_disabled u) (users db) then st
         else let ((suspended, reactivated), db1) = enforce_admin_consumption now a db
              in (needs_core_sync \<or> suspended \<noteq> [] \<or> reactivated \<noteq> [], db1))"

definition review_admin_consumption :: "int \<Rightarrow> job_world \<Rightarrow> job_world" where
  "review_admin_consumption now w =
     (let (needs_core_sync, db) = fold (review_admin now) (admins (fst w)) (False, fst w)
      in emit (if needs_core_sync then [XrayRestart] else []) (db, snd w))"

section \<open>Notifications\<close>

definition has_reminder :: "int \<Rightarrow> int \<Rightarrow> reminder_type \<Rightarrow> int \<Rightarrow> user_db \<Rightarrow> bool \<times> user_db" where
  "has_reminder now uid ty threshold db =
     (let (found, s) = get_notification_reminder now uid ty threshold (db, db) in (found \<noteq> None, snd s))"

definition notify_usage :: "user_env \<Rightarrow> int \<Rightarrow> db_user \<Rightarrow> job_world \<Rightarrow> job_world" where
  "notify_usage env now u w =
     (case or_none (du_data_limit u) of
        None \<Rightarrow> w
      | Some limit \<Rightarrow>
          (case find (\<lambda>p. \<not> percent_below (du_used_traffic u) limit p) (rev (sort (ue_percents env))) of
             None \<Rightarrow> w
           | Some percent \<Rightarrow>
               let (reminded, db) = has_reminder now (du_id u) DataUsage percent (fst w)
               in if reminded \<or> \<not> ue_notify_usage env then (db, snd w)
                  else (create_notification_reminder DataUsage (map_option (\<lambda>e. e * SECOND) (or_none (du_expire u))) (du_id u) percent db,
                        snd w @ [UsageNotice (du_id u) percent])))"

definition notify_days :: "user_env \<Rightarrow> int \<Rightarrow> db_user \<Rightarrow> job_world \<Rightarrow> job_world" where
  "notify_days env now u w =
     (case or_none (du_expire u) of
        None \<Rightarrow> w
      | Some expire \<Rightarrow>
          (case find (\<lambda>d. expiration_days env now expire \<le> d) (sort (ue_days_left env)) of
             None \<Rightarrow> w
           | Some days_left \<Rightarrow>
               let (reminded, db) = has_reminder now (du_id u) ExpirationDate days_left (fst w)
               in if reminded then (db, snd w)
                  else (if ue_notify_days env then create_notification_reminder ExpirationDate (Some (expire * SECOND)) (du_id u) days_left db else db,
                        snd w @ [DaysNotice (du_id u) days_left])))"

definition add_notification_reminders :: "user_env \<Rightarrow> int \<Rightarrow> db_user \<Rightarrow> job_world \<Rightarrow> job_world" where
  "add_notification_reminders env now u w = notify_days env now u (notify_usage env now u w)"

section \<open>The review\<close>

definition reset_user_by_next_report :: "int \<Rightarrow> int \<Rightarrow> job_world \<Rightarrow> (user_error + unit) \<times> job_world" where
  "reset_user_by_next_report now uid w =
     (let (r, db) = reset_user_by_next now uid (fst w)
      in case r of
           Inl e \<Rightarrow> (Inl e, db, snd w)
         | Inr _ \<Rightarrow> (Inr (), db, snd w @ [XrayUpdate uid, ResetByNextReport uid]))"

definition plan_fires :: "user_env \<Rightarrow> int \<Rightarrow> db_user \<Rightarrow> bool" where
  "plan_fires env now u \<longleftrightarrow>
     (let limited = \<not> within_limit u; expired = \<not> not_expired env now u
      in case du_next_plan u of
           None \<Rightarrow> False
         | Some p \<Rightarrow> (limited \<or> expired) \<and> (np_fire_on_either p \<or> limited \<and> expired))"

definition change_status :: "int \<Rightarrow> int \<Rightarrow> user_status \<Rightarrow> job_world \<Rightarrow> job_world" where
  "change_status now uid st w =
     emit [StatusReport uid st, PlatformSync uid] (on_db (update_user_status now uid st) (emit [XrayRemove uid] w))"

definition review_active :: "user_env \<Rightarrow> int \<Rightarrow> int \<Rightarrow> job_world \<Rightarrow> (user_error + unit) \<times> job_world" where
  "review_active env now uid w =
     (case user_of (fst w) uid of
        None \<Rightarrow> (Inr (), w)
      | Some u \<Rightarrow>
          if plan_fires env now u then reset_user_by_next_report now uid w
          else if \<not> within_limit u then (Inr (), change_status now uid Limited w)
          else if \<not> not_expired env now u then (Inr (), change_status now uid Expired w)
          else (Inr (), if ue_webhook env then add_notification_reminders env now u w else w))"

definition hold_ends :: "int \<Rightarrow> db_user \<Rightarrow> bool" where
  "hold_ends now u \<longleftrightarrow>
     (let base_time = (case du_edit_at u of Some t \<Rightarrow> t | None \<Rightarrow> du_created_at u)
      in (case du_online_at u of Some t \<Rightarrow> base_time \<le> t | None \<Rightarrow> False) \<or>
         (case du_on_hold_timeout u of Some t \<Rightarrow> t \<le> now | None \<Rightarrow> False))"

definition review_on_hold :: "user_env \<Rightarrow> int \<Rightarrow> int \<Rightarrow> job_world \<Rightarrow> (user_error + unit) \<times> job_world" where
  "review_on_hold env now uid w =
     (case user_of (fst w) uid of
        None \<Rightarrow> (Inr (), w)
      | Some u \<Rightarrow>
          if \<not> hold_ends now u then (Inr (), w)
          else let (r, db) = start_user_expire env now uid (update_user_status now uid Active (fst w))
               in case r of
                    Inl e \<Rightarrow> (Inl e, db, snd w)
                  | Inr _ \<Rightarrow> (Inr (), db, snd w @ [StatusReport uid Active, PlatformSync uid]))"

fun each_user :: "(int \<Rightarrow> job_world \<Rightarrow> (user_error + unit) \<times> job_world) \<Rightarrow> int list \<Rightarrow> job_world \<Rightarrow> (user_error + unit) \<times> job_world" where
  "each_user f [] w = (Inr (), w)"
| "each_user f (uid # uids) w =
     (case f uid w of (Inl e, w1) \<Rightarrow> (Inl e, w1) | (Inr _, w1) \<Rightarrow> each_user f uids w1)"

definition users_with :: "user_status \<Rightarrow> user_db \<Rightarrow> int list" where
  "users_with st db = map du_id (filter (\<lambda>u. du_status u = st) (users db))"

definition review :: "user_env \<Rightarrow> int \<Rightarrow> job_world \<Rightarrow> (user_error + unit) \<times> job_world" where
  "review env now w =
     (let w1 = review_admin_consumption now w
      in case each_user (review_active env now) (users_with Active (fst w1)) w1 of
           (Inl e, w2) \<Rightarrow> (Inl e, w2)
         | (Inr _, w2) \<Rightarrow> each_user (review_on_hold env now) (users_with OnHold (fst w2)) w2)"

section \<open>Periodic reset and removal\<close>

definition reset_strategy_to_days :: "reset_strategy \<Rightarrow> int option" where
  "reset_strategy_to_days r =
     (case r of NoReset \<Rightarrow> None | ResetDay \<Rightarrow> Some 1 | ResetWeek \<Rightarrow> Some 7 | ResetMonth \<Rightarrow> Some 30 | ResetYear \<Rightarrow> Some 365)"

definition last_traffic_reset_time :: "user_db \<Rightarrow> db_user \<Rightarrow> int" where
  "last_traffic_reset_time db u =
     (case rev (filter (\<lambda>l. rl_user l = Some (du_id u)) (reset_logs db)) of [] \<Rightarrow> du_created_at u | l # _ \<Rightarrow> rl_at l)"

definition reset_due :: "int \<Rightarrow> user_db \<Rightarrow> db_user \<Rightarrow> bool" where
  "reset_due now db u \<longleftrightarrow>
     (case reset_strategy_to_days (du_reset_strategy u) of
        None \<Rightarrow> False
      | Some days \<Rightarrow> days \<le> (now - last_traffic_reset_time db u) div A_DAY)"

definition reset_one :: "int \<Rightarrow> int \<Rightarrow> job_world \<Rightarrow> job_world" where
  "reset_one now uid w =
     (case user_of (fst w) uid of
        None \<Rightarrow> w
      | Some u \<Rightarrow>
          if \<not> reset_due now (fst w) u then w
          else let db = reset_user_data_usage now uid (fst w)
               in (db, snd w @ (case user_of db uid of Some x \<Rightarrow> if du_status x = Limited then [XrayAdd uid] else [] | None \<Rightarrow> [])))"

definition reset_user_data_usage_job :: "int \<Rightarrow> job_world \<Rightarrow> job_world" where
  "reset_user_data_usage_job now w =
     fold (reset_one now)
       (map du_id (filter (\<lambda>u. du_status u \<in> {Active, Limited} \<and> du_reset_strategy u \<noteq> NoReset) (users (fst w)))) w"

definition remove_expired_users :: "user_env \<Rightarrow> bool \<Rightarrow> int \<Rightarrow> job_world \<Rightarrow> (user_error + unit) \<times> job_world" where
  "remove_expired_users env include_limited now w =
     (let (r, db) = autodelete_expired_users env now include_limited (fst w)
      in case r of Inl e \<Rightarrow> (Inl e, db, snd w) | Inr uids \<Rightarrow> (Inr (), db, snd w @ map DeletedReport uids))"

end
