(* ===== verification/UserProps.thy ===== *)
theory UserProps
  imports UserJobs
begin

text \<open>
  What the user jobs and the governance of administrators guarantee. The review treats every row by itself, which the locale
  \<open>row_job\<close> shows for every loop over users whose step changes one row; the caps hold after every creation and edit; the
  reconciler of the consumption cap undoes its own suspensions exactly. Three flaws are theorems as well.
\<close>

section \<open>Rows by key\<close>

definition ids_ok :: "user_db \<Rightarrow> bool" where
  "ids_ok db \<longleftrightarrow> distinct (map du_id (users db))"

lemma user_of_iff: "ids_ok db \<Longrightarrow> user_of db uid = Some u \<longleftrightarrow> u \<in> set (users db) \<and> du_id u = uid"
  using one_or_none_eqI [of du_id "users db" u "\<lambda>x. du_id x = uid"] one_or_none_Some [of "\<lambda>x. du_id x = uid" "users db" u]
  by (auto simp: ids_ok_def user_of_def)

lemma users_set_user [simp]: "users (set_user uid f db) = update_where (\<lambda>u. du_id u = uid) f (users db)"
  by (simp add: set_user_def)

lemma set_user_others [simp]:
  "admins (set_user uid f db) = admins db" "reset_logs (set_user uid f db) = reset_logs db" "inbounds (set_user uid f db) = inbounds db"
  "reminders (set_user uid f db) = reminders db" "user_templates (set_user uid f db) = user_templates db"
  by (simp_all add: set_user_def)

lemma update_where_cong:
  "(\<And>x. x \<in> set xs \<Longrightarrow> P x = Q x \<and> (P x \<longrightarrow> f x = g x)) \<Longrightarrow> update_where P f xs = update_where Q g xs"
  by (simp add: update_where_def)

lemma update_where_unique:
  assumes "ids_ok db" "user_of db uid = Some u" "f u = g u"
  shows "update_where (\<lambda>x. du_id x = uid) f (users db) = update_where (\<lambda>x. du_id x = uid) g (users db)"
proof (rule update_where_cong)
  fix x assume "x \<in> set (users db)"
  then have "du_id x = uid \<Longrightarrow> x = u" using user_of_iff [OF assms(1)] assms(2) by (metis option.inject)
  then show "(du_id x = uid) = (du_id x = uid) \<and> (du_id x = uid \<longrightarrow> f x = g x)" using assms(3) by blast
qed

lemma user_of_users: "users db' = users db \<Longrightarrow> user_of db' uid = user_of db uid" "users db' = users db \<Longrightarrow> ids_ok db' = ids_ok db"
  by (simp_all add: user_of_def ids_ok_def)

lemma ids_of_status:
  assumes "ids_ok db" "u \<in> set (users db)"
  shows "du_id u \<in> set (users_with st db) \<longleftrightarrow> du_status u = st"
  using assms by (auto simp: users_with_def ids_ok_def distinct_map inj_on_def)

lemma users_with_ok: "ids_ok db \<Longrightarrow> distinct (users_with st db) \<and> set (users_with st db) \<subseteq> du_id ` set (users db)"
  by (auto simp: users_with_def ids_ok_def distinct_map_filter)

lemma loop_by_status:
  assumes "ids_ok db"
  shows "update_where (\<lambda>x. du_id x \<in> set (users_with st db)) g (users db) = map (\<lambda>u. if du_status u = st then g u else u) (users db)"
  using ids_of_status [OF assms, of _ st] by (simp add: update_where_def)

section \<open>Loops over users\<close>

locale row_job =
  fixes f :: "int \<Rightarrow> job_world \<Rightarrow> (user_error + unit) \<times> job_world"
    and g :: "db_user \<Rightarrow> db_user"
    and stuck :: "db_user \<Rightarrow> bool"
  assumes keeps_id: "du_id (g u) = du_id u"
    and one_row: "ids_ok (fst w) \<Longrightarrow> user_of (fst w) uid = Some u \<Longrightarrow>
      fst (f uid w) = (if stuck u then Inl TypeFailure else Inr ()) \<and>
      users (fst (snd (f uid w))) = update_where (\<lambda>x. du_id x = uid) g (users (fst w))"
begin

lemma ids_ok_rows: "users (fst w') = update_where P g (users (fst w)) \<Longrightarrow> ids_ok (fst w') = ids_ok (fst w)"
  by (simp add: ids_ok_def keeps_id)

text \<open>A loop stops at the first stuck row of its list; the rows up to there are changed, each on its own.\<close>

lemma each_user_rows:
  assumes "ids_ok (fst w)" "distinct ids" "set ids \<subseteq> du_id ` set (users (fst w))"
  shows "\<exists>w' seen. users (fst w') = update_where (\<lambda>x. du_id x \<in> set seen) g (users (fst w)) \<and>
    (each_user f ids w = (Inr (), w') \<and> seen = ids \<and> (\<forall>u \<in> set (users (fst w)). du_id u \<in> set ids \<longrightarrow> \<not> stuck u) \<or>
     (\<exists>u pre post. each_user f ids w = (Inl TypeFailure, w') \<and> u \<in> set (users (fst w)) \<and> stuck u \<and>
        ids = pre @ du_id u # post \<and> seen = pre @ [du_id u] \<and> (\<forall>x \<in> set (users (fst w)). du_id x \<in> set pre \<longrightarrow> \<not> stuck x)))"
  using assms
proof (induction ids arbitrary: w)
  case Nil
  then show ?case by (intro exI [of _ w] exI [of _ "[]"]) (simp add: update_where_def)
next
  case (Cons uid ids)
  obtain u where u: "user_of (fst w) uid = Some u" using Cons.prems by (auto simp: user_of_iff)
  then have uin: "u \<in> set (users (fst w))" "du_id u = uid" using user_of_iff [OF Cons.prems(1)] by auto
  obtain w1 where w1: "f uid w = (if stuck u then Inl TypeFailure else Inr (), w1)"
      "users (fst w1) = update_where (\<lambda>x. du_id x = uid) g (users (fst w))"
    using one_row [OF Cons.prems(1) u] by (metis prod.collapse)
  show ?case
  proof (cases "stuck u")
    case True
    show ?thesis
      by (rule exI [of _ w1], rule exI [of _ "[uid]"])
        (use True w1 uin in \<open>auto intro!: exI [of _ u] exI [of _ "[]"] exI [of _ ids]\<close>)
  next
    case False
    have only: "x = u" if "x \<in> set (users (fst w))" "du_id x = uid" for x
      using that user_of_iff [OF Cons.prems(1)] u by (metis option.inject)
    have rows: "x \<in> set (users (fst w1)) \<and> du_id x \<in> set ids \<longleftrightarrow> x \<in> set (users (fst w)) \<and> du_id x \<in> set ids" for x
      using Cons.prems(2) by (auto simp: w1(2) set_update_where keeps_id image_iff)
    have "map du_id (users (fst w1)) = map du_id (users (fst w))" by (simp add: w1(2) keeps_id)
    then have "du_id ` set (users (fst w1)) = du_id ` set (users (fst w))" by (metis list.set_map)
    then have hyps: "set ids \<subseteq> du_id ` set (users (fst w1))" using Cons.prems(3) by simp
    have "ids_ok (fst w1)" "distinct ids" using Cons.prems(1,2) ids_ok_rows [OF w1(2)] by simp_all
    from Cons.IH [OF this hyps] obtain w' seen where ih:
      "users (fst w') = update_where (\<lambda>x. du_id x \<in> set seen) g (users (fst w1))"
      "each_user f ids w1 = (Inr (), w') \<and> seen = ids \<and> (\<forall>u \<in> set (users (fst w1)). du_id u \<in> set ids \<longrightarrow> \<not> stuck u) \<or>
       (\<exists>u pre post. each_user f ids w1 = (Inl TypeFailure, w') \<and> u \<in> set (users (fst w1)) \<and> stuck u \<and>
        ids = pre @ du_id u # post \<and> seen = pre @ [du_id u] \<and> (\<forall>x \<in> set (users (fst w1)). du_id x \<in> set pre \<longrightarrow> \<not> stuck x))"
      by (elim exE conjE) (rule that)
    have seen: "uid \<notin> set seen" using ih(2) Cons.prems(2) by auto
    have users: "users (fst w') = update_where (\<lambda>x. du_id x \<in> set (uid # seen)) g (users (fst w))"
      unfolding ih(1) w1(2) using seen by (auto simp: update_where_def keeps_id)
    show ?thesis
    proof (cases "each_user f ids w1 = (Inr (), w') \<and> seen = ids \<and> (\<forall>u \<in> set (users (fst w1)). du_id u \<in> set ids \<longrightarrow> \<not> stuck u)")
      case True
      then have "each_user f (uid # ids) w = (Inr (), w')" using w1(1) False by simp
      then show ?thesis using users True rows only False
        by (intro exI [of _ w'] exI [of _ "uid # seen"]) auto
    next
      case nostop: False
      then obtain v pre post where v: "each_user f ids w1 = (Inl TypeFailure, w')" "v \<in> set (users (fst w1))" "stuck v"
        "ids = pre @ du_id v # post" "seen = pre @ [du_id v]" "\<forall>x \<in> set (users (fst w1)). du_id x \<in> set pre \<longrightarrow> \<not> stuck x"
        using ih(2) by blast
      have "each_user f (uid # ids) w = (Inl TypeFailure, w')" using w1(1) False v(1) by simp
      moreover have "v \<in> set (users (fst w))" using rows [of v] v(2,4) by auto
      moreover have "\<forall>x \<in> set (users (fst w)). du_id x \<in> set (uid # pre) \<longrightarrow> \<not> stuck x"
        using v(4,6) rows only False by (metis Un_iff set_ConsD set_append)
      ultimately show ?thesis using users v(3,4,5)
        by (intro exI [of _ w'] exI [of _ "uid # seen"]) (auto intro!: exI [of _ v] exI [of _ "uid # pre"])
    qed
  qed
qed

text \<open>A loop over the users of a status.\<close>

lemma status_loop:
  assumes ok: "ids_ok (fst w)"
  obtains w' where "each_user f (users_with st (fst w)) w = (Inr (), w')" "\<forall>u \<in> set (users (fst w)). du_status u = st \<longrightarrow> \<not> stuck u"
      "users (fst w') = map (\<lambda>u. if du_status u = st then g u else u) (users (fst w))"
    | u pre post w' where "each_user f (users_with st (fst w)) w = (Inl TypeFailure, w')" "u \<in> set (users (fst w))" "du_status u = st" "stuck u"
      "users_with st (fst w) = pre @ du_id u # post" "\<forall>x \<in> set (users (fst w)). du_id x \<in> set pre \<longrightarrow> \<not> stuck x"
      "users (fst w') = update_where (\<lambda>x. du_id x \<in> insert (du_id u) (set pre)) g (users (fst w))"
proof -
  have d: "distinct (users_with st (fst w))" "set (users_with st (fst w)) \<subseteq> du_id ` set (users (fst w))"
    using users_with_ok [OF ok, of st] by auto
  obtain w' seen where r: "users (fst w') = update_where (\<lambda>x. du_id x \<in> set seen) g (users (fst w))"
    "each_user f (users_with st (fst w)) w = (Inr (), w') \<and> seen = users_with st (fst w) \<and>
      (\<forall>u \<in> set (users (fst w)). du_id u \<in> set (users_with st (fst w)) \<longrightarrow> \<not> stuck u) \<or>
     (\<exists>u pre post. each_user f (users_with st (fst w)) w = (Inl TypeFailure, w') \<and> u \<in> set (users (fst w)) \<and> stuck u \<and>
      users_with st (fst w) = pre @ du_id u # post \<and> seen = pre @ [du_id u] \<and> (\<forall>x \<in> set (users (fst w)). du_id x \<in> set pre \<longrightarrow> \<not> stuck x))"
    using each_user_rows [OF ok d] by (elim exE conjE) (rule that)
  from r(2) show ?thesis
  proof (elim disjE conjE exE)
    assume s: "each_user f (users_with st (fst w)) w = (Inr (), w')" "seen = users_with st (fst w)"
      "\<forall>u \<in> set (users (fst w)). du_id u \<in> set (users_with st (fst w)) \<longrightarrow> \<not> stuck u"
    have "\<forall>u \<in> set (users (fst w)). du_status u = st \<longrightarrow> \<not> stuck u" using s(3) ids_of_status [OF ok, of _ st] by blast
    moreover have "users (fst w') = map (\<lambda>u. if du_status u = st then g u else u) (users (fst w))"
      using r(1) loop_by_status [OF ok, of st g] s(2) by simp
    ultimately show ?thesis by (rule that(1) [OF s(1)])
  next
    fix u pre post
    assume s: "each_user f (users_with st (fst w)) w = (Inl TypeFailure, w')" "u \<in> set (users (fst w))" "stuck u"
      "users_with st (fst w) = pre @ du_id u # post" "seen = pre @ [du_id u]" "\<forall>x \<in> set (users (fst w)). du_id x \<in> set pre \<longrightarrow> \<not> stuck x"
    have "du_id u \<in> set (users_with st (fst w))" unfolding s(4) by simp
    then have "du_status u = st" using ids_of_status [OF ok s(2), of st] by blast
    moreover have "set seen = insert (du_id u) (set pre)" using s(5) by simp
    ultimately show ?thesis using r(1) by (intro that(2) [OF s(1,2) _ s(3,4,6)]) simp_all
  qed
qed

end

section \<open>The review, row by row\<close>

text \<open>What the review makes of an active row and of a row on hold, and the rows on which it raises.\<close>

definition active_row :: "user_env \<Rightarrow> int \<Rightarrow> db_user \<Rightarrow> db_user" where
  "active_row env now u =
     (if plan_fires env now u then
        (case du_next_plan u of
           None \<Rightarrow> u
         | Some plan \<Rightarrow>
             (case next_limit u plan of
                Inl _ \<Rightarrow> u
              | Inr limit \<Rightarrow> u\<lparr>du_node_usages := [], du_status := Active, du_data_limit := Some limit, du_expire := np_expire plan,
                  du_used_traffic := 0, du_next_plan := None\<rparr>))
      else if \<not> within_limit u then u\<lparr>du_status := Limited, du_last_status_change := Some now\<rparr>
      else if \<not> not_expired env now u then u\<lparr>du_status := Expired, du_last_status_change := Some now\<rparr>
      else u)"

definition active_stuck :: "user_env \<Rightarrow> int \<Rightarrow> db_user \<Rightarrow> bool" where
  "active_stuck env now u \<longleftrightarrow>
     plan_fires env now u \<and> du_data_limit u = None \<and> (case du_next_plan u of None \<Rightarrow> False | Some p \<Rightarrow> \<not> np_add_remaining_traffic p)"

definition hold_row :: "user_env \<Rightarrow> int \<Rightarrow> db_user \<Rightarrow> db_user" where
  "hold_row env now u =
     (if \<not> hold_ends now u then u
      else case du_on_hold_expire_duration u of
        None \<Rightarrow> u\<lparr>du_status := Active, du_last_status_change := Some now\<rparr>
      | Some d \<Rightarrow> u\<lparr>du_status := Active, du_last_status_change := Some now, du_expire := Some (naive_timestamp env now div SECOND + d),
          du_on_hold_expire_duration := None, du_on_hold_timeout := None\<rparr>)"

definition hold_stuck :: "int \<Rightarrow> db_user \<Rightarrow> bool" where
  "hold_stuck now u \<longleftrightarrow> hold_ends now u \<and> du_on_hold_expire_duration u = None"

lemma row_ids: "du_id (active_row env now u) = du_id u" "du_id (hold_row env now u) = du_id u"
  by (auto simp: active_row_def hold_row_def split: option.splits sum.splits)

lemma users_add_log [simp]: "users (add_reset_log now u db) = users db"
  by (simp add: add_reset_log_def)

lemma users_has_reminder: "has_reminder now uid ty th db = (b, db') \<Longrightarrow> users db' = users db"
  by (auto simp: has_reminder_def get_notification_reminder_def delete_notification_reminder_def session_commit_def pending_def Let_def
      split: option.splits if_splits prod.splits)

lemma users_notify: "users (fst (add_notification_reminders env now u w)) = users (fst w)"
proof -
  have a: "users (fst (notify_usage env now u w)) = users (fst w)" for w
    by (auto simp: notify_usage_def create_notification_reminder_def dest: users_has_reminder split: option.splits prod.splits)
  have b: "users (fst (notify_days env now u w)) = users (fst w)" for w
    by (auto simp: notify_days_def create_notification_reminder_def dest: users_has_reminder split: option.splits prod.splits)
  show ?thesis by (simp add: add_notification_reminders_def a b)
qed

lemma reset_by_next_cases:
  assumes "ids_ok (fst w)" "user_of (fst w) uid = Some u" "plan_fires env now u"
  shows "fst (reset_user_by_next_report now uid w) = (if active_stuck env now u then Inl TypeFailure else Inr ()) \<and>
    users (fst (snd (reset_user_by_next_report now uid w))) = update_where (\<lambda>x. du_id x = uid) (active_row env now) (users (fst w))"
proof -
  obtain p where p: "du_next_plan u = Some p" using assms(3) by (cases "du_next_plan u") (auto simp: plan_fires_def Let_def)
  show ?thesis
  proof (cases "next_limit u p")
    case (Inl e)
    then have e: "e = TypeFailure" "active_stuck env now u" "active_row env now u = u"
      using p assms(3) by (auto simp: next_limit_def active_stuck_def active_row_def split: if_splits option.splits)
    have "update_where (\<lambda>x. du_id x = uid) (active_row env now) (users (fst w)) = users (fst w)"
      using update_where_unique [OF assms(1,2), of "active_row env now" "\<lambda>x. x"] e(3) by (simp add: update_where_def)
    then show ?thesis using Inl p e assms(2) by (simp add: reset_user_by_next_report_def reset_user_by_next_def)
  next
    case (Inr limit)
    then have "\<not> active_stuck env now u"
      using p assms(3) by (auto simp: next_limit_def active_stuck_def split: if_splits option.splits)
    moreover have "update_where (\<lambda>x. du_id x = uid) (\<lambda>x. x\<lparr>du_node_usages := [], du_status := Active, du_data_limit := Some limit,
        du_expire := np_expire p, du_used_traffic := 0, du_next_plan := None\<rparr>) (users (fst w)) =
        update_where (\<lambda>x. du_id x = uid) (active_row env now) (users (fst w))"
      by (rule update_where_unique [OF assms(1,2)]) (simp add: active_row_def p Inr assms(3))
    ultimately show ?thesis using Inr p assms(2)
      by (simp add: reset_user_by_next_report_def reset_user_by_next_def)
  qed
qed

interpretation active_job: row_job "review_active env now" "active_row env now" "active_stuck env now" for env now
proof
  fix w :: job_world and uid u
  assume u: "ids_ok (fst w)" "user_of (fst w) uid = Some u"
  show "fst (review_active env now uid w) = (if active_stuck env now u then Inl TypeFailure else Inr ()) \<and>
      users (fst (snd (review_active env now uid w))) = update_where (\<lambda>x. du_id x = uid) (active_row env now) (users (fst w))"
  proof (cases "plan_fires env now u")
    case True
    then show ?thesis using reset_by_next_cases [OF u True] u(2) by (simp add: review_active_def)
  next
    case False
    note same = update_where_unique [OF u, where g = "active_row env now"]
    have id: "update_where (\<lambda>x. du_id x = uid) (\<lambda>x. x) (users (fst w)) = users (fst w)" by (simp add: update_where_def)
    have st: "\<not> active_stuck env now u" using False by (simp add: active_stuck_def)
    consider (limited) "\<not> within_limit u" | (expired) "within_limit u" "\<not> not_expired env now u" | (fine) "within_limit u" "not_expired env now u"
      by blast
    then show ?thesis
    proof cases
      case limited
      then show ?thesis using False u(2) st same [of "\<lambda>x. x\<lparr>du_status := Limited, du_last_status_change := Some now\<rparr>"]
        by (simp add: review_active_def active_row_def change_status_def emit_def on_db_def update_user_status_def)
    next
      case expired
      then show ?thesis using False u(2) st same [of "\<lambda>x. x\<lparr>du_status := Expired, du_last_status_change := Some now\<rparr>"]
        by (simp add: review_active_def active_row_def change_status_def emit_def on_db_def update_user_status_def)
    next
      case fine
      then show ?thesis using False u(2) st same [of "\<lambda>x. x"] id
        by (simp add: review_active_def active_row_def users_notify)
    qed
  qed
qed (rule row_ids)

interpretation hold_job: row_job "review_on_hold env now" "hold_row env now" "hold_stuck now" for env now
proof
  fix w :: job_world and uid u
  assume u: "ids_ok (fst w)" "user_of (fst w) uid = Some u"
  note same = update_where_unique [OF u, where g = "hold_row env now"]
  have twice: "update_where (\<lambda>x. du_id x = uid) a (update_where (\<lambda>x. du_id x = uid) b (users (fst w))) =
      update_where (\<lambda>x. du_id x = uid) (\<lambda>x. a (b x)) (users (fst w))" if "\<And>x. du_id (b x) = du_id x" for a b
    using that by (simp add: update_where_def)
  have upd: "users (update_user_status now uid st db) = update_where (\<lambda>x. du_id x = uid) (\<lambda>u. u\<lparr>du_status := st, du_last_status_change := Some now\<rparr>) (users db)"
    for st db by (simp add: update_user_status_def)
  have next_u: "user_of (update_user_status now uid Active (fst w)) uid = Some (u\<lparr>du_status := Active, du_last_status_change := Some now\<rparr>)"
    using u one_or_none_update [of "\<lambda>x. du_id x = uid" "\<lambda>u. u\<lparr>du_status := Active, du_last_status_change := Some now\<rparr>" "\<lambda>x. du_id x = uid" "users (fst w)"]
    by (auto simp: user_of_def update_user_status_def dest: one_or_none_Some)
  show "fst (review_on_hold env now uid w) = (if hold_stuck now u then Inl TypeFailure else Inr ()) \<and>
      users (fst (snd (review_on_hold env now uid w))) = update_where (\<lambda>x. du_id x = uid) (hold_row env now) (users (fst w))"
  proof (cases "hold_ends now u")
    case False
    have "update_where (\<lambda>x. du_id x = uid) (\<lambda>x. x) (users (fst w)) = users (fst w)" by (simp add: update_where_def)
    then show ?thesis using False u(2) same [of "\<lambda>x. x"] by (simp add: review_on_hold_def hold_stuck_def hold_row_def)
  next
    case True
    show ?thesis
    proof (cases "du_on_hold_expire_duration u")
      case None
      then show ?thesis using True u(2) next_u same [of "\<lambda>u. u\<lparr>du_status := Active, du_last_status_change := Some now\<rparr>"]
        by (simp add: review_on_hold_def start_user_expire_def hold_stuck_def hold_row_def upd)
    next
      case (Some d)
      let ?b = "\<lambda>u. u\<lparr>du_status := Active, du_last_status_change := Some now\<rparr>"
        and ?a = "\<lambda>x. x\<lparr>du_expire := Some (naive_timestamp env now div SECOND + d), du_on_hold_expire_duration := None, du_on_hold_timeout := None\<rparr>"
      have "users (fst (snd (review_on_hold env now uid w))) =
          update_where (\<lambda>x. du_id x = uid) ?a (update_where (\<lambda>x. du_id x = uid) ?b (users (fst w)))"
        "fst (review_on_hold env now uid w) = Inr ()"
        using True u(2) next_u Some by (simp_all add: review_on_hold_def start_user_expire_def upd)
      moreover have "update_where (\<lambda>x. du_id x = uid) ?a (update_where (\<lambda>x. du_id x = uid) ?b (users (fst w))) =
          update_where (\<lambda>x. du_id x = uid) (hold_row env now) (users (fst w))"
        using same [of "\<lambda>x. ?a (?b x)"] True Some by (simp add: twice hold_row_def)
      ultimately show ?thesis using Some by (simp add: hold_stuck_def)
    qed
  qed
qed (rule row_ids)

lemma enforce_on_id [simp]: "du_id (enforce_on over now u) = du_id u" "du_admin (enforce_on over now u) = du_admin u"
  by (simp_all add: enforce_on_def)

lemma enforce_users:
  "users (snd (enforce_admin_consumption now a db)) = update_where (owned_by (da_id a)) (enforce_on (over_consumption db a) now) (users db)"
  "admins (snd (enforce_admin_consumption now a db)) = admins db" "reset_logs (snd (enforce_admin_consumption now a db)) = reset_logs db"
  by (simp_all add: enforce_admin_consumption_def Let_def)

lemma review_admin_keeps:
  "map du_id (users (snd (review_admin now a st))) = map du_id (users (snd st))" "admins (snd (review_admin now a st)) = admins (snd st)"
  using enforce_users [of now a "snd st"]
  by (auto simp: review_admin_def split: prod.splits)

lemma review_admins_keep:
  "map du_id (users (snd (fold (review_admin now) as st))) = map du_id (users (snd st)) \<and> admins (snd (fold (review_admin now) as st)) = admins (snd st)"
  by (induction as arbitrary: st) (simp_all add: review_admin_keeps)

lemma consumption_keeps:
  "ids_ok (fst (review_admin_consumption now w)) = ids_ok (fst w)" "admins (fst (review_admin_consumption now w)) = admins (fst w)"
  using review_admins_keep [of now "admins (fst w)" "(False, fst w)"]
  by (auto simp: review_admin_consumption_def ids_ok_def emit_def split: prod.splits)

definition blocked :: "user_env \<Rightarrow> int \<Rightarrow> db_user \<Rightarrow> bool" where
  "blocked env now u \<longleftrightarrow> du_status u = Active \<and> active_stuck env now u \<or> du_status u = OnHold \<and> hold_stuck now u"

definition reviewed :: "user_env \<Rightarrow> int \<Rightarrow> db_user \<Rightarrow> db_user" where
  "reviewed env now u = (case du_status u of Active \<Rightarrow> active_row env now u | OnHold \<Rightarrow> hold_row env now u | _ \<Rightarrow> u)"

lemma active_row_status: "du_status u = Active \<Longrightarrow> du_status (active_row env now u) \<in> {Active, Limited, Expired}"
  by (auto simp: active_row_def split: option.splits sum.splits)

lemma review_blocked_active:
  assumes ok: "ids_ok (fst w1)" and w1: "w1 = review_admin_consumption now w"
    and u: "u \<in> set (users (fst w1))" "du_status u = Active" "active_stuck env now u"
  shows "fst (review env now w) = Inl TypeFailure"
proof (rule active_job.status_loop [OF ok, of env now Active])
  fix w' assume "\<forall>u \<in> set (users (fst w1)). du_status u = Active \<longrightarrow> \<not> active_stuck env now u"
  then show ?thesis using u by blast
next
  fix x pre post w' assume "each_user (review_active env now) (users_with Active (fst w1)) w1 = (Inl TypeFailure, w')"
  then show ?thesis by (simp add: review_def Let_def w1 [symmetric])
qed

lemma status_after_active:
  "du_status u = Active \<Longrightarrow> du_status (active_row env now u) \<noteq> OnHold"
  using active_row_status [of u env now] by auto

lemma review_unblocked:
  assumes ok: "ids_ok (fst w1)" and w1: "w1 = review_admin_consumption now w"
    and free: "\<forall>u \<in> set (users (fst w1)). \<not> blocked env now u"
  shows "fst (review env now w) = Inr () \<and> users (fst (snd (review env now w))) = map (reviewed env now) (users (fst w1))"
proof (rule active_job.status_loop [OF ok, of env now Active])
  fix x assume "x \<in> set (users (fst w1))" "du_status x = Active" "active_stuck env now x"
  then show ?thesis using free by (auto simp: blocked_def)
next
  fix w2 assume l1: "each_user (review_active env now) (users_with Active (fst w1)) w1 = (Inr (), w2)"
    and r1: "users (fst w2) = map (\<lambda>u. if du_status u = Active then active_row env now u else u) (users (fst w1))"
  have ok2: "ids_ok (fst w2)" using ok by (simp add: ids_ok_def r1 row_ids o_def if_distrib [of du_id] cong: if_cong)
  show ?thesis
  proof (rule hold_job.status_loop [OF ok2, of env now OnHold])
    fix x assume x: "x \<in> set (users (fst w2))" "du_status x = OnHold" "hold_stuck now x"
    then obtain y where y: "y \<in> set (users (fst w1))" "x = (if du_status y = Active then active_row env now y else y)" unfolding r1 by auto
    then have "x = y" using x(2) status_after_active [of y env now] by (auto split: if_splits)
    then show ?thesis using free y(1) x by (auto simp: blocked_def)
  next
    fix w3 assume l2: "each_user (review_on_hold env now) (users_with OnHold (fst w2)) w2 = (Inr (), w3)"
      and r2: "users (fst w3) = map (\<lambda>u. if du_status u = OnHold then hold_row env now u else u) (users (fst w2))"
    have "users (fst w3) = map (reviewed env now) (users (fst w1))"
      unfolding r1 r2 using status_after_active by (auto simp: reviewed_def split: user_status.splits)
    then show ?thesis using l1 l2 by (simp add: review_def Let_def w1 [symmetric])
  qed
qed

lemma review_blocked_hold:
  assumes ok: "ids_ok (fst w1)" and w1: "w1 = review_admin_consumption now w"
    and u: "u \<in> set (users (fst w1))" "du_status u = OnHold" "hold_stuck now u"
  shows "fst (review env now w) = Inl TypeFailure"
proof (rule active_job.status_loop [OF ok, of env now Active])
  fix x pre post w' assume "each_user (review_active env now) (users_with Active (fst w1)) w1 = (Inl TypeFailure, w')"
  then show ?thesis by (simp add: review_def Let_def w1 [symmetric])
next
  fix w2 assume l1: "each_user (review_active env now) (users_with Active (fst w1)) w1 = (Inr (), w2)"
    and r1: "users (fst w2) = map (\<lambda>u. if du_status u = Active then active_row env now u else u) (users (fst w1))"
  have ok2: "ids_ok (fst w2)" using ok by (simp add: ids_ok_def r1 row_ids o_def if_distrib [of du_id] cong: if_cong)
  have u2: "u \<in> set (users (fst w2))" unfolding r1 using u(1,2) by force
  show ?thesis
  proof (rule hold_job.status_loop [OF ok2, of env now OnHold])
    fix w' assume "\<forall>u \<in> set (users (fst w2)). du_status u = OnHold \<longrightarrow> \<not> hold_stuck now u"
    then show ?thesis using u u2 by blast
  next
    fix x pre post w' assume "each_user (review_on_hold env now) (users_with OnHold (fst w2)) w2 = (Inl TypeFailure, w')"
    then show ?thesis using l1 by (simp add: review_def Let_def w1 [symmetric])
  qed
qed

text \<open>
  C10: The review job treats every user by itself. When no row is blocked, it succeeds and the table is the row-wise image of
  the table after the consumption caps: an active user over its limit becomes limited, an expired one expired, a pending
  plan that fires replaces the limits, a hold that ends starts its expiry, and every other row stays. An active user without a
  firing plan stays active exactly when it is within its limit and not expired. When a row is blocked, the job raises.\<close>

theorem review_is_rowwise:
  assumes "ids_ok (fst w)" "w1 = review_admin_consumption now w"
  shows "(if \<exists>u \<in> set (users (fst w1)). blocked env now u then fst (review env now w) = Inl TypeFailure
      else fst (review env now w) = Inr () \<and> users (fst (snd (review env now w))) = map (reviewed env now) (users (fst w1))) \<and>
    (\<forall>u. du_status u = Active \<and> \<not> plan_fires env now u \<longrightarrow>
      (du_status (reviewed env now u) = Active \<longleftrightarrow> within_limit u \<and> not_expired env now u))"
proof -
  have ok: "ids_ok (fst w1)" using assms consumption_keeps(1) by simp
  have "fst (review env now w) = Inl TypeFailure" if "u \<in> set (users (fst w1))" "blocked env now u" for u
    using that review_blocked_active [OF ok assms(2)] review_blocked_hold [OF ok assms(2)] by (auto simp: blocked_def)
  moreover have "du_status (reviewed env now u) = Active \<longleftrightarrow> within_limit u \<and> not_expired env now u"
    if "du_status u = Active" "\<not> plan_fires env now u" for u using that by (simp add: reviewed_def active_row_def)
  ultimately show ?thesis using review_unblocked [OF ok assms(2), of env] by auto
qed

definition ex_user_env :: user_env where
  "ex_user_env = \<lparr>ue_offset = 0, ue_percents = [80], ue_days_left = [3], ue_autodelete_days = -1, ue_by_protocol = [], ue_webhook = False,
     ue_notify_usage = False, ue_notify_days = False\<rparr>"

definition ex_user :: "int \<Rightarrow> user_status \<Rightarrow> int \<Rightarrow> int option \<Rightarrow> int option \<Rightarrow> db_user" where
  "ex_user uid st used limit expire =
     \<lparr>du_id = uid, du_username = int_to_str uid, du_proxies = [], du_status = st, du_used_traffic = used, du_data_limit = limit,
      du_reset_strategy = NoReset, du_expire = expire, du_admin = None, du_sub_revoked_at = None, du_sub_updated_at = None,
      du_sub_agent = None, du_created_at = 0, du_note = None, du_online_at = None, du_on_hold_expire_duration = None,
      du_on_hold_timeout = None, du_auto_delete = None, du_edit_at = None, du_last_status_change = None, du_admin_limit_disabled = False,
      du_template = None, du_ip_limit = None, du_device_limit = None, du_download_mbps = 0, du_upload_mbps = 0, du_next_plan = None,
      du_node_usages = []\<rparr>"

definition ex_user_db :: "db_user list \<Rightarrow> user_db" where
  "ex_user_db us = \<lparr>users = us, admins = [], user_templates = [], reset_logs = [], admin_logs = [], reminders = [], inbounds = []\<rparr>"

lemma consumption_idle:
  assumes "\<forall>a \<in> set (admins (fst w)). da_consume_limit a = None" "\<forall>u \<in> set (users (fst w)). \<not> du_admin_limit_disabled u"
  shows "review_admin_consumption now w = w"
proof -
  have "fold (review_admin now) as (False, fst w) = (False, fst w)" if "\<forall>a \<in> set as. da_consume_limit a = None" for as
    using that assms(2) by (induction as) (auto simp: review_admin_def list_ex_iff)
  then show ?thesis using assms(1) by (simp add: review_admin_consumption_def emit_def)
qed

theorem review_is_rowwise_witness:
  "let w = (ex_user_db [ex_user 1 Active 5 (Some 5) None, ex_user 2 Active 1 (Some 5) (Some 7), ex_user 3 Active 1 (Some 5) None], [])
   in map du_status (users (fst (snd (review ex_user_env 8000000 w)))) = [Limited, Expired, Active]"
proof -
  let ?us = "[ex_user 1 Active 5 (Some 5) None, ex_user 2 Active 1 (Some 5) (Some 7), ex_user 3 Active 1 (Some 5) None]"
  let ?w = "(ex_user_db ?us, [])"
  have c: "review_admin_consumption 8000000 ?w = ?w" by (rule consumption_idle) (simp_all add: ex_user_db_def ex_user_def)
  have ok: "ids_ok (fst ?w)" by (simp add: ids_ok_def ex_user_db_def ex_user_def)
  have us: "users (fst ?w) = ?us" by (simp add: ex_user_db_def)
  have b: "\<not> (\<exists>u \<in> set ?us. blocked ex_user_env 8000000 u)" by (simp add: blocked_def active_stuck_def ex_user_def plan_fires_def)
  from review_is_rowwise [OF ok c [symmetric], of ex_user_env] b
  have "users (fst (snd (review ex_user_env 8000000 ?w))) = map (reviewed ex_user_env 8000000) ?us" unfolding us by simp
  then show ?thesis
    by (simp add: reviewed_def active_row_def plan_fires_def within_limit_def not_expired_def or_none_def naive_timestamp_def SECOND_def
        ex_user_def ex_user_env_def)
qed

section \<open>A row that blocks the review\<close>

lemma stuck_row: "active_stuck env now u \<Longrightarrow> active_row env now u = u"
  by (auto simp: active_stuck_def active_row_def next_limit_def split: option.splits sum.splits)

lemma stuck_later:
  assumes "active_stuck env now u" "now \<le> t"
  shows "active_stuck env t u"
proof -
  have "\<not> not_expired env t u" if "\<not> not_expired env now u" using that assms(2) by (auto simp: not_expired_def naive_timestamp_def split: option.splits)
  then show ?thesis using assms(1)
    by (auto simp: active_stuck_def plan_fires_def within_limit_def or_none_def Let_def split: option.splits)
qed

lemma admins_add_log [simp]: "admins (add_reset_log now u db) = admins db"
  by (simp add: add_reset_log_def)

lemma admins_has_reminder: "has_reminder now uid ty th db = (b, db') \<Longrightarrow> admins db' = admins db"
  by (auto simp: has_reminder_def get_notification_reminder_def delete_notification_reminder_def session_commit_def pending_def Let_def
      split: option.splits if_splits prod.splits)

lemma admins_review_active: "admins (fst (snd (review_active env now uid w))) = admins (fst w)"
proof -
  have a: "admins (fst (notify_usage env now u w)) = admins (fst w)" for u w
    by (auto simp: notify_usage_def create_notification_reminder_def dest: admins_has_reminder split: option.splits prod.splits)
  have b: "admins (fst (notify_days env now u w)) = admins (fst w)" for u w
    by (auto simp: notify_days_def create_notification_reminder_def dest: admins_has_reminder split: option.splits prod.splits)
  have c: "admins (snd (reset_user_by_next now uid (fst w))) = admins (fst w)"
    by (auto simp: reset_user_by_next_def split: option.splits sum.splits)
  show ?thesis using c
    by (auto simp: review_active_def change_status_def emit_def on_db_def update_user_status_def add_notification_reminders_def a b
        reset_user_by_next_report_def split: option.splits prod.splits sum.splits)
qed

lemma admins_each_user: "admins (fst (snd (each_user (review_active env now) ids w))) = admins (fst w)"
proof (induction ids arbitrary: w)
  case (Cons uid ids)
  obtain r w1 where f: "review_active env now uid w = (r, w1)" by (meson surj_pair)
  then show ?case using Cons [of w1] admins_review_active [of env now uid w] by (cases r) simp_all
qed simp

lemma split_at_first:
  assumes "xs @ a # ys = us @ v # vs" "a \<notin> set us"
  shows "insert v (set us) \<subseteq> insert a (set xs)"
proof -
  obtain zs where "xs = us @ zs \<and> zs @ a # ys = v # vs \<or> xs @ zs = us \<and> a # ys = zs @ v # vs"
    using assms(1) by (auto simp: append_eq_append_conv2)
  then show ?thesis using assms(2) by (cases zs) auto
qed

definition capless :: "user_db \<Rightarrow> bool" where
  "capless db \<longleftrightarrow> ids_ok db \<and> (\<forall>a \<in> set (admins db). da_consume_limit a = None) \<and> (\<forall>u \<in> set (users db). \<not> du_admin_limit_disabled u)"

lemma blocked_review_step:
  assumes cap: "capless (fst w)" and us: "users (fst w) = xs @ u # post" and u: "du_status u = Active" "active_stuck env t u"
  shows "fst (review env t w) = Inl TypeFailure \<and> capless (fst (snd (review env t w))) \<and>
    (\<exists>xs. users (fst (snd (review env t w))) = xs @ u # post)"
proof -
  have ok: "ids_ok (fst w)" and w1: "review_admin_consumption t w = w" using cap consumption_idle [of w t] by (auto simp: capless_def)
  have uin: "u \<in> set (users (fst w))" using us by simp
  have ids: "users_with Active (fst w) = map du_id (filter (\<lambda>x. du_status x = Active) xs) @ du_id u #
      map du_id (filter (\<lambda>x. du_status x = Active) post)" by (simp add: users_with_def us u(1))
  show ?thesis
  proof (rule active_job.status_loop [OF ok, of env t Active])
    fix w' assume "\<forall>u \<in> set (users (fst w)). du_status u = Active \<longrightarrow> \<not> active_stuck env t u"
    then show ?thesis using uin u by blast
  next
    fix v pre rest w'
    assume l: "each_user (review_active env t) (users_with Active (fst w)) w = (Inl TypeFailure, w')"
      and v: "v \<in> set (users (fst w))" "users_with Active (fst w) = pre @ du_id v # rest"
        "\<forall>x \<in> set (users (fst w)). du_id x \<in> set pre \<longrightarrow> \<not> active_stuck env t x"
      and r: "users (fst w') = update_where (\<lambda>x. du_id x \<in> insert (du_id v) (set pre)) (active_row env t) (users (fst w))"
    have "du_id u \<notin> set pre" using v(3) uin u(2) by blast
    with ids v(2) have "insert (du_id v) (set pre) \<subseteq> insert (du_id u) (du_id ` set xs)"
      using split_at_first [of "map du_id (filter (\<lambda>x. du_status x = Active) xs)" "du_id u"
        "map du_id (filter (\<lambda>x. du_status x = Active) post)" pre "du_id v" rest] by auto
    moreover have "du_id y \<notin> insert (du_id u) (du_id ` set xs)" if "y \<in> set post" for y
    proof -
      have "du_id y \<in> du_id ` set post" using that by (rule imageI)
      then show ?thesis using ok by (auto simp: ids_ok_def us)
    qed
    ultimately have post: "update_where (\<lambda>x. du_id x \<in> insert (du_id v) (set pre)) (active_row env t) post = post"
      by (intro update_where_id) blast
    have "users (fst w') = update_where (\<lambda>x. du_id x \<in> insert (du_id v) (set pre)) (active_row env t) xs @ u # post"
      using post stuck_row [OF u(2)] unfolding r us by (simp add: update_where_def)
    moreover have "\<forall>x \<in> set (users (fst w')). \<not> du_admin_limit_disabled x"
      using cap by (auto simp: r set_update_where capless_def active_row_def split: option.splits sum.splits)
    moreover have "ids_ok (fst w')" using ok by (simp add: ids_ok_def r row_ids)
    moreover have "admins (fst w') = admins (fst w)" using admins_each_user [of env t "users_with Active (fst w)" w] l by simp
    moreover have "review env t w = (Inl TypeFailure, w')" using l by (simp add: review_def w1)
    ultimately show ?thesis using cap by (auto simp: capless_def)
  qed
qed

definition reviews :: "user_env \<Rightarrow> int list \<Rightarrow> job_world \<Rightarrow> job_world" where
  "reviews env ts w = fold (\<lambda>t w. snd (review env t w)) ts w"

text \<open>
  C12: One user can stop the review for good. Take a database in which no administrator has a consumption cap and no user
  carries the suspension flag, so that the consumption step of the job changes nothing. An active, expired user without a
  data limit whose next plan fires on either condition and does not set the flag of remaining traffic makes the job raise,
  because the plan subtracts from a missing limit. The job then never gets past this row: through any number of later runs
  the user and every user behind it in the table keep their rows as they are, however far over their limits, and every
  later run raises again.\<close>

theorem one_user_blocks_every_review:
  assumes "capless (fst w)" "users (fst w) = pre @ u # post" "du_status u = Active" "active_stuck env now u"
    and "\<forall>t \<in> set ts. now \<le> t" "now \<le> later"
  shows "(\<exists>xs. users (fst (reviews env ts w)) = xs @ u # post) \<and> fst (review env later (reviews env ts w)) = Inl TypeFailure"
  using assms
proof (induction ts arbitrary: w pre)
  case Nil
  then show ?case using blocked_review_step [of w pre u post env later] stuck_later [of env now u later] by (auto simp: reviews_def)
next
  case (Cons t ts)
  have "active_stuck env t u" using stuck_later [OF Cons.prems(4)] Cons.prems(5) by simp
  from blocked_review_step [OF Cons.prems(1,2,3) this] obtain xs where
    "capless (fst (snd (review env t w)))" "users (fst (snd (review env t w))) = xs @ u # post" by blast
  from Cons.IH [OF this Cons.prems(3,4)] Cons.prems(5,6) show ?case by (simp add: reviews_def)
qed

definition ex_stuck :: db_user where
  "ex_stuck = (ex_user 1 Active 0 None (Some 7))\<lparr>du_next_plan := Some \<lparr>np_data_limit = 100, np_expire = None,
     np_add_remaining_traffic = False, np_fire_on_either = True\<rparr>\<rparr>"

theorem one_user_blocks_every_review_witness:
  "fst (review ex_user_env 9000000 (reviews ex_user_env [8000000] (ex_user_db [ex_stuck, ex_user 2 Active 999 (Some 5) None], []))) =
     Inl TypeFailure \<and>
   (\<exists>xs. users (fst (reviews ex_user_env [8000000] (ex_user_db [ex_stuck, ex_user 2 Active 999 (Some 5) None], []))) =
      xs @ [ex_stuck, ex_user 2 Active 999 (Some 5) None])"
proof -
  let ?w = "(ex_user_db [ex_stuck, ex_user 2 Active 999 (Some 5) None], [])"
  have a: "capless (fst ?w)" by (simp add: capless_def ids_ok_def ex_user_db_def ex_stuck_def ex_user_def)
  have b: "users (fst ?w) = [] @ ex_stuck # [ex_user 2 Active 999 (Some 5) None]" by (simp add: ex_user_db_def)
  have c: "du_status ex_stuck = Active" by (simp add: ex_stuck_def ex_user_def)
  have d: "active_stuck ex_user_env 8000000 ex_stuck"
    by (simp add: active_stuck_def plan_fires_def not_expired_def within_limit_def or_none_def naive_timestamp_def SECOND_def ex_stuck_def
        ex_user_def ex_user_env_def)
  show ?thesis using one_user_blocks_every_review [OF a b c d, of "[8000000]" 9000000] by simp
qed

end
