(* ===== verification/UserCapsProps.thy ===== *)
theory UserCapsProps
  imports UserProps
begin

text \<open>
  The governance of administrators: caps on users and allocated traffic hold after every creation and edit, the reconciler of
  the consumption cap restores exactly what it suspended, and what an edit does to the credentials of a user.
\<close>

section \<open>What the steps of an edit keep\<close>

definition user_view :: "db_user \<Rightarrow> int \<times> int option \<times> int option \<times> (proxy_type \<times> proxy_settings) list" where
  "user_view u = (du_id u, du_admin u, du_data_limit u, map (\<lambda>p. (px_type p, px_settings p)) (du_proxies u))"

lemma view_ids: "map user_view (users db') = map user_view (users db) \<Longrightarrow> ids_ok db' = ids_ok db"
proof -
  assume "map user_view (users db') = map user_view (users db)"
  then have "map fst (map user_view (users db')) = map fst (map user_view (users db))" by simp
  then show ?thesis by (simp add: ids_ok_def user_view_def o_def)
qed

lemma view_set_user: "(\<And>x. user_view (f x) = user_view x) \<Longrightarrow> map user_view (users (set_user uid f db)) = map user_view (users db)"
  by simp

lemma view_set_const:
  assumes "ids_ok db" "user_of db uid = Some u" "user_view v = user_view u"
  shows "map user_view (users (set_user uid (\<lambda>_. v) db)) = map user_view (users db)"
proof -
  have "user_view v = user_view x" if "x \<in> set (users db)" "du_id x = uid" for x
    using that assms user_of_iff [OF assms(1)] by (metis option.inject)
  then show ?thesis by (auto simp: update_where_def)
qed

lemma users_get_inbound [simp]: "users (snd (get_or_create_inbound tag s)) = users (snd s)"
  by (simp add: get_or_create_inbound_def session_commit_def pending_def)

lemma users_create_inbounds [simp]: "users (snd (create_inbounds tags s)) = users (snd s)"
  by (induction tags arbitrary: s) simp_all

lemma admins_create_inbounds [simp]: "admins (snd (create_inbounds tags s)) = admins (snd s)"
  by (induction tags arbitrary: s) (simp_all add: get_or_create_inbound_def session_commit_def pending_def)

lemma snd_pending [simp]: "snd (pending f s) = f (snd s)"
  by (simp add: pending_def)

lemma view_excluded:
  "map user_view (users (snd (update_excluded uid ex s))) = map user_view (users (snd s)) \<and> admins (snd (update_excluded uid ex s)) = admins (snd s)"
proof (induction ex arbitrary: s)
  case (Cons te ex)
  obtain t tags where te: "te = (t, tags)" by (cases te)
  have "map (\<lambda>p. (px_type p, px_settings p)) (update_where (\<lambda>p. px_type p = t) (\<lambda>p. p\<lparr>px_excluded := tags\<rparr>) ps) =
      map (\<lambda>p. (px_type p, px_settings p)) ps" for ps by (rule map_update_where) simp
  then have "map user_view (users (set_user uid (\<lambda>x. x\<lparr>du_proxies := update_where (\<lambda>p. px_type p = t) (\<lambda>p. p\<lparr>px_excluded := tags\<rparr>)
      (du_proxies x)\<rparr>) db)) = map user_view (users db)" for db by (intro view_set_user) (simp add: user_view_def)
  with Cons show ?case by (simp add: te del: users_set_user split: option.split)
qed simp

lemma users_delete_reminder [simp]:
  "users (snd (delete_notification_reminder r s)) = users (snd s)" "admins (snd (delete_notification_reminder r s)) = admins (snd s)"
  by (simp_all add: delete_notification_reminder_def session_commit_def)

lemma users_drop_reminders [simp]:
  "users (snd (drop_reminders now uid ty ths s)) = users (snd s)" "admins (snd (drop_reminders now uid ty ths s)) = admins (snd s)"
proof -
  have "users (snd (drop_reminder now uid ty th s)) = users (snd s) \<and> admins (snd (drop_reminder now uid ty th s)) = admins (snd s)" for th s
    by (auto simp: drop_reminder_def get_notification_reminder_def split: option.splits)
  then show "users (snd (drop_reminders now uid ty ths s)) = users (snd s)" "admins (snd (drop_reminders now uid ty ths s)) = admins (snd s)"
    by (induction ths arbitrary: s) simp_all
qed

lemma view_limits: "user_view (update_limits m u) = user_view u" "user_view (update_rest m now u) = user_view u"
  by (simp_all add: update_limits_def update_rest_def user_view_def)

lemma view_expire:
  assumes "ids_ok (snd s)" "update_expire env now uid new s = Inr s'"
  shows "map user_view (users (snd s')) = map user_view (users (snd s))"
proof (cases "new = None \<or> user_of (snd s) uid = None")
  case False
  then obtain v u where u: "new = Some v" "user_of (snd s) uid = Some u" by auto
  then obtain e where e: "enforce_reseller_update_policy now (snd s) u new = Inr e" using assms(2) by (auto simp: update_expire_def split: sum.splits)
  let ?u1 = "u\<lparr>du_expire := or_none e\<rparr>"
  let ?u2 = "?u1\<lparr>du_status := status_for_expire env now ?u1\<rparr>"
  have "users (snd s') = users (set_user uid (\<lambda>_. ?u2) (snd s))"
    using assms(2) u e by (auto simp: update_expire_def Let_def)
  then show ?thesis using view_set_const [OF assms(1) u(2), of ?u2] by (simp add: user_view_def)
qed (use assms in \<open>auto simp: update_expire_def split: option.splits\<close>)

lemma view_data_limit:
  assumes ok: "ids_ok (snd s)" and u: "user_of (snd s) uid = Some u" and new: "new = Some v"
    and res: "update_data_limit env now uid new s = Inr s'"
  shows "check_user_update_limits (snd s) u (or_none new) = Inr ()"
    "map user_view (users (snd s')) = map user_view (users (set_user uid (\<lambda>x. x\<lparr>du_data_limit := or_none new\<rparr>) (snd s)))"
proof -
  show c: "check_user_update_limits (snd s) u (or_none new) = Inr ()"
    using res u new by (cases "check_user_update_limits (snd s) u (or_none new)") (auto simp: update_data_limit_def)
  let ?u1 = "u\<lparr>du_data_limit := or_none new\<rparr>"
  let ?u2 = "?u1\<lparr>du_status := status_for_limit ?u1\<rparr>"
  have s': "users (snd s') = users (set_user uid (\<lambda>_. ?u2) (snd s))"
    using res u new c by (auto simp: update_data_limit_def Let_def)
  have "user_view ?u2 = user_view (x\<lparr>du_data_limit := or_none new\<rparr>)" if "x \<in> set (users (snd s))" "du_id x = uid" for x
  proof -
    have "x = u" using that u user_of_iff [OF ok] by (metis option.inject)
    then show ?thesis by (simp add: user_view_def)
  qed
  then show "map user_view (users (snd s')) = map user_view (users (set_user uid (\<lambda>x. x\<lparr>du_data_limit := or_none new\<rparr>) (snd s)))"
    unfolding s' by (auto simp: update_where_def)
qed

lemma view_proxies: "du_id (update_proxies ps u) = du_id u" "du_admin (update_proxies ps u) = du_admin u" "du_data_limit (update_proxies ps u) = du_data_limit u"
  by (simp_all add: update_proxies_def split: option.splits)

lemma ids_set_user: "(\<And>x. du_id (f x) = du_id x) \<Longrightarrow> ids_ok (set_user uid f db) = ids_ok db"
  by (simp add: ids_ok_def)

lemma user_of_set:
  assumes "\<And>x. du_id (f x) = du_id x"
  shows "user_of (set_user uid f db) uid = map_option f (user_of db uid)"
proof -
  have eq: "user_of (set_user uid f db) uid = map_option (\<lambda>r. if du_id r = uid then f r else r) (user_of db uid)"
    unfolding user_of_def users_set_user by (rule one_or_none_update) (simp add: assms)
  show ?thesis
  proof (cases "user_of db uid")
    case (Some r)
    then have "du_id r = uid" using one_or_none_Some [of "\<lambda>x. du_id x = uid" "users db" r] by (simp add: user_of_def)
    then show ?thesis by (simp only: eq Some option.map simp_thms if_True)
  qed (simp only: eq option.map)
qed

text \<open>The pending database before the data limit is looked at, and the committed one at the end.\<close>

lemma update_session_view:
  assumes ok: "ids_ok (snd s)" and res: "update_session env now uid m s = Inr s'"
  obtains db where "map user_view (users db) = map user_view (users (set_user uid (update_proxies (um_proxies m)) (snd s)))"
      "admins db = admins (snd s)" "ids_ok db"
      "\<forall>u v. um_data_limit m = Some v \<longrightarrow> user_of db uid = Some u \<longrightarrow> check_user_update_limits db u (or_none (Some v)) = Inr () \<and>
         map user_view (users (fst s')) = map user_view (users (set_user uid (\<lambda>x. x\<lparr>du_data_limit := or_none (Some v)\<rparr>) db))"
      "um_data_limit m = None \<longrightarrow> map user_view (users (fst s')) = map user_view (users db)"
proof -
  define s1 where "s1 = pending (set_user uid (update_proxies (um_proxies m))) s"
  define s2 where "s2 = (case um_excluded m of None \<Rightarrow> s1 | Some ex \<Rightarrow> update_excluded uid ex s1)"
  define s3 where "s3 = pending (set_user uid (update_limits m)) s2"
  obtain s4 s5 where s4: "update_data_limit env now uid (um_data_limit m) s3 = Inr s4" and s5: "update_expire env now uid (um_expire m) s4 = Inr s5"
    and fin: "finish_update m now uid s5 = Inr s'"
    using res unfolding update_session_def Let_def s1_def [symmetric] s2_def [symmetric] s3_def [symmetric] by (auto simp: rbind_Inr_iff)
  have v2: "map user_view (users (snd s2)) = map user_view (users (snd s1))" "admins (snd s2) = admins (snd s1)"
    using view_excluded by (auto simp: s2_def split: option.splits)
  have v3: "map user_view (users (snd s3)) = map user_view (users (snd s2))" "admins (snd s3) = admins (snd s2)"
    unfolding s3_def snd_pending by (rule view_set_user, rule view_limits) simp
  have ok1: "ids_ok (snd s1)" using ok by (simp add: s1_def ids_set_user view_proxies)
  have ok3: "ids_ok (snd s3)" using view_ids [OF v3(1)] view_ids [OF v2(1)] ok1 by simp
  have v4: "map user_view (users (snd s4)) = map user_view (users (set_user uid (\<lambda>x. x\<lparr>du_data_limit := or_none (Some v)\<rparr>) (snd s3)))"
      "check_user_update_limits (snd s3) u (or_none (Some v)) = Inr ()"
    if "um_data_limit m = Some v" "user_of (snd s3) uid = Some u" for u v
    using view_data_limit [OF ok3 that(2) refl, where v = v and env = env and now = now and s' = s4] s4 that(1) by simp_all
  have n4: "s4 = s3" if "um_data_limit m = None \<or> user_of (snd s3) uid = None"
    using s4 that by (auto simp: update_data_limit_def split: option.splits)
  have ok4: "ids_ok (snd s4)"
  proof (cases "um_data_limit m = None \<or> user_of (snd s3) uid = None")
    case False
    then obtain v u where "um_data_limit m = Some v" "user_of (snd s3) uid = Some u" by auto
    from view_ids [OF v4(1) [OF this]] show ?thesis using ok3 by (simp add: ids_set_user)
  qed (use n4 ok3 in simp)
  have v5: "map user_view (users (snd s5)) = map user_view (users (snd s4))" by (rule view_expire [OF ok4 s5])
  have "s' = session_commit (pending (set_user uid (update_rest m now)) s5)" using fin by (simp add: finish_update_def split: if_splits)
  then have v': "map user_view (users (fst s')) = map user_view (users (snd s5))"
    using view_set_user [of "update_rest m now"] view_limits(2) by (simp add: session_commit_def del: users_set_user)
  show ?thesis
  proof (rule that [of "snd s3"])
    show "map user_view (users (snd s3)) = map user_view (users (set_user uid (update_proxies (um_proxies m)) (snd s)))"
      "admins (snd s3) = admins (snd s)" using v2 v3 by (simp_all add: s1_def)
    show "um_data_limit m = None \<longrightarrow> map user_view (users (fst s')) = map user_view (users (snd s3))" using v' v5 n4 by simp
  qed (use ok3 v4 v' v5 in auto)
qed

section \<open>Allocation\<close>

lemma filter_row: "ids_ok db \<Longrightarrow> user_of db uid = Some u \<Longrightarrow> filter (\<lambda>x. du_id x = uid) (users db) = [u]"
proof -
  have "distinct (map du_id xs) \<Longrightarrow> u \<in> set xs \<Longrightarrow> filter (\<lambda>x. du_id x = du_id u) xs = [u]" for xs
    by (induction xs) (auto simp: filter_empty_conv, metis imageI)
  then show "ids_ok db \<Longrightarrow> user_of db uid = Some u \<Longrightarrow> filter (\<lambda>x. du_id x = uid) (users db) = [u]"
    using user_of_iff [of db uid u] by (auto simp: ids_ok_def)
qed

definition allocated_to :: "int \<Rightarrow> (int \<times> int option \<times> int option \<times> 'a) list \<Rightarrow> int" where
  "allocated_to aid vs = sum_list (map (\<lambda>(i, a, l, _). if a = Some aid then limit_or_zero l else 0) vs)"

lemma allocated_view: "admin_allocated_traffic db aid = allocated_to aid (map user_view (users db))"
proof -
  have "sum_list (map (\<lambda>u. limit_or_zero (du_data_limit u)) (filter (owned_by aid) us)) = allocated_to aid (map user_view us)" for us
    by (induction us) (simp_all add: allocated_to_def owned_by_def user_view_def)
  then show ?thesis by (simp add: admin_allocated_traffic_def)
qed

lemma owned_sum_split:
  assumes "ids_ok db" "user_of db uid = Some u" "du_admin u = Some aid"
  shows "sum_list (map f (filter (owned_by aid) (users db))) =
    sum_list (map f (filter (\<lambda>x. owned_by aid x \<and> du_id x \<noteq> uid) (users db))) + (f u :: int)"
proof -
  have "sum_list (map f (filter P us)) = sum_list (map f (filter (\<lambda>x. P x \<and> \<not> Q x) us)) + sum_list (map f (filter P (filter Q us)))"
    for P Q us by (induction us) auto
  from this [of "owned_by aid" "users db" "\<lambda>x. du_id x = uid"] show ?thesis
    using filter_row [OF assms(1,2)] assms(3) by (simp add: owned_by_def)
qed

lemma allocated_split:
  assumes "ids_ok db" "user_of db uid = Some u" "du_admin u = Some aid"
  shows "admin_allocated_traffic db aid = sum_list (map (\<lambda>x. limit_or_zero (du_data_limit x))
    (filter (\<lambda>x. owned_by aid x \<and> du_id x \<noteq> uid) (users db))) + limit_or_zero (du_data_limit u)"
  unfolding admin_allocated_traffic_def by (rule owned_sum_split [OF assms])

lemma others_set_user:
  assumes "\<And>x. du_id (f x) = du_id x"
  shows "filter (\<lambda>x. P x \<and> du_id x \<noteq> uid) (users (set_user uid f db)) = filter (\<lambda>x. P x \<and> du_id x \<noteq> uid) (users db)"
proof -
  have "filter (\<lambda>x. P x \<and> du_id x \<noteq> uid) (update_where (\<lambda>y. du_id y = uid) f ys) = filter (\<lambda>x. P x \<and> du_id x \<noteq> uid) ys" for ys
    by (induction ys) (simp_all add: update_where_def assms)
  then show ?thesis by simp
qed

lemma users_view_row:
  assumes "map user_view (users db') = map user_view (users db)" "ids_ok db" "user_of db uid = Some u"
  obtains u' where "user_of db' uid = Some u'" "user_view u' = user_view u"
proof -
  have "u \<in> set (users db)" "du_id u = uid" using user_of_iff [OF assms(2)] assms(3) by auto
  then have "user_view u \<in> set (map user_view (users db'))" by (simp add: assms(1))
  then obtain u' where u': "u' \<in> set (users db')" "user_view u' = user_view u" by auto
  then have "du_id u' = uid" using \<open>du_id u = uid\<close> by (simp add: user_view_def)
  then show ?thesis using that u' user_of_iff [of db' uid u'] view_ids [OF assms(1)] assms(2) by blast
qed

lemma create_user_rows:
  assumes "create_user env now admin user db = (r, db')"
  shows "case r of Inl _ \<Rightarrow> users db' = users db
    | Inr row \<Rightarrow> users db' = users db @ [row] \<and> du_admin row = admin \<and>
        check_user_create_limits db (admin_of db admin) (du_data_limit row) = Inr ()"
proof (cases "create_gate env now admin user db")
  case (Inr u)
  let ?db = "snd (create_inbounds (concat (map (\<lambda>(t, _). create_excluded env u t) (uc_proxies u))) (db, db))"
  have us: "users ?db = users db" by simp
  have c: "check_user_create_limits db (admin_of db admin) (or_none (uc_data_limit u)) = Inr ()"
    using Inr by (auto simp: create_gate_def rbind_Inr_iff)
  have "insert_user env now admin u ?db = (r, db')" using assms Inr by (simp add: create_user_def Let_def)
  then show ?thesis using us c by (auto simp: insert_user_def Let_def new_user_def split: if_splits)
qed (use assms in \<open>auto simp: create_user_def\<close>)

lemma create_within_caps:
  assumes res: "create_user env now (Some aid) user db = (Inr row, db')" and a: "admin_of db (Some aid) = Some a"
  shows "case da_max_users a of None \<Rightarrow> True | Some cap \<Rightarrow> admin_user_count db' aid \<le> cap"
    "case da_alloc_limit a of None \<Rightarrow> True | Some cap \<Rightarrow> admin_allocated_traffic db' aid \<le> cap \<and> \<not> falsy (du_data_limit row)"
proof -
  have id: "da_id a = aid" using a one_or_none_Some [of "\<lambda>r. da_id r = aid" "admins db" a] by (simp add: admin_of_def)
  have r: "users db' = users db @ [row]" "du_admin row = Some aid"
      "check_user_create_limits db (Some a) (du_data_limit row) = Inr ()"
    using create_user_rows [OF res] by (simp_all add: a)
  have count: "admin_user_count db' aid = admin_user_count db aid + 1"
    by (simp add: admin_user_count_def count_where_def r owned_by_def)
  have sum: "admin_allocated_traffic db' aid = admin_allocated_traffic db aid + limit_or_zero (du_data_limit row)"
    by (simp add: admin_allocated_traffic_def r owned_by_def)
  show "case da_max_users a of None \<Rightarrow> True | Some cap \<Rightarrow> admin_user_count db' aid \<le> cap"
    using r(3) id count by (auto simp: check_user_create_limits_def split: option.splits if_splits)
  show "case da_alloc_limit a of None \<Rightarrow> True | Some cap \<Rightarrow> admin_allocated_traffic db' aid \<le> cap \<and> \<not> falsy (du_data_limit row)"
  proof (cases "da_alloc_limit a")
    case (Some cap)
    have nf: "\<not> falsy (du_data_limit row)" "admin_allocated_traffic db aid + the (du_data_limit row) \<le> cap"
      using r(3) id Some by (auto simp: check_user_create_limits_def split: if_splits)
    then have "limit_or_zero (du_data_limit row) = the (du_data_limit row)"
      by (auto simp: limit_or_zero_def falsy_def or_none_def split: option.splits)
    then show ?thesis using nf sum Some by simp
  qed simp
qed

lemma edit_within_caps:
  assumes ok: "ids_ok db" and u: "user_of db uid = Some u" "du_admin u = Some aid" and a: "admin_of db (Some aid) = Some a"
    and m: "um_data_limit m = Some v" and res: "update_user env now uid m db = (Inr (), db')" and cap: "da_alloc_limit a = Some cap"
  shows "admin_allocated_traffic db' aid \<le> cap"
proof -
  obtain s' where s': "update_session env now uid m (db, db) = Inr s'" "db' = fst s'"
    using res by (auto simp: update_user_def close_session_def split: sum.splits prod.splits)
  obtain db3 where d: "map user_view (users db3) = map user_view (users (set_user uid (update_proxies (um_proxies m)) db))"
      "admins db3 = admins db" "ids_ok db3"
      "\<And>x. user_of db3 uid = Some x \<Longrightarrow> check_user_update_limits db3 x (or_none (Some v)) = Inr () \<and>
         map user_view (users (fst s')) = map user_view (users (set_user uid (\<lambda>x. x\<lparr>du_data_limit := or_none (Some v)\<rparr>) db3))"
    by (rule update_session_view [OF _ s'(1)]) (use ok m in auto)
  have "user_of (set_user uid (update_proxies (um_proxies m)) db) uid = Some (update_proxies (um_proxies m) u)"
    using user_of_set [of "update_proxies (um_proxies m)"] view_proxies(1) u(1) by simp
  moreover have "ids_ok (set_user uid (update_proxies (um_proxies m)) db)" using ok by (simp add: ids_set_user view_proxies)
  ultimately obtain x where x: "user_of db3 uid = Some x" "user_view x = user_view (update_proxies (um_proxies m) u)"
    using users_view_row [OF d(1)] by blast
  have xa: "du_admin x = Some aid" using x(2) u(2) by (simp add: user_view_def view_proxies)
  have ids: "da_id a = aid" using a one_or_none_Some [of "\<lambda>r. da_id r = aid" "admins db" a] by (simp add: admin_of_def)
  have xid: "du_id x = uid" using user_of_iff [OF d(3)] x(1) by simp
  have a3: "admin_of db3 (du_admin x) = Some a" using a d(2) xa by (simp add: admin_of_def)
  let ?f = "\<lambda>x. x\<lparr>du_data_limit := or_none (Some v)\<rparr>"
  have nf: "\<not> falsy (or_none (Some v))" and sum: "sum_list (map (\<lambda>y. limit_or_zero (du_data_limit y))
      (filter (\<lambda>y. owned_by aid y \<and> du_id y \<noteq> uid) (users db3))) + v \<le> cap"
    using d(4) [OF x(1)] a3 cap ids xid by (auto simp: check_user_update_limits_def Let_def falsy_def or_none_def split: if_splits)
  have ok': "ids_ok (set_user uid ?f db3)" using d(3) by (simp add: ids_set_user)
  have x': "user_of (set_user uid ?f db3) uid = Some (?f x)" using user_of_set [of ?f] x(1) by simp
  have "filter (\<lambda>y. owned_by aid y \<and> du_id y \<noteq> uid) (users (set_user uid ?f db3)) = filter (\<lambda>y. owned_by aid y \<and> du_id y \<noteq> uid) (users db3)"
    by (rule others_set_user) simp
  moreover have "limit_or_zero (or_none (Some v)) = v" by (simp add: or_none_def limit_or_zero_def)
  ultimately have "admin_allocated_traffic (set_user uid ?f db3) aid \<le> cap"
    using allocated_split [OF ok' x', of aid] sum xa by simp
  then show ?thesis using d(4) [OF x(1)] s'(2) by (simp only: allocated_view)
qed

text \<open>
  C9: The caps of an administrator hold after every creation and every edit of a data limit. A created user leaves the
  number of users within \<open>max_users\<close> and the allocated traffic within \<open>traffic_alloc_limit\<close>, and has a finite limit under an allocation
  cap; a refused creation adds no user. An edit that sets a data limit leaves the allocation within the cap.\<close>

theorem caps_hold_after_writes:
  assumes "ids_ok db" "admin_of db (Some aid) = Some a"
  shows "(create_user env now (Some aid) user db = (r, db1) \<longrightarrow>
      (case r of
         Inl _ \<Rightarrow> users db1 = users db
       | Inr row \<Rightarrow> (\<forall>cap. da_max_users a = Some cap \<longrightarrow> admin_user_count db1 aid \<le> cap) \<and>
           (\<forall>cap. da_alloc_limit a = Some cap \<longrightarrow> admin_allocated_traffic db1 aid \<le> cap \<and> \<not> falsy (du_data_limit row)))) \<and>
    (user_of db uid = Some u \<and> du_admin u = Some aid \<and> um_data_limit m = Some v \<and> update_user env now uid m db = (Inr (), db2) \<and>
       da_alloc_limit a = Some cap \<longrightarrow> admin_allocated_traffic db2 aid \<le> cap)"
proof (intro conjI impI)
  assume c: "create_user env now (Some aid) user db = (r, db1)"
  show "case r of Inl _ \<Rightarrow> users db1 = users db
       | Inr row \<Rightarrow> (\<forall>cap. da_max_users a = Some cap \<longrightarrow> admin_user_count db1 aid \<le> cap) \<and>
           (\<forall>cap. da_alloc_limit a = Some cap \<longrightarrow> admin_allocated_traffic db1 aid \<le> cap \<and> \<not> falsy (du_data_limit row))"
  proof (cases r)
    case (Inr row)
    then show ?thesis using create_within_caps [OF _ assms(2), of env now user row db1] c by auto
  qed (use create_user_rows [OF c] in simp)
next
  assume "user_of db uid = Some u \<and> du_admin u = Some aid \<and> um_data_limit m = Some v \<and> update_user env now uid m db = (Inr (), db2) \<and>
      da_alloc_limit a = Some cap"
  then show "admin_allocated_traffic db2 aid \<le> cap" using edit_within_caps [OF assms(1) _ _ assms(2)] by blast
qed

definition ex_db_admin :: db_admin where
  "ex_db_admin = \<lparr>da_id = 1, da_username = ''reseller'', da_is_sudo = False, da_users_usage = 0, da_max_users = Some 2, da_expire_at = None,
     da_alloc_limit = Some 10, da_consume_limit = Some 100, da_allowed_templates = None, da_max_duration_days = None, da_clamp_expiry = None\<rparr>"

definition ex_create :: user_create where
  "ex_create = \<lparr>uc_username = ''carol'', uc_status = None, uc_proxies = [], uc_inbounds = [], uc_data_limit = Some 4, uc_expire = None,
     uc_reset_strategy = NoReset, uc_ip_limit = None, uc_device_limit = None, uc_download_mbps = 0, uc_upload_mbps = 0, uc_note = None,
     uc_on_hold_expire_duration = None, uc_on_hold_timeout = None, uc_auto_delete = None, uc_next_plan = None, uc_template = None,
     uc_core_access = None\<rparr>"

definition ex_capped_db :: user_db where
  "ex_capped_db = (ex_user_db [(ex_user 1 Active 3 (Some 6) None)\<lparr>du_admin := Some 1\<rparr>])\<lparr>admins := [ex_db_admin]\<rparr>"

theorem caps_hold_after_writes_witness:
  "\<exists>row db1. create_user ex_user_env 0 (Some 1) ex_create ex_capped_db = (Inr row, db1) \<and> admin_user_count db1 1 \<le> 2 \<and>
     admin_allocated_traffic db1 1 \<le> 10"
proof -
  have a: "admin_of ex_capped_db (Some 1) = Some ex_db_admin"
    by (simp add: admin_of_def ex_capped_db_def ex_db_admin_def one_or_none_def)
  have ok: "ids_ok ex_capped_db" by (simp add: ids_ok_def ex_capped_db_def ex_user_db_def)
  have g: "create_gate ex_user_env 0 (Some 1) ex_create ex_capped_db = Inr ex_create" unfolding create_gate_def a
    by (simp add: enforce_reseller_user_policy_def check_duration_def clamp_expiry_def load_template_ids_def check_user_create_limits_def
        admin_user_count_def admin_allocated_traffic_def count_where_def owned_by_def limit_or_zero_def falsy_def or_none_def
        rbind_def ex_db_admin_def ex_create_def ex_capped_db_def ex_user_db_def ex_user_def)
  have "\<exists>row db1. create_user ex_user_env 0 (Some 1) ex_create ex_capped_db = (Inr row, db1)"
    by (simp add: create_user_def g insert_user_def) (simp add: ex_create_def ex_capped_db_def ex_user_db_def ex_user_def int_to_str_def nat_to_str.simps py_lower_def Let_def)
  then obtain row db1 where c: "create_user ex_user_env 0 (Some 1) ex_create ex_capped_db = (Inr row, db1)" by blast
  show ?thesis
    using caps_hold_after_writes [OF ok a, THEN conjunct1, of ex_user_env 0 ex_create "Inr row" db1] c
    by (auto simp: ex_db_admin_def)
qed

section \<open>Revocation\<close>

lemma keeps_secret:
  assumes "truthy (vget old key)" "key = ''id'' \<or> key = ''password''"
  shows "vget (keep_credentials old new) key = vget old key"
  using assms by (auto simp: keep_credentials_def keep_setting_def vget_def)

lemma put_proxies:
  assumes "distinct (map px_type (before @ rows))"
  shows "fold put_proxy (map (\<lambda>p. (px_type p, h p)) rows)
      (map (\<lambda>p. p\<lparr>px_settings := keep_credentials (px_settings p) (h p)\<rparr>) before @ rows) =
    map (\<lambda>p. p\<lparr>px_settings := keep_credentials (px_settings p) (h p)\<rparr>) (before @ rows)"
  using assms
proof (induction rows arbitrary: before)
  case (Cons p rows)
  let ?k = "\<lambda>p. p\<lparr>px_settings := keep_credentials (px_settings p) (h p)\<rparr>"
  have "px_type p \<notin> px_type ` set before" "px_type p \<notin> px_type ` set rows" using Cons.prems by auto
  then have "px_type x \<noteq> px_type p" if "x \<in> set before \<or> x \<in> set rows" for x using that by (metis imageI)
  then have "put_proxy (px_type p, h p) (map ?k before @ p # rows) = map ?k (before @ [p]) @ rows"
    by (auto simp: put_proxy_def update_where_def intro!: map_idI)
  then show ?case using Cons.IH [of "before @ [p]"] Cons.prems by simp
qed simp

lemma revoked_proxies:
  assumes "distinct (map px_type (du_proxies u))"
  shows "du_proxies (update_proxies (um_proxies (revoke_modify fresh u)) (u\<lparr>du_sub_revoked_at := t\<rparr>)) =
    map (\<lambda>p. p\<lparr>px_settings := keep_credentials (px_settings p) (revoked_settings (fresh (px_type p)) (px_type p) (px_settings p))\<rparr>) (du_proxies u)"
  using put_proxies [of "[]" "du_proxies u" "\<lambda>p. revoked_settings (fresh (px_type p)) (px_type p) (px_settings p)"] assms
  by (auto simp: update_proxies_def revoke_modify_def o_def filter_id_conv)

lemma list_all2_map_eq: "map f xs = map g ys \<Longrightarrow> list_all2 (\<lambda>y x. f x = g y) ys xs"
  by (induction xs arbitrary: ys) (auto simp: Cons_eq_map_conv)

lemma revoked_settings_kept:
  assumes "map user_view (users db') = map user_view (users db)" "ids_ok db" "user_of db uid = Some x"
  shows "\<exists>x'. user_of db' uid = Some x' \<and> map (\<lambda>p. (px_type p, px_settings p)) (du_proxies x') = map (\<lambda>p. (px_type p, px_settings p)) (du_proxies x)"
proof -
  obtain x' where "user_of db' uid = Some x'" "user_view x' = user_view x" using users_view_row [OF assms] .
  then show ?thesis by (auto simp: user_view_def)
qed

text \<open>
  C13: Revoking a subscription does not revoke the proxies. \<open>revoke_user_sub\<close> draws fresh identifiers and passwords for all
  protocols of the user, but hands them to \<open>update_user\<close>, which keeps the stored ones: after a successful revocation every
  protocol has the identifier and the password it had before, whatever was drawn.\<close>

theorem revocation_keeps_credentials:
  assumes ok: "ids_ok db" and u: "user_of db uid = Some u" "distinct (map px_type (du_proxies u))"
    and res: "revoke_user_sub env now fresh uid db = (Inr (), db')"
  shows "\<exists>u'. user_of db' uid = Some u' \<and> list_all2 (\<lambda>p p'. px_type p' = px_type p \<and>
      (\<forall>key \<in> {''id'', ''password''}. truthy (vget (px_settings p) key) \<longrightarrow> vget (px_settings p') key = vget (px_settings p) key))
      (du_proxies u) (du_proxies u')"
proof -
  let ?rev = "\<lambda>x. x\<lparr>du_sub_revoked_at := Some now\<rparr>" and ?m = "revoke_modify fresh u"
  let ?s = "pending (set_user uid ?rev) (db, db)" and ?px = "\<lambda>x. map (\<lambda>p. (px_type p, px_settings p)) (du_proxies x)"
  obtain s' where s': "update_session env now uid ?m ?s = Inr s'" "db' = fst s'"
    using res u(1) by (auto simp: revoke_user_sub_def close_session_def split: sum.splits prod.splits)
  have oks: "ids_ok (snd ?s)" using ok by (simp add: ids_set_user)
  obtain db3 where d: "map user_view (users db3) = map user_view (users (set_user uid (update_proxies (um_proxies ?m)) (snd ?s)))"
      "admins db3 = admins (snd ?s)" "ids_ok db3"
      "\<forall>x v. um_data_limit ?m = Some v \<longrightarrow> user_of db3 uid = Some x \<longrightarrow> check_user_update_limits db3 x (or_none (Some v)) = Inr () \<and>
         map user_view (users (fst s')) = map user_view (users (set_user uid (\<lambda>x. x\<lparr>du_data_limit := or_none (Some v)\<rparr>) db3))"
      "um_data_limit ?m = None \<longrightarrow> map user_view (users (fst s')) = map user_view (users db3)"
    by (rule update_session_view [OF oks s'(1)]) (rule that)
  let ?x = "update_proxies (um_proxies ?m) (?rev u)"
  have "user_of (set_user uid (update_proxies (um_proxies ?m)) (snd ?s)) uid = Some ?x"
    using user_of_set [of "update_proxies (um_proxies ?m)" uid "snd ?s"] user_of_set [of ?rev uid db] u(1) by (simp add: view_proxies)
  moreover have "ids_ok (set_user uid (update_proxies (um_proxies ?m)) (snd ?s))" using oks by (simp add: ids_set_user view_proxies)
  ultimately obtain y where y: "user_of db3 uid = Some y" "?px y = ?px ?x" using revoked_settings_kept [OF d(1)] by blast
  obtain u' where u': "user_of db' uid = Some u'" "?px u' = ?px y"
  proof (cases "um_data_limit ?m")
    case None
    then show ?thesis using that revoked_settings_kept [OF d(5) [rule_format] d(3) y(1)] s'(2) by auto
  next
    case (Some v)
    let ?f = "\<lambda>x. x\<lparr>du_data_limit := or_none (Some v)\<rparr>"
    have y': "user_of (set_user uid ?f db3) uid = Some (?f y)" using user_of_set [of ?f uid db3] y(1) by simp
    have ok': "ids_ok (set_user uid ?f db3)" using d(3) by (simp add: ids_set_user)
    show ?thesis using that revoked_settings_kept [OF d(4) [rule_format, OF Some y(1), THEN conjunct2] ok' y'] s'(2) by auto
  qed
  let ?k = "\<lambda>p. (px_type p, keep_credentials (px_settings p) (revoked_settings (fresh (px_type p)) (px_type p) (px_settings p)))"
  have "?px u' = map ?k (du_proxies u)" using u'(2) y(2) revoked_proxies [OF u(2), of fresh "Some now"] by (simp add: o_def)
  then have "list_all2 (\<lambda>p p'. (px_type p', px_settings p') = ?k p) (du_proxies u) (du_proxies u')" by (rule list_all2_map_eq)
  then have "list_all2 (\<lambda>p p'. px_type p' = px_type p \<and>
      (\<forall>key \<in> {''id'', ''password''}. truthy (vget (px_settings p) key) \<longrightarrow> vget (px_settings p') key = vget (px_settings p) key))
      (du_proxies u) (du_proxies u')"
    by (rule list_all2_mono) (use keeps_secret in auto)
  then show ?thesis using u'(1) by blast
qed

definition ex_proxy_db :: user_db where
  "ex_proxy_db = ex_user_db [(ex_user 1 Active 0 None None)\<lparr>du_proxies := [\<lparr>px_type = VMess, px_settings = [(''id'', VStr ''old'')], px_excluded = []\<rparr>]\<rparr>]"

theorem revocation_keeps_credentials_witness:
  "\<exists>u' p. user_of (snd (revoke_user_sub ex_user_env 5 (\<lambda>_. VStr ''new'') 1 ex_proxy_db)) 1 = Some u' \<and> du_proxies u' = [p] \<and>
     vget (px_settings p) ''id'' = VStr ''old''"
proof -
  let ?u = "(ex_user 1 Active 0 None None)\<lparr>du_proxies := [\<lparr>px_type = VMess, px_settings = [(''id'', VStr ''old'')], px_excluded = []\<rparr>]\<rparr>"
  have ok: "ids_ok ex_proxy_db" by (simp add: ids_ok_def ex_proxy_db_def ex_user_db_def)
  have u: "user_of ex_proxy_db 1 = Some ?u" by (simp add: user_of_def one_or_none_def ex_proxy_db_def ex_user_db_def ex_user_def)
  have d: "distinct (map px_type (du_proxies ?u))" by simp
  have "fst (revoke_user_sub ex_user_env 5 (\<lambda>_. VStr ''new'') 1 ex_proxy_db) = Inr ()"
    by (simp add: revoke_user_sub_def u update_session_def revoke_modify_def ex_user_def update_data_limit_def update_expire_def
        finish_update_def close_session_def rbind_def Let_def)
  then have r: "revoke_user_sub ex_user_env 5 (\<lambda>_. VStr ''new'') 1 ex_proxy_db =
      (Inr (), snd (revoke_user_sub ex_user_env 5 (\<lambda>_. VStr ''new'') 1 ex_proxy_db))" by (metis prod.collapse)
  from revocation_keeps_credentials [OF ok u d r] show ?thesis by (auto simp: list_all2_Cons1 vget_def)
qed

section \<open>The consumption cap\<close>

definition undated :: "db_user \<Rightarrow> db_user" where
  "undated u = u\<lparr>du_last_status_change := None\<rparr>"

text \<open>
  C11: The reconciler of the consumption cap suspends and restores. When the lifetime usage of an administrator's users has
  reached the cap, one pass disables and flags exactly the active users that carry no suspension flag and changes no other
  row; an active user that still carries the flag stays active. A second pass over the cap changes nothing. Once the cap is
  lifted, a pass makes every flagged user active and unflagged, so every user without a flag before the suspension has the
  row it had then, up to the time of the last status change: manually disabled, limited and expired users are not
  revived.\<close>

theorem consumption_cap_restores_exactly:
  assumes "over_consumption db a" and "db1 = snd (enforce_admin_consumption now a db)"
    and "da_id a' = da_id a" "\<not> over_consumption db1 a'"
  shows "users db1 = map (\<lambda>u. if owned_by (da_id a) u \<and> du_status u = Active \<and> \<not> du_admin_limit_disabled u
      then u\<lparr>du_status := Disabled, du_admin_limit_disabled := True, du_last_status_change := Some now\<rparr> else u) (users db) \<and>
    users (snd (enforce_admin_consumption now' a db1)) = users db1 \<and>
    map undated (users (snd (enforce_admin_consumption now'' a' db1))) =
      map (\<lambda>u. undated (if owned_by (da_id a) u \<and> du_admin_limit_disabled u
        then u\<lparr>du_status := Active, du_admin_limit_disabled := False\<rparr> else u)) (users db)"
proof -
  let ?own = "owned_by (da_id a)"
  have own: "?own (enforce_on over t u) = ?own u" for over t u by (simp add: owned_by_def)
  have ut: "du_used_traffic (enforce_on over t u) = du_used_traffic u" for over t u by (simp add: enforce_on_def)
  have u1: "users db1 = map (\<lambda>u. if ?own u then enforce_on True now u else u) (users db)"
    using assms(1,2) by (simp add: enforce_users update_where_def)
  have log: "reset_logs db1 = reset_logs db" using assms(2) by (simp add: enforce_users)
  have over: "over_consumption db1 a"
  proof -
    have live: "sum_list (map du_used_traffic (filter ?own (users db1))) = sum_list (map du_used_traffic (filter ?own (users db)))"
    proof -
      have "sum_list (map du_used_traffic (filter ?own (map (\<lambda>u. if ?own u then enforce_on True now u else u) us))) =
          sum_list (map du_used_traffic (filter ?own us))" for us
        by (induction us) (auto simp: own ut)
      then show ?thesis by (simp add: u1)
    qed
    have ex: "(\<exists>u \<in> set (users db1). rl_user l = Some (du_id u) \<and> ?own u) \<longleftrightarrow> (\<exists>u \<in> set (users db). rl_user l = Some (du_id u) \<and> ?own u)" for l
    proof -
      have m: "map (\<lambda>u. (du_id u, ?own u)) (users db1) = map (\<lambda>u. (du_id u, ?own u)) (users db)" by (simp add: u1 own)
      have "(\<exists>u \<in> set us. rl_user l = Some (du_id u) \<and> ?own u) \<longleftrightarrow>
          (\<exists>p \<in> set (map (\<lambda>u. (du_id u, ?own u)) us). rl_user l = Some (fst p) \<and> snd p)" for us by auto
      then show ?thesis by (simp only: m)
    qed
    have "admin_lifetime_usage db1 (da_id a) = admin_lifetime_usage db (da_id a)" by (simp only: admin_lifetime_usage_def log live ex)
    then show ?thesis using assms(1) by (auto simp: over_consumption_def split: option.splits)
  qed
  have rows: "users db1 = map (\<lambda>u. if ?own u \<and> du_status u = Active \<and> \<not> du_admin_limit_disabled u
      then u\<lparr>du_status := Disabled, du_admin_limit_disabled := True, du_last_status_change := Some now\<rparr> else u) (users db)"
    unfolding u1 by (rule map_cong [OF refl]) (simp add: enforce_on_def)
  have again: "users (snd (enforce_admin_consumption now' a db1)) = users db1"
    using over by (auto simp: enforce_users update_where_def rows enforce_on_def)
  have "undated (if ?own (if ?own u then enforce_on True now u else u) then enforce_on False now'' (if ?own u then enforce_on True now u else u)
      else (if ?own u then enforce_on True now u else u)) =
      undated (if ?own u \<and> du_admin_limit_disabled u then u\<lparr>du_status := Active, du_admin_limit_disabled := False\<rparr> else u)" for u
    by (auto simp: own) (auto simp: enforce_on_def undated_def)
  then have "map undated (users (snd (enforce_admin_consumption now'' a' db1))) =
      map (\<lambda>u. undated (if ?own u \<and> du_admin_limit_disabled u then u\<lparr>du_status := Active, du_admin_limit_disabled := False\<rparr> else u)) (users db)"
    using assms(3,4) by (simp add: enforce_users update_where_def u1 o_def)
  then show ?thesis using rows again by blast
qed

definition ex_capped_admin :: "int option \<Rightarrow> db_admin" where
  "ex_capped_admin limit = ex_db_admin\<lparr>da_consume_limit := limit\<rparr>"

definition ex_owned :: "int \<Rightarrow> user_status \<Rightarrow> db_user" where
  "ex_owned uid st = (ex_user uid st 60 None None)\<lparr>du_admin := Some 1\<rparr>"

text \<open>Of a suspended, an active and a manually disabled user only the first two are active after the cap is lifted.\<close>

theorem consumption_cap_restores_exactly_witness:
  "let db = ex_user_db [(ex_owned 3 Disabled)\<lparr>du_admin_limit_disabled := True\<rparr>, ex_owned 1 Active, ex_owned 2 Disabled];
       db1 = snd (enforce_admin_consumption 5 (ex_capped_admin (Some 100)) db)
   in map du_status (users db1) = [Disabled, Disabled, Disabled] \<and>
      map du_status (map undated (users (snd (enforce_admin_consumption 7 (ex_capped_admin None) db1)))) = [Active, Active, Disabled]"
proof -
  let ?us = "[(ex_owned 3 Disabled)\<lparr>du_admin_limit_disabled := True\<rparr>, ex_owned 1 Active, ex_owned 2 Disabled]"
  define db where "db = ex_user_db ?us"
  define db1 where "db1 = snd (enforce_admin_consumption 5 (ex_capped_admin (Some 100)) db)"
  have us: "users db = ?us" by (simp add: db_def ex_user_db_def)
  have i: "da_id (ex_capped_admin l) = 1" "da_consume_limit (ex_capped_admin l) = l" for l by (simp_all add: ex_capped_admin_def ex_db_admin_def)
  have o: "over_consumption db (ex_capped_admin (Some 100))"
    by (simp add: over_consumption_def admin_lifetime_usage_def owned_by_def i db_def ex_user_db_def ex_owned_def ex_user_def)
  have n: "\<not> over_consumption db1 (ex_capped_admin None)"
    by (simp add: over_consumption_def ex_capped_admin_def)
  have id: "da_id (ex_capped_admin None) = da_id (ex_capped_admin (Some 100))" by (simp add: i)
  note c = consumption_cap_restores_exactly [OF o db1_def id n, of 6 7]
  have "map du_status (users db1) = [Disabled, Disabled, Disabled]"
    unfolding c [THEN conjunct1] us by (simp add: i owned_by_def ex_owned_def ex_user_def)
  moreover have "map du_status (map undated (users (snd (enforce_admin_consumption 7 (ex_capped_admin None) db1)))) = [Active, Active, Disabled]"
    unfolding c [THEN conjunct2, THEN conjunct2] us by (simp add: i owned_by_def ex_owned_def ex_user_def undated_def)
  ultimately show ?thesis unfolding Let_def db_def [symmetric] db1_def [symmetric] by (rule conjI)
qed

section \<open>Ways around the caps\<close>

lemma reset_row_id [simp]: "du_id (reset_row u) = du_id u" "du_admin (reset_row u) = du_admin u" "du_used_traffic (reset_row u) = 0"
  by (simp_all add: reset_row_def)

lemma reset_keeps_lifetime:
  assumes ok: "ids_ok db" and u: "user_of db uid = Some u" "du_admin u = Some aid"
  shows "admin_lifetime_usage (reset_user_data_usage now uid db) aid = admin_lifetime_usage db aid"
proof -
  let ?db = "add_reset_log now u db"
  let ?db1 = "set_user uid reset_row ?db"
  have r: "reset_user_data_usage now uid db = ?db1" using u(1) by (simp add: reset_user_data_usage_def)
  have ok': "ids_ok ?db" "ids_ok ?db1" using ok by (simp_all add: ids_ok_def)
  have u': "user_of ?db uid = Some u" using u(1) by (simp add: user_of_def)
  then have u1: "user_of ?db1 uid = Some (reset_row u)" using user_of_set [of reset_row uid ?db] by simp
  have live: "sum_list (map du_used_traffic (filter (owned_by aid) (users ?db1))) + du_used_traffic u =
      sum_list (map du_used_traffic (filter (owned_by aid) (users db)))"
    using owned_sum_split [OF ok'(2) u1, of aid du_used_traffic] owned_sum_split [OF ok'(1) u', of aid du_used_traffic] u(2)
      others_set_user [of reset_row "owned_by aid" uid ?db] by simp
  have ex: "(\<exists>x \<in> set (users ?db1). rl_user l = Some (du_id x) \<and> owned_by aid x) \<longleftrightarrow>
      (\<exists>x \<in> set (users db). rl_user l = Some (du_id x) \<and> owned_by aid x)" for l
  proof -
    have m: "map (\<lambda>x. (du_id x, owned_by aid x)) (users ?db1) = map (\<lambda>x. (du_id x, owned_by aid x)) (users db)"
      by (simp add: owned_by_def)
    have "(\<exists>x \<in> set us. rl_user l = Some (du_id x) \<and> owned_by aid x) \<longleftrightarrow>
        (\<exists>p \<in> set (map (\<lambda>x. (du_id x, owned_by aid x)) us). rl_user l = Some (fst p) \<and> snd p)" for us by auto
    then show ?thesis by (simp only: m)
  qed
  have uin: "u \<in> set (users db)" "du_id u = uid" using user_of_iff [OF ok] u(1) by auto
  then have "\<exists>x \<in> set (users db). uid = du_id x \<and> owned_by aid x" using u(2) by (auto simp: owned_by_def)
  then have past: "sum_list (map rl_used (filter (\<lambda>l. \<exists>x \<in> set (users ?db1). rl_user l = Some (du_id x) \<and> owned_by aid x) (reset_logs ?db1))) =
      sum_list (map rl_used (filter (\<lambda>l. \<exists>x \<in> set (users db). rl_user l = Some (du_id x) \<and> owned_by aid x) (reset_logs db))) + du_used_traffic u"
    unfolding ex by (simp add: add_reset_log_def uin(2))
  show ?thesis unfolding r admin_lifetime_usage_def using live past by linarith
qed

text \<open>
  A usage reset lifts a suspension under the consumption cap for good: it makes the user active but leaves the flag, and the
  reconciler never suspends a flagged user again although the lifetime usage is still over the cap.\<close>

lemma reset_escapes_the_cap:
  assumes ok: "ids_ok db" and u: "user_of db uid = Some u" "du_admin u = Some (da_id a)" "du_status u = Disabled" "du_admin_limit_disabled u"
    and over: "over_consumption db a" and db1: "db1 = reset_user_data_usage now uid db"
  shows "over_consumption db1 a \<and> (\<exists>u'. user_of db1 uid = Some u' \<and> du_status u' = Active \<and>
    user_of (snd (enforce_admin_consumption now' a db1)) uid = Some u')"
proof -
  have o: "over_consumption db1 a"
    using over reset_keeps_lifetime [OF ok u(1,2), of now] by (auto simp: over_consumption_def db1 split: option.splits)
  have db1': "db1 = set_user uid reset_row (add_reset_log now u db)" using u(1) by (simp add: db1 reset_user_data_usage_def)
  have ok1: "ids_ok db1" using ok by (simp add: ids_ok_def db1')
  have r: "user_of db1 uid = Some (reset_row u)"
    using user_of_set [of reset_row uid "add_reset_log now u db"] u(1) by (simp add: db1' user_of_def)
  have st: "du_status (reset_row u) = Active" using u(3) by (simp add: reset_row_def spared_by_reset_def status_value_def)
  have fl: "du_admin_limit_disabled (reset_row u)" using u(4) by (simp add: reset_row_def)
  have "user_of (snd (enforce_admin_consumption now' a db1)) uid =
      map_option (\<lambda>x. if owned_by (da_id a) x then enforce_on True now' x else x) (user_of db1 uid)"
    unfolding user_of_def enforce_users using o by (simp add: one_or_none_update)
  then show ?thesis using o r st fl by (simp add: enforce_on_def)
qed

text \<open>
  The hourly reset never adds a user back to the Xray core: it asks for the status after the reset has already replaced it.\<close>

lemma reset_job_never_readds:
  assumes "ids_ok (fst w)"
  shows "snd (reset_one now uid w) = snd w"
proof (cases "user_of (fst w) uid")
  case (Some u)
  have "user_of (reset_user_data_usage now uid (fst w)) uid = Some (reset_row u)"
    using user_of_set [of reset_row uid "add_reset_log now u (fst w)"] Some by (simp add: reset_user_data_usage_def user_of_def)
  moreover have "du_status (reset_row u) \<noteq> Limited"
    by (cases "du_status u") (simp_all add: reset_row_def spared_by_reset_def status_value_def)
  ultimately show ?thesis using Some by (simp add: reset_one_def Let_def)
qed (simp add: reset_one_def)

text \<open>A plan that fires replaces the data limit without a look at the allocation cap; a plan of zero bytes makes it unlimited.\<close>

lemma next_plan_ignores_the_cap:
  assumes "user_of db uid = Some u" "du_next_plan u = Some p" "np_add_remaining_traffic p"
  shows "\<exists>u'. user_of (snd (reset_user_by_next now uid db)) uid = Some u' \<and> du_data_limit u' = Some (np_data_limit p)"
  using assms user_of_set [of "\<lambda>x. x\<lparr>du_node_usages := [], du_status := Active, du_data_limit := Some (np_data_limit p),
      du_expire := np_expire p, du_used_traffic := 0, du_next_plan := None\<rparr>" uid "add_reset_log now u db"]
  by (simp add: reset_user_by_next_def next_limit_def user_of_def)

text \<open>
  A refused edit can be partly committed: deleting a reminder in the middle commits the new data limit before the expiry is
  refused.\<close>

definition ex_reminded_db :: user_db where
  "ex_reminded_db = ex_capped_db\<lparr>admins := [ex_db_admin\<lparr>da_max_duration_days := Some 1\<rparr>],
     reminders := [\<lparr>rm_id = 1, rm_user = 1, rm_type = DataUsage, rm_threshold = Some 80, rm_expires_at = None\<rparr>]\<rparr>"

definition ex_modify :: user_modify where
  "ex_modify = \<lparr>um_proxies = None, um_excluded = None, um_status = None, um_ip_limit = None, um_device_limit = None, um_download_mbps = None,
     um_upload_mbps = None, um_data_limit = Some 9, um_expire = Some 1000000, um_note = None, um_reset_strategy = None,
     um_on_hold_timeout = None, um_on_hold_expire_duration = None, um_next_plan = None\<rparr>"

lemma refused_edit_is_partly_committed:
  "fst (update_user ex_user_env 0 1 ex_modify ex_reminded_db) = Inl (AdminLimitError ''max_user_duration'') \<and>
   map du_data_limit (users ex_reminded_db) = [Some 6] \<and>
   map du_data_limit (users (snd (update_user ex_user_env 0 1 ex_modify ex_reminded_db))) = [Some 9]"
  by code_simp

end
