(* ===== verification/Spec2Isabelle.thy ===== *)
theory Spec2Isabelle
  imports Stats Quota PyValue CoreManagerProps ClientApiProps Sessions Policy JsonPatch QrMatrix QrData
    Provision Devices Seal Passwords Consolidation Ports Matrix RoutingEngine IpLimits BuildServiceProps
    AppAccessProps AppConnProps OutboundStoreProps OutboundManager OutboundRender StudioServiceProps UsageJournalProps
    UserCapsProps
begin

text \<open>
  Verification of Zagros, a multi-core VPN panel written in Python.

  Zagros runs several VPN programs (``cores'') on one host. The core manager owns their life cycle, the
  services beside it provision users on every core, count traffic, limit devices and addresses, admit
  connections and route traffic, and the client API hands credentials and sealed configurations to
  applications. The development models these parts as functions over explicit state, one theory per
  component. Python dictionaries are association lists in insertion order, exceptions are the left side of a
  sum, unbounded integers are \<open>int\<close>, bytes are lists of \<open>8 word\<close> or of integers, and times are integers in
  microseconds with an optional zone flag. What lies outside the repository (SHA-256, HMAC, scrypt, JSON
  text, the \<open>cryptography\<close> package, VPN programs behind a driver, nft, random draws, the clock) is an
  argument of the definitions that use it, with its documented behaviour as a hypothesis where needed.

  \<^bold>\<open>Shared theories.\<close>
  \<^item> \<open>Prelude\<close>: dictionaries, results, the locale \<open>keyed_store\<close> of a dictionary with its laws, interpreted on
    the association lists every component uses; the collection \<open>dict_simps\<close>.
  \<^item> \<open>PyValue\<close>: JSON-like values with Python equality (a boolean equals an integer) and text operations.
  \<^item> \<open>PyTime\<close>: datetimes and the comparison that raises on naive against aware values.
  \<^item> \<open>Base64\<close>: the unpadded URL-safe codec of \<open>clientapi/tokens.py\<close>.
  \<^item> \<open>PyJson\<close>: compact printing and parsing of JSON text as \<open>json.dumps\<close> and \<open>json.loads\<close> do it; parsing inverts printing.
  \<^item> \<open>SqlTable\<close>: tables as lists of rows, the lookups and bulk updates of SQLAlchemy, hexadecimal digests, and
    \<open>table_change\<close>, the changes that keep every key and only move a row along a given relation.

  \<^bold>\<open>Cores.\<close>
  \<^item> \<open>CoreManager\<close>, \<open>CoreManagerInv\<close>, \<open>CoreManagerProps\<close>: \<open>cores/manager.py\<close> with the state store of
    \<open>persistence/repositories.py\<close>. The dictionaries of drivers, states and enabled flags and the store rows
    are one record; each public operation is one definition with its guards, the transition through a
    transient state, and both outcomes of the driver call. Shown: the invariant of all reachable states,
    recovery after a crash, every branch of starting and uninstalling, what a health cycle reconciles, and
    two flaws (a failed stop in a restart, a race of the health cycle with an uninstall).
  \<^item> \<open>Provision\<close>: the provisioning fan-out of the manager; failures stay with their core.
  \<^item> \<open>Stats\<close>, \<open>Quota\<close>: \<open>cores/stats.py\<close> and \<open>cores/quota.py\<close>. The locale \<open>counter_tracker\<close> is what both
    trackers promise, the locale \<open>quota_store\<close> is the storage port of the quota service, interpreted on
    the in-memory store.
  \<^item> \<open>Sessions\<close>, \<open>Devices\<close>: \<open>cores/sessions.py\<close>, \<open>cores/devices.py\<close>; diffing of polls, history, device
    identity and limits.
  \<^item> \<open>Policy\<close>: \<open>cores/policy\<close>; hour windows as arcs of the week, admission, enforcement map.
  \<^item> \<open>Consolidation\<close>, \<open>Matrix\<close>: \<open>cores/consolidation.py\<close>, \<open>cores/matrix.py\<close>.
  \<^item> \<open>RoutingModel\<close>, \<open>RoutingPolicy\<close>, \<open>RoutingEngine\<close>: \<open>cores/routing\<close>; rule validation, the preview and
    rendering of the host policy plane, its transactional replacement, and the engine over all cores.
  \<^item> \<open>OutboundModel\<close>, \<open>OutboundStore\<close>, \<open>OutboundStoreProps\<close>: \<open>cores/outbounds/model.py\<close> and \<open>repository.py\<close>; profiles with
    their validation, the encrypted envelope they are stored in, the view of the API and the merging of writes. Shown:
    the round trip of the envelope (which loses the node scope), that secrets never appear in the clear, and what a merge keeps.
  \<^item> \<open>OutboundManager\<close>: \<open>cores/outbounds/manager.py\<close> with \<open>decorate\<close> of the policy router; the drivers and the policy layer
    are records of calls on an arbitrary world. Shown: the cycle guard decides reachability, plans stay acyclic, and a failed
    deployment has already pushed the cores before the failing one.
  \<^item> \<open>OutboundRender\<close>: \<open>cores/outbounds/stream_render.py\<close> and \<open>wireguard_profile.py\<close>; an imported profile has keys of 32 bytes,
    ports and numbers in range.
  \<^item> \<open>UsageJournal\<close>, \<open>UsageJournalProps\<close>: the journal of \<open>persistence/repositories.py\<close> and \<open>jobs/usage_retention.py\<close>; collapsing
    keeps the daily sums and the rollups agree with the rows.
  \<^item> \<open>QrCode\<close>, \<open>QrField\<close>, \<open>QrData\<close>, \<open>QrMatrix\<close>: \<open>cores/qr.py\<close> in bytes and modules. The Reed-Solomon code
    rests on the locale \<open>char2_ring\<close>, interpreted on the table multiplication.

  \<^bold>\<open>Client side and cryptography.\<close>
  \<^item> \<open>ClientApi\<close>, \<open>ClientApiProps\<close>: \<open>clientapi\<close>; signed access tokens, rotating refresh tokens, one-time
    connect tokens, login rate limit; the step relation \<open>api_steps\<close> gives the safety properties over all
    later states.
  \<^item> \<open>AesGcm\<close>, \<open>AesGcmProps\<close>, \<open>X25519\<close>, \<open>Seal\<close>, \<open>Passwords\<close>: \<open>crypto\<close>; the pure-Python ciphers are
    translated in full, the sealed envelope goes through the locale \<open>aead\<close>.
  \<^item> \<open>SecretsCipher\<close>: \<open>persistence/cipher.py\<close>; credential rows as versioned, authenticated ciphertexts of JSON.

  \<^bold>\<open>Platform and studio.\<close>
  \<^item> \<open>IpLimits\<close>: \<open>platform/ip_limits.py\<close>; reviews, bans and the nft script.
  \<^item> \<open>JsonPatch\<close>, \<open>Ports\<close>: \<open>studio/jsonpatch.py\<close>, \<open>studio/ports.py\<close>.
  \<^item> \<open>StudioValidate\<close>: \<open>studio/validate.py\<close> and \<open>studio/headers.py\<close>; the schema validator accepts exactly the conforming values.
  \<^item> \<open>StudioService\<close>, \<open>StudioServiceProps\<close>: \<open>studio/service.py\<close>; a request is a transaction on the stored document, and the
    inbound wizard refines a list of uniquely tagged entries.

  \<^bold>\<open>Users and administrators.\<close>
  \<^item> \<open>UserDb\<close>: the tables of \<open>db/models.py\<close> and the operations of \<open>db/crud.py\<close> on users, administrators, reminders and inbounds, with
    the request models and proxy settings of \<open>models\<close>. An operation that commits on the way works on a pair of the committed and
    the pending database, and an exception returns the committed one.
  \<^item> \<open>UserJobs\<close>: \<open>jobs/review_users.py\<close>, \<open>reset_user_data_usage.py\<close> and \<open>remove_expired_users.py\<close>; calls of the Xray core and the
    reporters are logged in order.
  \<^item> \<open>UserProps\<close>, \<open>UserCapsProps\<close>: the locale \<open>row_job\<close> is a job that treats users one by one, interpreted on both loops of the
    review, which is then row-wise. The caps of an administrator hold after creation and editing, the consumption cap restores exactly
    what it suspended; and the flaws: one user stops every review, a revocation keeps the credentials, a reset escapes the
    consumption cap, a next plan ignores the allocation cap, a refused edit is partly stored.

  \<^bold>\<open>Application builder.\<close>
  \<^item> \<open>PyRegex\<close>: the backtracking semantics of the regular expressions the validators use, with greedy choice,
    zero-width assertions and groups for substitution.
  \<^item> \<open>BuildValidators\<close>: \<open>builder/validators.py\<close>; versions, repositories against the allow list, targets, the
    walk of the configuration and the redaction of secrets. Shown: what an accepted configuration and an
    accepted target list look like, and that redaction leaves no secret under a secret key.
  \<^item> \<open>ArtifactStore\<close>: \<open>builder/artifacts.py\<close> over a file system (a dictionary from paths to contents);
    published artifacts never change.
  \<^item> \<open>BuildRepo\<close>, \<open>BuildRepoInv\<close>, \<open>BuildRepoProps\<close>: \<open>builder/repository.py\<close> over the tables of
    \<open>persistence/models.py\<close>, one definition per transaction; the step relation \<open>repo_step\<close> has a rule per
    operation. Shown: the invariant of the tables, finished builds are final, claims are exclusive, revoked
    credentials stay closed.
  \<^item> \<open>BuildService\<close>, \<open>BuildServiceProps\<close>: \<open>builder/service.py\<close> composed from the three above and the queue;
    dispatching is all or nothing and recorded artifacts can be downloaded.

  \<^bold>\<open>Application API.\<close>
  \<^item> \<open>AppDb\<close>: the tables of \<open>persistence/models.py\<close> the API works on, its errors, contexts, audit log and the
    device policy of \<open>persistence/device_authority.py\<close>.
  \<^item> \<open>AppAuthRepo\<close>, \<open>AppEnrollRepo\<close>, \<open>AppConnRepo\<close>: \<open>applicationapi/repository.py\<close>, one definition per
    transaction: applications, keys and grants, tickets, the replay ledger, throttle buckets, enrollment, refresh
    token families, the authority check, config grants, connections and leases.
  \<^item> \<open>AppRequests\<close>: \<open>applicationapi/security.py\<close> and \<open>tokens.py\<close>; the canonical form of a request is unambiguous.
  \<^item> \<open>AppAuthService\<close>, \<open>AppConnService\<close>: \<open>applicationapi/service.py\<close> and \<open>connection_service.py\<close> as sequences of
    those transactions, with the cores and nodes as a state behind a record of calls.
  \<^item> \<open>AppSteps\<close>, \<open>AppSamples\<close>: the step relation \<open>app_step\<close> with a rule per transaction (a rotation may have read
    an earlier state), what each step does to each table, and a small concrete run.
  \<^item> \<open>AppAuthProps\<close>, \<open>AppEnrollProps\<close>, \<open>AppAccessProps\<close>: token families die on reuse, tickets enroll once, device
    limits hold, config grants are delivered once, revoked applications stay closed, nonces are refused within
    the window; and two flaws (replay of early requests, refresh without a grant).
  \<^item> \<open>AppConnInv\<close>, \<open>AppConnProps\<close>: the invariant of connections and leases, what a sweep settles, and two flaws
    of enforcement (a late completion, one unreadable lease).

  \<^bold>\<open>Bounds and termination.\<close> Loops are structural recursions or have a termination
  proof (the search for a free tag in \<open>Consolidation\<close>, whose measure is the number of taken tags above the
  counter; the depth-first search of \<open>OutboundManager\<close>, whose measure is the number of unseen nodes with the stack). The JSON parser of
  \<open>PyJson\<close> has fuel above twice the length of its input, which is shown to be enough for every text. The batches of the
  retention job have the bound of the source. The random probes of the port suggestion are a function from the attempt number to the draw, for
  the fixed number of attempts of the source. The step relations have no bound on their length.

  \<^bold>\<open>Not modelled.\<close> HTTP endpoints and chat bots (framework glue), SQL repositories other than those of the
  builder, of the Application API, of the usage journal and of the user tables (of which listings, usage queries, host editing and the
  creation of templates and administrators are left out), the drivers and everything that starts processes or edits the host, remote node calls,
  backup and restore, the form tables of the outbound and inbound wizards, page and subscription templates, certificates, the RQ client, the SSH probe and the
  source lookup of the builder, the config encryption, icons and list projections of the Application API. Retries
  of a throttle bucket after a lost insert race and the wording of errors are not modelled. Concurrency is modelled where the code
  awaits between a read and a write that depend on each other; the event loop itself is not.
\<close>

end
